(* ===== verification/Prelude.thy ===== *)
theory Prelude
  imports Main "HOL-Library.Word" "HOL-Library.Finite_Map" "HOL-Library.Monad_Syntax"
begin

text \<open>
  Shared vocabulary of the development.

  \<^item> Machine integers: \<open>u8\<close>, \<open>u64\<close> and \<open>u128\<close> are words; a \<open>usize\<close> count or length is
    a \<open>nat\<close> whose every checked operation is written against \<open>usize_max\<close> (64-bit target).
  \<^item> \<open>('a, 'e) result\<close> is Rust's \<open>Result\<close>; \<open>'a exec\<close> is a computation that may
    panic, with \<open>None\<close> for the panic (\<open>expect\<close>, \<open>unreachable!\<close>, an overflowing
    \<open>+=\<close> or an underflowing \<open>-=\<close>).
  \<^item> A \<open>HashMap\<close> or \<open>BTreeMap\<close> is a finite map; \<open>fm_sum\<close> adds a quantity over its entries.
  \<^item> The locale \<open>guarded_machine\<close> states once what every stateful component is asked to prove:
    no operation panics in a good state and every operation leads to a good state.
\<close>

section \<open>Machine integers\<close>

type_synonym u8 = "8 word"
type_synonym u64 = "64 word"
type_synonym u128 = "128 word"

definition usize_max :: nat where
  "usize_max = 2 ^ 64 - 1"

definition checked_add :: "nat \<Rightarrow> nat \<Rightarrow> nat option" where
  "checked_add a b = (if a + b \<le> usize_max then Some (a + b) else None)"

definition checked_sub :: "nat \<Rightarrow> nat \<Rightarrow> nat option" where
  "checked_sub a b = (if b \<le> a then Some (a - b) else None)"

definition checked_mul :: "nat \<Rightarrow> nat \<Rightarrow> nat option" where
  "checked_mul a b = (if a * b \<le> usize_max then Some (a * b) else None)"

definition saturating_add :: "nat \<Rightarrow> nat \<Rightarrow> nat" where
  "saturating_add a b = min usize_max (a + b)"

definition u64_checked_add :: "u64 \<Rightarrow> u64 \<Rightarrow> u64 option" where
  "u64_checked_add a b = (if unat a + unat b < 2 ^ 64 then Some (a + b) else None)"

named_theorems checked_simps \<open>when a checked operation succeeds and with what value\<close>

lemma checked_add_Some [checked_simps]:
  "checked_add a b = Some c \<longleftrightarrow> c = a + b \<and> a + b \<le> usize_max"
  by (auto simp: checked_add_def)

lemma checked_add_None [checked_simps]: "checked_add a b = None \<longleftrightarrow> usize_max < a + b"
  by (auto simp: checked_add_def)

lemma checked_sub_Some [checked_simps]:
  "checked_sub a b = Some c \<longleftrightarrow> a = c + b"
  by (auto simp: checked_sub_def)

lemma checked_sub_None [checked_simps]: "checked_sub a b = None \<longleftrightarrow> a < b"
  by (auto simp: checked_sub_def)

lemma checked_mul_Some [checked_simps]:
  "checked_mul a b = Some c \<longleftrightarrow> c = a * b \<and> a * b \<le> usize_max"
  by (auto simp: checked_mul_def)

lemma checked_mul_None [checked_simps]: "checked_mul a b = None \<longleftrightarrow> usize_max < a * b"
  by (auto simp: checked_mul_def)

lemma checked_add_le [simp]: "a + b \<le> usize_max \<Longrightarrow> checked_add a b = Some (a + b)"
  by (simp add: checked_add_def)

lemma checked_sub_le [simp]: "b \<le> a \<Longrightarrow> checked_sub a b = Some (a - b)"
  by (simp add: checked_sub_def)

lemma saturating_add_le [simp]: "saturating_add a b \<le> usize_max"
  by (simp add: saturating_add_def)

lemma u64_checked_add_Some:
  assumes "u64_checked_add a b = Some c"
  shows "unat c = unat a + unat b" "c = a + b"
  using assms by (auto simp: u64_checked_add_def unat_word_ariths split: if_splits)

lemma u64_checked_add_less:
  assumes "u64_checked_add a b = Some c" "b \<noteq> 0"
  shows "a < c"
proof -
  have "0 < unat b" using assms(2) by (simp add: unat_gt_0)
  then show ?thesis using u64_checked_add_Some(1)[OF assms(1)] by (simp add: word_less_nat_alt)
qed

lemma u64_checked_succ_le:
  assumes "u64_checked_add a 1 = Some c"
  shows "x < c \<longleftrightarrow> x \<le> a" "c \<le> x \<longleftrightarrow> a < x"
  using u64_checked_add_Some(1)[OF assms]
  by (auto simp: word_less_nat_alt word_le_nat_alt)

lemma u64_checked_succ_None: "u64_checked_add a 1 = None \<Longrightarrow> x \<le> a"
  using unsigned_less[of x, where ?'a = nat] by (auto simp: u64_checked_add_def word_le_nat_alt split: if_splits)

section \<open>Results and panicking computations\<close>

datatype ('a, 'e) result = Ok 'a | Err 'e

type_synonym 'a exec = "'a option"

definition ok_or :: "'e \<Rightarrow> 'a option \<Rightarrow> ('a, 'e) result" where
  "ok_or e x = (case x of None \<Rightarrow> Err e | Some v \<Rightarrow> Ok v)"

definition map_err :: "('e \<Rightarrow> 'f) \<Rightarrow> ('a, 'e) result \<Rightarrow> ('a, 'f) result" where
  "map_err f r = (case r of Ok v \<Rightarrow> Ok v | Err e \<Rightarrow> Err (f e))"

definition result_bind :: "('a, 'e) result \<Rightarrow> ('a \<Rightarrow> ('b, 'e) result) \<Rightarrow> ('b, 'e) result" where
  "result_bind r k = (case r of Ok v \<Rightarrow> k v | Err e \<Rightarrow> Err e)"

fun is_ok :: "('a, 'e) result \<Rightarrow> bool" where
  "is_ok (Ok _) = True"
| "is_ok (Err _) = False"

lemma result_bind_simps [simp]:
  "result_bind (Ok v) k = k v"
  "result_bind (Err e) k = Err e"
  by (simp_all add: result_bind_def)

lemma result_bind_Ok:
  "result_bind r k = Ok w \<longleftrightarrow> (\<exists>v. r = Ok v \<and> k v = Ok w)"
  by (cases r) auto

lemma result_bind_Ok_unit:
  "result_bind (r :: (unit, 'e) result) k = Ok w \<longleftrightarrow> r = Ok () \<and> k () = Ok w"
  by (cases r) auto

lemma ok_or_simps [simp]: "ok_or e None = Err e" "ok_or e (Some v) = Ok v"
  by (simp_all add: ok_or_def)

lemma map_err_simps [simp]: "map_err f (Ok v) = Ok v" "map_err f (Err e) = Err (f e)"
  by (simp_all add: map_err_def)

lemma ok_or_Ok: "ok_or e x = Ok v \<longleftrightarrow> x = Some v"
  by (cases x) auto

lemma map_err_Ok: "map_err f r = Ok v \<longleftrightarrow> r = Ok v"
  by (cases r) auto

section \<open>Sums over finite maps\<close>

definition fm_len :: "('k, 'v) fmap \<Rightarrow> nat" where
  "fm_len m = fcard (fmdom m)"

definition fm_sum :: "('k \<Rightarrow> 'v \<Rightarrow> nat) \<Rightarrow> ('k, 'v) fmap \<Rightarrow> nat" where
  "fm_sum f m = (\<Sum>k\<in>fset (fmdom m). f k (the (fmlookup m k)))"

named_theorems fm_simps \<open>how sums and sizes change when a finite map is updated\<close>

lemma fm_sum_empty [simp, fm_simps]: "fm_sum f fmempty = 0"
  by (simp add: fm_sum_def)

lemma fm_sum_split:
  assumes "fmlookup m k = Some v"
  shows "fm_sum f m = f k v + fm_sum f (fmdrop k m)"
proof -
  have k: "k \<in> fset (fmdom m)" using assms by (meson fmlookup_dom_iff)
  have "fm_sum f m = f k v + (\<Sum>x\<in>fset (fmdom m) - {k}. f x (the (fmlookup m x)))"
    unfolding fm_sum_def using k assms by (simp add: sum.remove)
  also have "(\<Sum>x\<in>fset (fmdom m) - {k}. f x (the (fmlookup m x))) = fm_sum f (fmdrop k m)"
    unfolding fm_sum_def by (rule sum.cong) auto
  finally show ?thesis .
qed

lemma fmdrop_fmupd_this [simp]: "fmdrop k (fmupd k v m) = fmdrop k m"
  by (rule fmap_ext) simp

lemma fm_sum_fmupd [fm_simps]: "fm_sum f (fmupd k v m) = f k v + fm_sum f (fmdrop k m)"
  using fm_sum_split[of "fmupd k v m" k v f] by simp

lemma fmdrop_absent: "fmlookup m k = None \<Longrightarrow> fmdrop k m = m"
  by (rule fmap_ext) auto

lemma fm_sum_fresh: "fmlookup m k = None \<Longrightarrow> fm_sum f (fmupd k v m) = f k v + fm_sum f m"
  by (simp add: fm_sum_fmupd fmdrop_absent)

lemma fm_sum_cong:
  assumes "\<And>k v. fmlookup m k = Some v \<Longrightarrow> f k v = g k v"
  shows "fm_sum f m = fm_sum g m"
  unfolding fm_sum_def
proof (rule sum.cong)
  fix k assume "k \<in> fset (fmdom m)"
  then obtain v where "fmlookup m k = Some v" by (meson fmlookup_dom_iff)
  then show "f k (the (fmlookup m k)) = g k (the (fmlookup m k))" using assms by simp
qed simp

lemma fm_sum_member_le:
  assumes "fmlookup m k = Some v"
  shows "f k v \<le> fm_sum f m"
  using fm_sum_split[OF assms, of f] by simp

lemma fm_sum_drop_le: "fm_sum f (fmdrop k m) \<le> fm_sum f m"
proof (cases "fmlookup m k")
  case None
  then show ?thesis by (simp add: fmdrop_absent)
next
  case (Some v)
  then show ?thesis using fm_sum_split[OF Some, of f] by simp
qed

lemma fm_sum_mono:
  assumes "\<And>k v. fmlookup m k = Some v \<Longrightarrow> f k v \<le> g k v"
  shows "fm_sum f m \<le> fm_sum g m"
  unfolding fm_sum_def
proof (rule sum_mono)
  fix k assume "k \<in> fset (fmdom m)"
  then obtain v where "fmlookup m k = Some v" by (meson fmlookup_dom_iff)
  then show "f k (the (fmlookup m k)) \<le> g k (the (fmlookup m k))" using assms by simp
qed

lemma fm_sum_0_iff: "fm_sum f m = 0 \<longleftrightarrow> (\<forall>k v. fmlookup m k = Some v \<longrightarrow> f k v = 0)"
proof
  assume "fm_sum f m = 0"
  then show "\<forall>k v. fmlookup m k = Some v \<longrightarrow> f k v = 0"
    using fm_sum_member_le[of m _ _ f] by fastforce
next
  assume "\<forall>k v. fmlookup m k = Some v \<longrightarrow> f k v = 0"
  then have "fm_sum f m = fm_sum (\<lambda>_ _. 0) m" by (intro fm_sum_cong) auto
  then show "fm_sum f m = 0" by (simp add: fm_sum_def)
qed

lemma fm_len_sum: "fm_len m = fm_sum (\<lambda>_ _. 1) m"
  by (simp add: fm_len_def fm_sum_def fcard.rep_eq)

lemma fm_len_empty [simp, fm_simps]: "fm_len fmempty = 0"
  by (simp add: fm_len_def)

lemma fm_len_fmupd [fm_simps]: "fm_len (fmupd k v m) = Suc (fm_len (fmdrop k m))"
  by (simp add: fm_len_sum fm_sum_fmupd)

lemma fm_len_split: "fmlookup m k = Some v \<Longrightarrow> fm_len m = Suc (fm_len (fmdrop k m))"
  using fm_sum_split[of m k v "\<lambda>_ _. 1"] by (simp add: fm_len_sum)

lemma fm_len_fresh: "fmlookup m k = None \<Longrightarrow> fm_len (fmupd k v m) = Suc (fm_len m)"
  by (simp add: fm_len_fmupd fmdrop_absent)

lemma fm_len_replace: "fmlookup m k = Some v \<Longrightarrow> fm_len (fmupd k w m) = fm_len m"
  using fm_len_split[of m k v] by (simp add: fm_len_fmupd)

lemma fm_len_drop_le: "fm_len (fmdrop k m) \<le> fm_len m"
  unfolding fm_len_sum by (rule fm_sum_drop_le)

lemma fm_len_0_iff [simp]: "fm_len m = 0 \<longleftrightarrow> m = fmempty"
  using fmlookup_dom_iff[of _ m] by (auto simp: fm_len_def fmdom_notI intro!: fmap_ext)

lemma fmdrop_swap: "fmdrop a (fmdrop b m) = fmdrop b (fmdrop a m)"
  by (rule fmap_ext) simp

lemma fmdrop_fmupd_other [simp]: "a \<noteq> b \<Longrightarrow> fmdrop a (fmupd b v m) = fmupd b v (fmdrop a m)"
  by (rule fmap_ext) auto

section \<open>Machines driven by operations\<close>

text \<open>
  A component is a state and a set of operations a host may call in any order. \<open>run_ops\<close>
  executes a list of calls; it is \<open>None\<close> when one of them panics.
\<close>

fun run_ops :: "('s \<Rightarrow> 'op \<Rightarrow> 's exec) \<Rightarrow> 's \<Rightarrow> 'op list \<Rightarrow> 's exec" where
  "run_ops step s [] = Some s"
| "run_ops step s (x # xs) = (case step s x of None \<Rightarrow> None | Some s' \<Rightarrow> run_ops step s' xs)"

lemma run_ops_append:
  "run_ops step s (xs @ ys) =
     (case run_ops step s xs of None \<Rightarrow> None | Some s' \<Rightarrow> run_ops step s' ys)"
  by (induction xs arbitrary: s) (auto split: option.splits)

locale guarded_machine =
  fixes step :: "'s \<Rightarrow> 'op \<Rightarrow> 's exec"
    and good :: "'s \<Rightarrow> bool"
    and allowed :: "'op \<Rightarrow> bool"
  assumes step_good: "good s \<Longrightarrow> allowed x \<Longrightarrow> \<exists>s'. step s x = Some s' \<and> good s'"
begin

lemma step_no_panic: "good s \<Longrightarrow> allowed x \<Longrightarrow> step s x \<noteq> None"
  using step_good by fastforce

lemma step_preserves: "good s \<Longrightarrow> allowed x \<Longrightarrow> step s x = Some s' \<Longrightarrow> good s'"
  using step_good by fastforce

lemma run_good:
  "good s \<Longrightarrow> list_all allowed xs \<Longrightarrow> \<exists>s'. run_ops step s xs = Some s' \<and> good s'"
proof (induction xs arbitrary: s)
  case Nil
  then show ?case by simp
next
  case (Cons x xs)
  then obtain s1 where "step s x = Some s1" "good s1"
    using step_good[of s x] by auto
  with Cons show ?case by simp
qed

lemma run_preserves:
  "good s \<Longrightarrow> list_all allowed xs \<Longrightarrow> run_ops step s xs = Some s' \<Longrightarrow> good s'"
  using run_good by fastforce

end

text \<open>
  A machine with a quantity that no operation can decrease (a clock, a frontier, the set of used
  identities): the relation holds across whole runs.
\<close>

locale monotone_machine = guarded_machine step good allowed
  for step :: "'s \<Rightarrow> 'op \<Rightarrow> 's exec"
    and good :: "'s \<Rightarrow> bool"
    and allowed :: "'op \<Rightarrow> bool" +
  fixes below :: "'s \<Rightarrow> 's \<Rightarrow> bool"
  assumes below_refl: "below s s"
    and below_trans: "below a b \<Longrightarrow> below b c \<Longrightarrow> below a c"
    and step_below: "good s \<Longrightarrow> allowed x \<Longrightarrow> step s x = Some s' \<Longrightarrow> below s s'"
begin

lemma run_below:
  "good s \<Longrightarrow> list_all allowed xs \<Longrightarrow> run_ops step s xs = Some s' \<Longrightarrow> below s s'"
proof (induction xs arbitrary: s)
  case Nil
  then show ?case by (simp add: below_refl)
next
  case (Cons x xs)
  then obtain s1 where s1: "step s x = Some s1" "run_ops step s1 xs = Some s'"
    by (auto split: option.splits)
  then have "below s1 s'" using Cons step_preserves[of s x s1] by simp
  moreover have "below s s1" using Cons.prems s1 step_below[of s x s1] by simp
  ultimately show ?case by (rule below_trans[rotated])
qed

end

end
