(* ===== verification/Bytes.thy ===== *)
theory Bytes
  imports Prelude
begin

text \<open>
  Byte strings: the big-endian bytes of a word (\<open>to_be_bytes\<close>), the number a byte string denotes,
  and the shift-and-or loop that reads it back. The wire theories reason about bytes through these
  numbers only.
\<close>

unbundle bit_operations_syntax

type_synonym bytes = "u8 list"

section \<open>The number a byte string denotes\<close>

definition be_value :: "bytes \<Rightarrow> nat" where
  "be_value = foldl (\<lambda>a b. a * 256 + unat b) 0"

lemma be_value_Nil [simp]: "be_value [] = 0"
  by (simp add: be_value_def)

lemma be_value_snoc [simp]: "be_value (xs @ [b]) = be_value xs * 256 + unat b"
  by (simp add: be_value_def)

lemma be_value_append: "be_value (xs @ ys) = be_value xs * 256 ^ length ys + be_value ys"
proof (induction ys rule: rev_induct)
  case (snoc y ys)
  then show ?case
    by (simp add: append_assoc[symmetric] algebra_simps del: append_assoc)
qed simp

lemma be_value_Cons: "be_value (x # xs) = unat x * 256 ^ length xs + be_value xs"
  using be_value_append[of "[x]" xs] be_value_snoc[of "[]" x] by simp

lemma unat_u8_less: "unat (b :: u8) < 256"
  using unsigned_less[of b] by simp

lemma be_value_less: "be_value xs < 256 ^ length xs"
proof (induction xs rule: rev_induct)
  case (snoc x xs)
  have "be_value xs * 256 + unat x < (be_value xs + 1) * 256" using unat_u8_less[of x] by simp
  also have "\<dots> \<le> 256 ^ length xs * 256" using snoc by (intro mult_right_mono) auto
  finally show ?case by (simp add: mult.commute)
qed simp

lemma be_value_inj:
  "length xs = length ys \<Longrightarrow> be_value xs = be_value ys \<Longrightarrow> xs = ys"
proof (induction xs arbitrary: ys rule: rev_induct)
  case (snoc x xs)
  then obtain y ys' where ys: "ys = ys' @ [y]" by (cases ys rule: rev_cases) auto
  have eq: "be_value xs * 256 + unat x = be_value ys' * 256 + unat y"
    using snoc.prems ys by simp
  then have "unat x = unat y"
    using unat_u8_less[of x] unat_u8_less[of y]
    by (metis mod_mult_self3 mod_less add.commute)
  then have "x = y" by (rule unsigned_word_eqI)
  with eq snoc ys show ?case by simp
qed simp

section \<open>Big-endian bytes of a word\<close>

fun be_bytes :: "nat \<Rightarrow> 'a::len word \<Rightarrow> bytes" where
  "be_bytes 0 w = []"
| "be_bytes (Suc n) w = be_bytes n (drop_bit 8 w) @ [ucast w]"

lemma length_be_bytes [simp]: "length (be_bytes n w) = n"
  by (induction n arbitrary: w) simp_all

lemma unat_ucast_u8: "unat (ucast (w :: 'a::len word) :: u8) = unat w mod 256"
  by (simp add: unsigned_ucast_eq take_bit_eq_mod)

lemma unat_drop_8: "unat (drop_bit 8 (w :: 'a::len word)) = unat w div 256"
  by (simp only: unat_drop_bit_eq) (simp add: drop_bit_eq_div)

lemma be_value_be_bytes: "be_value (be_bytes n w) = unat w mod 256 ^ n"
proof (induction n arbitrary: w)
  case (Suc n)
  have "unat w mod (256 * 256 ^ n) = 256 * (unat w div 256 mod 256 ^ n) + unat w mod 256"
    by (rule mod_mult2_eq)
  with Suc show ?case by (simp add: unat_ucast_u8 unat_drop_8)
qed simp

section \<open>Reading bytes back\<close>

lemma unat_ucast_u64: "unat (ucast (b :: u8) :: u64) = unat b"
  by (simp add: unsigned_ucast_eq take_bit_nat_eq_self_iff order.strict_trans[OF unat_u8_less])

definition shift_in :: "u64 \<Rightarrow> u8 \<Rightarrow> u64" where
  "shift_in value byte = push_bit 8 value OR ucast byte"

lemma unat_shift_in:
  assumes "unat v < 2 ^ 56"
  shows "unat (shift_in v b) = unat v * 256 + unat b"
proof -
  have "push_bit 8 v AND ucast b = (0 :: u64)"
    by (auto simp: bit_eq_iff bit_simps dest: bit_imp_le_length)
  then have "shift_in v b = v * 256 + ucast b"
    by (simp add: shift_in_def disjunctive_add_eq_or[symmetric] push_bit_eq_mult)
  moreover have "unat (v * 256) = unat v * 256"
    using assms by (simp add: unat_word_ariths)
  ultimately show ?thesis
    using assms unat_u8_less[of b] by (simp add: unat_plus_if' unat_ucast_u64)
qed

lemma unat_shift_in_all:
  assumes "(unat v + 1) * 256 ^ length bs \<le> 2 ^ 64"
  shows "unat (foldl shift_in v bs) = unat v * 256 ^ length bs + be_value bs"
  using assms
proof (induction bs rule: rev_induct)
  case (snoc b bs)
  have bound: "(unat v + 1) * 256 ^ length bs \<le> 2 ^ 56"
    using snoc.prems by simp
  then have IH: "unat (foldl shift_in v bs) = unat v * 256 ^ length bs + be_value bs"
    using snoc.IH by simp
  then have "unat (foldl shift_in v bs) < 2 ^ 56"
    using bound be_value_less[of bs] by simp
  then show ?case
    using IH by (simp add: unat_shift_in algebra_simps)
qed simp

end
