(* ===== verification/Identity.thy ===== *)
theory Identity
  imports Prelude
begin

text \<open>
  \<open>crates/runen-net/src/identity.rs\<close>: the opaque identity newtypes and the bounded registry
  that makes an incarnation identity usable once. The three ordered newtypes of the core
  (\<open>SimulationTick\<close> here, the recovery clock and the replication cursor later) get their derived
  order as instances of \<open>linorder\<close>.

  The locale \<open>single_use_registry\<close> is the interface the session component relies on.
\<close>

section \<open>Identity newtypes\<close>

datatype session_id = SessionId (session_id_get: u128)
datatype participant_id = ParticipantId (participant_get: u128)
datatype network_entity_id = NetworkEntityId (network_entity_get: u128)
datatype connection_handle = ConnectionHandle (connection_get: u64)

datatype simulation_tick = SimulationTick (tick_get: u64)

instantiation simulation_tick :: linorder
begin

definition less_eq_simulation_tick :: "simulation_tick \<Rightarrow> simulation_tick \<Rightarrow> bool" where
  "less_eq_simulation_tick a b \<longleftrightarrow> tick_get a \<le> tick_get b"

definition less_simulation_tick :: "simulation_tick \<Rightarrow> simulation_tick \<Rightarrow> bool" where
  "less_simulation_tick a b \<longleftrightarrow> tick_get a < tick_get b"

instance
  by standard (auto simp: less_eq_simulation_tick_def less_simulation_tick_def
      intro: simulation_tick.expand)

end

lemmas tick_order_defs = less_eq_simulation_tick_def less_simulation_tick_def

section \<open>The incarnation registry\<close>

datatype incarnation_claim_error = AlreadyUsed | CapacityExceeded

record 'i incarnation_registry =
  max_claims :: nat
  used :: "'i fset"

definition registry_new :: "nat \<Rightarrow> 'i incarnation_registry" where
  "registry_new n = \<lparr>max_claims = n, used = {||}\<rparr>"

definition registry_claim ::
  "'i incarnation_registry \<Rightarrow> 'i \<Rightarrow>
     (unit, incarnation_claim_error) result \<times> 'i incarnation_registry" where
  "registry_claim r i =
     (if i |\<in>| used r then (Err AlreadyUsed, r)
      else if max_claims r \<le> fcard (used r) then (Err CapacityExceeded, r)
      else (Ok (), r\<lparr>used := finsert i (used r)\<rparr>))"

definition registry_contains :: "'i incarnation_registry \<Rightarrow> 'i \<Rightarrow> bool" where
  "registry_contains r i \<longleftrightarrow> i |\<in>| used r"

definition registry_ok :: "'i incarnation_registry \<Rightarrow> bool" where
  "registry_ok r \<longleftrightarrow> fcard (used r) \<le> max_claims r"

lemma registry_new_ok [simp]: "registry_ok (registry_new n)"
  by (simp add: registry_ok_def registry_new_def fcard.rep_eq)

lemma registry_claim_ok: "registry_ok r \<Longrightarrow> registry_ok (snd (registry_claim r i))"
  by (auto simp: registry_ok_def registry_claim_def fcard_finsert)

lemma registry_claim_max [simp]: "max_claims (snd (registry_claim r i)) = max_claims r"
  by (simp add: registry_claim_def)

text \<open>
  What a client relies on: a successful claim was of a fresh identity and makes exactly that
  identity used; a refused one changes nothing; a used identity is always refused.
\<close>

locale single_use_registry =
  fixes claim :: "'r \<Rightarrow> 'i \<Rightarrow> (unit, 'e) result \<times> 'r"
    and contains :: "'r \<Rightarrow> 'i \<Rightarrow> bool"
  assumes claim_Ok_fresh: "claim r i = (Ok (), r') \<Longrightarrow> \<not> contains r i"
    and claim_Ok_contains: "claim r i = (Ok (), r') \<Longrightarrow> contains r' j \<longleftrightarrow> j = i \<or> contains r j"
    and claim_Err_same: "claim r i = (Err e, r') \<Longrightarrow> r' = r"
    and claim_used: "contains r i \<Longrightarrow> \<exists>e. fst (claim r i) = Err e"
begin

fun claim_all :: "'r \<Rightarrow> 'i list \<Rightarrow> 'i list \<times> 'r" where
  "claim_all r [] = ([], r)"
| "claim_all r (i # is) =
     (case claim r i of
        (Ok _, r') \<Rightarrow> (let (won, r'') = claim_all r' is in (i # won, r''))
      | (Err _, r') \<Rightarrow> claim_all r' is)"

lemma contains_mono: "contains r j \<Longrightarrow> contains (snd (claim r i)) j"
  by (cases "claim r i"; cases "fst (claim r i)")
     (auto simp: claim_Ok_contains dest: claim_Err_same)

lemma claim_all_sound:
  "claim_all r is = (won, r') \<Longrightarrow>
     distinct won \<and> (\<forall>i\<in>set won. \<not> contains r i) \<and> (\<forall>i. contains r' i \<longleftrightarrow> contains r i \<or> i \<in> set won)"
proof (induction "is" arbitrary: r won r')
  case Nil
  then show ?case by simp
next
  case (Cons i "is")
  obtain q r1 where q: "claim r i = (q, r1)" by fastforce
  show ?case
  proof (cases q)
    case (Ok u)
    then obtain won1 where w: "claim_all r1 is = (won1, r')" "won = i # won1"
      using Cons.prems q by (auto split: prod.splits)
    have "claim r i = (Ok (), r1)" using q Ok by simp
    then show ?thesis
      using Cons.IH[OF w(1)] w(2) claim_Ok_fresh claim_Ok_contains by auto
  next
    case (Err e)
    then have "r1 = r" using q claim_Err_same by blast
    then show ?thesis using Cons q Err by simp
  qed
qed

end

interpretation incarnation: single_use_registry registry_claim registry_contains
  by unfold_locales (auto simp: registry_claim_def registry_contains_def split: if_splits)

end
