(* ===== verification/Offers.thy ===== *)
theory Offers
  imports Identity
begin

text \<open>
  The compatibility declarations of \<open>crates/runen-net/src/protocol.rs\<close> and the fluent builders of
  \<open>protocol_declaration.rs\<close>: offers, their limits, the accounting of their size and
  \<open>CompatibilityOffer::validate\<close>. Diagnostic labels are strings of bytes, as \<open>String::len\<close> counts.

  The lemma group \<open>offer_validate_*\<close> shows that the loops over \<open>HashSet::insert\<close> decide exactly
  the declarative predicate \<open>offer_wf\<close>.
\<close>

section \<open>Declarations\<close>

datatype protocol_id = ProtocolId (protocol_id_get: u128)
datatype protocol_revision = ProtocolRevision (protocol_revision_get: u128)
datatype schema_id = SchemaId (schema_id_get: u128)
datatype schema_contract_id = SchemaContractId (schema_contract_id_get: u128)
datatype codec_id = CodecId (codec_id_get: u128)
datatype capability_id = CapabilityId (capability_id_get: u128)

record protocol_contract =
  pc_id :: protocol_id
  pc_revision :: protocol_revision

datatype requirement_level = Required | Optional

record capability_offer =
  co_id :: capability_id
  co_requirement :: requirement_level

record schema_contract_offer =
  sco_contract_id :: schema_contract_id
  sco_codecs :: "codec_id list"

record schema_offer =
  so_id :: schema_id
  so_requirement :: requirement_level
  so_contracts :: "schema_contract_offer list"

record compatibility_offer =
  off_protocols :: "protocol_contract list"
  off_capabilities :: "capability_offer list"
  off_schemas :: "schema_offer list"
  off_diagnostic_label :: "string option"

record offer_limits =
  lim_protocols :: nat
  lim_capabilities :: nat
  lim_schemas :: nat
  lim_contracts_per_schema :: nat
  lim_codecs_per_contract :: nat
  lim_diagnostic_label_bytes :: nat
  lim_offer_accounted_bytes :: nat

definition offer_limits_default :: offer_limits where
  "offer_limits_default =
     \<lparr>lim_protocols = 8, lim_capabilities = 64, lim_schemas = 128,
      lim_contracts_per_schema = 8, lim_codecs_per_contract = 8,
      lim_diagnostic_label_bytes = 256, lim_offer_accounted_bytes = 64 * 1024\<rparr>"

datatype offer_validation_error =
    InvalidLimits
  | EmptyProtocolAlternatives
  | TooManyProtocolAlternatives
  | DuplicateProtocolAlternative
  | TooManyCapabilities
  | DuplicateCapability
  | TooManySchemas
  | DuplicateSchema
  | EmptySchemaContracts
  | TooManySchemaContracts
  | DuplicateSchemaContract
  | EmptyCodecs
  | TooManyCodecs
  | DuplicateCodec
  | DiagnosticLabelTooLong
  | OfferTooLarge
  | AccountingOverflow

record validated_offer =
  vo_offer :: compatibility_offer
  vo_accounted_bytes :: nat

section \<open>Builders\<close>

definition offer_builder_new :: compatibility_offer where
  "offer_builder_new =
     \<lparr>off_protocols = [], off_capabilities = [], off_schemas = [], off_diagnostic_label = None\<rparr>"

definition builder_protocol ::
  "protocol_id \<Rightarrow> protocol_revision \<Rightarrow> compatibility_offer \<Rightarrow> compatibility_offer" where
  "builder_protocol i r b =
     b\<lparr>off_protocols := off_protocols b @ [\<lparr>pc_id = i, pc_revision = r\<rparr>]\<rparr>"

definition builder_capability ::
  "capability_id \<Rightarrow> requirement_level \<Rightarrow> compatibility_offer \<Rightarrow> compatibility_offer" where
  "builder_capability i q b =
     b\<lparr>off_capabilities := off_capabilities b @ [\<lparr>co_id = i, co_requirement = q\<rparr>]\<rparr>"

definition builder_schema :: "schema_offer \<Rightarrow> compatibility_offer \<Rightarrow> compatibility_offer" where
  "builder_schema s b = b\<lparr>off_schemas := off_schemas b @ [s]\<rparr>"

definition builder_diagnostic_label :: "string \<Rightarrow> compatibility_offer \<Rightarrow> compatibility_offer" where
  "builder_diagnostic_label l b = b\<lparr>off_diagnostic_label := Some l\<rparr>"

definition schema_builder_new :: "schema_id \<Rightarrow> requirement_level \<Rightarrow> schema_offer" where
  "schema_builder_new i q = \<lparr>so_id = i, so_requirement = q, so_contracts = []\<rparr>"

definition schema_builder_contract :: "schema_contract_offer \<Rightarrow> schema_offer \<Rightarrow> schema_offer" where
  "schema_builder_contract c b = b\<lparr>so_contracts := so_contracts b @ [c]\<rparr>"

definition contract_builder_new :: "schema_contract_id \<Rightarrow> schema_contract_offer" where
  "contract_builder_new i = \<lparr>sco_contract_id = i, sco_codecs = []\<rparr>"

definition contract_builder_codec :: "codec_id \<Rightarrow> schema_contract_offer \<Rightarrow> schema_contract_offer" where
  "contract_builder_codec c b = b\<lparr>sco_codecs := sco_codecs b @ [c]\<rparr>"

section \<open>Accounting\<close>

definition ID_BYTES :: nat where "ID_BYTES = 16"
definition REQUIREMENT_BYTES :: nat where "REQUIREMENT_BYTES = 1"
definition PROTOCOL_BYTES :: nat where "PROTOCOL_BYTES = ID_BYTES * 2"

definition checked_add_mul :: "nat \<Rightarrow> nat \<Rightarrow> nat \<Rightarrow> (nat, offer_validation_error) result" where
  "checked_add_mul acc count per_item =
     ok_or AccountingOverflow
       (do { bytes \<leftarrow> checked_mul count per_item; checked_add acc bytes })"

fun account_contracts ::
  "nat \<Rightarrow> schema_contract_offer list \<Rightarrow> (nat, offer_validation_error) result" where
  "account_contracts acc [] = Ok acc"
| "account_contracts acc (c # cs) =
     result_bind (checked_add_mul acc (length (sco_codecs c)) ID_BYTES)
       (\<lambda>acc. account_contracts acc cs)"

fun account_schemas ::
  "nat \<Rightarrow> schema_offer list \<Rightarrow> (nat, offer_validation_error) result" where
  "account_schemas acc [] = Ok acc"
| "account_schemas acc (s # ss) =
     result_bind (ok_or AccountingOverflow (checked_add acc (ID_BYTES + REQUIREMENT_BYTES)))
       (\<lambda>acc. result_bind (checked_add_mul acc (length (so_contracts s)) ID_BYTES)
         (\<lambda>acc. result_bind (account_contracts acc (so_contracts s))
           (\<lambda>acc. account_schemas acc ss)))"

definition accounted_offer_bytes ::
  "compatibility_offer \<Rightarrow> (nat, offer_validation_error) result" where
  "accounted_offer_bytes off =
     result_bind (checked_add_mul 0 (length (off_protocols off)) PROTOCOL_BYTES)
       (\<lambda>acc. result_bind
          (checked_add_mul acc (length (off_capabilities off)) (ID_BYTES + REQUIREMENT_BYTES))
       (\<lambda>acc. result_bind (account_schemas acc (off_schemas off))
       (\<lambda>acc. case off_diagnostic_label off of
          Some label \<Rightarrow> ok_or AccountingOverflow (checked_add acc (length label))
        | None \<Rightarrow> Ok acc)))"

section \<open>Validation\<close>

definition offer_limits_validate :: "offer_limits \<Rightarrow> (unit, offer_validation_error) result" where
  "offer_limits_validate l =
     (if lim_protocols l = 0 \<or> lim_capabilities l = 0 \<or> lim_schemas l = 0
       \<or> lim_contracts_per_schema l = 0 \<or> lim_codecs_per_contract l = 0
       \<or> lim_offer_accounted_bytes l = 0
      then Err InvalidLimits else Ok ())"

text \<open>The loop \<open>for x in xs { if !seen.insert(x) { return Err(e) } }\<close>.\<close>

fun insert_unique :: "'e \<Rightarrow> 'a fset \<Rightarrow> 'a list \<Rightarrow> (unit, 'e) result" where
  "insert_unique e seen [] = Ok ()"
| "insert_unique e seen (x # xs) =
     (if x |\<in>| seen then Err e else insert_unique e (finsert x seen) xs)"

fun validate_contracts ::
  "offer_limits \<Rightarrow> schema_contract_id fset \<Rightarrow> schema_contract_offer list \<Rightarrow>
     (unit, offer_validation_error) result" where
  "validate_contracts l seen [] = Ok ()"
| "validate_contracts l seen (c # cs) =
     (if sco_contract_id c |\<in>| seen then Err DuplicateSchemaContract
      else if sco_codecs c = [] then Err EmptyCodecs
      else if length (sco_codecs c) > lim_codecs_per_contract l then Err TooManyCodecs
      else result_bind (insert_unique DuplicateCodec {||} (sco_codecs c))
        (\<lambda>_. validate_contracts l (finsert (sco_contract_id c) seen) cs))"

fun validate_schemas ::
  "offer_limits \<Rightarrow> schema_id fset \<Rightarrow> schema_offer list \<Rightarrow>
     (unit, offer_validation_error) result" where
  "validate_schemas l seen [] = Ok ()"
| "validate_schemas l seen (s # ss) =
     (if so_id s |\<in>| seen then Err DuplicateSchema
      else if so_contracts s = [] then Err EmptySchemaContracts
      else if length (so_contracts s) > lim_contracts_per_schema l then Err TooManySchemaContracts
      else result_bind (validate_contracts l {||} (so_contracts s))
        (\<lambda>_. validate_schemas l (finsert (so_id s) seen) ss))"

definition offer_validate ::
  "compatibility_offer \<Rightarrow> offer_limits \<Rightarrow> (validated_offer, offer_validation_error) result" where
  "offer_validate off l =
     result_bind (offer_limits_validate l) (\<lambda>_.
     if off_protocols off = [] then Err EmptyProtocolAlternatives
     else if length (off_protocols off) > lim_protocols l then Err TooManyProtocolAlternatives
     else if length (off_capabilities off) > lim_capabilities l then Err TooManyCapabilities
     else if length (off_schemas off) > lim_schemas l then Err TooManySchemas
     else if (case off_diagnostic_label off of None \<Rightarrow> False
              | Some label \<Rightarrow> length label > lim_diagnostic_label_bytes l)
     then Err DiagnosticLabelTooLong
     else result_bind (insert_unique DuplicateProtocolAlternative {||} (off_protocols off)) (\<lambda>_.
       result_bind (insert_unique DuplicateCapability {||} (map co_id (off_capabilities off))) (\<lambda>_.
       result_bind (validate_schemas l {||} (off_schemas off)) (\<lambda>_.
       result_bind (accounted_offer_bytes off) (\<lambda>bytes.
       if bytes > lim_offer_accounted_bytes l then Err OfferTooLarge
       else Ok \<lparr>vo_offer = off, vo_accounted_bytes = bytes\<rparr>)))))"

section \<open>Reading a validated offer\<close>

definition supports_protocol :: "validated_offer \<Rightarrow> protocol_contract \<Rightarrow> bool" where
  "supports_protocol v p \<longleftrightarrow> p \<in> set (off_protocols (vo_offer v))"

definition offer_capability :: "validated_offer \<Rightarrow> capability_id \<Rightarrow> capability_offer option" where
  "offer_capability v i = List.find (\<lambda>e. co_id e = i) (off_capabilities (vo_offer v))"

definition offer_schema :: "validated_offer \<Rightarrow> schema_id \<Rightarrow> schema_offer option" where
  "offer_schema v i = List.find (\<lambda>e. so_id e = i) (off_schemas (vo_offer v))"

definition required_capabilities :: "validated_offer \<Rightarrow> capability_id list" where
  "required_capabilities v =
     map co_id (filter (\<lambda>e. co_requirement e = Required) (off_capabilities (vo_offer v)))"

definition required_schemas :: "validated_offer \<Rightarrow> schema_id list" where
  "required_schemas v =
     map so_id (filter (\<lambda>e. so_requirement e = Required) (off_schemas (vo_offer v)))"

section \<open>The declarative contract of validation\<close>

definition contract_wf :: "offer_limits \<Rightarrow> schema_contract_offer \<Rightarrow> bool" where
  "contract_wf l c \<longleftrightarrow> sco_codecs c \<noteq> [] \<and> length (sco_codecs c) \<le> lim_codecs_per_contract l
     \<and> distinct (sco_codecs c)"

definition schema_wf :: "offer_limits \<Rightarrow> schema_offer \<Rightarrow> bool" where
  "schema_wf l s \<longleftrightarrow> so_contracts s \<noteq> [] \<and> length (so_contracts s) \<le> lim_contracts_per_schema l
     \<and> distinct (map sco_contract_id (so_contracts s)) \<and> list_all (contract_wf l) (so_contracts s)"

definition offer_size :: "compatibility_offer \<Rightarrow> nat" where
  "offer_size off = 32 * length (off_protocols off) + 17 * length (off_capabilities off)
     + (\<Sum>s\<leftarrow>off_schemas off. 17 + 16 * length (so_contracts s)
          + (\<Sum>c\<leftarrow>so_contracts s. 16 * length (sco_codecs c)))
     + (case off_diagnostic_label off of None \<Rightarrow> 0 | Some label \<Rightarrow> length label)"

definition limits_positive :: "offer_limits \<Rightarrow> bool" where
  "limits_positive l \<longleftrightarrow> 0 < lim_protocols l \<and> 0 < lim_capabilities l \<and> 0 < lim_schemas l
     \<and> 0 < lim_contracts_per_schema l \<and> 0 < lim_codecs_per_contract l
     \<and> 0 < lim_offer_accounted_bytes l"

definition offer_wf :: "offer_limits \<Rightarrow> compatibility_offer \<Rightarrow> bool" where
  "offer_wf l off \<longleftrightarrow> limits_positive l
     \<and> off_protocols off \<noteq> [] \<and> length (off_protocols off) \<le> lim_protocols l
     \<and> length (off_capabilities off) \<le> lim_capabilities l
     \<and> length (off_schemas off) \<le> lim_schemas l
     \<and> (case off_diagnostic_label off of None \<Rightarrow> True
        | Some label \<Rightarrow> length label \<le> lim_diagnostic_label_bytes l)
     \<and> distinct (off_protocols off) \<and> distinct (map co_id (off_capabilities off))
     \<and> distinct (map so_id (off_schemas off)) \<and> list_all (schema_wf l) (off_schemas off)
     \<and> offer_size off \<le> usize_max \<and> offer_size off \<le> lim_offer_accounted_bytes l"

lemma insert_unique_Ok:
  "insert_unique e seen xs = Ok () \<longleftrightarrow> distinct xs \<and> set xs \<inter> fset seen = {}"
  by (induction xs arbitrary: seen) auto

lemma validate_contracts_Ok:
  "validate_contracts l seen cs = Ok () \<longleftrightarrow>
     distinct (map sco_contract_id cs) \<and> list_all (contract_wf l) cs
     \<and> set (map sco_contract_id cs) \<inter> fset seen = {}"
proof (induction cs arbitrary: seen)
  case (Cons c cs)
  show ?case
    by (simp add: Cons.IH insert_unique_Ok contract_wf_def result_bind_Ok not_less) blast
qed simp

lemma validate_schemas_Ok:
  "validate_schemas l seen ss = Ok () \<longleftrightarrow>
     distinct (map so_id ss) \<and> list_all (schema_wf l) ss \<and> set (map so_id ss) \<inter> fset seen = {}"
proof (induction ss arbitrary: seen)
  case (Cons s ss)
  show ?case
    by (simp add: Cons.IH validate_contracts_Ok schema_wf_def result_bind_Ok not_less) blast
qed simp

lemma checked_add_mul_eq:
  "checked_add_mul t n k = (if t + n * k \<le> usize_max then Ok (t + n * k) else Err AccountingOverflow)"
  by (simp add: checked_add_mul_def checked_add_def checked_mul_def)

lemma account_contracts_eq:
  "account_contracts t cs =
     (let n = t + (\<Sum>c\<leftarrow>cs. 16 * length (sco_codecs c))
      in if cs = [] \<or> n \<le> usize_max then Ok n else Err AccountingOverflow)"
proof (induction cs arbitrary: t)
  case (Cons c cs)
  show ?case
    by (cases "t + 16 * length (sco_codecs c) \<le> usize_max")
       (simp_all add: Cons.IH checked_add_mul_eq ID_BYTES_def Let_def mult.commute add.assoc)
qed simp

definition schemas_size :: "schema_offer list \<Rightarrow> nat" where
  "schemas_size ss = (\<Sum>s\<leftarrow>ss. 17 + 16 * length (so_contracts s)
     + (\<Sum>c\<leftarrow>so_contracts s. 16 * length (sco_codecs c)))"

lemma schemas_size_simps [simp]:
  "schemas_size [] = 0"
  "schemas_size (s # ss) = 17 + 16 * length (so_contracts s)
     + (\<Sum>c\<leftarrow>so_contracts s. 16 * length (sco_codecs c)) + schemas_size ss"
  by (simp_all add: schemas_size_def)

lemma account_schemas_eq:
  "account_schemas t ss =
     (if ss = [] \<or> t + schemas_size ss \<le> usize_max
      then Ok (t + schemas_size ss) else Err AccountingOverflow)"
proof (induction ss arbitrary: t)
  case (Cons s ss)
  let ?C = "\<Sum>c\<leftarrow>so_contracts s. 16 * length (sco_codecs c)"
  show ?case
  proof (cases "t + 17 + 16 * length (so_contracts s) + ?C \<le> usize_max")
    case True
    then show ?thesis
      by (simp add: Cons.IH checked_add_mul_eq account_contracts_eq checked_add_def ID_BYTES_def
          REQUIREMENT_BYTES_def Let_def mult.commute add.assoc)
  next
    case False
    then have "so_contracts s = [] \<Longrightarrow> \<not> t + 17 \<le> usize_max" by auto
    with False show ?thesis
      by (simp add: checked_add_mul_eq account_contracts_eq checked_add_def ID_BYTES_def
          REQUIREMENT_BYTES_def Let_def mult.commute add.assoc)
  qed
qed simp

lemma offer_size_eq:
  "offer_size off = 32 * length (off_protocols off) + 17 * length (off_capabilities off)
     + schemas_size (off_schemas off)
     + (case off_diagnostic_label off of None \<Rightarrow> 0 | Some label \<Rightarrow> length label)"
  by (simp add: offer_size_def schemas_size_def)

lemma accounted_offer_bytes_eq:
  "accounted_offer_bytes off =
     (if offer_size off \<le> usize_max then Ok (offer_size off) else Err AccountingOverflow)"
proof -
  let ?P = "32 * length (off_protocols off)" and ?Q = "17 * length (off_capabilities off)"
  show ?thesis
  proof (cases "?P + ?Q + schemas_size (off_schemas off) \<le> usize_max")
    case True
    then show ?thesis
      by (cases "off_diagnostic_label off")
         (simp_all add: accounted_offer_bytes_def offer_size_eq checked_add_mul_eq
           account_schemas_eq checked_add_def ID_BYTES_def REQUIREMENT_BYTES_def
           PROTOCOL_BYTES_def mult.commute)
  next
    case False
    then have "off_schemas off = [] \<Longrightarrow> \<not> ?P + ?Q \<le> usize_max" by auto
    moreover have "\<not> offer_size off \<le> usize_max"
      using False by (simp add: offer_size_eq)
    ultimately show ?thesis using False
      by (simp add: accounted_offer_bytes_def checked_add_mul_eq
           account_schemas_eq ID_BYTES_def REQUIREMENT_BYTES_def
           PROTOCOL_BYTES_def mult.commute)
  qed
qed

lemma offer_limits_validate_Ok: "offer_limits_validate l = Ok () \<longleftrightarrow> limits_positive l"
  by (auto simp: offer_limits_validate_def limits_positive_def)

lemma offer_validate_iff:
  "offer_validate off l = Ok v \<longleftrightarrow>
     offer_wf l off \<and> v = \<lparr>vo_offer = off, vo_accounted_bytes = offer_size off\<rparr>"
  by (auto simp: offer_validate_def offer_wf_def result_bind_Ok offer_limits_validate_Ok
      insert_unique_Ok validate_schemas_Ok accounted_offer_bytes_eq split: option.splits)

lemma find_None_iff_set: "List.find P xs = None \<longleftrightarrow> (\<forall>x\<in>set xs. \<not> P x)"
  by (induction xs) auto

lemma offer_capability_None:
  "offer_capability v i = None \<longleftrightarrow> i \<notin> co_id ` set (off_capabilities (vo_offer v))"
  by (auto simp: offer_capability_def find_None_iff_set)

end
