(* ===== verification/Negotiation.thy ===== *)
theory Negotiation
  imports Offers
begin

text \<open>
  Compatibility negotiation of \<open>crates/runen-net/src/protocol.rs\<close>: the negotiated contract, one
  attempt's states, and the \<open>NegotiationManager\<close> that owns attempts and established contracts
  per connection under an aggregate byte budget.

  The host's \<open>NegotiationRequirements\<close> are iterated in an unspecified order (\<open>HashSet\<close>), which
  decides which error is reported first: they are lists here, in iteration order, and every
  theorem holds for all of them. Where all elements lead to the same error the set is a finite set.
\<close>

section \<open>Contracts and requirements\<close>

record selected_schema =
  sel_contract_id :: schema_contract_id
  sel_codec_id :: codec_id

record negotiated_contract =
  nc_protocol :: protocol_contract
  nc_capabilities :: "capability_id fset"
  nc_schemas :: "(schema_id, selected_schema) fmap"

record negotiation_requirements =
  nr_capabilities :: "capability_id list"
  nr_schemas :: "schema_id list"

datatype schema_binding_error = AlreadyBound

definition contract_new :: "protocol_contract \<Rightarrow> negotiated_contract" where
  "contract_new p = \<lparr>nc_protocol = p, nc_capabilities = {||}, nc_schemas = fmempty\<rparr>"

definition enable_capability ::
  "negotiated_contract \<Rightarrow> capability_id \<Rightarrow> bool \<times> negotiated_contract" where
  "enable_capability c i =
     (i |\<notin>| nc_capabilities c, c\<lparr>nc_capabilities := finsert i (nc_capabilities c)\<rparr>)"

definition has_capability :: "negotiated_contract \<Rightarrow> capability_id \<Rightarrow> bool" where
  "has_capability c i \<longleftrightarrow> i |\<in>| nc_capabilities c"

definition bind_schema ::
  "negotiated_contract \<Rightarrow> schema_id \<Rightarrow> selected_schema \<Rightarrow>
     (unit, schema_binding_error) result \<times> negotiated_contract" where
  "bind_schema c i b =
     (case fmlookup (nc_schemas c) i of
        Some _ \<Rightarrow> (Err AlreadyBound, c)
      | None \<Rightarrow> (Ok (), c\<lparr>nc_schemas := fmupd i b (nc_schemas c)\<rparr>))"

definition schema_binding :: "negotiated_contract \<Rightarrow> schema_id \<Rightarrow> selected_schema option" where
  "schema_binding c i = fmlookup (nc_schemas c) i"

definition contract_accounted_bytes ::
  "negotiated_contract \<Rightarrow> (nat, offer_validation_error) result" where
  "contract_accounted_bytes c =
     result_bind (ok_or AccountingOverflow (checked_mul (fcard (nc_capabilities c)) ID_BYTES))
       (\<lambda>capability_bytes.
          result_bind (ok_or AccountingOverflow (checked_mul (fm_len (nc_schemas c)) (ID_BYTES * 3)))
       (\<lambda>schema_bytes.
          ok_or AccountingOverflow
            (do { v \<leftarrow> checked_add PROTOCOL_BYTES capability_bytes; checked_add v schema_bytes })))"

definition require_capability ::
  "negotiation_requirements \<Rightarrow> capability_id \<Rightarrow> bool \<times> negotiation_requirements" where
  "require_capability r i =
     (if i \<in> set (nr_capabilities r) then (False, r)
      else (True, r\<lparr>nr_capabilities := nr_capabilities r @ [i]\<rparr>))"

definition require_schema ::
  "negotiation_requirements \<Rightarrow> schema_id \<Rightarrow> bool \<times> negotiation_requirements" where
  "require_schema r i =
     (if i \<in> set (nr_schemas r) then (False, r)
      else (True, r\<lparr>nr_schemas := nr_schemas r @ [i]\<rparr>))"

section \<open>One negotiation attempt\<close>

datatype negotiation_status =
    AwaitingProposal
  | AwaitingValidation (awaiting_authority: bool) (awaiting_peer: bool)
  | Established

datatype negotiation_error =
    AuthorityOfferInvalid offer_validation_error
  | PeerOfferInvalid offer_validation_error
  | ProtocolIncompatible
  | RequiredCapabilityUnavailable capability_id
  | RequiredSchemaUnavailable schema_id
  | InvalidSelection
  | SelectionTooLarge
  | AlreadyProposed
  | NoProposal
  | AlreadyEstablished

record negotiation_attempt =
  at_authority_offer :: validated_offer
  at_peer_offer :: validated_offer
  at_offer_limits :: offer_limits
  at_proposal :: "negotiated_contract option"
  at_authority_validated :: bool
  at_peer_validated :: bool

definition supports_schema_binding ::
  "validated_offer \<Rightarrow> schema_id \<Rightarrow> selected_schema \<Rightarrow> bool" where
  "supports_schema_binding v i b \<longleftrightarrow>
     (case offer_schema v i of
        None \<Rightarrow> False
      | Some s \<Rightarrow> list_ex (\<lambda>c. sco_contract_id c = sel_contract_id b
                           \<and> sel_codec_id b \<in> set (sco_codecs c)) (so_contracts s))"

definition has_common_schema_binding ::
  "validated_offer \<Rightarrow> validated_offer \<Rightarrow> schema_id \<Rightarrow> bool" where
  "has_common_schema_binding a b i \<longleftrightarrow>
     (case offer_schema a i of None \<Rightarrow> False | Some first_schema \<Rightarrow>
     (case offer_schema b i of None \<Rightarrow> False | Some second_schema \<Rightarrow>
        list_ex (\<lambda>c1. list_ex (\<lambda>c2. sco_contract_id c1 = sco_contract_id c2
            \<and> list_ex (\<lambda>x. x \<in> set (sco_codecs c2)) (sco_codecs c1))
          (so_contracts second_schema)) (so_contracts first_schema)))"

fun check_all :: "('a \<Rightarrow> (unit, 'e) result) \<Rightarrow> 'a list \<Rightarrow> (unit, 'e) result" where
  "check_all f [] = Ok ()"
| "check_all f (x # xs) = result_bind (f x) (\<lambda>_. check_all f xs)"

definition verify_offer_requirements ::
  "validated_offer \<Rightarrow> validated_offer \<Rightarrow> (unit, negotiation_error) result" where
  "verify_offer_requirements requiring other =
     result_bind
       (check_all (\<lambda>i. if offer_capability other i = None
                       then Err (RequiredCapabilityUnavailable i) else Ok ())
          (required_capabilities requiring))
       (\<lambda>_. check_all (\<lambda>i. if \<not> has_common_schema_binding requiring other i
                       then Err (RequiredSchemaUnavailable i) else Ok ())
          (required_schemas requiring))"

definition attempt_new ::
  "compatibility_offer \<Rightarrow> compatibility_offer \<Rightarrow> offer_limits \<Rightarrow>
     (negotiation_attempt, negotiation_error) result" where
  "attempt_new authority peer lim =
     result_bind (map_err AuthorityOfferInvalid (offer_validate authority lim)) (\<lambda>a.
     result_bind (map_err PeerOfferInvalid (offer_validate peer lim)) (\<lambda>p.
     if \<not> list_ex (supports_protocol p) (off_protocols (vo_offer a)) then Err ProtocolIncompatible
     else result_bind (verify_offer_requirements a p) (\<lambda>_.
          result_bind (verify_offer_requirements p a) (\<lambda>_.
          Ok \<lparr>at_authority_offer = a, at_peer_offer = p, at_offer_limits = lim,
              at_proposal = None, at_authority_validated = False, at_peer_validated = False\<rparr>))))"

definition attempt_status :: "negotiation_attempt \<Rightarrow> negotiation_status" where
  "attempt_status a =
     (if at_authority_validated a \<and> at_peer_validated a then Established
      else if at_proposal a \<noteq> None
      then AwaitingValidation (at_authority_validated a) (at_peer_validated a)
      else AwaitingProposal)"

definition validate_selection ::
  "negotiation_attempt \<Rightarrow> negotiated_contract \<Rightarrow> negotiation_requirements \<Rightarrow>
     (unit, negotiation_error) result" where
  "validate_selection a c req =
    (let auth = at_authority_offer a; peer = at_peer_offer a; lim = at_offer_limits a in
     if \<not> supports_protocol auth (nc_protocol c) \<or> \<not> supports_protocol peer (nc_protocol c)
     then Err InvalidSelection
     else if fcard (nc_capabilities c) > lim_capabilities lim
           \<or> fm_len (nc_schemas c) > lim_schemas lim
     then Err SelectionTooLarge
     else result_bind (map_err (\<lambda>_. SelectionTooLarge) (contract_accounted_bytes c)) (\<lambda>bytes.
     if bytes > lim_offer_accounted_bytes lim then Err SelectionTooLarge
     else if fBex (nc_capabilities c)
               (\<lambda>i. offer_capability auth i = None \<or> offer_capability peer i = None)
     then Err InvalidSelection
     else if \<not> fmpred (\<lambda>i b. supports_schema_binding auth i b
                            \<and> supports_schema_binding peer i b) (nc_schemas c)
     then Err InvalidSelection
     else if list_ex (\<lambda>i. \<not> has_capability c i)
               (required_capabilities auth @ required_capabilities peer)
     then Err InvalidSelection
     else if list_ex (\<lambda>i. schema_binding c i = None)
               (required_schemas auth @ required_schemas peer)
     then Err InvalidSelection
     else result_bind
       (check_all (\<lambda>i. if offer_capability auth i = None \<or> offer_capability peer i = None
                       then Err (RequiredCapabilityUnavailable i)
                       else if \<not> has_capability c i then Err InvalidSelection else Ok ())
          (nr_capabilities req))
       (\<lambda>_. check_all (\<lambda>i. if \<not> has_common_schema_binding auth peer i
                       then Err (RequiredSchemaUnavailable i)
                       else if schema_binding c i = None then Err InvalidSelection else Ok ())
          (nr_schemas req))))"

definition attempt_propose ::
  "negotiation_attempt \<Rightarrow> negotiated_contract \<Rightarrow> negotiation_requirements \<Rightarrow>
     (unit, negotiation_error) result \<times> negotiation_attempt" where
  "attempt_propose a c req =
     (if attempt_status a = Established then (Err AlreadyEstablished, a)
      else if at_proposal a \<noteq> None then (Err AlreadyProposed, a)
      else case validate_selection a c req of
             Err e \<Rightarrow> (Err e, a)
           | Ok _ \<Rightarrow> (Ok (), a\<lparr>at_proposal := Some c\<rparr>))"

definition validate_party ::
  "negotiation_attempt \<Rightarrow> bool \<Rightarrow>
     (negotiation_status, negotiation_error) result \<times> negotiation_attempt" where
  "validate_party a authority =
     (if at_proposal a = None then (Err NoProposal, a)
      else let a' = (if authority then a\<lparr>at_authority_validated := True\<rparr>
                     else a\<lparr>at_peer_validated := True\<rparr>)
           in (Ok (attempt_status a'), a'))"

section \<open>The negotiation manager\<close>

record negotiation_manager_limits =
  ml_concurrent_attempts :: nat
  ml_aggregate_accounted_bytes :: nat

definition negotiation_manager_limits_default :: negotiation_manager_limits where
  "negotiation_manager_limits_default =
     \<lparr>ml_concurrent_attempts = 64, ml_aggregate_accounted_bytes = 16 * 1024 * 1024\<rparr>"

datatype manager_config_error =
  ConfigInvalidLimits | ConfigAccountingOverflow | AttemptReservationExceedsAggregate

datatype manager_error =
    AttemptLimitExceeded
  | AggregateLimitExceeded
  | ConnectionAlreadyKnown
  | UnknownConnection
  | NegotiationFailed negotiation_error

datatype negotiation_termination = NegotiationAborted | EstablishedContractEnded

record established_state =
  es_contract :: negotiated_contract
  es_accounted_bytes :: nat

record established_negotiation =
  en_connection :: connection_handle
  en_contract :: negotiated_contract

record negotiation_manager =
  nm_offer_limits :: offer_limits
  nm_limits :: negotiation_manager_limits
  nm_per_attempt_reservation :: nat
  nm_reserved_bytes :: nat
  nm_attempts :: "(connection_handle, negotiation_attempt) fmap"
  nm_established :: "(connection_handle, established_state) fmap"

type_synonym 'a manager_op = "(('a, manager_error) result \<times> negotiation_manager) exec"

definition max_attempt_reservation :: "offer_limits \<Rightarrow> (nat, manager_config_error) result" where
  "max_attempt_reservation l =
     ok_or ConfigAccountingOverflow (checked_mul (lim_offer_accounted_bytes l) 3)"

definition manager_new ::
  "offer_limits \<Rightarrow> negotiation_manager_limits \<Rightarrow>
     (negotiation_manager, manager_config_error) result" where
  "manager_new ol ml =
     (if \<not> is_ok (offer_limits_validate ol) \<or> ml_concurrent_attempts ml = 0
       \<or> ml_aggregate_accounted_bytes ml = 0
      then Err ConfigInvalidLimits
      else result_bind (max_attempt_reservation ol) (\<lambda>per.
        if per > ml_aggregate_accounted_bytes ml then Err AttemptReservationExceedsAggregate
        else Ok \<lparr>nm_offer_limits = ol, nm_limits = ml, nm_per_attempt_reservation = per,
                 nm_reserved_bytes = 0, nm_attempts = fmempty, nm_established = fmempty\<rparr>))"

definition manager_start ::
  "negotiation_manager \<Rightarrow> connection_handle \<Rightarrow> compatibility_offer \<Rightarrow> compatibility_offer \<Rightarrow>
     unit manager_op" where
  "manager_start m c authority peer =
     (if fmlookup (nm_attempts m) c \<noteq> None \<or> fmlookup (nm_established m) c \<noteq> None
      then Some (Err ConnectionAlreadyKnown, m)
      else if fm_len (nm_attempts m) \<ge> ml_concurrent_attempts (nm_limits m)
      then Some (Err AttemptLimitExceeded, m)
      else if (case checked_add (nm_reserved_bytes m) (nm_per_attempt_reservation m) of
                 None \<Rightarrow> True | Some v \<Rightarrow> v > ml_aggregate_accounted_bytes (nm_limits m))
      then Some (Err AggregateLimitExceeded, m)
      else case attempt_new authority peer (nm_offer_limits m) of
             Err e \<Rightarrow> Some (Err (NegotiationFailed e), m)
           | Ok a \<Rightarrow> do {
               r \<leftarrow> checked_add (nm_reserved_bytes m) (nm_per_attempt_reservation m);
               Some (Ok (), m\<lparr>nm_attempts := fmupd c a (nm_attempts m), nm_reserved_bytes := r\<rparr>) })"

definition manager_attempt ::
  "negotiation_manager \<Rightarrow> connection_handle \<Rightarrow> (negotiation_attempt, manager_error) result" where
  "manager_attempt m c =
     (if fmlookup (nm_established m) c \<noteq> None then Err (NegotiationFailed AlreadyEstablished)
      else ok_or UnknownConnection (fmlookup (nm_attempts m) c))"

definition manager_attempt_proposal ::
  "negotiation_manager \<Rightarrow> connection_handle \<Rightarrow> (negotiated_contract, manager_error) result" where
  "manager_attempt_proposal m c =
     result_bind (manager_attempt m c)
       (\<lambda>a. ok_or (NegotiationFailed NoProposal) (at_proposal a))"

definition manager_propose ::
  "negotiation_manager \<Rightarrow> connection_handle \<Rightarrow> negotiated_contract \<Rightarrow> negotiation_requirements \<Rightarrow>
     unit manager_op" where
  "manager_propose m c contract req =
     (case manager_attempt m c of
        Err e \<Rightarrow> Some (Err e, m)
      | Ok a \<Rightarrow> (let (r, a') = attempt_propose a contract req
                in Some (map_err NegotiationFailed r, m\<lparr>nm_attempts := fmupd c a' (nm_attempts m)\<rparr>)))"

definition promote_established ::
  "negotiation_manager \<Rightarrow> connection_handle \<Rightarrow> unit manager_op" where
  "promote_established m c =
     (case fmlookup (nm_attempts m) c of
        None \<Rightarrow> Some (Err (NegotiationFailed NoProposal), m)
      | Some a \<Rightarrow> (case at_proposal a of
          None \<Rightarrow> Some (Err (NegotiationFailed NoProposal), m)
        | Some contract \<Rightarrow> (case contract_accounted_bytes contract of
            Err _ \<Rightarrow> Some (Err (NegotiationFailed SelectionTooLarge), m)
          | Ok bytes \<Rightarrow> do {
              r \<leftarrow> checked_sub (nm_reserved_bytes m) (nm_per_attempt_reservation m);
              r \<leftarrow> checked_add r bytes;
              Some (Ok (), m\<lparr>nm_attempts := fmdrop c (nm_attempts m), nm_reserved_bytes := r,
                nm_established := fmupd c \<lparr>es_contract = contract, es_accounted_bytes = bytes\<rparr>
                                    (nm_established m)\<rparr>) })))"

definition manager_validate ::
  "negotiation_manager \<Rightarrow> connection_handle \<Rightarrow> bool \<Rightarrow> negotiation_status manager_op" where
  "manager_validate m c authority =
     (case manager_attempt m c of
        Err e \<Rightarrow> Some (Err e, m)
      | Ok a \<Rightarrow> (let (r, a') = validate_party a authority;
                    m' = m\<lparr>nm_attempts := fmupd c a' (nm_attempts m)\<rparr>
                in case r of
                     Err e \<Rightarrow> Some (Err (NegotiationFailed e), m')
                   | Ok st \<Rightarrow>
                       (if st = Established
                        then do {
                          (p, m'') \<leftarrow> promote_established m' c;
                          Some (result_bind p (\<lambda>_. Ok st), m'') }
                        else Some (Ok st, m'))))"

definition manager_validate_authority ::
  "negotiation_manager \<Rightarrow> connection_handle \<Rightarrow> negotiation_status manager_op" where
  "manager_validate_authority m c = manager_validate m c True"

definition manager_validate_peer ::
  "negotiation_manager \<Rightarrow> connection_handle \<Rightarrow> negotiation_status manager_op" where
  "manager_validate_peer m c = manager_validate m c False"

definition manager_status ::
  "negotiation_manager \<Rightarrow> connection_handle \<Rightarrow> (negotiation_status, manager_error) result" where
  "manager_status m c =
     (if fmlookup (nm_established m) c \<noteq> None then Ok Established
      else ok_or UnknownConnection (map_option attempt_status (fmlookup (nm_attempts m) c)))"

definition manager_established ::
  "negotiation_manager \<Rightarrow> connection_handle \<Rightarrow> (established_negotiation, manager_error) result" where
  "manager_established m c =
     result_bind (ok_or UnknownConnection (fmlookup (nm_established m) c))
       (\<lambda>st. Ok \<lparr>en_connection = c, en_contract = es_contract st\<rparr>)"

definition manager_terminate ::
  "negotiation_manager \<Rightarrow> connection_handle \<Rightarrow> negotiation_termination manager_op" where
  "manager_terminate m c =
     (case fmlookup (nm_attempts m) c of
        Some _ \<Rightarrow> do {
          r \<leftarrow> checked_sub (nm_reserved_bytes m) (nm_per_attempt_reservation m);
          Some (Ok NegotiationAborted,
                m\<lparr>nm_attempts := fmdrop c (nm_attempts m), nm_reserved_bytes := r\<rparr>) }
      | None \<Rightarrow> (case fmlookup (nm_established m) c of
          Some st \<Rightarrow> do {
            r \<leftarrow> checked_sub (nm_reserved_bytes m) (es_accounted_bytes st);
            Some (Ok EstablishedContractEnded,
                  m\<lparr>nm_established := fmdrop c (nm_established m), nm_reserved_bytes := r\<rparr>) }
        | None \<Rightarrow> Some (Err UnknownConnection, m)))"

end
