(* ===== verification/Negotiation_Safety.thy ===== *)
theory Negotiation_Safety
  imports Negotiation
begin

text \<open>
  What the negotiation component guarantees. \<open>contract_agreed\<close> is the declarative meaning of a
  selection that both offers support and that carries everything either side requires;
  \<open>manager_ok\<close> is the manager's invariant, with its byte budget accounted exactly. The manager is
  interpreted as a \<open>guarded_machine\<close>.
\<close>

section \<open>Selections\<close>

definition contract_size :: "negotiated_contract \<Rightarrow> nat" where
  "contract_size c = 32 + 16 * fcard (nc_capabilities c) + 48 * fm_len (nc_schemas c)"

lemma contract_accounted_bytes_eq:
  "contract_accounted_bytes c =
     (if contract_size c \<le> usize_max then Ok (contract_size c) else Err AccountingOverflow)"
  by (auto simp: contract_accounted_bytes_def contract_size_def checked_mul_def checked_add_def
      ID_BYTES_def PROTOCOL_BYTES_def usize_max_def algebra_simps)

lemma check_all_Ok: "check_all f xs = Ok () \<longleftrightarrow> (\<forall>x\<in>set xs. f x = Ok ())"
  by (induction xs) (auto simp: result_bind_Ok)

definition contract_agreed ::
  "validated_offer \<Rightarrow> validated_offer \<Rightarrow> negotiated_contract \<Rightarrow> bool" where
  "contract_agreed a p c \<longleftrightarrow>
     nc_protocol c \<in> set (off_protocols (vo_offer a)) \<inter> set (off_protocols (vo_offer p))
     \<and> (\<forall>i. has_capability c i \<longrightarrow> i \<in> co_id ` set (off_capabilities (vo_offer a))
                                   \<and> i \<in> co_id ` set (off_capabilities (vo_offer p)))
     \<and> (\<forall>i b. schema_binding c i = Some b \<longrightarrow>
              supports_schema_binding a i b \<and> supports_schema_binding p i b)
     \<and> (\<forall>i\<in>set (required_capabilities a) \<union> set (required_capabilities p). has_capability c i)
     \<and> (\<forall>i\<in>set (required_schemas a) \<union> set (required_schemas p). schema_binding c i \<noteq> None)"

definition requirements_met ::
  "validated_offer \<Rightarrow> validated_offer \<Rightarrow> negotiated_contract \<Rightarrow> negotiation_requirements \<Rightarrow> bool" where
  "requirements_met a p c r \<longleftrightarrow>
     (\<forall>i\<in>set (nr_capabilities r). has_capability c i)
     \<and> (\<forall>i\<in>set (nr_schemas r). has_common_schema_binding a p i \<and> schema_binding c i \<noteq> None)"

definition contract_fits :: "offer_limits \<Rightarrow> negotiated_contract \<Rightarrow> bool" where
  "contract_fits l c \<longleftrightarrow> fcard (nc_capabilities c) \<le> lim_capabilities l
     \<and> fm_len (nc_schemas c) \<le> lim_schemas l
     \<and> contract_size c \<le> usize_max \<and> contract_size c \<le> lim_offer_accounted_bytes l"

lemma validate_selection_iff:
  "validate_selection a c r = Ok () \<longleftrightarrow>
     contract_agreed (at_authority_offer a) (at_peer_offer a) c
     \<and> requirements_met (at_authority_offer a) (at_peer_offer a) c r
     \<and> contract_fits (at_offer_limits a) c"
proof -
  let ?auth = "at_authority_offer a" and ?peer = "at_peer_offer a"
  let ?lim = "at_offer_limits a"
  define A where "A \<longleftrightarrow> (nc_protocol c \<in> set (off_protocols (vo_offer ?auth)) \<inter> set (off_protocols (vo_offer ?peer)))"
  define B where "B \<longleftrightarrow> (\<forall>i. has_capability c i \<longrightarrow> i \<in> co_id ` set (off_capabilities (vo_offer ?auth))
                                   \<and> i \<in> co_id ` set (off_capabilities (vo_offer ?peer)))"
  define C where "C \<longleftrightarrow> (\<forall>i b. schema_binding c i = Some b \<longrightarrow>
              supports_schema_binding ?auth i b \<and> supports_schema_binding ?peer i b)"
  define D where "D \<longleftrightarrow> (\<forall>i\<in>set (required_capabilities ?auth) \<union> set (required_capabilities ?peer). has_capability c i)"
  define E where "E \<longleftrightarrow> (\<forall>i\<in>set (required_schemas ?auth) \<union> set (required_schemas ?peer). schema_binding c i \<noteq> None)"
  have caps: "fBex (nc_capabilities c)
      (\<lambda>i. offer_capability ?auth i = None \<or> offer_capability ?peer i = None) \<longleftrightarrow> \<not> B"
    unfolding offer_capability_None has_capability_def B_def by blast
  have schemas: "fmpred (\<lambda>i b. supports_schema_binding ?auth i b
        \<and> supports_schema_binding ?peer i b) (nc_schemas c) \<longleftrightarrow> C"
    by (simp add: fmpred_iff schema_binding_def C_def)
  have req1: "list_ex (\<lambda>i. \<not> has_capability c i)
      (required_capabilities ?auth @ required_capabilities ?peer) \<longleftrightarrow> \<not> D"
    unfolding list_ex_iff D_def by auto
  have req2: "list_ex (\<lambda>i. schema_binding c i = None)
      (required_schemas ?auth @ required_schemas ?peer) \<longleftrightarrow> \<not> E"
    unfolding list_ex_iff E_def by auto
  have prot: "(\<not> supports_protocol ?auth (nc_protocol c) \<or> \<not> supports_protocol ?peer (nc_protocol c))
      \<longleftrightarrow> \<not> A"
    by (simp add: supports_protocol_def A_def)
  have agreed: "contract_agreed ?auth ?peer c \<longleftrightarrow> A \<and> B \<and> C \<and> D \<and> E"
    by (simp only: contract_agreed_def A_def B_def C_def D_def E_def)
  show ?thesis
  proof (cases "A \<and> B \<and> C \<and> D \<and> E \<and> contract_fits ?lim c")
    case True
    then have B: B and fits: "contract_fits ?lim c" by simp_all
    let ?F = "\<lambda>i. if offer_capability ?auth i = None \<or> offer_capability ?peer i = None
                  then Err (RequiredCapabilityUnavailable i)
                  else if \<not> has_capability c i then Err InvalidSelection else Ok ()"
    let ?G = "\<lambda>i. if \<not> has_common_schema_binding ?auth ?peer i
                  then Err (RequiredSchemaUnavailable i)
                  else if schema_binding c i = None then Err InvalidSelection else Ok ()"
    have reduce: "validate_selection a c r =
        result_bind (check_all ?F (nr_capabilities r)) (\<lambda>_. check_all ?G (nr_schemas r))"
      unfolding validate_selection_def Let_def prot caps schemas req1 req2
        contract_accounted_bytes_eq
      using True by (simp add: contract_fits_def not_less)
    have F: "?F i = Ok () \<longleftrightarrow> has_capability c i" for i
      using B by (simp add: offer_capability_None B_def)
    have G: "?G i = Ok () \<longleftrightarrow> has_common_schema_binding ?auth ?peer i \<and> schema_binding c i \<noteq> None" for i
      by simp
    have "validate_selection a c r = Ok () \<longleftrightarrow> requirements_met ?auth ?peer c r"
      unfolding reduce result_bind_Ok_unit check_all_Ok F G requirements_met_def by blast
    then show ?thesis using True agreed by simp
  next
    case False
    then show ?thesis
      unfolding validate_selection_def Let_def agreed prot caps schemas req1 req2
        contract_accounted_bytes_eq
      by (auto simp: contract_fits_def not_le)
  qed
qed

section \<open>The manager's invariant\<close>

definition offer_ok :: "offer_limits \<Rightarrow> validated_offer \<Rightarrow> bool" where
  "offer_ok l v \<longleftrightarrow> offer_wf l (vo_offer v) \<and> vo_accounted_bytes v = offer_size (vo_offer v)"

definition attempt_ok :: "offer_limits \<Rightarrow> negotiation_attempt \<Rightarrow> bool" where
  "attempt_ok l a \<longleftrightarrow> at_offer_limits a = l
     \<and> offer_ok l (at_authority_offer a) \<and> offer_ok l (at_peer_offer a)
     \<and> \<not> (at_authority_validated a \<and> at_peer_validated a)
     \<and> (case at_proposal a of
          None \<Rightarrow> \<not> at_authority_validated a \<and> \<not> at_peer_validated a
        | Some c \<Rightarrow> contract_agreed (at_authority_offer a) (at_peer_offer a) c \<and> contract_fits l c)"

definition established_ok :: "offer_limits \<Rightarrow> established_state \<Rightarrow> bool" where
  "established_ok l st \<longleftrightarrow> contract_fits l (es_contract st)
     \<and> es_accounted_bytes st = contract_size (es_contract st)"

definition manager_ok :: "negotiation_manager \<Rightarrow> bool" where
  "manager_ok m \<longleftrightarrow>
     3 * lim_offer_accounted_bytes (nm_offer_limits m) = nm_per_attempt_reservation m
     \<and> ml_aggregate_accounted_bytes (nm_limits m) \<le> usize_max
     \<and> nm_reserved_bytes m = nm_per_attempt_reservation m * fm_len (nm_attempts m)
                           + fm_sum (\<lambda>_. es_accounted_bytes) (nm_established m)
     \<and> nm_reserved_bytes m \<le> ml_aggregate_accounted_bytes (nm_limits m)
     \<and> fm_len (nm_attempts m) \<le> ml_concurrent_attempts (nm_limits m)
     \<and> (\<forall>c a. fmlookup (nm_attempts m) c = Some a \<longrightarrow> fmlookup (nm_established m) c = None)
     \<and> (\<forall>c a. fmlookup (nm_attempts m) c = Some a \<longrightarrow> attempt_ok (nm_offer_limits m) a)
     \<and> (\<forall>c st. fmlookup (nm_established m) c = Some st \<longrightarrow> established_ok (nm_offer_limits m) st)"

lemma manager_okD:
  assumes "manager_ok m" "fmlookup (nm_attempts m) c = Some a"
  shows "attempt_ok (nm_offer_limits m) a" "fmlookup (nm_established m) c = None"
  using assms by (auto simp: manager_ok_def)

lemma manager_new_ok:
  assumes "manager_new ol ml = Ok m" "ml_aggregate_accounted_bytes ml \<le> usize_max"
  shows "manager_ok m" "nm_offer_limits m = ol" "nm_limits m = ml"
  using assms
  by (auto simp: manager_new_def manager_ok_def result_bind_Ok max_attempt_reservation_def ok_or_Ok
      checked_simps split: if_splits)

lemma attempt_new_ok: "attempt_new x y l = Ok a \<Longrightarrow> attempt_ok l a \<and> at_proposal a = None"
  by (auto simp: attempt_new_def result_bind_Ok map_err_Ok offer_validate_iff attempt_ok_def
      offer_ok_def split: if_splits)

lemma attempt_propose_ok:
  "attempt_ok l a \<Longrightarrow> attempt_propose a c r = (q, a') \<Longrightarrow> attempt_ok l a'"
  using validate_selection_iff[of a c r]
  by (auto simp: attempt_propose_def attempt_ok_def split: if_splits result.splits option.splits)

lemma manager_attempt_Ok:
  "manager_attempt m c = Ok a \<longleftrightarrow>
     fmlookup (nm_established m) c = None \<and> fmlookup (nm_attempts m) c = Some a"
  by (auto simp: manager_attempt_def ok_or_Ok)

lemma manager_ok_replace_attempt:
  assumes "manager_ok m" "fmlookup (nm_attempts m) c = Some a" "attempt_ok (nm_offer_limits m) b"
  shows "manager_ok (m\<lparr>nm_attempts := fmupd c b (nm_attempts m)\<rparr>)"
  using assms fm_len_replace[OF assms(2)] unfolding manager_ok_def by auto

lemma manager_start_ok:
  assumes "manager_ok m"
  shows "\<exists>r m'. manager_start m c x y = Some (r, m') \<and> manager_ok m'"
proof -
  let ?per = "nm_per_attempt_reservation m"
  show ?thesis
  proof (cases "\<exists>a. fmlookup (nm_attempts m) c = None \<and> fmlookup (nm_established m) c = None
      \<and> fm_len (nm_attempts m) < ml_concurrent_attempts (nm_limits m)
      \<and> nm_reserved_bytes m + ?per \<le> ml_aggregate_accounted_bytes (nm_limits m)
      \<and> attempt_new x y (nm_offer_limits m) = Ok a")
    case True
    then obtain a where a: "fmlookup (nm_attempts m) c = None" "fmlookup (nm_established m) c = None"
      "fm_len (nm_attempts m) < ml_concurrent_attempts (nm_limits m)"
      "nm_reserved_bytes m + ?per \<le> ml_aggregate_accounted_bytes (nm_limits m)"
      "attempt_new x y (nm_offer_limits m) = Ok a" by blast
    have u: "nm_reserved_bytes m + ?per \<le> usize_max" using a(4) assms by (simp add: manager_ok_def)
    let ?m = "m\<lparr>nm_attempts := fmupd c a (nm_attempts m), nm_reserved_bytes := nm_reserved_bytes m + ?per\<rparr>"
    have "manager_ok ?m"
      using assms a(1-4) fm_len_fresh[OF a(1), of a] attempt_new_ok[OF a(5)]
      unfolding manager_ok_def by auto
    moreover have "manager_start m c x y = Some (Ok (), ?m)"
      using a u by (simp add: manager_start_def)
    ultimately show ?thesis by blast
  next
    case False
    then have "\<exists>e. manager_start m c x y = Some (Err e, m)"
      using assms
      by (auto simp: manager_start_def checked_add_def manager_ok_def not_le
          split: result.splits option.splits if_splits)
    then show ?thesis using assms by blast
  qed
qed

lemma manager_propose_ok:
  assumes "manager_ok m"
  shows "\<exists>r m'. manager_propose m c k q = Some (r, m') \<and> manager_ok m'"
proof (cases "manager_attempt m c")
  case (Err e)
  then show ?thesis using assms by (simp add: manager_propose_def)
next
  case (Ok a)
  obtain r a' where r: "attempt_propose a k q = (r, a')" by fastforce
  have a: "fmlookup (nm_attempts m) c = Some a" using Ok by (simp add: manager_attempt_Ok)
  then have "attempt_ok (nm_offer_limits m) a" using assms by (auto simp: manager_ok_def)
  then have "attempt_ok (nm_offer_limits m) a'" using r by (rule attempt_propose_ok)
  then have "manager_ok (m\<lparr>nm_attempts := fmupd c a' (nm_attempts m)\<rparr>)"
    by (rule manager_ok_replace_attempt[OF assms a])
  then show ?thesis using Ok r by (simp add: manager_propose_def)
qed

text \<open>
  The promotion step: an attempt whose second side validates leaves the attempts, gives its
  reservation back and enters the established contracts with its exact size.
\<close>

lemma promote_step:
  assumes m: "manager_ok m" and a: "fmlookup (nm_attempts m) c = Some a"
    and p: "at_proposal a = Some k"
    and b: "at_proposal b = Some k"
  shows "\<exists>r. promote_established (m\<lparr>nm_attempts := fmupd c b (nm_attempts m)\<rparr>) c =
           Some (Ok (), m\<lparr>nm_attempts := fmdrop c (nm_attempts m), nm_reserved_bytes := r,
             nm_established := fmupd c \<lparr>es_contract = k, es_accounted_bytes = contract_size k\<rparr>
                                 (nm_established m)\<rparr>)
         \<and> manager_ok (m\<lparr>nm_attempts := fmdrop c (nm_attempts m), nm_reserved_bytes := r,
             nm_established := fmupd c \<lparr>es_contract = k, es_accounted_bytes = contract_size k\<rparr>
                                 (nm_established m)\<rparr>)"
proof -
  let ?per = "nm_per_attempt_reservation m"
  let ?E = "fm_sum (\<lambda>_. es_accounted_bytes) (nm_established m)"
  let ?n = "fm_len (fmdrop c (nm_attempts m))"
  let ?r = "?per * ?n + ?E + contract_size k"
  have none: "fmlookup (nm_established m) c = None" using manager_okD(2)[OF m a] .
  have fits: "contract_fits (nm_offer_limits m) k"
    using manager_okD(1)[OF m a] p by (simp add: attempt_ok_def)
  have res: "nm_reserved_bytes m = ?per + (?per * ?n + ?E)"
    using m fm_len_split[OF a] by (simp add: manager_ok_def)
  have le: "contract_size k \<le> ?per"
    using fits m by (simp add: contract_fits_def manager_ok_def)
  have agg: "nm_reserved_bytes m \<le> ml_aggregate_accounted_bytes (nm_limits m)"
    "ml_aggregate_accounted_bytes (nm_limits m) \<le> usize_max"
    using m by (simp_all add: manager_ok_def)
  have r: "?r \<le> nm_reserved_bytes m" using res le by simp
  then have small: "?r \<le> usize_max" using agg by simp
  let ?m = "m\<lparr>nm_attempts := fmdrop c (nm_attempts m), nm_reserved_bytes := ?r,
             nm_established := fmupd c \<lparr>es_contract = k, es_accounted_bytes = contract_size k\<rparr>
                                 (nm_established m)\<rparr>"
  have "manager_ok ?m"
    using m r agg fits fm_len_drop_le[of c "nm_attempts m"] fm_sum_fresh[OF none]
    unfolding manager_ok_def established_ok_def by auto
  moreover have "promote_established (m\<lparr>nm_attempts := fmupd c b (nm_attempts m)\<rparr>) c = Some (Ok (), ?m)"
    using b fits res small
    by (simp add: promote_established_def contract_accounted_bytes_eq contract_fits_def)
  ultimately show ?thesis by blast
qed

lemma manager_validate_ok:
  assumes "manager_ok m"
  shows "\<exists>r m'. manager_validate m c w = Some (r, m') \<and> manager_ok m'"
proof (cases "manager_attempt m c")
  case (Err e)
  then show ?thesis using assms by (simp add: manager_validate_def)
next
  case (Ok a)
  then have a: "fmlookup (nm_attempts m) c = Some a" by (simp add: manager_attempt_Ok)
  have ok: "attempt_ok (nm_offer_limits m) a" using assms a by (auto simp: manager_ok_def)
  show ?thesis
  proof (cases "at_proposal a")
    case None
    then show ?thesis
      using Ok manager_ok_replace_attempt[OF assms a ok]
      by (simp add: manager_validate_def validate_party_def)
  next
    case (Some k)
    let ?b = "if w then a\<lparr>at_authority_validated := True\<rparr> else a\<lparr>at_peer_validated := True\<rparr>"
    have b: "at_proposal ?b = Some k" using Some by simp
    show ?thesis
    proof (cases "attempt_status ?b = Established")
      case True
      then show ?thesis
        using promote_step[OF assms a Some b] Ok Some
        by (auto simp: manager_validate_def validate_party_def Let_def)
    next
      case False
      then have "attempt_ok (nm_offer_limits m) ?b"
        using ok Some by (auto simp: attempt_ok_def attempt_status_def split: if_splits)
      then have "manager_ok (m\<lparr>nm_attempts := fmupd c ?b (nm_attempts m)\<rparr>)"
        by (rule manager_ok_replace_attempt[OF assms a])
      then show ?thesis using Ok Some False
        by (simp add: manager_validate_def validate_party_def Let_def)
    qed
  qed
qed

lemma manager_terminate_ok:
  assumes "manager_ok m"
  shows "\<exists>r m'. manager_terminate m c = Some (r, m') \<and> manager_ok m'"
proof (cases "fmlookup (nm_attempts m) c")
  case (Some a)
  let ?m = "m\<lparr>nm_attempts := fmdrop c (nm_attempts m),
              nm_reserved_bytes := nm_reserved_bytes m - nm_per_attempt_reservation m\<rparr>"
  have le: "nm_per_attempt_reservation m \<le> nm_reserved_bytes m"
    using assms fm_len_split[OF Some] by (simp add: manager_ok_def)
  have "manager_ok ?m"
    using assms fm_len_split[OF Some] unfolding manager_ok_def by auto
  then show ?thesis using Some le by (simp add: manager_terminate_def)
next
  case None
  show ?thesis
  proof (cases "fmlookup (nm_established m) c")
    case None
    then show ?thesis using assms \<open>fmlookup (nm_attempts m) c = None\<close>
      by (simp add: manager_terminate_def)
  next
    case (Some st)
    let ?m = "m\<lparr>nm_established := fmdrop c (nm_established m),
                nm_reserved_bytes := nm_reserved_bytes m - es_accounted_bytes st\<rparr>"
    have sum: "fm_sum (\<lambda>_. es_accounted_bytes) (nm_established m)
        = es_accounted_bytes st + fm_sum (\<lambda>_. es_accounted_bytes) (fmdrop c (nm_established m))"
      by (rule fm_sum_split[OF Some])
    then have le: "es_accounted_bytes st \<le> nm_reserved_bytes m"
      using assms by (simp add: manager_ok_def)
    have "manager_ok ?m"
      using assms sum unfolding manager_ok_def by auto
    then show ?thesis using Some None le by (simp add: manager_terminate_def)
  qed
qed

section \<open>The manager as a machine\<close>

datatype manager_call =
    CallStart connection_handle compatibility_offer compatibility_offer
  | CallPropose connection_handle negotiated_contract negotiation_requirements
  | CallValidateAuthority connection_handle
  | CallValidatePeer connection_handle
  | CallTerminate connection_handle

fun manager_step :: "negotiation_manager \<Rightarrow> manager_call \<Rightarrow> negotiation_manager exec" where
  "manager_step m (CallStart c x y) = map_option snd (manager_start m c x y)"
| "manager_step m (CallPropose c k r) = map_option snd (manager_propose m c k r)"
| "manager_step m (CallValidateAuthority c) = map_option snd (manager_validate_authority m c)"
| "manager_step m (CallValidatePeer c) = map_option snd (manager_validate_peer m c)"
| "manager_step m (CallTerminate c) = map_option snd (manager_terminate m c)"

lemma manager_step_good:
  assumes "manager_ok m"
  shows "\<exists>m'. manager_step m x = Some m' \<and> manager_ok m'"
proof (cases x)
  case (CallStart c p q)
  then show ?thesis using manager_start_ok[OF assms, of c p q] by auto
next
  case (CallPropose c k r)
  then show ?thesis using manager_propose_ok[OF assms, of c k r] by auto
next
  case (CallValidateAuthority c)
  then show ?thesis using manager_validate_ok[OF assms, of c True]
    by (auto simp: manager_validate_authority_def)
next
  case (CallValidatePeer c)
  then show ?thesis using manager_validate_ok[OF assms, of c False]
    by (auto simp: manager_validate_peer_def)
next
  case (CallTerminate c)
  then show ?thesis using manager_terminate_ok[OF assms, of c] by auto
qed

interpretation manager: guarded_machine manager_step manager_ok "\<lambda>_. True"
  by unfold_locales (rule manager_step_good)

end
