(* ===== verification/Session_Membership.thy ===== *)
theory Session_Membership
  imports Negotiation_Safety
begin

text \<open>
  \<open>crates/runen-net/src/session.rs\<close>: participant membership, connection bindings and retention for
  recovery. A \<open>HashMap\<close> is a finite map, \<open>used_participants\<close> is the incarnation registry of
  \<open>Identity\<close>; every operation returns its \<open>Result\<close> with the state it leaves, since
  \<open>bind_replacement\<close> also changes the state on one of its error paths.

  The locale \<open>session_authority\<close> is what input admission and replication rely on: who is
  authorized on which connection.
\<close>

section \<open>State\<close>

datatype recovery_time = RecoveryTime (recovery_time_get: u64)

instantiation recovery_time :: linorder
begin

definition less_eq_recovery_time :: "recovery_time \<Rightarrow> recovery_time \<Rightarrow> bool" where
  "less_eq_recovery_time a b \<longleftrightarrow> recovery_time_get a \<le> recovery_time_get b"

definition less_recovery_time :: "recovery_time \<Rightarrow> recovery_time \<Rightarrow> bool" where
  "less_recovery_time a b \<longleftrightarrow> recovery_time_get a < recovery_time_get b"

instance
  by standard (auto simp: less_eq_recovery_time_def less_recovery_time_def
      intro: recovery_time.expand)

end

lemmas recovery_order_defs = less_eq_recovery_time_def less_recovery_time_def

datatype session_phase = Open | Closed

record session_limits =
  sl_participant_incarnations :: nat
  sl_memberships :: nat

datatype session_limit_error = MembershipsExceedParticipantIncarnations

definition session_limits_new :: "nat \<Rightarrow> nat \<Rightarrow> (session_limits, session_limit_error) result" where
  "session_limits_new incarnations memberships =
     (if memberships > incarnations then Err MembershipsExceedParticipantIncarnations
      else Ok \<lparr>sl_participant_incarnations = incarnations, sl_memberships = memberships\<rparr>)"

definition recovery_checked_add :: "recovery_time \<Rightarrow> u64 \<Rightarrow> recovery_time option" where
  "recovery_checked_add t d = map_option RecoveryTime (u64_checked_add (recovery_time_get t) d)"

datatype membership_state_t = Bound connection_handle | Unbound recovery_time

datatype retention_policy = Terminate | RetainForRecovery u64

datatype connection_loss_outcome = Terminated | Retained recovery_time

datatype session_error =
    SessionClosedError
  | ParticipantIdAlreadyUsed
  | ParticipantIncarnationLimitExceeded
  | MembershipLimitExceeded
  | ConnectionAlreadyBound
  | ParticipantNotFound
  | BindingMismatch
  | MembershipNotUnbound
  | MembershipExpired
  | PreviousConnectionCannotReplaceItself
  | RecoveryClockRegression
  | RecoveryExpiryOverflow

record membership_record =
  mr_state :: membership_state_t
  mr_previous_connection :: "connection_handle option"

record session =
  s_id :: session_id
  s_phase :: session_phase
  s_limits :: session_limits
  s_recovery_clock :: recovery_time
  s_used_participants :: "participant_id incarnation_registry"
  s_memberships :: "(participant_id, membership_record) fmap"
  s_bindings :: "(connection_handle, participant_id) fmap"

type_synonym 'a session_op = "('a, session_error) result \<times> session"

section \<open>Operations\<close>

definition session_new :: "session_id \<Rightarrow> session_limits \<Rightarrow> session" where
  "session_new i l =
     \<lparr>s_id = i, s_phase = Open, s_limits = l, s_recovery_clock = RecoveryTime 0,
      s_used_participants = registry_new (sl_participant_incarnations l),
      s_memberships = fmempty, s_bindings = fmempty\<rparr>"

definition live_memberships :: "session \<Rightarrow> nat" where
  "live_memberships s = fm_len (s_memberships s)"

fun is_unbound :: "membership_state_t \<Rightarrow> bool" where
  "is_unbound (Unbound _) = True"
| "is_unbound (Bound _) = False"

definition retained_memberships :: "session \<Rightarrow> nat" where
  "retained_memberships s = fm_len (fmfilter (\<lambda>p.
     case fmlookup (s_memberships s) p of None \<Rightarrow> False | Some r \<Rightarrow> is_unbound (mr_state r))
     (s_memberships s))"

definition membership_state :: "session \<Rightarrow> participant_id \<Rightarrow> membership_state_t option" where
  "membership_state s p = map_option mr_state (fmlookup (s_memberships s) p)"

definition participant_for_connection :: "session \<Rightarrow> connection_handle \<Rightarrow> participant_id option" where
  "participant_for_connection s c = fmlookup (s_bindings s) c"

definition is_authorized :: "session \<Rightarrow> participant_id \<Rightarrow> connection_handle \<Rightarrow> bool" where
  "is_authorized s p c \<longleftrightarrow>
     fmlookup (s_bindings s) c = Some p \<and> membership_state s p = Some (Bound c)"

definition map_participant_claim_error :: "incarnation_claim_error \<Rightarrow> session_error" where
  "map_participant_claim_error e =
     (case e of AlreadyUsed \<Rightarrow> ParticipantIdAlreadyUsed
              | CapacityExceeded \<Rightarrow> ParticipantIncarnationLimitExceeded)"

definition admit_new ::
  "session \<Rightarrow> participant_id \<Rightarrow> established_negotiation \<Rightarrow> unit session_op" where
  "admit_new s p est =
     (if s_phase s \<noteq> Open then (Err SessionClosedError, s)
      else let c = en_connection est in
      if fm_len (s_memberships s) \<ge> sl_memberships (s_limits s)
      then (Err MembershipLimitExceeded, s)
      else if fmlookup (s_bindings s) c \<noteq> None then (Err ConnectionAlreadyBound, s)
      else if registry_contains (s_used_participants s) p then (Err ParticipantIdAlreadyUsed, s)
      else case registry_claim (s_used_participants s) p of
             (Err e, reg) \<Rightarrow> (Err (map_participant_claim_error e), s\<lparr>s_used_participants := reg\<rparr>)
           | (Ok _, reg) \<Rightarrow>
               (Ok (), s\<lparr>s_used_participants := reg,
                  s_bindings := fmupd c p (s_bindings s),
                  s_memberships := fmupd p \<lparr>mr_state = Bound c, mr_previous_connection = None\<rparr>
                                     (s_memberships s)\<rparr>))"

definition connection_lost ::
  "session \<Rightarrow> participant_id \<Rightarrow> connection_handle \<Rightarrow> retention_policy \<Rightarrow>
     connection_loss_outcome session_op" where
  "connection_lost s p c policy =
     (if s_phase s \<noteq> Open then (Err SessionClosedError, s)
      else case membership_state s p of
        None \<Rightarrow> (Err ParticipantNotFound, s)
      | Some st \<Rightarrow>
        if st \<noteq> Bound c \<or> \<not> is_authorized s p c then (Err BindingMismatch, s)
        else case policy of
          Terminate \<Rightarrow>
            (Ok Terminated, s\<lparr>s_bindings := fmdrop c (s_bindings s),
                              s_memberships := fmdrop p (s_memberships s)\<rparr>)
        | RetainForRecovery d \<Rightarrow>
            (case recovery_checked_add (s_recovery_clock s) d of
               None \<Rightarrow> (Err RecoveryExpiryOverflow, s)
             | Some expires \<Rightarrow>
                 (Ok (Retained expires),
                  s\<lparr>s_bindings := fmdrop c (s_bindings s),
                    s_memberships := fmupd p \<lparr>mr_state = Unbound expires,
                                             mr_previous_connection = Some c\<rparr>
                                       (s_memberships s)\<rparr>)))"

definition bind_replacement ::
  "session \<Rightarrow> participant_id \<Rightarrow> established_negotiation \<Rightarrow> unit session_op" where
  "bind_replacement s p est =
     (if s_phase s \<noteq> Open then (Err SessionClosedError, s)
      else let c = en_connection est in
      if fmlookup (s_bindings s) c \<noteq> None then (Err ConnectionAlreadyBound, s)
      else case fmlookup (s_memberships s) p of
        None \<Rightarrow> (Err ParticipantNotFound, s)
      | Some r \<Rightarrow> (case mr_state r of
          Bound _ \<Rightarrow> (Err MembershipNotUnbound, s)
        | Unbound expires \<Rightarrow>
            if expires \<le> s_recovery_clock s
            then (Err MembershipExpired, s\<lparr>s_memberships := fmdrop p (s_memberships s)\<rparr>)
            else if mr_previous_connection r = Some c
            then (Err PreviousConnectionCannotReplaceItself, s)
            else (Ok (), s\<lparr>s_bindings := fmupd c p (s_bindings s),
                    s_memberships := fmupd p \<lparr>mr_state = Bound c, mr_previous_connection = None\<rparr>
                                       (s_memberships s)\<rparr>)))"

definition remove_participant ::
  "session \<Rightarrow> participant_id \<Rightarrow> membership_state_t session_op" where
  "remove_participant s p =
     (if s_phase s \<noteq> Open then (Err SessionClosedError, s)
      else case fmlookup (s_memberships s) p of
        None \<Rightarrow> (Err ParticipantNotFound, s)
      | Some r \<Rightarrow>
          (Ok (mr_state r),
           s\<lparr>s_bindings := (case mr_state r of Bound c \<Rightarrow> fmdrop c (s_bindings s)
                            | Unbound _ \<Rightarrow> s_bindings s),
             s_memberships := fmdrop p (s_memberships s)\<rparr>))"

text \<open>
  The expired participants are collected in the map's order and then sorted by identity, so the
  result does not depend on the former.
\<close>

definition record_expired :: "recovery_time \<Rightarrow> membership_record \<Rightarrow> bool" where
  "record_expired t r = (case mr_state r of Unbound e \<Rightarrow> e \<le> t | Bound _ \<Rightarrow> False)"

definition expired_set :: "session \<Rightarrow> recovery_time \<Rightarrow> participant_id fset" where
  "expired_set s t = ffilter (\<lambda>p. case fmlookup (s_memberships s) p of None \<Rightarrow> False
                                 | Some r \<Rightarrow> record_expired t r) (fmdom (s_memberships s))"

definition sort_participants :: "participant_id fset \<Rightarrow> participant_id list" where
  "sort_participants ps = map ParticipantId (sorted_list_of_fset (participant_get |`| ps))"

definition advance_recovery_clock ::
  "session \<Rightarrow> recovery_time \<Rightarrow> participant_id list session_op" where
  "advance_recovery_clock s t =
     (if s_phase s \<noteq> Open then (Err SessionClosedError, s)
      else if t < s_recovery_clock s then (Err RecoveryClockRegression, s)
      else let expired = sort_participants (expired_set s t) in
           (Ok expired, s\<lparr>s_recovery_clock := t,
                          s_memberships := fold fmdrop expired (s_memberships s)\<rparr>))"

definition session_close :: "session \<Rightarrow> session" where
  "session_close s = s\<lparr>s_phase := Closed, s_bindings := fmempty, s_memberships := fmempty\<rparr>"

section \<open>Authorization, as other components use it\<close>

locale session_authority =
  fixes authorized :: "'s \<Rightarrow> participant_id \<Rightarrow> connection_handle \<Rightarrow> bool"
    and membership :: "'s \<Rightarrow> participant_id \<Rightarrow> membership_state_t option"
  assumes authorized_participant:
      "authorized s p c \<Longrightarrow> authorized s q c \<Longrightarrow> p = q"
    and authorized_membership: "authorized s p c \<Longrightarrow> membership s p = Some (Bound c)"
begin

lemma authorized_connection: "authorized s p c \<Longrightarrow> authorized s p d \<Longrightarrow> c = d"
  using authorized_membership[of s p c] authorized_membership[of s p d] by simp

lemma authorized_live: "authorized s p c \<Longrightarrow> membership s p \<noteq> None"
  using authorized_membership[of s p c] by simp

lemma unbound_not_authorized: "membership s p = Some (Unbound t) \<Longrightarrow> \<not> authorized s p c"
  using authorized_membership[of s p c] by auto

end

interpretation session_auth: session_authority is_authorized membership_state
  by unfold_locales (auto simp: is_authorized_def)

section \<open>Invariant\<close>

definition session_ok :: "session \<Rightarrow> bool" where
  "session_ok s \<longleftrightarrow>
     registry_ok (s_used_participants s)
     \<and> max_claims (s_used_participants s) = sl_participant_incarnations (s_limits s)
     \<and> (\<forall>p r. fmlookup (s_memberships s) p = Some r \<longrightarrow> registry_contains (s_used_participants s) p)
     \<and> fm_len (s_memberships s) \<le> sl_memberships (s_limits s)
     \<and> (\<forall>c p. fmlookup (s_bindings s) c = Some p \<longleftrightarrow> membership_state s p = Some (Bound c))
     \<and> (\<forall>p e. membership_state s p = Some (Unbound e) \<longrightarrow> s_recovery_clock s < e)
     \<and> (s_phase s = Closed \<longrightarrow> s_memberships s = fmempty)"

lemma session_new_ok [simp]: "session_ok (session_new i l)"
  by (simp add: session_ok_def session_new_def membership_state_def)
     (simp add: registry_new_def)

lemma fmlookup_fold_fmdrop:
  "fmlookup (fold fmdrop ks m) k = (if k \<in> set ks then None else fmlookup m k)"
  by (induction ks arbitrary: m) auto

lemma fm_len_fold_fmdrop: "fm_len (fold fmdrop ks m) \<le> fm_len m"
proof (induction ks arbitrary: m)
  case (Cons k ks)
  have "fm_len (fold fmdrop ks (fmdrop k m)) \<le> fm_len (fmdrop k m)" by (rule Cons.IH)
  also have "\<dots> \<le> fm_len m" by (rule fm_len_drop_le)
  finally show ?case by simp
qed simp

lemma set_sort_participants [simp]: "set (sort_participants ps) = fset ps"
  by (force simp: sort_participants_def image_iff)

lemma sort_participants_sorted: "sorted_wrt (\<lambda>p q. participant_get p < participant_get q) (sort_participants ps)"
  by (simp add: sort_participants_def sorted_wrt_map sorted_list_of_fset.rep_eq)

lemma expired_set_iff:
  "p |\<in>| expired_set s t \<longleftrightarrow> (\<exists>e. membership_state s p = Some (Unbound e) \<and> e \<le> t)"
  by (auto simp: expired_set_def membership_state_def record_expired_def fmlookup_dom_iff
      split: option.splits membership_state_t.splits)

end
