(* ===== verification/Session_Safety.thy ===== *)
theory Session_Safety
  imports Session_Membership
begin

text \<open>
  The session's invariant is kept by every operation, its clock, its used identities and its
  closing are monotone, and the consequences a host sees: authorization is exactly a bound
  membership, identities are never admitted twice, retained memberships end exactly at expiry.
\<close>

lemma session_okD:
  assumes "session_ok s"
  shows "fmlookup (s_memberships s) p = Some r \<Longrightarrow> registry_contains (s_used_participants s) p"
    and "fmlookup (s_bindings s) c = Some p \<longleftrightarrow> membership_state s p = Some (Bound c)"
    and "membership_state s p = Some (Unbound e) \<Longrightarrow> s_recovery_clock s < e"
    and "s_phase s = Closed \<Longrightarrow> s_memberships s = fmempty"
  using assms by (simp_all add: session_ok_def)

lemma session_okI:
  assumes "registry_ok (s_used_participants s)"
    and "max_claims (s_used_participants s) = sl_participant_incarnations (s_limits s)"
    and "\<And>p r. fmlookup (s_memberships s) p = Some r \<Longrightarrow> registry_contains (s_used_participants s) p"
    and "fm_len (s_memberships s) \<le> sl_memberships (s_limits s)"
    and "\<And>c p. fmlookup (s_bindings s) c = Some p \<longleftrightarrow> membership_state s p = Some (Bound c)"
    and "\<And>p e. membership_state s p = Some (Unbound e) \<Longrightarrow> s_recovery_clock s < e"
    and "s_phase s = Closed \<Longrightarrow> s_memberships s = fmempty"
  shows "session_ok s"
  using assms by (simp add: session_ok_def)

lemma session_ok_registry:
  assumes "session_ok s"
  shows "registry_ok (s_used_participants s)"
    and "max_claims (s_used_participants s) = sl_participant_incarnations (s_limits s)"
    and "fm_len (s_memberships s) \<le> sl_memberships (s_limits s)"
  using assms by (simp_all add: session_ok_def)

text \<open>A changed session whose registry, limits and phase are those of a good one.\<close>

lemma session_ok_change:
  assumes s: "session_ok s"
    and same: "s_used_participants t = s_used_participants s" "s_limits t = s_limits s"
      "s_phase t = s_phase s"
    and known: "\<And>p r. fmlookup (s_memberships t) p = Some r \<Longrightarrow>
      fmlookup (s_memberships s) p = None \<Longrightarrow> registry_contains (s_used_participants s) p"
    and len: "fm_len (s_memberships t) \<le> sl_memberships (s_limits s)"
    and bind: "\<And>c p. fmlookup (s_bindings t) c = Some p \<longleftrightarrow> membership_state t p = Some (Bound c)"
    and clock: "\<And>p e. membership_state t p = Some (Unbound e) \<Longrightarrow> s_recovery_clock t < e"
    and closed: "s_phase s = Closed \<Longrightarrow> s_memberships t = fmempty"
  shows "session_ok t"
proof (rule session_okI)
  fix p r assume r: "fmlookup (s_memberships t) p = Some r"
  show "registry_contains (s_used_participants t) p"
    using known[OF r] session_okD(1)[OF s, of p] same by (cases "fmlookup (s_memberships s) p") auto
qed (use session_ok_registry[OF s] same len bind clock closed in auto)

lemma is_authorized_iff:
  "session_ok s \<Longrightarrow> is_authorized s p c \<longleftrightarrow> membership_state s p = Some (Bound c)"
  using session_okD(2)[of s c p] by (auto simp: is_authorized_def)

lemma membership_state_upd [simp]:
  "membership_state (s\<lparr>s_memberships := fmupd p r m\<rparr>) q =
     (if q = p then Some (mr_state r) else membership_state (s\<lparr>s_memberships := m\<rparr>) q)"
  by (simp add: membership_state_def)

lemma membership_state_drop [simp]:
  "membership_state (s\<lparr>s_memberships := fmdrop p m\<rparr>) q =
     (if q = p then None else membership_state (s\<lparr>s_memberships := m\<rparr>) q)"
  by (simp add: membership_state_def)

lemma membership_state_same [simp]:
  "membership_state (s\<lparr>s_memberships := s_memberships s\<rparr>) = membership_state s"
  "membership_state (s\<lparr>s_bindings := b\<rparr>) = membership_state s"
  "membership_state (s\<lparr>s_used_participants := u\<rparr>) = membership_state s"
  "membership_state (s\<lparr>s_recovery_clock := t\<rparr>) = membership_state s"
  by (auto simp: membership_state_def fun_eq_iff)

lemma membership_state_None:
  "membership_state s p = None \<longleftrightarrow> fmlookup (s_memberships s) p = None"
  by (simp add: membership_state_def)

section \<open>Binding and unbinding one participant\<close>

text \<open>The two state changes that all operations are made of.\<close>

definition bind_to :: "participant_id \<Rightarrow> connection_handle \<Rightarrow> session \<Rightarrow> session" where
  "bind_to p c s = s\<lparr>s_bindings := fmupd c p (s_bindings s),
     s_memberships := fmupd p \<lparr>mr_state = Bound c, mr_previous_connection = None\<rparr>
                        (s_memberships s)\<rparr>"

lemma bind_to_ok:
  assumes s: "session_ok s" and phase: "s_phase s = Open"
    and free: "fmlookup (s_bindings s) c = None"
    and known: "registry_contains (s_used_participants s) p"
    and unbound: "\<And>d. membership_state s p \<noteq> Some (Bound d)"
    and room: "fmlookup (s_memberships s) p \<noteq> None \<or> fm_len (s_memberships s) < sl_memberships (s_limits s)"
  shows "session_ok (bind_to p c s)"
proof -
  let ?r = "\<lparr>mr_state = Bound c, mr_previous_connection = None\<rparr>"
  have state: "membership_state (bind_to p c s) q =
      (if q = p then Some (Bound c) else membership_state s q)" for q
    by (simp add: bind_to_def membership_state_def)
  have len: "fm_len (fmupd p ?r (s_memberships s)) \<le> sl_memberships (s_limits s)"
  proof (cases "fmlookup (s_memberships s) p")
    case None
    then show ?thesis using room by (simp add: fm_len_fresh)
  next
    case (Some r)
    then show ?thesis using s by (simp add: fm_len_replace session_ok_def)
  qed
  have none: "membership_state s q \<noteq> Some (Bound c)" for q
    using free session_okD(2)[OF s, of c q] by simp
  show ?thesis
  proof (rule session_ok_change[OF s])
    fix d q
    show "fmlookup (s_bindings (bind_to p c s)) d = Some q \<longleftrightarrow>
        membership_state (bind_to p c s) q = Some (Bound d)"
      using none[of q] unbound[of d] session_okD(2)[OF s, of d q] unfolding state
      by (auto simp: bind_to_def)
  next
    fix q e assume "membership_state (bind_to p c s) q = Some (Unbound e)"
    then show "s_recovery_clock (bind_to p c s) < e"
      using session_okD(3)[OF s, of q e] unfolding state by (auto simp: bind_to_def split: if_splits)
  qed (use len known phase in \<open>auto simp: bind_to_def split: if_splits\<close>)
qed

definition release :: "participant_id \<Rightarrow> connection_handle \<Rightarrow> session \<Rightarrow> session" where
  "release p c s = s\<lparr>s_bindings := fmdrop c (s_bindings s),
                     s_memberships := fmdrop p (s_memberships s)\<rparr>"

lemma release_ok:
  assumes s: "session_ok s" and b: "membership_state s p = Some (Bound c)"
  shows "session_ok (release p c s)"
proof -
  have state: "membership_state (release p c s) q = (if q = p then None else membership_state s q)" for q
    by (simp add: release_def membership_state_def)
  have uniq: "q \<noteq> p \<Longrightarrow> membership_state s q \<noteq> Some (Bound c)" for q
    using session_okD(2)[OF s, of c q] session_okD(2)[OF s, of c p] b by auto
  show ?thesis
  proof (rule session_ok_change[OF s])
    fix d q
    show "fmlookup (s_bindings (release p c s)) d = Some q \<longleftrightarrow>
        membership_state (release p c s) q = Some (Bound d)"
      using uniq[of q] b session_okD(2)[OF s, of d q] unfolding state by (auto simp: release_def)
  next
    fix q e assume "membership_state (release p c s) q = Some (Unbound e)"
    then show "s_recovery_clock (release p c s) < e"
      using session_okD(3)[OF s, of q e] unfolding state by (auto simp: release_def split: if_splits)
  qed (use fm_len_drop_le[of p "s_memberships s"] session_ok_registry(3)[OF s] session_okD(4)[OF s]
        in \<open>auto simp: release_def split: if_splits\<close>)
qed

definition retain ::
  "participant_id \<Rightarrow> connection_handle \<Rightarrow> recovery_time \<Rightarrow> session \<Rightarrow> session" where
  "retain p c e s = s\<lparr>s_bindings := fmdrop c (s_bindings s),
     s_memberships := fmupd p \<lparr>mr_state = Unbound e, mr_previous_connection = Some c\<rparr>
                        (s_memberships s)\<rparr>"

lemma retain_ok:
  assumes s: "session_ok s" and b: "membership_state s p = Some (Bound c)"
    and later: "s_recovery_clock s < e"
  shows "session_ok (retain p c e s)"
proof -
  obtain r where r: "fmlookup (s_memberships s) p = Some r"
    using b by (auto simp: membership_state_def)
  have state: "membership_state (retain p c e s) q =
      (if q = p then Some (Unbound e) else membership_state s q)" for q
    by (simp add: retain_def membership_state_def)
  have uniq: "q \<noteq> p \<Longrightarrow> membership_state s q \<noteq> Some (Bound c)" for q
    using session_okD(2)[OF s, of c q] session_okD(2)[OF s, of c p] b by auto
  show ?thesis
  proof (rule session_ok_change[OF s])
    fix d q
    show "fmlookup (s_bindings (retain p c e s)) d = Some q \<longleftrightarrow>
        membership_state (retain p c e s) q = Some (Bound d)"
      using uniq[of q] b session_okD(2)[OF s, of d q] unfolding state by (auto simp: retain_def)
  next
    fix q x assume "membership_state (retain p c e s) q = Some (Unbound x)"
    then show "s_recovery_clock (retain p c e s) < x"
      using session_okD(3)[OF s, of q x] later unfolding state
      by (auto simp: retain_def split: if_splits)
  qed (use r fm_len_replace[OF r] session_ok_registry(3)[OF s] session_okD(4)[OF s]
        in \<open>auto simp: retain_def split: if_splits\<close>)
qed

definition drop_unbound :: "participant_id list \<Rightarrow> recovery_time \<Rightarrow> session \<Rightarrow> session" where
  "drop_unbound ps t s = s\<lparr>s_recovery_clock := t, s_memberships := fold fmdrop ps (s_memberships s)\<rparr>"

lemma drop_unbound_ok:
  assumes s: "session_ok s"
    and unbound: "\<And>p c. p \<in> set ps \<Longrightarrow> membership_state s p \<noteq> Some (Bound c)"
    and later: "\<And>p e. membership_state s p = Some (Unbound e) \<Longrightarrow> p \<notin> set ps \<Longrightarrow> t < e"
  shows "session_ok (drop_unbound ps t s)"
proof -
  have state: "membership_state (drop_unbound ps t s) q =
      (if q \<in> set ps then None else membership_state s q)" for q
    by (simp add: drop_unbound_def membership_state_def fmlookup_fold_fmdrop)
  have empty: "fold fmdrop ps fmempty = fmempty" by (induction ps) auto
  have len: "fm_len (fold fmdrop ps (s_memberships s)) \<le> sl_memberships (s_limits s)"
    using fm_len_fold_fmdrop[of ps "s_memberships s"] session_ok_registry(3)[OF s] by simp
  show ?thesis
  proof (rule session_ok_change[OF s])
    fix d q
    show "fmlookup (s_bindings (drop_unbound ps t s)) d = Some q \<longleftrightarrow>
        membership_state (drop_unbound ps t s) q = Some (Bound d)"
      using unbound[of q d] session_okD(2)[OF s, of d q] unfolding state
      by (auto simp: drop_unbound_def)
  next
    fix q e assume "membership_state (drop_unbound ps t s) q = Some (Unbound e)"
    then show "s_recovery_clock (drop_unbound ps t s) < e"
      using later[of q e] unfolding state by (auto simp: drop_unbound_def split: if_splits)
  qed (use len empty session_okD(4)[OF s]
        in \<open>auto simp: drop_unbound_def fmlookup_fold_fmdrop split: if_splits\<close>)
qed

section \<open>Every operation keeps the invariant\<close>

lemma admit_new_Err: "fst (admit_new s p est) = Err e \<Longrightarrow> snd (admit_new s p est) = s"
proof -
  assume e: "fst (admit_new s p est) = Err e"
  obtain q reg where q: "registry_claim (s_used_participants s) p = (q, reg)" by fastforce
  show ?thesis
  proof (cases q)
    case (Err x)
    have "reg = s_used_participants s" using q unfolding Err by (rule incarnation.claim_Err_same)
    then show ?thesis using q Err by (simp add: admit_new_def Let_def)
  next
    case (Ok u)
    then show ?thesis using e q by (simp add: admit_new_def Let_def split: if_splits)
  qed
qed

lemma admit_new_Ok:
  assumes "fst (admit_new s p est) = Ok ()"
  obtains reg where "s_phase s = Open" "fm_len (s_memberships s) < sl_memberships (s_limits s)"
    "fmlookup (s_bindings s) (en_connection est) = None"
    "\<not> registry_contains (s_used_participants s) p"
    "registry_claim (s_used_participants s) p = (Ok (), reg)"
    "snd (admit_new s p est) = bind_to p (en_connection est) (s\<lparr>s_used_participants := reg\<rparr>)"
proof -
  obtain q reg where q: "registry_claim (s_used_participants s) p = (q, reg)" by fastforce
  show thesis
    by (rule that[of reg]) (use assms q in \<open>cases q;
      simp add: admit_new_def Let_def bind_to_def split: if_splits\<close>)+
qed

lemma admit_new_ok:
  assumes s: "session_ok s"
  shows "session_ok (snd (admit_new s p est))"
proof (cases "fst (admit_new s p est)")
  case (Err e)
  then show ?thesis using s by (simp add: admit_new_Err)
next
  case (Ok u)
  then have "fst (admit_new s p est) = Ok ()" by simp
  then show ?thesis
  proof (cases rule: admit_new_Ok)
    case (1 reg)
    let ?s = "s\<lparr>s_used_participants := reg\<rparr>"
    have regs: "registry_contains reg q \<longleftrightarrow> q = p \<or> registry_contains (s_used_participants s) q" for q
      using 1(5) by (rule incarnation.claim_Ok_contains)
    have "registry_ok reg" "max_claims reg = max_claims (s_used_participants s)"
      using registry_claim_ok[OF session_ok_registry(1)[OF s], of p]
        registry_claim_max[of "s_used_participants s" p] 1(5) by simp_all
    then have ok: "session_ok ?s"
      using s regs by (intro session_okI) (auto simp: session_ok_def)
    have absent: "fmlookup (s_memberships s) p = None"
      using session_okD(1)[OF s, of p] 1(4) by (cases "fmlookup (s_memberships s) p") auto
    have "session_ok (bind_to p (en_connection est) ?s)"
      by (rule bind_to_ok[OF ok]) (use 1 regs absent in \<open>simp_all add: membership_state_def\<close>)
    then show ?thesis using 1 by simp
  qed
qed

lemma connection_lost_eq:
  assumes "session_ok s"
  shows "connection_lost s p c policy =
     (if s_phase s \<noteq> Open then (Err SessionClosedError, s)
      else if membership_state s p = None then (Err ParticipantNotFound, s)
      else if membership_state s p \<noteq> Some (Bound c) then (Err BindingMismatch, s)
      else case policy of
          Terminate \<Rightarrow> (Ok Terminated, release p c s)
        | RetainForRecovery d \<Rightarrow>
            (case recovery_checked_add (s_recovery_clock s) d of
               None \<Rightarrow> (Err RecoveryExpiryOverflow, s)
             | Some e \<Rightarrow> (Ok (Retained e), retain p c e s)))"
  using is_authorized_iff[OF assms, of p c]
  by (auto simp: connection_lost_def release_def retain_def split: option.splits retention_policy.splits)

lemma recovery_checked_add_less:
  "recovery_checked_add t d = Some e \<Longrightarrow> d \<noteq> 0 \<Longrightarrow> t < e"
  by (auto simp: recovery_checked_add_def recovery_order_defs dest: u64_checked_add_less)

fun policy_positive :: "retention_policy \<Rightarrow> bool" where
  "policy_positive Terminate = True"
| "policy_positive (RetainForRecovery d) = (d \<noteq> 0)"

lemma connection_lost_ok:
  assumes "session_ok s" "policy_positive policy"
  shows "session_ok (snd (connection_lost s p c policy))"
  using assms(2) release_ok[OF assms(1), of p c] retain_ok[OF assms(1), of p c]
  unfolding connection_lost_eq[OF assms(1)]
  by (cases policy) (auto split: option.splits dest: recovery_checked_add_less simp: assms(1))

lemma bind_replacement_eq:
  assumes "session_ok s"
  shows "bind_replacement s p est =
     (let c = en_connection est in
      if s_phase s \<noteq> Open then (Err SessionClosedError, s)
      else if fmlookup (s_bindings s) c \<noteq> None then (Err ConnectionAlreadyBound, s)
      else case fmlookup (s_memberships s) p of
        None \<Rightarrow> (Err ParticipantNotFound, s)
      | Some r \<Rightarrow> (case mr_state r of
          Bound _ \<Rightarrow> (Err MembershipNotUnbound, s)
        | Unbound e \<Rightarrow>
            if mr_previous_connection r = Some c then (Err PreviousConnectionCannotReplaceItself, s)
            else (Ok (), bind_to p c s)))"
  using session_okD(3)[OF assms, of p]
  by (auto simp: bind_replacement_def bind_to_def Let_def membership_state_def
      split: option.splits membership_state_t.splits)

lemma bind_replacement_ok:
  assumes "session_ok s"
  shows "session_ok (snd (bind_replacement s p est))"
proof (cases "fmlookup (s_memberships s) p")
  case None
  then show ?thesis using assms by (simp add: bind_replacement_eq[OF assms] Let_def)
next
  case (Some r)
  show ?thesis
  proof (cases "mr_state r")
    case (Bound c)
    then show ?thesis using assms Some by (simp add: bind_replacement_eq[OF assms] Let_def)
  next
    case (Unbound e)
    then have "session_ok (bind_to p (en_connection est) s)"
      if "s_phase s = Open" "fmlookup (s_bindings s) (en_connection est) = None"
      using assms that Some session_okD(1)[OF assms Some]
      by (intro bind_to_ok) (auto simp: membership_state_def)
    then show ?thesis using assms Some Unbound
      by (auto simp: bind_replacement_eq[OF assms] Let_def)
  qed
qed

lemma remove_participant_ok:
  assumes "session_ok s"
  shows "session_ok (snd (remove_participant s p))"
proof (cases "fmlookup (s_memberships s) p")
  case None
  then show ?thesis using assms by (simp add: remove_participant_def)
next
  case (Some r)
  show ?thesis
  proof (cases "mr_state r")
    case (Bound c)
    then show ?thesis using release_ok[OF assms, of p c] Some assms
      by (simp add: remove_participant_def release_def membership_state_def)
  next
    case (Unbound e)
    have "session_ok (drop_unbound [p] (s_recovery_clock s) s)"
      using Some Unbound session_okD(3)[OF assms]
      by (intro drop_unbound_ok assms) (auto simp: membership_state_def)
    then show ?thesis using Some Unbound assms
      by (simp add: remove_participant_def drop_unbound_def)
  qed
qed

lemma advance_recovery_clock_ok:
  assumes "session_ok s"
  shows "session_ok (snd (advance_recovery_clock s t))"
proof -
  have "session_ok (drop_unbound (sort_participants (expired_set s t)) t s)"
    by (intro drop_unbound_ok assms) (auto simp: expired_set_iff not_le)
  then show ?thesis using assms
    by (simp add: advance_recovery_clock_def drop_unbound_def Let_def)
qed

lemma session_close_ok: "session_ok s \<Longrightarrow> session_ok (session_close s)"
  by (auto simp: session_ok_def session_close_def membership_state_def)

section \<open>The session as a machine\<close>

datatype session_call =
    CallAdmit participant_id established_negotiation
  | CallLost participant_id connection_handle retention_policy
  | CallReplace participant_id established_negotiation
  | CallRemove participant_id
  | CallAdvance recovery_time
  | CallClose

fun session_apply :: "session \<Rightarrow> session_call \<Rightarrow> session" where
  "session_apply s (CallAdmit p est) = snd (admit_new s p est)"
| "session_apply s (CallLost p c policy) = snd (connection_lost s p c policy)"
| "session_apply s (CallReplace p est) = snd (bind_replacement s p est)"
| "session_apply s (CallRemove p) = snd (remove_participant s p)"
| "session_apply s (CallAdvance t) = snd (advance_recovery_clock s t)"
| "session_apply s CallClose = session_close s"

definition session_step :: "session \<Rightarrow> session_call \<Rightarrow> session exec" where
  "session_step s x = Some (session_apply s x)"

text \<open>A retention duration is a \<open>NonZeroU64\<close>.\<close>

fun session_call_ok :: "session_call \<Rightarrow> bool" where
  "session_call_ok (CallLost _ _ policy) = policy_positive policy"
| "session_call_ok _ = True"

lemma session_apply_ok: "session_ok s \<Longrightarrow> session_call_ok x \<Longrightarrow> session_ok (session_apply s x)"
  by (cases x) (simp_all add: admit_new_ok connection_lost_ok bind_replacement_ok
      remove_participant_ok advance_recovery_clock_ok session_close_ok)

definition session_below :: "session \<Rightarrow> session \<Rightarrow> bool" where
  "session_below a b \<longleftrightarrow> s_id b = s_id a \<and> s_recovery_clock a \<le> s_recovery_clock b
     \<and> (\<forall>p. registry_contains (s_used_participants a) p \<longrightarrow> registry_contains (s_used_participants b) p)
     \<and> (s_phase a = Closed \<longrightarrow> s_phase b = Closed)"

lemma admit_new_below: "session_below s (snd (admit_new s p est))"
proof (cases "fst (admit_new s p est)")
  case (Err e)
  then show ?thesis by (simp add: admit_new_Err session_below_def)
next
  case (Ok u)
  then have "fst (admit_new s p est) = Ok ()" by simp
  then show ?thesis
  proof (cases rule: admit_new_Ok)
    case (1 reg)
    then show ?thesis using incarnation.claim_Ok_contains[OF 1(5)]
      by (simp add: session_below_def bind_to_def)
  qed
qed

lemma session_apply_below: "session_below s (session_apply s x)"
proof (cases x)
  case (CallAdmit p est)
  then show ?thesis by (simp add: admit_new_below)
qed (auto simp: session_below_def connection_lost_def bind_replacement_def remove_participant_def
      advance_recovery_clock_def session_close_def Let_def
      split: option.splits membership_state_t.splits retention_policy.splits)

interpretation session_machine: monotone_machine session_step session_ok session_call_ok session_below
  by unfold_locales
     (auto simp: session_step_def session_apply_ok session_apply_below,
      auto simp: session_below_def)

end
