(* ===== verification/Delivery_Types.thy ===== *)
theory Delivery_Types
  imports Session_Safety
begin

text \<open>
  The data model of \<open>crates/runen-net/src/delivery.rs\<close>: flow keys, modes, pressure policies, scope
  limits and usage, buffered transfers, and the state of one flow. \<open>ScopeUsage::add\<close> and
  \<open>remove\<close> panic on overflow and underflow; the locale \<open>scoped_usage\<close> states what the endpoint
  relies on when it guards them with \<open>can_add\<close>.
\<close>

section \<open>Keys, modes and policies\<close>

datatype delivery_flow_handle = DeliveryFlowHandle (flow_handle_get: u64)

datatype flow_direction = Outbound | Inbound

record delivery_flow_key =
  fk_connection :: connection_handle
  fk_direction :: flow_direction
  fk_handle :: delivery_flow_handle

datatype delivery_mode = ReliableOrdered | UnreliableUnordered | UnreliableSequenced

datatype outbound_pressure_behavior = RejectNew | EvictOldestUnreliable

datatype receiver_pressure_behavior =
  TerminateReliable | DropIncomingUnreliable | EvictOldestBufferedUnreliable

record flow_resource_policy =
  fp_max_message_bytes :: nat
  fp_max_pending_messages :: nat
  fp_max_pending_payload_bytes :: nat
  fp_outbound_pressure :: outbound_pressure_behavior
  fp_receiver_pressure :: receiver_pressure_behavior

datatype delivery_policy_error =
  ReliableOutboundMustRejectNew | ReliableReceiverMustTerminate | UnreliableReceiverPolicyRequired

definition validate_for_mode ::
  "flow_resource_policy \<Rightarrow> delivery_mode \<Rightarrow> (unit, delivery_policy_error) result" where
  "validate_for_mode p mode =
     (case mode of
        ReliableOrdered \<Rightarrow>
          if fp_outbound_pressure p \<noteq> RejectNew then Err ReliableOutboundMustRejectNew
          else if fp_receiver_pressure p \<noteq> TerminateReliable
          then Err ReliableReceiverMustTerminate else Ok ()
      | _ \<Rightarrow> if fp_receiver_pressure p = TerminateReliable
             then Err UnreliableReceiverPolicyRequired else Ok ())"

section \<open>Scope accounting\<close>

record delivery_scope_limits =
  dl_max_active_flows :: nat
  dl_max_pending_messages :: nat
  dl_max_pending_payload_bytes :: nat

datatype resource_scope = FlowScope | ConnectionScope | SessionScope | AggregateScope

record scope_usage =
  su_active_flows :: nat
  su_pending_messages :: nat
  su_pending_payload_bytes :: nat

definition scope_usage_default :: scope_usage where
  "scope_usage_default =
     \<lparr>su_active_flows = 0, su_pending_messages = 0, su_pending_payload_bytes = 0\<rparr>"

definition fits_within :: "nat \<Rightarrow> nat \<Rightarrow> nat \<Rightarrow> bool" where
  "fits_within current extra limit =
     (case checked_add current extra of None \<Rightarrow> False | Some v \<Rightarrow> v \<le> limit)"

definition scope_can_add ::
  "scope_usage \<Rightarrow> delivery_scope_limits \<Rightarrow> nat \<Rightarrow> nat \<Rightarrow> nat \<Rightarrow> bool" where
  "scope_can_add u l flows messages bytes \<longleftrightarrow>
     fits_within (su_active_flows u) flows (dl_max_active_flows l)
     \<and> fits_within (su_pending_messages u) messages (dl_max_pending_messages l)
     \<and> fits_within (su_pending_payload_bytes u) bytes (dl_max_pending_payload_bytes l)"

definition scope_add :: "scope_usage \<Rightarrow> nat \<Rightarrow> nat \<Rightarrow> nat \<Rightarrow> scope_usage exec" where
  "scope_add u flows messages bytes = do {
     f \<leftarrow> checked_add (su_active_flows u) flows;
     m \<leftarrow> checked_add (su_pending_messages u) messages;
     b \<leftarrow> checked_add (su_pending_payload_bytes u) bytes;
     Some \<lparr>su_active_flows = f, su_pending_messages = m, su_pending_payload_bytes = b\<rparr> }"

definition scope_remove :: "scope_usage \<Rightarrow> nat \<Rightarrow> nat \<Rightarrow> nat \<Rightarrow> scope_usage exec" where
  "scope_remove u flows messages bytes = do {
     f \<leftarrow> checked_sub (su_active_flows u) flows;
     m \<leftarrow> checked_sub (su_pending_messages u) messages;
     b \<leftarrow> checked_sub (su_pending_payload_bytes u) bytes;
     Some \<lparr>su_active_flows = f, su_pending_messages = m, su_pending_payload_bytes = b\<rparr> }"

record scope_state =
  sc_limits :: delivery_scope_limits
  sc_usage :: scope_usage

definition scope_state_new :: "delivery_scope_limits \<Rightarrow> scope_state" where
  "scope_state_new l = \<lparr>sc_limits = l, sc_usage = scope_usage_default\<rparr>"

text \<open>The declarative reading: a usage is a triple of sums, and it is within limits.\<close>

definition usage_of :: "nat \<Rightarrow> nat \<Rightarrow> nat \<Rightarrow> scope_usage" where
  "usage_of f m b = \<lparr>su_active_flows = f, su_pending_messages = m, su_pending_payload_bytes = b\<rparr>"

definition scope_within :: "scope_usage \<Rightarrow> delivery_scope_limits \<Rightarrow> bool" where
  "scope_within u l \<longleftrightarrow> su_active_flows u \<le> dl_max_active_flows l
     \<and> su_pending_messages u \<le> dl_max_pending_messages l
     \<and> su_pending_payload_bytes u \<le> dl_max_pending_payload_bytes l"

definition limits_usize :: "delivery_scope_limits \<Rightarrow> bool" where
  "limits_usize l \<longleftrightarrow> dl_max_active_flows l \<le> usize_max
     \<and> dl_max_pending_messages l \<le> usize_max \<and> dl_max_pending_payload_bytes l \<le> usize_max"

lemma fits_within_iff: "fits_within a b l \<longleftrightarrow> a + b \<le> usize_max \<and> a + b \<le> l"
  by (auto simp: fits_within_def checked_add_def)

lemma usage_of_sel [simp]:
  "su_active_flows (usage_of f m b) = f"
  "su_pending_messages (usage_of f m b) = m"
  "su_pending_payload_bytes (usage_of f m b) = b"
  by (simp_all add: usage_of_def)

lemma usage_of_eta: "usage_of (su_active_flows u) (su_pending_messages u) (su_pending_payload_bytes u) = u"
  by (simp add: usage_of_def)

lemma scope_add_usage:
  "f + f' \<le> usize_max \<Longrightarrow> m + m' \<le> usize_max \<Longrightarrow> b + b' \<le> usize_max \<Longrightarrow>
     scope_add (usage_of f m b) f' m' b' = Some (usage_of (f + f') (m + m') (b + b'))"
  by (simp add: scope_add_def usage_of_def)

lemma scope_remove_usage:
  "scope_remove (usage_of (f' + f) (m' + m) (b' + b)) f' m' b' = Some (usage_of f m b)"
  by (simp add: scope_remove_def usage_of_def)

lemma scope_can_add_usage:
  "scope_can_add (usage_of f m b) l f' m' b' \<longleftrightarrow>
     f + f' \<le> usize_max \<and> m + m' \<le> usize_max \<and> b + b' \<le> usize_max
     \<and> scope_within (usage_of (f + f') (m + m') (b + b')) l"
  by (auto simp: scope_can_add_def fits_within_iff scope_within_def)

text \<open>
  What the endpoint relies on: an addition admitted by \<open>can_add\<close> does not panic and stays within
  the limits, and a removal undoes an addition.
\<close>

locale scoped_usage =
  fixes can_add :: "'u \<Rightarrow> 'l \<Rightarrow> nat \<Rightarrow> nat \<Rightarrow> nat \<Rightarrow> bool"
    and add :: "'u \<Rightarrow> nat \<Rightarrow> nat \<Rightarrow> nat \<Rightarrow> 'u exec"
    and remove :: "'u \<Rightarrow> nat \<Rightarrow> nat \<Rightarrow> nat \<Rightarrow> 'u exec"
    and within :: "'u \<Rightarrow> 'l \<Rightarrow> bool"
  assumes can_add_add: "can_add u l f m b \<Longrightarrow> \<exists>v. add u f m b = Some v \<and> within v l"
    and add_remove: "add u f m b = Some v \<Longrightarrow> remove v f m b = Some u"
    and remove_within: "remove u f m b = Some v \<Longrightarrow> within u l \<Longrightarrow> within v l"
begin

lemma add_within: "can_add u l f m b \<Longrightarrow> add u f m b = Some v \<Longrightarrow> within v l"
  using can_add_add[of u l f m b] by auto

text \<open>A reservation that is admitted and later given back restores the usage exactly.\<close>

lemma reserve_release:
  assumes "can_add u l f m b"
  shows "\<exists>v. add u f m b = Some v \<and> within v l \<and> remove v f m b = Some u"
  using can_add_add[OF assms] add_remove by blast

end

interpretation scope: scoped_usage scope_can_add scope_add scope_remove scope_within
proof
  fix u l f m b
  assume "scope_can_add u l f m b"
  then show "\<exists>v. scope_add u f m b = Some v \<and> scope_within v l"
    by (auto simp: scope_can_add_def fits_within_iff scope_add_def scope_within_def)
next
  fix u f m b v
  assume "scope_add u f m b = Some v"
  then show "scope_remove v f m b = Some u"
    by (auto simp: scope_add_def scope_remove_def checked_simps bind_eq_Some_conv)
next
  fix u f m b v l
  assume "scope_remove u f m b = Some v" "scope_within u l"
  then show "scope_within v l"
    by (auto simp: scope_remove_def scope_within_def checked_simps bind_eq_Some_conv)
qed

section \<open>Transfers and flows\<close>

record delivery_transfer =
  dt_mode :: delivery_mode
  dt_accepted_index :: u64
  dt_payload :: "u8 list"

definition payload_len :: "delivery_transfer \<Rightarrow> nat" where
  "payload_len t = length (dt_payload t)"

record outbound_transfer_metadata =
  om_mode :: delivery_mode
  om_accepted_index :: u64
  om_payload_len :: nat

datatype receiver_buffer =
    Reliable "(u64, delivery_transfer) fmap" "u64 option"
  | Unreliable "delivery_transfer list" "u64 option"

definition receiver_new :: "delivery_mode \<Rightarrow> receiver_buffer" where
  "receiver_new mode =
     (case mode of ReliableOrdered \<Rightarrow> Reliable fmempty (Some 0)
                 | _ \<Rightarrow> Unreliable [] None)"

record flow_state =
  fl_mode :: delivery_mode
  fl_policy :: flow_resource_policy
  fl_next_accepted_index :: "u64 option"
  fl_outbound :: "delivery_transfer list"
  fl_receiver :: receiver_buffer
  fl_pending_messages :: nat
  fl_pending_payload_bytes :: nat
  fl_session :: "session_id option"

definition flow_new :: "delivery_mode \<Rightarrow> flow_resource_policy \<Rightarrow> flow_state" where
  "flow_new mode policy =
     \<lparr>fl_mode = mode, fl_policy = policy, fl_next_accepted_index = Some 0, fl_outbound = [],
      fl_receiver = receiver_new mode, fl_pending_messages = 0, fl_pending_payload_bytes = 0,
      fl_session = None\<rparr>"

definition flow_can_add_pending :: "flow_state \<Rightarrow> nat \<Rightarrow> nat \<Rightarrow> bool" where
  "flow_can_add_pending f messages bytes \<longleftrightarrow>
     fits_within (fl_pending_messages f) messages (fp_max_pending_messages (fl_policy f))
     \<and> fits_within (fl_pending_payload_bytes f) bytes (fp_max_pending_payload_bytes (fl_policy f))"

section \<open>Errors and outcomes\<close>

datatype flow_establishment_error =
    InvalidPolicy delivery_policy_error
  | FlowAlreadyExists
  | ConnectionLimitsMismatch
  | ActiveFlowLimitExceeded resource_scope

datatype session_association_outcome = Associated | AlreadyAssociated

datatype session_association_error =
    AssocUnknownFlow
  | AssocSessionClosed
  | AlreadyAssociatedWithDifferentSession
  | SessionLimitsMismatch
  | ResourceLimitExceeded

datatype submission_outcome =
    Accepted u64 nat
  | RejectedTooLarge
  | RejectedPressure
  | RejectedCounterExhausted

datatype delivery_acceptance = DeliveryAccepted | DeliveryNotAccepted

fun acceptance :: "submission_outcome \<Rightarrow> delivery_acceptance" where
  "acceptance (Accepted _ _) = DeliveryAccepted"
| "acceptance RejectedTooLarge = DeliveryNotAccepted"
| "acceptance RejectedPressure = DeliveryNotAccepted"
| "acceptance RejectedCounterExhausted = DeliveryNotAccepted"

datatype delivery_operation_error = UnknownFlow | WrongDirection | NotReliable

datatype custody_commit_error =
  CustodyUnknownFlow | CustodyWrongDirection | NoPendingMessage | NotFront

datatype receive_outcome =
    Buffered nat
  | DroppedByPressure nat
  | DroppedTooLarge
  | StaleSequenced
  | DuplicateReliable
  | RejectedModeMismatch
  | TerminalReliableFailure

record exposed_message =
  em_accepted_index :: u64
  em_payload :: "u8 list"

datatype flow_termination_reason =
    Requested
  | ConnectionEnded
  | ReliableCustodyLost
  | ReliableReceiverPressure
  | ReliableTransferConflict
  | ReliableInboundTooLarge
  | ReliableModeMismatch

definition forces_reliable_failure :: "flow_termination_reason \<Rightarrow> bool" where
  "forces_reliable_failure r \<longleftrightarrow>
     r \<in> {ReliableCustodyLost, ReliableReceiverPressure, ReliableTransferConflict,
          ReliableInboundTooLarge, ReliableModeMismatch}"

record flow_termination =
  ft_key :: delivery_flow_key
  ft_reason :: flow_termination_reason
  ft_pending_messages :: nat
  ft_reliable_obligation_failed :: bool

record delivery_diagnostics =
  dg_outbound_unreliable_pressure_drops :: nat
  dg_inbound_unreliable_pressure_drops :: nat
  dg_stale_sequenced_drops :: nat
  dg_reliable_duplicate_suppressions :: nat

record delivery_endpoint =
  de_aggregate :: scope_state
  de_connections :: "(connection_handle, scope_state) fmap"
  de_sessions :: "(session_id, scope_state) fmap"
  de_flows :: "(delivery_flow_key, flow_state) fmap"
  de_diagnostics :: delivery_diagnostics

type_synonym 'a delivery_op = "(('a, delivery_operation_error) result \<times> delivery_endpoint) exec"

end
