(* ===== verification/Wire.thy ===== *)
theory Wire
  imports Bytes Delivery_Types
begin

text \<open>
  The wire codec of \<open>crates/runen-net-quic/src/wire.rs\<close>: QUIC variable-length integers, flow
  identifiers and their cursors, and the bodies of the flow control frames.
\<close>

section \<open>Variable-length integers\<close>

definition MAX_VARINT :: u64 where
  "MAX_VARINT = push_bit 62 1 - 1"

datatype varint_encode_error = OutOfRange

datatype varint_decode_error = Incomplete nat nat | NonMinimal

record encoded_varint =
  vi_bytes :: bytes
  vi_len :: nat

definition varint_slice :: "encoded_varint \<Rightarrow> bytes" where
  "varint_slice e = take (vi_len e) (vi_bytes e)"

definition varint_len :: "u64 \<Rightarrow> nat option" where
  "varint_len value =
     (if value < push_bit 6 1 then Some 1
      else if value < push_bit 14 1 then Some 2
      else if value < push_bit 30 1 then Some 4
      else if value \<le> MAX_VARINT then Some 8
      else None)"

definition varint_buffer :: "nat \<Rightarrow> bytes \<Rightarrow> encoded_varint" where
  "varint_buffer n bs = \<lparr>vi_bytes = bs @ replicate (8 - length bs) 0, vi_len = n\<rparr>"

definition encode_varint :: "u64 \<Rightarrow> (encoded_varint, varint_encode_error) result exec" where
  "encode_varint value =
     (case varint_len value of
        None \<Rightarrow> Some (Err OutOfRange)
      | Some n \<Rightarrow>
        if n = 1 then Some (Ok (varint_buffer n [ucast value]))
        else if n = 2 then Some (Ok (varint_buffer n (be_bytes 2 ((ucast value :: 16 word) OR 0x4000))))
        else if n = 4
        then Some (Ok (varint_buffer n (be_bytes 4 ((ucast value :: 32 word) OR 0x80000000))))
        else if n = 8 then Some (Ok (varint_buffer n (be_bytes 8 (value OR 0xc000000000000000))))
        else None)"

definition encoded_len_from_first :: "u8 \<Rightarrow> nat" where
  "encoded_len_from_first first = push_bit (unat (drop_bit 6 first)) 1"

definition decode_varint :: "bytes \<Rightarrow> (u64 \<times> nat, varint_decode_error) result" where
  "decode_varint input =
     (case input of
        [] \<Rightarrow> Err (Incomplete 1 0)
      | first # _ \<Rightarrow>
        let n = encoded_len_from_first first
        in if length input < n then Err (Incomplete n (length input))
           else let value = foldl shift_in (ucast (first AND 0x3f)) (take (n - 1) (drop 1 input))
                in if varint_len value \<noteq> Some n then Err NonMinimal else Ok (value, n))"

section \<open>The codec is exact\<close>

text \<open>
  What a varint is, as numbers: its length is a power of two, the shortest that holds the value,
  and the bytes denote the value with the logarithm of the length in the two top bits.
\<close>

definition varint_form :: "u64 \<Rightarrow> nat \<Rightarrow> bytes \<Rightarrow> bool" where
  "varint_form v n bs \<longleftrightarrow> varint_len v = Some n \<and> length bs = n
     \<and> (\<exists>tag < 4. n = 2 ^ tag \<and> be_value bs = unat v + tag * (64 * 256 ^ (n - 1)))"

lemma unat_MAX_VARINT: "unat MAX_VARINT = 2 ^ 62 - 1"
  by (simp add: MAX_VARINT_def)

lemma varint_len_cases:
  assumes "varint_len v = Some n"
  obtains "n = 1" "unat v < 2 ^ 6" | "n = 2" "unat v < 2 ^ 14" | "n = 4" "unat v < 2 ^ 30"
    | "n = 8" "unat v < 2 ^ 62"
  using assms
  by (auto simp: varint_len_def word_less_nat_alt word_le_nat_alt unat_MAX_VARINT split: if_splits)

lemma varint_len_None: "varint_len v = None \<longleftrightarrow> MAX_VARINT < v"
  by (auto simp: varint_len_def word_less_nat_alt word_le_nat_alt unat_MAX_VARINT)

lemma unat_or_tag:
  fixes w t :: "'a::len word"
  assumes "unat w < 2 ^ k" "unat w + unat (push_bit k t) < 2 ^ LENGTH('a)"
  shows "unat (w OR push_bit k t) = unat w + unat (push_bit k t)"
proof -
  have "take_bit k w = w"
    using assms(1) by (simp add: word_unat_eq_iff unsigned_take_bit_eq take_bit_nat_eq_self)
  then have small: "bit w i \<Longrightarrow> i < k" for i
    by (metis bit_take_bit_iff)
  then have "w AND push_bit k t = 0"
    by (auto simp: bit_eq_iff bit_simps dest!: small)
  then have "w OR push_bit k t = w + push_bit k t"
    by (simp add: disjunctive_add_eq_or)
  then show ?thesis
    using assms(2) by (simp add: unat_plus_if')
qed

lemma unat_ucast_small:
  "unat (v :: u64) < 2 ^ LENGTH('a) \<Longrightarrow> unat (ucast v :: 'a::len word) = unat v"
  by (simp add: unsigned_ucast_eq take_bit_nat_eq_self)

lemma encode_varint_form:
  assumes "varint_len v = Some n"
  shows "\<exists>e. encode_varint v = Some (Ok e) \<and> vi_len e = n \<and> length (vi_bytes e) = 8
    \<and> varint_form v n (varint_slice e)"
  using assms
proof (cases rule: varint_len_cases)
  case 1
  then have "be_value [ucast v :: u8] = unat v"
    using unat_ucast_small[of v, where 'a = 8] be_value_snoc[of "[]"] by simp
  with 1 assms show ?thesis
    by (auto simp: encode_varint_def varint_form_def varint_buffer_def varint_slice_def
        intro!: exI[of _ 0])
next
  case 2
  then have "unat ((ucast v :: 16 word) OR 0x4000) = unat v + 0x4000"
    using unat_or_tag[of "ucast v :: 16 word" 14 1] unat_ucast_small[of v, where 'a = 16] by simp
  with 2 assms show ?thesis
    by (auto simp: encode_varint_def varint_form_def varint_buffer_def varint_slice_def
        be_value_be_bytes intro!: exI[of _ 1])
next
  case 3
  then have "unat ((ucast v :: 32 word) OR 0x80000000) = unat v + 0x80000000"
    using unat_or_tag[of "ucast v :: 32 word" 30 2] unat_ucast_small[of v, where 'a = 32] by simp
  with 3 assms show ?thesis
    by (auto simp: encode_varint_def varint_form_def varint_buffer_def varint_slice_def
        be_value_be_bytes intro!: exI[of _ 2])
next
  case 4
  then have "unat (v OR 0xc000000000000000) = unat v + 0xc000000000000000"
    using unat_or_tag[of v 62 3] by simp
  with 4 assms show ?thesis
    by (auto simp: encode_varint_def varint_form_def varint_buffer_def varint_slice_def
        be_value_be_bytes intro!: exI[of _ 3])
qed

lemma varint_form_unique: "varint_form v n bs \<Longrightarrow> varint_form v n cs \<Longrightarrow> bs = cs"
  by (auto simp: varint_form_def intro!: be_value_inj)

lemma unat_first_bits:
  "unat (drop_bit 6 (b :: u8)) = unat b div 64" "unat (b AND 0x3f) = unat b mod 64"
proof -
  show "unat (drop_bit 6 b) = unat b div 64"
    by (simp only: unat_drop_bit_eq) (simp add: drop_bit_eq_div)
  have "b AND 0x3f = take_bit 6 b"
    by (simp add: take_bit_eq_mask mask_eq_exp_minus_1)
  then show "unat (b AND 0x3f) = unat b mod 64"
    by (simp add: unsigned_take_bit_eq) (simp add: take_bit_eq_mod)
qed

lemma decode_value:
  assumes "first # bs = take n input" "n = encoded_len_from_first first" "length bs + 1 = n"
  shows "unat (foldl shift_in (ucast (first AND 0x3f)) bs)
    = (unat first mod 64) * 256 ^ length bs + be_value bs"
proof -
  have "unat first div 64 \<le> 3" using unat_u8_less[of first] by linarith
  then have "length bs \<le> 7"
    using assms(2,3) unat_first_bits(1)[of first] power_increasing[of "unat first div 64" 3 "2::nat"]
    by (simp add: encoded_len_from_first_def push_bit_eq_mult)
  then have "(unat first mod 64 + 1) * 256 ^ length bs \<le> (64 :: nat) * 256 ^ 7"
    by (intro mult_le_mono power_increasing) auto
  then show ?thesis
    using unat_first_bits(2)[of first]
      unat_shift_in_all[of "ucast (first AND 0x3f) :: u64" bs]
    by (simp add: unat_ucast_u64)
qed

lemma split_tag: "(x :: nat) * p + b = x mod 64 * p + b + x div 64 * (64 * p)"
proof -
  obtain q r where "x = 64 * q + r" "r < 64"
    using that[of "x div 64" "x mod 64"] by simp
  then show ?thesis by (simp add: algebra_simps)
qed

lemma decode_varint_Ok:
  "decode_varint input = Ok (v, n) \<longleftrightarrow> varint_form v n (take n input)"
proof (cases input)
  case Nil
  then show ?thesis
    by (auto simp: decode_varint_def varint_form_def varint_len_def split: if_splits)
next
  case (Cons first rest)
  let ?k = "encoded_len_from_first first" and ?tag = "unat first div 64"
  have k: "?k = 2 ^ ?tag" and tag: "?tag < 4"
    using unat_first_bits(1)[of first] unat_u8_less[of first]
    by (simp_all add: encoded_len_from_first_def push_bit_eq_mult less_mult_imp_div_less)
  then have pos: "0 < ?k" by simp
  define bs where "bs = take (?k - 1) rest"
  define w where "w = foldl shift_in (ucast (first AND 0x3f)) bs"
  have split: "take ?k input = first # bs"
    using pos Cons by (cases ?k) (auto simp: bs_def)
  have val: "unat w = (unat first mod 64) * 256 ^ length bs + be_value bs" if "?k \<le> length input"
  proof -
    have "length bs + 1 = ?k" using that Cons pos by (simp add: bs_def)
    then show ?thesis unfolding w_def by (intro decode_value[OF split[symmetric]]) simp_all
  qed
  have be: "be_value (first # bs) = unat first mod 64 * 256 ^ length bs + be_value bs
      + ?tag * (64 * 256 ^ length bs)"
    unfolding be_value_Cons by (rule split_tag)
  have dec: "decode_varint input = (if length input < ?k then Err (Incomplete ?k (length input))
      else if varint_len w \<noteq> Some ?k then Err NonMinimal else Ok (w, ?k))"
    using Cons by (simp add: decode_varint_def Let_def w_def bs_def)
  show ?thesis
  proof
    assume ok: "decode_varint input = Ok (v, n)"
    then have "v = w" "n = ?k" "varint_len v = Some n" "n \<le> length input"
      using dec by (auto split: if_splits)
    moreover from this have "length bs = n - 1" using Cons by (simp add: bs_def)
    ultimately show "varint_form v n (take n input)"
      using val be split k tag by (auto simp: varint_form_def)
  next
    assume form: "varint_form v n (take n input)"
    then obtain t where t: "t < 4" "n = 2 ^ t" "n \<le> length input" "varint_len v = Some n"
      "be_value (take n input) = unat v + t * (64 * 256 ^ (n - 1))"
      by (auto simp: varint_form_def)
    have "n \<noteq> 0" using t by simp
    then obtain cs where cs: "take n input = first # cs" "length cs = n - 1"
      using Cons t(3) by (cases n) auto
    have small: "unat v < 64 * 256 ^ (n - 1)"
      using t(4) by (cases rule: varint_len_cases) simp_all
    have eq: "unat first * 256 ^ (n - 1) + be_value cs = unat v + t * (64 * 256 ^ (n - 1))"
      using t(5) cs be_value_Cons[of first cs] by simp
    have "unat first div 64 = (unat first * 256 ^ (n - 1) + be_value cs) div 256 ^ (n - 1) div 64"
      using be_value_less[of cs] cs(2) by (simp add: div_add1_eq)
    also have "\<dots> = (unat v + t * (64 * 256 ^ (n - 1))) div (64 * 256 ^ (n - 1))"
      unfolding eq by (simp add: div_mult2_eq[symmetric] mult.commute)
    also have "\<dots> = t" using small by simp
    finally have "?tag = t" .
    then have n: "n = ?k" using t k by simp
    then have len: "?k \<le> length input" "length bs = n - 1" and "cs = bs"
      using t cs split by simp_all
    then have "unat w = unat v"
      using val[OF len(1)] be t(5) split n \<open>?tag = t\<close> by simp
    then have "w = v" by (simp add: word_unat_eq_iff)
    then show "decode_varint input = Ok (v, n)"
      using dec n t len by simp
  qed
qed


text \<open>The bytes of a value, and decoding as their inverse in both directions.\<close>

definition vslice :: "u64 \<Rightarrow> bytes" where
  "vslice v = (case encode_varint v of Some (Ok e) \<Rightarrow> varint_slice e | _ \<Rightarrow> [])"

lemma encode_varint_cases:
  obtains (Small) e where "v \<le> MAX_VARINT" "encode_varint v = Some (Ok e)" "varint_slice e = vslice v"
      "vi_len e = length (vslice v)" "varint_form v (length (vslice v)) (vslice v)"
      "length (vi_bytes e) = 8"
    | (Large) "MAX_VARINT < v" "encode_varint v = Some (Err OutOfRange)"
proof (cases "varint_len v")
  case None
  then show ?thesis using Large varint_len_None[of v] by (simp add: encode_varint_def)
next
  case (Some n)
  obtain e where e: "encode_varint v = Some (Ok e)" "vi_len e = n" "length (vi_bytes e) = 8"
    "varint_form v n (varint_slice e)"
    using encode_varint_form[OF Some] by auto
  have "length (varint_slice e) = n" using e(4) by (simp add: varint_form_def)
  moreover have "v \<le> MAX_VARINT" using Some varint_len_None[of v] by (cases "v \<le> MAX_VARINT") auto
  ultimately show ?thesis using e Small by (simp add: vslice_def)
qed

lemma vslice_form: "v \<le> MAX_VARINT \<Longrightarrow> varint_form v (length (vslice v)) (vslice v)"
  by (cases v rule: encode_varint_cases) auto

lemma length_vslice: "v \<le> MAX_VARINT \<Longrightarrow> 1 \<le> length (vslice v) \<and> length (vslice v) \<le> 8"
  using vslice_form[of v] by (auto simp: varint_form_def elim!: varint_len_cases)

lemma decode_varint_iff:
  "decode_varint input = Ok (v, n) \<longleftrightarrow>
     v \<le> MAX_VARINT \<and> n = length (vslice v) \<and> take n input = vslice v"
proof
  assume "decode_varint input = Ok (v, n)"
  then have form: "varint_form v n (take n input)" by (simp add: decode_varint_Ok)
  then have v: "v \<le> MAX_VARINT"
    using varint_len_None[of v] by (cases "v \<le> MAX_VARINT") (auto simp: varint_form_def)
  have "n = length (vslice v)" using form vslice_form[OF v] by (simp add: varint_form_def)
  moreover from this have "take n input = vslice v"
    using varint_form_unique form vslice_form[OF v] by blast
  ultimately show "v \<le> MAX_VARINT \<and> n = length (vslice v) \<and> take n input = vslice v" using v by simp
next
  assume "v \<le> MAX_VARINT \<and> n = length (vslice v) \<and> take n input = vslice v"
  then show "decode_varint input = Ok (v, n)" using vslice_form[of v] by (auto simp: decode_varint_Ok)
qed

lemma decode_vslice [simp]:
  "v \<le> MAX_VARINT \<Longrightarrow> decode_varint (vslice v @ rest) = Ok (v, length (vslice v))"
  by (simp add: decode_varint_iff)

section \<open>Flow identifiers\<close>

definition MAX_FLOW_SEQUENCE :: u64 where
  "MAX_FLOW_SEQUENCE = drop_bit 1 MAX_VARINT"

datatype wire_side = Client | Server

definition side_bit :: "wire_side \<Rightarrow> u64" where
  "side_bit s = (case s of Client \<Rightarrow> 0 | Server \<Rightarrow> 1)"

definition side_from_bit :: "u64 \<Rightarrow> wire_side" where
  "side_from_bit b = (if b = 0 then Client else Server)"

datatype flow_id_error = SequenceOutOfRange | WireValueOutOfRange

datatype flow_id = FlowId (flow_id_value: u64)

definition flow_id_new :: "wire_side \<Rightarrow> u64 \<Rightarrow> (flow_id, flow_id_error) result" where
  "flow_id_new side sequence =
     (if sequence > MAX_FLOW_SEQUENCE then Err SequenceOutOfRange
      else Ok (FlowId (push_bit 1 sequence OR side_bit side)))"

definition flow_id_from_wire :: "u64 \<Rightarrow> (flow_id, flow_id_error) result" where
  "flow_id_from_wire v = (if v > MAX_VARINT then Err WireValueOutOfRange else Ok (FlowId v))"

definition flow_id_side :: "flow_id \<Rightarrow> wire_side" where
  "flow_id_side i = side_from_bit (flow_id_value i AND 1)"

definition flow_id_sequence :: "flow_id \<Rightarrow> u64" where
  "flow_id_sequence i = drop_bit 1 (flow_id_value i)"

datatype flow_id_cursor_error =
    CursorExhausted
  | WrongSide wire_side wire_side
  | UnexpectedSequence u64 u64

record flow_id_cursor =
  fc_side :: wire_side
  fc_next_sequence :: "u64 option"

definition flow_id_cursor_new :: "wire_side \<Rightarrow> flow_id_cursor" where
  "flow_id_cursor_new side = \<lparr>fc_side = side, fc_next_sequence = Some 0\<rparr>"

definition cursor_advance :: "u64 \<Rightarrow> flow_id_cursor \<Rightarrow> flow_id_cursor" where
  "cursor_advance sequence c =
     c\<lparr>fc_next_sequence := (if sequence = MAX_FLOW_SEQUENCE then None else Some (sequence + 1))\<rparr>"

text \<open>\<open>None\<close> is the panic of \<open>expect\<close> when the cursor leaves the domain of identifiers.\<close>

definition cursor_allocate ::
  "flow_id_cursor \<Rightarrow> ((flow_id, flow_id_cursor_error) result \<times> flow_id_cursor) exec" where
  "cursor_allocate c =
     (case fc_next_sequence c of
        None \<Rightarrow> Some (Err CursorExhausted, c)
      | Some sequence \<Rightarrow> (case flow_id_new (fc_side c) sequence of
          Err _ \<Rightarrow> None
        | Ok i \<Rightarrow> Some (Ok i, cursor_advance sequence c)))"

definition validate_and_consume ::
  "flow_id_cursor \<Rightarrow> flow_id \<Rightarrow> (unit, flow_id_cursor_error) result \<times> flow_id_cursor" where
  "validate_and_consume c i =
     (case fc_next_sequence c of
        None \<Rightarrow> (Err CursorExhausted, c)
      | Some expected \<Rightarrow>
        if flow_id_side i \<noteq> fc_side c then (Err (WrongSide (fc_side c) (flow_id_side i)), c)
        else if flow_id_sequence i \<noteq> expected
        then (Err (UnexpectedSequence expected (flow_id_sequence i)), c)
        else (Ok (), cursor_advance expected c))"

section \<open>Flow control bodies\<close>

definition MAX_CONTROL_BODY_BYTES :: nat where
  "MAX_CONTROL_BODY_BYTES = 24"

datatype flow_reject_reason = RejectResourceLimit | RejectMessageLimit

datatype flow_terminate_reason =
  TerminateNormal | TerminateResourceFailure | TerminateProtocolFailure | TerminateReliableDeliveryFailure

datatype control_body_error =
    BodyVarInt varint_decode_error
  | InvalidFlowId flow_id_error
  | UnknownDeliveryMode u64
  | ZeroMaxMessageBytes
  | MaxMessageBytesOutOfRange
  | UnknownRejectReason u64
  | UnknownTerminateReason u64
  | TrailingBytes

record encoded_control_body =
  eb_bytes :: bytes
  eb_len :: nat

definition body_slice :: "encoded_control_body \<Rightarrow> bytes" where
  "body_slice b = take (eb_len b) (eb_bytes b)"

record body_writer =
  bw_bytes :: bytes
  bw_len :: nat

definition writer_new :: body_writer where
  "writer_new = \<lparr>bw_bytes = replicate MAX_CONTROL_BODY_BYTES 0, bw_len = 0\<rparr>"

definition writer_push_varint :: "u64 \<Rightarrow> body_writer \<Rightarrow> body_writer exec" where
  "writer_push_varint v w =
     (case encode_varint v of
        Some (Ok e) \<Rightarrow>
          let stop = bw_len w + vi_len e
          in if stop \<le> length (bw_bytes w)
             then Some (w\<lparr>bw_bytes := take (bw_len w) (bw_bytes w) @ varint_slice e @ drop stop (bw_bytes w),
                          bw_len := stop\<rparr>)
             else None
      | _ \<Rightarrow> None)"

definition writer_finish :: "body_writer \<Rightarrow> encoded_control_body" where
  "writer_finish w = \<lparr>eb_bytes = bw_bytes w, eb_len = bw_len w\<rparr>"

record body_reader =
  br_input :: bytes
  br_offset :: nat

definition reader_new :: "bytes \<Rightarrow> body_reader" where
  "reader_new input = \<lparr>br_input = input, br_offset = 0\<rparr>"

definition reader_read_varint :: "body_reader \<Rightarrow> (u64 \<times> body_reader, control_body_error) result" where
  "reader_read_varint r =
     (case decode_varint (drop (br_offset r) (br_input r)) of
        Err e \<Rightarrow> Err (BodyVarInt e)
      | Ok (v, consumed) \<Rightarrow> Ok (v, r\<lparr>br_offset := br_offset r + consumed\<rparr>))"

definition reader_finish :: "body_reader \<Rightarrow> (unit, control_body_error) result" where
  "reader_finish r = (if br_offset r = length (br_input r) then Ok () else Err TrailingBytes)"

definition encode_delivery_mode :: "delivery_mode \<Rightarrow> u64" where
  "encode_delivery_mode mode =
     (case mode of ReliableOrdered \<Rightarrow> 0 | UnreliableUnordered \<Rightarrow> 1 | UnreliableSequenced \<Rightarrow> 2)"

definition decode_delivery_mode :: "u64 \<Rightarrow> (delivery_mode, control_body_error) result" where
  "decode_delivery_mode v =
     (if v = 0 then Ok ReliableOrdered else if v = 1 then Ok UnreliableUnordered
      else if v = 2 then Ok UnreliableSequenced else Err (UnknownDeliveryMode v))"

record open_flow =
  of_flow_id :: flow_id
  of_delivery_mode :: delivery_mode
  of_max_message_bytes :: u64

definition open_flow_new ::
  "flow_id \<Rightarrow> delivery_mode \<Rightarrow> u64 \<Rightarrow> (open_flow, control_body_error) result" where
  "open_flow_new i mode m =
     (if m = 0 then Err ZeroMaxMessageBytes
      else if m > MAX_VARINT then Err MaxMessageBytesOutOfRange
      else Ok \<lparr>of_flow_id = i, of_delivery_mode = mode, of_max_message_bytes = m\<rparr>)"

definition open_flow_encode :: "open_flow \<Rightarrow> encoded_control_body exec" where
  "open_flow_encode x = do {
     w \<leftarrow> writer_push_varint (flow_id_value (of_flow_id x)) writer_new;
     w \<leftarrow> writer_push_varint (encode_delivery_mode (of_delivery_mode x)) w;
     w \<leftarrow> writer_push_varint (of_max_message_bytes x) w;
     Some (writer_finish w) }"

definition read_flow_id :: "body_reader \<Rightarrow> (flow_id \<times> body_reader, control_body_error) result" where
  "read_flow_id r =
     result_bind (reader_read_varint r) (\<lambda>(v, r).
     result_bind (map_err InvalidFlowId (flow_id_from_wire v)) (\<lambda>i. Ok (i, r)))"

definition open_flow_decode :: "bytes \<Rightarrow> (open_flow, control_body_error) result" where
  "open_flow_decode input =
     result_bind (read_flow_id (reader_new input)) (\<lambda>(i, r).
     result_bind (reader_read_varint r) (\<lambda>(v, r).
     result_bind (decode_delivery_mode v) (\<lambda>mode.
     result_bind (reader_read_varint r) (\<lambda>(m, r).
     if m = 0 then Err ZeroMaxMessageBytes
     else result_bind (reader_finish r) (\<lambda>_.
       Ok \<lparr>of_flow_id = i, of_delivery_mode = mode, of_max_message_bytes = m\<rparr>)))))"

datatype flow_accept = FlowAccept (fa_flow_id: flow_id)

definition flow_accept_encode :: "flow_accept \<Rightarrow> encoded_control_body exec" where
  "flow_accept_encode x = do {
     w \<leftarrow> writer_push_varint (flow_id_value (fa_flow_id x)) writer_new;
     Some (writer_finish w) }"

definition flow_accept_decode :: "bytes \<Rightarrow> (flow_accept, control_body_error) result" where
  "flow_accept_decode input =
     result_bind (read_flow_id (reader_new input)) (\<lambda>(i, r).
     result_bind (reader_finish r) (\<lambda>_. Ok (FlowAccept i)))"

record flow_reject =
  fr_flow_id :: flow_id
  fr_reason :: flow_reject_reason

definition reject_code :: "flow_reject_reason \<Rightarrow> u64" where
  "reject_code r = (case r of RejectResourceLimit \<Rightarrow> 0 | RejectMessageLimit \<Rightarrow> 1)"

definition flow_reject_encode :: "flow_reject \<Rightarrow> encoded_control_body exec" where
  "flow_reject_encode x = do {
     w \<leftarrow> writer_push_varint (flow_id_value (fr_flow_id x)) writer_new;
     w \<leftarrow> writer_push_varint (reject_code (fr_reason x)) w;
     Some (writer_finish w) }"

definition flow_reject_decode :: "bytes \<Rightarrow> (flow_reject, control_body_error) result" where
  "flow_reject_decode input =
     result_bind (read_flow_id (reader_new input)) (\<lambda>(i, r).
     result_bind (reader_read_varint r) (\<lambda>(v, r).
     result_bind (if v = 0 then Ok RejectResourceLimit else if v = 1 then Ok RejectMessageLimit
                  else Err (UnknownRejectReason v)) (\<lambda>reason.
     result_bind (reader_finish r) (\<lambda>_. Ok \<lparr>fr_flow_id = i, fr_reason = reason\<rparr>))))"

record flow_terminate =
  fx_flow_id :: flow_id
  fx_reason :: flow_terminate_reason

definition terminate_code :: "flow_terminate_reason \<Rightarrow> u64" where
  "terminate_code r =
     (case r of TerminateNormal \<Rightarrow> 0 | TerminateResourceFailure \<Rightarrow> 1 | TerminateProtocolFailure \<Rightarrow> 2
              | TerminateReliableDeliveryFailure \<Rightarrow> 3)"

definition flow_terminate_encode :: "flow_terminate \<Rightarrow> encoded_control_body exec" where
  "flow_terminate_encode x = do {
     w \<leftarrow> writer_push_varint (flow_id_value (fx_flow_id x)) writer_new;
     w \<leftarrow> writer_push_varint (terminate_code (fx_reason x)) w;
     Some (writer_finish w) }"

definition flow_terminate_decode :: "bytes \<Rightarrow> (flow_terminate, control_body_error) result" where
  "flow_terminate_decode input =
     result_bind (read_flow_id (reader_new input)) (\<lambda>(i, r).
     result_bind (reader_read_varint r) (\<lambda>(v, r).
     result_bind (if v = 0 then Ok TerminateNormal else if v = 1 then Ok TerminateResourceFailure
                  else if v = 2 then Ok TerminateProtocolFailure
                  else if v = 3 then Ok TerminateReliableDeliveryFailure
                  else Err (UnknownTerminateReason v)) (\<lambda>reason.
     result_bind (reader_finish r) (\<lambda>_. Ok \<lparr>fx_flow_id = i, fx_reason = reason\<rparr>))))"

end
