(* ===== verification/Wire_Safety.thy ===== *)
theory Wire_Safety
  imports Wire
begin

text \<open>
  Flow identifiers are a side and a sequence; a cursor hands them out and a peer's cursor accepts
  exactly what was handed out. The control bodies are the concatenation of their varints, and
  decoding accepts nothing else.
\<close>

section \<open>Flow identifiers\<close>

lemma unat_MAX_FLOW_SEQUENCE: "unat MAX_FLOW_SEQUENCE = 2 ^ 61 - 1"
  by (simp only: MAX_FLOW_SEQUENCE_def unat_drop_bit_eq unat_MAX_VARINT)
    (simp add: drop_bit_eq_div)

definition flow_id_ok :: "flow_id \<Rightarrow> bool" where
  "flow_id_ok i \<longleftrightarrow> flow_id_value i \<le> MAX_VARINT"

lemma unat_side_bit: "unat (side_bit s) \<le> 1"
  by (cases s) (simp_all add: side_bit_def)

lemma flow_id_new_Ok:
  assumes "sequence \<le> MAX_FLOW_SEQUENCE"
  obtains i where "flow_id_new side sequence = Ok i"
    "unat (flow_id_value i) = unat sequence * 2 + unat (side_bit side)"
proof -
  have small: "unat sequence < 2 ^ 61"
    using assms by (simp add: word_le_nat_alt unat_MAX_FLOW_SEQUENCE)
  have "side_bit side OR push_bit 1 sequence = push_bit 1 sequence OR side_bit side"
    by (rule or.commute)
  moreover have "unat (push_bit 1 sequence) = unat sequence * 2"
    using small by (simp add: push_bit_eq_mult unat_word_ariths)
  ultimately have "unat (push_bit 1 sequence OR side_bit side) = unat sequence * 2 + unat (side_bit side)"
    using unat_or_tag[of "side_bit side" 1 sequence] small unat_side_bit[of side] by simp
  then have val: "unat (flow_id_value (FlowId (push_bit 1 sequence OR side_bit side)))
      = unat sequence * 2 + unat (side_bit side)" by simp
  have "flow_id_new side sequence = Ok (FlowId (push_bit 1 sequence OR side_bit side))"
    using assms by (simp add: flow_id_new_def)
  then show ?thesis using val by (rule that)
qed

lemma flow_id_parts:
  "unat (flow_id_sequence i) = unat (flow_id_value i) div 2"
  "unat (side_bit (flow_id_side i)) = unat (flow_id_value i) mod 2"
proof -
  show "unat (flow_id_sequence i) = unat (flow_id_value i) div 2"
    by (simp only: flow_id_sequence_def unat_drop_bit_eq) (simp add: drop_bit_eq_div)
  have "unat (flow_id_value i AND 1) = unat (flow_id_value i) mod 2"
    by (simp add: and_one_eq unat_word_ariths)
  then show "unat (side_bit (flow_id_side i)) = unat (flow_id_value i) mod 2"
    by (auto simp: flow_id_side_def side_from_bit_def side_bit_def word_unat_eq_iff)
qed

lemma side_bit_eq: "unat (side_bit s) = unat (side_bit t) \<longleftrightarrow> s = t"
  by (cases s; cases t) (simp_all add: side_bit_def)

lemma flow_id_new_iff:
  "flow_id_new side sequence = Ok i \<longleftrightarrow>
     flow_id_ok i \<and> flow_id_side i = side \<and> flow_id_sequence i = sequence"
proof (cases "sequence \<le> MAX_FLOW_SEQUENCE")
  case True
  then obtain j where j: "flow_id_new side sequence = Ok j"
    "unat (flow_id_value j) = unat sequence * 2 + unat (side_bit side)"
    by (rule flow_id_new_Ok)
  have "unat (flow_id_value j) \<le> 2 ^ 62 - 1"
    using True unat_side_bit[of side] by (simp add: j word_le_nat_alt unat_MAX_FLOW_SEQUENCE)
  then have "flow_id_ok j" by (simp add: flow_id_ok_def word_le_nat_alt unat_MAX_VARINT)
  moreover have "unat (flow_id_sequence j) = unat sequence"
    using unat_side_bit[of side] by (simp add: flow_id_parts j)
  then have "flow_id_sequence j = sequence" by (simp add: word_unat_eq_iff)
  moreover have "unat (side_bit (flow_id_side j)) = unat (side_bit side)"
    using unat_side_bit[of side] by (simp only: flow_id_parts j) simp
  then have "flow_id_side j = side" by (simp add: side_bit_eq)
  moreover have "i = j" if "flow_id_side i = side" "flow_id_sequence i = sequence"
  proof -
    have "unat (flow_id_value i) = unat (flow_id_sequence i) * 2 + unat (side_bit (flow_id_side i))"
      by (simp only: flow_id_parts) simp
    then have "unat (flow_id_value i) = unat (flow_id_value j)" by (simp add: j that)
    then show ?thesis by (simp add: word_unat_eq_iff flow_id.expand)
  qed
  ultimately show ?thesis using j by auto
next
  case False
  have "flow_id_sequence i \<le> MAX_FLOW_SEQUENCE" if "flow_id_ok i"
    using that flow_id_parts(1)[of i]
    by (simp add: flow_id_ok_def word_le_nat_alt unat_MAX_VARINT unat_MAX_FLOW_SEQUENCE)
  then show ?thesis using False by (auto simp: flow_id_new_def)
qed

lemma flow_id_sequence_bound: "flow_id_ok i \<Longrightarrow> flow_id_sequence i \<le> MAX_FLOW_SEQUENCE"
  using flow_id_parts(1)[of i]
  by (simp add: flow_id_ok_def word_le_nat_alt unat_MAX_VARINT unat_MAX_FLOW_SEQUENCE)

lemma flow_id_eq_iff:
  "i = j \<longleftrightarrow> flow_id_side i = flow_id_side j \<and> flow_id_sequence i = flow_id_sequence j"
proof -
  have val: "unat (flow_id_value k) = unat (flow_id_sequence k) * 2 + unat (side_bit (flow_id_side k))" for k
    by (simp only: flow_id_parts) simp
  then have "flow_id_side i = flow_id_side j \<Longrightarrow> flow_id_sequence i = flow_id_sequence j
      \<Longrightarrow> unat (flow_id_value i) = unat (flow_id_value j)"
    by simp
  then show ?thesis by (auto simp: word_unat_eq_iff flow_id.expand)
qed

section \<open>Cursors\<close>

definition cursor_ok :: "flow_id_cursor \<Rightarrow> bool" where
  "cursor_ok c \<longleftrightarrow> (case fc_next_sequence c of None \<Rightarrow> True | Some n \<Rightarrow> n \<le> MAX_FLOW_SEQUENCE)"

text \<open>How many identifiers a cursor has passed.\<close>

definition cursor_count :: "flow_id_cursor \<Rightarrow> nat" where
  "cursor_count c = (case fc_next_sequence c of None \<Rightarrow> 2 ^ 61 | Some n \<Rightarrow> unat n)"

lemma cursor_new_ok [simp]: "cursor_ok (flow_id_cursor_new s)"
  by (simp add: cursor_ok_def flow_id_cursor_new_def)

lemma cursor_advance_ok:
  assumes "n \<le> MAX_FLOW_SEQUENCE" "fc_next_sequence c = Some n"
  shows "cursor_ok (cursor_advance n c) \<and> cursor_count (cursor_advance n c) = Suc (cursor_count c)"
proof (cases "n = MAX_FLOW_SEQUENCE")
  case True
  then show ?thesis
    using assms by (simp add: cursor_ok_def cursor_count_def cursor_advance_def unat_MAX_FLOW_SEQUENCE)
next
  case False
  then have "unat n < 2 ^ 61 - 1"
    using assms(1) unat_MAX_FLOW_SEQUENCE
    by (metis le_neq_implies_less word_le_nat_alt word_unat_eq_iff)
  then have "unat (n + 1) = unat n + 1" by (simp add: unat_word_ariths)
  then show ?thesis
    using False assms \<open>unat n < 2 ^ 61 - 1\<close>
    by (simp add: cursor_ok_def cursor_count_def cursor_advance_def word_le_nat_alt unat_MAX_FLOW_SEQUENCE)
qed

text \<open>Allocation never panics, and what it hands out is the next identifier of its side.\<close>

lemma cursor_allocate_eq:
  assumes "cursor_ok c"
  shows "(\<exists>i. cursor_allocate c = Some (Ok i, cursor_advance (flow_id_sequence i) c) \<and> flow_id_ok i
      \<and> flow_id_side i = fc_side c \<and> fc_next_sequence c = Some (flow_id_sequence i)
      \<and> unat (flow_id_sequence i) = cursor_count c)
    \<or> (cursor_allocate c = Some (Err CursorExhausted, c) \<and> fc_next_sequence c = None)"
proof (cases "fc_next_sequence c")
  case None
  then show ?thesis by (simp add: cursor_allocate_def)
next
  case (Some n)
  then have "n \<le> MAX_FLOW_SEQUENCE" using assms by (simp add: cursor_ok_def)
  then obtain i where i: "flow_id_new (fc_side c) n = Ok i" by (rule flow_id_new_Ok)
  then have parts: "flow_id_ok i" "flow_id_side i = fc_side c" "flow_id_sequence i = n"
    by (simp_all add: flow_id_new_iff)
  have "cursor_allocate c = Some (Ok i, cursor_advance (flow_id_sequence i) c)"
    using Some i parts by (simp add: cursor_allocate_def)
  then show ?thesis using Some parts by (auto simp: cursor_count_def)
qed

lemma consume_Ok:
  "validate_and_consume c i = (Ok (), c') \<longleftrightarrow>
     fc_next_sequence c = Some (flow_id_sequence i) \<and> flow_id_side i = fc_side c
     \<and> c' = cursor_advance (flow_id_sequence i) c"
  by (auto simp: validate_and_consume_def split: option.splits)

lemma consume_Err: "validate_and_consume c i = (Err e, c') \<Longrightarrow> c' = c"
  by (auto simp: validate_and_consume_def split: option.splits if_splits)


fun allocate_many :: "nat \<Rightarrow> flow_id_cursor \<Rightarrow> (flow_id list \<times> flow_id_cursor) exec" where
  "allocate_many 0 c = Some ([], c)"
| "allocate_many (Suc n) c = do {
     (r, c1) \<leftarrow> cursor_allocate c;
     (case r of
        Err _ \<Rightarrow> Some ([], c1)
      | Ok i \<Rightarrow> do { (ids, c2) \<leftarrow> allocate_many n c1; Some (i # ids, c2) }) }"

fun consume_all :: "flow_id_cursor \<Rightarrow> flow_id list \<Rightarrow> (unit, flow_id_cursor_error) result" where
  "consume_all c [] = Ok ()"
| "consume_all c (i # ids) =
     (case validate_and_consume c i of (Err e, _) \<Rightarrow> Err e | (Ok _, c1) \<Rightarrow> consume_all c1 ids)"

lemma allocate_many_total:
  "cursor_ok c \<Longrightarrow> \<exists>ids c'. allocate_many n c = Some (ids, c')
     \<and> map (\<lambda>i. unat (flow_id_sequence i)) ids = [cursor_count c..<min (cursor_count c + n) (2 ^ 61)]"
proof (induction n arbitrary: c)
  case 0
  then show ?case by simp
next
  case (Suc n)
  from cursor_allocate_eq[OF Suc.prems] show ?case
  proof (elim disjE exE conjE)
    fix i assume alloc: "cursor_allocate c = Some (Ok i, cursor_advance (flow_id_sequence i) c)"
      and i: "flow_id_ok i" "fc_next_sequence c = Some (flow_id_sequence i)"
        "unat (flow_id_sequence i) = cursor_count c"
    let ?c = "cursor_advance (flow_id_sequence i) c"
    have next_c: "cursor_ok ?c" "cursor_count ?c = Suc (cursor_count c)"
      using cursor_advance_ok[OF flow_id_sequence_bound[OF i(1)] i(2)] by simp_all
    have "unat (flow_id_sequence i) < 2 ^ 61"
      using flow_id_sequence_bound[OF i(1)] by (simp add: word_le_nat_alt unat_MAX_FLOW_SEQUENCE)
    then have lt: "cursor_count c < min (cursor_count c + Suc n) (2 ^ 61)" using i by simp
    show ?thesis
      using Suc.IH[OF next_c(1)] alloc i(3) next_c(2) upt_conv_Cons[OF lt] by auto
  next
    assume "cursor_allocate c = Some (Err CursorExhausted, c)" "fc_next_sequence c = None"
    then show ?thesis by (simp add: cursor_count_def)
  qed
qed

lemma consume_iff_allocated:
  assumes "cursor_ok c" "list_all flow_id_ok ids"
  shows "consume_all c ids = Ok () \<longleftrightarrow> (\<exists>n c'. allocate_many n c = Some (ids, c'))"
  using assms
proof (induction ids arbitrary: c)
  case Nil
  show ?case by (auto intro!: exI[of _ 0])
next
  case (Cons i ids)
  show ?case
  proof
    assume "consume_all c (i # ids) = Ok ()"
    then obtain c1 where c1: "validate_and_consume c i = (Ok (), c1)" "consume_all c1 ids = Ok ()"
      by (auto split: prod.splits result.splits)
    then have i: "fc_next_sequence c = Some (flow_id_sequence i)" "flow_id_side i = fc_side c"
      "c1 = cursor_advance (flow_id_sequence i) c"
      by (simp_all add: consume_Ok)
    have "cursor_ok c1"
      using cursor_advance_ok[OF flow_id_sequence_bound i(1)] Cons.prems i(3) by simp
    then obtain n c2 where n: "allocate_many n c1 = Some (ids, c2)"
      using Cons c1(2) by auto
    obtain j where j: "cursor_allocate c = Some (Ok j, cursor_advance (flow_id_sequence j) c)"
      "flow_id_side j = fc_side c" "fc_next_sequence c = Some (flow_id_sequence j)"
      using cursor_allocate_eq[OF Cons.prems(1)] i(1) by auto
    then have "j = i" using i by (simp add: flow_id_eq_iff[of j])
    then have "allocate_many (Suc n) c = Some (i # ids, c2)" using j n i(3) by simp
    then show "\<exists>n c'. allocate_many n c = Some (i # ids, c')" by blast
  next
    assume "\<exists>n c'. allocate_many n c = Some (i # ids, c')"
    then obtain n c' where n: "allocate_many n c = Some (i # ids, c')" by blast
    then obtain m where m: "n = Suc m" by (cases n) auto
    obtain c1 where c1: "cursor_allocate c = Some (Ok i, c1)" "allocate_many m c1 = Some (ids, c')"
      using n m by (auto split: prod.splits result.splits bind_splits)
    then have i: "c1 = cursor_advance (flow_id_sequence i) c" "flow_id_side i = fc_side c"
      "fc_next_sequence c = Some (flow_id_sequence i)"
      using cursor_allocate_eq[OF Cons.prems(1)] by auto
    then have "validate_and_consume c i = (Ok (), c1)" by (simp add: consume_Ok)
    moreover have "cursor_ok c1"
      using cursor_advance_ok[OF flow_id_sequence_bound i(3)] Cons.prems i(1) by simp
    ultimately show "consume_all c (i # ids) = Ok ()" using Cons c1(2) by auto
  qed
qed

section \<open>Writing and reading bodies\<close>

text \<open>A body is the concatenation of its values' bytes.\<close>

definition body_of :: "u64 list \<Rightarrow> bytes" where
  "body_of vs = concat (map vslice vs)"

definition written :: "body_writer \<Rightarrow> bytes" where
  "written w = take (bw_len w) (bw_bytes w)"

definition writer_ok :: "body_writer \<Rightarrow> nat \<Rightarrow> bool" where
  "writer_ok w n \<longleftrightarrow> length (bw_bytes w) = MAX_CONTROL_BODY_BYTES \<and> bw_len w \<le> 8 * n"

lemma writer_new_ok [simp]: "writer_ok writer_new 0" "written writer_new = []"
  by (simp_all add: writer_ok_def writer_new_def written_def)

lemma writer_push:
  assumes "writer_ok w n" "n < 3" "v \<le> MAX_VARINT"
  shows "\<exists>w'. writer_push_varint v w = Some w' \<and> writer_ok w' (Suc n)
    \<and> written w' = written w @ vslice v"
proof (cases v rule: encode_varint_cases)
  case (Small e)
  have len: "length (vslice v) \<le> 8" using length_vslice[OF assms(3)] by simp
  have room: "bw_len w + length (vslice v) \<le> MAX_CONTROL_BODY_BYTES"
    using assms(1,2) len by (simp add: writer_ok_def MAX_CONTROL_BODY_BYTES_def)
  then show ?thesis
    using Small assms(1) len
    by (auto simp: writer_push_varint_def writer_ok_def written_def Let_def min_absorb2)
next
  case Large
  with assms show ?thesis by simp
qed

lemma body_slice_finish [simp]: "body_slice (writer_finish w) = written w"
  by (simp add: body_slice_def writer_finish_def written_def)

definition rest_of :: "body_reader \<Rightarrow> bytes" where
  "rest_of r = drop (br_offset r) (br_input r)"

definition reader_ok :: "body_reader \<Rightarrow> bool" where
  "reader_ok r \<longleftrightarrow> br_offset r \<le> length (br_input r)"

lemma reader_new_ok [simp]: "reader_ok (reader_new bs)" "rest_of (reader_new bs) = bs"
  by (simp_all add: reader_ok_def reader_new_def rest_of_def)

lemma reader_read_iff:
  assumes "reader_ok r"
  shows "reader_read_varint r = Ok (v, r') \<longleftrightarrow>
    v \<le> MAX_VARINT \<and> rest_of r = vslice v @ rest_of r' \<and> br_input r' = br_input r \<and> reader_ok r'"
    (is "?L \<longleftrightarrow> ?R")
proof
  assume ?L
  then have v: "v \<le> MAX_VARINT" "take (length (vslice v)) (rest_of r) = vslice v"
    and r': "r' = r\<lparr>br_offset := br_offset r + length (vslice v)\<rparr>"
    by (auto simp: reader_read_varint_def rest_of_def decode_varint_iff split: result.splits)
  from v(2) have "length (vslice v) \<le> length (rest_of r)"
    by (metis length_take min.cobounded1)
  then have "reader_ok r'" using assms r' by (simp add: reader_ok_def rest_of_def)
  moreover have "rest_of r = vslice v @ rest_of r'"
    using v(2) r' by (simp add: rest_of_def) (metis append_take_drop_id drop_drop add.commute)
  ultimately show ?R using v r' by simp
next
  assume R: ?R
  then have "length (rest_of r) = length (vslice v) + length (rest_of r')" by simp
  then have "br_offset r' = br_offset r + length (vslice v)"
    using R assms by (auto simp: rest_of_def reader_ok_def)
  then have "r' = r\<lparr>br_offset := br_offset r + length (vslice v)\<rparr>" using R by (cases r, cases r') simp
  with R show ?L by (simp add: reader_read_varint_def rest_of_def[symmetric])
qed

lemma reader_finish_iff: "reader_ok r \<Longrightarrow> reader_finish r = Ok u \<longleftrightarrow> rest_of r = []"
  by (simp add: reader_finish_def rest_of_def reader_ok_def)

lemma flow_id_from_wire_Ok: "flow_id_from_wire v = Ok i \<longleftrightarrow> i = FlowId v \<and> v \<le> MAX_VARINT"
  by (auto simp: flow_id_from_wire_def)

lemma read_flow_id_iff:
  assumes "reader_ok r"
  shows "read_flow_id r = Ok (i, r') \<longleftrightarrow> flow_id_ok i \<and> rest_of r = vslice (flow_id_value i) @ rest_of r'
    \<and> br_input r' = br_input r \<and> reader_ok r'"
  by (auto simp: read_flow_id_def result_bind_Ok map_err_Ok flow_id_from_wire_Ok flow_id_ok_def
      reader_read_iff[OF assms])


lemma decode_delivery_mode_Ok: "decode_delivery_mode v = Ok m \<longleftrightarrow> v = encode_delivery_mode m"
  by (cases m) (auto simp: decode_delivery_mode_def encode_delivery_mode_def)

text \<open>Computing a decoder on a known body: the reader after a prefix.\<close>

definition reader_at :: "bytes \<Rightarrow> bytes \<Rightarrow> body_reader" where
  "reader_at pre bs = \<lparr>br_input = pre @ bs, br_offset = length pre\<rparr>"

lemma reader_at_simps [simp]:
  "reader_new bs = reader_at [] bs"
  "v \<le> MAX_VARINT \<Longrightarrow> reader_read_varint (reader_at pre (vslice v @ bs)) = Ok (v, reader_at (pre @ vslice v) bs)"
  "flow_id_ok i \<Longrightarrow> read_flow_id (reader_at pre (vslice (flow_id_value i) @ bs))
     = Ok (i, reader_at (pre @ vslice (flow_id_value i)) bs)"
  "reader_finish (reader_at pre []) = Ok ()"
  by (simp_all add: reader_at_def reader_new_def reader_read_varint_def reader_finish_def
      read_flow_id_def flow_id_from_wire_def flow_id_ok_def linorder_not_less)

lemmas body_reading =
  result_bind_Ok read_flow_id_iff reader_read_iff decode_delivery_mode_Ok reader_finish_iff
  body_of_def word_neq_0_conv

section \<open>The bodies are exact\<close>

lemma bind_Some: "x \<bind> f = Some y \<longleftrightarrow> (\<exists>a. x = Some a \<and> f a = Some y)"
  by (cases x) auto

lemma small_varint: "v \<le> 3 \<Longrightarrow> v \<le> MAX_VARINT"
  by (simp add: word_le_nat_alt unat_MAX_VARINT)

definition open_flow_ok :: "open_flow \<Rightarrow> bool" where
  "open_flow_ok x \<longleftrightarrow> flow_id_ok (of_flow_id x) \<and> 0 < of_max_message_bytes x
     \<and> of_max_message_bytes x \<le> MAX_VARINT"

definition open_flow_body :: "open_flow \<Rightarrow> bytes" where
  "open_flow_body x = body_of [flow_id_value (of_flow_id x), encode_delivery_mode (of_delivery_mode x),
     of_max_message_bytes x]"

lemma encode_delivery_mode_small: "encode_delivery_mode m \<le> MAX_VARINT"
  by (cases m) (simp_all add: encode_delivery_mode_def small_varint)

lemma open_flow_encode_body:
  assumes "open_flow_ok x"
  shows "\<exists>b. open_flow_encode x = Some b \<and> body_slice b = open_flow_body x"
proof -
  from writer_push[OF writer_new_ok(1), of "flow_id_value (of_flow_id x)"] assms
  obtain w1 where w1: "writer_push_varint (flow_id_value (of_flow_id x)) writer_new = Some w1"
    "writer_ok w1 1" "written w1 = vslice (flow_id_value (of_flow_id x))"
    by (auto simp: open_flow_ok_def flow_id_ok_def)
  from writer_push[OF w1(2) _ encode_delivery_mode_small[of "of_delivery_mode x"]]
  obtain w2 where w2: "writer_push_varint (encode_delivery_mode (of_delivery_mode x)) w1 = Some w2"
    "writer_ok w2 2" "written w2 = written w1 @ vslice (encode_delivery_mode (of_delivery_mode x))"
    by (auto simp: numeral_2_eq_2)
  from writer_push[OF w2(2), of "of_max_message_bytes x"] assms
  obtain w3 where "writer_push_varint (of_max_message_bytes x) w2 = Some w3"
    "written w3 = written w2 @ vslice (of_max_message_bytes x)"
    by (auto simp: open_flow_ok_def)
  with w1 w2 show ?thesis by (simp add: open_flow_encode_def open_flow_body_def body_of_def)
qed

lemma open_flow_decode_iff:
  "open_flow_decode bs = Ok x \<longleftrightarrow> open_flow_ok x \<and> bs = open_flow_body x"
proof
  assume "open_flow_decode bs = Ok x"
  then show "open_flow_ok x \<and> bs = open_flow_body x"
    unfolding open_flow_decode_def reader_at_simps(1)[symmetric]
    by (auto simp: body_reading open_flow_ok_def open_flow_body_def simp del: reader_at_simps(1)
        split: if_splits)
next
  assume "open_flow_ok x \<and> bs = open_flow_body x"
  then show "open_flow_decode bs = Ok x"
    using decode_delivery_mode_Ok[of "encode_delivery_mode (of_delivery_mode x)" "of_delivery_mode x"]
    by (simp add: open_flow_decode_def open_flow_body_def body_of_def open_flow_ok_def
        encode_delivery_mode_small reader_at_simps(2)[of _ _ "[]", simplified] word_neq_0_conv)
qed


text \<open>The other bodies are an identifier and at most one code.\<close>

lemma write_one:
  assumes "v \<le> MAX_VARINT"
  shows "\<exists>w. writer_push_varint v writer_new = Some w \<and> writer_ok w 1 \<and> written w = vslice v"
  using writer_push[OF writer_new_ok(1) _ assms] by auto

lemma write_two:
  assumes "v \<le> MAX_VARINT" "u \<le> MAX_VARINT"
  shows "\<exists>w w'. writer_push_varint v writer_new = Some w \<and> writer_push_varint u w = Some w'
    \<and> written w' = vslice v @ vslice u"
proof -
  obtain w where w: "writer_push_varint v writer_new = Some w" "writer_ok w 1" "written w = vslice v"
    using write_one[OF assms(1)] by auto
  with writer_push[OF w(2) _ assms(2)] show ?thesis by auto
qed

lemma flow_accept_encode_body:
  assumes "flow_id_ok (fa_flow_id x)"
  shows "\<exists>b. flow_accept_encode x = Some b \<and> body_slice b = body_of [flow_id_value (fa_flow_id x)]"
  using write_one[of "flow_id_value (fa_flow_id x)"] assms
  by (auto simp: flow_accept_encode_def flow_id_ok_def body_of_def)

lemma flow_accept_decode_iff:
  "flow_accept_decode bs = Ok x \<longleftrightarrow>
     flow_id_ok (fa_flow_id x) \<and> bs = body_of [flow_id_value (fa_flow_id x)]"
proof
  assume "flow_accept_decode bs = Ok x"
  then show "flow_id_ok (fa_flow_id x) \<and> bs = body_of [flow_id_value (fa_flow_id x)]"
    unfolding flow_accept_decode_def
    by (auto simp: body_reading simp del: reader_at_simps(1))
next
  assume "flow_id_ok (fa_flow_id x) \<and> bs = body_of [flow_id_value (fa_flow_id x)]"
  then show "flow_accept_decode bs = Ok x"
    by (simp add: flow_accept_decode_def body_of_def reader_at_simps(3)[of _ _ "[]", simplified])
qed

lemma reject_code_small: "reject_code r \<le> MAX_VARINT"
  by (cases r) (simp_all add: reject_code_def small_varint)

lemma reject_code_Ok:
  "(if v = 0 then Ok RejectResourceLimit else if v = 1 then Ok RejectMessageLimit
    else Err (UnknownRejectReason v)) = Ok r \<longleftrightarrow> v = reject_code r"
  by (cases r) (auto simp: reject_code_def)

lemma flow_reject_encode_body:
  assumes "flow_id_ok (fr_flow_id x)"
  shows "\<exists>b. flow_reject_encode x = Some b
    \<and> body_slice b = body_of [flow_id_value (fr_flow_id x), reject_code (fr_reason x)]"
  using write_two[of "flow_id_value (fr_flow_id x)" "reject_code (fr_reason x)"] assms reject_code_small
  by (auto simp: flow_reject_encode_def flow_id_ok_def body_of_def)

lemma flow_reject_decode_iff:
  "flow_reject_decode bs = Ok x \<longleftrightarrow>
     flow_id_ok (fr_flow_id x) \<and> bs = body_of [flow_id_value (fr_flow_id x), reject_code (fr_reason x)]"
proof
  assume "flow_reject_decode bs = Ok x"
  then show "flow_id_ok (fr_flow_id x) \<and> bs = body_of [flow_id_value (fr_flow_id x), reject_code (fr_reason x)]"
    unfolding flow_reject_decode_def
    by (auto simp: body_reading reject_code_Ok simp del: reader_at_simps(1))
next
  assume "flow_id_ok (fr_flow_id x) \<and> bs = body_of [flow_id_value (fr_flow_id x), reject_code (fr_reason x)]"
  then show "flow_reject_decode bs = Ok x"
    using reject_code_Ok[of "reject_code (fr_reason x)" "fr_reason x"]
    by (simp add: flow_reject_decode_def body_of_def reject_code_small
        reader_at_simps(2)[of _ _ "[]", simplified])
qed

lemma terminate_code_small: "terminate_code r \<le> MAX_VARINT"
  by (cases r) (simp_all add: terminate_code_def small_varint)

lemma terminate_code_Ok:
  "(if v = 0 then Ok TerminateNormal else if v = 1 then Ok TerminateResourceFailure
    else if v = 2 then Ok TerminateProtocolFailure else if v = 3 then Ok TerminateReliableDeliveryFailure
    else Err (UnknownTerminateReason v)) = Ok r \<longleftrightarrow> v = terminate_code r"
  by (cases r) (auto simp: terminate_code_def)

lemma flow_terminate_encode_body:
  assumes "flow_id_ok (fx_flow_id x)"
  shows "\<exists>b. flow_terminate_encode x = Some b
    \<and> body_slice b = body_of [flow_id_value (fx_flow_id x), terminate_code (fx_reason x)]"
  using write_two[of "flow_id_value (fx_flow_id x)" "terminate_code (fx_reason x)"] assms
    terminate_code_small
  by (auto simp: flow_terminate_encode_def flow_id_ok_def body_of_def)

lemma flow_terminate_decode_iff:
  "flow_terminate_decode bs = Ok x \<longleftrightarrow>
     flow_id_ok (fx_flow_id x) \<and> bs = body_of [flow_id_value (fx_flow_id x), terminate_code (fx_reason x)]"
proof
  assume "flow_terminate_decode bs = Ok x"
  then show "flow_id_ok (fx_flow_id x) \<and> bs = body_of [flow_id_value (fx_flow_id x), terminate_code (fx_reason x)]"
    unfolding flow_terminate_decode_def
    by (auto simp: body_reading terminate_code_Ok simp del: reader_at_simps(1))
next
  assume "flow_id_ok (fx_flow_id x) \<and> bs = body_of [flow_id_value (fx_flow_id x), terminate_code (fx_reason x)]"
  then show "flow_terminate_decode bs = Ok x"
    using terminate_code_Ok[of "terminate_code (fx_reason x)" "fx_reason x"]
    by (simp add: flow_terminate_decode_def body_of_def terminate_code_small
        reader_at_simps(2)[of _ _ "[]", simplified])
qed

end
