(* ===== verification/Profile_Settings.thy ===== *)
theory Profile_Settings
  imports Wire_Safety
begin

text \<open>
  The endpoint resources of \<open>crates/runen-net-quic/src/endpoint.rs\<close> and the profile settings of
  \<open>control.rs\<close>: their limits, their validation and the codec of the SETTINGS body. Conversions that
  belong to quinn (\<open>VarInt::from_u64\<close>, \<open>IdleTimeout::try_from\<close>) are arguments.
\<close>

section \<open>Endpoint resources\<close>

definition QUIC_MIN_UDP_PAYLOAD :: nat where
  "QUIC_MIN_UDP_PAYLOAD = 1200"

definition QUIC_MAX_UDP_PAYLOAD :: nat where
  "QUIC_MAX_UDP_PAYLOAD = 65527"

definition QUIC_MAX_STREAM_COUNT :: u64 where
  "QUIC_MAX_STREAM_COUNT = push_bit 60 1"

text \<open>A \<open>Duration\<close> is a number of nanoseconds; \<open>'v\<close> and \<open>'t\<close> are quinn's integers and timeouts.\<close>

record endpoint_resource_limits =
  rl_max_connections :: nat
  rl_max_active_incoming_flows :: u64
  rl_udp_payload_ceiling :: nat
  rl_stream_receive_window :: u64
  rl_connection_receive_window :: u64
  rl_send_window :: u64
  rl_crypto_buffer_bytes :: nat
  rl_datagram_receive_buffer_bytes :: nat
  rl_datagram_send_buffer_bytes :: nat
  rl_max_idle_timeout :: nat

datatype endpoint_resource_error =
    ZeroConnections
  | ZeroIncomingFlows
  | IncomingFlowsExceedQuicStreamLimit
  | UdpPayloadBelowMinimum
  | UdpPayloadAboveMaximum
  | ZeroStreamReceiveWindow
  | StreamReceiveWindowOutOfRange
  | ZeroConnectionReceiveWindow
  | ConnectionReceiveWindowOutOfRange
  | ConnectionReceiveWindowBelowStream
  | ZeroSendWindow
  | ZeroCryptoBuffer
  | ZeroDatagramReceiveBuffer
  | DatagramReceiveBufferBelowUdpCeiling
  | ZeroDatagramSendBuffer
  | DatagramSendBufferBelowUdpCeiling
  | ZeroIdleTimeout
  | IdleTimeoutOutOfRange

record ('v, 't) endpoint_resources =
  er_max_connections :: nat
  er_max_active_incoming_flows :: 'v
  er_udp_payload_ceiling :: nat
  er_stream_receive_window :: 'v
  er_connection_receive_window :: 'v
  er_send_window :: u64
  er_crypto_buffer_bytes :: nat
  er_datagram_receive_buffer_bytes :: nat
  er_datagram_send_buffer_bytes :: nat
  er_max_idle_timeout :: 't

record ('v, 't) quinn_conversions =
  qc_varint :: "u64 \<Rightarrow> 'v option"
  qc_into_inner :: "'v \<Rightarrow> u64"
  qc_idle_timeout :: "nat \<Rightarrow> 't option"

definition resource_limits_validate ::
  "('v, 't) quinn_conversions \<Rightarrow> endpoint_resource_limits \<Rightarrow>
     (('v, 't) endpoint_resources, endpoint_resource_error) result" where
  "resource_limits_validate q l =
     (if rl_max_connections l = 0 then Err ZeroConnections
      else if rl_max_active_incoming_flows l = 0 then Err ZeroIncomingFlows
      else if rl_max_active_incoming_flows l > QUIC_MAX_STREAM_COUNT
      then Err IncomingFlowsExceedQuicStreamLimit
      else result_bind (ok_or IncomingFlowsExceedQuicStreamLimit (qc_varint q (rl_max_active_incoming_flows l)))
        (\<lambda>flows.
      if rl_udp_payload_ceiling l < QUIC_MIN_UDP_PAYLOAD then Err UdpPayloadBelowMinimum
      else if rl_udp_payload_ceiling l > QUIC_MAX_UDP_PAYLOAD then Err UdpPayloadAboveMaximum
      else if rl_stream_receive_window l = 0 then Err ZeroStreamReceiveWindow
      else result_bind (ok_or StreamReceiveWindowOutOfRange (qc_varint q (rl_stream_receive_window l)))
        (\<lambda>stream_window.
      if rl_connection_receive_window l = 0 then Err ZeroConnectionReceiveWindow
      else if rl_connection_receive_window l < rl_stream_receive_window l
      then Err ConnectionReceiveWindowBelowStream
      else result_bind (ok_or ConnectionReceiveWindowOutOfRange (qc_varint q (rl_connection_receive_window l)))
        (\<lambda>connection_window.
      if rl_send_window l = 0 then Err ZeroSendWindow
      else if rl_crypto_buffer_bytes l = 0 then Err ZeroCryptoBuffer
      else if rl_datagram_receive_buffer_bytes l = 0 then Err ZeroDatagramReceiveBuffer
      else if rl_datagram_receive_buffer_bytes l < rl_udp_payload_ceiling l
      then Err DatagramReceiveBufferBelowUdpCeiling
      else if rl_datagram_send_buffer_bytes l = 0 then Err ZeroDatagramSendBuffer
      else if rl_datagram_send_buffer_bytes l < rl_udp_payload_ceiling l
      then Err DatagramSendBufferBelowUdpCeiling
      else if rl_max_idle_timeout l = 0 then Err ZeroIdleTimeout
      else result_bind (ok_or IdleTimeoutOutOfRange (qc_idle_timeout q (rl_max_idle_timeout l))) (\<lambda>idle.
      Ok \<lparr>er_max_connections = rl_max_connections l, er_max_active_incoming_flows = flows,
          er_udp_payload_ceiling = rl_udp_payload_ceiling l, er_stream_receive_window = stream_window,
          er_connection_receive_window = connection_window, er_send_window = rl_send_window l,
          er_crypto_buffer_bytes = rl_crypto_buffer_bytes l,
          er_datagram_receive_buffer_bytes = rl_datagram_receive_buffer_bytes l,
          er_datagram_send_buffer_bytes = rl_datagram_send_buffer_bytes l,
          er_max_idle_timeout = idle\<rparr>)))))"

text \<open>Connection slots: a permit is one unit of \<open>active\<close>, returned when it is dropped.\<close>

record connection_slots =
  cs_max :: nat
  cs_active :: nat

definition connection_slots_new :: "nat \<Rightarrow> connection_slots" where
  "connection_slots_new n = \<lparr>cs_max = n, cs_active = 0\<rparr>"

definition slots_try_acquire :: "connection_slots \<Rightarrow> bool \<times> connection_slots" where
  "slots_try_acquire s =
     (if cs_active s < cs_max s then (True, s\<lparr>cs_active := cs_active s + 1\<rparr>) else (False, s))"

text \<open>
  The code decrements an atomic counter that every permit has incremented before, and asserts so in
  debug builds; \<open>slots_exact\<close> shows that the counter is never below the permits that are held.
\<close>

definition permit_drop :: "connection_slots \<Rightarrow> connection_slots" where
  "permit_drop s = s\<lparr>cs_active := cs_active s - 1\<rparr>"

section \<open>Settings\<close>

definition MAX_SETTINGS_BODY_BYTES :: nat where
  "MAX_SETTINGS_BODY_BYTES = 1 + 4 * 8"

definition MIN_NEGOTIATION_OFFER_BODY_BYTES :: nat where
  "MIN_NEGOTIATION_OFFER_BODY_BYTES = 1 + 32 + 1 + 1"

datatype semantic_role = NonAuthority | Authority

datatype settings_error =
    EmptyBody
  | UnknownSemanticRole u8
  | SettingsVarInt varint_decode_error
  | ZeroControlFrameBytes
  | SettingsControlFrameTooSmall
  | ZeroNegotiationFrameBytes
  | SettingsNegotiationFrameTooSmall
  | SettingsNegotiationExceedsControl
  | ZeroActiveIncomingFlows
  | ActiveIncomingFlowsExceedQuicStreamLimit
  | SettingsZeroIncomingMessageBytes
  | SettingsTrailingBytes

definition role_wire :: "semantic_role \<Rightarrow> u8" where
  "role_wire r = (case r of NonAuthority \<Rightarrow> 0 | Authority \<Rightarrow> 1)"

definition role_opposite :: "semantic_role \<Rightarrow> semantic_role" where
  "role_opposite r = (case r of NonAuthority \<Rightarrow> Authority | Authority \<Rightarrow> NonAuthority)"

definition role_from_wire :: "u8 \<Rightarrow> (semantic_role, settings_error) result" where
  "role_from_wire v =
     (if v = 0 then Ok NonAuthority else if v = 1 then Ok Authority else Err (UnknownSemanticRole v))"

record settings =
  se_semantic_role :: semantic_role
  se_max_control_frame_bytes :: u64
  se_max_negotiation_frame_bytes :: u64
  se_max_active_incoming_flows :: u64
  se_max_incoming_message_bytes :: u64

definition settings_validate :: "settings \<Rightarrow> (settings, settings_error) result" where
  "settings_validate s =
     (if se_max_control_frame_bytes s = 0 then Err ZeroControlFrameBytes
      else if se_max_control_frame_bytes s < word_of_nat MAX_SETTINGS_BODY_BYTES
      then Err SettingsControlFrameTooSmall
      else if se_max_negotiation_frame_bytes s = 0 then Err ZeroNegotiationFrameBytes
      else if se_max_negotiation_frame_bytes s < word_of_nat MIN_NEGOTIATION_OFFER_BODY_BYTES
      then Err SettingsNegotiationFrameTooSmall
      else if se_max_negotiation_frame_bytes s > se_max_control_frame_bytes s
      then Err SettingsNegotiationExceedsControl
      else if se_max_active_incoming_flows s = 0 then Err ZeroActiveIncomingFlows
      else if se_max_active_incoming_flows s > QUIC_MAX_STREAM_COUNT
      then Err ActiveIncomingFlowsExceedQuicStreamLimit
      else if se_max_incoming_message_bytes s = 0 then Err SettingsZeroIncomingMessageBytes
      else Ok s)"

record settings_writer =
  sw_bytes :: bytes
  sw_len :: nat

definition settings_writer_new :: settings_writer where
  "settings_writer_new = \<lparr>sw_bytes = replicate MAX_SETTINGS_BODY_BYTES 0, sw_len = 0\<rparr>"

definition settings_push_byte :: "u8 \<Rightarrow> settings_writer \<Rightarrow> settings_writer exec" where
  "settings_push_byte v w =
     (if sw_len w < length (sw_bytes w)
      then Some (w\<lparr>sw_bytes := (sw_bytes w)[sw_len w := v], sw_len := sw_len w + 1\<rparr>) else None)"

definition settings_push_varint :: "u64 \<Rightarrow> settings_writer \<Rightarrow> settings_writer exec" where
  "settings_push_varint v w =
     (case encode_varint v of
        Some (Ok e) \<Rightarrow>
          let stop = sw_len w + vi_len e
          in if stop \<le> length (sw_bytes w)
             then Some (w\<lparr>sw_bytes := take (sw_len w) (sw_bytes w) @ varint_slice e @ drop stop (sw_bytes w),
                          sw_len := stop\<rparr>)
             else None
      | _ \<Rightarrow> None)"

text \<open>The encoded settings are the writer itself; this is their \<open>as_slice\<close>.\<close>

definition settings_slice :: "settings_writer \<Rightarrow> bytes" where
  "settings_slice w = take (sw_len w) (sw_bytes w)"

definition settings_encode :: "settings \<Rightarrow> settings_writer exec" where
  "settings_encode s = do {
     w \<leftarrow> settings_push_byte (role_wire (se_semantic_role s)) settings_writer_new;
     w \<leftarrow> settings_push_varint (se_max_control_frame_bytes s) w;
     w \<leftarrow> settings_push_varint (se_max_negotiation_frame_bytes s) w;
     w \<leftarrow> settings_push_varint (se_max_active_incoming_flows s) w;
     settings_push_varint (se_max_incoming_message_bytes s) w }"

record settings_reader =
  sr_input :: bytes
  sr_offset :: nat

definition settings_read_varint :: "settings_reader \<Rightarrow> (u64 \<times> settings_reader, settings_error) result" where
  "settings_read_varint r =
     (case decode_varint (drop (sr_offset r) (sr_input r)) of
        Err e \<Rightarrow> Err (SettingsVarInt e)
      | Ok (v, consumed) \<Rightarrow> Ok (v, r\<lparr>sr_offset := sr_offset r + consumed\<rparr>))"

definition settings_read_finish :: "settings_reader \<Rightarrow> (unit, settings_error) result" where
  "settings_read_finish r = (if sr_offset r = length (sr_input r) then Ok () else Err SettingsTrailingBytes)"

definition settings_decode :: "bytes \<Rightarrow> (settings, settings_error) result" where
  "settings_decode input =
     (case input of [] \<Rightarrow> Err EmptyBody
      | role # rest \<Rightarrow>
        result_bind (role_from_wire role) (\<lambda>role.
        result_bind (settings_read_varint \<lparr>sr_input = rest, sr_offset = 0\<rparr>) (\<lambda>(control, r).
        result_bind (settings_read_varint r) (\<lambda>(negotiation, r).
        result_bind (settings_read_varint r) (\<lambda>(flows, r).
        result_bind (settings_read_varint r) (\<lambda>(message, r).
        result_bind (settings_read_finish r) (\<lambda>_.
        settings_validate \<lparr>se_semantic_role = role, se_max_control_frame_bytes = control,
          se_max_negotiation_frame_bytes = negotiation, se_max_active_incoming_flows = flows,
          se_max_incoming_message_bytes = message\<rparr>)))))))"

section \<open>Local limits\<close>

record local_control_limits =
  ll_semantic_role :: semantic_role
  ll_max_control_frame_bytes :: nat
  ll_max_negotiation_frame_bytes :: nat
  ll_max_incoming_message_bytes :: u64

datatype local_control_limit_error =
    ControlFrameTooSmall
  | ControlFrameOutOfRange
  | NegotiationFrameTooSmall
  | NegotiationFrameOutOfRange
  | NegotiationExceedsControl
  | ZeroIncomingMessageBytes
  | IncomingMessageBytesOutOfRange

record ('v, 't) control_profile =
  cp_resources :: "('v, 't) endpoint_resources"
  cp_local_settings :: settings

definition usize_to_wire :: "nat \<Rightarrow> 'e \<Rightarrow> (u64, 'e) result" where
  "usize_to_wire n e =
     (if n \<ge> 2 ^ 64 then Err e else if word_of_nat n > MAX_VARINT then Err e else Ok (word_of_nat n))"

definition local_limits_validate ::
  "('v, 't) quinn_conversions \<Rightarrow> local_control_limits \<Rightarrow> ('v, 't) endpoint_resources \<Rightarrow>
     (('v, 't) control_profile, local_control_limit_error) result" where
  "local_limits_validate q l res =
     (if ll_max_control_frame_bytes l < MAX_SETTINGS_BODY_BYTES then Err ControlFrameTooSmall
      else result_bind (usize_to_wire (ll_max_control_frame_bytes l) ControlFrameOutOfRange) (\<lambda>control.
      if ll_max_negotiation_frame_bytes l < MIN_NEGOTIATION_OFFER_BODY_BYTES then Err NegotiationFrameTooSmall
      else if ll_max_negotiation_frame_bytes l > ll_max_control_frame_bytes l then Err NegotiationExceedsControl
      else result_bind (usize_to_wire (ll_max_negotiation_frame_bytes l) NegotiationFrameOutOfRange)
        (\<lambda>negotiation.
      if ll_max_incoming_message_bytes l = 0 then Err ZeroIncomingMessageBytes
      else if ll_max_incoming_message_bytes l > MAX_VARINT then Err IncomingMessageBytesOutOfRange
      else Ok \<lparr>cp_resources = res, cp_local_settings =
        \<lparr>se_semantic_role = ll_semantic_role l, se_max_control_frame_bytes = control,
         se_max_negotiation_frame_bytes = negotiation,
         se_max_active_incoming_flows = qc_into_inner q (er_max_active_incoming_flows res),
         se_max_incoming_message_bytes = ll_max_incoming_message_bytes l\<rparr>\<rparr>)))"

section \<open>The codec is exact\<close>

text \<open>Settings that a SETTINGS body can carry.\<close>

definition settings_ok :: "settings \<Rightarrow> bool" where
  "settings_ok s \<longleftrightarrow> settings_validate s = Ok s
     \<and> se_max_control_frame_bytes s \<le> MAX_VARINT \<and> se_max_incoming_message_bytes s \<le> MAX_VARINT"

definition settings_body :: "settings \<Rightarrow> bytes" where
  "settings_body s = role_wire (se_semantic_role s) # vslice (se_max_control_frame_bytes s)
     @ vslice (se_max_negotiation_frame_bytes s) @ vslice (se_max_active_incoming_flows s)
     @ vslice (se_max_incoming_message_bytes s)"

lemma stream_count_small: "QUIC_MAX_STREAM_COUNT \<le> MAX_VARINT"
  by (simp add: QUIC_MAX_STREAM_COUNT_def MAX_VARINT_def)

lemma settings_validate_Ok:
  "settings_validate s = Ok t \<longleftrightarrow> t = s
     \<and> word_of_nat MAX_SETTINGS_BODY_BYTES \<le> se_max_control_frame_bytes s
     \<and> word_of_nat MIN_NEGOTIATION_OFFER_BODY_BYTES \<le> se_max_negotiation_frame_bytes s
     \<and> se_max_negotiation_frame_bytes s \<le> se_max_control_frame_bytes s
     \<and> se_max_active_incoming_flows s \<noteq> 0 \<and> se_max_active_incoming_flows s \<le> QUIC_MAX_STREAM_COUNT
     \<and> se_max_incoming_message_bytes s \<noteq> 0"
  by (auto simp: settings_validate_def not_less MAX_SETTINGS_BODY_BYTES_def
      MIN_NEGOTIATION_OFFER_BODY_BYTES_def)

lemma settings_ok_small:
  assumes "settings_ok s"
  shows "se_max_control_frame_bytes s \<le> MAX_VARINT" "se_max_negotiation_frame_bytes s \<le> MAX_VARINT"
    "se_max_active_incoming_flows s \<le> MAX_VARINT" "se_max_incoming_message_bytes s \<le> MAX_VARINT"
  using assms stream_count_small by (auto simp: settings_ok_def settings_validate_Ok intro: order.trans)

lemma settings_push:
  assumes "v \<le> MAX_VARINT" "length (sw_bytes w) = MAX_SETTINGS_BODY_BYTES" "sw_len w \<le> 1 + 8 * n" "n < 4"
  shows "\<exists>w'. settings_push_varint v w = Some w' \<and> length (sw_bytes w') = MAX_SETTINGS_BODY_BYTES
    \<and> sw_len w' \<le> 1 + 8 * Suc n \<and> settings_slice w' = settings_slice w @ vslice v"
proof (cases v rule: encode_varint_cases)
  case (Small e)
  have len: "length (vslice v) \<le> 8" using length_vslice[OF assms(1)] by simp
  have room: "sw_len w + length (vslice v) \<le> MAX_SETTINGS_BODY_BYTES"
    using assms(3,4) len by (simp add: MAX_SETTINGS_BODY_BYTES_def)
  then show ?thesis
    using Small assms(2,3) len
    by (auto simp: settings_push_varint_def settings_slice_def Let_def min_absorb2)
next
  case Large
  with assms show ?thesis by simp
qed

lemma settings_encode_ok:
  assumes "settings_ok s"
  shows "\<exists>w. settings_encode s = Some w \<and> settings_slice w = settings_body s"
proof -
  note small = settings_ok_small[OF assms]
  obtain w0 where w0: "settings_push_byte (role_wire (se_semantic_role s)) settings_writer_new = Some w0"
    "length (sw_bytes w0) = MAX_SETTINGS_BODY_BYTES" "sw_len w0 \<le> 1 + 8 * 0"
    "settings_slice w0 = [role_wire (se_semantic_role s)]"
    by (auto simp: settings_push_byte_def settings_writer_new_def settings_slice_def
        MAX_SETTINGS_BODY_BYTES_def eval_nat_numeral)
  obtain w1 where w1: "settings_push_varint (se_max_control_frame_bytes s) w0 = Some w1"
    "length (sw_bytes w1) = MAX_SETTINGS_BODY_BYTES" "sw_len w1 \<le> 1 + 8 * 1"
    "settings_slice w1 = settings_slice w0 @ vslice (se_max_control_frame_bytes s)"
    using settings_push[OF small(1) w0(2,3)] by auto
  obtain w2 where w2: "settings_push_varint (se_max_negotiation_frame_bytes s) w1 = Some w2"
    "length (sw_bytes w2) = MAX_SETTINGS_BODY_BYTES" "sw_len w2 \<le> 1 + 8 * 2"
    "settings_slice w2 = settings_slice w1 @ vslice (se_max_negotiation_frame_bytes s)"
    using settings_push[OF small(2) w1(2,3)] by auto
  obtain w3 where w3: "settings_push_varint (se_max_active_incoming_flows s) w2 = Some w3"
    "length (sw_bytes w3) = MAX_SETTINGS_BODY_BYTES" "sw_len w3 \<le> 1 + 8 * 3"
    "settings_slice w3 = settings_slice w2 @ vslice (se_max_active_incoming_flows s)"
    using settings_push[OF small(3) w2(2,3)] by auto
  obtain w4 where w4: "settings_push_varint (se_max_incoming_message_bytes s) w3 = Some w4"
    "settings_slice w4 = settings_slice w3 @ vslice (se_max_incoming_message_bytes s)"
    using settings_push[OF small(4) w3(2,3)] by auto
  show ?thesis
    using w0(1,4) w1(1,4) w2(1,4) w3(1,4) w4 by (simp add: settings_encode_def settings_body_def)
qed

text \<open>Reading at an offset within the input.\<close>

definition sr_rest :: "settings_reader \<Rightarrow> bytes" where
  "sr_rest r = drop (sr_offset r) (sr_input r)"

lemma settings_read_iff:
  assumes "sr_offset r \<le> length (sr_input r)"
  shows "settings_read_varint r = Ok (v, r') \<longleftrightarrow> v \<le> MAX_VARINT \<and> sr_rest r = vslice v @ sr_rest r'
    \<and> sr_input r' = sr_input r \<and> sr_offset r' \<le> length (sr_input r')" (is "?L \<longleftrightarrow> ?R")
proof
  assume ?L
  then have v: "v \<le> MAX_VARINT" "take (length (vslice v)) (sr_rest r) = vslice v"
    and r': "r' = r\<lparr>sr_offset := sr_offset r + length (vslice v)\<rparr>"
    by (auto simp: settings_read_varint_def sr_rest_def decode_varint_iff split: result.splits)
  from v(2) have "length (vslice v) \<le> length (sr_rest r)" by (metis length_take min.cobounded1)
  then have "sr_offset r' \<le> length (sr_input r')" using assms r' by (simp add: sr_rest_def)
  moreover have "sr_rest r = vslice v @ sr_rest r'"
    using v(2) r' by (simp add: sr_rest_def) (metis append_take_drop_id drop_drop add.commute)
  ultimately show ?R using v r' by simp
next
  assume R: ?R
  then have "length (sr_rest r) = length (vslice v) + length (sr_rest r')" by simp
  then have "sr_offset r' = sr_offset r + length (vslice v)"
    using R assms by (auto simp: sr_rest_def)
  then have "r' = r\<lparr>sr_offset := sr_offset r + length (vslice v)\<rparr>" using R by (cases r, cases r') simp
  with R show ?L by (simp add: settings_read_varint_def sr_rest_def[symmetric])
qed

lemma settings_decode_iff: "settings_decode bs = Ok s \<longleftrightarrow> settings_ok s \<and> bs = settings_body s"
proof
  assume dec: "settings_decode bs = Ok s"
  then obtain role rest where bs: "bs = role # rest" by (cases bs) (auto simp: settings_decode_def)
  let ?r = "\<lparr>sr_input = rest, sr_offset = 0\<rparr>"
  obtain ro c n f m r1 r2 r3 r4 where r: "role_from_wire role = Ok ro"
    "settings_read_varint ?r = Ok (c, r1)" "settings_read_varint r1 = Ok (n, r2)"
    "settings_read_varint r2 = Ok (f, r3)" "settings_read_varint r3 = Ok (m, r4)"
    "settings_read_finish r4 = Ok ()"
    "settings_validate \<lparr>se_semantic_role = ro, se_max_control_frame_bytes = c,
          se_max_negotiation_frame_bytes = n, se_max_active_incoming_flows = f,
          se_max_incoming_message_bytes = m\<rparr> = Ok s"
    using dec by (auto simp: settings_decode_def bs result_bind_def split: result.splits)
  have at: "sr_offset ?r \<le> length (sr_input ?r)" "sr_rest ?r = rest" by (simp_all add: sr_rest_def)
  note r1 = r(2)[unfolded settings_read_iff[OF at(1)]]
  then have r2: "n \<le> MAX_VARINT \<and> sr_rest r1 = vslice n @ sr_rest r2 \<and> sr_offset r2 \<le> length (sr_input r2)"
    using r(3) settings_read_iff[of r1] by auto
  then have r3: "f \<le> MAX_VARINT \<and> sr_rest r2 = vslice f @ sr_rest r3 \<and> sr_offset r3 \<le> length (sr_input r3)"
    using r(4) settings_read_iff[of r2] by auto
  then have r4: "m \<le> MAX_VARINT \<and> sr_rest r3 = vslice m @ sr_rest r4"
    using r(5) settings_read_iff[of r3] by auto
  have "sr_rest r4 = []" using r(6) by (auto simp: settings_read_finish_def sr_rest_def split: if_splits)
  then have rest: "rest = vslice c @ vslice n @ vslice f @ vslice m" using r1 r2 r3 r4 at(2) by simp
  have s: "s = \<lparr>se_semantic_role = ro, se_max_control_frame_bytes = c,
          se_max_negotiation_frame_bytes = n, se_max_active_incoming_flows = f,
          se_max_incoming_message_bytes = m\<rparr>" using r(7) by (simp add: settings_validate_Ok)
  have "role = role_wire ro" using r(1) by (auto simp: role_from_wire_def role_wire_def split: if_splits)
  then show "settings_ok s \<and> bs = settings_body s"
    using r(7) r1 r4 s rest bs by (simp add: settings_ok_def settings_body_def)
next
  assume "settings_ok s \<and> bs = settings_body s"
  then have ok: "settings_ok s" and bs: "bs = settings_body s" by auto
  note small = settings_ok_small[OF ok]
  have role: "role_from_wire (role_wire r) = Ok r" for r
    by (cases r) (simp_all add: role_from_wire_def role_wire_def)
  have read: "settings_read_varint \<lparr>sr_input = pre @ vslice v @ post, sr_offset = length pre\<rparr>
      = Ok (v, \<lparr>sr_input = pre @ vslice v @ post, sr_offset = length (pre @ vslice v)\<rparr>)"
    if "v \<le> MAX_VARINT" for pre post v
    using that by (simp add: settings_read_varint_def)
  have valid: "settings_validate \<lparr>se_semantic_role = se_semantic_role s,
      se_max_control_frame_bytes = se_max_control_frame_bytes s,
      se_max_negotiation_frame_bytes = se_max_negotiation_frame_bytes s,
      se_max_active_incoming_flows = se_max_active_incoming_flows s,
      se_max_incoming_message_bytes = se_max_incoming_message_bytes s\<rparr> = Ok s"
    using ok by (cases s) (simp add: settings_ok_def)
  show "settings_decode bs = Ok s"
    using role valid read[OF small(1), of "[]"] read[OF small(2), of "vslice (se_max_control_frame_bytes s)"]
      read[OF small(3), of "vslice (se_max_control_frame_bytes s) @ vslice (se_max_negotiation_frame_bytes s)"]
      read[OF small(4), of "vslice (se_max_control_frame_bytes s) @ vslice (se_max_negotiation_frame_bytes s)
        @ vslice (se_max_active_incoming_flows s)" "[]"]
    by (simp add: settings_decode_def bs settings_body_def result_bind_def settings_read_finish_def)
qed

text \<open>Whatever local limits pass, the settings they give can be sent.\<close>

lemma local_limits_ok:
  assumes "local_limits_validate q l res = Ok p"
    and "qc_into_inner q (er_max_active_incoming_flows res) \<noteq> 0"
    and "qc_into_inner q (er_max_active_incoming_flows res) \<le> QUIC_MAX_STREAM_COUNT"
  shows "settings_ok (cp_local_settings p)"
proof -
  let ?c = "ll_max_control_frame_bytes l" and ?n = "ll_max_negotiation_frame_bytes l"
  have c: "MAX_SETTINGS_BODY_BYTES \<le> ?c" "?c < 2 ^ 64" "(word_of_nat ?c :: u64) \<le> MAX_VARINT"
    and n: "MIN_NEGOTIATION_OFFER_BODY_BYTES \<le> ?n" "?n \<le> ?c" "?n < 2 ^ 64"
    and m: "ll_max_incoming_message_bytes l \<noteq> 0" "ll_max_incoming_message_bytes l \<le> MAX_VARINT"
    and p: "cp_local_settings p = \<lparr>se_semantic_role = ll_semantic_role l, se_max_control_frame_bytes = word_of_nat ?c,
         se_max_negotiation_frame_bytes = word_of_nat ?n,
         se_max_active_incoming_flows = qc_into_inner q (er_max_active_incoming_flows res),
         se_max_incoming_message_bytes = ll_max_incoming_message_bytes l\<rparr>"
    using assms(1)
    by (auto simp: local_limits_validate_def usize_to_wire_def result_bind_def not_less not_le
        split: if_splits result.splits)
  have u: "unat (word_of_nat ?c :: u64) = ?c" "unat (word_of_nat ?n :: u64) = ?n"
    using c(2) n(3) by (simp_all add: unat_of_nat take_bit_nat_eq_self)
  have "(word_of_nat MAX_SETTINGS_BODY_BYTES :: u64) \<le> word_of_nat ?c"
    "(word_of_nat MIN_NEGOTIATION_OFFER_BODY_BYTES :: u64) \<le> word_of_nat ?n"
    "(word_of_nat ?n :: u64) \<le> word_of_nat ?c"
    using c(1) n(1,2) u
    by (simp_all add: word_le_nat_alt MAX_SETTINGS_BODY_BYTES_def MIN_NEGOTIATION_OFFER_BODY_BYTES_def)
  then show ?thesis
    using c(3) m assms(2,3) by (simp add: settings_ok_def settings_validate_Ok p)
qed

end
