(* ===== verification/Reliable_Framing.thy ===== *)
theory Reliable_Framing
  imports Wire_Safety
begin

text \<open>
  The framing of reliable streams, \<open>crates/runen-net-quic/src/reliable.rs\<close>: each message is its
  length as a varint and its payload. The decoder takes the stream in pieces of any size. Whether
  the allocator grants a payload buffer is an argument of the call.
\<close>

section \<open>The decoder\<close>

datatype reliable_frame_error =
    FrameInvalidLimit
  | LengthOutOfProfileRange
  | LengthDoesNotFitPlatform
  | FrameMessageTooLarge u64 u64
  | StagingLimitExceeded u64 u64
  | FrameAllocationFailed
  | FrameVarInt varint_decode_error
  | TruncatedFrame

record frame_consume_t =
  fo_consumed :: nat
  fo_message :: "bytes option"

datatype frame_state =
    LengthState bytes nat nat
  | PayloadState nat bytes

definition length_state :: frame_state where
  "length_state = LengthState (replicate 8 0) 0 0"

record frame_decoder =
  fd_max_message_bytes :: u64
  fd_max_staging_bytes :: u64
  fd_state :: frame_state

text \<open>\<open>u64::try_from(usize)\<close> and \<open>usize::try_from(u64)\<close>.\<close>

definition usize_to_u64 :: "nat \<Rightarrow> u64 option" where
  "usize_to_u64 n = (if n < 2 ^ 64 then Some (word_of_nat n) else None)"

definition u64_to_usize :: "u64 \<Rightarrow> nat option" where
  "u64_to_usize v = (if unat v \<le> usize_max then Some (unat v) else None)"

definition frame_decoder_new :: "nat \<Rightarrow> nat \<Rightarrow> (frame_decoder, reliable_frame_error) result" where
  "frame_decoder_new max_message max_staging =
     (if max_message = 0 \<or> max_staging = 0 then Err FrameInvalidLimit
      else result_bind (ok_or LengthOutOfProfileRange (usize_to_u64 max_message)) (\<lambda>m.
      result_bind (ok_or LengthOutOfProfileRange (usize_to_u64 max_staging)) (\<lambda>s.
      if m > MAX_VARINT \<or> s > MAX_VARINT then Err LengthOutOfProfileRange
      else Ok \<lparr>fd_max_message_bytes = m, fd_max_staging_bytes = s, fd_state = length_state\<rparr>)))"

text \<open>Copying input into the prefix buffer; \<open>None\<close> is the panic of a range outside it.\<close>

definition copy_into :: "bytes \<Rightarrow> nat \<Rightarrow> bytes \<Rightarrow> bytes exec" where
  "copy_into buffer at part =
     (if at + length part \<le> length buffer
      then Some (take at buffer @ part @ drop (at + length part) buffer) else None)"

text \<open>
  The branch of the loop for the payload: copy what is there, and hand the message over when it is
  complete. The loop ends here in every case.
\<close>

definition consume_payload ::
  "frame_decoder \<Rightarrow> nat \<Rightarrow> bytes \<Rightarrow> bytes \<Rightarrow> nat \<Rightarrow>
     ((frame_consume_t, reliable_frame_error) result \<times> frame_decoder) exec" where
  "consume_payload d expected buffer input consumed = do {
     remaining \<leftarrow> checked_sub expected (length buffer);
     available \<leftarrow> checked_sub (length input) consumed;
     let n = min available remaining;
     let buffer' = buffer @ take n (drop consumed input);
     Some (if length buffer' = expected
           then (Ok \<lparr>fo_consumed = consumed + n, fo_message = Some buffer'\<rparr>, d\<lparr>fd_state := length_state\<rparr>)
           else (Ok \<lparr>fo_consumed = consumed + n, fo_message = None\<rparr>,
                 d\<lparr>fd_state := PayloadState expected buffer'\<rparr>)) }"

text \<open>What the loop does once the prefix is complete: decode it, check the limits, and continue.\<close>

definition consume_prefix ::
  "(nat \<Rightarrow> bool) \<Rightarrow> frame_decoder \<Rightarrow> bytes \<Rightarrow> bytes \<Rightarrow> nat \<Rightarrow>
     ((frame_consume_t, reliable_frame_error) result \<times> frame_decoder) exec" where
  "consume_prefix alloc d prefix input consumed =
     (case decode_varint prefix of
        Err e \<Rightarrow> Some (Err (FrameVarInt e), d)
      | Ok (claimed, _) \<Rightarrow>
        if claimed > fd_max_message_bytes d
        then Some (Err (FrameMessageTooLarge claimed (fd_max_message_bytes d)), d)
        else if claimed > fd_max_staging_bytes d
        then Some (Err (StagingLimitExceeded claimed (fd_max_staging_bytes d)), d)
        else case u64_to_usize claimed of
          None \<Rightarrow> Some (Err LengthDoesNotFitPlatform, d)
        | Some expected \<Rightarrow>
          if expected = 0
          then Some (Ok \<lparr>fo_consumed = consumed, fo_message = Some []\<rparr>, d\<lparr>fd_state := length_state\<rparr>)
          else if \<not> alloc expected then Some (Err FrameAllocationFailed, d)
          else consume_payload (d\<lparr>fd_state := PayloadState expected []\<rparr>) expected [] input consumed)"

definition frame_consume ::
  "(nat \<Rightarrow> bool) \<Rightarrow> frame_decoder \<Rightarrow> bytes \<Rightarrow>
     ((frame_consume_t, reliable_frame_error) result \<times> frame_decoder) exec" where
  "frame_consume alloc d input =
     (case fd_state d of
        PayloadState expected buffer \<Rightarrow> consume_payload d expected buffer input 0
      | LengthState buffer filled needed \<Rightarrow>
        if filled = 0 \<and> input = [] then Some (Ok \<lparr>fo_consumed = 0, fo_message = None\<rparr>, d)
        else do {
          let needed = (if filled = 0 then encoded_len_from_first (hd input) else needed);
          remaining \<leftarrow> checked_sub needed filled;
          let n = min (length input) remaining;
          buffer \<leftarrow> copy_into buffer filled (take n input);
          let filled = filled + n;
          let d = d\<lparr>fd_state := LengthState buffer filled needed\<rparr>;
          (if filled \<noteq> needed then Some (Ok \<lparr>fo_consumed = n, fo_message = None\<rparr>, d)
           else consume_prefix alloc d (take needed buffer) input n) })"

definition frame_finish :: "frame_decoder \<Rightarrow> (unit, reliable_frame_error) result" where
  "frame_finish d =
     (case fd_state d of
        LengthState _ filled _ \<Rightarrow> if filled = 0 then Ok () else Err TruncatedFrame
      | PayloadState _ _ \<Rightarrow> Err TruncatedFrame)"

definition encode_payload_length ::
  "nat \<Rightarrow> nat \<Rightarrow> (encoded_varint, reliable_frame_error) result exec" where
  "encode_payload_length len max_message =
     (if max_message = 0 then Some (Err FrameInvalidLimit)
      else case (usize_to_u64 len, usize_to_u64 max_message) of
        (Some l, Some m) \<Rightarrow>
          if l > MAX_VARINT \<or> m > MAX_VARINT then Some (Err LengthOutOfProfileRange)
          else if l > m then Some (Err (FrameMessageTooLarge l m))
          else (case encode_varint l of
                  None \<Rightarrow> None
                | Some r \<Rightarrow> Some (map_err (\<lambda>_. LengthOutOfProfileRange) r))
      | _ \<Rightarrow> Some (Err LengthOutOfProfileRange))"

section \<open>Framing of a whole stream\<close>

text \<open>The specification: the first frame of a byte string, if it is there and within the limits.\<close>

datatype frame_view = Need | Bad reliable_frame_error | Frame bytes bytes

definition first_frame :: "(nat \<Rightarrow> bool) \<Rightarrow> u64 \<Rightarrow> u64 \<Rightarrow> bytes \<Rightarrow> frame_view" where
  "first_frame alloc max_message max_staging bs =
     (case decode_varint bs of
        Err (Incomplete _ _) \<Rightarrow> Need
      | Err NonMinimal \<Rightarrow> Bad (FrameVarInt NonMinimal)
      | Ok (v, n) \<Rightarrow>
        if v > max_message then Bad (FrameMessageTooLarge v max_message)
        else if v > max_staging then Bad (StagingLimitExceeded v max_staging)
        else if v \<noteq> 0 \<and> \<not> alloc (unat v) then Bad FrameAllocationFailed
        else if length (drop n bs) < unat v then Need
        else Frame (take (unat v) (drop n bs)) (drop (unat v) (drop n bs)))"

text \<open>The bytes of the frame under way that a decoder has taken.\<close>

definition pending_bytes :: "frame_decoder \<Rightarrow> bytes" where
  "pending_bytes d =
     (case fd_state d of
        LengthState buffer filled _ \<Rightarrow> take filled buffer
      | PayloadState expected buffer \<Rightarrow> vslice (word_of_nat expected) @ buffer)"

definition frame_decoder_ok :: "(nat \<Rightarrow> bool) \<Rightarrow> frame_decoder \<Rightarrow> bool" where
  "frame_decoder_ok alloc d \<longleftrightarrow>
     fd_max_message_bytes d \<le> MAX_VARINT \<and> fd_max_staging_bytes d \<le> MAX_VARINT
     \<and> (case fd_state d of
          LengthState buffer filled needed \<Rightarrow> length buffer = 8
            \<and> (filled \<noteq> 0 \<longrightarrow> needed = encoded_len_from_first (hd buffer) \<and> filled < needed)
        | PayloadState expected buffer \<Rightarrow> length buffer < expected \<and> alloc expected
            \<and> expected \<le> unat (fd_max_message_bytes d) \<and> expected \<le> unat (fd_max_staging_bytes d))"

abbreviation first_frame_of :: "(nat \<Rightarrow> bool) \<Rightarrow> frame_decoder \<Rightarrow> bytes \<Rightarrow> frame_view" where
  "first_frame_of alloc d \<equiv> first_frame alloc (fd_max_message_bytes d) (fd_max_staging_bytes d)"

lemma encoded_len_from_first_bounds: "1 \<le> encoded_len_from_first b" "encoded_len_from_first b \<le> 8"
proof -
  have "unat b div 64 \<le> 3" using unat_u8_less[of b] by linarith
  then show "1 \<le> encoded_len_from_first b" "encoded_len_from_first b \<le> 8"
    using unat_first_bits(1)[of b] power_increasing[of "unat b div 64" 3 "2::nat"]
    by (simp_all add: encoded_len_from_first_def push_bit_eq_mult)
qed

text \<open>Decoding looks at the encoded length only.\<close>

lemma decode_varint_prefix:
  assumes "bs \<noteq> []" "encoded_len_from_first (hd bs) \<le> length bs"
  shows "decode_varint (take (encoded_len_from_first (hd bs)) bs) = decode_varint bs"
    and "decode_varint bs \<noteq> Err (Incomplete a b)"
    and "decode_varint bs = Ok (v, n) \<Longrightarrow> n = encoded_len_from_first (hd bs)"
proof -
  obtain c cs where bs: "bs = c # cs" using assms(1) by (cases bs) auto
  obtain k where k: "encoded_len_from_first c = Suc k"
    using encoded_len_from_first_bounds(1)[of c] by (cases "encoded_len_from_first c") auto
  show "decode_varint (take (encoded_len_from_first (hd bs)) bs) = decode_varint bs"
    using assms(2) by (simp add: bs k decode_varint_def Let_def)
  show "decode_varint bs \<noteq> Err (Incomplete a b)"
    using assms(2) by (simp add: bs decode_varint_def Let_def)
  show "n = encoded_len_from_first (hd bs)" if "decode_varint bs = Ok (v, n)"
    using that assms(2) by (simp add: bs decode_varint_def Let_def split: if_splits)
qed

lemma decode_varint_short:
  "bs = [] \<or> length bs < encoded_len_from_first (hd bs) \<Longrightarrow> \<exists>a b. decode_varint bs = Err (Incomplete a b)"
  by (cases bs) (auto simp: decode_varint_def Let_def)


section \<open>The decoder refines the framing of the whole stream\<close>

lemma word_of_small: "n < 2 ^ 64 \<Longrightarrow> unat (word_of_nat n :: u64) = n"
  by (simp add: unat_of_nat take_bit_nat_eq_self)

lemma payload_view:
  assumes "frame_decoder_ok alloc d" "0 < expected" "alloc expected"
    "expected \<le> unat (fd_max_message_bytes d)" "expected \<le> unat (fd_max_staging_bytes d)"
  shows "first_frame_of alloc d (vslice (word_of_nat expected) @ bs)
    = (if length bs < expected then Need else Frame (take expected bs) (drop expected bs))"
proof -
  have "fd_max_message_bytes d \<le> MAX_VARINT" using assms(1) by (simp add: frame_decoder_ok_def)
  then have small: "expected < 2 ^ 64"
    using assms(4) by (simp add: word_le_nat_alt unat_MAX_VARINT)
  note val = word_of_small[OF small]
  have "(word_of_nat expected :: u64) \<le> MAX_VARINT"
    using assms(4) \<open>fd_max_message_bytes d \<le> MAX_VARINT\<close> by (simp add: word_le_nat_alt val)
  then show ?thesis
    using assms by (simp add: first_frame_def val word_less_nat_alt)
qed

lemma u64_to_usize_eq: "u64_to_usize v = Some (unat v)"
proof -
  have "unat v < 2 ^ LENGTH(64)" by (rule unsigned_less)
  then show ?thesis by (simp add: u64_to_usize_def usize_max_def)
qed

definition frame_result ::
  "(nat \<Rightarrow> bool) \<Rightarrow> frame_decoder \<Rightarrow> bytes \<Rightarrow>
     (frame_consume_t, reliable_frame_error) result \<times> frame_decoder \<Rightarrow> bool" where
  "frame_result alloc d input out \<longleftrightarrow>
     fd_max_message_bytes (snd out) = fd_max_message_bytes d
     \<and> fd_max_staging_bytes (snd out) = fd_max_staging_bytes d
     \<and> (case first_frame_of alloc d (pending_bytes d @ input) of
          Need \<Rightarrow> fst out = Ok \<lparr>fo_consumed = length input, fo_message = None\<rparr>
            \<and> frame_decoder_ok alloc (snd out) \<and> pending_bytes (snd out) = pending_bytes d @ input
        | Bad e \<Rightarrow> fst out = Err e
        | Frame m rest \<Rightarrow> (\<exists>n. 0 < n \<and> n \<le> length input \<and> rest = drop n input
            \<and> fst out = Ok \<lparr>fo_consumed = n, fo_message = Some m\<rparr> \<and> fd_state (snd out) = length_state))"

text \<open>The payload branch, entered with \<open>consumed\<close> bytes of the input already taken.\<close>

lemma consume_payload_spec:
  assumes ok: "frame_decoder_ok alloc d" and exp: "0 < expected" "alloc expected"
    "expected \<le> unat (fd_max_message_bytes d)" "expected \<le> unat (fd_max_staging_bytes d)"
    and part: "length buffer < expected" and c: "c \<le> length input"
  shows "\<exists>out. consume_payload d expected buffer input c = Some out
    \<and> fd_max_message_bytes (snd out) = fd_max_message_bytes d
    \<and> fd_max_staging_bytes (snd out) = fd_max_staging_bytes d
    \<and> (if length (buffer @ drop c input) < expected
       then fst out = Ok \<lparr>fo_consumed = length input, fo_message = None\<rparr>
         \<and> frame_decoder_ok alloc (snd out)
         \<and> pending_bytes (snd out) = vslice (word_of_nat expected) @ buffer @ drop c input
       else fst out = Ok \<lparr>fo_consumed = c + (expected - length buffer),
              fo_message = Some (take expected (buffer @ drop c input))\<rparr>
         \<and> c + (expected - length buffer) \<le> length input
         \<and> drop expected (buffer @ drop c input) = drop (c + (expected - length buffer)) input
         \<and> fd_state (snd out) = length_state)"
  using assms
  by (auto simp: consume_payload_def checked_sub_def Let_def min_def frame_decoder_ok_def
      pending_bytes_def add.commute)

lemma consume_prefix_spec:
  assumes ok: "frame_decoder_ok alloc d" and c: "0 < c" "c \<le> length input"
    and prefix: "prefix \<noteq> []" "length prefix = encoded_len_from_first (hd prefix)"
    and whole: "pending_bytes d @ input = prefix @ drop c input"
    and d': "fd_max_message_bytes d' = fd_max_message_bytes d"
      "fd_max_staging_bytes d' = fd_max_staging_bytes d"
  shows "\<exists>out. consume_prefix alloc d' prefix input c = Some out \<and> frame_result alloc d input out"
proof -
  have hd_eq: "hd (prefix @ drop c input) = hd prefix" using prefix(1) by simp
  have dec: "decode_varint (prefix @ drop c input) = decode_varint prefix"
    using decode_varint_prefix(1)[of "prefix @ drop c input"] prefix hd_eq by simp
  show ?thesis
  proof (cases "decode_varint prefix")
    case (Err e)
    have "e = NonMinimal"
      using decode_varint_prefix(2)[of prefix] prefix Err by (cases e) auto
    with Err dec whole d' show ?thesis
      by (simp add: consume_prefix_def frame_result_def first_frame_def)
  next
    case (Ok vn)
    obtain v n where vn: "vn = (v, n)" by (cases vn)
    have dv: "decode_varint prefix = Ok (v, n)" using Ok vn by simp
    have n: "n = length prefix" using decode_varint_prefix(3)[OF prefix(1) _ dv] prefix(2) by simp
    have slice: "prefix = vslice v" using dv n by (simp add: decode_varint_iff)
    have lim: "fd_max_message_bytes d \<le> MAX_VARINT" using ok by (simp add: frame_decoder_ok_def)
    have view: "first_frame_of alloc d (pending_bytes d @ input) =
        (if v > fd_max_message_bytes d then Bad (FrameMessageTooLarge v (fd_max_message_bytes d))
         else if v > fd_max_staging_bytes d then Bad (StagingLimitExceeded v (fd_max_staging_bytes d))
         else if v \<noteq> 0 \<and> \<not> alloc (unat v) then Bad FrameAllocationFailed
         else if length (drop c input) < unat v then Need
         else Frame (take (unat v) (drop c input)) (drop (unat v) (drop c input)))"
      by (simp add: first_frame_def whole dec dv n)
    show ?thesis
    proof (cases "v \<le> fd_max_message_bytes d \<and> v \<le> fd_max_staging_bytes d \<and> v \<noteq> 0 \<and> alloc (unat v)")
      case False
      then show ?thesis
        using dv d' c view
        by (auto simp: consume_prefix_def frame_result_def u64_to_usize_eq linorder_not_less
            unat_eq_0 not_le intro!: exI[of _ c])
    next
      case True
      let ?d = "d'\<lparr>fd_state := PayloadState (unat v) []\<rparr>"
      have v: "0 < unat v" "word_of_nat (unat v) = v" using True by (simp_all add: unat_gt_0)
      have okd: "frame_decoder_ok alloc ?d"
        using ok True v(1) d' by (simp add: frame_decoder_ok_def word_le_nat_alt)
      have le: "\<not> fd_max_message_bytes d < v" "\<not> fd_max_staging_bytes d < v" using True by auto
      have call: "consume_prefix alloc d' prefix input c = consume_payload ?d (unat v) [] input c"
        using True dv d' v(1) le by (simp add: consume_prefix_def u64_to_usize_eq)
      have view: "first_frame_of alloc d (pending_bytes d @ input)
          = (if length (drop c input) < unat v then Need
             else Frame (take (unat v) (drop c input)) (drop (unat v) (drop c input)))"
        using view True le by simp
      have fits: "unat v \<le> unat (fd_max_message_bytes ?d)" "unat v \<le> unat (fd_max_staging_bytes ?d)"
        "alloc (unat v)" "length ([] :: bytes) < unat v"
        using True d' v(1) by (simp_all add: word_le_nat_alt)
      from consume_payload_spec[OF okd v(1) fits(3,1,2,4) c(2)] d' v(2)
      show ?thesis
        unfolding call frame_result_def view using c slice whole
        by (auto split: if_splits)
    qed
  qed
qed

lemma frame_consume_spec:
  assumes ok: "frame_decoder_ok alloc d"
  shows "\<exists>out. frame_consume alloc d input = Some out \<and> frame_result alloc d input out"
proof (cases "fd_state d")
  case (PayloadState expected buffer)
  then have st: "length buffer < expected" "alloc expected"
    "expected \<le> unat (fd_max_message_bytes d)" "expected \<le> unat (fd_max_staging_bytes d)"
    using ok by (simp_all add: frame_decoder_ok_def)
  then have pos: "0 < expected" by simp
  have pending: "pending_bytes d @ input = vslice (word_of_nat expected) @ buffer @ input"
    using PayloadState by (simp add: pending_bytes_def)
  have call: "frame_consume alloc d input = consume_payload d expected buffer input 0"
    using PayloadState by (simp add: frame_consume_def)
  from consume_payload_spec[OF ok pos st(2-4,1), of 0 input] st(1)
  show ?thesis
    unfolding call frame_result_def pending payload_view[OF ok pos st(2-4)]
    by (auto simp: PayloadState pending_bytes_def split: if_splits)
next
  case (LengthState buffer filled needed)
  show ?thesis
  proof (cases "filled = 0 \<and> input = []")
    case True
    then show ?thesis
      using LengthState ok
      by (simp add: frame_consume_def frame_result_def first_frame_def pending_bytes_def decode_varint_def)
  next
    case False
    define first where "first = (if filled = 0 then hd input else hd buffer)"
    define need where "need = encoded_len_from_first first"
    have buf: "length buffer = 8" and st: "filled \<noteq> 0 \<Longrightarrow> needed = need \<and> filled < need"
      using ok LengthState by (auto simp: frame_decoder_ok_def first_def need_def)
    have need8: "1 \<le> need" "need \<le> 8" using encoded_len_from_first_bounds by (simp_all add: need_def)
    have lt: "filled < need" using st need8 by (cases "filled = 0") auto
    define n where "n = min (length input) (need - filled)"
    define buffer' where "buffer' = take filled buffer @ take n input @ drop (filled + n) buffer"
    let ?d = "d\<lparr>fd_state := LengthState buffer' (filled + n) need\<rparr>"
    have copy: "copy_into buffer filled (take n input) = Some buffer'"
      using buf lt need8 by (auto simp: copy_into_def buffer'_def n_def min_def)
    have sub: "checked_sub need filled = Some (need - filled)" using lt by (simp add: checked_sub_def)
    have call: "frame_consume alloc d input = (if filled + n \<noteq> need
        then Some (Ok \<lparr>fo_consumed = n, fo_message = None\<rparr>, ?d)
        else consume_prefix alloc ?d (take need buffer') input n)"
      using False LengthState copy sub st
      by (auto simp: frame_consume_def Let_def n_def first_def need_def)
    have pend: "pending_bytes d = take filled buffer" using LengthState by (simp add: pending_bytes_def)
    have taken: "take (filled + n) buffer' = take filled buffer @ take n input"
      using buf lt need8 by (simp add: buffer'_def n_def min_def)
    have whole_ne: "take filled buffer @ input \<noteq> []" using False buf by auto
    have hd_whole: "hd (take filled buffer @ input) = first"
      using buf lt need8 by (cases buffer; cases filled) (auto simp: first_def)
    show ?thesis
    proof (cases "filled + n = need")
      case True
      have n: "0 < n" "n \<le> length input" using True lt by (simp_all add: n_def)
      have prefix: "take need buffer' = take filled buffer @ take n input" using taken True by simp
      have len: "length (take need buffer') = need" using prefix True buf n(2) lt need8 by simp
      have "hd (take need buffer') = first"
        using hd_whole prefix n buf lt need8
        by (cases "filled = 0"; cases input) (auto simp: hd_append)
      moreover have "take need buffer' \<noteq> []" using len need8 by auto
      moreover have "pending_bytes d @ input = take need buffer' @ drop n input"
        by (simp add: pend prefix)
      ultimately show ?thesis
        using consume_prefix_spec[OF ok n, of "take need buffer'" ?d] len call True
        by (simp add: need_def)
    next
      case short: False
      then have n: "n = length input" "filled + length input < need"
        using lt by (auto simp: n_def)
      have "\<exists>a b. decode_varint (pending_bytes d @ input) = Err (Incomplete a b)"
        by (rule decode_varint_short) (use hd_whole n buf lt need8 pend in \<open>simp add: need_def\<close>)
      then have "first_frame_of alloc d (pending_bytes d @ input) = Need"
        by (auto simp: first_frame_def)
      moreover have "pending_bytes ?d = pending_bytes d @ input"
        using taken n(1) by (simp add: pending_bytes_def LengthState)
      moreover have "length buffer' = 8" using buf n lt need8 by (simp add: buffer'_def)
      moreover have "buffer' = (take filled buffer @ input) @ drop (filled + n) buffer"
        by (simp add: buffer'_def n(1))
      then have "hd buffer' = first" by (simp only: hd_append2[OF whole_ne] hd_whole)
      ultimately show ?thesis
        using short call ok n by (simp add: frame_result_def frame_decoder_ok_def need_def)
    qed
  qed
qed

end
