(* ===== verification/Control_Stream.thy ===== *)
theory Control_Stream
  imports Profile_Settings Reliable_Framing
begin

text \<open>
  The control stream, the rest of \<open>crates/runen-net-quic/src/control.rs\<close>: frames, the bootstrap
  that exchanges the settings, and the two directions of an established stream. The asynchronous
  operations of a quinn stream are arguments; an awaited operation completes, or the future it is
  part of is dropped, and then so is the function that awaits it.
\<close>

section \<open>Frames\<close>

datatype control_frame_type =
    SettingsType
  | NegotiationOfferType
  | NegotiationProposalType
  | NegotiationValidatedType
  | NegotiationEstablishedType
  | NegotiationFailedType
  | OpenFlowType
  | FlowAcceptType
  | FlowRejectType
  | FlowTerminateType

record control_frame =
  cf_type :: control_frame_type
  cf_body :: bytes

text \<open>What the code distinguishes of quinn's errors.\<close>

datatype connection_error = ApplicationClosed u64 | OtherConnectionError

datatype read_error =
    ReadReset u64
  | ReadConnectionLost connection_error
  | ReadClosedStream
  | IllegalOrderedRead
  | ReadZeroRttRejected

datatype read_exact_error = FinishedEarly nat | StreamReadError read_error

datatype write_error =
    WriteStopped u64
  | WriteConnectionLost connection_error
  | WriteClosedStream
  | WriteZeroRttRejected

datatype control_frame_error =
    ControlVarInt varint_decode_error
  | ControlVarIntEncode varint_encode_error
  | UnknownFrameType u64
  | BodyLengthOutOfRange
  | BodyTooLarge u64 u64
  | NegotiationBodyTooLarge u64 u64
  | ControlAllocation
  | EndOfStream
  | ControlTruncatedFrame
  | ControlRead read_exact_error
  | ControlWrite write_error
  | ZeroWriteProgress

definition frame_type_wire :: "control_frame_type \<Rightarrow> u64" where
  "frame_type_wire t =
     (case t of SettingsType \<Rightarrow> 0 | NegotiationOfferType \<Rightarrow> 1 | NegotiationProposalType \<Rightarrow> 2
              | NegotiationValidatedType \<Rightarrow> 3 | NegotiationEstablishedType \<Rightarrow> 4 | NegotiationFailedType \<Rightarrow> 5
              | OpenFlowType \<Rightarrow> 6 | FlowAcceptType \<Rightarrow> 7 | FlowRejectType \<Rightarrow> 8 | FlowTerminateType \<Rightarrow> 9)"

definition frame_type_from_wire :: "u64 \<Rightarrow> (control_frame_type, control_frame_error) result" where
  "frame_type_from_wire v =
     (if v = 0 then Ok SettingsType else if v = 1 then Ok NegotiationOfferType
      else if v = 2 then Ok NegotiationProposalType else if v = 3 then Ok NegotiationValidatedType
      else if v = 4 then Ok NegotiationEstablishedType else if v = 5 then Ok NegotiationFailedType
      else if v = 6 then Ok OpenFlowType else if v = 7 then Ok FlowAcceptType
      else if v = 8 then Ok FlowRejectType else if v = 9 then Ok FlowTerminateType
      else Err (UnknownFrameType v))"

definition is_negotiation :: "control_frame_type \<Rightarrow> bool" where
  "is_negotiation t =
     (case t of NegotiationOfferType \<Rightarrow> True | NegotiationProposalType \<Rightarrow> True
              | NegotiationValidatedType \<Rightarrow> True | NegotiationEstablishedType \<Rightarrow> True
              | NegotiationFailedType \<Rightarrow> True | _ \<Rightarrow> False)"

definition from_read_exact :: "read_exact_error \<Rightarrow> control_frame_error" where
  "from_read_exact e = (case e of FinishedEarly _ \<Rightarrow> ControlTruncatedFrame | _ \<Rightarrow> ControlRead e)"

text \<open>The application code \<open>NoError\<close> is 0 on the wire.\<close>

definition mid_frame_read_error :: "read_exact_error \<Rightarrow> control_frame_error" where
  "mid_frame_read_error e =
     (case e of StreamReadError (ReadConnectionLost (ApplicationClosed code)) \<Rightarrow>
        if code = 0 then ControlTruncatedFrame else from_read_exact e
      | _ \<Rightarrow> from_read_exact e)"

section \<open>Bootstrap\<close>

datatype profile_bootstrap_error =
    BootstrapConnection connection_error
  | MissingHandshakeData
  | UnexpectedHandshakeDataType
  | WrongAlpn
  | DatagramUnsupported
  | WrongQuicSide wire_side wire_side
  | ZeroRttControlStream
  | BootstrapFrame control_frame_error
  | BootstrapSettings settings_error
  | UnexpectedFrameBeforeReady control_frame_type
  | DuplicateSettings
  | SettingsAfterReady
  | SettingsOwnedByBootstrap
  | ControlChannelPoisoned
  | PeerRoleMismatch semantic_role semantic_role

definition RUNENNET_ALPN :: bytes where
  "RUNENNET_ALPN = [114, 117, 110, 101, 110, 110, 101, 116, 47, 49]"

text \<open>
  Confirmation of a transport from what the connection says of itself: its handshake data, if any,
  as rustls data, if it is, with the protocol they name, if any; its datagram size; its side.
\<close>

definition confirm_profile_transport ::
  "bytes option option option \<Rightarrow> nat option \<Rightarrow> wire_side \<Rightarrow> (wire_side, profile_bootstrap_error) result" where
  "confirm_profile_transport handshake max_datagram side =
     (case handshake of
        None \<Rightarrow> Err MissingHandshakeData
      | Some None \<Rightarrow> Err UnexpectedHandshakeDataType
      | Some (Some protocol) \<Rightarrow>
        if protocol \<noteq> Some RUNENNET_ALPN then Err WrongAlpn
        else if max_datagram = None then Err DatagramUnsupported
        else Ok side)"

record bootstrap_state =
  bs_local_settings :: settings
  bs_local_settings_sent :: bool
  bs_peer_settings :: "settings option"

definition bootstrap_state_new :: "settings \<Rightarrow> bootstrap_state" where
  "bootstrap_state_new s = \<lparr>bs_local_settings = s, bs_local_settings_sent = False, bs_peer_settings = None\<rparr>"

definition mark_local_settings_sent ::
  "bootstrap_state \<Rightarrow> (unit, profile_bootstrap_error) result \<times> bootstrap_state" where
  "mark_local_settings_sent b =
     (if bs_local_settings_sent b then (Err DuplicateSettings, b)
      else (Ok (), b\<lparr>bs_local_settings_sent := True\<rparr>))"

definition receive_settings ::
  "bootstrap_state \<Rightarrow> settings \<Rightarrow> (unit, profile_bootstrap_error) result \<times> bootstrap_state" where
  "receive_settings b s =
     (if bs_peer_settings b \<noteq> None then (Err DuplicateSettings, b)
      else let expected = role_opposite (se_semantic_role (bs_local_settings b))
           in if se_semantic_role s \<noteq> expected then (Err (PeerRoleMismatch expected (se_semantic_role s)), b)
              else (Ok (), b\<lparr>bs_peer_settings := Some s\<rparr>))"

definition bootstrap_is_ready :: "bootstrap_state \<Rightarrow> bool" where
  "bootstrap_is_ready b \<longleftrightarrow> bs_local_settings_sent b \<and> bs_peer_settings b \<noteq> None"

definition validate_inbound_type ::
  "bootstrap_state \<Rightarrow> control_frame_type \<Rightarrow> (unit, profile_bootstrap_error) result" where
  "validate_inbound_type b t =
     (if bootstrap_is_ready b then (if t = SettingsType then Err SettingsAfterReady else Ok ())
      else if t = SettingsType then Ok () else Err (UnexpectedFrameBeforeReady t))"

definition validate_outbound_type ::
  "bootstrap_state \<Rightarrow> control_frame_type \<Rightarrow> (unit, profile_bootstrap_error) result" where
  "validate_outbound_type b t =
     (if bootstrap_is_ready b then (if t = SettingsType then Err SettingsAfterReady else Ok ())
      else if t = SettingsType \<and> \<not> bs_local_settings_sent b then Ok ()
      else if t = SettingsType then Err DuplicateSettings
      else Err (UnexpectedFrameBeforeReady t))"

section \<open>Awaited operations\<close>

datatype 'a awaited = Done 'a | Cancelled

record 'w send_ops =
  so_write :: "'w \<Rightarrow> bytes \<Rightarrow> (nat, write_error) result awaited \<times> 'w"
  so_finish :: "'w \<Rightarrow> (unit, write_error) result \<times> 'w"
  so_stopped :: "'w \<Rightarrow> (u64 option, write_error) result awaited \<times> 'w"

record 'r recv_ops =
  rv_read_exact :: "'r \<Rightarrow> nat \<Rightarrow> (bytes, read_exact_error) result awaited \<times> 'r"

function write_part ::
  "'w send_ops \<Rightarrow> bytes \<Rightarrow> nat \<Rightarrow> 'w \<Rightarrow> (unit, control_frame_error) result awaited \<times> 'w" where
  "write_part ops part offset w =
     (if offset < length part then
        (case so_write ops w (drop offset part) of
           (Cancelled, w) \<Rightarrow> (Cancelled, w)
         | (Done (Err e), w) \<Rightarrow> (Done (Err (ControlWrite e)), w)
         | (Done (Ok n), w) \<Rightarrow> if n = 0 then (Done (Err ZeroWriteProgress), w)
                             else write_part ops part (offset + n) w)
      else (Done (Ok ()), w))"
  by pat_completeness auto
termination
  by (relation "measure (\<lambda>(_, part, offset, _). length part - offset)") auto

declare write_part.simps [simp del]

fun write_slices ::
  "'w send_ops \<Rightarrow> bytes list \<Rightarrow> 'w \<Rightarrow> (unit, control_frame_error) result awaited \<times> 'w" where
  "write_slices ops [] w = (Done (Ok ()), w)"
| "write_slices ops (part # parts) w =
     (case write_part ops part 0 w of
        (Done (Ok _), w) \<Rightarrow> write_slices ops parts w
      | out \<Rightarrow> out)"

definition send_frame_raw ::
  "'w send_ops \<Rightarrow> 'w \<Rightarrow> control_frame_type \<Rightarrow> bytes \<Rightarrow>
     ((unit, control_frame_error) result awaited \<times> 'w) exec" where
  "send_frame_raw ops w t body =
     (case usize_to_u64 (length body) of
        None \<Rightarrow> Some (Done (Err BodyLengthOutOfRange), w)
      | Some len \<Rightarrow> do {
          a \<leftarrow> encode_varint (frame_type_wire t);
          (case a of
             Err e \<Rightarrow> Some (Done (Err (ControlVarIntEncode e)), w)
           | Ok ty \<Rightarrow> do {
               b \<leftarrow> encode_varint len;
               (case b of
                  Err e \<Rightarrow> Some (Done (Err (ControlVarIntEncode e)), w)
                | Ok n \<Rightarrow> Some (write_slices ops [varint_slice ty, varint_slice n, body] w)) }) })"

text \<open>The first byte read into a buffer of zeros.\<close>

definition first_byte :: "bytes \<Rightarrow> u8" where
  "first_byte bs = (case bs of [] \<Rightarrow> 0 | b # _ \<Rightarrow> b)"

definition read_varint_after_first ::
  "'r recv_ops \<Rightarrow> 'r \<Rightarrow> u8 \<Rightarrow> (u64, control_frame_error) result awaited \<times> 'r" where
  "read_varint_after_first ops r first =
     (let n = encoded_len_from_first first;
          decoded = (\<lambda>bs. result_bind (map_err ControlVarInt (decode_varint bs)) (\<lambda>(v, _). Ok v))
      in if n > 1 then
           (case rv_read_exact ops r (n - 1) of
              (Cancelled, r) \<Rightarrow> (Cancelled, r)
            | (Done (Err e), r) \<Rightarrow> (Done (Err (mid_frame_read_error e)), r)
            | (Done (Ok bs), r) \<Rightarrow> (Done (decoded (first # bs)), r))
         else (Done (decoded [first]), r))"

definition read_stream_varint ::
  "'r recv_ops \<Rightarrow> 'r \<Rightarrow> (u64, control_frame_error) result awaited \<times> 'r" where
  "read_stream_varint ops r =
     (case rv_read_exact ops r 1 of
        (Cancelled, r) \<Rightarrow> (Cancelled, r)
      | (Done (Err e), r) \<Rightarrow> (Done (Err (mid_frame_read_error e)), r)
      | (Done (Ok bs), r) \<Rightarrow> read_varint_after_first ops r (first_byte bs))"

definition receive_frame_type ::
  "'r recv_ops \<Rightarrow> 'r \<Rightarrow> (control_frame_type, control_frame_error) result awaited \<times> 'r" where
  "receive_frame_type ops r =
     (case rv_read_exact ops r 1 of
        (Cancelled, r) \<Rightarrow> (Cancelled, r)
      | (Done (Err e), r) \<Rightarrow>
          (Done (Err (if e = FinishedEarly 0 then EndOfStream else from_read_exact e)), r)
      | (Done (Ok bs), r) \<Rightarrow>
        (case read_varint_after_first ops r (first_byte bs) of
           (Cancelled, r) \<Rightarrow> (Cancelled, r)
         | (Done v, r) \<Rightarrow> (Done (result_bind v frame_type_from_wire), r)))"

definition validate_inbound_body_length ::
  "control_frame_type \<Rightarrow> u64 \<Rightarrow> u64 \<Rightarrow> u64 \<Rightarrow> (nat, control_frame_error) result" where
  "validate_inbound_body_length t len control negotiation =
     (if len > control then Err (BodyTooLarge len control)
      else if is_negotiation t \<and> len > negotiation then Err (NegotiationBodyTooLarge len negotiation)
      else ok_or BodyLengthOutOfRange (u64_to_usize len))"

definition receive_frame_body ::
  "(nat \<Rightarrow> bool) \<Rightarrow> 'r recv_ops \<Rightarrow> 'r \<Rightarrow> control_frame_type \<Rightarrow> u64 \<Rightarrow> u64 \<Rightarrow>
     (control_frame, control_frame_error) result awaited \<times> 'r" where
  "receive_frame_body alloc ops r t control negotiation =
     (case read_stream_varint ops r of
        (Cancelled, r) \<Rightarrow> (Cancelled, r)
      | (Done (Err e), r) \<Rightarrow> (Done (Err e), r)
      | (Done (Ok len), r) \<Rightarrow>
        (case validate_inbound_body_length t len control negotiation of
           Err e \<Rightarrow> (Done (Err e), r)
         | Ok n \<Rightarrow>
           if \<not> alloc n then (Done (Err ControlAllocation), r)
           else if n = 0 then (Done (Ok \<lparr>cf_type = t, cf_body = []\<rparr>), r)
           else (case rv_read_exact ops r n of
               (Cancelled, r) \<Rightarrow> (Cancelled, r)
             | (Done (Err e), r) \<Rightarrow> (Done (Err (mid_frame_read_error e)), r)
             | (Done (Ok bs), r) \<Rightarrow> (Done (Ok \<lparr>cf_type = t, cf_body = bs\<rparr>), r))))"

section \<open>The directions of an established stream\<close>

datatype direction_io_state = Clean | InFlightOrPoisoned

definition io_begin ::
  "direction_io_state \<Rightarrow> (unit, profile_bootstrap_error) result \<times> direction_io_state" where
  "io_begin s = (if s \<noteq> Clean then (Err ControlChannelPoisoned, s) else (Ok (), InFlightOrPoisoned))"

definition io_complete :: "direction_io_state \<Rightarrow> direction_io_state" where
  "io_complete s = Clean"

definition validate_outbound_body ::
  "settings \<Rightarrow> settings \<Rightarrow> control_frame_type \<Rightarrow> nat \<Rightarrow> (unit, control_frame_error) result" where
  "validate_outbound_body l p t n =
     (case usize_to_u64 n of
        None \<Rightarrow> Err BodyLengthOutOfRange
      | Some len \<Rightarrow>
        let control = min (se_max_control_frame_bytes l) (se_max_control_frame_bytes p);
            negotiation = min (se_max_negotiation_frame_bytes l) (se_max_negotiation_frame_bytes p)
        in if len > control then Err (BodyTooLarge len control)
           else if is_negotiation t \<and> len > negotiation then Err (NegotiationBodyTooLarge len negotiation)
           else Ok ())"

record 'w control_sender =
  ct_send :: 'w
  ct_local_settings :: settings
  ct_peer_settings :: settings
  ct_io_state :: direction_io_state

definition send_frame ::
  "'w send_ops \<Rightarrow> 'w control_sender \<Rightarrow> control_frame_type \<Rightarrow> bytes \<Rightarrow>
     ((unit, profile_bootstrap_error) result awaited \<times> 'w control_sender) exec" where
  "send_frame ops s t body =
     (if t = SettingsType then Some (Done (Err SettingsOwnedByBootstrap), s)
      else case validate_outbound_body (ct_local_settings s) (ct_peer_settings s) t (length body) of
        Err e \<Rightarrow> Some (Done (Err (BootstrapFrame e)), s)
      | Ok _ \<Rightarrow>
        (case io_begin (ct_io_state s) of
           (Err e, io) \<Rightarrow> Some (Done (Err e), s\<lparr>ct_io_state := io\<rparr>)
         | (Ok _, io) \<Rightarrow> do {
             (x, w) \<leftarrow> send_frame_raw ops (ct_send s) t body;
             let s = s\<lparr>ct_send := w, ct_io_state := io\<rparr>;
             Some (case x of
                 Cancelled \<Rightarrow> (Cancelled, s)
               | Done (Err e) \<Rightarrow> (Done (Err (BootstrapFrame e)), s)
               | Done (Ok _) \<Rightarrow> (Done (Ok ()), s\<lparr>ct_io_state := io_complete io\<rparr>)) }))"

definition send_terminal_negotiation_failure ::
  "'w send_ops \<Rightarrow> 'w control_sender \<Rightarrow> bytes \<Rightarrow>
     ((unit, profile_bootstrap_error) result awaited \<times> 'w control_sender) exec" where
  "send_terminal_negotiation_failure ops s body = do {
     (x, s) \<leftarrow> send_frame ops s NegotiationFailedType body;
     Some (case x of
         Done (Ok _) \<Rightarrow>
           (case so_finish ops (ct_send s) of
              (Err e, w) \<Rightarrow> (Done (Err (BootstrapFrame (ControlWrite e))), s\<lparr>ct_send := w\<rparr>)
            | (Ok _, w) \<Rightarrow>
              (case so_stopped ops w of
                 (Cancelled, w) \<Rightarrow> (Cancelled, s\<lparr>ct_send := w\<rparr>)
               | (Done (Err e), w) \<Rightarrow> (Done (Err (BootstrapFrame (ControlWrite e))), s\<lparr>ct_send := w\<rparr>)
               | (Done (Ok None), w) \<Rightarrow> (Done (Ok ()), s\<lparr>ct_send := w\<rparr>)
               | (Done (Ok (Some code)), w) \<Rightarrow>
                   (Done (Err (BootstrapFrame (ControlWrite (WriteStopped code)))), s\<lparr>ct_send := w\<rparr>)))
       | _ \<Rightarrow> (x, s)) }"

record 'r control_receiver =
  cr_recv :: 'r
  cr_local_settings :: settings
  cr_io_state :: direction_io_state

definition receive_frame ::
  "(nat \<Rightarrow> bool) \<Rightarrow> 'r recv_ops \<Rightarrow> 'r control_receiver \<Rightarrow>
     (control_frame, profile_bootstrap_error) result awaited \<times> 'r control_receiver" where
  "receive_frame alloc ops c =
     (case io_begin (cr_io_state c) of
        (Err e, io) \<Rightarrow> (Done (Err e), c\<lparr>cr_io_state := io\<rparr>)
      | (Ok _, io) \<Rightarrow>
        (case receive_frame_type ops (cr_recv c) of
           (Cancelled, r) \<Rightarrow> (Cancelled, c\<lparr>cr_recv := r, cr_io_state := io\<rparr>)
         | (Done (Err e), r) \<Rightarrow> (Done (Err (BootstrapFrame e)), c\<lparr>cr_recv := r, cr_io_state := io\<rparr>)
         | (Done (Ok t), r) \<Rightarrow>
           if t = SettingsType then (Done (Err SettingsAfterReady), c\<lparr>cr_recv := r, cr_io_state := io\<rparr>)
           else (case receive_frame_body alloc ops r t (se_max_control_frame_bytes (cr_local_settings c))
                   (se_max_negotiation_frame_bytes (cr_local_settings c)) of
               (Cancelled, r) \<Rightarrow> (Cancelled, c\<lparr>cr_recv := r, cr_io_state := io\<rparr>)
             | (Done (Err e), r) \<Rightarrow> (Done (Err (BootstrapFrame e)), c\<lparr>cr_recv := r, cr_io_state := io\<rparr>)
             | (Done (Ok f), r) \<Rightarrow> (Done (Ok f), c\<lparr>cr_recv := r, cr_io_state := io_complete io\<rparr>))))"

section \<open>The exchange of settings\<close>

record ('w, 'r) bootstrap_control =
  bc_send :: 'w
  bc_recv :: 'r
  bc_state :: bootstrap_state

definition send_local_settings ::
  "'w send_ops \<Rightarrow> ('w, 'r) bootstrap_control \<Rightarrow>
     ((unit, profile_bootstrap_error) result awaited \<times> ('w, 'r) bootstrap_control) exec" where
  "send_local_settings ops b =
     (case validate_outbound_type (bc_state b) SettingsType of
        Err e \<Rightarrow> Some (Done (Err e), b)
      | Ok _ \<Rightarrow> do {
          body \<leftarrow> settings_encode (bs_local_settings (bc_state b));
          (x, w) \<leftarrow> send_frame_raw ops (bc_send b) SettingsType (settings_slice body);
          let b = b\<lparr>bc_send := w\<rparr>;
          Some (case x of
              Cancelled \<Rightarrow> (Cancelled, b)
            | Done (Err e) \<Rightarrow> (Done (Err (BootstrapFrame e)), b)
            | Done (Ok _) \<Rightarrow>
              (case mark_local_settings_sent (bc_state b) of (y, st) \<Rightarrow> (Done y, b\<lparr>bc_state := st\<rparr>))) })"

definition receive_peer_settings ::
  "(nat \<Rightarrow> bool) \<Rightarrow> 'r recv_ops \<Rightarrow> ('w, 'r) bootstrap_control \<Rightarrow>
     (unit, profile_bootstrap_error) result awaited \<times> ('w, 'r) bootstrap_control" where
  "receive_peer_settings alloc ops b =
     (case receive_frame_type ops (bc_recv b) of
        (Cancelled, r) \<Rightarrow> (Cancelled, b\<lparr>bc_recv := r\<rparr>)
      | (Done (Err e), r) \<Rightarrow> (Done (Err (BootstrapFrame e)), b\<lparr>bc_recv := r\<rparr>)
      | (Done (Ok t), r) \<Rightarrow>
        (case validate_inbound_type (bc_state b) t of
           Err e \<Rightarrow> (Done (Err e), b\<lparr>bc_recv := r\<rparr>)
         | Ok _ \<Rightarrow>
           (case receive_frame_body alloc ops r t
                   (se_max_control_frame_bytes (bs_local_settings (bc_state b)))
                   (se_max_negotiation_frame_bytes (bs_local_settings (bc_state b))) of
              (Cancelled, r) \<Rightarrow> (Cancelled, b\<lparr>bc_recv := r\<rparr>)
            | (Done (Err e), r) \<Rightarrow> (Done (Err (BootstrapFrame e)), b\<lparr>bc_recv := r\<rparr>)
            | (Done (Ok f), r) \<Rightarrow>
              (case settings_decode (cf_body f) of
                 Err e \<Rightarrow> (Done (Err (BootstrapSettings e)), b\<lparr>bc_recv := r\<rparr>)
               | Ok s \<Rightarrow>
                 (case receive_settings (bc_state b) s of
                    (y, st) \<Rightarrow> (Done y, b\<lparr>bc_recv := r, bc_state := st\<rparr>))))))"

record ('w, 'r) profile_ready =
  pr_side :: wire_side
  pr_peer_settings :: settings
  pr_sender :: "'w control_sender"
  pr_receiver :: "'r control_receiver"

definition into_ready_parts :: "wire_side \<Rightarrow> ('w, 'r) bootstrap_control \<Rightarrow> ('w, 'r) profile_ready exec" where
  "into_ready_parts side b = do {
     peer \<leftarrow> bs_peer_settings (bc_state b);
     let local = bs_local_settings (bc_state b);
     Some \<lparr>pr_side = side, pr_peer_settings = peer,
       pr_sender = \<lparr>ct_send = bc_send b, ct_local_settings = local, ct_peer_settings = peer, ct_io_state = Clean\<rparr>,
       pr_receiver = \<lparr>cr_recv = bc_recv b, cr_local_settings = local, cr_io_state = Clean\<rparr>\<rparr> }"

text \<open>
  \<open>bootstrap_client_control\<close> and \<open>bootstrap_server_control\<close> differ in the side they require and in
  how they get the stream: \<open>opened\<close> is the outcome of \<open>open_bi\<close> or \<open>accept_bi\<close>.
\<close>

definition bootstrap_control_with ::
  "wire_side \<Rightarrow> (nat \<Rightarrow> bool) \<Rightarrow> 'w send_ops \<Rightarrow> 'r recv_ops \<Rightarrow> wire_side \<Rightarrow>
     ('w \<times> 'r, connection_error) result awaited \<Rightarrow> ('r \<Rightarrow> bool) \<Rightarrow> settings \<Rightarrow>
     (('w, 'r) profile_ready, profile_bootstrap_error) result awaited exec" where
  "bootstrap_control_with expected alloc sops rops side opened is_0rtt local =
     (if side \<noteq> expected then Some (Done (Err (WrongQuicSide expected side)))
      else case opened of
        Cancelled \<Rightarrow> Some Cancelled
      | Done (Err e) \<Rightarrow> Some (Done (Err (BootstrapConnection e)))
      | Done (Ok (send, recv)) \<Rightarrow>
        if is_0rtt recv then Some (Done (Err ZeroRttControlStream))
        else do {
          (x, b) \<leftarrow> send_local_settings sops
            \<lparr>bc_send = send, bc_recv = recv, bc_state = bootstrap_state_new local\<rparr>;
          (case x of
             Cancelled \<Rightarrow> Some Cancelled
           | Done (Err e) \<Rightarrow> Some (Done (Err e))
           | Done (Ok _) \<Rightarrow>
             (case receive_peer_settings alloc rops b of
                (Cancelled, _) \<Rightarrow> Some Cancelled
              | (Done (Err e), _) \<Rightarrow> Some (Done (Err e))
              | (Done (Ok _), b) \<Rightarrow> do {
                  ready \<leftarrow> into_ready_parts side b;
                  Some (Done (Ok ready)) })) })"

definition bootstrap_client_control ::
  "(nat \<Rightarrow> bool) \<Rightarrow> 'w send_ops \<Rightarrow> 'r recv_ops \<Rightarrow> wire_side \<Rightarrow>
     ('w \<times> 'r, connection_error) result awaited \<Rightarrow> ('r \<Rightarrow> bool) \<Rightarrow> settings \<Rightarrow>
     (('w, 'r) profile_ready, profile_bootstrap_error) result awaited exec" where
  "bootstrap_client_control = bootstrap_control_with Client"

definition bootstrap_server_control ::
  "(nat \<Rightarrow> bool) \<Rightarrow> 'w send_ops \<Rightarrow> 'r recv_ops \<Rightarrow> wire_side \<Rightarrow>
     ('w \<times> 'r, connection_error) result awaited \<Rightarrow> ('r \<Rightarrow> bool) \<Rightarrow> settings \<Rightarrow>
     (('w, 'r) profile_ready, profile_bootstrap_error) result awaited exec" where
  "bootstrap_server_control = bootstrap_control_with Server"

end
