(* ===== verification/Exchange_Codec.thy ===== *)
theory Exchange_Codec
  imports Control_Stream Negotiation
begin

text \<open>
  The bodies of the negotiation frames, \<open>crates/runen-net-quic/src/negotiation.rs\<close>: offers, proposals
  and failure outcomes in bytes, with the budget that bounds what a peer can make the decoder hold.
  Which reservations succeed is an argument, of the size when a body is written and of the position
  and the number of items when one is read.
\<close>

datatype negotiation_outcome =
    OutMalformedOffer
  | OutProtocolIncompatible
  | OutRequiredCapabilityUnavailable
  | OutRequiredSchemaUnavailable
  | OutResourceLimitExceeded
  | OutInvalidSelection

datatype negotiation_wire_error =
    NegotiationVarInt varint_decode_error
  | NegotiationTruncated
  | NegotiationTrailingBytes
  | UnknownRequirementLevel u8
  | UnknownFailureOutcome u64

datatype body_decode_error = DecodeProtocol negotiation_wire_error | DecodeFailure negotiation_outcome

definition outcome_wire :: "negotiation_outcome \<Rightarrow> u64" where
  "outcome_wire out =
     (case out of OutMalformedOffer \<Rightarrow> 0 | OutProtocolIncompatible \<Rightarrow> 1 | OutRequiredCapabilityUnavailable \<Rightarrow> 2
                | OutRequiredSchemaUnavailable \<Rightarrow> 3 | OutResourceLimitExceeded \<Rightarrow> 4 | OutInvalidSelection \<Rightarrow> 5)"

definition outcome_from_wire :: "u64 \<Rightarrow> (negotiation_outcome, negotiation_wire_error) result" where
  "outcome_from_wire v =
     (if v = 0 then Ok OutMalformedOffer else if v = 1 then Ok OutProtocolIncompatible
      else if v = 2 then Ok OutRequiredCapabilityUnavailable else if v = 3 then Ok OutRequiredSchemaUnavailable
      else if v = 4 then Ok OutResourceLimitExceeded else if v = 5 then Ok OutInvalidSelection
      else Err (UnknownFailureOutcome v))"

text \<open>The operator \<open>?\<close> in a computation that may panic.\<close>

definition try_bind :: "('a, 'e) result exec \<Rightarrow> ('a \<Rightarrow> ('b, 'e) result exec) \<Rightarrow> ('b, 'e) result exec" where
  "try_bind m k = (case m of None \<Rightarrow> None | Some (Err e) \<Rightarrow> Some (Err e) | Some (Ok v) \<Rightarrow> k v)"

lemma try_bind_simps [simp]:
  "try_bind None k = None" "try_bind (Some (Err e)) k = Some (Err e)" "try_bind (Some (Ok v)) k = k v"
  by (simp_all add: try_bind_def)

section \<open>Writing\<close>

definition count_len :: "nat \<Rightarrow> nat option exec" where
  "count_len count =
     (case usize_to_u64 count of
        None \<Rightarrow> Some None
      | Some v \<Rightarrow> (case encode_varint v of
          None \<Rightarrow> None
        | Some (Err _) \<Rightarrow> Some None
        | Some (Ok e) \<Rightarrow> Some (Some (vi_len e))))"

definition add_mul :: "nat \<Rightarrow> nat \<Rightarrow> nat \<Rightarrow> nat option" where
  "add_mul tot count width = Option.bind (checked_mul count width) (checked_add tot)"

text \<open>A step of a length: the length of a count is added to the sum so far.\<close>

definition add_count :: "nat \<Rightarrow> nat \<Rightarrow> nat option exec" where
  "add_count tot count = map_option (\<lambda>n. Option.bind n (checked_add tot)) (count_len count)"

definition opt_bind :: "nat option exec \<Rightarrow> (nat \<Rightarrow> nat option exec) \<Rightarrow> nat option exec" where
  "opt_bind m k = (case m of None \<Rightarrow> None | Some None \<Rightarrow> Some None | Some (Some n) \<Rightarrow> k n)"

lemma opt_bind_simps [simp]:
  "opt_bind None k = None" "opt_bind (Some None) k = Some None" "opt_bind (Some (Some n)) k = k n"
  by (simp_all add: opt_bind_def)

fun contracts_body_len :: "nat \<Rightarrow> schema_contract_offer list \<Rightarrow> nat option exec" where
  "contracts_body_len tot [] = Some (Some tot)"
| "contracts_body_len tot (c # cs) =
     opt_bind (Some (checked_add tot 16)) (\<lambda>tot.
     opt_bind (add_count tot (length (sco_codecs c))) (\<lambda>tot.
     opt_bind (Some (add_mul tot (length (sco_codecs c)) 16)) (\<lambda>tot.
     contracts_body_len tot cs)))"

fun schemas_body_len :: "nat \<Rightarrow> schema_offer list \<Rightarrow> nat option exec" where
  "schemas_body_len tot [] = Some (Some tot)"
| "schemas_body_len tot (s # ss) =
     opt_bind (Some (checked_add tot 17)) (\<lambda>tot.
     opt_bind (add_count tot (length (so_contracts s))) (\<lambda>tot.
     opt_bind (contracts_body_len tot (so_contracts s)) (\<lambda>tot.
     schemas_body_len tot ss)))"

definition offer_body_len :: "compatibility_offer \<Rightarrow> nat option exec" where
  "offer_body_len off =
     opt_bind (count_len (length (off_protocols off))) (\<lambda>tot.
     opt_bind (Some (add_mul tot (length (off_protocols off)) 32)) (\<lambda>tot.
     opt_bind (add_count tot (length (off_capabilities off))) (\<lambda>tot.
     opt_bind (Some (add_mul tot (length (off_capabilities off)) 17)) (\<lambda>tot.
     opt_bind (add_count tot (length (off_schemas off))) (\<lambda>tot.
     schemas_body_len tot (off_schemas off))))))"

definition proposal_body_len :: "negotiated_contract \<Rightarrow> nat option exec" where
  "proposal_body_len c =
     opt_bind (add_count 32 (fcard (nc_capabilities c))) (\<lambda>tot.
     opt_bind (Some (add_mul tot (fcard (nc_capabilities c)) 16)) (\<lambda>tot.
     opt_bind (add_count tot (fm_len (nc_schemas c))) (\<lambda>tot.
     Some (add_mul tot (fm_len (nc_schemas c)) 48))))"

definition ensure_body_fits :: "nat \<Rightarrow> u64 \<Rightarrow> (unit, negotiation_outcome) result" where
  "ensure_body_fits n limit =
     (case usize_to_u64 n of
        None \<Rightarrow> Err OutResourceLimitExceeded
      | Some v \<Rightarrow> if v > limit then Err OutResourceLimitExceeded else Ok ())"

record negotiation_writer =
  nw_body :: bytes
  nw_expected_len :: nat

definition negotiation_writer_new :: "(nat \<Rightarrow> bool) \<Rightarrow> nat \<Rightarrow> (negotiation_writer, negotiation_outcome) result" where
  "negotiation_writer_new alloc n =
     (if alloc n then Ok \<lparr>nw_body = [], nw_expected_len = n\<rparr> else Err OutResourceLimitExceeded)"

definition push_byte :: "u8 \<Rightarrow> negotiation_writer \<Rightarrow> negotiation_writer" where
  "push_byte v w = w\<lparr>nw_body := nw_body w @ [v]\<rparr>"

definition push_id :: "u128 \<Rightarrow> negotiation_writer \<Rightarrow> negotiation_writer" where
  "push_id v w = w\<lparr>nw_body := nw_body w @ be_bytes 16 v\<rparr>"

definition push_count :: "nat \<Rightarrow> negotiation_writer \<Rightarrow> (negotiation_writer, negotiation_outcome) result exec" where
  "push_count count w =
     (case usize_to_u64 count of
        None \<Rightarrow> Some (Err OutResourceLimitExceeded)
      | Some v \<Rightarrow> (case encode_varint v of
          None \<Rightarrow> None
        | Some (Err _) \<Rightarrow> Some (Err OutResourceLimitExceeded)
        | Some (Ok e) \<Rightarrow> Some (Ok (w\<lparr>nw_body := nw_body w @ varint_slice e\<rparr>))))"

definition encode_requirement :: "requirement_level \<Rightarrow> u8" where
  "encode_requirement q = (case q of Optional \<Rightarrow> 0 | Required \<Rightarrow> 1)"

fun push_contracts ::
  "schema_contract_offer list \<Rightarrow> negotiation_writer \<Rightarrow> (negotiation_writer, negotiation_outcome) result exec" where
  "push_contracts [] w = Some (Ok w)"
| "push_contracts (c # cs) w =
     try_bind (push_count (length (sco_codecs c)) (push_id (schema_contract_id_get (sco_contract_id c)) w)) (\<lambda>w.
     push_contracts cs (fold (\<lambda>x. push_id (codec_id_get x)) (sco_codecs c) w))"

fun push_schemas ::
  "schema_offer list \<Rightarrow> negotiation_writer \<Rightarrow> (negotiation_writer, negotiation_outcome) result exec" where
  "push_schemas [] w = Some (Ok w)"
| "push_schemas (s # ss) w =
     try_bind (push_count (length (so_contracts s))
       (push_byte (encode_requirement (so_requirement s)) (push_id (schema_id_get (so_id s)) w))) (\<lambda>w.
     try_bind (push_contracts (so_contracts s) w) (\<lambda>w. push_schemas ss w))"

definition write_offer ::
  "compatibility_offer \<Rightarrow> negotiation_writer \<Rightarrow> (negotiation_writer, negotiation_outcome) result exec" where
  "write_offer off w =
     try_bind (push_count (length (off_protocols off)) w) (\<lambda>w.
     try_bind (push_count (length (off_capabilities off))
       (fold (\<lambda>p w. push_id (protocol_revision_get (pc_revision p)) (push_id (protocol_id_get (pc_id p)) w))
          (off_protocols off) w)) (\<lambda>w.
     try_bind (push_count (length (off_schemas off))
       (fold (\<lambda>c w. push_byte (encode_requirement (co_requirement c)) (push_id (capability_id_get (co_id c)) w))
          (off_capabilities off) w)) (push_schemas (off_schemas off))))"

definition negotiation_writer_finish :: "negotiation_writer \<Rightarrow> bytes exec" where
  "negotiation_writer_finish w = (if length (nw_body w) = nw_expected_len w then Some (nw_body w) else None)"

text \<open>What is common to both encoders: the length is computed, checked and reserved before anything is written.\<close>

definition encode_sized ::
  "(nat \<Rightarrow> bool) \<Rightarrow> nat option exec \<Rightarrow> u64 \<Rightarrow>
     (negotiation_writer \<Rightarrow> (negotiation_writer, negotiation_outcome) result exec) \<Rightarrow>
     (bytes, negotiation_outcome) result exec" where
  "encode_sized alloc body_len max_body write =
     (case body_len of
        None \<Rightarrow> None
      | Some None \<Rightarrow> Some (Err OutResourceLimitExceeded)
      | Some (Some n) \<Rightarrow>
        try_bind (Some (ensure_body_fits n max_body)) (\<lambda>_.
        try_bind (Some (negotiation_writer_new alloc n)) (\<lambda>w.
        try_bind (write w) (\<lambda>w. map_option Ok (negotiation_writer_finish w)))))"

definition encode_offer ::
  "(nat \<Rightarrow> bool) \<Rightarrow> compatibility_offer \<Rightarrow> u64 \<Rightarrow> (bytes, negotiation_outcome) result exec" where
  "encode_offer alloc off max_body =
     (if off_diagnostic_label off \<noteq> None then Some (Err OutMalformedOffer)
      else encode_sized alloc (offer_body_len off) max_body (write_offer off))"

text \<open>
  The order in which the hash set and the hash map of a contract are iterated is an argument.
\<close>

type_synonym contract_order = "capability_id list \<times> (schema_id \<times> selected_schema) list"

definition write_proposal ::
  "contract_order \<Rightarrow> negotiated_contract \<Rightarrow> negotiation_writer \<Rightarrow>
     (negotiation_writer, negotiation_outcome) result exec" where
  "write_proposal order c w =
     try_bind (push_count (fcard (nc_capabilities c))
       (push_id (protocol_revision_get (pc_revision (nc_protocol c)))
          (push_id (protocol_id_get (pc_id (nc_protocol c))) w))) (\<lambda>w.
     try_bind (push_count (fm_len (nc_schemas c))
       (fold (\<lambda>i. push_id (capability_id_get i)) (fst order) w)) (\<lambda>w.
     Some (Ok (fold (\<lambda>(i, b) w. push_id (codec_id_get (sel_codec_id b))
          (push_id (schema_contract_id_get (sel_contract_id b)) (push_id (schema_id_get i) w)))
        (snd order) w))))"

definition encode_proposal ::
  "(nat \<Rightarrow> bool) \<Rightarrow> contract_order \<Rightarrow> negotiated_contract \<Rightarrow> u64 \<Rightarrow>
     (bytes, negotiation_outcome) result exec" where
  "encode_proposal alloc order c max_body =
     encode_sized alloc (proposal_body_len c) max_body (write_proposal order c)"

section \<open>Reading\<close>

record negotiation_reader =
  ng_input :: bytes
  ng_offset :: nat

definition negotiation_reader_new :: "bytes \<Rightarrow> negotiation_reader" where
  "negotiation_reader_new input = \<lparr>ng_input = input, ng_offset = 0\<rparr>"

definition read_byte :: "negotiation_reader \<Rightarrow> (u8 \<times> negotiation_reader, negotiation_wire_error) result" where
  "read_byte r =
     (if ng_offset r < length (ng_input r)
      then Ok (ng_input r ! ng_offset r, r\<lparr>ng_offset := ng_offset r + 1\<rparr>)
      else Err NegotiationTruncated)"

definition read_id :: "negotiation_reader \<Rightarrow> (u128 \<times> negotiation_reader, negotiation_wire_error) result" where
  "read_id r =
     (case checked_add (ng_offset r) 16 of
        None \<Rightarrow> Err NegotiationTruncated
      | Some stop \<Rightarrow>
        if stop \<le> length (ng_input r)
        then Ok (word_of_nat (be_value (take 16 (drop (ng_offset r) (ng_input r)))), r\<lparr>ng_offset := stop\<rparr>)
        else Err NegotiationTruncated)"

definition read_varint :: "negotiation_reader \<Rightarrow> (u64 \<times> negotiation_reader, negotiation_wire_error) result" where
  "read_varint r =
     (if ng_offset r \<le> length (ng_input r) then
        (case decode_varint (drop (ng_offset r) (ng_input r)) of
           Err e \<Rightarrow> Err (NegotiationVarInt e)
         | Ok (v, consumed) \<Rightarrow> Ok (v, r\<lparr>ng_offset := ng_offset r + consumed\<rparr>))
      else Err NegotiationTruncated)"

definition decode_requirement :: "u8 \<Rightarrow> (requirement_level, negotiation_wire_error) result" where
  "decode_requirement v =
     (if v = 0 then Ok Optional else if v = 1 then Ok Required else Err (UnknownRequirementLevel v))"

definition read_requirement ::
  "negotiation_reader \<Rightarrow> (requirement_level \<times> negotiation_reader, negotiation_wire_error) result" where
  "read_requirement r =
     result_bind (read_byte r) (\<lambda>(b, r). result_bind (decode_requirement b) (\<lambda>q. Ok (q, r)))"

definition read_bounded_count ::
  "negotiation_reader \<Rightarrow> nat \<Rightarrow> negotiation_outcome \<Rightarrow> (nat \<times> negotiation_reader, body_decode_error) result" where
  "read_bounded_count r limit exceeded =
     result_bind (map_err DecodeProtocol (read_varint r)) (\<lambda>(count, r).
     if count > (case usize_to_u64 limit of Some l \<Rightarrow> l | None \<Rightarrow> -1) then Err (DecodeFailure exceeded)
     else case u64_to_usize count of None \<Rightarrow> Err (DecodeFailure exceeded) | Some n \<Rightarrow> Ok (n, r))"

definition negotiation_reader_finish :: "negotiation_reader \<Rightarrow> (unit, negotiation_wire_error) result" where
  "negotiation_reader_finish r =
     (if ng_offset r = length (ng_input r) then Ok () else Err NegotiationTrailingBytes)"

record decode_budget =
  db_used :: nat
  db_limit :: nat
  db_exceeded :: negotiation_outcome

definition charge_bytes :: "nat \<Rightarrow> decode_budget \<Rightarrow> (decode_budget, body_decode_error) result" where
  "charge_bytes n b =
     (case checked_add (db_used b) n of
        None \<Rightarrow> Err (DecodeFailure (db_exceeded b))
      | Some after \<Rightarrow> if after > db_limit b then Err (DecodeFailure (db_exceeded b)) else Ok (b\<lparr>db_used := after\<rparr>))"

definition charge_items :: "nat \<Rightarrow> nat \<Rightarrow> decode_budget \<Rightarrow> (decode_budget, body_decode_error) result" where
  "charge_items count width b =
     (case checked_mul count width of
        None \<Rightarrow> Err (DecodeFailure (db_exceeded b))
      | Some n \<Rightarrow> charge_bytes n b)"

text \<open>\<open>reserve_vec\<close>, at the position of the reader.\<close>

definition reserve_vec :: "(nat \<Rightarrow> nat \<Rightarrow> bool) \<Rightarrow> negotiation_reader \<Rightarrow> nat \<Rightarrow> (unit, body_decode_error) result" where
  "reserve_vec alloc r count =
     (if alloc (ng_offset r) count then Ok () else Err (DecodeFailure OutResourceLimitExceeded))"

text \<open>The readers that follow keep the reader and the budget together.\<close>

type_synonym decode_state = "negotiation_reader \<times> decode_budget"
type_synonym 'a decoder = "decode_state \<Rightarrow> ('a \<times> decode_state, body_decode_error) result"

definition on_reader ::
  "(negotiation_reader \<Rightarrow> ('a \<times> negotiation_reader, negotiation_wire_error) result) \<Rightarrow> 'a decoder" where
  "on_reader f s = result_bind (map_err DecodeProtocol (f (fst s))) (\<lambda>(x, r). Ok (x, r, snd s))"

text \<open>The loop \<open>for _ in 0..n { xs.push(read()?) }\<close>.\<close>

primrec read_items :: "'a decoder \<Rightarrow> nat \<Rightarrow> 'a list decoder" where
  "read_items f 0 s = Ok ([], s)"
| "read_items f (Suc n) s =
     result_bind (f s) (\<lambda>(x, s). result_bind (read_items f n s) (\<lambda>(xs, s). Ok (x # xs, s)))"

text \<open>A count, charged and reserved before its items are read.\<close>

definition read_count :: "(nat \<Rightarrow> nat \<Rightarrow> bool) \<Rightarrow> nat \<Rightarrow> nat \<Rightarrow> nat decoder" where
  "read_count alloc limit width s =
     result_bind (read_bounded_count (fst s) limit (db_exceeded (snd s))) (\<lambda>(n, r).
     result_bind (charge_items n width (snd s)) (\<lambda>b.
     result_bind (reserve_vec alloc r n) (\<lambda>_. Ok (n, r, b))))"

definition read_list :: "(nat \<Rightarrow> nat \<Rightarrow> bool) \<Rightarrow> nat \<Rightarrow> nat \<Rightarrow> 'a decoder \<Rightarrow> 'a list decoder" where
  "read_list alloc limit width f s =
     result_bind (read_count alloc limit width s) (\<lambda>(n, s). read_items f n s)"

definition read_protocol :: "protocol_contract decoder" where
  "read_protocol s =
     result_bind (on_reader read_id s) (\<lambda>(i, s).
     result_bind (on_reader read_id s) (\<lambda>(v, s).
     Ok (\<lparr>pc_id = ProtocolId i, pc_revision = ProtocolRevision v\<rparr>, s)))"

definition read_capability :: "capability_offer decoder" where
  "read_capability s =
     result_bind (on_reader read_id s) (\<lambda>(i, s).
     result_bind (on_reader read_requirement s) (\<lambda>(q, s).
     Ok (\<lparr>co_id = CapabilityId i, co_requirement = q\<rparr>, s)))"

definition read_codec :: "codec_id decoder" where
  "read_codec s = result_bind (on_reader read_id s) (\<lambda>(i, s). Ok (CodecId i, s))"

definition read_contract :: "(nat \<Rightarrow> nat \<Rightarrow> bool) \<Rightarrow> offer_limits \<Rightarrow> schema_contract_offer decoder" where
  "read_contract alloc l s =
     result_bind (on_reader read_id s) (\<lambda>(i, s).
     result_bind (read_list alloc (lim_codecs_per_contract l) 16 read_codec s) (\<lambda>(xs, s).
     Ok (\<lparr>sco_contract_id = SchemaContractId i, sco_codecs = xs\<rparr>, s)))"

definition read_schema :: "(nat \<Rightarrow> nat \<Rightarrow> bool) \<Rightarrow> offer_limits \<Rightarrow> schema_offer decoder" where
  "read_schema alloc l s =
     result_bind (on_reader read_id s) (\<lambda>(i, s).
     result_bind (on_reader read_requirement s) (\<lambda>(q, s).
     result_bind (read_list alloc (lim_contracts_per_schema l) 16 (read_contract alloc l) s) (\<lambda>(cs, s).
     Ok (\<lparr>so_id = SchemaId i, so_requirement = q, so_contracts = cs\<rparr>, s))))"

definition decode_start :: "bytes \<Rightarrow> offer_limits \<Rightarrow> negotiation_outcome \<Rightarrow> decode_state" where
  "decode_start input l out = (negotiation_reader_new input,
     \<lparr>db_used = 0, db_limit = lim_offer_accounted_bytes l, db_exceeded = out\<rparr>)"

definition decode_offer ::
  "(nat \<Rightarrow> nat \<Rightarrow> bool) \<Rightarrow> bytes \<Rightarrow> offer_limits \<Rightarrow> (compatibility_offer, body_decode_error) result" where
  "decode_offer alloc input l =
     result_bind (read_list alloc (lim_protocols l) 32 read_protocol (decode_start input l OutMalformedOffer)) (\<lambda>(ps, s).
     result_bind (read_list alloc (lim_capabilities l) 17 read_capability s) (\<lambda>(cs, s).
     result_bind (read_list alloc (lim_schemas l) 17 (read_schema alloc l) s) (\<lambda>(ss, s).
     result_bind (map_err DecodeProtocol (negotiation_reader_finish (fst s))) (\<lambda>_.
     Ok \<lparr>off_protocols = ps, off_capabilities = cs, off_schemas = ss, off_diagnostic_label = None\<rparr>))))"

primrec read_capability_ids :: "nat \<Rightarrow> capability_id list \<Rightarrow> capability_id list decoder" where
  "read_capability_ids 0 seen s = Ok (seen, s)"
| "read_capability_ids (Suc n) seen s =
     result_bind (on_reader read_id s) (\<lambda>(i, s).
     if CapabilityId i \<in> set seen then Err (DecodeFailure OutInvalidSelection)
     else read_capability_ids n (seen @ [CapabilityId i]) s)"

definition read_selected :: "selected_schema decoder" where
  "read_selected s =
     result_bind (on_reader read_id s) (\<lambda>(k, s).
     result_bind (on_reader read_id s) (\<lambda>(x, s).
     Ok (\<lparr>sel_contract_id = SchemaContractId k, sel_codec_id = CodecId x\<rparr>, s)))"

primrec read_bindings ::
  "nat \<Rightarrow> (schema_id \<times> selected_schema) list \<Rightarrow> (schema_id \<times> selected_schema) list decoder" where
  "read_bindings 0 seen s = Ok (seen, s)"
| "read_bindings (Suc n) seen s =
     result_bind (on_reader read_id s) (\<lambda>(i, s).
     if SchemaId i \<in> set (map fst seen) then Err (DecodeFailure OutInvalidSelection)
     else result_bind (read_selected s) (\<lambda>(b, s). read_bindings n (seen @ [(SchemaId i, b)]) s))"

definition read_proposal ::
  "(nat \<Rightarrow> nat \<Rightarrow> bool) \<Rightarrow> offer_limits \<Rightarrow>
     (protocol_contract \<times> capability_id list \<times> (schema_id \<times> selected_schema) list) decoder" where
  "read_proposal alloc l s =
     result_bind (read_protocol s) (\<lambda>(p, s).
     result_bind (charge_bytes 32 (snd s)) (\<lambda>b.
     result_bind (read_count alloc (lim_capabilities l) 16 (fst s, b)) (\<lambda>(n, s).
     result_bind (read_capability_ids n [] s) (\<lambda>(cs, s).
     result_bind (read_count alloc (lim_schemas l) 48 s) (\<lambda>(n, s).
     result_bind (read_bindings n [] s) (\<lambda>(bs, s).
     result_bind (map_err DecodeProtocol (negotiation_reader_finish (fst s))) (\<lambda>_.
     Ok ((p, cs, bs), s))))))))"

text \<open>
  The contract is built from what was read; \<open>None\<close> is the panic of its \<open>expect\<close> or of its
  \<open>debug_assert\<close>.
\<close>

fun enable_all :: "capability_id list \<Rightarrow> negotiated_contract \<Rightarrow> negotiated_contract exec" where
  "enable_all [] c = Some c"
| "enable_all (i # ids) c = (case enable_capability c i of (inserted, c) \<Rightarrow> if inserted then enable_all ids c else None)"

fun bind_schemas :: "(schema_id \<times> selected_schema) list \<Rightarrow> negotiated_contract \<Rightarrow> negotiated_contract exec" where
  "bind_schemas [] c = Some c"
| "bind_schemas ((i, b) # bs) c = (case bind_schema c i b of (Ok _, c) \<Rightarrow> bind_schemas bs c | (Err _, _) \<Rightarrow> None)"

definition decode_proposal ::
  "(nat \<Rightarrow> nat \<Rightarrow> bool) \<Rightarrow> bytes \<Rightarrow> offer_limits \<Rightarrow> (negotiated_contract, body_decode_error) result exec" where
  "decode_proposal alloc input l =
     (case read_proposal alloc l (decode_start input l OutResourceLimitExceeded) of
        Err e \<Rightarrow> Some (Err e)
      | Ok ((p, cs, bs), _) \<Rightarrow>
        (case enable_all cs (contract_new p) of None \<Rightarrow> None | Some c \<Rightarrow> map_option Ok (bind_schemas bs c)))"

definition decode_failure :: "bytes \<Rightarrow> (negotiation_outcome, negotiation_wire_error) result" where
  "decode_failure input =
     result_bind (read_varint (negotiation_reader_new input)) (\<lambda>(v, r).
     result_bind (outcome_from_wire v) (\<lambda>out.
     result_bind (negotiation_reader_finish r) (\<lambda>_. Ok out)))"

end
