(* ===== verification/Exchange.thy ===== *)
theory Exchange
  imports Exchange_Codec
begin

text \<open>
  One negotiation over the control stream, \<open>NegotiationExchange\<close> of
  \<open>crates/runen-net-quic/src/negotiation.rs\<close>: the state machine that drives the core's manager with the
  frames of the peer, and that takes back what it started when it fails.
\<close>

datatype negotiation_state =
    NxReady
  | NxAwaitingPeerOffer
  | NxAwaitingAuthoritySelection
  | NxAwaitingProposal
  | NxAwaitingValidated
  | NxAwaitingEstablished
  | NxEstablished
  | NxFailed

datatype negotiation_protocol_error =
    NxUnexpectedFrame negotiation_state control_frame_type
  | UnexpectedLocalOperation negotiation_state
  | WrongLocalRole semantic_role semantic_role
  | NonEmptyAcknowledgement control_frame_type
  | NxWire negotiation_wire_error

datatype negotiation_control_error =
    ProfileProtocol negotiation_protocol_error
  | LocalFailure negotiation_outcome "control_frame option"
  | ManagerState manager_error
  | UnexpectedCoreStatus negotiation_status

datatype negotiation_progress =
    NxWaiting
  | AuthoritySelectionRequired
  | NxSend control_frame
  | NxDone
  | RemoteFailed negotiation_outcome

record negotiation_exchange =
  nx_connection :: connection_handle
  nx_role :: semantic_role
  nx_max_negotiation_frame_bytes :: u64
  nx_state :: negotiation_state
  nx_local_offer :: "compatibility_offer option"
  nx_manager_owned :: bool

text \<open>Which reservations succeed: for a body, for the items read, and for the report of a failure.\<close>

record exchange_allocs =
  xa_body :: "nat \<Rightarrow> bool"
  xa_items :: "nat \<Rightarrow> nat \<Rightarrow> bool"
  xa_report :: bool

type_synonym 'a exchange_op =
  "(('a, negotiation_control_error) result \<times> negotiation_exchange \<times> negotiation_manager) exec"

definition exchange_from_profile :: "connection_handle \<Rightarrow> settings \<Rightarrow> settings \<Rightarrow> negotiation_exchange" where
  "exchange_from_profile c l p = \<lparr>nx_connection = c, nx_role = se_semantic_role l,
     nx_max_negotiation_frame_bytes = min (se_max_negotiation_frame_bytes l) (se_max_negotiation_frame_bytes p),
     nx_state = NxReady, nx_local_offer = None, nx_manager_owned = False\<rparr>"

section \<open>Failing\<close>

definition failure_frame :: "bool \<Rightarrow> negotiation_outcome \<Rightarrow> control_frame option" where
  "failure_frame alloc out =
     (if alloc then Some \<lparr>cf_type = NegotiationFailedType, cf_body = [ucast (outcome_wire out)]\<rparr> else None)"

definition release_manager ::
  "negotiation_exchange \<Rightarrow> negotiation_manager \<Rightarrow>
     ((unit, manager_error) result \<times> negotiation_exchange \<times> negotiation_manager) exec" where
  "release_manager x m =
     (if \<not> nx_manager_owned x then Some (Ok (), x, m)
      else case manager_terminate m (nx_connection x) of
        None \<Rightarrow> None
      | Some (r, m) \<Rightarrow> Some (result_bind r (\<lambda>_. Ok ()), x\<lparr>nx_manager_owned := False\<rparr>, m))"

text \<open>What every failure does first: the offer is dropped, the state is final, the manager is released.\<close>

definition fail_with ::
  "negotiation_control_error \<Rightarrow> negotiation_exchange \<Rightarrow> negotiation_manager \<Rightarrow> 'a exchange_op" where
  "fail_with e x m =
     (case release_manager (x\<lparr>nx_local_offer := None, nx_state := NxFailed\<rparr>) m of
        None \<Rightarrow> None
      | Some (Err c, x, m) \<Rightarrow> Some (Err (ManagerState c), x, m)
      | Some (Ok _, x, m) \<Rightarrow> Some (Err e, x, m))"

definition fail_local ::
  "exchange_allocs \<Rightarrow> negotiation_exchange \<Rightarrow> negotiation_manager \<Rightarrow> negotiation_outcome \<Rightarrow> 'a exchange_op" where
  "fail_local al x m out = fail_with (LocalFailure out (failure_frame (xa_report al) out)) x m"

definition fail_protocol ::
  "negotiation_exchange \<Rightarrow> negotiation_manager \<Rightarrow> negotiation_protocol_error \<Rightarrow> 'a exchange_op" where
  "fail_protocol x m e = fail_with (ProfileProtocol e) x m"

definition fail_unexpected_status ::
  "negotiation_exchange \<Rightarrow> negotiation_manager \<Rightarrow> negotiation_status \<Rightarrow> 'a exchange_op" where
  "fail_unexpected_status x m st = fail_with (UnexpectedCoreStatus st) x m"

definition fail_manager_state ::
  "negotiation_exchange \<Rightarrow> negotiation_manager \<Rightarrow> manager_error \<Rightarrow> 'a exchange_op" where
  "fail_manager_state x m e = fail_with (ManagerState e) x m"

definition manager_failure_outcome :: "manager_error \<Rightarrow> (negotiation_outcome, manager_error) result" where
  "manager_failure_outcome e =
     (case e of
        AttemptLimitExceeded \<Rightarrow> Ok OutResourceLimitExceeded
      | AggregateLimitExceeded \<Rightarrow> Ok OutResourceLimitExceeded
      | NegotiationFailed n \<Rightarrow> (case n of
          AuthorityOfferInvalid _ \<Rightarrow> Ok OutMalformedOffer
        | PeerOfferInvalid _ \<Rightarrow> Ok OutMalformedOffer
        | ProtocolIncompatible \<Rightarrow> Ok OutProtocolIncompatible
        | RequiredCapabilityUnavailable _ \<Rightarrow> Ok OutRequiredCapabilityUnavailable
        | RequiredSchemaUnavailable _ \<Rightarrow> Ok OutRequiredSchemaUnavailable
        | SelectionTooLarge \<Rightarrow> Ok OutResourceLimitExceeded
        | InvalidSelection \<Rightarrow> Ok OutInvalidSelection
        | AlreadyProposed \<Rightarrow> Err e
        | NoProposal \<Rightarrow> Err e
        | AlreadyEstablished \<Rightarrow> Err e)
      | ConnectionAlreadyKnown \<Rightarrow> Err e
      | UnknownConnection \<Rightarrow> Err e)"

definition fail_from_manager ::
  "exchange_allocs \<Rightarrow> negotiation_exchange \<Rightarrow> negotiation_manager \<Rightarrow> manager_error \<Rightarrow> 'a exchange_op" where
  "fail_from_manager al x m e =
     (case manager_failure_outcome e of
        Ok out \<Rightarrow> fail_local al x m out
      | Err e \<Rightarrow> fail_manager_state x m e)"

definition fail_decode ::
  "exchange_allocs \<Rightarrow> negotiation_exchange \<Rightarrow> negotiation_manager \<Rightarrow> body_decode_error \<Rightarrow> 'a exchange_op" where
  "fail_decode al x m e =
     (case e of DecodeProtocol w \<Rightarrow> fail_protocol x m (NxWire w) | DecodeFailure out \<Rightarrow> fail_local al x m out)"

definition exchange_abort ::
  "negotiation_exchange \<Rightarrow> negotiation_manager \<Rightarrow> unit exchange_op" where
  "exchange_abort x m =
     (case release_manager (x\<lparr>nx_local_offer := None, nx_state := NxFailed\<rparr>) m of
        None \<Rightarrow> None
      | Some (r, x, m) \<Rightarrow> Some (map_err ManagerState r, x, m))"

section \<open>Local operations\<close>

definition prepare_offer ::
  "exchange_allocs \<Rightarrow> negotiation_exchange \<Rightarrow> negotiation_manager \<Rightarrow> compatibility_offer \<Rightarrow>
     control_frame exchange_op" where
  "prepare_offer al x m off =
     (if nx_state x \<noteq> NxReady then fail_protocol x m (UnexpectedLocalOperation (nx_state x))
      else case offer_validate off (nm_offer_limits m) of
        Err _ \<Rightarrow> fail_local al x m OutMalformedOffer
      | Ok v \<Rightarrow>
        if off_diagnostic_label (vo_offer v) \<noteq> None then fail_local al x m OutMalformedOffer
        else case encode_offer (xa_body al) (vo_offer v) (nx_max_negotiation_frame_bytes x) of
          None \<Rightarrow> None
        | Some (Err out) \<Rightarrow> fail_local al x m out
        | Some (Ok body) \<Rightarrow>
            Some (Ok \<lparr>cf_type = NegotiationOfferType, cf_body = body\<rparr>,
              x\<lparr>nx_local_offer := Some (vo_offer v), nx_state := NxAwaitingPeerOffer\<rparr>, m))"

text \<open>
  The proposal is encoded from the manager's copy of the contract; the order in which its hash
  containers are iterated is an argument.
\<close>

definition encode_attempt ::
  "exchange_allocs \<Rightarrow> contract_order \<Rightarrow> negotiation_exchange \<Rightarrow> negotiation_manager \<Rightarrow>
     control_frame exchange_op" where
  "encode_attempt al order x m =
     (case manager_attempt_proposal m (nx_connection x) of
        Err e \<Rightarrow> fail_manager_state x m e
      | Ok c \<Rightarrow>
        (case encode_proposal (xa_body al) order c (nx_max_negotiation_frame_bytes x) of
           None \<Rightarrow> None
         | Some (Err out) \<Rightarrow> fail_local al x m out
         | Some (Ok body) \<Rightarrow>
             Some (Ok \<lparr>cf_type = NegotiationProposalType, cf_body = body\<rparr>, x\<lparr>nx_state := NxAwaitingValidated\<rparr>, m)))"

text \<open>A validation by one party that must lead to the given status.\<close>

definition validate_as ::
  "bool \<Rightarrow> negotiation_status \<Rightarrow> (negotiation_exchange \<Rightarrow> negotiation_manager \<Rightarrow> 'a exchange_op) \<Rightarrow>
     negotiation_exchange \<Rightarrow> negotiation_manager \<Rightarrow> 'a exchange_op" where
  "validate_as authority expected k x m =
     (case (if authority then manager_validate_authority m (nx_connection x)
            else manager_validate_peer m (nx_connection x)) of
        None \<Rightarrow> None
      | Some (Err e, m) \<Rightarrow> fail_manager_state x m e
      | Some (Ok st, m) \<Rightarrow> if st \<noteq> expected then fail_unexpected_status x m st else k x m)"

definition propose_authority ::
  "exchange_allocs \<Rightarrow> contract_order \<Rightarrow> negotiation_exchange \<Rightarrow> negotiation_manager \<Rightarrow>
     negotiated_contract \<Rightarrow> negotiation_requirements \<Rightarrow> control_frame exchange_op" where
  "propose_authority al order x m c req =
     (if nx_role x \<noteq> Authority then fail_protocol x m (WrongLocalRole Authority (nx_role x))
      else if nx_state x \<noteq> NxAwaitingAuthoritySelection
      then fail_protocol x m (UnexpectedLocalOperation (nx_state x))
      else case manager_propose m (nx_connection x) c req of
        None \<Rightarrow> None
      | Some (Err e, m) \<Rightarrow> fail_from_manager al x m e
      | Some (Ok _, m) \<Rightarrow> validate_as True (AwaitingValidation True False) (encode_attempt al order) x m)"

section \<open>Receiving\<close>

definition receive_offer ::
  "exchange_allocs \<Rightarrow> negotiation_exchange \<Rightarrow> negotiation_manager \<Rightarrow> bytes \<Rightarrow> negotiation_progress exchange_op" where
  "receive_offer al x m body =
     (case decode_offer (xa_items al) body (nm_offer_limits m) of
        Err e \<Rightarrow> fail_decode al x m e
      | Ok peer \<Rightarrow>
        (case nx_local_offer x of
           None \<Rightarrow> Some (Err (ProfileProtocol (UnexpectedLocalOperation (nx_state x))), x\<lparr>nx_state := NxFailed\<rparr>, m)
         | Some mine \<Rightarrow>
           let x = x\<lparr>nx_local_offer := None\<rparr>
           in case (if nx_role x = Authority then manager_start m (nx_connection x) mine peer
                    else manager_start m (nx_connection x) peer mine) of
                None \<Rightarrow> None
              | Some (Err e, m) \<Rightarrow> fail_from_manager al x m e
              | Some (Ok _, m) \<Rightarrow>
                  if nx_role x = Authority
                  then Some (Ok AuthoritySelectionRequired,
                    x\<lparr>nx_manager_owned := True, nx_state := NxAwaitingAuthoritySelection\<rparr>, m)
                  else Some (Ok NxWaiting, x\<lparr>nx_manager_owned := True, nx_state := NxAwaitingProposal\<rparr>, m)))"

definition receive_proposal ::
  "exchange_allocs \<Rightarrow> negotiation_exchange \<Rightarrow> negotiation_manager \<Rightarrow> negotiation_requirements \<Rightarrow> bytes \<Rightarrow>
     negotiation_progress exchange_op" where
  "receive_proposal al x m req body =
     (case decode_proposal (xa_items al) body (nm_offer_limits m) of
        None \<Rightarrow> None
      | Some (Err e) \<Rightarrow> fail_decode al x m e
      | Some (Ok c) \<Rightarrow>
        (case manager_propose m (nx_connection x) c req of
           None \<Rightarrow> None
         | Some (Err e, m) \<Rightarrow> fail_from_manager al x m e
         | Some (Ok _, m) \<Rightarrow>
             validate_as False (AwaitingValidation False True)
               (\<lambda>x m. Some (Ok (NxSend \<lparr>cf_type = NegotiationValidatedType, cf_body = []\<rparr>),
                  x\<lparr>nx_state := NxAwaitingEstablished\<rparr>, m)) x m))"

definition receive_validated ::
  "negotiation_exchange \<Rightarrow> negotiation_manager \<Rightarrow> bytes \<Rightarrow> negotiation_progress exchange_op" where
  "receive_validated x m body =
     (if body \<noteq> [] then fail_protocol x m (NonEmptyAcknowledgement NegotiationValidatedType)
      else validate_as False Established
        (\<lambda>x m. Some (Ok (NxSend \<lparr>cf_type = NegotiationEstablishedType, cf_body = []\<rparr>),
           x\<lparr>nx_state := NxEstablished\<rparr>, m)) x m)"

definition receive_established ::
  "negotiation_exchange \<Rightarrow> negotiation_manager \<Rightarrow> bytes \<Rightarrow> negotiation_progress exchange_op" where
  "receive_established x m body =
     (if body \<noteq> [] then fail_protocol x m (NonEmptyAcknowledgement NegotiationEstablishedType)
      else validate_as True Established (\<lambda>x m. Some (Ok NxDone, x\<lparr>nx_state := NxEstablished\<rparr>, m)) x m)"

definition receive_failure ::
  "negotiation_exchange \<Rightarrow> negotiation_manager \<Rightarrow> bytes \<Rightarrow> negotiation_progress exchange_op" where
  "receive_failure x m body =
     (case decode_failure body of
        Err e \<Rightarrow> fail_protocol x m (NxWire e)
      | Ok out \<Rightarrow>
        (case release_manager (x\<lparr>nx_local_offer := None, nx_state := NxFailed\<rparr>) m of
           None \<Rightarrow> None
         | Some (Err c, x, m) \<Rightarrow> Some (Err (ManagerState c), x, m)
         | Some (Ok _, x, m) \<Rightarrow> Some (Ok (RemoteFailed out), x, m)))"

definition exchange_receive ::
  "exchange_allocs \<Rightarrow> negotiation_exchange \<Rightarrow> negotiation_manager \<Rightarrow> negotiation_requirements \<Rightarrow> control_frame \<Rightarrow>
     negotiation_progress exchange_op" where
  "exchange_receive al x m req f =
     (if cf_type f = NegotiationFailedType \<and> nx_state x \<noteq> NxEstablished \<and> nx_state x \<noteq> NxFailed
      then receive_failure x m (cf_body f)
      else case (nx_state x, cf_type f) of
        (NxAwaitingPeerOffer, NegotiationOfferType) \<Rightarrow> receive_offer al x m (cf_body f)
      | (NxAwaitingProposal, NegotiationProposalType) \<Rightarrow> receive_proposal al x m req (cf_body f)
      | (NxAwaitingValidated, NegotiationValidatedType) \<Rightarrow> receive_validated x m (cf_body f)
      | (NxAwaitingEstablished, NegotiationEstablishedType) \<Rightarrow> receive_established x m (cf_body f)
      | _ \<Rightarrow> fail_protocol x m (NxUnexpectedFrame (nx_state x) (cf_type f)))"

end
