(* ===== verification/Delivery_Endpoint.thy ===== *)
theory Delivery_Endpoint
  imports Delivery_Types
begin

text \<open>
  The operations of \<open>DeliveryEndpoint\<close> (\<open>delivery.rs\<close>), which \<open>delivery/adapter.rs\<close> exposes to
  transports unchanged. A computation is \<open>None\<close> exactly where the code panics: an \<open>expect\<close> on a
  missing scope, \<open>unreachable!\<close> on a buffer of the wrong kind, a failed \<open>debug_assert\<close>, or an
  arithmetic overflow or underflow. The two eviction loops and the sequenced exposure loop are
  \<open>partial_function (option)\<close>, so a loop that did not end would be \<open>None\<close> as well.
\<close>

section \<open>Reading\<close>

definition endpoint_new :: "delivery_scope_limits \<Rightarrow> delivery_endpoint" where
  "endpoint_new l =
     \<lparr>de_aggregate = scope_state_new l, de_connections = fmempty, de_sessions = fmempty,
      de_flows = fmempty,
      de_diagnostics = \<lparr>dg_outbound_unreliable_pressure_drops = 0,
        dg_inbound_unreliable_pressure_drops = 0, dg_stale_sequenced_drops = 0,
        dg_reliable_duplicate_suppressions = 0\<rparr>\<rparr>"

definition flow_contract ::
  "delivery_endpoint \<Rightarrow> delivery_flow_key \<Rightarrow> (delivery_mode \<times> flow_resource_policy) option" where
  "flow_contract ep key = map_option (\<lambda>f. (fl_mode f, fl_policy f)) (fmlookup (de_flows ep) key)"

definition flow_pending_usage ::
  "delivery_endpoint \<Rightarrow> delivery_flow_key \<Rightarrow> (nat \<times> nat) option" where
  "flow_pending_usage ep key =
     map_option (\<lambda>f. (fl_pending_messages f, fl_pending_payload_bytes f)) (fmlookup (de_flows ep) key)"

definition next_outbound_accepted_index ::
  "delivery_endpoint \<Rightarrow> delivery_flow_key \<Rightarrow> (u64 option, delivery_operation_error) result" where
  "next_outbound_accepted_index ep key =
     (case fmlookup (de_flows ep) key of None \<Rightarrow> Err UnknownFlow
      | Some f \<Rightarrow> if fk_direction key \<noteq> Outbound then Err WrongDirection
                  else Ok (fl_next_accepted_index f))"

definition peek_outbound ::
  "delivery_endpoint \<Rightarrow> delivery_flow_key \<Rightarrow>
     (delivery_transfer option, delivery_operation_error) result" where
  "peek_outbound ep key =
     (case fmlookup (de_flows ep) key of None \<Rightarrow> Err UnknownFlow
      | Some f \<Rightarrow> if fk_direction key \<noteq> Outbound then Err WrongDirection
                  else Ok (case fl_outbound f of [] \<Rightarrow> None | t # _ \<Rightarrow> Some t))"

definition peek_outbound_metadata ::
  "delivery_endpoint \<Rightarrow> delivery_flow_key \<Rightarrow>
     (outbound_transfer_metadata option, delivery_operation_error) result" where
  "peek_outbound_metadata ep key =
     (case fmlookup (de_flows ep) key of None \<Rightarrow> Err UnknownFlow
      | Some f \<Rightarrow> if fk_direction key \<noteq> Outbound then Err WrongDirection
                  else Ok (case fl_outbound f of [] \<Rightarrow> None
                      | t # _ \<Rightarrow> Some \<lparr>om_mode = dt_mode t, om_accepted_index = dt_accepted_index t,
                                      om_payload_len = payload_len t\<rparr>))"

definition last_exposed_sequence ::
  "delivery_endpoint \<Rightarrow> delivery_flow_key \<Rightarrow>
     (u64 option, delivery_operation_error) result exec" where
  "last_exposed_sequence ep key =
     (case fmlookup (de_flows ep) key of None \<Rightarrow> Some (Err UnknownFlow)
      | Some f \<Rightarrow> if fk_direction key \<noteq> Inbound then Some (Err WrongDirection)
                  else if fl_mode f \<noteq> UnreliableSequenced then Some (Ok None)
                  else case fl_receiver f of
                         Unreliable _ seen \<Rightarrow> Some (Ok seen)
                       | Reliable _ _ \<Rightarrow> None)"

section \<open>Pending accounting\<close>

definition set_flow :: "delivery_flow_key \<Rightarrow> flow_state \<Rightarrow> delivery_endpoint \<Rightarrow> delivery_endpoint" where
  "set_flow key f ep = ep\<lparr>de_flows := fmupd key f (de_flows ep)\<rparr>"

definition can_add_pending ::
  "delivery_endpoint \<Rightarrow> delivery_flow_key \<Rightarrow> nat \<Rightarrow> nat \<Rightarrow>
     (bool, delivery_operation_error) result exec" where
  "can_add_pending ep key messages bytes =
     (case fmlookup (de_flows ep) key of
        None \<Rightarrow> Some (Err UnknownFlow)
      | Some f \<Rightarrow>
        if \<not> flow_can_add_pending f messages bytes then Some (Ok False)
        else do {
          c \<leftarrow> fmlookup (de_connections ep) (fk_connection key);
          if \<not> scope_can_add (sc_usage c) (sc_limits c) 0 messages bytes then Some (Ok False)
          else if \<not> scope_can_add (sc_usage (de_aggregate ep)) (sc_limits (de_aggregate ep))
                      0 messages bytes then Some (Ok False)
          else case fl_session f of
                 None \<Rightarrow> Some (Ok True)
               | Some sid \<Rightarrow> do {
                   s \<leftarrow> fmlookup (de_sessions ep) sid;
                   Some (Ok (scope_can_add (sc_usage s) (sc_limits s) 0 messages bytes)) } })"

definition adjust_scope ::
  "(scope_usage \<Rightarrow> nat \<Rightarrow> nat \<Rightarrow> nat \<Rightarrow> scope_usage exec) \<Rightarrow> nat \<Rightarrow> nat \<Rightarrow> nat \<Rightarrow>
     scope_state \<Rightarrow> scope_state exec" where
  "adjust_scope op flows messages bytes s = do {
     u \<leftarrow> op (sc_usage s) flows messages bytes;
     Some (s\<lparr>sc_usage := u\<rparr>) }"

definition adjust_entry ::
  "(scope_usage \<Rightarrow> nat \<Rightarrow> nat \<Rightarrow> nat \<Rightarrow> scope_usage exec) \<Rightarrow> nat \<Rightarrow> nat \<Rightarrow> nat \<Rightarrow>
     'k \<Rightarrow> ('k, scope_state) fmap \<Rightarrow> ('k, scope_state) fmap exec" where
  "adjust_entry op flows messages bytes k m = do {
     s \<leftarrow> fmlookup m k;
     s' \<leftarrow> adjust_scope op flows messages bytes s;
     Some (fmupd k s' m) }"

text \<open>\<open>add_pending\<close> and \<open>remove_pending\<close> are the same walk over flow, connection, aggregate, session.\<close>

definition adjust_pending ::
  "(nat \<Rightarrow> nat \<Rightarrow> nat exec) \<Rightarrow> (scope_usage \<Rightarrow> nat \<Rightarrow> nat \<Rightarrow> nat \<Rightarrow> scope_usage exec) \<Rightarrow>
     delivery_endpoint \<Rightarrow> delivery_flow_key \<Rightarrow> nat \<Rightarrow> nat \<Rightarrow> delivery_endpoint exec" where
  "adjust_pending num op ep key messages bytes = do {
     f \<leftarrow> fmlookup (de_flows ep) key;
     m \<leftarrow> num (fl_pending_messages f) messages;
     b \<leftarrow> num (fl_pending_payload_bytes f) bytes;
     cs \<leftarrow> adjust_entry op 0 messages bytes (fk_connection key) (de_connections ep);
     a \<leftarrow> adjust_scope op 0 messages bytes (de_aggregate ep);
     ss \<leftarrow> (case fl_session f of None \<Rightarrow> Some (de_sessions ep)
           | Some sid \<Rightarrow> adjust_entry op 0 messages bytes sid (de_sessions ep));
     Some (ep\<lparr>de_aggregate := a, de_connections := cs, de_sessions := ss,
              de_flows := fmupd key (f\<lparr>fl_pending_messages := m, fl_pending_payload_bytes := b\<rparr>)
                            (de_flows ep)\<rparr>) }"

definition add_pending ::
  "delivery_endpoint \<Rightarrow> delivery_flow_key \<Rightarrow> nat \<Rightarrow> nat \<Rightarrow> delivery_endpoint exec" where
  "add_pending = adjust_pending checked_add scope_add"

definition remove_pending ::
  "delivery_endpoint \<Rightarrow> delivery_flow_key \<Rightarrow> nat \<Rightarrow> nat \<Rightarrow> delivery_endpoint exec" where
  "remove_pending = adjust_pending checked_sub scope_remove"

section \<open>Establishment and association\<close>

definition entry_or_new ::
  "'k \<Rightarrow> delivery_scope_limits \<Rightarrow> ('k, scope_state) fmap \<Rightarrow> ('k, scope_state) fmap" where
  "entry_or_new k l m = (case fmlookup m k of Some _ \<Rightarrow> m | None \<Rightarrow> fmupd k (scope_state_new l) m)"

definition establish_flow ::
  "delivery_endpoint \<Rightarrow> delivery_flow_key \<Rightarrow> delivery_mode \<Rightarrow> flow_resource_policy \<Rightarrow>
     delivery_scope_limits \<Rightarrow> ((unit, flow_establishment_error) result \<times> delivery_endpoint) exec" where
  "establish_flow ep key mode policy limits =
     (case validate_for_mode policy mode of
        Err e \<Rightarrow> Some (Err (InvalidPolicy e), ep)
      | Ok _ \<Rightarrow>
        if fmlookup (de_flows ep) key \<noteq> None then Some (Err FlowAlreadyExists, ep)
        else if \<not> scope_can_add (sc_usage (de_aggregate ep)) (sc_limits (de_aggregate ep)) 1 0 0
        then Some (Err (ActiveFlowLimitExceeded AggregateScope), ep)
        else
          let refused = (case fmlookup (de_connections ep) (fk_connection key) of
              Some c \<Rightarrow>
                if sc_limits c \<noteq> limits then Some ConnectionLimitsMismatch
                else if \<not> scope_can_add (sc_usage c) (sc_limits c) 1 0 0
                then Some (ActiveFlowLimitExceeded ConnectionScope) else None
            | None \<Rightarrow>
                if \<not> scope_can_add scope_usage_default limits 1 0 0
                then Some (ActiveFlowLimitExceeded ConnectionScope) else None)
          in case refused of Some e \<Rightarrow> Some (Err e, ep)
             | None \<Rightarrow> do {
                 a \<leftarrow> adjust_scope scope_add 1 0 0 (de_aggregate ep);
                 cs \<leftarrow> adjust_entry scope_add 1 0 0 (fk_connection key)
                        (entry_or_new (fk_connection key) limits (de_connections ep));
                 Some (Ok (), ep\<lparr>de_aggregate := a, de_connections := cs,
                                 de_flows := fmupd key (flow_new mode policy) (de_flows ep)\<rparr>) })"

definition associate_flow_with_session ::
  "delivery_endpoint \<Rightarrow> delivery_flow_key \<Rightarrow> session \<Rightarrow> delivery_scope_limits \<Rightarrow>
     ((session_association_outcome, session_association_error) result \<times> delivery_endpoint) exec" where
  "associate_flow_with_session ep key s limits =
     (if s_phase s \<noteq> Open then Some (Err AssocSessionClosed, ep)
      else case fmlookup (de_flows ep) key of
        None \<Rightarrow> Some (Err AssocUnknownFlow, ep)
      | Some f \<Rightarrow> (case fl_session f of
          Some current \<Rightarrow>
            if current \<noteq> s_id s then Some (Err AlreadyAssociatedWithDifferentSession, ep)
            else do {
              st \<leftarrow> fmlookup (de_sessions ep) current;
              Some (if sc_limits st = limits then Ok AlreadyAssociated
                    else Err SessionLimitsMismatch, ep) }
        | None \<Rightarrow>
            let m = fl_pending_messages f; b = fl_pending_payload_bytes f;
                refused = (case fmlookup (de_sessions ep) (s_id s) of
                    Some st \<Rightarrow>
                      if sc_limits st \<noteq> limits then Some SessionLimitsMismatch
                      else if \<not> scope_can_add (sc_usage st) limits 1 m b
                      then Some ResourceLimitExceeded else None
                  | None \<Rightarrow>
                      if \<not> scope_can_add scope_usage_default limits 1 m b
                      then Some ResourceLimitExceeded else None)
            in case refused of Some e \<Rightarrow> Some (Err e, ep)
               | None \<Rightarrow> do {
                   ss \<leftarrow> adjust_entry scope_add 1 m b (s_id s)
                          (entry_or_new (s_id s) limits (de_sessions ep));
                   Some (Ok Associated, ep\<lparr>de_sessions := ss,
                     de_flows := fmupd key (f\<lparr>fl_session := Some (s_id s)\<rparr>) (de_flows ep)\<rparr>) }))"

section \<open>Termination of a flow\<close>

definition release_entry ::
  "nat \<Rightarrow> nat \<Rightarrow> 'k \<Rightarrow> ('k, scope_state) fmap \<Rightarrow> ('k, scope_state) fmap exec" where
  "release_entry messages bytes k m = do {
     s \<leftarrow> fmlookup m k;
     s' \<leftarrow> adjust_scope scope_remove 1 messages bytes s;
     Some (if su_active_flows (sc_usage s') = 0 then fmdrop k m else fmupd k s' m) }"

definition terminate_flow ::
  "delivery_endpoint \<Rightarrow> delivery_flow_key \<Rightarrow> flow_termination_reason \<Rightarrow>
     flow_termination delivery_op" where
  "terminate_flow ep key reason =
     (case fmlookup (de_flows ep) key of
        None \<Rightarrow> Some (Err UnknownFlow, ep)
      | Some f \<Rightarrow> do {
          let m = fl_pending_messages f;
          let b = fl_pending_payload_bytes f;
          a \<leftarrow> adjust_scope scope_remove 1 m b (de_aggregate ep);
          cs \<leftarrow> release_entry m b (fk_connection key) (de_connections ep);
          ss \<leftarrow> (case fl_session f of None \<Rightarrow> Some (de_sessions ep)
                | Some sid \<Rightarrow> release_entry m b sid (de_sessions ep));
          Some (Ok \<lparr>ft_key = key, ft_reason = reason, ft_pending_messages = m,
                    ft_reliable_obligation_failed = (fl_mode f = ReliableOrdered
                      \<and> (0 < m \<or> forces_reliable_failure reason))\<rparr>,
                ep\<lparr>de_aggregate := a, de_connections := cs, de_sessions := ss,
                   de_flows := fmdrop key (de_flows ep)\<rparr>) })"

definition fail_reliable_custody ::
  "delivery_endpoint \<Rightarrow> delivery_flow_key \<Rightarrow> flow_termination delivery_op" where
  "fail_reliable_custody ep key =
     (case fmlookup (de_flows ep) key of
        None \<Rightarrow> Some (Err UnknownFlow, ep)
      | Some f \<Rightarrow> if fl_mode f \<noteq> ReliableOrdered then Some (Err NotReliable, ep)
                  else terminate_flow ep key ReliableCustodyLost)"

text \<open>
  The keys of one connection sorted by \<open>(direction, handle)\<close>, outbound first.
\<close>

definition connection_keys :: "delivery_endpoint \<Rightarrow> connection_handle \<Rightarrow> delivery_flow_key list" where
  "connection_keys ep c =
     (let keys = (\<lambda>d. ffilter (\<lambda>k. fk_connection k = c \<and> fk_direction k = d) (fmdom (de_flows ep)));
          sorted_keys = (\<lambda>d. map (\<lambda>h. \<lparr>fk_connection = c, fk_direction = d,
                                       fk_handle = DeliveryFlowHandle h\<rparr>)
                     (sorted_list_of_fset ((\<lambda>k. flow_handle_get (fk_handle k)) |`| keys d)))
      in sorted_keys Outbound @ sorted_keys Inbound)"

fun terminate_keys ::
  "delivery_endpoint \<Rightarrow> delivery_flow_key list \<Rightarrow> (flow_termination list \<times> delivery_endpoint) exec" where
  "terminate_keys ep [] = Some ([], ep)"
| "terminate_keys ep (k # ks) = do {
     (r, ep1) \<leftarrow> terminate_flow ep k ConnectionEnded;
     (ts, ep2) \<leftarrow> terminate_keys ep1 ks;
     Some (case r of Ok t \<Rightarrow> t # ts | Err _ \<Rightarrow> ts, ep2) }"

definition terminate_connection ::
  "delivery_endpoint \<Rightarrow> connection_handle \<Rightarrow> (flow_termination list \<times> delivery_endpoint) exec" where
  "terminate_connection ep c = terminate_keys ep (connection_keys ep c)"

section \<open>Eviction and submission\<close>

definition evict_oldest_outbound_unreliable ::
  "delivery_endpoint \<Rightarrow> delivery_flow_key \<Rightarrow> delivery_transfer option delivery_op" where
  "evict_oldest_outbound_unreliable ep key =
     (case fmlookup (de_flows ep) key of
        None \<Rightarrow> Some (Err UnknownFlow, ep)
      | Some f \<Rightarrow>
        if fk_direction key \<noteq> Outbound then Some (Err WrongDirection, ep)
        else if fl_mode f = ReliableOrdered then None
        else case fl_outbound f of
               [] \<Rightarrow> Some (Ok None, ep)
             | t # ts \<Rightarrow> do {
                 ep' \<leftarrow> remove_pending (set_flow key (f\<lparr>fl_outbound := ts\<rparr>) ep) key 1 (payload_len t);
                 Some (Ok (Some t), ep') })"

definition evict_oldest_inbound_unreliable ::
  "delivery_endpoint \<Rightarrow> delivery_flow_key \<Rightarrow> delivery_transfer option delivery_op" where
  "evict_oldest_inbound_unreliable ep key =
     (case fmlookup (de_flows ep) key of
        None \<Rightarrow> Some (Err UnknownFlow, ep)
      | Some f \<Rightarrow>
        if fk_direction key \<noteq> Inbound then Some (Err WrongDirection, ep)
        else if fl_mode f = ReliableOrdered then None
        else case fl_receiver f of
               Reliable _ _ \<Rightarrow> None
             | Unreliable [] _ \<Rightarrow> Some (Ok None, ep)
             | Unreliable (t # ts) seen \<Rightarrow> do {
                 ep' \<leftarrow> remove_pending (set_flow key (f\<lparr>fl_receiver := Unreliable ts seen\<rparr>) ep)
                         key 1 (payload_len t);
                 Some (Ok (Some t), ep') })"

text \<open>
  \<open>while !self.can_add_pending(..)? { if evict(..)?.is_none() { .. } drops += 1 }\<close>: the result is
  whether the message fits now, with the number of evictions.
\<close>

partial_function (option) evict_until_fits ::
  "(delivery_endpoint \<Rightarrow> delivery_flow_key \<Rightarrow> delivery_transfer option delivery_op) \<Rightarrow>
     delivery_endpoint \<Rightarrow> delivery_flow_key \<Rightarrow> nat \<Rightarrow> nat \<Rightarrow> (bool \<times> nat) delivery_op" where
  "evict_until_fits evict ep key len drops = do {
     fits \<leftarrow> can_add_pending ep key 1 len;
     (case fits of
        Err e \<Rightarrow> Some (Err e, ep)
      | Ok ok \<Rightarrow>
        if ok then Some (Ok (True, drops), ep)
        else do {
          x \<leftarrow> evict ep key;
          (case fst x of
             Err e \<Rightarrow> Some (Err e, snd x)
           | Ok t \<Rightarrow>
             if t = None then Some (Ok (False, drops), snd x)
             else evict_until_fits evict (snd x) key len (saturating_add drops 1)) }) }"

definition count_outbound_drops :: "nat \<Rightarrow> delivery_endpoint \<Rightarrow> delivery_endpoint" where
  "count_outbound_drops n ep = ep\<lparr>de_diagnostics := (de_diagnostics ep)
     \<lparr>dg_outbound_unreliable_pressure_drops :=
        saturating_add (dg_outbound_unreliable_pressure_drops (de_diagnostics ep)) n\<rparr>\<rparr>"

definition count_inbound_drops :: "nat \<Rightarrow> delivery_endpoint \<Rightarrow> delivery_endpoint" where
  "count_inbound_drops n ep = ep\<lparr>de_diagnostics := (de_diagnostics ep)
     \<lparr>dg_inbound_unreliable_pressure_drops :=
        saturating_add (dg_inbound_unreliable_pressure_drops (de_diagnostics ep)) n\<rparr>\<rparr>"

definition count_stale_drop :: "delivery_endpoint \<Rightarrow> delivery_endpoint" where
  "count_stale_drop ep = ep\<lparr>de_diagnostics := (de_diagnostics ep)
     \<lparr>dg_stale_sequenced_drops :=
        saturating_add (dg_stale_sequenced_drops (de_diagnostics ep)) 1\<rparr>\<rparr>"

definition count_duplicate :: "delivery_endpoint \<Rightarrow> delivery_endpoint" where
  "count_duplicate ep = ep\<lparr>de_diagnostics := (de_diagnostics ep)
     \<lparr>dg_reliable_duplicate_suppressions :=
        saturating_add (dg_reliable_duplicate_suppressions (de_diagnostics ep)) 1\<rparr>\<rparr>"

text \<open>The tail of \<open>submit\<close>: the message is accepted under the next index.\<close>

definition submit_accept ::
  "delivery_endpoint \<Rightarrow> delivery_flow_key \<Rightarrow> delivery_mode \<Rightarrow> u64 \<Rightarrow> u8 list \<Rightarrow> nat \<Rightarrow>
     submission_outcome delivery_op" where
  "submit_accept ep key mode idx payload drops =
     (case fmlookup (de_flows ep) key of
        None \<Rightarrow> Some (Err UnknownFlow, ep)
      | Some f \<Rightarrow>
        let t = \<lparr>dt_mode = mode, dt_accepted_index = idx, dt_payload = payload\<rparr>;
            f' = f\<lparr>fl_next_accepted_index := u64_checked_add idx 1,
                   fl_outbound := fl_outbound f @ [t]\<rparr>
        in do {
          ep' \<leftarrow> add_pending (set_flow key f' ep) key 1 (payload_len t);
          Some (Ok (Accepted idx drops),
                if 0 < drops then count_outbound_drops drops ep' else ep') })"

definition submit ::
  "delivery_endpoint \<Rightarrow> delivery_flow_key \<Rightarrow> u8 list \<Rightarrow> submission_outcome delivery_op" where
  "submit ep key payload =
     (case fmlookup (de_flows ep) key of
        None \<Rightarrow> Some (Err UnknownFlow, ep)
      | Some f \<Rightarrow>
        if fk_direction key \<noteq> Outbound then Some (Err WrongDirection, ep)
        else if length payload > fp_max_message_bytes (fl_policy f)
        then Some (Ok RejectedTooLarge, ep)
        else case fl_next_accepted_index f of
          None \<Rightarrow> Some (Ok RejectedCounterExhausted, ep)
        | Some idx \<Rightarrow> do {
            fits \<leftarrow> can_add_pending ep key 1 (length payload);
            (case fits of
               Err e \<Rightarrow> Some (Err e, ep)
             | Ok ok \<Rightarrow>
               if ok then submit_accept ep key (fl_mode f) idx payload 0
               else case fp_outbound_pressure (fl_policy f) of
                 RejectNew \<Rightarrow> Some (Ok RejectedPressure, ep)
               | EvictOldestUnreliable \<Rightarrow>
                   if fl_mode f = ReliableOrdered then None
                   else do {
                     x \<leftarrow> evict_until_fits evict_oldest_outbound_unreliable ep key (length payload) 0;
                     (case x of
                        (Err e, ep') \<Rightarrow> Some (Err e, ep')
                      | (Ok (fit, drops), ep') \<Rightarrow>
                        if fit then submit_accept ep' key (fl_mode f) idx payload drops
                        else Some (Ok RejectedPressure, ep')) }) })"

definition commit_outbound_custody ::
  "delivery_endpoint \<Rightarrow> delivery_flow_key \<Rightarrow> u64 \<Rightarrow>
     ((delivery_transfer, custody_commit_error) result \<times> delivery_endpoint) exec" where
  "commit_outbound_custody ep key idx =
     (if fk_direction key \<noteq> Outbound then Some (Err CustodyWrongDirection, ep)
      else case fmlookup (de_flows ep) key of
        None \<Rightarrow> Some (Err CustodyUnknownFlow, ep)
      | Some f \<Rightarrow> (case fl_outbound f of
          [] \<Rightarrow> Some (Err NoPendingMessage, ep)
        | t # ts \<Rightarrow>
          if dt_accepted_index t \<noteq> idx then Some (Err NotFront, ep)
          else do {
            ep' \<leftarrow> remove_pending (set_flow key (f\<lparr>fl_outbound := ts\<rparr>) ep) key 1 (payload_len t);
            Some (Ok t, ep') }))"

section \<open>Reception\<close>

definition terminate_ignoring ::
  "delivery_endpoint \<Rightarrow> delivery_flow_key \<Rightarrow> flow_termination_reason \<Rightarrow> receive_outcome delivery_op" where
  "terminate_ignoring ep key reason = do {
     (_, ep') \<leftarrow> terminate_flow ep key reason;
     Some (Ok TerminalReliableFailure, ep') }"

definition receive_reliable ::
  "delivery_endpoint \<Rightarrow> delivery_flow_key \<Rightarrow> delivery_transfer \<Rightarrow> receive_outcome delivery_op" where
  "receive_reliable ep key t =
     (case fmlookup (de_flows ep) key of
        None \<Rightarrow> Some (Err UnknownFlow, ep)
      | Some f \<Rightarrow> (case fl_receiver f of
          Unreliable _ _ \<Rightarrow> None
        | Reliable by_index next \<Rightarrow>
          let i = dt_accepted_index t;
              known = (if (case next of None \<Rightarrow> True | Some n \<Rightarrow> i < n) then Some False
                       else map_option (\<lambda>old. old \<noteq> t) (fmlookup by_index i))
          in case known of
               Some conflict \<Rightarrow>
                 if conflict then terminate_ignoring ep key ReliableTransferConflict
                 else Some (Ok DuplicateReliable, count_duplicate ep)
             | None \<Rightarrow> do {
                 fits \<leftarrow> can_add_pending ep key 1 (payload_len t);
                 (case fits of
                    Err e \<Rightarrow> Some (Err e, ep)
                  | Ok ok \<Rightarrow>
                    if \<not> ok then terminate_ignoring ep key ReliableReceiverPressure
                    else if fmlookup by_index i \<noteq> None then None
                    else do {
                      ep' \<leftarrow> add_pending
                        (set_flow key (f\<lparr>fl_receiver := Reliable (fmupd i t by_index) next\<rparr>) ep)
                        key 1 (payload_len t);
                      Some (Ok (Buffered 0), ep') }) }))"

definition stale_for :: "u64 option \<Rightarrow> u64 \<Rightarrow> bool" where
  "stale_for seen i = (case seen of None \<Rightarrow> False | Some seen_index \<Rightarrow> i \<le> seen_index)"

text \<open>The tail of \<open>receive_unreliable\<close>: the message is buffered.\<close>

definition receive_enqueue ::
  "delivery_endpoint \<Rightarrow> delivery_flow_key \<Rightarrow> delivery_transfer \<Rightarrow> nat \<Rightarrow> receive_outcome delivery_op" where
  "receive_enqueue ep key t drops =
     (case fmlookup (de_flows ep) key of
        None \<Rightarrow> Some (Err UnknownFlow, ep)
      | Some f \<Rightarrow> (case fl_receiver f of
          Reliable _ _ \<Rightarrow> None
        | Unreliable q seen \<Rightarrow> do {
            ep' \<leftarrow> add_pending (set_flow key (f\<lparr>fl_receiver := Unreliable (q @ [t]) seen\<rparr>) ep)
                    key 1 (payload_len t);
            Some (Ok (Buffered drops),
                  if 0 < drops then count_inbound_drops drops ep' else ep') }))"

definition receive_unreliable ::
  "delivery_endpoint \<Rightarrow> delivery_flow_key \<Rightarrow> delivery_transfer \<Rightarrow> bool \<Rightarrow> receive_outcome delivery_op" where
  "receive_unreliable ep key t sequenced =
     (case fmlookup (de_flows ep) key of
        None \<Rightarrow> Some (Err UnknownFlow, ep)
      | Some f \<Rightarrow> do {
          stale \<leftarrow> (if sequenced
                   then (case fl_receiver f of
                           Unreliable _ seen \<Rightarrow> Some (stale_for seen (dt_accepted_index t))
                         | Reliable _ _ \<Rightarrow> None)
                   else Some False);
          (if stale then Some (Ok StaleSequenced, count_stale_drop ep)
           else do {
             fits \<leftarrow> can_add_pending ep key 1 (payload_len t);
             (case fits of
                Err e \<Rightarrow> Some (Err e, ep)
              | Ok ok \<Rightarrow>
                if ok then receive_enqueue ep key t 0
                else case fp_receiver_pressure (fl_policy f) of
                  TerminateReliable \<Rightarrow> None
                | DropIncomingUnreliable \<Rightarrow>
                    Some (Ok (DroppedByPressure 1), count_inbound_drops 1 ep)
                | EvictOldestBufferedUnreliable \<Rightarrow> do {
                    x \<leftarrow> evict_until_fits evict_oldest_inbound_unreliable ep key (payload_len t) 0;
                    (case x of
                       (Err e, ep') \<Rightarrow> Some (Err e, ep')
                     | (Ok (fit, drops), ep') \<Rightarrow>
                       if fit then receive_enqueue ep' key t drops
                       else let drops = saturating_add drops 1
                            in Some (Ok (DroppedByPressure drops), count_inbound_drops drops ep')) }) }) })"

definition receive ::
  "delivery_endpoint \<Rightarrow> delivery_flow_key \<Rightarrow> delivery_transfer \<Rightarrow> receive_outcome delivery_op" where
  "receive ep key t =
     (if fk_direction key \<noteq> Inbound then Some (Err WrongDirection, ep)
      else case fmlookup (de_flows ep) key of
        None \<Rightarrow> Some (Err UnknownFlow, ep)
      | Some f \<Rightarrow>
        if dt_mode t \<noteq> fl_mode f
        then (if fl_mode f = ReliableOrdered then terminate_ignoring ep key ReliableModeMismatch
              else Some (Ok RejectedModeMismatch, ep))
        else if payload_len t > fp_max_message_bytes (fl_policy f)
        then (if fl_mode f = ReliableOrdered then terminate_ignoring ep key ReliableInboundTooLarge
              else Some (Ok DroppedTooLarge, ep))
        else case fl_mode f of
               ReliableOrdered \<Rightarrow> receive_reliable ep key t
             | UnreliableUnordered \<Rightarrow> receive_unreliable ep key t False
             | UnreliableSequenced \<Rightarrow> receive_unreliable ep key t True)"

definition receive_transport_payload ::
  "delivery_endpoint \<Rightarrow> delivery_flow_key \<Rightarrow> u64 \<Rightarrow> u8 list \<Rightarrow> receive_outcome delivery_op" where
  "receive_transport_payload ep key idx payload =
     (if fk_direction key \<noteq> Inbound then Some (Err WrongDirection, ep)
      else case fmlookup (de_flows ep) key of
        None \<Rightarrow> Some (Err UnknownFlow, ep)
      | Some f \<Rightarrow> receive ep key
          \<lparr>dt_mode = fl_mode f, dt_accepted_index = idx, dt_payload = payload\<rparr>)"

section \<open>Exposure\<close>

definition expose :: "delivery_transfer \<Rightarrow> exposed_message" where
  "expose t = \<lparr>em_accepted_index = dt_accepted_index t, em_payload = dt_payload t\<rparr>"

definition poll_reliable_exposure ::
  "delivery_endpoint \<Rightarrow> delivery_flow_key \<Rightarrow> exposed_message option delivery_op" where
  "poll_reliable_exposure ep key =
     (case fmlookup (de_flows ep) key of
        None \<Rightarrow> Some (Err UnknownFlow, ep)
      | Some f \<Rightarrow> (case fl_receiver f of
          Unreliable _ _ \<Rightarrow> None
        | Reliable by_index next \<Rightarrow> (case next of
            None \<Rightarrow> Some (Ok None, ep)
          | Some expected \<Rightarrow> (case fmlookup by_index expected of
              None \<Rightarrow> Some (Ok None, ep)
            | Some t \<Rightarrow> do {
                ep' \<leftarrow> remove_pending (set_flow key (f\<lparr>fl_receiver :=
                          Reliable (fmdrop expected by_index) (u64_checked_add expected 1)\<rparr>) ep)
                        key 1 (payload_len t);
                Some (Ok (Some (expose t)), ep') }))))"

definition poll_unordered_exposure ::
  "delivery_endpoint \<Rightarrow> delivery_flow_key \<Rightarrow> exposed_message option delivery_op" where
  "poll_unordered_exposure ep key =
     (case fmlookup (de_flows ep) key of
        None \<Rightarrow> Some (Err UnknownFlow, ep)
      | Some f \<Rightarrow> (case fl_receiver f of
          Reliable _ _ \<Rightarrow> None
        | Unreliable [] _ \<Rightarrow> Some (Ok None, ep)
        | Unreliable (t # ts) seen \<Rightarrow> do {
            ep' \<leftarrow> remove_pending (set_flow key (f\<lparr>fl_receiver := Unreliable ts seen\<rparr>) ep)
                    key 1 (payload_len t);
            Some (Ok (Some (expose t)), ep') }))"

text \<open>The sequenced loop: a stale buffered message is dropped and the next one is tried.\<close>

partial_function (option) poll_sequenced_exposure ::
  "delivery_endpoint \<Rightarrow> delivery_flow_key \<Rightarrow> exposed_message option delivery_op" where
  "poll_sequenced_exposure ep key =
     (case fmlookup (de_flows ep) key of
        None \<Rightarrow> Some (Err UnknownFlow, ep)
      | Some f \<Rightarrow> (case fl_receiver f of
          Reliable _ _ \<Rightarrow> None
        | Unreliable q seen \<Rightarrow> (case q of
            [] \<Rightarrow> Some (Ok None, ep)
          | t # ts \<Rightarrow> do {
              ep' \<leftarrow> remove_pending (set_flow key (f\<lparr>fl_receiver := Unreliable ts seen\<rparr>) ep)
                      key 1 (payload_len t);
              (if stale_for seen (dt_accepted_index t)
               then poll_sequenced_exposure (count_stale_drop ep') key
               else do {
                 f' \<leftarrow> fmlookup (de_flows ep') key;
                 Some (Ok (Some (expose t)),
                   set_flow key (f'\<lparr>fl_receiver := Unreliable ts (Some (dt_accepted_index t))\<rparr>) ep') }) })))"

definition poll_exposure ::
  "delivery_endpoint \<Rightarrow> delivery_flow_key \<Rightarrow> exposed_message option delivery_op" where
  "poll_exposure ep key =
     (if fk_direction key \<noteq> Inbound then Some (Err WrongDirection, ep)
      else case fmlookup (de_flows ep) key of
        None \<Rightarrow> Some (Err UnknownFlow, ep)
      | Some f \<Rightarrow> (case fl_mode f of
          ReliableOrdered \<Rightarrow> poll_reliable_exposure ep key
        | UnreliableUnordered \<Rightarrow> poll_unordered_exposure ep key
        | UnreliableSequenced \<Rightarrow> poll_sequenced_exposure ep key))"

end
