(* ===== verification/Flow_Registry.thy ===== *)
theory Flow_Registry
  imports Wire_Safety Delivery_Endpoint
begin

text \<open>
  The registry of accepted flows, \<open>AcceptedFlowRegistry\<close> of
  \<open>crates/runen-net-quic/src/quinn_binding.rs\<close>: the bounded map from flow identifiers to core flows,
  with one stream association for each reliable flow.
\<close>

datatype reliable_association = Unbound_Stream | Outbound_Stream | Inbound_Stream

record registered_flow =
  rf_key :: delivery_flow_key
  rf_mode :: delivery_mode
  rf_max_message_bytes :: nat
  rf_association :: "reliable_association option"

datatype registry_error =
    RegistryCapacityExceeded
  | RegistryAllocationFailed
  | DuplicateFlowId
  | UnknownFlowId
  | UnknownCoreFlow
  | RegistryNotReliable
  | OutboundMessageLimitExceedsProfile
  | InboundMessageLimitCannotSupportProfile
  | WrongFlowSide
  | RegistryWrongDirection
  | AlreadyAssociatedStream

record flow_registry =
  fg_local_side :: wire_side
  fg_max_active :: nat
  fg_flows :: "(u64, registered_flow) fmap"

definition flow_registry_new :: "wire_side \<Rightarrow> nat \<Rightarrow> flow_registry" where
  "flow_registry_new side n = \<lparr>fg_local_side = side, fg_max_active = n, fg_flows = fmempty\<rparr>"

definition opposite_side :: "wire_side \<Rightarrow> wire_side" where
  "opposite_side side = (case side of Client \<Rightarrow> Server | Server \<Rightarrow> Client)"

definition expected_side :: "flow_registry \<Rightarrow> flow_direction \<Rightarrow> wire_side" where
  "expected_side g d =
     (case d of Outbound \<Rightarrow> fg_local_side g | Inbound \<Rightarrow> opposite_side (fg_local_side g))"

text \<open>Whether the map can grow by one entry is an argument of the call.\<close>

definition register_consumed_accepted_flow ::
  "bool \<Rightarrow> flow_registry \<Rightarrow> delivery_endpoint \<Rightarrow> flow_id \<Rightarrow> delivery_flow_key \<Rightarrow> nat \<Rightarrow>
     (unit, registry_error) result \<times> flow_registry" where
  "register_consumed_accepted_flow alloc g ep i key stable_max =
     (if fmlookup (fg_flows g) (flow_id_value i) \<noteq> None then (Err DuplicateFlowId, g)
      else if fm_len (fg_flows g) \<ge> fg_max_active g then (Err RegistryCapacityExceeded, g)
      else case flow_contract ep key of
        None \<Rightarrow> (Err UnknownCoreFlow, g)
      | Some (mode, policy) \<Rightarrow>
        if fk_direction key = Outbound \<and> fp_max_message_bytes policy > stable_max
        then (Err OutboundMessageLimitExceedsProfile, g)
        else if fk_direction key = Inbound \<and> fp_max_message_bytes policy < stable_max
        then (Err InboundMessageLimitCannotSupportProfile, g)
        else if flow_id_side i \<noteq> expected_side g (fk_direction key) then (Err WrongFlowSide, g)
        else if \<not> alloc then (Err RegistryAllocationFailed, g)
        else (Ok (), g\<lparr>fg_flows := fmupd (flow_id_value i)
               \<lparr>rf_key = key, rf_mode = mode, rf_max_message_bytes = stable_max,
                rf_association = (if mode = ReliableOrdered then Some Unbound_Stream else None)\<rparr>
               (fg_flows g)\<rparr>))"

definition lookup_flow :: "flow_registry \<Rightarrow> flow_id \<Rightarrow> registered_flow option" where
  "lookup_flow g i = fmlookup (fg_flows g) (flow_id_value i)"

definition active_direction_len :: "flow_registry \<Rightarrow> flow_direction \<Rightarrow> nat" where
  "active_direction_len g d = fm_len (fmfilter (\<lambda>v.
     case fmlookup (fg_flows g) v of None \<Rightarrow> False | Some f \<Rightarrow> fk_direction (rf_key f) = d) (fg_flows g))"

definition associate_stream ::
  "flow_registry \<Rightarrow> flow_id \<Rightarrow> flow_direction \<Rightarrow> reliable_association \<Rightarrow>
     (registered_flow, registry_error) result \<times> flow_registry" where
  "associate_stream g i d target =
     (case fmlookup (fg_flows g) (flow_id_value i) of
        None \<Rightarrow> (Err UnknownFlowId, g)
      | Some f \<Rightarrow>
        if rf_mode f \<noteq> ReliableOrdered then (Err RegistryNotReliable, g)
        else if fk_direction (rf_key f) \<noteq> d then (Err RegistryWrongDirection, g)
        else case rf_association f of
          Some Unbound_Stream \<Rightarrow>
            (let f' = f\<lparr>rf_association := Some target\<rparr>
             in (Ok f', g\<lparr>fg_flows := fmupd (flow_id_value i) f' (fg_flows g)\<rparr>))
        | Some _ \<Rightarrow> (Err AlreadyAssociatedStream, g)
        | None \<Rightarrow> (Err RegistryNotReliable, g))"

definition associate_outbound ::
  "flow_registry \<Rightarrow> flow_id \<Rightarrow> (registered_flow, registry_error) result \<times> flow_registry" where
  "associate_outbound g i = associate_stream g i Outbound Outbound_Stream"

definition associate_inbound ::
  "flow_registry \<Rightarrow> flow_id \<Rightarrow> (registered_flow, registry_error) result \<times> flow_registry" where
  "associate_inbound g i = associate_stream g i Inbound Inbound_Stream"

definition registry_release :: "flow_registry \<Rightarrow> flow_id \<Rightarrow> flow_registry" where
  "registry_release g i = g\<lparr>fg_flows := fmdrop (flow_id_value i) (fg_flows g)\<rparr>"

end
