(* ===== verification/Datagrams.thy ===== *)
theory Datagrams
  imports Flow_Registry
begin

text \<open>
  Unreliable flows over datagrams, \<open>crates/runen-net-quic/src/datagram.rs\<close>: submission, the hand-over
  of the oldest message to the transport, and reception. The transport is an argument: its state may
  change with every question, as that of a shared connection does. \<open>alloc n\<close> says whether a buffer
  of \<open>n\<close> bytes can be had.
\<close>

definition UNORDERED_INGRESS_INDEX :: u64 where
  "UNORDERED_INGRESS_INDEX = 0"

datatype datagram_transport_error =
    TransportTooLarge
  | UnsupportedByPeer
  | TransportDisabled
  | TransportConnectionLost

record 't datagram_transport =
  dgt_max_size :: "'t \<Rightarrow> nat option \<times> 't"
  dgt_space :: "'t \<Rightarrow> nat \<times> 't"
  dgt_send :: "'t \<Rightarrow> bytes \<Rightarrow> (unit, datagram_transport_error) result \<times> 't"

datatype datagram_submission_outcome =
    DatagramAccepted u64 nat
  | DatagramTooLarge
  | DatagramPressure
  | DatagramCounterExhausted
  | DatagramTransportUnavailable
  | DatagramCurrentSize

datatype datagram_submission_error =
    SubmitUnknownFlowId
  | SubmitWrongDirection
  | SubmitReliableFlow
  | SubmitCore delivery_operation_error
  | SubmitWire varint_encode_error
  | SubmitLengthOverflow
  | SubmitSequenceExhausted
  | AcceptedIndexMismatch u64 u64

datatype datagram_send_progress =
    DatagramIdle
  | BlockedNativeBuffer nat nat
  | DatagramEnqueued u64
  | DroppedTransport u64

datatype datagram_send_error =
    DriveUnknownFlowId
  | DriveWrongDirection
  | DriveReliableFlow
  | DriveCore delivery_operation_error
  | DriveCustody custody_commit_error
  | DriveWire varint_encode_error
  | DriveLengthOverflow
  | DriveSequenceExhausted
  | DriveModeMismatch
  | DrivePayloadExceedsProfile
  | DriveAllocationFailed
  | ProfileUnavailable
  | DriveConnectionLost

record 't datagram_sender =
  dgs_transport :: 't
  dgs_outbound_transport_drops :: nat

definition datagram_sender_new :: "'t \<Rightarrow> 't datagram_sender" where
  "datagram_sender_new t = \<lparr>dgs_transport = t, dgs_outbound_transport_drops = 0\<rparr>"

datatype registration_use_error = UseUnknownFlowId | UseWrongDirection | UseReliableFlow

definition registered_outbound_unreliable ::
  "flow_registry \<Rightarrow> flow_id \<Rightarrow> (registered_flow, registration_use_error) result" where
  "registered_outbound_unreliable g i =
     (case lookup_flow g i of
        None \<Rightarrow> Err UseUnknownFlowId
      | Some f \<Rightarrow>
        if fk_direction (rf_key f) \<noteq> Outbound then Err UseWrongDirection
        else if rf_mode f = ReliableOrdered then Err UseReliableFlow
        else Ok f)"

definition map_registration_submission_error :: "registration_use_error \<Rightarrow> datagram_submission_error" where
  "map_registration_submission_error e =
     (case e of UseUnknownFlowId \<Rightarrow> SubmitUnknownFlowId | UseWrongDirection \<Rightarrow> SubmitWrongDirection
              | UseReliableFlow \<Rightarrow> SubmitReliableFlow)"

definition map_registration_send_error :: "registration_use_error \<Rightarrow> datagram_send_error" where
  "map_registration_send_error e =
     (case e of UseUnknownFlowId \<Rightarrow> DriveUnknownFlowId | UseWrongDirection \<Rightarrow> DriveWrongDirection
              | UseReliableFlow \<Rightarrow> DriveReliableFlow)"

section \<open>Lengths and the codec\<close>

text \<open>
  The code has this function twice, once for each error type; the type's four constructors are the
  arguments here.
\<close>

definition datagram_len_with ::
  "(varint_encode_error \<Rightarrow> 'e) \<Rightarrow> 'e \<Rightarrow> 'e \<Rightarrow> 'e \<Rightarrow> flow_id \<Rightarrow> delivery_mode \<Rightarrow> u64 option \<Rightarrow> nat \<Rightarrow>
     (nat, 'e) result exec" where
  "datagram_len_with wire overflow exhausted reliable i mode sequence n = do {
     flow \<leftarrow> encode_varint (flow_id_value i);
     (case flow of
        Err e \<Rightarrow> Some (Err (wire e))
      | Ok flow \<Rightarrow> do {
          seq \<leftarrow> (case mode of
              UnreliableUnordered \<Rightarrow> Some (Ok 0)
            | UnreliableSequenced \<Rightarrow>
              (case sequence of
                 None \<Rightarrow> Some (Err overflow)
               | Some s \<Rightarrow>
                 if s > MAX_VARINT then Some (Err exhausted)
                 else do {
                   x \<leftarrow> encode_varint s;
                   Some (case x of Err e \<Rightarrow> Err (wire e) | Ok x \<Rightarrow> Ok (vi_len x)) })
            | ReliableOrdered \<Rightarrow> Some (Err reliable));
          Some (result_bind seq (\<lambda>seq.
            ok_or overflow (Option.bind (checked_add (vi_len flow) seq) (\<lambda>len. checked_add len n)))) }) }"

definition datagram_len ::
  "flow_id \<Rightarrow> delivery_mode \<Rightarrow> u64 option \<Rightarrow> nat \<Rightarrow> (nat, datagram_submission_error) result exec" where
  "datagram_len =
     datagram_len_with SubmitWire SubmitLengthOverflow SubmitSequenceExhausted SubmitReliableFlow"

definition datagram_len_for_send ::
  "flow_id \<Rightarrow> delivery_mode \<Rightarrow> u64 option \<Rightarrow> nat \<Rightarrow> (nat, datagram_send_error) result exec" where
  "datagram_len_for_send =
     datagram_len_with DriveWire DriveLengthOverflow DriveSequenceExhausted DriveReliableFlow"

definition encode_datagram ::
  "(nat \<Rightarrow> bool) \<Rightarrow> flow_id \<Rightarrow> delivery_mode \<Rightarrow> u64 option \<Rightarrow> bytes \<Rightarrow>
     (bytes, datagram_send_error) result exec" where
  "encode_datagram alloc i mode sequence payload = do {
     n \<leftarrow> datagram_len_for_send i mode sequence (length payload);
     (case n of
        Err e \<Rightarrow> Some (Err e)
      | Ok n \<Rightarrow>
        if \<not> alloc n then Some (Err DriveAllocationFailed)
        else do {
          flow \<leftarrow> encode_varint (flow_id_value i);
          (case flow of
             Err e \<Rightarrow> Some (Err (DriveWire e))
           | Ok flow \<Rightarrow>
             (case mode of
                UnreliableUnordered \<Rightarrow> Some (Ok (varint_slice flow @ payload))
              | UnreliableSequenced \<Rightarrow>
                (case sequence of
                   None \<Rightarrow> Some (Err DriveLengthOverflow)
                 | Some s \<Rightarrow> do {
                     x \<leftarrow> encode_varint s;
                     Some (case x of Err e \<Rightarrow> Err (DriveWire e)
                           | Ok x \<Rightarrow> Ok (varint_slice flow @ varint_slice x @ payload)) })
              | ReliableOrdered \<Rightarrow> Some (Err DriveReliableFlow))) }) }"

section \<open>Sending\<close>

definition datagram_submit ::
  "'t datagram_transport \<Rightarrow> 't datagram_sender \<Rightarrow> delivery_endpoint \<Rightarrow> flow_registry \<Rightarrow> flow_id \<Rightarrow> bytes \<Rightarrow>
     ((datagram_submission_outcome, datagram_submission_error) result
        \<times> 't datagram_sender \<times> delivery_endpoint) exec" where
  "datagram_submit ops s ep g i payload =
     (case registered_outbound_unreliable g i of
        Err e \<Rightarrow> Some (Err (map_registration_submission_error e), s, ep)
      | Ok flow \<Rightarrow>
        if length payload > rf_max_message_bytes flow then Some (Ok DatagramTooLarge, s, ep)
        else case (case rf_mode flow of
              UnreliableUnordered \<Rightarrow> Ok (Ok None)
            | UnreliableSequenced \<Rightarrow>
              (case next_outbound_accepted_index ep (rf_key flow) of
                 Err e \<Rightarrow> Err (SubmitCore e)
               | Ok (Some n) \<Rightarrow> Ok (Ok (Some n))
               | Ok None \<Rightarrow> Ok (Err DatagramCounterExhausted))
            | ReliableOrdered \<Rightarrow> Err SubmitReliableFlow) of
          Err e \<Rightarrow> Some (Err e, s, ep)
        | Ok (Err out) \<Rightarrow> Some (Ok out, s, ep)
        | Ok (Ok candidate) \<Rightarrow> do {
            n \<leftarrow> datagram_len i (rf_mode flow) candidate (length payload);
            (case n of
               Err e \<Rightarrow> Some (Err e, s, ep)
             | Ok n \<Rightarrow>
               (case dgt_max_size ops (dgs_transport s) of
                  (None, t) \<Rightarrow> Some (Ok DatagramTransportUnavailable, s\<lparr>dgs_transport := t\<rparr>, ep)
                | (Some max_size, t) \<Rightarrow>
                  let s = s\<lparr>dgs_transport := t\<rparr>
                  in if n > max_size then Some (Ok DatagramCurrentSize, s, ep)
                     else do {
                       (x, ep) \<leftarrow> submit ep (rf_key flow) payload;
                       Some (case x of
                           Err e \<Rightarrow> (Err (SubmitCore e), s, ep)
                         | Ok (Accepted idx drops) \<Rightarrow>
                             (case candidate of
                                Some c \<Rightarrow> if idx \<noteq> c then (Err (AcceptedIndexMismatch c idx), s, ep)
                                          else (Ok (DatagramAccepted idx drops), s, ep)
                              | None \<Rightarrow> (Ok (DatagramAccepted idx drops), s, ep))
                         | Ok RejectedTooLarge \<Rightarrow> (Ok DatagramTooLarge, s, ep)
                         | Ok RejectedPressure \<Rightarrow> (Ok DatagramPressure, s, ep)
                         | Ok RejectedCounterExhausted \<Rightarrow> (Ok DatagramCounterExhausted, s, ep)) })) })"

definition drop_transport ::
  "'t datagram_sender \<Rightarrow> delivery_endpoint \<Rightarrow> delivery_flow_key \<Rightarrow> u64 \<Rightarrow>
     ((datagram_send_progress, datagram_send_error) result \<times> 't datagram_sender \<times> delivery_endpoint) exec" where
  "drop_transport s ep key idx = do {
     (x, ep) \<leftarrow> commit_outbound_custody ep key idx;
     Some (case x of
         Err e \<Rightarrow> (Err (DriveCustody e), s, ep)
       | Ok _ \<Rightarrow> (Ok (DroppedTransport idx),
           s\<lparr>dgs_outbound_transport_drops := saturating_add (dgs_outbound_transport_drops s) 1\<rparr>, ep)) }"

text \<open>The bytes are ready: ask the transport once more, and hand them over.\<close>

definition hand_over ::
  "'t datagram_transport \<Rightarrow> 't datagram_sender \<Rightarrow> delivery_endpoint \<Rightarrow> delivery_flow_key \<Rightarrow> u64 \<Rightarrow> bytes \<Rightarrow>
     ((datagram_send_progress, datagram_send_error) result \<times> 't datagram_sender \<times> delivery_endpoint) exec" where
  "hand_over ops s ep key idx datagram =
     (case dgt_max_size ops (dgs_transport s) of
        (None, t) \<Rightarrow> Some (Err ProfileUnavailable, s\<lparr>dgs_transport := t\<rparr>, ep)
      | (Some max_size, t) \<Rightarrow>
        if length datagram > max_size then drop_transport (s\<lparr>dgs_transport := t\<rparr>) ep key idx
        else case dgt_space ops t of (available, t) \<Rightarrow>
          if length datagram > available
          then Some (Ok (BlockedNativeBuffer (length datagram) available), s\<lparr>dgs_transport := t\<rparr>, ep)
          else case dgt_send ops t datagram of (x, t) \<Rightarrow>
            let s = s\<lparr>dgs_transport := t\<rparr>
            in case x of
                 Ok _ \<Rightarrow> do {
                   (y, ep) \<leftarrow> commit_outbound_custody ep key idx;
                   Some (case y of Err e \<Rightarrow> (Err (DriveCustody e), s, ep)
                                 | Ok _ \<Rightarrow> (Ok (DatagramEnqueued idx), s, ep)) }
               | Err TransportTooLarge \<Rightarrow> drop_transport s ep key idx
               | Err UnsupportedByPeer \<Rightarrow> Some (Err ProfileUnavailable, s, ep)
               | Err TransportDisabled \<Rightarrow> Some (Err ProfileUnavailable, s, ep)
               | Err TransportConnectionLost \<Rightarrow> Some (Err DriveConnectionLost, s, ep))"

text \<open>The length is known: ask the transport for it, then build the bytes.\<close>

definition drive_sized ::
  "(nat \<Rightarrow> bool) \<Rightarrow> 't datagram_transport \<Rightarrow> 't datagram_sender \<Rightarrow> delivery_endpoint \<Rightarrow> registered_flow \<Rightarrow>
     flow_id \<Rightarrow> delivery_transfer \<Rightarrow> u64 option \<Rightarrow> nat \<Rightarrow>
     ((datagram_send_progress, datagram_send_error) result \<times> 't datagram_sender \<times> delivery_endpoint) exec" where
  "drive_sized alloc ops s ep flow i transfer sequence n =
     (case dgt_max_size ops (dgs_transport s) of
        (None, t) \<Rightarrow> Some (Err ProfileUnavailable, s\<lparr>dgs_transport := t\<rparr>, ep)
      | (Some max_size, t) \<Rightarrow>
        if n > max_size
        then drop_transport (s\<lparr>dgs_transport := t\<rparr>) ep (rf_key flow) (dt_accepted_index transfer)
        else case dgt_space ops t of (available, t) \<Rightarrow>
          let s = s\<lparr>dgs_transport := t\<rparr>
          in if n > available then Some (Ok (BlockedNativeBuffer n available), s, ep)
             else do {
               datagram \<leftarrow> encode_datagram alloc i (rf_mode flow) sequence (dt_payload transfer);
               (case datagram of
                  Err e \<Rightarrow> Some (Err e, s, ep)
                | Ok datagram \<Rightarrow> hand_over ops s ep (rf_key flow) (dt_accepted_index transfer) datagram) })"

definition drive_one ::
  "(nat \<Rightarrow> bool) \<Rightarrow> 't datagram_transport \<Rightarrow> 't datagram_sender \<Rightarrow> delivery_endpoint \<Rightarrow> flow_registry \<Rightarrow> flow_id \<Rightarrow>
     ((datagram_send_progress, datagram_send_error) result \<times> 't datagram_sender \<times> delivery_endpoint) exec" where
  "drive_one alloc ops s ep g i =
     (case registered_outbound_unreliable g i of
        Err e \<Rightarrow> Some (Err (map_registration_send_error e), s, ep)
      | Ok flow \<Rightarrow>
        (case peek_outbound ep (rf_key flow) of
           Err e \<Rightarrow> Some (Err (DriveCore e), s, ep)
         | Ok None \<Rightarrow> Some (Ok DatagramIdle, s, ep)
         | Ok (Some transfer) \<Rightarrow>
           if dt_mode transfer \<noteq> rf_mode flow then Some (Err DriveModeMismatch, s, ep)
           else if payload_len transfer > rf_max_message_bytes flow
           then Some (Err DrivePayloadExceedsProfile, s, ep)
           else if rf_mode flow = ReliableOrdered then Some (Err DriveReliableFlow, s, ep)
           else let sequence = (if rf_mode flow = UnreliableSequenced then Some (dt_accepted_index transfer) else None)
             in do {
               n \<leftarrow> datagram_len_for_send i (rf_mode flow) sequence (payload_len transfer);
               (case n of
                  Err e \<Rightarrow> Some (Err e, s, ep)
                | Ok n \<Rightarrow> drive_sized alloc ops s ep flow i transfer sequence n) }))"

section \<open>Receiving\<close>

datatype datagram_receive_outcome =
    DiscardedUnknownFlow
  | CoreReceived delivery_flow_key receive_outcome

datatype datagram_receive_error =
    DatagramVarInt varint_decode_error
  | DatagramFlowId flow_id_error
  | DatagramWrongDirection
  | DatagramReliableFlow
  | DatagramPayloadExceedsProfile
  | DatagramAllocationFailed
  | DatagramCore delivery_operation_error

record datagram_receive_failure =
  drf_flow_id :: "flow_id option"
  drf_error :: datagram_receive_error

definition unresolved :: "datagram_receive_error \<Rightarrow> datagram_receive_failure" where
  "unresolved e = \<lparr>drf_flow_id = None, drf_error = e\<rparr>"

definition resolved :: "flow_id \<Rightarrow> datagram_receive_error \<Rightarrow> datagram_receive_failure" where
  "resolved i e = \<lparr>drf_flow_id = Some i, drf_error = e\<rparr>"

text \<open>The index and the payload that a datagram carries after its flow identifier.\<close>

definition datagram_index ::
  "delivery_mode \<Rightarrow> bytes \<Rightarrow> nat \<Rightarrow> (u64 \<times> nat, datagram_receive_error) result" where
  "datagram_index mode datagram flow_bytes =
     (case mode of
        UnreliableUnordered \<Rightarrow> Ok (UNORDERED_INGRESS_INDEX, flow_bytes)
      | UnreliableSequenced \<Rightarrow>
        (case decode_varint (drop flow_bytes datagram) of
           Err e \<Rightarrow> Err (DatagramVarInt e)
         | Ok (s, n) \<Rightarrow> Ok (s, flow_bytes + n))
      | ReliableOrdered \<Rightarrow> Err DatagramReliableFlow)"

definition receive_datagram ::
  "(nat \<Rightarrow> bool) \<Rightarrow> delivery_endpoint \<Rightarrow> flow_registry \<Rightarrow> bytes \<Rightarrow>
     ((datagram_receive_outcome, datagram_receive_failure) result \<times> delivery_endpoint) exec" where
  "receive_datagram alloc ep g datagram =
     (case decode_varint datagram of
        Err e \<Rightarrow> Some (Err (unresolved (DatagramVarInt e)), ep)
      | Ok (flow_value, flow_bytes) \<Rightarrow>
        (case flow_id_from_wire flow_value of
           Err e \<Rightarrow> Some (Err (unresolved (DatagramFlowId e)), ep)
         | Ok i \<Rightarrow>
           (case lookup_flow g i of
              None \<Rightarrow> Some (Ok DiscardedUnknownFlow, ep)
            | Some flow \<Rightarrow>
              if fk_direction (rf_key flow) \<noteq> Inbound then Some (Err (resolved i DatagramWrongDirection), ep)
              else if rf_mode flow = ReliableOrdered then Some (Err (resolved i DatagramReliableFlow), ep)
              else case datagram_index (rf_mode flow) datagram flow_bytes of
                Err e \<Rightarrow> Some (Err (resolved i e), ep)
              | Ok (idx, offset) \<Rightarrow>
                let payload = drop offset datagram
                in if length payload > rf_max_message_bytes flow
                   then Some (Err (resolved i DatagramPayloadExceedsProfile), ep)
                   else if \<not> alloc (length payload)
                   then Some (Err (resolved i DatagramAllocationFailed), ep)
                   else do {
                     (x, ep) \<leftarrow> receive_transport_payload ep (rf_key flow) idx payload;
                     Some (case x of
                         Err e \<Rightarrow> (Err (resolved i (DatagramCore e)), ep)
                       | Ok out \<Rightarrow> (Ok (CoreReceived (rf_key flow) out), ep)) })))"

end
