(* ===== verification/Flow_Control.thy ===== *)
theory Flow_Control
  imports Control_Stream Datagrams
begin

text \<open>
  Flow control, \<open>crates/runen-net-quic/src/flow_control.rs\<close>: opening, accepting, rejecting and
  terminating flows by frames of the control stream. The state holds both identifier cursors, the
  opens that wait for the peer's answer, the peer's open that waits for the host's decision, and the
  registry of accepted flows; the core endpoint is passed to the operations that establish or
  terminate. Which allocations succeed is an argument of every call.
\<close>

record flow_allocs =
  al_pending :: bool
  al_registry :: bool
  al_frame :: "nat \<Rightarrow> bool"
  al_reply :: "nat \<Rightarrow> bool"

datatype flow_control_config_error = ActiveRegistryCapacityOverflow | ActiveRegistryCapacityOutOfRange

datatype outbound_open_error =
    OpenWrongConnection connection_handle connection_handle
  | OpenWrongDirection flow_direction
  | OpenInvalidPolicy delivery_policy_error
  | CoreFlowAlreadyExists delivery_flow_key
  | PendingCoreFlow delivery_flow_key
  | StableMessageLimitMismatch nat nat
  | StableMessageLimitOutOfRange
  | PeerMessageLimit u64 u64
  | PeerActiveFlowLimit u64 u64
  | DatagramUnavailable
  | DatagramTooSmall nat nat
  | DatagramEnvelope datagram_submission_error
  | OpenFlowId flow_id_cursor_error
  | OpenBody control_body_error
  | OpenAllocation

datatype flow_control_error =
    InboundDecisionPending flow_id
  | UnexpectedFrame control_frame_type
  | ControlBody control_body_error
  | ControlFlowId flow_id_cursor_error
  | WrongResponseSide wire_side wire_side
  | UnknownPendingFlow flow_id
  | UnknownActiveFlow flow_id
  | ReliableNormalUsesFin flow_id
  | CoreState delivery_operation_error
  | ControlEstablishment flow_establishment_error
  | ControlRegistry registry_error
  | FlowAllocation

datatype inbound_admission_error =
    RequestNotPending flow_id
  | AdmitWrongConnection connection_handle connection_handle
  | AdmitWrongDirection flow_direction
  | AdmitInvalidPolicy delivery_policy_error
  | AdmitEstablishment flow_establishment_error
  | AdmitRegistry registry_error
  | CoreRollback delivery_operation_error
  | AdmitAllocation

text \<open>A prepared flow and an established one have the same fields.\<close>

record flow_facts =
  ff_flow_id :: flow_id
  ff_key :: delivery_flow_key
  ff_mode :: delivery_mode
  ff_max_message_bytes :: nat

record outbound_open_request =
  or_open_key :: delivery_flow_key
  or_open_mode :: delivery_mode
  or_open_policy :: flow_resource_policy
  or_open_stable_max :: nat
  or_open_limits :: delivery_scope_limits

record prepared_outbound_open =
  po_frame :: control_frame
  po_flow :: flow_facts

text \<open>The peer's open as it is reported to the host; \<open>PendingInboundFlow\<close> has the same fields.\<close>

record inbound_open =
  io_flow_id :: flow_id
  io_mode :: delivery_mode
  io_max_message_bytes :: u64

record inbound_admission =
  ia_key :: delivery_flow_key
  ia_policy :: flow_resource_policy
  ia_limits :: delivery_scope_limits

datatype flow_control_progress =
    InboundOpen inbound_open
  | InboundRejected flow_id flow_reject_reason control_frame
  | OutboundEstablished flow_facts
  | OutboundRejected flow_id delivery_flow_key flow_reject_reason
  | OutboundFailedAfterAccept flow_id delivery_flow_key flow_terminate_reason "flow_termination option" control_frame
  | RemoteTerminated flow_facts flow_terminate_reason flow_termination

datatype inbound_resolution =
    InboundAccepted flow_facts control_frame
  | InboundRefused flow_id flow_reject_reason control_frame

record local_termination =
  lt_flow :: flow_facts
  lt_reason :: flow_terminate_reason
  lt_termination :: flow_termination
  lt_frame :: control_frame

record pending_outbound =
  pn_key :: delivery_flow_key
  pn_mode :: delivery_mode
  pn_policy :: flow_resource_policy
  pn_limits :: delivery_scope_limits
  pn_stable_max :: nat

record flow_control =
  fn_connection :: connection_handle
  fn_local_side :: wire_side
  fn_local_settings :: settings
  fn_peer_settings :: settings
  fn_local_flow_ids :: flow_id_cursor
  fn_peer_flow_ids :: flow_id_cursor
  fn_pending_outbound :: "(u64, pending_outbound) fmap"
  fn_pending_inbound :: "inbound_open option"
  fn_registry :: flow_registry

definition flow_control_new ::
  "connection_handle \<Rightarrow> wire_side \<Rightarrow> settings \<Rightarrow> settings \<Rightarrow> (flow_control, flow_control_config_error) result" where
  "flow_control_new connection side l p =
     result_bind (ok_or ActiveRegistryCapacityOverflow
       (u64_checked_add (se_max_active_incoming_flows l) (se_max_active_incoming_flows p))) (\<lambda>capacity.
     result_bind (ok_or ActiveRegistryCapacityOutOfRange (u64_to_usize capacity)) (\<lambda>capacity.
     if capacity = 0 then Err ActiveRegistryCapacityOutOfRange
     else Ok \<lparr>fn_connection = connection, fn_local_side = side, fn_local_settings = l, fn_peer_settings = p,
       fn_local_flow_ids = flow_id_cursor_new side, fn_peer_flow_ids = flow_id_cursor_new (opposite_side side),
       fn_pending_outbound = fmempty, fn_pending_inbound = None,
       fn_registry = flow_registry_new side capacity\<rparr>))"

section \<open>Frames\<close>

definition owned_frame ::
  "(nat \<Rightarrow> bool) \<Rightarrow> control_frame_type \<Rightarrow> encoded_control_body \<Rightarrow> control_frame option" where
  "owned_frame alloc t body =
     (let bs = body_slice body in if alloc (length bs) then Some \<lparr>cf_type = t, cf_body = bs\<rparr> else None)"

text \<open>The outer option is the panic of the encoder, the inner one a failed allocation.\<close>

definition accept_frame :: "(nat \<Rightarrow> bool) \<Rightarrow> flow_id \<Rightarrow> control_frame option exec" where
  "accept_frame alloc i = do {
     b \<leftarrow> flow_accept_encode (FlowAccept i);
     Some (owned_frame alloc FlowAcceptType b) }"

definition reject_frame :: "(nat \<Rightarrow> bool) \<Rightarrow> flow_id \<Rightarrow> flow_reject_reason \<Rightarrow> control_frame option exec" where
  "reject_frame alloc i r = do {
     b \<leftarrow> flow_reject_encode \<lparr>fr_flow_id = i, fr_reason = r\<rparr>;
     Some (owned_frame alloc FlowRejectType b) }"

definition terminate_frame :: "(nat \<Rightarrow> bool) \<Rightarrow> flow_id \<Rightarrow> flow_terminate_reason \<Rightarrow> control_frame option exec" where
  "terminate_frame alloc i r = do {
     b \<leftarrow> flow_terminate_encode \<lparr>fx_flow_id = i, fx_reason = r\<rparr>;
     Some (owned_frame alloc FlowTerminateType b) }"

definition established_from_registered :: "flow_id \<Rightarrow> registered_flow \<Rightarrow> flow_facts" where
  "established_from_registered i f = \<lparr>ff_flow_id = i, ff_key = rf_key f, ff_mode = rf_mode f,
     ff_max_message_bytes = rf_max_message_bytes f\<rparr>"

section \<open>Opening\<close>

definition validate_outbound_identity ::
  "flow_control \<Rightarrow> delivery_endpoint \<Rightarrow> delivery_flow_key \<Rightarrow> (unit, outbound_open_error) result" where
  "validate_outbound_identity c ep key =
     (if fk_connection key \<noteq> fn_connection c
      then Err (OpenWrongConnection (fn_connection c) (fk_connection key))
      else if fk_direction key \<noteq> Outbound then Err (OpenWrongDirection (fk_direction key))
      else if flow_contract ep key \<noteq> None then Err (CoreFlowAlreadyExists key)
      else if fBex (fmdom (fn_pending_outbound c))
        (\<lambda>v. map_option pn_key (fmlookup (fn_pending_outbound c) v) = Some key)
      then Err (PendingCoreFlow key)
      else Ok ())"

text \<open>The checks on the request that need neither an identifier nor the transport.\<close>

definition validate_open ::
  "flow_control \<Rightarrow> delivery_endpoint \<Rightarrow> outbound_open_request \<Rightarrow> (u64, outbound_open_error) result" where
  "validate_open c ep q =
     result_bind (validate_outbound_identity c ep (or_open_key q)) (\<lambda>_.
     result_bind (map_err OpenInvalidPolicy (validate_for_mode (or_open_policy q) (or_open_mode q))) (\<lambda>_.
     if fp_max_message_bytes (or_open_policy q) \<noteq> or_open_stable_max q
     then Err (StableMessageLimitMismatch (fp_max_message_bytes (or_open_policy q)) (or_open_stable_max q))
     else result_bind (ok_or StableMessageLimitOutOfRange (usize_to_u64 (or_open_stable_max q))) (\<lambda>stable_wire.
     if stable_wire > MAX_VARINT then Err StableMessageLimitOutOfRange
     else if stable_wire > se_max_incoming_message_bytes (fn_peer_settings c)
     then Err (PeerMessageLimit stable_wire (se_max_incoming_message_bytes (fn_peer_settings c)))
     else
       let in_use = (case Option.bind (checked_add (active_direction_len (fn_registry c) Outbound)
               (fm_len (fn_pending_outbound c))) usize_to_u64 of Some n \<Rightarrow> n | None \<Rightarrow> -1)
       in if in_use \<ge> se_max_active_incoming_flows (fn_peer_settings c)
          then Err (PeerActiveFlowLimit in_use (se_max_active_incoming_flows (fn_peer_settings c)))
          else Ok stable_wire)))"

text \<open>An unreliable flow is opened only while its largest message fits a datagram.\<close>

definition validate_envelope ::
  "flow_id \<Rightarrow> delivery_mode \<Rightarrow> nat \<Rightarrow> nat option \<Rightarrow> (unit, outbound_open_error) result exec" where
  "validate_envelope i mode stable_max available =
     (if mode = ReliableOrdered then Some (Ok ())
      else do {
        needed \<leftarrow> datagram_len i mode (if mode = UnreliableSequenced then Some MAX_VARINT else None) stable_max;
        Some (case needed of
            Err e \<Rightarrow> Err (DatagramEnvelope e)
          | Ok needed \<Rightarrow>
            (case available of
               None \<Rightarrow> Err DatagramUnavailable
             | Some available \<Rightarrow>
               if needed > available then Err (DatagramTooSmall needed available) else Ok ())) })"

definition prepare_outbound_open ::
  "flow_allocs \<Rightarrow> flow_control \<Rightarrow> delivery_endpoint \<Rightarrow> outbound_open_request \<Rightarrow> nat option \<Rightarrow>
     ((prepared_outbound_open, outbound_open_error) result \<times> flow_control) exec" where
  "prepare_outbound_open al c ep q datagram_size =
     (case validate_open c ep q of
        Err e \<Rightarrow> Some (Err e, c)
      | Ok stable_wire \<Rightarrow> do {
          (preview, _) \<leftarrow> cursor_allocate (fn_local_flow_ids c);
          (case preview of
             Err e \<Rightarrow> Some (Err (OpenFlowId e), c)
           | Ok i \<Rightarrow> do {
               fits \<leftarrow> validate_envelope i (or_open_mode q) (or_open_stable_max q) datagram_size;
               (case fits of
                  Err e \<Rightarrow> Some (Err e, c)
                | Ok _ \<Rightarrow>
                  if \<not> al_pending al then Some (Err OpenAllocation, c)
                  else case open_flow_new i (or_open_mode q) stable_wire of
                    Err e \<Rightarrow> Some (Err (OpenBody e), c)
                  | Ok x \<Rightarrow> do {
                      body \<leftarrow> open_flow_encode x;
                      (case owned_frame (al_frame al) OpenFlowType body of
                         None \<Rightarrow> Some (Err OpenAllocation, c)
                       | Some frame \<Rightarrow> do {
                           (allocated, ids) \<leftarrow> cursor_allocate (fn_local_flow_ids c);
                           Some (case allocated of
                               Err e \<Rightarrow> (Err (OpenFlowId e), c)
                             | Ok _ \<Rightarrow>
                                (Ok \<lparr>po_frame = frame, po_flow = \<lparr>ff_flow_id = i, ff_key = or_open_key q,
                                   ff_mode = or_open_mode q, ff_max_message_bytes = or_open_stable_max q\<rparr>\<rparr>,
                                 c\<lparr>fn_local_flow_ids := ids,
                                   fn_pending_outbound := fmupd (flow_id_value i)
                                     \<lparr>pn_key = or_open_key q, pn_mode = or_open_mode q, pn_policy = or_open_policy q,
                                      pn_limits = or_open_limits q, pn_stable_max = or_open_stable_max q\<rparr>
                                     (fn_pending_outbound c)\<rparr>)) }) }) }) })"

section \<open>Receiving\<close>

definition inbound_rejection ::
  "flow_allocs \<Rightarrow> flow_id \<Rightarrow> flow_reject_reason \<Rightarrow> (flow_control_progress, flow_control_error) result exec" where
  "inbound_rejection al i r = do {
     frame \<leftarrow> reject_frame (al_frame al) i r;
     Some (case frame of None \<Rightarrow> Err FlowAllocation | Some frame \<Rightarrow> Ok (InboundRejected i r frame)) }"

text \<open>The number of registered flows of a direction as the code compares it with a limit.\<close>

definition active_count :: "flow_control \<Rightarrow> flow_direction \<Rightarrow> u64" where
  "active_count c d = (case usize_to_u64 (active_direction_len (fn_registry c) d) of Some n \<Rightarrow> n | None \<Rightarrow> -1)"

definition receive_open ::
  "flow_allocs \<Rightarrow> flow_control \<Rightarrow> bytes \<Rightarrow>
     ((flow_control_progress, flow_control_error) result \<times> flow_control) exec" where
  "receive_open al c body =
     (case open_flow_decode body of
        Err e \<Rightarrow> Some (Err (ControlBody e), c)
      | Ok x \<Rightarrow>
        (case validate_and_consume (fn_peer_flow_ids c) (of_flow_id x) of
           (Err e, ids) \<Rightarrow> Some (Err (ControlFlowId e), c\<lparr>fn_peer_flow_ids := ids\<rparr>)
         | (Ok _, ids) \<Rightarrow>
           let c = c\<lparr>fn_peer_flow_ids := ids\<rparr>
           in if of_max_message_bytes x > se_max_incoming_message_bytes (fn_local_settings c)
              then do { out \<leftarrow> inbound_rejection al (of_flow_id x) RejectMessageLimit; Some (out, c) }
              else if active_count c Inbound \<ge> se_max_active_incoming_flows (fn_local_settings c)
              then do { out \<leftarrow> inbound_rejection al (of_flow_id x) RejectResourceLimit; Some (out, c) }
              else let pending = \<lparr>io_flow_id = of_flow_id x, io_mode = of_delivery_mode x,
                         io_max_message_bytes = of_max_message_bytes x\<rparr>
                   in Some (Ok (InboundOpen pending), c\<lparr>fn_pending_inbound := Some pending\<rparr>)))"

definition require_local_response_side :: "flow_control \<Rightarrow> flow_id \<Rightarrow> (unit, flow_control_error) result" where
  "require_local_response_side c i =
     (if flow_id_side i = fn_local_side c then Ok () else Err (WrongResponseSide (fn_local_side c) (flow_id_side i)))"

definition outbound_resource_failure ::
  "flow_allocs \<Rightarrow> flow_id \<Rightarrow> delivery_flow_key \<Rightarrow> flow_termination option \<Rightarrow>
     (flow_control_progress, flow_control_error) result exec" where
  "outbound_resource_failure al i key t = do {
     frame \<leftarrow> terminate_frame (al_frame al) i TerminateResourceFailure;
     Some (case frame of None \<Rightarrow> Err FlowAllocation
       | Some frame \<Rightarrow> Ok (OutboundFailedAfterAccept i key TerminateResourceFailure t frame)) }"

text \<open>Registration of a flow that the core has just established for an accepted open.\<close>

definition complete_accept ::
  "flow_allocs \<Rightarrow> flow_control \<Rightarrow> delivery_endpoint \<Rightarrow> flow_id \<Rightarrow> pending_outbound \<Rightarrow>
     ((flow_control_progress, flow_control_error) result \<times> flow_control \<times> delivery_endpoint) exec" where
  "complete_accept al c ep i p =
     (case register_consumed_accepted_flow (al_registry al) (fn_registry c) ep i (pn_key p) (pn_stable_max p) of
        (Ok _, g) \<Rightarrow> Some (Ok (OutboundEstablished \<lparr>ff_flow_id = i, ff_key = pn_key p, ff_mode = pn_mode p,
            ff_max_message_bytes = pn_stable_max p\<rparr>), c\<lparr>fn_registry := g\<rparr>, ep)
      | (Err e, g) \<Rightarrow> do {
          (t, ep) \<leftarrow> terminate_flow ep (pn_key p) Requested;
          (case t of
             Err x \<Rightarrow> Some (Err (CoreState x), c\<lparr>fn_registry := g\<rparr>, ep)
           | Ok t \<Rightarrow>
             if e = RegistryCapacityExceeded \<or> e = RegistryAllocationFailed then do {
               out \<leftarrow> outbound_resource_failure al i (pn_key p) (Some t);
               Some (out, c\<lparr>fn_registry := g\<rparr>, ep) }
             else Some (Err (ControlRegistry e), c\<lparr>fn_registry := g\<rparr>, ep)) })"

definition receive_accept ::
  "flow_allocs \<Rightarrow> flow_control \<Rightarrow> delivery_endpoint \<Rightarrow> bytes \<Rightarrow>
     ((flow_control_progress, flow_control_error) result \<times> flow_control \<times> delivery_endpoint) exec" where
  "receive_accept al c ep body =
     (case flow_accept_decode body of
        Err e \<Rightarrow> Some (Err (ControlBody e), c, ep)
      | Ok x \<Rightarrow>
        (case require_local_response_side c (fa_flow_id x) of
           Err e \<Rightarrow> Some (Err e, c, ep)
         | Ok _ \<Rightarrow>
           (case fmlookup (fn_pending_outbound c) (flow_id_value (fa_flow_id x)) of
              None \<Rightarrow> Some (Err (UnknownPendingFlow (fa_flow_id x)), c, ep)
            | Some p \<Rightarrow>
              let c = c\<lparr>fn_pending_outbound := fmdrop (flow_id_value (fa_flow_id x)) (fn_pending_outbound c)\<rparr>
              in do {
                (r, ep) \<leftarrow> establish_flow ep (pn_key p) (pn_mode p) (pn_policy p) (pn_limits p);
                (case r of
                   Ok _ \<Rightarrow> complete_accept al c ep (fa_flow_id x) p
                 | Err (ActiveFlowLimitExceeded _) \<Rightarrow> do {
                     out \<leftarrow> outbound_resource_failure al (fa_flow_id x) (pn_key p) None;
                     Some (out, c, ep) }
                 | Err e \<Rightarrow> Some (Err (ControlEstablishment e), c, ep)) })))"

definition receive_reject ::
  "flow_control \<Rightarrow> bytes \<Rightarrow> (flow_control_progress, flow_control_error) result \<times> flow_control" where
  "receive_reject c body =
     (case flow_reject_decode body of
        Err e \<Rightarrow> (Err (ControlBody e), c)
      | Ok x \<Rightarrow>
        (case require_local_response_side c (fr_flow_id x) of
           Err e \<Rightarrow> (Err e, c)
         | Ok _ \<Rightarrow>
           (case fmlookup (fn_pending_outbound c) (flow_id_value (fr_flow_id x)) of
              None \<Rightarrow> (Err (UnknownPendingFlow (fr_flow_id x)), c)
            | Some p \<Rightarrow> (Ok (OutboundRejected (fr_flow_id x) (pn_key p) (fr_reason x)),
                c\<lparr>fn_pending_outbound := fmdrop (flow_id_value (fr_flow_id x)) (fn_pending_outbound c)\<rparr>))))"

definition receive_terminate ::
  "flow_control \<Rightarrow> delivery_endpoint \<Rightarrow> bytes \<Rightarrow>
     ((flow_control_progress, flow_control_error) result \<times> flow_control \<times> delivery_endpoint) exec" where
  "receive_terminate c ep body =
     (case flow_terminate_decode body of
        Err e \<Rightarrow> Some (Err (ControlBody e), c, ep)
      | Ok x \<Rightarrow>
        (case lookup_flow (fn_registry c) (fx_flow_id x) of
           None \<Rightarrow> Some (Err (UnknownActiveFlow (fx_flow_id x)), c, ep)
         | Some f \<Rightarrow>
           if rf_mode f = ReliableOrdered \<and> fx_reason x = TerminateNormal
           then Some (Err (ReliableNormalUsesFin (fx_flow_id x)), c, ep)
           else do {
             (t, ep) \<leftarrow> terminate_flow ep (rf_key f) Requested;
             Some (case t of
                 Err e \<Rightarrow> (Err (CoreState e), c, ep)
               | Ok t \<Rightarrow> (Ok (RemoteTerminated (established_from_registered (fx_flow_id x) f) (fx_reason x) t),
                   c\<lparr>fn_registry := registry_release (fn_registry c) (fx_flow_id x)\<rparr>, ep)) }))"

definition flow_control_receive ::
  "flow_allocs \<Rightarrow> flow_control \<Rightarrow> delivery_endpoint \<Rightarrow> control_frame \<Rightarrow>
     ((flow_control_progress, flow_control_error) result \<times> flow_control \<times> delivery_endpoint) exec" where
  "flow_control_receive al c ep frame =
     (case cf_type frame of
        OpenFlowType \<Rightarrow>
          (case fn_pending_inbound c of
             Some p \<Rightarrow> Some (Err (InboundDecisionPending (io_flow_id p)), c, ep)
           | None \<Rightarrow> do { (out, c) \<leftarrow> receive_open al c (cf_body frame); Some (out, c, ep) })
      | FlowAcceptType \<Rightarrow> receive_accept al c ep (cf_body frame)
      | FlowRejectType \<Rightarrow> (case receive_reject c (cf_body frame) of (out, c) \<Rightarrow> Some (out, c, ep))
      | FlowTerminateType \<Rightarrow> receive_terminate c ep (cf_body frame)
      | t \<Rightarrow> Some (Err (UnexpectedFrame t), c, ep))"

section \<open>Deciding on the peer's open\<close>

definition resolve_inbound_rejection ::
  "(nat \<Rightarrow> bool) \<Rightarrow> flow_control \<Rightarrow> inbound_open \<Rightarrow> flow_reject_reason \<Rightarrow>
     ((inbound_resolution, inbound_admission_error) result \<times> flow_control) exec" where
  "resolve_inbound_rejection alloc c q r = do {
     frame \<leftarrow> reject_frame alloc (io_flow_id q) r;
     Some (case frame of
         None \<Rightarrow> (Err AdmitAllocation, c\<lparr>fn_pending_inbound := None\<rparr>)
       | Some frame \<Rightarrow> (Ok (InboundRefused (io_flow_id q) r frame), c\<lparr>fn_pending_inbound := None\<rparr>)) }"

definition require_pending_inbound ::
  "flow_control \<Rightarrow> inbound_open \<Rightarrow> (unit, inbound_admission_error) result" where
  "require_pending_inbound c q =
     (if fn_pending_inbound c = Some q then Ok () else Err (RequestNotPending (io_flow_id q)))"

definition reject_inbound ::
  "flow_allocs \<Rightarrow> flow_control \<Rightarrow> inbound_open \<Rightarrow> flow_reject_reason \<Rightarrow>
     ((inbound_resolution, inbound_admission_error) result \<times> flow_control) exec" where
  "reject_inbound al c q r =
     (case require_pending_inbound c q of
        Err e \<Rightarrow> Some (Err e, c)
      | Ok _ \<Rightarrow> resolve_inbound_rejection (al_reply al) c q r)"

text \<open>Registration of a flow that the core has just established for the peer's open.\<close>

definition complete_admission ::
  "flow_allocs \<Rightarrow> flow_control \<Rightarrow> delivery_endpoint \<Rightarrow> inbound_open \<Rightarrow> inbound_admission \<Rightarrow> control_frame \<Rightarrow>
     ((inbound_resolution, inbound_admission_error) result \<times> flow_control \<times> delivery_endpoint) exec" where
  "complete_admission al c ep q a frame =
     (case u64_to_usize (io_max_message_bytes q) of
        None \<Rightarrow> None
      | Some stable_wire \<Rightarrow>
        if stable_wire = 0 then None
        else case register_consumed_accepted_flow (al_registry al) (fn_registry c) ep (io_flow_id q) (ia_key a) stable_wire of
          (Ok _, g) \<Rightarrow> Some (Ok (InboundAccepted \<lparr>ff_flow_id = io_flow_id q, ff_key = ia_key a, ff_mode = io_mode q,
              ff_max_message_bytes = stable_wire\<rparr> frame), c\<lparr>fn_registry := g, fn_pending_inbound := None\<rparr>, ep)
        | (Err e, g) \<Rightarrow> do {
            (t, ep) \<leftarrow> terminate_flow ep (ia_key a) Requested;
            (case t of
               Err x \<Rightarrow> Some (Err (CoreRollback x), c\<lparr>fn_registry := g, fn_pending_inbound := None\<rparr>, ep)
             | Ok _ \<Rightarrow>
               if e = RegistryCapacityExceeded \<or> e = RegistryAllocationFailed then do {
                 (out, c) \<leftarrow> resolve_inbound_rejection (al_reply al) (c\<lparr>fn_registry := g\<rparr>) q RejectResourceLimit;
                 Some (out, c, ep) }
               else Some (Err (AdmitRegistry e), c\<lparr>fn_registry := g, fn_pending_inbound := None\<rparr>, ep)) })"

definition admit_pending ::
  "flow_allocs \<Rightarrow> flow_control \<Rightarrow> delivery_endpoint \<Rightarrow> inbound_open \<Rightarrow> inbound_admission \<Rightarrow>
     ((inbound_resolution, inbound_admission_error) result \<times> flow_control \<times> delivery_endpoint) exec" where
  "admit_pending al c ep q a = do {
     frame \<leftarrow> accept_frame (al_frame al) (io_flow_id q);
     (case frame of
        None \<Rightarrow> Some (Err AdmitAllocation, c\<lparr>fn_pending_inbound := None\<rparr>, ep)
      | Some frame \<Rightarrow> do {
          (r, ep) \<leftarrow> establish_flow ep (ia_key a) (io_mode q) (ia_policy a) (ia_limits a);
          (case r of
             Ok _ \<Rightarrow> complete_admission al c ep q a frame
           | Err (ActiveFlowLimitExceeded _) \<Rightarrow> do {
               (out, c) \<leftarrow> resolve_inbound_rejection (al_reply al) c q RejectResourceLimit;
               Some (out, c, ep) }
           | Err e \<Rightarrow> Some (Err (AdmitEstablishment e), c\<lparr>fn_pending_inbound := None\<rparr>, ep)) }) }"

definition accept_inbound ::
  "flow_allocs \<Rightarrow> flow_control \<Rightarrow> delivery_endpoint \<Rightarrow> inbound_open \<Rightarrow> inbound_admission \<Rightarrow>
     ((inbound_resolution, inbound_admission_error) result \<times> flow_control \<times> delivery_endpoint) exec" where
  "accept_inbound al c ep q a =
     (case require_pending_inbound c q of
        Err e \<Rightarrow> Some (Err e, c, ep)
      | Ok _ \<Rightarrow>
        let cleared = c\<lparr>fn_pending_inbound := None\<rparr>
        in if fk_connection (ia_key a) \<noteq> fn_connection c
           then Some (Err (AdmitWrongConnection (fn_connection c) (fk_connection (ia_key a))), cleared, ep)
           else if fk_direction (ia_key a) \<noteq> Inbound
           then Some (Err (AdmitWrongDirection (fk_direction (ia_key a))), cleared, ep)
           else case validate_for_mode (ia_policy a) (io_mode q) of
             Err e \<Rightarrow> Some (Err (AdmitInvalidPolicy e), cleared, ep)
           | Ok _ \<Rightarrow>
             if io_max_message_bytes q >
                (case usize_to_u64 (fp_max_message_bytes (ia_policy a)) of Some n \<Rightarrow> n | None \<Rightarrow> -1)
             then do {
               (out, c) \<leftarrow> resolve_inbound_rejection (al_reply al) c q RejectMessageLimit; Some (out, c, ep) }
             else if active_count c Inbound \<ge> se_max_active_incoming_flows (fn_local_settings c)
             then do {
               (out, c) \<leftarrow> resolve_inbound_rejection (al_reply al) c q RejectResourceLimit; Some (out, c, ep) }
             else admit_pending al c ep q a)"

section \<open>Terminating\<close>

definition terminate_local ::
  "flow_allocs \<Rightarrow> flow_control \<Rightarrow> delivery_endpoint \<Rightarrow> flow_id \<Rightarrow> flow_terminate_reason \<Rightarrow>
     ((local_termination, flow_control_error) result \<times> flow_control \<times> delivery_endpoint) exec" where
  "terminate_local al c ep i reason =
     (case lookup_flow (fn_registry c) i of
        None \<Rightarrow> Some (Err (UnknownActiveFlow i), c, ep)
      | Some f \<Rightarrow>
        if rf_mode f = ReliableOrdered \<and> reason = TerminateNormal
        then Some (Err (ReliableNormalUsesFin i), c, ep)
        else do {
          frame \<leftarrow> terminate_frame (al_frame al) i reason;
          (case frame of
             None \<Rightarrow> Some (Err FlowAllocation, c, ep)
           | Some frame \<Rightarrow> do {
               (t, ep) \<leftarrow> terminate_flow ep (rf_key f) Requested;
               Some (case t of
                   Err e \<Rightarrow> (Err (CoreState e), c, ep)
                 | Ok t \<Rightarrow> (Ok \<lparr>lt_flow = established_from_registered i f, lt_reason = reason, lt_termination = t,
                       lt_frame = frame\<rparr>,
                     c\<lparr>fn_registry := registry_release (fn_registry c) i\<rparr>, ep)) }) })"

end
