(* ===== verification/Reliable_Streams.thy ===== *)
theory Reliable_Streams
  imports Flow_Registry Reliable_Framing
begin

text \<open>
  The binding of reliable flows to streams, \<open>OutboundReliable\<close> and \<open>InboundReliable\<close> of
  \<open>crates/runen-net-quic/src/quinn_binding.rs\<close>. The streams themselves belong to quinn: their
  operations, the traits \<open>PollWriteReliable\<close> and \<open>PollReadReliable\<close>, are arguments.
\<close>

section \<open>Application error codes\<close>

datatype application_error_code =
    NoError
  | ProfileProtocolError
  | ControlFrameErrorCode
  | ResourceLimitErrorCode
  | NegotiationFailedCode
  | FlowProtocolError
  | ReliableDeliveryFailed

definition code_wire :: "application_error_code \<Rightarrow> 32 word" where
  "code_wire c =
     (case c of NoError \<Rightarrow> 0 | ProfileProtocolError \<Rightarrow> 1 | ControlFrameErrorCode \<Rightarrow> 2
              | ResourceLimitErrorCode \<Rightarrow> 3 | NegotiationFailedCode \<Rightarrow> 4 | FlowProtocolError \<Rightarrow> 5
              | ReliableDeliveryFailed \<Rightarrow> 6)"

section \<open>Polls and stream operations\<close>

datatype 'a poll = Pending | Ready 'a

datatype io_failure = ReadFailure | WriteFailure | ConnectionLost

record ('w, 'f) writer_ops =
  wo_poll_write :: "'w \<Rightarrow> bytes \<Rightarrow> (nat, io_failure) result poll \<times> 'w"
  wo_reset :: "'w \<Rightarrow> 32 word \<Rightarrow> 'w"
  wo_finish :: "'w \<Rightarrow> (unit, io_failure) result \<times> 'w"
  wo_finish_ack :: "'w \<Rightarrow> 'f"
  wo_poll_ack :: "'f \<Rightarrow> (u64 option, io_failure) result poll \<times> 'f"

record 'r reader_ops =
  ro_is_zero_rtt :: "'r \<Rightarrow> bool"
  ro_poll_read :: "'r \<Rightarrow> nat \<Rightarrow> (bytes, io_failure) result poll \<times> 'r"
  ro_stop :: "'r \<Rightarrow> 32 word \<Rightarrow> 'r"

section \<open>Sending\<close>

datatype send_error =
    SendRegistry registry_error
  | SendCore delivery_operation_error
  | SendCustody custody_commit_error
  | SendFraming reliable_frame_error
  | UnexpectedAcceptedIndex u64 u64
  | SendIndexExhausted
  | InvalidWriteCount
  | WriteZero
  | SendIo io_failure
  | PendingData
  | AlreadyFinishing
  | SendTerminal

datatype send_progress =
    SendProgressed nat
  | SendCommitted u64
  | SendIdle
  | SendClosed flow_termination

record outbound_message =
  om_snapshot :: delivery_transfer
  om_length :: encoded_varint
  om_length_offset :: nat
  om_payload_offset :: nat

record outbound_state =
  os_flow_header :: encoded_varint
  os_flow_header_offset :: nat
  os_max_message_bytes :: nat
  os_next_accepted_index :: "u64 option"
  os_current :: "outbound_message option"

definition outbound_state_new :: "flow_id \<Rightarrow> nat \<Rightarrow> (outbound_state, send_error) result exec" where
  "outbound_state_new i max_message = do {
     r \<leftarrow> encode_varint (flow_id_value i);
     Some (case r of
         Err _ \<Rightarrow> Err (SendRegistry UnknownFlowId)
       | Ok header \<Rightarrow> Ok \<lparr>os_flow_header = header, os_flow_header_offset = 0,
           os_max_message_bytes = max_message, os_next_accepted_index = Some 0, os_current = None\<rparr>) }"

text \<open>\<open>next_segment\<close> first loads the message at the front of core custody, then names the bytes to write.\<close>

definition load_message ::
  "outbound_state \<Rightarrow> delivery_endpoint \<Rightarrow> delivery_flow_key \<Rightarrow>
     ((bool, send_error) result \<times> outbound_state) exec" where
  "load_message st ep key =
     (case os_current st of
        Some _ \<Rightarrow> Some (Ok True, st)
      | None \<Rightarrow> (case peek_outbound ep key of
          Err e \<Rightarrow> Some (Err (SendCore e), st)
        | Ok None \<Rightarrow> Some (Ok False, st)
        | Ok (Some snapshot) \<Rightarrow>
          if dt_mode snapshot \<noteq> ReliableOrdered then Some (Err (SendRegistry RegistryNotReliable), st)
          else case os_next_accepted_index st of
            None \<Rightarrow> Some (Err SendIndexExhausted, st)
          | Some expected \<Rightarrow>
            if dt_accepted_index snapshot \<noteq> expected
            then Some (Err (UnexpectedAcceptedIndex expected (dt_accepted_index snapshot)), st)
            else do {
              r \<leftarrow> encode_payload_length (payload_len snapshot) (os_max_message_bytes st);
              Some (case r of
                  Err e \<Rightarrow> (Err (SendFraming e), st)
                | Ok len \<Rightarrow> (Ok True, st\<lparr>os_current := Some \<lparr>om_snapshot = snapshot, om_length = len,
                               om_length_offset = 0, om_payload_offset = 0\<rparr>\<rparr>)) }))"

definition next_segment ::
  "outbound_state \<Rightarrow> delivery_endpoint \<Rightarrow> delivery_flow_key \<Rightarrow>
     ((bytes option, send_error) result \<times> outbound_state) exec" where
  "next_segment st ep key =
     (if os_flow_header_offset st < vi_len (os_flow_header st)
      then Some (Ok (Some (drop (os_flow_header_offset st) (varint_slice (os_flow_header st)))), st)
      else do {
        (r, st) \<leftarrow> load_message st ep key;
        (case r of
           Err e \<Rightarrow> Some (Err e, st)
         | Ok False \<Rightarrow> Some (Ok None, st)
         | Ok True \<Rightarrow> do {
             m \<leftarrow> os_current st;
             (if om_length_offset m < vi_len (om_length m)
              then Some (Ok (Some (drop (om_length_offset m) (varint_slice (om_length m)))), st)
              else if om_payload_offset m < payload_len (om_snapshot m)
              then Some (Ok (Some (drop (om_payload_offset m) (dt_payload (om_snapshot m)))), st)
              else None) }) })"

definition commit_current ::
  "outbound_state \<Rightarrow> delivery_endpoint \<Rightarrow> delivery_flow_key \<Rightarrow>
     ((u64 option, send_error) result \<times> outbound_state \<times> delivery_endpoint) exec" where
  "commit_current st ep key = do {
     m \<leftarrow> os_current st;
     let idx = dt_accepted_index (om_snapshot m);
     let st = st\<lparr>os_current := None\<rparr>;
     (r, ep) \<leftarrow> commit_outbound_custody ep key idx;
     Some (case r of
         Err e \<Rightarrow> (Err (SendCustody e), st, ep)
       | Ok _ \<Rightarrow> (Ok (Some idx), st\<lparr>os_next_accepted_index := u64_checked_add idx 1\<rparr>, ep)) }"

definition outbound_advance ::
  "nat \<Rightarrow> outbound_state \<Rightarrow> delivery_endpoint \<Rightarrow> delivery_flow_key \<Rightarrow>
     ((u64 option, send_error) result \<times> outbound_state \<times> delivery_endpoint) exec" where
  "outbound_advance n st ep key =
     (if n = 0 then Some (Err WriteZero, st, ep)
      else if os_flow_header_offset st < vi_len (os_flow_header st) then
        (if n > vi_len (os_flow_header st) - os_flow_header_offset st
         then Some (Err InvalidWriteCount, st, ep)
         else Some (Ok None, st\<lparr>os_flow_header_offset := os_flow_header_offset st + n\<rparr>, ep))
      else do {
        m \<leftarrow> os_current st;
        (if om_length_offset m < vi_len (om_length m) then
           (if n > vi_len (om_length m) - om_length_offset m then Some (Err InvalidWriteCount, st, ep)
            else let offset = om_length_offset m + n;
                     st = st\<lparr>os_current := Some (m\<lparr>om_length_offset := offset\<rparr>)\<rparr>
                 in if offset = vi_len (om_length m) \<and> payload_len (om_snapshot m) = 0
                    then commit_current st ep key
                    else Some (Ok None, st, ep))
         else do {
           remaining \<leftarrow> checked_sub (payload_len (om_snapshot m)) (om_payload_offset m);
           (if n > remaining then Some (Err InvalidWriteCount, st, ep)
            else let offset = om_payload_offset m + n;
                     st = st\<lparr>os_current := Some (m\<lparr>om_payload_offset := offset\<rparr>)\<rparr>
                 in if offset = payload_len (om_snapshot m)
                    then commit_current st ep key
                    else Some (Ok None, st, ep)) }) })"

record ('w, 'f) outbound_reliable =
  or_flow_id :: flow_id
  or_key :: delivery_flow_key
  or_writer :: 'w
  or_state :: outbound_state
  or_finish_ack :: "'f option"
  or_failure_termination :: "flow_termination option"
  or_terminal :: bool

definition outbound_bind ::
  "flow_registry \<Rightarrow> flow_id \<Rightarrow> 'w \<Rightarrow>
     ((('w, 'f) outbound_reliable, send_error) result \<times> flow_registry) exec" where
  "outbound_bind g i w =
     (case associate_outbound g i of
        (Err e, g) \<Rightarrow> Some (Err (SendRegistry e), g)
      | (Ok f, g) \<Rightarrow> do {
          r \<leftarrow> outbound_state_new i (rf_max_message_bytes f);
          Some (case r of
              Err e \<Rightarrow> Err e
            | Ok st \<Rightarrow> Ok \<lparr>or_flow_id = i, or_key = rf_key f, or_writer = w, or_state = st,
                or_finish_ack = None, or_failure_termination = None, or_terminal = False\<rparr>, g) })"

type_synonym ('w, 'f) send_step =
  "((send_progress, send_error) result poll \<times> ('w, 'f) outbound_reliable \<times> delivery_endpoint \<times> flow_registry) exec"

definition outbound_fail ::
  "('w, 'f) writer_ops \<Rightarrow> ('w, 'f) outbound_reliable \<Rightarrow> delivery_endpoint \<Rightarrow> flow_registry \<Rightarrow>
     application_error_code \<Rightarrow> send_error \<Rightarrow> ('w, 'f) send_step" where
  "outbound_fail ops r ep g code e =
     (if or_terminal r then Some (Ready (Err e), r, ep, g)
      else do {
        (t, ep) \<leftarrow> fail_reliable_custody ep (or_key r);
        Some (Ready (Err e),
          r\<lparr>or_writer := wo_reset ops (or_writer r) (code_wire code),
            or_failure_termination := (case t of Ok x \<Rightarrow> Some x | Err _ \<Rightarrow> None),
            or_terminal := True\<rparr>,
          ep, registry_release g (or_flow_id r)) })"

text \<open>The part of \<open>poll_step\<close> that waits for the acknowledgement of the end of the stream.\<close>

definition poll_finish ::
  "('w, 'f) writer_ops \<Rightarrow> ('w, 'f) outbound_reliable \<Rightarrow> 'f \<Rightarrow> delivery_endpoint \<Rightarrow> flow_registry \<Rightarrow>
     ('w, 'f) send_step" where
  "poll_finish ops r ack ep g =
     (case peek_outbound_metadata ep (or_key r) of
        Ok (Some _) \<Rightarrow> outbound_fail ops r ep g ReliableDeliveryFailed PendingData
      | Err e \<Rightarrow> outbound_fail ops r ep g ReliableDeliveryFailed (SendCore e)
      | Ok None \<Rightarrow>
        (case wo_poll_ack ops ack of
           (Pending, ack) \<Rightarrow> Some (Pending, r\<lparr>or_finish_ack := Some ack\<rparr>, ep, g)
         | (Ready (Ok None), ack) \<Rightarrow> do {
             (t, ep) \<leftarrow> terminate_flow ep (or_key r) Requested;
             (case t of
                Err e \<Rightarrow> outbound_fail ops (r\<lparr>or_finish_ack := Some ack\<rparr>) ep g ReliableDeliveryFailed (SendCore e)
              | Ok termination \<Rightarrow>
                  Some (Ready (Ok (SendClosed termination)),
                    r\<lparr>or_finish_ack := None, or_terminal := True\<rparr>, ep, registry_release g (or_flow_id r))) }
         | (Ready (Err ConnectionLost), ack) \<Rightarrow>
             Some (Ready (Err (SendIo ConnectionLost)),
               r\<lparr>or_finish_ack := Some ack, or_terminal := True\<rparr>, ep, g)
         | (Ready _, ack) \<Rightarrow>
             outbound_fail ops (r\<lparr>or_finish_ack := Some ack\<rparr>) ep g ReliableDeliveryFailed (SendIo WriteFailure)))"

text \<open>The part that writes one segment and advances by what the stream took.\<close>

definition poll_write ::
  "('w, 'f) writer_ops \<Rightarrow> ('w, 'f) outbound_reliable \<Rightarrow> bytes \<Rightarrow> delivery_endpoint \<Rightarrow> flow_registry \<Rightarrow>
     ('w, 'f) send_step" where
  "poll_write ops r segment ep g =
     (case wo_poll_write ops (or_writer r) segment of
        (Pending, w) \<Rightarrow> Some (Pending, r\<lparr>or_writer := w\<rparr>, ep, g)
      | (Ready (Err ConnectionLost), w) \<Rightarrow>
          Some (Ready (Err (SendIo ConnectionLost)), r\<lparr>or_writer := w, or_terminal := True\<rparr>, ep, g)
      | (Ready (Err e), w) \<Rightarrow> outbound_fail ops (r\<lparr>or_writer := w\<rparr>) ep g ReliableDeliveryFailed (SendIo e)
      | (Ready (Ok n), w) \<Rightarrow>
          if n = 0 then outbound_fail ops (r\<lparr>or_writer := w\<rparr>) ep g ReliableDeliveryFailed WriteZero
          else do {
            (a, st, ep) \<leftarrow> outbound_advance n (or_state r) ep (or_key r);
            let r = r\<lparr>or_writer := w, or_state := st\<rparr>;
            (case a of
               Ok (Some idx) \<Rightarrow> Some (Ready (Ok (SendCommitted idx)), r, ep, g)
             | Ok None \<Rightarrow> Some (Ready (Ok (SendProgressed n)), r, ep, g)
             | Err e \<Rightarrow> outbound_fail ops r ep g ReliableDeliveryFailed e) })"

definition outbound_poll_step ::
  "('w, 'f) writer_ops \<Rightarrow> ('w, 'f) outbound_reliable \<Rightarrow> delivery_endpoint \<Rightarrow> flow_registry \<Rightarrow>
     ('w, 'f) send_step" where
  "outbound_poll_step ops r ep g =
     (if or_terminal r then Some (Ready (Err SendTerminal), r, ep, g)
      else if flow_contract ep (or_key r) = None
      then outbound_fail ops r ep g ReliableDeliveryFailed (SendCore UnknownFlow)
      else case or_finish_ack r of
        Some ack \<Rightarrow> poll_finish ops r ack ep g
      | None \<Rightarrow> do {
          (s, st) \<leftarrow> next_segment (or_state r) ep (or_key r);
          let r = r\<lparr>or_state := st\<rparr>;
          (case s of
             Ok (Some segment) \<Rightarrow> poll_write ops r segment ep g
           | Ok None \<Rightarrow> Some (Ready (Ok SendIdle), r, ep, g)
           | Err e \<Rightarrow> outbound_fail ops r ep g FlowProtocolError e) })"

definition request_finish_normal ::
  "('w, 'f) writer_ops \<Rightarrow> ('w, 'f) outbound_reliable \<Rightarrow> delivery_endpoint \<Rightarrow>
     ((unit, send_error) result \<times> ('w, 'f) outbound_reliable) exec" where
  "request_finish_normal ops r ep =
     (if or_terminal r then Some (Err SendTerminal, r)
      else if or_finish_ack r \<noteq> None then Some (Err AlreadyFinishing, r)
      else if flow_contract ep (or_key r) = None then Some (Err (SendCore UnknownFlow), r)
      else do {
        (s, st) \<leftarrow> next_segment (or_state r) ep (or_key r);
        let r = r\<lparr>or_state := st\<rparr>;
        Some (case s of
            Err e \<Rightarrow> (Err e, r)
          | Ok (Some _) \<Rightarrow> (Err PendingData, r)
          | Ok None \<Rightarrow>
            (case wo_finish ops (or_writer r) of
               (Err e, w) \<Rightarrow> (Err (SendIo e), r\<lparr>or_writer := w\<rparr>)
             | (Ok _, w) \<Rightarrow> (Ok (), r\<lparr>or_writer := w, or_finish_ack := Some (wo_finish_ack ops w)\<rparr>))) })"


section \<open>Receiving\<close>

datatype prefix_error = PrefixVarInt varint_decode_error | PrefixFlowId flow_id_error

record prefix_consume_t =
  pc_consumed :: nat
  pc_flow_id :: "flow_id option"

record flow_id_prefix =
  px_bytes :: bytes
  px_filled :: nat
  px_needed :: nat

definition flow_id_prefix_new :: flow_id_prefix where
  "flow_id_prefix_new = \<lparr>px_bytes = replicate 8 0, px_filled = 0, px_needed = 0\<rparr>"

definition prefix_consume ::
  "flow_id_prefix \<Rightarrow> bytes \<Rightarrow> ((prefix_consume_t, prefix_error) result \<times> flow_id_prefix) exec" where
  "prefix_consume p input =
     (if px_filled p = 0 \<and> input = []
      then Some (Ok \<lparr>pc_consumed = 0, pc_flow_id = None\<rparr>, p)
      else do {
        let needed = (if px_filled p = 0 then encoded_len_from_first (hd input) else px_needed p);
        remaining \<leftarrow> checked_sub needed (px_filled p);
        let n = min remaining (length input);
        buffer \<leftarrow> copy_into (px_bytes p) (px_filled p) (take n input);
        let p = \<lparr>px_bytes = buffer, px_filled = px_filled p + n, px_needed = needed\<rparr>;
        Some (if px_filled p \<noteq> needed then (Ok \<lparr>pc_consumed = n, pc_flow_id = None\<rparr>, p)
              else (case decode_varint (take needed buffer) of
                  Err e \<Rightarrow> (Err (PrefixVarInt e), p)
                | Ok (v, _) \<Rightarrow> (case flow_id_from_wire v of
                    Err e \<Rightarrow> (Err (PrefixFlowId e), p)
                  | Ok i \<Rightarrow> (Ok \<lparr>pc_consumed = n, pc_flow_id = Some i\<rparr>, p)))) })"

datatype receive_error =
    ReceiveRegistry registry_error
  | ReceivePrefix prefix_error
  | ReceiveFraming reliable_frame_error
  | ReceiveCore delivery_operation_error
  | ReceiveIo io_failure
  | ZeroRtt
  | TruncatedAssociation
  | AdapterStagingBelowFlowMaximum nat nat
  | ReceiveIndexExhausted
  | UnexpectedCoreOutcome receive_outcome
  | ReceiveAllocationFailed
  | ReceiveTerminal

record inbound_frames =
  if_decoder :: frame_decoder
  if_next_accepted_index :: "u64 option"

definition inbound_frames_new :: "nat \<Rightarrow> nat \<Rightarrow> (inbound_frames, reliable_frame_error) result" where
  "inbound_frames_new max_message max_staging =
     result_bind (frame_decoder_new max_message max_staging) (\<lambda>d.
       Ok \<lparr>if_decoder = d, if_next_accepted_index = Some 0\<rparr>)"

text \<open>One decoded message goes to the core under the next index of the stream.\<close>

definition deliver_message ::
  "inbound_frames \<Rightarrow> delivery_endpoint \<Rightarrow> delivery_flow_key \<Rightarrow> bytes \<Rightarrow>
     ((unit, receive_error) result \<times> inbound_frames \<times> delivery_endpoint) exec" where
  "deliver_message fr ep key message =
     (case if_next_accepted_index fr of
        None \<Rightarrow> Some (Err ReceiveIndexExhausted, fr, ep)
      | Some idx \<Rightarrow> do {
          (r, ep) \<leftarrow> receive_transport_payload ep key idx message;
          Some (case r of
              Err e \<Rightarrow> (Err (ReceiveCore e), fr, ep)
            | Ok outcome \<Rightarrow>
              if outcome \<noteq> Buffered 0 then (Err (UnexpectedCoreOutcome outcome), fr, ep)
              else (Ok (), fr\<lparr>if_next_accepted_index := u64_checked_add idx 1\<rparr>, ep)) })"

text \<open>The loop over the input; the number of its rounds depends on the frames in it.\<close>

partial_function (option) consume_frames ::
  "(nat \<Rightarrow> bool) \<Rightarrow> inbound_frames \<Rightarrow> bytes \<Rightarrow> delivery_endpoint \<Rightarrow> delivery_flow_key \<Rightarrow> nat \<Rightarrow>
     ((nat, receive_error) result \<times> inbound_frames \<times> delivery_endpoint) exec" where
  "consume_frames alloc fr input ep key messages =
     (if input = [] then Some (Ok messages, fr, ep)
      else do {
        x \<leftarrow> frame_consume alloc (if_decoder fr) input;
        let fr = fr\<lparr>if_decoder := snd x\<rparr>;
        (case fst x of
           Err e \<Rightarrow> Some (Err (ReceiveFraming e), fr, ep)
         | Ok c \<Rightarrow>
           if fo_consumed c = 0 \<and> fo_message c = None then Some (Ok messages, fr, ep)
           else (case fo_message c of
               None \<Rightarrow> consume_frames alloc fr (drop (fo_consumed c) input) ep key messages
             | Some message \<Rightarrow> do {
                 y \<leftarrow> deliver_message fr ep key message;
                 (case fst y of
                    Err e \<Rightarrow> Some (Err e, snd y)
                  | Ok _ \<Rightarrow> consume_frames alloc (fst (snd y)) (drop (fo_consumed c) input) (snd (snd y))
                      key (messages + 1)) })) })"

definition inbound_frames_consume ::
  "(nat \<Rightarrow> bool) \<Rightarrow> inbound_frames \<Rightarrow> bytes \<Rightarrow> delivery_endpoint \<Rightarrow> delivery_flow_key \<Rightarrow>
     ((nat, receive_error) result \<times> inbound_frames \<times> delivery_endpoint) exec" where
  "inbound_frames_consume alloc fr input ep key = consume_frames alloc fr input ep key 0"

definition frame_error_code :: "reliable_frame_error \<Rightarrow> application_error_code" where
  "frame_error_code e =
     (case e of StagingLimitExceeded _ _ \<Rightarrow> ResourceLimitErrorCode
              | FrameAllocationFailed \<Rightarrow> ResourceLimitErrorCode
              | _ \<Rightarrow> FlowProtocolError)"

definition receive_error_code :: "receive_error \<Rightarrow> application_error_code" where
  "receive_error_code e =
     (case e of
        ReceiveFraming f \<Rightarrow> frame_error_code f
      | UnexpectedCoreOutcome out \<Rightarrow>
          if out = TerminalReliableFailure then ReliableDeliveryFailed else FlowProtocolError
      | ReceiveIo _ \<Rightarrow> ReliableDeliveryFailed
      | ReceiveAllocationFailed \<Rightarrow> ResourceLimitErrorCode
      | AdapterStagingBelowFlowMaximum _ _ \<Rightarrow> ResourceLimitErrorCode
      | _ \<Rightarrow> FlowProtocolError)"

datatype receive_progress =
    ReceiveProgressed nat
  | StreamAssociated flow_id
  | MessagesBuffered delivery_flow_key nat
  | Draining delivery_flow_key
  | ReceiveClosed delivery_flow_key "flow_termination option"

record 'r inbound_reliable =
  ir_reader :: 'r
  ir_scratch :: nat
  ir_max_staging_bytes :: nat
  ir_prefix :: flow_id_prefix
  ir_flow_id :: "flow_id option"
  ir_flow :: "registered_flow option"
  ir_frames :: "inbound_frames option"
  ir_failure_termination :: "flow_termination option"
  ir_draining :: bool
  ir_terminal :: bool

definition inbound_reliable_new ::
  "bool \<Rightarrow> 'r reader_ops \<Rightarrow> 'r \<Rightarrow> nat \<Rightarrow> nat \<Rightarrow> ('r inbound_reliable, receive_error) result \<times> 'r" where
  "inbound_reliable_new alloc ops reader scratch max_staging =
     (if ro_is_zero_rtt ops reader
      then (Err ZeroRtt, ro_stop ops reader (code_wire ProfileProtocolError))
      else if \<not> alloc then (Err ReceiveAllocationFailed, reader)
      else (Ok \<lparr>ir_reader = reader, ir_scratch = scratch, ir_max_staging_bytes = max_staging,
              ir_prefix = flow_id_prefix_new, ir_flow_id = None, ir_flow = None, ir_frames = None,
              ir_failure_termination = None, ir_draining = False, ir_terminal = False\<rparr>, reader))"

type_synonym 'r receive_step =
  "((receive_progress, receive_error) result \<times> 'r inbound_reliable \<times> delivery_endpoint \<times> flow_registry) exec"

definition release_flow_id :: "flow_registry \<Rightarrow> flow_id option \<Rightarrow> flow_registry" where
  "release_flow_id g i = (case i of None \<Rightarrow> g | Some i \<Rightarrow> registry_release g i)"

definition inbound_fail ::
  "'r reader_ops \<Rightarrow> 'r inbound_reliable \<Rightarrow> delivery_endpoint \<Rightarrow> flow_registry \<Rightarrow>
     application_error_code \<Rightarrow> receive_error \<Rightarrow> 'r receive_step" where
  "inbound_fail ops r ep g code e =
     (if ir_terminal r then Some (Err e, r, ep, g)
      else do {
        (t, ep) \<leftarrow> (case ir_flow r of
            None \<Rightarrow> Some (ir_failure_termination r, ep)
          | Some f \<Rightarrow> do {
              (t, ep) \<leftarrow> fail_reliable_custody ep (rf_key f);
              Some (case t of Ok x \<Rightarrow> Some x | Err _ \<Rightarrow> None, ep) });
        Some (Err e,
          r\<lparr>ir_reader := ro_stop ops (ir_reader r) (code_wire code), ir_failure_termination := t,
            ir_terminal := True\<rparr>,
          ep, release_flow_id g (ir_flow_id r)) })"

definition inbound_drain ::
  "'r inbound_reliable \<Rightarrow> delivery_endpoint \<Rightarrow> flow_registry \<Rightarrow> 'r receive_step" where
  "inbound_drain r ep g =
     (case ir_flow r of
        None \<Rightarrow> Some (Err ReceiveTerminal, r, ep, g)
      | Some f \<Rightarrow> (case flow_pending_usage ep (rf_key f) of
          None \<Rightarrow> Some (Ok (ReceiveClosed (rf_key f) None), r\<lparr>ir_terminal := True\<rparr>, ep,
                     release_flow_id g (ir_flow_id r))
        | Some usage \<Rightarrow>
          if usage = (0, 0) then do {
            (t, ep) \<leftarrow> terminate_flow ep (rf_key f) Requested;
            Some (case t of
                Err e \<Rightarrow> (Err (ReceiveCore e), r, ep, g)
              | Ok termination \<Rightarrow>
                  (Ok (ReceiveClosed (rf_key f) (Some termination)), r\<lparr>ir_terminal := True\<rparr>, ep,
                   release_flow_id g (ir_flow_id r))) }
          else Some (Ok (Draining (rf_key f)), r, ep, g)))"

text \<open>The end of the stream.\<close>

definition receive_end ::
  "'r reader_ops \<Rightarrow> 'r inbound_reliable \<Rightarrow> delivery_endpoint \<Rightarrow> flow_registry \<Rightarrow> 'r receive_step" where
  "receive_end ops r ep g =
     (if ir_flow r = None
      then Some (Err TruncatedAssociation,
        r\<lparr>ir_reader := ro_stop ops (ir_reader r) (code_wire FlowProtocolError), ir_terminal := True\<rparr>, ep, g)
      else do {
        fr \<leftarrow> ir_frames r;
        (case frame_finish (if_decoder fr) of
           Err e \<Rightarrow> inbound_fail ops r ep g (frame_error_code e) (ReceiveFraming e)
         | Ok _ \<Rightarrow> inbound_drain (r\<lparr>ir_draining := True\<rparr>) ep g) })"

text \<open>The frames of an associated stream.\<close>

definition receive_frames ::
  "(nat \<Rightarrow> bool) \<Rightarrow> 'r reader_ops \<Rightarrow> 'r inbound_reliable \<Rightarrow> bytes \<Rightarrow> nat \<Rightarrow> delivery_endpoint \<Rightarrow>
     flow_registry \<Rightarrow> 'r receive_step" where
  "receive_frames alloc ops r input offset ep g = do {
     f \<leftarrow> ir_flow r;
     fr \<leftarrow> ir_frames r;
     (x, fr, ep) \<leftarrow> inbound_frames_consume alloc fr (drop offset input) ep (rf_key f);
     let r = r\<lparr>ir_frames := Some fr\<rparr>;
     (case x of
        Err e \<Rightarrow> inbound_fail ops r ep g (receive_error_code e) e
      | Ok n \<Rightarrow> Some (Ok (if n = 0 then ReceiveProgressed (length input) else MessagesBuffered (rf_key f) n),
                  r, ep, g)) }"

text \<open>The first bytes of a stream name its flow.\<close>

definition receive_prefix ::
  "(nat \<Rightarrow> bool) \<Rightarrow> 'r reader_ops \<Rightarrow> 'r inbound_reliable \<Rightarrow> bytes \<Rightarrow> delivery_endpoint \<Rightarrow>
     flow_registry \<Rightarrow> 'r receive_step" where
  "receive_prefix alloc ops r input ep g = do {
     (x, p) \<leftarrow> prefix_consume (ir_prefix r) input;
     let r = r\<lparr>ir_prefix := p\<rparr>;
     let stopped = r\<lparr>ir_reader := ro_stop ops (ir_reader r) (code_wire FlowProtocolError), ir_terminal := True\<rparr>;
     (case x of
        Err e \<Rightarrow> Some (Err (ReceivePrefix e), stopped, ep, g)
      | Ok c \<Rightarrow> (case pc_flow_id c of
          None \<Rightarrow> Some (Ok (ReceiveProgressed (length input)), r, ep, g)
        | Some i \<Rightarrow> (case associate_inbound g i of
            (Err e, g) \<Rightarrow> Some (Err (ReceiveRegistry e), stopped, ep, g)
          | (Ok f, g) \<Rightarrow>
            let r = r\<lparr>ir_flow_id := Some i, ir_flow := Some f\<rparr>
            in if ir_max_staging_bytes r < rf_max_message_bytes f
               then inbound_fail ops r ep g ResourceLimitErrorCode
                 (AdapterStagingBelowFlowMaximum (rf_max_message_bytes f) (ir_max_staging_bytes r))
               else (case inbound_frames_new (rf_max_message_bytes f) (ir_max_staging_bytes r) of
                 Err e \<Rightarrow> inbound_fail ops r ep g (frame_error_code e) (ReceiveFraming e)
               | Ok fr \<Rightarrow>
                 let r = r\<lparr>ir_frames := Some fr\<rparr>
                 in if pc_consumed c = length input then Some (Ok (StreamAssociated i), r, ep, g)
                    else receive_frames alloc ops r input (pc_consumed c) ep g)))) }"

definition inbound_poll_step ::
  "(nat \<Rightarrow> bool) \<Rightarrow> 'r reader_ops \<Rightarrow> 'r inbound_reliable \<Rightarrow> delivery_endpoint \<Rightarrow> flow_registry \<Rightarrow>
     ((receive_progress, receive_error) result poll \<times> 'r inbound_reliable \<times> delivery_endpoint \<times> flow_registry) exec"
  where
  "inbound_poll_step alloc ops r ep g =
     (let ready = map_option (\<lambda>(x, r, ep, g). (Ready x, r, ep, g))
      in if ir_terminal r then Some (Ready (Err ReceiveTerminal), r, ep, g)
         else if ir_draining r then ready (inbound_drain r ep g)
         else case ro_poll_read ops (ir_reader r) (ir_scratch r) of
           (Pending, reader) \<Rightarrow> Some (Pending, r\<lparr>ir_reader := reader\<rparr>, ep, g)
         | (Ready (Err ConnectionLost), reader) \<Rightarrow>
             Some (Ready (Err (ReceiveIo ConnectionLost)), r\<lparr>ir_reader := reader, ir_terminal := True\<rparr>, ep, g)
         | (Ready (Err e), reader) \<Rightarrow>
             ready (inbound_fail ops (r\<lparr>ir_reader := reader\<rparr>) ep g ReliableDeliveryFailed (ReceiveIo e))
         | (Ready (Ok input), reader) \<Rightarrow>
             let r = r\<lparr>ir_reader := reader\<rparr>
             in ready (if input = [] then receive_end ops r ep g
                       else if ir_flow r = None then receive_prefix alloc ops r input ep g
                       else receive_frames alloc ops r input 0 ep g))"

text \<open>What a binding tells its owner after a failure, once.\<close>

definition outbound_take_failure_termination ::
  "('w, 'f) outbound_reliable \<Rightarrow> flow_termination option \<times> ('w, 'f) outbound_reliable" where
  "outbound_take_failure_termination r = (or_failure_termination r, r\<lparr>or_failure_termination := None\<rparr>)"

definition inbound_take_failure_termination ::
  "'r inbound_reliable \<Rightarrow> flow_termination option \<times> 'r inbound_reliable" where
  "inbound_take_failure_termination r = (ir_failure_termination r, r\<lparr>ir_failure_termination := None\<rparr>)"

definition resolved_flow_key :: "'r inbound_reliable \<Rightarrow> delivery_flow_key option" where
  "resolved_flow_key r = map_option rf_key (ir_flow r)"

end
