(* ===== verification/Lifecycle.thy ===== *)
theory Lifecycle
  imports Exchange Flow_Control Reliable_Streams
begin

text \<open>
  The life of a connection, \<open>crates/runen-net-quic/src/lifecycle.rs\<close>: admission to a connection slot,
  the bootstrap of its control stream, the hand-over of its parts to the driver, and its teardown. The
  quinn endpoint and connection are arguments. A permit is the right to give one unit of the slots
  back, so what owns a permit gives it back when it is consumed or dropped.
\<close>

section \<open>Which errors close the connection, and how\<close>

definition control_frame_close_code :: "control_frame_error \<Rightarrow> application_error_code option" where
  "control_frame_close_code e =
     (case e of
        ControlVarInt _ \<Rightarrow> Some ControlFrameErrorCode
      | UnknownFrameType _ \<Rightarrow> Some ControlFrameErrorCode
      | BodyTooLarge _ _ \<Rightarrow> Some ControlFrameErrorCode
      | NegotiationBodyTooLarge _ _ \<Rightarrow> Some ControlFrameErrorCode
      | EndOfStream \<Rightarrow> Some ControlFrameErrorCode
      | ControlTruncatedFrame \<Rightarrow> Some ControlFrameErrorCode
      | ControlRead (FinishedEarly _) \<Rightarrow> Some ControlFrameErrorCode
      | ControlRead (StreamReadError (ReadReset _)) \<Rightarrow> Some ControlFrameErrorCode
      | ControlWrite (WriteStopped _) \<Rightarrow> Some ControlFrameErrorCode
      | ControlAllocation \<Rightarrow> Some ResourceLimitErrorCode
      | ControlRead (StreamReadError _) \<Rightarrow> None
      | ControlWrite _ \<Rightarrow> None
      | ControlVarIntEncode _ \<Rightarrow> None
      | BodyLengthOutOfRange \<Rightarrow> None
      | ZeroWriteProgress \<Rightarrow> None)"

definition bootstrap_close_code :: "profile_bootstrap_error \<Rightarrow> application_error_code option" where
  "bootstrap_close_code e =
     (case e of
        WrongAlpn \<Rightarrow> Some ProfileProtocolError
      | DatagramUnsupported \<Rightarrow> Some ProfileProtocolError
      | ZeroRttControlStream \<Rightarrow> Some ProfileProtocolError
      | BootstrapSettings _ \<Rightarrow> Some ProfileProtocolError
      | UnexpectedFrameBeforeReady _ \<Rightarrow> Some ProfileProtocolError
      | DuplicateSettings \<Rightarrow> Some ProfileProtocolError
      | PeerRoleMismatch _ _ \<Rightarrow> Some ProfileProtocolError
      | BootstrapFrame e \<Rightarrow> control_frame_close_code e
      | BootstrapConnection _ \<Rightarrow> None
      | MissingHandshakeData \<Rightarrow> None
      | UnexpectedHandshakeDataType \<Rightarrow> None
      | WrongQuicSide _ _ \<Rightarrow> None
      | SettingsAfterReady \<Rightarrow> None
      | SettingsOwnedByBootstrap \<Rightarrow> None
      | ControlChannelPoisoned \<Rightarrow> None)"

definition post_profile_close_code :: "profile_bootstrap_error \<Rightarrow> application_error_code option" where
  "post_profile_close_code e =
     (case e of SettingsAfterReady \<Rightarrow> Some ProfileProtocolError | _ \<Rightarrow> bootstrap_close_code e)"

definition received_flow_control_close_code :: "flow_control_error \<Rightarrow> application_error_code option" where
  "received_flow_control_close_code e =
     (case e of
        UnexpectedFrame _ \<Rightarrow> Some ProfileProtocolError
      | ControlBody _ \<Rightarrow> Some FlowProtocolError
      | ControlFlowId _ \<Rightarrow> Some FlowProtocolError
      | WrongResponseSide _ _ \<Rightarrow> Some FlowProtocolError
      | UnknownPendingFlow _ \<Rightarrow> Some FlowProtocolError
      | UnknownActiveFlow _ \<Rightarrow> Some FlowProtocolError
      | ReliableNormalUsesFin _ \<Rightarrow> Some FlowProtocolError
      | FlowAllocation \<Rightarrow> Some ResourceLimitErrorCode
      | InboundDecisionPending _ \<Rightarrow> None
      | CoreState _ \<Rightarrow> None
      | ControlEstablishment _ \<Rightarrow> None
      | ControlRegistry _ \<Rightarrow> None)"

definition PROFILE_BOOTSTRAP_CLOSE_REASON :: string where
  "PROFILE_BOOTSTRAP_CLOSE_REASON = ''profile bootstrap failed''"

definition PROFILE_CONTROL_CLOSE_REASON :: string where
  "PROFILE_CONTROL_CLOSE_REASON = ''profile control failed''"

definition NEGOTIATION_CLOSE_REASON :: string where
  "NEGOTIATION_CLOSE_REASON = ''negotiation failed''"

definition FLOW_CONTROL_CLOSE_REASON :: string where
  "FLOW_CONTROL_CLOSE_REASON = ''flow control failed''"

text \<open>
  What the code asks of a quinn connection: to be closed, why it is closed already, its largest
  datagram, and the futures of its next streams and datagrams. A future is the connection it was made
  of, and every question may find that the connection has changed.
\<close>

record ('q, 'w, 'r) quinn_ops =
  qn_close :: "'q \<Rightarrow> 32 word \<Rightarrow> string \<Rightarrow> 'q"
  qn_close_reason :: "'q \<Rightarrow> connection_error option \<times> 'q"
  qn_max_datagram_size :: "'q \<Rightarrow> nat option \<times> 'q"
  qn_poll_open_uni :: "'q \<Rightarrow> ('w, connection_error) result poll \<times> 'q"
  qn_poll_accept_uni :: "'q \<Rightarrow> ('r, connection_error) result poll \<times> 'q"
  qn_poll_read_datagram :: "'q \<Rightarrow> (bytes, connection_error) result poll \<times> 'q"

definition close_negotiation_failed :: "('q, 'w, 'r) quinn_ops \<Rightarrow> 'q \<Rightarrow> 'q" where
  "close_negotiation_failed qo q = qn_close qo q (code_wire NegotiationFailedCode) NEGOTIATION_CLOSE_REASON"

definition close_negotiation_protocol_error :: "('q, 'w, 'r) quinn_ops \<Rightarrow> 'q \<Rightarrow> 'q" where
  "close_negotiation_protocol_error qo q = qn_close qo q (code_wire ProfileProtocolError) NEGOTIATION_CLOSE_REASON"

definition close_for_post_profile_control_error ::
  "('q, 'w, 'r) quinn_ops \<Rightarrow> 'q \<Rightarrow> profile_bootstrap_error \<Rightarrow> 'q" where
  "close_for_post_profile_control_error qo q e =
     (case post_profile_close_code e of
        Some code \<Rightarrow> qn_close qo q (code_wire code) PROFILE_CONTROL_CLOSE_REASON | None \<Rightarrow> q)"

definition close_for_received_flow_control_error ::
  "('q, 'w, 'r) quinn_ops \<Rightarrow> 'q \<Rightarrow> flow_control_error \<Rightarrow> 'q" where
  "close_for_received_flow_control_error qo q e =
     (case received_flow_control_close_code e of
        Some code \<Rightarrow> qn_close qo q (code_wire code) FLOW_CONTROL_CLOSE_REASON | None \<Rightarrow> q)"

definition close_for_bootstrap_error :: "('q, 'w, 'r) quinn_ops \<Rightarrow> 'q \<Rightarrow> profile_bootstrap_error \<Rightarrow> 'q" where
  "close_for_bootstrap_error qo q e =
     (case bootstrap_close_code e of
        Some code \<Rightarrow> qn_close qo q (code_wire code) PROFILE_BOOTSTRAP_CLOSE_REASON | None \<Rightarrow> q)"

section \<open>Admission\<close>

datatype profile_preflight_error = WrongEndpointSide wire_side wire_side | ResourceAuthorityMismatch

datatype 'e profile_connection_error =
    ConnectionPreflight profile_preflight_error
  | ConnectionAtCapacity
  | ConnectFailed 'e
  | HandshakeFailed connection_error
  | BootstrapFailed profile_bootstrap_error

definition validate_preflight ::
  "wire_side \<Rightarrow> ('v, 't) endpoint_resources \<Rightarrow> ('v, 't) control_profile \<Rightarrow> wire_side \<Rightarrow>
     (unit, profile_preflight_error) result" where
  "validate_preflight actual res profile expected =
     (if actual \<noteq> expected then Err (WrongEndpointSide expected actual)
      else if res \<noteq> cp_resources profile then Err ResourceAuthorityMismatch
      else Ok ())"

record ('v, 't) configured_endpoint =
  ce_side :: wire_side
  ce_resources :: "('v, 't) endpoint_resources"
  ce_slots :: connection_slots

text \<open>
  What the bootstrap asks of a connection whose handshake is complete: what it says of itself, the
  stream it opens or accepts for control, and the operations of that stream.
\<close>

record ('q, 'w, 'r) bootstrap_ops =
  bo_handshake_data :: "'q \<Rightarrow> bytes option option option"
  bo_max_datagram_size :: "'q \<Rightarrow> nat option"
  bo_side :: "'q \<Rightarrow> wire_side"
  bo_open_bi :: "'q \<Rightarrow> ('w \<times> 'r, connection_error) result awaited"
  bo_accept_bi :: "'q \<Rightarrow> ('w \<times> 'r, connection_error) result awaited"
  bo_is_0rtt :: "'r \<Rightarrow> bool"
  bo_send :: "'w send_ops"
  bo_recv :: "'r recv_ops"
  bo_quinn :: "('q, 'w, 'r) quinn_ops"

text \<open>The outcome of a bootstrap is an admitted connection: the connection, its streams and a permit.\<close>

type_synonym ('q, 'w, 'r, 'e) admission =
  "('q \<times> ('w, 'r) profile_ready, 'e profile_connection_error) result awaited"

definition bootstrap_outcome ::
  "('q, 'w, 'r) bootstrap_ops \<Rightarrow> 'q \<Rightarrow> (('w, 'r) profile_ready, profile_bootstrap_error) result awaited \<Rightarrow>
     ('q, 'w, 'r, 'e) admission \<times> 'q" where
  "bootstrap_outcome bo q x =
     (case x of
        Cancelled \<Rightarrow> (Cancelled, q)
      | Done (Ok ready) \<Rightarrow> (Done (Ok (q, ready)), q)
      | Done (Err e) \<Rightarrow> (Done (Err (BootstrapFailed e)), close_for_bootstrap_error (bo_quinn bo) q e))"

definition establish_profile_ready ::
  "(nat \<Rightarrow> bool) \<Rightarrow> ('q, 'w, 'r) bootstrap_ops \<Rightarrow> 'q \<Rightarrow> wire_side \<Rightarrow> ('v, 't) control_profile \<Rightarrow>
     (('q, 'w, 'r, 'e) admission \<times> 'q) exec" where
  "establish_profile_ready alloc bo q expected profile =
     (case confirm_profile_transport (bo_handshake_data bo q) (bo_max_datagram_size bo q) (bo_side bo q) of
        Err e \<Rightarrow> Some (bootstrap_outcome bo q (Done (Err e)))
      | Ok side \<Rightarrow> do {
          x \<leftarrow> (case expected of
              Client \<Rightarrow> bootstrap_client_control alloc (bo_send bo) (bo_recv bo) side (bo_open_bi bo q)
                (bo_is_0rtt bo) (cp_local_settings profile)
            | Server \<Rightarrow> bootstrap_server_control alloc (bo_send bo) (bo_recv bo) side (bo_accept_bi bo q)
                (bo_is_0rtt bo) (cp_local_settings profile));
          Some (bootstrap_outcome bo q x) })"

text \<open>A permit that does not end in an admitted connection is dropped with the call that took it.\<close>

definition keep_permit :: "('q, 'w, 'r, 'e) admission \<Rightarrow> connection_slots \<Rightarrow> connection_slots" where
  "keep_permit x slots = (case x of Done (Ok _) \<Rightarrow> slots | _ \<Rightarrow> permit_drop slots)"

text \<open>From the permit on; \<open>handshake\<close> is the awaited outcome of the handshake.\<close>

definition admit_handshake ::
  "(nat \<Rightarrow> bool) \<Rightarrow> ('q, 'w, 'r) bootstrap_ops \<Rightarrow> wire_side \<Rightarrow> ('v, 't) control_profile \<Rightarrow>
     ('q, 'e profile_connection_error) result awaited \<Rightarrow> ('v, 't) configured_endpoint \<Rightarrow>
     (('q, 'w, 'r, 'e) admission \<times> ('v, 't) configured_endpoint) exec" where
  "admit_handshake alloc bo expected profile handshake ep = do {
     x \<leftarrow> (case handshake of
         Cancelled \<Rightarrow> Some Cancelled
       | Done (Err e) \<Rightarrow> Some (Done (Err e))
       | Done (Ok q) \<Rightarrow> do {
           (x, _) \<leftarrow> establish_profile_ready alloc bo q expected profile;
           Some x });
     Some (x, ep\<lparr>ce_slots := keep_permit x (ce_slots ep)\<rparr>) }"

definition connect_profile_ready ::
  "(nat \<Rightarrow> bool) \<Rightarrow> ('q, 'w, 'r) bootstrap_ops \<Rightarrow> ('v, 't) configured_endpoint \<Rightarrow> ('v, 't) control_profile \<Rightarrow>
     (('q, connection_error) result awaited, 'e) result \<Rightarrow>
     (('q, 'w, 'r, 'e) admission \<times> ('v, 't) configured_endpoint) exec" where
  "connect_profile_ready alloc bo ep profile connecting =
     (case validate_preflight (ce_side ep) (ce_resources ep) profile Client of
        Err e \<Rightarrow> Some (Done (Err (ConnectionPreflight e)), ep)
      | Ok _ \<Rightarrow>
        (case slots_try_acquire (ce_slots ep) of
           (False, _) \<Rightarrow> Some (Done (Err ConnectionAtCapacity), ep)
         | (True, slots) \<Rightarrow>
             admit_handshake alloc bo Client profile
               (case connecting of
                  Err e \<Rightarrow> Done (Err (ConnectFailed e))
                | Ok Cancelled \<Rightarrow> Cancelled
                | Ok (Done h) \<Rightarrow> Done (map_err HandshakeFailed h))
               (ep\<lparr>ce_slots := slots\<rparr>)))"

text \<open>
  \<open>incoming\<close> is the awaited next connection of the endpoint, if it is still open, with the outcome of
  accepting it; without a slot it is refused.
\<close>

definition accept_profile_ready ::
  "(nat \<Rightarrow> bool) \<Rightarrow> ('q, 'w, 'r) bootstrap_ops \<Rightarrow> ('v, 't) configured_endpoint \<Rightarrow> ('v, 't) control_profile \<Rightarrow>
     (('q, connection_error) result awaited, connection_error) result option awaited \<Rightarrow>
     (('q \<times> ('w, 'r) profile_ready, 'e profile_connection_error) result option awaited
       \<times> ('v, 't) configured_endpoint) exec" where
  "accept_profile_ready alloc bo ep profile incoming =
     (case validate_preflight (ce_side ep) (ce_resources ep) profile Server of
        Err e \<Rightarrow> Some (Done (Some (Err (ConnectionPreflight e))), ep)
      | Ok _ \<Rightarrow>
        (case incoming of
           Cancelled \<Rightarrow> Some (Cancelled, ep)
         | Done None \<Rightarrow> Some (Done None, ep)
         | Done (Some accepted) \<Rightarrow>
           (case slots_try_acquire (ce_slots ep) of
              (False, _) \<Rightarrow> Some (Done (Some (Err ConnectionAtCapacity)), ep)
            | (True, slots) \<Rightarrow> do {
                (x, ep) \<leftarrow> admit_handshake alloc bo Server profile
                  (case accepted of
                     Err e \<Rightarrow> Done (Err (HandshakeFailed e))
                   | Ok Cancelled \<Rightarrow> Cancelled
                   | Ok (Done h) \<Rightarrow> Done (map_err HandshakeFailed h))
                  (ep\<lparr>ce_slots := slots\<rparr>);
                Some (case x of Cancelled \<Rightarrow> Cancelled | Done y \<Rightarrow> Done (Some y), ep) })))"

section \<open>The parts of an established connection\<close>

record ('q, 'w, 'r) connection_core =
  cc_connection :: connection_handle
  cc_quinn :: 'q
  cc_profile :: "('w, 'r) profile_ready"
  cc_exchange :: negotiation_exchange

record ('q, 'w, 'r) flow_controlled_connection =
  fcc_core :: "('q, 'w, 'r) connection_core"
  fcc_flow_control :: flow_control

text \<open>What must be torn down: the permit has no data.\<close>

record established_teardown =
  et_connection :: connection_handle
  et_exchange :: negotiation_exchange

record ('q, 'w, 'r) established_io_parts =
  ei_quinn :: 'q
  ei_sender :: "'w control_sender"
  ei_receiver :: "'r control_receiver"
  ei_flow_control :: flow_control
  ei_teardown :: established_teardown

text \<open>\<open>FlowControl::from_profile_parts\<close> takes the side and both settings of the profile.\<close>

definition flow_control_from_profile ::
  "connection_handle \<Rightarrow> ('w, 'r) profile_ready \<Rightarrow> (flow_control, flow_control_config_error) result" where
  "flow_control_from_profile connection p =
     flow_control_new connection (pr_side p) (ct_local_settings (pr_sender p)) (pr_peer_settings p)"

definition into_flow_control ::
  "('q, 'w, 'r) connection_core \<Rightarrow>
     (('q, 'w, 'r) flow_controlled_connection, flow_control_config_error \<times> ('q, 'w, 'r) connection_core) result"
  where
  "into_flow_control core =
     (case flow_control_from_profile (cc_connection core) (cc_profile core) of
        Err e \<Rightarrow> Err (e, core)
      | Ok fc \<Rightarrow> Ok \<lparr>fcc_core = core, fcc_flow_control = fc\<rparr>)"

definition core_into_established_io ::
  "('q, 'w, 'r) connection_core \<Rightarrow> flow_control \<Rightarrow> ('q, 'w, 'r) established_io_parts" where
  "core_into_established_io core fc =
     \<lparr>ei_quinn = cc_quinn core, ei_sender = pr_sender (cc_profile core), ei_receiver = pr_receiver (cc_profile core),
      ei_flow_control = fc,
      ei_teardown = \<lparr>et_connection = cc_connection core, et_exchange = cc_exchange core\<rparr>\<rparr>"

definition into_established_io ::
  "('q, 'w, 'r) flow_controlled_connection \<Rightarrow> ('q, 'w, 'r) established_io_parts" where
  "into_established_io c = core_into_established_io (fcc_core c) (fcc_flow_control c)"

section \<open>Teardown\<close>

record connection_teardown =
  td_connection :: connection_handle
  td_flow_terminations :: "flow_termination list"
  td_negotiation_cleanup_error :: "negotiation_control_error option"

definition teardown_connection ::
  "connection_handle \<Rightarrow> negotiation_exchange \<Rightarrow> negotiation_manager \<Rightarrow> delivery_endpoint \<Rightarrow>
     (connection_teardown \<times> negotiation_manager \<times> delivery_endpoint) exec" where
  "teardown_connection connection x m ep = do {
     (ts, ep) \<leftarrow> terminate_connection ep connection;
     (r, x, m) \<leftarrow> exchange_abort x m;
     Some (\<lparr>td_connection = connection, td_flow_terminations = ts,
        td_negotiation_cleanup_error = (case r of Ok _ \<Rightarrow> None | Err e \<Rightarrow> Some e)\<rparr>, m, ep) }"

text \<open>The owners of a permit give it back as they are torn down.\<close>

definition established_teardown_run ::
  "established_teardown \<Rightarrow> negotiation_manager \<Rightarrow> delivery_endpoint \<Rightarrow> connection_slots \<Rightarrow>
     (connection_teardown \<times> negotiation_manager \<times> delivery_endpoint \<times> connection_slots) exec" where
  "established_teardown_run t m ep slots = do {
     (r, m, ep) \<leftarrow> teardown_connection (et_connection t) (et_exchange t) m ep;
     Some (r, m, ep, permit_drop slots) }"

definition core_teardown ::
  "('q, 'w, 'r) connection_core \<Rightarrow> negotiation_manager \<Rightarrow> delivery_endpoint \<Rightarrow> connection_slots \<Rightarrow>
     (connection_teardown \<times> negotiation_manager \<times> delivery_endpoint \<times> connection_slots) exec" where
  "core_teardown core m ep slots = do {
     (r, m, ep) \<leftarrow> teardown_connection (cc_connection core) (cc_exchange core) m ep;
     Some (r, m, ep, permit_drop slots) }"

definition established_io_teardown ::
  "('q, 'w, 'r) established_io_parts \<Rightarrow> negotiation_manager \<Rightarrow> delivery_endpoint \<Rightarrow> connection_slots \<Rightarrow>
     (connection_teardown \<times> negotiation_manager \<times> delivery_endpoint \<times> connection_slots) exec" where
  "established_io_teardown p = established_teardown_run (ei_teardown p)"

definition flow_controlled_teardown ::
  "('q, 'w, 'r) flow_controlled_connection \<Rightarrow> negotiation_manager \<Rightarrow> delivery_endpoint \<Rightarrow> connection_slots \<Rightarrow>
     (connection_teardown \<times> negotiation_manager \<times> delivery_endpoint \<times> connection_slots) exec" where
  "flow_controlled_teardown c = established_io_teardown (into_established_io c)"

end
