(* ===== verification/Flow_Driver.thy ===== *)
theory Flow_Driver
  imports Flow_Control Reliable_Streams
begin

text \<open>
  Flow control as a driver uses it, \<open>crates/runen-net-quic/src/flow_driver.rs\<close>: every change of the
  flow state that the peer must hear of becomes one pending send with the effect that it reports, and
  every failure of the data path is classified by what is left of its flow.
\<close>

section \<open>Pending sends\<close>

datatype flow_control_send_effect =
    EffectOpenPrepared flow_facts
  | EffectInboundRejected flow_id flow_reject_reason
  | EffectInboundAccepted flow_facts
  | EffectFailedAfterAccept flow_id delivery_flow_key flow_terminate_reason "flow_termination option"
  | EffectLocalTerminated flow_facts flow_terminate_reason flow_termination
  | EffectReportOnly flow_id delivery_flow_key flow_terminate_reason "flow_termination option"

record pending_send =
  ps_frame :: control_frame
  ps_effect :: flow_control_send_effect

record flow_control_send_error =
  sf_error :: profile_bootstrap_error
  sf_effect :: flow_control_send_effect

datatype flow_driver_progress =
    DriverInboundOpen inbound_open
  | DriverPendingSend pending_send
  | DriverOutboundEstablished flow_facts
  | DriverOutboundRejected flow_id delivery_flow_key flow_reject_reason
  | DriverRemoteTerminated flow_facts flow_terminate_reason flow_termination

definition pending_send_run ::
  "'w send_ops \<Rightarrow> pending_send \<Rightarrow> 'w control_sender \<Rightarrow>
     ((flow_control_send_effect, flow_control_send_error) result awaited \<times> 'w control_sender) exec" where
  "pending_send_run ops p s = do {
     (x, s) \<leftarrow> send_frame ops s (cf_type (ps_frame p)) (cf_body (ps_frame p));
     Some (case x of
         Cancelled \<Rightarrow> Cancelled
       | Done (Ok _) \<Rightarrow> Done (Ok (ps_effect p))
       | Done (Err e) \<Rightarrow> Done (Err \<lparr>sf_error = e, sf_effect = ps_effect p\<rparr>), s) }"

definition driver_prepare_open ::
  "flow_allocs \<Rightarrow> flow_control \<Rightarrow> delivery_endpoint \<Rightarrow> outbound_open_request \<Rightarrow> nat option \<Rightarrow>
     ((pending_send, outbound_open_error) result \<times> flow_control) exec" where
  "driver_prepare_open al c ep q datagram_size = do {
     (x, c) \<leftarrow> prepare_outbound_open al c ep q datagram_size;
     Some (case x of
         Err e \<Rightarrow> Err e
       | Ok p \<Rightarrow> Ok \<lparr>ps_frame = po_frame p, ps_effect = EffectOpenPrepared (po_flow p)\<rparr>, c) }"

definition driver_progress :: "flow_control_progress \<Rightarrow> flow_driver_progress" where
  "driver_progress p =
     (case p of
        InboundOpen q \<Rightarrow> DriverInboundOpen q
      | InboundRejected i r f \<Rightarrow> DriverPendingSend \<lparr>ps_frame = f, ps_effect = EffectInboundRejected i r\<rparr>
      | OutboundEstablished flow \<Rightarrow> DriverOutboundEstablished flow
      | OutboundRejected i key r \<Rightarrow> DriverOutboundRejected i key r
      | OutboundFailedAfterAccept i key r t f \<Rightarrow>
          DriverPendingSend \<lparr>ps_frame = f, ps_effect = EffectFailedAfterAccept i key r t\<rparr>
      | RemoteTerminated flow r t \<Rightarrow> DriverRemoteTerminated flow r t)"

definition process_received ::
  "flow_allocs \<Rightarrow> flow_control \<Rightarrow> delivery_endpoint \<Rightarrow> control_frame \<Rightarrow>
     ((flow_driver_progress, flow_control_error) result \<times> flow_control \<times> delivery_endpoint) exec" where
  "process_received al c ep f = do {
     (x, c, ep) \<leftarrow> flow_control_receive al c ep f;
     Some (case x of Err e \<Rightarrow> Err e | Ok p \<Rightarrow> Ok (driver_progress p), c, ep) }"

definition pending_inbound_resolution :: "inbound_resolution \<Rightarrow> pending_send" where
  "pending_inbound_resolution r =
     (case r of
        InboundAccepted flow f \<Rightarrow> \<lparr>ps_frame = f, ps_effect = EffectInboundAccepted flow\<rparr>
      | InboundRefused i reason f \<Rightarrow> \<lparr>ps_frame = f, ps_effect = EffectInboundRejected i reason\<rparr>)"

definition resolved_send ::
  "(inbound_resolution, inbound_admission_error) result \<Rightarrow> (pending_send, inbound_admission_error) result" where
  "resolved_send x = (case x of Err e \<Rightarrow> Err e | Ok r \<Rightarrow> Ok (pending_inbound_resolution r))"

definition driver_reject_inbound ::
  "flow_allocs \<Rightarrow> flow_control \<Rightarrow> inbound_open \<Rightarrow> flow_reject_reason \<Rightarrow>
     ((pending_send, inbound_admission_error) result \<times> flow_control) exec" where
  "driver_reject_inbound al c q reason = do {
     (x, c) \<leftarrow> reject_inbound al c q reason;
     Some (resolved_send x, c) }"

definition reliable_staging_rejection :: "delivery_mode \<Rightarrow> u64 \<Rightarrow> nat \<Rightarrow> flow_reject_reason option" where
  "reliable_staging_rejection mode max_message max_staging =
     (if mode \<noteq> ReliableOrdered then None
      else let staging = (case usize_to_u64 max_staging of Some n \<Rightarrow> n | None \<Rightarrow> -1)
           in if max_message > staging then Some RejectResourceLimit else None)"

definition driver_accept_inbound ::
  "flow_allocs \<Rightarrow> flow_control \<Rightarrow> delivery_endpoint \<Rightarrow> inbound_open \<Rightarrow> inbound_admission \<Rightarrow> nat \<Rightarrow>
     ((pending_send, inbound_admission_error) result \<times> flow_control \<times> delivery_endpoint) exec" where
  "driver_accept_inbound al c ep q a max_staging =
     (case reliable_staging_rejection (io_mode q) (io_max_message_bytes q) max_staging of
        Some reason \<Rightarrow> do {
          (x, c) \<leftarrow> driver_reject_inbound al c q reason;
          Some (x, c, ep) }
      | None \<Rightarrow> do {
          (x, c, ep) \<leftarrow> accept_inbound al c ep q a;
          Some (resolved_send x, c, ep) })"

definition driver_terminate_local ::
  "flow_allocs \<Rightarrow> flow_control \<Rightarrow> delivery_endpoint \<Rightarrow> flow_id \<Rightarrow> flow_terminate_reason \<Rightarrow>
     ((pending_send, flow_control_error) result \<times> flow_control \<times> delivery_endpoint) exec" where
  "driver_terminate_local al c ep i reason = do {
     (x, c, ep) \<leftarrow> terminate_local al c ep i reason;
     Some (case x of
         Err e \<Rightarrow> Err e
       | Ok t \<Rightarrow> Ok \<lparr>ps_frame = lt_frame t,
           ps_effect = EffectLocalTerminated (lt_flow t) (lt_reason t) (lt_termination t)\<rparr>, c, ep) }"

section \<open>Failures of the data path\<close>

text \<open>What a stream driver knows of the flow of a failed binding.\<close>

datatype reliable_failure_context =
    ContextUnresolved
  | ResolvedReportable flow_id delivery_flow_key "flow_termination option"
  | ResolvedDetached flow_id delivery_flow_key

datatype data_failure_disposition =
    TerminateAndReport flow_id flow_terminate_reason
  | ReportOnly flow_id delivery_flow_key flow_terminate_reason "flow_termination option"
  | CleanupOnly flow_id
  | ConnectionTerminal "application_error_code option"

datatype data_failure_progress =
    FailurePendingSend pending_send
  | FailureCleanupOnly flow_id
  | FailureConnectionTerminal "application_error_code option"

definition pending_report_only_termination ::
  "(nat \<Rightarrow> bool) \<Rightarrow> flow_id \<Rightarrow> delivery_flow_key \<Rightarrow> flow_terminate_reason \<Rightarrow> flow_termination option \<Rightarrow>
     (pending_send, flow_control_error) result exec" where
  "pending_report_only_termination alloc i key reason t = do {
     frame \<leftarrow> terminate_frame alloc i reason;
     Some (case frame of
         None \<Rightarrow> Err FlowAllocation
       | Some f \<Rightarrow> Ok \<lparr>ps_frame = f, ps_effect = EffectReportOnly i key reason t\<rparr>) }"

definition send_progress_of ::
  "((pending_send, flow_control_error) result \<times> flow_control \<times> delivery_endpoint) \<Rightarrow>
     (data_failure_progress, flow_control_error) result \<times> flow_control \<times> delivery_endpoint" where
  "send_progress_of out =
     (case out of (x, c, ep) \<Rightarrow> (case x of Err e \<Rightarrow> Err e | Ok p \<Rightarrow> Ok (FailurePendingSend p), c, ep))"

definition prepare_data_failure ::
  "flow_allocs \<Rightarrow> flow_control \<Rightarrow> delivery_endpoint \<Rightarrow> data_failure_disposition \<Rightarrow>
     ((data_failure_progress, flow_control_error) result \<times> flow_control \<times> delivery_endpoint) exec" where
  "prepare_data_failure al c ep d =
     (case d of
        TerminateAndReport i reason \<Rightarrow> do {
          out \<leftarrow> driver_terminate_local al c ep i reason;
          Some (send_progress_of out) }
      | ReportOnly i key reason t \<Rightarrow>
          if lookup_flow (fn_registry c) i \<noteq> None then do {
            out \<leftarrow> driver_terminate_local al c ep i reason;
            Some (send_progress_of out) }
          else do {
            x \<leftarrow> pending_report_only_termination (al_frame al) i key reason t;
            Some (send_progress_of (x, c, ep)) }
      | CleanupOnly i \<Rightarrow> Some (Ok (FailureCleanupOnly i), c, ep)
      | ConnectionTerminal code \<Rightarrow> Some (Ok (FailureConnectionTerminal code), c, ep))"

section \<open>Classification\<close>

definition reliable_send_failure_reason :: "send_error \<Rightarrow> flow_terminate_reason" where
  "reliable_send_failure_reason e =
     (case e of
        SendRegistry _ \<Rightarrow> TerminateProtocolFailure
      | SendFraming _ \<Rightarrow> TerminateProtocolFailure
      | UnexpectedAcceptedIndex _ _ \<Rightarrow> TerminateProtocolFailure
      | SendIndexExhausted \<Rightarrow> TerminateProtocolFailure
      | _ \<Rightarrow> TerminateReliableDeliveryFailure)"

definition reliable_finish_failure_reason :: "send_error \<Rightarrow> flow_terminate_reason option" where
  "reliable_finish_failure_reason e =
     (case e of
        PendingData \<Rightarrow> None
      | AlreadyFinishing \<Rightarrow> None
      | SendTerminal \<Rightarrow> None
      | SendCore UnknownFlow \<Rightarrow> None
      | _ \<Rightarrow> Some (reliable_send_failure_reason e))"

definition reliable_receive_failure_reason :: "receive_error \<Rightarrow> flow_terminate_reason" where
  "reliable_receive_failure_reason e =
     (case e of
        ReceiveFraming (StagingLimitExceeded _ _) \<Rightarrow> TerminateResourceFailure
      | ReceiveFraming FrameAllocationFailed \<Rightarrow> TerminateResourceFailure
      | ReceiveAllocationFailed \<Rightarrow> TerminateResourceFailure
      | AdapterStagingBelowFlowMaximum _ _ \<Rightarrow> TerminateResourceFailure
      | ReceiveIo _ \<Rightarrow> TerminateReliableDeliveryFailure
      | UnexpectedCoreOutcome TerminalReliableFailure \<Rightarrow> TerminateReliableDeliveryFailure
      | _ \<Rightarrow> TerminateProtocolFailure)"

definition datagram_receive_failure_reason :: "datagram_receive_failure \<Rightarrow> flow_terminate_reason option" where
  "datagram_receive_failure_reason f =
     (if drf_flow_id f = None then None
      else Some (case drf_error f of
          DatagramAllocationFailed \<Rightarrow> TerminateResourceFailure
        | _ \<Rightarrow> TerminateProtocolFailure))"

definition unresolved_datagram_receive_close_code :: "datagram_receive_error \<Rightarrow> application_error_code option" where
  "unresolved_datagram_receive_close_code e =
     (case e of
        DatagramVarInt _ \<Rightarrow> Some ProfileProtocolError
      | DatagramFlowId _ \<Rightarrow> Some ProfileProtocolError
      | DatagramAllocationFailed \<Rightarrow> Some ResourceLimitErrorCode
      | _ \<Rightarrow> None)"

definition known_flow_disposition :: "flow_id \<Rightarrow> flow_terminate_reason \<Rightarrow> bool \<Rightarrow> data_failure_disposition" where
  "known_flow_disposition i reason live = (if live then TerminateAndReport i reason else CleanupOnly i)"

definition flow_registered :: "flow_control \<Rightarrow> flow_id \<Rightarrow> bool" where
  "flow_registered c i \<longleftrightarrow> lookup_flow (fn_registry c) i \<noteq> None"

definition reliable_active_context_disposition ::
  "reliable_failure_context \<Rightarrow> flow_terminate_reason \<Rightarrow> bool \<Rightarrow> data_failure_disposition" where
  "reliable_active_context_disposition x reason live =
     (case x of
        ContextUnresolved \<Rightarrow> ConnectionTerminal None
      | ResolvedDetached i _ \<Rightarrow> CleanupOnly i
      | ResolvedReportable i key t \<Rightarrow>
          if live then TerminateAndReport i reason else ReportOnly i key reason t)"

definition classify_reliable_active_context ::
  "flow_control \<Rightarrow> reliable_failure_context \<Rightarrow> flow_terminate_reason \<Rightarrow> data_failure_disposition" where
  "classify_reliable_active_context c x reason =
     reliable_active_context_disposition x reason
       (case x of ResolvedReportable i _ _ \<Rightarrow> flow_registered c i | _ \<Rightarrow> False)"

definition classify_outbound_active ::
  "flow_control \<Rightarrow> reliable_failure_context \<Rightarrow> send_error \<Rightarrow> data_failure_disposition" where
  "classify_outbound_active c x e = classify_reliable_active_context c x (reliable_send_failure_reason e)"

definition classify_unresolved_receive :: "receive_error \<Rightarrow> data_failure_disposition" where
  "classify_unresolved_receive e = ConnectionTerminal
     (case e of
        ReceiveRegistry _ \<Rightarrow> Some ProfileProtocolError
      | ReceivePrefix _ \<Rightarrow> Some ProfileProtocolError
      | ZeroRtt \<Rightarrow> Some ProfileProtocolError
      | TruncatedAssociation \<Rightarrow> Some ProfileProtocolError
      | ReceiveAllocationFailed \<Rightarrow> Some ResourceLimitErrorCode
      | _ \<Rightarrow> None)"

definition classify_inbound_active ::
  "flow_control \<Rightarrow> reliable_failure_context \<Rightarrow> receive_error \<Rightarrow> data_failure_disposition" where
  "classify_inbound_active c x e =
     (if x = ContextUnresolved then classify_unresolved_receive e
      else classify_reliable_active_context c x (reliable_receive_failure_reason e))"

definition classify_inbound_construction :: "receive_error \<Rightarrow> data_failure_disposition" where
  "classify_inbound_construction e = ConnectionTerminal
     (case e of
        ZeroRtt \<Rightarrow> Some ProfileProtocolError
      | ReceiveAllocationFailed \<Rightarrow> Some ResourceLimitErrorCode
      | _ \<Rightarrow> None)"

definition classify_outbound_acquisition :: "flow_control \<Rightarrow> flow_id \<Rightarrow> send_error \<Rightarrow> data_failure_disposition" where
  "classify_outbound_acquisition c i e =
     known_flow_disposition i (reliable_send_failure_reason e) (flow_registered c i)"

definition classify_outbound_finish ::
  "flow_control \<Rightarrow> flow_id \<Rightarrow> send_error \<Rightarrow> data_failure_disposition option" where
  "classify_outbound_finish c i e =
     (case reliable_finish_failure_reason e of
        None \<Rightarrow> None
      | Some reason \<Rightarrow> Some (known_flow_disposition i reason (flow_registered c i)))"

definition classify_resource_failure :: "flow_control \<Rightarrow> flow_id \<Rightarrow> data_failure_disposition" where
  "classify_resource_failure c i = known_flow_disposition i TerminateResourceFailure (flow_registered c i)"

text \<open>The outer option is the \<open>expect\<close> of the code.\<close>

definition classify_datagram_receive ::
  "flow_control \<Rightarrow> datagram_receive_failure \<Rightarrow> data_failure_disposition exec" where
  "classify_datagram_receive c f =
     (case datagram_receive_failure_reason f of
        None \<Rightarrow> Some (ConnectionTerminal (unresolved_datagram_receive_close_code (drf_error f)))
      | Some reason \<Rightarrow> do {
          i \<leftarrow> drf_flow_id f;
          Some (known_flow_disposition i reason (flow_registered c i)) })"

definition sequence_exhaustion_disposition :: "flow_id \<Rightarrow> delivery_mode option \<Rightarrow> data_failure_disposition" where
  "sequence_exhaustion_disposition i mode =
     (case mode of
        None \<Rightarrow> CleanupOnly i
      | Some UnreliableSequenced \<Rightarrow> TerminateAndReport i TerminateNormal
      | Some _ \<Rightarrow> TerminateAndReport i TerminateProtocolFailure)"

definition classify_sequence_exhaustion :: "flow_control \<Rightarrow> flow_id \<Rightarrow> data_failure_disposition" where
  "classify_sequence_exhaustion c i =
     sequence_exhaustion_disposition i (map_option rf_mode (lookup_flow (fn_registry c) i))"

definition classify_datagram_send ::
  "flow_control \<Rightarrow> flow_id \<Rightarrow> datagram_send_error \<Rightarrow> data_failure_disposition" where
  "classify_datagram_send c i e =
     (case e of
        ProfileUnavailable \<Rightarrow> ConnectionTerminal None
      | DriveConnectionLost \<Rightarrow> ConnectionTerminal None
      | DriveAllocationFailed \<Rightarrow> known_flow_disposition i TerminateResourceFailure (flow_registered c i)
      | DriveSequenceExhausted \<Rightarrow> classify_sequence_exhaustion c i
      | _ \<Rightarrow> known_flow_disposition i TerminateProtocolFailure (flow_registered c i))"

definition classify_datagram_submission ::
  "flow_control \<Rightarrow> flow_id \<Rightarrow> datagram_submission_error \<Rightarrow> data_failure_disposition option" where
  "classify_datagram_submission c i e =
     (case e of SubmitSequenceExhausted \<Rightarrow> Some (classify_sequence_exhaustion c i) | _ \<Rightarrow> None)"

end
