(* ===== verification/Reliable_Driver.thy ===== *)
theory Reliable_Driver
  imports Lifecycle Flow_Driver
begin

text \<open>
  The streams of one connection, \<open>ReliableConnectionIo\<close> of
  \<open>crates/runen-net-quic/src/reliable_driver.rs\<close>: the streams being opened, the bindings of both
  directions and the accepting of the peer's streams. Each of the three lists is served in turn, from
  where the last poll left off.
\<close>

section \<open>Serving a list in turn\<close>

definition nth_exec :: "'a list \<Rightarrow> nat \<Rightarrow> 'a exec" where
  "nth_exec xs i = (if i < length xs then Some (xs ! i) else None)"

definition swap_remove :: "'a list \<Rightarrow> nat \<Rightarrow> 'a list" where
  "swap_remove xs i = butlast (xs[i := List.last xs])"

definition cursor_after_remove :: "nat \<Rightarrow> nat \<Rightarrow> nat" where
  "cursor_after_remove i n = (if n = 0 then 0 else i mod n)"

text \<open>The indexes in the order in which a poll visits them, and the loop: it ends with the first result.\<close>

definition ring :: "nat \<Rightarrow> nat \<Rightarrow> nat list" where
  "ring start n = map (\<lambda>offset. (start + offset) mod n) [0..<n]"

fun poll_each :: "('s \<Rightarrow> nat \<Rightarrow> ('r option \<times> 's) exec) \<Rightarrow> nat list \<Rightarrow> 's \<Rightarrow> ('r option \<times> 's) exec" where
  "poll_each step [] s = Some (None, s)"
| "poll_each step (i # is) s = do {
     (r, s) \<leftarrow> step s i;
     (case r of None \<Rightarrow> poll_each step is s | Some r \<Rightarrow> Some (Some r, s)) }"

section \<open>State\<close>

datatype reliable_state_error =
    NotReliableFlow
  | WrongFlowDirection
  | RegistryMismatch
  | DuplicateOutboundFlow
  | CapacityOverflow
  | InboundAcceptTerminated
  | OutboundAcquisitionPending
  | UnknownOutboundFlow

datatype reliable_io_error =
    ReliableState reliable_state_error
  | ReliableAllocation
  | ReliableConnection connection_error
  | OutboundFinish flow_id send_error
  | OutboundAcquisitionBinding flow_id send_error
  | OutboundActiveBinding reliable_failure_context send_error
  | InboundConstruction receive_error
  | InboundActiveBinding reliable_failure_context receive_error

datatype outbound_acquisition_progress = AcquisitionBound flow_id | AcquisitionCancelled flow_id

datatype active_reliable_progress =
    OutboundProgress flow_id send_progress
  | InboundProgress receive_progress

datatype outbound_finish_target = FinishPending | FinishActive nat | FinishUnknown

record 'q pending_open =
  pd_flow_id :: flow_id
  pd_future :: 'q

record ('w, 'f) active_outbound =
  ao_flow_id :: flow_id
  ao_binding :: "('w, 'f) outbound_reliable"

record ('q, 'w, 'f, 'r) reliable_io =
  ri_scratch_bytes :: nat
  ri_max_staging_bytes :: nat
  ri_accept :: "'q option"
  ri_pending :: "'q pending_open list"
  ri_outbound :: "('w, 'f) active_outbound list"
  ri_inbound :: "'r inbound_reliable list"
  ri_open_cursor :: nat
  ri_outbound_cursor :: nat
  ri_inbound_cursor :: nat

definition reliable_io_new :: "'q \<Rightarrow> nat \<Rightarrow> nat \<Rightarrow> ('q, 'w, 'f, 'r) reliable_io" where
  "reliable_io_new q scratch max_staging =
     \<lparr>ri_scratch_bytes = scratch, ri_max_staging_bytes = max_staging, ri_accept = Some q, ri_pending = [],
      ri_outbound = [], ri_inbound = [], ri_open_cursor = 0, ri_outbound_cursor = 0, ri_inbound_cursor = 0\<rparr>"

text \<open>The identifiers under way, in the order the code looks through them.\<close>

definition pending_ids :: "('q, 'w, 'f, 'r) reliable_io \<Rightarrow> flow_id list" where
  "pending_ids io = map pd_flow_id (ri_pending io)"

definition active_ids :: "('q, 'w, 'f, 'r) reliable_io \<Rightarrow> flow_id list" where
  "active_ids io = map ao_flow_id (ri_outbound io)"

definition reliable_outbound_flow_id ::
  "('q, 'w, 'f, 'r) reliable_io \<Rightarrow> flow_control \<Rightarrow> delivery_flow_key \<Rightarrow> flow_id option" where
  "reliable_outbound_flow_id io c key = List.find (\<lambda>i.
     case lookup_flow (fn_registry c) i of
       None \<Rightarrow> False
     | Some f \<Rightarrow> rf_key f = key \<and> rf_mode f = ReliableOrdered \<and> fk_direction (rf_key f) = Outbound)
     (pending_ids io @ active_ids io)"

definition contains_flow_id :: "flow_id \<Rightarrow> flow_id list \<Rightarrow> flow_id list \<Rightarrow> bool" where
  "contains_flow_id i pending active \<longleftrightarrow> i \<in> set (pending @ active)"

fun position :: "'a \<Rightarrow> 'a list \<Rightarrow> nat option" where
  "position x [] = None"
| "position x (y # ys) = (if y = x then Some 0 else map_option Suc (position x ys))"

definition outbound_finish_target_of :: "flow_id \<Rightarrow> flow_id list \<Rightarrow> flow_id list \<Rightarrow> outbound_finish_target" where
  "outbound_finish_target_of i pending active =
     (if i \<in> set pending then FinishPending
      else case position i active of None \<Rightarrow> FinishUnknown | Some n \<Rightarrow> FinishActive n)"

definition registered_outbound_is_live :: "flow_control \<Rightarrow> flow_id \<Rightarrow> bool" where
  "registered_outbound_is_live c i =
     (case lookup_flow (fn_registry c) i of
        None \<Rightarrow> False
      | Some f \<Rightarrow> rf_mode f = ReliableOrdered \<and> fk_direction (rf_key f) = Outbound)"

definition resolved_failure_context ::
  "flow_id \<Rightarrow> delivery_flow_key \<Rightarrow> bool \<Rightarrow> flow_termination option \<Rightarrow> reliable_failure_context" where
  "resolved_failure_context i key registered_before t =
     (if registered_before \<or> t \<noteq> None then ResolvedReportable i key t else ResolvedDetached i key)"

definition inbound_failure_context ::
  "flow_id option \<Rightarrow> delivery_flow_key option \<Rightarrow> bool \<Rightarrow> flow_id option \<Rightarrow> delivery_flow_key option \<Rightarrow>
     flow_termination option \<Rightarrow> reliable_failure_context" where
  "inbound_failure_context before_id before_key before_registered after_id after_key t =
     (case (before_id, before_key) of
        (Some i, Some key) \<Rightarrow> resolved_failure_context i key before_registered t
      | (None, None) \<Rightarrow>
          (case (after_id, after_key) of
             (Some i, Some key) \<Rightarrow> ResolvedReportable i key t
           | _ \<Rightarrow> ContextUnresolved)
      | _ \<Rightarrow> ContextUnresolved)"

section \<open>Local operations\<close>

definition reliable_request_finish ::
  "('w, 'f) writer_ops \<Rightarrow> ('q, 'w, 'f, 'r) reliable_io \<Rightarrow> delivery_endpoint \<Rightarrow> flow_id \<Rightarrow>
     ((unit, reliable_io_error) result \<times> ('q, 'w, 'f, 'r) reliable_io) exec" where
  "reliable_request_finish wo io ep i =
     (case outbound_finish_target_of i (pending_ids io) (active_ids io) of
        FinishPending \<Rightarrow> Some (Err (ReliableState OutboundAcquisitionPending), io)
      | FinishUnknown \<Rightarrow> Some (Err (ReliableState UnknownOutboundFlow), io)
      | FinishActive n \<Rightarrow> do {
          a \<leftarrow> nth_exec (ri_outbound io) n;
          (x, b) \<leftarrow> request_finish_normal wo (ao_binding a) ep;
          Some (map_err (OutboundFinish i) x,
            io\<lparr>ri_outbound := (ri_outbound io)[n := a\<lparr>ao_binding := b\<rparr>]\<rparr>) })"

text \<open>\<open>reserve\<close> says whether both lists can grow; the future of the new stream is made of the connection.\<close>

definition schedule_outbound ::
  "bool \<Rightarrow> ('q, 'w, 'f, 'r) reliable_io \<Rightarrow> 'q \<Rightarrow> flow_control \<Rightarrow> flow_facts \<Rightarrow>
     (unit, reliable_io_error) result \<times> ('q, 'w, 'f, 'r) reliable_io" where
  "schedule_outbound reserve io q c flow =
     (if ff_mode flow \<noteq> ReliableOrdered then (Err (ReliableState NotReliableFlow), io)
      else if fk_direction (ff_key flow) \<noteq> Outbound then (Err (ReliableState WrongFlowDirection), io)
      else case lookup_flow (fn_registry c) (ff_flow_id flow) of
        None \<Rightarrow> (Err (ReliableState RegistryMismatch), io)
      | Some f \<Rightarrow>
        if rf_key f \<noteq> ff_key flow \<or> rf_mode f \<noteq> ff_mode flow \<or> rf_max_message_bytes f \<noteq> ff_max_message_bytes flow
        then (Err (ReliableState RegistryMismatch), io)
        else if contains_flow_id (ff_flow_id flow) (pending_ids io) (active_ids io)
        then (Err (ReliableState DuplicateOutboundFlow), io)
        else if Option.bind (checked_add (length (ri_outbound io)) (length (ri_pending io)))
            (\<lambda>n. checked_add n 1) = None
        then (Err (ReliableState CapacityOverflow), io)
        else if \<not> reserve then (Err ReliableAllocation, io)
        else (Ok (), io\<lparr>ri_pending := ri_pending io @ [\<lparr>pd_flow_id = ff_flow_id flow, pd_future = q\<rparr>]\<rparr>))"

section \<open>Acquiring streams\<close>

definition remove_pending_open :: "('q, 'w, 'f, 'r) reliable_io \<Rightarrow> nat \<Rightarrow> ('q, 'w, 'f, 'r) reliable_io" where
  "remove_pending_open io i =
     (let left = swap_remove (ri_pending io) i
      in io\<lparr>ri_pending := left, ri_open_cursor := cursor_after_remove i (length left)\<rparr>)"

definition acquire_outbound_at ::
  "('q, 'w, 'r) quinn_ops \<Rightarrow> ('q, 'w, 'f, 'r) reliable_io \<times> flow_control \<Rightarrow> nat \<Rightarrow>
     ((outbound_acquisition_progress, reliable_io_error) result option
       \<times> ('q, 'w, 'f, 'r) reliable_io \<times> flow_control) exec" where
  "acquire_outbound_at qo s i = (case s of (io, c) \<Rightarrow> do {
     p \<leftarrow> nth_exec (ri_pending io) i;
     (if \<not> registered_outbound_is_live c (pd_flow_id p)
      then Some (Some (Ok (AcquisitionCancelled (pd_flow_id p))), remove_pending_open io i, c)
      else case qn_poll_open_uni qo (pd_future p) of
        (Pending, q) \<Rightarrow> Some (None, io\<lparr>ri_pending := (ri_pending io)[i := p\<lparr>pd_future := q\<rparr>]\<rparr>, c)
      | (Ready (Err e), _) \<Rightarrow> Some (Some (Err (ReliableConnection e)), remove_pending_open io i, c)
      | (Ready (Ok w), _) \<Rightarrow> do {
          (b, g) \<leftarrow> outbound_bind (fn_registry c) (pd_flow_id p) w;
          let io = remove_pending_open io i;
          let c = c\<lparr>fn_registry := g\<rparr>;
          Some (case b of
              Err e \<Rightarrow> (Some (Err (OutboundAcquisitionBinding (pd_flow_id p) e)), io, c)
            | Ok b \<Rightarrow> (Some (Ok (AcquisitionBound (pd_flow_id p))),
                io\<lparr>ri_outbound := ri_outbound io @ [\<lparr>ao_flow_id = pd_flow_id p, ao_binding = b\<rparr>]\<rparr>, c)) }) })"

definition poll_outbound_acquisition ::
  "('q, 'w, 'r) quinn_ops \<Rightarrow> ('q, 'w, 'f, 'r) reliable_io \<times> flow_control \<Rightarrow>
     ((outbound_acquisition_progress, reliable_io_error) result poll
       \<times> ('q, 'w, 'f, 'r) reliable_io \<times> flow_control) exec" where
  "poll_outbound_acquisition qo s =
     (let n = length (ri_pending (fst s))
      in if n = 0 then Some (Pending, s)
         else let start = ri_open_cursor (fst s) mod n in do {
           (r, io, c) \<leftarrow> poll_each (acquire_outbound_at qo) (ring start n) s;
           Some (case r of
               Some x \<Rightarrow> (Ready x, io, c)
             | None \<Rightarrow> (Pending, io\<lparr>ri_open_cursor := (start + 1) mod n\<rparr>, c)) })"

text \<open>\<open>reserve\<close>: the list can grow; \<open>scratch\<close>: the buffer of a new binding can be had.\<close>

definition poll_inbound_acquisition ::
  "bool \<Rightarrow> bool \<Rightarrow> ('q, 'w, 'r) quinn_ops \<Rightarrow> 'r reader_ops \<Rightarrow> ('q, 'w, 'f, 'r) reliable_io \<Rightarrow> 'q \<Rightarrow>
     (unit, reliable_io_error) result poll \<times> ('q, 'w, 'f, 'r) reliable_io" where
  "poll_inbound_acquisition reserve scratch qo ro io connection =
     (if \<not> reserve then (Ready (Err ReliableAllocation), io)
      else case ri_accept io of
        None \<Rightarrow> (Ready (Err (ReliableState InboundAcceptTerminated)), io)
      | Some q \<Rightarrow>
        (case qn_poll_accept_uni qo q of
           (Pending, q) \<Rightarrow> (Pending, io\<lparr>ri_accept := Some q\<rparr>)
         | (Ready (Err e), _) \<Rightarrow> (Ready (Err (ReliableConnection e)), io\<lparr>ri_accept := None\<rparr>)
         | (Ready (Ok r), _) \<Rightarrow>
           let io = io\<lparr>ri_accept := Some connection\<rparr>
           in case inbound_reliable_new scratch ro r (ri_scratch_bytes io) (ri_max_staging_bytes io) of
                (Err e, _) \<Rightarrow> (Ready (Err (InboundConstruction e)), io)
              | (Ok b, _) \<Rightarrow> (Ready (Ok ()), io\<lparr>ri_inbound := ri_inbound io @ [b]\<rparr>)))"

section \<open>Driving the bindings\<close>

type_synonym ('q, 'w, 'f, 'r) reliable_world = "('q, 'w, 'f, 'r) reliable_io \<times> delivery_endpoint \<times> flow_control"

definition remove_outbound :: "('q, 'w, 'f, 'r) reliable_io \<Rightarrow> nat \<Rightarrow> ('q, 'w, 'f, 'r) reliable_io" where
  "remove_outbound io i =
     (let left = swap_remove (ri_outbound io) i
      in io\<lparr>ri_outbound := left, ri_outbound_cursor := cursor_after_remove i (length left)\<rparr>)"

definition remove_inbound :: "('q, 'w, 'f, 'r) reliable_io \<Rightarrow> nat \<Rightarrow> ('q, 'w, 'f, 'r) reliable_io" where
  "remove_inbound io i =
     (let left = swap_remove (ri_inbound io) i
      in io\<lparr>ri_inbound := left, ri_inbound_cursor := cursor_after_remove i (length left)\<rparr>)"

text \<open>
  The outcome of one binding's poll; \<open>a\<close> is its entry after the poll, in a list of \<open>n\<close> entries.
\<close>

definition outbound_polled ::
  "('q, 'w, 'f, 'r) reliable_io \<Rightarrow> nat \<Rightarrow> nat \<Rightarrow> ('w, 'f) active_outbound \<Rightarrow> delivery_flow_key \<Rightarrow> bool \<Rightarrow>
     (send_progress, send_error) result poll \<Rightarrow>
     (active_reliable_progress, reliable_io_error) result option \<times> ('q, 'w, 'f, 'r) reliable_io" where
  "outbound_polled io i n a key registered_before x =
     (let io = io\<lparr>ri_outbound := (ri_outbound io)[i := a]\<rparr>
      in case x of
           Pending \<Rightarrow> (None, io)
         | Ready (Ok SendIdle) \<Rightarrow> (None, io)
         | Ready (Ok (SendClosed t)) \<Rightarrow>
             (Some (Ok (OutboundProgress (ao_flow_id a) (SendClosed t))), remove_outbound io i)
         | Ready (Ok p) \<Rightarrow>
             (Some (Ok (OutboundProgress (ao_flow_id a) p)), io\<lparr>ri_outbound_cursor := (i + 1) mod n\<rparr>)
         | Ready (Err e) \<Rightarrow>
             (Some (Err (OutboundActiveBinding
                (resolved_failure_context (ao_flow_id a) key registered_before
                  (fst (outbound_take_failure_termination (ao_binding a)))) e)),
              remove_outbound io i))"

definition poll_outbound_at ::
  "('w, 'f) writer_ops \<Rightarrow> nat \<Rightarrow> ('q, 'w, 'f, 'r) reliable_world \<Rightarrow> nat \<Rightarrow>
     ((active_reliable_progress, reliable_io_error) result option \<times> ('q, 'w, 'f, 'r) reliable_world) exec" where
  "poll_outbound_at wo n s i = (case s of (io, ep, c) \<Rightarrow> do {
     a \<leftarrow> nth_exec (ri_outbound io) i;
     (x, b, ep, g) \<leftarrow> outbound_poll_step wo (ao_binding a) ep (fn_registry c);
     let (r, io) = outbound_polled io i n (a\<lparr>ao_binding := b\<rparr>) (or_key (ao_binding a))
       (flow_registered c (ao_flow_id a)) x;
     Some (r, io, ep, c\<lparr>fn_registry := g\<rparr>) })"

definition poll_outbound_binding ::
  "('w, 'f) writer_ops \<Rightarrow> ('q, 'w, 'f, 'r) reliable_world \<Rightarrow>
     ((active_reliable_progress, reliable_io_error) result poll \<times> ('q, 'w, 'f, 'r) reliable_world) exec" where
  "poll_outbound_binding wo s =
     (let n = length (ri_outbound (fst s))
      in if n = 0 then Some (Pending, s)
         else let start = ri_outbound_cursor (fst s) mod n in do {
           (r, io, w) \<leftarrow> poll_each (poll_outbound_at wo n) (ring start n) s;
           Some (case r of
               Some x \<Rightarrow> (Ready x, io, w)
             | None \<Rightarrow> (Pending, io\<lparr>ri_outbound_cursor := (start + 1) mod n\<rparr>, w)) })"

definition inbound_polled ::
  "('q, 'w, 'f, 'r) reliable_io \<Rightarrow> nat \<Rightarrow> nat \<Rightarrow> 'r inbound_reliable \<Rightarrow> bool \<Rightarrow> 'r inbound_reliable \<Rightarrow>
     (receive_progress, receive_error) result poll \<Rightarrow>
     (active_reliable_progress, reliable_io_error) result option \<times> ('q, 'w, 'f, 'r) reliable_io" where
  "inbound_polled io i n before before_registered b x =
     (let io = io\<lparr>ri_inbound := (ri_inbound io)[i := b]\<rparr>
      in case x of
           Pending \<Rightarrow> (None, io)
         | Ready (Ok (Draining _)) \<Rightarrow> (None, io)
         | Ready (Ok (ReceiveClosed key t)) \<Rightarrow>
             (Some (Ok (InboundProgress (ReceiveClosed key t))), remove_inbound io i)
         | Ready (Ok p) \<Rightarrow> (Some (Ok (InboundProgress p)), io\<lparr>ri_inbound_cursor := (i + 1) mod n\<rparr>)
         | Ready (Err e) \<Rightarrow>
             (Some (Err (InboundActiveBinding
                (inbound_failure_context (ir_flow_id before) (resolved_flow_key before) before_registered
                  (ir_flow_id b) (resolved_flow_key b) (fst (inbound_take_failure_termination b))) e)),
              remove_inbound io i))"

definition poll_inbound_at ::
  "(nat \<Rightarrow> bool) \<Rightarrow> 'r reader_ops \<Rightarrow> nat \<Rightarrow> ('q, 'w, 'f, 'r) reliable_world \<Rightarrow> nat \<Rightarrow>
     ((active_reliable_progress, reliable_io_error) result option \<times> ('q, 'w, 'f, 'r) reliable_world) exec" where
  "poll_inbound_at alloc ro n s i = (case s of (io, ep, c) \<Rightarrow> do {
     before \<leftarrow> nth_exec (ri_inbound io) i;
     (x, b, ep, g) \<leftarrow> inbound_poll_step alloc ro before ep (fn_registry c);
     let (r, io) = inbound_polled io i n before
       (case ir_flow_id before of None \<Rightarrow> False | Some i \<Rightarrow> flow_registered c i) b x;
     Some (r, io, ep, c\<lparr>fn_registry := g\<rparr>) })"

definition poll_inbound_binding ::
  "(nat \<Rightarrow> bool) \<Rightarrow> 'r reader_ops \<Rightarrow> ('q, 'w, 'f, 'r) reliable_world \<Rightarrow>
     ((active_reliable_progress, reliable_io_error) result poll \<times> ('q, 'w, 'f, 'r) reliable_world) exec" where
  "poll_inbound_binding alloc ro s =
     (let n = length (ri_inbound (fst s))
      in if n = 0 then Some (Pending, s)
         else let start = ri_inbound_cursor (fst s) mod n in do {
           (r, io, w) \<leftarrow> poll_each (poll_inbound_at alloc ro n) (ring start n) s;
           Some (case r of
               Some x \<Rightarrow> (Ready x, io, w)
             | None \<Rightarrow> (Pending, io\<lparr>ri_inbound_cursor := (start + 1) mod n\<rparr>, w)) })"

section \<open>The owner of the streams\<close>

record ('q, 'w, 'f, 'r) reliable_flow_controlled =
  rc_flow_controlled :: "('q, 'w, 'r) flow_controlled_connection"
  rc_reliable :: "('q, 'w, 'f, 'r) reliable_io"

record ('q, 'w, 'f, 'r) reliable_io_parts =
  rp_established :: "('q, 'w, 'r) established_io_parts"
  rp_reliable :: "('q, 'w, 'f, 'r) reliable_io"

definition into_reliable_io ::
  "('q, 'w, 'r) flow_controlled_connection \<Rightarrow> nat \<Rightarrow> nat \<Rightarrow> ('q, 'w, 'f, 'r) reliable_flow_controlled" where
  "into_reliable_io fc scratch max_staging =
     \<lparr>rc_flow_controlled = fc, rc_reliable = reliable_io_new (cc_quinn (fcc_core fc)) scratch max_staging\<rparr>"

definition reliable_into_established_io ::
  "('q, 'w, 'f, 'r) reliable_flow_controlled \<Rightarrow> ('q, 'w, 'f, 'r) reliable_io_parts" where
  "reliable_into_established_io r =
     \<lparr>rp_established = into_established_io (rc_flow_controlled r), rp_reliable = rc_reliable r\<rparr>"

definition reliable_teardown ::
  "('q, 'w, 'f, 'r) reliable_flow_controlled \<Rightarrow> negotiation_manager \<Rightarrow> delivery_endpoint \<Rightarrow> connection_slots \<Rightarrow>
     (connection_teardown \<times> negotiation_manager \<times> delivery_endpoint \<times> connection_slots) exec" where
  "reliable_teardown r = flow_controlled_teardown (rc_flow_controlled r)"

end
