(* ===== verification/Datagram_Driver.thy ===== *)
theory Datagram_Driver
  imports Reliable_Driver
begin

text \<open>
  The datagrams of one connection, \<open>DatagramConnectionIo\<close> of
  \<open>crates/runen-net-quic/src/datagram_driver.rs\<close>: the outbound unreliable flows, served in turn, and
  the reading of the peer's datagrams.
\<close>

datatype datagram_state_error =
    NotUnreliable
  | DatagramFlowDirection flow_direction
  | DatagramRegistryMismatch
  | DuplicateDatagramFlow
  | ReadTerminated

datatype datagram_io_error =
    DatagramState datagram_state_error
  | DatagramAllocation
  | DatagramConnection connection_error
  | DatagramReceive datagram_receive_failure
  | DatagramSend flow_id datagram_send_error

datatype datagram_outbound_progress =
    DatagramCancelled flow_id
  | DatagramDriven flow_id delivery_flow_key datagram_send_progress

record 'q datagram_io =
  di_sender :: "'q datagram_sender"
  di_receive :: "'q option"
  di_outbound :: "flow_id list"
  di_cursor :: nat

definition datagram_io_new :: "'q \<Rightarrow> 'q datagram_io" where
  "datagram_io_new q = \<lparr>di_sender = datagram_sender_new q, di_receive = Some q, di_outbound = [], di_cursor = 0\<rparr>"

definition is_outbound_unreliable :: "flow_direction \<Rightarrow> delivery_mode \<Rightarrow> bool" where
  "is_outbound_unreliable d mode \<longleftrightarrow> d = Outbound \<and> mode \<noteq> ReliableOrdered"

definition registered_outbound_unreliable_is_live :: "flow_control \<Rightarrow> flow_id \<Rightarrow> bool" where
  "registered_outbound_unreliable_is_live c i =
     (case lookup_flow (fn_registry c) i of
        None \<Rightarrow> False
      | Some f \<Rightarrow> is_outbound_unreliable (fk_direction (rf_key f)) (rf_mode f))"

definition datagram_outbound_flow_id ::
  "'q datagram_io \<Rightarrow> flow_control \<Rightarrow> delivery_flow_key \<Rightarrow> flow_id option" where
  "datagram_outbound_flow_id io c key = List.find (\<lambda>i.
     case lookup_flow (fn_registry c) i of
       None \<Rightarrow> False
     | Some f \<Rightarrow> rf_key f = key \<and> is_outbound_unreliable (fk_direction (rf_key f)) (rf_mode f)) (di_outbound io)"

definition datagram_io_submit ::
  "'q datagram_transport \<Rightarrow> 'q datagram_io \<Rightarrow> delivery_endpoint \<Rightarrow> flow_control \<Rightarrow> flow_id \<Rightarrow> bytes \<Rightarrow>
     ((datagram_submission_outcome, datagram_submission_error) result \<times> 'q datagram_io \<times> delivery_endpoint) exec" where
  "datagram_io_submit ops io ep c i payload = do {
     (x, s, ep) \<leftarrow> datagram_submit ops (di_sender io) ep (fn_registry c) i payload;
     Some (x, io\<lparr>di_sender := s\<rparr>, ep) }"

definition normalize_cursor :: "nat \<Rightarrow> nat \<Rightarrow> nat" where
  "normalize_cursor cursor n = (if n = 0 then 0 else cursor mod n)"

definition retain_live_outbound :: "'q datagram_io \<Rightarrow> (flow_id \<Rightarrow> bool) \<Rightarrow> 'q datagram_io" where
  "retain_live_outbound io live =
     (let left = filter live (di_outbound io)
      in io\<lparr>di_outbound := left, di_cursor := normalize_cursor (di_cursor io) (length left)\<rparr>)"

definition validate_outbound_registration ::
  "delivery_flow_key \<Rightarrow> delivery_mode \<Rightarrow> nat \<Rightarrow> (delivery_flow_key \<times> delivery_mode \<times> nat) option \<Rightarrow> bool \<Rightarrow>
     (unit, datagram_state_error) result" where
  "validate_outbound_registration key mode max_message registered duplicate =
     (if mode = ReliableOrdered then Err NotUnreliable
      else if fk_direction key \<noteq> Outbound then Err (DatagramFlowDirection (fk_direction key))
      else if registered \<noteq> Some (key, mode, max_message) then Err DatagramRegistryMismatch
      else if duplicate then Err DuplicateDatagramFlow
      else Ok ())"

definition register_outbound ::
  "bool \<Rightarrow> 'q datagram_io \<Rightarrow> flow_control \<Rightarrow> flow_facts \<Rightarrow> (unit, datagram_io_error) result \<times> 'q datagram_io" where
  "register_outbound reserve io c flow =
     (let io = retain_live_outbound io (registered_outbound_unreliable_is_live c);
          registered = map_option (\<lambda>f. (rf_key f, rf_mode f, rf_max_message_bytes f))
            (lookup_flow (fn_registry c) (ff_flow_id flow))
      in case validate_outbound_registration (ff_key flow) (ff_mode flow) (ff_max_message_bytes flow) registered
             (ff_flow_id flow \<in> set (di_outbound io)) of
           Err e \<Rightarrow> (Err (DatagramState e), io)
         | Ok _ \<Rightarrow>
           if \<not> reserve then (Err DatagramAllocation, io)
           else (Ok (), io\<lparr>di_outbound := di_outbound io @ [ff_flow_id flow]\<rparr>))"

definition drive_outbound_at ::
  "(nat \<Rightarrow> bool) \<Rightarrow> 'q datagram_transport \<Rightarrow> flow_control \<Rightarrow> nat \<Rightarrow> 'q datagram_io \<times> delivery_endpoint \<Rightarrow> nat \<Rightarrow>
     ((datagram_outbound_progress, datagram_io_error) result option \<times> 'q datagram_io \<times> delivery_endpoint) exec" where
  "drive_outbound_at alloc ops c n s i = (case s of (io, ep) \<Rightarrow> do {
     flow \<leftarrow> nth_exec (di_outbound io) i;
     (if \<not> registered_outbound_unreliable_is_live c flow
      then let left = swap_remove (di_outbound io) i
           in Some (Some (Ok (DatagramCancelled flow)),
                io\<lparr>di_outbound := left, di_cursor := normalize_cursor i (length left)\<rparr>, ep)
      else do {
        f \<leftarrow> lookup_flow (fn_registry c) flow;
        (x, sender, ep) \<leftarrow> drive_one alloc ops (di_sender io) ep (fn_registry c) flow;
        let io = io\<lparr>di_sender := sender\<rparr>;
        Some (case x of
            Ok DatagramIdle \<Rightarrow> (None, io, ep)
          | Ok p \<Rightarrow> (Some (Ok (DatagramDriven flow (rf_key f) p)), io\<lparr>di_cursor := (i + 1) mod n\<rparr>, ep)
          | Err e \<Rightarrow> (Some (Err (DatagramSend flow e)), io\<lparr>di_cursor := (i + 1) mod n\<rparr>, ep)) }) })"

definition drive_outbound ::
  "(nat \<Rightarrow> bool) \<Rightarrow> 'q datagram_transport \<Rightarrow> flow_control \<Rightarrow> 'q datagram_io \<times> delivery_endpoint \<Rightarrow>
     ((datagram_outbound_progress option, datagram_io_error) result \<times> 'q datagram_io \<times> delivery_endpoint) exec" where
  "drive_outbound alloc ops c s =
     (let n = length (di_outbound (fst s))
      in if n = 0 then Some (Ok None, s)
         else let start = di_cursor (fst s) mod n in do {
           (r, io, ep) \<leftarrow> poll_each (drive_outbound_at alloc ops c n) (ring start n) s;
           Some (case r of
               Some (Ok p) \<Rightarrow> (Ok (Some p), io, ep)
             | Some (Err e) \<Rightarrow> (Err e, io, ep)
             | None \<Rightarrow> (Ok None, io\<lparr>di_cursor := (start + 1) mod n\<rparr>, ep)) })"

definition poll_inbound_datagram ::
  "(nat \<Rightarrow> bool) \<Rightarrow> ('q, 'w, 'r) quinn_ops \<Rightarrow> 'q datagram_io \<Rightarrow> 'q \<Rightarrow> delivery_endpoint \<Rightarrow> flow_control \<Rightarrow>
     ((datagram_receive_outcome, datagram_io_error) result poll \<times> 'q datagram_io \<times> delivery_endpoint) exec" where
  "poll_inbound_datagram alloc qo io connection ep c =
     (case di_receive io of
        None \<Rightarrow> Some (Ready (Err (DatagramState ReadTerminated)), io, ep)
      | Some q \<Rightarrow>
        (case qn_poll_read_datagram qo q of
           (Pending, q) \<Rightarrow> Some (Pending, io\<lparr>di_receive := Some q\<rparr>, ep)
         | (Ready (Err e), _) \<Rightarrow> Some (Ready (Err (DatagramConnection e)), io\<lparr>di_receive := None\<rparr>, ep)
         | (Ready (Ok datagram), _) \<Rightarrow> do {
             (x, ep) \<leftarrow> receive_datagram alloc ep (fn_registry c) datagram;
             Some (Ready (map_err DatagramReceive x), io\<lparr>di_receive := Some connection\<rparr>, ep) }))"

end
