(* ===== verification/Connection_Driver.thy ===== *)
theory Connection_Driver
  imports Datagram_Driver
begin

text \<open>
  The driver of an established connection, \<open>EstablishedConnectionDriver\<close> of
  \<open>crates/runen-net-quic/src/connection_driver.rs\<close>: it owns both directions of the control stream, the
  flow control, the streams and the datagrams, serves them in turn, and turns every failure into a
  report on one flow or the end of the connection.
\<close>

section \<open>What the driver is given\<close>

record ('q, 'w, 'f, 'r) driver_ops =
  op_quinn :: "('q, 'w, 'r) quinn_ops"
  op_writer :: "('w, 'f) writer_ops"
  op_reader :: "'r reader_ops"
  op_send :: "'w send_ops"
  op_recv :: "'r recv_ops"
  op_datagram :: "'q datagram_transport"
  op_alloc :: "nat \<Rightarrow> bool"

text \<open>
  What may differ from one call to the next: whether the future under way in each direction of the
  control stream completes when it is polled, and which reservations succeed. A future owns its
  direction of the stream, so what it does becomes visible with its completion.
\<close>

record driver_turn =
  tu_send_done :: bool
  tu_receive_done :: bool
  tu_flow :: flow_allocs
  tu_reserve :: bool
  tu_scratch :: bool

section \<open>State\<close>

datatype driver_phase = DriverActive | DriverTerminal

datatype control_send_phase = SendPhaseReady | SendPhasePending | SendPhaseTerminal

datatype 'w control_send_state =
    ControlSendReady "'w control_sender"
  | ControlSendPending "'w control_sender" pending_send
  | ControlSendTerminal

datatype 'r control_receive_state =
    ControlReceivePending "'r control_receiver"
  | ControlReceiveDeferred "'r control_receiver" control_frame
  | ControlReceiveTerminal

definition send_phase :: "'w control_send_state \<Rightarrow> control_send_phase" where
  "send_phase s =
     (case s of ControlSendReady _ \<Rightarrow> SendPhaseReady | ControlSendPending _ _ \<Rightarrow> SendPhasePending
              | ControlSendTerminal \<Rightarrow> SendPhaseTerminal)"

datatype driver_state_error = DriverIsTerminal | ControlSendBusy

datatype driver_error =
    DriverState driver_state_error
  | DriverOutboundOpen outbound_open_error
  | DriverInboundAdmission inbound_admission_error
  | DriverDatagramSubmission datagram_submission_error
  | DatagramProfileUnavailable
  | DriverControlReceive profile_bootstrap_error
  | DriverControlSend flow_control_send_error
  | ReceivedFlowControl flow_control_error
  | DriverReliable reliable_io_error
  | DriverDatagram datagram_io_error
  | FailurePreparation flow_control_error

datatype inbound_decision_error =
    DecisionUnavailable inbound_open driver_state_error
  | DecisionDriver driver_error

datatype datagram_submit_error =
    SubmitUnavailable flow_id bytes driver_state_error
  | SubmitDriver driver_error

datatype keyed_submit_error =
    KeyedSubmitUnavailable bytes driver_state_error
  | KeyedSubmitUnknownFlow bytes
  | KeyedSubmitDriver driver_error

datatype keyed_finish_error =
    KeyedFinishState driver_state_error
  | KeyedFinishUnknownFlow
  | KeyedFinishDriver driver_error

datatype outbound_finish_outcome = FinishStarted | FinishFailureHandled flow_id

datatype datagram_submit_outcome = Submitted datagram_submission_outcome | SubmitFailureHandled flow_id

datatype connection_progress =
    ControlSendStarted
  | ControlSendCompleted flow_control_send_effect
  | ProgressInboundOpen inbound_open
  | ProgressOutboundEstablished flow_facts
  | ProgressOutboundRejected flow_id delivery_flow_key flow_reject_reason
  | ProgressRemoteTerminated flow_facts flow_terminate_reason flow_termination
  | ReliableOutboundAcquisition outbound_acquisition_progress
  | ReliableInboundAcquired
  | ReliableProgress active_reliable_progress
  | DatagramOutbound datagram_outbound_progress
  | DatagramInbound datagram_receive_outcome
  | FlowFailureHandled flow_id

datatype driver_step = StepNone | StepProgress connection_progress | StepError driver_error

record ('q, 'w, 'f, 'r) connection_driver =
  cd_quinn :: 'q
  cd_flow_control :: flow_control
  cd_reliable :: "('q, 'w, 'f, 'r) reliable_io"
  cd_datagram :: "'q datagram_io"
  cd_teardown :: established_teardown
  cd_sender :: "'w control_send_state"
  cd_receiver :: "'r control_receive_state"
  cd_phase :: driver_phase
  cd_poll_cursor :: nat

type_synonym ('a, 'q, 'w, 'f, 'r) driver_op =
  "('a \<times> ('q, 'w, 'f, 'r) connection_driver \<times> delivery_endpoint) exec"

definition into_connection_driver :: "('q, 'w, 'f, 'r) reliable_io_parts \<Rightarrow> ('q, 'w, 'f, 'r) connection_driver" where
  "into_connection_driver p =
     (let e = rp_established p
      in \<lparr>cd_quinn = ei_quinn e, cd_flow_control = ei_flow_control e, cd_reliable = rp_reliable p,
          cd_datagram = datagram_io_new (ei_quinn e), cd_teardown = ei_teardown e,
          cd_sender = ControlSendReady (ei_sender e), cd_receiver = ControlReceivePending (ei_receiver e),
          cd_phase = DriverActive, cd_poll_cursor = 0\<rparr>)"

definition DRIVER_CATEGORY_COUNT :: nat where
  "DRIVER_CATEGORY_COUNT = 8"

definition ESTABLISHED_DATA_CLOSE_REASON :: string where
  "ESTABLISHED_DATA_CLOSE_REASON = ''established data failed''"

definition ESTABLISHED_TEARDOWN_CLOSE_REASON :: string where
  "ESTABLISHED_TEARDOWN_CLOSE_REASON = ''established connection teardown''"

definition next_poll_cursor :: "nat \<Rightarrow> nat" where
  "next_poll_cursor current = (current + 1) mod DRIVER_CATEGORY_COUNT"

section \<open>Phases and the control sender\<close>

definition enter_terminal ::
  "('q, 'w, 'r) quinn_ops \<Rightarrow> ('q, 'w, 'f, 'r) connection_driver \<Rightarrow> application_error_code option \<Rightarrow>
     ('q, 'w, 'f, 'r) connection_driver" where
  "enter_terminal qo d code =
     (if cd_phase d = DriverTerminal then d
      else let q = (case code of None \<Rightarrow> cd_quinn d
               | Some code \<Rightarrow> qn_close qo (cd_quinn d) (code_wire code) ESTABLISHED_DATA_CLOSE_REASON)
           in d\<lparr>cd_quinn := q, cd_phase := DriverTerminal, cd_sender := ControlSendTerminal,
                cd_receiver := ControlReceiveTerminal\<rparr>)"

definition control_operation_error :: "driver_phase \<Rightarrow> control_send_phase \<Rightarrow> driver_state_error option" where
  "control_operation_error phase sender =
     (if phase = DriverTerminal \<or> sender = SendPhaseTerminal then Some DriverIsTerminal
      else if sender = SendPhasePending then Some ControlSendBusy else None)"

definition require_control_send_ready ::
  "('q, 'w, 'f, 'r) connection_driver \<Rightarrow> (unit, driver_state_error) result" where
  "require_control_send_ready d =
     (case control_operation_error (cd_phase d) (send_phase (cd_sender d)) of None \<Rightarrow> Ok () | Some e \<Rightarrow> Err e)"

definition data_poll_allowed :: "('q, 'w, 'f, 'r) connection_driver \<Rightarrow> bool" where
  "data_poll_allowed d \<longleftrightarrow> cd_phase d = DriverActive \<and> send_phase (cd_sender d) = SendPhaseReady"

definition start_control_send ::
  "('q, 'w, 'f, 'r) connection_driver \<Rightarrow> pending_send \<Rightarrow>
     (unit, driver_state_error) result \<times> ('q, 'w, 'f, 'r) connection_driver" where
  "start_control_send d p =
     (if cd_phase d = DriverTerminal then (Err DriverIsTerminal, d)
      else case cd_sender d of
        ControlSendReady s \<Rightarrow> (Ok (), d\<lparr>cd_sender := ControlSendPending s p\<rparr>)
      | ControlSendPending _ _ \<Rightarrow> (Err ControlSendBusy, d)
      | ControlSendTerminal \<Rightarrow> (Err DriverIsTerminal, d))"

definition start_prepared_send ::
  "('q, 'w, 'r) quinn_ops \<Rightarrow> ('q, 'w, 'f, 'r) connection_driver \<Rightarrow> pending_send \<Rightarrow>
     (unit, driver_error) result \<times> ('q, 'w, 'f, 'r) connection_driver" where
  "start_prepared_send qo d p =
     (case start_control_send d p of
        (Err e, d) \<Rightarrow> (Err (DriverState e), enter_terminal qo d None)
      | (Ok _, d) \<Rightarrow> (Ok (), d))"

section \<open>Failures of the data path\<close>

definition apply_data_failure ::
  "('q, 'w, 'r) quinn_ops \<Rightarrow> flow_allocs \<Rightarrow> ('q, 'w, 'f, 'r) connection_driver \<Rightarrow> delivery_endpoint \<Rightarrow>
     data_failure_disposition \<Rightarrow> driver_error \<Rightarrow> ((flow_id, driver_error) result, 'q, 'w, 'f, 'r) driver_op" where
  "apply_data_failure qo al d ep disposition terminal_error =
     (let flow = (case disposition of
          TerminateAndReport i _ \<Rightarrow> Ok i | ReportOnly i _ _ _ \<Rightarrow> Ok i | CleanupOnly i \<Rightarrow> Ok i
        | ConnectionTerminal code \<Rightarrow> Err code)
      in case flow of
           Err code \<Rightarrow> Some (Err terminal_error, enter_terminal qo d code, ep)
         | Ok i \<Rightarrow> do {
             (x, c, ep) \<leftarrow> prepare_data_failure al (cd_flow_control d) ep disposition;
             let d = d\<lparr>cd_flow_control := c\<rparr>;
             Some (case x of
                 Err e \<Rightarrow> (Err (FailurePreparation e), enter_terminal qo d None, ep)
               | Ok (FailurePendingSend p) \<Rightarrow>
                   (case start_prepared_send qo d p of
                      (Err e, d) \<Rightarrow> (Err e, d, ep)
                    | (Ok _, d) \<Rightarrow> (Ok i, d, ep))
               | Ok (FailureCleanupOnly _) \<Rightarrow> (Ok i, d, ep)
               | Ok (FailureConnectionTerminal code) \<Rightarrow> (Err terminal_error, enter_terminal qo d code, ep)) })"

definition finish_data_failure ::
  "('q, 'w, 'r) quinn_ops \<Rightarrow> flow_allocs \<Rightarrow> ('q, 'w, 'f, 'r) connection_driver \<Rightarrow> delivery_endpoint \<Rightarrow>
     data_failure_disposition \<Rightarrow> driver_error \<Rightarrow> (driver_step, 'q, 'w, 'f, 'r) driver_op" where
  "finish_data_failure qo al d ep disposition terminal_error = do {
     (x, d, ep) \<leftarrow> apply_data_failure qo al d ep disposition terminal_error;
     Some (case x of Ok i \<Rightarrow> StepProgress (FlowFailureHandled i) | Err e \<Rightarrow> StepError e, d, ep) }"

text \<open>The end of the connection for an error that names no flow.\<close>

definition terminal_step ::
  "('q, 'w, 'r) quinn_ops \<Rightarrow> ('q, 'w, 'f, 'r) connection_driver \<Rightarrow> delivery_endpoint \<Rightarrow> driver_error \<Rightarrow>
     (driver_step, 'q, 'w, 'f, 'r) driver_op" where
  "terminal_step qo d ep e = Some (StepError e, enter_terminal qo d None, ep)"

section \<open>The control stream\<close>

definition poll_send_future ::
  "'w send_ops \<Rightarrow> bool \<Rightarrow> 'w control_sender \<Rightarrow> pending_send \<Rightarrow>
     ((flow_control_send_effect, flow_control_send_error) result \<times> 'w control_sender) poll exec" where
  "poll_send_future ops completes s p =
     (if \<not> completes then Some Pending
      else do {
        (x, s) \<leftarrow> pending_send_run ops p s;
        Some (case x of Cancelled \<Rightarrow> Pending | Done y \<Rightarrow> Ready (y, s)) })"

definition poll_receive_future ::
  "(nat \<Rightarrow> bool) \<Rightarrow> 'r recv_ops \<Rightarrow> bool \<Rightarrow> 'r control_receiver \<Rightarrow>
     ((control_frame, profile_bootstrap_error) result \<times> 'r control_receiver) poll" where
  "poll_receive_future alloc ops completes r =
     (if \<not> completes then Pending
      else case receive_frame alloc ops r of (Cancelled, _) \<Rightarrow> Pending | (Done y, r) \<Rightarrow> Ready (y, r))"

definition poll_control_send ::
  "('q, 'w, 'f, 'r) driver_ops \<Rightarrow> driver_turn \<Rightarrow> ('q, 'w, 'f, 'r) connection_driver \<Rightarrow> delivery_endpoint \<Rightarrow>
     (driver_step, 'q, 'w, 'f, 'r) driver_op" where
  "poll_control_send io tu d ep =
     (case cd_sender d of
        ControlSendPending s p \<Rightarrow> do {
          polled \<leftarrow> poll_send_future (op_send io) (tu_send_done tu) s p;
          Some (case polled of
              Pending \<Rightarrow> (StepNone, d, ep)
            | Ready (Ok effect, s) \<Rightarrow>
                (StepProgress (ControlSendCompleted effect), d\<lparr>cd_sender := ControlSendReady s\<rparr>, ep)
            | Ready (Err e, _) \<Rightarrow>
                (StepError (DriverControlSend e),
                 enter_terminal (op_quinn io)
                   (d\<lparr>cd_quinn := close_for_post_profile_control_error (op_quinn io) (cd_quinn d) (sf_error e)\<rparr>) None,
                 ep)) }
      | _ \<Rightarrow> Some (StepNone, d, ep))"

datatype transport_owner = OwnerReliable | OwnerDatagram

definition outbound_transport_owner :: "delivery_mode \<Rightarrow> transport_owner" where
  "outbound_transport_owner mode =
     (case mode of ReliableOrdered \<Rightarrow> OwnerReliable | UnreliableUnordered \<Rightarrow> OwnerDatagram
                 | UnreliableSequenced \<Rightarrow> OwnerDatagram)"

definition route_outbound_established ::
  "('q, 'w, 'f, 'r) driver_ops \<Rightarrow> driver_turn \<Rightarrow> ('q, 'w, 'f, 'r) connection_driver \<Rightarrow> delivery_endpoint \<Rightarrow>
     flow_facts \<Rightarrow> (driver_step, 'q, 'w, 'f, 'r) driver_op" where
  "route_outbound_established io tu d ep flow =
     (case outbound_transport_owner (ff_mode flow) of
        OwnerReliable \<Rightarrow>
          (case schedule_outbound (tu_reserve tu) (cd_reliable d) (cd_quinn d) (cd_flow_control d) flow of
             (Ok _, rel) \<Rightarrow> Some (StepProgress (ProgressOutboundEstablished flow), d\<lparr>cd_reliable := rel\<rparr>, ep)
           | (Err ReliableAllocation, rel) \<Rightarrow>
               finish_data_failure (op_quinn io) (tu_flow tu) (d\<lparr>cd_reliable := rel\<rparr>) ep
                 (classify_resource_failure (cd_flow_control d) (ff_flow_id flow)) (DriverReliable ReliableAllocation)
           | (Err e, rel) \<Rightarrow> terminal_step (op_quinn io) (d\<lparr>cd_reliable := rel\<rparr>) ep (DriverReliable e))
      | OwnerDatagram \<Rightarrow>
          (case register_outbound (tu_reserve tu) (cd_datagram d) (cd_flow_control d) flow of
             (Ok _, dg) \<Rightarrow> Some (StepProgress (ProgressOutboundEstablished flow), d\<lparr>cd_datagram := dg\<rparr>, ep)
           | (Err DatagramAllocation, dg) \<Rightarrow>
               finish_data_failure (op_quinn io) (tu_flow tu) (d\<lparr>cd_datagram := dg\<rparr>) ep
                 (classify_resource_failure (cd_flow_control d) (ff_flow_id flow)) (DriverDatagram DatagramAllocation)
           | (Err e, dg) \<Rightarrow> terminal_step (op_quinn io) (d\<lparr>cd_datagram := dg\<rparr>) ep (DriverDatagram e)))"

definition route_flow_control_progress ::
  "('q, 'w, 'f, 'r) driver_ops \<Rightarrow> driver_turn \<Rightarrow> ('q, 'w, 'f, 'r) connection_driver \<Rightarrow> delivery_endpoint \<Rightarrow>
     flow_driver_progress \<Rightarrow> (driver_step, 'q, 'w, 'f, 'r) driver_op" where
  "route_flow_control_progress io tu d ep p =
     (case p of
        DriverInboundOpen q \<Rightarrow> Some (StepProgress (ProgressInboundOpen q), d, ep)
      | DriverPendingSend s \<Rightarrow>
          (case start_prepared_send (op_quinn io) d s of
             (Ok _, d) \<Rightarrow> Some (StepProgress ControlSendStarted, d, ep)
           | (Err e, d) \<Rightarrow> Some (StepError e, d, ep))
      | DriverOutboundEstablished flow \<Rightarrow> route_outbound_established io tu d ep flow
      | DriverOutboundRejected i key r \<Rightarrow> Some (StepProgress (ProgressOutboundRejected i key r), d, ep)
      | DriverRemoteTerminated flow r t \<Rightarrow> Some (StepProgress (ProgressRemoteTerminated flow r t), d, ep))"

definition process_received_frame ::
  "('q, 'w, 'f, 'r) driver_ops \<Rightarrow> driver_turn \<Rightarrow> ('q, 'w, 'f, 'r) connection_driver \<Rightarrow> delivery_endpoint \<Rightarrow>
     'r control_receiver \<Rightarrow> control_frame \<Rightarrow> (driver_step, 'q, 'w, 'f, 'r) driver_op" where
  "process_received_frame io tu d ep r frame = do {
     (x, c, ep) \<leftarrow> process_received (tu_flow tu) (cd_flow_control d) ep frame;
     let d = d\<lparr>cd_flow_control := c\<rparr>;
     (case x of
        Err e \<Rightarrow> Some (StepError (ReceivedFlowControl e),
          enter_terminal (op_quinn io)
            (d\<lparr>cd_quinn := close_for_received_flow_control_error (op_quinn io) (cd_quinn d) e,
               cd_receiver := ControlReceiveTerminal\<rparr>) None, ep)
      | Ok p \<Rightarrow> route_flow_control_progress io tu (d\<lparr>cd_receiver := ControlReceivePending r\<rparr>) ep p) }"

definition should_defer_received_frame :: "control_frame_type \<Rightarrow> bool \<Rightarrow> control_send_phase \<Rightarrow> bool" where
  "should_defer_received_frame t pending_inbound sender \<longleftrightarrow>
     sender \<noteq> SendPhaseReady \<or> pending_inbound \<and> t = OpenFlowType"

definition must_defer :: "('q, 'w, 'f, 'r) connection_driver \<Rightarrow> control_frame \<Rightarrow> bool" where
  "must_defer d frame =
     should_defer_received_frame (cf_type frame) (fn_pending_inbound (cd_flow_control d) \<noteq> None)
       (send_phase (cd_sender d))"

definition poll_control_receive ::
  "('q, 'w, 'f, 'r) driver_ops \<Rightarrow> driver_turn \<Rightarrow> ('q, 'w, 'f, 'r) connection_driver \<Rightarrow> delivery_endpoint \<Rightarrow>
     (driver_step, 'q, 'w, 'f, 'r) driver_op" where
  "poll_control_receive io tu d ep =
     (case cd_receiver d of
        ControlReceiveTerminal \<Rightarrow> Some (StepNone, d, ep)
      | ControlReceiveDeferred r frame \<Rightarrow>
          if must_defer d frame then Some (StepNone, d, ep)
          else process_received_frame io tu (d\<lparr>cd_receiver := ControlReceiveTerminal\<rparr>) ep r frame
      | ControlReceivePending r \<Rightarrow>
          (case poll_receive_future (op_alloc io) (op_recv io) (tu_receive_done tu) r of
             Pending \<Rightarrow> Some (StepNone, d, ep)
           | Ready (Err e, _) \<Rightarrow>
               Some (StepError (DriverControlReceive e),
                 enter_terminal (op_quinn io)
                   (d\<lparr>cd_quinn := close_for_post_profile_control_error (op_quinn io) (cd_quinn d) e,
                      cd_receiver := ControlReceiveTerminal\<rparr>) None, ep)
           | Ready (Ok frame, r) \<Rightarrow>
               if must_defer d frame then Some (StepNone, d\<lparr>cd_receiver := ControlReceiveDeferred r frame\<rparr>, ep)
               else process_received_frame io tu d ep r frame))"

section \<open>The data categories\<close>

definition poll_reliable_outbound_acquisition ::
  "('q, 'w, 'f, 'r) driver_ops \<Rightarrow> driver_turn \<Rightarrow> ('q, 'w, 'f, 'r) connection_driver \<Rightarrow> delivery_endpoint \<Rightarrow>
     (driver_step, 'q, 'w, 'f, 'r) driver_op" where
  "poll_reliable_outbound_acquisition io tu d ep = do {
     (x, rel, c) \<leftarrow> poll_outbound_acquisition (op_quinn io) (cd_reliable d, cd_flow_control d);
     let d = d\<lparr>cd_reliable := rel, cd_flow_control := c\<rparr>;
     (case x of
        Pending \<Rightarrow> Some (StepNone, d, ep)
      | Ready (Ok p) \<Rightarrow> Some (StepProgress (ReliableOutboundAcquisition p), d, ep)
      | Ready (Err (OutboundAcquisitionBinding i e)) \<Rightarrow>
          finish_data_failure (op_quinn io) (tu_flow tu) d ep (classify_outbound_acquisition c i e)
            (DriverReliable (OutboundAcquisitionBinding i e))
      | Ready (Err e) \<Rightarrow> terminal_step (op_quinn io) d ep (DriverReliable e)) }"

definition inbound_acquisition_disposition :: "reliable_io_error \<Rightarrow> data_failure_disposition option" where
  "inbound_acquisition_disposition e =
     (case e of
        InboundConstruction r \<Rightarrow> Some (classify_inbound_construction r)
      | ReliableAllocation \<Rightarrow> Some (ConnectionTerminal (Some ResourceLimitErrorCode))
      | ReliableConnection _ \<Rightarrow> Some (ConnectionTerminal None)
      | _ \<Rightarrow> None)"

text \<open>An error with a disposition is a data failure, any other one ends the connection.\<close>

definition dispose ::
  "('q, 'w, 'r) quinn_ops \<Rightarrow> flow_allocs \<Rightarrow> ('q, 'w, 'f, 'r) connection_driver \<Rightarrow> delivery_endpoint \<Rightarrow>
     data_failure_disposition option \<Rightarrow> driver_error \<Rightarrow> (driver_step, 'q, 'w, 'f, 'r) driver_op" where
  "dispose qo al d ep disposition e =
     (case disposition of
        None \<Rightarrow> terminal_step qo d ep e
      | Some x \<Rightarrow> finish_data_failure qo al d ep x e)"

definition poll_reliable_inbound_acquisition ::
  "('q, 'w, 'f, 'r) driver_ops \<Rightarrow> driver_turn \<Rightarrow> ('q, 'w, 'f, 'r) connection_driver \<Rightarrow> delivery_endpoint \<Rightarrow>
     (driver_step, 'q, 'w, 'f, 'r) driver_op" where
  "poll_reliable_inbound_acquisition io tu d ep =
     (case poll_inbound_acquisition (tu_reserve tu) (tu_scratch tu) (op_quinn io) (op_reader io) (cd_reliable d)
             (cd_quinn d) of
        (x, rel) \<Rightarrow>
          let d = d\<lparr>cd_reliable := rel\<rparr>
          in case x of
               Pending \<Rightarrow> Some (StepNone, d, ep)
             | Ready (Ok _) \<Rightarrow> Some (StepProgress ReliableInboundAcquired, d, ep)
             | Ready (Err e) \<Rightarrow>
                 dispose (op_quinn io) (tu_flow tu) d ep (inbound_acquisition_disposition e) (DriverReliable e))"

definition reliable_active_error_is_connection_loss :: "reliable_io_error \<Rightarrow> bool" where
  "reliable_active_error_is_connection_loss e =
     (case e of
        OutboundActiveBinding _ (SendIo ConnectionLost) \<Rightarrow> True
      | InboundActiveBinding _ (ReceiveIo ConnectionLost) \<Rightarrow> True
      | _ \<Rightarrow> False)"

definition outbound_active_disposition :: "flow_control \<Rightarrow> reliable_io_error \<Rightarrow> data_failure_disposition option" where
  "outbound_active_disposition c e =
     (case e of OutboundActiveBinding x s \<Rightarrow> Some (classify_outbound_active c x s) | _ \<Rightarrow> None)"

definition inbound_active_disposition :: "flow_control \<Rightarrow> reliable_io_error \<Rightarrow> data_failure_disposition option" where
  "inbound_active_disposition c e =
     (case e of InboundActiveBinding x r \<Rightarrow> Some (classify_inbound_active c x r) | _ \<Rightarrow> None)"

text \<open>What both directions do with the outcome of a poll of their bindings.\<close>

definition reliable_polled ::
  "('q, 'w, 'r) quinn_ops \<Rightarrow> flow_allocs \<Rightarrow> (flow_control \<Rightarrow> reliable_io_error \<Rightarrow> data_failure_disposition option) \<Rightarrow>
     ('q, 'w, 'f, 'r) connection_driver \<Rightarrow> delivery_endpoint \<Rightarrow>
     (active_reliable_progress, reliable_io_error) result poll \<Rightarrow> (driver_step, 'q, 'w, 'f, 'r) driver_op" where
  "reliable_polled qo al disposition d ep x =
     (case x of
        Pending \<Rightarrow> Some (StepNone, d, ep)
      | Ready (Ok p) \<Rightarrow> Some (StepProgress (ReliableProgress p), d, ep)
      | Ready (Err e) \<Rightarrow>
          if reliable_active_error_is_connection_loss e then terminal_step qo d ep (DriverReliable e)
          else dispose qo al d ep (disposition (cd_flow_control d) e) (DriverReliable e))"

definition poll_reliable_outbound ::
  "('q, 'w, 'f, 'r) driver_ops \<Rightarrow> driver_turn \<Rightarrow> ('q, 'w, 'f, 'r) connection_driver \<Rightarrow> delivery_endpoint \<Rightarrow>
     (driver_step, 'q, 'w, 'f, 'r) driver_op" where
  "poll_reliable_outbound io tu d ep = do {
     (x, rel, ep, c) \<leftarrow> poll_outbound_binding (op_writer io) (cd_reliable d, ep, cd_flow_control d);
     reliable_polled (op_quinn io) (tu_flow tu) outbound_active_disposition
       (d\<lparr>cd_reliable := rel, cd_flow_control := c\<rparr>) ep x }"

definition poll_reliable_inbound ::
  "('q, 'w, 'f, 'r) driver_ops \<Rightarrow> driver_turn \<Rightarrow> ('q, 'w, 'f, 'r) connection_driver \<Rightarrow> delivery_endpoint \<Rightarrow>
     (driver_step, 'q, 'w, 'f, 'r) driver_op" where
  "poll_reliable_inbound io tu d ep = do {
     (x, rel, ep, c) \<leftarrow> poll_inbound_binding (op_alloc io) (op_reader io) (cd_reliable d, ep, cd_flow_control d);
     reliable_polled (op_quinn io) (tu_flow tu) inbound_active_disposition
       (d\<lparr>cd_reliable := rel, cd_flow_control := c\<rparr>) ep x }"

definition drive_datagram_outbound ::
  "('q, 'w, 'f, 'r) driver_ops \<Rightarrow> driver_turn \<Rightarrow> ('q, 'w, 'f, 'r) connection_driver \<Rightarrow> delivery_endpoint \<Rightarrow>
     (driver_step, 'q, 'w, 'f, 'r) driver_op" where
  "drive_datagram_outbound io tu d ep = do {
     (x, dg, ep) \<leftarrow> drive_outbound (op_alloc io) (op_datagram io) (cd_flow_control d) (cd_datagram d, ep);
     let d = d\<lparr>cd_datagram := dg\<rparr>;
     (case x of
        Ok None \<Rightarrow> Some (StepNone, d, ep)
      | Ok (Some p) \<Rightarrow> Some (StepProgress (DatagramOutbound p), d, ep)
      | Err (DatagramSend i e) \<Rightarrow>
          finish_data_failure (op_quinn io) (tu_flow tu) d ep (classify_datagram_send (cd_flow_control d) i e)
            (DriverDatagram (DatagramSend i e))
      | Err e \<Rightarrow> terminal_step (op_quinn io) d ep (DriverDatagram e)) }"

definition poll_datagram_inbound ::
  "('q, 'w, 'f, 'r) driver_ops \<Rightarrow> driver_turn \<Rightarrow> ('q, 'w, 'f, 'r) connection_driver \<Rightarrow> delivery_endpoint \<Rightarrow>
     (driver_step, 'q, 'w, 'f, 'r) driver_op" where
  "poll_datagram_inbound io tu d ep = do {
     (x, dg, ep) \<leftarrow> poll_inbound_datagram (op_alloc io) (op_quinn io) (cd_datagram d) (cd_quinn d) ep (cd_flow_control d);
     let d = d\<lparr>cd_datagram := dg\<rparr>;
     (case x of
        Pending \<Rightarrow> Some (StepNone, d, ep)
      | Ready (Ok out) \<Rightarrow> Some (StepProgress (DatagramInbound out), d, ep)
      | Ready (Err (DatagramReceive f)) \<Rightarrow> do {
          disposition \<leftarrow> classify_datagram_receive (cd_flow_control d) f;
          finish_data_failure (op_quinn io) (tu_flow tu) d ep disposition (DriverDatagram (DatagramReceive f)) }
      | Ready (Err e) \<Rightarrow> terminal_step (op_quinn io) d ep (DriverDatagram e)) }"

section \<open>A poll\<close>

text \<open>One category of the round; \<open>closing\<close> tells that the peer has closed without an error.\<close>

definition poll_data_category ::
  "('q, 'w, 'f, 'r) driver_ops \<Rightarrow> driver_turn \<Rightarrow> ('q, 'w, 'f, 'r) connection_driver \<Rightarrow> delivery_endpoint \<Rightarrow> nat \<Rightarrow>
     (driver_step, 'q, 'w, 'f, 'r) driver_op" where
  "poll_data_category io tu d ep i =
     (if i = 2 then poll_reliable_outbound_acquisition io tu d ep
      else if i = 3 then poll_reliable_inbound_acquisition io tu d ep
      else if i = 4 then poll_reliable_outbound io tu d ep
      else if i = 5 then poll_reliable_inbound io tu d ep
      else if i = 6 then drive_datagram_outbound io tu d ep
      else if i = 7 then poll_datagram_inbound io tu d ep
      else None)"

definition poll_category ::
  "('q, 'w, 'f, 'r) driver_ops \<Rightarrow> driver_turn \<Rightarrow> bool \<Rightarrow> ('q, 'w, 'f, 'r) connection_driver \<Rightarrow> delivery_endpoint \<Rightarrow>
     nat \<Rightarrow> (driver_step, 'q, 'w, 'f, 'r) driver_op" where
  "poll_category io tu closing d ep i =
     (if i = 0 then poll_control_send io tu d ep
      else if i = 1 then (if closing then Some (StepNone, d, ep) else poll_control_receive io tu d ep)
      else if 2 \<le> i \<and> i \<le> 7 \<and> \<not> data_poll_allowed d then Some (StepNone, d, ep)
      else poll_data_category io tu d ep i)"

definition step_outcome :: "driver_step \<Rightarrow> (connection_progress, driver_error) result option" where
  "step_outcome s = (case s of StepNone \<Rightarrow> None | StepProgress p \<Rightarrow> Some (Ok p) | StepError e \<Rightarrow> Some (Err e))"

definition poll_round_at ::
  "('q, 'w, 'f, 'r) driver_ops \<Rightarrow> driver_turn \<Rightarrow> bool \<Rightarrow> ('q, 'w, 'f, 'r) connection_driver \<times> delivery_endpoint \<Rightarrow>
     nat \<Rightarrow> ((connection_progress, driver_error) result option
       \<times> ('q, 'w, 'f, 'r) connection_driver \<times> delivery_endpoint) exec" where
  "poll_round_at io tu closing s i = do {
     (x, d, ep) \<leftarrow> poll_category io tu closing (fst s) (snd s) i;
     Some (case step_outcome x of
         None \<Rightarrow> (None, d, ep)
       | Some r \<Rightarrow> (Some r, d\<lparr>cd_poll_cursor := next_poll_cursor i\<rparr>, ep)) }"

definition poll_round ::
  "('q, 'w, 'f, 'r) driver_ops \<Rightarrow> driver_turn \<Rightarrow> bool \<Rightarrow> ('q, 'w, 'f, 'r) connection_driver \<Rightarrow> delivery_endpoint \<Rightarrow>
     ((connection_progress, driver_error) result poll, 'q, 'w, 'f, 'r) driver_op" where
  "poll_round io tu closing d ep =
     (let start = cd_poll_cursor d mod DRIVER_CATEGORY_COUNT in do {
        (r, d, ep) \<leftarrow> poll_each (poll_round_at io tu closing) (ring start DRIVER_CATEGORY_COUNT) (d, ep);
        Some (case r of
            Some r \<Rightarrow> (Ready r, d, ep)
          | None \<Rightarrow> (Pending, d\<lparr>cd_poll_cursor := next_poll_cursor start\<rparr>, ep)) })"

definition peer_no_error_close_observed ::
  "('q, 'w, 'r) quinn_ops \<Rightarrow> ('q, 'w, 'f, 'r) connection_driver \<Rightarrow> bool \<times> ('q, 'w, 'f, 'r) connection_driver" where
  "peer_no_error_close_observed qo d =
     (case qn_close_reason qo (cd_quinn d) of (reason, q) \<Rightarrow>
        (reason = Some (ApplicationClosed (ucast (code_wire NoError))), d\<lparr>cd_quinn := q\<rparr>))"

definition driver_poll_step ::
  "('q, 'w, 'f, 'r) driver_ops \<Rightarrow> driver_turn \<Rightarrow> ('q, 'w, 'f, 'r) connection_driver \<Rightarrow> delivery_endpoint \<Rightarrow>
     ((connection_progress, driver_error) result poll, 'q, 'w, 'f, 'r) driver_op" where
  "driver_poll_step io tu d ep =
     (if cd_phase d = DriverTerminal then Some (Ready (Err (DriverState DriverIsTerminal)), d, ep)
      else case peer_no_error_close_observed (op_quinn io) d of
        (False, d) \<Rightarrow> poll_round io tu False d ep
      | (True, d) \<Rightarrow> do {
          (x, d, ep) \<leftarrow> poll_control_receive io tu d ep;
          (case step_outcome x of
             Some r \<Rightarrow> Some (Ready r, d\<lparr>cd_poll_cursor := next_poll_cursor 1\<rparr>, ep)
           | None \<Rightarrow> poll_round io tu True d ep) })"

section \<open>The operations of the host\<close>

definition outbound_open_error_is_connection_terminal :: "outbound_open_error \<Rightarrow> bool" where
  "outbound_open_error_is_connection_terminal e \<longleftrightarrow> e = DatagramUnavailable"

definition inbound_admission_error_is_connection_terminal :: "inbound_admission_error \<Rightarrow> bool" where
  "inbound_admission_error_is_connection_terminal e = (case e of RequestNotPending _ \<Rightarrow> False | _ \<Rightarrow> True)"

definition driver_open_outbound ::
  "('q, 'w, 'f, 'r) driver_ops \<Rightarrow> driver_turn \<Rightarrow> ('q, 'w, 'f, 'r) connection_driver \<Rightarrow> delivery_endpoint \<Rightarrow>
     outbound_open_request \<Rightarrow> ((unit, driver_error) result, 'q, 'w, 'f, 'r) driver_op" where
  "driver_open_outbound io tu d ep q =
     (case require_control_send_ready d of
        Err e \<Rightarrow> Some (Err (DriverState e), d, ep)
      | Ok _ \<Rightarrow>
        (case qn_max_datagram_size (op_quinn io) (cd_quinn d) of (limit, quinn) \<Rightarrow> do {
           (x, c) \<leftarrow> driver_prepare_open (tu_flow tu) (cd_flow_control d) ep q limit;
           let d = d\<lparr>cd_quinn := quinn, cd_flow_control := c\<rparr>;
           Some (case x of
               Err e \<Rightarrow> (Err (DriverOutboundOpen e),
                 (if outbound_open_error_is_connection_terminal e then enter_terminal (op_quinn io) d None else d), ep)
             | Ok p \<Rightarrow> (case start_prepared_send (op_quinn io) d p of (x, d) \<Rightarrow> (x, d, ep))) }))"

text \<open>The end of both decisions on the peer's open.\<close>

definition decision_send ::
  "('q, 'w, 'r) quinn_ops \<Rightarrow> ('q, 'w, 'f, 'r) connection_driver \<Rightarrow> delivery_endpoint \<Rightarrow>
     (pending_send, inbound_admission_error) result \<Rightarrow>
     (unit, inbound_decision_error) result \<times> ('q, 'w, 'f, 'r) connection_driver \<times> delivery_endpoint" where
  "decision_send qo d ep x =
     (case x of
        Err e \<Rightarrow> (Err (DecisionDriver (DriverInboundAdmission e)),
          (if inbound_admission_error_is_connection_terminal e then enter_terminal qo d None else d), ep)
      | Ok p \<Rightarrow> (case start_prepared_send qo d p of (y, d) \<Rightarrow> (map_err DecisionDriver y, d, ep)))"

definition decide_accept ::
  "('q, 'w, 'f, 'r) driver_ops \<Rightarrow> driver_turn \<Rightarrow> ('q, 'w, 'f, 'r) connection_driver \<Rightarrow> delivery_endpoint \<Rightarrow>
     inbound_open \<Rightarrow> inbound_admission \<Rightarrow> ((unit, inbound_decision_error) result, 'q, 'w, 'f, 'r) driver_op" where
  "decide_accept io tu d ep q a =
     (case require_control_send_ready d of
        Err e \<Rightarrow> Some (Err (DecisionUnavailable q e), d, ep)
      | Ok _ \<Rightarrow> do {
          (x, c, ep) \<leftarrow> driver_accept_inbound (tu_flow tu) (cd_flow_control d) ep q a
            (ri_max_staging_bytes (cd_reliable d));
          Some (decision_send (op_quinn io) (d\<lparr>cd_flow_control := c\<rparr>) ep x) })"

definition decide_reject ::
  "('q, 'w, 'f, 'r) driver_ops \<Rightarrow> driver_turn \<Rightarrow> ('q, 'w, 'f, 'r) connection_driver \<Rightarrow> delivery_endpoint \<Rightarrow>
     inbound_open \<Rightarrow> flow_reject_reason \<Rightarrow> ((unit, inbound_decision_error) result, 'q, 'w, 'f, 'r) driver_op" where
  "decide_reject io tu d ep q reason =
     (case require_control_send_ready d of
        Err e \<Rightarrow> Some (Err (DecisionUnavailable q e), d, ep)
      | Ok _ \<Rightarrow> do {
          (x, c) \<leftarrow> driver_reject_inbound (tu_flow tu) (cd_flow_control d) q reason;
          Some (decision_send (op_quinn io) (d\<lparr>cd_flow_control := c\<rparr>) ep x) })"

definition has_reliable_outbound_flow :: "('q, 'w, 'f, 'r) connection_driver \<Rightarrow> delivery_flow_key \<Rightarrow> bool" where
  "has_reliable_outbound_flow d key \<longleftrightarrow> reliable_outbound_flow_id (cd_reliable d) (cd_flow_control d) key \<noteq> None"

definition driver_request_finish ::
  "('q, 'w, 'f, 'r) driver_ops \<Rightarrow> driver_turn \<Rightarrow> ('q, 'w, 'f, 'r) connection_driver \<Rightarrow> delivery_endpoint \<Rightarrow>
     flow_id \<Rightarrow> ((outbound_finish_outcome, driver_error) result, 'q, 'w, 'f, 'r) driver_op" where
  "driver_request_finish io tu d ep i =
     (case require_control_send_ready d of
        Err e \<Rightarrow> Some (Err (DriverState e), d, ep)
      | Ok _ \<Rightarrow> do {
          (x, rel) \<leftarrow> reliable_request_finish (op_writer io) (cd_reliable d) ep i;
          let d = d\<lparr>cd_reliable := rel\<rparr>;
          (case x of
             Ok _ \<Rightarrow> Some (Ok FinishStarted, d, ep)
           | Err e \<Rightarrow>
             if e = ReliableState OutboundAcquisitionPending \<or> e = ReliableState UnknownOutboundFlow
             then Some (Err (DriverReliable e), d, ep)
             else (case e of
                 OutboundFinish i s \<Rightarrow>
                   (case classify_outbound_finish (cd_flow_control d) i s of
                      None \<Rightarrow> Some (Err (DriverReliable e), d, ep)
                    | Some disposition \<Rightarrow> do {
                        (y, d, ep) \<leftarrow> apply_data_failure (op_quinn io) (tu_flow tu) d ep disposition (DriverReliable e);
                        Some (case y of Ok i \<Rightarrow> Ok (FinishFailureHandled i) | Err e \<Rightarrow> Err e, d, ep) })
               | _ \<Rightarrow> Some (Err (DriverReliable e), enter_terminal (op_quinn io) d None, ep))) })"

definition driver_request_finish_by_key ::
  "('q, 'w, 'f, 'r) driver_ops \<Rightarrow> driver_turn \<Rightarrow> ('q, 'w, 'f, 'r) connection_driver \<Rightarrow> delivery_endpoint \<Rightarrow>
     delivery_flow_key \<Rightarrow> delivery_mode \<Rightarrow>
     ((outbound_finish_outcome, keyed_finish_error) result, 'q, 'w, 'f, 'r) driver_op" where
  "driver_request_finish_by_key io tu d ep key mode =
     (case require_control_send_ready d of
        Err e \<Rightarrow> Some (Err (KeyedFinishState e), d, ep)
      | Ok _ \<Rightarrow>
        if mode = ReliableOrdered then
          (case reliable_outbound_flow_id (cd_reliable d) (cd_flow_control d) key of
             None \<Rightarrow> Some (Err KeyedFinishUnknownFlow, d, ep)
           | Some i \<Rightarrow> do {
               (x, d, ep) \<leftarrow> driver_request_finish io tu d ep i;
               Some (map_err KeyedFinishDriver x, d, ep) })
        else
          (case datagram_outbound_flow_id (cd_datagram d) (cd_flow_control d) key of
             None \<Rightarrow> Some (Err KeyedFinishUnknownFlow, d, ep)
           | Some i \<Rightarrow> do {
               (x, c, ep) \<leftarrow> driver_terminate_local (tu_flow tu) (cd_flow_control d) ep i TerminateNormal;
               let d = d\<lparr>cd_flow_control := c\<rparr>;
               Some (case x of
                   Err e \<Rightarrow> (Err (KeyedFinishDriver (FailurePreparation e)), d, ep)
                 | Ok p \<Rightarrow>
                   (case start_prepared_send (op_quinn io) d p of
                      (Err e, d) \<Rightarrow> (Err (KeyedFinishDriver e), d, ep)
                    | (Ok _, d) \<Rightarrow> (Ok FinishStarted, d, ep))) }))"

definition datagram_submission_error_is_connection_terminal :: "datagram_submission_error \<Rightarrow> bool" where
  "datagram_submission_error_is_connection_terminal e =
     (case e of SubmitCore _ \<Rightarrow> True | SubmitWire _ \<Rightarrow> True | SubmitLengthOverflow \<Rightarrow> True
              | AcceptedIndexMismatch _ _ \<Rightarrow> True | _ \<Rightarrow> False)"

definition driver_submit ::
  "('q, 'w, 'f, 'r) driver_ops \<Rightarrow> driver_turn \<Rightarrow> ('q, 'w, 'f, 'r) connection_driver \<Rightarrow> delivery_endpoint \<Rightarrow>
     flow_id \<Rightarrow> bytes \<Rightarrow> ((datagram_submit_outcome, datagram_submit_error) result, 'q, 'w, 'f, 'r) driver_op" where
  "driver_submit io tu d ep i payload =
     (case require_control_send_ready d of
        Err e \<Rightarrow> Some (Err (SubmitUnavailable i payload e), d, ep)
      | Ok _ \<Rightarrow> do {
          (x, dg, ep) \<leftarrow> datagram_io_submit (op_datagram io) (cd_datagram d) ep (cd_flow_control d) i payload;
          let d = d\<lparr>cd_datagram := dg\<rparr>;
          (case x of
             Ok out \<Rightarrow> Some (if out = DatagramTransportUnavailable
               then (Err (SubmitDriver DatagramProfileUnavailable), enter_terminal (op_quinn io) d None, ep)
               else (Ok (Submitted out), d, ep))
           | Err e \<Rightarrow>
             (case classify_datagram_submission (cd_flow_control d) i e of
                Some disposition \<Rightarrow> do {
                  (y, d, ep) \<leftarrow> apply_data_failure (op_quinn io) (tu_flow tu) d ep disposition (DriverDatagramSubmission e);
                  Some (case y of Ok i \<Rightarrow> Ok (SubmitFailureHandled i) | Err e \<Rightarrow> Err (SubmitDriver e), d, ep) }
              | None \<Rightarrow> Some (Err (SubmitDriver (DriverDatagramSubmission e)),
                  (if datagram_submission_error_is_connection_terminal e then enter_terminal (op_quinn io) d None
                   else d), ep))) })"

definition driver_submit_by_key ::
  "('q, 'w, 'f, 'r) driver_ops \<Rightarrow> driver_turn \<Rightarrow> ('q, 'w, 'f, 'r) connection_driver \<Rightarrow> delivery_endpoint \<Rightarrow>
     delivery_flow_key \<Rightarrow> bytes \<Rightarrow> ((datagram_submit_outcome, keyed_submit_error) result, 'q, 'w, 'f, 'r) driver_op" where
  "driver_submit_by_key io tu d ep key payload =
     (case datagram_outbound_flow_id (cd_datagram d) (cd_flow_control d) key of
        None \<Rightarrow> Some (Err (KeyedSubmitUnknownFlow payload), d, ep)
      | Some i \<Rightarrow> do {
          (x, d, ep) \<leftarrow> driver_submit io tu d ep i payload;
          Some (case x of
              Ok out \<Rightarrow> Ok out
            | Err (SubmitUnavailable _ payload e) \<Rightarrow> Err (KeyedSubmitUnavailable payload e)
            | Err (SubmitDriver e) \<Rightarrow> Err (KeyedSubmitDriver e), d, ep) })"

text \<open>The end: an open connection is closed without an error, and the rest is dropped.\<close>

definition driver_teardown ::
  "('q, 'w, 'f, 'r) driver_ops \<Rightarrow> ('q, 'w, 'f, 'r) connection_driver \<Rightarrow> negotiation_manager \<Rightarrow>
     delivery_endpoint \<Rightarrow> connection_slots \<Rightarrow>
     ('q \<times> connection_teardown \<times> negotiation_manager \<times> delivery_endpoint \<times> connection_slots) exec" where
  "driver_teardown io d m ep slots =
     (let q = (case qn_close_reason (op_quinn io) (cd_quinn d) of
          (None, q) \<Rightarrow> qn_close (op_quinn io) q (code_wire NoError) ESTABLISHED_TEARDOWN_CLOSE_REASON
        | (Some _, q) \<Rightarrow> q)
      in do {
        r \<leftarrow> established_teardown_run (cd_teardown d) m ep slots;
        Some (q, r) })"

end
