(* ===== verification/Delivery_Accounting.thy ===== *)
theory Delivery_Accounting
  imports Delivery_Endpoint
begin

text \<open>
  The books of a delivery endpoint. \<open>used_by P flows\<close> adds up the flows selected by \<open>P\<close>; an
  aggregate, connection or session scope is right when its usage is that sum and is within its
  limits. The lemmas say how \<open>add_pending\<close>, \<open>remove_pending\<close> and the release of a flow move the
  books, and that none of them panics.
\<close>

section \<open>Usage as a sum over flows\<close>

definition usage_plus :: "scope_usage \<Rightarrow> scope_usage \<Rightarrow> scope_usage" where
  "usage_plus u v = usage_of (su_active_flows u + su_active_flows v)
     (su_pending_messages u + su_pending_messages v)
     (su_pending_payload_bytes u + su_pending_payload_bytes v)"

definition flow_share ::
  "(delivery_flow_key \<Rightarrow> flow_state \<Rightarrow> bool) \<Rightarrow> delivery_flow_key \<Rightarrow> flow_state \<Rightarrow> scope_usage" where
  "flow_share P k f =
     (if P k f then usage_of 1 (fl_pending_messages f) (fl_pending_payload_bytes f)
      else usage_of 0 0 0)"

definition used_by ::
  "(delivery_flow_key \<Rightarrow> flow_state \<Rightarrow> bool) \<Rightarrow> (delivery_flow_key, flow_state) fmap \<Rightarrow>
     scope_usage" where
  "used_by P fls = usage_of (fm_sum (\<lambda>k f. su_active_flows (flow_share P k f)) fls)
     (fm_sum (\<lambda>k f. su_pending_messages (flow_share P k f)) fls)
     (fm_sum (\<lambda>k f. su_pending_payload_bytes (flow_share P k f)) fls)"

definition scope_ok ::
  "(delivery_flow_key \<Rightarrow> flow_state \<Rightarrow> bool) \<Rightarrow> (delivery_flow_key, flow_state) fmap \<Rightarrow>
     scope_state \<Rightarrow> bool" where
  "scope_ok P fls s \<longleftrightarrow> sc_usage s = used_by P fls \<and> scope_within (sc_usage s) (sc_limits s)"

text \<open>A table of scopes holds an entry exactly for the scopes some flow uses.\<close>

definition entry_ok ::
  "(delivery_flow_key \<Rightarrow> flow_state \<Rightarrow> bool) \<Rightarrow> (delivery_flow_key, flow_state) fmap \<Rightarrow>
     scope_state option \<Rightarrow> bool" where
  "entry_ok P fls e =
     (case e of None \<Rightarrow> used_by P fls = usage_of 0 0 0
      | Some s \<Rightarrow> scope_ok P fls s \<and> 0 < su_active_flows (sc_usage s))"

definition table_ok ::
  "('k \<Rightarrow> delivery_flow_key \<Rightarrow> flow_state \<Rightarrow> bool) \<Rightarrow> (delivery_flow_key, flow_state) fmap \<Rightarrow>
     ('k, scope_state) fmap \<Rightarrow> bool" where
  "table_ok sel fls m \<longleftrightarrow> (\<forall>x. entry_ok (sel x) fls (fmlookup m x))"

definition accounts_ok :: "delivery_endpoint \<Rightarrow> bool" where
  "accounts_ok ep \<longleftrightarrow> scope_ok (\<lambda>_ _. True) (de_flows ep) (de_aggregate ep)
     \<and> table_ok (\<lambda>c k f. fk_connection k = c) (de_flows ep) (de_connections ep)
     \<and> table_ok (\<lambda>s k f. fl_session f = Some s) (de_flows ep) (de_sessions ep)"

lemma usage_plus_of [simp]:
  "usage_plus (usage_of a b c) (usage_of d e f) = usage_of (a + d) (b + e) (c + f)"
  by (simp add: usage_plus_def)

lemma usage_plus_zero [simp]: "usage_plus (usage_of 0 0 0) u = u"
  by (simp add: usage_plus_def usage_of_eta)

lemma usage_of_inject [simp]:
  "usage_of a b c = usage_of d e f \<longleftrightarrow> a = d \<and> b = e \<and> c = f"
  by (auto simp: usage_of_def)

lemma used_empty [simp]: "used_by P fmempty = usage_of 0 0 0"
  by (simp add: used_by_def)

lemma used_fmupd: "used_by P (fmupd k f fls) = usage_plus (flow_share P k f) (used_by P (fmdrop k fls))"
  by (simp add: used_by_def usage_plus_def fm_sum_fmupd)

lemma used_split:
  "fmlookup fls k = Some f \<Longrightarrow> used_by P fls = usage_plus (flow_share P k f) (used_by P (fmdrop k fls))"
  by (simp add: used_by_def usage_plus_def fm_sum_split[of fls k f])

lemma used_fresh:
  "fmlookup fls k = None \<Longrightarrow> used_by P (fmupd k f fls) = usage_plus (flow_share P k f) (used_by P fls)"
  by (simp add: used_fmupd fmdrop_absent)

lemma used_none_selected:
  assumes "su_active_flows (used_by P fls) = 0"
  shows "used_by P fls = usage_of 0 0 0"
proof -
  have no: "\<not> P k f" if "fmlookup fls k = Some f" for k f
    using assms that by (auto simp: used_by_def fm_sum_0_iff flow_share_def split: if_splits)
  then show ?thesis
    by (auto simp: used_by_def fm_sum_0_iff flow_share_def)
qed

text \<open>Replacing a flow changes the usage of a scope by the change of its share.\<close>

lemma used_unselected:
  assumes "fmlookup fls k = Some f" "\<not> P k f" "\<not> P k f'"
  shows "used_by P (fmupd k f' fls) = used_by P fls"
  using used_split[OF assms(1), of P] assms(2,3) by (simp add: used_fmupd flow_share_def)

lemma used_grow:
  assumes "fmlookup fls k = Some f" "P k f" "P k f'"
    and "fl_pending_messages f' = m + fl_pending_messages f"
    and "fl_pending_payload_bytes f' = b + fl_pending_payload_bytes f"
  shows "used_by P (fmupd k f' fls) = usage_plus (usage_of 0 m b) (used_by P fls)"
  using used_split[OF assms(1), of P] assms(2-)
  by (simp add: used_fmupd flow_share_def usage_plus_def)

lemma used_shrink:
  assumes "fmlookup fls k = Some f" "P k f" "P k f'"
    and "fl_pending_messages f = m + fl_pending_messages f'"
    and "fl_pending_payload_bytes f = b + fl_pending_payload_bytes f'"
  shows "used_by P fls = usage_plus (usage_of 0 m b) (used_by P (fmupd k f' fls))"
  using used_split[OF assms(1), of P] assms(2-)
  by (simp add: used_fmupd flow_share_def usage_plus_def)

lemma used_leave:
  assumes "fmlookup fls k = Some f" "P k f"
  shows "used_by P fls =
     usage_plus (usage_of 1 (fl_pending_messages f) (fl_pending_payload_bytes f)) (used_by P (fmdrop k fls))"
  using used_split[OF assms(1), of P] assms(2) by (simp add: flow_share_def)

lemma used_skip:
  assumes "fmlookup fls k = Some f" "\<not> P k f"
  shows "used_by P (fmdrop k fls) = used_by P fls"
  using used_split[OF assms(1), of P] assms(2) by (simp add: flow_share_def)

section \<open>One scope\<close>

lemma scope_add_plus:
  assumes "scope_can_add u l f m b"
  shows "scope_add u f m b = Some (usage_plus (usage_of f m b) u)"
    and "scope_within (usage_plus (usage_of f m b) u) l"
  using assms
  by (auto simp: scope_can_add_def fits_within_iff scope_add_def usage_plus_def usage_of_def
      scope_within_def add.commute)

lemma scope_remove_plus [simp]: "scope_remove (usage_plus (usage_of f m b) u) f m b = Some u"
  by (simp add: scope_remove_def usage_plus_def)

lemma scope_within_plus: "scope_within (usage_plus v u) l \<Longrightarrow> scope_within u l"
  by (auto simp: scope_within_def usage_plus_def)

lemma adjust_scope_add:
  assumes "scope_ok P fls s" "scope_can_add (sc_usage s) (sc_limits s) n m b"
    and "used_by P fls' = usage_plus (usage_of n m b) (used_by P fls)"
  shows "\<exists>s'. adjust_scope scope_add n m b s = Some s' \<and> scope_ok P fls' s'
     \<and> sc_limits s' = sc_limits s
     \<and> su_active_flows (sc_usage s') = n + su_active_flows (sc_usage s)"
  using assms scope_add_plus[OF assms(2)]
  by (auto simp: adjust_scope_def scope_ok_def usage_plus_def)

lemma adjust_scope_remove:
  assumes "scope_ok P fls s" "used_by P fls = usage_plus (usage_of n m b) (used_by P fls')"
  shows "\<exists>s'. adjust_scope scope_remove n m b s = Some s' \<and> scope_ok P fls' s'
     \<and> sc_limits s' = sc_limits s
     \<and> su_active_flows (sc_usage s) = n + su_active_flows (sc_usage s')"
proof -
  let ?v = "used_by P fls'"
  have "sc_usage s = usage_plus (usage_of n m b) ?v" and "scope_within (sc_usage s) (sc_limits s)"
    using assms by (auto simp: scope_ok_def)
  moreover have "scope_within ?v (sc_limits s)"
    using calculation by (metis scope_within_plus)
  moreover have "su_active_flows (sc_usage s) = n + su_active_flows ?v"
    using calculation(1) by (simp add: usage_plus_def)
  ultimately show ?thesis by (simp add: adjust_scope_def scope_ok_def)
qed

section \<open>A table of scopes\<close>

lemma entry_ok_simps [simp]:
  "entry_ok P fls None \<longleftrightarrow> used_by P fls = usage_of 0 0 0"
  "entry_ok P fls (Some s) \<longleftrightarrow> scope_ok P fls s \<and> 0 < su_active_flows (sc_usage s)"
  by (simp_all add: entry_ok_def)

lemma entry_ok_same:
  "entry_ok P fls e \<Longrightarrow> used_by P fls' = used_by P fls \<Longrightarrow> entry_ok P fls' e"
  by (cases e) (auto simp: scope_ok_def)

lemma table_okD: "table_ok sel fls m \<Longrightarrow> entry_ok (sel x) fls (fmlookup m x)"
  by (simp add: table_ok_def)

lemma table_ok_Some:
  assumes "table_ok sel fls m" "fmlookup m x = Some s"
  shows "scope_ok (sel x) fls s" "0 < su_active_flows (sc_usage s)"
  using table_okD[OF assms(1), of x] assms(2) by simp_all

lemma table_ok_None:
  "table_ok sel fls m \<Longrightarrow> fmlookup m x = None \<Longrightarrow> used_by (sel x) fls = usage_of 0 0 0"
  using table_okD[of sel fls m x] by simp

lemma used_active:
  assumes "fmlookup fls k = Some f" "P k f"
  shows "0 < su_active_flows (used_by P fls)"
  unfolding used_leave[where P = P, OF assms] by (simp add: usage_plus_def)

text \<open>A flow that selects a scope finds its entry: the \<open>expect\<close>s of the endpoint.\<close>

lemma table_entry:
  assumes "table_ok sel fls m" "fmlookup fls k = Some f" "sel x k f"
  obtains s where "fmlookup m x = Some s" "scope_ok (sel x) fls s"
proof (cases "fmlookup m x")
  case None
  then have "used_by (sel x) fls = usage_of 0 0 0" by (rule table_ok_None[OF assms(1)])
  moreover have "0 < su_active_flows (used_by (sel x) fls)"
    by (rule used_active[where P = "sel x", OF assms(2,3)])
  ultimately show ?thesis by simp
next
  case (Some s)
  then show ?thesis using that table_ok_Some[OF assms(1) Some] by blast
qed

lemma table_ok_same:
  "table_ok sel fls m \<Longrightarrow> (\<And>x. used_by (sel x) fls' = used_by (sel x) fls) \<Longrightarrow> table_ok sel fls' m"
  unfolding table_ok_def using entry_ok_same by blast

text \<open>Only the entry \<open>x\<close> moves: the others keep their flows.\<close>

lemma table_ok_move:
  assumes "table_ok sel fls m" "\<And>y. y \<noteq> x \<Longrightarrow> used_by (sel y) fls' = used_by (sel y) fls"
    and "\<And>y. y \<noteq> x \<Longrightarrow> fmlookup m' y = fmlookup m y" "entry_ok (sel x) fls' (fmlookup m' x)"
  shows "table_ok sel fls' m'"
  unfolding table_ok_def
proof
  fix y
  show "entry_ok (sel y) fls' (fmlookup m' y)"
  proof (cases "y = x")
    case True
    then show ?thesis using assms(4) by simp
  next
    case False
    then show ?thesis
      using entry_ok_same[OF table_okD[OF assms(1)] assms(2)] assms(3) by simp
  qed
qed

lemma table_ok_upd:
  assumes "table_ok sel fls m" "\<And>y. y \<noteq> x \<Longrightarrow> used_by (sel y) fls' = used_by (sel y) fls"
    and "scope_ok (sel x) fls' s" "0 < su_active_flows (sc_usage s)"
  shows "table_ok sel fls' (fmupd x s m)"
  by (rule table_ok_move[OF assms(1,2)]) (use assms(3,4) in auto)

lemma table_ok_drop:
  assumes "table_ok sel fls m" "\<And>y. y \<noteq> x \<Longrightarrow> used_by (sel y) fls' = used_by (sel y) fls"
    and "used_by (sel x) fls' = usage_of 0 0 0"
  shows "table_ok sel fls' (fmdrop x m)"
  by (rule table_ok_move[OF assms(1,2)]) (use assms(3) in auto)

lemma adjust_entry_add:
  assumes "table_ok sel fls m" "fmlookup m x = Some s"
    and "scope_can_add (sc_usage s) (sc_limits s) n mm b"
    and "used_by (sel x) fls' = usage_plus (usage_of n mm b) (used_by (sel x) fls)"
    and "\<And>y. y \<noteq> x \<Longrightarrow> used_by (sel y) fls' = used_by (sel y) fls"
  shows "\<exists>m'. adjust_entry scope_add n mm b x m = Some m' \<and> table_ok sel fls' m'"
proof -
  have s: "scope_ok (sel x) fls s" "0 < su_active_flows (sc_usage s)"
    using table_ok_Some[OF assms(1,2)] by auto
  obtain s' where s': "adjust_scope scope_add n mm b s = Some s'" "scope_ok (sel x) fls' s'"
    "su_active_flows (sc_usage s') = n + su_active_flows (sc_usage s)"
    using adjust_scope_add[OF s(1) assms(3,4)] by auto
  have "table_ok sel fls' (fmupd x s' m)"
    using s s' by (intro table_ok_upd[OF assms(1,5)]) auto
  then show ?thesis by (simp add: adjust_entry_def assms(2) s'(1))
qed

lemma adjust_entry_remove:
  assumes "table_ok sel fls m" "fmlookup fls' k = Some f" "sel x k f" "fmlookup m x = Some s"
    and "used_by (sel x) fls = usage_plus (usage_of 0 mm b) (used_by (sel x) fls')"
    and "\<And>y. y \<noteq> x \<Longrightarrow> used_by (sel y) fls' = used_by (sel y) fls"
  shows "\<exists>m'. adjust_entry scope_remove 0 mm b x m = Some m' \<and> table_ok sel fls' m'"
proof -
  have s: "scope_ok (sel x) fls s" by (rule table_ok_Some(1)[OF assms(1,4)])
  obtain s' where s': "adjust_scope scope_remove 0 mm b s = Some s'" "scope_ok (sel x) fls' s'"
    using adjust_scope_remove[OF s assms(5)] by auto
  have "table_ok sel fls' (fmupd x s' m)"
    using s'(2) used_active[where P = "sel x", OF assms(2,3)]
    by (intro table_ok_upd[OF assms(1,6)]) (auto simp: scope_ok_def)
  then show ?thesis by (simp add: adjust_entry_def assms(4) s'(1))
qed

lemma adjust_entry_new:
  assumes "table_ok sel fls m" "fmlookup m x = None"
    and "scope_can_add scope_usage_default l n mm b" "0 < n"
    and "used_by (sel x) fls' = usage_plus (usage_of n mm b) (used_by (sel x) fls)"
    and "\<And>y. y \<noteq> x \<Longrightarrow> used_by (sel y) fls' = used_by (sel y) fls"
  shows "\<exists>m'. adjust_entry scope_add n mm b x (entry_or_new x l m) = Some m' \<and> table_ok sel fls' m'"
proof -
  have "scope_ok (sel x) fls (scope_state_new l)"
    using table_ok_None[OF assms(1,2)]
    by (simp add: scope_ok_def scope_state_new_def scope_usage_default_def usage_of_def scope_within_def)
  moreover have "scope_can_add (sc_usage (scope_state_new l)) (sc_limits (scope_state_new l)) n mm b"
    using assms(3) by (simp add: scope_state_new_def)
  ultimately obtain s' where s': "adjust_scope scope_add n mm b (scope_state_new l) = Some s'"
    "scope_ok (sel x) fls' s'" "0 < su_active_flows (sc_usage s')"
    using adjust_scope_add[of "sel x" fls "scope_state_new l" n mm b fls'] assms(4,5) by auto
  have "table_ok sel fls' (fmupd x s' m)"
    using s'(2,3) by (intro table_ok_upd[OF assms(1,6)]) auto
  then show ?thesis by (simp add: adjust_entry_def entry_or_new_def assms(2) s'(1))
qed

text \<open>Entering a scope that may have no entry yet.\<close>

lemma enter_scope:
  assumes "table_ok sel fls m" "0 < n"
    and "case fmlookup m x of Some s \<Rightarrow> scope_can_add (sc_usage s) (sc_limits s) n mm b
         | None \<Rightarrow> scope_can_add scope_usage_default l n mm b"
    and "used_by (sel x) fls' = usage_plus (usage_of n mm b) (used_by (sel x) fls)"
    and "\<And>y. y \<noteq> x \<Longrightarrow> used_by (sel y) fls' = used_by (sel y) fls"
  shows "\<exists>m'. adjust_entry scope_add n mm b x (entry_or_new x l m) = Some m' \<and> table_ok sel fls' m'"
proof (cases "fmlookup m x")
  case None
  then show ?thesis using adjust_entry_new[OF assms(1) None _ assms(2,4,5)] assms(3) by simp
next
  case (Some s)
  then show ?thesis
    using adjust_entry_add[OF assms(1) Some _ assms(4,5)] assms(3) by (simp add: entry_or_new_def)
qed

lemma release_entry_ok:
  assumes "table_ok sel fls m" "fmlookup m x = Some s"
    and "used_by (sel x) fls = usage_plus (usage_of 1 mm b) (used_by (sel x) fls')"
    and "\<And>y. y \<noteq> x \<Longrightarrow> used_by (sel y) fls' = used_by (sel y) fls"
  shows "\<exists>m'. release_entry mm b x m = Some m' \<and> table_ok sel fls' m'"
proof -
  have s: "scope_ok (sel x) fls s" by (rule table_ok_Some(1)[OF assms(1,2)])
  obtain s' where s': "adjust_scope scope_remove 1 mm b s = Some s'" "scope_ok (sel x) fls' s'"
    using adjust_scope_remove[OF s assms(3)] by auto
  have "table_ok sel fls' (if su_active_flows (sc_usage s') = 0 then fmdrop x m else fmupd x s' m)"
    using s'(2) used_none_selected[of "sel x" fls'] table_ok_drop[OF assms(1,4)]
      table_ok_upd[OF assms(1,4) s'(2)] by (auto simp: scope_ok_def)
  then show ?thesis by (simp add: release_entry_def assms(2) s'(1)[simplified])
qed

section \<open>Pending work of one flow\<close>

abbreviation all_flows :: "delivery_flow_key \<Rightarrow> flow_state \<Rightarrow> bool" where
  "all_flows \<equiv> (\<lambda>_ _. True)"

abbreviation by_connection :: "connection_handle \<Rightarrow> delivery_flow_key \<Rightarrow> flow_state \<Rightarrow> bool" where
  "by_connection \<equiv> (\<lambda>c k f. fk_connection k = c)"

abbreviation by_session :: "session_id \<Rightarrow> delivery_flow_key \<Rightarrow> flow_state \<Rightarrow> bool" where
  "by_session \<equiv> (\<lambda>s k f. fl_session f = Some s)"

lemma accounts_okI:
  "scope_ok all_flows (de_flows ep) (de_aggregate ep) \<Longrightarrow>
   table_ok by_connection (de_flows ep) (de_connections ep) \<Longrightarrow>
   table_ok by_session (de_flows ep) (de_sessions ep) \<Longrightarrow> accounts_ok ep"
  by (simp add: accounts_ok_def)

lemma accounts_okD:
  assumes "accounts_ok ep"
  shows "scope_ok all_flows (de_flows ep) (de_aggregate ep)"
    and "table_ok by_connection (de_flows ep) (de_connections ep)"
    and "table_ok by_session (de_flows ep) (de_sessions ep)"
  using assms by (auto simp: accounts_ok_def)

text \<open>\<open>moved key f ep ep'\<close>: the flow became \<open>f\<close>, its scopes followed, nothing else changed.\<close>

definition moved :: "delivery_flow_key \<Rightarrow> flow_state \<Rightarrow> delivery_endpoint \<Rightarrow> delivery_endpoint \<Rightarrow> bool" where
  "moved key f ep ep' \<longleftrightarrow> de_flows ep' = fmupd key f (de_flows ep)
     \<and> de_diagnostics ep' = de_diagnostics ep
     \<and> sc_limits (de_aggregate ep') = sc_limits (de_aggregate ep)"

definition add_flow_pending :: "nat \<Rightarrow> nat \<Rightarrow> flow_state \<Rightarrow> flow_state" where
  "add_flow_pending m b f = f\<lparr>fl_pending_messages := m + fl_pending_messages f,
     fl_pending_payload_bytes := b + fl_pending_payload_bytes f\<rparr>"

definition sub_flow_pending :: "nat \<Rightarrow> nat \<Rightarrow> flow_state \<Rightarrow> flow_state" where
  "sub_flow_pending m b f = f\<lparr>fl_pending_messages := fl_pending_messages f - m,
     fl_pending_payload_bytes := fl_pending_payload_bytes f - b\<rparr>"

lemma set_flow_simps [simp]:
  "de_flows (set_flow key f ep) = fmupd key f (de_flows ep)"
  "de_aggregate (set_flow key f ep) = de_aggregate ep"
  "de_connections (set_flow key f ep) = de_connections ep"
  "de_sessions (set_flow key f ep) = de_sessions ep"
  "de_diagnostics (set_flow key f ep) = de_diagnostics ep"
  by (simp_all add: set_flow_def)

lemma fmupd_twice [simp]: "fmupd k a (fmupd k b m) = fmupd k a m"
  by (rule fmap_ext) simp

lemma can_add_pending_True:
  assumes "fmlookup (de_flows ep) key = Some f" "can_add_pending ep key m b = Some (Ok True)"
  shows "flow_can_add_pending f m b"
    and "scope_can_add (sc_usage (de_aggregate ep)) (sc_limits (de_aggregate ep)) 0 m b"
    and "\<exists>c. fmlookup (de_connections ep) (fk_connection key) = Some c
          \<and> scope_can_add (sc_usage c) (sc_limits c) 0 m b"
    and "fl_session f = Some sid \<Longrightarrow> \<exists>s. fmlookup (de_sessions ep) sid = Some s
          \<and> scope_can_add (sc_usage s) (sc_limits s) 0 m b"
  using assms by (auto simp: can_add_pending_def bind_eq_Some_conv split: if_splits option.splits)

lemma can_add_pending_total:
  assumes "accounts_ok ep" "fmlookup (de_flows ep) key = Some f"
  shows "\<exists>b. can_add_pending ep key m n = Some (Ok b)"
proof -
  obtain c where c: "fmlookup (de_connections ep) (fk_connection key) = Some c"
    using table_entry[OF accounts_okD(2)[OF assms(1)] assms(2), of "fk_connection key"] by blast
  show ?thesis
  proof (cases "fl_session f")
    case None
    then show ?thesis using assms(2) c by (auto simp: can_add_pending_def)
  next
    case (Some sid)
    obtain s where "fmlookup (de_sessions ep) sid = Some s"
      using table_entry[OF accounts_okD(3)[OF assms(1)] assms(2), of sid] Some by blast
    then show ?thesis using assms(2) c Some by (auto simp: can_add_pending_def)
  qed
qed

lemma adjust_pending_Some:
  assumes "num (fl_pending_messages f) m = Some mm" "num (fl_pending_payload_bytes f) b = Some bb"
    and "adjust_entry op 0 m b (fk_connection key) (de_connections ep) = Some cs"
    and "adjust_scope op 0 m b (de_aggregate ep) = Some a"
    and "(case fl_session f of None \<Rightarrow> Some (de_sessions ep)
           | Some sid \<Rightarrow> adjust_entry op 0 m b sid (de_sessions ep)) = Some ss"
  shows "adjust_pending num op (set_flow key f ep) key m b = Some (ep\<lparr>de_aggregate := a,
     de_connections := cs, de_sessions := ss, de_flows := fmupd key (f\<lparr>fl_pending_messages := mm,
       fl_pending_payload_bytes := bb\<rparr>) (de_flows ep)\<rparr>)"
  unfolding adjust_pending_def
  by (simp only: assms set_flow_simps fmupd_lookup if_True Option.bind.bind_lunit refl)
    (simp add: set_flow_def)

lemma add_pending_ok:
  assumes "accounts_ok ep" "fmlookup (de_flows ep) key = Some f"
    and "can_add_pending ep key m b = Some (Ok True)"
    and "fl_pending_messages f' = fl_pending_messages f"
      "fl_pending_payload_bytes f' = fl_pending_payload_bytes f" "fl_session f' = fl_session f"
  shows "\<exists>ep'. add_pending (set_flow key f' ep) key m b = Some ep' \<and> accounts_ok ep'
     \<and> moved key (add_flow_pending m b f') ep ep'"
proof -
  note can = can_add_pending_True[OF assms(2,3)] and acc = accounts_okD[OF assms(1)]
  define f2 where "f2 = add_flow_pending m b f'"
  let ?fls = "de_flows ep" and ?fls' = "fmupd key f2 (de_flows ep)"
  have f2: "fl_pending_messages f2 = m + fl_pending_messages f"
    "fl_pending_payload_bytes f2 = b + fl_pending_payload_bytes f" "fl_session f2 = fl_session f"
    using assms(4-6) by (simp_all add: f2_def add_flow_pending_def)
  have grow: "used_by P ?fls' = usage_plus (usage_of 0 m b) (used_by P ?fls)"
    if "P key f" "P key f2" for P
    by (rule used_grow[where P = P, OF assms(2) that f2(1,2)])
  have stay: "used_by P ?fls' = used_by P ?fls" if "\<not> P key f" "\<not> P key f2" for P
    by (rule used_unselected[where P = P, OF assms(2) that])
  obtain a where a: "adjust_scope scope_add 0 m b (de_aggregate ep) = Some a"
    "scope_ok all_flows ?fls' a" "sc_limits a = sc_limits (de_aggregate ep)"
    using adjust_scope_add[OF acc(1) can(2) grow] by auto
  obtain c where c: "fmlookup (de_connections ep) (fk_connection key) = Some c"
    "scope_can_add (sc_usage c) (sc_limits c) 0 m b" using can(3) by auto
  obtain cs where cs: "adjust_entry scope_add 0 m b (fk_connection key) (de_connections ep) = Some cs"
    "table_ok by_connection ?fls' cs"
    using adjust_entry_add[OF acc(2) c, of ?fls'] grow stay by auto
  obtain ss where ss: "(case fl_session f' of None \<Rightarrow> Some (de_sessions ep)
      | Some sid \<Rightarrow> adjust_entry scope_add 0 m b sid (de_sessions ep)) = Some ss"
    "table_ok by_session ?fls' ss"
  proof (cases "fl_session f")
    case None
    then have "table_ok by_session ?fls' (de_sessions ep)"
      using f2 by (intro table_ok_same[OF acc(3)] stay) auto
    then show ?thesis using that[of "de_sessions ep"] None assms(6) by simp
  next
    case (Some sid)
    obtain s where s: "fmlookup (de_sessions ep) sid = Some s"
      "scope_can_add (sc_usage s) (sc_limits s) 0 m b" using can(4)[OF Some] by auto
    obtain ss where "adjust_entry scope_add 0 m b sid (de_sessions ep) = Some ss"
      "table_ok by_session ?fls' ss"
      using adjust_entry_add[OF acc(3) s, of ?fls'] grow stay Some f2 by auto
    then show ?thesis using that Some assms(6) by simp
  qed
  have fits: "fl_pending_messages f + m \<le> usize_max" "fl_pending_payload_bytes f + b \<le> usize_max"
    using can(1) by (simp_all add: flow_can_add_pending_def fits_within_iff)
  define ep' where "ep' = ep\<lparr>de_aggregate := a, de_connections := cs, de_sessions := ss,
    de_flows := ?fls'\<rparr>"
  have "adjust_pending checked_add scope_add (set_flow key f' ep) key m b = Some ep'"
    unfolding ep'_def f2_def add_flow_pending_def
    by (rule adjust_pending_Some) (use a(1) cs(1) ss(1) fits assms(4,5) in \<open>simp_all add: add.commute\<close>)
  then have "add_pending (set_flow key f' ep) key m b = Some ep'"
    by (simp add: add_pending_def)
  moreover have "accounts_ok ep'"
    using a(2) cs(2) ss(2) by (intro accounts_okI) (simp_all add: ep'_def)
  moreover have "moved key f2 ep ep'" using a(3) by (simp add: ep'_def moved_def)
  ultimately show ?thesis unfolding f2_def by blast
qed

lemma remove_pending_ok:
  assumes "accounts_ok ep" "fmlookup (de_flows ep) key = Some f"
    and "m \<le> fl_pending_messages f" "b \<le> fl_pending_payload_bytes f"
    and "fl_pending_messages f' = fl_pending_messages f"
      "fl_pending_payload_bytes f' = fl_pending_payload_bytes f" "fl_session f' = fl_session f"
  shows "\<exists>ep'. remove_pending (set_flow key f' ep) key m b = Some ep' \<and> accounts_ok ep'
     \<and> moved key (sub_flow_pending m b f') ep ep'"
proof -
  note acc = accounts_okD[OF assms(1)]
  define f2 where "f2 = sub_flow_pending m b f'"
  let ?fls = "de_flows ep" and ?fls' = "fmupd key f2 (de_flows ep)"
  have f2: "fl_pending_messages f = m + fl_pending_messages f2"
    "fl_pending_payload_bytes f = b + fl_pending_payload_bytes f2" "fl_session f2 = fl_session f"
    using assms(3-7) by (simp_all add: f2_def sub_flow_pending_def)
  have shrink: "used_by P ?fls = usage_plus (usage_of 0 m b) (used_by P ?fls')"
    if "P key f" "P key f2" for P
    by (rule used_shrink[where P = P, OF assms(2) that f2(1,2)])
  have stay: "used_by P ?fls' = used_by P ?fls" if "\<not> P key f" "\<not> P key f2" for P
    by (rule used_unselected[where P = P, OF assms(2) that])
  have look: "fmlookup ?fls' key = Some f2" by simp
  obtain a where a: "adjust_scope scope_remove 0 m b (de_aggregate ep) = Some a"
    "scope_ok all_flows ?fls' a" "sc_limits a = sc_limits (de_aggregate ep)"
    using adjust_scope_remove[OF acc(1) shrink] by auto
  obtain c where c: "fmlookup (de_connections ep) (fk_connection key) = Some c"
    using table_entry[OF acc(2) assms(2), of "fk_connection key"] by blast
  obtain cs where cs: "adjust_entry scope_remove 0 m b (fk_connection key) (de_connections ep) = Some cs"
    "table_ok by_connection ?fls' cs"
    using adjust_entry_remove[OF acc(2) look _ c, of m b] shrink stay by auto
  obtain ss where ss: "(case fl_session f' of None \<Rightarrow> Some (de_sessions ep)
      | Some sid \<Rightarrow> adjust_entry scope_remove 0 m b sid (de_sessions ep)) = Some ss"
    "table_ok by_session ?fls' ss"
  proof (cases "fl_session f")
    case None
    then have "table_ok by_session ?fls' (de_sessions ep)"
      using f2 by (intro table_ok_same[OF acc(3)] stay) auto
    then show ?thesis using that[of "de_sessions ep"] None assms(7) by simp
  next
    case (Some sid)
    obtain s where s: "fmlookup (de_sessions ep) sid = Some s"
      using table_entry[OF acc(3) assms(2), of sid] Some by blast
    obtain ss where "adjust_entry scope_remove 0 m b sid (de_sessions ep) = Some ss"
      "table_ok by_session ?fls' ss"
      using adjust_entry_remove[OF acc(3) look _ s, of m b] shrink stay Some f2 by auto
    then show ?thesis using that Some assms(7) by simp
  qed
  define ep' where "ep' = ep\<lparr>de_aggregate := a, de_connections := cs, de_sessions := ss,
    de_flows := ?fls'\<rparr>"
  have "adjust_pending checked_sub scope_remove (set_flow key f' ep) key m b = Some ep'"
    unfolding ep'_def f2_def sub_flow_pending_def
    by (rule adjust_pending_Some) (use a(1) cs(1) ss(1) assms(3-6) in simp_all)
  then have "remove_pending (set_flow key f' ep) key m b = Some ep'"
    by (simp add: remove_pending_def)
  moreover have "accounts_ok ep'"
    using a(2) cs(2) ss(2) by (intro accounts_okI) (simp_all add: ep'_def)
  moreover have "moved key f2 ep ep'" using a(3) by (simp add: ep'_def moved_def)
  ultimately show ?thesis unfolding f2_def by blast
qed

section \<open>Establishment, association and release\<close>

lemma establish_flow_accounts:
  assumes "accounts_ok ep"
  shows "(\<exists>e. establish_flow ep key mode policy limits = Some (Err e, ep))
     \<or> (\<exists>ep'. establish_flow ep key mode policy limits = Some (Ok (), ep') \<and> accounts_ok ep'
         \<and> moved key (flow_new mode policy) ep ep' \<and> fmlookup (de_flows ep) key = None
         \<and> validate_for_mode policy mode = Ok ())"
proof (cases "\<exists>e. establish_flow ep key mode policy limits = Some (Err e, ep)")
  case False
  note acc = accounts_okD[OF assms(1)]
  let ?fls = "de_flows ep" and ?fls' = "fmupd key (flow_new mode policy) (de_flows ep)"
  have pol: "validate_for_mode policy mode = Ok ()" and fresh: "fmlookup ?fls key = None"
    and agg: "scope_can_add (sc_usage (de_aggregate ep)) (sc_limits (de_aggregate ep)) 1 0 0"
    and con: "case fmlookup (de_connections ep) (fk_connection key) of
        Some c \<Rightarrow> scope_can_add (sc_usage c) (sc_limits c) 1 0 0
      | None \<Rightarrow> scope_can_add scope_usage_default limits 1 0 0"
    using False
    by (auto simp: establish_flow_def Let_def split: result.splits if_splits option.splits)
  have new: "fl_session (flow_new mode policy) = None"
    "fl_pending_messages (flow_new mode policy) = 0"
    "fl_pending_payload_bytes (flow_new mode policy) = 0" by (simp_all add: flow_new_def)
  have enter: "used_by P ?fls' = usage_plus (usage_of 1 0 0) (used_by P ?fls)"
    if "P key (flow_new mode policy)" for P
    using that new by (simp add: used_fresh[OF fresh] flow_share_def)
  have stay: "used_by P ?fls' = used_by P ?fls" if "\<not> P key (flow_new mode policy)" for P
    using that by (simp add: used_fresh[OF fresh] flow_share_def)
  obtain a where a: "adjust_scope scope_add 1 0 0 (de_aggregate ep) = Some a"
    "scope_ok all_flows ?fls' a" "sc_limits a = sc_limits (de_aggregate ep)"
    using adjust_scope_add[OF acc(1) agg enter] by auto
  obtain cs where cs: "adjust_entry scope_add 1 0 0 (fk_connection key)
      (entry_or_new (fk_connection key) limits (de_connections ep)) = Some cs"
    "table_ok by_connection ?fls' cs"
    using enter_scope[OF acc(2) _ con, of ?fls'] enter stay by auto
  have ss: "table_ok by_session ?fls' (de_sessions ep)"
    using new by (intro table_ok_same[OF acc(3)] stay) auto
  define ep' where "ep' = ep\<lparr>de_aggregate := a, de_connections := cs, de_flows := ?fls'\<rparr>"
  have "establish_flow ep key mode policy limits = Some (Ok (), ep')"
    using False pol fresh a(1) cs(1)
    by (auto simp: establish_flow_def ep'_def Let_def split: result.splits if_splits option.splits)
  moreover have "accounts_ok ep'"
    using a(2) cs(2) ss by (intro accounts_okI) (simp_all add: ep'_def)
  moreover have "moved key (flow_new mode policy) ep ep'" using a(3) by (simp add: ep'_def moved_def)
  ultimately show ?thesis using fresh pol by blast
qed blast

lemma associate_flow_accounts:
  assumes "accounts_ok ep"
  shows "(\<exists>r. associate_flow_with_session ep key s limits = Some (r, ep) \<and> r \<noteq> Ok Associated)
     \<or> (\<exists>ep' f. associate_flow_with_session ep key s limits = Some (Ok Associated, ep')
         \<and> accounts_ok ep' \<and> fmlookup (de_flows ep) key = Some f \<and> fl_session f = None
         \<and> s_phase s = Open \<and> moved key (f\<lparr>fl_session := Some (s_id s)\<rparr>) ep ep')"
proof (cases "\<exists>r. associate_flow_with_session ep key s limits = Some (r, ep) \<and> r \<noteq> Ok Associated")
  case False
  note acc = accounts_okD[OF assms(1)]
  have phase: "s_phase s = Open"
    using False by (auto simp: associate_flow_with_session_def split: if_splits)
  obtain f where f: "fmlookup (de_flows ep) key = Some f"
    using False by (auto simp: associate_flow_with_session_def split: if_splits option.splits)
  have none: "fl_session f = None"
  proof (rule ccontr)
    assume "fl_session f \<noteq> None"
    then obtain sid where sid: "fl_session f = Some sid" by blast
    then obtain st where "fmlookup (de_sessions ep) sid = Some st"
      using table_entry[OF acc(3) f, of sid] by blast
    then show False
      using False f sid phase by (auto simp: associate_flow_with_session_def split: if_splits)
  qed
  let ?m = "fl_pending_messages f" and ?b = "fl_pending_payload_bytes f"
  have ses: "case fmlookup (de_sessions ep) (s_id s) of
        Some c \<Rightarrow> scope_can_add (sc_usage c) (sc_limits c) 1 ?m ?b
      | None \<Rightarrow> scope_can_add scope_usage_default limits 1 ?m ?b"
    using False f none phase
    by (auto simp: associate_flow_with_session_def Let_def split: if_splits option.splits)
  define f2 where "f2 = f\<lparr>fl_session := Some (s_id s)\<rparr>"
  let ?fls = "de_flows ep" and ?fls' = "fmupd key f2 (de_flows ep)"
  have f2: "fl_session f2 = Some (s_id s)" "fl_pending_messages f2 = 0 + ?m"
    "fl_pending_payload_bytes f2 = 0 + ?b" by (simp_all add: f2_def)
  have grow: "used_by P ?fls' = used_by P ?fls" if "P key f" "P key f2" for P
    using used_grow[where P = P, OF f that f2(2,3)] by simp
  have stay: "used_by P ?fls' = used_by P ?fls" if "\<not> P key f" "\<not> P key f2" for P
    by (rule used_unselected[where P = P, OF f that])
  have enter: "used_by P ?fls' = usage_plus (usage_of 1 ?m ?b) (used_by P ?fls)"
    if "\<not> P key f" "P key f2" for P
    using used_split[OF f, of P] that f2 by (simp add: used_fmupd flow_share_def)
  have agg: "scope_ok all_flows ?fls' (de_aggregate ep)"
    using acc(1) grow[of all_flows] by (auto simp: scope_ok_def)
  have con: "table_ok by_connection ?fls' (de_connections ep)"
    by (rule table_ok_same[OF acc(2)]) (metis (mono_tags, lifting) grow stay)
  obtain ss where ss: "adjust_entry scope_add 1 ?m ?b (s_id s)
      (entry_or_new (s_id s) limits (de_sessions ep)) = Some ss" "table_ok by_session ?fls' ss"
    using enter_scope[OF acc(3) _ ses, of ?fls'] enter stay f2(1) none by auto
  define ep' where "ep' = ep\<lparr>de_sessions := ss, de_flows := ?fls'\<rparr>"
  have "associate_flow_with_session ep key s limits = Some (Ok Associated, ep')"
    using False f none phase ss(1)
    by (auto simp: associate_flow_with_session_def Let_def ep'_def f2_def split: if_splits option.splits)
  moreover have "accounts_ok ep'"
    using agg con ss(2) by (intro accounts_okI) (simp_all add: ep'_def)
  moreover have "moved key f2 ep ep'" by (simp add: ep'_def moved_def)
  ultimately show ?thesis using f none phase f2_def by blast
qed blast

text \<open>\<open>dropped key ep ep'\<close>: the flow is gone, its scopes followed, nothing else changed.\<close>

definition dropped :: "delivery_flow_key \<Rightarrow> delivery_endpoint \<Rightarrow> delivery_endpoint \<Rightarrow> bool" where
  "dropped key ep ep' \<longleftrightarrow> de_flows ep' = fmdrop key (de_flows ep)
     \<and> de_diagnostics ep' = de_diagnostics ep
     \<and> sc_limits (de_aggregate ep') = sc_limits (de_aggregate ep)"

lemma terminate_flow_accounts:
  assumes "accounts_ok ep" "fmlookup (de_flows ep) key = Some f"
  shows "\<exists>ep'. terminate_flow ep key reason = Some (Ok \<lparr>ft_key = key, ft_reason = reason,
       ft_pending_messages = fl_pending_messages f, ft_reliable_obligation_failed =
         (fl_mode f = ReliableOrdered \<and> (0 < fl_pending_messages f \<or> forces_reliable_failure reason))\<rparr>,
       ep') \<and> accounts_ok ep' \<and> dropped key ep ep'"
proof -
  note acc = accounts_okD[OF assms(1)]
  let ?fls = "de_flows ep" and ?fls' = "fmdrop key (de_flows ep)"
    and ?m = "fl_pending_messages f" and ?b = "fl_pending_payload_bytes f"
  have leave: "used_by P ?fls = usage_plus (usage_of 1 ?m ?b) (used_by P ?fls')" if "P key f" for P
    by (rule used_leave[where P = P, OF assms(2) that])
  have skip: "used_by P ?fls' = used_by P ?fls" if "\<not> P key f" for P
    by (rule used_skip[where P = P, OF assms(2) that])
  obtain a where a: "adjust_scope scope_remove 1 ?m ?b (de_aggregate ep) = Some a"
    "scope_ok all_flows ?fls' a" "sc_limits a = sc_limits (de_aggregate ep)"
    using adjust_scope_remove[OF acc(1) leave] by auto
  obtain c where c: "fmlookup (de_connections ep) (fk_connection key) = Some c"
    using table_entry[OF acc(2) assms(2), of "fk_connection key"] by blast
  obtain cs where cs: "release_entry ?m ?b (fk_connection key) (de_connections ep) = Some cs"
    "table_ok by_connection ?fls' cs"
    using release_entry_ok[OF acc(2) c, of ?m ?b ?fls'] leave skip by auto
  obtain ss where ss: "(case fl_session f of None \<Rightarrow> Some (de_sessions ep)
      | Some sid \<Rightarrow> release_entry ?m ?b sid (de_sessions ep)) = Some ss"
    "table_ok by_session ?fls' ss"
  proof (cases "fl_session f")
    case None
    then have "table_ok by_session ?fls' (de_sessions ep)"
      by (intro table_ok_same[OF acc(3)] skip) auto
    then show ?thesis using that[of "de_sessions ep"] None by simp
  next
    case (Some sid)
    obtain s where s: "fmlookup (de_sessions ep) sid = Some s"
      using table_entry[OF acc(3) assms(2), of sid] Some by blast
    obtain ss where "release_entry ?m ?b sid (de_sessions ep) = Some ss"
      "table_ok by_session ?fls' ss"
      using release_entry_ok[OF acc(3) s, of ?m ?b ?fls'] leave skip Some by auto
    then show ?thesis using that Some by simp
  qed
  define ep' where "ep' = ep\<lparr>de_aggregate := a, de_connections := cs, de_sessions := ss,
    de_flows := ?fls'\<rparr>"
  have "accounts_ok ep'" "dropped key ep ep'"
    using a(2,3) cs(2) ss(2) by (auto intro!: accounts_okI simp: ep'_def dropped_def)
  then show ?thesis
    unfolding terminate_flow_def by (simp only: assms(2) option.case a(1) cs(1) ss(1) Let_def
        Option.bind.bind_lunit) (simp add: ep'_def)
qed

end
