(* ===== verification/Delivery_Flows.thy ===== *)
theory Delivery_Flows
  imports Delivery_Accounting
begin

text \<open>
  What a flow is between two calls: its buffer has the kind of its mode, only the side its key names
  holds messages, its pending counters are the contents of its buffers and within its policy, and
  the outbound queue is the unbroken run of accepted indices that ends at the next one.
\<close>

section \<open>The invariant of a flow\<close>

fun receiver_messages :: "receiver_buffer \<Rightarrow> nat" where
  "receiver_messages (Reliable m _) = fm_len m"
| "receiver_messages (Unreliable q _) = length q"

fun receiver_bytes :: "receiver_buffer \<Rightarrow> nat" where
  "receiver_bytes (Reliable m _) = fm_sum (\<lambda>_. payload_len) m"
| "receiver_bytes (Unreliable q _) = sum_list (map payload_len q)"

fun receiver_transfers :: "receiver_buffer \<Rightarrow> delivery_transfer set" where
  "receiver_transfers (Reliable m _) = {t. \<exists>i. fmlookup m i = Some t}"
| "receiver_transfers (Unreliable q _) = set q"

fun receiver_ok :: "delivery_mode \<Rightarrow> receiver_buffer \<Rightarrow> bool" where
  "receiver_ok mode (Reliable m next) \<longleftrightarrow> mode = ReliableOrdered
     \<and> (\<forall>i t. fmlookup m i = Some t \<longrightarrow> dt_accepted_index t = i \<and> (\<exists>n. next = Some n \<and> n \<le> i))"
| "receiver_ok mode (Unreliable q seen) \<longleftrightarrow> mode \<noteq> ReliableOrdered
     \<and> (mode = UnreliableUnordered \<longrightarrow> seen = None)"

definition index_frontier :: "u64 option \<Rightarrow> nat" where
  "index_frontier n = (case n of None \<Rightarrow> 2 ^ 64 | Some i \<Rightarrow> unat i)"

definition outbound_window :: "u64 option \<Rightarrow> delivery_transfer list \<Rightarrow> bool" where
  "outbound_window next q \<longleftrightarrow> length q \<le> index_frontier next
     \<and> map (\<lambda>t. unat (dt_accepted_index t)) q
        = [index_frontier next - length q ..< index_frontier next]"

definition transfer_ok :: "flow_state \<Rightarrow> delivery_transfer \<Rightarrow> bool" where
  "transfer_ok f t \<longleftrightarrow> dt_mode t = fl_mode f \<and> payload_len t \<le> fp_max_message_bytes (fl_policy f)"

definition flow_books :: "flow_state \<Rightarrow> bool" where
  "flow_books f \<longleftrightarrow>
     fl_pending_messages f = length (fl_outbound f) + receiver_messages (fl_receiver f)
     \<and> fl_pending_payload_bytes f
        = sum_list (map payload_len (fl_outbound f)) + receiver_bytes (fl_receiver f)
     \<and> fl_pending_messages f \<le> fp_max_pending_messages (fl_policy f)
     \<and> fl_pending_payload_bytes f \<le> fp_max_pending_payload_bytes (fl_policy f)
     \<and> fl_pending_messages f \<le> usize_max"

definition flow_side :: "delivery_flow_key \<Rightarrow> flow_state \<Rightarrow> bool" where
  "flow_side key f \<longleftrightarrow>
     (case fk_direction key of
        Outbound \<Rightarrow> fl_receiver f = receiver_new (fl_mode f)
      | Inbound \<Rightarrow> fl_outbound f = [] \<and> fl_next_accepted_index f = Some 0)"

definition flow_ok :: "delivery_flow_key \<Rightarrow> flow_state \<Rightarrow> bool" where
  "flow_ok key f \<longleftrightarrow> validate_for_mode (fl_policy f) (fl_mode f) = Ok ()
     \<and> receiver_ok (fl_mode f) (fl_receiver f) \<and> flow_side key f \<and> flow_books f
     \<and> (\<forall>t \<in> set (fl_outbound f). transfer_ok f t)
     \<and> (\<forall>t \<in> receiver_transfers (fl_receiver f). transfer_ok f t)
     \<and> outbound_window (fl_next_accepted_index f) (fl_outbound f)"

definition endpoint_ok :: "delivery_scope_limits \<Rightarrow> delivery_endpoint \<Rightarrow> bool" where
  "endpoint_ok lim ep \<longleftrightarrow> accounts_ok ep \<and> sc_limits (de_aggregate ep) = lim
     \<and> (\<forall>k f. fmlookup (de_flows ep) k = Some f \<longrightarrow> flow_ok k f)"

lemma endpoint_okD:
  assumes "endpoint_ok lim ep"
  shows "accounts_ok ep" and "fmlookup (de_flows ep) k = Some f \<Longrightarrow> flow_ok k f"
  using assms by (auto simp: endpoint_ok_def)

lemma endpoint_ok_moved:
  "endpoint_ok lim ep \<Longrightarrow> accounts_ok ep' \<Longrightarrow> moved key f ep ep' \<Longrightarrow> flow_ok key f \<Longrightarrow> endpoint_ok lim ep'"
  by (auto simp: endpoint_ok_def moved_def)

lemma endpoint_ok_dropped:
  "endpoint_ok lim ep \<Longrightarrow> accounts_ok ep' \<Longrightarrow> dropped key ep ep' \<Longrightarrow> endpoint_ok lim ep'"
  by (auto simp: endpoint_ok_def dropped_def)

lemma endpoint_new_ok: "endpoint_ok l (endpoint_new l)"
  by (simp add: endpoint_ok_def endpoint_new_def accounts_ok_def scope_ok_def table_ok_def
      scope_state_new_def scope_usage_default_def usage_of_def scope_within_def used_by_def)

text \<open>Counting a drop or a duplicate leaves the books alone.\<close>

lemma endpoint_ok_counted [simp]:
  "endpoint_ok lim (count_outbound_drops n ep) = endpoint_ok lim ep"
  "endpoint_ok lim (count_inbound_drops n ep) = endpoint_ok lim ep"
  "endpoint_ok lim (count_stale_drop ep) = endpoint_ok lim ep"
  "endpoint_ok lim (count_duplicate ep) = endpoint_ok lim ep"
  by (simp_all add: endpoint_ok_def accounts_ok_def count_outbound_drops_def count_inbound_drops_def
      count_stale_drop_def count_duplicate_def)

lemma de_flows_counted [simp]:
  "de_flows (count_outbound_drops n ep) = de_flows ep"
  "de_flows (count_inbound_drops n ep) = de_flows ep"
  "de_flows (count_stale_drop ep) = de_flows ep"
  "de_flows (count_duplicate ep) = de_flows ep"
  by (simp_all add: count_outbound_drops_def count_inbound_drops_def
      count_stale_drop_def count_duplicate_def)

section \<open>How a flow may change\<close>

lemma flow_new_ok: "validate_for_mode policy mode = Ok () \<Longrightarrow> flow_ok key (flow_new mode policy)"
  by (cases mode) (auto simp: flow_ok_def flow_new_def receiver_new_def flow_side_def flow_books_def
      outbound_window_def index_frontier_def split: flow_direction.splits)

lemma flow_associate_ok: "flow_ok key f \<Longrightarrow> flow_ok key (f\<lparr>fl_session := s\<rparr>)"
  by (auto simp: flow_ok_def flow_side_def flow_books_def transfer_ok_def split: flow_direction.splits)

lemma window_push:
  assumes "outbound_window (Some i) q" "dt_accepted_index t = i"
  shows "outbound_window (u64_checked_add i 1) (q @ [t])"
proof -
  have "index_frontier (u64_checked_add i 1) = Suc (unat i)"
    using unsigned_less[of i, where ?'a = nat]
    by (cases "u64_checked_add i 1")
      (auto simp: index_frontier_def u64_checked_add_def unat_word_ariths split: if_splits)
  then show ?thesis using assms by (simp add: outbound_window_def index_frontier_def)
qed

lemma window_pop:
  assumes "outbound_window next (t # q)"
  shows "outbound_window next q"
    and "unat (dt_accepted_index t) = index_frontier next - Suc (length q)"
proof -
  let ?n = "index_frontier next"
  have len: "Suc (length q) \<le> ?n"
    and eq: "map (\<lambda>t. unat (dt_accepted_index t)) (t # q) = [?n - Suc (length q) ..< ?n]"
    using assms by (simp_all add: outbound_window_def)
  have "[?n - Suc (length q) ..< ?n] = (?n - Suc (length q)) # [?n - length q ..< ?n]"
    using len by (subst upt_conv_Cons) (auto simp: Suc_diff_Suc)
  then show "outbound_window next q" "unat (dt_accepted_index t) = ?n - Suc (length q)"
    using eq len by (simp_all add: outbound_window_def)
qed

lemma flow_push_ok:
  assumes "flow_ok key f" "flow_can_add_pending f 1 (payload_len t)" "fk_direction key = Outbound"
    and "fl_next_accepted_index f = Some (dt_accepted_index t)" "transfer_ok f t"
  shows "flow_ok key (add_flow_pending 1 (payload_len t)
     (f\<lparr>fl_next_accepted_index := u64_checked_add (dt_accepted_index t) 1,
        fl_outbound := fl_outbound f @ [t]\<rparr>))"
  using assms window_push[of "dt_accepted_index t" "fl_outbound f" t]
  by (auto simp: flow_ok_def flow_side_def flow_books_def add_flow_pending_def transfer_ok_def
      flow_can_add_pending_def fits_within_iff)

lemma flow_pop_ok:
  assumes "flow_ok key f" "fl_outbound f = t # ts"
  shows "flow_ok key (sub_flow_pending 1 (payload_len t) (f\<lparr>fl_outbound := ts\<rparr>))"
    and "1 \<le> fl_pending_messages f" "payload_len t \<le> fl_pending_payload_bytes f"
  using assms window_pop[of "fl_next_accepted_index f" t ts]
  by (auto simp: flow_ok_def flow_side_def flow_books_def sub_flow_pending_def transfer_ok_def
      split: flow_direction.splits)

lemma flow_dequeue_ok:
  assumes "flow_ok key f" "fl_receiver f = Unreliable (t # ts) seen" "fk_direction key = Inbound"
  shows "flow_ok key (sub_flow_pending 1 (payload_len t) (f\<lparr>fl_receiver := Unreliable ts seen\<rparr>))"
    and "1 \<le> fl_pending_messages f" "payload_len t \<le> fl_pending_payload_bytes f"
  using assms
  by (auto simp: flow_ok_def flow_side_def flow_books_def sub_flow_pending_def transfer_ok_def)

lemma flow_enqueue_ok:
  assumes "flow_ok key f" "flow_can_add_pending f 1 (payload_len t)" "fk_direction key = Inbound"
    and "fl_receiver f = Unreliable q seen" "transfer_ok f t"
  shows "flow_ok key (add_flow_pending 1 (payload_len t)
     (f\<lparr>fl_receiver := Unreliable (q @ [t]) seen\<rparr>))"
  using assms
  by (auto simp: flow_ok_def flow_side_def flow_books_def add_flow_pending_def transfer_ok_def
      flow_can_add_pending_def fits_within_iff)

lemma flow_seen_ok:
  assumes "flow_ok key f" "fl_receiver f = Unreliable q seen" "fk_direction key = Inbound"
    and "fl_mode f = UnreliableSequenced"
  shows "flow_ok key (f\<lparr>fl_receiver := Unreliable q seen'\<rparr>)"
  using assms by (auto simp: flow_ok_def flow_side_def flow_books_def transfer_ok_def)

lemma flow_insert_ok:
  assumes "flow_ok key f" "flow_can_add_pending f 1 (payload_len t)" "fk_direction key = Inbound"
    and "fl_receiver f = Reliable m next" "transfer_ok f t"
    and "fmlookup m (dt_accepted_index t) = None" "next = Some n" "n \<le> dt_accepted_index t"
  shows "flow_ok key (add_flow_pending 1 (payload_len t)
     (f\<lparr>fl_receiver := Reliable (fmupd (dt_accepted_index t) t m) next\<rparr>))"
  using assms
  by (auto simp: flow_ok_def flow_side_def flow_books_def add_flow_pending_def transfer_ok_def
      flow_can_add_pending_def fits_within_iff fm_len_fresh fm_sum_fresh split: if_splits)

lemma flow_expose_ok:
  assumes "flow_ok key f" "fk_direction key = Inbound"
    and "fl_receiver f = Reliable m (Some n)" "fmlookup m n = Some t"
  shows "flow_ok key (sub_flow_pending 1 (payload_len t)
     (f\<lparr>fl_receiver := Reliable (fmdrop n m) (u64_checked_add n 1)\<rparr>))"
    and "1 \<le> fl_pending_messages f" "payload_len t \<le> fl_pending_payload_bytes f"
proof -
  have ord: "\<exists>n'. u64_checked_add n 1 = Some n' \<and> n' \<le> i" if "i \<noteq> n" "fmlookup m i = Some u" for i u
  proof -
    have "n \<le> i" using assms(1,3) that by (auto simp: flow_ok_def)
    then have "n < i" using that(1) by auto
    then show ?thesis
      using u64_checked_succ_le(2)[of n] u64_checked_succ_None[of n i]
      by (cases "u64_checked_add n 1") auto
  qed
  note len = fm_len_split[OF assms(4)] and sum = fm_sum_split[OF assms(4), of "\<lambda>_. payload_len"]
  show "1 \<le> fl_pending_messages f" "payload_len t \<le> fl_pending_payload_bytes f"
    using assms len sum by (auto simp: flow_ok_def flow_side_def flow_books_def)
  show "flow_ok key (sub_flow_pending 1 (payload_len t)
     (f\<lparr>fl_receiver := Reliable (fmdrop n m) (u64_checked_add n 1)\<rparr>))"
    using assms len sum ord
    by (auto simp: flow_ok_def flow_side_def flow_books_def sub_flow_pending_def transfer_ok_def
        split: if_splits)
qed

end
