(* ===== verification/Delivery_Safety.thy ===== *)
theory Delivery_Safety
  imports Delivery_Flows
begin

text \<open>
  Every operation of the delivery endpoint runs to its end in a good state and leaves a good state:
  no \<open>expect\<close>, \<open>unreachable!\<close>, \<open>debug_assert\<close> or underflow is reached, and the eviction and
  exposure loops end. The eviction loops of \<open>submit\<close> and \<open>receive\<close> are one loop over an evictor;
  the locale \<open>evicting_queue\<close> proves what that loop does.
\<close>

section \<open>The common steps\<close>

lemma add_step:
  assumes "endpoint_ok lim ep" "fmlookup (de_flows ep) key = Some f"
    and "can_add_pending ep key 1 b = Some (Ok True)"
    and "fl_pending_messages f' = fl_pending_messages f"
      "fl_pending_payload_bytes f' = fl_pending_payload_bytes f" "fl_session f' = fl_session f"
    and "flow_ok key (add_flow_pending 1 b f')"
  shows "\<exists>ep'. add_pending (set_flow key f' ep) key 1 b = Some ep' \<and> endpoint_ok lim ep'
     \<and> moved key (add_flow_pending 1 b f') ep ep'"
  using add_pending_ok[OF endpoint_okD(1)[OF assms(1)] assms(2-6)] assms(1,7)
  by (auto intro: endpoint_ok_moved)

lemma remove_step:
  assumes "endpoint_ok lim ep" "fmlookup (de_flows ep) key = Some f"
    and "1 \<le> fl_pending_messages f" "b \<le> fl_pending_payload_bytes f"
    and "fl_pending_messages f' = fl_pending_messages f"
      "fl_pending_payload_bytes f' = fl_pending_payload_bytes f" "fl_session f' = fl_session f"
    and "flow_ok key (sub_flow_pending 1 b f')"
  shows "\<exists>ep'. remove_pending (set_flow key f' ep) key 1 b = Some ep' \<and> endpoint_ok lim ep'
     \<and> moved key (sub_flow_pending 1 b f') ep ep'"
  using remove_pending_ok[OF endpoint_okD(1)[OF assms(1)] assms(2-7)] assms(1,8)
  by (auto intro: endpoint_ok_moved)

lemma pop_outbound_step:
  assumes "endpoint_ok lim ep" "fmlookup (de_flows ep) key = Some f" "fl_outbound f = t # ts"
  shows "\<exists>ep'. remove_pending (set_flow key (f\<lparr>fl_outbound := ts\<rparr>) ep) key 1 (payload_len t) = Some ep'
     \<and> endpoint_ok lim ep' \<and> moved key (sub_flow_pending 1 (payload_len t) (f\<lparr>fl_outbound := ts\<rparr>)) ep ep'"
  using flow_pop_ok[OF endpoint_okD(2)[OF assms(1,2)] assms(3)]
  by (intro remove_step[OF assms(1,2)]) simp_all

lemma pop_receiver_step:
  assumes "endpoint_ok lim ep" "fmlookup (de_flows ep) key = Some f" "fk_direction key = Inbound"
    and "fl_receiver f = Unreliable (t # ts) seen"
  shows "\<exists>ep'. remove_pending (set_flow key (f\<lparr>fl_receiver := Unreliable ts seen\<rparr>) ep) key 1
       (payload_len t) = Some ep' \<and> endpoint_ok lim ep'
     \<and> moved key (sub_flow_pending 1 (payload_len t) (f\<lparr>fl_receiver := Unreliable ts seen\<rparr>)) ep ep'"
  using flow_dequeue_ok[OF endpoint_okD(2)[OF assms(1,2)] assms(4,3)]
  by (intro remove_step[OF assms(1,2)]) simp_all

lemma set_flow_ok:
  assumes "endpoint_ok lim ep" "fmlookup (de_flows ep) key = Some f"
    and "fl_pending_messages f' = fl_pending_messages f"
      "fl_pending_payload_bytes f' = fl_pending_payload_bytes f" "fl_session f' = fl_session f"
    and "flow_ok key f'"
  shows "endpoint_ok lim (set_flow key f' ep)"
proof -
  note acc = accounts_okD[OF endpoint_okD(1)[OF assms(1)]]
  let ?fls' = "fmupd key f' (de_flows ep)"
  have same: "used_by P ?fls' = used_by P (de_flows ep)" if "P key f' = P key f" for P
    using used_split[OF assms(2), of P] that assms(3,4) by (simp add: used_fmupd flow_share_def)
  have "accounts_ok (set_flow key f' ep)"
  proof (rule accounts_okI)
    show "scope_ok all_flows (de_flows (set_flow key f' ep)) (de_aggregate (set_flow key f' ep))"
      using acc(1) same[of all_flows] by (auto simp: scope_ok_def)
    show "table_ok by_connection (de_flows (set_flow key f' ep)) (de_connections (set_flow key f' ep))"
      using table_ok_same[OF acc(2), of ?fls'] same by simp
    show "table_ok by_session (de_flows (set_flow key f' ep)) (de_sessions (set_flow key f' ep))"
      using table_ok_same[OF acc(3), of ?fls'] same assms(5) by simp
  qed
  then show ?thesis
    using assms(1,6) by (auto simp: endpoint_ok_def)
qed

lemma flow_modeD:
  assumes "endpoint_ok lim ep" "fmlookup (de_flows ep) key = Some f"
  shows "fl_mode f = ReliableOrdered \<Longrightarrow> \<exists>m next. fl_receiver f = Reliable m next"
    and "fl_mode f \<noteq> ReliableOrdered \<Longrightarrow> \<exists>q seen. fl_receiver f = Unreliable q seen"
    and "fl_mode f \<noteq> ReliableOrdered \<Longrightarrow> fp_receiver_pressure (fl_policy f) \<noteq> TerminateReliable"
    and "fl_mode f = ReliableOrdered \<Longrightarrow> fp_outbound_pressure (fl_policy f) = RejectNew"
    and "fk_direction key = Outbound \<Longrightarrow> fl_receiver f = receiver_new (fl_mode f)"
proof -
  have ok: "flow_ok key f" using endpoint_okD(2)[OF assms] .
  show "fl_mode f = ReliableOrdered \<Longrightarrow> \<exists>m next. fl_receiver f = Reliable m next"
    "fl_mode f \<noteq> ReliableOrdered \<Longrightarrow> \<exists>q seen. fl_receiver f = Unreliable q seen"
    using ok by (cases "fl_receiver f"; simp add: flow_ok_def)+
  show "fl_mode f \<noteq> ReliableOrdered \<Longrightarrow> fp_receiver_pressure (fl_policy f) \<noteq> TerminateReliable"
    "fl_mode f = ReliableOrdered \<Longrightarrow> fp_outbound_pressure (fl_policy f) = RejectNew"
    using ok by (auto simp: flow_ok_def validate_for_mode_def split: delivery_mode.splits if_splits)
  show "fk_direction key = Outbound \<Longrightarrow> fl_receiver f = receiver_new (fl_mode f)"
    using ok by (simp add: flow_ok_def flow_side_def)
qed

section \<open>The eviction loops\<close>

text \<open>\<open>n\<close> evictions in a row that each find a message.\<close>

fun evict_times ::
  "(delivery_endpoint \<Rightarrow> delivery_flow_key \<Rightarrow> delivery_transfer option delivery_op) \<Rightarrow> delivery_flow_key \<Rightarrow> nat \<Rightarrow>
     delivery_endpoint \<Rightarrow> delivery_endpoint option" where
  "evict_times evict key 0 ep = Some ep"
| "evict_times evict key (Suc n) ep =
     (case evict ep key of Some (Ok (Some t), ep') \<Rightarrow> evict_times evict key n ep' | _ \<Rightarrow> None)"

text \<open>After fewer than \<open>n\<close> evictions a message of \<open>len\<close> bytes does not fit.\<close>

definition no_room_before ::
  "(delivery_endpoint \<Rightarrow> delivery_flow_key \<Rightarrow> delivery_transfer option delivery_op) \<Rightarrow> delivery_flow_key \<Rightarrow> nat \<Rightarrow>
     nat \<Rightarrow> delivery_endpoint \<Rightarrow> bool" where
  "no_room_before evict key len n ep \<longleftrightarrow>
     (\<forall>j < n. \<exists>e. evict_times evict key j ep = Some e \<and> can_add_pending e key 1 len = Some (Ok False))"

text \<open>
  \<open>queue\<close> is the queue the evictor pops, \<open>fixed\<close> what of the flow it leaves alone, \<open>mine\<close> the
  flows it is called for.
\<close>

locale evicting_queue =
  fixes evict :: "delivery_endpoint \<Rightarrow> delivery_flow_key \<Rightarrow> delivery_transfer option delivery_op"
    and queue :: "flow_state \<Rightarrow> delivery_transfer list"
    and kept :: "flow_state \<Rightarrow> 'r"
    and mine :: "delivery_flow_key \<Rightarrow> flow_state \<Rightarrow> bool"
  assumes evict_empty: "fmlookup (de_flows ep) key = Some f \<Longrightarrow> mine key f \<Longrightarrow> queue f = [] \<Longrightarrow>
      evict ep key = Some (Ok None, ep)"
    and evict_front: "endpoint_ok lim ep \<Longrightarrow> fmlookup (de_flows ep) key = Some f \<Longrightarrow> mine key f \<Longrightarrow>
      queue f = t # ts \<Longrightarrow> \<exists>ep' f'. evict ep key = Some (Ok (Some t), ep') \<and> endpoint_ok lim ep'
        \<and> moved key f' ep ep' \<and> queue f' = ts \<and> kept f' = kept f"
    and mine_kept: "kept f' = kept f \<Longrightarrow> mine key f \<Longrightarrow> mine key f'"
begin

text \<open>The loop stops after \<open>n\<close> evictions of the \<open>n\<close> oldest: when the message fits, or drained.\<close>

lemma evict_loop:
  assumes "endpoint_ok lim ep" "fmlookup (de_flows ep) key = Some f" "mine key f"
    and "drops + length (queue f) \<le> usize_max"
  shows "\<exists>fit n ep' f'. evict_until_fits evict ep key len drops = Some (Ok (fit, drops + n), ep')
     \<and> endpoint_ok lim ep' \<and> moved key f' ep ep' \<and> n \<le> length (queue f) \<and> queue f' = drop n (queue f)
     \<and> kept f' = kept f \<and> mine key f'
     \<and> can_add_pending ep' key 1 len = Some (Ok fit) \<and> (\<not> fit \<longrightarrow> queue f' = [])"
  using assms
proof (induction "queue f" arbitrary: ep f drops)
  case Nil
  obtain b where b: "can_add_pending ep key 1 len = Some (Ok b)"
    using can_add_pending_total[OF endpoint_okD(1)[OF Nil.prems(1)] Nil.prems(2)] by blast
  have "evict_until_fits evict ep key len drops = Some (Ok (b, drops + 0), ep)"
    using b evict_empty[OF Nil.prems(2,3)] Nil.hyps
    by (subst evict_until_fits.simps) simp
  moreover have "moved key f ep ep"
    using Nil.prems(2) by (auto simp: moved_def intro!: fmap_ext)
  ultimately show ?case using b Nil.prems Nil.hyps
    by (intro exI[of _ b] exI[of _ 0] exI[of _ ep] exI[of _ f]) simp
next
  case (Cons t ts)
  obtain b where b: "can_add_pending ep key 1 len = Some (Ok b)"
    using can_add_pending_total[OF endpoint_okD(1)[OF Cons.prems(1)] Cons.prems(2)] by blast
  show ?case
  proof (cases b)
    case True
    then have "evict_until_fits evict ep key len drops = Some (Ok (True, drops + 0), ep)"
      using b by (subst evict_until_fits.simps) simp
    moreover have "moved key f ep ep"
      using Cons.prems(2) by (auto simp: moved_def intro!: fmap_ext)
    ultimately show ?thesis using b True Cons.prems
      by (intro exI[of _ True] exI[of _ 0] exI[of _ ep] exI[of _ f]) simp
  next
    case False
    obtain ep1 f1 where e1: "evict ep key = Some (Ok (Some t), ep1)" "endpoint_ok lim ep1"
      "moved key f1 ep ep1" "queue f1 = ts" "kept f1 = kept f"
      using evict_front[OF Cons.prems(1-3), of t ts] Cons.hyps(2) by force
    have f1: "fmlookup (de_flows ep1) key = Some f1" using e1(3) by (simp add: moved_def)
    have mine1: "mine key f1" by (rule mine_kept[OF e1(5) Cons.prems(3)])
    have len1: "Suc drops + length (queue f1) \<le> usize_max"
      using Cons.prems(4) e1(4) Cons.hyps(2)[symmetric] by simp
    obtain fit n ep' f' where r: "evict_until_fits evict ep1 key len (Suc drops) = Some (Ok (fit, Suc drops + n), ep')"
      "endpoint_ok lim ep'" "moved key f' ep1 ep'" "n \<le> length (queue f1)" "queue f' = drop n (queue f1)"
      "kept f' = kept f1" "mine key f'"
      "can_add_pending ep' key 1 len = Some (Ok fit)" "\<not> fit \<longrightarrow> queue f' = []"
      using Cons.hyps(1)[OF e1(4)[symmetric] e1(2) f1 mine1 len1] by blast
    have sat: "saturating_add drops 1 = Suc drops" using len1 by (simp add: saturating_add_def)
    have "evict_until_fits evict ep key len drops = Some (Ok (fit, drops + Suc n), ep')"
      using b False e1(1) r(1) by (subst evict_until_fits.simps) (simp add: sat[simplified])
    moreover have "moved key f' ep ep'" using r(3) e1(3) by (auto simp: moved_def)
    moreover have "queue f' = drop (Suc n) (queue f)" using r(5) e1(4) Cons.hyps(2)[symmetric] by simp
    moreover have "Suc n \<le> length (queue f)" using r(4) e1(4) Cons.hyps(2)[symmetric] by simp
    ultimately show ?thesis using r(2,6-9) e1(5)
      by (intro exI[of _ fit] exI[of _ "Suc n"] exI[of _ ep'] exI[of _ f']) simp
  qed
qed

text \<open>It evicts no more than it has to.\<close>

lemma evict_loop_least:
  assumes "endpoint_ok lim ep" "fmlookup (de_flows ep) key = Some f" "mine key f"
    and "drops + length (queue f) \<le> usize_max"
    and "evict_until_fits evict ep key len drops = Some (Ok (fit, drops + n), ep')"
  shows "evict_times evict key n ep = Some ep' \<and> no_room_before evict key len n ep"
  using assms
proof (induction "queue f" arbitrary: ep f drops n)
  case Nil
  obtain b where b: "can_add_pending ep key 1 len = Some (Ok b)"
    using can_add_pending_total[OF endpoint_okD(1)[OF Nil.prems(1)] Nil.prems(2)] by blast
  have "evict_until_fits evict ep key len drops = Some (Ok (b, drops), ep)"
    using b evict_empty[OF Nil.prems(2,3)] Nil.hyps by (subst evict_until_fits.simps) simp
  then show ?case using Nil.prems(5) by (simp add: no_room_before_def)
next
  case (Cons t ts)
  obtain b where b: "can_add_pending ep key 1 len = Some (Ok b)"
    using can_add_pending_total[OF endpoint_okD(1)[OF Cons.prems(1)] Cons.prems(2)] by blast
  show ?case
  proof (cases b)
    case True
    then have "evict_until_fits evict ep key len drops = Some (Ok (True, drops), ep)"
      using b by (subst evict_until_fits.simps) simp
    then show ?thesis using Cons.prems(5) by (simp add: no_room_before_def)
  next
    case False
    obtain ep1 f1 where e1: "evict ep key = Some (Ok (Some t), ep1)" "endpoint_ok lim ep1"
      "moved key f1 ep ep1" "queue f1 = ts" "kept f1 = kept f"
      using evict_front[OF Cons.prems(1-3), of t ts] Cons.hyps(2) by force
    have f1: "fmlookup (de_flows ep1) key = Some f1" using e1(3) by (simp add: moved_def)
    have mine1: "mine key f1" by (rule mine_kept[OF e1(5) Cons.prems(3)])
    have len1: "Suc drops + length (queue f1) \<le> usize_max"
      using Cons.prems(4) e1(4) Cons.hyps(2)[symmetric] by simp
    have sat: "saturating_add drops 1 = Suc drops" using len1 by (simp add: saturating_add_def)
    have run: "evict_until_fits evict ep1 key len (Suc drops) = Some (Ok (fit, drops + n), ep')"
      using Cons.prems(5) b False e1(1) by (subst (asm) evict_until_fits.simps) (simp add: sat[simplified])
    obtain fit1 n1 ep2 where "evict_until_fits evict ep1 key len (Suc drops) = Some (Ok (fit1, Suc drops + n1), ep2)"
      using evict_loop[OF e1(2) f1 mine1 len1] by blast
    then have n1: "n = Suc n1" and run1: "evict_until_fits evict ep1 key len (Suc drops) = Some (Ok (fit, Suc drops + n1), ep')"
      using run by simp_all
    have rest: "evict_times evict key n1 ep1 = Some ep'" "no_room_before evict key len n1 ep1"
      using Cons.hyps(1)[OF e1(4)[symmetric] e1(2) f1 mine1 len1 run1] by simp_all
    have "\<exists>e. evict_times evict key j ep = Some e \<and> can_add_pending e key 1 len = Some (Ok False)"
      if "j < Suc n1" for j
      using that b False e1(1) rest(2) by (cases j) (simp_all add: no_room_before_def)
    then show ?thesis using rest(1) e1(1) by (simp add: n1 no_room_before_def)
  qed
qed

end

definition outbound_kept ::
  "flow_state \<Rightarrow> delivery_mode \<times> flow_resource_policy \<times> u64 option \<times> receiver_buffer \<times> session_id option"
  where
  "outbound_kept f = (fl_mode f, fl_policy f, fl_next_accepted_index f, fl_receiver f, fl_session f)"

definition unreliable_outbound :: "delivery_flow_key \<Rightarrow> flow_state \<Rightarrow> bool" where
  "unreliable_outbound key f \<longleftrightarrow> fk_direction key = Outbound \<and> fl_mode f \<noteq> ReliableOrdered"

interpretation outbound_queue: evicting_queue evict_oldest_outbound_unreliable fl_outbound
  outbound_kept unreliable_outbound
proof
  fix lim ep key f t ts
  assume a: "endpoint_ok lim ep" "fmlookup (de_flows ep) key = Some f" "unreliable_outbound key f"
    "fl_outbound f = t # ts"
  obtain ep' where "remove_pending (set_flow key (f\<lparr>fl_outbound := ts\<rparr>) ep) key 1 (payload_len t) = Some ep'"
    "endpoint_ok lim ep'" "moved key (sub_flow_pending 1 (payload_len t) (f\<lparr>fl_outbound := ts\<rparr>)) ep ep'"
    using pop_outbound_step[OF a(1,2,4)] by blast
  then show "\<exists>ep' f'. evict_oldest_outbound_unreliable ep key = Some (Ok (Some t), ep') \<and> endpoint_ok lim ep'
      \<and> moved key f' ep ep' \<and> fl_outbound f' = ts \<and> outbound_kept f' = outbound_kept f"
    using a(2-4)
    by (intro exI[of _ ep'] exI[of _ "sub_flow_pending 1 (payload_len t) (f\<lparr>fl_outbound := ts\<rparr>)"])
      (simp add: evict_oldest_outbound_unreliable_def unreliable_outbound_def outbound_kept_def
        sub_flow_pending_def)
qed (auto simp: evict_oldest_outbound_unreliable_def unreliable_outbound_def outbound_kept_def)

fun receiver_queue :: "receiver_buffer \<Rightarrow> delivery_transfer list" where
  "receiver_queue (Unreliable q _) = q"
| "receiver_queue (Reliable _ _) = []"

fun receiver_seen :: "receiver_buffer \<Rightarrow> u64 option" where
  "receiver_seen (Unreliable _ seen) = seen"
| "receiver_seen (Reliable _ _) = None"

fun receiver_queues :: "receiver_buffer \<Rightarrow> bool" where
  "receiver_queues (Unreliable _ _) = True"
| "receiver_queues (Reliable _ _) = False"

lemma receiver_queuesE:
  "receiver_queues r \<Longrightarrow> r = Unreliable (receiver_queue r) (receiver_seen r)"
  by (cases r) simp_all

definition inbound_kept ::
  "flow_state \<Rightarrow> delivery_mode \<times> flow_resource_policy \<times> u64 option \<times> delivery_transfer list
     \<times> session_id option \<times> u64 option \<times> bool" where
  "inbound_kept f = (fl_mode f, fl_policy f, fl_next_accepted_index f, fl_outbound f, fl_session f,
     receiver_seen (fl_receiver f), receiver_queues (fl_receiver f))"

definition unreliable_inbound :: "delivery_flow_key \<Rightarrow> flow_state \<Rightarrow> bool" where
  "unreliable_inbound key f \<longleftrightarrow> fk_direction key = Inbound \<and> fl_mode f \<noteq> ReliableOrdered
     \<and> receiver_queues (fl_receiver f)"

interpretation inbound_queue: evicting_queue evict_oldest_inbound_unreliable
  "\<lambda>f. receiver_queue (fl_receiver f)" inbound_kept unreliable_inbound
proof
  fix ep :: delivery_endpoint and key f
  assume "fmlookup (de_flows ep) key = Some f" "unreliable_inbound key f"
    "receiver_queue (fl_receiver f) = []"
  then show "evict_oldest_inbound_unreliable ep key = Some (Ok None, ep)"
    using receiver_queuesE[of "fl_receiver f"]
    by (auto simp: evict_oldest_inbound_unreliable_def unreliable_inbound_def
        split: receiver_buffer.splits)
next
  fix lim ep key f t ts
  assume a: "endpoint_ok lim ep" "fmlookup (de_flows ep) key = Some f" "unreliable_inbound key f"
    "receiver_queue (fl_receiver f) = t # ts"
  define seen where "seen = receiver_seen (fl_receiver f)"
  have r: "fl_receiver f = Unreliable (t # ts) seen" and dir: "fk_direction key = Inbound"
    using a(3,4) receiver_queuesE[of "fl_receiver f"]
    by (auto simp: unreliable_inbound_def seen_def)
  define f' where "f' = sub_flow_pending 1 (payload_len t) (f\<lparr>fl_receiver := Unreliable ts seen\<rparr>)"
  obtain ep' where "remove_pending (set_flow key (f\<lparr>fl_receiver := Unreliable ts seen\<rparr>) ep) key 1
      (payload_len t) = Some ep'" "endpoint_ok lim ep'" "moved key f' ep ep'"
    using pop_receiver_step[OF a(1,2) dir r] unfolding f'_def by blast
  then show "\<exists>ep' f'. evict_oldest_inbound_unreliable ep key = Some (Ok (Some t), ep') \<and> endpoint_ok lim ep'
      \<and> moved key f' ep ep' \<and> receiver_queue (fl_receiver f') = ts \<and> inbound_kept f' = inbound_kept f"
    using a(2,3) r
    by (intro exI[of _ ep'] exI[of _ f'])
      (simp add: evict_oldest_inbound_unreliable_def unreliable_inbound_def inbound_kept_def
        sub_flow_pending_def f'_def)
qed (auto simp: unreliable_inbound_def inbound_kept_def)

section \<open>Submission\<close>

text \<open>
  What \<open>submit\<close> promises for an outbound flow \<open>f\<close>: the outcome, the new flow, the diagnostics.
\<close>

definition submit_promise ::
  "delivery_flow_key \<Rightarrow> flow_state \<Rightarrow> u8 list \<Rightarrow> submission_outcome \<Rightarrow> delivery_endpoint \<Rightarrow>
     delivery_endpoint \<Rightarrow> bool" where
  "submit_promise key f payload r ep ep' =
     (case r of
        Accepted i drops \<Rightarrow> fl_next_accepted_index f = Some i
          \<and> length payload \<le> fp_max_message_bytes (fl_policy f)
          \<and> drops \<le> length (fl_outbound f)
          \<and> (0 < drops \<longrightarrow> fl_mode f \<noteq> ReliableOrdered
                         \<and> fp_outbound_pressure (fl_policy f) = EvictOldestUnreliable)
          \<and> no_room_before evict_oldest_outbound_unreliable key (length payload) drops ep
          \<and> (\<exists>f'. de_flows ep' = fmupd key f' (de_flows ep)
               \<and> fl_outbound f' = drop drops (fl_outbound f)
                    @ [\<lparr>dt_mode = fl_mode f, dt_accepted_index = i, dt_payload = payload\<rparr>]
               \<and> fl_next_accepted_index f' = u64_checked_add i 1
               \<and> (fl_mode f', fl_policy f', fl_receiver f', fl_session f')
                  = (fl_mode f, fl_policy f, fl_receiver f, fl_session f))
          \<and> de_diagnostics ep' = (if 0 < drops then de_diagnostics (count_outbound_drops drops ep)
                                 else de_diagnostics ep)
      | RejectedTooLarge \<Rightarrow> ep' = ep \<and> fp_max_message_bytes (fl_policy f) < length payload
      | RejectedCounterExhausted \<Rightarrow> ep' = ep \<and> fl_next_accepted_index f = None
      | RejectedPressure \<Rightarrow> fl_next_accepted_index f \<noteq> None
          \<and> can_add_pending ep key 1 (length payload) = Some (Ok False)
          \<and> (if fp_outbound_pressure (fl_policy f) = RejectNew then ep' = ep
             else fl_mode f \<noteq> ReliableOrdered
                  \<and> no_room_before evict_oldest_outbound_unreliable key (length payload)
                      (Suc (length (fl_outbound f))) ep
                  \<and> (\<exists>f'. moved key f' ep ep' \<and> fl_outbound f' = [] \<and> outbound_kept f' = outbound_kept f)))"

lemma submit_accept_ok:
  assumes "endpoint_ok lim ep" "fmlookup (de_flows ep) key = Some f" "fk_direction key = Outbound"
    and "can_add_pending ep key 1 (length payload) = Some (Ok True)"
    and "fl_next_accepted_index f = Some i" "length payload \<le> fp_max_message_bytes (fl_policy f)"
  shows "\<exists>ep' f'. submit_accept ep key (fl_mode f) i payload drops = Some (Ok (Accepted i drops), ep')
     \<and> endpoint_ok lim ep' \<and> de_flows ep' = fmupd key f' (de_flows ep)
     \<and> fl_outbound f' = fl_outbound f
          @ [\<lparr>dt_mode = fl_mode f, dt_accepted_index = i, dt_payload = payload\<rparr>]
     \<and> fl_next_accepted_index f' = u64_checked_add i 1
     \<and> (fl_mode f', fl_policy f', fl_receiver f', fl_session f')
        = (fl_mode f, fl_policy f, fl_receiver f, fl_session f)
     \<and> de_diagnostics ep' = (if 0 < drops then de_diagnostics (count_outbound_drops drops ep)
                            else de_diagnostics ep)"
proof -
  define t where "t = \<lparr>dt_mode = fl_mode f, dt_accepted_index = i, dt_payload = payload\<rparr>"
  define f1 where "f1 = f\<lparr>fl_next_accepted_index := u64_checked_add i 1, fl_outbound := fl_outbound f @ [t]\<rparr>"
  have len: "payload_len t = length payload" by (simp add: payload_len_def t_def)
  have good: "flow_ok key (add_flow_pending 1 (payload_len t) f1)"
    using flow_push_ok[OF endpoint_okD(2)[OF assms(1,2)], of t] assms(3-)
      can_add_pending_True(1)[OF assms(2,4)]
    by (simp add: t_def transfer_ok_def payload_len_def f1_def)
  obtain ep' where e: "add_pending (set_flow key f1 ep) key 1 (payload_len t) = Some ep'"
    "endpoint_ok lim ep'" "moved key (add_flow_pending 1 (payload_len t) f1) ep ep'"
    using add_step[OF assms(1,2) _ _ _ _ good] assms(4) len by (auto simp: f1_def)
  let ?ep = "if 0 < drops then count_outbound_drops drops ep' else ep'"
  have "submit_accept ep key (fl_mode f) i payload drops = Some (Ok (Accepted i drops), ?ep)"
    using assms(2) e(1) by (simp add: submit_accept_def t_def f1_def)
  moreover have "endpoint_ok lim ?ep" using e(2) by simp
  ultimately show ?thesis
    using e(3)
    by (intro exI[of _ ?ep] exI[of _ "add_flow_pending 1 (payload_len t) f1"])
      (auto simp: moved_def add_flow_pending_def f1_def t_def count_outbound_drops_def)
qed

lemma submit_ok:
  assumes "endpoint_ok lim ep" "fmlookup (de_flows ep) key = Some f" "fk_direction key = Outbound"
  shows "\<exists>r ep'. submit ep key payload = Some (Ok r, ep') \<and> endpoint_ok lim ep'
     \<and> submit_promise key f payload r ep ep'"
proof -
  note ok = endpoint_okD(2)[OF assms(1,2)]
  obtain fits where fits: "can_add_pending ep key 1 (length payload) = Some (Ok fits)"
    using can_add_pending_total[OF endpoint_okD(1)[OF assms(1)] assms(2)] by blast
  consider (large) "fp_max_message_bytes (fl_policy f) < length payload"
    | (out) "length payload \<le> fp_max_message_bytes (fl_policy f)" "fl_next_accepted_index f = None"
    | (room) i where "length payload \<le> fp_max_message_bytes (fl_policy f)"
        "fl_next_accepted_index f = Some i" "fits"
    | (reject) i where "length payload \<le> fp_max_message_bytes (fl_policy f)"
        "fl_next_accepted_index f = Some i" "\<not> fits" "fp_outbound_pressure (fl_policy f) = RejectNew"
    | (evict) i where "length payload \<le> fp_max_message_bytes (fl_policy f)"
        "fl_next_accepted_index f = Some i" "\<not> fits"
        "fp_outbound_pressure (fl_policy f) = EvictOldestUnreliable"
    by (meson linorder_not_le not_None_eq outbound_pressure_behavior.exhaust)
  then show ?thesis
  proof cases
    case large
    then show ?thesis using assms by (simp add: submit_def submit_promise_def)
  next
    case out
    then show ?thesis using assms by (simp add: submit_def submit_promise_def)
  next
    case room
    then show ?thesis
      using submit_accept_ok[OF assms _ room(2,1), of 0] fits assms
      by (force simp: submit_def submit_promise_def no_room_before_def)
  next
    case reject
    then show ?thesis using assms fits by (simp add: submit_def submit_promise_def)
  next
    case evict
    have unrel: "fl_mode f \<noteq> ReliableOrdered"
      using flow_modeD(4)[OF assms(1,2)] evict(4) by auto
    have "0 + length (fl_outbound f) \<le> usize_max" using ok by (simp add: flow_ok_def flow_books_def)
    then obtain fit n ep1 f1 where l: "evict_until_fits evict_oldest_outbound_unreliable ep key
          (length payload) 0 = Some (Ok (fit, n), ep1)"
      "endpoint_ok lim ep1" "moved key f1 ep ep1" "n \<le> length (fl_outbound f)"
      "fl_outbound f1 = drop n (fl_outbound f)" "outbound_kept f1 = outbound_kept f"
      "can_add_pending ep1 key 1 (length payload) = Some (Ok fit)" "\<not> fit \<longrightarrow> fl_outbound f1 = []"
      using outbound_queue.evict_loop[OF assms(1,2), of 0 "length payload"] unrel assms(3)
      by (auto simp: unreliable_outbound_def)
    have least: "evict_times evict_oldest_outbound_unreliable key n ep = Some ep1"
      "no_room_before evict_oldest_outbound_unreliable key (length payload) n ep"
      using outbound_queue.evict_loop_least[OF assms(1,2), of 0 "length payload" fit n ep1] l(1) unrel assms(3)
        \<open>0 + length (fl_outbound f) \<le> usize_max\<close>
      by (simp_all add: unreliable_outbound_def)
    have f1: "fmlookup (de_flows ep1) key = Some f1" using l(3) by (simp add: moved_def)
    have kept: "fl_mode f1 = fl_mode f" "fl_policy f1 = fl_policy f"
      "fl_next_accepted_index f1 = Some i" "fl_receiver f1 = fl_receiver f" "fl_session f1 = fl_session f"
      using l(6) evict(2) by (auto simp: outbound_kept_def)
    have run: "submit ep key payload =
        (if fit then submit_accept ep1 key (fl_mode f) i payload n else Some (Ok RejectedPressure, ep1))"
      using assms evict fits l(1) unrel by (simp add: submit_def)
    show ?thesis
    proof (cases fit)
      case True
      obtain ep' f' where a: "submit_accept ep1 key (fl_mode f1) i payload n = Some (Ok (Accepted i n), ep')"
        "endpoint_ok lim ep'" "de_flows ep' = fmupd key f' (de_flows ep1)"
        "fl_outbound f' = fl_outbound f1
           @ [\<lparr>dt_mode = fl_mode f1, dt_accepted_index = i, dt_payload = payload\<rparr>]"
        "fl_next_accepted_index f' = u64_checked_add i 1"
        "(fl_mode f', fl_policy f', fl_receiver f', fl_session f')
         = (fl_mode f1, fl_policy f1, fl_receiver f1, fl_session f1)"
        "de_diagnostics ep' = (if 0 < n then de_diagnostics (count_outbound_drops n ep1)
                             else de_diagnostics ep1)"
        using submit_accept_ok[OF l(2) f1 assms(3) _ kept(3), of payload n] l(7) True kept(2) evict(1)
        by auto
      have "submit_promise key f payload (Accepted i n) ep ep'"
        unfolding submit_promise_def submission_outcome.case
        using a(3-7) l(3-5) kept evict unrel least(2)
        by (intro conjI exI[of _ f']) (simp_all add: moved_def count_outbound_drops_def)
      then show ?thesis using run True a(1,2) kept(1) by auto
    next
      case False
      then have "n = length (fl_outbound f)" using l(4,5,8) by simp
      then have "no_room_before evict_oldest_outbound_unreliable key (length payload) (Suc (length (fl_outbound f))) ep"
        using least l(7) False by (auto simp: no_room_before_def less_Suc_eq)
      then show ?thesis
        using False run l(2,3,6,8) evict unrel fits by (auto simp: submit_promise_def)
    qed
  qed
qed

lemma submit_total:
  assumes "endpoint_ok lim ep"
  shows "\<exists>r ep'. submit ep key payload = Some (r, ep') \<and> endpoint_ok lim ep'"
proof (cases "\<exists>f. fmlookup (de_flows ep) key = Some f \<and> fk_direction key = Outbound")
  case True
  then show ?thesis using submit_ok[OF assms] by blast
next
  case False
  then show ?thesis using assms by (auto simp: submit_def split: option.splits)
qed

section \<open>Custody\<close>

lemma commit_outbound_custody_ok:
  assumes "endpoint_ok lim ep"
  shows "\<exists>r ep'. commit_outbound_custody ep key i = Some (r, ep') \<and> endpoint_ok lim ep'
     \<and> (case r of Err _ \<Rightarrow> ep' = ep
        | Ok t \<Rightarrow> fk_direction key = Outbound \<and> dt_accepted_index t = i
            \<and> (\<exists>f ts. fmlookup (de_flows ep) key = Some f \<and> fl_outbound f = t # ts
                 \<and> moved key (sub_flow_pending 1 (payload_len t) (f\<lparr>fl_outbound := ts\<rparr>)) ep ep'))"
proof (cases "\<exists>e. commit_outbound_custody ep key i = Some (Err e, ep)")
  case True
  then show ?thesis using assms by force
next
  case False
  then obtain f t ts where f: "fmlookup (de_flows ep) key = Some f" "fl_outbound f = t # ts"
    "fk_direction key = Outbound" "dt_accepted_index t = i"
    by (auto simp: commit_outbound_custody_def split: if_splits option.splits list.splits)
  then show ?thesis
    using pop_outbound_step[OF assms f(1,2)]
    by (auto simp: commit_outbound_custody_def)
qed

section \<open>Reception\<close>

text \<open>What \<open>receive\<close> promises for an inbound flow \<open>f\<close>.\<close>

definition receive_promise ::
  "delivery_flow_key \<Rightarrow> flow_state \<Rightarrow> delivery_transfer \<Rightarrow> receive_outcome \<Rightarrow> delivery_endpoint \<Rightarrow>
     delivery_endpoint \<Rightarrow> bool" where
  "receive_promise key f t r ep ep' =
     (case r of
        RejectedModeMismatch \<Rightarrow> ep' = ep \<and> fl_mode f \<noteq> ReliableOrdered \<and> dt_mode t \<noteq> fl_mode f
      | DroppedTooLarge \<Rightarrow> ep' = ep \<and> fl_mode f \<noteq> ReliableOrdered
          \<and> fp_max_message_bytes (fl_policy f) < payload_len t
      | TerminalReliableFailure \<Rightarrow> fl_mode f = ReliableOrdered \<and> dropped key ep ep'
          \<and> (\<not> transfer_ok f t
             \<or> (\<exists>m next u. fl_receiver f = Reliable m next
                  \<and> fmlookup m (dt_accepted_index t) = Some u \<and> u \<noteq> t)
             \<or> can_add_pending ep key 1 (payload_len t) = Some (Ok False))
      | DuplicateReliable \<Rightarrow> ep' = count_duplicate ep
          \<and> (\<exists>m next. fl_receiver f = Reliable m next
               \<and> (unat (dt_accepted_index t) < index_frontier next
                  \<or> fmlookup m (dt_accepted_index t) = Some t))
      | StaleSequenced \<Rightarrow> ep' = count_stale_drop ep \<and> fl_mode f = UnreliableSequenced
          \<and> stale_for (receiver_seen (fl_receiver f)) (dt_accepted_index t)
      | Buffered drops \<Rightarrow> transfer_ok f t
          \<and> (case fl_receiver f of
               Reliable m next \<Rightarrow> drops = 0 \<and> fmlookup m (dt_accepted_index t) = None
                 \<and> index_frontier next \<le> unat (dt_accepted_index t)
                 \<and> moved key (add_flow_pending 1 (payload_len t)
                     (f\<lparr>fl_receiver := Reliable (fmupd (dt_accepted_index t) t m) next\<rparr>)) ep ep'
             | Unreliable q seen \<Rightarrow> drops \<le> length q
                 \<and> (0 < drops \<longrightarrow> fp_receiver_pressure (fl_policy f) = EvictOldestBufferedUnreliable)
                 \<and> (fl_mode f = UnreliableSequenced \<longrightarrow> \<not> stale_for seen (dt_accepted_index t))
                 \<and> (\<exists>f'. de_flows ep' = fmupd key f' (de_flows ep)
                      \<and> fl_receiver f' = Unreliable (drop drops q @ [t]) seen
                      \<and> inbound_kept f' = inbound_kept f)
                 \<and> de_diagnostics ep' = (if 0 < drops then de_diagnostics (count_inbound_drops drops ep)
                                        else de_diagnostics ep))
      | DroppedByPressure drops \<Rightarrow> transfer_ok f t
          \<and> can_add_pending ep key 1 (payload_len t) = Some (Ok False)
          \<and> de_diagnostics ep' = de_diagnostics (count_inbound_drops drops ep)
          \<and> (case fl_receiver f of Reliable _ _ \<Rightarrow> False
             | Unreliable q seen \<Rightarrow>
                 (if fp_receiver_pressure (fl_policy f) = DropIncomingUnreliable
                  then drops = 1 \<and> de_flows ep' = de_flows ep
                  else \<exists>f'. de_flows ep' = fmupd key f' (de_flows ep) \<and> drops = saturating_add (length q) 1
                         \<and> fl_receiver f' = Unreliable [] seen \<and> inbound_kept f' = inbound_kept f)))"

lemma terminate_ignoring_ok:
  assumes "endpoint_ok lim ep" "fmlookup (de_flows ep) key = Some f"
  shows "\<exists>ep'. terminate_ignoring ep key reason = Some (Ok TerminalReliableFailure, ep')
     \<and> endpoint_ok lim ep' \<and> dropped key ep ep'"
  using terminate_flow_accounts[OF endpoint_okD(1)[OF assms(1)] assms(2), of reason] assms(1)
  by (auto simp: terminate_ignoring_def intro: endpoint_ok_dropped)

lemma index_before_frontier:
  "(case next of None \<Rightarrow> True | Some n \<Rightarrow> i < n) \<longleftrightarrow> unat (i :: u64) < index_frontier next"
  using unsigned_less[of i, where ?'a = nat]
  by (auto simp: index_frontier_def word_less_nat_alt split: option.splits)

lemma receive_reliable_ok:
  assumes "endpoint_ok lim ep" "fmlookup (de_flows ep) key = Some f" "fk_direction key = Inbound"
    and "fl_mode f = ReliableOrdered" "transfer_ok f t"
  shows "\<exists>r ep'. receive_reliable ep key t = Some (Ok r, ep') \<and> endpoint_ok lim ep'
     \<and> receive_promise key f t r ep ep'"
proof -
  obtain m nx where rec: "fl_receiver f = Reliable m nx"
    using flow_modeD(1)[OF assms(1,2,4)] by blast
  let ?i = "dt_accepted_index t"
  obtain fits where fits: "can_add_pending ep key 1 (payload_len t) = Some (Ok fits)"
    using can_add_pending_total[OF endpoint_okD(1)[OF assms(1)] assms(2)] by blast
  consider (old) "unat ?i < index_frontier nx"
    | (dup) u where "\<not> unat ?i < index_frontier nx" "fmlookup m ?i = Some u" "u = t"
    | (conflict) u where "\<not> unat ?i < index_frontier nx" "fmlookup m ?i = Some u" "u \<noteq> t"
    | (full) "\<not> unat ?i < index_frontier nx" "fmlookup m ?i = None" "\<not> fits"
    | (insert) "\<not> unat ?i < index_frontier nx" "fmlookup m ?i = None" "fits"
    by (metis not_None_eq)
  then show ?thesis
  proof cases
    case old
    then show ?thesis using assms rec
      by (simp add: receive_reliable_def index_before_frontier receive_promise_def)
  next
    case dup
    then show ?thesis using assms rec
      by (simp add: receive_reliable_def index_before_frontier receive_promise_def)
  next
    case conflict
    then show ?thesis
      using terminate_ignoring_ok[OF assms(1,2), of ReliableTransferConflict] assms rec
      by (auto simp: receive_reliable_def index_before_frontier receive_promise_def)
  next
    case full
    then show ?thesis
      using terminate_ignoring_ok[OF assms(1,2), of ReliableReceiverPressure] assms rec fits
      by (auto simp: receive_reliable_def index_before_frontier receive_promise_def)
  next
    case insert
    obtain n where n: "nx = Some n" "n \<le> ?i"
      using insert(1) index_before_frontier[of ?i nx] by (auto split: option.splits)
    let ?f = "f\<lparr>fl_receiver := Reliable (fmupd ?i t m) nx\<rparr>"
    have good: "flow_ok key (add_flow_pending 1 (payload_len t) ?f)"
      by (rule flow_insert_ok[OF endpoint_okD(2)[OF assms(1,2)] _ assms(3) rec assms(5) insert(2) n])
        (use can_add_pending_True(1)[OF assms(2)] fits insert(3) in simp)
    obtain ep' where "add_pending (set_flow key ?f ep) key 1 (payload_len t) = Some ep'"
      "endpoint_ok lim ep'" "moved key (add_flow_pending 1 (payload_len t) ?f) ep ep'"
      using add_step[OF assms(1,2) _ _ _ _ good] fits insert(3) by auto
    then show ?thesis
      using insert assms rec fits
      by (auto simp: receive_reliable_def index_before_frontier receive_promise_def)
  qed
qed

lemma receive_enqueue_ok:
  assumes "endpoint_ok lim ep" "fmlookup (de_flows ep) key = Some f" "fk_direction key = Inbound"
    and "fl_receiver f = Unreliable q seen" "transfer_ok f t"
    and "can_add_pending ep key 1 (payload_len t) = Some (Ok True)"
  shows "\<exists>ep' f'. receive_enqueue ep key t drops = Some (Ok (Buffered drops), ep') \<and> endpoint_ok lim ep'
     \<and> de_flows ep' = fmupd key f' (de_flows ep) \<and> fl_receiver f' = Unreliable (q @ [t]) seen
     \<and> inbound_kept f' = inbound_kept f
     \<and> de_diagnostics ep' = (if 0 < drops then de_diagnostics (count_inbound_drops drops ep)
                            else de_diagnostics ep)"
proof -
  define f1 where "f1 = f\<lparr>fl_receiver := Unreliable (q @ [t]) seen\<rparr>"
  have good: "flow_ok key (add_flow_pending 1 (payload_len t) f1)"
    unfolding f1_def
    by (rule flow_enqueue_ok[OF endpoint_okD(2)[OF assms(1,2)] can_add_pending_True(1)[OF assms(2,6)]
          assms(3-5)])
  obtain ep' where e: "add_pending (set_flow key f1 ep) key 1 (payload_len t) = Some ep'"
    "endpoint_ok lim ep'" "moved key (add_flow_pending 1 (payload_len t) f1) ep ep'"
    using add_step[OF assms(1,2,6) _ _ _ good] by (auto simp: f1_def)
  let ?ep = "if 0 < drops then count_inbound_drops drops ep' else ep'"
  have "receive_enqueue ep key t drops = Some (Ok (Buffered drops), ?ep)"
    using assms(2,4) e(1) by (simp add: receive_enqueue_def f1_def)
  moreover have "endpoint_ok lim ?ep" using e(2) by simp
  ultimately show ?thesis
    using e(3) assms(4)
    by (intro exI[of _ ?ep] exI[of _ "add_flow_pending 1 (payload_len t) f1"])
      (auto simp: moved_def add_flow_pending_def f1_def count_inbound_drops_def inbound_kept_def)
qed

lemma receive_unreliable_evict:
  assumes "endpoint_ok lim ep" "fmlookup (de_flows ep) key = Some f" "fk_direction key = Inbound"
    and "fl_mode f \<noteq> ReliableOrdered" "transfer_ok f t" "fl_receiver f = Unreliable q seen"
    and "fp_receiver_pressure (fl_policy f) = EvictOldestBufferedUnreliable"
    and "can_add_pending ep key 1 (payload_len t) = Some (Ok False)"
    and "sequenced \<longleftrightarrow> fl_mode f = UnreliableSequenced"
    and "sequenced \<Longrightarrow> \<not> stale_for seen (dt_accepted_index t)"
  shows "\<exists>r ep'. receive_unreliable ep key t sequenced = Some (Ok r, ep') \<and> endpoint_ok lim ep'
     \<and> receive_promise key f t r ep ep'"
proof -
  have len: "length q \<le> usize_max"
    using endpoint_okD(2)[OF assms(1,2)] assms(6) by (simp add: flow_ok_def flow_books_def)
  then obtain fit n ep1 f1 where l: "evict_until_fits evict_oldest_inbound_unreliable ep key
        (payload_len t) 0 = Some (Ok (fit, n), ep1)"
    "endpoint_ok lim ep1" "moved key f1 ep ep1" "n \<le> length q"
    "receiver_queue (fl_receiver f1) = drop n q" "inbound_kept f1 = inbound_kept f"
    "unreliable_inbound key f1" "can_add_pending ep1 key 1 (payload_len t) = Some (Ok fit)"
    "\<not> fit \<longrightarrow> receiver_queue (fl_receiver f1) = []"
    using inbound_queue.evict_loop[OF assms(1,2), of 0 "payload_len t"] assms(3,4,6)
    by (auto simp: unreliable_inbound_def)
  have f1: "fmlookup (de_flows ep1) key = Some f1" using l(3) by (simp add: moved_def)
  have rec1: "fl_receiver f1 = Unreliable (drop n q) seen"
    using l(5-7) assms(6) receiver_queuesE[of "fl_receiver f1"]
    by (simp add: unreliable_inbound_def inbound_kept_def)
  have t1: "transfer_ok f1 t" using assms(5) l(6) by (simp add: transfer_ok_def inbound_kept_def)
  have run: "receive_unreliable ep key t sequenced =
      (if fit then receive_enqueue ep1 key t n
       else Some (Ok (DroppedByPressure (saturating_add n 1)),
                  count_inbound_drops (saturating_add n 1) ep1))"
    using assms l(1) by (auto simp: receive_unreliable_def Let_def)
  show ?thesis
  proof (cases fit)
    case True
    obtain ep' f' where a: "receive_enqueue ep1 key t n = Some (Ok (Buffered n), ep')" "endpoint_ok lim ep'"
      "de_flows ep' = fmupd key f' (de_flows ep1)" "fl_receiver f' = Unreliable (drop n q @ [t]) seen"
      "inbound_kept f' = inbound_kept f1"
      "de_diagnostics ep' = (if 0 < n then de_diagnostics (count_inbound_drops n ep1)
                           else de_diagnostics ep1)"
      using receive_enqueue_ok[OF l(2) f1 assms(3) rec1 t1, of n] l(8) True by auto
    have "receive_promise key f t (Buffered n) ep ep'"
      unfolding receive_promise_def receive_outcome.case assms(6) receiver_buffer.case
      using a(3-6) l(3,4,6) assms
      by (intro conjI exI[of _ f']) (simp_all add: moved_def count_inbound_drops_def)
    then show ?thesis using run True a(1,2) by auto
  next
    case False
    have n: "n = length q" and rec0: "fl_receiver f1 = Unreliable [] seen"
      using False l(4,5,9) rec1 by simp_all
    have "receive_promise key f t (DroppedByPressure (saturating_add n 1)) ep
        (count_inbound_drops (saturating_add n 1) ep1)"
      unfolding receive_promise_def receive_outcome.case assms(6) receiver_buffer.case
      using l(3,6) assms(5,7,8) n rec0 by (auto simp: moved_def count_inbound_drops_def)
    then show ?thesis using run False l(2) by auto
  qed
qed

lemma receive_unreliable_ok:
  assumes "endpoint_ok lim ep" "fmlookup (de_flows ep) key = Some f" "fk_direction key = Inbound"
    and "fl_mode f \<noteq> ReliableOrdered" "transfer_ok f t"
    and "sequenced \<longleftrightarrow> fl_mode f = UnreliableSequenced"
  shows "\<exists>r ep'. receive_unreliable ep key t sequenced = Some (Ok r, ep') \<and> endpoint_ok lim ep'
     \<and> receive_promise key f t r ep ep'"
proof -
  obtain q seen where rec: "fl_receiver f = Unreliable q seen"
    using flow_modeD(2)[OF assms(1,2,4)] by blast
  obtain fits where fits: "can_add_pending ep key 1 (payload_len t) = Some (Ok fits)"
    using can_add_pending_total[OF endpoint_okD(1)[OF assms(1)] assms(2)] by blast
  have pol: "fp_receiver_pressure (fl_policy f) \<noteq> TerminateReliable"
    using flow_modeD(3)[OF assms(1,2,4)] .
  consider (stale) "sequenced" "stale_for seen (dt_accepted_index t)"
    | (room) "sequenced \<longrightarrow> \<not> stale_for seen (dt_accepted_index t)" "fits"
    | (drop) "sequenced \<longrightarrow> \<not> stale_for seen (dt_accepted_index t)" "\<not> fits"
        "fp_receiver_pressure (fl_policy f) = DropIncomingUnreliable"
    | (evict) "sequenced \<longrightarrow> \<not> stale_for seen (dt_accepted_index t)" "\<not> fits"
        "fp_receiver_pressure (fl_policy f) = EvictOldestBufferedUnreliable"
    using pol by (cases "fp_receiver_pressure (fl_policy f)") auto
  then show ?thesis
  proof cases
    case stale
    then show ?thesis using assms rec
      by (auto simp: receive_unreliable_def receive_promise_def)
  next
    case room
    then have run: "receive_unreliable ep key t sequenced = receive_enqueue ep key t 0"
      using assms rec fits by (auto simp: receive_unreliable_def)
    obtain ep' f' where a: "receive_enqueue ep key t 0 = Some (Ok (Buffered 0), ep')" "endpoint_ok lim ep'"
      "de_flows ep' = fmupd key f' (de_flows ep)" "fl_receiver f' = Unreliable (q @ [t]) seen"
      "inbound_kept f' = inbound_kept f" "de_diagnostics ep' = de_diagnostics ep"
      using receive_enqueue_ok[OF assms(1-3) rec assms(5), of 0] fits room(2) by auto
    have "receive_promise key f t (Buffered 0) ep ep'"
      unfolding receive_promise_def receive_outcome.case rec receiver_buffer.case
      using a(3-6) room assms(5,6) by (intro conjI exI[of _ f']) auto
    then show ?thesis using run a(1,2) by auto
  next
    case drop
    then show ?thesis using assms rec fits
      by (auto simp: receive_unreliable_def receive_promise_def count_inbound_drops_def
          simp flip: count_inbound_drops_def)
  next
    case evict
    then show ?thesis
      using receive_unreliable_evict[OF assms(1-5) rec evict(3) _ assms(6)] fits by auto
  qed
qed

lemma receive_ok:
  assumes "endpoint_ok lim ep" "fmlookup (de_flows ep) key = Some f" "fk_direction key = Inbound"
  shows "\<exists>r ep'. receive ep key t = Some (Ok r, ep') \<and> endpoint_ok lim ep' \<and> receive_promise key f t r ep ep'"
proof -
  consider (mode) "dt_mode t \<noteq> fl_mode f"
    | (large) "dt_mode t = fl_mode f" "fp_max_message_bytes (fl_policy f) < payload_len t"
    | (good) "transfer_ok f t" unfolding transfer_ok_def by (meson not_le)
  then show ?thesis
  proof cases
    case mode
    then have bad: "\<not> transfer_ok f t" by (simp add: transfer_ok_def)
    show ?thesis
      using terminate_ignoring_ok[OF assms(1,2), of ReliableModeMismatch] assms mode bad
      by (cases "fl_mode f = ReliableOrdered") (auto simp: receive_def receive_promise_def)
  next
    case large
    then have bad: "\<not> transfer_ok f t" by (simp add: transfer_ok_def)
    show ?thesis
      using terminate_ignoring_ok[OF assms(1,2), of ReliableInboundTooLarge] assms large bad
      by (cases "fl_mode f = ReliableOrdered") (auto simp: receive_def receive_promise_def)
  next
    case good
    then have run: "receive ep key t =
        (if fl_mode f = ReliableOrdered then receive_reliable ep key t
         else receive_unreliable ep key t (fl_mode f = UnreliableSequenced))"
      using assms(2,3) by (cases "fl_mode f") (simp_all add: receive_def transfer_ok_def)
    show ?thesis
    proof (cases "fl_mode f = ReliableOrdered")
      case True
      show ?thesis using run True receive_reliable_ok[OF assms True good] by simp
    next
      case False
      show ?thesis using run False receive_unreliable_ok[OF assms False good refl] by simp
    qed
  qed
qed

lemma receive_total:
  assumes "endpoint_ok lim ep"
  shows "\<exists>r ep'. receive ep key t = Some (r, ep') \<and> endpoint_ok lim ep'"
proof (cases "\<exists>f. fmlookup (de_flows ep) key = Some f \<and> fk_direction key = Inbound")
  case True
  then show ?thesis using receive_ok[OF assms] by blast
next
  case False
  then show ?thesis using assms by (auto simp: receive_def split: option.splits)
qed

lemma receive_transport_payload_total:
  assumes "endpoint_ok lim ep"
  shows "\<exists>r ep'. receive_transport_payload ep key i payload = Some (r, ep') \<and> endpoint_ok lim ep'"
  using receive_total[OF assms] assms
  by (auto simp: receive_transport_payload_def split: option.splits)

section \<open>Exposure\<close>

text \<open>What an exposure promises: nothing, or the message the mode says is next.\<close>

definition poll_promise ::
  "delivery_flow_key \<Rightarrow> flow_state \<Rightarrow> exposed_message option \<Rightarrow> delivery_endpoint \<Rightarrow>
     delivery_endpoint \<Rightarrow> bool" where
  "poll_promise key f r ep ep' =
     (case fl_receiver f of
        Reliable m next \<Rightarrow>
          (case r of
             None \<Rightarrow> ep' = ep \<and> (\<forall>n. next = Some n \<longrightarrow> fmlookup m n = None)
           | Some x \<Rightarrow> (\<exists>n t. next = Some n \<and> fmlookup m n = Some t \<and> x = expose t
               \<and> em_accepted_index x = n
               \<and> moved key (sub_flow_pending 1 (payload_len t)
                   (f\<lparr>fl_receiver := Reliable (fmdrop n m) (u64_checked_add n 1)\<rparr>)) ep ep'))
      | Unreliable q seen \<Rightarrow>
          (\<exists>n f'. n \<le> length q \<and> de_flows ep' = fmupd key f' (de_flows ep)
             \<and> (fl_mode f', fl_policy f', fl_session f') = (fl_mode f, fl_policy f, fl_session f)
             \<and> (\<forall>t \<in> set (take n q). fl_mode f = UnreliableSequenced \<and> stale_for seen (dt_accepted_index t))
             \<and> (case r of
                  None \<Rightarrow> n = length q \<and> fl_receiver f' = Unreliable [] seen
                | Some x \<Rightarrow> n < length q \<and> x = expose (q ! n)
                    \<and> (fl_mode f = UnreliableSequenced \<longrightarrow> \<not> stale_for seen (em_accepted_index x))
                    \<and> fl_receiver f' = Unreliable (drop (Suc n) q)
                        (if fl_mode f = UnreliableSequenced then Some (em_accepted_index x) else seen))))"

lemma poll_reliable_ok:
  assumes "endpoint_ok lim ep" "fmlookup (de_flows ep) key = Some f" "fk_direction key = Inbound"
    and "fl_mode f = ReliableOrdered"
  shows "\<exists>r ep'. poll_reliable_exposure ep key = Some (Ok r, ep') \<and> endpoint_ok lim ep'
     \<and> poll_promise key f r ep ep'"
proof -
  obtain m nx where rec: "fl_receiver f = Reliable m nx"
    using flow_modeD(1)[OF assms(1,2,4)] by blast
  consider (none) "\<forall>n. nx = Some n \<longrightarrow> fmlookup m n = None"
    | (some) n t where "nx = Some n" "fmlookup m n = Some t" by force
  then show ?thesis
  proof cases
    case none
    then show ?thesis using assms rec
      by (auto simp: poll_reliable_exposure_def poll_promise_def split: option.splits)
  next
    case some
    note rec = rec[unfolded some(1)]
    have idx: "dt_accepted_index t = n"
      using endpoint_okD(2)[OF assms(1,2)] rec some(2) by (simp add: flow_ok_def)
    note ex = flow_expose_ok[OF endpoint_okD(2)[OF assms(1,2)] assms(3) rec some(2)]
    let ?f = "f\<lparr>fl_receiver := Reliable (fmdrop n m) (u64_checked_add n 1)\<rparr>"
    obtain ep' where "remove_pending (set_flow key ?f ep) key 1 (payload_len t) = Some ep'"
      "endpoint_ok lim ep'" "moved key (sub_flow_pending 1 (payload_len t) ?f) ep ep'"
      using remove_step[OF assms(1,2) ex(2,3) _ _ _ ex(1)] by auto
    then show ?thesis
      using assms(2) rec some idx
      by (auto simp: poll_reliable_exposure_def poll_promise_def expose_def)
  qed
qed

lemma poll_unordered_ok:
  assumes "endpoint_ok lim ep" "fmlookup (de_flows ep) key = Some f" "fk_direction key = Inbound"
    and "fl_mode f = UnreliableUnordered"
  shows "\<exists>r ep'. poll_unordered_exposure ep key = Some (Ok r, ep') \<and> endpoint_ok lim ep'
     \<and> poll_promise key f r ep ep'"
proof -
  obtain q seen where rec: "fl_receiver f = Unreliable q seen"
    using flow_modeD(2)[OF assms(1,2)] assms(4) by auto
  show ?thesis
  proof (cases q)
    case Nil
    have "de_flows ep = fmupd key f (de_flows ep)" using assms(2) by (auto intro!: fmap_ext)
    then have "poll_promise key f None ep ep"
      using rec Nil by (force simp: poll_promise_def)
    then show ?thesis using assms rec Nil by (auto simp: poll_unordered_exposure_def)
  next
    case (Cons t ts)
    note rec = rec[unfolded Cons]
    let ?f = "sub_flow_pending 1 (payload_len t) (f\<lparr>fl_receiver := Unreliable ts seen\<rparr>)"
    obtain ep' where e: "remove_pending (set_flow key (f\<lparr>fl_receiver := Unreliable ts seen\<rparr>) ep) key 1
        (payload_len t) = Some ep'" "endpoint_ok lim ep'" "moved key ?f ep ep'"
      using pop_receiver_step[OF assms(1-3) rec] by blast
    have "poll_promise key f (Some (expose t)) ep ep'"
      using e(3) rec assms(4)
      by (auto simp: poll_promise_def moved_def sub_flow_pending_def intro!: exI[of _ 0] exI[of _ ?f])
    then show ?thesis using assms(2) rec e(1,2) by (auto simp: poll_unordered_exposure_def)
  qed
qed

lemma poll_sequenced_ok:
  assumes "endpoint_ok lim ep" "fmlookup (de_flows ep) key = Some f" "fk_direction key = Inbound"
    and "fl_mode f = UnreliableSequenced"
  shows "\<exists>r ep'. poll_sequenced_exposure ep key = Some (Ok r, ep') \<and> endpoint_ok lim ep'
     \<and> poll_promise key f r ep ep'"
proof -
  obtain q seen where rec: "fl_receiver f = Unreliable q seen"
    using flow_modeD(2)[OF assms(1,2)] assms(4) by auto
  then show ?thesis using assms
  proof (induction q arbitrary: ep f)
    case Nil
    have "de_flows ep = fmupd key f (de_flows ep)" using Nil.prems(3) by (auto intro!: fmap_ext)
    then have "poll_promise key f None ep ep"
      using Nil.prems(1) by (force simp: poll_promise_def)
    then show ?case using Nil.prems by (subst poll_sequenced_exposure.simps) auto
  next
    case (Cons t ts)
    let ?f = "sub_flow_pending 1 (payload_len t) (f\<lparr>fl_receiver := Unreliable ts seen\<rparr>)"
    obtain ep1 where e: "remove_pending (set_flow key (f\<lparr>fl_receiver := Unreliable ts seen\<rparr>) ep) key 1
        (payload_len t) = Some ep1" "endpoint_ok lim ep1" "moved key ?f ep ep1"
      using pop_receiver_step[OF Cons.prems(2-4,1)] by blast
    have f1: "fmlookup (de_flows ep1) key = Some ?f" using e(3) by (simp add: moved_def)
    show ?case
    proof (cases "stale_for seen (dt_accepted_index t)")
      case True
      let ?ep1 = "count_stale_drop ep1"
      have run: "poll_sequenced_exposure ep key = poll_sequenced_exposure ?ep1 key"
        using Cons.prems(1,3) e(1) True by (subst poll_sequenced_exposure.simps) simp
      obtain r ep' where r: "poll_sequenced_exposure ?ep1 key = Some (Ok r, ep')" "endpoint_ok lim ep'"
        "poll_promise key ?f r ?ep1 ep'"
        using Cons.IH[of ?f ?ep1] e(2) f1 Cons.prems(4,5) by (auto simp: sub_flow_pending_def)
      obtain n f' where p: "n \<le> length ts" "de_flows ep' = fmupd key f' (de_flows ep1)"
        "(fl_mode f', fl_policy f', fl_session f') = (fl_mode f, fl_policy f, fl_session f)"
        "\<forall>t \<in> set (take n ts). stale_for seen (dt_accepted_index t)"
        "case r of None \<Rightarrow> n = length ts \<and> fl_receiver f' = Unreliable [] seen
         | Some x \<Rightarrow> n < length ts \<and> x = expose (ts ! n) \<and> \<not> stale_for seen (em_accepted_index x)
             \<and> fl_receiver f' = Unreliable (drop (Suc n) ts) (Some (em_accepted_index x))"
        using r(3) Cons.prems(5)
        by (auto simp: poll_promise_def sub_flow_pending_def cong: option.case_cong)
      have "poll_promise key f r ep ep'"
        using p e(3) True Cons.prems(1,5)
        by (auto simp: poll_promise_def moved_def intro!: exI[of _ "Suc n"] exI[of _ f'] split: option.splits)
      then show ?thesis using run r(1,2) by auto
    next
      case False
      let ?f' = "?f\<lparr>fl_receiver := Unreliable ts (Some (dt_accepted_index t))\<rparr>"
      have run: "poll_sequenced_exposure ep key = Some (Ok (Some (expose t)), set_flow key ?f' ep1)"
        using Cons.prems(1,3) e(1) False f1 by (subst poll_sequenced_exposure.simps) simp
      have "flow_ok key ?f'"
        by (rule flow_seen_ok[OF endpoint_okD(2)[OF e(2) f1]])
          (use Cons.prems(4,5) in \<open>simp_all add: sub_flow_pending_def\<close>)
      then have good: "endpoint_ok lim (set_flow key ?f' ep1)"
        by (intro set_flow_ok[OF e(2) f1]) simp_all
      have "poll_promise key f (Some (expose t)) ep (set_flow key ?f' ep1)"
        using e(3) False Cons.prems(1,5)
        by (auto simp: poll_promise_def moved_def sub_flow_pending_def expose_def
            intro!: exI[of _ 0] exI[of _ ?f'])
      then show ?thesis using run good by auto
    qed
  qed
qed

lemma poll_ok:
  assumes "endpoint_ok lim ep" "fmlookup (de_flows ep) key = Some f" "fk_direction key = Inbound"
  shows "\<exists>r ep'. poll_exposure ep key = Some (Ok r, ep') \<and> endpoint_ok lim ep' \<and> poll_promise key f r ep ep'"
  using poll_reliable_ok[OF assms] poll_unordered_ok[OF assms] poll_sequenced_ok[OF assms] assms(2,3)
  by (cases "fl_mode f") (simp_all add: poll_exposure_def)

lemma poll_total:
  assumes "endpoint_ok lim ep"
  shows "\<exists>r ep'. poll_exposure ep key = Some (r, ep') \<and> endpoint_ok lim ep'"
proof (cases "\<exists>f. fmlookup (de_flows ep) key = Some f \<and> fk_direction key = Inbound")
  case True
  then show ?thesis using poll_ok[OF assms] by blast
next
  case False
  then show ?thesis using assms by (auto simp: poll_exposure_def split: option.splits)
qed

section \<open>Establishment, association and termination\<close>

lemma establish_flow_ok:
  assumes "endpoint_ok lim ep"
  shows "(\<exists>e. establish_flow ep key mode policy limits = Some (Err e, ep))
     \<or> (\<exists>ep'. establish_flow ep key mode policy limits = Some (Ok (), ep') \<and> endpoint_ok lim ep'
         \<and> moved key (flow_new mode policy) ep ep' \<and> fmlookup (de_flows ep) key = None)"
  using establish_flow_accounts[OF endpoint_okD(1)[OF assms], of key mode policy limits]
    endpoint_ok_moved[OF assms] flow_new_ok by blast

lemma associate_flow_ok:
  assumes "endpoint_ok lim ep"
  shows "(\<exists>r. associate_flow_with_session ep key s limits = Some (r, ep) \<and> r \<noteq> Ok Associated)
     \<or> (\<exists>ep' f. associate_flow_with_session ep key s limits = Some (Ok Associated, ep')
         \<and> endpoint_ok lim ep' \<and> fmlookup (de_flows ep) key = Some f \<and> fl_session f = None
         \<and> s_phase s = Open \<and> moved key (f\<lparr>fl_session := Some (s_id s)\<rparr>) ep ep')"
  using associate_flow_accounts[OF endpoint_okD(1)[OF assms], of key s limits]
    endpoint_ok_moved[OF assms] flow_associate_ok endpoint_okD(2)[OF assms] by blast

lemma terminate_flow_ok:
  assumes "endpoint_ok lim ep"
  shows "\<exists>r ep'. terminate_flow ep key reason = Some (r, ep') \<and> endpoint_ok lim ep'
     \<and> de_flows ep' = fmdrop key (de_flows ep) \<and> de_diagnostics ep' = de_diagnostics ep"
proof (cases "fmlookup (de_flows ep) key")
  case None
  then show ?thesis using assms by (simp add: terminate_flow_def fmdrop_absent)
next
  case (Some f)
  then show ?thesis
    using terminate_flow_accounts[OF endpoint_okD(1)[OF assms] Some, of reason]
      endpoint_ok_dropped[OF assms] by (auto simp: dropped_def)
qed

lemma terminate_keys_ok:
  assumes "endpoint_ok lim ep"
  shows "\<exists>ts ep'. terminate_keys ep ks = Some (ts, ep') \<and> endpoint_ok lim ep'
     \<and> de_flows ep' = fmfilter (\<lambda>k. k \<notin> set ks) (de_flows ep) \<and> de_diagnostics ep' = de_diagnostics ep"
  using assms
proof (induction ks arbitrary: ep)
  case Nil
  have "fmfilter (\<lambda>k. True) (de_flows ep) = de_flows ep" by (rule fmap_ext) simp
  then show ?case using Nil by simp
next
  case (Cons k ks)
  obtain r ep1 where 1: "terminate_flow ep k ConnectionEnded = Some (r, ep1)" "endpoint_ok lim ep1"
    "de_flows ep1 = fmdrop k (de_flows ep)" "de_diagnostics ep1 = de_diagnostics ep"
    using terminate_flow_ok[OF Cons.prems] by blast
  obtain ts ep' where 2: "terminate_keys ep1 ks = Some (ts, ep')" "endpoint_ok lim ep'"
    "de_flows ep' = fmfilter (\<lambda>k. k \<notin> set ks) (de_flows ep1)" "de_diagnostics ep' = de_diagnostics ep1"
    using Cons.IH[OF 1(2)] by blast
  have "fmfilter (\<lambda>x. x \<notin> set ks) (fmdrop k (de_flows ep)) = fmfilter (\<lambda>x. x \<notin> set (k # ks)) (de_flows ep)"
    by (rule fmap_ext) auto
  then have "de_flows ep' = fmfilter (\<lambda>x. x \<notin> set (k # ks)) (de_flows ep)"
    unfolding 2(3) 1(3) .
  then show ?case using 1(1,4) 2(1,2,4) by simp
qed

lemma flow_key_eta [simp]:
  "\<lparr>fk_connection = fk_connection k, fk_direction = fk_direction k, fk_handle = fk_handle k\<rparr> = k"
  by (cases k) simp

lemma set_connection_keys:
  "set (connection_keys ep c) = {k. fmlookup (de_flows ep) k \<noteq> None \<and> fk_connection k = c}"
proof -
  have part: "set (map (\<lambda>h. \<lparr>fk_connection = c, fk_direction = d, fk_handle = DeliveryFlowHandle h\<rparr>)
      (sorted_list_of_fset ((\<lambda>k. flow_handle_get (fk_handle k)) |`|
         ffilter (\<lambda>k. fk_connection k = c \<and> fk_direction k = d) (fmdom (de_flows ep)))))
    = {k. fmlookup (de_flows ep) k \<noteq> None \<and> fk_connection k = c \<and> fk_direction k = d}"
    for d
    by (auto simp: fmlookup_dom_iff image_iff sorted_list_of_fset.rep_eq)
      (metis (mono_tags, lifting) IntI flow_key_eta fmlookup_dom_iff mem_Collect_eq)
  show ?thesis
    unfolding connection_keys_def Let_def set_append part
    by (auto intro: flow_direction.exhaust)
qed

lemma terminate_connection_ok:
  assumes "endpoint_ok lim ep"
  shows "\<exists>ts ep'. terminate_connection ep c = Some (ts, ep') \<and> endpoint_ok lim ep'
     \<and> de_flows ep' = fmfilter (\<lambda>k. fk_connection k \<noteq> c) (de_flows ep)"
proof -
  have "fmfilter (\<lambda>k. k \<notin> set (connection_keys ep c)) (de_flows ep)
      = fmfilter (\<lambda>k. fk_connection k \<noteq> c) (de_flows ep)"
    by (rule fmap_ext) (auto simp: set_connection_keys)
  then show ?thesis
    using terminate_keys_ok[OF assms, of "connection_keys ep c"] by (auto simp: terminate_connection_def)
qed

section \<open>The endpoint as a machine\<close>

datatype delivery_call =
    CallEstablish delivery_flow_key delivery_mode flow_resource_policy delivery_scope_limits
  | CallAssociate delivery_flow_key session delivery_scope_limits
  | CallSubmit delivery_flow_key "u8 list"
  | CallCommit delivery_flow_key u64
  | CallReceive delivery_flow_key delivery_transfer
  | CallReceivePayload delivery_flow_key u64 "u8 list"
  | CallPoll delivery_flow_key
  | CallTerminate delivery_flow_key flow_termination_reason
  | CallFailCustody delivery_flow_key
  | CallTerminateConnection connection_handle

text \<open>What a call lets the outside see.\<close>

datatype delivery_event =
    NoEvent
  | EstablishedEvent delivery_flow_key
  | AcceptedEvent delivery_flow_key u64
  | CustodyEvent delivery_flow_key delivery_transfer
  | BufferedEvent delivery_flow_key exposed_message
  | ExposedEvent delivery_flow_key exposed_message

fun established_event :: "delivery_flow_key \<Rightarrow> (unit, flow_establishment_error) result \<Rightarrow>
     delivery_event" where
  "established_event key (Ok _) = EstablishedEvent key"
| "established_event _ (Err _) = NoEvent"

fun submit_event :: "delivery_flow_key \<Rightarrow> (submission_outcome, delivery_operation_error) result \<Rightarrow>
     delivery_event" where
  "submit_event key (Ok (Accepted i _)) = AcceptedEvent key i"
| "submit_event _ _ = NoEvent"

fun custody_event :: "delivery_flow_key \<Rightarrow> (delivery_transfer, custody_commit_error) result \<Rightarrow>
     delivery_event" where
  "custody_event key (Ok t) = CustodyEvent key t"
| "custody_event _ (Err _) = NoEvent"

fun buffered_event :: "delivery_flow_key \<Rightarrow> exposed_message \<Rightarrow>
     (receive_outcome, delivery_operation_error) result \<Rightarrow> delivery_event" where
  "buffered_event key x (Ok (Buffered _)) = BufferedEvent key x"
| "buffered_event _ _ _ = NoEvent"

fun exposed_event :: "delivery_flow_key \<Rightarrow> (exposed_message option, delivery_operation_error) result \<Rightarrow>
     delivery_event" where
  "exposed_event key (Ok (Some x)) = ExposedEvent key x"
| "exposed_event _ _ = NoEvent"

abbreviation seen_as :: "('r \<Rightarrow> delivery_event) \<Rightarrow> ('r \<times> delivery_endpoint) exec \<Rightarrow>
     (delivery_event \<times> delivery_endpoint) exec" where
  "seen_as ev \<equiv> map_option (map_prod ev id)"

fun delivery_apply :: "delivery_endpoint \<Rightarrow> delivery_call \<Rightarrow> (delivery_event \<times> delivery_endpoint) exec" where
  "delivery_apply ep (CallEstablish k m p l) = seen_as (established_event k) (establish_flow ep k m p l)"
| "delivery_apply ep (CallAssociate k s l) = seen_as (\<lambda>_. NoEvent) (associate_flow_with_session ep k s l)"
| "delivery_apply ep (CallSubmit k p) = seen_as (submit_event k) (submit ep k p)"
| "delivery_apply ep (CallCommit k i) = seen_as (custody_event k) (commit_outbound_custody ep k i)"
| "delivery_apply ep (CallReceive k t) = seen_as (buffered_event k (expose t)) (receive ep k t)"
| "delivery_apply ep (CallReceivePayload k i p) =
     seen_as (buffered_event k \<lparr>em_accepted_index = i, em_payload = p\<rparr>)
       (receive_transport_payload ep k i p)"
| "delivery_apply ep (CallPoll k) = seen_as (exposed_event k) (poll_exposure ep k)"
| "delivery_apply ep (CallTerminate k r) = seen_as (\<lambda>_. NoEvent) (terminate_flow ep k r)"
| "delivery_apply ep (CallFailCustody k) = seen_as (\<lambda>_. NoEvent) (fail_reliable_custody ep k)"
| "delivery_apply ep (CallTerminateConnection c) = seen_as (\<lambda>_. NoEvent) (terminate_connection ep c)"

definition delivery_step :: "delivery_endpoint \<Rightarrow> delivery_call \<Rightarrow> delivery_endpoint exec" where
  "delivery_step ep x = map_option snd (delivery_apply ep x)"

fun delivery_trace ::
  "delivery_endpoint \<Rightarrow> delivery_call list \<Rightarrow> (delivery_event list \<times> delivery_endpoint) exec" where
  "delivery_trace ep [] = Some ([], ep)"
| "delivery_trace ep (x # xs) = do {
     (e, ep1) \<leftarrow> delivery_apply ep x;
     (es, ep2) \<leftarrow> delivery_trace ep1 xs;
     Some (e # es, ep2) }"

lemma delivery_apply_ok:
  assumes "endpoint_ok lim ep"
  shows "\<exists>e ep'. delivery_apply ep x = Some (e, ep') \<and> endpoint_ok lim ep'"
proof (cases x)
  case (CallEstablish k m p l)
  then show ?thesis using establish_flow_ok[OF assms, of k m p l] assms by auto
next
  case (CallAssociate k s l)
  then show ?thesis using associate_flow_ok[OF assms, of k s l] assms by auto
next
  case (CallSubmit k p)
  then show ?thesis using submit_total[OF assms, of k p] by auto
next
  case (CallCommit k i)
  then show ?thesis using commit_outbound_custody_ok[OF assms, of k i] by auto
next
  case (CallReceive k t)
  then show ?thesis using receive_total[OF assms, of k t] by auto
next
  case (CallReceivePayload k i p)
  then show ?thesis using receive_transport_payload_total[OF assms, of k i p] by auto
next
  case (CallPoll k)
  then show ?thesis using poll_total[OF assms, of k] by auto
next
  case (CallTerminate k r)
  then show ?thesis using terminate_flow_ok[OF assms, of k r] by auto
next
  case (CallFailCustody k)
  then show ?thesis
    using terminate_flow_ok[OF assms, of k ReliableCustodyLost] assms
    by (auto simp: fail_reliable_custody_def split: option.splits)
next
  case (CallTerminateConnection c)
  then show ?thesis using terminate_connection_ok[OF assms, of c] by auto
qed

interpretation delivery_machine: guarded_machine delivery_step "endpoint_ok lim" "\<lambda>_. True" for lim
  by unfold_locales (use delivery_apply_ok in \<open>fastforce simp: delivery_step_def\<close>)

end
