(* ===== verification/Delivery_Channels.thy ===== *)
theory Delivery_Channels
  imports Delivery_Safety
begin

text \<open>
  The abstract contract of one flow: a channel, with a step relation that says which messages may
  be accepted, handed to custody, buffered and exposed. The endpoint refines it for every flow at
  once: a call on one flow is a step of that channel and no step, or a disappearance, of the others.
  The locale \<open>counting_stream\<close> turns a cursor of the channel into a statement about whole traces.
\<close>

section \<open>Channels\<close>

record channel =
  ch_mode :: delivery_mode
  ch_next :: "u64 option"
  ch_out :: "delivery_transfer list"
  ch_in :: receiver_buffer

definition channel_of :: "flow_state \<Rightarrow> channel" where
  "channel_of f = \<lparr>ch_mode = fl_mode f, ch_next = fl_next_accepted_index f, ch_out = fl_outbound f,
     ch_in = fl_receiver f\<rparr>"

definition channel_at :: "delivery_flow_key \<Rightarrow> delivery_endpoint \<Rightarrow> channel option" where
  "channel_at k ep = map_option channel_of (fmlookup (de_flows ep) k)"

datatype channel_event = Quiet | Opens | Accepts u64 | Custody delivery_transfer
  | Buffers exposed_message | Exposes exposed_message

fun local_event :: "delivery_flow_key \<Rightarrow> delivery_event \<Rightarrow> channel_event" where
  "local_event k NoEvent = Quiet"
| "local_event k (EstablishedEvent k') = (if k' = k then Opens else Quiet)"
| "local_event k (AcceptedEvent k' i) = (if k' = k then Accepts i else Quiet)"
| "local_event k (CustodyEvent k' t) = (if k' = k then Custody t else Quiet)"
| "local_event k (BufferedEvent k' x) = (if k' = k then Buffers x else Quiet)"
| "local_event k (ExposedEvent k' x) = (if k' = k then Exposes x else Quiet)"

inductive channel_step :: "channel option \<Rightarrow> channel_event \<Rightarrow> channel option \<Rightarrow> bool" where
  idle: "channel_step c Quiet c"
| closed: "channel_step c Quiet None"
| opened: "channel_step None Opens (Some (channel_of (flow_new mode policy)))"
| accept: "ch_next c = Some i \<Longrightarrow> d \<le> length (ch_out c) \<Longrightarrow> 0 < d \<longrightarrow> ch_mode c \<noteq> ReliableOrdered \<Longrightarrow>
    c' = c\<lparr>ch_next := u64_checked_add i 1, ch_out := drop d (ch_out c)
       @ [\<lparr>dt_mode = ch_mode c, dt_accepted_index = i, dt_payload = p\<rparr>]\<rparr> \<Longrightarrow>
    channel_step (Some c) (Accepts i) (Some c')"
| drain_out: "ch_mode c \<noteq> ReliableOrdered \<Longrightarrow> channel_step (Some c) Quiet (Some (c\<lparr>ch_out := []\<rparr>))"
| custody: "ch_out c = t # ts \<Longrightarrow> channel_step (Some c) (Custody t) (Some (c\<lparr>ch_out := ts\<rparr>))"
| buffer_reliable: "ch_in c = Reliable m n \<Longrightarrow> fmlookup m (dt_accepted_index t) = None \<Longrightarrow>
    index_frontier n \<le> unat (dt_accepted_index t) \<Longrightarrow>
    channel_step (Some c) (Buffers (expose t))
      (Some (c\<lparr>ch_in := Reliable (fmupd (dt_accepted_index t) t m) n\<rparr>))"
| buffer_unreliable: "ch_in c = Unreliable q seen \<Longrightarrow> d \<le> length q \<Longrightarrow>
    ch_mode c = UnreliableSequenced \<longrightarrow> \<not> stale_for seen (dt_accepted_index t) \<Longrightarrow>
    channel_step (Some c) (Buffers (expose t))
      (Some (c\<lparr>ch_in := Unreliable (drop d q @ [t]) seen\<rparr>))"
| drain_in: "ch_in c = Unreliable q seen \<Longrightarrow>
    channel_step (Some c) Quiet (Some (c\<lparr>ch_in := Unreliable [] seen\<rparr>))"
| expose_reliable: "ch_in c = Reliable m (Some n) \<Longrightarrow> fmlookup m n = Some t \<Longrightarrow>
    em_accepted_index (expose t) = n \<Longrightarrow>
    channel_step (Some c) (Exposes (expose t))
      (Some (c\<lparr>ch_in := Reliable (fmdrop n m) (u64_checked_add n 1)\<rparr>))"
| expose_unreliable: "ch_in c = Unreliable q seen \<Longrightarrow> d < length q \<Longrightarrow> x = expose (q ! d) \<Longrightarrow>
    (ch_mode c = UnreliableSequenced \<longrightarrow> \<not> stale_for seen (em_accepted_index x)) \<Longrightarrow>
    seen' = (if ch_mode c = UnreliableSequenced then Some (em_accepted_index x) else seen) \<Longrightarrow>
    channel_step (Some c) (Exposes x) (Some (c\<lparr>ch_in := Unreliable (drop (Suc d) q) seen'\<rparr>))"

inductive_cases channel_step_NoneE: "channel_step None e c'"
inductive_cases channel_step_SomeE: "channel_step (Some c) e c'"

section \<open>The endpoint refines the channels\<close>

lemma channel_at_other:
  "de_flows ep' = fmupd key f (de_flows ep) \<Longrightarrow> k \<noteq> key \<Longrightarrow> channel_at k ep' = channel_at k ep"
  "de_flows ep' = fmdrop key (de_flows ep) \<Longrightarrow> k \<noteq> key \<Longrightarrow> channel_at k ep' = channel_at k ep"
  by (simp_all add: channel_at_def)

lemma channel_at_upd:
  "de_flows ep' = fmupd k f (de_flows ep) \<Longrightarrow> channel_at k ep' = Some (channel_of f)"
  by (simp add: channel_at_def)

lemma channel_at_drop: "de_flows ep' = fmdrop k (de_flows ep) \<Longrightarrow> channel_at k ep' = None"
  by (simp add: channel_at_def)

lemma channel_at_same: "de_flows ep' = de_flows ep \<Longrightarrow> channel_at k ep' = channel_at k ep"
  by (simp add: channel_at_def)

lemma channel_at_Some: "fmlookup (de_flows ep) k = Some f \<Longrightarrow> channel_at k ep = Some (channel_of f)"
  by (simp add: channel_at_def)

lemma channel_of_sel [simp]:
  "ch_mode (channel_of f) = fl_mode f" "ch_next (channel_of f) = fl_next_accepted_index f"
  "ch_out (channel_of f) = fl_outbound f" "ch_in (channel_of f) = fl_receiver f"
  by (simp_all add: channel_of_def)

lemma channel_eqI:
  "ch_mode c = ch_mode (c' :: channel) \<Longrightarrow> ch_next c = ch_next c' \<Longrightarrow> ch_out c = ch_out c' \<Longrightarrow>
     ch_in c = ch_in c' \<Longrightarrow> c = c'"
  by simp

lemma step_moved_other:
  assumes "de_flows ep' = fmupd key f (de_flows ep)" "k \<noteq> key"
  shows "channel_step (channel_at k ep) Quiet (channel_at k ep')"
  using channel_at_other(1)[OF assms] by (simp add: channel_step.idle)

text \<open>One flow changes; its own channel steps, the others stay.\<close>

lemma step_upd:
  assumes "fmlookup (de_flows ep) key = Some f" "de_flows ep' = fmupd key f' (de_flows ep)"
    and "channel_step (Some (channel_of f)) (local_event key e) (Some (channel_of f'))"
    and "\<And>k. k \<noteq> key \<Longrightarrow> local_event k e = Quiet"
  shows "channel_step (channel_at k ep) (local_event k e) (channel_at k ep')"
proof (cases "k = key")
  case True
  then show ?thesis using assms(3) channel_at_Some[OF assms(1)] channel_at_upd[OF assms(2)]
    by simp
next
  case False
  then show ?thesis using step_moved_other[OF assms(2) False] assms(4)[OF False] by simp
qed

lemma step_drop:
  assumes "de_flows ep' = fmdrop key (de_flows ep)"
  shows "channel_step (channel_at k ep) Quiet (channel_at k ep')"
  using channel_at_drop[OF assms] channel_at_other(2)[OF assms, of k]
  by (cases "k = key") (simp_all add: channel_step.idle channel_step.closed)

lemma step_same:
  "de_flows ep' = de_flows ep \<Longrightarrow> channel_step (channel_at k ep) Quiet (channel_at k ep')"
  using channel_at_same[of ep' ep k] by (simp add: channel_step.idle)

lemma submit_step:
  assumes "endpoint_ok lim ep" "submit ep key payload = Some (r, ep')"
  shows "channel_step (channel_at k ep) (local_event k (submit_event key r)) (channel_at k ep')"
proof (cases "\<exists>f. fmlookup (de_flows ep) key = Some f \<and> fk_direction key = Outbound")
  case False
  then have "ep' = ep \<and> (\<exists>e. r = Err e)"
    using assms(2) by (auto simp: submit_def split: option.splits)
  then show ?thesis using step_same by auto
next
  case True
  then obtain f where f: "fmlookup (de_flows ep) key = Some f" "fk_direction key = Outbound" by blast
  obtain r' where r': "r = Ok r'" and p: "submit_promise key f payload r' ep ep'"
    using submit_ok[OF assms(1) f, of payload] assms(2) by auto
  show ?thesis
  proof (cases r')
    case (Accepted i d)
    obtain f' where f': "de_flows ep' = fmupd key f' (de_flows ep)"
      "fl_outbound f' = drop d (fl_outbound f)
         @ [\<lparr>dt_mode = fl_mode f, dt_accepted_index = i, dt_payload = payload\<rparr>]"
      "fl_next_accepted_index f' = u64_checked_add i 1" "fl_mode f' = fl_mode f"
      "fl_receiver f' = fl_receiver f"
      and c: "fl_next_accepted_index f = Some i" "d \<le> length (fl_outbound f)"
        "0 < d \<longrightarrow> fl_mode f \<noteq> ReliableOrdered"
      using p Accepted by (auto simp: submit_promise_def)
    have "channel_step (Some (channel_of f)) (Accepts i) (Some (channel_of f'))"
      by (rule channel_step.accept[of _ _ d _ payload]) (use f' c in \<open>auto simp: channel_of_def\<close>)
    then show ?thesis
      unfolding r' Accepted by (intro step_upd[OF f(1) f'(1)]) auto
  next
    case RejectedPressure
    show ?thesis
    proof (cases "fp_outbound_pressure (fl_policy f) = RejectNew")
      case True
      then show ?thesis using p RejectedPressure r' step_same by (auto simp: submit_promise_def)
    next
      case False
      then obtain f' where f': "de_flows ep' = fmupd key f' (de_flows ep)" "fl_outbound f' = []"
        "outbound_kept f' = outbound_kept f" "fl_mode f \<noteq> ReliableOrdered"
        using p RejectedPressure by (auto simp: submit_promise_def moved_def)
      have "channel_of f' = (channel_of f)\<lparr>ch_out := []\<rparr>"
        using f'(2,3) by (auto simp: outbound_kept_def channel_of_def)
      then have "channel_step (Some (channel_of f)) Quiet (Some (channel_of f'))"
        using f'(4) by (simp add: channel_step.drain_out)
      then show ?thesis unfolding r' RejectedPressure by (intro step_upd[OF f(1) f'(1)]) auto
    qed
  qed (use p r' step_same in \<open>auto simp: submit_promise_def\<close>)
qed

lemma commit_step:
  assumes "endpoint_ok lim ep" "commit_outbound_custody ep key i = Some (r, ep')"
  shows "channel_step (channel_at k ep) (local_event k (custody_event key r)) (channel_at k ep')"
proof (cases r)
  case (Err e)
  then have "ep' = ep" using commit_outbound_custody_ok[OF assms(1), of key i] assms(2) by auto
  then show ?thesis using Err step_same by simp
next
  case (Ok t)
  then obtain f ts where f: "fmlookup (de_flows ep) key = Some f" "fl_outbound f = t # ts"
    "moved key (sub_flow_pending 1 (payload_len t) (f\<lparr>fl_outbound := ts\<rparr>)) ep ep'"
    using commit_outbound_custody_ok[OF assms(1), of key i] assms(2) by auto
  let ?f' = "sub_flow_pending 1 (payload_len t) (f\<lparr>fl_outbound := ts\<rparr>)"
  have "channel_of ?f' = (channel_of f)\<lparr>ch_out := ts\<rparr>"
    by (simp add: channel_of_def sub_flow_pending_def)
  then have "channel_step (Some (channel_of f)) (Custody t) (Some (channel_of ?f'))"
    using f(2) by (simp add: channel_step.custody)
  moreover have "de_flows ep' = fmupd key ?f' (de_flows ep)" using f(3) by (simp add: moved_def)
  ultimately show ?thesis unfolding Ok by (intro step_upd[OF f(1)]) auto
qed

lemma buffered_step:
  assumes "fmlookup (de_flows ep) key = Some f"
    and "receive_promise key f t (Buffered drops) ep ep'"
  shows "channel_step (channel_at k ep) (local_event k (BufferedEvent key (expose t))) (channel_at k ep')"
proof (cases "fl_receiver f")
  case (Reliable m n)
  let ?f' = "add_flow_pending 1 (payload_len t)
      (f\<lparr>fl_receiver := Reliable (fmupd (dt_accepted_index t) t m) n\<rparr>)"
  have p: "fmlookup m (dt_accepted_index t) = None" "index_frontier n \<le> unat (dt_accepted_index t)"
    "de_flows ep' = fmupd key ?f' (de_flows ep)"
    using assms(2) Reliable by (simp_all add: receive_promise_def moved_def)
  have "channel_of ?f' = (channel_of f)\<lparr>ch_in := Reliable (fmupd (dt_accepted_index t) t m) n\<rparr>"
    by (simp add: channel_of_def add_flow_pending_def)
  then have "channel_step (Some (channel_of f)) (Buffers (expose t)) (Some (channel_of ?f'))"
    using channel_step.buffer_reliable[of "channel_of f" m n t] Reliable p by simp
  then show ?thesis
    using step_upd[OF assms(1) p(3), of "BufferedEvent key (expose t)" k] by simp
next
  case (Unreliable q seen)
  obtain f' where p: "drops \<le> length q" "de_flows ep' = fmupd key f' (de_flows ep)"
    "fl_mode f = UnreliableSequenced \<longrightarrow> \<not> stale_for seen (dt_accepted_index t)"
    "fl_receiver f' = Unreliable (drop drops q @ [t]) seen" "inbound_kept f' = inbound_kept f"
    using assms(2) Unreliable by (auto simp: receive_promise_def)
  have "channel_of f' = (channel_of f)\<lparr>ch_in := Unreliable (drop drops q @ [t]) seen\<rparr>"
    using p(4,5) by (simp add: channel_of_def inbound_kept_def)
  then have "channel_step (Some (channel_of f)) (Buffers (expose t)) (Some (channel_of f'))"
    using channel_step.buffer_unreliable[of "channel_of f" q seen drops t] Unreliable p by simp
  then show ?thesis using step_upd[OF assms(1) p(2), of "BufferedEvent key (expose t)" k] by simp
qed

lemma dropped_step:
  assumes "fmlookup (de_flows ep) key = Some f"
    and "receive_promise key f t (DroppedByPressure drops) ep ep'"
  shows "channel_step (channel_at k ep) Quiet (channel_at k ep')"
proof (cases "fl_receiver f")
  case (Reliable m n)
  then show ?thesis using assms(2) by (simp add: receive_promise_def)
next
  case (Unreliable q seen)
  show ?thesis
  proof (cases "fp_receiver_pressure (fl_policy f) = DropIncomingUnreliable")
    case True
    then show ?thesis using assms(2) Unreliable step_same by (simp add: receive_promise_def)
  next
    case False
    then obtain f' where p: "de_flows ep' = fmupd key f' (de_flows ep)"
      "fl_receiver f' = Unreliable [] seen" "inbound_kept f' = inbound_kept f"
      using assms(2) Unreliable by (auto simp: receive_promise_def)
    have "channel_of f' = (channel_of f)\<lparr>ch_in := Unreliable [] seen\<rparr>"
      using p(2,3) by (simp add: channel_of_def inbound_kept_def)
    then have "channel_step (Some (channel_of f)) Quiet (Some (channel_of f'))"
      using channel_step.drain_in[of "channel_of f" q seen] Unreliable by simp
    then show ?thesis using step_upd[OF assms(1) p(1), of NoEvent k] by simp
  qed
qed

lemma receive_step:
  assumes "endpoint_ok lim ep" "receive ep key t = Some (r, ep')"
  shows "channel_step (channel_at k ep) (local_event k (buffered_event key (expose t) r)) (channel_at k ep')"
proof (cases "\<exists>f. fmlookup (de_flows ep) key = Some f \<and> fk_direction key = Inbound")
  case False
  then have "ep' = ep \<and> (\<exists>e. r = Err e)" using assms(2) by (auto simp: receive_def split: option.splits if_splits)
  then show ?thesis using step_same by auto
next
  case True
  then obtain f where f: "fmlookup (de_flows ep) key = Some f" "fk_direction key = Inbound" by blast
  obtain r' where r: "r = Ok r'" and p: "receive_promise key f t r' ep ep'"
    using receive_ok[OF assms(1) f, of t] assms(2) by auto
  show ?thesis
  proof (cases r')
    case (Buffered d)
    then show ?thesis using buffered_step[OF f(1), of t d ep' k] p r by simp
  next
    case (DroppedByPressure d)
    then show ?thesis using dropped_step[OF f(1), of t d ep' k] p r by simp
  next
    case TerminalReliableFailure
    then show ?thesis using p r step_drop by (auto simp: receive_promise_def dropped_def)
  qed (use p r in \<open>auto simp: receive_promise_def intro!: step_same\<close>)
qed

lemma poll_step:
  assumes "endpoint_ok lim ep" "poll_exposure ep key = Some (r, ep')"
  shows "channel_step (channel_at k ep) (local_event k (exposed_event key r)) (channel_at k ep')"
proof (cases "\<exists>f. fmlookup (de_flows ep) key = Some f \<and> fk_direction key = Inbound")
  case False
  then have "ep' = ep \<and> (\<exists>e. r = Err e)"
    using assms(2) by (auto simp: poll_exposure_def split: option.splits if_splits)
  then show ?thesis using step_same by auto
next
  case True
  then obtain f where f: "fmlookup (de_flows ep) key = Some f" "fk_direction key = Inbound" by blast
  obtain x where r: "r = Ok x" and p: "poll_promise key f x ep ep'"
    using poll_ok[OF assms(1) f] assms(2) by auto
  show ?thesis
  proof (cases "fl_receiver f")
    case (Reliable m nx)
    show ?thesis
    proof (cases x)
      case None
      then show ?thesis using p Reliable r step_same by (simp add: poll_promise_def)
    next
      case (Some y)
      then obtain n t where y: "nx = Some n" "fmlookup m n = Some t" "y = expose t"
        "em_accepted_index y = n" "moved key (sub_flow_pending 1 (payload_len t)
            (f\<lparr>fl_receiver := Reliable (fmdrop n m) (u64_checked_add n 1)\<rparr>)) ep ep'"
        using p Reliable by (auto simp: poll_promise_def)
      let ?f' = "sub_flow_pending 1 (payload_len t)
          (f\<lparr>fl_receiver := Reliable (fmdrop n m) (u64_checked_add n 1)\<rparr>)"
      have "channel_of ?f' = (channel_of f)\<lparr>ch_in := Reliable (fmdrop n m) (u64_checked_add n 1)\<rparr>"
        by (simp add: channel_of_def sub_flow_pending_def)
      then have "channel_step (Some (channel_of f)) (Exposes y) (Some (channel_of ?f'))"
        using channel_step.expose_reliable[of "channel_of f" m n t] Reliable y by simp
      moreover have "de_flows ep' = fmupd key ?f' (de_flows ep)" using y(5) by (simp add: moved_def)
      ultimately show ?thesis unfolding r Some by (intro step_upd[OF f(1)]) auto
    qed
  next
    case (Unreliable q seen)
    then obtain n f' where q: "de_flows ep' = fmupd key f' (de_flows ep)"
      and kept: "fl_mode f' = fl_mode f"
      and out: "case x of None \<Rightarrow> n = length q \<and> fl_receiver f' = Unreliable [] seen
                | Some y \<Rightarrow> n < length q \<and> y = expose (q ! n)
                    \<and> (fl_mode f = UnreliableSequenced \<longrightarrow> \<not> stale_for seen (em_accepted_index y))
                    \<and> fl_receiver f' = Unreliable (drop (Suc n) q)
                        (if fl_mode f = UnreliableSequenced then Some (em_accepted_index y) else seen)"
      using p by (auto simp: poll_promise_def)
    have "flow_ok key f" "flow_ok key f'"
      using endpoint_okD(2)[OF assms(1) f(1)] poll_ok[OF assms(1) f] assms(2) q
      by (auto simp: endpoint_ok_def)
    then have same: "fl_next_accepted_index f' = fl_next_accepted_index f" "fl_outbound f' = fl_outbound f"
      using f(2) by (simp_all add: flow_ok_def flow_side_def)
    show ?thesis
    proof (cases x)
      case None
      have "channel_of f' = (channel_of f)\<lparr>ch_in := Unreliable [] seen\<rparr>"
        using out None same kept by (simp add: channel_of_def)
      then have "channel_step (Some (channel_of f)) Quiet (Some (channel_of f'))"
        using channel_step.drain_in[of "channel_of f" q seen] Unreliable by simp
      then show ?thesis unfolding r None by (intro step_upd[OF f(1) q]) auto
    next
      case (Some y)
      let ?seen = "if fl_mode f = UnreliableSequenced then Some (em_accepted_index y) else seen"
      have "channel_of f' = (channel_of f)\<lparr>ch_in := Unreliable (drop (Suc n) q) ?seen\<rparr>"
        using out Some same kept by (simp add: channel_of_def)
      then have "channel_step (Some (channel_of f)) (Exposes y) (Some (channel_of f'))"
        using channel_step.expose_unreliable[of "channel_of f" q seen n y ?seen] Unreliable out Some
        by (cases "fl_mode f = UnreliableSequenced") auto
      then show ?thesis unfolding r Some by (intro step_upd[OF f(1) q]) auto
    qed
  qed
qed

lemma delivery_apply_step:
  assumes "endpoint_ok lim ep" "delivery_apply ep x = Some (e, ep')"
  shows "channel_step (channel_at k ep) (local_event k e) (channel_at k ep')"
proof (cases x)
  case (CallEstablish key m p l)
  then show ?thesis
    using establish_flow_ok[OF assms(1), of key m p l] assms(2)
    by (cases "k = key")
      (auto simp: moved_def channel_at_def intro!: channel_step.idle channel_step.opened)
next
  case (CallAssociate key s l)
  then show ?thesis
    using associate_flow_ok[OF assms(1), of key s l] assms(2)
    by (cases "k = key") (auto simp: moved_def channel_at_def channel_of_def intro: channel_step.idle)
next
  case (CallSubmit key p)
  then show ?thesis using submit_step[OF assms(1), of key p] assms(2) by auto
next
  case (CallCommit key i)
  then show ?thesis using commit_step[OF assms(1), of key i] assms(2) by auto
next
  case (CallReceive key t)
  then show ?thesis using receive_step[OF assms(1), of key t] assms(2) by auto
next
  case (CallReceivePayload key i p)
  let ?x = "\<lparr>em_accepted_index = i, em_payload = p\<rparr>"
  obtain r where r: "receive_transport_payload ep key i p = Some (r, ep')"
    and e: "e = buffered_event key ?x r"
    using CallReceivePayload assms(2) by auto
  then consider (refused) err where "ep' = ep" "r = Err err"
    | (received) t where "receive ep key t = Some (r, ep')" "expose t = ?x"
    by (force simp: receive_transport_payload_def expose_def split: option.splits if_splits)
  then show ?thesis
  proof cases
    case refused
    then show ?thesis using e step_same by simp
  next
    case received
    then show ?thesis using e receive_step[OF assms(1) received(1), of k] by simp
  qed
next
  case (CallPoll key)
  then show ?thesis using poll_step[OF assms(1), of key] assms(2) by auto
next
  case (CallTerminate key reason)
  then show ?thesis using terminate_flow_ok[OF assms(1), of key reason] assms(2) step_drop by auto
next
  case (CallFailCustody key)
  then have e: "e = NoEvent" using assms(2) by auto
  have "ep' = ep \<or> (\<exists>r. terminate_flow ep key ReliableCustodyLost = Some (r, ep'))"
    using CallFailCustody assms(2)
    by (auto simp: fail_reliable_custody_def split: option.splits if_splits)
  then show ?thesis
  proof
    assume "ep' = ep"
    then show ?thesis using e step_same by simp
  next
    assume "\<exists>r. terminate_flow ep key ReliableCustodyLost = Some (r, ep')"
    then show ?thesis
      using e terminate_flow_ok[OF assms(1), of key ReliableCustodyLost] step_drop by auto
  qed
next
  case (CallTerminateConnection c)
  then have "de_flows ep' = fmfilter (\<lambda>k. fk_connection k \<noteq> c) (de_flows ep)" "e = NoEvent"
    using terminate_connection_ok[OF assms(1), of c] assms(2) by auto
  then show ?thesis
    by (cases "fk_connection k = c")
      (auto simp: channel_at_def intro: channel_step.idle channel_step.closed)
qed

section \<open>Streams\<close>

text \<open>
  \<open>pick\<close> selects the index an event carries, \<open>cursor\<close> is a position in the channel: every picked
  index is at or after the cursor, which then stands right after it; other steps leave the cursor.
\<close>

definition picks :: "(channel_event \<Rightarrow> u64 option) \<Rightarrow> delivery_flow_key \<Rightarrow> delivery_event list \<Rightarrow> u64 list"
  where "picks pick k es = List.map_filter (\<lambda>e. pick (local_event k e)) es"

lemma picks_Nil [simp]: "picks pick k [] = []"
  by (simp add: picks_def List.map_filter_def)

lemma picks_Cons [simp]:
  "picks pick k (e # es) =
     (case pick (local_event k e) of None \<Rightarrow> picks pick k es | Some i \<Rightarrow> i # picks pick k es)"
  by (simp add: picks_def List.map_filter_def split: option.splits)

locale cursor_stream =
  fixes pick :: "channel_event \<Rightarrow> u64 option"
    and cursor :: "channel \<Rightarrow> nat"
    and good :: "channel \<Rightarrow> bool"
  assumes pick_quiet: "pick Quiet = None"
    and step_quiet: "good c \<Longrightarrow> channel_step (Some c) e (Some c') \<Longrightarrow> pick e = None \<Longrightarrow>
      good c' \<and> cursor c' = cursor c"
    and step_pick: "good c \<Longrightarrow> channel_step (Some c) e (Some c') \<Longrightarrow> pick e = Some i \<Longrightarrow>
      good c' \<and> cursor c \<le> unat i \<and> cursor c' = Suc (unat i)"
begin

lemma gone_stays:
  assumes "endpoint_ok lim ep" "delivery_trace ep xs = Some (es, ep')"
    and "EstablishedEvent k \<notin> set es" "channel_at k ep = None"
  shows "picks pick k es = [] \<and> channel_at k ep' = None"
  using assms
proof (induction xs arbitrary: ep es)
  case Nil
  then show ?case by simp
next
  case (Cons x xs)
  obtain e ep1 es' where s: "delivery_apply ep x = Some (e, ep1)" "delivery_trace ep1 xs = Some (es', ep')"
    "es = e # es'" "endpoint_ok lim ep1"
    using Cons.prems(2) delivery_apply_ok[OF Cons.prems(1), of x]
    by (auto simp: bind_eq_Some_conv)
  have st: "channel_step None (local_event k e) (channel_at k ep1)"
    using delivery_apply_step[OF Cons.prems(1) s(1), of k] Cons.prems(4) by simp
  have "local_event k e \<noteq> Opens" using Cons.prems(3) s(3) by (cases e) auto
  then have "local_event k e = Quiet" "channel_at k ep1 = None"
    using st by (auto elim: channel_step_NoneE)
  then show ?case
    using Cons.IH[OF s(4,2)] Cons.prems(3) s(3) pick_quiet by simp
qed

lemma trace_sorted:
  assumes "endpoint_ok lim ep" "delivery_trace ep xs = Some (es, ep')"
    and "EstablishedEvent k \<notin> set es" "channel_at k ep = Some c" "good c"
  shows "sorted_wrt (<) (picks pick k es) \<and> (\<forall>i \<in> set (picks pick k es). cursor c \<le> unat i)"
  using assms
proof (induction xs arbitrary: ep es c)
  case Nil
  then show ?case by simp
next
  case (Cons x xs)
  obtain e ep1 es' where s: "delivery_apply ep x = Some (e, ep1)" "delivery_trace ep1 xs = Some (es', ep')"
    "es = e # es'" "endpoint_ok lim ep1"
    using Cons.prems(2) delivery_apply_ok[OF Cons.prems(1), of x]
    by (auto simp: bind_eq_Some_conv)
  have st: "channel_step (Some c) (local_event k e) (channel_at k ep1)"
    using delivery_apply_step[OF Cons.prems(1) s(1), of k] Cons.prems(4) by simp
  have fresh: "EstablishedEvent k \<notin> set es'" using Cons.prems(3) s(3) by simp
  show ?case
  proof (cases "channel_at k ep1")
    case None
    then have "local_event k e = Quiet" using st by (auto elim: channel_step_SomeE)
    then show ?thesis using gone_stays[OF s(4,2) fresh None] s(3) pick_quiet by simp
  next
    case (Some c1)
    note st = st[unfolded Some]
    show ?thesis
    proof (cases "pick (local_event k e)")
      case None
      then show ?thesis
        using step_quiet[OF Cons.prems(5) st None] Cons.IH[OF s(4,2) fresh Some] s(3) by simp
    next
      case (Some i)
      have p: "good c1" "cursor c \<le> unat i" "cursor c1 = Suc (unat i)"
        using step_pick[OF Cons.prems(5) st Some] by auto
      have "sorted_wrt (<) (picks pick k es')" "\<forall>j \<in> set (picks pick k es'). unat i < unat j"
        using Cons.IH[OF s(4,2) fresh \<open>channel_at k ep1 = Some c1\<close> p(1)] p(3) by auto
      moreover from this(2) have "\<forall>j \<in> set (picks pick k es'). i < j" by (simp add: word_less_nat_alt)
      ultimately show ?thesis using p(2) Some s(3) by (auto intro: order.trans less_imp_le)
    qed
  qed
qed

end

text \<open>When the picked index is the cursor itself, the stream has no gaps.\<close>

locale counting_stream = cursor_stream +
  assumes step_exact: "good c \<Longrightarrow> channel_step (Some c) e (Some c') \<Longrightarrow> pick e = Some i \<Longrightarrow>
      cursor c = unat i"
begin

lemma trace_counts:
  assumes "endpoint_ok lim ep" "delivery_trace ep xs = Some (es, ep')"
    and "EstablishedEvent k \<notin> set es" "channel_at k ep = Some c" "good c"
  shows "map unat (picks pick k es) = [cursor c ..< cursor c + length (picks pick k es)]"
  using assms
proof (induction xs arbitrary: ep es c)
  case Nil
  then show ?case by simp
next
  case (Cons x xs)
  obtain e ep1 es' where s: "delivery_apply ep x = Some (e, ep1)" "delivery_trace ep1 xs = Some (es', ep')"
    "es = e # es'" "endpoint_ok lim ep1"
    using Cons.prems(2) delivery_apply_ok[OF Cons.prems(1), of x]
    by (auto simp: bind_eq_Some_conv)
  have st: "channel_step (Some c) (local_event k e) (channel_at k ep1)"
    using delivery_apply_step[OF Cons.prems(1) s(1), of k] Cons.prems(4) by simp
  have fresh: "EstablishedEvent k \<notin> set es'" using Cons.prems(3) s(3) by simp
  show ?case
  proof (cases "channel_at k ep1")
    case None
    then have "local_event k e = Quiet" using st by (auto elim: channel_step_SomeE)
    then show ?thesis using gone_stays[OF s(4,2) fresh None] s(3) pick_quiet by simp
  next
    case (Some c1)
    note st = st[unfolded Some]
    show ?thesis
    proof (cases "pick (local_event k e)")
      case None
      then show ?thesis
        using step_quiet[OF Cons.prems(5) st None] Cons.IH[OF s(4,2) fresh Some] s(3) by simp
    next
      case (Some i)
      have "map unat (picks pick k es') = [Suc (cursor c) ..< Suc (cursor c) + length (picks pick k es')]"
        using step_pick[OF Cons.prems(5) st Some] step_exact[OF Cons.prems(5) st Some]
          Cons.IH[OF s(4,2) fresh \<open>channel_at k ep1 = Some c1\<close>] by simp
      then show ?thesis
        using step_exact[OF Cons.prems(5) st Some] Some s(3) by (simp add: upt_rec)
    qed
  qed
qed

end

fun accepted_index :: "channel_event \<Rightarrow> u64 option" where
  "accepted_index (Accepts i) = Some i"
| "accepted_index _ = None"

fun custody_index :: "channel_event \<Rightarrow> u64 option" where
  "custody_index (Custody t) = Some (dt_accepted_index t)"
| "custody_index _ = None"

fun exposed_index :: "channel_event \<Rightarrow> u64 option" where
  "exposed_index (Exposes x) = Some (em_accepted_index x)"
| "exposed_index _ = None"

fun receiver_position :: "receiver_buffer \<Rightarrow> nat" where
  "receiver_position (Reliable _ n) = index_frontier n"
| "receiver_position (Unreliable _ seen) = (case seen of None \<Rightarrow> 0 | Some i \<Rightarrow> Suc (unat i))"

lemma index_frontier_Some [simp]: "index_frontier (Some i) = unat i"
  by (simp add: index_frontier_def)

lemma index_frontier_succ [simp]: "index_frontier (u64_checked_add i 1) = Suc (unat i)"
  using unsigned_less[of i, where ?'a = nat]
  by (cases "u64_checked_add i 1")
    (auto simp: index_frontier_def u64_checked_add_def unat_word_ariths split: if_splits)

interpretation acceptance: counting_stream accepted_index "\<lambda>c. index_frontier (ch_next c)" "\<lambda>_. True"
  by unfold_locales (auto elim!: channel_step_SomeE)

interpretation custody: counting_stream custody_index
  "\<lambda>c. index_frontier (ch_next c) - length (ch_out c)"
  "\<lambda>c. ch_mode c = ReliableOrdered \<and> outbound_window (ch_next c) (ch_out c)"
proof
  fix c c' :: channel and e
  assume c: "ch_mode c = ReliableOrdered \<and> outbound_window (ch_next c) (ch_out c)"
    and st: "channel_step (Some c) e (Some c')"
  show "custody_index e = None \<Longrightarrow>
      (ch_mode c' = ReliableOrdered \<and> outbound_window (ch_next c') (ch_out c'))
      \<and> index_frontier (ch_next c') - length (ch_out c') = index_frontier (ch_next c) - length (ch_out c)"
    using st c by cases (auto simp: window_push)
  fix i
  assume "custody_index e = Some i"
  then obtain t where e: "e = Custody t" "dt_accepted_index t = i" by (cases e) auto
  then obtain ts where q: "ch_out c = t # ts" "c' = c\<lparr>ch_out := ts\<rparr>"
    using st by (auto elim: channel_step_SomeE)
  have pop: "outbound_window (ch_next c) ts"
    "unat i = index_frontier (ch_next c) - Suc (length ts)"
    using window_pop[of "ch_next c" t ts] c q(1) e(2) by auto
  have len: "Suc (length ts) \<le> index_frontier (ch_next c)"
    using c q(1) by (simp add: outbound_window_def)
  show "(ch_mode c' = ReliableOrdered \<and> outbound_window (ch_next c') (ch_out c'))
      \<and> index_frontier (ch_next c) - length (ch_out c) \<le> unat i
      \<and> index_frontier (ch_next c') - length (ch_out c') = Suc (unat i)"
    and "index_frontier (ch_next c) - length (ch_out c) = unat i"
    using c q pop len by auto
qed simp

interpretation reliable_exposure: counting_stream exposed_index "\<lambda>c. receiver_position (ch_in c)"
  "\<lambda>c. \<exists>m n. ch_in c = Reliable m n"
  by unfold_locales (auto elim!: channel_step_SomeE)

interpretation sequenced_exposure: cursor_stream exposed_index "\<lambda>c. receiver_position (ch_in c)"
  "\<lambda>c. ch_mode c = UnreliableSequenced \<and> (\<exists>q seen. ch_in c = Unreliable q seen)"
  by unfold_locales (auto elim!: channel_step_SomeE simp: stale_for_def word_le_nat_alt not_le
      split: option.splits)

section \<open>Integrity\<close>

text \<open>What a channel can expose was buffered before: \<open>H\<close> is what has been buffered so far.\<close>

definition exposable :: "channel option \<Rightarrow> exposed_message set" where
  "exposable c = (case c of None \<Rightarrow> {} | Some c \<Rightarrow> expose ` receiver_transfers (ch_in c))"

lemma channel_step_exposable:
  assumes "channel_step c e c'"
  shows "exposable c' \<subseteq> exposable c \<union> {x. e = Buffers x}"
    and "e = Exposes x \<Longrightarrow> x \<in> exposable c"
proof -
  show "exposable c' \<subseteq> exposable c \<union> {x. e = Buffers x}"
    using assms
    by cases (auto simp: exposable_def channel_of_def flow_new_def receiver_new_def
        dest: in_set_dropD split: delivery_mode.splits if_splits)
  show "e = Exposes x \<Longrightarrow> x \<in> exposable c"
    using assms by cases (auto simp: exposable_def)
qed

lemma trace_integrity:
  assumes "endpoint_ok lim ep" "delivery_trace ep xs = Some (es, ep')"
    and "es = pre @ ExposedEvent k x # post"
  shows "x \<in> exposable (channel_at k ep) \<or> BufferedEvent k x \<in> set pre"
  using assms
proof (induction xs arbitrary: ep es pre)
  case Nil
  then show ?case by simp
next
  case (Cons y ys)
  obtain e ep1 es' where s: "delivery_apply ep y = Some (e, ep1)" "delivery_trace ep1 ys = Some (es', ep')"
    "es = e # es'" "endpoint_ok lim ep1"
    using Cons.prems(2) delivery_apply_ok[OF Cons.prems(1), of y]
    by (auto simp: bind_eq_Some_conv)
  note st = channel_step_exposable[OF delivery_apply_step[OF Cons.prems(1) s(1), of k]]
  show ?case
  proof (cases pre)
    case Nil
    then have "e = ExposedEvent k x" using Cons.prems(3) s(3) by simp
    then show ?thesis using st(2) by simp
  next
    case (Cons p pre')
    then have eq: "p = e" "es' = pre' @ ExposedEvent k x # post" using Cons.prems(3) s(3) by auto
    have "x \<in> exposable (channel_at k ep1) \<or> BufferedEvent k x \<in> set pre'"
      by (rule Cons.IH[OF s(4,2) eq(2)])
    moreover have "local_event k e = Buffers x \<Longrightarrow> e = BufferedEvent k x"
      by (cases e) (auto split: if_splits)
    ultimately show ?thesis using st(1) Cons eq(1) by auto
  qed
qed

end
