(* ===== verification/Delivery_Contract.thy ===== *)
theory Delivery_Contract
  imports Delivery_Channels
begin

text \<open>
  The properties of the delivery endpoint over whole runs, each with a witness on a concrete run.
  Runs start from an empty endpoint; a flow's stream starts where it is established.
\<close>

section \<open>Vocabulary\<close>

definition endpoint_run :: "delivery_scope_limits \<Rightarrow> delivery_call list \<Rightarrow> delivery_endpoint exec" where
  "endpoint_run l xs = run_ops delivery_step (endpoint_new l) xs"

lemma endpoint_run_ok: "endpoint_run l xs = Some ep \<Longrightarrow> endpoint_ok l ep"
  using delivery_machine.run_preserves[OF endpoint_new_ok, of xs] by (simp add: endpoint_run_def list_all_def)

text \<open>
  \<open>flow_life\<close>: after some run, the flow is established and the following calls are traced up to
  its next establishment at most.
\<close>

definition flow_life ::
  "delivery_scope_limits \<Rightarrow> delivery_call list \<Rightarrow> delivery_flow_key \<Rightarrow> delivery_mode \<Rightarrow>
     flow_resource_policy \<Rightarrow> delivery_scope_limits \<Rightarrow> delivery_call list \<Rightarrow> delivery_event list \<Rightarrow> bool" where
  "flow_life l before k mode policy cl after es \<longleftrightarrow>
     map_option fst (Option.bind (endpoint_run l before)
        (\<lambda>ep. delivery_trace ep (CallEstablish k mode policy cl # after)))
       = Some (EstablishedEvent k # es)
     \<and> EstablishedEvent k \<notin> set es"

lemma flow_lifeE:
  assumes "flow_life l before k mode policy cl after es"
  obtains ep1 ep' where "endpoint_ok l ep1" "delivery_trace ep1 after = Some (es, ep')"
    "EstablishedEvent k \<notin> set es" "channel_at k ep1 = Some (channel_of (flow_new mode policy))"
proof -
  obtain ep where run: "endpoint_run l before = Some ep"
    and tr: "map_option fst (delivery_trace ep (CallEstablish k mode policy cl # after))
      = Some (EstablishedEvent k # es)" and fresh: "EstablishedEvent k \<notin> set es"
    using assms by (auto simp: flow_life_def bind_eq_Some_conv)
  note ok = endpoint_run_ok[OF run]
  obtain ep1 ep' where "establish_flow ep k mode policy cl = Some (Ok (), ep1)"
    "delivery_trace ep1 after = Some (es, ep')"
  proof -
    obtain r e2 where "establish_flow ep k mode policy cl = Some (r, e2)"
      using establish_flow_ok[OF ok, of k mode policy cl] by blast
    then show ?thesis using tr that
      by (cases r) (auto simp: bind_eq_Some_conv)
  qed
  then show ?thesis
    using that establish_flow_ok[OF ok, of k mode policy cl] fresh
    by (auto simp: moved_def channel_at_def)
qed

definition exposed_messages :: "delivery_flow_key \<Rightarrow> delivery_event list \<Rightarrow> exposed_message list" where
  "exposed_messages k es = List.map_filter
     (\<lambda>e. case local_event k e of Exposes x \<Rightarrow> Some x | _ \<Rightarrow> None) es"

definition custody_messages :: "delivery_flow_key \<Rightarrow> delivery_event list \<Rightarrow> exposed_message list" where
  "custody_messages k es = List.map_filter
     (\<lambda>e. case local_event k e of Custody t \<Rightarrow> Some (expose t) | _ \<Rightarrow> None) es"

definition accepted_indices :: "delivery_flow_key \<Rightarrow> delivery_event list \<Rightarrow> u64 list" where
  "accepted_indices k es = picks accepted_index k es"

lemma exposed_messages_indices:
  "map em_accepted_index (exposed_messages k es) = picks exposed_index k es"
  by (induction es) (auto simp: exposed_messages_def List.map_filter_def split: channel_event.splits)

lemma custody_messages_indices:
  "map em_accepted_index (custody_messages k es) = picks custody_index k es"
  by (induction es)
    (auto simp: custody_messages_def List.map_filter_def expose_def split: channel_event.splits)

lemma exposed_messages_set: "x \<in> set (exposed_messages k es) \<longleftrightarrow> ExposedEvent k x \<in> set es"
proof (induction es)
  case Nil
  then show ?case by (simp add: exposed_messages_def List.map_filter_def)
next
  case (Cons e es)
  then show ?case by (cases e) (auto simp: exposed_messages_def List.map_filter_def)
qed

lemma custody_messages_set:
  "x \<in> set (custody_messages k es) \<longleftrightarrow> (\<exists>t. CustodyEvent k t \<in> set es \<and> x = expose t)"
proof (induction es)
  case Nil
  then show ?case by (simp add: custody_messages_def List.map_filter_def)
next
  case (Cons e es)
  then show ?case by (cases e) (auto simp: custody_messages_def List.map_filter_def)
qed

lemma life_exposures:
  assumes "flow_life l before k ReliableOrdered policy cl after es"
  shows "map unat (picks exposed_index k es) = [0..<length (picks exposed_index k es)]"
proof -
  obtain ep1 ep' where "endpoint_ok l ep1" "delivery_trace ep1 after = Some (es, ep')"
    "EstablishedEvent k \<notin> set es" "channel_at k ep1 = Some (channel_of (flow_new ReliableOrdered policy))"
    using flow_lifeE[OF assms] .
  from reliable_exposure.trace_counts[OF this] show ?thesis
    by (simp add: flow_new_def receiver_new_def)
qed

lemma life_custody:
  assumes "flow_life l before k ReliableOrdered policy cl after es"
  shows "map unat (picks custody_index k es) = [0..<length (picks custody_index k es)]"
proof -
  obtain ep1 ep' where "endpoint_ok l ep1" "delivery_trace ep1 after = Some (es, ep')"
    "EstablishedEvent k \<notin> set es" "channel_at k ep1 = Some (channel_of (flow_new ReliableOrdered policy))"
    using flow_lifeE[OF assms] .
  from custody.trace_counts[OF this] show ?thesis
    by (simp add: flow_new_def outbound_window_def)
qed

text \<open>Two lists numbered from 0 whose members agree are prefixes of one another.\<close>

lemma numbered_prefix:
  assumes "map f xs = [0..<length xs]" "map f ys = [0..<length ys]" "set xs \<subseteq> set ys"
  shows "xs = take (length xs) ys"
proof -
  have pos: "f (zs ! j) = j" if "map f zs = [0..<length zs]" "j < length zs" for zs j
    using nth_map[of j zs f] that by simp
  have at: "j < length ys \<and> xs ! j = ys ! j" if j: "j < length xs" for j
  proof -
    obtain i where i: "i < length ys" "ys ! i = xs ! j"
      using assms(3) nth_mem[OF j] by (metis in_set_conv_nth subsetD)
    then have "i = j" using pos[OF assms(1) j] pos[OF assms(2) i(1)] by simp
    then show ?thesis using i by simp
  qed
  then have "length xs \<le> length ys" by (meson not_le_imp_less order_less_irrefl)
  then show ?thesis using at by (intro nth_equalityI) auto
qed

section \<open>A concrete endpoint\<close>

text \<open>A small configuration, on which the witnesses below evaluate the model.\<close>

definition demo_key :: "flow_direction \<Rightarrow> delivery_flow_key" where
  "demo_key d = \<lparr>fk_connection = ConnectionHandle 1, fk_direction = d,
                 fk_handle = DeliveryFlowHandle 7\<rparr>"

definition demo_limits :: delivery_scope_limits where
  "demo_limits = \<lparr>dl_max_active_flows = 4, dl_max_pending_messages = 4,
                 dl_max_pending_payload_bytes = 64\<rparr>"

definition demo_policy ::
  "outbound_pressure_behavior \<Rightarrow> receiver_pressure_behavior \<Rightarrow> flow_resource_policy" where
  "demo_policy ob rb = \<lparr>fp_max_message_bytes = 8, fp_max_pending_messages = 2,
     fp_max_pending_payload_bytes = 10, fp_outbound_pressure = ob, fp_receiver_pressure = rb\<rparr>"

definition demo_reliable :: flow_resource_policy where
  "demo_reliable = demo_policy RejectNew TerminateReliable"

definition demo_evicting :: flow_resource_policy where
  "demo_evicting = demo_policy EvictOldestUnreliable EvictOldestBufferedUnreliable"

definition message_at :: "u64 \<Rightarrow> u8 list \<Rightarrow> exposed_message" where
  "message_at i p = \<lparr>em_accepted_index = i, em_payload = p\<rparr>"

lemmas delivery_eval =
  flow_life_def endpoint_run_def delivery_step_def endpoint_new_def establish_flow_def
  validate_for_mode_def demo_policy_def demo_key_def demo_limits_def demo_reliable_def
  demo_evicting_def message_at_def scope_state_new_def scope_usage_default_def scope_can_add_def
  fits_within_def checked_add_def checked_sub_def usize_max_def saturating_add_def adjust_scope_def
  adjust_entry_def entry_or_new_def scope_add_def scope_remove_def flow_new_def receiver_new_def
  receive_transport_payload_def receive_def payload_len_def receive_reliable_def
  receive_unreliable_def receive_enqueue_def stale_for_def can_add_pending_def
  flow_can_add_pending_def add_pending_def remove_pending_def adjust_pending_def set_flow_def
  poll_exposure_def poll_reliable_exposure_def poll_unordered_exposure_def
  poll_sequenced_exposure.simps expose_def u64_checked_add_def submit_def submit_accept_def
  commit_outbound_custody_def count_outbound_drops_def count_inbound_drops_def count_stale_drop_def
  count_duplicate_def evict_until_fits.simps evict_oldest_outbound_unreliable_def
  evict_oldest_inbound_unreliable_def

section \<open>Safety of every run\<close>

text \<open>
  C1: Whatever calls a host makes on a new delivery endpoint, in any order and with any arguments,
  none of them panics and every eviction and exposure loop ends; afterwards the accounting of
  every scope is exact and every flow is well formed.
\<close>

theorem delivery_run_safe: "\<exists>ep. endpoint_run l xs = Some ep \<and> endpoint_ok l ep"
  using delivery_machine.run_good[OF endpoint_new_ok, of xs]
  by (simp add: endpoint_run_def list_all_def)

section \<open>Streams\<close>

text \<open>
  From the establishment of a reliable flow on, the messages it exposes carry the accepted
  indices 0, 1, 2, ... without a gap, a repetition or a reordering, whatever the transport does.
\<close>

theorem reliable_exposure_in_order:
  assumes "flow_life l before k ReliableOrdered policy cl after es"
  shows "map (\<lambda>x. unat (em_accepted_index x)) (exposed_messages k es)
     = [0..<length (exposed_messages k es)]"
  using life_exposures[OF assms] unfolding exposed_messages_indices[symmetric] by (simp add: comp_def)

theorem reliable_exposure_in_order_witness:
  "map (\<lambda>x. unat (em_accepted_index x)) (exposed_messages (demo_key Inbound)
     [BufferedEvent (demo_key Inbound) (message_at 1 [5]), BufferedEvent (demo_key Inbound) (message_at 0 [4]),
      ExposedEvent (demo_key Inbound) (message_at 0 [4]), ExposedEvent (demo_key Inbound) (message_at 1 [5])])
   = [0, 1]"
proof -
  let ?k = "demo_key Inbound"
  have "flow_life demo_limits [] ?k ReliableOrdered demo_reliable demo_limits
      [CallReceivePayload ?k 1 [5], CallReceivePayload ?k 0 [4], CallPoll ?k, CallPoll ?k]
      [BufferedEvent ?k (message_at 1 [5]), BufferedEvent ?k (message_at 0 [4]),
       ExposedEvent ?k (message_at 0 [4]), ExposedEvent ?k (message_at 1 [5])]"
    by (simp add: delivery_eval)
  from reliable_exposure_in_order[OF this] show ?thesis
    by (simp add: exposed_messages_def List.map_filter_def)
qed

text \<open>
  C30: A sequenced flow exposes messages in strictly increasing index order: an old message is
  never exposed after a newer one.
\<close>

theorem sequenced_exposure_increasing:
  assumes "flow_life l before k UnreliableSequenced policy cl after es"
  shows "sorted_wrt (<) (map em_accepted_index (exposed_messages k es))"
proof -
  obtain ep1 ep' where "endpoint_ok l ep1" "delivery_trace ep1 after = Some (es, ep')"
    "EstablishedEvent k \<notin> set es"
    "channel_at k ep1 = Some (channel_of (flow_new UnreliableSequenced policy))"
    using flow_lifeE[OF assms] .
  from sequenced_exposure.trace_sorted[OF this] show ?thesis
    unfolding exposed_messages_indices by (simp add: flow_new_def receiver_new_def)
qed

theorem sequenced_exposure_increasing_witness:
  "sorted_wrt (<) (map em_accepted_index (exposed_messages (demo_key Inbound)
     [BufferedEvent (demo_key Inbound) (message_at 3 [5]), BufferedEvent (demo_key Inbound) (message_at 1 [4]),
      ExposedEvent (demo_key Inbound) (message_at 3 [5]), NoEvent]))"
proof -
  let ?k = "demo_key Inbound"
  have "flow_life demo_limits [] ?k UnreliableSequenced demo_evicting demo_limits
      [CallReceivePayload ?k 3 [5], CallReceivePayload ?k 1 [4], CallPoll ?k, CallPoll ?k]
      [BufferedEvent ?k (message_at 3 [5]), BufferedEvent ?k (message_at 1 [4]),
       ExposedEvent ?k (message_at 3 [5]), NoEvent]"
    by (simp add: delivery_eval)
  from sequenced_exposure_increasing[OF this] show ?thesis .
qed

text \<open>
  Accepted submissions of a flow consume the indices 0, 1, 2, ...: one index per acceptance,
  none for a rejection, in every mode.
\<close>

theorem accepted_indices_consecutive:
  assumes "flow_life l before k mode policy cl after es"
  shows "map unat (accepted_indices k es) = [0..<length (accepted_indices k es)]"
proof -
  obtain ep1 ep' where "endpoint_ok l ep1" "delivery_trace ep1 after = Some (es, ep')"
    "EstablishedEvent k \<notin> set es" "channel_at k ep1 = Some (channel_of (flow_new mode policy))"
    using flow_lifeE[OF assms] .
  from acceptance.trace_counts[OF this] show ?thesis
    by (simp add: accepted_indices_def flow_new_def)
qed

theorem accepted_indices_consecutive_witness:
  "map unat (accepted_indices (demo_key Outbound)
     [AcceptedEvent (demo_key Outbound) 0, NoEvent, AcceptedEvent (demo_key Outbound) 1]) = [0, 1]"
proof -
  let ?k = "demo_key Outbound"
  have "flow_life demo_limits [] ?k UnreliableUnordered demo_evicting demo_limits
      [CallSubmit ?k [1, 2], CallSubmit ?k [1, 2, 3, 4, 5, 6, 7, 8, 9], CallSubmit ?k [3]]
      [AcceptedEvent ?k 0, NoEvent, AcceptedEvent ?k 1]"
    by (simp add: delivery_eval)
  from accepted_indices_consecutive[OF this] show ?thesis
    by (simp add: accepted_indices_def)
qed

text \<open>
  Nothing is exposed that was not received: in any run, an exposure of a message on a flow is
  preceded by the buffering of that same index and payload on that flow.
\<close>

theorem exposed_was_buffered:
  assumes "map_option fst (delivery_trace (endpoint_new l) xs) = Some (pre @ ExposedEvent k x # post)"
  shows "BufferedEvent k x \<in> set pre"
proof -
  obtain ep' where "delivery_trace (endpoint_new l) xs = Some (pre @ ExposedEvent k x # post, ep')"
    using assms by auto
  from trace_integrity[OF endpoint_new_ok this refl] show ?thesis
    by (simp add: exposable_def channel_at_def endpoint_new_def)
qed

theorem exposed_was_buffered_witness:
  "BufferedEvent (demo_key Inbound) (message_at 0 [4])
     \<in> set [EstablishedEvent (demo_key Inbound), BufferedEvent (demo_key Inbound) (message_at 0 [4])]"
proof -
  let ?k = "demo_key Inbound"
  have "map_option fst (delivery_trace (endpoint_new demo_limits)
      [CallEstablish ?k UnreliableUnordered demo_evicting demo_limits, CallReceivePayload ?k 0 [4],
       CallPoll ?k]) = Some ([EstablishedEvent ?k, BufferedEvent ?k (message_at 0 [4])]
         @ ExposedEvent ?k (message_at 0 [4]) # [])"
    by (simp add: delivery_eval)
  from exposed_was_buffered[OF this] show ?thesis .
qed

text \<open>Two endpoints: what is exposed on one is a prefix of what the other released.\<close>

lemma reliable_pipe:
  assumes "flow_life ls bs ks ReliableOrdered ps cs xs sent"
    and "flow_life lr br kr ReliableOrdered pr cr ys received"
    and "\<And>x. BufferedEvent kr x \<in> set received \<Longrightarrow> x \<in> set (custody_messages ks sent)"
  shows "exposed_messages kr received
     = take (length (exposed_messages kr received)) (custody_messages ks sent)"
proof (rule numbered_prefix[of "\<lambda>x. unat (em_accepted_index x)"])
  show "map (\<lambda>x. unat (em_accepted_index x)) (exposed_messages kr received)
      = [0..<length (exposed_messages kr received)]"
    using life_exposures[OF assms(2)] unfolding exposed_messages_indices[symmetric] by (simp add: comp_def)
  show "map (\<lambda>x. unat (em_accepted_index x)) (custody_messages ks sent)
      = [0..<length (custody_messages ks sent)]"
    using life_custody[OF assms(1)] unfolding custody_messages_indices[symmetric] by (simp add: comp_def)
  obtain ep1 ep' where life: "endpoint_ok lr ep1" "delivery_trace ep1 ys = Some (received, ep')"
    "channel_at kr ep1 = Some (channel_of (flow_new ReliableOrdered pr))"
    using flow_lifeE[OF assms(2)] by metis
  show "set (exposed_messages kr received) \<subseteq> set (custody_messages ks sent)"
  proof
    fix x
    assume "x \<in> set (exposed_messages kr received)"
    then obtain pre post where "received = pre @ ExposedEvent kr x # post"
      using split_list by (fastforce simp: exposed_messages_set)
    then show "x \<in> set (custody_messages ks sent)"
      using trace_integrity[OF life(1,2)] life(3) assms(3)
      by (fastforce simp: exposable_def flow_new_def receiver_new_def)
  qed
qed

text \<open>
  C2: End to end, a reliable flow is a prefix-preserving pipe. If the transport hands the receiver
  only messages the sender gave it custody of, in any order, any number of times and possibly not
  at all, then what the receiver exposes is a prefix of what the sender released, payloads included.
\<close>

theorem reliable_end_to_end:
  assumes "flow_life ls bs ks ReliableOrdered ps cs xs sent"
    and "flow_life lr br kr ReliableOrdered pr cr ys received"
    and "\<And>x. BufferedEvent kr x \<in> set received \<Longrightarrow> x \<in> set (custody_messages ks sent)"
  shows "exposed_messages kr received
     = take (length (exposed_messages kr received)) (custody_messages ks sent)"
  by (rule reliable_pipe[OF assms])

theorem reliable_end_to_end_witness:
  "exposed_messages (demo_key Inbound) [BufferedEvent (demo_key Inbound) (message_at 0 [4]),
       ExposedEvent (demo_key Inbound) (message_at 0 [4])]
   = take 1 (custody_messages (demo_key Outbound)
       [AcceptedEvent (demo_key Outbound) 0, AcceptedEvent (demo_key Outbound) 1,
        CustodyEvent (demo_key Outbound)
          \<lparr>dt_mode = ReliableOrdered, dt_accepted_index = 0, dt_payload = [4]\<rparr>])"
proof -
  let ?i = "demo_key Inbound" and ?o = "demo_key Outbound"
  have sender: "flow_life demo_limits [] ?o ReliableOrdered demo_reliable demo_limits
      [CallSubmit ?o [4], CallSubmit ?o [5], CallCommit ?o 0]
      [AcceptedEvent ?o 0, AcceptedEvent ?o 1, CustodyEvent ?o
          \<lparr>dt_mode = ReliableOrdered, dt_accepted_index = 0, dt_payload = [4]\<rparr>]"
    by (simp add: delivery_eval)
  have receiver: "flow_life demo_limits [] ?i ReliableOrdered demo_reliable demo_limits
      [CallReceivePayload ?i 0 [4], CallPoll ?i]
      [BufferedEvent ?i (message_at 0 [4]), ExposedEvent ?i (message_at 0 [4])]"
    by (simp add: delivery_eval)
  from reliable_end_to_end[OF sender receiver] show ?thesis
    by (simp add: custody_messages_def exposed_messages_def List.map_filter_def expose_def message_at_def)
qed

section \<open>What single calls do\<close>

text \<open>
  C31: The contract of \<open>submit\<close> on every branch. Too large, exhausted counter and \<open>RejectNew\<close>
  pressure leave the endpoint untouched; an acceptance appends the message under the next index;
  only an unreliable flow whose policy says so evicts, oldest first and no more than needed to fit:
  with any fewer of its oldest messages evicted the message would not fit, and if it is refused under
  that policy it would not even fit with all of them evicted.
\<close>

theorem submit_contract:
  assumes "endpoint_run l xs = Some ep"
    and "fmlookup (de_flows ep) k = Some f" "fk_direction k = Outbound"
  shows "\<exists>r ep'. submit ep k payload = Some (Ok r, ep') \<and> endpoint_ok l ep'
     \<and> submit_promise k f payload r ep ep'"
  by (rule submit_ok[OF endpoint_run_ok[OF assms(1)] assms(2,3)])

theorem submit_contract_witness:
  "\<exists>ep f ep'. fmlookup (de_flows ep) (demo_key Outbound) = Some f
     \<and> submit ep (demo_key Outbound) [4, 5, 6, 7, 8, 9, 10, 11] = Some (Ok (Accepted 1 1), ep')
     \<and> submit_promise (demo_key Outbound) f [4, 5, 6, 7, 8, 9, 10, 11] (Accepted 1 1) ep ep'"
proof -
  let ?k = "demo_key Outbound"
  obtain ep where run: "endpoint_run demo_limits [CallEstablish ?k UnreliableUnordered
      demo_evicting demo_limits, CallSubmit ?k [1, 2, 3]] = Some ep"
    by (simp add: delivery_eval)
  then obtain f where f: "fmlookup (de_flows ep) ?k = Some f" by (auto simp: delivery_eval)
  obtain ep' where sub: "submit ep ?k [4, 5, 6, 7, 8, 9, 10, 11] = Some (Ok (Accepted 1 1), ep')"
    using run by (auto simp: delivery_eval)
  have "fk_direction ?k = Outbound" by (simp add: demo_key_def)
  from submit_contract[OF run f this, of "[4, 5, 6, 7, 8, 9, 10, 11]"] f sub show ?thesis by auto
qed

text \<open>
  The contract of \<open>receive\<close> on every branch: reliable flows buffer at most once per index,
  suppress what they already have, and end on a conflicting, oversized or unplaceable message;
  unreliable flows drop, evict oldest first or refuse, and every drop under pressure is counted.
\<close>

theorem receive_contract:
  assumes "endpoint_run l xs = Some ep"
    and "fmlookup (de_flows ep) k = Some f" "fk_direction k = Inbound"
  shows "\<exists>r ep'. receive ep k t = Some (Ok r, ep') \<and> endpoint_ok l ep' \<and> receive_promise k f t r ep ep'"
  by (rule receive_ok[OF endpoint_run_ok[OF assms(1)] assms(2,3)])

theorem receive_contract_witness:
  "\<exists>ep f ep'. fmlookup (de_flows ep) (demo_key Inbound) = Some f
     \<and> receive ep (demo_key Inbound)
          \<lparr>dt_mode = ReliableOrdered, dt_accepted_index = 0, dt_payload = [9]\<rparr>
        = Some (Ok TerminalReliableFailure, ep')
     \<and> receive_promise (demo_key Inbound) f
          \<lparr>dt_mode = ReliableOrdered, dt_accepted_index = 0, dt_payload = [9]\<rparr>
          TerminalReliableFailure ep ep'"
proof -
  let ?k = "demo_key Inbound"
    and ?t = "\<lparr>dt_mode = ReliableOrdered, dt_accepted_index = 0, dt_payload = [9]\<rparr>"
  obtain ep where run: "endpoint_run demo_limits [CallEstablish ?k ReliableOrdered
      demo_reliable demo_limits, CallReceivePayload ?k 0 [1, 2, 3]] = Some ep"
    by (simp add: delivery_eval)
  then obtain f where f: "fmlookup (de_flows ep) ?k = Some f" by (auto simp: delivery_eval)
  obtain ep' where rcv: "receive ep ?k ?t = Some (Ok TerminalReliableFailure, ep')"
    using run by (auto simp: delivery_eval terminate_ignoring_def terminate_flow_def release_entry_def)
  have "fk_direction ?k = Inbound" by (simp add: demo_key_def)
  from receive_contract[OF run f this, of ?t] f rcv show ?thesis by auto
qed

text \<open>
  C32: A submission that is refused under an evicting policy has still emptied the flow's queue,
  and none of those evictions reaches \<open>outbound_unreliable_pressure_drops\<close> (the inbound side
  counts them): the diagnostics do not change while every queued message is lost.
\<close>

theorem refused_submission_evicts_uncounted:
  assumes "endpoint_run l xs = Some ep"
    and "fmlookup (de_flows ep) k = Some f" "fk_direction k = Outbound"
    and "fp_outbound_pressure (fl_policy f) = EvictOldestUnreliable"
    and "submit ep k payload = Some (Ok RejectedPressure, ep')"
  shows "(\<exists>f'. fmlookup (de_flows ep') k = Some f' \<and> fl_outbound f' = [])
     \<and> de_diagnostics ep' = de_diagnostics ep"
  using submit_ok[OF endpoint_run_ok[OF assms(1)] assms(2,3), of payload] assms(4,5)
  by (auto simp: submit_promise_def moved_def)

theorem refused_submission_evicts_uncounted_witness:
  "\<exists>ep f ep'. fmlookup (de_flows ep) (demo_key Outbound) = Some f \<and> length (fl_outbound f) = 1
     \<and> submit ep (demo_key Outbound) [1, 2, 3, 4, 5] = Some (Ok RejectedPressure, ep')
     \<and> de_diagnostics ep' = de_diagnostics ep"
proof -
  let ?k = "demo_key Outbound"
  let ?tight = "\<lparr>dl_max_active_flows = 4, dl_max_pending_messages = 4, dl_max_pending_payload_bytes = 4\<rparr>"
  obtain ep where run: "endpoint_run demo_limits [CallEstablish ?k UnreliableUnordered
      demo_evicting ?tight, CallSubmit ?k [9]] = Some ep"
    by (simp add: delivery_eval)
  then obtain f where f: "fmlookup (de_flows ep) ?k = Some f" "length (fl_outbound f) = 1"
    "fp_outbound_pressure (fl_policy f) = EvictOldestUnreliable"
    by (auto simp: delivery_eval)
  obtain ep' where sub: "submit ep ?k [1, 2, 3, 4, 5] = Some (Ok RejectedPressure, ep')"
    using run by (auto simp: delivery_eval)
  have "fk_direction ?k = Outbound" by (simp add: demo_key_def)
  from refused_submission_evicts_uncounted[OF run f(1) this f(3) sub] f(1,2) sub show ?thesis
    by blast
qed

text \<open>
  Ending a connection removes exactly its flows, releases its accounting entry and leaves every
  other flow as it was.
\<close>

theorem terminate_connection_releases:
  assumes "endpoint_run l xs = Some ep"
  shows "\<exists>ts ep'. terminate_connection ep c = Some (ts, ep') \<and> endpoint_ok l ep'
     \<and> fmlookup (de_connections ep') c = None
     \<and> (\<forall>k. fmlookup (de_flows ep') k
            = (if fk_connection k = c then None else fmlookup (de_flows ep) k))"
proof -
  obtain ts ep' where t: "terminate_connection ep c = Some (ts, ep')" "endpoint_ok l ep'"
    "de_flows ep' = fmfilter (\<lambda>k. fk_connection k \<noteq> c) (de_flows ep)"
    using terminate_connection_ok[OF endpoint_run_ok[OF assms]] by blast
  have "used_by (by_connection c) (de_flows ep') = usage_of 0 0 0"
    using t(3) by (auto simp: used_by_def fm_sum_0_iff flow_share_def split: if_splits)
  then have "fmlookup (de_connections ep') c = None"
    using table_ok_Some[OF accounts_okD(2)[OF endpoint_okD(1)[OF t(2)]], of c]
    by (cases "fmlookup (de_connections ep') c") (auto simp: scope_ok_def)
  then show ?thesis using t by auto
qed

theorem terminate_connection_releases_witness:
  "\<exists>ep ts ep'. endpoint_run demo_limits [CallEstablish (demo_key Outbound) ReliableOrdered
       demo_reliable demo_limits, CallSubmit (demo_key Outbound) [1, 2, 3]] = Some ep
     \<and> terminate_connection ep (ConnectionHandle 1) = Some (ts, ep')
     \<and> fmlookup (de_flows ep') (demo_key Outbound) = None"
proof -
  obtain ep where run: "endpoint_run demo_limits [CallEstablish (demo_key Outbound) ReliableOrdered
      demo_reliable demo_limits, CallSubmit (demo_key Outbound) [1, 2, 3]] = Some ep"
    by (simp add: delivery_eval)
  from terminate_connection_releases[OF run, of "ConnectionHandle 1"] run show ?thesis
    by (auto simp: demo_key_def)
qed

end
