(* ===== verification/Stream_Sender.thy ===== *)
theory Stream_Sender
  imports Reliable_Streams Delivery_Contract
begin

text \<open>
  What a sending stream carries. The locale \<open>stream_writer\<close> states what the binding relies on of a
  quinn stream: a write takes a prefix of the bytes offered and nothing else writes. Then the bytes
  taken so far are always the flow identifier, the frames of the messages released from core
  custody in order, and an unfinished frame.
\<close>

section \<open>The shape of the byte stream\<close>

definition frame_bytes :: "bytes \<Rightarrow> bytes" where
  "frame_bytes p = vslice (word_of_nat (length p)) @ p"

definition framable :: "bytes \<Rightarrow> bool" where
  "framable p \<longleftrightarrow> length p \<le> unat MAX_VARINT"

definition unfinished :: "bytes \<Rightarrow> bool" where
  "unfinished part \<longleftrightarrow> (\<exists>p rest. framable p \<and> rest \<noteq> [] \<and> part @ rest = frame_bytes p)"

definition stream_shape :: "flow_id \<Rightarrow> bytes list \<Rightarrow> bytes \<Rightarrow> bool" where
  "stream_shape i ps out \<longleftrightarrow> list_all framable ps
     \<and> ((\<exists>rest. rest \<noteq> [] \<and> ps = [] \<and> out @ rest = vslice (flow_id_value i))
        \<or> (\<exists>part. unfinished part \<and> out = vslice (flow_id_value i) @ concat (map frame_bytes ps) @ part))"

lemma framable_word: "framable p \<Longrightarrow> (word_of_nat (length p) :: u64) \<le> MAX_VARINT
    \<and> unat (word_of_nat (length p) :: u64) = length p"
  using word_of_small[of "length p"]
  by (simp add: framable_def word_le_nat_alt unat_MAX_VARINT)

lemma frame_bytes_nonempty: "framable p \<Longrightarrow> frame_bytes p \<noteq> []"
  using framable_word[of p] length_vslice[of "word_of_nat (length p)"] by (auto simp: frame_bytes_def)

lemma unfinished_Nil [simp]: "unfinished []"
  using frame_bytes_nonempty[of "[]"] by (auto simp: unfinished_def framable_def intro!: exI[of _ "[]"])

section \<open>The state of a sender\<close>

definition frame_progress :: "outbound_message \<Rightarrow> bytes" where
  "frame_progress m = take (om_length_offset m) (varint_slice (om_length m))
     @ take (om_payload_offset m) (dt_payload (om_snapshot m))"

definition message_ok :: "u64 option \<Rightarrow> outbound_message \<Rightarrow> bool" where
  "message_ok next m \<longleftrightarrow>
     (let p = dt_payload (om_snapshot m)
      in framable p \<and> next = Some (dt_accepted_index (om_snapshot m))
        \<and> varint_slice (om_length m) = vslice (word_of_nat (length p))
        \<and> vi_len (om_length m) = length (varint_slice (om_length m))
        \<and> om_length_offset m \<le> vi_len (om_length m)
        \<and> (om_length_offset m < vi_len (om_length m) \<longrightarrow> om_payload_offset m = 0)
        \<and> (om_length_offset m < vi_len (om_length m) \<or> om_payload_offset m < length p))"

definition sending :: "flow_id \<Rightarrow> outbound_state \<Rightarrow> bytes list \<Rightarrow> bytes \<Rightarrow> bool" where
  "sending i st ps out \<longleftrightarrow> list_all framable ps
     \<and> index_frontier (os_next_accepted_index st) = length ps
     \<and> varint_slice (os_flow_header st) = vslice (flow_id_value i)
     \<and> vi_len (os_flow_header st) = length (vslice (flow_id_value i))
     \<and> (if os_flow_header_offset st < vi_len (os_flow_header st)
        then os_current st = None \<and> ps = []
          \<and> out = take (os_flow_header_offset st) (vslice (flow_id_value i))
        else out = vslice (flow_id_value i) @ concat (map frame_bytes ps)
               @ (case os_current st of None \<Rightarrow> [] | Some m \<Rightarrow> frame_progress m)
          \<and> (\<forall>m. os_current st = Some m \<longrightarrow> message_ok (os_next_accepted_index st) m))"

lemma message_unfinished:
  assumes "message_ok nxt m"
  shows "unfinished (frame_progress m)"
proof -
  let ?p = "dt_payload (om_snapshot m)"
  have "frame_progress m @ drop (om_length_offset m) (varint_slice (om_length m)) @ drop (om_payload_offset m) ?p
      = frame_bytes ?p"
    using assms by (cases "om_length_offset m < vi_len (om_length m)")
      (auto simp: message_ok_def Let_def frame_progress_def frame_bytes_def)
  moreover have "drop (om_length_offset m) (varint_slice (om_length m)) @ drop (om_payload_offset m) ?p \<noteq> []"
    using assms by (auto simp: message_ok_def Let_def)
  ultimately show ?thesis
    using assms unfolding unfinished_def by (metis message_ok_def)
qed

lemma sending_shape: "sending i st ps out \<Longrightarrow> stream_shape i ps out"
  using message_unfinished
  by (fastforce simp: sending_def stream_shape_def split: if_splits option.splits
      intro!: exI[of _ "drop (os_flow_header_offset st) (vslice (flow_id_value i))"])

text \<open>The bytes offered next.\<close>

definition segment_of :: "outbound_state \<Rightarrow> bytes" where
  "segment_of st =
     (if os_flow_header_offset st < vi_len (os_flow_header st)
      then drop (os_flow_header_offset st) (varint_slice (os_flow_header st))
      else case os_current st of
        None \<Rightarrow> []
      | Some m \<Rightarrow>
        if om_length_offset m < vi_len (om_length m)
        then drop (om_length_offset m) (varint_slice (om_length m))
        else drop (om_payload_offset m) (dt_payload (om_snapshot m)))"

lemma encode_payload_length_spec:
  "\<exists>r. encode_payload_length n limit = Some r
     \<and> (\<forall>e. r = Ok e \<longrightarrow> n \<le> unat MAX_VARINT \<and> varint_slice e = vslice (word_of_nat n)
          \<and> vi_len e = length (varint_slice e))"
proof (cases "(word_of_nat n :: u64)" rule: encode_varint_cases)
  case (Small e)
  then show ?thesis
    using word_of_small[of n]
    by (auto simp: encode_payload_length_def usize_to_u64_def word_le_nat_alt split: if_splits)
next
  case Large
  then show ?thesis
    by (auto simp: encode_payload_length_def usize_to_u64_def split: if_splits)
qed

lemma load_message_spec:
  assumes "sending i st ps out" "\<not> os_flow_header_offset st < vi_len (os_flow_header st)"
  shows "\<exists>r st'. load_message st ep key = Some (r, st') \<and> sending i st' ps out
    \<and> os_flow_header st' = os_flow_header st \<and> os_flow_header_offset st' = os_flow_header_offset st
    \<and> (r = Ok True \<longrightarrow> os_current st' \<noteq> None)
    \<and> (os_current st' = os_current st
       \<or> os_current st = None \<and> (\<exists>m. os_current st' = Some m \<and> peek_outbound ep key = Ok (Some (om_snapshot m))))"
proof (cases "os_current st")
  case (Some m)
  then show ?thesis using assms by (simp add: load_message_def)
next
  case None
  show ?thesis
  proof (cases "\<exists>t. peek_outbound ep key = Ok (Some t) \<and> dt_mode t = ReliableOrdered
      \<and> os_next_accepted_index st = Some (dt_accepted_index t)")
    case False
    then show ?thesis
      using assms None
      by (auto simp: load_message_def split: result.splits option.splits)
  next
    case True
    then obtain t where t: "peek_outbound ep key = Ok (Some t)" "dt_mode t = ReliableOrdered"
      "os_next_accepted_index st = Some (dt_accepted_index t)" by blast
    obtain r where r: "encode_payload_length (payload_len t) (os_max_message_bytes st) = Some r"
      "\<forall>e. r = Ok e \<longrightarrow> payload_len t \<le> unat MAX_VARINT \<and> varint_slice e = vslice (word_of_nat (payload_len t))
         \<and> vi_len e = length (varint_slice e)"
      using encode_payload_length_spec by blast
    show ?thesis
    proof (cases r)
      case (Err e)
      then show ?thesis using assms None t r by (simp add: load_message_def)
    next
      case (Ok e)
      then have e: "framable (dt_payload t)" "varint_slice e = vslice (word_of_nat (length (dt_payload t)))"
        "vi_len e = length (varint_slice e)"
        using r(2) by (simp_all add: framable_def payload_len_def)
      have "0 < vi_len e"
        using length_vslice[of "word_of_nat (length (dt_payload t))"] framable_word[OF e(1)] e(2,3) by auto
      then show ?thesis
        using assms None t r e Ok
        by (simp add: load_message_def sending_def message_ok_def frame_progress_def Let_def)
    qed
  qed
qed


lemma next_segment_spec:
  assumes "sending i st ps out"
  shows "\<exists>s st'. next_segment st ep key = Some (s, st') \<and> sending i st' ps out
    \<and> (\<forall>bs. s = Ok (Some bs) \<longrightarrow> bs = segment_of st' \<and> bs \<noteq> [])
    \<and> (os_current st' = os_current st
       \<or> os_current st = None \<and> (\<exists>m. os_current st' = Some m \<and> peek_outbound ep key = Ok (Some (om_snapshot m))))"
proof (cases "os_flow_header_offset st < vi_len (os_flow_header st)")
  case True
  then show ?thesis using assms by (auto simp: next_segment_def segment_of_def sending_def)
next
  case False
  obtain r st' where r: "load_message st ep key = Some (r, st')" "sending i st' ps out"
    "os_flow_header st' = os_flow_header st" "os_flow_header_offset st' = os_flow_header_offset st"
    "r = Ok True \<Longrightarrow> os_current st' \<noteq> None"
    "os_current st' = os_current st
       \<or> os_current st = None \<and> (\<exists>m. os_current st' = Some m \<and> peek_outbound ep key = Ok (Some (om_snapshot m)))"
    using load_message_spec[OF assms False] by blast
  show ?thesis
  proof (cases "r = Ok True")
    case False
    then show ?thesis using r \<open>\<not> os_flow_header_offset st < vi_len (os_flow_header st)\<close>
      by (cases r) (auto simp: next_segment_def split: bool.splits)
  next
    case True
    then obtain m where m: "os_current st' = Some m" using r(5) by blast
    have "message_ok (os_next_accepted_index st') m"
      using r(2,3,4) m False by (simp add: sending_def)
    then show ?thesis
      using r m True False
      by (auto simp: next_segment_def segment_of_def message_ok_def Let_def payload_len_def)
  qed
qed

section \<open>Progress\<close>

lemma peek_commit:
  assumes "endpoint_ok lim ep" "peek_outbound ep key = Ok (Some t)"
  shows "\<exists>ep'. commit_outbound_custody ep key (dt_accepted_index t) = Some (Ok t, ep')"
proof -
  obtain f ts where f: "fmlookup (de_flows ep) key = Some f" "fl_outbound f = t # ts" "fk_direction key = Outbound"
    using assms(2) by (auto simp: peek_outbound_def split: option.splits if_splits list.splits)
  then show ?thesis
    using commit_outbound_custody_ok[OF assms(1), of key "dt_accepted_index t"]
    by (auto simp: commit_outbound_custody_def bind_eq_Some_conv)
qed

text \<open>The message under way is the one at the front of core custody.\<close>

definition fronted :: "delivery_endpoint \<Rightarrow> delivery_flow_key \<Rightarrow> outbound_state \<Rightarrow> bool" where
  "fronted ep key st \<longleftrightarrow>
     (\<forall>m. os_current st = Some m \<longrightarrow> peek_outbound ep key = Ok (Some (om_snapshot m)))"

definition advance_result ::
  "flow_id \<Rightarrow> outbound_state \<Rightarrow> bytes list \<Rightarrow> bytes \<Rightarrow> delivery_endpoint \<Rightarrow> delivery_flow_key \<Rightarrow>
     (u64 option, send_error) result \<times> outbound_state \<times> delivery_endpoint \<Rightarrow> bool" where
  "advance_result i st ps out ep key x \<longleftrightarrow>
     (case x of
        (Ok None, st', ep') \<Rightarrow> ep' = ep \<and> sending i st' ps out \<and> fronted ep key st'
      | (Ok (Some idx), st', ep') \<Rightarrow> (\<exists>m. os_current st = Some m \<and> os_current st' = None
          \<and> idx = dt_accepted_index (om_snapshot m)
          \<and> sending i st' (ps @ [dt_payload (om_snapshot m)]) out
          \<and> commit_outbound_custody ep key idx = Some (Ok (om_snapshot m), ep'))
      | (Err _, _, _) \<Rightarrow> False)"

lemma outbound_advance_spec:
  assumes "endpoint_ok lim ep" "sending i st ps out" "fronted ep key st"
    and "segment_of st \<noteq> []" "0 < n" "n \<le> length (segment_of st)"
  shows "\<exists>x. outbound_advance n st ep key = Some x
    \<and> advance_result i st ps (out @ take n (segment_of st)) ep key x"
proof (cases "os_flow_header_offset st < vi_len (os_flow_header st)")
  case True
  then show ?thesis
    using assms
    by (auto simp: outbound_advance_def advance_result_def sending_def segment_of_def fronted_def take_add)
next
  case False
  then obtain m where m: "os_current st = Some m"
    using assms(4) by (auto simp: segment_of_def split: option.splits)
  let ?p = "dt_payload (om_snapshot m)" and ?idx = "dt_accepted_index (om_snapshot m)"
  have st: "message_ok (os_next_accepted_index st) m" "list_all framable ps"
    "index_frontier (os_next_accepted_index st) = length ps"
    "varint_slice (os_flow_header st) = vslice (flow_id_value i)"
    "vi_len (os_flow_header st) = length (vslice (flow_id_value i))"
    "out = vslice (flow_id_value i) @ concat (map frame_bytes ps) @ frame_progress m"
    using assms(2) False m by (simp_all add: sending_def)
  obtain ep' where commit: "commit_outbound_custody ep key ?idx = Some (Ok (om_snapshot m), ep')"
    using peek_commit[OF assms(1)] assms(3) m by (fastforce simp: fronted_def)
  have front: "peek_outbound ep key = Ok (Some (om_snapshot m))" using assms(3) m by (simp add: fronted_def)
  show ?thesis
  proof (cases "om_length_offset m < vi_len (om_length m)")
    case True
    then show ?thesis
      using st m commit front assms(5,6) False
      by (auto simp: outbound_advance_def Let_def commit_current_def advance_result_def segment_of_def
          message_ok_def payload_len_def sending_def frame_progress_def frame_bytes_def take_add fronted_def)
  next
    case len: False
    show ?thesis
      using st m commit front assms(5,6) False len
      by (auto simp: outbound_advance_def Let_def commit_current_def advance_result_def segment_of_def
          message_ok_def payload_len_def sending_def frame_progress_def frame_bytes_def take_add fronted_def checked_sub_def)
  qed
qed


section \<open>A poll\<close>

text \<open>What the binding relies on of a stream: a write takes a prefix of the bytes offered.\<close>

definition stream_writer :: "('w, 'f) writer_ops \<Rightarrow> ('w \<Rightarrow> bytes) \<Rightarrow> bool" where
  "stream_writer ops wlog \<longleftrightarrow>
     (\<forall>w bs. case wo_poll_write ops w bs of
          (Ready (Ok n), w') \<Rightarrow> n \<le> length bs \<and> wlog w' = wlog w @ take n bs
        | (_, w') \<Rightarrow> wlog w' = wlog w)
     \<and> (\<forall>w c. wlog (wo_reset ops w c) = wlog w)
     \<and> (\<forall>w. wlog (snd (wo_finish ops w)) = wlog w)"

text \<open>The core sees at most one call, and the messages it releases to custody are these.\<close>

definition core_effect ::
  "delivery_endpoint \<Rightarrow> delivery_endpoint \<Rightarrow> delivery_flow_key \<Rightarrow> delivery_transfer list \<Rightarrow> bool" where
  "core_effect ep ep' key ts \<longleftrightarrow>
     (\<exists>xs es. delivery_trace ep xs = Some (es, ep') \<and> length xs \<le> 1
        \<and> List.filter (\<lambda>e. e \<noteq> NoEvent) es = map (CustodyEvent key) ts)"

lemma core_effect_none [simp]: "core_effect ep ep key []"
  by (auto simp: core_effect_def intro!: exI[of _ "[]"])

lemma core_effect_call:
  "delivery_apply ep x = Some (NoEvent, ep') \<Longrightarrow> core_effect ep ep' key []"
  by (auto simp: core_effect_def intro!: exI[of _ "[x]"])

lemma core_effect_commit:
  "commit_outbound_custody ep key idx = Some (Ok t, ep') \<Longrightarrow> core_effect ep ep' key [t]"
  by (auto simp: core_effect_def intro!: exI[of _ "[CallCommit key idx]"])

lemma fail_custody_effect:
  assumes "endpoint_ok lim ep"
  shows "\<exists>t ep'. fail_reliable_custody ep key = Some (t, ep') \<and> endpoint_ok lim ep' \<and> core_effect ep ep' k []"
  using delivery_apply_ok[OF assms, of "CallFailCustody key"]
  by (fastforce intro!: core_effect_call[of _ "CallFailCustody key"])

lemma terminate_effect:
  assumes "endpoint_ok lim ep"
  shows "\<exists>t ep'. terminate_flow ep key reason = Some (t, ep') \<and> endpoint_ok lim ep' \<and> core_effect ep ep' k []"
  using delivery_apply_ok[OF assms, of "CallTerminate key reason"]
  by (fastforce intro!: core_effect_call[of _ "CallTerminate key reason"])

text \<open>
  \<open>sender_at\<close>: the stream has the shape it should, in detail as long as the sender is alive.
\<close>

definition sender_at ::
  "('w \<Rightarrow> bytes) \<Rightarrow> ('w, 'f) outbound_reliable \<Rightarrow> bytes list \<Rightarrow> bool" where
  "sender_at wlog r ps \<longleftrightarrow> stream_shape (or_flow_id r) ps (wlog (or_writer r))
     \<and> (\<not> or_terminal r \<longrightarrow> sending (or_flow_id r) (or_state r) ps (wlog (or_writer r)))"

definition sender_step_result ::
  "delivery_scope_limits \<Rightarrow> ('w \<Rightarrow> bytes) \<Rightarrow> ('w, 'f) outbound_reliable \<Rightarrow> delivery_endpoint \<Rightarrow> bytes list \<Rightarrow>
     (send_progress, send_error) result poll \<times> ('w, 'f) outbound_reliable \<times> delivery_endpoint \<times> flow_registry
     \<Rightarrow> bool" where
  "sender_step_result lim wlog r ep ps x \<longleftrightarrow>
     (case x of (y, r', ep', g') \<Rightarrow> endpoint_ok lim ep'
        \<and> or_flow_id r' = or_flow_id r \<and> or_key r' = or_key r
        \<and> (or_terminal r' \<or> fronted ep' (or_key r) (or_state r'))
        \<and> (case y of
             Ready (Ok (SendCommitted idx)) \<Rightarrow>
               (\<exists>t. peek_outbound ep (or_key r) = Ok (Some t) \<and> dt_accepted_index t = idx
                  \<and> core_effect ep ep' (or_key r) [t] \<and> sender_at wlog r' (ps @ [dt_payload t]))
           | _ \<Rightarrow> core_effect ep ep' (or_key r) [] \<and> sender_at wlog r' ps))"

lemma outbound_fail_spec:
  assumes "stream_writer ops wlog" "endpoint_ok lim ep" "sender_at wlog r ps"
  shows "\<exists>x. outbound_fail ops r ep g code e = Some x \<and> fst x = Ready (Err e)
    \<and> or_terminal (fst (snd x)) \<and> sender_step_result lim wlog r ep ps x"
proof (cases "or_terminal r")
  case True
  then show ?thesis using assms by (simp add: outbound_fail_def sender_step_result_def)
next
  case False
  obtain t ep' where "fail_reliable_custody ep (or_key r) = Some (t, ep')" "endpoint_ok lim ep'"
    "core_effect ep ep' (or_key r) []"
    using fail_custody_effect[OF assms(2)] by blast
  then show ?thesis
    using False assms(1,3)
    by (simp add: outbound_fail_def sender_step_result_def sender_at_def stream_writer_def)
qed


lemma sender_at_upd:
  "\<not> or_terminal r \<Longrightarrow> sender_at wlog r ps \<Longrightarrow> wlog w = wlog (or_writer r) \<Longrightarrow>
     sender_at wlog (r\<lparr>or_writer := w\<rparr>) ps"
  by (simp add: sender_at_def)

text \<open>A step of a sender that differs from \<open>r\<close> in what the claim does not look at.\<close>

lemma sender_step_result_cong:
  assumes "or_flow_id r' = or_flow_id r" "or_key r' = or_key r"
  shows "sender_step_result lim wlog r' ep ps x = sender_step_result lim wlog r ep ps x"
  unfolding sender_step_result_def assms ..

lemma sender_step_result_upds [simp]:
  "sender_step_result lim wlog (r\<lparr>or_writer := w\<rparr>) ep ps x = sender_step_result lim wlog r ep ps x"
  "sender_step_result lim wlog (r\<lparr>or_finish_ack := a\<rparr>) ep ps x = sender_step_result lim wlog r ep ps x"
  "sender_step_result lim wlog (r\<lparr>or_state := st\<rparr>) ep ps x = sender_step_result lim wlog r ep ps x"
  by (rule sender_step_result_cong; simp)+

lemma poll_write_spec:
  assumes w: "stream_writer ops wlog" and ok: "endpoint_ok lim ep" and at: "sender_at wlog r ps"
    and alive: "\<not> or_terminal r" and front: "fronted ep (or_key r) (or_state r)"
    and seg: "segment_of (or_state r) \<noteq> []"
  shows "\<exists>x. poll_write ops r (segment_of (or_state r)) ep g = Some x \<and> sender_step_result lim wlog r ep ps x"
proof -
  let ?bs = "segment_of (or_state r)"
  obtain y w' where y: "wo_poll_write ops (or_writer r) ?bs = (y, w')" by (cases "wo_poll_write ops (or_writer r) ?bs")
  have law: "case (y, w') of (Ready (Ok n), w') \<Rightarrow> n \<le> length ?bs \<and> wlog w' = wlog (or_writer r) @ take n ?bs
      | (_, w') \<Rightarrow> wlog w' = wlog (or_writer r)"
  proof -
    have "case wo_poll_write ops (or_writer r) ?bs of
        (Ready (Ok n), w') \<Rightarrow> n \<le> length ?bs \<and> wlog w' = wlog (or_writer r) @ take n ?bs
      | (_, w') \<Rightarrow> wlog w' = wlog (or_writer r)"
      by (rule w[unfolded stream_writer_def, THEN conjunct1, THEN spec, THEN spec])
    then show ?thesis unfolding y .
  qed
  have stay: "sender_at wlog (r\<lparr>or_writer := w'\<rparr>) ps" if "wlog w' = wlog (or_writer r)"
    using sender_at_upd[OF alive at that] .
  have fail: "\<exists>x. outbound_fail ops (r\<lparr>or_writer := w'\<rparr>) ep g code e = Some x \<and> sender_step_result lim wlog r ep ps x"
    if "wlog w' = wlog (or_writer r)" for code e
    using outbound_fail_spec[OF w ok stay[OF that], of g code e]
    by auto
  show ?thesis
  proof (cases y)
    case Pending
    then show ?thesis
      using y law ok front stay by (simp add: poll_write_def sender_step_result_def)
  next
    case (Ready z)
    show ?thesis
    proof (cases z)
      case (Err e)
      then show ?thesis
        using Ready y law ok stay fail
        by (cases e) (simp_all add: poll_write_def sender_step_result_def sender_at_def)
    next
      case (Ok n)
      show ?thesis
      proof (cases "n = 0")
        case True
        then show ?thesis using Ready Ok y law fail by (simp add: poll_write_def)
      next
        case False
        have n: "n \<le> length ?bs" "wlog w' = wlog (or_writer r) @ take n ?bs" using law Ready Ok by simp_all
        have sending: "sending (or_flow_id r) (or_state r) ps (wlog (or_writer r))"
          using at alive by (simp add: sender_at_def)
        obtain a st' ep' where adv: "outbound_advance n (or_state r) ep (or_key r) = Some (a, st', ep')"
          "advance_result (or_flow_id r) (or_state r) ps (wlog w') ep (or_key r) (a, st', ep')"
          using outbound_advance_spec[OF ok sending front seg _ n(1)] False n(2) by fastforce
        show ?thesis
        proof (cases a)
          case (Err e)
          then show ?thesis using adv by (simp add: advance_result_def)
        next
          case a: (Ok c)
          show ?thesis
          proof (cases c)
            case None
            then show ?thesis
              using Ready Ok y False adv a ok alive sending_shape[of "or_flow_id r" st' ps "wlog w'"]
              by (simp add: poll_write_def advance_result_def sender_step_result_def sender_at_def)
          next
            case (Some idx)
            then obtain m where m: "os_current (or_state r) = Some m" "os_current st' = None"
              "idx = dt_accepted_index (om_snapshot m)"
              "sending (or_flow_id r) st' (ps @ [dt_payload (om_snapshot m)]) (wlog w')"
              "commit_outbound_custody ep (or_key r) idx = Some (Ok (om_snapshot m), ep')"
              using adv a by (auto simp: advance_result_def)
            have "endpoint_ok lim ep'"
              using commit_outbound_custody_ok[OF ok, of "or_key r" idx] m(5) by auto
            then show ?thesis
              using Ready Ok y False adv(1) a Some m alive front sending_shape[OF m(4)]
              by (auto simp: poll_write_def sender_step_result_def sender_at_def fronted_def
                  core_effect_commit)
          qed
        qed
      qed
    qed
  qed
qed

lemma terminate_flow_Err: "terminate_flow ep key reason = Some (Err e, ep') \<Longrightarrow> ep' = ep"
  by (auto simp: terminate_flow_def Let_def bind_eq_Some_conv split: option.splits result.splits if_splits)

lemma poll_finish_spec:
  assumes w: "stream_writer ops wlog" and ok: "endpoint_ok lim ep" and at: "sender_at wlog r ps"
    and alive: "\<not> or_terminal r" and front: "fronted ep (or_key r) (or_state r)"
  shows "\<exists>x. poll_finish ops r ack ep g = Some x \<and> sender_step_result lim wlog r ep ps x"
proof -
  have fail: "\<exists>x. outbound_fail ops (r\<lparr>or_finish_ack := a\<rparr>) ep g code e = Some x
      \<and> sender_step_result lim wlog r ep ps x" for a code e
  proof -
    have "sender_at wlog (r\<lparr>or_finish_ack := a\<rparr>) ps" using at by (simp add: sender_at_def)
    from outbound_fail_spec[OF w ok this, of g code e] show ?thesis
      by auto
  qed
  have fail_same: "\<exists>x. outbound_fail ops r ep g code e = Some x \<and> sender_step_result lim wlog r ep ps x" for code e
    using outbound_fail_spec[OF w ok at, of g code e] by blast
  obtain y ack' where y: "wo_poll_ack ops ack = (y, ack')" by (cases "wo_poll_ack ops ack")
  obtain t ep' where t: "terminate_flow ep (or_key r) Requested = Some (t, ep')" "endpoint_ok lim ep'"
    "core_effect ep ep' (or_key r) []"
    using terminate_effect[OF ok] by blast
  show ?thesis
  proof (cases "peek_outbound_metadata ep (or_key r)")
    case (Err e)
    then show ?thesis using fail_same by (simp add: poll_finish_def)
  next
    case (Ok p)
    show ?thesis
    proof (cases p)
      case (Some a)
      then show ?thesis using Ok fail_same by (simp add: poll_finish_def)
    next
      case None
      show ?thesis
      proof (cases "y = Ready (Ok None)")
        case True
        show ?thesis
        proof (cases t)
          case (Err e)
          have "ep' = ep" using terminate_flow_Err t(1) Err by blast
          then show ?thesis using True y None Ok t Err fail by (simp add: poll_finish_def)
        next
          case t_ok: (Ok x)
          then show ?thesis
            using True y None Ok t at by (simp add: poll_finish_def sender_step_result_def sender_at_def)
        qed
      next
        case False
        then show ?thesis
          using y None Ok ok at front fail
          by (cases y; cases "y = Ready (Err ConnectionLost)")
            (auto simp: poll_finish_def sender_step_result_def sender_at_def
              split: result.splits option.splits io_failure.splits)
      qed
    qed
  qed
qed

lemma outbound_poll_step_spec:
  assumes w: "stream_writer ops wlog" and ok: "endpoint_ok lim ep" and at: "sender_at wlog r ps"
    and front: "or_terminal r \<or> flow_contract ep (or_key r) = None \<or> fronted ep (or_key r) (or_state r)"
  shows "\<exists>x. outbound_poll_step ops r ep g = Some x \<and> sender_step_result lim wlog r ep ps x"
proof (cases "or_terminal r \<or> flow_contract ep (or_key r) = None \<or> or_finish_ack r \<noteq> None")
  case True
  consider "or_terminal r" | "\<not> or_terminal r" "flow_contract ep (or_key r) = None"
    | ack where "\<not> or_terminal r" "flow_contract ep (or_key r) \<noteq> None" "or_finish_ack r = Some ack"
    using True by (metis not_None_eq)
  then show ?thesis
  proof cases
    case 1
    then show ?thesis using ok at by (simp add: outbound_poll_step_def sender_step_result_def)
  next
    case 2
    then show ?thesis
      using outbound_fail_spec[OF w ok at, of g ReliableDeliveryFailed "SendCore UnknownFlow"]
      by (auto simp: outbound_poll_step_def)
  next
    case 3
    then show ?thesis
      using poll_finish_spec[OF w ok at, of ack g] front by (auto simp: outbound_poll_step_def)
  qed
next
  case False
  then have sending: "sending (or_flow_id r) (or_state r) ps (wlog (or_writer r))"
    using at by (simp add: sender_at_def)
  obtain s st' where s: "next_segment (or_state r) ep (or_key r) = Some (s, st')"
    "sending (or_flow_id r) st' ps (wlog (or_writer r))"
    "\<And>bs. s = Ok (Some bs) \<Longrightarrow> bs = segment_of st' \<and> bs \<noteq> []"
    "os_current st' = os_current (or_state r) \<or> os_current (or_state r) = None
       \<and> (\<exists>m. os_current st' = Some m \<and> peek_outbound ep (or_key r) = Ok (Some (om_snapshot m)))"
    using next_segment_spec[OF sending] by blast
  let ?r = "r\<lparr>or_state := st'\<rparr>"
  have at': "sender_at wlog ?r ps" using s(2) at by (simp add: sender_at_def)
  have front': "fronted ep (or_key ?r) (or_state ?r)"
    using front False s(4) by (auto simp: fronted_def)
  show ?thesis
  proof (cases s)
    case (Err e)
    then show ?thesis
      using outbound_fail_spec[OF w ok at', of g FlowProtocolError e] False s(1)
      by (auto simp: outbound_poll_step_def)
  next
    case (Ok b)
    show ?thesis
    proof (cases b)
      case None
      then show ?thesis
        using Ok s(1) False ok at' front' by (auto simp: outbound_poll_step_def sender_step_result_def)
    next
      case (Some bs)
      then show ?thesis
        using poll_write_spec[OF w ok at' _ front'] s(3)[of bs] Ok s(1) False
        by (auto simp: outbound_poll_step_def)
    qed
  qed
qed


section \<open>A sender among its host's other calls\<close>

text \<open>
  The host owns the endpoint and the registry. Between polls it makes any calls of the core, except
  that it leaves the custody of this flow to the sender and does not establish its key again.
\<close>

datatype sender_action = SenderHost delivery_call | SenderPoll | SenderFinish

fun sender_host :: "delivery_flow_key \<Rightarrow> sender_action \<Rightarrow> bool" where
  "sender_host key (SenderHost (CallCommit k _)) = (k \<noteq> key)"
| "sender_host key (SenderHost (CallEstablish k _ _ _)) = (k \<noteq> key)"
| "sender_host _ _ = True"

text \<open>A poll that reports a commit has released the message at the front.\<close>

fun poll_events ::
  "delivery_endpoint \<Rightarrow> delivery_flow_key \<Rightarrow> (send_progress, send_error) result poll \<Rightarrow> delivery_event list" where
  "poll_events ep key (Ready (Ok (SendCommitted _))) =
     (case peek_outbound ep key of Ok (Some t) \<Rightarrow> [CustodyEvent key t] | _ \<Rightarrow> [])"
| "poll_events _ _ _ = []"

type_synonym ('w, 'f) sender_world = "('w, 'f) outbound_reliable \<times> delivery_endpoint \<times> flow_registry"

fun sender_act ::
  "('w, 'f) writer_ops \<Rightarrow> ('w, 'f) sender_world \<Rightarrow> sender_action \<Rightarrow>
     (delivery_event list \<times> ('w, 'f) sender_world) exec" where
  "sender_act ops (r, ep, g) (SenderHost x) = map_option (\<lambda>(e, ep'). ([e], r, ep', g)) (delivery_apply ep x)"
| "sender_act ops (r, ep, g) SenderPoll =
     map_option (\<lambda>(y, w). (poll_events ep (or_key r) y, w)) (outbound_poll_step ops r ep g)"
| "sender_act ops (r, ep, g) SenderFinish =
     map_option (\<lambda>(_, r'). ([], r', ep, g)) (request_finish_normal ops r ep)"

fun sender_run ::
  "('w, 'f) writer_ops \<Rightarrow> ('w, 'f) sender_world \<Rightarrow> sender_action list \<Rightarrow>
     (delivery_event list \<times> ('w, 'f) sender_world) exec" where
  "sender_run ops w [] = Some ([], w)"
| "sender_run ops w (a # as) = do {
     (es, w) \<leftarrow> sender_act ops w a;
     (es', w) \<leftarrow> sender_run ops w as;
     Some (es @ es', w) }"

abbreviation visible :: "delivery_event list \<Rightarrow> delivery_event list" where
  "visible \<equiv> List.filter (\<lambda>e. e \<noteq> NoEvent)"

definition custody_held :: "delivery_flow_key \<Rightarrow> delivery_endpoint \<Rightarrow> outbound_state \<Rightarrow> bool" where
  "custody_held key ep st \<longleftrightarrow> (\<forall>c m. channel_at key ep = Some c \<longrightarrow> os_current st = Some m \<longrightarrow>
     (\<exists>ts. ch_out c = om_snapshot m # ts))"

definition reliable_channel :: "delivery_flow_key \<Rightarrow> delivery_endpoint \<Rightarrow> bool" where
  "reliable_channel key ep \<longleftrightarrow> (\<forall>c. channel_at key ep = Some c \<longrightarrow> ch_mode c = ReliableOrdered)"

definition sender_ok ::
  "delivery_scope_limits \<Rightarrow> ('w \<Rightarrow> bytes) \<Rightarrow> ('w, 'f) sender_world \<Rightarrow> bytes list \<Rightarrow> bool" where
  "sender_ok lim wlog w ps \<longleftrightarrow>
     (case w of (r, ep, g) \<Rightarrow> endpoint_ok lim ep \<and> sender_at wlog r ps \<and> fk_direction (or_key r) = Outbound
        \<and> reliable_channel (or_key r) ep
        \<and> (or_terminal r \<or> custody_held (or_key r) ep (or_state r)))"

lemma custody_held_front:
  "fk_direction key = Outbound \<Longrightarrow> custody_held key ep st \<Longrightarrow>
     flow_contract ep key = None \<or> fronted ep key st"
  by (cases "fmlookup (de_flows ep) key")
    (auto simp: custody_held_def fronted_def flow_contract_def peek_outbound_def channel_at_def channel_of_def)

lemma front_custody_held: "fronted ep key st \<Longrightarrow> custody_held key ep st"
  by (cases "fmlookup (de_flows ep) key")
    (auto simp: custody_held_def fronted_def peek_outbound_def channel_at_def channel_of_def
      split: if_splits list.splits)

text \<open>What the core's calls leave of the channel.\<close>

lemma channel_step_keeps:
  assumes "channel_step (channel_at key ep) (local_event key e) (channel_at key ep')"
    and "e \<noteq> EstablishedEvent key"
  shows "reliable_channel key ep \<Longrightarrow> reliable_channel key ep'"
    and "reliable_channel key ep \<Longrightarrow> custody_held key ep st \<Longrightarrow> \<forall>t. e \<noteq> CustodyEvent key t \<Longrightarrow>
      custody_held key ep' st"
proof -
  have ev: "local_event key e \<noteq> Opens" "\<forall>t. e \<noteq> CustodyEvent key t \<Longrightarrow> local_event key e \<noteq> Custody t" for t
    using assms(2) by (cases e; auto)+
  show "reliable_channel key ep \<Longrightarrow> reliable_channel key ep'"
    using assms(1) ev(1) by cases (auto simp: reliable_channel_def)
  show "reliable_channel key ep \<Longrightarrow> custody_held key ep st \<Longrightarrow> \<forall>t. e \<noteq> CustodyEvent key t \<Longrightarrow>
      custody_held key ep' st"
    using assms(1) ev by cases (auto simp: reliable_channel_def custody_held_def)
qed

lemma core_effect_reliable:
  assumes "endpoint_ok lim ep" "core_effect ep ep' key ts" "reliable_channel key ep"
  shows "reliable_channel key ep'"
proof -
  obtain xs es where x: "delivery_trace ep xs = Some (es, ep')" "length xs \<le> 1"
    "visible es = map (CustodyEvent key) ts"
    using assms(2) by (auto simp: core_effect_def)
  show ?thesis
  proof (cases xs)
    case Nil
    then show ?thesis using x assms(3) by simp
  next
    case (Cons y ys)
    then obtain e where e: "delivery_apply ep y = Some (e, ep')" "es = [e]"
      using x by (auto simp: bind_eq_Some_conv)
    have "e \<noteq> EstablishedEvent key" using x(3) e(2) by auto
    then show ?thesis using channel_step_keeps(1)[OF delivery_apply_step[OF assms(1) e(1)]] assms(3) by blast
  qed
qed


lemma request_finish_spec:
  assumes w: "stream_writer ops wlog" and at: "sender_at wlog r ps"
    and front: "or_terminal r \<or> flow_contract ep (or_key r) = None \<or> fronted ep (or_key r) (or_state r)"
  shows "\<exists>y r'. request_finish_normal ops r ep = Some (y, r') \<and> sender_at wlog r' ps
    \<and> or_key r' = or_key r \<and> or_flow_id r' = or_flow_id r \<and> or_terminal r' = or_terminal r
    \<and> (r' = r \<or> fronted ep (or_key r) (or_state r'))"
proof (cases "or_terminal r \<or> or_finish_ack r \<noteq> None \<or> flow_contract ep (or_key r) = None")
  case True
  then show ?thesis using at by (auto simp: request_finish_normal_def)
next
  case False
  then have sending: "sending (or_flow_id r) (or_state r) ps (wlog (or_writer r))"
    using at by (simp add: sender_at_def)
  obtain s st' where s: "next_segment (or_state r) ep (or_key r) = Some (s, st')"
    "sending (or_flow_id r) st' ps (wlog (or_writer r))"
    "os_current st' = os_current (or_state r) \<or> os_current (or_state r) = None
       \<and> (\<exists>m. os_current st' = Some m \<and> peek_outbound ep (or_key r) = Ok (Some (om_snapshot m)))"
    using next_segment_spec[OF sending] by blast
  have "fronted ep (or_key r) st'" using front False s(3) by (auto simp: fronted_def)
  moreover have "wlog (snd (wo_finish ops (or_writer r))) = wlog (or_writer r)"
    using w by (simp add: stream_writer_def)
  ultimately show ?thesis
    using s(1,2) at False
    by (cases s) (auto simp: request_finish_normal_def sender_at_def Let_def split: result.splits option.splits prod.splits)
qed

text \<open>One action of the host or the sender keeps everything in step.\<close>

definition sender_act_result ::
  "delivery_scope_limits \<Rightarrow> ('w \<Rightarrow> bytes) \<Rightarrow> ('w, 'f) sender_world \<Rightarrow> bytes list \<Rightarrow>
     delivery_event list \<times> ('w, 'f) sender_world \<Rightarrow> bool" where
  "sender_act_result lim wlog w ps out \<longleftrightarrow>
     (let key = or_key (fst w); es = fst out; w' = snd out
      in or_key (fst w') = key \<and> or_flow_id (fst w') = or_flow_id (fst w)
       \<and> EstablishedEvent key \<notin> set es
       \<and> sender_ok lim wlog w' (ps @ map em_payload (custody_messages key es))
       \<and> (\<exists>xs es'. delivery_trace (fst (snd w)) xs = Some (es', fst (snd w')) \<and> visible es' = visible es))"

lemma custody_messages_simps [simp]:
  "custody_messages k [] = []"
  "custody_messages k (es @ es') = custody_messages k es @ custody_messages k es'"
  by (simp_all add: custody_messages_def List.map_filter_def)

lemma custody_messages_one:
  "custody_messages k [e] = (case e of CustodyEvent k' t \<Rightarrow> if k' = k then [expose t] else [] | _ \<Rightarrow> [])"
  by (cases e) (simp_all add: custody_messages_def List.map_filter_def)

lemma no_custody_event:
  assumes "delivery_apply ep x = Some (e, ep')" "sender_host key (SenderHost x)"
  shows "e \<noteq> CustodyEvent key t" "e \<noteq> EstablishedEvent key"
  using assms by (cases x; auto elim!: custody_event.elims established_event.elims submit_event.elims
      buffered_event.elims exposed_event.elims)+

lemma sender_act_host:
  assumes "sender_ok lim wlog (r, ep, g) ps" "sender_host (or_key r) (SenderHost x)"
  shows "\<exists>out. sender_act ops (r, ep, g) (SenderHost x) = Some out
    \<and> sender_act_result lim wlog (r, ep, g) ps out"
proof -
  have ok: "endpoint_ok lim ep" using assms(1) by (simp add: sender_ok_def)
  obtain e ep' where e: "delivery_apply ep x = Some (e, ep')" "endpoint_ok lim ep'"
    using delivery_apply_ok[OF ok] by blast
  note quiet = no_custody_event[OF e(1) assms(2)]
  note keep = channel_step_keeps[OF delivery_apply_step[OF ok e(1)] quiet(2)]
  have "custody_messages (or_key r) [e] = []"
    using quiet(1) by (cases e) (auto simp: custody_messages_one)
  then have "sender_act_result lim wlog (r, ep, g) ps ([e], r, ep', g)"
    using assms(1) e quiet keep
    by (auto simp: sender_act_result_def sender_ok_def Let_def
        intro!: exI[of _ "[x]"] exI[of _ "[e]"])
  then show ?thesis using e(1) by simp
qed

lemma core_effect_trace:
  "core_effect ep ep' key ts \<Longrightarrow>
     \<exists>xs es. delivery_trace ep xs = Some (es, ep') \<and> visible es = map (CustodyEvent key) ts"
  by (auto simp: core_effect_def)

lemma sender_act_poll:
  assumes w: "stream_writer ops wlog" and ok: "sender_ok lim wlog (r, ep, g) ps"
  shows "\<exists>out. sender_act ops (r, ep, g) SenderPoll = Some out
    \<and> sender_act_result lim wlog (r, ep, g) ps out"
proof -
  have ep: "endpoint_ok lim ep" "sender_at wlog r ps" "reliable_channel (or_key r) ep"
    "fk_direction (or_key r) = Outbound"
    and front: "or_terminal r \<or> flow_contract ep (or_key r) = None \<or> fronted ep (or_key r) (or_state r)"
    using ok custody_held_front by (auto simp: sender_ok_def)
  obtain y r' ep' g' where y: "outbound_poll_step ops r ep g = Some (y, r', ep', g')"
    "sender_step_result lim wlog r ep ps (y, r', ep', g')"
    using outbound_poll_step_spec[OF w ep(1,2) front] by (metis prod.exhaust)
  have st: "endpoint_ok lim ep'" "or_flow_id r' = or_flow_id r" "or_key r' = or_key r"
    "or_terminal r' \<or> fronted ep' (or_key r) (or_state r')"
    using y(2) by (simp_all add: sender_step_result_def)
  have held: "or_terminal r' \<or> custody_held (or_key r) ep' (or_state r')"
    using st(4) front_custody_held by blast
  have "\<exists>ts. poll_events ep (or_key r) y = map (CustodyEvent (or_key r)) ts
      \<and> core_effect ep ep' (or_key r) ts \<and> sender_at wlog r' (ps @ map dt_payload ts)"
  proof (cases "\<exists>idx. y = Ready (Ok (SendCommitted idx))")
    case True
    then obtain t where "peek_outbound ep (or_key r) = Ok (Some t)"
      "core_effect ep ep' (or_key r) [t]" "sender_at wlog r' (ps @ [dt_payload t])"
      using y(2) by (auto simp: sender_step_result_def)
    then show ?thesis using True by (auto intro!: exI[of _ "[t]"])
  next
    case False
    then have "core_effect ep ep' (or_key r) [] \<and> sender_at wlog r' ps \<and> poll_events ep (or_key r) y = []"
      using y(2) by (auto simp: sender_step_result_def split: poll.splits result.splits send_progress.splits)
    then show ?thesis by (auto intro!: exI[of _ "[]"])
  qed
  then obtain ts where ts: "poll_events ep (or_key r) y = map (CustodyEvent (or_key r)) ts"
    "core_effect ep ep' (or_key r) ts" "sender_at wlog r' (ps @ map dt_payload ts)" by blast
  have pay: "map em_payload (custody_messages (or_key r) (map (CustodyEvent (or_key r)) ts)) = map dt_payload ts"
    by (induction ts) (simp_all add: custody_messages_def List.map_filter_def expose_def)
  have vis: "visible (map (CustodyEvent (or_key r)) ts) = map (CustodyEvent (or_key r)) ts"
    by (induction ts) simp_all
  have "sender_act_result lim wlog (r, ep, g) ps (poll_events ep (or_key r) y, r', ep', g')"
    using st held ts core_effect_reliable[OF ep(1) ts(2) ep(3)] core_effect_trace[OF ts(2)] ep(4) pay vis
    by (auto simp: sender_act_result_def sender_ok_def Let_def)
  then show ?thesis using y(1) by auto
qed

lemma sender_act_finish:
  assumes w: "stream_writer ops wlog" and ok: "sender_ok lim wlog (r, ep, g) ps"
  shows "\<exists>out. sender_act ops (r, ep, g) SenderFinish = Some out
    \<and> sender_act_result lim wlog (r, ep, g) ps out"
proof -
  have at: "sender_at wlog r ps"
    and front: "or_terminal r \<or> flow_contract ep (or_key r) = None \<or> fronted ep (or_key r) (or_state r)"
    using ok custody_held_front by (auto simp: sender_ok_def)
  obtain y r' where r': "request_finish_normal ops r ep = Some (y, r')" "sender_at wlog r' ps"
    "or_key r' = or_key r" "or_flow_id r' = or_flow_id r" "or_terminal r' = or_terminal r"
    "r' = r \<or> fronted ep (or_key r) (or_state r')"
    using request_finish_spec[OF w at front] by blast
  have "or_terminal r \<or> custody_held (or_key r) ep (or_state r')"
    using r'(6) ok front_custody_held by (auto simp: sender_ok_def)
  then have "sender_act_result lim wlog (r, ep, g) ps ([], r', ep, g)"
    using r'(2-5) ok
    by (auto simp: sender_act_result_def sender_ok_def intro!: exI[of _ "[]"])
  then show ?thesis using r'(1) by simp
qed


lemma delivery_trace_append:
  "delivery_trace ep (xs @ ys) = do {
     (es, ep1) \<leftarrow> delivery_trace ep xs;
     (es', ep2) \<leftarrow> delivery_trace ep1 ys;
     Some (es @ es', ep2) }"
proof (induction xs arbitrary: ep)
  case Nil
  then show ?case by (cases "delivery_trace ep ys") auto
next
  case (Cons x xs)
  show ?case
    by (cases "delivery_apply ep x")
      (auto simp: Cons.IH bind_eq_Some_conv split: bind_splits prod.splits)
qed

text \<open>
  Any interleaving of the sender with its host runs to the end, looks to the core like a sequence
  of its own calls, and leaves on the stream the messages the core has released, in order.
\<close>

lemma sender_run_spec:
  assumes w: "stream_writer ops wlog" and ok: "sender_ok lim wlog w ps"
    and host: "list_all (sender_host (or_key (fst w))) as"
  shows "\<exists>out. sender_run ops w as = Some out \<and> sender_act_result lim wlog w ps out"
  using ok host
proof (induction as arbitrary: w ps)
  case Nil
  then show ?case
    by (auto simp: sender_act_result_def Let_def intro!: exI[of _ "[]"])
next
  case (Cons a as)
  obtain r ep g where w: "w = (r, ep, g)" by (cases w)
  have ok: "sender_ok lim wlog (r, ep, g) ps" and host: "sender_host (or_key r) a"
    using Cons.prems w by simp_all
  have "\<exists>out. sender_act ops w a = Some out \<and> sender_act_result lim wlog w ps out"
    unfolding w using sender_act_host[OF ok, of _ ops] host
      sender_act_poll[OF assms(1) ok] sender_act_finish[OF assms(1) ok] by (cases a) blast+
  then obtain es w1 where a: "sender_act ops w a = Some (es, w1)" "sender_act_result lim wlog w ps (es, w1)"
    by auto
  have key: "or_key (fst w1) = or_key (fst w)" using a(2) by (simp add: sender_act_result_def Let_def)
  have ok1: "sender_ok lim wlog w1 (ps @ map em_payload (custody_messages (or_key (fst w)) es))"
    using a(2) by (simp add: sender_act_result_def Let_def)
  obtain es' w2 where run: "sender_run ops w1 as = Some (es', w2)"
    "sender_act_result lim wlog w1 (ps @ map em_payload (custody_messages (or_key (fst w)) es)) (es', w2)"
    using Cons.IH[OF ok1] Cons.prems(2) key by fastforce
  obtain xs cs where x: "delivery_trace (fst (snd w)) xs = Some (cs, fst (snd w1))" "visible cs = visible es"
    using a(2) by (auto simp: sender_act_result_def Let_def)
  obtain ys ds where y: "delivery_trace (fst (snd w1)) ys = Some (ds, fst (snd w2))" "visible ds = visible es'"
    using run(2) by (auto simp: sender_act_result_def Let_def)
  have "delivery_trace (fst (snd w)) (xs @ ys) = Some (cs @ ds, fst (snd w2))"
    using x(1) y(1) by (simp add: delivery_trace_append)
  moreover have "visible (cs @ ds) = visible (es @ es')" using x(2) y(2) by simp
  ultimately have "sender_act_result lim wlog w ps (es @ es', w2)"
    using a(2) run(2) key unfolding sender_act_result_def Let_def
    by (auto simp del: filter_append)
  then show ?case using a(1) run(1) by simp
qed

end
