(* ===== verification/Datagram_Contract.thy ===== *)
theory Datagram_Contract
  imports Datagrams Stream_Sender Delivery_Contract
begin

text \<open>
  The properties of unreliable flows over datagrams: what reaches the transport, what reaches the
  receiving core, and that the two fit together.
\<close>

section \<open>The bytes of a datagram\<close>

definition datagram_bytes :: "flow_id \<Rightarrow> delivery_mode \<Rightarrow> u64 \<Rightarrow> bytes \<Rightarrow> bytes" where
  "datagram_bytes i mode idx payload = vslice (flow_id_value i)
     @ (if mode = UnreliableSequenced then vslice idx else []) @ payload"

definition sequence_of :: "delivery_mode \<Rightarrow> u64 \<Rightarrow> u64 option" where
  "sequence_of mode idx = (if mode = UnreliableSequenced then Some idx else None)"

lemma datagram_len_spec:
  assumes "mode \<noteq> ReliableOrdered"
  shows "\<exists>r. datagram_len_with wire overflow exhausted reliable i mode (sequence_of mode idx) n = Some r
    \<and> (\<forall>k. r = Ok k \<longleftrightarrow> flow_id_value i \<le> MAX_VARINT \<and> (mode = UnreliableSequenced \<longrightarrow> idx \<le> MAX_VARINT)
         \<and> k \<le> usize_max \<and> k = length (vslice (flow_id_value i))
             + (if mode = UnreliableSequenced then length (vslice idx) else 0) + n)
    \<and> (\<forall>e. r = Err e \<longrightarrow> (\<exists>w. e = wire w) \<or> e = overflow \<or> e = exhausted)"
proof (cases "flow_id_value i" rule: encode_varint_cases)
  case flow: (Small e)
  have le: "a + b \<le> usize_max" if "a + b + n \<le> usize_max" for a b using that by simp
  show ?thesis
  proof (cases mode)
    case UnreliableSequenced
    show ?thesis
    proof (cases idx rule: encode_varint_cases)
      case (Small x)
      then show ?thesis
        using flow UnreliableSequenced
        by (auto simp: datagram_len_with_def sequence_of_def result_bind_def checked_add_def ok_or_def not_less)
    next
      case Large
      then show ?thesis
        using flow UnreliableSequenced
        by (auto simp: datagram_len_with_def sequence_of_def result_bind_def)
    qed
  next
    case UnreliableUnordered
    then show ?thesis
      using flow by (auto simp: datagram_len_with_def sequence_of_def result_bind_def checked_add_def ok_or_def)
  qed (use assms in simp)
next
  case Large
  then show ?thesis by (auto simp: datagram_len_with_def)
qed

lemma encode_datagram_spec:
  assumes "mode \<noteq> ReliableOrdered" "datagram_len_for_send i mode (sequence_of mode idx) (length payload) = Some (Ok n)"
  shows "encode_datagram alloc i mode (sequence_of mode idx) payload
      = Some (if alloc n then Ok (datagram_bytes i mode idx payload) else Err DriveAllocationFailed)"
    and "n = length (datagram_bytes i mode idx payload)"
proof -
  obtain r where r: "datagram_len_with DriveWire DriveLengthOverflow DriveSequenceExhausted DriveReliableFlow
      i mode (sequence_of mode idx) (length payload) = Some r"
    and iff: "\<forall>k. r = Ok k \<longleftrightarrow> flow_id_value i \<le> MAX_VARINT \<and> (mode = UnreliableSequenced \<longrightarrow> idx \<le> MAX_VARINT)
         \<and> k \<le> usize_max \<and> k = length (vslice (flow_id_value i))
             + (if mode = UnreliableSequenced then length (vslice idx) else 0) + length payload"
    using datagram_len_spec[OF assms(1), of DriveWire DriveLengthOverflow DriveSequenceExhausted DriveReliableFlow
        i idx "length payload"] by (elim exE conjE) (rule that; assumption)
  have "r = Ok n" using r assms(2) unfolding datagram_len_for_send_def by simp
  from iff[rule_format, of n, THEN iffD1, OF this]
  have fits: "flow_id_value i \<le> MAX_VARINT" "mode = UnreliableSequenced \<longrightarrow> idx \<le> MAX_VARINT"
    and len: "n = length (vslice (flow_id_value i))
      + (if mode = UnreliableSequenced then length (vslice idx) else 0) + length payload"
    by blast+
  have n: "n = length (datagram_bytes i mode idx payload)" unfolding len by (simp add: datagram_bytes_def)
  show "n = length (datagram_bytes i mode idx payload)" by (rule n)
  obtain e where e: "encode_varint (flow_id_value i) = Some (Ok e)" "varint_slice e = vslice (flow_id_value i)"
    using fits(1) by (cases "flow_id_value i" rule: encode_varint_cases) auto
  show "encode_datagram alloc i mode (sequence_of mode idx) payload
      = Some (if alloc n then Ok (datagram_bytes i mode idx payload) else Err DriveAllocationFailed)"
  proof (cases mode)
    case UnreliableSequenced
    then obtain x where "encode_varint idx = Some (Ok x)" "varint_slice x = vslice idx"
      using fits(2) by (cases idx rule: encode_varint_cases) auto
    then show ?thesis
      using assms(2) e UnreliableSequenced by (simp add: encode_datagram_def sequence_of_def datagram_bytes_def)
  next
    case UnreliableUnordered
    then show ?thesis
      using assms(2) e by (simp add: encode_datagram_def sequence_of_def datagram_bytes_def)
  qed (use assms(1) in simp)
qed

section \<open>Sending\<close>

text \<open>
  The outcomes of driving one message \<open>t\<close>: it went to the transport, it was dropped and counted,
  or nothing but the transport changed.
\<close>

definition drive_result ::
  "'t datagram_transport \<Rightarrow> 't datagram_sender \<Rightarrow> delivery_endpoint \<Rightarrow> delivery_flow_key \<Rightarrow> bytes \<Rightarrow>
     delivery_transfer \<Rightarrow>
     (datagram_send_progress, datagram_send_error) result \<times> 't datagram_sender \<times> delivery_endpoint \<Rightarrow> bool" where
  "drive_result ops s ep key bs t out \<longleftrightarrow> (case out of (x, s', ep') \<Rightarrow>
     (case x of
        Ok (DatagramEnqueued idx) \<Rightarrow> idx = dt_accepted_index t
          \<and> commit_outbound_custody ep key idx = Some (Ok t, ep')
          \<and> (\<exists>w. dgt_send ops w bs = (Ok (), dgs_transport s'))
          \<and> dgs_outbound_transport_drops s' = dgs_outbound_transport_drops s
      | Ok (DroppedTransport idx) \<Rightarrow> idx = dt_accepted_index t
          \<and> commit_outbound_custody ep key idx = Some (Ok t, ep')
          \<and> dgs_outbound_transport_drops s' = saturating_add (dgs_outbound_transport_drops s) 1
      | Err (DriveCustody _) \<Rightarrow> False
      | _ \<Rightarrow> ep' = ep \<and> dgs_outbound_transport_drops s' = dgs_outbound_transport_drops s))"

lemma drive_result_same:
  "drive_result ops (s\<lparr>dgs_transport := w\<rparr>) ep key bs t out \<longleftrightarrow> drive_result ops s ep key bs t out"
  by (auto simp: drive_result_def split: prod.split result.split datagram_send_progress.split
      datagram_send_error.split)

lemma drop_transport_spec:
  assumes "commit_outbound_custody ep key (dt_accepted_index t) = Some (Ok t, ep')"
  shows "\<exists>out. drop_transport s ep key (dt_accepted_index t) = Some out \<and> drive_result ops s ep key bs t out"
  using assms by (simp add: drop_transport_def drive_result_def)

lemma hand_over_spec:
  assumes "commit_outbound_custody ep key (dt_accepted_index t) = Some (Ok t, ep')"
  shows "\<exists>out. hand_over ops s ep key (dt_accepted_index t) bs = Some out \<and> drive_result ops s ep key bs t out"
proof -
  obtain m w where m: "dgt_max_size ops (dgs_transport s) = (m, w)" by fastforce
  obtain a w' where a: "dgt_space ops w = (a, w')" by fastforce
  obtain y v where y: "dgt_send ops w' bs = (y, v)" by fastforce
  have drop: "\<exists>out. drop_transport (s\<lparr>dgs_transport := z\<rparr>) ep key (dt_accepted_index t) = Some out
      \<and> drive_result ops s ep key bs t out" for z
    using drop_transport_spec[OF assms, of "s\<lparr>dgs_transport := z\<rparr>" ops bs] by (simp add: drive_result_same)
  have quiet: "drive_result ops s ep key bs t (x, s\<lparr>dgs_transport := z\<rparr>, ep)"
    if "x = Err ProfileUnavailable \<or> x = Err DriveConnectionLost \<or> (\<exists>p q. x = Ok (BlockedNativeBuffer p q))" for x z
    using that by (auto simp: drive_result_def)
  show ?thesis
  proof (cases "\<exists>k. m = Some k \<and> length bs \<le> k \<and> length bs \<le> a")
    case False
    then show ?thesis
      using m a drop quiet by (cases m) (auto simp: hand_over_def not_le)
  next
    case True
    then have go: "hand_over ops s ep key (dt_accepted_index t) bs =
      (case y of
         Ok _ \<Rightarrow> do {
           (z, ep) \<leftarrow> commit_outbound_custody ep key (dt_accepted_index t);
           Some (case z of Err e \<Rightarrow> (Err (DriveCustody e), s\<lparr>dgs_transport := v\<rparr>, ep)
                         | Ok _ \<Rightarrow> (Ok (DatagramEnqueued (dt_accepted_index t)), s\<lparr>dgs_transport := v\<rparr>, ep)) }
       | Err TransportTooLarge \<Rightarrow> drop_transport (s\<lparr>dgs_transport := v\<rparr>) ep key (dt_accepted_index t)
       | Err TransportConnectionLost \<Rightarrow> Some (Err DriveConnectionLost, s\<lparr>dgs_transport := v\<rparr>, ep)
       | Err _ \<Rightarrow> Some (Err ProfileUnavailable, s\<lparr>dgs_transport := v\<rparr>, ep))"
      using m a y by (auto simp: hand_over_def Let_def split: result.split datagram_transport_error.split)
    show ?thesis
    proof (cases y)
      case (Ok u)
      then show ?thesis using go assms y by (auto simp: drive_result_def)
    next
      case (Err e)
      then show ?thesis using go drop quiet by (cases e) auto
    qed
  qed
qed

lemma drive_sized_spec:
  assumes "commit_outbound_custody ep (rf_key flow) (dt_accepted_index t) = Some (Ok t, ep')"
    and mode: "rf_mode flow \<noteq> ReliableOrdered"
    and n: "datagram_len_for_send i (rf_mode flow) (sequence_of (rf_mode flow) (dt_accepted_index t))
      (length (dt_payload t)) = Some (Ok n)"
  shows "\<exists>out. drive_sized alloc ops s ep flow i t (sequence_of (rf_mode flow) (dt_accepted_index t)) n = Some out
    \<and> drive_result ops s ep (rf_key flow) (datagram_bytes i (rf_mode flow) (dt_accepted_index t) (dt_payload t)) t out"
proof -
  let ?bs = "datagram_bytes i (rf_mode flow) (dt_accepted_index t) (dt_payload t)"
  obtain m w where m: "dgt_max_size ops (dgs_transport s) = (m, w)" by fastforce
  obtain a w' where a: "dgt_space ops w = (a, w')" by fastforce
  have drop: "\<exists>out. drop_transport (s\<lparr>dgs_transport := z\<rparr>) ep (rf_key flow) (dt_accepted_index t) = Some out
      \<and> drive_result ops s ep (rf_key flow) ?bs t out" for z
    using drop_transport_spec[OF assms(1), of "s\<lparr>dgs_transport := z\<rparr>" ops ?bs] by (simp add: drive_result_same)
  have hand: "\<exists>out. hand_over ops (s\<lparr>dgs_transport := z\<rparr>) ep (rf_key flow) (dt_accepted_index t) ?bs = Some out
      \<and> drive_result ops s ep (rf_key flow) ?bs t out" for z
    using hand_over_spec[OF assms(1), of ops "s\<lparr>dgs_transport := z\<rparr>" ?bs] by (simp add: drive_result_same)
  have quiet: "drive_result ops s ep (rf_key flow) ?bs t (x, s\<lparr>dgs_transport := z\<rparr>, ep)"
    if "x = Err ProfileUnavailable \<or> x = Err DriveAllocationFailed \<or> (\<exists>p q. x = Ok (BlockedNativeBuffer p q))" for x z
    using that by (auto simp: drive_result_def)
  show ?thesis
    using m a drop hand quiet encode_datagram_spec(1)[OF mode n, of alloc]
    by (cases m) (auto simp: drive_sized_def Let_def)
qed

lemma drive_one_step:
  assumes "registered_outbound_unreliable g i = Ok flow" "peek_outbound ep (rf_key flow) = Ok (Some t)"
    "dt_mode t = rf_mode flow" "payload_len t \<le> rf_max_message_bytes flow" "rf_mode flow \<noteq> ReliableOrdered"
    and "datagram_len_for_send i (rf_mode flow) (sequence_of (rf_mode flow) (dt_accepted_index t))
      (length (dt_payload t)) = Some r"
  shows "drive_one alloc ops s ep g i = (case r of Err e \<Rightarrow> Some (Err e, s, ep)
      | Ok n \<Rightarrow> drive_sized alloc ops s ep flow i t (sequence_of (rf_mode flow) (dt_accepted_index t)) n)"
  using assms unfolding drive_one_def Let_def payload_len_def sequence_of_def[symmetric] by simp

text \<open>Whatever is wrong with the flow or with its next message, nothing happens.\<close>

lemma drive_one_spec:
  assumes ok: "endpoint_ok lim ep"
  shows "\<exists>x s' ep'. drive_one alloc ops s ep g i = Some (x, s', ep') \<and> endpoint_ok lim ep'
    \<and> (if \<exists>idx. x = Ok (DatagramEnqueued idx) \<or> x = Ok (DroppedTransport idx)
       then \<exists>flow t. lookup_flow g i = Some flow \<and> fk_direction (rf_key flow) = Outbound
         \<and> rf_mode flow \<noteq> ReliableOrdered \<and> peek_outbound ep (rf_key flow) = Ok (Some t) \<and> dt_mode t = rf_mode flow
         \<and> drive_result ops s ep (rf_key flow)
             (datagram_bytes i (rf_mode flow) (dt_accepted_index t) (dt_payload t)) t (x, s', ep')
       else ep' = ep \<and> dgs_outbound_transport_drops s' = dgs_outbound_transport_drops s \<and> (\<forall>e. x \<noteq> Err (DriveCustody e)))"
proof (cases "\<exists>flow t. registered_outbound_unreliable g i = Ok flow \<and> peek_outbound ep (rf_key flow) = Ok (Some t)
    \<and> dt_mode t = rf_mode flow \<and> payload_len t \<le> rf_max_message_bytes flow")
  case False
  then have "\<exists>x. drive_one alloc ops s ep g i = Some (x, s, ep)
      \<and> (\<forall>idx. x \<noteq> Ok (DatagramEnqueued idx) \<and> x \<noteq> Ok (DroppedTransport idx)) \<and> (\<forall>e. x \<noteq> Err (DriveCustody e))"
    by (auto simp: drive_one_def map_registration_send_error_def
        split: result.split option.split registration_use_error.split)
  then obtain x where "drive_one alloc ops s ep g i = Some (x, s, ep)"
    "\<forall>idx. x \<noteq> Ok (DatagramEnqueued idx) \<and> x \<noteq> Ok (DroppedTransport idx)" "\<forall>e. x \<noteq> Err (DriveCustody e)"
    by blast
  then show ?thesis using ok by (intro exI[of _ x] exI[of _ s] exI[of _ ep]) simp
next
  case True
  then obtain flow t where t: "registered_outbound_unreliable g i = Ok flow"
    "peek_outbound ep (rf_key flow) = Ok (Some t)" "dt_mode t = rf_mode flow" "payload_len t \<le> rf_max_message_bytes flow"
    by blast
  have flow: "lookup_flow g i = Some flow" "fk_direction (rf_key flow) = Outbound" "rf_mode flow \<noteq> ReliableOrdered"
    using t(1) by (auto simp: registered_outbound_unreliable_def split: option.splits if_splits)
  let ?seq = "sequence_of (rf_mode flow) (dt_accepted_index t)"
  obtain ep1 where commit: "commit_outbound_custody ep (rf_key flow) (dt_accepted_index t) = Some (Ok t, ep1)"
    using peek_commit[OF ok t(2)] by blast
  have ok1: "endpoint_ok lim ep1" using commit_outbound_custody_ok[OF ok, of "rf_key flow" "dt_accepted_index t"] commit by auto
  obtain r where r: "datagram_len_for_send i (rf_mode flow) ?seq (length (dt_payload t)) = Some r"
    and err: "\<forall>e. r = Err e \<longrightarrow> (\<exists>w. e = DriveWire w) \<or> e = DriveLengthOverflow \<or> e = DriveSequenceExhausted"
    using datagram_len_spec[OF flow(3), of DriveWire DriveLengthOverflow DriveSequenceExhausted DriveReliableFlow
        i "dt_accepted_index t" "length (dt_payload t)", folded datagram_len_for_send_def]
    by (elim exE conjE) (rule that; assumption)
  have step: "drive_one alloc ops s ep g i = (case r of Err e \<Rightarrow> Some (Err e, s, ep)
      | Ok n \<Rightarrow> drive_sized alloc ops s ep flow i t ?seq n)"
    by (rule drive_one_step[OF t flow(3) r])
  show ?thesis
  proof (cases r)
    case (Err e)
    have "e \<noteq> DriveCustody c" for c
      using err Err by auto
    then show ?thesis using step Err ok by auto
  next
    case (Ok n)
    obtain x s' ep' where out: "drive_one alloc ops s ep g i = Some (x, s', ep')"
      "drive_result ops s ep (rf_key flow) (datagram_bytes i (rf_mode flow) (dt_accepted_index t) (dt_payload t)) t (x, s', ep')"
      using drive_sized_spec[OF commit flow(3) r[unfolded Ok], of alloc ops s] step Ok by auto
    show ?thesis
      using out flow t(2,3) ok ok1 commit
      by (auto simp: drive_result_def split: result.splits datagram_send_progress.splits datagram_send_error.splits)
  qed
qed

text \<open>What was enqueued could be encoded and was within the limit.\<close>

lemma drive_one_sent:
  assumes "drive_one alloc ops s ep g i = Some (Ok (DatagramEnqueued idx), s', ep')"
    "lookup_flow g i = Some flow" "peek_outbound ep (rf_key flow) = Ok (Some t)"
  shows "payload_len t \<le> rf_max_message_bytes flow \<and> flow_id_value i \<le> MAX_VARINT
    \<and> (rf_mode flow = UnreliableSequenced \<longrightarrow> dt_accepted_index t \<le> MAX_VARINT)"
proof -
  have flow: "registered_outbound_unreliable g i = Ok flow" "rf_mode flow \<noteq> ReliableOrdered"
    using assms(1,2) by (auto simp: drive_one_def registered_outbound_unreliable_def split: if_splits)
  have t: "payload_len t \<le> rf_max_message_bytes flow" "dt_mode t = rf_mode flow"
    using assms(1,3) flow by (auto simp: drive_one_def split: if_splits)
  let ?seq = "sequence_of (rf_mode flow) (dt_accepted_index t)"
  obtain r where r: "datagram_len_for_send i (rf_mode flow) ?seq (length (dt_payload t)) = Some r"
    "\<forall>k. r = Ok k \<longleftrightarrow> flow_id_value i \<le> MAX_VARINT \<and> (rf_mode flow = UnreliableSequenced \<longrightarrow> dt_accepted_index t \<le> MAX_VARINT)
         \<and> k \<le> usize_max \<and> k = length (vslice (flow_id_value i))
             + (if rf_mode flow = UnreliableSequenced then length (vslice (dt_accepted_index t)) else 0)
             + length (dt_payload t)"
    using datagram_len_spec[OF flow(2), of DriveWire DriveLengthOverflow DriveSequenceExhausted DriveReliableFlow
        i "dt_accepted_index t" "length (dt_payload t)", folded datagram_len_for_send_def]
    by (elim exE conjE) (rule that; assumption)
  have "drive_one alloc ops s ep g i = (case r of Err e \<Rightarrow> Some (Err e, s, ep)
      | Ok n \<Rightarrow> drive_sized alloc ops s ep flow i t ?seq n)"
    by (rule drive_one_step[OF flow(1) assms(3) t(2,1) flow(2) r(1)])
  then obtain n where "r = Ok n" using assms(1) by (cases r) auto
  then show ?thesis using r(2) t(1) by blast
qed

section \<open>Submitting\<close>

definition submission_outcome_of :: "submission_outcome \<Rightarrow> datagram_submission_outcome" where
  "submission_outcome_of r = (case r of Accepted idx n \<Rightarrow> DatagramAccepted idx n | RejectedTooLarge \<Rightarrow> DatagramTooLarge
     | RejectedPressure \<Rightarrow> DatagramPressure | RejectedCounterExhausted \<Rightarrow> DatagramCounterExhausted)"

lemma submit_accepts_candidate:
  assumes "endpoint_ok lim ep" "next_outbound_accepted_index ep key = Ok (Some c)"
    "submit ep key payload = Some (Ok (Accepted idx n), ep')"
  shows "idx = c"
proof -
  obtain f where f: "fmlookup (de_flows ep) key = Some f" "fk_direction key = Outbound" "fl_next_accepted_index f = Some c"
    using assms(2) by (auto simp: next_outbound_accepted_index_def split: option.splits if_splits)
  show ?thesis using submit_ok[OF assms(1) f(1,2), of payload] assms(3) f(3) by (auto simp: submit_promise_def)
qed

text \<open>
  Either the core is not asked, or it is asked once, with the payload, and its answer is the answer.
\<close>

lemma datagram_submit_spec:
  assumes "endpoint_ok lim ep"
  shows "\<exists>x s' ep'. datagram_submit ops s ep g i payload = Some (x, s', ep')
    \<and> (\<forall>a b. x \<noteq> Err (AcceptedIndexMismatch a b))
    \<and> (ep' = ep \<and> (\<forall>idx n. x \<noteq> Ok (DatagramAccepted idx n))
       \<or> (\<exists>flow r. registered_outbound_unreliable g i = Ok flow \<and> length payload \<le> rf_max_message_bytes flow
            \<and> submit ep (rf_key flow) payload = Some (r, ep')
            \<and> x = (case r of Ok out \<Rightarrow> Ok (submission_outcome_of out) | Err e \<Rightarrow> Err (SubmitCore e))))"
proof (cases "registered_outbound_unreliable g i")
  case (Err e)
  then show ?thesis
    by (cases e) (auto simp: datagram_submit_def map_registration_submission_error_def)
next
  case (Ok flow)
  have mode: "rf_mode flow \<noteq> ReliableOrdered"
    using Ok by (auto simp: registered_outbound_unreliable_def split: option.splits if_splits)
  define cand where "cand = (if rf_mode flow = UnreliableSequenced then
    (case next_outbound_accepted_index ep (rf_key flow) of Err e \<Rightarrow> Err (SubmitCore e)
      | Ok (Some n) \<Rightarrow> Ok (Ok (Some n)) | Ok None \<Rightarrow> Ok (Err DatagramCounterExhausted)) else Ok (Ok None))"
  obtain r ep1 where r: "submit ep (rf_key flow) payload = Some (r, ep1)" using submit_total[OF assms] by blast
  obtain m w where m: "dgt_max_size ops (dgs_transport s) = (m, w)" by fastforce
  show ?thesis
  proof (cases "length payload \<le> rf_max_message_bytes flow \<and> (\<exists>c. cand = Ok (Ok c))")
    case False
    then show ?thesis
      using Ok mode by (cases "rf_mode flow")
        (auto simp: datagram_submit_def cand_def split: result.splits option.splits)
  next
    case True
    then obtain c where c: "cand = Ok (Ok c)" and len: "length payload \<le> rf_max_message_bytes flow" by blast
    have cand_seq: "c = Some d \<Longrightarrow> next_outbound_accepted_index ep (rf_key flow) = Ok (Some d)" for d
      using c by (auto simp: cand_def split: if_splits result.splits option.splits)
    have "c = sequence_of (rf_mode flow) (case c of Some d \<Rightarrow> d | None \<Rightarrow> 0)"
      using c by (auto simp: cand_def sequence_of_def split: if_splits result.splits option.splits)
    then obtain y where y: "datagram_len i (rf_mode flow) c (length payload) = Some y"
      "\<forall>e. y = Err e \<longrightarrow> (\<exists>w. e = SubmitWire w) \<or> e = SubmitLengthOverflow \<or> e = SubmitSequenceExhausted"
      using datagram_len_spec[OF mode, of SubmitWire SubmitLengthOverflow SubmitSequenceExhausted SubmitReliableFlow i
          "case c of Some d \<Rightarrow> d | None \<Rightarrow> 0" "length payload", folded datagram_len_def]
      by (elim exE conjE) (rule that; simp)
    have go: "datagram_submit ops s ep g i payload = (case y of
        Err e \<Rightarrow> Some (Err e, s, ep)
      | Ok n \<Rightarrow>
        (case m of None \<Rightarrow> Some (Ok DatagramTransportUnavailable, s\<lparr>dgs_transport := w\<rparr>, ep)
         | Some k \<Rightarrow> if n > k then Some (Ok DatagramCurrentSize, s\<lparr>dgs_transport := w\<rparr>, ep)
            else Some (case r of Err e \<Rightarrow> Err (SubmitCore e) | Ok out \<Rightarrow> Ok (submission_outcome_of out),
              s\<lparr>dgs_transport := w\<rparr>, ep1)))"
      using Ok mode c len y(1) m r submit_accepts_candidate[OF assms cand_seq]
      by (cases "rf_mode flow")
        (auto simp: datagram_submit_def cand_def submission_outcome_of_def Let_def split: result.splits option.splits
          submission_outcome.splits)
    show ?thesis
      using go y(2) Ok len r
      by (cases y; cases m) (auto simp: submission_outcome_of_def split: result.splits if_splits)
  qed
qed

section \<open>Receiving\<close>

lemma decode_bytes:
  assumes "flow_id_value i \<le> MAX_VARINT" "mode = UnreliableSequenced \<longrightarrow> idx \<le> MAX_VARINT" "mode \<noteq> ReliableOrdered"
  shows "decode_varint (datagram_bytes i mode idx payload) = Ok (flow_id_value i, length (vslice (flow_id_value i)))"
    and "\<exists>n. datagram_index mode (datagram_bytes i mode idx payload) (length (vslice (flow_id_value i)))
      = Ok (if mode = UnreliableSequenced then idx else UNORDERED_INGRESS_INDEX, n)
      \<and> drop n (datagram_bytes i mode idx payload) = payload"
  using assms by (auto simp: datagram_bytes_def datagram_index_def split: delivery_mode.split)

lemma split_bytes:
  assumes "decode_varint d = Ok (v, k)" "datagram_index mode d k = Ok (idx, n)"
  shows "v \<le> MAX_VARINT \<and> d = datagram_bytes (FlowId v) mode idx (drop n d)
    \<and> (mode = UnreliableSequenced \<longrightarrow> idx \<le> MAX_VARINT)"
proof -
  have flow: "v \<le> MAX_VARINT" "d = vslice v @ drop k d"
    using assms(1) unfolding decode_varint_iff by (auto) (metis append_take_drop_id)
  show ?thesis
  proof (cases mode)
    case UnreliableSequenced
    then obtain m where m: "decode_varint (drop k d) = Ok (idx, m)" "n = k + m"
      using assms(2) by (auto simp: datagram_index_def split: result.splits)
    then have "idx \<le> MAX_VARINT" "drop k d = vslice idx @ drop m (drop k d)"
      unfolding decode_varint_iff by auto (metis append_take_drop_id drop_drop)
    then show ?thesis using flow m(2) UnreliableSequenced by (simp add: datagram_bytes_def add.commute)
  qed (use assms(2) flow in \<open>auto simp: datagram_index_def datagram_bytes_def\<close>)
qed

section \<open>A pair of endpoints\<close>

definition demo_transport :: "bytes datagram_transport" where
  "demo_transport = \<lparr>dgt_max_size = (\<lambda>w. (Some 1200, w)), dgt_space = (\<lambda>w. (2400, w)),
     dgt_send = (\<lambda>w bs. (Ok (), bs))\<rparr>"

definition demo_flow :: "flow_direction \<Rightarrow> registered_flow" where
  "demo_flow d = \<lparr>rf_key = demo_key d, rf_mode = UnreliableSequenced, rf_max_message_bytes = 8, rf_association = None\<rparr>"

definition demo_flows :: "flow_direction \<Rightarrow> flow_registry" where
  "demo_flows d = \<lparr>fg_local_side = Client, fg_max_active = 4, fg_flows = fmupd 4 (demo_flow d) fmempty\<rparr>"

definition demo_calls :: "flow_direction \<Rightarrow> bytes list \<Rightarrow> delivery_call list" where
  "demo_calls d ps = CallEstablish (demo_key d) UnreliableSequenced demo_evicting demo_limits
     # map (CallSubmit (demo_key d)) ps"

lemmas datagram_eval =
  demo_transport_def demo_flow_def demo_flows_def demo_calls_def drive_one_def registered_outbound_unreliable_def
  lookup_flow_def peek_outbound_def datagram_len_for_send_def datagram_len_with_def encode_varint_def varint_len_def
  varint_buffer_def varint_slice_def MAX_VARINT_def ok_or_def result_bind_def drive_sized_def encode_datagram_def
  hand_over_def datagram_sender_new_def Let_def

lemma demo_drive:
  obtains ep s' ep' where "endpoint_run demo_limits (demo_calls Outbound [[5], [6]]) = Some ep" "endpoint_ok demo_limits ep"
    "drive_one (\<lambda>_. True) demo_transport (datagram_sender_new []) ep (demo_flows Outbound) (FlowId 4)
       = Some (Ok (DatagramEnqueued 0), s', ep')" "dgs_transport s' = [4, 0, 5]"
proof -
  have "\<exists>ep s' ep'. endpoint_run demo_limits (demo_calls Outbound [[5], [6]]) = Some ep
    \<and> drive_one (\<lambda>_. True) demo_transport (datagram_sender_new []) ep (demo_flows Outbound) (FlowId 4)
       = Some (Ok (DatagramEnqueued 0), s', ep') \<and> dgs_transport s' = [4, 0, 5]"
    by (simp add: datagram_eval delivery_eval)
  then show ?thesis using that endpoint_run_ok by blast
qed

lemma demo_peer:
  obtains ep where "endpoint_run demo_limits (demo_calls Inbound []) = Some ep" "endpoint_ok demo_limits ep"
proof -
  have "\<exists>ep. endpoint_run demo_limits (demo_calls Inbound []) = Some ep"
    by (simp add: demo_calls_def delivery_eval)
  then show ?thesis using that endpoint_run_ok by blast
qed

section \<open>Properties\<close>

text \<open>
  Driving a flow hands over exactly its next message. For a consistent endpoint, \<open>drive_one\<close>
  never panics and keeps the endpoint consistent. It reports a message as enqueued only if the
  transport took the datagram of exactly the message at the front of core custody, and as dropped
  only after counting the drop; in both cases that one message leaves custody. In every other case,
  all errors and a full native buffer included, the core is unchanged, and custody never disagrees.
\<close>

theorem datagram_send_exact:
  assumes "endpoint_ok lim ep"
  shows "\<exists>x s' ep'. drive_one alloc ops s ep g i = Some (x, s', ep') \<and> endpoint_ok lim ep'
    \<and> (if \<exists>idx. x = Ok (DatagramEnqueued idx) \<or> x = Ok (DroppedTransport idx)
       then \<exists>flow t. lookup_flow g i = Some flow \<and> fk_direction (rf_key flow) = Outbound
         \<and> rf_mode flow \<noteq> ReliableOrdered \<and> peek_outbound ep (rf_key flow) = Ok (Some t) \<and> dt_mode t = rf_mode flow
         \<and> drive_result ops s ep (rf_key flow)
             (datagram_bytes i (rf_mode flow) (dt_accepted_index t) (dt_payload t)) t (x, s', ep')
       else ep' = ep \<and> dgs_outbound_transport_drops s' = dgs_outbound_transport_drops s
         \<and> (\<forall>e. x \<noteq> Err (DriveCustody e)))"
  by (rule drive_one_spec[OF assms])

theorem datagram_send_exact_witness:
  "\<exists>ep x s' ep'. endpoint_run demo_limits (demo_calls Outbound [[5], [6]]) = Some ep
    \<and> drive_one (\<lambda>_. True) demo_transport (datagram_sender_new []) ep (demo_flows Outbound) (FlowId 4) = Some (x, s', ep')
    \<and> x = Ok (DatagramEnqueued 0) \<and> endpoint_ok demo_limits ep'"
proof -
  obtain ep s' ep' where ep: "endpoint_run demo_limits (demo_calls Outbound [[5], [6]]) = Some ep" "endpoint_ok demo_limits ep"
    "drive_one (\<lambda>_. True) demo_transport (datagram_sender_new []) ep (demo_flows Outbound) (FlowId 4)
       = Some (Ok (DatagramEnqueued 0), s', ep')"
    by (rule demo_drive)
  then show ?thesis
    using datagram_send_exact[OF ep(2), of "\<lambda>_. True" demo_transport "datagram_sender_new []" "demo_flows Outbound" "FlowId 4"]
    by auto
qed

text \<open>
  A datagram submission is a core submission or nothing. For a consistent endpoint no submission
  panics. Either the core is left as it was and nothing is accepted, or the core was asked once, with
  this payload for this flow, and its answer is returned. The index computed beforehand for
  the length check is always the one the core then assigns: the mismatch error never occurs.
\<close>

theorem datagram_submit_exact:
  assumes "endpoint_ok lim ep"
  shows "\<exists>x s' ep'. datagram_submit ops s ep g i payload = Some (x, s', ep')
    \<and> (\<forall>a b. x \<noteq> Err (AcceptedIndexMismatch a b))
    \<and> (ep' = ep \<and> (\<forall>idx n. x \<noteq> Ok (DatagramAccepted idx n))
       \<or> (\<exists>flow r. registered_outbound_unreliable g i = Ok flow \<and> length payload \<le> rf_max_message_bytes flow
            \<and> submit ep (rf_key flow) payload = Some (r, ep')
            \<and> x = (case r of Ok out \<Rightarrow> Ok (submission_outcome_of out) | Err e \<Rightarrow> Err (SubmitCore e))))"
  by (rule datagram_submit_spec[OF assms])

theorem datagram_submit_exact_witness:
  "\<exists>ep x s' ep'. endpoint_run demo_limits (demo_calls Outbound [[5], [6]]) = Some ep
    \<and> datagram_submit demo_transport (datagram_sender_new []) ep (demo_flows Outbound) (FlowId 4) [7] = Some (x, s', ep')
    \<and> (\<forall>a b. x \<noteq> Err (AcceptedIndexMismatch a b))"
proof -
  obtain ep where ep: "endpoint_run demo_limits (demo_calls Outbound [[5], [6]]) = Some ep" "endpoint_ok demo_limits ep"
    by (rule demo_drive)
  then show ?thesis
    using datagram_submit_exact[OF ep(2), of demo_transport "datagram_sender_new []" "demo_flows Outbound" "FlowId 4" "[7]"]
    by blast
qed

text \<open>
  Reception is exact. The core receives something from a datagram if and only if the datagram is
  the encoding of an index and a payload within the limit for a registered inbound unreliable flow,
  and then it receives exactly these, once. Everything else, truncated and overlong datagrams,
  longer varints, unknown flows and wrong directions included, leaves the core unchanged, and
  no byte string makes a consistent endpoint panic.
\<close>

theorem datagram_receive_exact:
  assumes "endpoint_ok lim ep"
  shows "\<exists>x ep'. receive_datagram alloc ep g d = Some (x, ep') \<and> endpoint_ok lim ep'
    \<and> ((\<exists>i flow idx payload. flow_id_value i \<le> MAX_VARINT \<and> idx \<le> MAX_VARINT
          \<and> d = datagram_bytes i (rf_mode flow) idx payload
          \<and> lookup_flow g i = Some flow \<and> fk_direction (rf_key flow) = Inbound \<and> rf_mode flow \<noteq> ReliableOrdered
          \<and> (rf_mode flow = UnreliableUnordered \<longrightarrow> idx = UNORDERED_INGRESS_INDEX)
          \<and> length payload \<le> rf_max_message_bytes flow \<and> alloc (length payload)
          \<and> (\<exists>r. receive_transport_payload ep (rf_key flow) idx payload = Some (r, ep')
               \<and> x = (case r of Ok out \<Rightarrow> Ok (CoreReceived (rf_key flow) out)
                              | Err e \<Rightarrow> Err (resolved i (DatagramCore e)))))
      \<or> ep' = ep \<and> (\<forall>key out. x \<noteq> Ok (CoreReceived key out)))"
proof (cases "\<exists>v k flow idx n. decode_varint d = Ok (v, k) \<and> lookup_flow g (FlowId v) = Some flow
    \<and> fk_direction (rf_key flow) = Inbound \<and> rf_mode flow \<noteq> ReliableOrdered
    \<and> datagram_index (rf_mode flow) d k = Ok (idx, n) \<and> length (drop n d) \<le> rf_max_message_bytes flow
    \<and> alloc (length (drop n d))")
  case True
  then obtain v k flow idx n where d: "decode_varint d = Ok (v, k)" "lookup_flow g (FlowId v) = Some flow"
    "fk_direction (rf_key flow) = Inbound" "rf_mode flow \<noteq> ReliableOrdered"
    "datagram_index (rf_mode flow) d k = Ok (idx, n)" "length (drop n d) \<le> rf_max_message_bytes flow"
    "alloc (length (drop n d))"
    by blast
  have v: "v \<le> MAX_VARINT" "d = datagram_bytes (FlowId v) (rf_mode flow) idx (drop n d)"
    "rf_mode flow = UnreliableSequenced \<longrightarrow> idx \<le> MAX_VARINT"
    using split_bytes[OF d(1,5)] by auto
  have idx: "rf_mode flow = UnreliableUnordered \<longrightarrow> idx = UNORDERED_INGRESS_INDEX" "idx \<le> MAX_VARINT"
    using d(4,5) v(3) by (auto simp: datagram_index_def UNORDERED_INGRESS_INDEX_def split: delivery_mode.splits)
  obtain r ep' where r: "receive_transport_payload ep (rf_key flow) idx (drop n d) = Some (r, ep')" "endpoint_ok lim ep'"
    using receive_transport_payload_total[OF assms] by blast
  let ?x = "case r of Ok out \<Rightarrow> Ok (CoreReceived (rf_key flow) out) | Err e \<Rightarrow> Err (resolved (FlowId v) (DatagramCore e))"
  have "receive_datagram alloc ep g d = Some (?x, ep')"
    using d v(1) r(1) by (simp add: receive_datagram_def flow_id_from_wire_def Let_def not_less split: result.split)
  moreover have "\<exists>i flow idx payload. flow_id_value i \<le> MAX_VARINT \<and> idx \<le> MAX_VARINT
          \<and> d = datagram_bytes i (rf_mode flow) idx payload
          \<and> lookup_flow g i = Some flow \<and> fk_direction (rf_key flow) = Inbound \<and> rf_mode flow \<noteq> ReliableOrdered
          \<and> (rf_mode flow = UnreliableUnordered \<longrightarrow> idx = UNORDERED_INGRESS_INDEX)
          \<and> length payload \<le> rf_max_message_bytes flow \<and> alloc (length payload)
          \<and> (\<exists>r. receive_transport_payload ep (rf_key flow) idx payload = Some (r, ep')
               \<and> ?x = (case r of Ok out \<Rightarrow> Ok (CoreReceived (rf_key flow) out)
                              | Err e \<Rightarrow> Err (resolved i (DatagramCore e))))"
    using d v idx r(1)
    by (intro exI[of _ "FlowId v"] exI[of _ flow] exI[of _ idx] exI[of _ "drop n d"]) auto
  ultimately show ?thesis using r(2) by blast
next
  case False
  have "\<exists>x. receive_datagram alloc ep g d = Some (x, ep) \<and> (\<forall>key out. x \<noteq> Ok (CoreReceived key out))"
    using False by (auto simp: receive_datagram_def flow_id_from_wire_def Let_def not_le not_less
        split: result.split option.split)
  then show ?thesis using assms by blast
qed

theorem datagram_receive_exact_witness:
  "\<exists>ep x ep'. endpoint_run demo_limits (demo_calls Inbound []) = Some ep
    \<and> receive_datagram (\<lambda>_. True) ep (demo_flows Inbound) [4, 0] = Some (x, ep') \<and> endpoint_ok demo_limits ep'"
proof -
  obtain ep where ep: "endpoint_run demo_limits (demo_calls Inbound []) = Some ep" "endpoint_ok demo_limits ep"
    by (rule demo_peer)
  then show ?thesis
    using datagram_receive_exact[OF ep(2), of "\<lambda>_. True" "demo_flows Inbound" "[4, 0]"] by blast
qed

text \<open>
  C13: What one side enqueues is what the other side's core receives. If \<open>drive_one\<close> enqueued a
  message, the bytes that the transport took, given to a peer that has the flow registered as inbound
  with the same mode and no smaller a limit, make its core receive the same payload, with the same
  index if the flow is sequenced and index 0 otherwise, if the peer's allocator grants the bytes of the
  payload; if it does not, that is the error and the peer's core is unchanged.
\<close>

theorem datagram_end_to_end:
  assumes "endpoint_ok lim ep" "drive_one alloc ops s ep g i = Some (Ok (DatagramEnqueued idx), s', ep')"
    and "endpoint_ok lim2 ep2" "lookup_flow g2 i = Some flow2" "fk_direction (rf_key flow2) = Inbound"
    and "\<And>flow. lookup_flow g i = Some flow \<Longrightarrow> rf_mode flow2 = rf_mode flow
      \<and> rf_max_message_bytes flow \<le> rf_max_message_bytes flow2"
  shows "\<exists>flow t d w out ep2'. lookup_flow g i = Some flow \<and> peek_outbound ep (rf_key flow) = Ok (Some t)
    \<and> dgt_send ops w d = (Ok (), dgs_transport s')
    \<and> receive_transport_payload ep2 (rf_key flow2)
        (if rf_mode flow = UnreliableSequenced then dt_accepted_index t else 0) (dt_payload t) = Some (out, ep2')
    \<and> receive_datagram alloc2 ep2 g2 d = Some (if alloc2 (length (dt_payload t))
        then (case out of Ok out \<Rightarrow> Ok (CoreReceived (rf_key flow2) out)
                | Err e \<Rightarrow> Err (resolved i (DatagramCore e)), ep2')
        else (Err (resolved i DatagramAllocationFailed), ep2))"
proof -
  obtain flow t where t: "lookup_flow g i = Some flow" "rf_mode flow \<noteq> ReliableOrdered"
    "peek_outbound ep (rf_key flow) = Ok (Some t)" "dt_mode t = rf_mode flow"
    "drive_result ops s ep (rf_key flow) (datagram_bytes i (rf_mode flow) (dt_accepted_index t) (dt_payload t)) t
      (Ok (DatagramEnqueued idx), s', ep')"
    using drive_one_spec[OF assms(1), of alloc ops s g i] assms(2) by auto
  obtain w where w: "dgt_send ops w (datagram_bytes i (rf_mode flow) (dt_accepted_index t) (dt_payload t))
      = (Ok (), dgs_transport s')"
    using t(5) by (auto simp: drive_result_def)
  have sent: "payload_len t \<le> rf_max_message_bytes flow" "flow_id_value i \<le> MAX_VARINT"
    "rf_mode flow = UnreliableSequenced \<longrightarrow> dt_accepted_index t \<le> MAX_VARINT"
    using drive_one_sent[OF assms(2) t(1,3)] by auto
  have peer: "rf_mode flow2 = rf_mode flow" "length (dt_payload t) \<le> rf_max_message_bytes flow2"
    using assms(6)[OF t(1)] sent(1) by (auto simp: payload_len_def)
  let ?d = "datagram_bytes i (rf_mode flow) (dt_accepted_index t) (dt_payload t)"
  obtain n where n: "datagram_index (rf_mode flow) ?d (length (vslice (flow_id_value i)))
      = Ok (if rf_mode flow = UnreliableSequenced then dt_accepted_index t else 0, n)" "drop n ?d = dt_payload t"
    using decode_bytes(2)[OF sent(2,3) t(2), of "dt_payload t"] by (auto simp: UNORDERED_INGRESS_INDEX_def)
  obtain out ep2' where out: "receive_transport_payload ep2 (rf_key flow2)
      (if rf_mode flow = UnreliableSequenced then dt_accepted_index t else 0) (dt_payload t) = Some (out, ep2')"
    using receive_transport_payload_total[OF assms(3)] by blast
  have "flow_id_from_wire (flow_id_value i) = Ok i" using sent(2) by (cases i) (simp add: flow_id_from_wire_def)
  then have "receive_datagram alloc2 ep2 g2 ?d = Some (if alloc2 (length (dt_payload t))
        then (case out of Ok out \<Rightarrow> Ok (CoreReceived (rf_key flow2) out)
                | Err e \<Rightarrow> Err (resolved i (DatagramCore e)), ep2')
        else (Err (resolved i DatagramAllocationFailed), ep2))"
    using decode_bytes(1)[OF sent(2,3) t(2), of "dt_payload t"] assms(4,5) peer t(2) n out
    by (simp add: receive_datagram_def Let_def not_less del: length_drop split: result.split)
  then show ?thesis using t(1,3) w out by blast
qed

theorem datagram_end_to_end_witness:
  "\<exists>ep s' ep' ep2 d w out ep2'.
    endpoint_run demo_limits (demo_calls Outbound [[5], [6]]) = Some ep
    \<and> drive_one (\<lambda>_. True) demo_transport (datagram_sender_new []) ep (demo_flows Outbound) (FlowId 4)
        = Some (Ok (DatagramEnqueued 0), s', ep')
    \<and> endpoint_run demo_limits (demo_calls Inbound []) = Some ep2
    \<and> dgt_send demo_transport w d = (Ok (), dgs_transport s')
    \<and> receive_transport_payload ep2 (demo_key Inbound) 0 [5] = Some (Ok out, ep2')
    \<and> receive_datagram (\<lambda>_. True) ep2 (demo_flows Inbound) d = Some (Ok (CoreReceived (demo_key Inbound) out), ep2')"
proof -
  obtain ep s' ep' where ep: "endpoint_run demo_limits (demo_calls Outbound [[5], [6]]) = Some ep" "endpoint_ok demo_limits ep"
    "drive_one (\<lambda>_. True) demo_transport (datagram_sender_new []) ep (demo_flows Outbound) (FlowId 4)
       = Some (Ok (DatagramEnqueued 0), s', ep')"
    by (rule demo_drive)
  have front: "peek_outbound ep (demo_key Outbound)
      = Ok (Some \<lparr>dt_mode = UnreliableSequenced, dt_accepted_index = 0, dt_payload = [5]\<rparr>)"
    using ep(1) by (auto simp: demo_calls_def peek_outbound_def delivery_eval)
  obtain ep2 where ep2: "endpoint_run demo_limits (demo_calls Inbound []) = Some ep2" "endpoint_ok demo_limits ep2"
    by (rule demo_peer)
  have flows: "lookup_flow (demo_flows d) (FlowId 4) = Some (demo_flow d)" "fk_direction (rf_key (demo_flow d)) = d" for d
    by (simp_all add: lookup_flow_def demo_flows_def demo_flow_def demo_key_def)
  have same: "rf_mode (demo_flow Inbound) = rf_mode flow \<and> rf_max_message_bytes flow \<le> rf_max_message_bytes (demo_flow Inbound)"
    if "lookup_flow (demo_flows Outbound) (FlowId 4) = Some flow" for flow
    using that flows(1)[of Outbound] by (auto simp: demo_flow_def)
  have taken: "\<exists>out ep2'. receive_transport_payload ep2 (demo_key Inbound) 0 [5] = Some (Ok out, ep2')"
    using ep2(1) by (auto simp: demo_calls_def delivery_eval receive_transport_payload_def)
  have key: "rf_key (demo_flow Inbound) = demo_key Inbound" "rf_key (demo_flow Outbound) = demo_key Outbound"
    "rf_mode (demo_flow Outbound) = UnreliableSequenced"
    by (simp_all add: demo_flow_def)
  obtain d w where dw: "dgt_send demo_transport w d = (Ok (), dgs_transport s')"
    "\<And>out ep2'. receive_transport_payload ep2 (demo_key Inbound) 0 [5] = Some (out, ep2') \<Longrightarrow>
       receive_datagram (\<lambda>_. True) ep2 (demo_flows Inbound) d
         = Some (case out of Ok out \<Rightarrow> Ok (CoreReceived (rf_key (demo_flow Inbound)) out)
             | Err e \<Rightarrow> Err (resolved (FlowId 4) (DatagramCore e)), ep2')"
    using datagram_end_to_end[OF ep(2,3) ep2(2) flows same, of "\<lambda>_. True"] flows(1)[of Outbound] front
    by (auto simp: key)
  obtain out ep2' where out: "receive_transport_payload ep2 (demo_key Inbound) 0 [5] = Some (Ok out, ep2')"
    using taken by blast
  have "receive_datagram (\<lambda>_. True) ep2 (demo_flows Inbound) d = Some (Ok (CoreReceived (demo_key Inbound) out), ep2')"
    using dw(2)[OF out] by (simp add: key)
  then show ?thesis using dw(1) out ep(1,3) ep2(1) by blast
qed

end
