(* ===== verification/Flow_Control_Safety.thy ===== *)
theory Flow_Control_Safety
  imports Flow_Control Datagram_Contract
begin

text \<open>
  The invariant of flow control, and that every call keeps it, panics never, and never meets one of
  the errors that would mean its own books are wrong.
\<close>

section \<open>Counting flows\<close>

lemma active_sum:
  "active_direction_len g d = fm_sum (\<lambda>_ f. if fk_direction (rf_key f) = d then 1 else 0) (fg_flows g)"
proof -
  let ?P = "\<lambda>v. case fmlookup (fg_flows g) v of None \<Rightarrow> False | Some f \<Rightarrow> fk_direction (rf_key f) = d"
  have "fm_len (fmfilter ?P (fg_flows g)) = card {v \<in> fset (fmdom (fg_flows g)). ?P v}"
    by (simp add: fm_len_def fcard.rep_eq Int_def conj_commute)
  also have "\<dots> = (\<Sum>v\<in>fset (fmdom (fg_flows g)). if ?P v then 1 else 0)"
    by (simp add: sum.inter_filter[symmetric])
  also have "\<dots> = (\<Sum>v\<in>fset (fmdom (fg_flows g)).
      if fk_direction (rf_key (the (fmlookup (fg_flows g) v))) = d then 1 else 0)"
    by (rule sum.cong) (auto split: option.splits)
  finally show ?thesis by (simp add: active_direction_len_def fm_sum_def)
qed

lemma active_insert:
  "fmlookup (fg_flows g) v = None \<Longrightarrow> active_direction_len (g\<lparr>fg_flows := fmupd v f (fg_flows g)\<rparr>) d
     = active_direction_len g d + (if fk_direction (rf_key f) = d then 1 else 0)"
  by (simp add: active_sum fm_sum_fmupd fmdrop_absent)

lemma active_replace:
  "fmlookup (fg_flows g) v = Some f0 \<Longrightarrow> fk_direction (rf_key f) = fk_direction (rf_key f0) \<Longrightarrow>
     active_direction_len (g\<lparr>fg_flows := fmupd v f (fg_flows g)\<rparr>) d = active_direction_len g d"
  using fm_sum_split[of "fg_flows g" v f0 "\<lambda>_ f. if fk_direction (rf_key f) = d then 1 else 0"]
  by (simp add: active_sum fm_sum_fmupd)

lemma active_release: "active_direction_len (registry_release g i) d \<le> active_direction_len g d"
  by (simp add: active_sum registry_release_def fm_sum_drop_le)

lemma active_both: "active_direction_len g Inbound + active_direction_len g Outbound = fm_len (fg_flows g)"
proof -
  have "fm_sum (\<lambda>k f. (if fk_direction (rf_key f) = Inbound then 1 else 0)
      + (if fk_direction (rf_key f) = Outbound then 1 else 0)) (fg_flows g) = fm_sum (\<lambda>_ _. 1) (fg_flows g)"
    by (rule fm_sum_cong) (metis (full_types) add.commute add_0 flow_direction.exhaust flow_direction.distinct(1))
  then show ?thesis by (simp add: active_sum fm_len_sum fm_sum_def sum.distrib)
qed

section \<open>The invariant\<close>

text \<open>An identifier that has been issued for a direction, by the cursor of the side that opens.\<close>

definition cursor_for :: "flow_control \<Rightarrow> flow_direction \<Rightarrow> flow_id_cursor" where
  "cursor_for c d = (case d of Outbound \<Rightarrow> fn_local_flow_ids c | Inbound \<Rightarrow> fn_peer_flow_ids c)"

lemma cursor_for_upd [simp]:
  "cursor_for (c\<lparr>fn_registry := g\<rparr>) = cursor_for c" "cursor_for (c\<lparr>fn_pending_inbound := p\<rparr>) = cursor_for c"
  "cursor_for (c\<lparr>fn_pending_outbound := m\<rparr>) = cursor_for c"
  by (simp_all add: cursor_for_def fun_eq_iff split: flow_direction.split)

definition issued :: "flow_id_cursor \<Rightarrow> u64 \<Rightarrow> bool" where
  "issued k v \<longleftrightarrow> flow_id_ok (FlowId v) \<and> flow_id_side (FlowId v) = fc_side k
     \<and> unat (flow_id_sequence (FlowId v)) < cursor_count k"

definition flow_limits :: "flow_control \<Rightarrow> bool" where
  "flow_limits c \<longleftrightarrow>
     active_direction_len (fn_registry c) Inbound \<le> unat (se_max_active_incoming_flows (fn_local_settings c))
     \<and> active_direction_len (fn_registry c) Outbound + fm_len (fn_pending_outbound c)
        \<le> unat (se_max_active_incoming_flows (fn_peer_settings c))"

definition flow_config_ok :: "flow_control \<Rightarrow> bool" where
  "flow_config_ok c \<longleftrightarrow> settings_ok (fn_local_settings c) \<and> settings_ok (fn_peer_settings c)
     \<and> cursor_ok (fn_local_flow_ids c) \<and> cursor_ok (fn_peer_flow_ids c)
     \<and> fc_side (fn_local_flow_ids c) = fn_local_side c
     \<and> fc_side (fn_peer_flow_ids c) = opposite_side (fn_local_side c)
     \<and> fg_local_side (fn_registry c) = fn_local_side c
     \<and> fg_max_active (fn_registry c) = unat (se_max_active_incoming_flows (fn_local_settings c))
          + unat (se_max_active_incoming_flows (fn_peer_settings c))"

definition registered_ok :: "flow_control \<Rightarrow> bool" where
  "registered_ok c \<longleftrightarrow> (\<forall>v f. fmlookup (fg_flows (fn_registry c)) v = Some f \<longrightarrow>
     issued (cursor_for c (fk_direction (rf_key f))) v \<and> fk_connection (rf_key f) = fn_connection c)"

definition pending_outbound_ok :: "flow_control \<Rightarrow> bool" where
  "pending_outbound_ok c \<longleftrightarrow> (\<forall>v p. fmlookup (fn_pending_outbound c) v = Some p \<longrightarrow>
     issued (fn_local_flow_ids c) v \<and> fmlookup (fg_flows (fn_registry c)) v = None
     \<and> fk_connection (pn_key p) = fn_connection c \<and> fk_direction (pn_key p) = Outbound
     \<and> pn_stable_max p = fp_max_message_bytes (pn_policy p))"

definition pending_inbound_ok :: "flow_control \<Rightarrow> bool" where
  "pending_inbound_ok c \<longleftrightarrow> (\<forall>q. fn_pending_inbound c = Some q \<longrightarrow>
     issued (fn_peer_flow_ids c) (flow_id_value (io_flow_id q))
     \<and> fmlookup (fg_flows (fn_registry c)) (flow_id_value (io_flow_id q)) = None
     \<and> io_max_message_bytes q \<noteq> 0
     \<and> io_max_message_bytes q \<le> se_max_incoming_message_bytes (fn_local_settings c))"

definition flow_control_ok :: "flow_control \<Rightarrow> bool" where
  "flow_control_ok c \<longleftrightarrow> flow_config_ok c \<and> registered_ok c \<and> pending_outbound_ok c \<and> pending_inbound_ok c
     \<and> flow_limits c"

lemma stream_count_half:
  assumes "settings_ok s"
  shows "unat (se_max_active_incoming_flows s) \<le> 2 ^ 60" "se_max_active_incoming_flows s \<noteq> 0"
  using assms by (auto simp: settings_ok_def settings_validate_Ok QUIC_MAX_STREAM_COUNT_def word_le_nat_alt)

lemma flow_control_new_ok:
  assumes "settings_ok l" "settings_ok p"
  shows "\<exists>c. flow_control_new connection side l p = Ok c \<and> flow_control_ok c"
proof -
  let ?l = "se_max_active_incoming_flows l" and ?p = "se_max_active_incoming_flows p"
  have bound: "unat ?l \<le> 2 ^ 60" "unat ?p \<le> 2 ^ 60" "?l \<noteq> 0" using stream_count_half assms by auto
  then have sum: "unat (?l + ?p) = unat ?l + unat ?p" by (simp add: unat_word_ariths)
  have "u64_checked_add ?l ?p = Some (?l + ?p)" "u64_to_usize (?l + ?p) = Some (unat ?l + unat ?p)"
    using bound sum by (simp_all add: u64_checked_add_def u64_to_usize_def usize_max_def)
  moreover have "unat ?l + unat ?p \<noteq> 0" using bound(3) by (simp add: unat_eq_0)
  ultimately show ?thesis
    using assms
    by (auto simp: flow_control_new_def result_bind_def flow_control_ok_def flow_config_ok_def registered_ok_def
        pending_outbound_ok_def pending_inbound_ok_def flow_limits_def flow_registry_new_def
        flow_id_cursor_new_def active_sum cursor_ok_def)
qed

text \<open>Two identifiers of different sides, and an issued one and the next, differ.\<close>

lemma issued_advance:
  assumes "cursor_ok k" "fc_next_sequence k = Some n" "issued k v"
  shows "issued (cursor_advance n k) v"
proof -
  have "n \<le> MAX_FLOW_SEQUENCE" using assms(1,2) by (simp add: cursor_ok_def)
  then show ?thesis
    using assms(3) cursor_advance_ok[OF _ assms(2)] by (simp add: issued_def cursor_advance_def)
qed

lemma issued_new:
  assumes "cursor_ok k" "fc_next_sequence k = Some (flow_id_sequence i)" "flow_id_ok i" "flow_id_side i = fc_side k"
  shows "issued (cursor_advance (flow_id_sequence i) k) (flow_id_value i)" "\<not> issued k (flow_id_value i)"
proof -
  have i: "FlowId (flow_id_value i) = i" by (cases i) simp
  have n: "flow_id_sequence i \<le> MAX_FLOW_SEQUENCE" using assms(1,2) by (simp add: cursor_ok_def)
  have count: "cursor_count k = unat (flow_id_sequence i)" using assms(2) by (simp add: cursor_count_def)
  show "issued (cursor_advance (flow_id_sequence i) k) (flow_id_value i)"
    using assms(3,4) cursor_advance_ok[OF n assms(2)] count i by (simp add: issued_def cursor_advance_def)
  show "\<not> issued k (flow_id_value i)" using count i by (simp add: issued_def)
qed

lemma opposite_side_neq [simp]: "opposite_side s \<noteq> s" "s \<noteq> opposite_side s"
  by (cases s; simp add: opposite_side_def)+

section \<open>The parts of a call\<close>

lemma owned_frame_body: "owned_frame alloc t b = Some f \<Longrightarrow> f = \<lparr>cf_type = t, cf_body = body_slice b\<rparr>"
  by (auto simp: owned_frame_def Let_def split: if_splits)

lemma frames_total:
  assumes "flow_id_ok i"
  shows "\<exists>x. accept_frame alloc i = Some x" "\<exists>x. reject_frame alloc i r = Some x"
    "\<exists>x. terminate_frame alloc i t = Some x"
  using flow_accept_encode_body[of "FlowAccept i"] flow_reject_encode_body[of "\<lparr>fr_flow_id = i, fr_reason = r\<rparr>"]
    flow_terminate_encode_body[of "\<lparr>fx_flow_id = i, fx_reason = t\<rparr>"] assms
  by (auto simp: accept_frame_def reject_frame_def terminate_frame_def)

lemma register_spec:
  assumes "fmlookup (fg_flows g) (flow_id_value i) = None" "fm_len (fg_flows g) < fg_max_active g"
    and "flow_contract ep key = Some (mode, policy)"
    and "fk_direction key = Outbound \<Longrightarrow> fp_max_message_bytes policy \<le> n"
    and "fk_direction key = Inbound \<Longrightarrow> n \<le> fp_max_message_bytes policy"
    and "flow_id_side i = expected_side g (fk_direction key)"
  shows "register_consumed_accepted_flow alloc g ep i key n = (if alloc
    then (Ok (), g\<lparr>fg_flows := fmupd (flow_id_value i) \<lparr>rf_key = key, rf_mode = mode, rf_max_message_bytes = n,
            rf_association = (if mode = ReliableOrdered then Some Unbound_Stream else None)\<rparr> (fg_flows g)\<rparr>)
    else (Err RegistryAllocationFailed, g))"
  using assms by (auto simp: register_consumed_accepted_flow_def not_le not_less)

lemma flow_id_eta: "FlowId (flow_id_value i) = i"
  by (cases i) simp

lemma expected_side_cursor:
  "flow_config_ok c \<Longrightarrow> expected_side (fn_registry c) d = fc_side (cursor_for c d)"
  by (cases d) (auto simp: flow_config_ok_def expected_side_def cursor_for_def)

text \<open>A registration for an issued identifier that waits, within the limit of its direction.\<close>

lemma register_waiting:
  assumes ok: "flow_control_ok c" and fresh: "fmlookup (fg_flows (fn_registry c)) (flow_id_value i) = None"
    and id: "issued (cursor_for c (fk_direction key)) (flow_id_value i)"
    and conn: "fk_connection key = fn_connection c"
    and core: "flow_contract ep key = Some (mode, policy)"
    and fit: "fk_direction key = Outbound \<Longrightarrow> fp_max_message_bytes policy \<le> n"
      "fk_direction key = Inbound \<Longrightarrow> n \<le> fp_max_message_bytes policy"
    and room: "fk_direction key = Outbound \<Longrightarrow> active_direction_len (fn_registry c) Outbound + fm_len (fn_pending_outbound c)
          < unat (se_max_active_incoming_flows (fn_peer_settings c))"
      "fk_direction key = Inbound \<Longrightarrow> active_direction_len (fn_registry c) Inbound
          < unat (se_max_active_incoming_flows (fn_local_settings c))"
    and gone: "fmlookup (fn_pending_outbound c) (flow_id_value i) = None"
    and mine: "\<And>q. fn_pending_inbound c = Some q \<Longrightarrow> flow_id_value (io_flow_id q) = flow_id_value i \<Longrightarrow> pin = None"
    and pin: "pin = None \<or> pin = fn_pending_inbound c"
  shows "(\<exists>g f. register_consumed_accepted_flow alloc (fn_registry c) ep i key n = (Ok (), g)
      \<and> flow_control_ok (c\<lparr>fn_registry := g, fn_pending_inbound := pin\<rparr>)
      \<and> g = (fn_registry c)\<lparr>fg_flows := fmupd (flow_id_value i) f (fg_flows (fn_registry c))\<rparr>
      \<and> rf_key f = key \<and> rf_mode f = mode \<and> rf_max_message_bytes f = n)
    \<or> register_consumed_accepted_flow alloc (fn_registry c) ep i key n = (Err RegistryAllocationFailed, fn_registry c)"
proof -
  let ?f = "\<lparr>rf_key = key, rf_mode = mode, rf_max_message_bytes = n,
      rf_association = (if mode = ReliableOrdered then Some Unbound_Stream else None)\<rparr>"
  let ?g = "(fn_registry c)\<lparr>fg_flows := fmupd (flow_id_value i) ?f (fg_flows (fn_registry c))\<rparr>"
  have parts: "flow_config_ok c" "registered_ok c" "pending_outbound_ok c" "pending_inbound_ok c" "flow_limits c"
    using ok by (auto simp: flow_control_ok_def)
  have "fm_len (fg_flows (fn_registry c)) < fg_max_active (fn_registry c)"
    using parts(1,5) room active_both[of "fn_registry c"]
    by (cases "fk_direction key") (auto simp: flow_config_ok_def flow_limits_def)
  moreover have "flow_id_side i = expected_side (fn_registry c) (fk_direction key)"
    using id expected_side_cursor[OF parts(1)] by (simp add: issued_def flow_id_eta)
  ultimately have reg: "register_consumed_accepted_flow alloc (fn_registry c) ep i key n
      = (if alloc then (Ok (), ?g) else (Err RegistryAllocationFailed, fn_registry c))"
    using register_spec[OF fresh _ core fit, of alloc] by simp
  let ?c = "c\<lparr>fn_registry := ?g, fn_pending_inbound := pin\<rparr>"
  have "flow_config_ok ?c" using parts(1) by (simp add: flow_config_ok_def)
  moreover have "registered_ok ?c" using parts(2) id conn by (auto simp: registered_ok_def)
  moreover have "pending_outbound_ok ?c" using parts(3) gone by (auto simp: pending_outbound_ok_def)
  moreover have "pending_inbound_ok ?c" using parts(4) mine pin by (auto simp: pending_inbound_ok_def)
  moreover have "flow_limits ?c"
    using parts(5) room active_insert[OF fresh, of ?f] by (cases "fk_direction key") (auto simp: flow_limits_def)
  ultimately have "flow_control_ok ?c" by (simp add: flow_control_ok_def)
  then show ?thesis using reg by (cases alloc) (auto intro!: exI[of _ ?f])
qed

section \<open>Opening\<close>

lemma count_below:
  assumes "(case usize_to_u64 n of Some m \<Rightarrow> m | None \<Rightarrow> -1) < k"
  shows "n < unat k"
proof (cases "n < 2 ^ 64")
  case True
  then have "unat (word_of_nat n :: u64) = n" by (rule word_of_small)
  then show ?thesis using assms True by (simp add: usize_to_u64_def word_less_nat_alt)
next
  case False
  then show ?thesis using assms by (simp add: usize_to_u64_def)
qed

lemma validate_identity_Ok:
  "validate_outbound_identity c ep key = Ok u \<longleftrightarrow> fk_connection key = fn_connection c \<and> fk_direction key = Outbound
     \<and> flow_contract ep key = None
     \<and> (\<forall>v p. fmlookup (fn_pending_outbound c) v = Some p \<longrightarrow> pn_key p \<noteq> key)"
proof -
  have "fBex (fmdom (fn_pending_outbound c)) (\<lambda>v. map_option pn_key (fmlookup (fn_pending_outbound c) v) = Some key)
      \<longleftrightarrow> (\<exists>v. v |\<in>| fmdom (fn_pending_outbound c) \<and> map_option pn_key (fmlookup (fn_pending_outbound c) v) = Some key)"
    by blast
  also have "\<dots> \<longleftrightarrow> (\<exists>v p. fmlookup (fn_pending_outbound c) v = Some p \<and> pn_key p = key)"
    by (auto simp: fmlookup_dom_iff)
  finally show ?thesis unfolding validate_outbound_identity_def by auto
qed

lemma validate_open_Ok:
  assumes "validate_open c ep q = Ok w"
  shows "fk_connection (or_open_key q) = fn_connection c" "fk_direction (or_open_key q) = Outbound"
    "flow_contract ep (or_open_key q) = None"
    "validate_for_mode (or_open_policy q) (or_open_mode q) = Ok ()"
    "fp_max_message_bytes (or_open_policy q) = or_open_stable_max q"
    "w = word_of_nat (or_open_stable_max q)" "unat w = or_open_stable_max q" "w \<le> MAX_VARINT"
    "w \<le> se_max_incoming_message_bytes (fn_peer_settings c)"
    "active_direction_len (fn_registry c) Outbound + fm_len (fn_pending_outbound c)
       < unat (se_max_active_incoming_flows (fn_peer_settings c))"
proof -
  have *: "validate_outbound_identity c ep (or_open_key q) = Ok ()"
    "validate_for_mode (or_open_policy q) (or_open_mode q) = Ok ()"
    "fp_max_message_bytes (or_open_policy q) = or_open_stable_max q"
    "usize_to_u64 (or_open_stable_max q) = Some w" "w \<le> MAX_VARINT"
    "w \<le> se_max_incoming_message_bytes (fn_peer_settings c)"
    and use: "(case Option.bind (checked_add (active_direction_len (fn_registry c) Outbound)
               (fm_len (fn_pending_outbound c))) usize_to_u64 of Some n \<Rightarrow> n | None \<Rightarrow> -1)
        < se_max_active_incoming_flows (fn_peer_settings c)"
    using assms
    by (auto simp: validate_open_def result_bind_def map_err_def ok_or_def Let_def not_le not_less
        split: result.splits if_splits option.splits)
  show "fk_connection (or_open_key q) = fn_connection c" "fk_direction (or_open_key q) = Outbound"
    "flow_contract ep (or_open_key q) = None"
    using *(1) unfolding validate_identity_Ok by blast+
  show "validate_for_mode (or_open_policy q) (or_open_mode q) = Ok ()"
    "fp_max_message_bytes (or_open_policy q) = or_open_stable_max q" "w \<le> MAX_VARINT"
    "w \<le> se_max_incoming_message_bytes (fn_peer_settings c)"
    using * by blast+
  have w: "or_open_stable_max q < 2 ^ 64" "w = word_of_nat (or_open_stable_max q)"
    using *(4) by (auto simp: usize_to_u64_def split: if_splits)
  then show "w = word_of_nat (or_open_stable_max q)" "unat w = or_open_stable_max q"
    by (simp_all add: word_of_small)
  let ?n = "active_direction_len (fn_registry c) Outbound + fm_len (fn_pending_outbound c)"
  have "(case usize_to_u64 ?n of Some m \<Rightarrow> m | None \<Rightarrow> -1) < se_max_active_incoming_flows (fn_peer_settings c)"
    using use by (auto simp: checked_add_def usize_max_def usize_to_u64_def split: if_splits)
  then show "?n < unat (se_max_active_incoming_flows (fn_peer_settings c))" by (rule count_below)
qed

lemma envelope_total: "\<exists>x. validate_envelope i mode n available = Some x"
proof (cases "mode = ReliableOrdered")
  case False
  from datagram_len_spec[OF this, of SubmitWire SubmitLengthOverflow SubmitSequenceExhausted SubmitReliableFlow
      i MAX_VARINT n, folded datagram_len_def]
  obtain y where "datagram_len i mode (sequence_of mode MAX_VARINT) n = Some y" by blast
  then show ?thesis unfolding validate_envelope_def sequence_of_def by auto
qed (simp add: validate_envelope_def)

text \<open>What a prepared open is.\<close>

definition opened :: "flow_control \<Rightarrow> outbound_open_request \<Rightarrow> prepared_outbound_open \<Rightarrow> flow_control \<Rightarrow> bool" where
  "opened c q po c' \<longleftrightarrow> (\<exists>i. flow_id_ok i \<and> flow_id_side i = fn_local_side c
     \<and> fc_next_sequence (fn_local_flow_ids c) = Some (flow_id_sequence i)
     \<and> po_flow po = \<lparr>ff_flow_id = i, ff_key = or_open_key q, ff_mode = or_open_mode q,
          ff_max_message_bytes = or_open_stable_max q\<rparr>
     \<and> po_frame po = \<lparr>cf_type = OpenFlowType, cf_body = open_flow_body \<lparr>of_flow_id = i,
          of_delivery_mode = or_open_mode q, of_max_message_bytes = word_of_nat (or_open_stable_max q)\<rparr>\<rparr>
     \<and> open_flow_ok \<lparr>of_flow_id = i, of_delivery_mode = or_open_mode q,
          of_max_message_bytes = word_of_nat (or_open_stable_max q)\<rparr>
     \<and> (word_of_nat (or_open_stable_max q) :: u64) \<le> se_max_incoming_message_bytes (fn_peer_settings c)
     \<and> c' = c\<lparr>fn_local_flow_ids := cursor_advance (flow_id_sequence i) (fn_local_flow_ids c),
          fn_pending_outbound := fmupd (flow_id_value i)
            \<lparr>pn_key = or_open_key q, pn_mode = or_open_mode q, pn_policy = or_open_policy q,
             pn_limits = or_open_limits q, pn_stable_max = or_open_stable_max q\<rparr> (fn_pending_outbound c)\<rparr>)"

lemma prepare_outbound_open_step:
  assumes ok: "flow_control_ok c"
  shows "\<exists>x c'. prepare_outbound_open al c ep q d = Some (x, c') \<and> flow_control_ok c'
    \<and> (case x of Err _ \<Rightarrow> c' = c | Ok po \<Rightarrow> opened c q po c')"
proof (cases "validate_open c ep q")
  case (Err e)
  then show ?thesis using ok by (simp add: prepare_outbound_open_def)
next
  case (Ok w)
  note v = validate_open_Ok[OF Ok]
  have parts: "flow_config_ok c" "registered_ok c" "pending_outbound_ok c" "pending_inbound_ok c" "flow_limits c"
    using ok by (auto simp: flow_control_ok_def)
  let ?k = "fn_local_flow_ids c"
  have k: "cursor_ok ?k" "fc_side ?k = fn_local_side c" using parts(1) by (auto simp: flow_config_ok_def)
  from cursor_allocate_eq[OF k(1)] show ?thesis
  proof (elim disjE exE conjE)
    assume "cursor_allocate ?k = Some (Err CursorExhausted, ?k)"
    then show ?thesis using Ok ok by (simp add: prepare_outbound_open_def)
  next
    fix i assume i: "cursor_allocate ?k = Some (Ok i, cursor_advance (flow_id_sequence i) ?k)" "flow_id_ok i"
      "flow_id_side i = fc_side ?k" "fc_next_sequence ?k = Some (flow_id_sequence i)"
    obtain fits where fits: "validate_envelope i (or_open_mode q) (or_open_stable_max q) d = Some fits"
      using envelope_total by blast
    show ?thesis
    proof (cases "(\<exists>u. fits = Ok u) \<and> al_pending al \<and> (\<exists>x. open_flow_new i (or_open_mode q) w = Ok x)")
      case False
      then show ?thesis
        using Ok i(1) fits ok by (auto simp: prepare_outbound_open_def split: result.split)
    next
      case True
      then obtain u x where x: "fits = Ok u" "al_pending al" "open_flow_new i (or_open_mode q) w = Ok x" by blast
      have xv: "x = \<lparr>of_flow_id = i, of_delivery_mode = or_open_mode q, of_max_message_bytes = w\<rparr>" "w \<noteq> 0"
        using x(3) by (auto simp: open_flow_new_def split: if_splits)
      have xok: "open_flow_ok x" using xv i(2) v(8) by (simp add: open_flow_ok_def word_neq_0_conv)
      obtain b where b: "open_flow_encode x = Some b" "body_slice b = open_flow_body x"
        using open_flow_encode_body[OF xok] by blast
      let ?p = "\<lparr>pn_key = or_open_key q, pn_mode = or_open_mode q, pn_policy = or_open_policy q,
             pn_limits = or_open_limits q, pn_stable_max = or_open_stable_max q\<rparr>"
      let ?c = "c\<lparr>fn_local_flow_ids := cursor_advance (flow_id_sequence i) ?k,
          fn_pending_outbound := fmupd (flow_id_value i) ?p (fn_pending_outbound c)\<rparr>"
      have new: "issued (cursor_advance (flow_id_sequence i) ?k) (flow_id_value i)" "\<not> issued ?k (flow_id_value i)"
        using issued_new[OF k(1) i(4,2)] i(3) by auto
      have "cursor_ok (cursor_advance (flow_id_sequence i) ?k)"
        using cursor_advance_ok[OF _ i(4)] k(1) i(4) by (simp add: cursor_ok_def)
      then have "flow_config_ok ?c" using parts(1) by (simp add: flow_config_ok_def cursor_advance_def)
      moreover have later: "issued (cursor_advance (flow_id_sequence i) ?k) v" if "issued ?k v" for v
        by (rule issued_advance[OF k(1) i(4) that])
      then have "registered_ok ?c"
        using parts(2) by (auto simp: registered_ok_def cursor_for_def split: flow_direction.splits)
      moreover have not_registered: "fmlookup (fg_flows (fn_registry c)) (flow_id_value i) = None"
      proof (rule ccontr)
        assume "fmlookup (fg_flows (fn_registry c)) (flow_id_value i) \<noteq> None"
        then obtain f where "fmlookup (fg_flows (fn_registry c)) (flow_id_value i) = Some f" by blast
        then have f: "issued (cursor_for c (fk_direction (rf_key f))) (flow_id_value i)"
          using parts(2) unfolding registered_ok_def by blast
        then have "fk_direction (rf_key f) = Outbound"
          using i(3) parts(1) by (cases "fk_direction (rf_key f)")
            (auto simp: cursor_for_def issued_def flow_id_eta flow_config_ok_def)
        then show False using f new(2) by (simp add: cursor_for_def)
      qed
      have "pending_outbound_ok ?c"
        using parts(3) v(1,2,5) new(1) later not_registered by (auto simp: pending_outbound_ok_def)
      moreover have "pending_inbound_ok ?c" using parts(4) by (simp add: pending_inbound_ok_def)
      moreover have "fmlookup (fn_pending_outbound c) (flow_id_value i) = None"
        using parts(3) new(2) unfolding pending_outbound_ok_def
        by (cases "fmlookup (fn_pending_outbound c) (flow_id_value i)") auto
      then have "flow_limits ?c" using parts(5) v(10) by (simp add: flow_limits_def fm_len_fresh)
      ultimately have "flow_control_ok ?c" by (simp add: flow_control_ok_def)
      then show ?thesis
        using Ok i fits x b xv xok v(6,9) k(2) ok
        by (cases "owned_frame (al_frame al) OpenFlowType b")
          (auto simp: prepare_outbound_open_def opened_def owned_frame_def Let_def split: if_splits)
    qed
  qed
qed

section \<open>Receiving\<close>

lemma terminate_present:
  assumes "endpoint_ok lim ep" "fmlookup (de_flows ep) key = Some f"
  shows "\<exists>t ep'. terminate_flow ep key reason = Some (Ok t, ep') \<and> endpoint_ok lim ep'
    \<and> de_flows ep' = fmdrop key (de_flows ep)"
proof -
  obtain r ep' where r: "terminate_flow ep key reason = Some (r, ep')" "endpoint_ok lim ep'"
    "de_flows ep' = fmdrop key (de_flows ep)"
    using terminate_flow_ok[OF assms(1)] by blast
  have "\<exists>t. r = Ok t" using r(1) assms(2) by (auto simp: terminate_flow_def bind_eq_Some_conv Let_def)
  then show ?thesis using r by blast
qed

text \<open>A flow that the core has just established is there with its mode and policy, and can be taken back.\<close>

lemma established_contract:
  assumes "moved key (flow_new mode policy) ep ep'" "fmlookup (de_flows ep) key = None" "endpoint_ok lim ep'"
  shows "flow_contract ep' key = Some (mode, policy)"
    "\<exists>t ep2. terminate_flow ep' key reason = Some (Ok t, ep2) \<and> endpoint_ok lim ep2 \<and> de_flows ep2 = de_flows ep"
proof -
  have f: "fmlookup (de_flows ep') key = Some (flow_new mode policy)" using assms(1) by (simp add: moved_def)
  then show "flow_contract ep' key = Some (mode, policy)" by (simp add: flow_contract_def flow_new_def)
  show "\<exists>t ep2. terminate_flow ep' key reason = Some (Ok t, ep2) \<and> endpoint_ok lim ep2 \<and> de_flows ep2 = de_flows ep"
    using terminate_present[OF assms(3) f, of reason] assms(1,2) by (auto simp: moved_def fmdrop_absent)
qed

lemma flow_control_ok_parts:
  "flow_control_ok c \<Longrightarrow> flow_config_ok c \<and> registered_ok c \<and> pending_outbound_ok c \<and> pending_inbound_ok c \<and> flow_limits c"
  by (simp add: flow_control_ok_def)

lemma clear_inbound_ok: "flow_control_ok c \<Longrightarrow> flow_control_ok (c\<lparr>fn_pending_inbound := None\<rparr>)"
  by (auto simp: flow_control_ok_def flow_config_ok_def registered_ok_def pending_outbound_ok_def
      pending_inbound_ok_def flow_limits_def)

lemma drop_outbound_ok:
  "flow_control_ok c \<Longrightarrow> flow_control_ok (c\<lparr>fn_pending_outbound := fmdrop v (fn_pending_outbound c)\<rparr>)"
  using fm_len_drop_le[of v "fn_pending_outbound c"]
  by (auto simp: flow_control_ok_def flow_config_ok_def registered_ok_def pending_outbound_ok_def
      pending_inbound_ok_def flow_limits_def)

lemma registry_release_ok: "flow_control_ok c \<Longrightarrow> flow_control_ok (c\<lparr>fn_registry := registry_release (fn_registry c) i\<rparr>)"
  using active_release[of "fn_registry c" i Inbound] active_release[of "fn_registry c" i Outbound]
  by (auto simp: flow_control_ok_def flow_config_ok_def registered_ok_def pending_outbound_ok_def
      pending_inbound_ok_def flow_limits_def registry_release_def)

lemma receive_open_step:
  assumes ok: "flow_control_ok c" and idle: "fn_pending_inbound c = None"
  shows "\<exists>x c'. receive_open al c body = Some (x, c') \<and> flow_control_ok c'
    \<and> fn_registry c' = fn_registry c \<and> fn_pending_outbound c' = fn_pending_outbound c
    \<and> (\<forall>e. x \<noteq> Err (ControlRegistry e)) \<and> (\<forall>e. x \<noteq> Err (CoreState e))
    \<and> (\<forall>q. x = Ok (InboundOpen q) \<longrightarrow> fn_pending_inbound c' = Some q)"
proof (cases "open_flow_decode body")
  case (Err e)
  then show ?thesis using ok idle by (simp add: receive_open_def)
next
  case (Ok o')
  then have dec: "open_flow_ok o'" by (simp add: open_flow_decode_iff)
  then have id: "flow_id_ok (of_flow_id o')" "of_max_message_bytes o' \<noteq> 0"
    by (auto simp: open_flow_ok_def)
  have parts: "flow_config_ok c" "registered_ok c" "pending_outbound_ok c" "pending_inbound_ok c" "flow_limits c"
    using flow_control_ok_parts[OF ok] by blast+
  obtain y ids where y: "validate_and_consume (fn_peer_flow_ids c) (of_flow_id o') = (y, ids)" by fastforce
  show ?thesis
  proof (cases y)
    case (Err e)
    then have "ids = fn_peer_flow_ids c" using consume_Err y by blast
    then show ?thesis using Ok Err y ok idle by (simp add: receive_open_def)
  next
    case Ok': (Ok u)
    let ?k = "fn_peer_flow_ids c" and ?i = "of_flow_id o'"
    have k: "cursor_ok ?k" "fc_next_sequence ?k = Some (flow_id_sequence ?i)" "flow_id_side ?i = fc_side ?k"
      "ids = cursor_advance (flow_id_sequence ?i) ?k"
      using y Ok' parts(1) by (auto simp: consume_Ok flow_config_ok_def)
    have new: "issued ids (flow_id_value ?i)" "\<not> issued ?k (flow_id_value ?i)"
      using issued_new[OF k(1,2) id(1) k(3)] k(4) by auto
    have later: "issued ids v" if "issued ?k v" for v using issued_advance[OF k(1,2) that] k(4) by simp
    let ?c = "c\<lparr>fn_peer_flow_ids := ids\<rparr>"
    have "cursor_ok ids" using cursor_advance_ok[OF _ k(2)] k(1,2,4) by (simp add: cursor_ok_def)
    then have "flow_config_ok ?c" using parts(1) k(4) by (simp add: flow_config_ok_def cursor_advance_def)
    moreover have "registered_ok ?c"
      using parts(2) later by (auto simp: registered_ok_def cursor_for_def split: flow_direction.splits)
    moreover have "pending_outbound_ok ?c" "pending_inbound_ok ?c" "flow_limits ?c"
      using parts(3-5) idle by (auto simp: pending_outbound_ok_def pending_inbound_ok_def flow_limits_def)
    ultimately have c_ok: "flow_control_ok ?c" by (simp add: flow_control_ok_def)
    have not_registered: "fmlookup (fg_flows (fn_registry c)) (flow_id_value ?i) = None"
    proof (rule ccontr)
      assume "fmlookup (fg_flows (fn_registry c)) (flow_id_value ?i) \<noteq> None"
      then obtain f where "fmlookup (fg_flows (fn_registry c)) (flow_id_value ?i) = Some f" by blast
      then have f: "issued (cursor_for c (fk_direction (rf_key f))) (flow_id_value ?i)"
        using parts(2) unfolding registered_ok_def by blast
      then have "fk_direction (rf_key f) = Inbound"
        using k(3) parts(1) by (cases "fk_direction (rf_key f)")
          (auto simp: cursor_for_def issued_def flow_id_eta flow_config_ok_def)
      then show False using f new(2) by (simp add: cursor_for_def)
    qed
    obtain r1 r2 where frames: "reject_frame (al_frame al) ?i RejectMessageLimit = Some r1"
      "reject_frame (al_frame al) ?i RejectResourceLimit = Some r2"
      using frames_total(2)[OF id(1)] by meson
    have "flow_control_ok (?c\<lparr>fn_pending_inbound := Some \<lparr>io_flow_id = ?i, io_mode = of_delivery_mode o',
        io_max_message_bytes = of_max_message_bytes o'\<rparr>\<rparr>)"
      if "of_max_message_bytes o' \<le> se_max_incoming_message_bytes (fn_local_settings c)"
      using c_ok that id(2) new(1) not_registered
      by (auto simp: flow_control_ok_def flow_config_ok_def registered_ok_def pending_outbound_ok_def
          pending_inbound_ok_def flow_limits_def)
    then show ?thesis
      using Ok Ok' y frames c_ok idle
      by (auto simp: receive_open_def inbound_rejection_def Let_def not_less split: option.splits)
  qed
qed

text \<open>The outcomes of an accept: the flow is in the core and registered, or both are as before.\<close>

definition established_in ::
  "flow_control \<Rightarrow> delivery_endpoint \<Rightarrow> flow_facts \<Rightarrow> flow_resource_policy \<Rightarrow> flow_control \<Rightarrow>
     delivery_endpoint \<Rightarrow> bool" where
  "established_in c ep f policy c' ep' \<longleftrightarrow>
     fmlookup (de_flows ep) (ff_key f) = None
     \<and> de_flows ep' = fmupd (ff_key f) (flow_new (ff_mode f) policy) (de_flows ep)
     \<and> lookup_flow (fn_registry c) (ff_flow_id f) = None
     \<and> (\<exists>r. rf_key r = ff_key f \<and> rf_mode r = ff_mode f \<and> rf_max_message_bytes r = ff_max_message_bytes f
         \<and> fg_flows (fn_registry c') = fmupd (flow_id_value (ff_flow_id f)) r (fg_flows (fn_registry c)))"

definition unchanged_flows ::
  "flow_control \<Rightarrow> delivery_endpoint \<Rightarrow> flow_control \<Rightarrow> delivery_endpoint \<Rightarrow> bool" where
  "unchanged_flows c ep c' ep' \<longleftrightarrow> de_flows ep' = de_flows ep \<and> fn_registry c' = fn_registry c"

definition accepted_outbound ::
  "flow_control \<Rightarrow> delivery_endpoint \<Rightarrow> flow_id \<Rightarrow> pending_outbound \<Rightarrow>
     (flow_control_progress, flow_control_error) result \<Rightarrow> flow_control \<Rightarrow> delivery_endpoint \<Rightarrow> bool" where
  "accepted_outbound c ep i p x c' ep' \<longleftrightarrow>
     (\<forall>e. x \<noteq> Err (ControlRegistry e)) \<and> (\<forall>e. x \<noteq> Err (CoreState e)) \<and>
     (let f = \<lparr>ff_flow_id = i, ff_key = pn_key p, ff_mode = pn_mode p, ff_max_message_bytes = pn_stable_max p\<rparr>
      in if x = Ok (OutboundEstablished f) then established_in c ep f (pn_policy p) c' ep'
         else unchanged_flows c ep c' ep' \<and> (\<forall>g. x \<noteq> Ok (OutboundEstablished g)) \<and> (\<forall>g r t. x \<noteq> Ok (RemoteTerminated g r t)))"

lemma receive_accept_step:
  assumes ok: "flow_control_ok c" and ep: "endpoint_ok lim ep" and id: "flow_id_ok i" "flow_id_side i = fn_local_side c"
    and p: "fmlookup (fn_pending_outbound c) (flow_id_value i) = Some p"
    and body: "flow_accept_decode body = Ok (FlowAccept i)"
  shows "\<exists>x c' ep'. receive_accept al c ep body = Some (x, c', ep') \<and> flow_control_ok c' \<and> endpoint_ok lim ep'
    \<and> fn_pending_outbound c' = fmdrop (flow_id_value i) (fn_pending_outbound c)
    \<and> accepted_outbound c ep i p x c' ep'"
proof -
  let ?c = "c\<lparr>fn_pending_outbound := fmdrop (flow_id_value i) (fn_pending_outbound c)\<rparr>"
  have c_ok: "flow_control_ok ?c" using drop_outbound_ok[OF ok] .
  have parts: "flow_config_ok c" "pending_outbound_ok c" "pending_inbound_ok c" "flow_limits c"
    using flow_control_ok_parts[OF ok] by blast+
  have pend: "issued (fn_local_flow_ids c) (flow_id_value i)" "fmlookup (fg_flows (fn_registry c)) (flow_id_value i) = None"
    "fk_connection (pn_key p) = fn_connection c" "fk_direction (pn_key p) = Outbound"
    "pn_stable_max p = fp_max_message_bytes (pn_policy p)"
    using parts(2) p unfolding pending_outbound_ok_def by blast+
  note step = receive_accept_def require_local_response_side_def body p id(2) Let_def
  obtain y where y: "terminate_frame (al_frame al) i TerminateResourceFailure = Some y"
    using frames_total(3)[OF id(1)] by meson
  have fail: "\<exists>out. outbound_resource_failure al i (pn_key p) t = Some out
      \<and> (\<forall>x y. unchanged_flows c ep x y \<longrightarrow> accepted_outbound c ep i p out x y)" for t
    using y by (auto simp: outbound_resource_failure_def accepted_outbound_def Let_def split: option.split)
  from establish_flow_ok[OF ep, of "pn_key p" "pn_mode p" "pn_policy p" "pn_limits p"] show ?thesis
  proof (elim disjE exE conjE)
    fix e assume e: "establish_flow ep (pn_key p) (pn_mode p) (pn_policy p) (pn_limits p) = Some (Err e, ep)"
    obtain out where "outbound_resource_failure al i (pn_key p) None = Some out"
      "\<forall>x y. unchanged_flows c ep x y \<longrightarrow> accepted_outbound c ep i p out x y"
      using fail by blast
    then show ?thesis
      using c_ok ep
      by (cases e) (auto simp: step e accepted_outbound_def unchanged_flows_def Let_def)
  next
    fix ep1 assume ep1: "establish_flow ep (pn_key p) (pn_mode p) (pn_policy p) (pn_limits p) = Some (Ok (), ep1)"
      "endpoint_ok lim ep1" "moved (pn_key p) (flow_new (pn_mode p) (pn_policy p)) ep ep1"
      "fmlookup (de_flows ep) (pn_key p) = None"
    note con = established_contract[OF ep1(3,4,2)]
    have room: "active_direction_len (fn_registry ?c) Outbound + fm_len (fn_pending_outbound ?c)
        < unat (se_max_active_incoming_flows (fn_peer_settings ?c))"
      using parts(4) fm_len_split[OF p] by (simp add: flow_limits_def)
    have other: "flow_id_value (io_flow_id q) \<noteq> flow_id_value i" if "fn_pending_inbound c = Some q" for q
    proof
      assume same: "flow_id_value (io_flow_id q) = flow_id_value i"
      then have "issued (fn_peer_flow_ids c) (flow_id_value i)"
        using parts(3) that by (auto simp: pending_inbound_ok_def)
      then show False using id(2) parts(1) by (simp add: issued_def flow_id_eta flow_config_ok_def)
    qed
    have reg: "(\<exists>g f. register_consumed_accepted_flow (al_registry al) (fn_registry ?c) ep1 i (pn_key p) (pn_stable_max p) = (Ok (), g)
          \<and> flow_control_ok (?c\<lparr>fn_registry := g, fn_pending_inbound := fn_pending_inbound ?c\<rparr>)
          \<and> g = (fn_registry ?c)\<lparr>fg_flows := fmupd (flow_id_value i) f (fg_flows (fn_registry ?c))\<rparr>
          \<and> rf_key f = pn_key p \<and> rf_mode f = pn_mode p \<and> rf_max_message_bytes f = pn_stable_max p)
      \<or> register_consumed_accepted_flow (al_registry al) (fn_registry ?c) ep1 i (pn_key p) (pn_stable_max p)
          = (Err RegistryAllocationFailed, fn_registry ?c)"
      by (rule register_waiting[OF c_ok])
        (use pend con(1) room other in \<open>auto simp: cursor_for_def\<close>)
    from reg show ?thesis
    proof (elim disjE exE conjE)
      fix g f assume g: "register_consumed_accepted_flow (al_registry al) (fn_registry ?c) ep1 i (pn_key p) (pn_stable_max p) = (Ok (), g)"
        "flow_control_ok (?c\<lparr>fn_registry := g, fn_pending_inbound := fn_pending_inbound ?c\<rparr>)"
        "g = (fn_registry ?c)\<lparr>fg_flows := fmupd (flow_id_value i) f (fg_flows (fn_registry ?c))\<rparr>"
        "rf_key f = pn_key p" "rf_mode f = pn_mode p" "rf_max_message_bytes f = pn_stable_max p"
      have "receive_accept al c ep body = Some (Ok (OutboundEstablished \<lparr>ff_flow_id = i, ff_key = pn_key p,
          ff_mode = pn_mode p, ff_max_message_bytes = pn_stable_max p\<rparr>), ?c\<lparr>fn_registry := g\<rparr>, ep1)"
        using g(1) by (simp add: step ep1(1) complete_accept_def)
      moreover have "flow_control_ok (?c\<lparr>fn_registry := g\<rparr>)" using g(2) by simp
      ultimately show ?thesis
        using ep1(2-4) g(3-6) pend(2) by (auto simp: accepted_outbound_def established_in_def lookup_flow_def moved_def)
    next
      assume err: "register_consumed_accepted_flow (al_registry al) (fn_registry ?c) ep1 i (pn_key p) (pn_stable_max p)
          = (Err RegistryAllocationFailed, fn_registry ?c)"
      obtain t ep2 where t: "terminate_flow ep1 (pn_key p) Requested = Some (Ok t, ep2)" "endpoint_ok lim ep2"
        "de_flows ep2 = de_flows ep"
        using con(2) by blast
      obtain out where out: "outbound_resource_failure al i (pn_key p) (Some t) = Some out"
        "\<forall>x y. unchanged_flows c ep x y \<longrightarrow> accepted_outbound c ep i p out x y"
        using fail by blast
      have "receive_accept al c ep body = Some (out, ?c\<lparr>fn_registry := fn_registry ?c\<rparr>, ep2)"
        using err by (simp add: step ep1(1) t(1) out(1) complete_accept_def)
      then show ?thesis using c_ok t(2,3) out(2) by (auto simp: unchanged_flows_def)
    qed
  qed
qed

end
