(* ===== verification/Flow_Decisions.thy ===== *)
theory Flow_Decisions
  imports Flow_Control_Safety
begin

text \<open>
  Every call of flow control on a valid state: it returns, the state stays valid, and either the flow
  it reports has been established or released in the core and in the registry together, or neither
  has changed.
\<close>

definition released_from ::
  "flow_control \<Rightarrow> delivery_endpoint \<Rightarrow> flow_facts \<Rightarrow> flow_control \<Rightarrow> delivery_endpoint \<Rightarrow> bool" where
  "released_from c ep f c' ep' \<longleftrightarrow>
     (\<exists>r. lookup_flow (fn_registry c) (ff_flow_id f) = Some r \<and> f = established_from_registered (ff_flow_id f) r)
     \<and> de_flows ep' = fmdrop (ff_key f) (de_flows ep)
     \<and> fn_registry c' = registry_release (fn_registry c) (ff_flow_id f)"

definition established_outbound ::
  "flow_control \<Rightarrow> delivery_endpoint \<Rightarrow> flow_facts \<Rightarrow> flow_control \<Rightarrow> delivery_endpoint \<Rightarrow> bool" where
  "established_outbound c ep f c' ep' \<longleftrightarrow> (\<exists>p. fmlookup (fn_pending_outbound c) (flow_id_value (ff_flow_id f)) = Some p
     \<and> flow_id_side (ff_flow_id f) = fn_local_side c
     \<and> f = \<lparr>ff_flow_id = ff_flow_id f, ff_key = pn_key p, ff_mode = pn_mode p, ff_max_message_bytes = pn_stable_max p\<rparr>
     \<and> established_in c ep f (pn_policy p) c' ep')"

definition receive_effect ::
  "flow_control \<Rightarrow> delivery_endpoint \<Rightarrow> (flow_control_progress, flow_control_error) result \<Rightarrow>
     flow_control \<Rightarrow> delivery_endpoint \<Rightarrow> bool" where
  "receive_effect c ep x c' ep' \<longleftrightarrow> (\<forall>e. x \<noteq> Err (ControlRegistry e)) \<and>
     (case x of
        Ok (OutboundEstablished f) \<Rightarrow> established_outbound c ep f c' ep'
      | Ok (RemoteTerminated f r t) \<Rightarrow> released_from c ep f c' ep'
      | _ \<Rightarrow> unchanged_flows c ep c' ep')"

lemma receive_effect_quiet:
  assumes "unchanged_flows c ep c' ep'" "\<forall>e. x \<noteq> Err (ControlRegistry e)"
    "\<forall>f. x \<noteq> Ok (OutboundEstablished f)" "\<forall>f r t. x \<noteq> Ok (RemoteTerminated f r t)"
  shows "receive_effect c ep x c' ep'"
  using assms by (auto simp: receive_effect_def split: result.split flow_control_progress.split)

lemma unchanged_flows_refl [simp]: "unchanged_flows c ep c ep"
  by (simp add: unchanged_flows_def)

lemma receive_accept_total:
  assumes ok: "flow_control_ok c" and ep: "endpoint_ok lim ep"
  shows "\<exists>x c' ep'. receive_accept al c ep body = Some (x, c', ep') \<and> flow_control_ok c' \<and> endpoint_ok lim ep'
    \<and> receive_effect c ep x c' ep'"
proof (cases "flow_accept_decode body")
  case (Err e)
  then show ?thesis using ok ep by (auto simp: receive_accept_def receive_effect_quiet)
next
  case (Ok a)
  obtain i where a: "a = FlowAccept i" by (cases a)
  have id: "flow_id_ok i" using Ok a by (simp add: flow_accept_decode_iff)
  show ?thesis
  proof (cases "flow_id_side i = fn_local_side c")
    case False
    then show ?thesis
      using ok ep Ok a by (auto simp: receive_accept_def require_local_response_side_def receive_effect_quiet)
  next
    case side: True
    show ?thesis
    proof (cases "fmlookup (fn_pending_outbound c) (flow_id_value i)")
      case None
      then show ?thesis
        using ok ep Ok a side by (auto simp: receive_accept_def require_local_response_side_def receive_effect_quiet)
    next
      case (Some p)
      obtain x c' ep' where r: "receive_accept al c ep body = Some (x, c', ep')" "flow_control_ok c'"
        "endpoint_ok lim ep'" "accepted_outbound c ep i p x c' ep'"
        using receive_accept_step[OF ok ep id side Some Ok[unfolded a]] by blast
      let ?f = "\<lparr>ff_flow_id = i, ff_key = pn_key p, ff_mode = pn_mode p, ff_max_message_bytes = pn_stable_max p\<rparr>"
      have "receive_effect c ep x c' ep'"
      proof (cases "x = Ok (OutboundEstablished ?f)")
        case True
        then show ?thesis
          using r(4) Some side by (simp add: accepted_outbound_def receive_effect_def established_outbound_def)
      next
        case False
        then show ?thesis
          using r(4) by (intro receive_effect_quiet) (auto simp: accepted_outbound_def Let_def)
      qed
      then show ?thesis using r(1-3) by blast
    qed
  qed
qed

lemma terminated_step:
  assumes ok: "flow_control_ok c" and ep: "endpoint_ok lim ep"
    and f: "lookup_flow (fn_registry c) (fx_flow_id t) = Some f"
    and body: "flow_terminate_decode body = Ok t" "\<not> (rf_mode f = ReliableOrdered \<and> fx_reason t = TerminateNormal)"
  shows "\<exists>x c' ep'. receive_terminate c ep body = Some (x, c', ep') \<and> flow_control_ok c' \<and> endpoint_ok lim ep'
    \<and> receive_effect c ep x c' ep'"
proof -
  obtain r ep' where r: "terminate_flow ep (rf_key f) Requested = Some (r, ep')" "endpoint_ok lim ep'"
    "de_flows ep' = fmdrop (rf_key f) (de_flows ep)"
    using terminate_flow_ok[OF ep] by blast
  show ?thesis
  proof (cases r)
    case (Err e)
    have "fmlookup (de_flows ep) (rf_key f) = None"
    proof (rule ccontr)
      assume "fmlookup (de_flows ep) (rf_key f) \<noteq> None"
      then obtain y where "fmlookup (de_flows ep) (rf_key f) = Some y" by blast
      from terminate_present[OF ep this, of Requested] show False using r(1) Err by auto
    qed
    then have "receive_effect c ep (Err (CoreState e)) c ep'"
      using r(3) by (intro receive_effect_quiet) (auto simp: unchanged_flows_def fmdrop_absent)
    then show ?thesis using Err body f r(1,2) ok by (auto simp: receive_terminate_def)
  next
    case (Ok x)
    have "released_from c ep (established_from_registered (fx_flow_id t) f)
        (c\<lparr>fn_registry := registry_release (fn_registry c) (fx_flow_id t)\<rparr>) ep'"
      using f r(3) by (simp add: released_from_def established_from_registered_def)
    then show ?thesis
      using Ok body f r(1,2) registry_release_ok[OF ok] by (auto simp: receive_terminate_def receive_effect_def)
  qed
qed

lemma receive_terminate_total:
  assumes ok: "flow_control_ok c" and ep: "endpoint_ok lim ep"
  shows "\<exists>x c' ep'. receive_terminate c ep body = Some (x, c', ep') \<and> flow_control_ok c' \<and> endpoint_ok lim ep'
    \<and> receive_effect c ep x c' ep'"
proof -
  have quiet: ?thesis if "\<exists>e. receive_terminate c ep body = Some (Err e, c, ep) \<and> (\<forall>y. e \<noteq> ControlRegistry y)"
    using that ok ep by (auto simp: receive_effect_quiet)
  show ?thesis
  proof (cases "flow_terminate_decode body")
    case (Err e)
    then show ?thesis by (intro quiet) (simp add: receive_terminate_def)
  next
    case t: (Ok t)
    show ?thesis
    proof (cases "lookup_flow (fn_registry c) (fx_flow_id t)")
      case None
      then show ?thesis using t by (intro quiet) (simp add: receive_terminate_def)
    next
      case (Some f)
      show ?thesis
      proof (cases "rf_mode f = ReliableOrdered \<and> fx_reason t = TerminateNormal")
        case True
        then show ?thesis using t Some by (intro quiet) (simp add: receive_terminate_def)
      next
        case False
        show ?thesis by (rule terminated_step[OF ok ep Some t False])
      qed
    qed
  qed
qed

lemma receive_reject_ok:
  assumes "flow_control_ok c"
  shows "flow_control_ok (snd (receive_reject c body))
    \<and> receive_effect c ep (fst (receive_reject c body)) (snd (receive_reject c body)) ep"
  using assms drop_outbound_ok
  by (auto simp: receive_reject_def require_local_response_side_def receive_effect_def unchanged_flows_def
      split: result.split option.split)

lemma receive_frame_total:
  assumes ok: "flow_control_ok c" and ep: "endpoint_ok lim ep"
  shows "\<exists>x c' ep'. flow_control_receive al c ep frame = Some (x, c', ep') \<and> flow_control_ok c' \<and> endpoint_ok lim ep'
    \<and> receive_effect c ep x c' ep'"
proof (cases "cf_type frame = OpenFlowType \<and> fn_pending_inbound c = None")
  case True
  then obtain x c' where r: "receive_open al c (cf_body frame) = Some (x, c')" "flow_control_ok c'"
    "fn_registry c' = fn_registry c" "\<forall>e. x \<noteq> Err (ControlRegistry e)"
    using receive_open_step[OF ok, of al "cf_body frame"] by blast
  have "\<forall>f. x \<noteq> Ok (OutboundEstablished f)" "\<forall>f u t. x \<noteq> Ok (RemoteTerminated f u t)"
    using r(1) by (auto simp: receive_open_def inbound_rejection_def Let_def bind_eq_Some_conv
        split: result.splits if_splits prod.splits option.splits)
  then have "receive_effect c ep x c' ep"
    using r(3,4) by (intro receive_effect_quiet) (auto simp: unchanged_flows_def)
  then show ?thesis using True r(1,2) ep by (simp add: flow_control_receive_def)
next
  case False
  then show ?thesis
    using receive_accept_total[OF ok ep, of al "cf_body frame"] receive_terminate_total[OF ok ep, of "cf_body frame"]
      receive_reject_ok[OF ok, of "cf_body frame" ep] ok ep
    by (cases "cf_type frame") (auto simp: flow_control_receive_def receive_effect_quiet split: option.split prod.split)
qed

section \<open>Decisions\<close>

definition admission_effect ::
  "flow_control \<Rightarrow> delivery_endpoint \<Rightarrow> inbound_open \<Rightarrow> inbound_admission \<Rightarrow>
     (inbound_resolution, inbound_admission_error) result \<Rightarrow> flow_control \<Rightarrow> delivery_endpoint \<Rightarrow> bool" where
  "admission_effect c ep q a x c' ep' \<longleftrightarrow>
     (\<forall>e. x \<noteq> Err (AdmitRegistry e)) \<and> (\<forall>e. x \<noteq> Err (CoreRollback e)) \<and>
     fn_pending_inbound c' = (if x = Err (RequestNotPending (io_flow_id q)) then fn_pending_inbound c else None) \<and>
     (let f = \<lparr>ff_flow_id = io_flow_id q, ff_key = ia_key a, ff_mode = io_mode q,
          ff_max_message_bytes = unat (io_max_message_bytes q)\<rparr>
      in if x = Ok (InboundAccepted f \<lparr>cf_type = FlowAcceptType, cf_body = body_of [flow_id_value (io_flow_id q)]\<rparr>)
         then established_in c ep f (ia_policy a) c' ep' \<and> fn_pending_inbound c = Some q
         else unchanged_flows c ep c' ep' \<and> (\<forall>g h. x \<noteq> Ok (InboundAccepted g h)))"

lemma resolve_rejection_step:
  assumes "flow_id_ok (io_flow_id q)" "flow_control_ok c" "unchanged_flows c0 ep0 c ep" "endpoint_ok lim ep"
  shows "\<exists>x c'. resolve_inbound_rejection alloc c q r = Some (x, c') \<and> flow_control_ok c' \<and> endpoint_ok lim ep
    \<and> admission_effect c0 ep0 q a x c' ep"
proof -
  obtain y where y: "reject_frame alloc (io_flow_id q) r = Some y" using frames_total(2)[OF assms(1)] by meson
  have ok: "flow_control_ok (c\<lparr>fn_pending_inbound := None\<rparr>)" by (rule clear_inbound_ok[OF assms(2)])
  have eff: "admission_effect c0 ep0 q a x (c\<lparr>fn_pending_inbound := None\<rparr>) ep"
    if "x = Err AdmitAllocation \<or> (\<exists>fr. x = Ok (InboundRefused (io_flow_id q) r fr))" for x
    using that assms(3) by (auto simp: admission_effect_def unchanged_flows_def Let_def)
  show ?thesis
    using y ok assms(4) eff by (cases y) (auto simp: resolve_inbound_rejection_def)
qed

lemma complete_admission_step:
  assumes ok: "flow_control_ok c" and q: "fn_pending_inbound c = Some q"
    and key: "fk_connection (ia_key a) = fn_connection c" "fk_direction (ia_key a) = Inbound"
    and fit: "unat (io_max_message_bytes q) \<le> fp_max_message_bytes (ia_policy a)"
    and room: "active_direction_len (fn_registry c) Inbound < unat (se_max_active_incoming_flows (fn_local_settings c))"
    and ep1: "endpoint_ok lim ep1" "moved (ia_key a) (flow_new (io_mode q) (ia_policy a)) ep ep1"
      "fmlookup (de_flows ep) (ia_key a) = None"
  shows "\<exists>x c' ep'. complete_admission al c ep1 q a
        \<lparr>cf_type = FlowAcceptType, cf_body = body_of [flow_id_value (io_flow_id q)]\<rparr> = Some (x, c', ep')
    \<and> flow_control_ok c' \<and> endpoint_ok lim ep' \<and> admission_effect c ep q a x c' ep'"
proof -
  let ?n = "unat (io_max_message_bytes q)" and ?i = "io_flow_id q"
  let ?fr = "\<lparr>cf_type = FlowAcceptType, cf_body = body_of [flow_id_value ?i]\<rparr>"
  have parts: "flow_config_ok c" "pending_outbound_ok c" "pending_inbound_ok c"
    using flow_control_ok_parts[OF ok] by blast+
  have wait: "issued (fn_peer_flow_ids c) (flow_id_value ?i)" "fmlookup (fg_flows (fn_registry c)) (flow_id_value ?i) = None"
    "io_max_message_bytes q \<noteq> 0"
    using parts(3) q by (auto simp: pending_inbound_ok_def)
  have id: "flow_id_ok ?i" "flow_id_side ?i \<noteq> fn_local_side c"
    using wait(1) parts(1) by (auto simp: issued_def flow_id_eta flow_config_ok_def)
  have size: "u64_to_usize (io_max_message_bytes q) = Some ?n" "?n \<noteq> 0"
    using wait(3) unsigned_less[of "io_max_message_bytes q", where ?'a = nat] by (auto simp: u64_to_usize_def usize_max_def unat_eq_0)
  note con = established_contract[OF ep1(2,3,1)]
  have gone: "fmlookup (fn_pending_outbound c) (flow_id_value ?i) = None"
  proof (rule ccontr)
    assume "fmlookup (fn_pending_outbound c) (flow_id_value ?i) \<noteq> None"
    then obtain p where "fmlookup (fn_pending_outbound c) (flow_id_value ?i) = Some p" by blast
    then have "issued (fn_local_flow_ids c) (flow_id_value ?i)" using parts(2) unfolding pending_outbound_ok_def by blast
    then show False using id(2) parts(1) by (simp add: issued_def flow_id_eta flow_config_ok_def)
  qed
  have reg: "(\<exists>g f. register_consumed_accepted_flow (al_registry al) (fn_registry c) ep1 ?i (ia_key a) ?n = (Ok (), g)
        \<and> flow_control_ok (c\<lparr>fn_registry := g, fn_pending_inbound := None\<rparr>)
        \<and> g = (fn_registry c)\<lparr>fg_flows := fmupd (flow_id_value ?i) f (fg_flows (fn_registry c))\<rparr>
        \<and> rf_key f = ia_key a \<and> rf_mode f = io_mode q \<and> rf_max_message_bytes f = ?n)
    \<or> register_consumed_accepted_flow (al_registry al) (fn_registry c) ep1 ?i (ia_key a) ?n
        = (Err RegistryAllocationFailed, fn_registry c)"
    by (rule register_waiting[OF ok]) (use wait key fit room con(1) gone in \<open>auto simp: cursor_for_def\<close>)
  from reg show ?thesis
  proof (elim disjE exE conjE)
    fix g f assume g: "register_consumed_accepted_flow (al_registry al) (fn_registry c) ep1 ?i (ia_key a) ?n = (Ok (), g)"
      "flow_control_ok (c\<lparr>fn_registry := g, fn_pending_inbound := None\<rparr>)"
      "g = (fn_registry c)\<lparr>fg_flows := fmupd (flow_id_value ?i) f (fg_flows (fn_registry c))\<rparr>"
      "rf_key f = ia_key a" "rf_mode f = io_mode q" "rf_max_message_bytes f = ?n"
    let ?f = "\<lparr>ff_flow_id = ?i, ff_key = ia_key a, ff_mode = io_mode q, ff_max_message_bytes = ?n\<rparr>"
    have run: "complete_admission al c ep1 q a ?fr
        = Some (Ok (InboundAccepted ?f ?fr), c\<lparr>fn_registry := g, fn_pending_inbound := None\<rparr>, ep1)"
      using size g(1) by (simp add: complete_admission_def)
    have "established_in c ep ?f (ia_policy a) (c\<lparr>fn_registry := g, fn_pending_inbound := None\<rparr>) ep1"
      using ep1(2,3) g(3-6) wait(2) by (auto simp: established_in_def lookup_flow_def moved_def)
    then have "admission_effect c ep q a (Ok (InboundAccepted ?f ?fr))
        (c\<lparr>fn_registry := g, fn_pending_inbound := None\<rparr>) ep1"
      using q by (simp add: admission_effect_def)
    then show ?thesis using run g(2) ep1(1) by blast
  next
    assume err: "register_consumed_accepted_flow (al_registry al) (fn_registry c) ep1 ?i (ia_key a) ?n
        = (Err RegistryAllocationFailed, fn_registry c)"
    obtain t ep2 where t: "terminate_flow ep1 (ia_key a) Requested = Some (Ok t, ep2)" "endpoint_ok lim ep2"
      "de_flows ep2 = de_flows ep"
      using con(2) by blast
    have "unchanged_flows c ep c ep2" using t(3) by (simp add: unchanged_flows_def)
    from resolve_rejection_step[OF id(1) ok this t(2), of "al_reply al" RejectResourceLimit a]
    obtain x c' where x: "resolve_inbound_rejection (al_reply al) c q RejectResourceLimit = Some (x, c')"
      "flow_control_ok c'" "admission_effect c ep q a x c' ep2" by blast
    have "complete_admission al c ep1 q a ?fr = Some (x, c', ep2)"
      using size err t(1) x(1) by (simp add: complete_admission_def)
    then show ?thesis using x(2,3) t(2) by blast
  qed
qed

lemma accept_frame_some:
  "flow_id_ok i \<Longrightarrow> accept_frame alloc i = Some None
     \<or> accept_frame alloc i = Some (Some \<lparr>cf_type = FlowAcceptType, cf_body = body_of [flow_id_value i]\<rparr>)"
  using flow_accept_encode_body[of "FlowAccept i"] by (auto simp: accept_frame_def owned_frame_def Let_def)

lemma admission_failed:
  assumes "flow_control_ok c" "\<forall>e. x \<noteq> AdmitRegistry e" "\<forall>e. x \<noteq> CoreRollback e" "x \<noteq> RequestNotPending (io_flow_id q)"
  shows "flow_control_ok (c\<lparr>fn_pending_inbound := None\<rparr>)
    \<and> admission_effect c ep q a (Err x) (c\<lparr>fn_pending_inbound := None\<rparr>) ep"
  using clear_inbound_ok[OF assms(1)] assms(2-4) by (simp add: admission_effect_def unchanged_flows_def)

lemma admit_pending_step:
  assumes ok: "flow_control_ok c" and ep: "endpoint_ok lim ep" and q: "fn_pending_inbound c = Some q"
    and key: "fk_connection (ia_key a) = fn_connection c" "fk_direction (ia_key a) = Inbound"
    and fit: "unat (io_max_message_bytes q) \<le> fp_max_message_bytes (ia_policy a)"
    and room: "active_direction_len (fn_registry c) Inbound < unat (se_max_active_incoming_flows (fn_local_settings c))"
  shows "\<exists>x c' ep'. admit_pending al c ep q a = Some (x, c', ep')
    \<and> flow_control_ok c' \<and> endpoint_ok lim ep' \<and> admission_effect c ep q a x c' ep'"
proof -
  have id: "flow_id_ok (io_flow_id q)"
    using flow_control_ok_parts[OF ok] q by (auto simp: pending_inbound_ok_def issued_def flow_id_eta)
  note failed = admission_failed[OF ok]
  from accept_frame_some[OF id, of "al_frame al"] show ?thesis
  proof (elim disjE)
    assume "accept_frame (al_frame al) (io_flow_id q) = Some None"
    then show ?thesis using failed[of AdmitAllocation q ep a] ep by (simp add: admit_pending_def)
  next
    let ?fr = "\<lparr>cf_type = FlowAcceptType, cf_body = body_of [flow_id_value (io_flow_id q)]\<rparr>"
    assume fr: "accept_frame (al_frame al) (io_flow_id q) = Some (Some ?fr)"
    from establish_flow_ok[OF ep, of "ia_key a" "io_mode q" "ia_policy a" "ia_limits a"] show ?thesis
    proof (elim disjE exE conjE)
      fix e assume e: "establish_flow ep (ia_key a) (io_mode q) (ia_policy a) (ia_limits a) = Some (Err e, ep)"
      obtain x c' where x: "resolve_inbound_rejection (al_reply al) c q RejectResourceLimit = Some (x, c')"
        "flow_control_ok c'" "admission_effect c ep q a x c' ep"
        using resolve_rejection_step[OF id ok unchanged_flows_refl ep] by blast
      show ?thesis
        using fr e x ep failed[of "AdmitEstablishment e" q ep a] by (cases e) (auto simp: admit_pending_def)
    next
      fix ep1 assume ep1: "establish_flow ep (ia_key a) (io_mode q) (ia_policy a) (ia_limits a) = Some (Ok (), ep1)"
        "endpoint_ok lim ep1" "moved (ia_key a) (flow_new (io_mode q) (ia_policy a)) ep ep1"
        "fmlookup (de_flows ep) (ia_key a) = None"
      show ?thesis
        using complete_admission_step[OF ok q key fit room ep1(2-4), of al] fr ep1(1) by (simp add: admit_pending_def)
    qed
  qed
qed

lemma accept_inbound_total:
  assumes ok: "flow_control_ok c" and ep: "endpoint_ok lim ep"
  shows "\<exists>x c' ep'. accept_inbound al c ep q a = Some (x, c', ep')
    \<and> flow_control_ok c' \<and> endpoint_ok lim ep' \<and> admission_effect c ep q a x c' ep'"
proof (cases "fn_pending_inbound c = Some q")
  case False
  then show ?thesis
    using ok ep by (auto simp: accept_inbound_def require_pending_inbound_def admission_effect_def)
next
  case q: True
  have id: "flow_id_ok (io_flow_id q)"
    using flow_control_ok_parts[OF ok] q by (auto simp: pending_inbound_ok_def issued_def flow_id_eta)
  note failed = admission_failed[OF ok]
  have refuse: "\<exists>x c'. resolve_inbound_rejection (al_reply al) c q r = Some (x, c') \<and> flow_control_ok c'
      \<and> admission_effect c ep q a x c' ep" for r
    using resolve_rejection_step[OF id ok unchanged_flows_refl ep] by blast
  let ?small = "io_max_message_bytes q >
    (case usize_to_u64 (fp_max_message_bytes (ia_policy a)) of Some n \<Rightarrow> n | None \<Rightarrow> -1)"
  let ?full = "active_count c Inbound \<ge> se_max_active_incoming_flows (fn_local_settings c)"
  show ?thesis
  proof (cases "fk_connection (ia_key a) \<noteq> fn_connection c \<or> fk_direction (ia_key a) \<noteq> Inbound")
    case True
    then show ?thesis
      using q ep failed[of "AdmitWrongConnection (fn_connection c) (fk_connection (ia_key a))" q ep a]
        failed[of "AdmitWrongDirection (fk_direction (ia_key a))" q ep a]
      by (cases "fk_connection (ia_key a) \<noteq> fn_connection c")
        (simp_all add: accept_inbound_def require_pending_inbound_def)
  next
    case False
    then have key: "fk_connection (ia_key a) = fn_connection c" "fk_direction (ia_key a) = Inbound" by simp_all
    show ?thesis
    proof (cases "validate_for_mode (ia_policy a) (io_mode q)")
      case (Err e)
      then show ?thesis
        using q ep key failed[of "AdmitInvalidPolicy e" q ep a]
        by (simp add: accept_inbound_def require_pending_inbound_def)
    next
      case (Ok u)
      have go: "accept_inbound al c ep q a =
         (if ?small then do {
            (out, c) \<leftarrow> resolve_inbound_rejection (al_reply al) c q RejectMessageLimit; Some (out, c, ep) }
          else if ?full then do {
            (out, c) \<leftarrow> resolve_inbound_rejection (al_reply al) c q RejectResourceLimit; Some (out, c, ep) }
          else admit_pending al c ep q a)"
        using q key Ok by (simp add: accept_inbound_def require_pending_inbound_def)
      show ?thesis
      proof (cases "?small \<or> ?full")
        case True
        then show ?thesis
          using refuse[of RejectMessageLimit] refuse[of RejectResourceLimit] ep by (auto simp: go)
      next
        case False
        have fit: "unat (io_max_message_bytes q) \<le> fp_max_message_bytes (ia_policy a)"
          using False unsigned_less[of "io_max_message_bytes q", where ?'a = nat]
          by (auto simp: usize_to_u64_def not_less word_le_nat_alt word_of_small split: if_splits)
        have room: "active_direction_len (fn_registry c) Inbound
            < unat (se_max_active_incoming_flows (fn_local_settings c))"
          by (rule count_below) (use False in \<open>simp add: active_count_def not_le\<close>)
        show ?thesis using admit_pending_step[OF ok ep q key fit room, of al] False by (simp add: go)
      qed
    qed
  qed
qed

end
