(* ===== verification/Flow_Machine.thy ===== *)
theory Flow_Machine
  imports Flow_Decisions
begin

text \<open>
  Flow control and the core endpoint as one machine: every call of \<open>QuinnFlowControl\<close> a driver makes,
  the stream bindings it makes on the registry, and every call of the core endpoint itself.
\<close>

lemma terminate_local_total:
  assumes ok: "flow_control_ok c" and ep: "endpoint_ok lim ep"
  shows "\<exists>x c' ep'. terminate_local al c ep i reason = Some (x, c', ep') \<and> flow_control_ok c' \<and> endpoint_ok lim ep'
    \<and> (case x of Err _ \<Rightarrow> unchanged_flows c ep c' ep'
       | Ok t \<Rightarrow> released_from c ep (lt_flow t) c' ep' \<and> ff_flow_id (lt_flow t) = i \<and> lt_reason t = reason
           \<and> lt_frame t = \<lparr>cf_type = FlowTerminateType, cf_body = body_of [flow_id_value i, terminate_code reason]\<rparr>
           \<and> \<not> (ff_mode (lt_flow t) = ReliableOrdered \<and> reason = TerminateNormal))"
proof -
  have quiet: ?thesis if "\<exists>e. terminate_local al c ep i reason = Some (Err e, c, ep)"
    using that ok ep by auto
  show ?thesis
  proof (cases "lookup_flow (fn_registry c) i")
    case None
    then show ?thesis by (intro quiet) (simp add: terminate_local_def)
  next
    case (Some f)
    have "issued (cursor_for c (fk_direction (rf_key f))) (flow_id_value i)"
      using flow_control_ok_parts[OF ok] Some unfolding registered_ok_def lookup_flow_def by blast
    then have id: "flow_id_ok i" by (simp add: issued_def flow_id_eta)
    show ?thesis
    proof (cases "(rf_mode f = ReliableOrdered \<and> reason = TerminateNormal)
        \<or> terminate_frame (al_frame al) i reason = Some None")
      case True
      then show ?thesis using Some
        by (intro quiet) (cases "rf_mode f = ReliableOrdered \<and> reason = TerminateNormal"; simp add: terminate_local_def)
    next
      case False
      let ?fr = "\<lparr>cf_type = FlowTerminateType, cf_body = body_of [flow_id_value i, terminate_code reason]\<rparr>"
      have fr: "terminate_frame (al_frame al) i reason = Some (Some ?fr)"
        using False flow_terminate_encode_body[of "\<lparr>fx_flow_id = i, fx_reason = reason\<rparr>"] id
        by (auto simp: terminate_frame_def owned_frame_def Let_def split: if_splits)
      obtain r ep' where r: "terminate_flow ep (rf_key f) Requested = Some (r, ep')" "endpoint_ok lim ep'"
        "de_flows ep' = fmdrop (rf_key f) (de_flows ep)"
        using terminate_flow_ok[OF ep] by blast
      show ?thesis
      proof (cases r)
        case (Err e)
        have "fmlookup (de_flows ep) (rf_key f) = None"
        proof (rule ccontr)
          assume "fmlookup (de_flows ep) (rf_key f) \<noteq> None"
          then obtain y where "fmlookup (de_flows ep) (rf_key f) = Some y" by blast
          from terminate_present[OF ep this, of Requested] show False using r(1) Err by auto
        qed
        then have "unchanged_flows c ep c ep'" using r(3) by (simp add: unchanged_flows_def fmdrop_absent)
        then show ?thesis using Err Some False fr r(1,2) ok by (auto simp: terminate_local_def)
      next
        case (Ok t)
        have "released_from c ep (established_from_registered i f)
            (c\<lparr>fn_registry := registry_release (fn_registry c) i\<rparr>) ep'"
          using Some r(3) by (simp add: released_from_def established_from_registered_def)
        moreover have "ff_mode (established_from_registered i f) = rf_mode f" "ff_flow_id (established_from_registered i f) = i"
          by (simp_all add: established_from_registered_def)
        ultimately show ?thesis
          using Ok Some False fr r(1,2) registry_release_ok[OF ok, of i] by (auto simp: terminate_local_def)
      qed
    qed
  qed
qed

lemma reject_inbound_total:
  assumes ok: "flow_control_ok c" and ep: "endpoint_ok lim ep"
  shows "\<exists>x c'. reject_inbound al c q r = Some (x, c') \<and> flow_control_ok c' \<and> admission_effect c ep q a x c' ep"
proof (cases "fn_pending_inbound c = Some q")
  case False
  then show ?thesis
    using ok by (auto simp: reject_inbound_def require_pending_inbound_def admission_effect_def)
next
  case True
  have id: "flow_id_ok (io_flow_id q)"
    using flow_control_ok_parts[OF ok] True by (auto simp: pending_inbound_ok_def issued_def flow_id_eta)
  from resolve_rejection_step[OF id ok unchanged_flows_refl ep, of "al_reply al" r a]
  show ?thesis using True by (auto simp: reject_inbound_def require_pending_inbound_def)
qed

text \<open>The registry operations the reliable bindings use keep the books.\<close>

lemma associate_stream_flows:
  assumes "associate_stream g i d target = (x, g')"
  shows "g' = g \<or> (\<exists>f a. fmlookup (fg_flows g) (flow_id_value i) = Some f
    \<and> g' = g\<lparr>fg_flows := fmupd (flow_id_value i) (f\<lparr>rf_association := a\<rparr>) (fg_flows g)\<rparr>)"
  using assms by (auto simp: associate_stream_def Let_def split: option.splits if_splits reliable_association.splits)

lemma associate_ok:
  assumes ok: "flow_control_ok c"
  shows "flow_control_ok (c\<lparr>fn_registry := snd (associate_stream (fn_registry c) i d target)\<rparr>)"
proof -
  let ?g = "snd (associate_stream (fn_registry c) i d target)"
  consider "?g = fn_registry c"
    | f a where "fmlookup (fg_flows (fn_registry c)) (flow_id_value i) = Some f"
      "?g = (fn_registry c)\<lparr>fg_flows := fmupd (flow_id_value i) (f\<lparr>rf_association := a\<rparr>) (fg_flows (fn_registry c))\<rparr>"
    using associate_stream_flows[of "fn_registry c" i d target] by (metis prod.collapse)
  then show ?thesis
  proof cases
    case 1
    then show ?thesis using ok by simp
  next
    case 2
    have parts: "flow_config_ok c" "registered_ok c" "pending_outbound_ok c" "pending_inbound_ok c" "flow_limits c"
      using flow_control_ok_parts[OF ok] by blast+
    let ?c = "c\<lparr>fn_registry := ?g\<rparr>"
    have "flow_config_ok ?c" using parts(1) by (simp add: 2(2) flow_config_ok_def)
    moreover have "registered_ok ?c" using parts(2) 2 by (auto simp: registered_ok_def)
    moreover have "fmlookup (fn_pending_outbound c) (flow_id_value i) = None"
      using parts(3) 2(1) by (cases "fmlookup (fn_pending_outbound c) (flow_id_value i)") (auto simp: pending_outbound_ok_def)
    then have "pending_outbound_ok ?c" using parts(3) by (auto simp: 2(2) pending_outbound_ok_def)
    moreover have "pending_inbound_ok ?c" using parts(4) 2 by (auto simp: pending_inbound_ok_def)
    moreover have "flow_limits ?c"
      using parts(5) active_replace[OF 2(1), of "f\<lparr>rf_association := a\<rparr>"] by (simp add: 2(2) flow_limits_def)
    ultimately show ?thesis by (simp add: flow_control_ok_def)
  qed
qed

section \<open>The machine\<close>

datatype flow_call =
    CallPrepareOpen flow_allocs outbound_open_request "nat option"
  | CallControlFrame flow_allocs control_frame
  | CallAcceptInbound flow_allocs inbound_open inbound_admission
  | CallRejectInbound flow_allocs inbound_open flow_reject_reason
  | CallTerminateLocal flow_allocs flow_id flow_terminate_reason
  | CallBindStream flow_id flow_direction reliable_association
  | CallReleaseFlow flow_id
  | CallCore delivery_call

fun flow_step :: "flow_control \<times> delivery_endpoint \<Rightarrow> flow_call \<Rightarrow> (flow_control \<times> delivery_endpoint) exec" where
  "flow_step (c, ep) (CallPrepareOpen al q d) = do { (_, c) \<leftarrow> prepare_outbound_open al c ep q d; Some (c, ep) }"
| "flow_step (c, ep) (CallControlFrame al f) = do { (_, c, ep) \<leftarrow> flow_control_receive al c ep f; Some (c, ep) }"
| "flow_step (c, ep) (CallAcceptInbound al q a) = do { (_, c, ep) \<leftarrow> accept_inbound al c ep q a; Some (c, ep) }"
| "flow_step (c, ep) (CallRejectInbound al q r) = do { (_, c) \<leftarrow> reject_inbound al c q r; Some (c, ep) }"
| "flow_step (c, ep) (CallTerminateLocal al i r) = do { (_, c, ep) \<leftarrow> terminate_local al c ep i r; Some (c, ep) }"
| "flow_step (c, ep) (CallBindStream i d target) =
     Some (c\<lparr>fn_registry := snd (associate_stream (fn_registry c) i d target)\<rparr>, ep)"
| "flow_step (c, ep) (CallReleaseFlow i) = Some (c\<lparr>fn_registry := registry_release (fn_registry c) i\<rparr>, ep)"
| "flow_step (c, ep) (CallCore x) = do { ep \<leftarrow> delivery_step ep x; Some (c, ep) }"

text \<open>What no call changes.\<close>

definition same_config :: "flow_control \<Rightarrow> flow_control \<Rightarrow> bool" where
  "same_config c c' \<longleftrightarrow> fn_connection c' = fn_connection c \<and> fn_local_side c' = fn_local_side c
     \<and> fn_local_settings c' = fn_local_settings c \<and> fn_peer_settings c' = fn_peer_settings c"

lemma same_config_refl [simp]: "same_config c c"
  by (simp add: same_config_def)

lemma same_config_trans: "same_config a b \<Longrightarrow> same_config b c \<Longrightarrow> same_config a c"
  by (simp add: same_config_def)

lemma bind_result_conv:
  "Option.bind m (\<lambda>(t, e). case t of Ok a \<Rightarrow> f a e | Err x \<Rightarrow> g x e) = Some y \<longleftrightarrow>
     (\<exists>a e. m = Some (Ok a, e) \<and> f a e = Some y) \<or> (\<exists>x e. m = Some (Err x, e) \<and> g x e = Some y)"
  by (auto simp: bind_eq_Some_conv split: result.split_asm)

lemma bind_result_Some_conv:
  "Option.bind m (\<lambda>(t, e). Some (case t of Ok a \<Rightarrow> f a e | Err x \<Rightarrow> g x e)) = Some y \<longleftrightarrow>
     (\<exists>a e. m = Some (Ok a, e) \<and> f a e = y) \<or> (\<exists>x e. m = Some (Err x, e) \<and> g x e = y)"
  by (auto simp: bind_eq_Some_conv split: result.split_asm)

lemma prepare_config:
  "flow_control_ok c \<Longrightarrow> prepare_outbound_open al c ep q d = Some (x, c') \<Longrightarrow> same_config c c'"
  using prepare_outbound_open_step[of c al ep q d]
  by (auto simp: opened_def same_config_def split: result.split_asm)

lemma resolve_config: "resolve_inbound_rejection al c q r = Some (x, c') \<Longrightarrow> same_config c c'"
  by (auto simp: resolve_inbound_rejection_def same_config_def bind_result_conv bind_eq_Some_conv split: option.split_asm)

lemma receive_open_config: "receive_open al c body = Some (x, c') \<Longrightarrow> same_config c c'"
  by (auto simp: receive_open_def same_config_def bind_result_conv bind_eq_Some_conv Let_def split: result.split_asm prod.split_asm if_split_asm)

lemma complete_accept_config:
  assumes "complete_accept al c ep i p = Some (x, c', ep')"
  shows "same_config c c'"
proof -
  obtain r g where g: "register_consumed_accepted_flow (al_registry al) (fn_registry c) ep i (pn_key p)
      (pn_stable_max p) = (r, g)" by fastforce
  have "c' = c\<lparr>fn_registry := g\<rparr>"
  proof (cases r)
    case (Ok u)
    then show ?thesis using assms g by (simp add: complete_accept_def)
  next
    case (Err e)
    then obtain t ep1 where t: "terminate_flow ep (pn_key p) Requested = Some (t, ep1)"
      using assms g by (auto simp: complete_accept_def bind_eq_Some_conv)
    then show ?thesis
      using assms g Err
      by (cases t; cases "e = RegistryCapacityExceeded \<or> e = RegistryAllocationFailed")
        (auto simp: complete_accept_def bind_eq_Some_conv)
  qed
  then show ?thesis by (simp add: same_config_def)
qed

lemma receive_accept_config:
  assumes "receive_accept al c ep body = Some (x, c', ep')"
  shows "same_config c c'"
proof (cases "\<exists>i p. flow_accept_decode body = Ok (FlowAccept i) \<and> flow_id_side i = fn_local_side c
    \<and> fmlookup (fn_pending_outbound c) (flow_id_value i) = Some p")
  case True
  then obtain i p where p: "flow_accept_decode body = Ok (FlowAccept i)" "flow_id_side i = fn_local_side c"
    "fmlookup (fn_pending_outbound c) (flow_id_value i) = Some p" by blast
  let ?c = "c\<lparr>fn_pending_outbound := fmdrop (flow_id_value i) (fn_pending_outbound c)\<rparr>"
  obtain r ep1 where r: "establish_flow ep (pn_key p) (pn_mode p) (pn_policy p) (pn_limits p) = Some (r, ep1)"
    using assms p by (auto simp: receive_accept_def require_local_response_side_def Let_def bind_eq_Some_conv)
  have "c' = ?c \<or> same_config ?c c'"
  proof (cases r)
    case (Ok u)
    then have "complete_accept al ?c ep1 i p = Some (x, c', ep')"
      using assms p r by (simp add: receive_accept_def require_local_response_side_def Let_def)
    then show ?thesis by (simp add: complete_accept_config)
  next
    case (Err e)
    then show ?thesis
      using assms p r
      by (cases e) (auto simp: receive_accept_def require_local_response_side_def Let_def bind_eq_Some_conv)
  qed
  then show ?thesis by (auto simp: same_config_def)
next
  case False
  then have "c' = c"
  proof (cases "flow_accept_decode body")
    case (Ok m)
    then show ?thesis
      using False assms by (cases m)
        (auto simp: receive_accept_def require_local_response_side_def split: if_split_asm option.split_asm)
  qed (use assms in \<open>simp add: receive_accept_def\<close>)
  then show ?thesis by simp
qed

lemma receive_terminate_config:
  assumes "receive_terminate c ep body = Some (x, c', ep')"
  shows "same_config c c'"
proof (cases "\<exists>t f. flow_terminate_decode body = Ok t \<and> lookup_flow (fn_registry c) (fx_flow_id t) = Some f")
  case True
  then obtain t f where f: "flow_terminate_decode body = Ok t" "lookup_flow (fn_registry c) (fx_flow_id t) = Some f"
    by blast
  show ?thesis
  proof (cases "terminate_flow ep (rf_key f) Requested")
    case None
    then show ?thesis using assms f by (simp add: receive_terminate_def split: if_split_asm)
  next
    case (Some y)
    then obtain r ep1 where "terminate_flow ep (rf_key f) Requested = Some (r, ep1)" by (cases y) simp
    then show ?thesis
      using assms f by (cases r) (auto simp: receive_terminate_def same_config_def split: if_split_asm)
  qed
next
  case False
  then show ?thesis
    using assms by (cases "flow_terminate_decode body") (auto simp: receive_terminate_def split: option.split_asm)
qed

lemma receive_config: "flow_control_receive al c ep f = Some (x, c', ep') \<Longrightarrow> same_config c c'"
  by (auto simp: flow_control_receive_def receive_reject_def require_local_response_side_def
      bind_eq_Some_conv Let_def split: control_frame_type.split_asm option.split_asm result.split_asm
      prod.split_asm if_split_asm
      dest!: receive_open_config receive_accept_config receive_terminate_config) (simp_all add: same_config_def)

lemma complete_admission_config:
  assumes "complete_admission al c ep q a fr = Some (x, c', ep')"
  shows "same_config c c'"
proof -
  obtain n where n: "u64_to_usize (io_max_message_bytes q) = Some n" "n \<noteq> 0"
    using assms by (auto simp: complete_admission_def split: option.split_asm if_split_asm)
  obtain r g where g: "register_consumed_accepted_flow (al_registry al) (fn_registry c) ep (io_flow_id q)
      (ia_key a) n = (r, g)" by fastforce
  have "c' = c\<lparr>fn_registry := g, fn_pending_inbound := None\<rparr> \<or> same_config (c\<lparr>fn_registry := g\<rparr>) c'"
  proof (cases r)
    case (Ok u)
    then show ?thesis using assms n g by (simp add: complete_admission_def)
  next
    case (Err e)
    then obtain t ep1 where t: "terminate_flow ep (ia_key a) Requested = Some (t, ep1)"
      using assms n g by (auto simp: complete_admission_def bind_eq_Some_conv)
    then show ?thesis
      using assms n g Err
      by (cases t; cases "e = RegistryCapacityExceeded \<or> e = RegistryAllocationFailed")
        (auto simp: complete_admission_def bind_eq_Some_conv dest!: resolve_config)
  qed
  then show ?thesis by (auto simp: same_config_def)
qed

lemma admit_pending_config:
  assumes "admit_pending al c ep q a = Some (x, c', ep')"
  shows "same_config c c'"
proof (cases "\<exists>fr. accept_frame (al_frame al) (io_flow_id q) = Some (Some fr)")
  case True
  then obtain fr where fr: "accept_frame (al_frame al) (io_flow_id q) = Some (Some fr)" by blast
  then obtain r ep1 where r: "establish_flow ep (ia_key a) (io_mode q) (ia_policy a) (ia_limits a) = Some (r, ep1)"
    using assms by (auto simp: admit_pending_def bind_eq_Some_conv)
  show ?thesis
  proof (cases r)
    case (Ok u)
    then have "complete_admission al c ep1 q a fr = Some (x, c', ep')"
      using assms fr r by (simp add: admit_pending_def)
    then show ?thesis by (rule complete_admission_config)
  next
    case (Err e)
    then show ?thesis
      using assms fr r
      by (cases e) (auto simp: admit_pending_def bind_eq_Some_conv same_config_def dest!: resolve_config)
  qed
next
  case False
  then show ?thesis
    using assms by (auto simp: admit_pending_def same_config_def bind_eq_Some_conv split: option.split_asm)
qed

lemma accept_inbound_config: "accept_inbound al c ep q a = Some (x, c', ep') \<Longrightarrow> same_config c c'"
  by (auto simp: accept_inbound_def require_pending_inbound_def bind_result_conv bind_eq_Some_conv Let_def
      split: result.split_asm prod.split_asm if_split_asm dest!: resolve_config admit_pending_config)
    (simp_all add: same_config_def)

lemma reject_inbound_config: "reject_inbound al c q r = Some (x, c') \<Longrightarrow> same_config c c'"
  by (auto simp: reject_inbound_def split: result.split_asm dest!: resolve_config)

lemma terminate_local_config:
  assumes ok: "flow_control_ok c" "endpoint_ok lim ep" and run: "terminate_local al c ep i reason = Some (x, c', ep')"
  shows "same_config c c'"
proof -
  have "c' = c \<or> c' = c\<lparr>fn_registry := registry_release (fn_registry c) i\<rparr>"
  proof (cases "lookup_flow (fn_registry c) i")
    case None
    then show ?thesis using run by (simp add: terminate_local_def)
  next
    case (Some f)
    obtain r ep1 where r: "terminate_flow ep (rf_key f) Requested = Some (r, ep1)"
      using terminate_flow_ok[OF ok(2)] by blast
    show ?thesis
    proof (cases "rf_mode f = ReliableOrdered \<and> reason = TerminateNormal")
      case True
      then show ?thesis using run Some by (simp add: terminate_local_def)
    next
      case False
      obtain y where y: "terminate_frame (al_frame al) i reason = Some y"
        using run Some False by (cases "terminate_frame (al_frame al) i reason") (simp_all add: terminate_local_def)
      have no: "(rf_mode f = ReliableOrdered \<and> reason = TerminateNormal) = False" using False by blast
      note go = run[unfolded terminate_local_def Some option.case no if_False y Option.bind.simps]
      show ?thesis
      proof (cases y)
        case None
        then show ?thesis using go by simp
      next
        case (Some fr)
        then show ?thesis
          using go r by (cases r) simp_all
      qed
    qed
  qed
  then show ?thesis by (auto simp: same_config_def)
qed

section \<open>The machine keeps its books\<close>

definition flow_pair_ok :: "delivery_scope_limits \<Rightarrow> flow_control \<Rightarrow> flow_control \<times> delivery_endpoint \<Rightarrow> bool" where
  "flow_pair_ok lim c0 s \<longleftrightarrow> flow_control_ok (fst s) \<and> endpoint_ok lim (snd s) \<and> same_config c0 (fst s)"

lemma flow_pair_okI:
  "flow_control_ok c' \<Longrightarrow> endpoint_ok lim ep' \<Longrightarrow> same_config c0 c \<Longrightarrow> same_config c c' \<Longrightarrow> flow_pair_ok lim c0 (c', ep')"
  by (auto simp: flow_pair_ok_def intro: same_config_trans)

lemma flow_step_ok:
  assumes "flow_pair_ok lim c0 s"
  shows "\<exists>s'. flow_step s x = Some s' \<and> flow_pair_ok lim c0 s'"
proof -
  obtain c ep where s: "s = (c, ep)" by (cases s)
  have ok: "flow_control_ok c" "endpoint_ok lim ep" and conf: "same_config c0 c"
    using assms by (auto simp: s flow_pair_ok_def)
  note intro = flow_pair_okI[OF _ _ conf]
  show ?thesis
  proof (cases x)
    case (CallPrepareOpen al q d)
    obtain r c' where r: "prepare_outbound_open al c ep q d = Some (r, c')" "flow_control_ok c'"
      using prepare_outbound_open_step[OF ok(1)] by blast
    show ?thesis using intro[OF r(2) ok(2) prepare_config[OF ok(1) r(1)]] r(1) by (simp add: s CallPrepareOpen)
  next
    case (CallControlFrame al f)
    obtain r c' ep' where r: "flow_control_receive al c ep f = Some (r, c', ep')" "flow_control_ok c'" "endpoint_ok lim ep'"
      using receive_frame_total[OF ok] by blast
    show ?thesis using intro[OF r(2,3) receive_config[OF r(1)]] r(1) by (simp add: s CallControlFrame)
  next
    case (CallAcceptInbound al q a)
    obtain r c' ep' where r: "accept_inbound al c ep q a = Some (r, c', ep')" "flow_control_ok c'" "endpoint_ok lim ep'"
      using accept_inbound_total[OF ok] by blast
    show ?thesis using intro[OF r(2,3) accept_inbound_config[OF r(1)]] r(1) by (simp add: s CallAcceptInbound)
  next
    case (CallRejectInbound al q y)
    obtain r c' where r: "reject_inbound al c q y = Some (r, c')" "flow_control_ok c'"
      using reject_inbound_total[OF ok] by blast
    show ?thesis using intro[OF r(2) ok(2) reject_inbound_config[OF r(1)]] r(1) by (simp add: s CallRejectInbound)
  next
    case (CallTerminateLocal al i y)
    obtain r c' ep' where r: "terminate_local al c ep i y = Some (r, c', ep')" "flow_control_ok c'" "endpoint_ok lim ep'"
      using terminate_local_total[OF ok] by blast
    show ?thesis using intro[OF r(2,3) terminate_local_config[OF ok r(1)]] r(1) by (simp add: s CallTerminateLocal)
  next
    case (CallBindStream i d a)
    show ?thesis using intro[OF associate_ok[OF ok(1)] ok(2)] by (simp add: s CallBindStream same_config_def)
  next
    case (CallReleaseFlow i)
    show ?thesis using intro[OF registry_release_ok[OF ok(1)] ok(2)] by (simp add: s CallReleaseFlow same_config_def)
  next
    case (CallCore y)
    obtain ep' where "delivery_step ep y = Some ep'" "endpoint_ok lim ep'"
      using delivery_machine.step_good[OF ok(2)] by blast
    then show ?thesis using intro[OF ok(1)] by (simp add: s CallCore)
  qed
qed

interpretation flow_machine: guarded_machine flow_step "flow_pair_ok lim c0" "\<lambda>_. True" for lim c0
  by unfold_locales (rule flow_step_ok)

end
