(* ===== verification/Stream_Receiver.thy ===== *)
theory Stream_Receiver
  imports Stream_Sender
begin

text \<open>
  What a receiving stream delivers: the bytes read so far are a flow identifier, the frames of the
  messages handed to the core under consecutive indices, and what the decoder has kept. Nothing
  depends on how the stream cuts its bytes into reads.
\<close>

section \<open>Frames in the bytes read\<close>

lemma first_frame_Frame:
  assumes "first_frame alloc mm ms bs = Frame m rest" "mm \<le> MAX_VARINT"
  shows "bs = frame_bytes m @ rest \<and> framable m"
proof -
  obtain v n where v: "decode_varint bs = Ok (v, n)" "v \<le> mm" "unat v \<le> length (drop n bs)"
    "m = take (unat v) (drop n bs)" "rest = drop (unat v) (drop n bs)"
    using assms(1)
    by (auto simp: first_frame_def not_less split: result.splits varint_decode_error.splits if_splits)
  have len: "length m = unat v" using v(3,4) by simp
  have "v \<le> MAX_VARINT" "take n bs = vslice v" using v(1) by (auto simp: decode_varint_iff)
  then have "bs = vslice v @ m @ rest" using v(4,5) by (metis append_take_drop_id)
  then show ?thesis
    using len \<open>v \<le> MAX_VARINT\<close> by (simp add: frame_bytes_def framable_def word_le_nat_alt)
qed

text \<open>Messages under consecutive indices, from index \<open>n\<close>.\<close>

definition numbered :: "nat \<Rightarrow> bytes list \<Rightarrow> exposed_message list" where
  "numbered n ms = map (\<lambda>(j, p). \<lparr>em_accepted_index = word_of_nat j, em_payload = p\<rparr>) (enumerate n ms)"

lemma numbered_simps [simp]:
  "numbered n [] = []"
  "numbered n (m # ms) = \<lparr>em_accepted_index = word_of_nat n, em_payload = m\<rparr> # numbered (Suc n) ms"
  by (simp_all add: numbered_def)

lemma numbered_append: "numbered n (ms @ ms') = numbered n ms @ numbered (n + length ms) ms'"
  by (simp add: numbered_def enumerate_append_eq)

text \<open>The calls a delivery makes on the core: the messages buffered, and nothing else.\<close>

definition arrival_effect ::
  "delivery_endpoint \<Rightarrow> delivery_endpoint \<Rightarrow> delivery_flow_key \<Rightarrow> nat \<Rightarrow> bytes list \<Rightarrow> bool" where
  "arrival_effect ep ep' key n ms \<longleftrightarrow>
     (\<exists>xs es. delivery_trace ep xs = Some (es, ep') \<and> visible es = map (BufferedEvent key) (numbered n ms))"

lemma arrival_none [simp]: "arrival_effect ep ep key n []"
  by (auto simp: arrival_effect_def intro!: exI[of _ "[]"])

lemma arrival_quiet: "delivery_apply ep x = Some (NoEvent, ep') \<Longrightarrow> arrival_effect ep ep' key n []"
  by (auto simp: arrival_effect_def intro!: exI[of _ "[x]"])

lemma arrival_append:
  assumes "arrival_effect ep ep1 key n ms" "arrival_effect ep1 ep2 key (n + length ms) ms'"
  shows "arrival_effect ep ep2 key n (ms @ ms')"
proof -
  obtain xs es ys es' where "delivery_trace ep xs = Some (es, ep1)" "delivery_trace ep1 ys = Some (es', ep2)"
    "visible es = map (BufferedEvent key) (numbered n ms)"
    "visible es' = map (BufferedEvent key) (numbered (n + length ms) ms')"
    using assms by (auto simp: arrival_effect_def)
  then show ?thesis
    by (auto simp: arrival_effect_def numbered_append delivery_trace_append intro!: exI[of _ "xs @ ys"])
qed

lemma fail_custody_arrival:
  assumes "endpoint_ok lim ep"
  shows "\<exists>t ep'. fail_reliable_custody ep key = Some (t, ep') \<and> endpoint_ok lim ep' \<and> arrival_effect ep ep' k n []"
  using delivery_apply_ok[OF assms, of "CallFailCustody key"]
  by (fastforce intro!: arrival_quiet[of _ "CallFailCustody key"])

lemma terminate_arrival:
  assumes "endpoint_ok lim ep"
  shows "\<exists>t ep'. terminate_flow ep key reason = Some (t, ep') \<and> endpoint_ok lim ep' \<and> arrival_effect ep ep' k n []"
  using delivery_apply_ok[OF assms, of "CallTerminate key reason"]
  by (fastforce intro!: arrival_quiet[of _ "CallTerminate key reason"])

text \<open>One message: the decoder is not touched, and success means the core has it under its index.\<close>

lemma deliver_message_spec:
  assumes ok: "endpoint_ok lim ep" and n: "index_frontier (if_next_accepted_index fr) = n"
  shows "\<exists>x fr' ep'. deliver_message fr ep key m = Some (x, fr', ep') \<and> endpoint_ok lim ep'
    \<and> if_decoder fr' = if_decoder fr
    \<and> (case x of
         Ok _ \<Rightarrow> index_frontier (if_next_accepted_index fr') = Suc n \<and> arrival_effect ep ep' key n [m]
       | Err _ \<Rightarrow> arrival_effect ep ep' key n [] \<or> arrival_effect ep ep' key n [m])"
proof (cases "if_next_accepted_index fr")
  case None
  then show ?thesis using ok by (simp add: deliver_message_def)
next
  case (Some idx)
  then have idx: "unat idx = n" "word_of_nat n = idx" using n by auto
  obtain r ep' where r: "receive_transport_payload ep key idx m = Some (r, ep')" "endpoint_ok lim ep'"
    using receive_transport_payload_total[OF ok] by blast
  let ?x = "\<lparr>em_accepted_index = idx, em_payload = m\<rparr>"
  have call: "delivery_apply ep (CallReceivePayload key idx m) = Some (buffered_event key ?x r, ep')"
    using r(1) by simp
  have quiet: "buffered_event key ?x r = NoEvent \<Longrightarrow> arrival_effect ep ep' key n []"
    using call arrival_quiet[of ep "CallReceivePayload key idx m" ep'] by simp
  have came: "buffered_event key ?x r = BufferedEvent key ?x \<Longrightarrow> arrival_effect ep ep' key n [m]"
    using call idx(2) unfolding arrival_effect_def
    by (intro exI[of _ "[CallReceivePayload key idx m]"] exI[of _ "[BufferedEvent key ?x]"]) auto
  show ?thesis
  proof (cases r)
    case (Err e)
    then show ?thesis using Some r quiet by (simp add: deliver_message_def)
  next
    case (Ok out)
    then show ?thesis
      using Some r quiet came idx(1) by (cases out) (auto simp: deliver_message_def)
  qed
qed

section \<open>The decoding loop\<close>

definition frames_result ::
  "delivery_scope_limits \<Rightarrow> (nat \<Rightarrow> bool) \<Rightarrow> inbound_frames \<Rightarrow> bytes \<Rightarrow> delivery_endpoint \<Rightarrow> delivery_flow_key
     \<Rightarrow> nat \<Rightarrow> (nat, receive_error) result \<times> inbound_frames \<times> delivery_endpoint \<Rightarrow> bool" where
  "frames_result lim alloc fr input ep key k out \<longleftrightarrow>
     (case out of (x, fr', ep') \<Rightarrow> endpoint_ok lim ep'
        \<and> (\<exists>ms part. list_all framable ms
             \<and> arrival_effect ep ep' key (index_frontier (if_next_accepted_index fr)) ms
             \<and> pending_bytes (if_decoder fr) @ input = concat (map frame_bytes ms) @ part
             \<and> (\<forall>k'. x = Ok k' \<longrightarrow> k' = k + length ms \<and> frame_decoder_ok alloc (if_decoder fr')
                  \<and> part = pending_bytes (if_decoder fr')
                  \<and> index_frontier (if_next_accepted_index fr')
                      = index_frontier (if_next_accepted_index fr) + length ms)))"

lemma length_state_ok:
  assumes "frame_decoder_ok alloc d" "fd_max_message_bytes d' = fd_max_message_bytes d"
    "fd_max_staging_bytes d' = fd_max_staging_bytes d" "fd_state d' = length_state"
  shows "frame_decoder_ok alloc d'" "pending_bytes d' = []"
  using assms by (simp_all add: frame_decoder_ok_def pending_bytes_def length_state_def)

lemma consume_frames_spec:
  assumes "frame_decoder_ok alloc (if_decoder fr)" "endpoint_ok lim ep"
  shows "\<exists>out. consume_frames alloc fr input ep key k = Some out
    \<and> frames_result lim alloc fr input ep key k out"
  using assms
proof (induction "length input" arbitrary: input fr ep k rule: less_induct)
  case less
  let ?d = "if_decoder fr" and ?n = "index_frontier (if_next_accepted_index fr)"
  show ?case
  proof (cases "input = []")
    case True
    then show ?thesis
      using less.prems
      by (auto simp: consume_frames.simps frames_result_def intro!: exI[of _ "[]"])
  next
    case False
    obtain x d' where c: "frame_consume alloc ?d input = Some (x, d')" "frame_result alloc ?d input (x, d')"
      using frame_consume_spec[OF less.prems(1), of input] by auto
    have lim: "fd_max_message_bytes d' = fd_max_message_bytes ?d"
      "fd_max_staging_bytes d' = fd_max_staging_bytes ?d"
      using c(2) by (simp_all add: frame_result_def)
    show ?thesis
    proof (cases "first_frame_of alloc ?d (pending_bytes ?d @ input)")
      case Need
      then have need: "x = Ok \<lparr>fo_consumed = length input, fo_message = None\<rparr>"
        "frame_decoder_ok alloc d'" "pending_bytes d' = pending_bytes ?d @ input"
        using c(2) by (simp_all add: frame_result_def)
      have "consume_frames alloc fr input ep key k = Some (Ok k, fr\<lparr>if_decoder := d'\<rparr>, ep)"
        using False c(1) need(1)
        by (simp add: consume_frames.simps[of _ _ input] consume_frames.simps[of _ _ "[]"])
      then show ?thesis
        using need less.prems(2) by (auto simp: frames_result_def intro!: exI[of _ "[]"])
    next
      case (Bad e)
      then have "x = Err e" using c(2) by (simp add: frame_result_def)
      then show ?thesis
        using False c(1) less.prems(2)
        by (auto simp: consume_frames.simps frames_result_def intro!: exI[of _ "[] :: bytes list"])
    next
      case (Frame m rest)
      then obtain n where f: "0 < n" "n \<le> length input" "rest = drop n input"
        "x = Ok \<lparr>fo_consumed = n, fo_message = Some m\<rparr>" "fd_state d' = length_state"
        using c(2) by (auto simp: frame_result_def)
      have bytes: "pending_bytes ?d @ input = frame_bytes m @ drop n input" "framable m"
        using first_frame_Frame[OF Frame] less.prems(1) f(3) by (simp_all add: frame_decoder_ok_def)
      note d'_ok = length_state_ok[OF less.prems(1) lim f(5)]
      obtain y fr1 ep1 where y: "deliver_message (fr\<lparr>if_decoder := d'\<rparr>) ep key m = Some (y, fr1, ep1)"
        "endpoint_ok lim ep1" "if_decoder fr1 = d'"
        "case y of Ok _ \<Rightarrow> index_frontier (if_next_accepted_index fr1) = Suc ?n \<and> arrival_effect ep ep1 key ?n [m]
           | Err _ \<Rightarrow> arrival_effect ep ep1 key ?n [] \<or> arrival_effect ep ep1 key ?n [m]"
        using deliver_message_spec[OF less.prems(2), of "fr\<lparr>if_decoder := d'\<rparr>" ?n key m] by auto
      show ?thesis
      proof (cases y)
        case (Err e)
        then have "consume_frames alloc fr input ep key k = Some (Err e, fr1, ep1)"
          using False c(1) f y(1) by (simp add: consume_frames.simps[of _ _ input])
        moreover have "frames_result lim alloc fr input ep key k (Err e, fr1, ep1)"
          using Err y(2,4) bytes
          by (auto simp: frames_result_def intro: exI[of _ "[]"] exI[of _ "[m]"])
        ultimately show ?thesis by blast
      next
        case (Ok u)
        obtain out where out: "consume_frames alloc fr1 (drop n input) ep1 key (k + 1) = Some out"
          "frames_result lim alloc fr1 (drop n input) ep1 key (k + 1) out"
          using less.hyps[of "drop n input" fr1 ep1 "k + 1"] f(1,2) False d'_ok(1) y(2,3) by auto
        obtain z fr2 ep2 where z: "out = (z, fr2, ep2)" by (cases out)
        obtain ms part where ms: "list_all framable ms" "arrival_effect ep1 ep2 key (Suc ?n) ms"
          "drop n input = concat (map frame_bytes ms) @ part"
          "\<And>k'. z = Ok k' \<Longrightarrow> k' = k + 1 + length ms \<and> frame_decoder_ok alloc (if_decoder fr2)
             \<and> part = pending_bytes (if_decoder fr2)
             \<and> index_frontier (if_next_accepted_index fr2) = Suc ?n + length ms"
          using out(2) y(3,4) Ok d'_ok(2) unfolding z frames_result_def by auto
        have "arrival_effect ep ep2 key ?n (m # ms)"
          using arrival_append[of ep ep1 key ?n "[m]" ep2 ms] y(4) Ok ms(2) by simp
        then have "frames_result lim alloc fr input ep key k out"
          using out(2) ms bytes unfolding z frames_result_def
          by (auto intro!: exI[of _ "m # ms"])
        then show ?thesis
          using False c(1) f y(1) Ok out(1) by (simp add: consume_frames.simps[of _ _ input])
      qed
    qed
  qed
qed


section \<open>The association of a stream\<close>

definition prefix_ok :: "flow_id_prefix \<Rightarrow> bool" where
  "prefix_ok p \<longleftrightarrow> length (px_bytes p) = 8
     \<and> (px_filled p \<noteq> 0 \<longrightarrow> px_needed p = encoded_len_from_first (hd (px_bytes p)) \<and> px_filled p < px_needed p)"

abbreviation prefix_taken :: "flow_id_prefix \<Rightarrow> bytes" where
  "prefix_taken p \<equiv> take (px_filled p) (px_bytes p)"

lemma prefix_consume_spec:
  assumes ok: "prefix_ok p" and input: "input \<noteq> []"
  shows "\<exists>x p'. prefix_consume p input = Some (x, p')
    \<and> (\<forall>c. x = Ok c \<longrightarrow>
        (case pc_flow_id c of
           None \<Rightarrow> prefix_ok p' \<and> prefix_taken p' = prefix_taken p @ input
         | Some i \<Rightarrow> pc_consumed c \<le> length input \<and> flow_id_value i \<le> MAX_VARINT
             \<and> prefix_taken p @ take (pc_consumed c) input = vslice (flow_id_value i)))"
proof -
  obtain buffer filled needed where p: "p = \<lparr>px_bytes = buffer, px_filled = filled, px_needed = needed\<rparr>"
    by (cases p)
  define first where "first = (if filled = 0 then hd input else hd buffer)"
  define need where "need = encoded_len_from_first first"
  have buf: "length buffer = 8" and st: "filled \<noteq> 0 \<Longrightarrow> needed = need \<and> filled < need"
    using ok by (auto simp: p prefix_ok_def first_def need_def)
  have need8: "1 \<le> need" "need \<le> 8" using encoded_len_from_first_bounds by (simp_all add: need_def)
  have lt: "filled < need" using st need8 by (cases "filled = 0") auto
  define n where "n = min (need - filled) (length input)"
  define buffer' where "buffer' = take filled buffer @ take n input @ drop (filled + n) buffer"
  let ?p = "\<lparr>px_bytes = buffer', px_filled = filled + n, px_needed = need\<rparr>"
  have n: "0 < n" "n \<le> length input" using lt input by (auto simp: n_def)
  have copy: "copy_into buffer filled (take n input) = Some buffer'"
    using buf lt need8 by (auto simp: copy_into_def buffer'_def n_def min_def)
  have sub: "checked_sub need filled = Some (need - filled)" using lt by (simp add: checked_sub_def)
  have taken: "take (filled + n) buffer' = take filled buffer @ take n input"
    using buf lt need8 by (simp add: buffer'_def n_def min_def)
  have needed_eq: "(if filled = 0 then encoded_len_from_first (hd input) else needed) = need"
    using st by (simp add: first_def need_def)
  have call: "prefix_consume p input = Some (if filled + n \<noteq> need then (Ok \<lparr>pc_consumed = n, pc_flow_id = None\<rparr>, ?p)
      else (case decode_varint (take need buffer') of
          Err e \<Rightarrow> (Err (PrefixVarInt e), ?p)
        | Ok (v, _) \<Rightarrow> (case flow_id_from_wire v of
            Err e \<Rightarrow> (Err (PrefixFlowId e), ?p)
          | Ok i \<Rightarrow> (Ok \<lparr>pc_consumed = n, pc_flow_id = Some i\<rparr>, ?p))))"
    unfolding prefix_consume_def p flow_id_prefix.select_convs Let_def needed_eq sub
      Option.bind.bind_lunit n_def[symmetric]
    using input copy by simp
  have hd': "hd buffer' = first"
    using buf n input by (cases buffer; cases input; cases filled) (auto simp: buffer'_def first_def)
  show ?thesis
  proof (cases "filled + n = need")
    case True
    have dec: "v \<le> MAX_VARINT \<and> take filled buffer @ take n input = vslice v"
      if "decode_varint (take need buffer') = Ok (v, m)" for v m
    proof -
      have ts: "take need buffer' = take filled buffer @ take n input" using taken True by simp
      have len: "length (take need buffer') = need" using ts True buf lt need8 n(2) by simp
      have "hd (take need buffer') = first"
        using hd' need8 by (cases buffer') (auto simp: take_Cons split: nat.splits)
      then have hd_ts: "encoded_len_from_first (hd (take need buffer')) = need" by (simp only: need_def)
      have "take need buffer' \<noteq> []" using len need8 by auto
      then have "m = need"
        using decode_varint_prefix(3)[OF _ _ that] len unfolding hd_ts by simp
      then show ?thesis using that len unfolding decode_varint_iff ts[symmetric] by auto
    qed
    then show ?thesis
      using call True n(2)
      by (auto simp: p flow_id_from_wire_Ok split: result.splits)
  next
    case False
    have n_all: "n = length input" using False lt by (auto simp: n_def)
    have "length buffer' = 8" using buf lt need8 n(2) by (auto simp: buffer'_def n_def min_def)
    moreover have "filled + n < need" using False lt by (auto simp: n_def)
    ultimately have "prefix_ok ?p" using hd' by (simp add: prefix_ok_def need_def)
    then show ?thesis using call False taken n_all by (simp add: p)
  qed
qed

section \<open>The state of a receiver\<close>

definition received_shape :: "bytes list \<Rightarrow> bytes \<Rightarrow> bool" where
  "received_shape ms input \<longleftrightarrow> list_all framable ms
     \<and> (ms = [] \<or> (\<exists>v part. v \<le> MAX_VARINT \<and> input = vslice v @ concat (map frame_bytes ms) @ part))"

definition receiving ::
  "(nat \<Rightarrow> bool) \<Rightarrow> 'r inbound_reliable \<Rightarrow> bytes list \<Rightarrow> bytes \<Rightarrow> bool" where
  "receiving alloc r ms input \<longleftrightarrow>
     (case ir_flow r of
        None \<Rightarrow> ms = [] \<and> prefix_ok (ir_prefix r) \<and> \<not> ir_draining r \<and> input = prefix_taken (ir_prefix r)
      | Some f \<Rightarrow> (\<exists>v fr. v \<le> MAX_VARINT \<and> ir_frames r = Some fr \<and> frame_decoder_ok alloc (if_decoder fr)
          \<and> index_frontier (if_next_accepted_index fr) = length ms
          \<and> input = vslice v @ concat (map frame_bytes ms) @ pending_bytes (if_decoder fr)))"

definition receiver_at ::
  "(nat \<Rightarrow> bool) \<Rightarrow> ('r \<Rightarrow> bytes) \<Rightarrow> 'r inbound_reliable \<Rightarrow> bytes list \<Rightarrow> bool" where
  "receiver_at alloc rlog r ms \<longleftrightarrow> received_shape ms (rlog (ir_reader r))
     \<and> (\<not> ir_terminal r \<longrightarrow> receiving alloc r ms (rlog (ir_reader r)))"

text \<open>What the binding relies on of a stream: a read hands over the next bytes.\<close>

definition stream_reader :: "'r reader_ops \<Rightarrow> ('r \<Rightarrow> bytes) \<Rightarrow> bool" where
  "stream_reader ops rlog \<longleftrightarrow>
     (\<forall>r n. case ro_poll_read ops r n of
          (Ready (Ok bs), r') \<Rightarrow> rlog r' = rlog r @ bs
        | (_, r') \<Rightarrow> rlog r' = rlog r)
     \<and> (\<forall>r c. rlog (ro_stop ops r c) = rlog r)"

text \<open>
  The outcome of a step: \<open>ms\<close> delivered before, \<open>input\<close> the bytes read by now. The key that new
  messages go to is that of the flow the stream belongs to.
\<close>

definition receive_result ::
  "delivery_scope_limits \<Rightarrow> (nat \<Rightarrow> bool) \<Rightarrow> ('r \<Rightarrow> bytes) \<Rightarrow> bytes \<Rightarrow> bytes list \<Rightarrow> delivery_endpoint \<Rightarrow>
     (receive_progress, receive_error) result \<times> 'r inbound_reliable \<times> delivery_endpoint \<times> flow_registry \<Rightarrow> bool"
  where
  "receive_result lim alloc rlog input ms ep out \<longleftrightarrow>
     (case out of (x, r', ep', g') \<Rightarrow> endpoint_ok lim ep' \<and> rlog (ir_reader r') = input
        \<and> (\<exists>ms'. receiver_at alloc rlog r' (ms @ ms')
             \<and> (case ir_flow r' of
                  None \<Rightarrow> ms' = [] \<and> ep' = ep
                | Some f \<Rightarrow> arrival_effect ep ep' (rf_key f) (length ms) ms')))"


lemma receiving_shape: "receiving alloc r ms input \<Longrightarrow> list_all framable ms \<Longrightarrow> received_shape ms input"
  by (auto simp: receiving_def received_shape_def split: option.splits)

lemma terminal_result:
  "endpoint_ok lim ep' \<Longrightarrow> received_shape (ms @ ms') (rlog (ir_reader r')) \<Longrightarrow> ir_terminal r' \<Longrightarrow>
     (case ir_flow r' of None \<Rightarrow> ms' = [] \<and> ep' = ep
      | Some f \<Rightarrow> arrival_effect ep ep' (rf_key f) (length ms) ms') \<Longrightarrow>
     receive_result lim alloc rlog (rlog (ir_reader r')) ms ep (x, r', ep', g')"
  by (auto simp: receive_result_def receiver_at_def)

text \<open>Failing: what was delivered stays delivered, and the core loses the flow.\<close>

lemma inbound_fail_spec:
  assumes rd: "stream_reader ops rlog" and ok: "endpoint_ok lim ep1"
    and shape: "received_shape (ms @ ms') (rlog (ir_reader r))" and alive: "\<not> ir_terminal r"
    and eff: "case ir_flow r of None \<Rightarrow> ms' = [] \<and> ep1 = ep
      | Some f \<Rightarrow> arrival_effect ep ep1 (rf_key f) (length ms) ms'"
  shows "\<exists>out. inbound_fail ops r ep1 g code e = Some out
    \<and> receive_result lim alloc rlog (rlog (ir_reader r)) ms ep out"
proof -
  have stop: "rlog (ro_stop ops (ir_reader r) c) = rlog (ir_reader r)" for c
    using rd by (simp add: stream_reader_def)
  show ?thesis
  proof (cases "ir_flow r")
    case None
    then show ?thesis
      using alive eff ok shape stop by (simp add: inbound_fail_def receive_result_def receiver_at_def)
  next
    case (Some f)
    obtain t ep2 where t: "fail_reliable_custody ep1 (rf_key f) = Some (t, ep2)" "endpoint_ok lim ep2"
      "arrival_effect ep1 ep2 (rf_key f) (length ms + length ms') []"
      using fail_custody_arrival[OF ok] by blast
    then have "arrival_effect ep ep2 (rf_key f) (length ms) ms'"
      using arrival_append[of ep ep1 "rf_key f" "length ms" ms' ep2 "[]"] eff Some by simp
    then show ?thesis
      using alive t(1,2) shape stop Some
      by (auto simp: inbound_fail_def receive_result_def receiver_at_def intro!: exI[of _ ms'])
  qed
qed

lemma receive_frames_spec:
  assumes rd: "stream_reader ops rlog" and ok: "endpoint_ok lim ep"
    and alive: "\<not> ir_terminal r" and fl: "ir_flow r = Some f" and fr: "ir_frames r = Some fr"
    and dec: "frame_decoder_ok alloc (if_decoder fr)"
    and idx: "index_frontier (if_next_accepted_index fr) = length ms" and fit: "list_all framable ms"
    and v: "v \<le> MAX_VARINT" and log: "rlog (ir_reader r) = vslice v @ concat (map frame_bytes ms)
      @ pending_bytes (if_decoder fr) @ drop offset input"
  shows "\<exists>out. receive_frames alloc ops r input offset ep g = Some out
    \<and> receive_result lim alloc rlog (rlog (ir_reader r)) ms ep out"
proof -
  obtain x fr' ep' where c: "inbound_frames_consume alloc fr (drop offset input) ep (rf_key f) = Some (x, fr', ep')"
    "frames_result lim alloc fr (drop offset input) ep (rf_key f) 0 (x, fr', ep')"
    using consume_frames_spec[OF dec ok, of "drop offset input" "rf_key f" 0]
    by (auto simp: inbound_frames_consume_def)
  obtain ms' part where m: "endpoint_ok lim ep'" "list_all framable ms'"
    "arrival_effect ep ep' (rf_key f) (length ms) ms'"
    "pending_bytes (if_decoder fr) @ drop offset input = concat (map frame_bytes ms') @ part"
    "\<And>k. x = Ok k \<Longrightarrow> frame_decoder_ok alloc (if_decoder fr') \<and> part = pending_bytes (if_decoder fr')
       \<and> index_frontier (if_next_accepted_index fr') = length ms + length ms'"
    using c(2) idx by (auto simp: frames_result_def)
  let ?r = "r\<lparr>ir_frames := Some fr'\<rparr>"
  have log': "rlog (ir_reader r) = vslice v @ concat (map frame_bytes (ms @ ms')) @ part"
    using log m(4) by simp
  then have shape: "received_shape (ms @ ms') (rlog (ir_reader ?r))"
    using v fit m(2) unfolding received_shape_def by auto
  show ?thesis
  proof (cases x)
    case (Err e)
    then show ?thesis
      using inbound_fail_spec[OF rd m(1) shape, of ep g "receive_error_code e" e] alive fl m(3) c(1) fr
      by (simp add: receive_frames_def)
  next
    case (Ok k)
    have "receiving alloc ?r (ms @ ms') (rlog (ir_reader r))"
      using log' v m(5)[OF Ok] fl by (auto simp: receiving_def)
    then show ?thesis
      using Ok c(1) fl fr m(1,3) shape
      by (auto simp: receive_frames_def receive_result_def receiver_at_def intro!: exI[of _ ms'])
  qed
qed

lemma inbound_drain_spec:
  assumes ok: "endpoint_ok lim ep" and at: "receiver_at alloc rlog r ms"
    and dr: "ir_draining r" "\<not> ir_terminal r"
  shows "\<exists>out. inbound_drain r ep g = Some out
    \<and> receive_result lim alloc rlog (rlog (ir_reader r)) ms ep out"
proof -
  have shape: "received_shape ms (rlog (ir_reader r))" and st: "receiving alloc r ms (rlog (ir_reader r))"
    using at dr by (simp_all add: receiver_at_def)
  then obtain f where f: "ir_flow r = Some f" using dr by (auto simp: receiving_def split: option.splits)
  obtain t ep' where t: "terminate_flow ep (rf_key f) Requested = Some (t, ep')" "endpoint_ok lim ep'"
    "arrival_effect ep ep' (rf_key f) (length ms) []"
    using terminate_arrival[OF ok] by blast
  show ?thesis
  proof (cases "flow_pending_usage ep (rf_key f)")
    case None
    then show ?thesis using f ok shape
      by (auto simp: inbound_drain_def receive_result_def receiver_at_def intro!: exI[of _ "[]"])
  next
    case (Some u)
    show ?thesis
    proof (cases t)
      case (Err e)
      have "ep' = ep" using terminate_flow_Err t(1) Err by blast
      then show ?thesis using Some f ok at t Err
        by (auto simp: inbound_drain_def receive_result_def intro!: exI[of _ "[]"])
    next
      case (Ok x)
      then show ?thesis
        using Some f ok at t shape
        by (auto simp: inbound_drain_def receive_result_def receiver_at_def intro!: exI[of _ "[]"])
    qed
  qed
qed

lemma inbound_frames_new_ok:
  assumes "inbound_frames_new m s = Ok fr"
  shows "frame_decoder_ok alloc (if_decoder fr)" "if_next_accepted_index fr = Some 0"
    "pending_bytes (if_decoder fr) = []"
  using assms
  by (auto simp: inbound_frames_new_def frame_decoder_new_def result_bind_def ok_or_def frame_decoder_ok_def
      length_state_def pending_bytes_def split: if_splits result.splits option.splits)


lemma receive_prefix_spec:
  fixes r :: "'r inbound_reliable"
  assumes rd: "stream_reader ops rlog" and ok: "endpoint_ok lim ep" and alive: "\<not> ir_terminal r"
    and new: "ir_flow r = None" "\<not> ir_draining r" "prefix_ok (ir_prefix r)"
    and log: "rlog (ir_reader r) = prefix_taken (ir_prefix r) @ input" and input: "input \<noteq> []"
  shows "\<exists>out. receive_prefix alloc ops r input ep g = Some out
    \<and> receive_result lim alloc rlog (rlog (ir_reader r)) [] ep out"
proof -
  obtain x p where p: "prefix_consume (ir_prefix r) input = Some (x, p)"
    "\<And>c. x = Ok c \<Longrightarrow> (case pc_flow_id c of
           None \<Rightarrow> prefix_ok p \<and> prefix_taken p = prefix_taken (ir_prefix r) @ input
         | Some i \<Rightarrow> pc_consumed c \<le> length input \<and> flow_id_value i \<le> MAX_VARINT
             \<and> prefix_taken (ir_prefix r) @ take (pc_consumed c) input = vslice (flow_id_value i))"
    using prefix_consume_spec[OF new(3) input] by blast
  have stop: "rlog (ro_stop ops (ir_reader r) c) = rlog (ir_reader r)" for c
    using rd by (simp add: stream_reader_def)
  have empty: "received_shape [] bs" for bs by (simp add: received_shape_def)
  have dead: "receive_result lim alloc rlog (rlog (ir_reader r)) [] ep
      (y, r\<lparr>ir_prefix := p, ir_reader := ro_stop ops (ir_reader r) (code_wire FlowProtocolError), ir_terminal := True\<rparr>, ep, g')"
    for y g'
    using ok stop empty new(1) by (simp add: receive_result_def receiver_at_def)
  show ?thesis
  proof (cases x)
    case (Err e)
    then show ?thesis using p(1) dead by (simp add: receive_prefix_def Let_def)
  next
    case (Ok c)
    show ?thesis
    proof (cases "pc_flow_id c")
      case None
      then show ?thesis
        using p Ok ok new log empty by (auto simp: receive_prefix_def receive_result_def receiver_at_def receiving_def)
    next
      case (Some i)
      have i: "pc_consumed c \<le> length input" "flow_id_value i \<le> MAX_VARINT"
        "rlog (ir_reader r) = vslice (flow_id_value i) @ drop (pc_consumed c) input"
      proof -
        have w: "pc_consumed c \<le> length input" "flow_id_value i \<le> MAX_VARINT"
          "prefix_taken (ir_prefix r) @ take (pc_consumed c) input = vslice (flow_id_value i)"
          using p(2)[OF Ok] Some by simp_all
        show "pc_consumed c \<le> length input" "flow_id_value i \<le> MAX_VARINT" by (fact w)+
        show "rlog (ir_reader r) = vslice (flow_id_value i) @ drop (pc_consumed c) input"
          unfolding log w(3)[symmetric] by simp
      qed
      obtain y g1 where y: "associate_inbound g i = (y, g1)" by (cases "associate_inbound g i")
      show ?thesis
      proof (cases y)
        case (Err e)
        then show ?thesis using p(1) dead y Ok Some by (simp add: receive_prefix_def Let_def)
      next
        case f: (Ok f)
        let ?r = "r\<lparr>ir_prefix := p, ir_flow_id := Some i, ir_flow := Some f\<rparr>"
        have fail: "\<exists>out. inbound_fail ops ?r ep g1 code e = Some out
            \<and> receive_result lim alloc rlog (rlog (ir_reader r)) [] ep out" for code e
          using inbound_fail_spec[OF rd ok, of "[]" "[]" ?r ep g1 code e alloc] empty alive by simp
        show ?thesis
        proof (cases "ir_max_staging_bytes r < rf_max_message_bytes f")
          case True
          then show ?thesis
            using p(1) y f Ok Some fail by (simp add: receive_prefix_def Let_def)
        next
          case fits: False
          show ?thesis
          proof (cases "inbound_frames_new (rf_max_message_bytes f) (ir_max_staging_bytes r)")
            case (Err e)
            then show ?thesis
              using p(1) y f Ok Some fail fits by (simp add: receive_prefix_def Let_def)
          next
            case fr: (Ok fr)
            note fr_ok = inbound_frames_new_ok[OF fr]
            let ?r' = "?r\<lparr>ir_frames := Some fr\<rparr>"
            have log': "rlog (ir_reader ?r') = vslice (flow_id_value i) @ concat (map frame_bytes [])
                @ pending_bytes (if_decoder fr) @ drop (pc_consumed c) input"
              using i(3) fr_ok(3) by simp
            show ?thesis
            proof (cases "pc_consumed c = length input")
              case True
              have "receiving alloc ?r' [] (rlog (ir_reader r))"
                using i True fr_ok by (auto simp: receiving_def)
              then show ?thesis
                using p(1) y f Ok Some fits fr True ok empty
                by (auto simp: receive_prefix_def receive_result_def receiver_at_def Let_def
                    intro!: exI[of _ "[] :: bytes list"])
            next
              case False
              have "\<exists>out. receive_frames alloc ops ?r' input (pc_consumed c) ep g1 = Some out
                  \<and> receive_result lim alloc rlog (rlog (ir_reader ?r')) [] ep out"
                by (rule receive_frames_spec[OF rd ok _ _ _ fr_ok(1) _ _ i(2) log'])
                  (use alive fr_ok(2) in simp_all)
              then show ?thesis
                using p(1) y f Ok Some fits fr False by (simp add: receive_prefix_def Let_def)
            qed
          qed
        qed
      qed
    qed
  qed
qed


lemma receive_end_spec:
  assumes rd: "stream_reader ops rlog" and ok: "endpoint_ok lim ep" and at: "receiver_at alloc rlog r ms"
    and alive: "\<not> ir_terminal r"
  shows "\<exists>out. receive_end ops r ep g = Some out
    \<and> receive_result lim alloc rlog (rlog (ir_reader r)) ms ep out"
proof -
  have shape: "received_shape ms (rlog (ir_reader r))" and st: "receiving alloc r ms (rlog (ir_reader r))"
    using at alive by (simp_all add: receiver_at_def)
  have stop: "rlog (ro_stop ops (ir_reader r) c) = rlog (ir_reader r)" for c
    using rd by (simp add: stream_reader_def)
  show ?thesis
  proof (cases "ir_flow r")
    case None
    then show ?thesis
      using ok shape stop by (simp add: receive_end_def receive_result_def receiver_at_def)
  next
    case (Some f)
    then obtain fr where fr: "ir_frames r = Some fr" using st by (auto simp: receiving_def)
    show ?thesis
    proof (cases "frame_finish (if_decoder fr)")
      case (Err e)
      have "received_shape (ms @ []) (rlog (ir_reader r))" using shape by simp
      from inbound_fail_spec[OF rd ok this alive, of ep] Err fr Some
      show ?thesis by (simp add: receive_end_def)
    next
      case (Ok u)
      have "receiver_at alloc rlog (r\<lparr>ir_draining := True\<rparr>) ms"
        using at alive Some by (simp add: receiver_at_def receiving_def)
      from inbound_drain_spec[OF ok this, of g] Ok fr Some alive
      show ?thesis by (simp add: receive_end_def)
    qed
  qed
qed

text \<open>A whole poll: the bytes read grow by what the stream hands over.\<close>

definition poll_result ::
  "delivery_scope_limits \<Rightarrow> (nat \<Rightarrow> bool) \<Rightarrow> ('r \<Rightarrow> bytes) \<Rightarrow> bytes list \<Rightarrow> delivery_endpoint \<Rightarrow>
     'r inbound_reliable \<times> delivery_endpoint \<times> flow_registry \<Rightarrow> bool" where
  "poll_result lim alloc rlog ms ep out \<longleftrightarrow>
     (case out of (r', ep', g') \<Rightarrow> endpoint_ok lim ep'
        \<and> (\<exists>ms'. receiver_at alloc rlog r' (ms @ ms')
             \<and> (case ir_flow r' of
                  None \<Rightarrow> ms' = [] \<and> ep' = ep
                | Some f \<Rightarrow> arrival_effect ep ep' (rf_key f) (length ms) ms')))"

lemma receive_poll_result: "receive_result lim alloc rlog bs ms ep (x, w) \<Longrightarrow> poll_result lim alloc rlog ms ep w"
  by (cases w) (auto simp: receive_result_def poll_result_def)

lemma poll_result_idle:
  "endpoint_ok lim ep \<Longrightarrow> receiver_at alloc rlog r ms \<Longrightarrow> poll_result lim alloc rlog ms ep (r, ep, g)"
  by (auto simp: poll_result_def split: option.splits intro!: exI[of _ "[]"])

lemma inbound_poll_step_spec:
  fixes r :: "'r inbound_reliable"
  assumes rd: "stream_reader ops rlog" and ok: "endpoint_ok lim ep" and at: "receiver_at alloc rlog r ms"
  shows "\<exists>y w. inbound_poll_step alloc ops r ep g = Some (y, w) \<and> poll_result lim alloc rlog ms ep w"
proof (cases "ir_terminal r \<or> ir_draining r")
  case True
  show ?thesis
  proof (cases "ir_terminal r")
    case True
    then show ?thesis using poll_result_idle[OF ok at, of g] by (simp add: inbound_poll_step_def)
  next
    case False
    with True obtain x w where w: "inbound_drain r ep g = Some (x, w)"
      "receive_result lim alloc rlog (rlog (ir_reader r)) ms ep (x, w)"
      using inbound_drain_spec[OF ok at, of g] by auto
    have "poll_result lim alloc rlog ms ep w" by (rule receive_poll_result[OF w(2)])
    then show ?thesis using w(1) True False by (cases w) (simp add: inbound_poll_step_def)
  qed
next
  case False
  then have alive: "\<not> ir_terminal r" "\<not> ir_draining r" by simp_all
  have shape: "received_shape ms (rlog (ir_reader r))" and st: "receiving alloc r ms (rlog (ir_reader r))"
    using at alive by (simp_all add: receiver_at_def)
  obtain y r' where y: "ro_poll_read ops (ir_reader r) (ir_scratch r) = (y, r')"
    by (cases "ro_poll_read ops (ir_reader r) (ir_scratch r)")
  have law: "case (y, r') of (Ready (Ok bs), r') \<Rightarrow> rlog r' = rlog (ir_reader r) @ bs
      | (_, r') \<Rightarrow> rlog r' = rlog (ir_reader r)"
  proof -
    have "case ro_poll_read ops (ir_reader r) (ir_scratch r) of
        (Ready (Ok bs), r') \<Rightarrow> rlog r' = rlog (ir_reader r) @ bs
      | (_, r') \<Rightarrow> rlog r' = rlog (ir_reader r)"
      by (rule rd[unfolded stream_reader_def, THEN conjunct1, THEN spec, THEN spec])
    then show ?thesis unfolding y .
  qed
  let ?r = "r\<lparr>ir_reader := r'\<rparr>"
  have same: "receiver_at alloc rlog ?r ms" if "rlog r' = rlog (ir_reader r)"
    using at that by (auto simp: receiver_at_def receiving_def split: option.splits)
  have step: "\<exists>y w. map_option (\<lambda>(x, r, ep, g). (Ready x, r, ep, g)) z = Some (y, w) \<and> poll_result lim alloc rlog ms ep w"
    if "\<exists>out. z = Some out \<and> receive_result lim alloc rlog bs ms ep out" for z bs
    using that receive_poll_result by fastforce
  show ?thesis
  proof (cases "\<exists>bs. y = Ready (Ok bs)")
    case False
    then have log: "rlog r' = rlog (ir_reader r)" using law by (auto split: poll.splits result.splits)
    have "received_shape (ms @ []) (rlog (ir_reader ?r))" using shape log by simp
    from inbound_fail_spec[OF rd ok this, of ep g ReliableDeliveryFailed _ alloc] alive
    have fail: "\<exists>out. inbound_fail ops ?r ep g ReliableDeliveryFailed e = Some out
        \<and> receive_result lim alloc rlog (rlog (ir_reader ?r)) ms ep out" for e
      by (simp split: option.splits)
    have lost: "poll_result lim alloc rlog ms ep (?r\<lparr>ir_terminal := True\<rparr>, ep, g)"
      by (rule poll_result_idle[OF ok]) (use shape log in \<open>simp add: receiver_at_def\<close>)
    show ?thesis
    proof (cases y)
      case Pending
      then show ?thesis using y alive poll_result_idle[OF ok same[OF log]]
        by (simp add: inbound_poll_step_def Let_def)
    next
      case (Ready z)
      then obtain e where "z = Err e" using False by (cases z) auto
      then show ?thesis using Ready y alive step[OF fail, of "ReceiveIo e"] lost
        by (cases e) (simp_all add: inbound_poll_step_def Let_def)
    qed
  next
    case True
    then obtain bs where bs: "y = Ready (Ok bs)" "rlog r' = rlog (ir_reader r) @ bs" using law by auto
    show ?thesis
    proof (cases "bs = []")
      case True
      have "receiver_at alloc rlog ?r ms" using same bs(2) True by simp
      from step[OF receive_end_spec[OF rd ok this, of g]] True bs(1) alive y
      show ?thesis by (simp add: inbound_poll_step_def Let_def)
    next
      case more: False
      show ?thesis
      proof (cases "ir_flow r")
        case None
        then have pre: "ms = []" "prefix_ok (ir_prefix r)" "rlog (ir_reader r) = prefix_taken (ir_prefix r)"
          using st by (simp_all add: receiving_def)
        have "\<exists>out. receive_prefix alloc ops ?r bs ep g = Some out
            \<and> receive_result lim alloc rlog (rlog (ir_reader ?r)) [] ep out"
          by (rule receive_prefix_spec[OF rd ok]) (use alive None pre bs(2) more in simp_all)
        from step[OF this[folded pre(1)]] None more bs(1) alive y
        show ?thesis by (simp add: inbound_poll_step_def Let_def)
      next
        case (Some f)
        then obtain v fr where fr: "v \<le> MAX_VARINT" "ir_frames r = Some fr" "frame_decoder_ok alloc (if_decoder fr)"
          "index_frontier (if_next_accepted_index fr) = length ms"
          "rlog (ir_reader r) = vslice v @ concat (map frame_bytes ms) @ pending_bytes (if_decoder fr)"
          using st by (auto simp: receiving_def)
        have "\<exists>out. receive_frames alloc ops ?r bs 0 ep g = Some out
            \<and> receive_result lim alloc rlog (rlog (ir_reader ?r)) ms ep out"
          by (rule receive_frames_spec[OF rd ok _ _ _ fr(3,4) _ fr(1), of _ f])
            (use alive Some fr bs(2) shape in \<open>simp_all add: received_shape_def\<close>)
        from step[OF this] Some more bs(1) alive y
        show ?thesis by (simp add: inbound_poll_step_def Let_def)
      qed
    qed
  qed
qed


section \<open>A receiver among its host's other calls\<close>

text \<open>
  The host makes any calls of the core, except that it hands no message to the flow \<open>k\<close> itself and
  does not establish its key again.
\<close>

datatype receiver_action = ReceiverHost delivery_call | ReceiverPoll

fun receiver_host :: "delivery_flow_key \<Rightarrow> receiver_action \<Rightarrow> bool" where
  "receiver_host k (ReceiverHost (CallReceive k' _)) = (k' \<noteq> k)"
| "receiver_host k (ReceiverHost (CallReceivePayload k' _ _)) = (k' \<noteq> k)"
| "receiver_host k (ReceiverHost (CallEstablish k' _ _ _)) = (k' \<noteq> k)"
| "receiver_host _ _ = True"

type_synonym 'r receiver_world = "'r inbound_reliable \<times> delivery_endpoint \<times> flow_registry"

fun receiver_act ::
  "(nat \<Rightarrow> bool) \<Rightarrow> 'r reader_ops \<Rightarrow> 'r receiver_world \<Rightarrow> receiver_action \<Rightarrow>
     (delivery_event list \<times> 'r receiver_world) exec" where
  "receiver_act alloc ops (r, ep, g) (ReceiverHost x) =
     map_option (\<lambda>(e, ep'). ([e], r, ep', g)) (delivery_apply ep x)"
| "receiver_act alloc ops (r, ep, g) ReceiverPoll =
     map_option (\<lambda>(_, w). ([], w)) (inbound_poll_step alloc ops r ep g)"

fun receiver_run ::
  "(nat \<Rightarrow> bool) \<Rightarrow> 'r reader_ops \<Rightarrow> 'r receiver_world \<Rightarrow> receiver_action list \<Rightarrow>
     (delivery_event list \<times> 'r receiver_world) exec" where
  "receiver_run alloc ops w [] = Some ([], w)"
| "receiver_run alloc ops w (a # as) = do {
     (es, w) \<leftarrow> receiver_act alloc ops w a;
     (es', w) \<leftarrow> receiver_run alloc ops w as;
     Some (es @ es', w) }"

definition receiver_ok ::
  "delivery_scope_limits \<Rightarrow> (nat \<Rightarrow> bool) \<Rightarrow> ('r \<Rightarrow> bytes) \<Rightarrow> 'r receiver_world \<Rightarrow> bytes list \<Rightarrow> bool" where
  "receiver_ok lim alloc rlog w ms \<longleftrightarrow>
     (case w of (r, ep, g) \<Rightarrow> endpoint_ok lim ep \<and> receiver_at alloc rlog r ms)"

definition receiver_act_result ::
  "delivery_scope_limits \<Rightarrow> (nat \<Rightarrow> bool) \<Rightarrow> ('r \<Rightarrow> bytes) \<Rightarrow> delivery_flow_key \<Rightarrow> 'r receiver_world \<Rightarrow>
     bytes list \<Rightarrow> delivery_event list \<times> 'r receiver_world \<Rightarrow> bool" where
  "receiver_act_result lim alloc rlog k w ms out \<longleftrightarrow>
     (\<exists>ms' xs es'. receiver_ok lim alloc rlog (snd out) (ms @ ms')
        \<and> delivery_trace (fst (snd w)) xs = Some (es', fst (snd (snd out)))
        \<and> EstablishedEvent k \<notin> set es'
        \<and> exposed_messages k es' = exposed_messages k (fst out)
        \<and> (\<forall>x. BufferedEvent k x \<in> set es' \<longrightarrow> x \<in> set (numbered (length ms) ms')))"

lemma exposed_messages_simps [simp]:
  "exposed_messages k [] = []"
  "exposed_messages k (es @ es') = exposed_messages k es @ exposed_messages k es'"
  "exposed_messages k (map (BufferedEvent k') ys) = []"
  by (auto simp: exposed_messages_def List.map_filter_def)

lemma exposed_messages_visible: "exposed_messages k es = exposed_messages k (visible es)"
proof (induction es)
  case Nil
  then show ?case by simp
next
  case (Cons e es)
  then show ?case by (cases e) (auto simp: exposed_messages_def List.map_filter_def)
qed

lemma no_arrival_event:
  assumes "delivery_apply ep x = Some (e, ep')" "receiver_host k (ReceiverHost x)"
  shows "e \<noteq> BufferedEvent k y" "e \<noteq> EstablishedEvent k"
  using assms by (cases x; auto elim!: custody_event.elims established_event.elims submit_event.elims
      buffered_event.elims exposed_event.elims)+

lemma receiver_act_host:
  assumes "receiver_ok lim alloc rlog (r, ep, g) ms" "receiver_host k (ReceiverHost x)"
  shows "\<exists>out. receiver_act alloc ops (r, ep, g) (ReceiverHost x) = Some out
    \<and> receiver_act_result lim alloc rlog k (r, ep, g) ms out"
proof -
  have ok: "endpoint_ok lim ep" using assms(1) by (simp add: receiver_ok_def)
  obtain e ep' where e: "delivery_apply ep x = Some (e, ep')" "endpoint_ok lim ep'"
    using delivery_apply_ok[OF ok] by blast
  note quiet = no_arrival_event[OF e(1) assms(2)]
  have "receiver_act_result lim alloc rlog k (r, ep, g) ms ([e], r, ep', g)"
    unfolding receiver_act_result_def
    by (intro exI[of _ "[]"] exI[of _ "[x]"] exI[of _ "[e]"])
      (use assms(1) e quiet in \<open>auto simp: receiver_ok_def\<close>)
  then show ?thesis using e(1) by simp
qed

lemma receiver_act_poll:
  assumes rd: "stream_reader ops rlog" and ok: "receiver_ok lim alloc rlog (r, ep, g) ms"
  shows "\<exists>out. receiver_act alloc ops (r, ep, g) ReceiverPoll = Some out
    \<and> receiver_act_result lim alloc rlog k (r, ep, g) ms out"
proof -
  obtain y r' ep' g' where p: "inbound_poll_step alloc ops r ep g = Some (y, r', ep', g')"
    "poll_result lim alloc rlog ms ep (r', ep', g')"
    using inbound_poll_step_spec[OF rd, of lim ep alloc r ms g] ok by (auto simp: receiver_ok_def)
  obtain ms' where ms': "endpoint_ok lim ep'" "receiver_at alloc rlog r' (ms @ ms')"
    "case ir_flow r' of None \<Rightarrow> ms' = [] \<and> ep' = ep
      | Some f \<Rightarrow> arrival_effect ep ep' (rf_key f) (length ms) ms'"
    using p(2) by (auto simp: poll_result_def)
  obtain k' xs es where x: "delivery_trace ep xs = Some (es, ep')"
    "visible es = map (BufferedEvent k') (numbered (length ms) ms')"
  proof (cases "ir_flow r'")
    case None
    then show ?thesis using that[of "[]" "[]" k] ms'(3) by simp
  next
    case (Some f)
    then show ?thesis using that ms'(3) by (auto simp: arrival_effect_def)
  qed
  have vis: "e \<in> set es \<and> e \<noteq> NoEvent \<longleftrightarrow> e \<in> BufferedEvent k' ` set (numbered (length ms) ms')" for e
    using arg_cong[OF x(2), of set] by auto
  have "receiver_act_result lim alloc rlog k (r, ep, g) ms ([], r', ep', g')"
    unfolding receiver_act_result_def
  proof (intro exI[of _ ms'] exI[of _ xs] exI[of _ es] conjI)
    show "receiver_ok lim alloc rlog (snd ([], r', ep', g')) (ms @ ms')" using ms' by (simp add: receiver_ok_def)
    show "delivery_trace (fst (snd (r, ep, g))) xs = Some (es, fst (snd (snd ([], r', ep', g'))))"
      using x(1) by simp
    show "EstablishedEvent k \<notin> set es" using vis[of "EstablishedEvent k"] by auto
    show "exposed_messages k es = exposed_messages k (fst ([], r', ep', g'))"
      unfolding exposed_messages_visible[of k es] x(2) by simp
    show "\<forall>y. BufferedEvent k y \<in> set es \<longrightarrow> y \<in> set (numbered (length ms) ms')"
    proof (intro allI impI)
      fix y
      assume "BufferedEvent k y \<in> set es"
      then show "y \<in> set (numbered (length ms) ms')" using vis[of "BufferedEvent k y"] by auto
    qed
  qed
  then show ?thesis using p(1) by simp
qed

lemma receiver_run_spec:
  assumes rd: "stream_reader ops rlog" and ok: "receiver_ok lim alloc rlog w ms"
    and host: "list_all (receiver_host k) as"
  shows "\<exists>out. receiver_run alloc ops w as = Some out \<and> receiver_act_result lim alloc rlog k w ms out"
  using ok host
proof (induction as arbitrary: w ms)
  case Nil
  then show ?case
    by (auto simp: receiver_act_result_def intro!: exI[of _ "[]"])
next
  case (Cons a as)
  obtain r ep g where w: "w = (r, ep, g)" by (cases w)
  have ok: "receiver_ok lim alloc rlog (r, ep, g) ms" and host: "receiver_host k a"
    using Cons.prems w by simp_all
  have "\<exists>out. receiver_act alloc ops w a = Some out \<and> receiver_act_result lim alloc rlog k w ms out"
    unfolding w using receiver_act_host[OF ok, of k _ ops] host receiver_act_poll[OF rd ok] by (cases a) blast+
  then obtain es w1 where a: "receiver_act alloc ops w a = Some (es, w1)"
    "receiver_act_result lim alloc rlog k w ms (es, w1)" by auto
  obtain ms1 xs cs where s1: "receiver_ok lim alloc rlog w1 (ms @ ms1)"
    "delivery_trace (fst (snd w)) xs = Some (cs, fst (snd w1))" "EstablishedEvent k \<notin> set cs"
    "exposed_messages k cs = exposed_messages k es"
    "\<And>x. BufferedEvent k x \<in> set cs \<Longrightarrow> x \<in> set (numbered (length ms) ms1)"
    using a(2) unfolding receiver_act_result_def by auto
  obtain es' w2 where run: "receiver_run alloc ops w1 as = Some (es', w2)"
    "receiver_act_result lim alloc rlog k w1 (ms @ ms1) (es', w2)"
    using Cons.IH[OF s1(1)] Cons.prems(2) by fastforce
  obtain ms2 ys ds where s2: "receiver_ok lim alloc rlog w2 ((ms @ ms1) @ ms2)"
    "delivery_trace (fst (snd w1)) ys = Some (ds, fst (snd w2))" "EstablishedEvent k \<notin> set ds"
    "exposed_messages k ds = exposed_messages k es'"
    "\<And>x. BufferedEvent k x \<in> set ds \<Longrightarrow> x \<in> set (numbered (length (ms @ ms1)) ms2)"
    using run(2) unfolding receiver_act_result_def by auto
  have "receiver_act_result lim alloc rlog k w ms (es @ es', w2)"
    unfolding receiver_act_result_def
  proof (intro exI[of _ "ms1 @ ms2"] exI[of _ "xs @ ys"] exI[of _ "cs @ ds"] conjI)
    show "delivery_trace (fst (snd w)) (xs @ ys) = Some (cs @ ds, fst (snd (snd (es @ es', w2))))"
      using s1(2) s2(2) by (simp add: delivery_trace_append)
  qed (use s1 s2 in \<open>auto simp: numbered_append\<close>)
  then show ?case using a(1) run(1) by simp
qed

end
