(* ===== verification/Stream_Contract.thy ===== *)
theory Stream_Contract
  imports Stream_Receiver
begin

text \<open>
  The properties of reliable streams over whole runs: what a sender leaves on its stream, and the
  pipe from the core of the sending endpoint to that of the receiving one.
\<close>

section \<open>Frames cut a stream in one way\<close>

lemma frame_bytes_inject:
  assumes "framable m" "framable p"
  shows "frame_bytes m @ xs = frame_bytes p @ ys \<longleftrightarrow> m = p \<and> xs = ys"
proof
  assume eq: "frame_bytes m @ xs = frame_bytes p @ ys"
  have head: "decode_varint (frame_bytes q @ zs) = Ok (word_of_nat (length q), length (vslice (word_of_nat (length q))))
      \<and> unat (word_of_nat (length q) :: u64) = length q" if "framable q" for q zs
    using decode_vslice[of "word_of_nat (length q)" "q @ zs"] framable_word[OF that]
    by (simp add: frame_bytes_def)
  have "(word_of_nat (length m) :: u64) = word_of_nat (length p)"
    using head[OF assms(1), of xs] head[OF assms(2), of ys] eq by simp
  from arg_cong[OF this, of unat] have "length m = length p" using head assms by simp
  then show "m = p \<and> xs = ys" using eq by (simp add: frame_bytes_def)
qed simp

lemma frames_prefix:
  assumes "list_all framable ms" "list_all framable ps" "unfinished part"
    and "concat (map frame_bytes ms) @ xs = concat (map frame_bytes ps) @ part"
  shows "ms = take (length ms) ps"
  using assms
proof (induction ms arbitrary: ps)
  case Nil
  then show ?case by simp
next
  case (Cons m ms)
  show ?case
  proof (cases ps)
    case Nil
    obtain p rest where p: "framable p" "rest \<noteq> []" "part @ rest = frame_bytes p"
      using Cons.prems(3) by (auto simp: unfinished_def)
    have "frame_bytes m @ (concat (map frame_bytes ms) @ xs @ rest) = frame_bytes p @ []"
      using p(3) Cons.prems(4) Nil by (simp flip: append_assoc)
    then show ?thesis
      using frame_bytes_inject[of m p "concat (map frame_bytes ms) @ xs @ rest" "[]"] Cons.prems(1) p(1,2)
      by simp
  next
    case (Cons p ps')
    have fit: "framable m" "framable p" "list_all framable ms" "list_all framable ps'"
      using Cons.prems(1,2) Cons by simp_all
    have "frame_bytes m @ (concat (map frame_bytes ms) @ xs)
        = frame_bytes p @ (concat (map frame_bytes ps') @ part)"
      using Cons.prems(4) Cons by simp
    then have "m = p" "concat (map frame_bytes ms) @ xs = concat (map frame_bytes ps') @ part"
      using frame_bytes_inject[OF fit(1,2)] by auto
    then show ?thesis using Cons.IH[OF fit(3,4) Cons.prems(3)] Cons by simp
  qed
qed

lemma stream_prefix:
  assumes sent: "stream_shape i ps out" "flow_id_value i \<le> MAX_VARINT"
    and got: "received_shape ms input" and pre: "out = input @ rest"
  shows "ms = take (length ms) ps"
proof (cases "ms = []")
  case False
  then obtain v part where v: "v \<le> MAX_VARINT" "input = vslice v @ concat (map frame_bytes ms) @ part"
    and fit: "list_all framable ms" using got by (auto simp: received_shape_def)
  let ?ms = "concat (map frame_bytes ms)"
  have ps: "list_all framable ps" using sent(1) by (simp add: stream_shape_def)
  have ne: "?ms \<noteq> []" using False fit frame_bytes_nonempty by (cases ms) auto
  have cut: "?ms @ part @ rest @ more = tl" if "vslice v @ ?ms @ part @ rest @ more = vslice (flow_id_value i) @ tl"
    for more tl
  proof -
    have "decode_varint (vslice v @ ?ms @ part @ rest @ more) = decode_varint (vslice (flow_id_value i) @ tl)"
      using that by simp
    then have "v = flow_id_value i" using v(1) sent(2) by simp
    then show ?thesis using that by simp
  qed
  consider more where "more \<noteq> []" "out @ more = vslice (flow_id_value i)"
    | tl where "unfinished tl" "out = vslice (flow_id_value i) @ concat (map frame_bytes ps) @ tl"
    using sent(1) by (auto simp: stream_shape_def)
  then show ?thesis
  proof cases
    case 1
    then have "vslice v @ ?ms @ part @ rest @ more = vslice (flow_id_value i) @ []"
      using pre v(2) by simp
    from cut[OF this] ne show ?thesis by simp
  next
    case 2
    have "vslice v @ ?ms @ part @ rest @ [] = vslice (flow_id_value i) @ concat (map frame_bytes ps) @ tl"
      using pre v(2) 2(2) by simp
    from cut[OF this] show ?thesis
      using frames_prefix[OF fit ps 2(1), of "part @ rest"] by simp
  qed
qed simp

section \<open>Beginnings\<close>

lemma outbound_bind_Ok:
  assumes "outbound_bind g i w = Some (Ok r, g')" "wlog w = []"
  shows "sender_at wlog r []" "fk_direction (or_key r) = Outbound" "\<not> or_terminal r"
    "os_current (or_state r) = None" "or_flow_id r = i" "flow_id_value i \<le> MAX_VARINT"
proof -
  obtain f st where f: "associate_outbound g i = (Ok f, g')" "fk_direction (rf_key f) = Outbound"
    and st: "outbound_state_new i (rf_max_message_bytes f) = Some (Ok st)"
    and r: "r = \<lparr>or_flow_id = i, or_key = rf_key f, or_writer = w, or_state = st,
      or_finish_ack = None, or_failure_termination = None, or_terminal = False\<rparr>"
  proof -
    obtain a g1 where a: "associate_outbound g i = (a, g1)" by (cases "associate_outbound g i")
    then obtain f where f: "a = Ok f"
      using assms(1) by (cases a) (simp_all add: outbound_bind_def)
    have dir: "fk_direction (rf_key f) = Outbound"
      using a f by (auto simp: associate_outbound_def associate_stream_def Let_def
          split: option.splits if_splits reliable_association.splits)
    have whole: "Option.bind (outbound_state_new i (rf_max_message_bytes f)) (\<lambda>y. Some (case y of
        Err e \<Rightarrow> Err e
      | Ok st \<Rightarrow> Ok \<lparr>or_flow_id = i, or_key = rf_key f, or_writer = w, or_state = st,
          or_finish_ack = None, or_failure_termination = None, or_terminal = False\<rparr>, g1)) = Some (Ok r, g')"
      using assms(1) a f by (simp add: outbound_bind_def)
    then obtain y where y: "outbound_state_new i (rf_max_message_bytes f) = Some y" by (auto simp: bind_eq_Some_conv)
    show ?thesis using that[of f] a f dir whole y by (cases y) auto
  qed
  have e: "\<exists>e. flow_id_value i \<le> MAX_VARINT \<and> varint_slice e = vslice (flow_id_value i)
     \<and> vi_len e = length (vslice (flow_id_value i))
     \<and> st = \<lparr>os_flow_header = e, os_flow_header_offset = 0,
           os_max_message_bytes = rf_max_message_bytes f, os_next_accepted_index = Some 0, os_current = None\<rparr>"
    using st by (cases "flow_id_value i" rule: encode_varint_cases) (auto simp: outbound_state_new_def)
  then show "flow_id_value i \<le> MAX_VARINT" by blast
  have "sending i st [] []"
    using e length_vslice[of "flow_id_value i"] by (auto simp: sending_def)
  then show "sender_at wlog r []"
    using sending_shape[of i st "[]" "[]"] assms(2) r by (simp add: sender_at_def)
  show "fk_direction (or_key r) = Outbound" "\<not> or_terminal r" "or_flow_id r = i"
    using f r by simp_all
  show "os_current (or_state r) = None" using e r by auto
qed

lemma inbound_reliable_new_Ok:
  assumes "inbound_reliable_new a ops rd scratch staging = (Ok r, rd')" "rlog rd = []"
  shows "receiver_at alloc rlog r []"
  using assms
  by (auto simp: inbound_reliable_new_def receiver_at_def received_shape_def receiving_def prefix_ok_def
      flow_id_prefix_new_def split: if_splits)

section \<open>From core to core\<close>

lemma custody_messages_visible: "custody_messages k es = custody_messages k (visible es)"
proof (induction es)
  case Nil
  then show ?case by simp
next
  case (Cons e es)
  then show ?case by (cases e) (auto simp: custody_messages_def List.map_filter_def)
qed

lemma numbered_payloads:
  assumes "map (\<lambda>x. unat (em_accepted_index x)) xs = [0..<length xs]"
  shows "numbered 0 (map em_payload xs) = xs"
proof (rule nth_equalityI)
  show "length (numbered 0 (map em_payload xs)) = length xs" by (simp add: numbered_def)
  fix j
  assume "j < length (numbered 0 (map em_payload xs))"
  then have j: "j < length xs" by (simp add: numbered_def)
  then have "unat (em_accepted_index (xs ! j)) = j"
    using arg_cong[OF assms, of "\<lambda>ys. ys ! j"] by simp
  moreover have "word_of_nat (unat (em_accepted_index (xs ! j))) = em_accepted_index (xs ! j)" by simp
  ultimately have "word_of_nat j = em_accepted_index (xs ! j)" by simp
  then show "numbered 0 (map em_payload xs) ! j = xs ! j"
    using j by (simp add: numbered_def nth_enumerate_eq)
qed

lemma numbered_take: "numbered 0 (take n ms) = take n (numbered 0 ms)"
  by (cases "n \<le> length ms") (simp_all add: numbered_def enumerate_eq_zip take_map take_zip)

text \<open>A sender bound to a new stream of a flow just established, and a receiver of a new stream.\<close>

definition sender_starts ::
  "delivery_scope_limits \<Rightarrow> ('w \<Rightarrow> bytes) \<Rightarrow> delivery_call list \<Rightarrow> delivery_flow_key \<Rightarrow> flow_id \<Rightarrow>
     ('w, 'f) sender_world \<Rightarrow> bool" where
  "sender_starts l wlog before key i w \<longleftrightarrow>
     (\<exists>ep policy cl g x. endpoint_run l before = Some ep
        \<and> establish_flow ep key ReliableOrdered policy cl = Some (Ok (), fst (snd w))
        \<and> wlog x = [] \<and> outbound_bind g i x = Some (Ok (fst w), snd (snd w)) \<and> or_key (fst w) = key)"

definition receiver_starts ::
  "delivery_scope_limits \<Rightarrow> ('r \<Rightarrow> bytes) \<Rightarrow> 'r reader_ops \<Rightarrow> delivery_call list \<Rightarrow> delivery_flow_key \<Rightarrow>
     'r receiver_world \<Rightarrow> bool" where
  "receiver_starts l rlog ops before key w \<longleftrightarrow>
     (\<exists>ep policy cl x x' scratch staging. endpoint_run l before = Some ep
        \<and> establish_flow ep key ReliableOrdered policy cl = Some (Ok (), fst (snd w))
        \<and> rlog x = [] \<and> inbound_reliable_new True ops x scratch staging = (Ok (fst w), x'))"


lemma sender_starts_ok:
  assumes "sender_starts l wlog before key i w"
  shows "sender_ok l wlog w []" "or_key (fst w) = key" "or_flow_id (fst w) = i" "flow_id_value i \<le> MAX_VARINT"
proof -
  obtain r ep' g' where w: "w = (r, ep', g')" by (cases w)
  obtain ep policy cl g x where e: "endpoint_run l before = Some ep"
    "establish_flow ep key ReliableOrdered policy cl = Some (Ok (), ep')"
    "wlog x = []" "outbound_bind g i x = Some (Ok r, g')" "or_key r = key"
    using assms by (auto simp: sender_starts_def w)
  note bind = outbound_bind_Ok[where wlog = wlog, OF e(4,3)]
  have ep': "endpoint_ok l ep'" "channel_at key ep' = Some (channel_of (flow_new ReliableOrdered policy))"
    using establish_flow_ok[OF endpoint_run_ok[OF e(1)], of key ReliableOrdered policy cl] e(2)
    by (auto simp: moved_def channel_at_def)
  show "sender_ok l wlog w []"
    using ep' bind e(5)
    by (auto simp: w sender_ok_def reliable_channel_def custody_held_def flow_new_def channel_of_def)
  show "or_key (fst w) = key" "or_flow_id (fst w) = i" "flow_id_value i \<le> MAX_VARINT"
    using bind e(5) by (simp_all add: w)
qed

lemma started_life:
  assumes "endpoint_run l before = Some ep" "establish_flow ep key mode policy cl = Some (Ok (), ep1)"
    and "delivery_trace ep1 xs = Some (es, ep2)" "EstablishedEvent key \<notin> set es"
  shows "flow_life l before key mode policy cl xs es"
  using assms by (simp add: flow_life_def)

text \<open>What a run of the sender amounts to: a life of its flow, and a stream of the released messages.\<close>

lemma sender_run_life:
  assumes wr: "stream_writer ops wlog" and st: "sender_starts l wlog before key i w"
    and host: "list_all (sender_host key) as"
  shows "\<exists>es w' policy cl xs es'. sender_run ops w as = Some (es, w')
    \<and> stream_shape i (map em_payload (custody_messages key es)) (wlog (or_writer (fst w')))
    \<and> flow_life l before key ReliableOrdered policy cl xs es'
    \<and> custody_messages key es' = custody_messages key es"
proof -
  note start = sender_starts_ok[OF st]
  obtain es w' where run: "sender_run ops w as = Some (es, w')" "sender_act_result l wlog w [] (es, w')"
    using sender_run_spec[OF wr start(1), of as] host start(2) by auto
  obtain r g1 ep1 where w': "w' = (r, ep1, g1)" by (cases w')
  obtain xs es' where tr: "delivery_trace (fst (snd w)) xs = Some (es', ep1)" "visible es' = visible es"
    using run(2) by (auto simp: sender_act_result_def Let_def w')
  have fresh: "EstablishedEvent key \<notin> set es" using run(2) start(2) by (simp add: sender_act_result_def Let_def)
  have "EstablishedEvent key \<notin> set es'"
    using fresh arg_cong[OF tr(2), of set] by auto
  moreover obtain ep policy cl where "endpoint_run l before = Some ep"
    "establish_flow ep key ReliableOrdered policy cl = Some (Ok (), fst (snd w))"
    using st by (auto simp: sender_starts_def)
  ultimately have life: "flow_life l before key ReliableOrdered policy cl xs es'"
    using started_life tr(1) by blast
  have "custody_messages key es' = custody_messages key es"
    using custody_messages_visible[of key es] custody_messages_visible[of key es'] tr(2) by simp
  moreover have "stream_shape i (map em_payload (custody_messages key es)) (wlog (or_writer (fst w')))"
    using run(2) start(2,3) by (auto simp: sender_act_result_def sender_ok_def sender_at_def Let_def w')
  ultimately show ?thesis using run(1) life by blast
qed

lemma receiver_run_life:
  assumes rd: "stream_reader ops rlog" and st: "receiver_starts l rlog ops before key w"
    and host: "list_all (receiver_host key) as"
  shows "\<exists>es w' ms policy cl xs es'. receiver_run alloc ops w as = Some (es, w')
    \<and> received_shape ms (rlog (ir_reader (fst w')))
    \<and> flow_life l before key ReliableOrdered policy cl xs es'
    \<and> exposed_messages key es' = exposed_messages key es
    \<and> (\<forall>x. BufferedEvent key x \<in> set es' \<longrightarrow> x \<in> set (numbered 0 ms))"
proof -
  obtain r ep1 g1 where w: "w = (r, ep1, g1)" by (cases w)
  obtain ep policy cl x x' scratch staging where e: "endpoint_run l before = Some ep"
    "establish_flow ep key ReliableOrdered policy cl = Some (Ok (), ep1)"
    "rlog x = []" "inbound_reliable_new True ops x scratch staging = (Ok r, x')"
    using st by (auto simp: receiver_starts_def w)
  have "endpoint_ok l ep1"
    using establish_flow_ok[OF endpoint_run_ok[OF e(1)], of key ReliableOrdered policy cl] e(2) by auto
  then have ok: "receiver_ok l alloc rlog w []"
    using inbound_reliable_new_Ok[where rlog = rlog, OF e(4,3)] by (simp add: receiver_ok_def w)
  obtain es w' where run: "receiver_run alloc ops w as = Some (es, w')"
    "receiver_act_result l alloc rlog key w [] (es, w')"
    using receiver_run_spec[OF rd ok host] by auto
  obtain ms xs es' where m: "receiver_ok l alloc rlog w' ms"
    "delivery_trace ep1 xs = Some (es', fst (snd w'))" "EstablishedEvent key \<notin> set es'"
    "exposed_messages key es' = exposed_messages key es"
    "\<And>x. BufferedEvent key x \<in> set es' \<Longrightarrow> x \<in> set (numbered 0 ms)"
    using run(2) by (auto simp: receiver_act_result_def w)
  have "received_shape ms (rlog (ir_reader (fst w')))"
    using m(1) by (cases w') (simp add: receiver_ok_def receiver_at_def)
  then show ?thesis using run(1) m started_life[OF e(1,2) m(2,3)] by blast
qed

lemma stream_pipe:
  assumes "stream_writer wops wlog" "stream_reader rops rlog"
    and "sender_starts ls wlog before_s ks i ws" "list_all (sender_host ks) as"
    and "sender_run wops ws as = Some (sent, ws')"
    and "receiver_starts lr rlog rops before_r kr wr" "list_all (receiver_host kr) bs"
    and "receiver_run alloc rops wr bs = Some (received, wr')"
    and "wlog (or_writer (fst ws')) = rlog (ir_reader (fst wr')) @ rest"
  shows "exposed_messages kr received
    = take (length (exposed_messages kr received)) (custody_messages ks sent)"
proof -
  let ?cs = "custody_messages ks sent"
  obtain ps cs xs es where s: "stream_shape i (map em_payload ?cs) (wlog (or_writer (fst ws')))"
    "flow_life ls before_s ks ReliableOrdered ps cs xs es" "custody_messages ks es = ?cs"
    using sender_run_life[OF assms(1,3,4)] assms(5) by fastforce
  obtain ms pr cr ys fs where r: "received_shape ms (rlog (ir_reader (fst wr')))"
    "flow_life lr before_r kr ReliableOrdered pr cr ys fs"
    "exposed_messages kr fs = exposed_messages kr received"
    "\<And>x. BufferedEvent kr x \<in> set fs \<Longrightarrow> x \<in> set (numbered 0 ms)"
    using receiver_run_life[OF assms(2,6,7), of alloc] assms(8) by fastforce
  have ms: "ms = take (length ms) (map em_payload ?cs)"
    by (rule stream_prefix[OF s(1) sender_starts_ok(4)[OF assms(3)] r(1) assms(9)])
  have "map (\<lambda>x. unat (em_accepted_index x)) ?cs = [0..<length ?cs]"
    using life_custody[OF s(2)] unfolding custody_messages_indices[symmetric] s(3) by (simp add: comp_def)
  then have "numbered 0 ms = take (length ms) ?cs"
    using numbered_payloads[of ?cs] numbered_take[of "length ms" "map em_payload ?cs"] ms by simp
  then have "x \<in> set (custody_messages ks es)" if "BufferedEvent kr x \<in> set fs" for x
    using r(4)[OF that] s(3) by (auto dest: in_set_takeD)
  from reliable_pipe[OF s(2) r(2) this] show ?thesis unfolding r(3) s(3) .
qed


section \<open>A concrete pair of endpoints\<close>

text \<open>A stream that takes two bytes at a time, and one that hands over two bytes at a time.\<close>

definition demo_writer :: "(bytes, unit) writer_ops" where
  "demo_writer = \<lparr>wo_poll_write = (\<lambda>w bs. (Ready (Ok (min 2 (length bs))), w @ take 2 bs)),
     wo_reset = (\<lambda>w _. w), wo_finish = (\<lambda>w. (Ok (), w)), wo_finish_ack = (\<lambda>_. ()),
     wo_poll_ack = (\<lambda>f. (Ready (Ok None), f))\<rparr>"

definition demo_reader :: "(bytes \<times> bytes) reader_ops" where
  "demo_reader = \<lparr>ro_is_zero_rtt = (\<lambda>_. False),
     ro_poll_read = (\<lambda>w n. (Ready (Ok (take 2 (fst w))), drop 2 (fst w), snd w @ take 2 (fst w))),
     ro_stop = (\<lambda>w _. w)\<rparr>"

definition demo_endpoint :: "flow_direction \<Rightarrow> delivery_endpoint exec" where
  "demo_endpoint d = Option.bind
     (establish_flow (endpoint_new demo_limits) (demo_key d) ReliableOrdered demo_reliable demo_limits)
     (\<lambda>(r, ep). case r of Ok _ \<Rightarrow> Some ep | Err _ \<Rightarrow> None)"

definition demo_registry :: "flow_direction \<Rightarrow> delivery_endpoint \<Rightarrow> flow_registry" where
  "demo_registry d ep = snd (register_consumed_accepted_flow True
     (flow_registry_new (case d of Outbound \<Rightarrow> Client | Inbound \<Rightarrow> Server) 1) ep (FlowId 0) (demo_key d) 8)"

definition demo_sender :: "(bytes, unit) sender_world exec" where
  "demo_sender = do {
     ep \<leftarrow> demo_endpoint Outbound;
     (r, g) \<leftarrow> outbound_bind (demo_registry Outbound ep) (FlowId 0) [];
     (case r of Ok r \<Rightarrow> Some (r, ep, g) | Err _ \<Rightarrow> None) }"

definition demo_receiver :: "bytes \<Rightarrow> (bytes \<times> bytes) receiver_world exec" where
  "demo_receiver bs = do {
     ep \<leftarrow> demo_endpoint Inbound;
     (case inbound_reliable_new True demo_reader (bs, []) 16 16 of
        (Ok r, _) \<Rightarrow> Some (r, ep, demo_registry Inbound ep)
      | (Err _, _) \<Rightarrow> None) }"

lemma demo_writer_law: "stream_writer demo_writer id"
  by (auto simp: stream_writer_def demo_writer_def min_def)

lemma demo_reader_law: "stream_reader demo_reader snd"
  by (auto simp: stream_reader_def demo_reader_def)

lemmas stream_eval =
  demo_sender_def demo_receiver_def demo_endpoint_def demo_registry_def demo_writer_def demo_reader_def
  register_consumed_accepted_flow_def flow_registry_new_def flow_contract_def expected_side_def
  opposite_side_def flow_id_side_def side_from_bit_def associate_outbound_def associate_inbound_def
  associate_stream_def outbound_bind_def outbound_state_new_def encode_varint_def varint_len_def
  varint_buffer_def varint_slice_def MAX_VARINT_def outbound_poll_step_def next_segment_def
  load_message_def peek_outbound_def encode_payload_length_def usize_to_u64_def poll_write_def
  outbound_advance_def commit_current_def inbound_reliable_new_def flow_id_prefix_new_def
  inbound_poll_step_def receive_prefix_def prefix_consume_def encoded_len_from_first_def copy_into_def
  decode_varint_def shift_in_def flow_id_from_wire_def inbound_frames_new_def frame_decoder_new_def
  result_bind_def ok_or_def receive_frames_def inbound_frames_consume_def consume_frames.simps
  frame_consume_def consume_prefix_def consume_payload_def u64_to_usize_def length_state_def
  deliver_message_def

lemma demo_sender_run:
  "\<exists>w g r ep'. demo_sender = Some w
     \<and> sender_run demo_writer w [SenderHost (CallSubmit (demo_key Outbound) [4]), SenderPoll, SenderPoll, SenderPoll]
         = Some ([AcceptedEvent (demo_key Outbound) 0, CustodyEvent (demo_key Outbound)
              \<lparr>dt_mode = ReliableOrdered, dt_accepted_index = 0, dt_payload = [4]\<rparr>], r, ep', g)
     \<and> or_writer r = [0, 1, 4]"
  by (simp add: stream_eval delivery_eval Let_def)

lemma demo_receiver_run:
  "\<exists>w g r ep'. demo_receiver [0, 1, 4] = Some w
     \<and> receiver_run (\<lambda>_. True) demo_reader w [ReceiverPoll, ReceiverPoll, ReceiverHost (CallPoll (demo_key Inbound))]
         = Some ([ExposedEvent (demo_key Inbound) (message_at 0 [4])], r, ep', g)
     \<and> snd (ir_reader r) = [0, 1, 4]"
  by (simp add: stream_eval delivery_eval Let_def)

lemma demo_endpoint_Some:
  assumes "demo_endpoint d = Some ep"
  shows "establish_flow (endpoint_new demo_limits) (demo_key d) ReliableOrdered demo_reliable demo_limits
      = Some (Ok (), ep)"
    and "endpoint_run demo_limits [] = Some (endpoint_new demo_limits)"
proof -
  obtain r ep' where e: "establish_flow (endpoint_new demo_limits) (demo_key d) ReliableOrdered demo_reliable
      demo_limits = Some (r, ep')" "(case r of Ok _ \<Rightarrow> Some ep' | Err _ \<Rightarrow> None) = Some ep"
    using assms by (auto simp: demo_endpoint_def bind_eq_Some_conv)
  then show "establish_flow (endpoint_new demo_limits) (demo_key d) ReliableOrdered demo_reliable demo_limits
      = Some (Ok (), ep)"
    by (cases r) auto
  show "endpoint_run demo_limits [] = Some (endpoint_new demo_limits)" by (simp add: endpoint_run_def)
qed

lemma demo_sender_starts:
  assumes "demo_sender = Some w"
  shows "sender_starts demo_limits id [] (demo_key Outbound) (FlowId 0) w"
proof -
  obtain ep y g where e: "demo_endpoint Outbound = Some ep"
    "outbound_bind (demo_registry Outbound ep) (FlowId 0) [] = Some (y, g)"
    "(case y of Ok r \<Rightarrow> Some (r, ep, g) | Err _ \<Rightarrow> None) = Some w"
    using assms by (auto simp: demo_sender_def bind_eq_Some_conv)
  then obtain r where r: "y = Ok r" "w = (r, ep, g)" by (cases y) auto
  have "or_key r = demo_key Outbound"
  proof -
    have "\<exists>ep r g. demo_sender = Some (r, ep, g) \<and> or_key r = demo_key Outbound"
      by (simp add: stream_eval delivery_eval Let_def)
    then show ?thesis using assms r(2) by (metis option.inject prod.inject)
  qed
  then show ?thesis
    using demo_endpoint_Some[OF e(1)] e(2) r by (auto simp: sender_starts_def)
qed

lemma demo_receiver_starts:
  assumes "demo_receiver bs = Some w"
  shows "receiver_starts demo_limits snd demo_reader [] (demo_key Inbound) w"
proof -
  obtain ep y x where e: "demo_endpoint Inbound = Some ep"
    "inbound_reliable_new True demo_reader (bs, []) 16 16 = (y, x)"
    "(case y of Ok r \<Rightarrow> Some (r, ep, demo_registry Inbound ep) | Err _ \<Rightarrow> None) = Some w"
    using assms by (cases "inbound_reliable_new True demo_reader (bs, []) 16 16")
      (auto simp: demo_receiver_def bind_eq_Some_conv)
  then obtain r where "y = Ok r" "w = (r, ep, demo_registry Inbound ep)" by (cases y) auto
  moreover have "snd (bs, [] :: bytes) = []" by simp
  ultimately show ?thesis
    using demo_endpoint_Some[OF e(1)] e(2) unfolding receiver_starts_def
    by (metis fst_conv snd_conv)
qed

section \<open>The properties\<close>

text \<open>
  Bound to a new stream of a flow just established, a sender can be polled and finished in any
  interleaving with the host's other calls: no step panics, and whatever the stream accepts of each
  write, the bytes on it are the flow identifier followed by the frames of exactly the messages the
  core has released from custody, in order and each once, and at most an unfinished frame.
\<close>

theorem sender_stream_exact:
  assumes "stream_writer ops wlog" "sender_starts l wlog before key i w" "list_all (sender_host key) as"
  shows "\<exists>es w'. sender_run ops w as = Some (es, w')
    \<and> stream_shape i (map em_payload (custody_messages key es)) (wlog (or_writer (fst w')))"
  using sender_run_life[OF assms] by blast

theorem sender_stream_exact_witness:
  "\<exists>w es w'. demo_sender = Some w
     \<and> sender_run demo_writer w [SenderHost (CallSubmit (demo_key Outbound) [4]), SenderPoll, SenderPoll] = Some (es, w')
     \<and> stream_shape (FlowId 0) (map em_payload (custody_messages (demo_key Outbound) es)) (or_writer (fst w'))"
proof -
  obtain w where w: "demo_sender = Some w" using demo_sender_run by blast
  have "list_all (sender_host (demo_key Outbound))
      [SenderHost (CallSubmit (demo_key Outbound) [4]), SenderPoll, SenderPoll]" by simp
  from sender_stream_exact[OF demo_writer_law demo_sender_starts[OF w] this] w show ?thesis
    unfolding id_apply by blast
qed

text \<open>
  C5: From core to core. A sender polled at one endpoint and a receiver polled at another, each
  interleaved with its host's other calls, joined by a stream whose reader has got a prefix of what
  the writer was given, in pieces of any size: what the receiving core exposes is a prefix of what
  the sending core released, messages and accepted indices alike.
\<close>

theorem stream_end_to_end:
  assumes "stream_writer wops wlog" "stream_reader rops rlog"
    and "sender_starts ls wlog before_s ks i ws" "list_all (sender_host ks) as"
    and "sender_run wops ws as = Some (sent, ws')"
    and "receiver_starts lr rlog rops before_r kr wr" "list_all (receiver_host kr) bs"
    and "receiver_run alloc rops wr bs = Some (received, wr')"
    and "wlog (or_writer (fst ws')) = rlog (ir_reader (fst wr')) @ rest"
  shows "exposed_messages kr received
    = take (length (exposed_messages kr received)) (custody_messages ks sent)"
  by (rule stream_pipe[OF assms])

theorem stream_end_to_end_witness:
  "\<exists>ws sent ws' wr received wr'. demo_sender = Some ws \<and> demo_receiver [0, 1, 4] = Some wr
     \<and> sender_run demo_writer ws [SenderHost (CallSubmit (demo_key Outbound) [4]), SenderPoll, SenderPoll, SenderPoll]
         = Some (sent, ws')
     \<and> receiver_run (\<lambda>_. True) demo_reader wr [ReceiverPoll, ReceiverPoll, ReceiverHost (CallPoll (demo_key Inbound))]
         = Some (received, wr')
     \<and> exposed_messages (demo_key Inbound) received = [message_at 0 [4]]
     \<and> exposed_messages (demo_key Inbound) received = take 1 (custody_messages (demo_key Outbound) sent)"
proof -
  let ?sent = "[AcceptedEvent (demo_key Outbound) 0, CustodyEvent (demo_key Outbound)
              \<lparr>dt_mode = ReliableOrdered, dt_accepted_index = 0, dt_payload = [4]\<rparr>]"
  let ?received = "[ExposedEvent (demo_key Inbound) (message_at 0 [4])]"
  obtain ws g r ep where s: "demo_sender = Some ws" "or_writer r = [0, 1, 4]"
    "sender_run demo_writer ws [SenderHost (CallSubmit (demo_key Outbound) [4]), SenderPoll, SenderPoll, SenderPoll]
       = Some (?sent, r, ep, g)"
    using demo_sender_run by blast
  obtain wr g' r' ep' where t: "demo_receiver [0, 1, 4] = Some wr" "snd (ir_reader r') = [0, 1, 4]"
    "receiver_run (\<lambda>_. True) demo_reader wr [ReceiverPoll, ReceiverPoll, ReceiverHost (CallPoll (demo_key Inbound))]
       = Some (?received, r', ep', g')"
    using demo_receiver_run by blast
  have out: "exposed_messages (demo_key Inbound) ?received = [message_at 0 [4]]"
    by (simp add: exposed_messages_def List.map_filter_def)
  have "exposed_messages (demo_key Inbound) ?received
      = take (length (exposed_messages (demo_key Inbound) ?received)) (custody_messages (demo_key Outbound) ?sent)"
    by (rule stream_end_to_end[OF demo_writer_law demo_reader_law demo_sender_starts[OF s(1)] _ s(3)
          demo_receiver_starts[OF t(1)] _ t(3), of "[]"]) (use s(2) t(2) in simp_all)
  then have "exposed_messages (demo_key Inbound) ?received = take 1 (custody_messages (demo_key Outbound) ?sent)"
    unfolding out by simp
  then show ?thesis using s(1,3) t(1,3) out by blast
qed

end
