(* ===== verification/Driver_Streams.thy ===== *)
theory Driver_Streams
  imports Connection_Driver Flow_Machine Stream_Receiver Stream_Contract Datagram_Contract
begin

text \<open>
  The bindings a driver holds share one core endpoint and one registry. What each poll needs to return
  at all is local to the binding, so it survives whatever the others, the host and the peer do.
\<close>

section \<open>What a poll does to the registry\<close>

inductive registry_path :: "flow_registry \<Rightarrow> flow_registry \<Rightarrow> bool" where
  path_refl [simp, intro]: "registry_path g g"
| path_release: "registry_path g g' \<Longrightarrow> registry_path g (registry_release g' i)"
| path_bind: "registry_path g g' \<Longrightarrow> registry_path g (snd (associate_stream g' i d a))"

lemma registry_path_one [simp, intro]: "registry_path g (registry_release g i)"
  by (rule path_release[OF path_refl])

lemma registry_path_trans: "registry_path a b \<Longrightarrow> registry_path b c \<Longrightarrow> registry_path a c"
  by (rotate_tac, induction rule: registry_path.induct) (auto intro: path_release path_bind)

lemma registry_path_ok:
  "registry_path g g' \<Longrightarrow> flow_control_ok (c\<lparr>fn_registry := g\<rparr>) \<Longrightarrow> flow_control_ok (c\<lparr>fn_registry := g'\<rparr>)"
proof (induction rule: registry_path.induct)
  case (path_refl g)
  then show ?case .
next
  case (path_release g g' i)
  then show ?case using registry_release_ok[of "c\<lparr>fn_registry := g'\<rparr>" i] by simp
next
  case (path_bind g g' i d a)
  then show ?case using associate_ok[of "c\<lparr>fn_registry := g'\<rparr>" i d a] by simp
qed

lemma registry_path_pair_ok:
  assumes "flow_pair_ok lim c0 (c, ep)" "registry_path (fn_registry c) g'" "endpoint_ok lim ep'"
  shows "flow_pair_ok lim c0 (c\<lparr>fn_registry := g'\<rparr>, ep')"
  using assms registry_path_ok[of "fn_registry c" g' c] by (simp add: flow_pair_ok_def same_config_def)

text \<open>No flow appears, and the facts of a flow stay.\<close>

lemma registry_path_lookup:
  "registry_path g g' \<Longrightarrow> lookup_flow g' i = Some f \<Longrightarrow> \<exists>f0. lookup_flow g i = Some f0 \<and> rf_key f = rf_key f0
     \<and> rf_mode f = rf_mode f0 \<and> rf_max_message_bytes f = rf_max_message_bytes f0"
proof (induction arbitrary: f rule: registry_path.induct)
  case (path_refl g)
  then show ?case by blast
next
  case (path_release g g' j)
  then show ?case by (auto simp: registry_release_def lookup_flow_def split: if_splits)
next
  case (path_bind g g' j d a)
  obtain f1 where f1: "lookup_flow g' i = Some f1" "rf_key f = rf_key f1" "rf_mode f = rf_mode f1"
    "rf_max_message_bytes f = rf_max_message_bytes f1"
    using path_bind.prems associate_stream_flows[of g' j d a "fst (associate_stream g' j d a)" "snd (associate_stream g' j d a)"]
    by (auto simp: lookup_flow_def split: if_splits)
  then show ?case using path_bind.IH[OF f1(1)] by auto
qed

section \<open>Sending\<close>

definition message_fits :: "outbound_message \<Rightarrow> bool" where
  "message_fits m \<longleftrightarrow> om_length_offset m \<le> vi_len (om_length m) \<and> om_payload_offset m \<le> payload_len (om_snapshot m)
     \<and> (om_length_offset m < vi_len (om_length m) \<longrightarrow> om_payload_offset m = 0)
     \<and> (om_length_offset m = vi_len (om_length m) \<longrightarrow> om_payload_offset m < payload_len (om_snapshot m))"

definition send_state_ok :: "outbound_state \<Rightarrow> bool" where
  "send_state_ok st \<longleftrightarrow> (\<forall>m. os_current st = Some m \<longrightarrow> message_fits m)"

definition binding_ok :: "('w, 'f) outbound_reliable \<Rightarrow> bool" where
  "binding_ok r \<longleftrightarrow> or_terminal r \<or> send_state_ok (or_state r)"

lemma encoded_length_positive: "encode_payload_length n limit = Some (Ok e) \<Longrightarrow> 0 < vi_len e"
proof -
  assume e: "encode_payload_length n limit = Some (Ok e)"
  have "n \<le> unat MAX_VARINT" "varint_slice e = vslice (word_of_nat n)" "vi_len e = length (varint_slice e)"
    using encode_payload_length_spec[of n limit] e by auto
  then show ?thesis using length_vslice[of "word_of_nat n"] word_of_small[of n]
    by (auto simp: word_le_nat_alt unat_MAX_VARINT)
qed

lemma load_message_total:
  assumes "send_state_ok st"
  shows "\<exists>r st'. load_message st ep key = Some (r, st') \<and> send_state_ok st'
    \<and> os_flow_header st' = os_flow_header st \<and> os_flow_header_offset st' = os_flow_header_offset st
    \<and> (r = Ok True \<longrightarrow> os_current st' \<noteq> None)"
proof (cases "\<exists>t idx. os_current st = None \<and> peek_outbound ep key = Ok (Some t) \<and> dt_mode t = ReliableOrdered
    \<and> os_next_accepted_index st = Some idx \<and> dt_accepted_index t = idx")
  case False
  then show ?thesis
    using assms by (auto simp: load_message_def split: result.splits option.splits)
next
  case True
  then obtain t where t: "os_current st = None" "peek_outbound ep key = Ok (Some t)" "dt_mode t = ReliableOrdered"
    "os_next_accepted_index st = Some (dt_accepted_index t)" by blast
  obtain r where r: "encode_payload_length (payload_len t) (os_max_message_bytes st) = Some r"
    using encode_payload_length_spec by blast
  then show ?thesis
    using assms t encoded_length_positive[of "payload_len t" "os_max_message_bytes st"]
    by (cases r) (auto simp: load_message_def send_state_ok_def message_fits_def)
qed

lemma next_segment_total:
  assumes "send_state_ok st"
  shows "\<exists>s st'. next_segment st ep key = Some (s, st') \<and> send_state_ok st'
    \<and> (\<forall>bs. s = Ok (Some bs) \<longrightarrow> os_flow_header_offset st' < vi_len (os_flow_header st') \<or> os_current st' \<noteq> None)"
proof (cases "os_flow_header_offset st < vi_len (os_flow_header st)")
  case True
  then show ?thesis using assms by (simp add: next_segment_def)
next
  case False
  obtain r st' where r: "load_message st ep key = Some (r, st')" "send_state_ok st'"
    "r = Ok True \<Longrightarrow> os_current st' \<noteq> None"
    using load_message_total[OF assms] by blast
  show ?thesis
  proof (cases "r = Ok True")
    case True
    then obtain m where "os_current st' = Some m" using r(3) by blast
    moreover from this have "message_fits m" using r(2) by (simp add: send_state_ok_def)
    ultimately show ?thesis using True r(1,2) False by (auto simp: next_segment_def message_fits_def)
  next
    case other: False
    then show ?thesis using r(1,2) False by (cases r) (auto simp: next_segment_def split: bool.splits)
  qed
qed

lemma commit_current_total:
  assumes "endpoint_ok lim ep" "os_current st = Some m"
  shows "\<exists>x st' ep'. commit_current st ep key = Some (x, st', ep') \<and> send_state_ok st' \<and> endpoint_ok lim ep'"
proof -
  obtain r ep' where "commit_outbound_custody ep key (dt_accepted_index (om_snapshot m)) = Some (r, ep')"
    "endpoint_ok lim ep'"
    using commit_outbound_custody_ok[OF assms(1)] by blast
  then show ?thesis using assms(2) by (cases r) (simp_all add: commit_current_def send_state_ok_def Let_def)
qed

lemma outbound_advance_total:
  assumes ok: "endpoint_ok lim ep" "send_state_ok st"
    and some: "os_flow_header_offset st < vi_len (os_flow_header st) \<or> os_current st \<noteq> None"
  shows "\<exists>x st' ep'. outbound_advance n st ep key = Some (x, st', ep') \<and> send_state_ok st' \<and> endpoint_ok lim ep'"
proof (cases "n = 0 \<or> os_flow_header_offset st < vi_len (os_flow_header st)")
  case True
  then show ?thesis using ok by (auto simp: outbound_advance_def send_state_ok_def)
next
  case False
  then obtain m where m: "os_current st = Some m" using some by blast
  then have fits: "message_fits m" using ok(2) by (simp add: send_state_ok_def)
  show ?thesis
  proof (cases "om_length_offset m < vi_len (om_length m)")
    case True
    let ?st = "st\<lparr>os_current := Some (m\<lparr>om_length_offset := om_length_offset m + n\<rparr>)\<rparr>"
    obtain x st' ep' where c: "commit_current ?st ep key = Some (x, st', ep')" "send_state_ok st'" "endpoint_ok lim ep'"
      using commit_current_total[OF ok(1), of ?st _ key] by fastforce
    have "om_length_offset m + n < vi_len (om_length m) \<or> 0 < payload_len (om_snapshot m) \<Longrightarrow>
        om_length_offset m + n \<le> vi_len (om_length m) \<Longrightarrow> send_state_ok ?st"
      using fits True by (auto simp: send_state_ok_def message_fits_def)
    then show ?thesis
      using False m True ok c by (auto simp: outbound_advance_def Let_def)
  next
    case len: False
    let ?st = "st\<lparr>os_current := Some (m\<lparr>om_payload_offset := om_payload_offset m + n\<rparr>)\<rparr>"
    obtain x st' ep' where c: "commit_current ?st ep key = Some (x, st', ep')" "send_state_ok st'" "endpoint_ok lim ep'"
      using commit_current_total[OF ok(1), of ?st _ key] by fastforce
    have "om_payload_offset m + n < payload_len (om_snapshot m) \<Longrightarrow> send_state_ok ?st"
      using fits len by (auto simp: send_state_ok_def message_fits_def)
    then show ?thesis
      using False m len ok c fits
      by (auto simp: outbound_advance_def Let_def checked_sub_def message_fits_def)
  qed
qed

text \<open>What holds after any poll of a binding.\<close>

definition outbound_returns ::
  "delivery_scope_limits \<Rightarrow> ('w, 'f) outbound_reliable \<Rightarrow> flow_registry \<Rightarrow> ('w, 'f) send_step \<Rightarrow> bool" where
  "outbound_returns lim r g out \<longleftrightarrow> (\<exists>x r' ep' g'. out = Some (x, r', ep', g') \<and> endpoint_ok lim ep' \<and> binding_ok r'
     \<and> or_flow_id r' = or_flow_id r \<and> or_key r' = or_key r \<and> registry_path g g')"

lemma outbound_returns_upds [simp]:
  "outbound_returns lim (r\<lparr>or_writer := w\<rparr>) g out = outbound_returns lim r g out"
  "outbound_returns lim (r\<lparr>or_finish_ack := a\<rparr>) g out = outbound_returns lim r g out"
  "outbound_returns lim (r\<lparr>or_state := st\<rparr>) g out = outbound_returns lim r g out"
  by (simp_all add: outbound_returns_def)

lemma outbound_returns_Some:
  "endpoint_ok lim ep \<Longrightarrow> binding_ok r' \<Longrightarrow> or_flow_id r' = or_flow_id r \<Longrightarrow> or_key r' = or_key r \<Longrightarrow>
     registry_path g g' \<Longrightarrow> outbound_returns lim r g (Some (x, r', ep, g'))"
  by (auto simp: outbound_returns_def)

lemma outbound_fail_returns:
  assumes "endpoint_ok lim ep"
  shows "outbound_returns lim r g (outbound_fail ops r ep g code e)"
proof -
  obtain t ep' where "fail_reliable_custody ep (or_key r) = Some (t, ep')" "endpoint_ok lim ep'"
    using fail_custody_effect[OF assms] by blast
  then show ?thesis using assms by (auto simp: outbound_fail_def outbound_returns_def binding_ok_def)
qed

lemma poll_finish_returns:
  assumes ok: "endpoint_ok lim ep" and r: "binding_ok r"
  shows "outbound_returns lim r g (poll_finish ops r ack ep g)"
proof -
  obtain t ep' where t: "terminate_flow ep (or_key r) Requested = Some (t, ep')" "endpoint_ok lim ep'"
    using terminate_effect[OF ok] by blast
  note fail = outbound_fail_returns[OF ok, of _ g ops] outbound_fail_returns[OF t(2), of _ g ops]
  obtain y a where y: "wo_poll_ack ops ack = (y, a)" by fastforce
  show ?thesis
  proof (cases "peek_outbound_metadata ep (or_key r) = Ok None")
    case False
    then show ?thesis
      using fail(1)[of r] by (cases "peek_outbound_metadata ep (or_key r)") (auto simp: poll_finish_def split: option.splits)
  next
    case True
    have fail_ack: "outbound_returns lim r g (outbound_fail ops (r\<lparr>or_finish_ack := Some a\<rparr>) ep g code e)" for code e
      using fail(1)[of "r\<lparr>or_finish_ack := Some a\<rparr>"] by simp
    show ?thesis
    proof (cases y)
      case Pending
      then show ?thesis using True y ok r by (auto simp: poll_finish_def binding_ok_def intro: outbound_returns_Some)
    next
      case (Ready z)
      consider "z = Ok None" | "z = Err ConnectionLost"
        | "\<exists>c. z = Ok (Some c)" | "\<exists>e. z = Err e \<and> e \<noteq> ConnectionLost" by (metis option.exhaust result.exhaust)
      then show ?thesis
      proof cases
        case 1
        then show ?thesis
          using True y Ready t fail(2)[of "r\<lparr>or_finish_ack := Some a\<rparr>"]
          by (cases t) (auto simp: poll_finish_def binding_ok_def intro: outbound_returns_Some)
      next
        case 2
        then show ?thesis using True y Ready ok by (auto simp: poll_finish_def binding_ok_def intro: outbound_returns_Some)
      next
        case 3
        then show ?thesis using True y Ready fail_ack by (auto simp: poll_finish_def)
      next
        case 4
        then obtain e where "z = Err e" "e \<noteq> ConnectionLost" by blast
        then show ?thesis using True y Ready fail_ack by (cases e) (auto simp: poll_finish_def)
      qed
    qed
  qed
qed

lemma poll_write_returns:
  assumes ok: "endpoint_ok lim ep" and r: "send_state_ok (or_state r)"
    and some: "os_flow_header_offset (or_state r) < vi_len (os_flow_header (or_state r)) \<or> os_current (or_state r) \<noteq> None"
  shows "outbound_returns lim r g (poll_write ops r segment ep g)"
proof -
  obtain y w where y: "wo_poll_write ops (or_writer r) segment = (y, w)" by fastforce
  have fail: "outbound_returns lim r g (outbound_fail ops (r\<lparr>or_writer := w\<rparr>) ep g code e)" for code e
    using outbound_fail_returns[OF ok, of "r\<lparr>or_writer := w\<rparr>" g ops code e] by simp
  show ?thesis
  proof (cases y)
    case Pending
    then show ?thesis using y ok r by (auto simp: poll_write_def binding_ok_def intro: outbound_returns_Some)
  next
    case (Ready z)
    show ?thesis
    proof (cases z)
      case (Err e)
      then show ?thesis using y Ready ok fail
        by (cases e) (auto simp: poll_write_def binding_ok_def intro: outbound_returns_Some)
    next
      case (Ok n)
      obtain x st' ep' where a: "outbound_advance n (or_state r) ep (or_key r) = Some (x, st', ep')"
        "send_state_ok st'" "endpoint_ok lim ep'"
        using outbound_advance_total[OF ok r some] by blast
      show ?thesis
        using y Ready Ok a fail outbound_fail_returns[OF a(3), of "r\<lparr>or_writer := w, or_state := st'\<rparr>" g ops]
        by (cases x) (auto simp: poll_write_def Let_def binding_ok_def split: option.splits intro: outbound_returns_Some)
    qed
  qed
qed

lemma outbound_poll_returns:
  assumes ok: "endpoint_ok lim ep" and r: "binding_ok r"
  shows "outbound_returns lim r g (outbound_poll_step ops r ep g)"
proof (cases "or_terminal r \<or> flow_contract ep (or_key r) = None \<or> or_finish_ack r \<noteq> None")
  case True
  then show ?thesis
    using ok r outbound_fail_returns[OF ok, of r g ops] poll_finish_returns[OF ok r, of g ops]
    by (auto simp: outbound_poll_step_def intro: outbound_returns_Some)
next
  case False
  then have st: "send_state_ok (or_state r)" using r by (simp add: binding_ok_def)
  obtain s st' where s: "next_segment (or_state r) ep (or_key r) = Some (s, st')" "send_state_ok st'"
    "\<And>bs. s = Ok (Some bs) \<Longrightarrow> os_flow_header_offset st' < vi_len (os_flow_header st') \<or> os_current st' \<noteq> None"
    using next_segment_total[OF st, of ep "or_key r"] by blast
  let ?r = "r\<lparr>or_state := st'\<rparr>"
  show ?thesis
  proof (cases s)
    case (Err e)
    then show ?thesis using False s(1) outbound_fail_returns[OF ok, of ?r g ops] by (auto simp: outbound_poll_step_def)
  next
    case (Ok b)
    then show ?thesis
      using False s ok poll_write_returns[OF ok, of ?r g ops]
      by (cases b) (auto simp: outbound_poll_step_def binding_ok_def intro: outbound_returns_Some)
  qed
qed

lemma request_finish_total:
  assumes "binding_ok r"
  shows "\<exists>x r'. request_finish_normal ops r ep = Some (x, r') \<and> binding_ok r'
    \<and> or_flow_id r' = or_flow_id r \<and> or_key r' = or_key r"
proof (cases "or_terminal r \<or> or_finish_ack r \<noteq> None \<or> flow_contract ep (or_key r) = None")
  case True
  then show ?thesis using assms by (auto simp: request_finish_normal_def)
next
  case False
  then have st: "send_state_ok (or_state r)" using assms by (simp add: binding_ok_def)
  obtain s st' where "next_segment (or_state r) ep (or_key r) = Some (s, st')" "send_state_ok st'"
    using next_segment_total[OF st] by blast
  then show ?thesis using False
    by (auto simp: request_finish_normal_def binding_ok_def Let_def split: result.splits option.splits prod.splits)
qed

lemma outbound_bind_returns:
  "\<exists>x g'. outbound_bind g i w = Some (x, g') \<and> registry_path g g'
    \<and> (\<forall>b. x = Ok b \<longrightarrow> binding_ok b \<and> or_flow_id b = i)"
proof -
  obtain x g' where x: "associate_outbound g i = (x, g')" by fastforce
  then have path: "registry_path g g'"
    using path_bind[OF path_refl, of g i Outbound Outbound_Stream] by (simp add: associate_outbound_def)
  show ?thesis
  proof (cases x)
    case (Err e)
    then show ?thesis using x path by (simp add: outbound_bind_def)
  next
    case (Ok f)
    show ?thesis
      by (cases "flow_id_value i" rule: encode_varint_cases)
        (use x path Ok in \<open>auto simp: outbound_bind_def outbound_state_new_def binding_ok_def send_state_ok_def\<close>)
  qed
qed

section \<open>Receiving\<close>

definition keeps_path :: "flow_registry \<Rightarrow> ('a \<times> 'b \<times> delivery_endpoint \<times> flow_registry) exec \<Rightarrow> bool" where
  "keeps_path g out \<longleftrightarrow> (\<forall>x r ep g'. out = Some (x, r, ep, g') \<longrightarrow> registry_path g g')"

lemma keeps_path_simps [simp]:
  "keeps_path g None"
  "keeps_path g (Some (x, r, ep, g')) \<longleftrightarrow> registry_path g g'"
  by (simp_all add: keeps_path_def)

lemma keeps_path_bind: "(\<And>a. m = Some a \<Longrightarrow> keeps_path g (f a)) \<Longrightarrow> keeps_path g (Option.bind m f)"
  by (cases m) simp_all

lemma keeps_path_trans: "registry_path g g1 \<Longrightarrow> keeps_path g1 out \<Longrightarrow> keeps_path g out"
  by (auto simp: keeps_path_def intro: registry_path_trans)

lemma release_flow_id_path [simp]: "registry_path g (release_flow_id g i)"
  by (cases i) (auto simp: release_flow_id_def)

lemma inbound_fail_path [simp]: "keeps_path g (inbound_fail ops r ep g code e)"
  by (auto simp: inbound_fail_def intro!: keeps_path_bind)

lemma inbound_drain_path [simp]: "keeps_path g (inbound_drain r ep g)"
  by (auto simp: inbound_drain_def split: option.splits result.splits intro!: keeps_path_bind)

lemma receive_frames_path [simp]: "keeps_path g (receive_frames alloc ops r input n ep g)"
  by (auto simp: receive_frames_def Let_def split: result.splits intro!: keeps_path_bind)

lemma receive_end_path [simp]: "keeps_path g (receive_end ops r ep g)"
  by (auto simp: receive_end_def split: result.splits intro!: keeps_path_bind)

lemma associate_inbound_path: "associate_inbound g i = (y, g1) \<Longrightarrow> registry_path g g1"
  using path_bind[OF path_refl, of g i Inbound Inbound_Stream] by (simp add: associate_inbound_def)

lemma receive_prefix_path [simp]: "keeps_path g (receive_prefix alloc ops r input ep g)"
  by (auto simp: receive_prefix_def Let_def split: result.splits option.splits prod.splits
      intro!: keeps_path_bind dest!: associate_inbound_path
      intro: keeps_path_trans[OF _ inbound_fail_path] keeps_path_trans[OF _ receive_frames_path])

lemma ready_path: "keeps_path g m \<Longrightarrow> keeps_path g (map_option (\<lambda>(x, y). (Ready x, y)) m)"
  by (cases m) auto

lemma inbound_poll_path: "keeps_path g (inbound_poll_step alloc ops r ep g)"
  by (auto simp: inbound_poll_step_def Let_def split: prod.splits poll.splits result.splits io_failure.splits
      intro!: ready_path)

lemma inbound_poll_returns:
  fixes r :: "'r inbound_reliable"
  assumes rd: "stream_reader ops rlog" and ok: "endpoint_ok lim ep" and at: "receiver_at alloc rlog r ms"
  shows "\<exists>y r' ep' g'. inbound_poll_step alloc ops r ep g = Some (y, r', ep', g') \<and> endpoint_ok lim ep'
    \<and> (\<exists>ms'. receiver_at alloc rlog r' ms') \<and> registry_path g g'"
proof -
  obtain y r' ep' g' where "inbound_poll_step alloc ops r ep g = Some (y, r', ep', g')"
    "poll_result lim alloc rlog ms ep (r', ep', g')"
    using inbound_poll_step_spec[OF rd ok at, of g] by auto
  then show ?thesis using inbound_poll_path[of g alloc ops r ep] by (auto simp: poll_result_def keeps_path_def)
qed

end
