(* ===== verification/Driver_Flows.thy ===== *)
theory Driver_Flows
  imports Connection_Driver Flow_Machine
begin

text \<open>
  What the driver relies on of flow control, beyond its invariant: identifiers under way stay out of
  the table of opens, the frames it must send are frames of flow control, and the errors that a
  driver avoids by asking first.
\<close>

section \<open>Outcomes\<close>

text \<open>\<open>outcomes P m\<close>: the call \<open>m\<close>, if it returns, returns something in \<open>P\<close>.\<close>

definition outcomes :: "('a \<Rightarrow> bool) \<Rightarrow> 'a exec \<Rightarrow> bool" where
  "outcomes P m \<longleftrightarrow> (\<forall>x. m = Some x \<longrightarrow> P x)"

lemma outcomes_simps [simp]:
  "outcomes P None"
  "outcomes P (Some x) \<longleftrightarrow> P x"
  by (simp_all add: outcomes_def)

lemma outcomes_bind: "(\<And>a. m = Some a \<Longrightarrow> outcomes P (f a)) \<Longrightarrow> outcomes P (Option.bind m f)"
  by (cases m) simp_all

lemma outcomes_through: "outcomes Q m \<Longrightarrow> (\<And>a. Q a \<Longrightarrow> outcomes P (f a)) \<Longrightarrow> outcomes P (Option.bind m f)"
  by (cases m) simp_all

lemma outcomes_result:
  "(\<And>a. x = Ok a \<Longrightarrow> outcomes P (f a)) \<Longrightarrow> (\<And>e. x = Err e \<Longrightarrow> outcomes P (g e)) \<Longrightarrow>
     outcomes P (case x of Ok a \<Rightarrow> f a | Err e \<Rightarrow> g e)"
  by (cases x) simp_all

lemma outcomes_option:
  "(x = None \<Longrightarrow> outcomes P f) \<Longrightarrow> (\<And>a. x = Some a \<Longrightarrow> outcomes P (g a)) \<Longrightarrow>
     outcomes P (case x of None \<Rightarrow> f | Some a \<Rightarrow> g a)"
  by (cases x) simp_all

lemma outcomes_prod: "(\<And>a b. x = (a, b) \<Longrightarrow> outcomes P (f a b)) \<Longrightarrow> outcomes P (case x of (a, b) \<Rightarrow> f a b)"
  by (cases x) simp

lemma outcomes_if: "(b \<Longrightarrow> outcomes P f) \<Longrightarrow> (\<not> b \<Longrightarrow> outcomes P g) \<Longrightarrow> outcomes P (if b then f else g)"
  by simp

lemmas outcomes_intros = outcomes_bind outcomes_result outcomes_option outcomes_prod outcomes_if

lemma outcomesD: "outcomes P m \<Longrightarrow> m = Some x \<Longrightarrow> P x"
  by (simp add: outcomes_def)

section \<open>Identifiers\<close>

text \<open>A call that issues no identifier of this side and adds no open.\<close>

definition quiet_ids :: "flow_control \<Rightarrow> flow_control \<Rightarrow> bool" where
  "quiet_ids c c' \<longleftrightarrow> fn_local_flow_ids c' = fn_local_flow_ids c
     \<and> (\<forall>v. fmlookup (fn_pending_outbound c) v = None \<longrightarrow> fmlookup (fn_pending_outbound c') v = None)"

lemma quiet_ids_refl [simp]: "quiet_ids c c"
  by (simp add: quiet_ids_def)

lemma quiet_ids_trans: "quiet_ids a b \<Longrightarrow> quiet_ids b c \<Longrightarrow> quiet_ids a c"
  by (simp add: quiet_ids_def)

lemma quiet_ids_upds [simp]:
  "quiet_ids c (c'\<lparr>fn_registry := g\<rparr>) = quiet_ids c c'"
  "quiet_ids c (c'\<lparr>fn_pending_inbound := p\<rparr>) = quiet_ids c c'"
  "quiet_ids c (c'\<lparr>fn_peer_flow_ids := k\<rparr>) = quiet_ids c c'"
  "quiet_ids (c\<lparr>fn_registry := g\<rparr>) c' = quiet_ids c c'"
  "quiet_ids (c\<lparr>fn_pending_inbound := p\<rparr>) c' = quiet_ids c c'"
  by (simp_all add: quiet_ids_def)

lemma quiet_ids_drop [simp]: "quiet_ids c (c\<lparr>fn_pending_outbound := fmdrop v (fn_pending_outbound c)\<rparr>)"
  by (simp add: quiet_ids_def)

text \<open>An identifier that this side has issued and that waits for no answer.\<close>

definition answered :: "flow_control \<Rightarrow> flow_id \<Rightarrow> bool" where
  "answered c i \<longleftrightarrow> issued (fn_local_flow_ids c) (flow_id_value i)
     \<and> fmlookup (fn_pending_outbound c) (flow_id_value i) = None"

lemma answered_quiet: "quiet_ids c c' \<Longrightarrow> answered c i \<Longrightarrow> answered c' i"
  by (simp add: quiet_ids_def answered_def)

lemma answered_id: "answered c i \<Longrightarrow> flow_id_ok i"
  by (simp add: answered_def issued_def flow_id_eta)

lemma answered_registry [simp]: "answered (c\<lparr>fn_registry := g\<rparr>) i = answered c i"
  by (simp add: answered_def)

definition resolution_frame :: "inbound_resolution \<Rightarrow> control_frame" where
  "resolution_frame r = (case r of InboundAccepted _ f \<Rightarrow> f | InboundRefused _ _ f \<Rightarrow> f)"

definition reply_type :: "control_frame_type \<Rightarrow> bool" where
  "reply_type t \<longleftrightarrow> t = FlowAcceptType \<or> t = FlowRejectType \<or> t = FlowTerminateType"

lemma resolve_replies:
  "outcomes (\<lambda>(x, c'). quiet_ids c c' \<and> (\<forall>r. x = Ok r \<longrightarrow> reply_type (cf_type (resolution_frame r))))
     (resolve_inbound_rejection alloc c q r)"
  by (auto simp: resolve_inbound_rejection_def reject_frame_def owned_frame_def Let_def bind_eq_Some_conv
      resolution_frame_def reply_type_def split: option.splits if_splits intro!: outcomes_bind)

lemma reject_inbound_replies:
  "outcomes (\<lambda>(x, c'). quiet_ids c c' \<and> (\<forall>r. x = Ok r \<longrightarrow> reply_type (cf_type (resolution_frame r))))
     (reject_inbound al c q reason)"
  using resolve_replies by (auto simp: reject_inbound_def split: result.split)

abbreviation replies :: "flow_control \<Rightarrow>
    (inbound_resolution, inbound_admission_error) result \<times> flow_control \<times> delivery_endpoint \<Rightarrow> bool" where
  "replies c \<equiv> \<lambda>(x, c', ep). quiet_ids c c' \<and> (\<forall>r. x = Ok r \<longrightarrow> reply_type (cf_type (resolution_frame r)))"

lemma accept_frame_type: "accept_frame alloc i = Some (Some f) \<Longrightarrow> cf_type f = FlowAcceptType"
  by (auto simp: accept_frame_def owned_frame_def Let_def bind_eq_Some_conv split: if_splits)

lemma resolved:
  "resolve_inbound_rejection alloc c q r = Some (x, c') \<Longrightarrow>
     quiet_ids c c' \<and> (\<forall>r. x = Ok r \<longrightarrow> reply_type (cf_type (resolution_frame r)))"
  using outcomesD[OF resolve_replies] by fastforce

lemma complete_admission_replies:
  assumes "cf_type fr = FlowAcceptType"
  shows "outcomes (replies c) (complete_admission al c ep q a fr)"
  unfolding complete_admission_def
  by (intro outcomes_intros) (use assms in \<open>auto simp: resolution_frame_def reply_type_def dest: resolved\<close>)

lemma admit_pending_replies: "outcomes (replies c) (admit_pending al c ep q a)"
proof -
  have est: "outcomes (replies c) (case e of
       ActiveFlowLimitExceeded _ \<Rightarrow> do {
         (out, c) \<leftarrow> resolve_inbound_rejection (al_reply al) c q RejectResourceLimit; Some (out, c, ep) }
     | e \<Rightarrow> Some (Err (AdmitEstablishment e), c\<lparr>fn_pending_inbound := None\<rparr>, ep))" for e ep
    by (cases e) (auto intro!: outcomes_bind dest: resolved)
  show ?thesis
    unfolding admit_pending_def
    by (intro outcomes_bind outcomes_option outcomes_prod outcomes_result est complete_admission_replies)
      (auto dest: accept_frame_type)
qed

lemma accept_inbound_replies: "outcomes (replies c) (accept_inbound al c ep q a)"
  unfolding accept_inbound_def Let_def
  by (intro outcomes_intros admit_pending_replies) (auto dest: resolved)

section \<open>Frames received\<close>

definition progress_frame :: "flow_control_progress \<Rightarrow> control_frame option" where
  "progress_frame p =
     (case p of InboundRejected _ _ f \<Rightarrow> Some f | OutboundFailedAfterAccept _ _ _ _ f \<Rightarrow> Some f | _ \<Rightarrow> None)"

abbreviation progresses :: "flow_control \<Rightarrow>
    (flow_control_progress, flow_control_error) result \<times> flow_control \<Rightarrow> bool" where
  "progresses c \<equiv> \<lambda>(x, c'). quiet_ids c c' \<and> (\<forall>i. x \<noteq> Err (InboundDecisionPending i))
     \<and> (\<forall>p f. x = Ok p \<longrightarrow> progress_frame p = Some f \<longrightarrow> reply_type (cf_type f))"

abbreviation progresses_in :: "flow_control \<Rightarrow>
    (flow_control_progress, flow_control_error) result \<times> flow_control \<times> delivery_endpoint \<Rightarrow> bool" where
  "progresses_in c \<equiv> \<lambda>(x, c', ep). progresses c (x, c')"

lemma reject_frame_type: "reject_frame alloc i r = Some (Some f) \<Longrightarrow> cf_type f = FlowRejectType"
  by (auto simp: reject_frame_def owned_frame_def Let_def bind_eq_Some_conv split: if_splits)

lemma terminate_frame_type: "terminate_frame alloc i r = Some (Some f) \<Longrightarrow> cf_type f = FlowTerminateType"
  by (auto simp: terminate_frame_def owned_frame_def Let_def bind_eq_Some_conv split: if_splits)

lemma inbound_rejection_reply:
  "inbound_rejection al i r = Some x \<Longrightarrow> progresses c (x, c)"
  by (auto simp: inbound_rejection_def bind_eq_Some_conv progress_frame_def reply_type_def
      dest: reject_frame_type split: option.splits)

lemma resource_failure_reply:
  "outbound_resource_failure al i key t = Some x \<Longrightarrow> progresses c (x, c)"
  by (auto simp: outbound_resource_failure_def bind_eq_Some_conv progress_frame_def reply_type_def
      dest: terminate_frame_type split: option.splits)

lemma receive_open_progresses: "outcomes (progresses c) (receive_open al c body)"
  unfolding receive_open_def Let_def
  by (intro outcomes_intros) (auto simp: progress_frame_def dest: inbound_rejection_reply)

lemma complete_accept_progresses: "quiet_ids c0 c \<Longrightarrow> outcomes (progresses_in c0) (complete_accept al c ep i p)"
  unfolding complete_accept_def
  by (intro outcomes_intros) (auto simp: progress_frame_def dest: resource_failure_reply)

lemma receive_accept_progresses: "outcomes (progresses_in c) (receive_accept al c ep body)"
proof -
  have est: "outcomes (progresses_in c) (case e of
       ActiveFlowLimitExceeded _ \<Rightarrow> do { out \<leftarrow> outbound_resource_failure al i k None; Some (out, c', ep) }
     | e \<Rightarrow> Some (Err (ControlEstablishment e), c', ep))" if "quiet_ids c c'" for e i k ep c'
    using that by (cases e) (auto intro!: outcomes_bind dest: resource_failure_reply)
  show ?thesis
    unfolding receive_accept_def Let_def require_local_response_side_def
    by (intro outcomes_bind outcomes_option outcomes_prod outcomes_result est complete_accept_progresses)
      (auto split: if_splits)
qed

lemma receive_terminate_progresses: "outcomes (progresses_in c) (receive_terminate c ep body)"
  unfolding receive_terminate_def
  by (intro outcomes_intros) (auto simp: progress_frame_def split: result.splits)

lemma receive_reject_progresses: "progresses c (receive_reject c body)"
  by (auto simp: receive_reject_def require_local_response_side_def progress_frame_def
      split: result.splits option.splits if_splits)

text \<open>The error that a second open gives is for the open frames of a state that has one already.\<close>

lemma receive_progresses:
  assumes "\<not> (cf_type f = OpenFlowType \<and> fn_pending_inbound c \<noteq> None)"
  shows "outcomes (progresses_in c) (flow_control_receive al c ep f)"
proof (cases "cf_type f = OpenFlowType")
  case True
  then have "fn_pending_inbound c = None" using assms by simp
  then show ?thesis
    using True receive_open_progresses[of c al "cf_body f"]
    by (auto simp: flow_control_receive_def intro!: outcomes_through[OF receive_open_progresses])
next
  case False
  then show ?thesis
    using receive_accept_progresses[of c al ep "cf_body f"] receive_terminate_progresses[of c ep "cf_body f"]
      receive_reject_progresses[of c "cf_body f"]
    by (cases "cf_type f") (auto simp: flow_control_receive_def split: prod.split)
qed

section \<open>Terminating\<close>

lemma terminate_local_outcomes:
  "outcomes (\<lambda>(x, c', ep'). quiet_ids c c' \<and> (\<forall>t. x = Ok t \<longrightarrow> cf_type (lt_frame t) = FlowTerminateType)
     \<and> (\<forall>e. x = Err e \<longrightarrow> e = FlowAllocation \<or> (\<exists>x. e = CoreState x)
          \<or> e = UnknownActiveFlow i \<and> lookup_flow (fn_registry c) i = None
          \<or> e = ReliableNormalUsesFin i \<and> (\<exists>f. lookup_flow (fn_registry c) i = Some f \<and> rf_mode f = ReliableOrdered
               \<and> reason = TerminateNormal)))
     (terminate_local al c ep i reason)"
  unfolding terminate_local_def
  by (intro outcomes_intros) (auto dest: terminate_frame_type split: result.splits)

section \<open>Opening\<close>

lemma prepare_open_answered:
  assumes "flow_control_ok c" "prepare_outbound_open al c ep q d = Some (x, c')" "answered c i"
  shows "answered c' i"
proof (cases x)
  case (Err e)
  then show ?thesis using assms prepare_outbound_open_step[OF assms(1), of al ep q d] by auto
next
  case (Ok po)
  then have "opened c q po c'" using assms(2) prepare_outbound_open_step[OF assms(1), of al ep q d] by auto
  then obtain j p where j: "flow_id_ok j" "flow_id_side j = fn_local_side c"
    "fc_next_sequence (fn_local_flow_ids c) = Some (flow_id_sequence j)"
    "c' = c\<lparr>fn_local_flow_ids := cursor_advance (flow_id_sequence j) (fn_local_flow_ids c),
      fn_pending_outbound := fmupd (flow_id_value j) p (fn_pending_outbound c)\<rparr>"
    unfolding opened_def by blast
  have k: "cursor_ok (fn_local_flow_ids c)" "fc_side (fn_local_flow_ids c) = fn_local_side c"
    using assms(1) by (simp_all add: flow_control_ok_def flow_config_ok_def)
  have new: "\<not> issued (fn_local_flow_ids c) (flow_id_value j)"
    using issued_new[OF k(1) j(3,1)] j(2) k(2) by simp
  then show ?thesis
    using assms(3) issued_advance[OF k(1) j(3)] by (auto simp: j(4) answered_def)
qed

lemma prepare_open_frame:
  assumes "flow_control_ok c" "prepare_outbound_open al c ep q d = Some (Ok po, c')"
  shows "cf_type (po_frame po) = OpenFlowType"
  using assms prepare_outbound_open_step[OF assms(1), of al ep q d] by (auto simp: opened_def)

end
