(* ===== verification/Driver_Safety.thy ===== *)
theory Driver_Safety
  imports Driver_Streams Driver_Flows "HOL-Library.Multiset"
begin

text \<open>
  The invariant of a driver, and what every part of a poll keeps of it. The parts that own streams and
  datagrams are valid independently of the phase; an active driver owns both directions of the control
  stream in working order.
\<close>

section \<open>Rounds\<close>

lemma ring_bound: "i \<in> set (ring start n) \<Longrightarrow> i < n"
  by (auto simp: ring_def)

lemma set_ring: "set (ring start n) = {..<n}"
proof
  show "set (ring start n) \<subseteq> {..<n}" by (auto dest: ring_bound)
  show "{..<n} \<subseteq> set (ring start n)"
  proof
    fix i assume "i \<in> {..<n}"
    then have i: "i < n" by simp
    define k where "k = (i + (n - start mod n)) mod n"
    have lt: "start mod n < n" using i by simp
    have "(start + k) mod n = (start mod n + (i + (n - start mod n))) mod n"
      by (simp add: k_def mod_simps)
    also have "start mod n + (i + (n - start mod n)) = i + n"
      using lt by linarith
    finally have "(start + k) mod n = i" using i by simp
    moreover have "k < n" using i by (simp add: k_def)
    ultimately show "i \<in> set (ring start n)" by (auto simp: ring_def intro: image_eqI[of _ _ k])
  qed
qed

lemma poll_each_good:
  assumes "P s" and step: "\<And>s i. i \<in> set is \<Longrightarrow> P s \<Longrightarrow>
      \<exists>r s'. step s i = Some (r, s') \<and> (case r of None \<Rightarrow> P s' | Some x \<Rightarrow> Q x s')"
  shows "\<exists>r s'. poll_each step is s = Some (r, s') \<and> (case r of None \<Rightarrow> P s' | Some x \<Rightarrow> Q x s')"
  using assms
proof (induction "is" arbitrary: s)
  case Nil
  then show ?case by simp
next
  case (Cons i "is")
  then obtain r s1 where r: "step s i = Some (r, s1)" "case r of None \<Rightarrow> P s1 | Some x \<Rightarrow> Q x s1"
    by (meson list.set_intros(1))
  show ?case
  proof (cases r)
    case None
    then show ?thesis using r Cons.IH[of s1] Cons.prems(2) by simp
  next
    case (Some x)
    then show ?thesis using r by simp
  qed
qed

lemma poll_ring_good:
  assumes "P s" and step: "\<And>s i. i < n \<Longrightarrow> P s \<Longrightarrow>
      \<exists>r s'. step s i = Some (r, s') \<and> (case r of None \<Rightarrow> P s' | Some x \<Rightarrow> Q x s')"
  obtains r s' where "poll_each step (ring start n) s = Some (r, s')" "case r of None \<Rightarrow> P s' | Some x \<Rightarrow> Q x s'"
proof -
  have "\<exists>r s'. poll_each step (ring start n) s = Some (r, s') \<and> (case r of None \<Rightarrow> P s' | Some x \<Rightarrow> Q x s')"
    by (rule poll_each_good[of P, OF assms(1)], rule step, erule ring_bound)
  then show ?thesis using that by blast
qed

section \<open>Removing by exchange with the last element\<close>

lemma mset_swap_remove:
  assumes "i < length xs"
  shows "mset xs = add_mset (xs ! i) (mset (swap_remove xs i))"
proof -
  have "xs \<noteq> []" using assms by auto
  then obtain ys z where xs: "xs = ys @ [z]" by (metis rev_exhaust)
  show ?thesis
  proof (cases "i = length ys")
    case True
    then show ?thesis by (simp add: xs swap_remove_def)
  next
    case False
    then have "i < length ys" using assms by (simp add: xs)
    then show ?thesis
      by (simp add: xs swap_remove_def list_update_append nth_append mset_update)
  qed
qed

lemma set_swap_remove: "i < length xs \<Longrightarrow> set (swap_remove xs i) \<subseteq> set xs"
  using arg_cong[OF mset_swap_remove, of i xs set_mset] by auto

lemma distinct_swap_remove:
  assumes "i < length xs" "distinct xs"
  shows "distinct (swap_remove xs i) \<and> xs ! i \<notin> set (swap_remove xs i)"
proof -
  have "distinct (xs ! i # swap_remove xs i)"
    using assms mset_swap_remove[OF assms(1)] by (metis mset.simps(2) mset_eq_imp_distinct_iff)
  then show ?thesis by simp
qed

lemma map_swap_remove: "i < length xs \<Longrightarrow> map f (swap_remove xs i) = swap_remove (map f xs) i"
  by (cases "xs = []") (simp_all add: swap_remove_def map_butlast map_update last_map)

lemma length_swap_remove: "length (swap_remove xs i) = length xs - 1"
  by (simp add: swap_remove_def)

lemma map_update_same: "i < length xs \<Longrightarrow> f y = f (xs ! i) \<Longrightarrow> map f (xs[i := y]) = map f xs"
  by (simp add: map_update list_update_same_conv)

section \<open>The invariant\<close>

definition inbound_ok :: "(nat \<Rightarrow> bool) \<Rightarrow> ('r \<Rightarrow> bytes) \<Rightarrow> 'r inbound_reliable \<Rightarrow> bool" where
  "inbound_ok alloc rlog b \<longleftrightarrow> (\<exists>ms. receiver_at alloc rlog b ms) \<and> (\<forall>i. ir_flow_id b = Some i \<longrightarrow> flow_id_ok i)"

definition reliable_ok :: "(nat \<Rightarrow> bool) \<Rightarrow> ('r \<Rightarrow> bytes) \<Rightarrow> ('q, 'w, 'f, 'r) reliable_io \<Rightarrow> flow_control \<Rightarrow> bool" where
  "reliable_ok alloc rlog io c \<longleftrightarrow>
     (\<forall>a\<in>set (ri_outbound io). binding_ok (ao_binding a) \<and> or_flow_id (ao_binding a) = ao_flow_id a)
     \<and> (\<forall>b\<in>set (ri_inbound io). inbound_ok alloc rlog b)
     \<and> distinct (pending_ids io @ active_ids io)
     \<and> (\<forall>i\<in>set (pending_ids io @ active_ids io). answered c i)"

definition datagram_ok :: "'q datagram_io \<Rightarrow> flow_control \<Rightarrow> bool" where
  "datagram_ok io c \<longleftrightarrow> distinct (di_outbound io) \<and> (\<forall>i\<in>set (di_outbound io). answered c i)"

definition resources_ok ::
  "('q, 'w, 'f, 'r) driver_ops \<Rightarrow> ('r \<Rightarrow> bytes) \<Rightarrow> delivery_scope_limits \<Rightarrow> flow_control \<Rightarrow>
     ('q, 'w, 'f, 'r) connection_driver \<times> delivery_endpoint \<Rightarrow> bool" where
  "resources_ok io rlog lim c0 s \<longleftrightarrow>
     flow_pair_ok lim c0 (cd_flow_control (fst s), snd s)
     \<and> reliable_ok (op_alloc io) rlog (cd_reliable (fst s)) (cd_flow_control (fst s))
     \<and> datagram_ok (cd_datagram (fst s)) (cd_flow_control (fst s))"

definition sender_live :: "'w control_send_state \<Rightarrow> bool" where
  "sender_live s =
     (case s of
        ControlSendReady c \<Rightarrow> ct_io_state c = Clean
      | ControlSendPending c p \<Rightarrow> ct_io_state c = Clean \<and> cf_type (ps_frame p) \<noteq> SettingsType
      | ControlSendTerminal \<Rightarrow> False)"

definition receiver_live :: "'r control_receive_state \<Rightarrow> bool" where
  "receiver_live s =
     (case s of
        ControlReceivePending c \<Rightarrow> cr_io_state c = Clean
      | ControlReceiveDeferred c f \<Rightarrow> cr_io_state c = Clean
      | ControlReceiveTerminal \<Rightarrow> False)"

definition phase_ok :: "('q, 'w, 'f, 'r) connection_driver \<Rightarrow> bool" where
  "phase_ok d \<longleftrightarrow>
     (case cd_phase d of
        DriverTerminal \<Rightarrow> cd_sender d = ControlSendTerminal \<and> cd_receiver d = ControlReceiveTerminal
      | DriverActive \<Rightarrow> sender_live (cd_sender d) \<and> receiver_live (cd_receiver d)
          \<and> ri_accept (cd_reliable d) \<noteq> None \<and> di_receive (cd_datagram d) \<noteq> None)"

definition driver_ok ::
  "('q, 'w, 'f, 'r) driver_ops \<Rightarrow> ('r \<Rightarrow> bytes) \<Rightarrow> delivery_scope_limits \<Rightarrow> flow_control \<Rightarrow>
     ('q, 'w, 'f, 'r) connection_driver \<times> delivery_endpoint \<Rightarrow> bool" where
  "driver_ok io rlog lim c0 s \<longleftrightarrow> resources_ok io rlog lim c0 s \<and> phase_ok (fst s)"

text \<open>What the code relies on of quinn's receive streams.\<close>

definition driver_law :: "('q, 'w, 'f, 'r) driver_ops \<Rightarrow> ('r \<Rightarrow> bytes) \<Rightarrow> bool" where
  "driver_law io rlog \<longleftrightarrow> stream_reader (op_reader io) rlog
     \<and> (\<forall>q r q'. qn_poll_accept_uni (op_quinn io) q = (Ready (Ok r), q') \<longrightarrow> rlog r = [])"

lemma reliable_ok_quiet: "quiet_ids c c' \<Longrightarrow> reliable_ok alloc rlog io c \<Longrightarrow> reliable_ok alloc rlog io c'"
  by (auto simp: reliable_ok_def dest: answered_quiet)

lemma reliable_ok_registry [simp]:
  "reliable_ok alloc rlog io (c\<lparr>fn_registry := g\<rparr>) = reliable_ok alloc rlog io c"
  by (simp add: reliable_ok_def)

lemma datagram_ok_quiet: "quiet_ids c c' \<Longrightarrow> datagram_ok io c \<Longrightarrow> datagram_ok io c'"
  by (auto simp: datagram_ok_def dest: answered_quiet)

lemma datagram_ok_registry [simp]: "datagram_ok io (c\<lparr>fn_registry := g\<rparr>) = datagram_ok io c"
  by (simp add: datagram_ok_def)

lemma cursors_ok [simp]:
  "reliable_ok alloc rlog (io\<lparr>ri_open_cursor := n\<rparr>) c = reliable_ok alloc rlog io c"
  "reliable_ok alloc rlog (io\<lparr>ri_outbound_cursor := n\<rparr>) c = reliable_ok alloc rlog io c"
  "reliable_ok alloc rlog (io\<lparr>ri_inbound_cursor := n\<rparr>) c = reliable_ok alloc rlog io c"
  "reliable_ok alloc rlog (io\<lparr>ri_accept := a\<rparr>) c = reliable_ok alloc rlog io c"
  "datagram_ok (dg\<lparr>di_cursor := n\<rparr>) c = datagram_ok dg c"
  "datagram_ok (dg\<lparr>di_sender := s\<rparr>) c = datagram_ok dg c"
  "datagram_ok (dg\<lparr>di_receive := r\<rparr>) c = datagram_ok dg c"
  by (simp_all add: reliable_ok_def datagram_ok_def pending_ids_def active_ids_def)

section \<open>Streams\<close>

text \<open>Replacing an entry by one with the same identifier, and removing one.\<close>

lemma pending_upd:
  assumes "reliable_ok alloc rlog io c" "i < length (ri_pending io)" "pd_flow_id p = pd_flow_id (ri_pending io ! i)"
  shows "reliable_ok alloc rlog (io\<lparr>ri_pending := (ri_pending io)[i := p]\<rparr>) c"
  using assms map_update_same[of i "ri_pending io" pd_flow_id p]
  by (simp add: reliable_ok_def pending_ids_def active_ids_def)

lemma pending_removed:
  assumes "reliable_ok alloc rlog io c" "i < length (ri_pending io)"
  shows "reliable_ok alloc rlog (remove_pending_open io i) c"
    and "pd_flow_id (ri_pending io ! i) \<notin> set (pending_ids (remove_pending_open io i) @ active_ids (remove_pending_open io i))"
proof -
  have ids: "pending_ids (remove_pending_open io i) = swap_remove (pending_ids io) i"
    "active_ids (remove_pending_open io i) = active_ids io"
    using assms(2) by (simp_all add: pending_ids_def active_ids_def remove_pending_open_def Let_def map_swap_remove)
  have i: "i < length (pending_ids io)" "pending_ids io ! i = pd_flow_id (ri_pending io ! i)"
    using assms(2) by (simp_all add: pending_ids_def)
  have d: "distinct (pending_ids io)" "distinct (active_ids io)" "set (pending_ids io) \<inter> set (active_ids io) = {}"
    using assms(1) by (simp_all add: reliable_ok_def)
  note rem = distinct_swap_remove[OF i(1) d(1)] set_swap_remove[OF i(1)]
  show "pd_flow_id (ri_pending io ! i) \<notin> set (pending_ids (remove_pending_open io i) @ active_ids (remove_pending_open io i))"
    using rem d(3) i nth_mem[OF i(1)] by (auto simp: ids)
  have "ri_outbound (remove_pending_open io i) = ri_outbound io" "ri_inbound (remove_pending_open io i) = ri_inbound io"
    by (simp_all add: remove_pending_open_def Let_def)
  then show "reliable_ok alloc rlog (remove_pending_open io i) c"
    using assms(1) rem d unfolding reliable_ok_def ids by auto
qed

lemma outbound_upd:
  assumes "reliable_ok alloc rlog io c" "i < length (ri_outbound io)"
    and "ao_flow_id a = ao_flow_id (ri_outbound io ! i)" "binding_ok (ao_binding a)"
    "or_flow_id (ao_binding a) = ao_flow_id a"
  shows "reliable_ok alloc rlog (io\<lparr>ri_outbound := (ri_outbound io)[i := a]\<rparr>) c"
  using assms map_update_same[of i "ri_outbound io" ao_flow_id a] set_update_subset_insert[of "ri_outbound io" i a]
  by (auto simp: reliable_ok_def pending_ids_def active_ids_def)

lemma outbound_removed:
  assumes "reliable_ok alloc rlog io c" "i < length (ri_outbound io)"
  shows "reliable_ok alloc rlog (remove_outbound io i) c"
proof -
  have ids: "active_ids (remove_outbound io i) = swap_remove (active_ids io) i"
    "pending_ids (remove_outbound io i) = pending_ids io" "ri_inbound (remove_outbound io i) = ri_inbound io"
    "set (ri_outbound (remove_outbound io i)) \<subseteq> set (ri_outbound io)"
    using assms(2) set_swap_remove[OF assms(2)]
    by (simp_all add: pending_ids_def active_ids_def remove_outbound_def Let_def map_swap_remove)
  have i: "i < length (active_ids io)" using assms(2) by (simp add: active_ids_def)
  have d: "distinct (active_ids io)" using assms(1) by (simp add: reliable_ok_def)
  show ?thesis
    using assms(1) distinct_swap_remove[OF i d] set_swap_remove[OF i] ids(4)
    unfolding reliable_ok_def ids(1-3) by auto
qed

lemma inbound_upd:
  assumes "reliable_ok alloc rlog io c" "inbound_ok alloc rlog b"
  shows "reliable_ok alloc rlog (io\<lparr>ri_inbound := (ri_inbound io)[i := b]\<rparr>) c"
  using assms set_update_subset_insert[of "ri_inbound io" i b]
  by (auto simp: reliable_ok_def pending_ids_def active_ids_def)

lemma inbound_removed:
  assumes "reliable_ok alloc rlog io c" "i < length (ri_inbound io)"
  shows "reliable_ok alloc rlog (remove_inbound io i) c"
  using assms set_swap_remove[OF assms(2)]
  by (auto simp: reliable_ok_def pending_ids_def active_ids_def remove_inbound_def Let_def)

lemma schedule_outbound_ok:
  assumes ok: "reliable_ok alloc rlog io c" and fresh: "answered c (ff_flow_id flow)"
    and new: "ff_flow_id flow \<notin> set (pending_ids io @ active_ids io)"
    and reg: "lookup_flow (fn_registry c) (ff_flow_id flow) = Some f" "rf_key f = ff_key flow" "rf_mode f = ff_mode flow"
      "rf_max_message_bytes f = ff_max_message_bytes flow"
    and flow: "ff_mode flow = ReliableOrdered" "fk_direction (ff_key flow) = Outbound"
  shows "\<exists>x io'. schedule_outbound reserve io q c flow = (x, io') \<and> reliable_ok alloc rlog io' c
    \<and> ri_accept io' = ri_accept io
    \<and> (x = Ok () \<or> x = Err ReliableAllocation \<or> x = Err (ReliableState CapacityOverflow))"
proof -
  have "reliable_ok alloc rlog (io\<lparr>ri_pending := ri_pending io @ [\<lparr>pd_flow_id = ff_flow_id flow, pd_future = q\<rparr>]\<rparr>) c"
    using ok fresh new by (auto simp: reliable_ok_def pending_ids_def active_ids_def)
  then show ?thesis
    using ok new reg flow by (auto simp: schedule_outbound_def contains_flow_id_def)
qed

lemma remove_accept [simp]:
  "ri_accept (remove_pending_open io i) = ri_accept io" "ri_accept (remove_outbound io i) = ri_accept io"
  "ri_accept (remove_inbound io i) = ri_accept io"
  by (simp_all add: remove_pending_open_def remove_outbound_def remove_inbound_def Let_def)

text \<open>What a poll of the streams keeps, from the flow control \<open>cs\<close> it starts with.\<close>

definition streams_ok ::
  "(nat \<Rightarrow> bool) \<Rightarrow> ('r \<Rightarrow> bytes) \<Rightarrow> delivery_scope_limits \<Rightarrow> flow_control \<Rightarrow> 'q option \<Rightarrow> flow_control \<Rightarrow>
     ('q, 'w, 'f, 'r) reliable_io \<Rightarrow> delivery_endpoint \<Rightarrow> flow_control \<Rightarrow> bool" where
  "streams_ok alloc rlog lim c0 a cs io ep c \<longleftrightarrow> flow_pair_ok lim c0 (c, ep)
     \<and> reliable_ok alloc rlog io c \<and> ri_accept io = a \<and> quiet_ids cs c"

lemma streams_path:
  assumes "streams_ok alloc rlog lim c0 a cs io ep c" "registry_path (fn_registry c) g" "endpoint_ok lim ep'"
    "reliable_ok alloc rlog io' c" "ri_accept io' = a"
  shows "streams_ok alloc rlog lim c0 a cs io' ep' (c\<lparr>fn_registry := g\<rparr>)"
  using assms registry_path_pair_ok[of lim c0 c ep g ep'] by (simp add: streams_ok_def)

lemma acquire_outbound_ok:
  fixes io :: "('q, 'w, 'f, 'r) reliable_io"
  assumes ok: "streams_ok alloc rlog lim c0 a cs io ep c" and i: "i < length (ri_pending io)"
  shows "\<exists>r io' c'. acquire_outbound_at qo (io, c) i = Some (r, io', c') \<and> streams_ok alloc rlog lim c0 a cs io' ep c'
    \<and> (r = None \<longrightarrow> length (ri_pending io') = length (ri_pending io))
    \<and> (\<forall>e. r = Some (Err e) \<longrightarrow> (\<exists>i s. e = OutboundAcquisitionBinding i s) \<or> (\<exists>x. e = ReliableConnection x))"
proof -
  let ?p = "ri_pending io ! i"
  have io: "reliable_ok alloc rlog io c" "ri_accept io = a" "flow_pair_ok lim c0 (c, ep)" "quiet_ids cs c"
    using ok by (simp_all add: streams_ok_def)
  have nth: "nth_exec (ri_pending io) i = Some ?p" using i by (simp add: nth_exec_def)
  note rem = pending_removed[OF io(1) i]
  have rem_ok: "streams_ok alloc rlog lim c0 a cs (remove_pending_open io i) ep c"
    using io rem(1) by (simp add: streams_ok_def)
  have known: "answered c (pd_flow_id ?p)"
    using io(1) nth_mem[OF i] by (auto simp: reliable_ok_def pending_ids_def)
  show ?thesis
  proof (cases "registered_outbound_is_live c (pd_flow_id ?p)")
    case False
    then show ?thesis using nth rem_ok by (simp add: acquire_outbound_at_def)
  next
    case live: True
    obtain y q where y: "qn_poll_open_uni qo (pd_future ?p) = (y, q)" by fastforce
    show ?thesis
    proof (cases y)
      case Pending
      then show ?thesis using nth live y io pending_upd[OF io(1) i, of "?p\<lparr>pd_future := q\<rparr>"]
        by (simp add: acquire_outbound_at_def streams_ok_def)
    next
      case (Ready z)
      show ?thesis
      proof (cases z)
        case (Err e)
        then show ?thesis using nth live y Ready rem_ok by (simp add: acquire_outbound_at_def)
      next
        case (Ok w)
        obtain x :: "(('w, 'f) outbound_reliable, send_error) result" and g'
          where x: "outbound_bind (fn_registry c) (pd_flow_id ?p) w = Some (x, g')" "registry_path (fn_registry c) g'"
            "\<forall>b. x = Ok b \<longrightarrow> binding_ok b \<and> or_flow_id b = pd_flow_id ?p"
          using outbound_bind_returns[of "fn_registry c" "pd_flow_id ?p" w] by blast
        have ep: "endpoint_ok lim ep" using io(3) by (simp add: flow_pair_ok_def)
        show ?thesis
        proof (cases x)
          case (Err e)
          then show ?thesis
            using nth live y Ready Ok x streams_path[OF rem_ok x(2) ep rem(1)] io(2)
            by (simp add: acquire_outbound_at_def Let_def)
        next
          case bound: (Ok b)
          let ?io = "(remove_pending_open io i)\<lparr>ri_outbound := ri_outbound (remove_pending_open io i) @
              [\<lparr>ao_flow_id = pd_flow_id ?p, ao_binding = b\<rparr>]\<rparr>"
          have "reliable_ok alloc rlog ?io c"
            using rem known x(3) bound by (auto simp: reliable_ok_def pending_ids_def active_ids_def)
          then show ?thesis
            using nth live y Ready Ok x bound streams_path[OF rem_ok x(2) ep, of ?io] io(2)
            by (simp add: acquire_outbound_at_def Let_def)
        qed
      qed
    qed
  qed
qed

lemma poll_outbound_acquisition_ok:
  fixes io :: "('q, 'w, 'f, 'r) reliable_io"
  assumes ok: "streams_ok alloc rlog lim c0 a cs io ep c"
  shows "\<exists>x io' c'. poll_outbound_acquisition qo (io, c) = Some (x, io', c') \<and> streams_ok alloc rlog lim c0 a cs io' ep c'
    \<and> (\<forall>e. x = Ready (Err e) \<longrightarrow> (\<exists>i s. e = OutboundAcquisitionBinding i s) \<or> (\<exists>y. e = ReliableConnection y))"
proof (cases "ri_pending io = []")
  case True
  then show ?thesis using ok by (simp add: poll_outbound_acquisition_def)
next
  case False
  let ?n = "length (ri_pending io)" and ?start = "ri_open_cursor io mod length (ri_pending io)"
  define P where "P = (\<lambda>s :: ('q, 'w, 'f, 'r) reliable_io \<times> flow_control. streams_ok alloc rlog lim c0 a cs (fst s) ep (snd s) \<and> length (ri_pending (fst s)) = ?n)"
  define Q where "Q = (\<lambda>(x :: (outbound_acquisition_progress, reliable_io_error) result) (s :: ('q, 'w, 'f, 'r) reliable_io \<times> flow_control).
      streams_ok alloc rlog lim c0 a cs (fst s) ep (snd s)
      \<and> (\<forall>e. x = Err e \<longrightarrow> (\<exists>i s. e = OutboundAcquisitionBinding i s) \<or> (\<exists>y. e = ReliableConnection y)))"
  have step: "\<exists>r s'. acquire_outbound_at qo s i = Some (r, s') \<and> (case r of None \<Rightarrow> P s' | Some x \<Rightarrow> Q x s')"
    if mem: "i < ?n" and s: "P s" for s i
  proof -
    have i: "i < length (ri_pending (fst s))" using mem s by (simp add: P_def)
    obtain r io' c' where "acquire_outbound_at qo (fst s, snd s) i = Some (r, io', c')"
      "streams_ok alloc rlog lim c0 a cs io' ep c'" "r = None \<longrightarrow> length (ri_pending io') = length (ri_pending (fst s))"
      "\<forall>e. r = Some (Err e) \<longrightarrow> (\<exists>i s. e = OutboundAcquisitionBinding i s) \<or> (\<exists>x. e = ReliableConnection x)"
      using acquire_outbound_ok[OF _ i, of alloc rlog lim c0 a cs ep "snd s" qo] s unfolding P_def by blast
    then show ?thesis using s by (cases r) (auto simp: P_def Q_def)
  qed
  have start: "P (io, c)" using ok by (simp add: P_def)
  obtain r s' where r: "poll_each (acquire_outbound_at qo) (ring ?start ?n) (io, c) = Some (r, s')"
    "case r of None \<Rightarrow> P s' | Some x \<Rightarrow> Q x s'"
    by (rule poll_ring_good[of P, OF start step])
  then show ?thesis
    using False by (cases s'; cases r) (auto simp: poll_outbound_acquisition_def P_def Q_def streams_ok_def Let_def)
qed

lemma poll_inbound_acquisition_ok:
  fixes io :: "('q, 'w, 'f, 'r) reliable_io"
  assumes ok: "streams_ok alloc rlog lim c0 a cs io ep c" and a: "a \<noteq> None"
    and law: "\<forall>q r q'. qn_poll_accept_uni qo q = (Ready (Ok r), q') \<longrightarrow> rlog r = []"
  shows "\<exists>x io' a'. poll_inbound_acquisition reserve scratch qo ro io q = (x, io')
    \<and> streams_ok alloc rlog lim c0 a' cs io' ep c
    \<and> (case x of Ready (Err (ReliableConnection _)) \<Rightarrow> True | _ \<Rightarrow> a' \<noteq> None)
    \<and> (\<forall>e. x \<noteq> Ready (Err (ReliableState e)))"
proof -
  obtain f where f: "ri_accept io = Some f" using ok a by (auto simp: streams_ok_def)
  obtain y f' where y: "qn_poll_accept_uni qo f = (y, f')" by fastforce
  have moved: "streams_ok alloc rlog lim c0 b cs (io\<lparr>ri_accept := b\<rparr>) ep c" for b
    using ok by (simp add: streams_ok_def)
  show ?thesis
  proof (cases reserve)
    case False
    then show ?thesis using ok a by (auto simp: poll_inbound_acquisition_def)
  next
    case room: True
    show ?thesis
    proof (cases y)
      case Pending
      then show ?thesis using room f y moved[of "Some f'"] by (auto simp: poll_inbound_acquisition_def)
    next
      case (Ready z)
      show ?thesis
      proof (cases z)
        case (Err e)
        then show ?thesis using room f y Ready moved[of None] by (auto simp: poll_inbound_acquisition_def)
      next
        case (Ok r)
        obtain v r' where v: "inbound_reliable_new scratch ro r (ri_scratch_bytes io) (ri_max_staging_bytes io) = (v, r')"
          by fastforce
        show ?thesis
        proof (cases v)
          case (Err e)
          then show ?thesis using room f y Ready Ok v moved[of "Some q"]
            by (auto simp: poll_inbound_acquisition_def Let_def)
        next
          case new: (Ok b)
          have "receiver_at alloc rlog b []"
            by (rule inbound_reliable_new_Ok[OF v[unfolded new]]) (use law y Ready Ok in blast)
          moreover have "ir_flow_id b = None"
            using v new by (auto simp: inbound_reliable_new_def split: if_splits)
          ultimately have "inbound_ok alloc rlog b" by (auto simp: inbound_ok_def)
          then have "reliable_ok alloc rlog (io\<lparr>ri_accept := Some q, ri_inbound := ri_inbound io @ [b]\<rparr>) c"
            using ok by (auto simp: streams_ok_def reliable_ok_def pending_ids_def active_ids_def)
          then have "streams_ok alloc rlog lim c0 (Some q) cs (io\<lparr>ri_accept := Some q, ri_inbound := ri_inbound io @ [b]\<rparr>) ep c"
            using ok by (simp add: streams_ok_def)
          then show ?thesis using room f y Ready Ok v new by (auto simp: poll_inbound_acquisition_def Let_def)
        qed
      qed
    qed
  qed
qed

text \<open>The flows that failures name have identifiers the wire can carry.\<close>

definition context_ok :: "reliable_failure_context \<Rightarrow> bool" where
  "context_ok x \<longleftrightarrow> (\<forall>i key t. x = ResolvedReportable i key t \<longrightarrow> flow_id_ok i)"

definition active_error_ok :: "reliable_io_error \<Rightarrow> bool" where
  "active_error_ok e \<longleftrightarrow> (\<exists>x s. e = OutboundActiveBinding x s \<and> context_ok x)
     \<or> (\<exists>x r. e = InboundActiveBinding x r \<and> context_ok x)"

lemma resolved_context_ok: "flow_id_ok i \<Longrightarrow> context_ok (resolved_failure_context i key b t)"
  by (simp add: resolved_failure_context_def context_ok_def)

lemma outbound_polled_ok:
  assumes ok: "reliable_ok alloc rlog io c" and i: "i < length (ri_outbound io)"
    and b: "binding_ok b" "or_flow_id b = or_flow_id (ao_binding (ri_outbound io ! i))"
  shows "\<exists>r io'. outbound_polled io i n ((ri_outbound io ! i)\<lparr>ao_binding := b\<rparr>) key registered x = (r, io')
    \<and> reliable_ok alloc rlog io' c \<and> ri_accept io' = ri_accept io
    \<and> (r = None \<longrightarrow> length (ri_outbound io') = length (ri_outbound io))
    \<and> (\<forall>e. r = Some (Err e) \<longrightarrow> active_error_ok e)"
proof -
  let ?e = "ri_outbound io ! i"
  let ?a = "?e\<lparr>ao_binding := b\<rparr>" and ?io = "io\<lparr>ri_outbound := (ri_outbound io)[i := ?e\<lparr>ao_binding := b\<rparr>]\<rparr>"
  have e: "or_flow_id (ao_binding ?e) = ao_flow_id ?e" "answered c (ao_flow_id ?e)"
    using ok nth_mem[OF i] by (auto simp: reliable_ok_def active_ids_def)
  have upd: "reliable_ok alloc rlog ?io c"
    using outbound_upd[OF ok i, of ?a] b e(1) by simp
  have gone: "reliable_ok alloc rlog (remove_outbound ?io i) c"
    using outbound_removed[OF upd, of i] i by simp
  have "context_ok (resolved_failure_context (ao_flow_id ?e) key registered t)" for t
    by (rule resolved_context_ok[OF answered_id[OF e(2)]])
  then show ?thesis
    using upd gone
    by (auto simp: outbound_polled_def Let_def active_error_ok_def split: poll.split result.split send_progress.split)
qed

lemma poll_outbound_at_ok:
  fixes io :: "('q, 'w, 'f, 'r) reliable_io"
  assumes ok: "streams_ok alloc rlog lim c0 a cs io ep c" and i: "i < length (ri_outbound io)"
  shows "\<exists>r io' ep' c'. poll_outbound_at wo n (io, ep, c) i = Some (r, io', ep', c')
    \<and> streams_ok alloc rlog lim c0 a cs io' ep' c'
    \<and> (r = None \<longrightarrow> length (ri_outbound io') = length (ri_outbound io))
    \<and> (\<forall>e. r = Some (Err e) \<longrightarrow> active_error_ok e)"
proof -
  let ?e = "ri_outbound io ! i"
  have io: "reliable_ok alloc rlog io c" "ri_accept io = a" "endpoint_ok lim ep"
    using ok by (simp_all add: streams_ok_def flow_pair_ok_def)
  have b0: "binding_ok (ao_binding ?e)" using io(1) nth_mem[OF i] by (auto simp: reliable_ok_def)
  obtain x b ep' g where x: "outbound_poll_step wo (ao_binding ?e) ep (fn_registry c) = Some (x, b, ep', g)"
    "endpoint_ok lim ep'" "binding_ok b" "or_flow_id b = or_flow_id (ao_binding ?e)" "registry_path (fn_registry c) g"
    using outbound_poll_returns[OF io(3) b0, of "fn_registry c" wo] by (auto simp: outbound_returns_def)
  obtain r io' where r: "outbound_polled io i n (?e\<lparr>ao_binding := b\<rparr>) (or_key (ao_binding ?e))
       (flow_registered c (ao_flow_id ?e)) x = (r, io')"
    "reliable_ok alloc rlog io' c" "ri_accept io' = ri_accept io"
    "r = None \<longrightarrow> length (ri_outbound io') = length (ri_outbound io)" "\<forall>e. r = Some (Err e) \<longrightarrow> active_error_ok e"
    using outbound_polled_ok[OF io(1) i x(3,4)] by blast
  have "streams_ok alloc rlog lim c0 a cs io' ep' (c\<lparr>fn_registry := g\<rparr>)"
    by (rule streams_path[OF ok x(5,2) r(2)]) (simp add: r(3) io(2))
  then show ?thesis using x(1) r(1,4,5) i by (auto simp: poll_outbound_at_def nth_exec_def)
qed

lemma poll_outbound_binding_ok:
  fixes io :: "('q, 'w, 'f, 'r) reliable_io"
  assumes ok: "streams_ok alloc rlog lim c0 a cs io ep c"
  shows "\<exists>x io' ep' c'. poll_outbound_binding wo (io, ep, c) = Some (x, io', ep', c')
    \<and> streams_ok alloc rlog lim c0 a cs io' ep' c' \<and> (\<forall>e. x = Ready (Err e) \<longrightarrow> active_error_ok e)"
proof (cases "ri_outbound io = []")
  case True
  then show ?thesis using ok by (simp add: poll_outbound_binding_def)
next
  case False
  let ?n = "length (ri_outbound io)" and ?start = "ri_outbound_cursor io mod length (ri_outbound io)"
  define P where "P = (\<lambda>s :: ('q, 'w, 'f, 'r) reliable_world.
      streams_ok alloc rlog lim c0 a cs (fst s) (fst (snd s)) (snd (snd s)) \<and> length (ri_outbound (fst s)) = ?n)"
  define Q where "Q = (\<lambda>(x :: (active_reliable_progress, reliable_io_error) result) (s :: ('q, 'w, 'f, 'r) reliable_world).
      streams_ok alloc rlog lim c0 a cs (fst s) (fst (snd s)) (snd (snd s)) \<and> (\<forall>e. x = Err e \<longrightarrow> active_error_ok e))"
  have step: "\<exists>r s'. poll_outbound_at wo ?n s i = Some (r, s') \<and> (case r of None \<Rightarrow> P s' | Some x \<Rightarrow> Q x s')"
    if i: "i < ?n" and s: "P s" for s i
  proof -
    obtain jo je jc where j: "s = (jo, je, jc)" by (cases s)
    have jo: "streams_ok alloc rlog lim c0 a cs jo je jc" "i < length (ri_outbound jo)" "length (ri_outbound jo) = ?n"
      using i s by (simp_all add: P_def j)
    obtain r io' ep' c' where "poll_outbound_at wo ?n (jo, je, jc) i = Some (r, io', ep', c')"
      "streams_ok alloc rlog lim c0 a cs io' ep' c'" "r = None \<longrightarrow> length (ri_outbound io') = length (ri_outbound jo)"
      "\<forall>e. r = Some (Err e) \<longrightarrow> active_error_ok e"
      using poll_outbound_at_ok[OF jo(1,2)] by blast
    then show ?thesis using jo(3) by (cases r) (auto simp: P_def Q_def j)
  qed
  have start: "P (io, ep, c)" using ok by (simp add: P_def)
  obtain r s' where r: "poll_each (poll_outbound_at wo ?n) (ring ?start ?n) (io, ep, c) = Some (r, s')"
    "case r of None \<Rightarrow> P s' | Some x \<Rightarrow> Q x s'"
    by (rule poll_ring_good[of P, OF start step])
  then show ?thesis
    using False by (cases s'; cases r) (auto simp: poll_outbound_binding_def P_def Q_def streams_ok_def Let_def)
qed

text \<open>The identifier an inbound stream has read is one the wire can carry.\<close>

abbreviation id_known :: "'a \<times> 'r inbound_reliable \<times> 'b \<Rightarrow> bool" where
  "id_known \<equiv> \<lambda>(x, r, w). \<forall>i. ir_flow_id r = Some i \<longrightarrow> flow_id_ok i"

lemma inbound_fail_id:
  "\<forall>i. ir_flow_id r = Some i \<longrightarrow> flow_id_ok i \<Longrightarrow> outcomes id_known (inbound_fail ops r ep g code e)"
  unfolding inbound_fail_def by (intro outcomes_intros) auto

lemma inbound_drain_id:
  "\<forall>i. ir_flow_id r = Some i \<longrightarrow> flow_id_ok i \<Longrightarrow> outcomes id_known (inbound_drain r ep g)"
  unfolding inbound_drain_def by (intro outcomes_intros) (auto split: result.splits)

lemma receive_frames_id:
  "\<forall>i. ir_flow_id r = Some i \<longrightarrow> flow_id_ok i \<Longrightarrow> outcomes id_known (receive_frames alloc ops r input n ep g)"
  unfolding receive_frames_def Let_def by (intro outcomes_intros inbound_fail_id) auto

lemma receive_end_id:
  "\<forall>i. ir_flow_id r = Some i \<longrightarrow> flow_id_ok i \<Longrightarrow> outcomes id_known (receive_end ops r ep g)"
  unfolding receive_end_def by (intro outcomes_intros inbound_fail_id inbound_drain_id) auto

lemma prefix_id: "prefix_consume p input = Some (Ok c, p') \<Longrightarrow> pc_flow_id c = Some i \<Longrightarrow> flow_id_ok i"
  by (auto simp: prefix_consume_def bind_eq_Some_conv Let_def flow_id_from_wire_Ok flow_id_ok_def
      split: if_splits result.splits)

lemma receive_prefix_id:
  "\<forall>i. ir_flow_id r = Some i \<longrightarrow> flow_id_ok i \<Longrightarrow> outcomes id_known (receive_prefix alloc ops r input ep g)"
  unfolding receive_prefix_def Let_def
  by (intro outcomes_intros inbound_fail_id receive_frames_id) (auto dest: prefix_id)

lemma ready_id: "outcomes id_known m \<Longrightarrow> outcomes id_known (map_option (\<lambda>(x, w). (Ready x, w)) m)"
  by (cases m) auto

lemma inbound_poll_id:
  assumes "\<forall>i. ir_flow_id r = Some i \<longrightarrow> flow_id_ok i"
  shows "outcomes id_known (inbound_poll_step alloc ops r ep g)"
  using assms
  by (auto simp: inbound_poll_step_def Let_def split: prod.split poll.split result.split io_failure.split
      intro!: ready_id inbound_drain_id inbound_fail_id receive_end_id receive_prefix_id receive_frames_id)

lemma inbound_context_ok:
  assumes "\<forall>i. before = Some i \<longrightarrow> flow_id_ok i" "\<forall>i. after = Some i \<longrightarrow> flow_id_ok i"
  shows "context_ok (inbound_failure_context before bk b after ak t)"
  using assms
  by (auto simp: inbound_failure_context_def resolved_failure_context_def context_ok_def split: option.splits)

lemma inbound_polled_ok:
  assumes ok: "reliable_ok alloc rlog io c" and i: "i < length (ri_inbound io)" and b: "inbound_ok alloc rlog b"
  shows "\<exists>r io'. inbound_polled io i n (ri_inbound io ! i) registered b x = (r, io')
    \<and> reliable_ok alloc rlog io' c \<and> ri_accept io' = ri_accept io
    \<and> (r = None \<longrightarrow> length (ri_inbound io') = length (ri_inbound io))
    \<and> (\<forall>e. r = Some (Err e) \<longrightarrow> active_error_ok e)"
proof -
  let ?io = "io\<lparr>ri_inbound := (ri_inbound io)[i := b]\<rparr>"
  have upd: "reliable_ok alloc rlog ?io c" by (rule inbound_upd[OF ok b])
  have gone: "reliable_ok alloc rlog (remove_inbound ?io i) c"
    using inbound_removed[OF upd, of i] i by simp
  have "inbound_ok alloc rlog (ri_inbound io ! i)" using ok nth_mem[OF i] by (auto simp: reliable_ok_def)
  then have "context_ok (inbound_failure_context (ir_flow_id (ri_inbound io ! i)) bk registered (ir_flow_id b) ak t)"
    for bk ak t using b inbound_context_ok unfolding inbound_ok_def by blast
  then show ?thesis
    using upd gone
    by (auto simp: inbound_polled_def Let_def active_error_ok_def split: poll.split result.split receive_progress.split)
qed

lemma poll_inbound_at_ok:
  fixes io :: "('q, 'w, 'f, 'r) reliable_io"
  assumes law: "stream_reader ro rlog" and ok: "streams_ok alloc rlog lim c0 a cs io ep c"
    and i: "i < length (ri_inbound io)"
  shows "\<exists>r io' ep' c'. poll_inbound_at alloc ro n (io, ep, c) i = Some (r, io', ep', c')
    \<and> streams_ok alloc rlog lim c0 a cs io' ep' c'
    \<and> (r = None \<longrightarrow> length (ri_inbound io') = length (ri_inbound io))
    \<and> (\<forall>e. r = Some (Err e) \<longrightarrow> active_error_ok e)"
proof -
  let ?b = "ri_inbound io ! i"
  have io: "reliable_ok alloc rlog io c" "ri_accept io = a" "endpoint_ok lim ep"
    using ok by (simp_all add: streams_ok_def flow_pair_ok_def)
  obtain ms where b0: "receiver_at alloc rlog ?b ms" "\<forall>i. ir_flow_id ?b = Some i \<longrightarrow> flow_id_ok i"
    using io(1) nth_mem[OF i] unfolding reliable_ok_def inbound_ok_def by blast
  obtain x b ep' g where x: "inbound_poll_step alloc ro ?b ep (fn_registry c) = Some (x, b, ep', g)"
    "endpoint_ok lim ep'" "\<exists>ms. receiver_at alloc rlog b ms" "registry_path (fn_registry c) g"
    using inbound_poll_returns[OF law io(3) b0(1)] by blast
  have b: "inbound_ok alloc rlog b"
    using x(3) outcomesD[OF inbound_poll_id[OF b0(2)] x(1)] by (simp add: inbound_ok_def)
  obtain r io' where r: "inbound_polled io i n ?b
       (case ir_flow_id ?b of None \<Rightarrow> False | Some i \<Rightarrow> flow_registered c i) b x = (r, io')"
    "reliable_ok alloc rlog io' c" "ri_accept io' = ri_accept io"
    "r = None \<longrightarrow> length (ri_inbound io') = length (ri_inbound io)" "\<forall>e. r = Some (Err e) \<longrightarrow> active_error_ok e"
    using inbound_polled_ok[OF io(1) i b] by blast
  have "streams_ok alloc rlog lim c0 a cs io' ep' (c\<lparr>fn_registry := g\<rparr>)"
    by (rule streams_path[OF ok x(4,2) r(2)]) (simp add: r(3) io(2))
  then show ?thesis using x(1) r(1,4,5) i by (auto simp: poll_inbound_at_def nth_exec_def)
qed

lemma poll_inbound_binding_ok:
  fixes io :: "('q, 'w, 'f, 'r) reliable_io"
  assumes law: "stream_reader ro rlog" and ok: "streams_ok alloc rlog lim c0 a cs io ep c"
  shows "\<exists>x io' ep' c'. poll_inbound_binding alloc ro (io, ep, c) = Some (x, io', ep', c')
    \<and> streams_ok alloc rlog lim c0 a cs io' ep' c' \<and> (\<forall>e. x = Ready (Err e) \<longrightarrow> active_error_ok e)"
proof (cases "ri_inbound io = []")
  case True
  then show ?thesis using ok by (simp add: poll_inbound_binding_def)
next
  case False
  let ?n = "length (ri_inbound io)" and ?start = "ri_inbound_cursor io mod length (ri_inbound io)"
  define P where "P = (\<lambda>s :: ('q, 'w, 'f, 'r) reliable_world.
      streams_ok alloc rlog lim c0 a cs (fst s) (fst (snd s)) (snd (snd s)) \<and> length (ri_inbound (fst s)) = ?n)"
  define Q where "Q = (\<lambda>(x :: (active_reliable_progress, reliable_io_error) result) (s :: ('q, 'w, 'f, 'r) reliable_world).
      streams_ok alloc rlog lim c0 a cs (fst s) (fst (snd s)) (snd (snd s)) \<and> (\<forall>e. x = Err e \<longrightarrow> active_error_ok e))"
  have step: "\<exists>r s'. poll_inbound_at alloc ro ?n s i = Some (r, s') \<and> (case r of None \<Rightarrow> P s' | Some x \<Rightarrow> Q x s')"
    if i: "i < ?n" and s: "P s" for s i
  proof -
    obtain jo je jc where j: "s = (jo, je, jc)" by (cases s)
    have jo: "streams_ok alloc rlog lim c0 a cs jo je jc" "i < length (ri_inbound jo)" "length (ri_inbound jo) = ?n"
      using i s by (simp_all add: P_def j)
    obtain r io' ep' c' where "poll_inbound_at alloc ro ?n (jo, je, jc) i = Some (r, io', ep', c')"
      "streams_ok alloc rlog lim c0 a cs io' ep' c'" "r = None \<longrightarrow> length (ri_inbound io') = length (ri_inbound jo)"
      "\<forall>e. r = Some (Err e) \<longrightarrow> active_error_ok e"
      using poll_inbound_at_ok[OF law jo(1,2)] by blast
    then show ?thesis using jo(3) by (cases r) (auto simp: P_def Q_def j)
  qed
  have start: "P (io, ep, c)" using ok by (simp add: P_def)
  obtain r s' where r: "poll_each (poll_inbound_at alloc ro ?n) (ring ?start ?n) (io, ep, c) = Some (r, s')"
    "case r of None \<Rightarrow> P s' | Some x \<Rightarrow> Q x s'"
    by (rule poll_ring_good[of P, OF start step])
  then show ?thesis
    using False by (cases s'; cases r) (auto simp: poll_inbound_binding_def P_def Q_def streams_ok_def Let_def)
qed

lemma reliable_finish_ok:
  assumes ok: "reliable_ok alloc rlog io c"
  shows "\<exists>x io'. reliable_request_finish wo io ep i = Some (x, io') \<and> reliable_ok alloc rlog io' c
    \<and> ri_accept io' = ri_accept io"
proof -
  have pos: "n < length ys \<and> ys ! n = y" if "position y ys = Some n" for y :: flow_id and ys n
    using that by (induction y ys arbitrary: n rule: position.induct) (auto split: if_splits)
  show ?thesis
  proof (cases "outbound_finish_target_of i (pending_ids io) (active_ids io)")
    case (FinishActive n)
    then have n: "n < length (ri_outbound io)"
      using pos[of i "active_ids io" n]
      by (auto simp: outbound_finish_target_of_def active_ids_def split: if_splits option.splits)
    let ?a = "ri_outbound io ! n"
    have a: "binding_ok (ao_binding ?a)" "or_flow_id (ao_binding ?a) = ao_flow_id ?a"
      using ok nth_mem[OF n] by (auto simp: reliable_ok_def)
    obtain x b where "request_finish_normal wo (ao_binding ?a) ep = Some (x, b)" "binding_ok b"
      "or_flow_id b = or_flow_id (ao_binding ?a)"
      using request_finish_total[OF a(1)] by blast
    then show ?thesis
      using FinishActive n a(2) outbound_upd[OF ok n, of "?a\<lparr>ao_binding := b\<rparr>"]
      by (simp add: reliable_request_finish_def nth_exec_def)
  qed (use ok in \<open>auto simp: reliable_request_finish_def\<close>)
qed

section \<open>Datagrams\<close>

lemma register_outbound_ok:
  assumes ok: "datagram_ok dg c" and fresh: "answered c (ff_flow_id flow)" "ff_flow_id flow \<notin> set (di_outbound dg)"
    and reg: "lookup_flow (fn_registry c) (ff_flow_id flow) = Some f" "rf_key f = ff_key flow" "rf_mode f = ff_mode flow"
      "rf_max_message_bytes f = ff_max_message_bytes flow"
    and flow: "ff_mode flow \<noteq> ReliableOrdered" "fk_direction (ff_key flow) = Outbound"
  shows "\<exists>x dg'. register_outbound reserve dg c flow = (x, dg') \<and> datagram_ok dg' c \<and> di_receive dg' = di_receive dg
    \<and> (x = Ok () \<or> x = Err DatagramAllocation)"
  using assms
  by (auto simp: register_outbound_def retain_live_outbound_def validate_outbound_registration_def Let_def datagram_ok_def)

lemma drive_outbound_at_ok:
  assumes ok: "datagram_ok dg c" "endpoint_ok lim ep" and i: "i < length (di_outbound dg)"
  shows "\<exists>r dg' ep'. drive_outbound_at alloc ops c n (dg, ep) i = Some (r, dg', ep')
    \<and> datagram_ok dg' c \<and> endpoint_ok lim ep' \<and> di_receive dg' = di_receive dg
    \<and> (r = None \<longrightarrow> length (di_outbound dg') = length (di_outbound dg))
    \<and> (\<forall>e. r = Some (Err e) \<longrightarrow> (\<exists>i s. e = DatagramSend i s))"
proof -
  let ?f = "di_outbound dg ! i"
  have nth: "nth_exec (di_outbound dg) i = Some ?f" using i by (simp add: nth_exec_def)
  show ?thesis
  proof (cases "registered_outbound_unreliable_is_live c ?f")
    case False
    have "datagram_ok (dg\<lparr>di_outbound := swap_remove (di_outbound dg) i\<rparr>) c"
      using ok(1) distinct_swap_remove[OF i] set_swap_remove[OF i] by (auto simp: datagram_ok_def)
    then show ?thesis using False nth ok(2) by (auto simp: drive_outbound_at_def Let_def datagram_ok_def)
  next
    case True
    then obtain f where f: "lookup_flow (fn_registry c) ?f = Some f"
      by (auto simp: registered_outbound_unreliable_is_live_def split: option.splits)
    obtain x s' ep' where "drive_one alloc ops (di_sender dg) ep (fn_registry c) ?f = Some (x, s', ep')" "endpoint_ok lim ep'"
      using drive_one_spec[OF ok(2)] by blast
    then show ?thesis
      using True nth f ok(1)
      by (auto simp: drive_outbound_at_def Let_def split: result.split datagram_send_progress.split)
  qed
qed

lemma drive_outbound_ok:
  fixes dg :: "'q datagram_io"
  assumes ok: "datagram_ok dg c" "endpoint_ok lim ep"
  shows "\<exists>x dg' ep'. drive_outbound alloc ops c (dg, ep) = Some (x, dg', ep')
    \<and> datagram_ok dg' c \<and> endpoint_ok lim ep' \<and> di_receive dg' = di_receive dg
    \<and> (\<forall>e. x = Err e \<longrightarrow> (\<exists>i s. e = DatagramSend i s))"
proof (cases "di_outbound dg = []")
  case True
  then show ?thesis using ok by (simp add: drive_outbound_def)
next
  case False
  let ?n = "length (di_outbound dg)" and ?start = "di_cursor dg mod length (di_outbound dg)"
  define P where "P = (\<lambda>s :: 'q datagram_io \<times> delivery_endpoint. datagram_ok (fst s) c \<and> endpoint_ok lim (snd s)
      \<and> di_receive (fst s) = di_receive dg \<and> length (di_outbound (fst s)) = ?n)"
  define Q where "Q = (\<lambda>(x :: (datagram_outbound_progress, datagram_io_error) result) (s :: 'q datagram_io \<times> delivery_endpoint).
      datagram_ok (fst s) c \<and> endpoint_ok lim (snd s) \<and> di_receive (fst s) = di_receive dg
      \<and> (\<forall>e. x = Err e \<longrightarrow> (\<exists>i s. e = DatagramSend i s)))"
  have step: "\<exists>r s'. drive_outbound_at alloc ops c ?n s i = Some (r, s') \<and> (case r of None \<Rightarrow> P s' | Some x \<Rightarrow> Q x s')"
    if i: "i < ?n" and s: "P s" for s i
  proof -
    obtain jd je where j: "s = (jd, je)" by (cases s)
    have jd: "datagram_ok jd c" "endpoint_ok lim je" "i < length (di_outbound jd)" "length (di_outbound jd) = ?n"
      "di_receive jd = di_receive dg"
      using i s by (simp_all add: P_def j)
    obtain r dg' ep' where "drive_outbound_at alloc ops c ?n (jd, je) i = Some (r, dg', ep')"
      "datagram_ok dg' c" "endpoint_ok lim ep'" "di_receive dg' = di_receive jd"
      "r = None \<longrightarrow> length (di_outbound dg') = length (di_outbound jd)"
      "\<forall>e. r = Some (Err e) \<longrightarrow> (\<exists>i s. e = DatagramSend i s)"
      using drive_outbound_at_ok[OF jd(1-3)] by blast
    then show ?thesis using jd(4,5) by (cases r) (auto simp: P_def Q_def j)
  qed
  have start: "P (dg, ep)" using ok by (simp add: P_def)
  obtain r s' where r: "poll_each (drive_outbound_at alloc ops c ?n) (ring ?start ?n) (dg, ep) = Some (r, s')"
    "case r of None \<Rightarrow> P s' | Some x \<Rightarrow> Q x s'"
    by (rule poll_ring_good[of P, OF start step])
  then show ?thesis
    using False by (cases s'; cases r)
      (auto simp: drive_outbound_def P_def Q_def Let_def split: result.split)
qed

end
