(* ===== verification/Driver_Failures.thy ===== *)
theory Driver_Failures
  imports Driver_Safety
begin

text \<open>
  A driver that meets a failure: the classification of an error always yields something that can be
  prepared, the report is sent on a control stream that is ready for it, and what ends the connection
  leaves the driver terminal and valid.
\<close>

section \<open>Dispositions\<close>

definition disposition_ok :: "flow_control \<Rightarrow> data_failure_disposition \<Rightarrow> bool" where
  "disposition_ok c x =
     (case x of
        TerminateAndReport i r \<Rightarrow> (\<exists>f. lookup_flow (fn_registry c) i = Some f
          \<and> \<not> (rf_mode f = ReliableOrdered \<and> r = TerminateNormal))
      | ReportOnly i key r t \<Rightarrow> flow_id_ok i \<and> r \<noteq> TerminateNormal
      | _ \<Rightarrow> True)"

lemma known_disposition_ok:
  "reason \<noteq> TerminateNormal \<Longrightarrow> disposition_ok c (known_flow_disposition i reason (flow_registered c i))"
  by (auto simp: known_flow_disposition_def disposition_ok_def flow_registered_def)

lemma send_reason [simp]: "reliable_send_failure_reason e \<noteq> TerminateNormal"
  by (simp add: reliable_send_failure_reason_def split: send_error.split)

lemma receive_reason [simp]: "reliable_receive_failure_reason e \<noteq> TerminateNormal"
  by (simp add: reliable_receive_failure_reason_def
      split: receive_error.split receive_outcome.split reliable_frame_error.split)

lemma exhaustion_disposition_ok: "disposition_ok c (classify_sequence_exhaustion c i)"
  by (auto simp: classify_sequence_exhaustion_def sequence_exhaustion_disposition_def disposition_ok_def
      split: option.split delivery_mode.split)

lemma context_disposition_ok:
  "context_ok x \<Longrightarrow> reason \<noteq> TerminateNormal \<Longrightarrow> disposition_ok c (classify_reliable_active_context c x reason)"
  by (auto simp: classify_reliable_active_context_def reliable_active_context_disposition_def disposition_ok_def
      context_ok_def flow_registered_def split: reliable_failure_context.split)

lemma active_disposition_ok:
  "active_error_ok e \<Longrightarrow> outbound_active_disposition c e = Some x \<Longrightarrow> disposition_ok c x"
  "active_error_ok e \<Longrightarrow> inbound_active_disposition c e = Some x \<Longrightarrow> disposition_ok c x"
  by (auto simp: active_error_ok_def outbound_active_disposition_def inbound_active_disposition_def
      classify_outbound_active_def classify_inbound_active_def classify_unresolved_receive_def
      disposition_ok_def[of _ "ConnectionTerminal _"] intro!: context_disposition_ok)

lemma acquisition_disposition_ok:
  "disposition_ok c (classify_outbound_acquisition c i e)"
  "inbound_acquisition_disposition e' = Some x \<Longrightarrow> \<exists>code. x = ConnectionTerminal code"
  by (auto simp: classify_outbound_acquisition_def known_disposition_ok inbound_acquisition_disposition_def
      classify_inbound_construction_def split: reliable_io_error.splits)

lemma other_dispositions_ok:
  "disposition_ok c (classify_resource_failure c i)"
  "disposition_ok c (classify_datagram_send c i e)"
  "classify_outbound_finish c i s = Some x \<Longrightarrow> disposition_ok c x"
  "classify_datagram_submission c i e' = Some x \<Longrightarrow> disposition_ok c x"
  "disposition_ok c (ConnectionTerminal code)"
proof -
  show "disposition_ok c (classify_resource_failure c i)"
    by (simp add: classify_resource_failure_def known_disposition_ok)
  show "disposition_ok c (ConnectionTerminal code)" for code by (simp add: disposition_ok_def)
  then show "disposition_ok c (classify_datagram_send c i e)"
    by (cases e) (simp_all add: classify_datagram_send_def known_disposition_ok exhaustion_disposition_ok)
  show "disposition_ok c x" if "classify_outbound_finish c i s = Some x"
    using that by (auto simp: classify_outbound_finish_def reliable_finish_failure_reason_def known_disposition_ok
        split: option.splits send_error.splits delivery_operation_error.splits)
  show "disposition_ok c x" if "classify_datagram_submission c i e' = Some x"
    using that by (auto simp: classify_datagram_submission_def exhaustion_disposition_ok split: datagram_submission_error.splits)
qed

lemma datagram_receive_disposition:
  "\<exists>x. classify_datagram_receive c f = Some x \<and> disposition_ok c x"
proof (cases "datagram_receive_failure_reason f")
  case None
  then show ?thesis by (simp add: classify_datagram_receive_def disposition_ok_def)
next
  case (Some r)
  then obtain i where "drf_flow_id f = Some i" "r \<noteq> TerminateNormal"
    by (auto simp: datagram_receive_failure_reason_def split: if_splits datagram_receive_error.splits)
  then show ?thesis using Some by (simp add: classify_datagram_receive_def known_disposition_ok)
qed

section \<open>Preparing the report\<close>

lemma terminate_local_driver:
  assumes ok: "flow_pair_ok lim c0 (c, ep)" and f: "lookup_flow (fn_registry c) i = Some f"
    and reason: "\<not> (rf_mode f = ReliableOrdered \<and> reason = TerminateNormal)"
  shows "\<exists>x c' ep'. driver_terminate_local al c ep i reason = Some (x, c', ep') \<and> flow_pair_ok lim c0 (c', ep')
    \<and> quiet_ids c c' \<and> (\<forall>p. x = Ok p \<longrightarrow> cf_type (ps_frame p) = FlowTerminateType)
    \<and> (\<forall>e. x = Err e \<longrightarrow> e = FlowAllocation \<or> (\<exists>y. e = CoreState y))"
proof -
  have c: "flow_control_ok c" "endpoint_ok lim ep" "same_config c0 c" using ok by (simp_all add: flow_pair_ok_def)
  obtain x c' ep' where x: "terminate_local al c ep i reason = Some (x, c', ep')" "flow_control_ok c'" "endpoint_ok lim ep'"
    using terminate_local_total[OF c(1,2)] by blast
  have "flow_pair_ok lim c0 (c', ep')"
    using flow_pair_okI[OF x(2,3) c(3) terminate_local_config[OF c(1,2) x(1)]] .
  then show ?thesis
    using x(1) outcomesD[OF terminate_local_outcomes x(1)] f reason
    by (auto simp: driver_terminate_local_def split: result.split)
qed

lemma prepare_data_failure_ok:
  assumes ok: "flow_pair_ok lim c0 (c, ep)" and d: "disposition_ok c d"
  shows "\<exists>x c' ep'. prepare_data_failure al c ep d = Some (x, c', ep') \<and> flow_pair_ok lim c0 (c', ep')
    \<and> quiet_ids c c' \<and> (\<forall>p. x = Ok (FailurePendingSend p) \<longrightarrow> cf_type (ps_frame p) = FlowTerminateType)
    \<and> (\<forall>e. x = Err e \<longrightarrow> e = FlowAllocation \<or> (\<exists>y. e = CoreState y))"
proof -
  have told: ?thesis if f: "lookup_flow (fn_registry c) i = Some f" "\<not> (rf_mode f = ReliableOrdered \<and> r = TerminateNormal)"
    and run: "prepare_data_failure al c ep d = map_option send_progress_of (driver_terminate_local al c ep i r)" for i f r
  proof -
    obtain x c' ep' where x: "driver_terminate_local al c ep i r = Some (x, c', ep')" "flow_pair_ok lim c0 (c', ep')"
      "quiet_ids c c'" "\<forall>p. x = Ok p \<longrightarrow> cf_type (ps_frame p) = FlowTerminateType"
      "\<forall>e. x = Err e \<longrightarrow> e = FlowAllocation \<or> (\<exists>y. e = CoreState y)"
      using terminate_local_driver[OF ok f, of al] by blast
    show ?thesis using run x by (auto simp: send_progress_of_def split: result.split)
  qed
  show ?thesis
  proof (cases d)
    case (TerminateAndReport i r)
    then obtain f where "lookup_flow (fn_registry c) i = Some f" "\<not> (rf_mode f = ReliableOrdered \<and> r = TerminateNormal)"
      using d by (auto simp: disposition_ok_def)
    then show ?thesis using told TerminateAndReport by (simp add: prepare_data_failure_def map_conv_bind_option comp_def)
  next
    case (ReportOnly i key r t)
    have i: "flow_id_ok i" "r \<noteq> TerminateNormal" using d ReportOnly by (simp_all add: disposition_ok_def)
    show ?thesis
    proof (cases "lookup_flow (fn_registry c) i")
      case None
      obtain y where y: "terminate_frame (al_frame al) i r = Some y" using frames_total[OF i(1)] by blast
      show ?thesis
        using None ReportOnly y ok terminate_frame_type[of "al_frame al" i r]
        by (cases y) (auto simp: prepare_data_failure_def pending_report_only_termination_def send_progress_of_def)
    next
      case (Some f)
      then show ?thesis using told[OF Some] i(2) ReportOnly
        by (simp add: prepare_data_failure_def map_conv_bind_option comp_def)
    qed
  qed (use ok in \<open>auto simp: prepare_data_failure_def\<close>)
qed

end
