(* ===== verification/Driver_Turns.thy ===== *)
theory Driver_Turns
  imports Driver_Failures
begin

text \<open>
  Every part of a poll keeps the invariant of the driver, and none of the errors it ends with is one
  that the driver brought about by asking at the wrong moment.
\<close>

section \<open>Errors a driver avoids\<close>

definition self_inflicted :: "driver_error \<Rightarrow> bool" where
  "self_inflicted e =
     (case e of
        DriverState _ \<Rightarrow> True
      | ReceivedFlowControl e \<Rightarrow> (\<exists>i. e = InboundDecisionPending i)
      | DriverControlReceive e \<Rightarrow> e = ControlChannelPoisoned
      | DriverControlSend e \<Rightarrow> sf_error e = ControlChannelPoisoned \<or> sf_error e = SettingsOwnedByBootstrap
      | DriverReliable e \<Rightarrow> (\<exists>s. e = ReliableState s \<and> s \<noteq> CapacityOverflow)
      | DriverDatagram e \<Rightarrow> (\<exists>s. e = DatagramState s)
      | FailurePreparation e \<Rightarrow> \<not> (e = FlowAllocation \<or> (\<exists>x. e = CoreState x))
      | _ \<Rightarrow> False)"

text \<open>An error ends the driver, and nothing else does.\<close>

definition step_good :: "driver_step \<Rightarrow> ('q, 'w, 'f, 'r) connection_driver \<Rightarrow> bool" where
  "step_good x d \<longleftrightarrow>
     (case x of
        StepError e \<Rightarrow> \<not> self_inflicted e \<and> cd_phase d = DriverTerminal
      | _ \<Rightarrow> cd_phase d = DriverActive)"

lemma step_good_simps [simp]:
  "step_good StepNone d \<longleftrightarrow> cd_phase d = DriverActive"
  "step_good (StepProgress p) d \<longleftrightarrow> cd_phase d = DriverActive"
  "step_good (StepError e) d \<longleftrightarrow> \<not> self_inflicted e \<and> cd_phase d = DriverTerminal"
  by (simp_all add: step_good_def)

section \<open>Phases\<close>

definition active_ready :: "('q, 'w, 'f, 'r) connection_driver \<Rightarrow> bool" where
  "active_ready d \<longleftrightarrow> cd_phase d = DriverActive \<and> (\<exists>s. cd_sender d = ControlSendReady s \<and> ct_io_state s = Clean)"

lemma resources_ok_upds [simp]:
  "resources_ok io rlog lim c0 (d\<lparr>cd_quinn := q\<rparr>, ep) = resources_ok io rlog lim c0 (d, ep)"
  "resources_ok io rlog lim c0 (d\<lparr>cd_phase := p\<rparr>, ep) = resources_ok io rlog lim c0 (d, ep)"
  "resources_ok io rlog lim c0 (d\<lparr>cd_sender := s\<rparr>, ep) = resources_ok io rlog lim c0 (d, ep)"
  "resources_ok io rlog lim c0 (d\<lparr>cd_receiver := r\<rparr>, ep) = resources_ok io rlog lim c0 (d, ep)"
  "resources_ok io rlog lim c0 (d\<lparr>cd_poll_cursor := n\<rparr>, ep) = resources_ok io rlog lim c0 (d, ep)"
  by (simp_all add: resources_ok_def)

lemma phase_ok_upds [simp]:
  "phase_ok (d\<lparr>cd_quinn := q\<rparr>) = phase_ok d" "phase_ok (d\<lparr>cd_poll_cursor := n\<rparr>) = phase_ok d"
  "phase_ok (d\<lparr>cd_flow_control := c\<rparr>) = phase_ok d"
  "ri_accept rel = ri_accept (cd_reliable d) \<Longrightarrow> phase_ok (d\<lparr>cd_reliable := rel\<rparr>) = phase_ok d"
  "di_receive dg = di_receive (cd_datagram d) \<Longrightarrow> phase_ok (d\<lparr>cd_datagram := dg\<rparr>) = phase_ok d"
  by (simp_all add: phase_ok_def split: driver_phase.split)

lemma enter_terminal_ok:
  "resources_ok io rlog lim c0 (d, ep) \<Longrightarrow> cd_phase d = DriverActive \<Longrightarrow> driver_ok io rlog lim c0 (enter_terminal qo d code, ep)"
  by (simp add: enter_terminal_def driver_ok_def phase_ok_def Let_def)

lemma enter_terminal_phase [simp]: "cd_phase (enter_terminal qo d code) = DriverTerminal"
  by (simp add: enter_terminal_def Let_def)

lemma ready_allowed: "phase_ok d \<Longrightarrow> data_poll_allowed d \<Longrightarrow> active_ready d"
  by (auto simp: data_poll_allowed_def send_phase_def phase_ok_def sender_live_def active_ready_def
      split: control_send_state.splits)

lemma require_ready:
  "require_control_send_ready d = Ok u \<Longrightarrow> phase_ok d \<Longrightarrow> active_ready d"
  by (auto simp: require_control_send_ready_def control_operation_error_def send_phase_def phase_ok_def
      sender_live_def active_ready_def split: if_splits control_send_state.splits driver_phase.splits)

lemma start_prepared_send_ok:
  assumes "active_ready d" "driver_ok io rlog lim c0 (d, ep)" "cf_type (ps_frame p) \<noteq> SettingsType"
  shows "\<exists>d'. start_prepared_send qo d p = (Ok (), d') \<and> driver_ok io rlog lim c0 (d', ep)
    \<and> cd_phase d' = DriverActive"
  using assms
  by (auto simp: start_prepared_send_def start_control_send_def active_ready_def driver_ok_def phase_ok_def sender_live_def)

lemma apply_data_failure_ok:
  assumes ok: "resources_ok io rlog lim c0 (d, ep)" and ready: "active_ready d"
    and live: "phase_ok d \<or> (\<exists>code. x = ConnectionTerminal code)" and x: "disposition_ok (cd_flow_control d) x"
    and e: "\<not> self_inflicted e"
  shows "\<exists>y d' ep'. apply_data_failure qo al d ep x e = Some (y, d', ep') \<and> driver_ok io rlog lim c0 (d', ep')
    \<and> (case y of Ok _ \<Rightarrow> cd_phase d' = DriverActive
        | Err e \<Rightarrow> \<not> self_inflicted e \<and> cd_phase d' = DriverTerminal)"
proof -
  have act: "cd_phase d = DriverActive" using ready by (simp add: active_ready_def)
  show ?thesis
  proof (cases "\<exists>code. x = ConnectionTerminal code")
    case True
    then show ?thesis using enter_terminal_ok[OF ok act] e by (auto simp: apply_data_failure_def)
  next
    case False
    have pair: "flow_pair_ok lim c0 (cd_flow_control d, ep)" using ok by (simp add: resources_ok_def)
    obtain y c' ep' where y: "prepare_data_failure al (cd_flow_control d) ep x = Some (y, c', ep')"
      "flow_pair_ok lim c0 (c', ep')" "quiet_ids (cd_flow_control d) c'"
      "\<forall>p. y = Ok (FailurePendingSend p) \<longrightarrow> cf_type (ps_frame p) = FlowTerminateType"
      "\<forall>e. y = Err e \<longrightarrow> e = FlowAllocation \<or> (\<exists>y. e = CoreState y)"
      using prepare_data_failure_ok[OF pair x, of al] by blast
    let ?d = "d\<lparr>cd_flow_control := c'\<rparr>"
    have res: "resources_ok io rlog lim c0 (?d, ep')"
      using ok y(2) by (auto simp: resources_ok_def intro: reliable_ok_quiet[OF y(3)] datagram_ok_quiet[OF y(3)])
    have good: "driver_ok io rlog lim c0 (?d, ep')" using res live False by (simp add: driver_ok_def)
    have ready': "active_ready ?d" using ready by (simp add: active_ready_def)
    have over: "driver_ok io rlog lim c0 (enter_terminal qo ?d code, ep')" for code
      by (rule enter_terminal_ok[OF res]) (simp add: act)
    obtain i where i: "(case x of TerminateAndReport i _ \<Rightarrow> Ok i | ReportOnly i _ _ _ \<Rightarrow> Ok i | CleanupOnly i \<Rightarrow> Ok i
        | ConnectionTerminal code \<Rightarrow> Err code) = Ok i"
      using False by (cases x) auto
    note go = apply_data_failure_def[of qo al d ep x e, unfolded i Let_def result.case y(1) Option.bind.simps prod.case]
    show ?thesis
    proof (cases y)
      case (Err z)
      then show ?thesis using go over y(5) by (auto simp: self_inflicted_def)
    next
      case (Ok z)
      show ?thesis
      proof (cases z)
        case (FailurePendingSend p)
        then obtain d' where "start_prepared_send qo ?d p = (Ok (), d')" "driver_ok io rlog lim c0 (d', ep')"
          "cd_phase d' = DriverActive"
          using start_prepared_send_ok[OF ready' good, of p qo] y(4) Ok by auto
        then show ?thesis using go Ok FailurePendingSend by auto
      qed (use go Ok good over e act in auto)
    qed
  qed
qed

text \<open>What a part of a poll promises.\<close>

definition turn_ok ::
  "('q, 'w, 'f, 'r) driver_ops \<Rightarrow> ('r \<Rightarrow> bytes) \<Rightarrow> delivery_scope_limits \<Rightarrow> flow_control \<Rightarrow>
     (driver_step \<times> ('q, 'w, 'f, 'r) connection_driver \<times> delivery_endpoint) exec \<Rightarrow> bool" where
  "turn_ok io rlog lim c0 m \<longleftrightarrow> (\<exists>x d ep. m = Some (x, d, ep) \<and> driver_ok io rlog lim c0 (d, ep) \<and> step_good x d)"

lemma turn_ok_Some [simp]:
  "turn_ok io rlog lim c0 (Some (x, d, ep)) \<longleftrightarrow> driver_ok io rlog lim c0 (d, ep) \<and> step_good x d"
  by (simp add: turn_ok_def)

lemma finish_data_failure_ok:
  assumes "resources_ok io rlog lim c0 (d, ep)" "active_ready d"
    and "phase_ok d \<or> (\<exists>code. x = ConnectionTerminal code)" "disposition_ok (cd_flow_control d) x"
    and "\<not> self_inflicted e"
  shows "turn_ok io rlog lim c0 (finish_data_failure qo al d ep x e)"
proof -
  obtain y d' ep' where "apply_data_failure qo al d ep x e = Some (y, d', ep')" "driver_ok io rlog lim c0 (d', ep')"
    "case y of Ok _ \<Rightarrow> cd_phase d' = DriverActive | Err e \<Rightarrow> \<not> self_inflicted e \<and> cd_phase d' = DriverTerminal"
    using apply_data_failure_ok[OF assms, of qo al] by blast
  then show ?thesis by (simp add: finish_data_failure_def split: result.splits)
qed

lemma terminal_step_ok:
  "resources_ok io rlog lim c0 (d, ep) \<Longrightarrow> cd_phase d = DriverActive \<Longrightarrow> \<not> self_inflicted e \<Longrightarrow>
     turn_ok io rlog lim c0 (terminal_step qo d ep e)"
  by (simp add: terminal_step_def enter_terminal_ok)

section \<open>The control stream\<close>

lemma send_frame_clean:
  assumes "ct_io_state s = Clean" "t \<noteq> SettingsType"
  shows "\<exists>x s'. send_frame ops s t body = Some (x, s') \<and> (x = Done (Ok ()) \<longrightarrow> ct_io_state s' = Clean)
    \<and> (\<forall>e. x = Done (Err e) \<longrightarrow> (\<exists>y. e = BootstrapFrame y))"
proof -
  have raw: "\<exists>x w. send_frame_raw ops w0 t body = Some (x, w)" for w0
    by (cases "frame_type_wire t" rule: encode_varint_cases;
        cases "word_of_nat (length body) :: u64" rule: encode_varint_cases)
      (auto simp: send_frame_raw_def usize_to_u64_def split: result.split simp del: write_slices.simps)
  then obtain x w where "send_frame_raw ops (ct_send s) t body = Some (x, w)" by blast
  then show ?thesis
    using assms by (cases x) (auto simp: send_frame_def io_begin_def io_complete_def Let_def split: result.split)
qed

lemma receive_frame_clean:
  assumes "cr_io_state r = Clean" "receive_frame alloc ops r = (x, r')"
  shows "(\<forall>f. x = Done (Ok f) \<longrightarrow> cr_io_state r' = Clean) \<and> x \<noteq> Done (Err ControlChannelPoisoned)"
  using assms
  by (auto simp: receive_frame_def io_begin_def io_complete_def split: prod.splits awaited.splits result.splits if_splits)

lemma poll_control_send_ok:
  assumes ok: "driver_ok io rlog lim c0 (d, ep)" and act: "cd_phase d = DriverActive"
  shows "turn_ok io rlog lim c0 (poll_control_send io tu d ep)"
proof (cases "cd_sender d")
  case (ControlSendPending s p)
  have live: "ct_io_state s = Clean" "cf_type (ps_frame p) \<noteq> SettingsType"
    and res: "resources_ok io rlog lim c0 (d, ep)"
    using ok act ControlSendPending by (auto simp: driver_ok_def phase_ok_def sender_live_def)
  obtain x s' where x: "send_frame (op_send io) s (cf_type (ps_frame p)) (cf_body (ps_frame p)) = Some (x, s')"
    "x = Done (Ok ()) \<longrightarrow> ct_io_state s' = Clean" "\<forall>e. x = Done (Err e) \<longrightarrow> (\<exists>y. e = BootstrapFrame y)"
    using send_frame_clean[OF live] by blast
  have over: "driver_ok io rlog lim c0 (enter_terminal (op_quinn io) (d\<lparr>cd_quinn := q\<rparr>) None, ep)" for q
    by (rule enter_terminal_ok) (simp_all add: res act)
  have sent: "driver_ok io rlog lim c0 (d\<lparr>cd_sender := ControlSendReady s'\<rparr>, ep)" if "ct_io_state s' = Clean"
    using ok that act by (auto simp: driver_ok_def phase_ok_def sender_live_def)
  show ?thesis
    using ok x over sent act
    by (auto simp: poll_control_send_def ControlSendPending poll_send_future_def pending_send_run_def self_inflicted_def
        split: awaited.split result.split)
qed (use ok act in \<open>simp_all add: poll_control_send_def\<close>)

end
