(* ===== verification/Driver_Receives.thy ===== *)
theory Driver_Receives
  imports Driver_Turns
begin

text \<open>
  The categories of a poll: the control stream, the streams and the datagrams. Each keeps the
  invariant of the driver and gives no error of the driver's own making.
\<close>

section \<open>Received frames\<close>

lemma established_fresh:
  assumes ok: "flow_control_ok c" "flow_control_ok c'" and quiet: "quiet_ids c c'"
    and est: "established_outbound c ep f c' ep'"
  shows "answered c' (ff_flow_id f)" "\<not> answered c (ff_flow_id f)" "fk_direction (ff_key f) = Outbound"
    "\<exists>r. lookup_flow (fn_registry c') (ff_flow_id f) = Some r \<and> rf_key r = ff_key f \<and> rf_mode r = ff_mode f
       \<and> rf_max_message_bytes r = ff_max_message_bytes f"
proof -
  obtain p where p: "fmlookup (fn_pending_outbound c) (flow_id_value (ff_flow_id f)) = Some p" "ff_key f = pn_key p"
    "established_in c ep f (pn_policy p) c' ep'"
    using est by (auto simp: established_outbound_def dest!: arg_cong[of f _ ff_key])
  then obtain r where r: "rf_key r = ff_key f" "rf_mode r = ff_mode f" "rf_max_message_bytes r = ff_max_message_bytes f"
    "fg_flows (fn_registry c') = fmupd (flow_id_value (ff_flow_id f)) r (fg_flows (fn_registry c))"
    by (auto simp: established_in_def)
  have pend: "pending_outbound_ok c" "pending_outbound_ok c'" using ok by (simp_all add: flow_control_ok_def)
  then have "issued (fn_local_flow_ids c) (flow_id_value (ff_flow_id f))" "fk_direction (pn_key p) = Outbound"
    using p(1) by (auto simp: pending_outbound_ok_def)
  moreover have "fmlookup (fn_pending_outbound c') (flow_id_value (ff_flow_id f)) = None"
    using pend(2) r(4) unfolding pending_outbound_ok_def by (metis fmupd_lookup option.distinct(1) option.exhaust)
  ultimately show "answered c' (ff_flow_id f)" "fk_direction (ff_key f) = Outbound"
    using quiet p(2) by (simp_all add: answered_def quiet_ids_def)
  show "\<not> answered c (ff_flow_id f)" using p(1) by (simp add: answered_def)
  show "\<exists>r. lookup_flow (fn_registry c') (ff_flow_id f) = Some r \<and> rf_key r = ff_key f \<and> rf_mode r = ff_mode f
       \<and> rf_max_message_bytes r = ff_max_message_bytes f"
    using r by (intro exI[of _ r]) (simp add: lookup_flow_def)
qed

lemma route_outbound_established_ok:
  assumes ok: "driver_ok io rlog lim c0 (d, ep)" and ready: "active_ready d"
    and fresh: "answered (cd_flow_control d) (ff_flow_id flow)"
      "ff_flow_id flow \<notin> set (pending_ids (cd_reliable d) @ active_ids (cd_reliable d))"
      "ff_flow_id flow \<notin> set (di_outbound (cd_datagram d))"
    and reg: "lookup_flow (fn_registry (cd_flow_control d)) (ff_flow_id flow) = Some f" "rf_key f = ff_key flow"
      "rf_mode f = ff_mode flow" "rf_max_message_bytes f = ff_max_message_bytes flow" "fk_direction (ff_key flow) = Outbound"
  shows "turn_ok io rlog lim c0 (route_outbound_established io tu d ep flow)"
proof -
  have act: "cd_phase d = DriverActive" using ready by (simp add: active_ready_def)
  have res: "flow_pair_ok lim c0 (cd_flow_control d, ep)" "reliable_ok (op_alloc io) rlog (cd_reliable d) (cd_flow_control d)"
    "datagram_ok (cd_datagram d) (cd_flow_control d)" "phase_ok d"
    using ok by (simp_all add: driver_ok_def resources_ok_def)
  show ?thesis
  proof (cases "ff_mode flow = ReliableOrdered")
    case True
    obtain x rel where x: "schedule_outbound (tu_reserve tu) (cd_reliable d) (cd_quinn d) (cd_flow_control d) flow = (x, rel)"
      "reliable_ok (op_alloc io) rlog rel (cd_flow_control d)" "ri_accept rel = ri_accept (cd_reliable d)"
      "x = Ok () \<or> x = Err ReliableAllocation \<or> x = Err (ReliableState CapacityOverflow)"
      using schedule_outbound_ok[OF res(2) fresh(1,2) reg(1-4) True reg(5), of "tu_reserve tu" "cd_quinn d"] by blast
    let ?d = "d\<lparr>cd_reliable := rel\<rparr>"
    have new: "resources_ok io rlog lim c0 (?d, ep)" "phase_ok ?d" "active_ready ?d"
      using res x(2,3) ready by (simp_all add: resources_ok_def phase_ok_def active_ready_def)
    have fail: "turn_ok io rlog lim c0 (finish_data_failure (op_quinn io) (tu_flow tu) ?d ep
        (classify_resource_failure (cd_flow_control d) (ff_flow_id flow)) (DriverReliable ReliableAllocation))"
      by (rule finish_data_failure_ok[OF new(1,3)]) (simp_all add: new(2) other_dispositions_ok self_inflicted_def)
    have over: "turn_ok io rlog lim c0 (terminal_step (op_quinn io) ?d ep (DriverReliable (ReliableState CapacityOverflow)))"
      by (rule terminal_step_ok[OF new(1)]) (simp_all add: act self_inflicted_def)
    show ?thesis
      using x(1,4) new fail over True act
      by (auto simp: route_outbound_established_def outbound_transport_owner_def driver_ok_def)
  next
    case False
    obtain x dg where x: "register_outbound (tu_reserve tu) (cd_datagram d) (cd_flow_control d) flow = (x, dg)"
      "datagram_ok dg (cd_flow_control d)" "di_receive dg = di_receive (cd_datagram d)"
      "x = Ok () \<or> x = Err DatagramAllocation"
      using register_outbound_ok[OF res(3) fresh(1,3) reg(1-4) False reg(5), of "tu_reserve tu"] by blast
    let ?d = "d\<lparr>cd_datagram := dg\<rparr>"
    have new: "resources_ok io rlog lim c0 (?d, ep)" "phase_ok ?d" "active_ready ?d"
      using res x(2,3) ready by (simp_all add: resources_ok_def phase_ok_def active_ready_def)
    have fail: "turn_ok io rlog lim c0 (finish_data_failure (op_quinn io) (tu_flow tu) ?d ep
        (classify_resource_failure (cd_flow_control d) (ff_flow_id flow)) (DriverDatagram DatagramAllocation))"
      by (rule finish_data_failure_ok[OF new(1,3)]) (simp_all add: new(2) other_dispositions_ok self_inflicted_def)
    have "outbound_transport_owner (ff_mode flow) = OwnerDatagram"
      using False by (cases "ff_mode flow") (simp_all add: outbound_transport_owner_def)
    then show ?thesis
      using x(1,4) new fail act by (auto simp: route_outbound_established_def driver_ok_def)
  qed
qed

lemma process_received_frame_ok:
  assumes res: "resources_ok io rlog lim c0 (d, ep)" and ready: "active_ready d" and r: "cr_io_state r = Clean"
    and parts: "ri_accept (cd_reliable d) \<noteq> None" "di_receive (cd_datagram d) \<noteq> None"
    and frame: "\<not> (cf_type frame = OpenFlowType \<and> fn_pending_inbound (cd_flow_control d) \<noteq> None)"
  shows "turn_ok io rlog lim c0 (process_received_frame io tu d ep r frame)"
proof -
  let ?c = "cd_flow_control d"
  have c: "flow_control_ok ?c" "endpoint_ok lim ep" "same_config c0 ?c" and act: "cd_phase d = DriverActive"
    and rel: "reliable_ok (op_alloc io) rlog (cd_reliable d) ?c" "datagram_ok (cd_datagram d) ?c"
    using res ready by (simp_all add: resources_ok_def flow_pair_ok_def active_ready_def)
  obtain x c' ep' where x: "flow_control_receive (tu_flow tu) ?c ep frame = Some (x, c', ep')" "flow_control_ok c'"
    "endpoint_ok lim ep'" "receive_effect ?c ep x c' ep'"
    using receive_frame_total[OF c(1,2)] by blast
  have quiet: "quiet_ids ?c c'" "\<forall>i. x \<noteq> Err (InboundDecisionPending i)"
    "\<forall>p f. x = Ok p \<longrightarrow> progress_frame p = Some f \<longrightarrow> reply_type (cf_type f)"
    using outcomesD[OF receive_progresses[OF frame] x(1)] by simp_all
  let ?d = "d\<lparr>cd_flow_control := c'\<rparr>"
  let ?p = "?d\<lparr>cd_receiver := ControlReceivePending r\<rparr>"
  have new: "resources_ok io rlog lim c0 (?d, ep')"
    using flow_pair_okI[OF x(2,3) c(3) receive_config[OF x(1)]] reliable_ok_quiet[OF quiet(1) rel(1)]
      datagram_ok_quiet[OF quiet(1) rel(2)] by (simp add: resources_ok_def)
  have pok: "driver_ok io rlog lim c0 (?p, ep')" and pready: "active_ready ?p"
    using new ready parts r
    by (auto simp: driver_ok_def phase_ok_def active_ready_def sender_live_def receiver_live_def)
  have over: "driver_ok io rlog lim c0 (enter_terminal (op_quinn io) (?d\<lparr>cd_quinn := q, cd_receiver := ControlReceiveTerminal\<rparr>) None, ep')" for q
    by (rule enter_terminal_ok) (simp_all add: new act)
  have start: "turn_ok io rlog lim c0 (route_flow_control_progress io tu ?p ep' (DriverPendingSend s))"
    if s: "reply_type (cf_type (ps_frame s))" for s
  proof -
    have "cf_type (ps_frame s) \<noteq> SettingsType" using s by (auto simp: reply_type_def)
    then obtain d' where "start_prepared_send (op_quinn io) ?p s = (Ok (), d')" "driver_ok io rlog lim c0 (d', ep')"
      "cd_phase d' = DriverActive"
      using start_prepared_send_ok[OF pready pok] by blast
    then show ?thesis by (simp add: route_flow_control_progress_def)
  qed
  have route: "turn_ok io rlog lim c0 (route_flow_control_progress io tu ?p ep' (driver_progress p))" if p: "x = Ok p" for p
  proof (cases p)
    case (OutboundEstablished flow)
    then have est: "established_outbound ?c ep flow c' ep'" using x(4) p by (simp add: receive_effect_def)
    note fresh = established_fresh[OF c(1) x(2) quiet(1) est]
    obtain f where f: "lookup_flow (fn_registry c') (ff_flow_id flow) = Some f" "rf_key f = ff_key flow"
      "rf_mode f = ff_mode flow" "rf_max_message_bytes f = ff_max_message_bytes flow"
      using fresh(4) by blast
    have "turn_ok io rlog lim c0 (route_outbound_established io tu ?p ep' flow)"
      by (rule route_outbound_established_ok[OF pok pready, of flow f])
        (use fresh f rel in \<open>auto simp: reliable_ok_def datagram_ok_def\<close>)
    then show ?thesis using OutboundEstablished by (simp add: driver_progress_def route_flow_control_progress_def)
  next
    case (InboundRejected i y f)
    then show ?thesis using start quiet(3) p by (simp add: driver_progress_def progress_frame_def)
  next
    case (OutboundFailedAfterAccept i key y t f)
    then show ?thesis using start quiet(3) p by (simp add: driver_progress_def progress_frame_def)
  qed (use pok act in \<open>simp_all add: driver_progress_def route_flow_control_progress_def\<close>)
  show ?thesis
    using x(1) quiet(2) over route
    by (cases x) (auto simp: process_received_frame_def process_received_def Let_def self_inflicted_def)
qed

lemma poll_control_receive_ok:
  assumes ok: "driver_ok io rlog lim c0 (d, ep)" and act: "cd_phase d = DriverActive"
  shows "turn_ok io rlog lim c0 (poll_control_receive io tu d ep)"
proof (cases "cd_receiver d = ControlReceiveTerminal")
  case True
  then show ?thesis using ok act by (simp add: poll_control_receive_def)
next
  case False
  then have live: "sender_live (cd_sender d)" "receiver_live (cd_receiver d)"
    and parts: "ri_accept (cd_reliable d) \<noteq> None" "di_receive (cd_datagram d) \<noteq> None"
    and res: "resources_ok io rlog lim c0 (d, ep)"
    using ok act by (auto simp: driver_ok_def phase_ok_def)
  have process: "turn_ok io rlog lim c0 (process_received_frame io tu d' ep r f)"
    if "\<not> must_defer d f" "cr_io_state r = Clean" "d' = d \<or> d' = d\<lparr>cd_receiver := ControlReceiveTerminal\<rparr>" for d' r f
  proof -
    have "send_phase (cd_sender d) = SendPhaseReady"
      "\<not> (cf_type f = OpenFlowType \<and> fn_pending_inbound (cd_flow_control d) \<noteq> None)"
      using that(1) by (auto simp: must_defer_def should_defer_received_frame_def)
    then show ?thesis
      using that(2,3) res parts act live(1)
      by (intro process_received_frame_ok)
        (auto simp: active_ready_def send_phase_def sender_live_def split: control_send_state.splits)
  qed
  show ?thesis
  proof (cases "cd_receiver d")
    case (ControlReceiveDeferred r f)
    then have "cr_io_state r = Clean" using live(2) by (simp add: receiver_live_def)
    then show ?thesis using ControlReceiveDeferred ok act process by (simp add: poll_control_receive_def)
  next
    case (ControlReceivePending r)
    then have r: "cr_io_state r = Clean" using live(2) by (simp add: receiver_live_def)
    obtain x r' where x: "receive_frame (op_alloc io) (op_recv io) r = (x, r')" by fastforce
    note clean = receive_frame_clean[OF r x]
    have over: "driver_ok io rlog lim c0 (enter_terminal (op_quinn io) (d\<lparr>cd_quinn := q, cd_receiver := ControlReceiveTerminal\<rparr>) None, ep)" for q
      by (rule enter_terminal_ok) (simp_all add: res act)
    have hold: "driver_ok io rlog lim c0 (d\<lparr>cd_receiver := ControlReceiveDeferred r' f\<rparr>, ep)" if "cr_io_state r' = Clean" for f
      using that res act live(1) parts by (simp add: driver_ok_def phase_ok_def receiver_live_def)
    show ?thesis
      using ControlReceivePending x clean ok over hold process act
      by (auto simp: poll_control_receive_def poll_receive_future_def self_inflicted_def split: awaited.split result.split)
  qed (use False in simp)
qed

end
