(* ===== verification/Driver_Polls.thy ===== *)
theory Driver_Polls
  imports Driver_Receives
begin

text \<open>
  The data categories, a round over all categories and a whole poll.
\<close>

section \<open>Streams and datagrams\<close>

lemma streams_resources:
  assumes "resources_ok io rlog lim c0 (d, ep)"
    and "streams_ok (op_alloc io) rlog lim c0 a (cd_flow_control d) rel ep' c"
  shows "resources_ok io rlog lim c0 (d\<lparr>cd_reliable := rel, cd_flow_control := c\<rparr>, ep')"
  using assms by (auto simp: resources_ok_def streams_ok_def dest: datagram_ok_quiet)

lemma resources_streams:
  "resources_ok io rlog lim c0 (d, ep) \<Longrightarrow>
     streams_ok (op_alloc io) rlog lim c0 (ri_accept (cd_reliable d)) (cd_flow_control d) (cd_reliable d) ep (cd_flow_control d)"
  by (simp add: resources_ok_def streams_ok_def)

lemma active_ready_upds [simp]:
  "active_ready (d\<lparr>cd_reliable := rel\<rparr>) = active_ready d" "active_ready (d\<lparr>cd_datagram := dg\<rparr>) = active_ready d"
  "active_ready (d\<lparr>cd_flow_control := c\<rparr>) = active_ready d" "active_ready (d\<lparr>cd_quinn := q\<rparr>) = active_ready d"
  "active_ready (d\<lparr>cd_reliable := rel, cd_flow_control := c\<rparr>) = active_ready d"
  by (simp_all add: active_ready_def)

lemma active_readyD: "active_ready d \<Longrightarrow> cd_phase d = DriverActive"
  by (simp add: active_ready_def)

lemma poll_reliable_outbound_acquisition_ok:
  fixes d :: "('q, 'w, 'f, 'r) connection_driver"
  assumes ok: "driver_ok io rlog lim c0 (d, ep)" and ready: "active_ready d"
  shows "turn_ok io rlog lim c0 (poll_reliable_outbound_acquisition io tu d ep)"
proof -
  have res: "resources_ok io rlog lim c0 (d, ep)" "phase_ok d" using ok by (simp_all add: driver_ok_def)
  obtain x and rel :: "('q, 'w, 'f, 'r) reliable_io" and c where
    x: "poll_outbound_acquisition (op_quinn io) (cd_reliable d, cd_flow_control d) = Some (x, rel, c)"
    "streams_ok (op_alloc io) rlog lim c0 (ri_accept (cd_reliable d)) (cd_flow_control d) rel ep c"
    "\<forall>e. x = Ready (Err e) \<longrightarrow> (\<exists>i s. e = OutboundAcquisitionBinding i s) \<or> (\<exists>y. e = ReliableConnection y)"
    using poll_outbound_acquisition_ok[OF resources_streams[OF res(1)], of "op_quinn io"] by blast
  let ?d = "d\<lparr>cd_reliable := rel, cd_flow_control := c\<rparr>"
  have new: "resources_ok io rlog lim c0 (?d, ep)" "phase_ok ?d"
    using streams_resources[OF res(1) x(2)] res(2) x(2) by (simp_all add: streams_ok_def)
  have fail: "turn_ok io rlog lim c0 (finish_data_failure (op_quinn io) (tu_flow tu) ?d ep (classify_outbound_acquisition c i e)
      (DriverReliable (OutboundAcquisitionBinding i e)))" for i e
    by (rule finish_data_failure_ok[OF new(1)])
      (use new(2) ready in \<open>simp_all add: acquisition_disposition_ok self_inflicted_def\<close>)
  have over: "turn_ok io rlog lim c0 (terminal_step (op_quinn io) ?d ep (DriverReliable (ReliableConnection y)))" for y
    by (rule terminal_step_ok[OF new(1)]) (use ready in \<open>simp_all add: active_readyD self_inflicted_def\<close>)
  show ?thesis
    using x(1,3) new fail over active_readyD[OF ready]
    by (auto simp: poll_reliable_outbound_acquisition_def Let_def driver_ok_def split: poll.split result.split)
qed

lemma poll_reliable_inbound_acquisition_ok:
  fixes d :: "('q, 'w, 'f, 'r) connection_driver"
  assumes ok: "driver_ok io rlog lim c0 (d, ep)" and ready: "active_ready d" and law: "driver_law io rlog"
  shows "turn_ok io rlog lim c0 (poll_reliable_inbound_acquisition io tu d ep)"
proof -
  have res: "resources_ok io rlog lim c0 (d, ep)" "phase_ok d" "ri_accept (cd_reliable d) \<noteq> None"
    using ok active_readyD[OF ready] by (simp_all add: driver_ok_def phase_ok_def)
  have fresh: "\<forall>q r q'. qn_poll_accept_uni (op_quinn io) q = (Ready (Ok r), q') \<longrightarrow> rlog r = []"
    using law by (simp add: driver_law_def)
  obtain x a and rel :: "('q, 'w, 'f, 'r) reliable_io" where
    x: "poll_inbound_acquisition (tu_reserve tu) (tu_scratch tu) (op_quinn io) (op_reader io) (cd_reliable d) (cd_quinn d) = (x, rel)"
    "streams_ok (op_alloc io) rlog lim c0 a (cd_flow_control d) rel ep (cd_flow_control d)"
    "case x of Ready (Err (ReliableConnection _)) \<Rightarrow> True | _ \<Rightarrow> a \<noteq> None" "\<forall>e. x \<noteq> Ready (Err (ReliableState e))"
    using poll_inbound_acquisition_ok[OF resources_streams[OF res(1)] res(3) fresh] by blast
  let ?d = "d\<lparr>cd_reliable := rel\<rparr>"
  have new: "resources_ok io rlog lim c0 (?d, ep)" using streams_resources[OF res(1) x(2)] by simp
  have alive: "phase_ok ?d" if "\<forall>y. x \<noteq> Ready (Err (ReliableConnection y))"
  proof -
    have "a \<noteq> None" using x(3) that by (auto split: poll.splits result.splits reliable_io_error.splits)
    then show ?thesis using res(2) x(2) by (auto simp: phase_ok_def streams_ok_def split: driver_phase.splits)
  qed
  have fail: "turn_ok io rlog lim c0 (dispose (op_quinn io) (tu_flow tu) ?d ep (inbound_acquisition_disposition e) (DriverReliable e))"
    if e: "x = Ready (Err e)" for e
  proof -
    have quiet: "\<not> self_inflicted (DriverReliable e)" using x(4) e by (auto simp: self_inflicted_def)
    have step: "turn_ok io rlog lim c0 (terminal_step (op_quinn io) ?d ep (DriverReliable e))"
      by (rule terminal_step_ok[OF new _ quiet]) (use ready in \<open>simp add: active_readyD\<close>)
    have "turn_ok io rlog lim c0 (finish_data_failure (op_quinn io) (tu_flow tu) ?d ep y (DriverReliable e))"
      if y: "inbound_acquisition_disposition e = Some y" for y
    proof -
      obtain code where "y = ConnectionTerminal code" using acquisition_disposition_ok(2)[OF y] by blast
      then show ?thesis
        by (intro finish_data_failure_ok[OF new]) (use ready quiet in \<open>simp_all add: other_dispositions_ok\<close>)
    qed
    then show ?thesis using step by (auto simp: dispose_def split: option.split)
  qed
  show ?thesis
    using x(1) new alive fail active_readyD[OF ready]
    by (auto simp: poll_reliable_inbound_acquisition_def Let_def driver_ok_def split: poll.split result.split)
qed

lemma reliable_polled_ok:
  assumes new: "resources_ok io rlog lim c0 (d, ep)" "phase_ok d" and ready: "active_ready d"
    and e: "\<forall>e. x = Ready (Err e) \<longrightarrow> active_error_ok e"
    and disp: "\<And>e y. active_error_ok e \<Longrightarrow> disposition (cd_flow_control d) e = Some y \<Longrightarrow> disposition_ok (cd_flow_control d) y"
  shows "turn_ok io rlog lim c0 (reliable_polled (op_quinn io) al disposition d ep x)"
proof -
  have fail: "turn_ok io rlog lim c0 (terminal_step (op_quinn io) d ep (DriverReliable e))"
    "disposition (cd_flow_control d) e = Some y \<Longrightarrow>
       turn_ok io rlog lim c0 (finish_data_failure (op_quinn io) al d ep y (DriverReliable e))"
    if a: "active_error_ok e" for e y
  proof -
    have quiet: "\<not> self_inflicted (DriverReliable e)" using a by (auto simp: active_error_ok_def self_inflicted_def)
    show "turn_ok io rlog lim c0 (terminal_step (op_quinn io) d ep (DriverReliable e))"
      by (rule terminal_step_ok[OF new(1) active_readyD[OF ready] quiet])
    show "turn_ok io rlog lim c0 (finish_data_failure (op_quinn io) al d ep y (DriverReliable e))"
      if "disposition (cd_flow_control d) e = Some y"
      by (rule finish_data_failure_ok[OF new(1) ready _ disp[OF a that] quiet]) (simp add: new(2))
  qed
  then show ?thesis
    using new e active_readyD[OF ready] by (auto simp: reliable_polled_def dispose_def driver_ok_def split: poll.split result.split option.split)
qed

lemma poll_reliable_outbound_ok:
  fixes d :: "('q, 'w, 'f, 'r) connection_driver"
  assumes ok: "driver_ok io rlog lim c0 (d, ep)" and ready: "active_ready d"
  shows "turn_ok io rlog lim c0 (poll_reliable_outbound io tu d ep)"
proof -
  have res: "resources_ok io rlog lim c0 (d, ep)" "phase_ok d" using ok by (simp_all add: driver_ok_def)
  obtain x and rel :: "('q, 'w, 'f, 'r) reliable_io" and ep' c where
    x: "poll_outbound_binding (op_writer io) (cd_reliable d, ep, cd_flow_control d) = Some (x, rel, ep', c)"
    "streams_ok (op_alloc io) rlog lim c0 (ri_accept (cd_reliable d)) (cd_flow_control d) rel ep' c"
    "\<forall>e. x = Ready (Err e) \<longrightarrow> active_error_ok e"
    using poll_outbound_binding_ok[OF resources_streams[OF res(1)], of "op_writer io"] by blast
  have "turn_ok io rlog lim c0 (reliable_polled (op_quinn io) (tu_flow tu) outbound_active_disposition
      (d\<lparr>cd_reliable := rel, cd_flow_control := c\<rparr>) ep' x)"
    by (rule reliable_polled_ok[OF streams_resources[OF res(1) x(2)]])
      (use x(2,3) ready res(2) in \<open>auto simp: streams_ok_def dest: active_disposition_ok\<close>)
  then show ?thesis using x(1) by (simp add: poll_reliable_outbound_def)
qed

lemma poll_reliable_inbound_ok:
  fixes d :: "('q, 'w, 'f, 'r) connection_driver"
  assumes ok: "driver_ok io rlog lim c0 (d, ep)" and ready: "active_ready d" and law: "driver_law io rlog"
  shows "turn_ok io rlog lim c0 (poll_reliable_inbound io tu d ep)"
proof -
  have res: "resources_ok io rlog lim c0 (d, ep)" "phase_ok d" using ok by (simp_all add: driver_ok_def)
  have rd: "stream_reader (op_reader io) rlog" using law by (simp add: driver_law_def)
  obtain x and rel :: "('q, 'w, 'f, 'r) reliable_io" and ep' c where
    x: "poll_inbound_binding (op_alloc io) (op_reader io) (cd_reliable d, ep, cd_flow_control d) = Some (x, rel, ep', c)"
    "streams_ok (op_alloc io) rlog lim c0 (ri_accept (cd_reliable d)) (cd_flow_control d) rel ep' c"
    "\<forall>e. x = Ready (Err e) \<longrightarrow> active_error_ok e"
    using poll_inbound_binding_ok[OF rd resources_streams[OF res(1)]] by blast
  have "turn_ok io rlog lim c0 (reliable_polled (op_quinn io) (tu_flow tu) inbound_active_disposition
      (d\<lparr>cd_reliable := rel, cd_flow_control := c\<rparr>) ep' x)"
    by (rule reliable_polled_ok[OF streams_resources[OF res(1) x(2)]])
      (use x(2,3) ready res(2) in \<open>auto simp: streams_ok_def dest: active_disposition_ok\<close>)
  then show ?thesis using x(1) by (simp add: poll_reliable_inbound_def)
qed

lemma drive_datagram_outbound_ok:
  assumes ok: "driver_ok io rlog lim c0 (d, ep)" and ready: "active_ready d"
  shows "turn_ok io rlog lim c0 (drive_datagram_outbound io tu d ep)"
proof -
  have res: "flow_pair_ok lim c0 (cd_flow_control d, ep)" "reliable_ok (op_alloc io) rlog (cd_reliable d) (cd_flow_control d)"
    "datagram_ok (cd_datagram d) (cd_flow_control d)" "phase_ok d" "endpoint_ok lim ep"
    using ok by (simp_all add: driver_ok_def resources_ok_def flow_pair_ok_def)
  obtain x dg ep' where x: "drive_outbound (op_alloc io) (op_datagram io) (cd_flow_control d) (cd_datagram d, ep) = Some (x, dg, ep')"
    "datagram_ok dg (cd_flow_control d)" "endpoint_ok lim ep'" "di_receive dg = di_receive (cd_datagram d)"
    "\<forall>e. x = Err e \<longrightarrow> (\<exists>i s. e = DatagramSend i s)"
    using drive_outbound_ok[OF res(3,5)] by blast
  let ?d = "d\<lparr>cd_datagram := dg\<rparr>"
  have new: "resources_ok io rlog lim c0 (?d, ep')" "phase_ok ?d"
    using res x(2-4) by (simp_all add: resources_ok_def flow_pair_ok_def)
  have fail: "turn_ok io rlog lim c0 (finish_data_failure (op_quinn io) (tu_flow tu) ?d ep'
      (classify_datagram_send (cd_flow_control d) i e) (DriverDatagram (DatagramSend i e)))" for i e
    by (rule finish_data_failure_ok[OF new(1)])
      (use new(2) ready in \<open>simp_all add: other_dispositions_ok self_inflicted_def\<close>)
  show ?thesis
    using x(1,5) new fail active_readyD[OF ready]
    by (auto simp: drive_datagram_outbound_def Let_def driver_ok_def split: result.split option.split)
qed

lemma receive_datagram_safe:
  assumes "endpoint_ok lim ep"
  shows "\<exists>x ep'. receive_datagram alloc ep g d = Some (x, ep') \<and> endpoint_ok lim ep'"
proof -
  have "\<exists>y ep'. (do { (x, ep) \<leftarrow> receive_transport_payload ep key idx payload;
      Some (case x of Err e \<Rightarrow> (Err (f e), ep) | Ok out \<Rightarrow> (Ok (g out), ep)) }) = Some (y, ep') \<and> endpoint_ok lim ep'"
    for f :: "delivery_operation_error \<Rightarrow> datagram_receive_failure" and g :: "receive_outcome \<Rightarrow> datagram_receive_outcome"
      and key idx payload
  proof -
    obtain r ep' where "receive_transport_payload ep key idx payload = Some (r, ep')" "endpoint_ok lim ep'"
      using receive_transport_payload_total[OF assms] by blast
    then show ?thesis by (cases r) simp_all
  qed
  then show ?thesis
    using assms by (auto simp: receive_datagram_def Let_def split: result.split option.split)
qed

lemma poll_datagram_inbound_ok:
  assumes ok: "driver_ok io rlog lim c0 (d, ep)" and ready: "active_ready d"
  shows "turn_ok io rlog lim c0 (poll_datagram_inbound io tu d ep)"
proof -
  have res: "flow_pair_ok lim c0 (cd_flow_control d, ep)" "reliable_ok (op_alloc io) rlog (cd_reliable d) (cd_flow_control d)"
    "datagram_ok (cd_datagram d) (cd_flow_control d)" "phase_ok d" "endpoint_ok lim ep" "cd_phase d = DriverActive"
    using ok active_readyD[OF ready] by (simp_all add: driver_ok_def resources_ok_def flow_pair_ok_def)
  then obtain q where q: "di_receive (cd_datagram d) = Some q" by (auto simp: phase_ok_def)
  have new: "resources_ok io rlog lim c0 (d\<lparr>cd_datagram := (cd_datagram d)\<lparr>di_receive := r\<rparr>\<rparr>, ep')" if "endpoint_ok lim ep'" for r ep'
    using res that by (simp add: resources_ok_def flow_pair_ok_def)
  have phase: "phase_ok (d\<lparr>cd_datagram := (cd_datagram d)\<lparr>di_receive := Some r\<rparr>\<rparr>)" for r
    using res(4) by (auto simp: phase_ok_def split: driver_phase.splits)
  have over: "turn_ok io rlog lim c0 (terminal_step (op_quinn io) (d\<lparr>cd_datagram := (cd_datagram d)\<lparr>di_receive := r\<rparr>\<rparr>) ep
      (DriverDatagram (DatagramConnection e)))" for r e
    by (rule terminal_step_ok[OF new[OF res(5)]]) (simp_all add: res(6) self_inflicted_def)
  obtain y q' where y: "qn_poll_read_datagram (op_quinn io) q = (y, q')" by fastforce
  show ?thesis
  proof (cases "\<exists>dgram. y = Ready (Ok dgram)")
    case False
    then show ?thesis
      using q y new[OF res(5)] phase over res(6)
      by (auto simp: poll_datagram_inbound_def poll_inbound_datagram_def Let_def driver_ok_def split: poll.split result.split)
  next
    case True
    then obtain dgram where dgram: "y = Ready (Ok dgram)" by blast
    obtain x ep' where x: "receive_datagram (op_alloc io) ep (fn_registry (cd_flow_control d)) dgram = Some (x, ep')"
      "endpoint_ok lim ep'"
      using receive_datagram_safe[OF res(5)] by blast
    let ?d = "d\<lparr>cd_datagram := (cd_datagram d)\<lparr>di_receive := Some (cd_quinn d)\<rparr>\<rparr>"
    have fail: "\<exists>z. classify_datagram_receive (cd_flow_control d) f = Some z
        \<and> turn_ok io rlog lim c0 (finish_data_failure (op_quinn io) (tu_flow tu) ?d ep' z (DriverDatagram (DatagramReceive f)))" for f
    proof -
      obtain z where z: "classify_datagram_receive (cd_flow_control d) f = Some z" "disposition_ok (cd_flow_control d) z"
        using datagram_receive_disposition by blast
      have "turn_ok io rlog lim c0 (finish_data_failure (op_quinn io) (tu_flow tu) ?d ep' z (DriverDatagram (DatagramReceive f)))"
        by (rule finish_data_failure_ok[OF new[OF x(2)]]) (use z(2) ready phase in \<open>simp_all add: self_inflicted_def\<close>)
      with z(1) show ?thesis by blast
    qed
    show ?thesis
    proof (cases x)
      case (Ok out)
      then show ?thesis
        using q y dgram x(1) new[OF x(2)] phase res(6)
        by (simp add: poll_datagram_inbound_def poll_inbound_datagram_def driver_ok_def)
    next
      case (Err f)
      obtain z where "classify_datagram_receive (cd_flow_control d) f = Some z"
        "turn_ok io rlog lim c0 (finish_data_failure (op_quinn io) (tu_flow tu) ?d ep' z (DriverDatagram (DatagramReceive f)))"
        using fail by blast
      then show ?thesis
        using q y dgram x(1) Err by (simp add: poll_datagram_inbound_def poll_inbound_datagram_def)
    qed
  qed
qed

section \<open>Rounds and polls\<close>

lemma poll_category_ok:
  assumes ok: "driver_ok io rlog lim c0 (d, ep)" and act: "cd_phase d = DriverActive" and law: "driver_law io rlog"
    and i: "i < DRIVER_CATEGORY_COUNT"
  shows "turn_ok io rlog lim c0 (poll_category io tu closing d ep i)"
proof (cases "2 \<le> i \<and> data_poll_allowed d")
  case True
  have ready: "active_ready d" using ready_allowed[of d] True ok by (simp add: driver_ok_def)
  have "i = 2 \<or> i = 3 \<or> i = 4 \<or> i = 5 \<or> i = 6 \<or> i = 7"
    using i True by (auto simp: DRIVER_CATEGORY_COUNT_def)
  then show ?thesis
    using True poll_reliable_outbound_acquisition_ok[OF ok ready] poll_reliable_inbound_acquisition_ok[OF ok ready law]
      poll_reliable_outbound_ok[OF ok ready] poll_reliable_inbound_ok[OF ok ready law]
      drive_datagram_outbound_ok[OF ok ready] poll_datagram_inbound_ok[OF ok ready]
    by (auto simp: poll_category_def poll_data_category_def)
next
  case False
  then show ?thesis
    using i ok act poll_control_send_ok[OF ok act] poll_control_receive_ok[OF ok act]
    by (auto simp: poll_category_def DRIVER_CATEGORY_COUNT_def)
qed

lemma driver_ok_cursor [simp]:
  "driver_ok io rlog lim c0 (d\<lparr>cd_poll_cursor := n\<rparr>, ep) = driver_ok io rlog lim c0 (d, ep)"
  "driver_ok io rlog lim c0 (d\<lparr>cd_quinn := q\<rparr>, ep) = driver_ok io rlog lim c0 (d, ep)"
  by (simp_all add: driver_ok_def)

text \<open>What the results of a round and of a poll promise.\<close>

definition result_good ::
  "(connection_progress, driver_error) result \<Rightarrow> ('q, 'w, 'f, 'r) connection_driver \<Rightarrow> bool" where
  "result_good x d \<longleftrightarrow>
     (case x of Ok _ \<Rightarrow> cd_phase d = DriverActive | Err e \<Rightarrow> \<not> self_inflicted e \<and> cd_phase d = DriverTerminal)"

lemma step_outcome_good:
  "step_good x d \<Longrightarrow> (case step_outcome x of None \<Rightarrow> cd_phase d = DriverActive | Some r \<Rightarrow> result_good r d)"
  by (cases x) (simp_all add: step_outcome_def result_good_def)

lemma result_good_cursor [simp]: "result_good x (d\<lparr>cd_poll_cursor := n\<rparr>) = result_good x d"
  by (simp add: result_good_def split: result.split)

definition poll_good :: "(connection_progress, driver_error) result poll \<Rightarrow> ('q, 'w, 'f, 'r) connection_driver \<Rightarrow> bool" where
  "poll_good x d \<longleftrightarrow> (case x of Pending \<Rightarrow> cd_phase d = DriverActive | Ready r \<Rightarrow> result_good r d)"

lemma poll_round_ok:
  fixes d :: "('q, 'w, 'f, 'r) connection_driver"
  assumes ok: "driver_ok io rlog lim c0 (d, ep)" and act: "cd_phase d = DriverActive" and law: "driver_law io rlog"
  shows "\<exists>x d' ep'. poll_round io tu closing d ep = Some (x, d', ep') \<and> driver_ok io rlog lim c0 (d', ep')
    \<and> poll_good x d'"
proof -
  define P where "P = (\<lambda>s :: ('q, 'w, 'f, 'r) connection_driver \<times> delivery_endpoint.
      driver_ok io rlog lim c0 s \<and> cd_phase (fst s) = DriverActive)"
  define Q where "Q = (\<lambda>(x :: (connection_progress, driver_error) result)
      (s :: ('q, 'w, 'f, 'r) connection_driver \<times> delivery_endpoint). driver_ok io rlog lim c0 s \<and> result_good x (fst s))"
  have step: "\<exists>r s'. poll_round_at io tu closing s i = Some (r, s') \<and> (case r of None \<Rightarrow> P s' | Some x \<Rightarrow> Q x s')"
    if i: "i < DRIVER_CATEGORY_COUNT" and s: "P s" for s i
  proof -
    have s': "driver_ok io rlog lim c0 (fst s, snd s)" "cd_phase (fst s) = DriverActive" using s by (simp_all add: P_def)
    obtain x d' ep' where x: "poll_category io tu closing (fst s) (snd s) i = Some (x, d', ep')"
      "driver_ok io rlog lim c0 (d', ep')" "step_good x d'"
      using poll_category_ok[OF s' law i] unfolding turn_ok_def by blast
    show ?thesis
      using x(1,2) step_outcome_good[OF x(3)]
      by (cases "step_outcome x") (auto simp: poll_round_at_def P_def Q_def)
  qed
  have start: "P (d, ep)" using ok act by (simp add: P_def)
  obtain r s' where r: "poll_each (poll_round_at io tu closing) (ring (cd_poll_cursor d mod DRIVER_CATEGORY_COUNT)
      DRIVER_CATEGORY_COUNT) (d, ep) = Some (r, s')"
    "case r of None \<Rightarrow> P s' | Some x \<Rightarrow> Q x s'"
    by (rule poll_ring_good[of P, OF start step])
  then show ?thesis
    by (cases s'; cases r) (auto simp: poll_round_def P_def Q_def Let_def poll_good_def)
qed

lemma driver_poll_step_ok:
  assumes ok: "driver_ok io rlog lim c0 (d, ep)" and act: "cd_phase d = DriverActive" and law: "driver_law io rlog"
  shows "\<exists>x d' ep'. driver_poll_step io tu d ep = Some (x, d', ep') \<and> driver_ok io rlog lim c0 (d', ep') \<and> poll_good x d'"
proof -
  obtain reason q where q: "qn_close_reason (op_quinn io) (cd_quinn d) = (reason, q)" by fastforce
  let ?d = "d\<lparr>cd_quinn := q\<rparr>"
  have ok': "driver_ok io rlog lim c0 (?d, ep)" "cd_phase ?d = DriverActive" using ok act by simp_all
  show ?thesis
  proof (cases "reason = Some (ApplicationClosed (ucast (code_wire NoError)))")
    case True
    obtain x d' ep' where x: "poll_control_receive io tu ?d ep = Some (x, d', ep')" "driver_ok io rlog lim c0 (d', ep')"
      "step_good x d'"
      using poll_control_receive_ok[OF ok'] unfolding turn_ok_def by blast
    note start = driver_poll_step_def[of io tu d ep, unfolded act peer_no_error_close_observed_def q]
    show ?thesis
    proof (cases "step_outcome x")
      case None
      then have "cd_phase d' = DriverActive" using step_outcome_good[OF x(3)] by simp
      then obtain y d2 ep2 where y: "poll_round io tu True d' ep' = Some (y, d2, ep2)" "driver_ok io rlog lim c0 (d2, ep2)"
        "poll_good y d2"
        using poll_round_ok[OF x(2) _ law] by blast
      then show ?thesis using True x(1) None by (simp add: start)
    next
      case (Some r)
      then show ?thesis using True x step_outcome_good[OF x(3)] by (simp add: start poll_good_def)
    qed
  next
    case False
    obtain y d2 ep2 where y: "poll_round io tu False ?d ep = Some (y, d2, ep2)" "driver_ok io rlog lim c0 (d2, ep2)"
      "poll_good y d2"
      using poll_round_ok[OF ok' law] by blast
    then show ?thesis
      using False act q by (simp add: driver_poll_step_def peer_no_error_close_observed_def)
  qed
qed

end
