(* ===== verification/Driver_Calls.thy ===== *)
theory Driver_Calls
  imports Driver_Polls
begin

text \<open>
  What a host may ask of a driver keeps its invariant, so does every change of the core endpoint that
  it shares; the driver as a machine.
\<close>

definition call_ok ::
  "('q, 'w, 'f, 'r) driver_ops \<Rightarrow> ('r \<Rightarrow> bytes) \<Rightarrow> delivery_scope_limits \<Rightarrow> flow_control \<Rightarrow>
     ('a \<times> ('q, 'w, 'f, 'r) connection_driver \<times> delivery_endpoint) exec \<Rightarrow> bool" where
  "call_ok io rlog lim c0 m \<longleftrightarrow> (\<exists>x d ep. m = Some (x, d, ep) \<and> driver_ok io rlog lim c0 (d, ep))"

lemma call_ok_Some [simp]: "call_ok io rlog lim c0 (Some (x, d, ep)) \<longleftrightarrow> driver_ok io rlog lim c0 (d, ep)"
  by (simp add: call_ok_def)

lemma call_ok_state: "call_ok io rlog lim c0 m \<Longrightarrow> \<exists>s'. map_option snd m = Some s' \<and> driver_ok io rlog lim c0 s'"
  by (auto simp: call_ok_def)

lemma call_ok_map: "call_ok io rlog lim c0 m \<Longrightarrow>
    call_ok io rlog lim c0 (do { (x, d, ep) \<leftarrow> m; Some (g x, d, ep) })"
  by (auto simp: call_ok_def)

lemma reliable_ok_answered:
  "(\<And>i. answered c i \<Longrightarrow> answered c' i) \<Longrightarrow> reliable_ok alloc rlog io c \<Longrightarrow> reliable_ok alloc rlog io c'"
  by (auto simp: reliable_ok_def)

lemma datagram_ok_answered:
  "(\<And>i. answered c i \<Longrightarrow> answered c' i) \<Longrightarrow> datagram_ok io c \<Longrightarrow> datagram_ok io c'"
  by (auto simp: datagram_ok_def)

text \<open>A change of the flow control by which no identifier of the driver comes to wait for an answer.\<close>

lemma driver_flow_control_ok:
  assumes "driver_ok io rlog lim c0 (d, ep)" "flow_pair_ok lim c0 (c, ep')"
    and "\<And>i. answered (cd_flow_control d) i \<Longrightarrow> answered c i"
  shows "driver_ok io rlog lim c0 (d\<lparr>cd_flow_control := c\<rparr>, ep')"
  using assms(1,2)
  by (auto simp: driver_ok_def resources_ok_def intro: reliable_ok_answered[OF assms(3)] datagram_ok_answered[OF assms(3)])

lemma prepared_send_ok:
  "active_ready d \<Longrightarrow> driver_ok io rlog lim c0 (d, ep) \<Longrightarrow> cf_type (ps_frame p) \<noteq> SettingsType \<Longrightarrow>
     start_prepared_send qo d p = (x, d') \<Longrightarrow> x = Ok () \<and> driver_ok io rlog lim c0 (d', ep)"
  using start_prepared_send_ok[of d io rlog lim c0 ep p qo] by auto

lemma enter_terminal_keeps: "driver_ok io rlog lim c0 (d, ep) \<Longrightarrow> driver_ok io rlog lim c0 (enter_terminal qo d code, ep)"
  by (cases "cd_phase d") (simp_all add: enter_terminal_ok driver_ok_def[of _ _ _ _ "(d, ep)"] , simp add: enter_terminal_def driver_ok_def)

lemma driver_open_outbound_ok:
  assumes ok: "driver_ok io rlog lim c0 (d, ep)"
  shows "call_ok io rlog lim c0 (driver_open_outbound io tu d ep q)"
proof (cases "require_control_send_ready d")
  case (Err e)
  then show ?thesis using ok by (simp add: driver_open_outbound_def)
next
  case (Ok u)
  have ready: "active_ready d" using require_ready[OF Ok] ok by (simp add: driver_ok_def)
  have c: "flow_control_ok (cd_flow_control d)" "endpoint_ok lim ep" "same_config c0 (cd_flow_control d)"
    using ok by (simp_all add: driver_ok_def resources_ok_def flow_pair_ok_def)
  obtain limit quinn where lim: "qn_max_datagram_size (op_quinn io) (cd_quinn d) = (limit, quinn)" by fastforce
  obtain x c' where x: "prepare_outbound_open (tu_flow tu) (cd_flow_control d) ep q limit = Some (x, c')" "flow_control_ok c'"
    using prepare_outbound_open_step[OF c(1)] by blast
  let ?d = "d\<lparr>cd_quinn := quinn, cd_flow_control := c'\<rparr>"
  have "driver_ok io rlog lim c0 (d\<lparr>cd_quinn := quinn\<rparr>, ep)" using ok by simp
  then have new: "driver_ok io rlog lim c0 (?d, ep)"
    using driver_flow_control_ok[of io rlog lim c0 "d\<lparr>cd_quinn := quinn\<rparr>" ep c' ep]
      flow_pair_okI[OF x(2) c(2,3) prepare_config[OF c(1) x(1)]] prepare_open_answered[OF c(1) x(1)] by simp
  have ready': "active_ready ?d" using ready by (simp add: active_ready_def)
  show ?thesis
  proof (cases x)
    case (Err e)
    then show ?thesis using Ok lim x(1) new enter_terminal_keeps[OF new]
      by (simp add: driver_open_outbound_def driver_prepare_open_def Let_def)
  next
    case opened: (Ok po)
    have "cf_type (po_frame po) \<noteq> SettingsType" using prepare_open_frame[OF c(1)] x(1) opened by simp
    then show ?thesis
      using Ok lim x(1) opened start_prepared_send_ok[OF ready' new, of "\<lparr>ps_frame = po_frame po, ps_effect = EffectOpenPrepared (po_flow po)\<rparr>" "op_quinn io"]
      by (auto simp: driver_open_outbound_def driver_prepare_open_def Let_def)
  qed
qed

lemma decision_send_ok:
  assumes "active_ready d" "driver_ok io rlog lim c0 (d, ep)"
    and "\<And>p. x = Ok p \<Longrightarrow> cf_type (ps_frame p) \<noteq> SettingsType"
  shows "call_ok io rlog lim c0 (Some (decision_send qo d ep x))"
  using assms start_prepared_send_ok[OF assms(1,2), of _ qo] enter_terminal_keeps[OF assms(2)]
  by (cases x) (fastforce simp: decision_send_def)+

lemma resolved_send_type:
  "(\<And>r. x = Ok r \<Longrightarrow> reply_type (cf_type (resolution_frame r))) \<Longrightarrow> resolved_send x = Ok p \<Longrightarrow>
     cf_type (ps_frame p) \<noteq> SettingsType"
  by (cases x) (auto simp: resolved_send_def pending_inbound_resolution_def resolution_frame_def reply_type_def
      split: inbound_resolution.splits)

lemma driver_reject_ok:
  assumes "flow_pair_ok lim c0 (c, ep)"
  shows "\<exists>x c'. driver_reject_inbound al c q reason = Some (x, c') \<and> flow_pair_ok lim c0 (c', ep) \<and> quiet_ids c c'
    \<and> (\<forall>p. x = Ok p \<longrightarrow> cf_type (ps_frame p) \<noteq> SettingsType)"
proof -
  have c: "flow_control_ok c" "endpoint_ok lim ep" "same_config c0 c" using assms by (simp_all add: flow_pair_ok_def)
  obtain x c' where x: "reject_inbound al c q reason = Some (x, c')" "flow_control_ok c'"
    using reject_inbound_total[OF c(1,2)] by blast
  then show ?thesis
    using flow_pair_okI[OF x(2) c(2,3) reject_inbound_config[OF x(1)]] outcomesD[OF reject_inbound_replies x(1)]
      resolved_send_type[of x]
    by (auto simp: driver_reject_inbound_def)
qed

lemma driver_accept_ok:
  assumes "flow_pair_ok lim c0 (c, ep)"
  shows "\<exists>x c' ep'. driver_accept_inbound al c ep q a n = Some (x, c', ep') \<and> flow_pair_ok lim c0 (c', ep') \<and> quiet_ids c c'
    \<and> (\<forall>p. x = Ok p \<longrightarrow> cf_type (ps_frame p) \<noteq> SettingsType)"
proof (cases "reliable_staging_rejection (io_mode q) (io_max_message_bytes q) n")
  case (Some reason)
  then show ?thesis using driver_reject_ok[OF assms, of al q reason] by (auto simp: driver_accept_inbound_def)
next
  case None
  have c: "flow_control_ok c" "endpoint_ok lim ep" "same_config c0 c" using assms by (simp_all add: flow_pair_ok_def)
  obtain x c' ep' where x: "accept_inbound al c ep q a = Some (x, c', ep')" "flow_control_ok c'" "endpoint_ok lim ep'"
    using accept_inbound_total[OF c(1,2)] by blast
  then show ?thesis
    using None flow_pair_okI[OF x(2,3) c(3) accept_inbound_config[OF x(1)]] outcomesD[OF accept_inbound_replies x(1)]
      resolved_send_type[of x]
    by (auto simp: driver_accept_inbound_def)
qed

lemma decide_ok:
  assumes ok: "driver_ok io rlog lim c0 (d, ep)"
  shows "call_ok io rlog lim c0 (decide_accept io tu d ep q a)" "call_ok io rlog lim c0 (decide_reject io tu d ep q reason)"
proof -
  have pair: "flow_pair_ok lim c0 (cd_flow_control d, ep)" using ok by (simp add: driver_ok_def resources_ok_def)
  have sent: "call_ok io rlog lim c0 (Some (decision_send (op_quinn io) (d\<lparr>cd_flow_control := c\<rparr>) ep' x))"
    if "require_control_send_ready d = Ok u" "flow_pair_ok lim c0 (c, ep')" "quiet_ids (cd_flow_control d) c"
      "\<forall>p. x = Ok p \<longrightarrow> cf_type (ps_frame p) \<noteq> SettingsType" for u c ep' x
  proof (rule decision_send_ok)
    show "active_ready (d\<lparr>cd_flow_control := c\<rparr>)" using require_ready[OF that(1)] ok by (simp add: driver_ok_def)
    show "driver_ok io rlog lim c0 (d\<lparr>cd_flow_control := c\<rparr>, ep')"
      by (rule driver_flow_control_ok[OF ok that(2)]) (rule answered_quiet[OF that(3)])
  qed (use that(4) in simp)
  show "call_ok io rlog lim c0 (decide_accept io tu d ep q a)"
  proof (cases "require_control_send_ready d")
    case (Ok u)
    obtain x c ep' where "driver_accept_inbound (tu_flow tu) (cd_flow_control d) ep q a
        (ri_max_staging_bytes (cd_reliable d)) = Some (x, c, ep')" "flow_pair_ok lim c0 (c, ep')"
      "quiet_ids (cd_flow_control d) c" "\<forall>p. x = Ok p \<longrightarrow> cf_type (ps_frame p) \<noteq> SettingsType"
      using driver_accept_ok[OF pair] by blast
    then show ?thesis using sent[OF Ok] Ok by (simp add: decide_accept_def)
  qed (use ok in \<open>simp add: decide_accept_def\<close>)
  show "call_ok io rlog lim c0 (decide_reject io tu d ep q reason)"
  proof (cases "require_control_send_ready d")
    case (Ok u)
    obtain x c where "driver_reject_inbound (tu_flow tu) (cd_flow_control d) q reason = Some (x, c)" "flow_pair_ok lim c0 (c, ep)"
      "quiet_ids (cd_flow_control d) c" "\<forall>p. x = Ok p \<longrightarrow> cf_type (ps_frame p) \<noteq> SettingsType"
      using driver_reject_ok[OF pair] by blast
    then show ?thesis using sent[OF Ok] Ok by (simp add: decide_reject_def)
  qed (use ok in \<open>simp add: decide_reject_def\<close>)
qed

text \<open>A failure that a host call runs into.\<close>

lemma call_failure_ok:
  assumes ok: "driver_ok io rlog lim c0 (d, ep)" and ready: "active_ready d" and x: "disposition_ok (cd_flow_control d) x"
  shows "call_ok io rlog lim c0 (apply_data_failure qo al d ep x e)"
proof -
  have "\<exists>y d' ep'. apply_data_failure qo al d ep x e = Some (y, d', ep') \<and> driver_ok io rlog lim c0 (d', ep')"
    if quiet: "\<not> self_inflicted e" for e
    using apply_data_failure_ok[OF _ ready _ x quiet, of io rlog lim c0 ep] ok unfolding driver_ok_def by fastforce
  from this[of "DriverReliable ReliableAllocation"]
  obtain y d' ep' where y: "apply_data_failure qo al d ep x (DriverReliable ReliableAllocation) = Some (y, d', ep')"
    "driver_ok io rlog lim c0 (d', ep')" by (auto simp: self_inflicted_def)
  have "map_option snd (apply_data_failure qo al d ep x e)
      = map_option snd (apply_data_failure qo al d ep x (DriverReliable ReliableAllocation))"
    by (cases x; cases "prepare_data_failure al (cd_flow_control d) ep x")
      (auto simp: apply_data_failure_def Let_def split: result.split data_failure_progress.split prod.split)
  then show ?thesis using y by (auto simp: call_ok_def)
qed

lemma driver_request_finish_ok:
  fixes d :: "('q, 'w, 'f, 'r) connection_driver"
  assumes ok: "driver_ok io rlog lim c0 (d, ep)"
  shows "call_ok io rlog lim c0 (driver_request_finish io tu d ep i)"
proof (cases "require_control_send_ready d")
  case (Err e)
  then show ?thesis using ok by (simp add: driver_request_finish_def)
next
  case (Ok u)
  have ready: "active_ready d" using require_ready[OF Ok] ok by (simp add: driver_ok_def)
  have rel: "reliable_ok (op_alloc io) rlog (cd_reliable d) (cd_flow_control d)"
    using ok by (simp add: driver_ok_def resources_ok_def)
  obtain x and rel :: "('q, 'w, 'f, 'r) reliable_io" where
    x: "reliable_request_finish (op_writer io) (cd_reliable d) ep i = Some (x, rel)"
    "reliable_ok (op_alloc io) rlog rel (cd_flow_control d)" "ri_accept rel = ri_accept (cd_reliable d)"
    using reliable_finish_ok[OF rel, of "op_writer io" ep i] by blast
  let ?d = "d\<lparr>cd_reliable := rel\<rparr>"
  have new: "driver_ok io rlog lim c0 (?d, ep)" using ok x(2,3) by (simp add: driver_ok_def resources_ok_def)
  have fail: "call_ok io rlog lim c0 (do { (y, d, ep) \<leftarrow> apply_data_failure (op_quinn io) (tu_flow tu) ?d ep z e;
      Some (case y of Ok i \<Rightarrow> Ok (FinishFailureHandled i) | Err e \<Rightarrow> Err e, d, ep) })"
    if "classify_outbound_finish (cd_flow_control d) j s = Some z" for j s z e
    by (rule call_ok_map, rule call_failure_ok[OF new]) (use ready other_dispositions_ok(3)[OF that] in simp_all)
  show ?thesis
    using Ok x(1) new fail enter_terminal_keeps[OF new]
    by (cases x) (auto simp: driver_request_finish_def Let_def split: reliable_io_error.split option.split)
qed

lemma outbound_flow_id_unreliable:
  assumes "datagram_outbound_flow_id io c key = Some i"
  shows "\<exists>f. lookup_flow (fn_registry c) i = Some f \<and> rf_mode f \<noteq> ReliableOrdered"
proof -
  have "case lookup_flow (fn_registry c) i of None \<Rightarrow> False
      | Some f \<Rightarrow> rf_key f = key \<and> is_outbound_unreliable (fk_direction (rf_key f)) (rf_mode f)"
    using assms unfolding datagram_outbound_flow_id_def find_Some_iff by blast
  then show ?thesis by (simp add: is_outbound_unreliable_def split: option.splits)
qed

lemma driver_request_finish_by_key_ok:
  assumes ok: "driver_ok io rlog lim c0 (d, ep)"
  shows "call_ok io rlog lim c0 (driver_request_finish_by_key io tu d ep key mode)"
proof (cases "require_control_send_ready d")
  case (Err e)
  then show ?thesis using ok by (simp add: driver_request_finish_by_key_def)
next
  case (Ok u)
  have ready: "active_ready d" using require_ready[OF Ok] ok by (simp add: driver_ok_def)
  have pair: "flow_pair_ok lim c0 (cd_flow_control d, ep)" using ok by (simp add: driver_ok_def resources_ok_def)
  show ?thesis
  proof (cases "mode = ReliableOrdered \<or> datagram_outbound_flow_id (cd_datagram d) (cd_flow_control d) key = None")
    case True
    then show ?thesis
      using Ok ok call_ok_map[OF driver_request_finish_ok[OF ok], where g = "map_err KeyedFinishDriver"]
      by (auto simp: driver_request_finish_by_key_def split: option.split)
  next
    case False
    then obtain i where i: "datagram_outbound_flow_id (cd_datagram d) (cd_flow_control d) key = Some i" by blast
    then obtain f where f: "lookup_flow (fn_registry (cd_flow_control d)) i = Some f" "rf_mode f \<noteq> ReliableOrdered"
      using outbound_flow_id_unreliable by blast
    obtain x c ep' where x: "driver_terminate_local (tu_flow tu) (cd_flow_control d) ep i TerminateNormal = Some (x, c, ep')"
      "flow_pair_ok lim c0 (c, ep')" "quiet_ids (cd_flow_control d) c"
      "\<forall>p. x = Ok p \<longrightarrow> cf_type (ps_frame p) = FlowTerminateType"
      using terminate_local_driver[OF pair f(1), of TerminateNormal "tu_flow tu"] f(2) by blast
    have new: "driver_ok io rlog lim c0 (d\<lparr>cd_flow_control := c\<rparr>, ep')"
      by (rule driver_flow_control_ok[OF ok x(2)]) (rule answered_quiet[OF x(3)])
    have ready': "active_ready (d\<lparr>cd_flow_control := c\<rparr>)" using ready by simp
    have sent: "call_ok io rlog lim c0 (Some (case start_prepared_send (op_quinn io) (d\<lparr>cd_flow_control := c\<rparr>) p of
        (Err e, d) \<Rightarrow> (Err (KeyedFinishDriver e), d, ep') | (Ok _, d) \<Rightarrow> (Ok FinishStarted, d, ep')))"
      if "x = Ok p" for p
      using x(4) that start_prepared_send_ok[OF ready' new, of p "op_quinn io"] by auto
    show ?thesis
      using False Ok i x(1) new sent by (cases x) (simp_all add: driver_request_finish_by_key_def Let_def)
  qed
qed

lemma driver_submit_ok:
  assumes ok: "driver_ok io rlog lim c0 (d, ep)"
  shows "call_ok io rlog lim c0 (driver_submit io tu d ep i payload)"
proof (cases "require_control_send_ready d")
  case (Err e)
  then show ?thesis using ok by (simp add: driver_submit_def)
next
  case (Ok u)
  have ready: "active_ready d" using require_ready[OF Ok] ok by (simp add: driver_ok_def)
  have ep: "endpoint_ok lim ep" using ok by (simp add: driver_ok_def resources_ok_def flow_pair_ok_def)
  obtain x s' ep' where x: "datagram_submit (op_datagram io) (di_sender (cd_datagram d)) ep (fn_registry (cd_flow_control d))
      i payload = Some (x, s', ep')" "ep' = ep \<or> (\<exists>key r. submit ep key payload = Some (r, ep'))"
    using datagram_submit_spec[OF ep, of "op_datagram io" "di_sender (cd_datagram d)" "fn_registry (cd_flow_control d)" i payload]
    by blast
  have ep': "endpoint_ok lim ep'" using x(2) ep submit_total[OF ep] by (metis option.inject prod.inject)
  let ?d = "d\<lparr>cd_datagram := (cd_datagram d)\<lparr>di_sender := s'\<rparr>\<rparr>"
  have new: "driver_ok io rlog lim c0 (?d, ep')"
    using ok ep' by (simp add: driver_ok_def resources_ok_def flow_pair_ok_def)
  have fail: "call_ok io rlog lim c0 (do { (y, d, ep) \<leftarrow> apply_data_failure (op_quinn io) (tu_flow tu) ?d ep' z e;
      Some (case y of Ok i \<Rightarrow> Ok (SubmitFailureHandled i) | Err e \<Rightarrow> Err (SubmitDriver e), d, ep) })"
    if "classify_datagram_submission (cd_flow_control d) i s = Some z" for s z e
    by (rule call_ok_map, rule call_failure_ok[OF new]) (use ready other_dispositions_ok(4)[OF that] in simp_all)
  show ?thesis
    using Ok x(1) new fail enter_terminal_keeps[OF new]
    by (cases x) (auto simp: driver_submit_def datagram_io_submit_def Let_def split: option.split)
qed

lemma driver_submit_by_key_ok:
  assumes ok: "driver_ok io rlog lim c0 (d, ep)"
  shows "call_ok io rlog lim c0 (driver_submit_by_key io tu d ep key payload)"
proof -
  have "call_ok io rlog lim c0 (do { (x, d, ep) \<leftarrow> driver_submit io tu d ep i payload;
      Some (case x of Ok out \<Rightarrow> Ok out | Err (SubmitUnavailable _ payload e) \<Rightarrow> Err (KeyedSubmitUnavailable payload e)
        | Err (SubmitDriver e) \<Rightarrow> Err (KeyedSubmitDriver e), d, ep) })" for i
    by (rule call_ok_map[OF driver_submit_ok[OF ok]])
  then show ?thesis using ok by (auto simp: driver_submit_by_key_def split: option.split)
qed

section \<open>The machine\<close>

datatype driver_call =
    CallPollStep driver_turn
  | CallOpenOutbound driver_turn outbound_open_request
  | CallDecideAccept driver_turn inbound_open inbound_admission
  | CallDecideReject driver_turn inbound_open flow_reject_reason
  | CallRequestFinish driver_turn flow_id
  | CallFinishByKey driver_turn delivery_flow_key delivery_mode
  | CallSubmitTo driver_turn flow_id bytes
  | CallSubmitByKey driver_turn delivery_flow_key bytes
  | CallEndpoint delivery_call

fun driver_apply ::
  "('q, 'w, 'f, 'r) driver_ops \<Rightarrow> ('q, 'w, 'f, 'r) connection_driver \<times> delivery_endpoint \<Rightarrow> driver_call \<Rightarrow>
     (('q, 'w, 'f, 'r) connection_driver \<times> delivery_endpoint) exec" where
  "driver_apply io (d, ep) (CallPollStep tu) = map_option snd (driver_poll_step io tu d ep)"
| "driver_apply io (d, ep) (CallOpenOutbound tu q) = map_option snd (driver_open_outbound io tu d ep q)"
| "driver_apply io (d, ep) (CallDecideAccept tu q a) = map_option snd (decide_accept io tu d ep q a)"
| "driver_apply io (d, ep) (CallDecideReject tu q r) = map_option snd (decide_reject io tu d ep q r)"
| "driver_apply io (d, ep) (CallRequestFinish tu i) = map_option snd (driver_request_finish io tu d ep i)"
| "driver_apply io (d, ep) (CallFinishByKey tu k m) = map_option snd (driver_request_finish_by_key io tu d ep k m)"
| "driver_apply io (d, ep) (CallSubmitTo tu i bs) = map_option snd (driver_submit io tu d ep i bs)"
| "driver_apply io (d, ep) (CallSubmitByKey tu k bs) = map_option snd (driver_submit_by_key io tu d ep k bs)"
| "driver_apply io (d, ep) (CallEndpoint x) = do { ep \<leftarrow> delivery_step ep x; Some (d, ep) }"

lemma driver_apply_ok:
  assumes ok: "driver_ok io rlog lim c0 s" and law: "driver_law io rlog"
  shows "\<exists>s'. driver_apply io s x = Some s' \<and> driver_ok io rlog lim c0 s'"
proof -
  obtain d ep where s: "s = (d, ep)" by (cases s)
  note ok' = ok[unfolded s]
  show ?thesis
  proof (cases x)
    case (CallPollStep tu)
    have "call_ok io rlog lim c0 (driver_poll_step io tu d ep)"
    proof (cases "cd_phase d = DriverTerminal")
      case True
      then show ?thesis using ok' by (simp add: driver_poll_step_def)
    next
      case False
      then have "cd_phase d = DriverActive" by (cases "cd_phase d") simp_all
      then show ?thesis using driver_poll_step_ok[OF ok' _ law, of tu] by (fastforce simp: call_ok_def)
    qed
    then show ?thesis unfolding CallPollStep s driver_apply.simps by (rule call_ok_state)
  next
    case (CallEndpoint y)
    have ep: "endpoint_ok lim ep" using ok' by (simp add: driver_ok_def resources_ok_def flow_pair_ok_def)
    obtain ep' where "delivery_step ep y = Some ep'" "endpoint_ok lim ep'"
      using delivery_machine.step_good[OF ep, of y] by auto
    then show ?thesis using ok' by (simp add: CallEndpoint s driver_ok_def resources_ok_def flow_pair_ok_def)
  qed (simp_all only: s driver_apply.simps call_ok_state driver_open_outbound_ok[OF ok'] decide_ok[OF ok']
      driver_request_finish_ok[OF ok'] driver_request_finish_by_key_ok[OF ok'] driver_submit_ok[OF ok']
      driver_submit_by_key_ok[OF ok'])
qed

end
