(* ===== verification/Control_Safety.thy ===== *)
theory Control_Safety
  imports Control_Stream
begin

text \<open>
  What the control stream carries. A transport is described by the bytes it has taken from a writer
  (\<open>sent\<close>) and given to a reader (\<open>taken\<close>); everything else about it stays open: writes are as short
  as it likes, and any operation may fail or be cancelled.
\<close>

section \<open>Frames as bytes\<close>

type_synonym frame = "control_frame_type \<times> bytes"

definition control_frame_bytes :: "frame \<Rightarrow> bytes" where
  "control_frame_bytes f =
     vslice (frame_type_wire (fst f)) @ vslice (word_of_nat (length (snd f))) @ snd f"

definition sizable :: "frame \<Rightarrow> bool" where
  "sizable f \<longleftrightarrow> length (snd f) \<le> unat MAX_VARINT"

lemma frame_type_wire_small [simp]: "frame_type_wire t \<le> MAX_VARINT"
  by (cases t) (simp_all add: frame_type_wire_def MAX_VARINT_def)

lemma frame_type_from_wire_Ok: "frame_type_from_wire v = Ok t \<longleftrightarrow> v = frame_type_wire t"
  by (cases t) (auto simp: frame_type_from_wire_def frame_type_wire_def)

lemma frame_type_wire_inj: "frame_type_wire t = frame_type_wire u \<longleftrightarrow> t = u"
  by (metis frame_type_from_wire_Ok result.inject(1))

lemma sizable_word:
  assumes "sizable f"
  shows "(word_of_nat (length (snd f)) :: u64) \<le> MAX_VARINT"
    "unat (word_of_nat (length (snd f)) :: u64) = length (snd f)"
proof -
  show len: "unat (word_of_nat (length (snd f)) :: u64) = length (snd f)"
    using assms by (intro word_of_small) (simp add: sizable_def unat_MAX_VARINT)
  show "(word_of_nat (length (snd f)) :: u64) \<le> MAX_VARINT"
    using assms by (simp add: word_le_nat_alt sizable_def len)
qed

lemma vslice_append_inject:
  assumes "v \<le> MAX_VARINT" "w \<le> MAX_VARINT"
  shows "vslice v @ xs = vslice w @ ys \<longleftrightarrow> v = w \<and> xs = ys"
  using decode_vslice[OF assms(1), of xs] decode_vslice[OF assms(2), of ys] by auto

lemma frame_append_inject:
  assumes "sizable f" "sizable g"
  shows "control_frame_bytes f @ xs = control_frame_bytes g @ ys \<longleftrightarrow> f = g \<and> xs = ys"
proof
  assume eq: "control_frame_bytes f @ xs = control_frame_bytes g @ ys"
  have "fst f = fst g" and len: "(word_of_nat (length (snd f)) :: u64) = word_of_nat (length (snd g))"
    and body: "snd f @ xs = snd g @ ys"
    using eq by (simp_all add: control_frame_bytes_def vslice_append_inject frame_type_wire_inj
        sizable_word(1)[OF assms(1)] sizable_word(1)[OF assms(2)])
  moreover have "length (snd f) = length (snd g)"
    using arg_cong[OF len, of unat] sizable_word(2)[OF assms(1)] sizable_word(2)[OF assms(2)] by simp
  ultimately show "f = g \<and> xs = ys" by (simp add: prod_eq_iff)
qed simp

lemma control_frame_nonempty: "control_frame_bytes f \<noteq> []"
  using length_vslice[of "frame_type_wire (fst f)"] by (auto simp: control_frame_bytes_def)

text \<open>Two cuts of one byte string into frames agree as far as both go.\<close>

lemma frames_agree:
  assumes "list_all sizable fs" "list_all sizable gs"
    and "concat (map control_frame_bytes fs) @ xs = concat (map control_frame_bytes gs)"
  shows "fs = take (length fs) gs"
  using assms
proof (induction fs arbitrary: gs)
  case (Cons f fs)
  then obtain g gs' where gs: "gs = g # gs'" using control_frame_nonempty[of f] by (cases gs) auto
  have "f = g \<and> concat (map control_frame_bytes fs) @ xs = concat (map control_frame_bytes gs')"
    using Cons.prems gs
      frame_append_inject[of f g "concat (map control_frame_bytes fs) @ xs" "concat (map control_frame_bytes gs')"]
    by simp
  then show ?case using Cons.IH[of gs'] Cons.prems gs by simp
qed simp

section \<open>Writing\<close>

definition control_writer :: "'w send_ops \<Rightarrow> ('w \<Rightarrow> bytes) \<Rightarrow> bool" where
  "control_writer ops sent \<longleftrightarrow>
     (\<forall>w bs. \<exists>n \<le> length bs. sent (snd (so_write ops w bs)) = sent w @ take n bs
        \<and> (\<forall>m. fst (so_write ops w bs) = Done (Ok m) \<longrightarrow> m = n))
     \<and> (\<forall>w. sent (snd (so_finish ops w)) = sent w)
     \<and> (\<forall>w. sent (snd (so_stopped ops w)) = sent w)"

lemma control_writerD:
  assumes "control_writer ops sent"
  obtains n where "n \<le> length bs" "sent (snd (so_write ops w bs)) = sent w @ take n bs"
    "\<And>m. fst (so_write ops w bs) = Done (Ok m) \<Longrightarrow> m = n"
  using assms unfolding control_writer_def by meson

text \<open>A write puts a part of its bytes on the stream, all of them if it succeeds.\<close>

definition writes :: "('w \<Rightarrow> bytes) \<Rightarrow> bytes \<Rightarrow> 'w \<Rightarrow> ('a, 'e) result awaited \<times> 'w \<Rightarrow> bool" where
  "writes sent bs w out \<longleftrightarrow>
     (\<exists>done rest. bs = done @ rest \<and> sent (snd out) = sent w @ done
        \<and> (\<forall>u. fst out = Done (Ok u) \<longrightarrow> rest = []))"

lemma writes_stop:
  assumes "sent w' = sent w @ take n bs" "\<And>u. y \<noteq> Done (Ok u)"
  shows "writes sent bs w (y, w')"
  unfolding writes_def using assms by (intro exI[of _ "take n bs"] exI[of _ "drop n bs"]) simp

lemma write_part_writes:
  assumes "control_writer ops sent"
  shows "writes sent (drop k part) w (write_part ops part k w)"
  using assms
proof (induction ops part k w rule: write_part.induct)
  case (1 ops part k w)
  show ?case
  proof (cases "k < length part")
    case True
    obtain x w' where x: "so_write ops w (drop k part) = (x, w')" by fastforce
    obtain n where n: "sent w' = sent w @ take n (drop k part)" "\<And>m. x = Done (Ok m) \<Longrightarrow> m = n"
      using control_writerD[OF "1.prems", of "drop k part" w] unfolding x fst_conv snd_conv by blast
    have stop: "writes sent (drop k part) w (y, w')" if "\<And>u. y \<noteq> Done (Ok u)" for y
      using that by (intro writes_stop[of sent w' w n, OF n(1)])
    show ?thesis
    proof (cases "x = Done (Ok n) \<and> n \<noteq> 0")
      case True
      then have "writes sent (drop (k + n) part) w' (write_part ops part (k + n) w')"
        using "1.IH"[OF \<open>k < length part\<close> x[symmetric]] "1.prems" by simp
      then obtain d rest where "drop (k + n) part = d @ rest"
        "sent (snd (write_part ops part (k + n) w')) = sent w' @ d"
        "\<forall>u. fst (write_part ops part (k + n) w') = Done (Ok u) \<longrightarrow> rest = []"
        by (auto simp: writes_def)
      moreover have "drop k part = take n (drop k part) @ drop (k + n) part"
        by (metis append_take_drop_id drop_drop add.commute)
      ultimately show ?thesis
        using True \<open>k < length part\<close> x n(1) unfolding writes_def
        by (intro exI[of _ "take n (drop k part) @ d"] exI[of _ rest]) (simp add: write_part.simps[of ops part k])
    next
      case False
      have "\<exists>y. write_part ops part k w = (y, w') \<and> (\<forall>u. y \<noteq> Done (Ok u))"
      proof (cases "\<exists>m. x = Done (Ok m)")
        case True
        then obtain m where m: "x = Done (Ok m)" by blast
        from n(2)[OF m] False m have "x = Done (Ok 0)" by simp
        then show ?thesis using \<open>k < length part\<close> x by (simp add: write_part.simps[of ops part k])
      next
        case False
        then show ?thesis
          using \<open>k < length part\<close> x
          by (cases x rule: awaited.exhaust) (auto simp: write_part.simps[of ops part k] split: result.splits)
      qed
      then obtain y where y: "write_part ops part k w = (y, w')" "\<And>u. y \<noteq> Done (Ok u)" by blast
      from stop[OF y(2)] y(1) show ?thesis by simp
    qed
  next
    case False
    then show ?thesis by (auto simp: writes_def write_part.simps[of ops part k])
  qed
qed

lemma write_slices_writes:
  assumes "control_writer ops sent"
  shows "writes sent (concat parts) w (write_slices ops parts w)"
proof (induction parts arbitrary: w)
  case Nil
  then show ?case by (simp add: writes_def)
next
  case (Cons part parts)
  obtain x w' where x: "write_part ops part 0 w = (x, w')" by fastforce
  have part: "writes sent part w (x, w')" using write_part_writes[OF assms, of 0 part w] x by simp
  then obtain d rest where d: "part = d @ rest" "sent w' = sent w @ d" "\<forall>u. x = Done (Ok u) \<longrightarrow> rest = []"
    by (auto simp: writes_def)
  show ?case
  proof (cases "\<exists>u. x = Done (Ok u)")
    case True
    then obtain e rest' where "concat parts = e @ rest'" "sent (snd (write_slices ops parts w')) = sent w' @ e"
      "\<forall>u. fst (write_slices ops parts w') = Done (Ok u) \<longrightarrow> rest' = []"
      using Cons.IH[of w'] by (auto simp: writes_def)
    then show ?thesis
      using True d x unfolding writes_def by (intro exI[of _ "d @ e"] exI[of _ rest']) auto
  next
    case False
    then have "write_slices ops (part # parts) w = (x, w')"
      using x by (cases x rule: awaited.exhaust) (auto split: result.splits)
    then show ?thesis
      using False d unfolding writes_def by (intro exI[of _ d] exI[of _ "rest @ concat parts"]) auto
  qed
qed

lemma send_frame_raw_writes:
  assumes "control_writer ops sent"
  shows "\<exists>out. send_frame_raw ops w t body = Some out
    \<and> writes sent (control_frame_bytes (t, body)) w out
    \<and> (\<not> sizable (t, body) \<longrightarrow> snd out = w \<and> (\<forall>u. fst out \<noteq> Done (Ok u)))"
proof (cases "frame_type_wire t" rule: encode_varint_cases)
  case (Small ty)
  have refuse: "writes sent (control_frame_bytes (t, body)) w (Done (Err e), w)" for e
    unfolding writes_def by (intro exI[of _ "[]"] exI[of _ "control_frame_bytes (t, body)"]) simp
  show ?thesis
  proof (cases "length body < 2 ^ 64")
    case True
    let ?len = "word_of_nat (length body) :: u64"
    have len: "unat ?len = length body" using True by (rule word_of_small)
    have size: "sizable (t, body) \<longleftrightarrow> ?len \<le> MAX_VARINT" by (simp add: sizable_def word_le_nat_alt len)
    show ?thesis
    proof (cases ?len rule: encode_varint_cases)
      case Small': (Small n)
      have "writes sent (concat [varint_slice ty, varint_slice n, body]) w
          (write_slices ops [varint_slice ty, varint_slice n, body] w)"
        by (rule write_slices_writes[OF assms])
      then show ?thesis
        using True Small(2,3) Small'(1-3) size
        by (simp add: send_frame_raw_def usize_to_u64_def control_frame_bytes_def del: write_slices.simps)
    next
      case Large
      then show ?thesis using True Small(2) refuse by (simp add: send_frame_raw_def usize_to_u64_def)
    qed
  next
    case False
    then show ?thesis using refuse by (simp add: send_frame_raw_def usize_to_u64_def)
  qed
next
  case Large
  then show ?thesis using frame_type_wire_small[of t] by (simp add: not_less[symmetric])
qed

text \<open>
  A call of \<open>send_frame\<close> on a clean sender completes its frame and leaves the sender clean, or is
  refused and changes nothing, or leaves a part of one frame and a poisoned sender. A poisoned
  sender changes nothing any more.
\<close>

lemma send_frame_effect:
  assumes "control_writer ops sent"
  shows "\<exists>x s'. send_frame ops s t body = Some (x, s')
    \<and> ct_local_settings s' = ct_local_settings s \<and> ct_peer_settings s' = ct_peer_settings s
    \<and> (x = Done (Ok ()) \<and> ct_io_state s = Clean \<and> ct_io_state s' = Clean \<and> sizable (t, body)
         \<and> sent (ct_send s') = sent (ct_send s) @ control_frame_bytes (t, body)
       \<or> x \<noteq> Done (Ok ()) \<and> s' = s
       \<or> x \<noteq> Done (Ok ()) \<and> ct_io_state s = Clean \<and> ct_io_state s' \<noteq> Clean
         \<and> (\<exists>part rest. sent (ct_send s') = sent (ct_send s) @ part
              \<and> (part = [] \<or> sizable (t, body) \<and> control_frame_bytes (t, body) = part @ rest)))"
proof (cases "t = SettingsType \<or> ct_io_state s \<noteq> Clean
    \<or> (\<exists>e. validate_outbound_body (ct_local_settings s) (ct_peer_settings s) t (length body) = Err e)")
  case True
  then show ?thesis
    by (auto simp: send_frame_def io_begin_def split: result.split)
next
  case False
  then obtain ok where go: "t \<noteq> SettingsType" "ct_io_state s = Clean"
    "validate_outbound_body (ct_local_settings s) (ct_peer_settings s) t (length body) = Ok ok"
    by (cases "validate_outbound_body (ct_local_settings s) (ct_peer_settings s) t (length body)") auto
  obtain y w' where raw: "send_frame_raw ops (ct_send s) t body = Some (y, w')"
    "writes sent (control_frame_bytes (t, body)) (ct_send s) (y, w')"
    "\<not> sizable (t, body) \<Longrightarrow> w' = ct_send s \<and> (\<forall>u. y \<noteq> Done (Ok u))"
    using send_frame_raw_writes[OF assms, of "ct_send s" t body] by auto
  obtain part rest where w: "control_frame_bytes (t, body) = part @ rest" "sent w' = sent (ct_send s) @ part"
    "y = Done (Ok ()) \<Longrightarrow> rest = []"
    using raw(2) by (auto simp: writes_def)
  show ?thesis
  proof (cases "y = Done (Ok ())")
    case True
    then have "sizable (t, body)" using raw(3) by blast
    then show ?thesis
      using True go raw(1) w by (simp add: send_frame_def io_begin_def io_complete_def)
  next
    case False
    have "\<exists>p r. sent w' = sent (ct_send s) @ p \<and> (p = [] \<or> sizable (t, body) \<and> control_frame_bytes (t, body) = p @ r)"
      using raw(3) w(1,2) by (cases "sizable (t, body)") auto
    moreover have "\<exists>e. e \<noteq> Done (Ok ()) \<and> send_frame ops s t body
        = Some (e, s\<lparr>ct_send := w', ct_io_state := InFlightOrPoisoned\<rparr>)"
    proof (cases y)
      case (Done r)
      with False obtain e where "r = Err e" by (cases r) auto
      then show ?thesis using Done go raw(1) by (simp add: send_frame_def io_begin_def)
    next
      case Cancelled
      then show ?thesis using go raw(1) by (simp add: send_frame_def io_begin_def)
    qed
    ultimately show ?thesis using go(2) by auto
  qed
qed

text \<open>Calls in a row; the frames whose call succeeded, and the sender after them.\<close>

fun send_all :: "'w send_ops \<Rightarrow> frame list \<Rightarrow> 'w control_sender \<Rightarrow> (frame list \<times> 'w control_sender) exec" where
  "send_all ops [] s = Some ([], s)"
| "send_all ops (f # fs) s = do {
     (x, s) \<leftarrow> send_frame ops s (fst f) (snd f);
     (done, s) \<leftarrow> send_all ops fs s;
     Some ((if x = Done (Ok ()) then [f] else []) @ done, s) }"

text \<open>
  The stream of a sender that completed \<open>fs\<close> of the frames \<open>tried\<close>: their bytes after \<open>pre\<close>, then
  nothing, or the beginning of one more frame if the sender is poisoned.
\<close>

definition sender_wrote :: "('w \<Rightarrow> bytes) \<Rightarrow> bytes \<Rightarrow> frame list \<Rightarrow> frame list \<Rightarrow> 'w control_sender \<Rightarrow> bool" where
  "sender_wrote sent pre tried fs s \<longleftrightarrow> list_all sizable fs \<and>
     (\<exists>part. sent (ct_send s) = pre @ concat (map control_frame_bytes fs) @ part
        \<and> (part = [] \<or> ct_io_state s \<noteq> Clean
             \<and> (\<exists>f rest. f \<in> set tried \<and> sizable f \<and> control_frame_bytes f = part @ rest)))"

lemma send_all_wrote:
  assumes "control_writer ops sent" "sender_wrote sent pre tried fs0 s"
  shows "\<exists>fs s'. send_all ops calls s = Some (fs, s') \<and> sender_wrote sent pre (tried @ calls) (fs0 @ fs) s'
    \<and> (\<exists>pick. fs = map fst (filter snd (zip calls pick)) \<and> length pick = length calls)"
  using assms(2)
proof (induction calls arbitrary: tried fs0 s)
  case Nil
  then show ?case by simp
next
  case (Cons f calls)
  obtain x s1 where x: "send_frame ops s (fst f) (snd f) = Some (x, s1)"
    and eff: "x = Done (Ok ()) \<and> ct_io_state s = Clean \<and> ct_io_state s1 = Clean \<and> sizable f
         \<and> sent (ct_send s1) = sent (ct_send s) @ control_frame_bytes f
       \<or> x \<noteq> Done (Ok ()) \<and> s1 = s
       \<or> x \<noteq> Done (Ok ()) \<and> ct_io_state s = Clean \<and> ct_io_state s1 \<noteq> Clean
         \<and> (\<exists>part rest. sent (ct_send s1) = sent (ct_send s) @ part
              \<and> (part = [] \<or> sizable f \<and> control_frame_bytes f = part @ rest))"
    using send_frame_effect[OF assms(1), of s "fst f" "snd f"] by auto
  let ?new = "if x = Done (Ok ()) then [f] else []"
  have "sender_wrote sent pre (tried @ [f]) (fs0 @ ?new) s1"
    using eff
  proof (elim disjE)
    assume "x \<noteq> Done (Ok ()) \<and> s1 = s"
    then show ?thesis using Cons.prems by (auto simp: sender_wrote_def)
  next
    assume ok: "x = Done (Ok ()) \<and> ct_io_state s = Clean \<and> ct_io_state s1 = Clean \<and> sizable f
         \<and> sent (ct_send s1) = sent (ct_send s) @ control_frame_bytes f"
    then show ?thesis using Cons.prems by (auto simp: sender_wrote_def)
  next
    assume part: "x \<noteq> Done (Ok ()) \<and> ct_io_state s = Clean \<and> ct_io_state s1 \<noteq> Clean
         \<and> (\<exists>part rest. sent (ct_send s1) = sent (ct_send s) @ part
              \<and> (part = [] \<or> sizable f \<and> control_frame_bytes f = part @ rest))"
    then show ?thesis using Cons.prems unfolding sender_wrote_def by fastforce
  qed
  from Cons.IH[OF this] obtain fs s' pick where rest: "send_all ops calls s1 = Some (fs, s')"
    "sender_wrote sent pre (tried @ f # calls) (fs0 @ ?new @ fs) s'"
    "fs = map fst (filter snd (zip calls pick))" "length pick = length calls"
    by auto
  then show ?case
    using x by (intro exI[of _ "?new @ fs"] exI[of _ s'] conjI exI[of _ "(x = Done (Ok ())) # pick"]) auto
qed

section \<open>Reading\<close>

definition control_reader :: "'r recv_ops \<Rightarrow> ('r \<Rightarrow> bytes) \<Rightarrow> bool" where
  "control_reader ops taken \<longleftrightarrow>
     (\<forall>r n. \<exists>bs. taken (snd (rv_read_exact ops r n)) = taken r @ bs
        \<and> (\<forall>cs. fst (rv_read_exact ops r n) = Done (Ok cs) \<longrightarrow> cs = bs \<and> length bs = n))"

lemma control_readerD:
  assumes "control_reader ops taken" "rv_read_exact ops r n = (x, r')"
  obtains bs where "taken r' = taken r @ bs" "\<And>cs. x = Done (Ok cs) \<Longrightarrow> cs = bs \<and> length bs = n"
proof -
  have "\<exists>bs. taken (snd (rv_read_exact ops r n)) = taken r @ bs
      \<and> (\<forall>cs. fst (rv_read_exact ops r n) = Done (Ok cs) \<longrightarrow> cs = bs \<and> length bs = n)"
    using assms(1) unfolding control_reader_def by blast
  then show ?thesis using that unfolding assms(2) by auto
qed

text \<open>A read takes some bytes, and its result, if there is one, satisfies \<open>P\<close> with them.\<close>

definition reads :: "('r \<Rightarrow> bytes) \<Rightarrow> ('a \<Rightarrow> bytes \<Rightarrow> bool) \<Rightarrow> 'r \<Rightarrow> ('a, 'e) result awaited \<times> 'r \<Rightarrow> bool" where
  "reads taken P r out \<longleftrightarrow>
     (\<exists>bs. taken (snd out) = taken r @ bs \<and> (\<forall>v. fst out = Done (Ok v) \<longrightarrow> P v bs))"

lemma not_ok: "(\<nexists>v. x = Done (Ok v)) \<longleftrightarrow> x = Cancelled \<or> (\<exists>e. x = Done (Err e))"
  by (metis awaited.exhaust awaited.distinct(1) awaited.inject result.exhaust result.distinct(1))

lemma reads_stop: "taken r' = taken r @ bs \<Longrightarrow> (\<And>v. x \<noteq> Done (Ok v)) \<Longrightarrow> reads taken P r (x, r')"
  by (auto simp: reads_def)

lemma reads_then:
  assumes "taken r1 = taken r @ as" "reads taken P r1 out" "\<And>v bs. P v bs \<Longrightarrow> Q v (as @ bs)"
  shows "reads taken Q r out"
  using assms by (fastforce simp: reads_def)

lemma decode_length:
  "decode_varint (b # bs) = Ok (v, n) \<Longrightarrow> length bs + 1 = encoded_len_from_first b \<Longrightarrow> v \<le> MAX_VARINT \<and> b # bs = vslice v"
proof -
  assume dec: "decode_varint (b # bs) = Ok (v, n)" and len: "length bs + 1 = encoded_len_from_first b"
  have "n = encoded_len_from_first b"
    using dec by (auto simp: decode_varint_def Let_def split: if_splits)
  moreover have "v \<le> MAX_VARINT \<and> take n (b # bs) = vslice v" using dec unfolding decode_varint_iff by blast
  ultimately show "v \<le> MAX_VARINT \<and> b # bs = vslice v" using len by simp
qed

lemma read_after_first_reads:
  assumes "control_reader ops taken"
  shows "reads taken (\<lambda>v bs. v \<le> MAX_VARINT \<and> b # bs = vslice v) r (read_varint_after_first ops r b)"
proof (cases "encoded_len_from_first b > 1")
  case True
  obtain x r' where x: "rv_read_exact ops r (encoded_len_from_first b - 1) = (x, r')" by fastforce
  obtain bs where bs: "taken r' = taken r @ bs"
    "\<And>cs. x = Done (Ok cs) \<Longrightarrow> cs = bs \<and> length bs = encoded_len_from_first b - 1"
    by (rule control_readerD[OF assms x]) blast
  show ?thesis
  proof (cases "\<exists>cs. x = Done (Ok cs)")
    case True
    then obtain cs where "x = Done (Ok cs)" by blast
    then have out: "x = Done (Ok bs)" "length bs + 1 = encoded_len_from_first b"
      using bs(2) \<open>encoded_len_from_first b > 1\<close> by auto
    show ?thesis
      using \<open>encoded_len_from_first b > 1\<close> x out bs(1) decode_length[OF _ out(2)]
      by (auto simp: read_varint_after_first_def reads_def Let_def result_bind_def map_err_def split: result.splits)
  next
    case False
    then have "\<exists>y. read_varint_after_first ops r b = (y, r') \<and> (\<forall>v. y \<noteq> Done (Ok v))"
      using \<open>encoded_len_from_first b > 1\<close> x unfolding not_ok
      by (auto simp: read_varint_after_first_def Let_def)
    then obtain y where y: "read_varint_after_first ops r b = (y, r')" "\<And>v. y \<noteq> Done (Ok v)" by blast
    show ?thesis unfolding y(1) by (rule reads_stop[of taken r' r bs, OF bs(1) y(2)])
  qed
next
  case False
  then have one: "encoded_len_from_first b = 1" using encoded_len_from_first_bounds(1)[of b] by simp
  then show ?thesis
    using decode_length[of b "[]"]
    by (auto simp: read_varint_after_first_def reads_def Let_def result_bind_def map_err_def split: result.splits)
qed

lemma read_stream_varint_reads:
  assumes "control_reader ops taken"
  shows "reads taken (\<lambda>v bs. v \<le> MAX_VARINT \<and> bs = vslice v) r (read_stream_varint ops r)"
proof -
  obtain x r' where x: "rv_read_exact ops r 1 = (x, r')" by fastforce
  obtain bs where bs: "taken r' = taken r @ bs" "\<And>cs. x = Done (Ok cs) \<Longrightarrow> cs = bs \<and> length bs = 1"
    by (rule control_readerD[OF assms x]) blast
  show ?thesis
  proof (cases "\<exists>cs. x = Done (Ok cs)")
    case True
    then obtain cs where cs: "x = Done (Ok cs)" by blast
    then obtain b where b: "cs = [b]" "bs = [b]" using bs(2) by (cases bs) auto
    have "read_stream_varint ops r = read_varint_after_first ops r' b"
      using x cs b by (simp add: read_stream_varint_def first_byte_def)
    then show ?thesis
      using reads_then[of taken r' r bs, OF bs(1) read_after_first_reads[OF assms, of b r']] b(2) by auto
  next
    case False
    then have "\<exists>y. read_stream_varint ops r = (y, r') \<and> (\<forall>v. y \<noteq> Done (Ok v))"
      using x unfolding not_ok by (auto simp: read_stream_varint_def)
    then obtain y where y: "read_stream_varint ops r = (y, r')" "\<And>v. y \<noteq> Done (Ok v)" by blast
    show ?thesis unfolding y(1) by (rule reads_stop[of taken r' r bs, OF bs(1) y(2)])
  qed
qed

lemma receive_frame_type_reads:
  assumes "control_reader ops taken"
  shows "reads taken (\<lambda>t bs. bs = vslice (frame_type_wire t)) r (receive_frame_type ops r)"
proof -
  obtain x r' where x: "rv_read_exact ops r 1 = (x, r')" by fastforce
  obtain bs where bs: "taken r' = taken r @ bs" "\<And>cs. x = Done (Ok cs) \<Longrightarrow> cs = bs \<and> length bs = 1"
    by (rule control_readerD[OF assms x]) blast
  show ?thesis
  proof (cases "\<exists>cs. x = Done (Ok cs)")
    case True
    then obtain cs where cs: "x = Done (Ok cs)" by blast
    then obtain b where b: "cs = [b]" "bs = [b]" using bs(2) by (cases bs) auto
    obtain y r'' where y: "read_varint_after_first ops r' b = (y, r'')" by fastforce
    obtain bs' where bs': "taken r'' = taken r' @ bs'" "\<And>v. y = Done (Ok v) \<Longrightarrow> b # bs' = vslice v"
      using read_after_first_reads[OF assms, of b r'] unfolding y reads_def by auto
    have out: "receive_frame_type ops r =
        (case y of Cancelled \<Rightarrow> (Cancelled, r'') | Done v \<Rightarrow> (Done (result_bind v frame_type_from_wire), r''))"
      using x cs b y by (simp add: receive_frame_type_def first_byte_def)
    have "taken r'' = taken r @ (b # bs')" using bs(1) bs'(1) b(2) by simp
    moreover have "snd (receive_frame_type ops r) = r''" using out by (cases y) simp_all
    moreover have "b # bs' = vslice (frame_type_wire t)" if "fst (receive_frame_type ops r) = Done (Ok t)" for t
    proof -
      have "\<exists>v. y = Done (Ok v) \<and> frame_type_from_wire v = Ok t"
        using that out by (auto simp: result_bind_def split: awaited.splits result.splits)
      then show ?thesis using bs'(2) by (simp add: frame_type_from_wire_Ok)
    qed
    ultimately show ?thesis unfolding reads_def by blast
  next
    case False
    then have "\<exists>y. receive_frame_type ops r = (y, r') \<and> (\<forall>v. y \<noteq> Done (Ok v))"
      using x unfolding not_ok by (auto simp: receive_frame_type_def)
    then obtain y where y: "receive_frame_type ops r = (y, r')" "\<And>v. y \<noteq> Done (Ok v)" by blast
    show ?thesis unfolding y(1) by (rule reads_stop[of taken r' r bs, OF bs(1) y(2)])
  qed
qed

lemma validate_inbound_Ok: "validate_inbound_body_length t len c n = Ok k \<Longrightarrow> k = unat len"
  by (auto simp: validate_inbound_body_length_def u64_to_usize_eq ok_or_def split: if_splits)

lemma receive_frame_body_reads:
  assumes "control_reader ops taken"
  shows "reads taken (\<lambda>f bs. cf_type f = t \<and> sizable (t, cf_body f)
      \<and> bs = vslice (word_of_nat (length (cf_body f))) @ cf_body f) r (receive_frame_body alloc ops r t c n)"
proof -
  obtain x r' where x: "read_stream_varint ops r = (x, r')" by fastforce
  obtain bs where bs: "taken r' = taken r @ bs" "\<And>v. x = Done (Ok v) \<Longrightarrow> v \<le> MAX_VARINT \<and> bs = vslice v"
    using read_stream_varint_reads[OF assms, of r] unfolding x reads_def by auto
  have fail: ?thesis if "receive_frame_body alloc ops r t c n = (y, r')" "\<And>v. y \<noteq> Done (Ok v)" for y
    unfolding that(1) by (rule reads_stop[of taken r' r bs, OF bs(1) that(2)])
  show ?thesis
  proof (cases "\<exists>v k. x = Done (Ok v) \<and> validate_inbound_body_length t v c n = Ok k \<and> alloc k")
    case True
    then obtain v k where v: "x = Done (Ok v)" "validate_inbound_body_length t v c n = Ok k" "alloc k" by blast
    have k: "k = unat v" "v \<le> MAX_VARINT" "bs = vslice v"
      using validate_inbound_Ok[OF v(2)] bs(2)[OF v(1)] by auto
    show ?thesis
    proof (cases "k = 0")
      case True
      then have "v = 0" using k(1) by (simp add: unat_eq_0)
      then show ?thesis
        using True x v k bs(1) by (simp add: receive_frame_body_def reads_def sizable_def)
    next
      case False
      obtain y r'' where y: "rv_read_exact ops r' k = (y, r'')" by fastforce
      obtain ds where ds: "taken r'' = taken r' @ ds" "\<And>cs. y = Done (Ok cs) \<Longrightarrow> cs = ds \<and> length ds = k"
        by (rule control_readerD[OF assms y]) blast
      have grow: "taken r'' = taken r @ bs @ ds" using bs(1) ds(1) by simp
      show ?thesis
      proof (cases "\<exists>cs. y = Done (Ok cs)")
        case True
        then have y': "y = Done (Ok ds)" "length ds = k" using ds(2) by auto
        then have len: "word_of_nat (length ds) = v" using k(1) by simp
        have "sizable (t, ds)" using y'(2) k(1,2) by (simp add: sizable_def word_le_nat_alt)
        then show ?thesis
          using False x v y y' k(3) grow len
          by (auto simp: receive_frame_body_def reads_def)
      next
        case False
        then have "\<exists>z. receive_frame_body alloc ops r t c n = (z, r'') \<and> (\<forall>f. z \<noteq> Done (Ok f))"
          using \<open>k \<noteq> 0\<close> x v y unfolding not_ok by (auto simp: receive_frame_body_def)
        then obtain z where z: "receive_frame_body alloc ops r t c n = (z, r'')" "\<And>f. z \<noteq> Done (Ok f)" by blast
        show ?thesis unfolding z(1) by (rule reads_stop[of taken r'' r "bs @ ds", OF grow z(2)])
      qed
    qed
  next
    case False
    then have "\<exists>y. receive_frame_body alloc ops r t c n = (y, r') \<and> (\<forall>v. y \<noteq> Done (Ok v))"
      using x by (auto simp: receive_frame_body_def split: awaited.splits result.splits)
    then show ?thesis using fail by blast
  qed
qed

text \<open>
  A call of \<open>receive_frame\<close> takes exactly the bytes of the frame it returns and leaves the receiver
  clean; any other outcome poisons the receiver, which takes nothing any more.
\<close>

definition frame_of :: "control_frame \<Rightarrow> frame" where
  "frame_of f = (cf_type f, cf_body f)"

lemma receive_frame_effect:
  assumes "control_reader ops taken" "receive_frame alloc ops c = (x, c')"
  shows "cr_local_settings c' = cr_local_settings c \<and>
     (if cr_io_state c \<noteq> Clean then c' = c \<and> (\<forall>f. x \<noteq> Done (Ok f))
      else \<exists>bs. taken (cr_recv c') = taken (cr_recv c) @ bs
        \<and> (case x of Done (Ok f) \<Rightarrow> cr_io_state c' = Clean \<and> sizable (frame_of f) \<and> cf_type f \<noteq> SettingsType
               \<and> bs = control_frame_bytes (frame_of f)
           | _ \<Rightarrow> cr_io_state c' \<noteq> Clean))"
proof (cases "cr_io_state c")
  case Clean
  obtain y r1 where y: "receive_frame_type ops (cr_recv c) = (y, r1)" by fastforce
  obtain as where as: "taken r1 = taken (cr_recv c) @ as" "\<And>t. y = Done (Ok t) \<Longrightarrow> as = vslice (frame_type_wire t)"
    using receive_frame_type_reads[OF assms(1), of "cr_recv c"] unfolding y reads_def by auto
  show ?thesis
  proof (cases "\<exists>t. y = Done (Ok t) \<and> t \<noteq> SettingsType")
    case True
    then obtain t where t: "y = Done (Ok t)" "t \<noteq> SettingsType" by blast
    obtain z r2 where z: "receive_frame_body alloc ops r1 t (se_max_control_frame_bytes (cr_local_settings c))
        (se_max_negotiation_frame_bytes (cr_local_settings c)) = (z, r2)" by fastforce
    obtain bs where bs: "taken r2 = taken r1 @ bs" "\<And>f. z = Done (Ok f) \<Longrightarrow> cf_type f = t \<and> sizable (t, cf_body f)
        \<and> bs = vslice (word_of_nat (length (cf_body f))) @ cf_body f"
      using receive_frame_body_reads[OF assms(1), of t r1 alloc "se_max_control_frame_bytes (cr_local_settings c)"
          "se_max_negotiation_frame_bytes (cr_local_settings c)"] unfolding z reads_def by auto
    have "taken r2 = taken (cr_recv c) @ as @ bs" using as(1) bs(1) by simp
    moreover have "as @ bs = control_frame_bytes (frame_of f)" if "z = Done (Ok f)" for f
      using as(2)[OF t(1)] bs(2)[OF that] by (simp add: control_frame_bytes_def frame_of_def)
    ultimately show ?thesis
      using Clean assms(2) y t z bs(2)
      by (cases z rule: awaited.exhaust)
        (auto simp: receive_frame_def io_begin_def io_complete_def frame_of_def split: result.splits)
  next
    case False
    then show ?thesis
      using Clean assms(2) y as(1)
      by (cases y rule: awaited.exhaust)
        (auto simp: receive_frame_def io_begin_def split: result.splits if_splits)
  qed
next
  case InFlightOrPoisoned
  then show ?thesis using assms(2) by (auto simp: receive_frame_def io_begin_def)
qed

text \<open>Calls in a row, and the frames they return.\<close>

fun receive_all :: "(nat \<Rightarrow> bool) \<Rightarrow> 'r recv_ops \<Rightarrow> nat \<Rightarrow> 'r control_receiver \<Rightarrow> frame list \<times> 'r control_receiver" where
  "receive_all alloc ops 0 c = ([], c)"
| "receive_all alloc ops (Suc n) c =
     (case receive_frame alloc ops c of (x, c1) \<Rightarrow>
        case receive_all alloc ops n c1 of (fs, c2) \<Rightarrow>
          ((case x of Done (Ok f) \<Rightarrow> [frame_of f] | _ \<Rightarrow> []) @ fs, c2))"

definition receiver_took :: "('r \<Rightarrow> bytes) \<Rightarrow> bytes \<Rightarrow> frame list \<Rightarrow> 'r control_receiver \<Rightarrow> bool" where
  "receiver_took taken pre fs c \<longleftrightarrow> list_all sizable fs \<and>
     (\<exists>part. taken (cr_recv c) = pre @ concat (map control_frame_bytes fs) @ part
        \<and> (cr_io_state c = Clean \<longrightarrow> part = []))"

lemma receive_all_took:
  assumes "control_reader ops taken" "receiver_took taken pre fs0 c"
  shows "receiver_took taken pre (fs0 @ fst (receive_all alloc ops n c)) (snd (receive_all alloc ops n c))"
  using assms(2)
proof (induction n arbitrary: fs0 c)
  case 0
  then show ?case by simp
next
  case (Suc n)
  obtain x c1 where x: "receive_frame alloc ops c = (x, c1)" by fastforce
  let ?new = "case x of Done (Ok f) \<Rightarrow> [frame_of f] | _ \<Rightarrow> []"
  have "receiver_took taken pre (fs0 @ ?new) c1"
    using receive_frame_effect[OF assms(1) x] Suc.prems
    by (auto simp: receiver_took_def split: if_splits awaited.splits result.splits)
  from Suc.IH[OF this] show ?case using x by (cases "receive_all alloc ops n c1") simp
qed

end
