(* ===== verification/Control_Contract.thy ===== *)
theory Control_Contract
  imports Control_Safety
begin

text \<open>
  The properties of the control stream: the settings codec, the agreement that bootstrap reaches,
  and the frames that cross an established stream.
\<close>

section \<open>Bootstrap\<close>

definition settings_frame :: "settings \<Rightarrow> frame" where
  "settings_frame s = (SettingsType, settings_body s)"

lemma length_settings_body:
  assumes "settings_ok s"
  shows "length (settings_body s) \<le> MAX_SETTINGS_BODY_BYTES"
  using length_vslice[OF settings_ok_small(1)[OF assms]] length_vslice[OF settings_ok_small(2)[OF assms]]
    length_vslice[OF settings_ok_small(3)[OF assms]] length_vslice[OF settings_ok_small(4)[OF assms]]
  by (simp add: settings_body_def MAX_SETTINGS_BODY_BYTES_def)

lemma settings_body_room: "MAX_SETTINGS_BODY_BYTES \<le> unat MAX_VARINT"
  unfolding unat_MAX_VARINT MAX_SETTINGS_BODY_BYTES_def by simp

lemma settings_frame_sizable: "settings_ok s \<Longrightarrow> sizable (settings_frame s)"
  using order.trans[OF length_settings_body settings_body_room]
  unfolding sizable_def settings_frame_def snd_conv .

lemma settings_body_inject:
  assumes "settings_ok s" "settings_ok u" "settings_body s = settings_body u"
  shows "s = u"
proof -
  have "settings_decode (settings_body s) = Ok s" "settings_decode (settings_body u) = Ok u"
    using assms(1,2) by (simp_all add: settings_decode_iff)
  with assms(3) show ?thesis by (metis result.inject(1))
qed

lemma send_local_settings_effect:
  assumes "control_writer ops sent" "settings_ok (bs_local_settings (bc_state b))"
    and "bc_state b = bootstrap_state_new local"
  shows "\<exists>x b'. send_local_settings ops b = Some (x, b') \<and> bc_recv b' = bc_recv b
    \<and> (x = Done (Ok ()) \<longrightarrow> sent (bc_send b') = sent (bc_send b) @ control_frame_bytes (settings_frame local)
         \<and> bc_state b' = (bc_state b)\<lparr>bs_local_settings_sent := True\<rparr>)"
proof -
  obtain e where e: "settings_encode local = Some e" "settings_slice e = settings_body local"
    using settings_encode_ok assms(2,3) by (auto simp: bootstrap_state_new_def)
  obtain y w' where raw: "send_frame_raw ops (bc_send b) SettingsType (settings_body local) = Some (y, w')"
    "writes sent (control_frame_bytes (settings_frame local)) (bc_send b) (y, w')"
    using send_frame_raw_writes[OF assms(1), of "bc_send b" SettingsType "settings_body local"]
    by (auto simp: settings_frame_def)
  have type_ok: "validate_outbound_type (bc_state b) SettingsType = Ok ()"
    using assms(3) by (simp add: validate_outbound_type_def bootstrap_is_ready_def bootstrap_state_new_def)
  show ?thesis
  proof (cases "y = Done (Ok ())")
    case True
    then have "sent w' = sent (bc_send b) @ control_frame_bytes (settings_frame local)"
      using raw(2) by (auto simp: writes_def)
    then show ?thesis
      using True raw(1) type_ok e assms(3)
      by (simp add: send_local_settings_def mark_local_settings_sent_def bootstrap_state_new_def)
  next
    case False
    then have "y = Cancelled \<or> (\<exists>e. y = Done (Err e))" using not_ok[of y] by auto
    then show ?thesis
      using raw(1) type_ok e assms(3)
      by (auto simp: send_local_settings_def bootstrap_state_new_def)
  qed
qed

lemma receive_peer_settings_effect:
  assumes "control_reader ops taken" "receive_peer_settings alloc ops b = (Done (Ok u), b')"
    and "bs_peer_settings (bc_state b) = None"
  shows "\<exists>s. settings_ok s \<and> taken (bc_recv b') = taken (bc_recv b) @ control_frame_bytes (settings_frame s)
    \<and> se_semantic_role s = role_opposite (se_semantic_role (bs_local_settings (bc_state b)))
    \<and> bc_send b' = bc_send b \<and> bc_state b' = (bc_state b)\<lparr>bs_peer_settings := Some s\<rparr>"
proof -
  let ?c = "se_max_control_frame_bytes (bs_local_settings (bc_state b))"
    and ?n = "se_max_negotiation_frame_bytes (bs_local_settings (bc_state b))"
  obtain y r1 where y: "receive_frame_type ops (bc_recv b) = (y, r1)" by fastforce
  then obtain t where t: "y = Done (Ok t)"
    using assms(2) by (auto simp: receive_peer_settings_def split: awaited.splits result.splits)
  have "validate_inbound_type (bc_state b) t = Ok ()"
    using assms(2) y t by (auto simp: receive_peer_settings_def split: result.splits)
  then have settings: "t = SettingsType"
    using assms(3) by (auto simp: validate_inbound_type_def bootstrap_is_ready_def split: if_splits)
  obtain z r2 where z: "receive_frame_body alloc ops r1 t ?c ?n = (z, r2)" by fastforce
  then obtain f where f: "z = Done (Ok f)"
    using assms(2) y t by (auto simp: receive_peer_settings_def split: awaited.splits result.splits)
  obtain s where s: "settings_decode (cf_body f) = Ok s" "receive_settings (bc_state b) s = (Ok (), bc_state b')"
    "b' = b\<lparr>bc_recv := r2, bc_state := bc_state b'\<rparr>"
    using assms(2) y t z f by (auto simp: receive_peer_settings_def split: result.splits prod.splits)
  have body: "cf_body f = settings_body s" "settings_ok s" using s(1) by (simp_all add: settings_decode_iff)
  have "taken r1 = taken (bc_recv b) @ vslice (frame_type_wire t)"
    using receive_frame_type_reads[OF assms(1), of "bc_recv b"] y t by (simp add: reads_def)
  moreover have "taken r2 = taken r1 @ vslice (word_of_nat (length (cf_body f))) @ cf_body f"
    using receive_frame_body_reads[OF assms(1), of t r1 alloc ?c ?n] z f by (auto simp: reads_def)
  ultimately have "taken r2 = taken (bc_recv b) @ control_frame_bytes (settings_frame s)"
    using settings body(1) by (simp add: control_frame_bytes_def settings_frame_def)
  moreover have "bc_recv b' = r2" "bc_send b' = bc_send b" using s(3) by (metis bootstrap_control.select_convs bootstrap_control.surjective bootstrap_control.update_convs)+
  moreover have "bc_state b' = (bc_state b)\<lparr>bs_peer_settings := Some s\<rparr>
      \<and> se_semantic_role s = role_opposite (se_semantic_role (bs_local_settings (bc_state b)))"
    using s(2) assms(3) by (auto simp: receive_settings_def Let_def split: if_splits)
  ultimately show ?thesis using body(2) by auto
qed

text \<open>A bootstrap does not panic, and this is what it gives when it completes.\<close>

lemma bootstrap_effect:
  assumes w: "control_writer sops sent" and r: "control_reader rops taken" and ok: "settings_ok local"
    and start: "\<And>wr rd. opened = Done (Ok (wr, rd)) \<Longrightarrow> sent wr = [] \<and> taken rd = []"
  shows "\<exists>x. bootstrap_control_with expected alloc sops rops side opened zero local = Some x
    \<and> (\<forall>ready. x = Done (Ok ready) \<longrightarrow> (\<exists>peer. settings_ok peer \<and> pr_peer_settings ready = peer
         \<and> se_semantic_role peer = role_opposite (se_semantic_role local)
         \<and> sent (ct_send (pr_sender ready)) = control_frame_bytes (settings_frame local)
         \<and> taken (cr_recv (pr_receiver ready)) = control_frame_bytes (settings_frame peer)
         \<and> ct_io_state (pr_sender ready) = Clean \<and> cr_io_state (pr_receiver ready) = Clean
         \<and> ct_local_settings (pr_sender ready) = local \<and> ct_peer_settings (pr_sender ready) = peer
         \<and> cr_local_settings (pr_receiver ready) = local \<and> pr_side ready = expected))"
proof (cases "side = expected \<and> (\<exists>wr rd. opened = Done (Ok (wr, rd)) \<and> \<not> zero rd)")
  case False
  then show ?thesis
    by (auto simp: bootstrap_control_with_def split: awaited.splits result.splits)
next
  case True
  then obtain wr rd where op: "side = expected" "opened = Done (Ok (wr, rd))" "\<not> zero rd" by blast
  let ?b = "\<lparr>bc_send = wr, bc_recv = rd, bc_state = bootstrap_state_new local\<rparr>"
  obtain y b1 where y: "send_local_settings sops ?b = Some (y, b1)" "bc_recv b1 = rd"
    "y = Done (Ok ()) \<Longrightarrow> sent (bc_send b1) = control_frame_bytes (settings_frame local)
       \<and> bc_state b1 = (bootstrap_state_new local)\<lparr>bs_local_settings_sent := True\<rparr>"
    using send_local_settings_effect[OF w, of ?b local] ok start[OF op(2)]
    by (auto simp: bootstrap_state_new_def)
  show ?thesis
  proof (cases "y = Done (Ok ())")
    case False
    then have "y = Cancelled \<or> (\<exists>e. y = Done (Err e))" using not_ok[of y] by auto
    then show ?thesis using op y(1) by (auto simp: bootstrap_control_with_def)
  next
    case True
    obtain z b2 where z: "receive_peer_settings alloc rops b1 = (z, b2)" by fastforce
    show ?thesis
    proof (cases "z = Done (Ok ())")
      case False
      then have "z = Cancelled \<or> (\<exists>e. z = Done (Err e))" using not_ok[of z] by auto
      then show ?thesis using op y(1) True z by (auto simp: bootstrap_control_with_def)
    next
      case ok': True
      have none: "bs_peer_settings (bc_state b1) = None" "bs_local_settings (bc_state b1) = local"
        using y(3)[OF True] by (simp_all add: bootstrap_state_new_def)
      obtain peer where peer: "settings_ok peer" "taken (bc_recv b2) = control_frame_bytes (settings_frame peer)"
        "se_semantic_role peer = role_opposite (se_semantic_role local)" "bc_send b2 = bc_send b1"
        "bc_state b2 = (bc_state b1)\<lparr>bs_peer_settings := Some peer\<rparr>"
        using receive_peer_settings_effect[OF r z[unfolded ok'] none(1)] y(2) start[OF op(2)] none(2) by auto
      then show ?thesis
        using op y True z ok' none(2) by (auto simp: bootstrap_control_with_def into_ready_parts_def)
    qed
  qed
qed

section \<open>Delivery\<close>

text \<open>A reader that has the bytes \<open>ahead\<close> of it gives them when asked.\<close>

definition control_supply :: "'r recv_ops \<Rightarrow> ('r \<Rightarrow> bytes) \<Rightarrow> bool" where
  "control_supply ops ahead \<longleftrightarrow>
     (\<forall>r n. n \<le> length (ahead r) \<longrightarrow>
        fst (rv_read_exact ops r n) = Done (Ok (take n (ahead r)))
        \<and> ahead (snd (rv_read_exact ops r n)) = drop n (ahead r))"

lemma supplied:
  assumes "control_supply ops ahead" "ahead r = bs @ rest"
  obtains r' where "rv_read_exact ops r (length bs) = (Done (Ok bs), r')" "ahead r' = rest"
proof -
  have "fst (rv_read_exact ops r (length bs)) = Done (Ok bs)" "ahead (snd (rv_read_exact ops r (length bs))) = rest"
    using assms unfolding control_supply_def by (auto dest: spec[of _ r])
  then show ?thesis using that[of "snd (rv_read_exact ops r (length bs))"] by (metis prod.collapse)
qed

lemma vslice_first:
  assumes "v \<le> MAX_VARINT"
  obtains b bs where "vslice v = b # bs" "encoded_len_from_first b = length bs + 1"
    "decode_varint (b # bs) = Ok (v, length bs + 1)"
proof -
  have dec: "decode_varint (vslice v) = Ok (v, length (vslice v))" using decode_vslice[OF assms, of "[]"] by simp
  obtain b bs where b: "vslice v = b # bs" using length_vslice[OF assms] by (cases "vslice v") auto
  have "encoded_len_from_first b = length bs + 1"
    using dec unfolding b by (auto simp: decode_varint_def Let_def split: if_splits)
  then show ?thesis using that b dec by simp
qed

lemma supplied_after_first:
  assumes "control_supply ops ahead" "decode_varint (b # bs) = Ok (v, length bs + 1)"
    "encoded_len_from_first b = length bs + 1" "ahead r = bs @ rest"
  obtains r' where "read_varint_after_first ops r b = (Done (Ok v), r')" "ahead r' = rest"
proof (cases "bs = []")
  case True
  then show ?thesis
    using assms(2-4) that[of r] by (simp add: read_varint_after_first_def Let_def result_bind_def)
next
  case False
  obtain r' where "rv_read_exact ops r (length bs) = (Done (Ok bs), r')" "ahead r' = rest"
    using supplied[OF assms(1,4)] by blast
  then show ?thesis
    using assms(2,3) False that[of r'] by (simp add: read_varint_after_first_def Let_def result_bind_def)
qed

lemma supplied_varint:
  assumes "control_supply ops ahead" "v \<le> MAX_VARINT" "ahead r = vslice v @ rest"
  obtains b r1 r' where "rv_read_exact ops r 1 = (Done (Ok [b]), r1)"
    "read_varint_after_first ops r1 b = (Done (Ok v), r')" "ahead r' = rest"
proof -
  obtain b bs where b: "vslice v = b # bs" "encoded_len_from_first b = length bs + 1"
    "decode_varint (b # bs) = Ok (v, length bs + 1)"
    using vslice_first[OF assms(2)] by blast
  obtain r1 where r1: "rv_read_exact ops r (length [b]) = (Done (Ok [b]), r1)" "ahead r1 = bs @ rest"
    using supplied[OF assms(1), of r "[b]" "bs @ rest"] assms(3) b(1) by auto
  obtain r' where "read_varint_after_first ops r1 b = (Done (Ok v), r')" "ahead r' = rest"
    using supplied_after_first[OF assms(1) b(3,2) r1(2)] by blast
  with r1 show ?thesis using that by simp
qed

lemma receive_frame_supplied:
  assumes sup: "control_supply ops ahead" and f: "sizable f" "fst f \<noteq> SettingsType"
    and fits: "validate_inbound_body_length (fst f) (word_of_nat (length (snd f)))
      (se_max_control_frame_bytes (cr_local_settings c)) (se_max_negotiation_frame_bytes (cr_local_settings c))
        = Ok (length (snd f))"
    and mem: "alloc (length (snd f))" and clean: "cr_io_state c = Clean"
    and ahead: "ahead (cr_recv c) = control_frame_bytes f @ rest"
  shows "\<exists>c'. receive_frame alloc ops c = (Done (Ok \<lparr>cf_type = fst f, cf_body = snd f\<rparr>), c')
    \<and> cr_io_state c' = Clean \<and> ahead (cr_recv c') = rest"
proof -
  let ?len = "word_of_nat (length (snd f)) :: u64"
  obtain b r1 r2 where r2: "rv_read_exact ops (cr_recv c) 1 = (Done (Ok [b]), r1)"
    "read_varint_after_first ops r1 b = (Done (Ok (frame_type_wire (fst f))), r2)"
    "ahead r2 = vslice ?len @ snd f @ rest"
    by (rule supplied_varint[OF sup frame_type_wire_small, of "cr_recv c" "fst f" "vslice ?len @ snd f @ rest"])
      (use ahead in \<open>simp_all add: control_frame_bytes_def\<close>)
  have type_ok: "receive_frame_type ops (cr_recv c) = (Done (Ok (fst f)), r2)"
    using r2(1,2) frame_type_from_wire_Ok[of "frame_type_wire (fst f)" "fst f"]
    by (simp add: receive_frame_type_def first_byte_def result_bind_def)
  obtain b' r3 r4 where r4: "rv_read_exact ops r2 1 = (Done (Ok [b']), r3)"
    "read_varint_after_first ops r3 b' = (Done (Ok ?len), r4)" "ahead r4 = snd f @ rest"
    using supplied_varint[OF sup sizable_word(1)[OF f(1)] r2(3)] by blast
  have len: "read_stream_varint ops r2 = (Done (Ok ?len), r4)"
    using r4(1,2) by (simp add: read_stream_varint_def first_byte_def)
  obtain r5 where r5: "rv_read_exact ops r4 (length (snd f)) = (Done (Ok (snd f)), r5)" "ahead r5 = rest"
    using supplied[OF sup r4(3)] by blast
  show ?thesis
  proof (cases "snd f = []")
    case True
    then show ?thesis
      using f(2) fits mem clean type_ok len r4(3)
      by (simp add: receive_frame_def receive_frame_body_def io_begin_def io_complete_def)
  next
    case False
    then show ?thesis
      using f(2) fits mem clean type_ok len r5
      by (simp add: receive_frame_def receive_frame_body_def io_begin_def io_complete_def)
  qed
qed

text \<open>What a sender may send fits the limits that the peer announced.\<close>

lemma outbound_fits_inbound:
  assumes "validate_outbound_body l p t n = Ok u" "n \<le> usize_max"
  shows "validate_inbound_body_length t (word_of_nat n)
    (se_max_control_frame_bytes p) (se_max_negotiation_frame_bytes p) = Ok n"
proof -
  have "n < 2 ^ 64" using assms(1) by (auto simp: validate_outbound_body_def usize_to_u64_def split: if_splits)
  then have "unat (word_of_nat n :: u64) = n" by (rule word_of_small)
  then show ?thesis
    using assms by (auto simp: validate_outbound_body_def validate_inbound_body_length_def usize_to_u64_def
        u64_to_usize_def ok_or_def Let_def not_less split: if_splits)
qed

section \<open>A transport\<close>

text \<open>A writer that takes at most four bytes at a time, and a reader with its bytes ahead of it.\<close>

definition demo_send :: "bytes send_ops" where
  "demo_send = \<lparr>so_write = (\<lambda>w bs. (Done (Ok (min 4 (length bs))), w @ take 4 bs)),
     so_finish = (\<lambda>w. (Ok (), w)), so_stopped = (\<lambda>w. (Done (Ok None), w))\<rparr>"

definition demo_recv :: "(bytes \<times> bytes) recv_ops" where
  "demo_recv = \<lparr>rv_read_exact = (\<lambda>(ahead, took) n.
     if n \<le> length ahead then (Done (Ok (take n ahead)), drop n ahead, took @ take n ahead)
     else (Done (Err (FinishedEarly (length ahead))), [], took @ ahead))\<rparr>"

definition demo_settings :: "semantic_role \<Rightarrow> settings" where
  "demo_settings role = \<lparr>se_semantic_role = role, se_max_control_frame_bytes = 100,
     se_max_negotiation_frame_bytes = 50, se_max_active_incoming_flows = 4, se_max_incoming_message_bytes = 20\<rparr>"

definition demo_settings_bytes :: "u8 \<Rightarrow> bytes" where
  "demo_settings_bytes role = [0, 6, role, 0x40, 100, 50, 4, 20]"

definition demo_control_sender :: "bytes control_sender" where
  "demo_control_sender = \<lparr>ct_send = [], ct_local_settings = demo_settings Authority,
     ct_peer_settings = demo_settings NonAuthority, ct_io_state = Clean\<rparr>"

definition demo_control_receiver :: "bytes \<Rightarrow> (bytes \<times> bytes) control_receiver" where
  "demo_control_receiver ahead = \<lparr>cr_recv = (ahead, []), cr_local_settings = demo_settings NonAuthority, cr_io_state = Clean\<rparr>"

lemma demo_send_law: "control_writer demo_send id"
  by (auto simp: control_writer_def demo_send_def min_def)

lemma demo_recv_law: "control_reader demo_recv snd"
  by (auto simp: control_reader_def demo_recv_def)

lemma demo_supply_law: "control_supply demo_recv fst"
  by (auto simp: control_supply_def demo_recv_def)

lemma demo_settings_ok: "settings_ok (demo_settings role)"
  by (simp add: settings_ok_def settings_validate_def demo_settings_def MAX_SETTINGS_BODY_BYTES_def
      MIN_NEGOTIATION_OFFER_BODY_BYTES_def QUIC_MAX_STREAM_COUNT_def MAX_VARINT_def)

definition demo_client :: "(bytes, bytes \<times> bytes) profile_ready option" where
  "demo_client = (case bootstrap_client_control (\<lambda>_. True) demo_send demo_recv Client
       (Done (Ok ([], (demo_settings_bytes 1, [])))) (\<lambda>_. False) (demo_settings NonAuthority)
     of Some (Done (Ok c)) \<Rightarrow> Some c | _ \<Rightarrow> None)"

definition demo_server :: "(bytes, bytes \<times> bytes) profile_ready option" where
  "demo_server = (case bootstrap_server_control (\<lambda>_. True) demo_send demo_recv Server
       (Done (Ok ([], (demo_settings_bytes 0, [])))) (\<lambda>_. False) (demo_settings Authority)
     of Some (Done (Ok s)) \<Rightarrow> Some s | _ \<Rightarrow> None)"

lemmas control_eval =
  demo_send_def demo_recv_def demo_settings_def demo_settings_bytes_def demo_control_sender_def demo_control_receiver_def
  MAX_SETTINGS_BODY_BYTES_def MIN_NEGOTIATION_OFFER_BODY_BYTES_def QUIC_MAX_STREAM_COUNT_def MAX_VARINT_def
  role_wire_def role_opposite_def role_from_wire_def encode_varint_def varint_len_def varint_buffer_def
  varint_slice_def usize_to_u64_def u64_to_usize_def usize_max_def ok_or_def result_bind_def send_frame_raw_def
  write_part.simps frame_type_wire_def frame_type_from_wire_def read_stream_varint_def
  read_varint_after_first_def first_byte_def encoded_len_from_first_def decode_varint_def shift_in_def
  receive_frame_type_def receive_frame_body_def validate_inbound_body_length_def is_negotiation_def
  io_begin_def io_complete_def send_frame_def validate_outbound_body_def receive_frame_def frame_of_def

lemmas bootstrap_eval =
  bootstrap_client_control_def bootstrap_server_control_def bootstrap_control_with_def
  send_local_settings_def receive_peer_settings_def into_ready_parts_def bootstrap_state_new_def
  validate_outbound_type_def validate_inbound_type_def bootstrap_is_ready_def mark_local_settings_sent_def
  receive_settings_def settings_decode_def settings_read_varint_def settings_read_finish_def
  settings_validate_def

lemma be_bytes_2: "be_bytes 2 (w :: 'a::len word) = [ucast (drop_bit 8 w), ucast w]"
  by (simp add: eval_nat_numeral)

lemma demo_settings_encode:
  obtains e where "settings_encode (demo_settings role) = Some e"
    "settings_slice e = [role_wire role, 0x40, 100, 50, 4, 20]"
proof -
  have "settings_body (demo_settings role) = [role_wire role, 0x40, 100, 50, 4, 20]"
    by (simp add: settings_body_def demo_settings_def vslice_def encode_varint_def varint_len_def varint_buffer_def
        varint_slice_def be_bytes_2)
  then show ?thesis using settings_encode_ok[OF demo_settings_ok[of role]] that by auto
qed

lemma demo_client_run:
  "map_option (\<lambda>c. (ct_send (pr_sender c), snd (cr_recv (pr_receiver c)))) demo_client
     = Some (demo_settings_bytes 0, demo_settings_bytes 1)"
proof -
  obtain e where e: "settings_encode (demo_settings NonAuthority) = Some e"
    "settings_slice e = [0, 0x40, 100, 50, 4, 20]"
    using demo_settings_encode[of NonAuthority] by (auto simp: role_wire_def)
  show ?thesis
    by (simp add: demo_client_def e[unfolded demo_settings_def] control_eval bootstrap_eval Let_def)
qed

lemma demo_server_run:
  "map_option (\<lambda>s. (ct_send (pr_sender s), snd (cr_recv (pr_receiver s)))) demo_server
     = Some (demo_settings_bytes 1, demo_settings_bytes 0)"
proof -
  obtain e where e: "settings_encode (demo_settings Authority) = Some e"
    "settings_slice e = [1, 0x40, 100, 50, 4, 20]"
    using demo_settings_encode[of Authority] by (auto simp: role_wire_def)
  show ?thesis
    by (simp add: demo_server_def e[unfolded demo_settings_def] control_eval bootstrap_eval Let_def)
qed

lemma receive_all_numeral:
  "receive_all alloc ops (numeral k) c =
     (case receive_frame alloc ops c of (x, c1) \<Rightarrow>
        case receive_all alloc ops (pred_numeral k) c1 of (fs, c2) \<Rightarrow>
          ((case x of Done (Ok f) \<Rightarrow> [frame_of f] | _ \<Rightarrow> []) @ fs, c2))"
  by (simp add: numeral_eq_Suc)

section \<open>Properties\<close>

text \<open>
  The SETTINGS body is exact: decoding accepts a byte string, with some settings, if and only if
  those settings are valid and the string is what encoding them produces. Unknown roles, trailing
  bytes, longer varints and inconsistent limits are refused, and encoding settings that a peer would
  accept never panics.
\<close>

theorem settings_exact:
  "settings_decode bs = Ok s \<longleftrightarrow> settings_ok s \<and> (\<exists>w. settings_encode s = Some w \<and> settings_slice w = bs)"
  using settings_encode_ok[of s] unfolding settings_decode_iff by auto

text \<open>
  C14: The two bootstraps agree. For any transport that carries the bytes of each direction in order
  (each writer's bytes and the opposite reader's are beginnings of one stream), whatever the sizes of
  the writes: neither bootstrap panics, and if both complete, each has received the settings of the
  other, their roles are opposite, both directions are clean, and each reader has taken exactly what
  the opposite writer has sent.
\<close>

theorem bootstrap_agreement:
  assumes "control_writer cw csent" "control_reader cr ctaken" "control_writer sw ssent" "control_reader sr staken"
    and "settings_ok client" "settings_ok server"
    and "csent w0 = []" "ctaken r0 = []" "ssent w1 = []" "staken r1 = []"
  shows "(\<exists>x. bootstrap_client_control calloc cw cr cside (Done (Ok (w0, r0))) c0rtt client = Some x)
    \<and> (\<exists>y. bootstrap_server_control salloc sw sr sside (Done (Ok (w1, r1))) s0rtt server = Some y)
    \<and> (\<forall>c s more1 more2 more3 more4.
        bootstrap_client_control calloc cw cr cside (Done (Ok (w0, r0))) c0rtt client = Some (Done (Ok c))
        \<and> bootstrap_server_control salloc sw sr sside (Done (Ok (w1, r1))) s0rtt server = Some (Done (Ok s))
        \<and> csent (ct_send (pr_sender c)) @ more1 = staken (cr_recv (pr_receiver s)) @ more2
        \<and> ssent (ct_send (pr_sender s)) @ more3 = ctaken (cr_recv (pr_receiver c)) @ more4 \<longrightarrow>
        pr_peer_settings c = server \<and> pr_peer_settings s = client
        \<and> ct_peer_settings (pr_sender c) = cr_local_settings (pr_receiver s)
        \<and> ct_peer_settings (pr_sender s) = cr_local_settings (pr_receiver c)
        \<and> se_semantic_role server = role_opposite (se_semantic_role client)
        \<and> pr_side c = Client \<and> pr_side s = Server
        \<and> sender_wrote csent (csent (ct_send (pr_sender c))) [] [] (pr_sender c)
        \<and> receiver_took staken (csent (ct_send (pr_sender c))) [] (pr_receiver s)
        \<and> sender_wrote ssent (ssent (ct_send (pr_sender s))) [] [] (pr_sender s)
        \<and> receiver_took ctaken (ssent (ct_send (pr_sender s))) [] (pr_receiver c))"
proof -
  note client = bootstrap_effect[OF assms(1,2,5), of "Done (Ok (w0, r0))" Client calloc cside c0rtt]
  note server = bootstrap_effect[OF assms(3,4,6), of "Done (Ok (w1, r1))" Server salloc sside s0rtt]
  have total: "\<exists>x. bootstrap_client_control calloc cw cr cside (Done (Ok (w0, r0))) c0rtt client = Some x"
    "\<exists>y. bootstrap_server_control salloc sw sr sside (Done (Ok (w1, r1))) s0rtt server = Some y"
    using client server assms(7-10) by (auto simp: bootstrap_client_control_def bootstrap_server_control_def)
  have agree: "pr_peer_settings c = server \<and> pr_peer_settings s = client
        \<and> ct_peer_settings (pr_sender c) = cr_local_settings (pr_receiver s)
        \<and> ct_peer_settings (pr_sender s) = cr_local_settings (pr_receiver c)
        \<and> se_semantic_role server = role_opposite (se_semantic_role client)
        \<and> pr_side c = Client \<and> pr_side s = Server
        \<and> sender_wrote csent (csent (ct_send (pr_sender c))) [] [] (pr_sender c)
        \<and> receiver_took staken (csent (ct_send (pr_sender c))) [] (pr_receiver s)
        \<and> sender_wrote ssent (ssent (ct_send (pr_sender s))) [] [] (pr_sender s)
        \<and> receiver_took ctaken (ssent (ct_send (pr_sender s))) [] (pr_receiver c)"
    if c: "bootstrap_client_control calloc cw cr cside (Done (Ok (w0, r0))) c0rtt client = Some (Done (Ok c))"
      and s: "bootstrap_server_control salloc sw sr sside (Done (Ok (w1, r1))) s0rtt server = Some (Done (Ok s))"
      and up: "csent (ct_send (pr_sender c)) @ more1 = staken (cr_recv (pr_receiver s)) @ more2"
      and down: "ssent (ct_send (pr_sender s)) @ more3 = ctaken (cr_recv (pr_receiver c)) @ more4"
    for c s more1 more2 more3 more4
  proof -
    obtain p where p: "settings_ok p" "pr_peer_settings c = p" "se_semantic_role p = role_opposite (se_semantic_role client)"
      "csent (ct_send (pr_sender c)) = control_frame_bytes (settings_frame client)"
      "ctaken (cr_recv (pr_receiver c)) = control_frame_bytes (settings_frame p)"
      "ct_io_state (pr_sender c) = Clean" "cr_io_state (pr_receiver c) = Clean"
      "ct_peer_settings (pr_sender c) = p" "cr_local_settings (pr_receiver c) = client" "pr_side c = Client"
      using client assms(7,8) c by (auto simp: bootstrap_client_control_def)
    obtain q where q: "settings_ok q" "pr_peer_settings s = q" "se_semantic_role q = role_opposite (se_semantic_role server)"
      "ssent (ct_send (pr_sender s)) = control_frame_bytes (settings_frame server)"
      "staken (cr_recv (pr_receiver s)) = control_frame_bytes (settings_frame q)"
      "ct_io_state (pr_sender s) = Clean" "cr_io_state (pr_receiver s) = Clean"
      "ct_peer_settings (pr_sender s) = q" "cr_local_settings (pr_receiver s) = server" "pr_side s = Server"
      using server assms(9,10) s by (auto simp: bootstrap_server_control_def)
    have "settings_frame q = settings_frame client" "settings_frame p = settings_frame server"
      using assms(5,6) up down p q frame_append_inject[OF settings_frame_sizable settings_frame_sizable] by metis+
    then have "q = client" "p = server"
      using settings_body_inject p(1) q(1) assms(5,6) by (auto simp: settings_frame_def)
    then show ?thesis using p q by (simp add: sender_wrote_def receiver_took_def)
  qed
  show ?thesis using total agree by blast
qed

theorem bootstrap_agreement_witness:
  "\<exists>c s. bootstrap_client_control (\<lambda>_. True) demo_send demo_recv Client
       (Done (Ok ([], (demo_settings_bytes 1, [])))) (\<lambda>_. False) (demo_settings NonAuthority) = Some (Done (Ok c))
     \<and> bootstrap_server_control (\<lambda>_. True) demo_send demo_recv Server
       (Done (Ok ([], (demo_settings_bytes 0, [])))) (\<lambda>_. False) (demo_settings Authority) = Some (Done (Ok s))
     \<and> pr_peer_settings c = demo_settings Authority \<and> pr_peer_settings s = demo_settings NonAuthority"
proof -
  obtain c where c: "demo_client = Some c" "ct_send (pr_sender c) = demo_settings_bytes 0"
    "snd (cr_recv (pr_receiver c)) = demo_settings_bytes 1"
    using demo_client_run by auto
  obtain s where s: "demo_server = Some s" "ct_send (pr_sender s) = demo_settings_bytes 1"
    "snd (cr_recv (pr_receiver s)) = demo_settings_bytes 0"
    using demo_server_run by auto
  have run: "bootstrap_client_control (\<lambda>_. True) demo_send demo_recv Client
       (Done (Ok ([], (demo_settings_bytes 1, [])))) (\<lambda>_. False) (demo_settings NonAuthority) = Some (Done (Ok c))"
    "bootstrap_server_control (\<lambda>_. True) demo_send demo_recv Server
       (Done (Ok ([], (demo_settings_bytes 0, [])))) (\<lambda>_. False) (demo_settings Authority) = Some (Done (Ok s))"
    using c(1) s(1) unfolding demo_client_def demo_server_def
    by (auto split: option.splits awaited.splits result.splits)
  have carried: "id (ct_send (pr_sender c)) @ [] = snd (cr_recv (pr_receiver s)) @ []"
    "id (ct_send (pr_sender s)) @ [] = snd (cr_recv (pr_receiver c)) @ []"
    using c s by simp_all
  have "pr_peer_settings c = demo_settings Authority \<and> pr_peer_settings s = demo_settings NonAuthority"
    using bootstrap_agreement[OF demo_send_law demo_recv_law demo_send_law demo_recv_law demo_settings_ok demo_settings_ok,
        of "[]" "(demo_settings_bytes 1, [])" "[]" "(demo_settings_bytes 0, [])" "\<lambda>_. True" Client "\<lambda>_. False"
        NonAuthority "\<lambda>_. True" Server "\<lambda>_. False" Authority] run carried by simp
  then show ?thesis using run by blast
qed

text \<open>
  C8: The frames of an established control stream. Let a transport carry the sender's bytes in order
  to the receiver, with writes and reads of any size and any failure or cancellation on either side.
  Whatever calls of \<open>send_frame\<close> are made, none panics, and whatever calls of \<open>receive_frame\<close>, the
  frames they return are a prefix, in order and unaltered, of the frames whose sending succeeded,
  followed at most by the one frame whose sending broke off, and then the sender is poisoned. A direction
  that broke off inside a frame never sends or returns another.
\<close>

theorem control_stream_exact:
  assumes "control_writer wops sent" "control_reader rops taken"
    and "sender_wrote sent pre [] [] s0" "receiver_took taken pre [] c0"
  shows "\<exists>fs s. send_all wops calls s0 = Some (fs, s)
    \<and> (\<exists>pick. fs = map fst (filter snd (zip calls pick)) \<and> length pick = length calls)
    \<and> (sent (ct_send s) = taken (cr_recv (snd (receive_all alloc rops n c0))) @ later \<longrightarrow>
        (\<exists>torn. length torn \<le> 1 \<and> set torn \<subseteq> set calls \<and> (ct_io_state s = Clean \<longrightarrow> torn = [])
           \<and> (let got = fst (receive_all alloc rops n c0) in got = take (length got) (fs @ torn))))"
proof -
  obtain fs s where run: "send_all wops calls s0 = Some (fs, s)" "sender_wrote sent pre ([] @ calls) ([] @ fs) s"
    "\<exists>pick. fs = map fst (filter snd (zip calls pick)) \<and> length pick = length calls"
    using send_all_wrote[OF assms(1,3)] by blast
  have got: "receiver_took taken pre ([] @ fst (receive_all alloc rops n c0)) (snd (receive_all alloc rops n c0))"
    by (rule receive_all_took[OF assms(2,4)])
  obtain part where w: "list_all sizable fs" "sent (ct_send s) = pre @ concat (map control_frame_bytes fs) @ part"
    "part = [] \<or> ct_io_state s \<noteq> Clean \<and> (\<exists>f rest. f \<in> set calls \<and> sizable f \<and> control_frame_bytes f = part @ rest)"
    using run(2) by (auto simp: sender_wrote_def)
  obtain tl where r: "list_all sizable (fst (receive_all alloc rops n c0))"
    "taken (cr_recv (snd (receive_all alloc rops n c0)))
       = pre @ concat (map control_frame_bytes (fst (receive_all alloc rops n c0))) @ tl"
    using got by (auto simp: receiver_took_def)
  obtain torn rest where torn: "list_all sizable torn" "length torn \<le> 1" "set torn \<subseteq> set calls" "concat (map control_frame_bytes torn) = part @ rest"
    "ct_io_state s = Clean \<longrightarrow> torn = []"
  proof (cases "part = []")
    case True
    then show ?thesis using that[of "[]" "[]"] by simp
  next
    case False
    then obtain f rest where "f \<in> set calls" "sizable f" "control_frame_bytes f = part @ rest" "ct_io_state s \<noteq> Clean"
      using w(3) by blast
    then show ?thesis using that[of "[f]" rest] by simp
  qed
  have "fst (receive_all alloc rops n c0) = take (length (fst (receive_all alloc rops n c0))) (fs @ torn)"
    if "sent (ct_send s) = taken (cr_recv (snd (receive_all alloc rops n c0))) @ later"
    using frames_agree[OF r(1), of "fs @ torn" "tl @ later @ rest"] that w(1,2) r(2) torn(1,4) by simp
  then show ?thesis using run(1,3) torn(2,3,5) by (auto simp: Let_def)
qed

text \<open>
  A frame sent is a frame received. If a call of \<open>send_frame\<close> succeeds, towards a peer whose
  announced settings the receiver holds, then a clean receiver that has the bytes of that call ahead
  of it returns exactly that frame, stays clean, and leaves what follows: the sender never sends what
  the peer's limits refuse.
\<close>

theorem sent_frame_is_received:
  assumes "control_writer wops sent" "control_supply rops ahead"
    and "send_frame wops s t body = Some (Done (Ok ()), s')"
    and "sent (ct_send s') = sent (ct_send s) @ bs" "ahead (cr_recv c) = bs @ rest"
    and "cr_io_state c = Clean" "cr_local_settings c = ct_peer_settings s"
    and "length body \<le> usize_max" "alloc (length body)"
  shows "\<exists>c'. receive_frame alloc rops c = (Done (Ok \<lparr>cf_type = t, cf_body = body\<rparr>), c')
    \<and> cr_io_state c' = Clean \<and> ahead (cr_recv c') = rest"
proof -
  have eff: "sizable (t, body)" "bs = control_frame_bytes (t, body)"
    using send_frame_effect[OF assms(1), of s t body] assms(3,4) by auto
  have "t \<noteq> SettingsType" using assms(3) by (auto simp: send_frame_def)
  moreover obtain u where "validate_outbound_body (ct_local_settings s) (ct_peer_settings s) t (length body) = Ok u"
    using assms(3) by (auto simp: send_frame_def split: if_splits result.splits)
  ultimately show ?thesis
    using receive_frame_supplied[OF assms(2) eff(1), of c alloc rest] outbound_fits_inbound[OF _ assms(8)]
      assms(5-7,9) eff(2) by auto
qed

definition demo_frames :: "frame list" where
  "demo_frames = [(OpenFlowType, [1, 2, 3]), (SettingsType, []), (FlowRejectType, [9])]"

lemma demo_sends:
  "map_option (\<lambda>(fs, s). (fs, ct_send s)) (send_all demo_send demo_frames demo_control_sender)
     = Some ([(OpenFlowType, [1, 2, 3]), (FlowRejectType, [9])], [6, 3, 1, 2, 3, 8, 1, 9])"
  "fst (receive_all (\<lambda>_. True) demo_recv 5 (demo_control_receiver [6, 3, 1, 2, 3, 8, 1])) = [(OpenFlowType, [1, 2, 3])]"
  "snd (cr_recv (snd (receive_all (\<lambda>_. True) demo_recv 5 (demo_control_receiver [6, 3, 1, 2, 3, 8, 1])))) = [6, 3, 1, 2, 3, 8, 1]"
  by (simp_all add: demo_frames_def control_eval Let_def receive_all_numeral)

theorem control_stream_exact_witness:
  "\<exists>fs s. send_all demo_send demo_frames demo_control_sender = Some (fs, s)
    \<and> (\<exists>torn. fst (receive_all (\<lambda>_. True) demo_recv 5 (demo_control_receiver [6, 3, 1, 2, 3, 8, 1])) = take 1 (fs @ torn))"
proof -
  have start: "sender_wrote id [] [] [] demo_control_sender"
    "receiver_took snd [] [] (demo_control_receiver [6, 3, 1, 2, 3, 8, 1])"
    by (simp_all add: sender_wrote_def receiver_took_def demo_control_sender_def demo_control_receiver_def)
  obtain fs s where s: "send_all demo_send demo_frames demo_control_sender = Some (fs, s)"
    "ct_send s = [6, 3, 1, 2, 3, 8, 1, 9]"
    using demo_sends(1) by auto
  show ?thesis
    using control_stream_exact[OF demo_send_law demo_recv_law start, of demo_frames "\<lambda>_. True" 5 "[9]"]
      s demo_sends(2,3) by (auto simp: Let_def)
qed

theorem sent_frame_is_received_witness:
  "\<exists>c'. receive_frame (\<lambda>_. True) demo_recv (demo_control_receiver [6, 3, 1, 2, 3, 8])
     = (Done (Ok \<lparr>cf_type = OpenFlowType, cf_body = [1, 2, 3]\<rparr>), c')"
proof -
  have sent: "map_option (\<lambda>(x, s). (x, ct_send s)) (send_frame demo_send demo_control_sender OpenFlowType [1, 2, 3])
      = Some (Done (Ok ()), [6, 3, 1, 2, 3])"
    by (simp add: control_eval Let_def)
  then obtain s' where "send_frame demo_send demo_control_sender OpenFlowType [1, 2, 3] = Some (Done (Ok ()), s')"
    "ct_send s' = [6, 3, 1, 2, 3]"
    by auto
  then show ?thesis
    using sent_frame_is_received[OF demo_send_law demo_supply_law, of demo_control_sender OpenFlowType "[1, 2, 3]" s'
        "[6, 3, 1, 2, 3]" "demo_control_receiver [6, 3, 1, 2, 3, 8]" "[8]" "\<lambda>_. True"]
    by (auto simp: demo_control_sender_def demo_control_receiver_def usize_max_def)
qed

end
