(* ===== verification/Exchange_Wire.thy ===== *)
theory Exchange_Wire
  imports Exchange_Codec Negotiation_Safety
begin

text \<open>
  The decoders of the negotiation bodies are exact: \<open>exact\<close> says of a reader which bytes it takes for
  which item, which items it refuses, and what it charges to the budget. It is closed under the ways
  in which the code composes its readers.
\<close>

section \<open>Exact readers\<close>

definition ahead_of :: "decode_state \<Rightarrow> bytes" where
  "ahead_of s = drop (ng_offset (fst s)) (ng_input (fst s))"

definition decode_ok :: "decode_state \<Rightarrow> bool" where
  "decode_ok s \<longleftrightarrow> ng_offset (fst s) \<le> length (ng_input (fst s)) \<and> length (ng_input (fst s)) \<le> usize_max
     \<and> db_used (snd s) \<le> db_limit (snd s) \<and> db_used (snd s) \<le> usize_max"

definition forward :: "decode_state \<Rightarrow> nat \<Rightarrow> nat \<Rightarrow> decode_state" where
  "forward s n k = ((fst s)\<lparr>ng_offset := ng_offset (fst s) + n\<rparr>, (snd s)\<lparr>db_used := db_used (snd s) + k\<rparr>)"

definition took :: "decode_state \<Rightarrow> bytes \<Rightarrow> nat \<Rightarrow> decode_state \<Rightarrow> bool" where
  "took s bs k s' \<longleftrightarrow> s' = forward s (length bs) k \<and> take (length bs) (ahead_of s) = bs
     \<and> db_used (snd s) + k \<le> db_limit (snd s) \<and> db_used (snd s) + k \<le> usize_max"

lemma took_nothing [simp]: "decode_ok s \<Longrightarrow> took s [] 0 s' \<longleftrightarrow> s' = s"
  by (auto simp: took_def forward_def decode_ok_def)

lemma took_ok: "decode_ok s \<Longrightarrow> took s bs k s' \<Longrightarrow> decode_ok s'"
  using length_take[of "length bs" "ahead_of s"]
  by (auto simp: took_def forward_def decode_ok_def ahead_of_def min_def split: if_splits)

lemma take_append_iff:
  "take (length a + length b) xs = a @ b \<longleftrightarrow> take (length a) xs = a \<and> take (length b) (drop (length a) xs) = b"
proof (cases "length a \<le> length xs")
  case True
  then show ?thesis by (simp add: take_add append_eq_append_conv)
next
  case False
  then show ?thesis by (auto dest: arg_cong[where f = length])
qed

lemma forward_simps [simp]:
  "ahead_of (forward s n k) = drop n (ahead_of s)" "forward (forward s n k) m j = forward s (n + m) (k + j)"
  "db_used (snd (forward s n k)) = db_used (snd s) + k" "db_limit (snd (forward s n k)) = db_limit (snd s)"
  by (simp_all add: ahead_of_def forward_def add.commute add.left_commute)

lemma took_append:
  "took s (a @ b) (j + k) s' \<longleftrightarrow> (\<exists>t. took s a j t \<and> took t b k s')"
  by (auto simp: took_def take_append_iff add.assoc)

definition exact :: "'a decoder \<Rightarrow> ('a \<Rightarrow> bytes) \<Rightarrow> ('a \<Rightarrow> bool) \<Rightarrow> ('a \<Rightarrow> nat) \<Rightarrow> bool" where
  "exact f enc accepts cost \<longleftrightarrow>
     (\<forall>s x s'. decode_ok s \<longrightarrow> f s = Ok (x, s') \<longleftrightarrow> accepts x \<and> took s (enc x) (cost x) s')"

lemma exactD: "exact f enc accepts cost \<Longrightarrow> decode_ok s \<Longrightarrow> f s = Ok (x, s') \<longleftrightarrow> accepts x \<and> took s (enc x) (cost x) s'"
  unfolding exact_def by blast

lemma exact_return: "exact (\<lambda>s. Ok (x, s)) (\<lambda>_. []) (\<lambda>z. z = x) (\<lambda>_. 0)"
  by (auto simp: exact_def)

lemma exact_bind:
  assumes "exact f enc accepts cost" "\<And>x. exact (\<lambda>s. h (x, s)) (enc' x) (\<lambda>z. p z = x \<and> accepts' z) cost'"
  shows "exact (\<lambda>s. result_bind (f s) h) (\<lambda>z. enc (p z) @ enc' (p z) z) (\<lambda>z. accepts (p z) \<and> accepts' z)
    (\<lambda>z. cost (p z) + cost' z)"
  unfolding exact_def
proof (intro allI impI)
  fix s z s' assume s: "decode_ok s"
  have "result_bind (f s) h = Ok (z, s') \<longleftrightarrow> (\<exists>x t. accepts x \<and> took s (enc x) (cost x) t \<and> h (x, t) = Ok (z, s'))"
    using exactD[OF assms(1) s] by (auto simp: result_bind_Ok)
  also have "\<dots> \<longleftrightarrow> (\<exists>x t. accepts x \<and> took s (enc x) (cost x) t
      \<and> (p z = x \<and> accepts' z) \<and> took t (enc' x z) (cost' z) s')"
    using exactD[OF assms(2) took_ok[OF s]] by blast
  also have "\<dots> \<longleftrightarrow> (accepts (p z) \<and> accepts' z) \<and> took s (enc (p z) @ enc' (p z) z) (cost (p z) + cost' z) s'"
    by (auto simp: took_append)
  finally show "result_bind (f s) h = Ok (z, s') \<longleftrightarrow>
      (accepts (p z) \<and> accepts' z) \<and> took s (enc (p z) @ enc' (p z) z) (cost (p z) + cost' z) s'" .
qed

lemma exact_cong:
  assumes "exact f enc accepts cost" "\<And>s. f s = g s"
    "\<And>z. accepts z = accepts' z" "\<And>z. accepts z \<Longrightarrow> enc z = enc' z" "\<And>z. accepts z \<Longrightarrow> cost z = cost' z"
  shows "exact g enc' accepts' cost'"
  using assms unfolding exact_def by metis

lemma exact_items:
  assumes "exact f enc accepts cost"
  shows "exact (read_items f n) (\<lambda>xs. concat (map enc xs)) (\<lambda>xs. length xs = n \<and> list_all accepts xs)
    (\<lambda>xs. sum_list (map cost xs))"
proof (induction n)
  case 0
  show ?case by (auto simp: exact_def)
next
  case (Suc n)
  let ?h = "\<lambda>(x, s). result_bind (read_items f n s) (\<lambda>(xs, s). Ok (x # xs, s))"
  have "exact (\<lambda>s. ?h (x, s)) (\<lambda>z. concat (map enc (tl z)))
      (\<lambda>z. hd z = x \<and> z \<noteq> [] \<and> length (tl z) = n \<and> list_all accepts (tl z)) (\<lambda>z. sum_list (map cost (tl z)))" for x
    by (rule exact_cong[OF exact_bind[OF Suc, where h = "\<lambda>(xs, s). Ok (x # xs, s)" and p = tl
          and enc' = "\<lambda>_ _. []" and cost' = "\<lambda>_. 0" and accepts' = "\<lambda>z. z \<noteq> [] \<and> hd z = x"]])
      (auto simp: exact_def)
  note step = exact_bind[OF assms, where h = ?h and p = hd and enc' = "\<lambda>_ z. concat (map enc (tl z))"
      and cost' = "\<lambda>z. sum_list (map cost (tl z))"
      and accepts' = "\<lambda>z. z \<noteq> [] \<and> length (tl z) = n \<and> list_all accepts (tl z)", OF this]
  show ?case by (rule exact_cong[OF step]) (auto simp: neq_Nil_conv length_Suc_conv)
qed

section \<open>The readers of the code\<close>

abbreviation granted :: "nat \<Rightarrow> nat \<Rightarrow> bool" where
  "granted \<equiv> \<lambda>_ _. True"

lemma id_of_bytes:
  assumes "length bs = 16"
  shows "word_of_nat (be_value bs) = (x :: u128) \<longleftrightarrow> bs = be_bytes 16 x"
proof
  assume x: "word_of_nat (be_value bs) = x"
  have "be_value bs < 2 ^ 128" using be_value_less[of bs] assms by simp
  then have "be_value bs = unat x" using x by (auto simp: unsigned_of_nat take_bit_nat_eq_self)
  then have "be_value bs = be_value (be_bytes 16 x)"
    using unsigned_less[of x, where ?'a = nat] by (simp add: be_value_be_bytes)
  then show "bs = be_bytes 16 x" by (rule be_value_inj[rotated]) (simp add: assms)
next
  assume "bs = be_bytes 16 x"
  then show "word_of_nat (be_value bs) = x"
    using unsigned_less[of x, where ?'a = nat] by (simp add: be_value_be_bytes)
qed

lemma exact_id: "exact (on_reader read_id) (be_bytes 16) (\<lambda>_. True) (\<lambda>_. 0)"
  unfolding exact_def
proof (intro allI impI)
  fix s x s' assume s: "decode_ok s"
  obtain r b where rb: "s = (r, b)" by fastforce
  show "on_reader read_id s = Ok (x, s') \<longleftrightarrow> True \<and> took s (be_bytes 16 x) 0 s'"
  proof (cases "ng_offset r + 16 \<le> length (ng_input r)")
    case True
    then have len: "length (take 16 (drop (ng_offset r) (ng_input r))) = 16" by simp
    have "ng_offset r + 16 \<le> usize_max" using True s rb by (simp add: decode_ok_def)
    then have "on_reader read_id s = Ok (word_of_nat (be_value (take 16 (ahead_of s))), forward s 16 0)"
      using True by (simp add: rb on_reader_def read_id_def ahead_of_def forward_def)
    then show ?thesis
      using id_of_bytes[OF len, of x] s by (auto simp: took_def rb ahead_of_def decode_ok_def)
  next
    case False
    then have "length (take 16 (ahead_of s)) \<noteq> 16" using s by (simp add: rb ahead_of_def decode_ok_def)
    then have "\<not> took s (be_bytes 16 x) 0 s'" by (auto simp: took_def)
    then show ?thesis
      using False by (auto simp: rb on_reader_def read_id_def map_err_def result_bind_Ok checked_simps
          split: option.splits result.splits)
  qed
qed

lemma decode_requirement_Ok: "decode_requirement v = Ok q \<longleftrightarrow> v = encode_requirement q"
  by (cases q) (auto simp: decode_requirement_def encode_requirement_def)

lemma exact_requirement: "exact (on_reader read_requirement) (\<lambda>q. [encode_requirement q]) (\<lambda>_. True) (\<lambda>_. 0)"
  by (auto simp: exact_def on_reader_def read_requirement_def read_byte_def result_bind_Ok map_err_Ok
      decode_requirement_Ok took_def forward_def ahead_of_def decode_ok_def take_Suc_conv_app_nth
      hd_drop_conv_nth take_Suc split: if_splits)

definition MAX_COUNT :: nat where
  "MAX_COUNT = 2 ^ 62 - 1"

abbreviation count_bytes :: "nat \<Rightarrow> bytes" where
  "count_bytes n \<equiv> vslice (word_of_nat n)"

lemma count_word: "n \<le> MAX_COUNT \<Longrightarrow> unat (word_of_nat n :: u64) = n \<and> (word_of_nat n :: u64) \<le> MAX_VARINT"
  by (auto simp: MAX_COUNT_def word_le_nat_alt unat_MAX_VARINT unsigned_of_nat take_bit_nat_eq_self)

lemma read_varint_eq:
  assumes "decode_ok (r, b)"
  shows "read_varint r = Ok (v, r') \<longleftrightarrow> v \<le> MAX_VARINT \<and> took (r, b) (vslice v) 0 (r', b)"
proof (cases "decode_varint (drop (ng_offset r) (ng_input r))")
  case (Ok p)
  obtain w n where p: "p = (w, n)" by fastforce
  then have "w \<le> MAX_VARINT" "n = length (vslice w)" "take n (drop (ng_offset r) (ng_input r)) = vslice w"
    using Ok[unfolded p decode_varint_iff] by blast+
  moreover have "v = w" if "v \<le> MAX_VARINT" "take (length (vslice v)) (drop (ng_offset r) (ng_input r)) = vslice v"
  proof -
    have "decode_varint (drop (ng_offset r) (ng_input r)) = Ok (v, length (vslice v))"
      unfolding decode_varint_iff using that by blast
    then show ?thesis using Ok p by simp
  qed
  ultimately show ?thesis
    using assms Ok by (auto simp: p read_varint_def took_def forward_def ahead_of_def decode_ok_def)
next
  case (Err e)
  then have "\<not> (v \<le> MAX_VARINT \<and> took (r, b) (vslice v) 0 (r', b))"
    using decode_varint_iff[of "drop (ng_offset r) (ng_input r)" v "length (vslice v)"]
    by (auto simp: took_def ahead_of_def)
  then show ?thesis using Err by (simp add: read_varint_def)
qed


lemma charge_items_Ok:
  assumes "db_used b \<le> usize_max"
  shows "charge_items n w b = Ok b' \<longleftrightarrow> b' = b\<lparr>db_used := db_used b + n * w\<rparr>
    \<and> db_used b + n * w \<le> db_limit b \<and> db_used b + n * w \<le> usize_max"
  by (auto simp: charge_items_def charge_bytes_def checked_simps split: option.splits if_splits)

lemma count_limit: "count > (case usize_to_u64 limit of Some l \<Rightarrow> l | None \<Rightarrow> -1) \<longleftrightarrow> limit < unat (count :: u64)"
  using unsigned_less[of count, where ?'a = nat]
  by (auto simp: usize_to_u64_def word_less_nat_alt unsigned_of_nat take_bit_nat_eq_self)
    (metis word_le_nat_alt word_order.extremum leD)

lemma read_bounded_count_Ok:
  assumes "decode_ok (r, b)"
  shows "read_bounded_count r limit e = Ok (n, r') \<longleftrightarrow>
    n \<le> limit \<and> n \<le> MAX_COUNT \<and> took (r, b) (count_bytes n) 0 (r', b)"
proof -
  have small: "unat (v :: u64) \<le> usize_max" for v
    using unsigned_less[of v, where ?'a = nat] by (simp add: usize_max_def)
  have "read_bounded_count r limit e = Ok (n, r') \<longleftrightarrow>
      (\<exists>v. v \<le> MAX_VARINT \<and> took (r, b) (vslice v) 0 (r', b) \<and> \<not> limit < unat v \<and> unat v = n)"
    unfolding read_bounded_count_def result_bind_Ok map_err_Ok
    by (auto simp: read_varint_eq[OF assms] count_limit u64_to_usize_def small split: if_splits)
  also have "\<dots> \<longleftrightarrow> n \<le> limit \<and> n \<le> MAX_COUNT \<and> took (r, b) (count_bytes n) 0 (r', b)"
    by (auto simp: word_le_nat_alt unat_MAX_VARINT MAX_COUNT_def count_word not_less
        dest: count_word[unfolded MAX_COUNT_def])
      (use count_word[of n] in \<open>auto simp: MAX_COUNT_def word_le_nat_alt unat_MAX_VARINT intro!: exI[of _ "word_of_nat n"]\<close>)
  finally show ?thesis .
qed

lemma exact_count:
  "exact (read_count granted limit w) (\<lambda>n. count_bytes n) (\<lambda>n. n \<le> limit \<and> n \<le> MAX_COUNT) (\<lambda>n. n * w)"
  unfolding exact_def
proof (intro allI impI)
  fix s n s' assume s: "decode_ok s"
  obtain r b where rb: "s = (r, b)" by fastforce
  have used: "db_used b \<le> usize_max" using s rb by (simp add: decode_ok_def)
  have "read_count granted limit w s = Ok (n, s') \<longleftrightarrow>
      (\<exists>r'. n \<le> limit \<and> n \<le> MAX_COUNT \<and> took (r, b) (count_bytes n) 0 (r', b)
         \<and> s' = (r', b\<lparr>db_used := db_used b + n * w\<rparr>) \<and> db_used b + n * w \<le> db_limit b
         \<and> db_used b + n * w \<le> usize_max)"
    by (cases s') (auto simp: rb read_count_def result_bind_Ok read_bounded_count_Ok[OF s[unfolded rb]]
      charge_items_Ok[OF used] reserve_vec_def)
  also have "\<dots> \<longleftrightarrow> (n \<le> limit \<and> n \<le> MAX_COUNT) \<and> took s (count_bytes n) (n * w) s'"
    using s by (cases s') (auto simp: rb took_def forward_def decode_ok_def)
  finally show "read_count granted limit w s = Ok (n, s') \<longleftrightarrow>
      (n \<le> limit \<and> n \<le> MAX_COUNT) \<and> took s (count_bytes n) (n * w) s'" .
qed

lemma exact_list:
  assumes "exact f enc accepts cost"
  shows "exact (read_list granted limit w f) (\<lambda>xs. count_bytes (length xs) @ concat (map enc xs))
    (\<lambda>xs. length xs \<le> limit \<and> length xs \<le> MAX_COUNT \<and> list_all accepts xs)
    (\<lambda>xs. length xs * w + sum_list (map cost xs))"
  by (rule exact_cong[OF exact_bind[OF exact_count[of limit w], where h = "\<lambda>(n, s). read_items f n s" and p = length
        and enc' = "\<lambda>_ xs. concat (map enc xs)" and accepts' = "list_all accepts"
        and cost' = "\<lambda>xs. sum_list (map cost xs)"]])
    (simp_all add: exact_items[OF assms] read_list_def)

text \<open>The shape that most readers of a record have: one item, then the rest of them.\<close>

lemma exact_read:
  assumes "exact f enc accepts cost" "\<And>x. exact (\<lambda>s. h x s) (enc' x) (\<lambda>z. p z = x \<and> accepts' z) cost'"
  shows "exact (\<lambda>s. result_bind (f s) (\<lambda>(x, s). h x s)) (\<lambda>z. enc (p z) @ enc' (p z) z)
    (\<lambda>z. accepts (p z) \<and> accepts' z) (\<lambda>z. cost (p z) + cost' z)"
  by (rule exact_bind[OF assms(1)]) (simp add: assms(2))

lemma exact_done: "(\<And>z. accepts z \<longleftrightarrow> z = x) \<Longrightarrow> exact (\<lambda>s. Ok (x, s)) (\<lambda>_. []) accepts (\<lambda>_. 0)"
  by (auto simp: exact_def)

section \<open>Offers\<close>

text \<open>The bytes of an offer, the limits its counts keep and its cost, item by item.\<close>

definition protocol_bytes :: "protocol_contract \<Rightarrow> bytes" where
  "protocol_bytes p = be_bytes 16 (protocol_id_get (pc_id p)) @ be_bytes 16 (protocol_revision_get (pc_revision p))"

definition capability_bytes :: "capability_offer \<Rightarrow> bytes" where
  "capability_bytes c = be_bytes 16 (capability_id_get (co_id c)) @ [encode_requirement (co_requirement c)]"

definition codec_bytes :: "codec_id \<Rightarrow> bytes" where
  "codec_bytes x = be_bytes 16 (codec_id_get x)"

definition contract_bytes :: "schema_contract_offer \<Rightarrow> bytes" where
  "contract_bytes c = be_bytes 16 (schema_contract_id_get (sco_contract_id c))
     @ count_bytes (length (sco_codecs c)) @ concat (map codec_bytes (sco_codecs c))"

definition schema_bytes :: "schema_offer \<Rightarrow> bytes" where
  "schema_bytes s = be_bytes 16 (schema_id_get (so_id s)) @ [encode_requirement (so_requirement s)]
     @ count_bytes (length (so_contracts s)) @ concat (map contract_bytes (so_contracts s))"

definition offer_bytes :: "compatibility_offer \<Rightarrow> bytes" where
  "offer_bytes off =
     count_bytes (length (off_protocols off)) @ concat (map protocol_bytes (off_protocols off))
     @ count_bytes (length (off_capabilities off)) @ concat (map capability_bytes (off_capabilities off))
     @ count_bytes (length (off_schemas off)) @ concat (map schema_bytes (off_schemas off))"

definition count_in :: "nat \<Rightarrow> nat \<Rightarrow> bool" where
  "count_in limit n \<longleftrightarrow> n \<le> limit \<and> n \<le> MAX_COUNT"

definition contract_counts :: "offer_limits \<Rightarrow> schema_contract_offer \<Rightarrow> bool" where
  "contract_counts l c \<longleftrightarrow> count_in (lim_codecs_per_contract l) (length (sco_codecs c))"

definition schema_counts :: "offer_limits \<Rightarrow> schema_offer \<Rightarrow> bool" where
  "schema_counts l s \<longleftrightarrow> count_in (lim_contracts_per_schema l) (length (so_contracts s))
     \<and> list_all (contract_counts l) (so_contracts s)"

definition offer_counts :: "offer_limits \<Rightarrow> compatibility_offer \<Rightarrow> bool" where
  "offer_counts l off \<longleftrightarrow> count_in (lim_protocols l) (length (off_protocols off))
     \<and> count_in (lim_capabilities l) (length (off_capabilities off))
     \<and> count_in (lim_schemas l) (length (off_schemas off)) \<and> list_all (schema_counts l) (off_schemas off)"

definition contract_cost :: "schema_contract_offer \<Rightarrow> nat" where
  "contract_cost c = 16 * length (sco_codecs c)"

definition schema_cost :: "schema_offer \<Rightarrow> nat" where
  "schema_cost s = 16 * length (so_contracts s) + sum_list (map contract_cost (so_contracts s))"

lemma exact_protocol: "exact read_protocol protocol_bytes (\<lambda>_. True) (\<lambda>_. 0)"
proof -
  have "exact (\<lambda>s. result_bind (on_reader read_id s) (\<lambda>(v, s). Ok (\<lparr>pc_id = ProtocolId i, pc_revision = ProtocolRevision v\<rparr>, s)))
      (\<lambda>z. be_bytes 16 (protocol_revision_get (pc_revision z))) (\<lambda>z. protocol_id_get (pc_id z) = i \<and> True) (\<lambda>_. 0)" for i
    by (rule exact_cong[OF exact_read[OF exact_id, where p = "\<lambda>z. protocol_revision_get (pc_revision z)"
          and accepts' = "\<lambda>z. protocol_id_get (pc_id z) = i", OF exact_done]])
      (auto intro: protocol_id.expand protocol_revision.expand)
  from exact_read[OF exact_id, where p = "\<lambda>z. protocol_id_get (pc_id z)", OF this]
  show ?thesis by (rule exact_cong) (simp_all add: read_protocol_def protocol_bytes_def)
qed

lemma exact_capability: "exact read_capability capability_bytes (\<lambda>_. True) (\<lambda>_. 0)"
proof -
  have "exact (\<lambda>s. result_bind (on_reader read_requirement s) (\<lambda>(q, s). Ok (\<lparr>co_id = CapabilityId i, co_requirement = q\<rparr>, s)))
      (\<lambda>z. [encode_requirement (co_requirement z)]) (\<lambda>z. capability_id_get (co_id z) = i \<and> True) (\<lambda>_. 0)" for i
    by (rule exact_cong[OF exact_read[OF exact_requirement, where p = co_requirement
          and accepts' = "\<lambda>z. capability_id_get (co_id z) = i", OF exact_done]])
      (auto intro: capability_id.expand)
  from exact_read[OF exact_id, where p = "\<lambda>z. capability_id_get (co_id z)", OF this]
  show ?thesis by (rule exact_cong) (simp_all add: read_capability_def capability_bytes_def)
qed

lemma exact_codec: "exact read_codec codec_bytes (\<lambda>_. True) (\<lambda>_. 0)"
  by (rule exact_cong[OF exact_read[OF exact_id, where p = codec_id_get and accepts' = "\<lambda>_. True"
        and h = "\<lambda>i s. Ok (CodecId i, s)", OF exact_done]])
    (auto simp: read_codec_def codec_bytes_def intro: codec_id.expand)

lemma exact_contract: "exact (read_contract granted l) contract_bytes (contract_counts l) contract_cost"
proof -
  let ?accepts = "\<lambda>xs. count_in (lim_codecs_per_contract l) (length xs)"
  have "exact (\<lambda>s. result_bind (read_list granted (lim_codecs_per_contract l) 16 read_codec s)
        (\<lambda>(xs, s). Ok (\<lparr>sco_contract_id = SchemaContractId i, sco_codecs = xs\<rparr>, s)))
      (\<lambda>z. count_bytes (length (sco_codecs z)) @ concat (map codec_bytes (sco_codecs z)))
      (\<lambda>z. schema_contract_id_get (sco_contract_id z) = i \<and> ?accepts (sco_codecs z)) contract_cost" for i
    by (rule exact_cong[OF exact_read[OF exact_list[OF exact_codec], where p = sco_codecs
          and accepts' = "\<lambda>z. schema_contract_id_get (sco_contract_id z) = i", OF exact_done]])
      (auto simp: count_in_def contract_cost_def list_all_iff intro: schema_contract_id.expand)
  from exact_read[OF exact_id, where p = "\<lambda>z. schema_contract_id_get (sco_contract_id z)", OF this]
  show ?thesis by (rule exact_cong) (simp_all add: read_contract_def contract_bytes_def contract_counts_def)
qed

lemma exact_schema: "exact (read_schema granted l) schema_bytes (schema_counts l) schema_cost"
proof -
  let ?accepts = "\<lambda>cs. count_in (lim_contracts_per_schema l) (length cs) \<and> list_all (contract_counts l) cs"
  have "exact (\<lambda>s. result_bind (read_list granted (lim_contracts_per_schema l) 16 (read_contract granted l) s)
        (\<lambda>(cs, s). Ok (\<lparr>so_id = SchemaId i, so_requirement = q, so_contracts = cs\<rparr>, s)))
      (\<lambda>z. count_bytes (length (so_contracts z)) @ concat (map contract_bytes (so_contracts z)))
      (\<lambda>z. so_requirement z = q \<and> (schema_id_get (so_id z) = i \<and> ?accepts (so_contracts z))) schema_cost" for i q
    by (rule exact_cong[OF exact_read[OF exact_list[OF exact_contract], where p = so_contracts
          and accepts' = "\<lambda>z. so_requirement z = q \<and> schema_id_get (so_id z) = i", OF exact_done]])
      (auto simp: count_in_def schema_cost_def intro: schema_id.expand)
  note inner = this
  have "exact (\<lambda>s. result_bind (on_reader read_requirement s) (\<lambda>(q, s).
        result_bind (read_list granted (lim_contracts_per_schema l) 16 (read_contract granted l) s)
        (\<lambda>(cs, s). Ok (\<lparr>so_id = SchemaId i, so_requirement = q, so_contracts = cs\<rparr>, s))))
      (\<lambda>z. [encode_requirement (so_requirement z)] @ count_bytes (length (so_contracts z)) @ concat (map contract_bytes (so_contracts z)))
      (\<lambda>z. schema_id_get (so_id z) = i \<and> ?accepts (so_contracts z)) schema_cost" for i
    by (rule exact_cong[OF exact_read[OF exact_requirement, where p = so_requirement, OF inner[where i = i]]]) simp_all
  from exact_read[OF exact_id, where p = "\<lambda>z. schema_id_get (so_id z)", OF this]
  show ?thesis by (rule exact_cong) (simp_all add: read_schema_def schema_bytes_def schema_counts_def)
qed

text \<open>A body is read whole: nothing is left after the last item.\<close>

lemma exact_whole:
  assumes "exact f enc accepts cost" "length bs \<le> usize_max"
  shows "(\<exists>s'. f (decode_start bs l e) = Ok (x, s') \<and> negotiation_reader_finish (fst s') = Ok ()) \<longleftrightarrow>
    accepts x \<and> bs = enc x \<and> cost x \<le> lim_offer_accounted_bytes l \<and> cost x \<le> usize_max"
proof -
  have ok: "decode_ok (decode_start bs l e)"
    using assms(2) by (simp add: decode_ok_def decode_start_def negotiation_reader_new_def)
  show ?thesis
    unfolding exactD[OF assms(1) ok]
    by (auto simp: took_def forward_def decode_start_def negotiation_reader_new_def
        ahead_of_def negotiation_reader_finish_def split: if_splits)
qed

definition offer_items :: "offer_limits \<Rightarrow> compatibility_offer decoder" where
  "offer_items l s =
     result_bind (read_list granted (lim_protocols l) 32 read_protocol s) (\<lambda>(ps, s).
     result_bind (read_list granted (lim_capabilities l) 17 read_capability s) (\<lambda>(cs, s).
     result_bind (read_list granted (lim_schemas l) 17 (read_schema granted l) s) (\<lambda>(ss, s).
     Ok (\<lparr>off_protocols = ps, off_capabilities = cs, off_schemas = ss, off_diagnostic_label = None\<rparr>, s))))"

definition offer_cost :: "compatibility_offer \<Rightarrow> nat" where
  "offer_cost off = length (off_protocols off) * 32 + (length (off_capabilities off) * 17
     + (length (off_schemas off) * 17 + sum_list (map schema_cost (off_schemas off))))"

lemma offer_cost_eq: "off_diagnostic_label off = None \<Longrightarrow> offer_cost off = offer_size off"
proof -
  have c: "sum_list (map contract_cost cs) = (\<Sum>c\<leftarrow>cs. 16 * length (sco_codecs c))" for cs
    by (induction cs) (auto simp: contract_cost_def)
  have "length ss * 17 + sum_list (map schema_cost ss) = (\<Sum>s\<leftarrow>ss. 17 + 16 * length (so_contracts s)
      + (\<Sum>c\<leftarrow>so_contracts s. 16 * length (sco_codecs c)))" for ss
    by (induction ss) (auto simp: schema_cost_def c)
  then show "off_diagnostic_label off = None \<Longrightarrow> offer_cost off = offer_size off"
    by (simp add: offer_cost_def offer_size_def)
qed

lemma exact_offer_items:
  "exact (offer_items l) offer_bytes (\<lambda>off. offer_counts l off \<and> off_diagnostic_label off = None) offer_cost"
proof -
  have "exact (\<lambda>s. result_bind (read_list granted (lim_schemas l) 17 (read_schema granted l) s) (\<lambda>(ss, s).
        Ok (\<lparr>off_protocols = ps, off_capabilities = cs, off_schemas = ss, off_diagnostic_label = None\<rparr>, s)))
      (\<lambda>z. count_bytes (length (off_schemas z)) @ concat (map schema_bytes (off_schemas z)))
      (\<lambda>z. off_capabilities z = cs \<and> (off_protocols z = ps \<and> off_diagnostic_label z = None
         \<and> count_in (lim_schemas l) (length (off_schemas z)) \<and> list_all (schema_counts l) (off_schemas z)))
      (\<lambda>z. length (off_schemas z) * 17 + sum_list (map schema_cost (off_schemas z)))" for ps cs
    by (rule exact_cong[OF exact_read[OF exact_list[OF exact_schema], where p = off_schemas and accepts' =
          "\<lambda>z. off_protocols z = ps \<and> off_capabilities z = cs \<and> off_diagnostic_label z = None", OF exact_done]])
      (auto simp: count_in_def)
  note schemas = this
  have "exact (\<lambda>s. result_bind (read_list granted (lim_capabilities l) 17 read_capability s) (\<lambda>(cs, s).
        result_bind (read_list granted (lim_schemas l) 17 (read_schema granted l) s) (\<lambda>(ss, s).
        Ok (\<lparr>off_protocols = ps, off_capabilities = cs, off_schemas = ss, off_diagnostic_label = None\<rparr>, s))))
      (\<lambda>z. count_bytes (length (off_capabilities z)) @ concat (map capability_bytes (off_capabilities z))
         @ count_bytes (length (off_schemas z)) @ concat (map schema_bytes (off_schemas z)))
      (\<lambda>z. off_protocols z = ps \<and> (off_diagnostic_label z = None
         \<and> count_in (lim_capabilities l) (length (off_capabilities z))
         \<and> count_in (lim_schemas l) (length (off_schemas z)) \<and> list_all (schema_counts l) (off_schemas z)))
      (\<lambda>z. length (off_capabilities z) * 17
         + (length (off_schemas z) * 17 + sum_list (map schema_cost (off_schemas z))))" for ps
    by (rule exact_cong[OF exact_read[OF exact_list[OF exact_capability], where p = off_capabilities,
          OF schemas[where ps = ps]]]) (auto simp: count_in_def list_all_iff o_def)
  from exact_read[OF exact_list[OF exact_protocol], where p = off_protocols, OF this]
  show ?thesis
    by (rule exact_cong) (auto simp: offer_items_def offer_bytes_def offer_cost_def offer_counts_def count_in_def list_all_iff)
qed

lemma decode_offer_Ok:
  assumes "length bs \<le> usize_max"
  shows "decode_offer granted bs l = Ok off \<longleftrightarrow> off_diagnostic_label off = None \<and> bs = offer_bytes off
    \<and> offer_counts l off \<and> offer_size off \<le> lim_offer_accounted_bytes l \<and> offer_size off \<le> usize_max"
proof -
  have "decode_offer granted bs l = Ok off \<longleftrightarrow> (\<exists>s'. offer_items l (decode_start bs l OutMalformedOffer) = Ok (off, s')
      \<and> negotiation_reader_finish (fst s') = Ok ())"
    by (auto simp: decode_offer_def offer_items_def result_bind_Ok map_err_Ok split: prod.splits)
  also have "\<dots> \<longleftrightarrow> off_diagnostic_label off = None \<and> bs = offer_bytes off
    \<and> offer_counts l off \<and> offer_size off \<le> lim_offer_accounted_bytes l \<and> offer_size off \<le> usize_max"
    using exact_whole[OF exact_offer_items assms, where x = off] by (auto simp: offer_cost_eq)
  finally show ?thesis .
qed

section \<open>Proposals\<close>

definition capability_id_bytes :: "capability_id \<Rightarrow> bytes" where
  "capability_id_bytes i = be_bytes 16 (capability_id_get i)"

definition selected_bytes :: "selected_schema \<Rightarrow> bytes" where
  "selected_bytes b = be_bytes 16 (schema_contract_id_get (sel_contract_id b)) @ be_bytes 16 (codec_id_get (sel_codec_id b))"

definition binding_bytes :: "schema_id \<times> selected_schema \<Rightarrow> bytes" where
  "binding_bytes p = be_bytes 16 (schema_id_get (fst p)) @ selected_bytes (snd p)"

lemma exact_err: "(\<And>z. \<not> accepts z) \<Longrightarrow> exact (\<lambda>s. Err e) enc accepts cost"
  by (simp add: exact_def)

lemma exact_charge:
  assumes "exact f enc accepts cost"
  shows "exact (\<lambda>s. result_bind (charge_bytes n (snd s)) (\<lambda>b. f (fst s, b))) enc accepts (\<lambda>z. n + cost z)"
proof -
  have "exact (\<lambda>s. result_bind (charge_bytes n (snd s)) (\<lambda>b. Ok ((), fst s, b))) (\<lambda>_. []) (\<lambda>_. True) (\<lambda>_. n)"
    by (auto simp: exact_def charge_bytes_def took_def forward_def decode_ok_def checked_simps result_bind_Ok
        split: option.splits if_splits)
  from exact_read[OF this, where p = "\<lambda>_. ()" and h = "\<lambda>_. f" and accepts' = accepts and enc' = "\<lambda>_. enc" and cost' = cost]
  show ?thesis
    by (rule exact_cong) (use assms in \<open>auto simp: result_bind_def split: result.splits\<close>)
qed

lemma exact_selected: "exact read_selected selected_bytes (\<lambda>_. True) (\<lambda>_. 0)"
proof -
  have "exact (\<lambda>s. result_bind (on_reader read_id s) (\<lambda>(x, s). Ok (\<lparr>sel_contract_id = SchemaContractId k, sel_codec_id = CodecId x\<rparr>, s)))
      (\<lambda>z. be_bytes 16 (codec_id_get (sel_codec_id z))) (\<lambda>z. schema_contract_id_get (sel_contract_id z) = k \<and> True) (\<lambda>_. 0)" for k
    by (rule exact_cong[OF exact_read[OF exact_id, where p = "\<lambda>z. codec_id_get (sel_codec_id z)"
          and accepts' = "\<lambda>z. schema_contract_id_get (sel_contract_id z) = k", OF exact_done]])
      (auto intro: schema_contract_id.expand codec_id.expand)
  from exact_read[OF exact_id, where p = "\<lambda>z. schema_contract_id_get (sel_contract_id z)", OF this]
  show ?thesis by (rule exact_cong) (simp_all add: read_selected_def selected_bytes_def)
qed

text \<open>A list that extends what was read before, without repeating itself.\<close>

definition extends :: "'a list \<Rightarrow> nat \<Rightarrow> 'a list \<Rightarrow> bool" where
  "extends seen n xs \<longleftrightarrow> take (length seen) xs = seen \<and> length xs = length seen + n"

lemma extends_snoc:
  "extends (seen @ [x]) n xs \<longleftrightarrow> xs ! length seen = x \<and> extends seen (Suc n) xs"
proof
  assume *: "extends (seen @ [x]) n xs"
  then have "take (Suc (length seen)) xs ! length seen = x" by (simp add: extends_def)
  moreover have "take (length seen) (take (Suc (length seen)) xs) = seen" using * by (simp add: extends_def)
  ultimately show "xs ! length seen = x \<and> extends seen (Suc n) xs" using * by (simp add: extends_def)
next
  assume "xs ! length seen = x \<and> extends seen (Suc n) xs"
  then show "extends (seen @ [x]) n xs" by (auto simp: extends_def take_Suc_conv_app_nth)
qed

lemma extends_repeat:
  assumes "extends seen (Suc n) xs" "k (xs ! length seen) \<in> k ` set seen"
  shows "\<not> distinct (map k xs)"
proof
  assume "distinct (map k xs)"
  then have "distinct (take (Suc (length seen)) (map k xs))" by (rule distinct_take)
  moreover have "take (Suc (length seen)) (map k xs) = map k seen @ [k (xs ! length seen)]"
    using assms(1) by (auto simp: extends_def take_map take_Suc_conv_app_nth)
  ultimately show False using assms(2) by auto
qed

lemma exact_capability_ids:
  "distinct seen \<Longrightarrow> exact (read_capability_ids n seen)
     (\<lambda>xs. concat (map capability_id_bytes (drop (length seen) xs)))
     (\<lambda>xs. extends seen n xs \<and> distinct xs) (\<lambda>_. 0)"
proof (induction n arbitrary: seen)
  case 0
  then show ?case by (auto simp: exact_def extends_def)
next
  case (Suc n)
  have "exact (\<lambda>s. if CapabilityId i \<in> set seen then Err (DecodeFailure OutInvalidSelection)
        else read_capability_ids n (seen @ [CapabilityId i]) s)
      (\<lambda>xs. concat (map capability_id_bytes (drop (Suc (length seen)) xs)))
      (\<lambda>xs. capability_id_get (xs ! length seen) = i \<and> (extends seen (Suc n) xs \<and> distinct xs)) (\<lambda>_. 0)" for i
  proof (cases "CapabilityId i \<in> set seen")
    case True
    have "\<not> (capability_id_get (xs ! length seen) = i \<and> (extends seen (Suc n) xs \<and> distinct xs))" for xs
      using True extends_repeat[of seen n xs id] by auto
    then show ?thesis using True by (simp add: exact_err)
  next
    case False
    have "capability_id_get x = i \<longleftrightarrow> x = CapabilityId i" for x by (cases x) auto
    then show ?thesis using False Suc.prems
      by (intro exact_cong[OF Suc.IH[of "seen @ [CapabilityId i]"]]) (auto simp: extends_snoc)
  qed
  from exact_read[OF exact_id, where p = "\<lambda>xs. capability_id_get (xs ! length seen)", OF this]
  show ?case
    by (rule exact_cong) (auto simp: extends_def capability_id_bytes_def[abs_def] Cons_nth_drop_Suc[symmetric])
qed

lemma exact_bindings:
  "distinct (map fst seen) \<Longrightarrow> exact (read_bindings n seen)
     (\<lambda>xs. concat (map binding_bytes (drop (length seen) xs)))
     (\<lambda>xs. extends seen n xs \<and> distinct (map fst xs)) (\<lambda>_. 0)"
proof (induction n arbitrary: seen)
  case 0
  then show ?case by (auto simp: exact_def extends_def)
next
  case (Suc n)
  let ?h = "\<lambda>i s. if SchemaId i \<in> set (map fst seen) then Err (DecodeFailure OutInvalidSelection)
        else result_bind (read_selected s) (\<lambda>(b, s). read_bindings n (seen @ [(SchemaId i, b)]) s)"
  have id: "schema_id_get x = i \<longleftrightarrow> x = SchemaId i" for x i by (cases x) auto
  have "exact (?h i)
      (\<lambda>xs. selected_bytes (snd (xs ! length seen)) @ concat (map binding_bytes (drop (Suc (length seen)) xs)))
      (\<lambda>xs. schema_id_get (fst (xs ! length seen)) = i \<and> (extends seen (Suc n) xs \<and> distinct (map fst xs))) (\<lambda>_. 0)" for i
  proof (cases "SchemaId i \<in> set (map fst seen)")
    case True
    have "\<not> (schema_id_get (fst (xs ! length seen)) = i \<and> (extends seen (Suc n) xs \<and> distinct (map fst xs)))" for xs
      using True extends_repeat[of seen n xs fst] by (auto simp: id)
    then show ?thesis using True by (simp add: exact_err)
  next
    case False
    have "exact (read_bindings n (seen @ [(SchemaId i, b)])) (\<lambda>xs. concat (map binding_bytes (drop (Suc (length seen)) xs)))
        (\<lambda>xs. snd (xs ! length seen) = b \<and> (schema_id_get (fst (xs ! length seen)) = i
           \<and> extends seen (Suc n) xs \<and> distinct (map fst xs))) (\<lambda>_. 0)" for b
      using False Suc.prems
      by (intro exact_cong[OF Suc.IH[of "seen @ [(SchemaId i, b)]"]])
        (auto simp: extends_snoc id prod_eq_iff)
    from exact_read[OF exact_selected, where p = "\<lambda>xs. snd (xs ! length seen)", OF this]
    show ?thesis using False by simp
  qed
  from exact_read[OF exact_id, where p = "\<lambda>xs. schema_id_get (fst (xs ! length seen))" and h = ?h, OF this]
  show ?case
    by (rule exact_cong) (auto simp: extends_def binding_bytes_def[abs_def] Cons_nth_drop_Suc[symmetric])
qed

definition unique_ids :: "offer_limits \<Rightarrow> capability_id list decoder" where
  "unique_ids l s = result_bind (read_count granted (lim_capabilities l) 16 s) (\<lambda>(n, s). read_capability_ids n [] s)"

definition unique_bindings :: "offer_limits \<Rightarrow> (schema_id \<times> selected_schema) list decoder" where
  "unique_bindings l s = result_bind (read_count granted (lim_schemas l) 48 s) (\<lambda>(n, s). read_bindings n [] s)"

definition proposal_items ::
  "offer_limits \<Rightarrow> (protocol_contract \<times> capability_id list \<times> (schema_id \<times> selected_schema) list) decoder" where
  "proposal_items l s =
     result_bind (read_protocol s) (\<lambda>(p, s).
     result_bind (charge_bytes 32 (snd s)) (\<lambda>b.
     result_bind (unique_ids l (fst s, b)) (\<lambda>(cs, s).
     result_bind (unique_bindings l s) (\<lambda>(bs, s). Ok ((p, cs, bs), s)))))"

definition proposal_bytes :: "protocol_contract \<Rightarrow> contract_order \<Rightarrow> bytes" where
  "proposal_bytes p order = protocol_bytes p
     @ count_bytes (length (fst order)) @ concat (map capability_id_bytes (fst order))
     @ count_bytes (length (snd order)) @ concat (map binding_bytes (snd order))"

lemma exact_unique_ids:
  "exact (unique_ids l) (\<lambda>xs. count_bytes (length xs) @ concat (map capability_id_bytes xs))
     (\<lambda>xs. count_in (lim_capabilities l) (length xs) \<and> distinct xs) (\<lambda>xs. 16 * length xs)"
  by (rule exact_cong[OF exact_read[OF exact_count, where p = length and h = "\<lambda>n. read_capability_ids n []"
        and enc' = "\<lambda>_ xs. concat (map capability_id_bytes xs)" and accepts' = distinct and cost' = "\<lambda>_. 0"]])
    (use exact_capability_ids[of "[]"] in \<open>auto simp: unique_ids_def count_in_def extends_def\<close>)

lemma exact_unique_bindings:
  "exact (unique_bindings l) (\<lambda>xs. count_bytes (length xs) @ concat (map binding_bytes xs))
     (\<lambda>xs. count_in (lim_schemas l) (length xs) \<and> distinct (map fst xs)) (\<lambda>xs. 48 * length xs)"
  by (rule exact_cong[OF exact_read[OF exact_count, where p = length and h = "\<lambda>n. read_bindings n []"
        and enc' = "\<lambda>_ xs. concat (map binding_bytes xs)" and accepts' = "\<lambda>xs. distinct (map fst xs)" and cost' = "\<lambda>_. 0"]])
    (use exact_bindings[of "[]"] in \<open>auto simp: unique_bindings_def count_in_def extends_def\<close>)

definition order_counts :: "offer_limits \<Rightarrow> contract_order \<Rightarrow> bool" where
  "order_counts l order \<longleftrightarrow> count_in (lim_capabilities l) (length (fst order)) \<and> distinct (fst order)
     \<and> count_in (lim_schemas l) (length (snd order)) \<and> distinct (map fst (snd order))"

lemma exact_proposal_items:
  "exact (proposal_items l) (\<lambda>(p, order). proposal_bytes p order) (\<lambda>(p, order). order_counts l order)
     (\<lambda>(p, order). 32 + 16 * length (fst order) + 48 * length (snd order))"
proof -
  have "exact (\<lambda>s. result_bind (unique_bindings l s) (\<lambda>(bs, s). Ok ((p, cs, bs), s)))
      (\<lambda>z. count_bytes (length (snd (snd z))) @ concat (map binding_bytes (snd (snd z))))
      (\<lambda>z. fst (snd z) = cs \<and> (fst z = p \<and> count_in (lim_schemas l) (length (snd (snd z))) \<and> distinct (map fst (snd (snd z)))))
      (\<lambda>z. 48 * length (snd (snd z)))" for p :: protocol_contract and cs :: "capability_id list"
    by (rule exact_cong[OF exact_read[OF exact_unique_bindings, where p = "\<lambda>z. snd (snd z)"
          and accepts' = "\<lambda>z. fst (snd z) = cs \<and> fst z = p", OF exact_done]]) auto
  note bindings = this
  have "exact (\<lambda>s. result_bind (unique_ids l s) (\<lambda>(cs, s).
        result_bind (unique_bindings l s) (\<lambda>(bs, s). Ok ((p, cs, bs), s))))
      (\<lambda>z. count_bytes (length (fst (snd z))) @ concat (map capability_id_bytes (fst (snd z)))
         @ count_bytes (length (snd (snd z))) @ concat (map binding_bytes (snd (snd z))))
      (\<lambda>z. fst z = p \<and> order_counts l (snd z))
      (\<lambda>z. 16 * length (fst (snd z)) + 48 * length (snd (snd z)))" for p :: protocol_contract
    by (rule exact_cong[OF exact_read[OF exact_unique_ids, where p = "\<lambda>z. fst (snd z)", OF bindings[where p = p]]])
      (auto simp: order_counts_def)
  note ids = exact_charge[OF this, where n = 32]
  show ?thesis
    by (rule exact_cong[OF exact_read[OF exact_protocol, where p = fst and accepts' = "\<lambda>z. order_counts l (snd z)"
          and h = "\<lambda>p s. result_bind (charge_bytes 32 (snd s)) (\<lambda>b. result_bind (unique_ids l (fst s, b)) (\<lambda>(cs, s).
             result_bind (unique_bindings l s) (\<lambda>(bs, s). Ok ((p, cs, bs), s))))", OF ids]])
      (auto simp: proposal_items_def proposal_bytes_def)
qed

lemma read_proposal_Ok:
  "read_proposal granted l s = Ok (z, s') \<longleftrightarrow>
     proposal_items l s = Ok (z, s') \<and> negotiation_reader_finish (fst s') = Ok ()"
  by (auto simp: read_proposal_def proposal_items_def unique_ids_def unique_bindings_def result_bind_Ok map_err_Ok
      split: prod.splits)

text \<open>What the lists that were read, or that are iterated, have to do with the contract.\<close>

definition contract_listed :: "contract_order \<Rightarrow> negotiated_contract \<Rightarrow> bool" where
  "contract_listed order c \<longleftrightarrow> distinct (fst order) \<and> fset_of_list (fst order) = nc_capabilities c
     \<and> distinct (map fst (snd order)) \<and> fmap_of_list (snd order) = nc_schemas c"

lemma enable_all_distinct:
  "distinct cs \<Longrightarrow> set cs \<inter> fset (nc_capabilities c) = {} \<Longrightarrow>
     \<exists>c'. enable_all cs c = Some c' \<and> nc_protocol c' = nc_protocol c \<and> nc_schemas c' = nc_schemas c
       \<and> nc_capabilities c' = fset_of_list cs |\<union>| nc_capabilities c"
proof (induction cs arbitrary: c)
  case (Cons i cs)
  then have "enable_all (i # cs) c = enable_all cs (snd (enable_capability c i))" by (simp add: enable_capability_def)
  then show ?case using Cons.IH[of "snd (enable_capability c i)"] Cons.prems by (auto simp: enable_capability_def)
qed simp

lemma bind_schemas_distinct:
  "distinct (map fst bs) \<Longrightarrow> \<forall>i\<in>set (map fst bs). fmlookup (nc_schemas c) i = None \<Longrightarrow>
     \<exists>c'. bind_schemas bs c = Some c' \<and> nc_protocol c' = nc_protocol c \<and> nc_capabilities c' = nc_capabilities c
       \<and> nc_schemas c' = nc_schemas c ++\<^sub>f fmap_of_list bs"
proof (induction bs arbitrary: c)
  case (Cons p bs)
  obtain i b where p: "p = (i, b)" by fastforce
  let ?c = "c\<lparr>nc_schemas := fmupd i b (nc_schemas c)\<rparr>"
  have "bind_schemas (p # bs) c = bind_schemas bs ?c" using Cons.prems by (simp add: p bind_schema_def)
  moreover obtain c' where "bind_schemas bs ?c = Some c'" "nc_protocol c' = nc_protocol c"
    "nc_capabilities c' = nc_capabilities c" "nc_schemas c' = fmupd i b (nc_schemas c) ++\<^sub>f fmap_of_list bs"
    using Cons.IH[of ?c] Cons.prems by (force simp: p)
  moreover have "fmupd i b (nc_schemas c) ++\<^sub>f fmap_of_list bs = nc_schemas c ++\<^sub>f fmap_of_list (p # bs)"
  proof (rule fmap_ext)
    fix k
    have "map_of bs i = None" using Cons.prems(1) by (simp add: p map_of_eq_None_iff)
    moreover have "k |\<in>| fmdom (fmap_of_list xs) \<longleftrightarrow> map_of xs k \<noteq> None" for xs :: "(schema_id \<times> selected_schema) list"
      unfolding fmlookup_dom_iff fmlookup_of_list by simp
    ultimately show "fmlookup (fmupd i b (nc_schemas c) ++\<^sub>f fmap_of_list bs) k
        = fmlookup (nc_schemas c ++\<^sub>f fmap_of_list (p # bs)) k"
      by (auto simp: p fmlookup_of_list simp del: fmdom_of_list)
  qed
  ultimately show ?case by auto
qed simp

lemma built_contract:
  assumes "distinct (fst order)" "distinct (map fst (snd order))"
  obtains c where "enable_all (fst order) (contract_new p) \<noteq> None"
    "Option.bind (enable_all (fst order) (contract_new p)) (bind_schemas (snd order)) = Some c"
    "\<And>c'. c' = c \<longleftrightarrow> nc_protocol c' = p \<and> contract_listed order c'"
proof -
  obtain c1 where c1: "enable_all (fst order) (contract_new p) = Some c1" "nc_protocol c1 = p"
    "nc_schemas c1 = fmempty" "nc_capabilities c1 = fset_of_list (fst order)"
    using enable_all_distinct[OF assms(1), of "contract_new p"] by (auto simp: contract_new_def)
  obtain c where c: "bind_schemas (snd order) c1 = Some c" "nc_protocol c = p"
    "nc_capabilities c = fset_of_list (fst order)" "nc_schemas c = fmap_of_list (snd order)"
    using bind_schemas_distinct[OF assms(2), of c1] c1 by auto
  show ?thesis
    by (rule that[of c]) (use c1 c assms in \<open>auto simp: contract_listed_def intro!: negotiated_contract.equality\<close>)
qed

lemma contract_listed_size:
  assumes "contract_listed order c"
  shows "length (fst order) = fcard (nc_capabilities c)" "length (snd order) = fm_len (nc_schemas c)"
proof -
  show "length (fst order) = fcard (nc_capabilities c)"
    using assms by (auto simp: contract_listed_def fcard.rep_eq fset_of_list.rep_eq distinct_card dest: sym)
  have eq: "nc_schemas c = fmap_of_list (snd order)" using assms by (simp add: contract_listed_def)
  have "fset (fmdom (nc_schemas c)) = set (map fst (snd order))" by (simp add: eq fset_of_list.rep_eq)
  moreover have "distinct (map fst (snd order))" using assms by (simp add: contract_listed_def)
  ultimately show "length (snd order) = fm_len (nc_schemas c)"
    by (simp add: fm_len_def fcard.rep_eq distinct_card del: set_map)
qed

lemma read_proposal_whole:
  assumes "length bs \<le> usize_max"
  shows "(\<exists>s'. read_proposal granted l (decode_start bs l e) = Ok ((p, order), s')) \<longleftrightarrow>
    order_counts l order \<and> bs = proposal_bytes p order
    \<and> 32 + 16 * length (fst order) + 48 * length (snd order) \<le> lim_offer_accounted_bytes l
    \<and> 32 + 16 * length (fst order) + 48 * length (snd order) \<le> usize_max"
  using exact_whole[OF exact_proposal_items assms, where x = "(p, order)"] unfolding read_proposal_Ok by simp

lemma decode_proposal_total:
  assumes "length bs \<le> usize_max"
  shows "decode_proposal granted bs l \<noteq> None"
proof (cases "read_proposal granted l (decode_start bs l OutResourceLimitExceeded)")
  case (Ok z)
  obtain p cs ss s' where z: "z = ((p, cs, ss), s')" by (metis surj_pair)
  then have "order_counts l (cs, ss)" using Ok read_proposal_whole[OF assms] by blast
  then have "distinct (fst (cs, ss))" "distinct (map fst (snd (cs, ss)))" by (simp_all add: order_counts_def)
  then obtain c where "Option.bind (enable_all cs (contract_new p)) (bind_schemas ss) = Some c"
    using built_contract[of "(cs, ss)" p] by (metis fst_conv snd_conv)
  then show ?thesis using Ok
    by (cases "enable_all cs (contract_new p)") (auto simp: decode_proposal_def z)
qed (simp add: decode_proposal_def)

lemma decode_proposal_Ok:
  assumes "length bs \<le> usize_max"
  shows "decode_proposal granted bs l = Some (Ok c) \<longleftrightarrow>
    (\<exists>order. contract_listed order c \<and> bs = proposal_bytes (nc_protocol c) order)
    \<and> count_in (lim_capabilities l) (fcard (nc_capabilities c)) \<and> count_in (lim_schemas l) (fm_len (nc_schemas c))
    \<and> contract_size c \<le> lim_offer_accounted_bytes l \<and> contract_size c \<le> usize_max" (is "?L \<longleftrightarrow> ?R")
proof -
  let ?read = "\<lambda>p order. \<exists>s'. read_proposal granted l (decode_start bs l OutResourceLimitExceeded) = Ok ((p, order), s')"
  have counts: "order_counts l order \<longleftrightarrow> count_in (lim_capabilities l) (fcard (nc_capabilities c))
      \<and> count_in (lim_schemas l) (fm_len (nc_schemas c))" if "contract_listed order c" for order
    using that contract_listed_size[OF that] by (auto simp: order_counts_def contract_listed_def)
  have size: "32 + 16 * length (fst order) + 48 * length (snd order) = contract_size c"
    if "contract_listed order c" for order
    using contract_listed_size[OF that] by (simp add: contract_size_def)
  have "?L \<longleftrightarrow> (\<exists>p order. ?read p order
      \<and> Option.bind (enable_all (fst order) (contract_new p)) (bind_schemas (snd order)) = Some c)"
    by (auto simp: decode_proposal_def split: result.splits option.splits)
  also have "\<dots> \<longleftrightarrow> (\<exists>p order. ?read p order \<and> nc_protocol c = p \<and> contract_listed order c)"
  proof -
    have "Option.bind (enable_all (fst order) (contract_new p)) (bind_schemas (snd order)) = Some c
        \<longleftrightarrow> nc_protocol c = p \<and> contract_listed order c" if "order_counts l order" for p order
      using that built_contract[of order p] by (metis option.inject order_counts_def)
    then show ?thesis using read_proposal_whole[OF assms] by blast
  qed
  also have "\<dots> \<longleftrightarrow> (\<exists>order. contract_listed order c \<and> ?read (nc_protocol c) order)" by blast
  also have "\<dots> \<longleftrightarrow> ?R"
  proof -
    have "?read (nc_protocol c) order \<longleftrightarrow> bs = proposal_bytes (nc_protocol c) order
        \<and> count_in (lim_capabilities l) (fcard (nc_capabilities c)) \<and> count_in (lim_schemas l) (fm_len (nc_schemas c))
        \<and> contract_size c \<le> lim_offer_accounted_bytes l \<and> contract_size c \<le> usize_max" if "contract_listed order c" for order
      unfolding read_proposal_whole[OF assms] counts[OF that] size[OF that] by blast
    then show ?thesis by blast
  qed
  finally show ?thesis .
qed

end
