(* ===== verification/Exchange_Bodies.thy ===== *)
theory Exchange_Bodies
  imports Exchange_Wire
begin

text \<open>
  What the encoders of the negotiation bodies write, and that the decoders invert them: a decoder
  accepts a body exactly when it is the one an encoder writes and what it holds keeps the limits.
\<close>

section \<open>Writers append\<close>

definition put :: "bytes \<Rightarrow> negotiation_writer \<Rightarrow> negotiation_writer" where
  "put bs w = w\<lparr>nw_body := nw_body w @ bs\<rparr>"

lemma put_simps [simp]:
  "put [] w = w" "put b (put a w) = put (a @ b) w" "nw_body (put a w) = nw_body w @ a"
  "nw_expected_len (put a w) = nw_expected_len w"
  by (simp_all add: put_def)

lemma push_put [simp]: "push_byte v = put [v]" "push_id i = put (be_bytes 16 i)"
  by (simp_all add: fun_eq_iff push_byte_def push_id_def put_def)

lemma fold_put: "fold (\<lambda>x. put (f x)) xs w = put (concat (map f xs)) w"
  by (induction xs arbitrary: w) simp_all

lemma count_encoding:
  obtains (small) e where "n \<le> MAX_COUNT" "usize_to_u64 n = Some (word_of_nat n)"
      "encode_varint (word_of_nat n) = Some (Ok e)" "varint_slice e = count_bytes n" "vi_len e = length (count_bytes n)"
    | (wide) "MAX_COUNT < n" "usize_to_u64 n = None"
    | (large) "MAX_COUNT < n" "usize_to_u64 n = Some (word_of_nat n)" "encode_varint (word_of_nat n) = Some (Err OutOfRange)"
proof (cases "n < 2 ^ 64")
  case True
  then have n: "unat (word_of_nat n :: u64) = n" by (simp add: unsigned_of_nat take_bit_nat_eq_self)
  show ?thesis
    by (rule encode_varint_cases[of "word_of_nat n"])
      (use True n small large in \<open>auto simp: usize_to_u64_def word_le_nat_alt word_less_nat_alt unat_MAX_VARINT MAX_COUNT_def\<close>)
next
  case False
  then show ?thesis using wide by (simp add: usize_to_u64_def MAX_COUNT_def)
qed

lemma count_len_eq: "count_len n = Some (if n \<le> MAX_COUNT then Some (length (count_bytes n)) else None)"
  by (rule count_encoding[of n]) (simp_all add: count_len_def)

lemma push_count_eq:
  "push_count n w = Some (if n \<le> MAX_COUNT then Ok (put (count_bytes n) w) else Err OutResourceLimitExceeded)"
  by (rule count_encoding[of n]) (simp_all add: push_count_def put_def)

definition unlimited :: offer_limits where
  "unlimited = \<lparr>lim_protocols = MAX_COUNT, lim_capabilities = MAX_COUNT, lim_schemas = MAX_COUNT,
     lim_contracts_per_schema = MAX_COUNT, lim_codecs_per_contract = MAX_COUNT,
     lim_diagnostic_label_bytes = 0, lim_offer_accounted_bytes = 0\<rparr>"

lemma counts_unlimited [simp]:
  "contract_counts unlimited c \<longleftrightarrow> length (sco_codecs c) \<le> MAX_COUNT"
  "schema_counts unlimited s \<longleftrightarrow>
     length (so_contracts s) \<le> MAX_COUNT \<and> list_all (contract_counts unlimited) (so_contracts s)"
  "offer_counts unlimited off \<longleftrightarrow> length (off_protocols off) \<le> MAX_COUNT \<and> length (off_capabilities off) \<le> MAX_COUNT
     \<and> length (off_schemas off) \<le> MAX_COUNT \<and> list_all (schema_counts unlimited) (off_schemas off)"
  by (auto simp: contract_counts_def schema_counts_def offer_counts_def count_in_def unlimited_def)

lemma push_contracts_eq:
  "push_contracts cs w = Some (if list_all (contract_counts unlimited) cs
     then Ok (put (concat (map contract_bytes cs)) w) else Err OutResourceLimitExceeded)"
  by (induction cs arbitrary: w)
    (simp_all add: push_count_eq fold_put contract_bytes_def codec_bytes_def[abs_def])

lemma push_schemas_eq:
  "push_schemas ss w = Some (if list_all (schema_counts unlimited) ss
     then Ok (put (concat (map schema_bytes ss)) w) else Err OutResourceLimitExceeded)"
  by (induction ss arbitrary: w) (simp_all add: push_count_eq push_contracts_eq schema_bytes_def)

lemma write_offer_eq:
  "write_offer off w = Some (if offer_counts unlimited off then Ok (put (offer_bytes off) w)
     else Err OutResourceLimitExceeded)"
  by (simp add: write_offer_def push_count_eq push_schemas_eq fold_put offer_bytes_def
      protocol_bytes_def[abs_def] capability_bytes_def[abs_def])

section \<open>Lengths\<close>

lemma add_count_eq:
  "add_count tot n = Some (if n \<le> MAX_COUNT \<and> tot + length (count_bytes n) \<le> usize_max
     then Some (tot + length (count_bytes n)) else None)"
  by (simp add: add_count_def count_len_eq checked_add_def)

lemma add_mul_eq: "add_mul tot n k = (if tot + n * k \<le> usize_max then Some (tot + n * k) else None)"
  by (auto simp: add_mul_def checked_mul_def checked_add_def)

lemma length_items [simp]:
  "length (contract_bytes c) = 16 + length (count_bytes (length (sco_codecs c))) + length (sco_codecs c) * 16"
  "length (concat (map codec_bytes xs)) = length xs * 16"
  "length (concat (map protocol_bytes ps)) = length ps * 32"
  "length (concat (map capability_bytes cs)) = length cs * 17"
  "length (concat (map capability_id_bytes ids)) = length ids * 16"
  "length (concat (map binding_bytes bs)) = length bs * 48"
proof -
  show codecs: "length (concat (map codec_bytes xs)) = length xs * 16" for xs
    by (induction xs) (simp_all add: codec_bytes_def)
  show "length (contract_bytes c) = 16 + length (count_bytes (length (sco_codecs c))) + length (sco_codecs c) * 16"
    by (simp add: contract_bytes_def codecs)
  show "length (concat (map protocol_bytes ps)) = length ps * 32" by (induction ps) (simp_all add: protocol_bytes_def)
  show "length (concat (map capability_bytes cs)) = length cs * 17" by (induction cs) (simp_all add: capability_bytes_def)
  show "length (concat (map capability_id_bytes ids)) = length ids * 16"
    by (induction ids) (simp_all add: capability_id_bytes_def)
  show "length (concat (map binding_bytes bs)) = length bs * 48"
    by (induction bs) (simp_all add: binding_bytes_def selected_bytes_def)
qed

text \<open>A length computed by checked additions.\<close>

definition fits_as :: "nat option exec \<Rightarrow> bool \<Rightarrow> nat \<Rightarrow> bool" where
  "fits_as m ok n \<longleftrightarrow> m = Some (if ok \<and> n \<le> usize_max then Some n else None)"

lemma contracts_body_len_eq:
  "tot \<le> usize_max \<Longrightarrow> fits_as (contracts_body_len tot cs) (list_all (contract_counts unlimited) cs)
     (tot + length (concat (map contract_bytes cs)))"
proof (induction cs arbitrary: tot)
  case (Cons c cs)
  let ?tot = "tot + length (contract_bytes c)"
  show ?case
  proof (cases "length (sco_codecs c) \<le> MAX_COUNT \<and> ?tot \<le> usize_max")
    case True
    then show ?thesis using Cons.IH[of ?tot]
      by (auto simp: fits_as_def add_count_eq add_mul_eq algebra_simps)
  next
    case False
    then show ?thesis
      by (auto simp: fits_as_def add_count_eq add_mul_eq checked_add_def
          algebra_simps)
  qed
qed (simp add: fits_as_def)

lemma schemas_body_len_eq:
  "tot \<le> usize_max \<Longrightarrow> fits_as (schemas_body_len tot ss) (list_all (schema_counts unlimited) ss)
     (tot + length (concat (map schema_bytes ss)))"
proof (induction ss arbitrary: tot)
  case (Cons s ss)
  let ?head = "tot + 17 + length (count_bytes (length (so_contracts s)))"
  let ?tot = "tot + length (schema_bytes s)"
  have len: "?tot = ?head + length (concat (map contract_bytes (so_contracts s)))" by (simp add: schema_bytes_def)
  show ?case
  proof (cases "length (so_contracts s) \<le> MAX_COUNT \<and> ?head \<le> usize_max")
    case True
    then have "contracts_body_len ?head (so_contracts s) =
        Some (if list_all (contract_counts unlimited) (so_contracts s) \<and> ?tot \<le> usize_max then Some ?tot else None)"
      using contracts_body_len_eq[of ?head "so_contracts s"] by (simp only: fits_as_def len)
    then show ?thesis using True Cons.IH[of ?tot]
      by (auto simp: fits_as_def add_count_eq algebra_simps)
  next
    case False
    then show ?thesis
      using len by (auto simp: fits_as_def add_count_eq checked_add_def)
  qed
qed (simp add: fits_as_def)

lemma offer_body_len_eq:
  "fits_as (offer_body_len off) (offer_counts unlimited off) (length (offer_bytes off))"
proof -
  let ?p = "length (off_protocols off)" and ?c = "length (off_capabilities off)" and ?s = "length (off_schemas off)"
  let ?head = "length (count_bytes ?p) + ?p * 32 + length (count_bytes ?c) + ?c * 17 + length (count_bytes ?s)"
  have len: "length (offer_bytes off) = ?head + length (concat (map schema_bytes (off_schemas off)))"
    by (simp add: offer_bytes_def)
  show ?thesis
  proof (cases "?p \<le> MAX_COUNT \<and> ?c \<le> MAX_COUNT \<and> ?s \<le> MAX_COUNT \<and> ?head \<le> usize_max")
    case True
    then have "offer_body_len off = schemas_body_len ?head (off_schemas off)"
      by (simp add: offer_body_len_def count_len_eq add_count_eq add_mul_eq)
    then show ?thesis
      using True schemas_body_len_eq[of ?head "off_schemas off"] by (simp add: fits_as_def len)
  next
    case False
    then have "offer_body_len off = Some None"
      by (auto simp: offer_body_len_def count_len_eq add_count_eq add_mul_eq)
    then show ?thesis using False by (auto simp: fits_as_def len)
  qed
qed

lemma length_proposal_bytes:
  "contract_listed order c \<Longrightarrow> length (proposal_bytes p order) =
     32 + length (count_bytes (fcard (nc_capabilities c))) + fcard (nc_capabilities c) * 16
     + length (count_bytes (fm_len (nc_schemas c))) + fm_len (nc_schemas c) * 48"
  by (simp add: proposal_bytes_def protocol_bytes_def contract_listed_size)

definition contract_counts_ok :: "negotiated_contract \<Rightarrow> bool" where
  "contract_counts_ok c \<longleftrightarrow> fcard (nc_capabilities c) \<le> MAX_COUNT \<and> fm_len (nc_schemas c) \<le> MAX_COUNT"

lemma proposal_body_len_eq:
  "contract_listed order c \<Longrightarrow>
     fits_as (proposal_body_len c) (contract_counts_ok c) (length (proposal_bytes p order))"
  by (auto simp: fits_as_def proposal_body_len_def add_count_eq add_mul_eq length_proposal_bytes contract_counts_ok_def)

lemma write_proposal_eq:
  assumes "contract_listed order c"
  shows "write_proposal order c w = Some (if contract_counts_ok c then Ok (put (proposal_bytes (nc_protocol c) order) w)
    else Err OutResourceLimitExceeded)"
  using fold_put[of binding_bytes "snd order"]
  by (simp add: write_proposal_def push_count_eq contract_counts_ok_def fold_put proposal_bytes_def protocol_bytes_def
      contract_listed_size[OF assms] capability_id_bytes_def[abs_def] binding_bytes_def selected_bytes_def
      case_prod_unfold)

lemma encode_sized_eq:
  assumes "fits_as m ok (length bs)" "\<And>w. ok \<Longrightarrow> write w = Some (Ok (put bs w))"
  shows "encode_sized alloc m limit write = Some (if ok \<and> length bs \<le> unat limit \<and> alloc (length bs)
    then Ok bs else Err OutResourceLimitExceeded)"
proof -
  have limit: "unat limit \<le> usize_max" using unsigned_less[of limit, where ?'a = nat] by (simp add: usize_max_def)
  have word: "n \<le> usize_max \<Longrightarrow> usize_to_u64 n = Some (word_of_nat n)
      \<and> ((word_of_nat n :: u64) > limit \<longleftrightarrow> n > unat limit)" for n
    by (simp add: usize_to_u64_def usize_max_def word_less_nat_alt unsigned_of_nat take_bit_nat_eq_self)
  show ?thesis
  proof (cases "ok \<and> length bs \<le> usize_max")
    case True
    then show ?thesis
      using assms word[of "length bs"]
      by (auto simp: encode_sized_def fits_as_def ensure_body_fits_def negotiation_writer_new_def
          negotiation_writer_finish_def)
  next
    case False
    then show ?thesis using assms(1) limit by (auto simp: encode_sized_def fits_as_def)
  qed
qed

lemma encode_offer_eq:
  "encode_offer alloc off limit = Some (
     if off_diagnostic_label off \<noteq> None then Err OutMalformedOffer
     else if offer_counts unlimited off \<and> length (offer_bytes off) \<le> unat limit \<and> alloc (length (offer_bytes off))
     then Ok (offer_bytes off) else Err OutResourceLimitExceeded)"
proof -
  have "encode_sized alloc (offer_body_len off) limit (write_offer off) = Some (
     if offer_counts unlimited off \<and> length (offer_bytes off) \<le> unat limit \<and> alloc (length (offer_bytes off))
     then Ok (offer_bytes off) else Err OutResourceLimitExceeded)"
    by (rule encode_sized_eq[OF offer_body_len_eq]) (simp add: write_offer_eq del: counts_unlimited)
  then show ?thesis by (simp add: encode_offer_def del: counts_unlimited)
qed

lemma encode_proposal_eq:
  assumes "contract_listed order c"
  shows "encode_proposal alloc order c limit = Some (
     if contract_counts_ok c \<and> length (proposal_bytes (nc_protocol c) order) \<le> unat limit
       \<and> alloc (length (proposal_bytes (nc_protocol c) order))
     then Ok (proposal_bytes (nc_protocol c) order) else Err OutResourceLimitExceeded)"
  unfolding encode_proposal_def
  by (rule encode_sized_eq[OF proposal_body_len_eq[OF assms]]) (simp add: write_proposal_eq[OF assms])

section \<open>The decoders invert the encoders\<close>

text \<open>What a charge costs, the bytes of its item cost too: a body in memory cannot overflow the budget.\<close>

lemma offer_size_le: "off_diagnostic_label off = None \<Longrightarrow> offer_size off \<le> length (offer_bytes off)"
proof -
  have contracts: "sum_list (map contract_cost cs) + 16 * length cs \<le> length (concat (map contract_bytes cs))" for cs
    by (induction cs) (simp_all add: contract_cost_def)
  have schema: "17 + schema_cost s \<le> length (schema_bytes s)" for s
    using contracts[of "so_contracts s"] by (simp add: schema_bytes_def schema_cost_def)
  have schemas: "length ss * 17 + sum_list (map schema_cost ss) \<le> length (concat (map schema_bytes ss))" for ss
  proof (induction ss)
    case (Cons s ss)
    then show ?case using schema[of s] by simp
  qed simp
  have "offer_cost off \<le> length (offer_bytes off)"
    using schemas[of "off_schemas off"] by (simp add: offer_cost_def offer_bytes_def)
  then show "off_diagnostic_label off = None \<Longrightarrow> offer_size off \<le> length (offer_bytes off)"
    by (simp add: offer_cost_eq)
qed

lemma offer_counts_unlimited: "offer_counts l off \<Longrightarrow> offer_counts unlimited off"
  by (auto simp: offer_counts_def schema_counts_def[abs_def] contract_counts_def[abs_def] count_in_def list_all_iff unlimited_def
      simp del: counts_unlimited)

lemma length_le_u64: "length bs \<le> usize_max \<longleftrightarrow> length bs \<le> unat (- 1 :: u64)"
  by (simp add: usize_max_def unsigned_minus_1_eq_mask mask_eq_exp_minus_1)

text \<open>
  C29: What a peer can make the code hold as its offer is exactly what an encoder can have written: a
  body decodes to an offer if and only if it is that offer's encoding (so every offer has one
  encoding, and truncated, trailing, non-minimal or unknown bytes are refused), every count keeps its
  limit at every level, and the offer's accounted size is within the limit that validation applies.
\<close>

theorem decode_offer_inverts:
  assumes "length bs \<le> usize_max"
  shows "decode_offer (\<lambda>_ _. True) bs l = Ok off \<longleftrightarrow>
    encode_offer (\<lambda>_. True) off (- 1) = Some (Ok bs)
    \<and> offer_counts l off \<and> offer_size off \<le> lim_offer_accounted_bytes l"
proof -
  have "encode_offer (\<lambda>_. True) off (- 1) = Some (Ok bs) \<longleftrightarrow>
      off_diagnostic_label off = None \<and> offer_counts unlimited off \<and> bs = offer_bytes off"
    using assms length_le_u64[of bs] by (auto simp: encode_offer_eq simp del: counts_unlimited)
  then show ?thesis
    unfolding decode_offer_Ok[OF assms]
    using assms offer_size_le[of off] offer_counts_unlimited[of l off] by auto
qed

text \<open>
  The same for proposals, whose contract is held in a hash set and a hash map: the decoder never
  reaches its \<open>expect\<close> or its \<open>debug_assert\<close>, and it yields a contract exactly when the body is an
  encoding of it in some iteration order of its containers, within the limits on capabilities, on
  schemas and on the contract's accounted size.
\<close>

theorem decode_proposal_inverts:
  assumes "length bs \<le> usize_max"
  shows "decode_proposal (\<lambda>_ _. True) bs l \<noteq> None
    \<and> (decode_proposal (\<lambda>_ _. True) bs l = Some (Ok c) \<longleftrightarrow>
         (\<exists>order. contract_listed order c \<and> encode_proposal (\<lambda>_. True) order c (- 1) = Some (Ok bs))
         \<and> fcard (nc_capabilities c) \<le> lim_capabilities l \<and> fm_len (nc_schemas c) \<le> lim_schemas l
         \<and> contract_size c \<le> lim_offer_accounted_bytes l)"
proof -
  have enc: "encode_proposal (\<lambda>_. True) order c (- 1) = Some (Ok bs) \<longleftrightarrow>
      contract_counts_ok c \<and> bs = proposal_bytes (nc_protocol c) order" if "contract_listed order c" for order
    using assms length_le_u64[of bs] by (auto simp: encode_proposal_eq[OF that])
  have size: "contract_size c \<le> usize_max" if "contract_listed order c" "bs = proposal_bytes (nc_protocol c) order" for order
    using assms length_proposal_bytes[OF that(1), of "nc_protocol c"] by (simp add: that(2) contract_size_def)
  show ?thesis
    unfolding decode_proposal_Ok[OF assms] count_in_def
    using decode_proposal_total[OF assms] enc size by (auto simp: contract_counts_ok_def simp del: split_paired_Ex)
qed

text \<open>A validated offer without a label, once encoded, is what the other side decodes.\<close>

lemma valid_offer_counts: "offer_wf l off \<Longrightarrow> offer_counts unlimited off \<Longrightarrow> offer_counts l off"
  by (auto simp: offer_wf_def schema_wf_def contract_wf_def offer_counts_def schema_counts_def[abs_def]
      contract_counts_def[abs_def] count_in_def list_all_iff unlimited_def simp del: counts_unlimited)

lemma offer_roundtrip:
  assumes "offer_validate off l = Ok v" "encode_offer alloc off limit = Some (Ok bs)"
  shows "decode_offer granted bs l = Ok off" "length bs \<le> usize_max"
proof -
  have wf: "offer_wf l off" using assms(1) by (simp add: offer_validate_iff)
  have enc: "off_diagnostic_label off = None" "offer_counts unlimited off" "bs = offer_bytes off" "length bs \<le> unat limit"
    using assms(2) by (auto simp: encode_offer_eq simp del: counts_unlimited split: if_splits)
  show len: "length bs \<le> usize_max"
    using enc(4) unsigned_less[of limit, where ?'a = nat] by (simp add: usize_max_def)
  show "decode_offer granted bs l = Ok off"
    unfolding decode_offer_Ok[OF len] using enc valid_offer_counts[OF wf] wf by (simp add: offer_wf_def)
qed

lemma proposal_roundtrip:
  assumes "contract_fits l c" "contract_listed order c" "encode_proposal alloc order c limit = Some (Ok bs)"
  shows "decode_proposal granted bs l = Some (Ok c)" "length bs \<le> usize_max"
proof -
  have enc: "contract_counts_ok c" "bs = proposal_bytes (nc_protocol c) order" "length bs \<le> unat limit"
    using assms(3) by (auto simp: encode_proposal_eq[OF assms(2)] split: if_splits)
  show len: "length bs \<le> usize_max"
    using enc(3) unsigned_less[of limit, where ?'a = nat] by (simp add: usize_max_def)
  show "decode_proposal granted bs l = Some (Ok c)"
    unfolding decode_proposal_Ok[OF len]
    using enc assms(1,2) by (intro conjI exI[of _ order]) (simp_all add: contract_counts_ok_def contract_fits_def count_in_def)
qed

section \<open>Concrete bodies\<close>

definition demo_wire_offer :: compatibility_offer where
  "demo_wire_offer = \<lparr>off_protocols = [\<lparr>pc_id = ProtocolId 7, pc_revision = ProtocolRevision 1\<rparr>],
     off_capabilities = [\<lparr>co_id = CapabilityId 9, co_requirement = Required\<rparr>], off_schemas = [],
     off_diagnostic_label = None\<rparr>"

definition demo_wire_contract :: negotiated_contract where
  "demo_wire_contract = \<lparr>nc_protocol = \<lparr>pc_id = ProtocolId 7, pc_revision = ProtocolRevision 1\<rparr>,
     nc_capabilities = {|CapabilityId 9|}, nc_schemas = fmempty\<rparr>"

lemma vslice_01 [simp]: "vslice 0 = [0]" "vslice 1 = [1]"
  by (simp_all add: vslice_def encode_varint_def varint_len_def varint_slice_def varint_buffer_def)

theorem decode_offer_inverts_witness:
  "decode_offer (\<lambda>_ _. True) ([1] @ be_bytes 16 (7 :: u128) @ be_bytes 16 (1 :: u128) @ [1] @ be_bytes 16 (9 :: u128) @ [1, 0])
     offer_limits_default = Ok demo_wire_offer"
  by (subst decode_offer_inverts)
    (simp_all add: demo_wire_offer_def encode_offer_eq offer_bytes_def protocol_bytes_def capability_bytes_def
      encode_requirement_def offer_counts_def count_in_def MAX_COUNT_def offer_limits_default_def offer_size_def unlimited_def
      usize_max_def unsigned_minus_1_eq_mask mask_eq_exp_minus_1)

theorem decode_proposal_inverts_witness:
  "decode_proposal (\<lambda>_ _. True) (be_bytes 16 (7 :: u128) @ be_bytes 16 (1 :: u128) @ [1] @ be_bytes 16 (9 :: u128) @ [0])
     offer_limits_default = Some (Ok demo_wire_contract)"
proof -
  have "contract_listed ([CapabilityId 9], []) demo_wire_contract"
    by (simp add: contract_listed_def demo_wire_contract_def)
  moreover from this have "encode_proposal (\<lambda>_. True) ([CapabilityId 9], []) demo_wire_contract (- 1) =
      Some (Ok (be_bytes 16 (7 :: u128) @ be_bytes 16 (1 :: u128) @ [1] @ be_bytes 16 (9 :: u128) @ [0]))"
    by (simp add: encode_proposal_eq proposal_bytes_def demo_wire_contract_def protocol_bytes_def capability_id_bytes_def
        contract_counts_ok_def MAX_COUNT_def fcard.rep_eq unsigned_minus_1_eq_mask mask_eq_exp_minus_1)
  ultimately show ?thesis
    by (subst decode_proposal_inverts[THEN conjunct2])
      (auto simp: usize_max_def demo_wire_contract_def contract_size_def offer_limits_default_def fcard.rep_eq)
qed

end
