(* ===== verification/Exchange_Safety.thy ===== *)
theory Exchange_Safety
  imports Exchange Exchange_Bodies
begin

text \<open>
  The negotiation exchange keeps the manager and itself in step: \<open>exchange_ok\<close> says for every state
  what the manager holds for the connection. Every operation keeps it, whatever the frames, the
  reservations and the iteration orders, and gives the connection back to the manager when it fails.
\<close>

section \<open>The manager seen from one connection\<close>

definition manager_knows :: "negotiation_manager \<Rightarrow> connection_handle \<Rightarrow> bool" where
  "manager_knows m c \<longleftrightarrow> fmlookup (nm_attempts m) c \<noteq> None \<or> fmlookup (nm_established m) c \<noteq> None"

definition same_elsewhere :: "connection_handle \<Rightarrow> negotiation_manager \<Rightarrow> negotiation_manager \<Rightarrow> bool" where
  "same_elsewhere c m m' \<longleftrightarrow> nm_offer_limits m' = nm_offer_limits m \<and> nm_limits m' = nm_limits m
     \<and> (\<forall>d. d \<noteq> c \<longrightarrow> fmlookup (nm_attempts m') d = fmlookup (nm_attempts m) d
                 \<and> fmlookup (nm_established m') d = fmlookup (nm_established m) d)"

lemma same_elsewhere_refl [simp]: "same_elsewhere c m m"
  by (simp add: same_elsewhere_def)

lemma same_elsewhere_trans: "same_elsewhere c m m1 \<Longrightarrow> same_elsewhere c m1 m2 \<Longrightarrow> same_elsewhere c m m2"
  by (simp add: same_elsewhere_def)

lemma same_elsewhere_attempt [simp]:
  "same_elsewhere c m (m\<lparr>nm_attempts := fmupd c a (nm_attempts m)\<rparr>)"
  "same_elsewhere c m (m\<lparr>nm_attempts := fmupd c a (nm_attempts m), nm_reserved_bytes := r\<rparr>)"
  by (simp_all add: same_elsewhere_def)

lemma terminate_known:
  assumes "manager_ok m" "manager_knows m c"
  obtains t m' where "manager_terminate m c = Some (Ok t, m')" "manager_ok m'" "\<not> manager_knows m' c"
    "same_elsewhere c m m'"
proof -
  obtain r m' where m': "manager_terminate m c = Some (r, m')" "manager_ok m'"
    using manager_terminate_ok[OF assms(1), of c] by blast
  have "(\<exists>t. r = Ok t) \<and> \<not> manager_knows m' c \<and> same_elsewhere c m m'"
  proof (cases "fmlookup (nm_attempts m) c")
    case None
    then show ?thesis using m'(1) assms
      by (auto simp: manager_terminate_def manager_knows_def same_elsewhere_def bind_eq_Some_conv)
  next
    case (Some a)
    then show ?thesis using m'(1) manager_okD(2)[OF assms(1) Some]
      by (auto simp: manager_terminate_def manager_knows_def same_elsewhere_def bind_eq_Some_conv)
  qed
  then show ?thesis using that m' by blast
qed

text \<open>The refusals of the core that a peer is told about.\<close>

definition reportable :: "manager_error \<Rightarrow> bool" where
  "reportable e \<longleftrightarrow> is_ok (manager_failure_outcome e)"

lemma check_all_Err: "check_all f xs = Err e \<Longrightarrow> \<exists>x\<in>set xs. f x = Err e"
  by (induction xs) (auto simp: result_bind_def split: result.splits)

lemma validate_selection_Err:
  assumes "validate_selection a k r = Err e"
  shows "reportable (NegotiationFailed e)"
proof -
  have report: "reportable (NegotiationFailed InvalidSelection)" "reportable (NegotiationFailed SelectionTooLarge)"
    "\<And>i. reportable (NegotiationFailed (RequiredCapabilityUnavailable i))"
    "\<And>i. reportable (NegotiationFailed (RequiredSchemaUnavailable i))"
    by (simp_all add: reportable_def manager_failure_outcome_def)
  have req: "check_all (\<lambda>i. if p i then Err (f i) else if q i then Err InvalidSelection else Ok ()) xs = Err e
      \<Longrightarrow> (\<And>i. reportable (NegotiationFailed (f i))) \<Longrightarrow> reportable (NegotiationFailed e)"
    for p q :: "'x \<Rightarrow> bool" and f xs
    by (drule check_all_Err) (auto simp: report split: if_splits)
  show ?thesis
    using assms unfolding validate_selection_def Let_def
    by (auto simp: report result_bind_def contract_accounted_bytes_eq map_err_def intro: req report
        split: if_splits result.splits)
qed

lemma attempt_new_Err: "attempt_new x y l = Err e \<Longrightarrow> reportable (NegotiationFailed e)"
  by (auto simp: attempt_new_def result_bind_def map_err_def verify_offer_requirements_def reportable_def
      manager_failure_outcome_def dest!: check_all_Err split: if_splits result.splits)

lemma start_unknown:
  assumes "manager_ok m" "\<not> manager_knows m c"
  obtains (started) m' a where "manager_start m c x y = Some (Ok (), m')" "manager_ok m'" "same_elsewhere c m m'"
      "fmlookup (nm_attempts m') c = Some a" "attempt_new x y (nm_offer_limits m) = Ok a"
    | (refused) e where "manager_start m c x y = Some (Err e, m)" "reportable e"
proof -
  obtain r m' where m': "manager_start m c x y = Some (r, m')" "manager_ok m'"
    using manager_start_ok[OF assms(1), of c x y] by blast
  have report: "reportable AttemptLimitExceeded" "reportable AggregateLimitExceeded"
    by (simp_all add: reportable_def manager_failure_outcome_def)
  show ?thesis
  proof (cases r)
    case (Ok u)
    then show ?thesis using m' started assms(2)
      by (auto simp: manager_start_def manager_knows_def bind_eq_Some_conv split: if_splits result.splits)
  next
    case (Err e)
    then show ?thesis using m' refused assms(2) attempt_new_Err report
      by (auto simp: manager_start_def manager_knows_def bind_eq_Some_conv split: if_splits result.splits)
  qed
qed

lemma propose_open:
  assumes "manager_ok m" "fmlookup (nm_attempts m) c = Some a" "at_proposal a = None"
  obtains (proposed) m' where "manager_propose m c k r = Some (Ok (), m')" "manager_ok m'" "same_elsewhere c m m'"
      "m' = m\<lparr>nm_attempts := fmupd c (a\<lparr>at_proposal := Some k\<rparr>) (nm_attempts m)\<rparr>" "validate_selection a k r = Ok ()"
    | (refused) e m' where "manager_propose m c k r = Some (Err e, m')" "manager_ok m'" "same_elsewhere c m m'"
      "manager_knows m' c" "reportable e"
proof -
  have ok: "attempt_ok (nm_offer_limits m) a" using manager_okD(1)[OF assms(1,2)] .
  then have fresh: "attempt_status a \<noteq> Established" using assms(3) by (simp add: attempt_ok_def attempt_status_def)
  have attempt: "manager_attempt m c = Ok a"
    using assms(2) manager_okD(2)[OF assms(1,2)] by (simp add: manager_attempt_Ok)
  obtain q m' where m': "manager_propose m c k r = Some (q, m')" "manager_ok m'"
    using manager_propose_ok[OF assms(1), of c k r] by blast
  show ?thesis
  proof (cases "validate_selection a k r")
    case (Ok u)
    then have "manager_propose m c k r = Some (Ok (), m\<lparr>nm_attempts := fmupd c (a\<lparr>at_proposal := Some k\<rparr>) (nm_attempts m)\<rparr>)"
      using attempt fresh assms(3) by (simp add: manager_propose_def attempt_propose_def)
    then show ?thesis using m' Ok proposed by simp
  next
    case (Err e)
    then have "manager_propose m c k r = Some (Err (NegotiationFailed e), m\<lparr>nm_attempts := fmupd c a (nm_attempts m)\<rparr>)"
      using attempt fresh assms(3) by (simp add: manager_propose_def attempt_propose_def)
    then show ?thesis using m' refused validate_selection_Err[OF Err] by (simp add: manager_knows_def)
  qed
qed

lemma validate_first:
  assumes "manager_ok m" "fmlookup (nm_attempts m) c = Some a" "at_proposal a = Some k"
    "\<not> at_authority_validated a" "\<not> at_peer_validated a"
  shows "manager_validate m c w = Some (Ok (AwaitingValidation w (\<not> w)), m\<lparr>nm_attempts := fmupd c
      (if w then a\<lparr>at_authority_validated := True\<rparr> else a\<lparr>at_peer_validated := True\<rparr>) (nm_attempts m)\<rparr>)"
  using assms manager_okD(2)[OF assms(1,2)]
  by (simp add: manager_validate_def manager_attempt_def validate_party_def attempt_status_def Let_def)

lemma validate_second:
  assumes "manager_ok m" "fmlookup (nm_attempts m) c = Some a" "at_proposal a = Some k"
    "at_authority_validated a = (\<not> w)" "at_peer_validated a = w"
  obtains m' where "manager_validate m c w = Some (Ok Established, m')" "manager_ok m'" "same_elsewhere c m m'"
    "fmlookup (nm_established m') c = Some \<lparr>es_contract = k, es_accounted_bytes = contract_size k\<rparr>"
proof -
  let ?b = "if w then a\<lparr>at_authority_validated := True\<rparr> else a\<lparr>at_peer_validated := True\<rparr>"
  have b: "at_proposal ?b = Some k" using assms(3) by simp
  obtain r where r: "promote_established (m\<lparr>nm_attempts := fmupd c ?b (nm_attempts m)\<rparr>) c =
           Some (Ok (), m\<lparr>nm_attempts := fmdrop c (nm_attempts m), nm_reserved_bytes := r,
             nm_established := fmupd c \<lparr>es_contract = k, es_accounted_bytes = contract_size k\<rparr> (nm_established m)\<rparr>)"
      "manager_ok (m\<lparr>nm_attempts := fmdrop c (nm_attempts m), nm_reserved_bytes := r,
             nm_established := fmupd c \<lparr>es_contract = k, es_accounted_bytes = contract_size k\<rparr> (nm_established m)\<rparr>)"
    using promote_step[OF assms(1-3) b] by blast
  show ?thesis
    by (rule that[OF _ r(2)])
      (use r(1) assms(2-5) manager_okD(2)[OF assms(1,2)] in
        \<open>auto simp: manager_validate_def manager_attempt_def validate_party_def attempt_status_def Let_def same_elsewhere_def\<close>)
qed

section \<open>The invariant of an exchange\<close>

text \<open>What the attempt of the connection holds: its proposal and who has validated it.\<close>

definition attempt_is :: "negotiation_manager \<Rightarrow> connection_handle \<Rightarrow> bool \<Rightarrow> bool \<Rightarrow> bool \<Rightarrow> bool" where
  "attempt_is m c proposed by_authority by_peer \<longleftrightarrow>
     (\<exists>a. fmlookup (nm_attempts m) c = Some a \<and> (at_proposal a \<noteq> None) = proposed
        \<and> at_authority_validated a = by_authority \<and> at_peer_validated a = by_peer)"

definition state_ok :: "negotiation_exchange \<Rightarrow> negotiation_manager \<Rightarrow> bool" where
  "state_ok x m \<longleftrightarrow> (let c = nx_connection x; authority = nx_role x = Authority in
     case nx_state x of
       NxReady \<Rightarrow> nx_local_offer x = None
     | NxAwaitingPeerOffer \<Rightarrow> nx_local_offer x \<noteq> None
     | NxAwaitingAuthoritySelection \<Rightarrow> authority \<and> attempt_is m c False False False
     | NxAwaitingProposal \<Rightarrow> \<not> authority \<and> attempt_is m c False False False
     | NxAwaitingValidated \<Rightarrow> authority \<and> attempt_is m c True True False
     | NxAwaitingEstablished \<Rightarrow> \<not> authority \<and> attempt_is m c True False True
     | NxEstablished \<Rightarrow> fmlookup (nm_established m) c \<noteq> None
     | NxFailed \<Rightarrow> nx_local_offer x = None)"

definition unowned :: "negotiation_state \<Rightarrow> bool" where
  "unowned st \<longleftrightarrow> st \<in> {NxReady, NxAwaitingPeerOffer, NxFailed}"

definition exchange_ok :: "negotiation_exchange \<Rightarrow> negotiation_manager \<Rightarrow> bool" where
  "exchange_ok x m \<longleftrightarrow> manager_ok m \<and> nx_manager_owned x = manager_knows m (nx_connection x)
     \<and> manager_knows m (nx_connection x) = (\<not> unowned (nx_state x)) \<and> state_ok x m"

text \<open>The errors that report a fault of this library, and not of the peer, the host or the memory.\<close>

fun internal_error :: "negotiation_control_error \<Rightarrow> bool" where
  "internal_error (ManagerState _) = True"
| "internal_error (UnexpectedCoreStatus _) = True"
| "internal_error _ = False"

definition op_good :: "negotiation_exchange \<Rightarrow> negotiation_manager \<Rightarrow> 'a exchange_op \<Rightarrow> bool" where
  "op_good x m q \<longleftrightarrow> (\<exists>r x' m'. q = Some (r, x', m') \<and> exchange_ok x' m'
     \<and> same_elsewhere (nx_connection x) m m' \<and> nx_connection x' = nx_connection x \<and> nx_role x' = nx_role x
     \<and> (\<forall>e. r = Err e \<longrightarrow> \<not> internal_error e \<and> nx_state x' = NxFailed))"

lemma op_goodI:
  "exchange_ok x' m' \<Longrightarrow> same_elsewhere (nx_connection x) m m' \<Longrightarrow> nx_connection x' = nx_connection x \<Longrightarrow>
     nx_role x' = nx_role x \<Longrightarrow> op_good x m (Some (Ok r, x', m'))"
  by (simp add: op_good_def)

lemma op_good_from:
  "op_good x1 m1 q \<Longrightarrow> same_elsewhere (nx_connection x) m m1 \<Longrightarrow> nx_connection x1 = nx_connection x \<Longrightarrow>
     nx_role x1 = nx_role x \<Longrightarrow> op_good x m q"
  unfolding op_good_def by (metis same_elsewhere_trans)

section \<open>Failing keeps the invariant\<close>

definition releasable :: "negotiation_exchange \<Rightarrow> negotiation_manager \<Rightarrow> bool" where
  "releasable x m \<longleftrightarrow> manager_ok m \<and> nx_manager_owned x = manager_knows m (nx_connection x)"

lemma exchange_ok_releasable: "exchange_ok x m \<Longrightarrow> releasable x m"
  by (simp add: exchange_ok_def releasable_def)

lemma release_good:
  assumes "releasable x m"
  obtains x' m' where "release_manager (x\<lparr>nx_local_offer := None, nx_state := NxFailed\<rparr>) m = Some (Ok (), x', m')"
    "exchange_ok x' m'" "same_elsewhere (nx_connection x) m m'" "nx_connection x' = nx_connection x"
    "nx_role x' = nx_role x" "nx_state x' = NxFailed"
proof (cases "nx_manager_owned x")
  case True
  then obtain t m' where m': "manager_terminate m (nx_connection x) = Some (Ok t, m')" "manager_ok m'"
    "\<not> manager_knows m' (nx_connection x)" "same_elsewhere (nx_connection x) m m'"
    using assms terminate_known[of m "nx_connection x"] by (auto simp: releasable_def)
  show ?thesis
    by (rule that[of "x\<lparr>nx_local_offer := None, nx_state := NxFailed, nx_manager_owned := False\<rparr>" m'])
      (use True m' in \<open>simp_all add: release_manager_def exchange_ok_def state_ok_def unowned_def\<close>)
next
  case False
  show ?thesis
    by (rule that[of "x\<lparr>nx_local_offer := None, nx_state := NxFailed\<rparr>" m])
      (use False assms in \<open>simp_all add: release_manager_def exchange_ok_def state_ok_def unowned_def releasable_def\<close>)
qed

lemma fail_with_good: "releasable x m \<Longrightarrow> \<not> internal_error e \<Longrightarrow> op_good x m (fail_with e x m)"
  by (erule release_good) (auto simp: fail_with_def op_good_def)

lemma fail_local_good: "releasable x m \<Longrightarrow> op_good x m (fail_local al x m out)"
  by (simp add: fail_local_def fail_with_good)

lemma fail_protocol_good: "releasable x m \<Longrightarrow> op_good x m (fail_protocol x m e)"
  by (simp add: fail_protocol_def fail_with_good)

lemma fail_decode_good: "releasable x m \<Longrightarrow> op_good x m (fail_decode al x m e)"
  by (cases e) (simp_all add: fail_decode_def fail_local_good fail_protocol_good)

lemma fail_from_manager_good: "releasable x m \<Longrightarrow> reportable e \<Longrightarrow> op_good x m (fail_from_manager al x m e)"
  by (cases "manager_failure_outcome e") (simp_all add: fail_from_manager_def reportable_def fail_local_good)

lemma abort_good: "exchange_ok x m \<Longrightarrow> op_good x m (exchange_abort x m)"
  by (erule release_good[OF exchange_ok_releasable]) (auto simp: exchange_abort_def op_good_def)

section \<open>Every operation keeps the invariant\<close>

text \<open>The contract that the attempt of a connection proposes.\<close>

definition proposes :: "negotiation_manager \<Rightarrow> connection_handle \<Rightarrow> negotiated_contract \<Rightarrow> bool" where
  "proposes m c k \<longleftrightarrow> (\<exists>a. fmlookup (nm_attempts m) c = Some a \<and> at_proposal a = Some k)"

lemma prepare_offer_good:
  assumes "exchange_ok x m"
  shows "op_good x m (prepare_offer al x m off)"
proof -
  note rel = exchange_ok_releasable[OF assms]
  have "op_good x m (Some (Ok f, x\<lparr>nx_local_offer := Some v, nx_state := NxAwaitingPeerOffer\<rparr>, m))"
    if "nx_state x = NxReady" for f :: control_frame and v
    using assms that by (intro op_goodI) (auto simp: exchange_ok_def state_ok_def unowned_def)
  then show ?thesis
    by (simp add: prepare_offer_def encode_offer_eq fail_local_good[OF rel] fail_protocol_good[OF rel]
        split: result.splits del: counts_unlimited)
qed

lemma encode_attempt_good:
  assumes "releasable x m" "contract_listed order k" "attempt_is m (nx_connection x) True True False"
    "proposes m (nx_connection x) k" "nx_role x = Authority" "fmlookup (nm_established m) (nx_connection x) = None"
  shows "op_good x m (encode_attempt al order x m)"
proof -
  have c: "manager_attempt_proposal m (nx_connection x) = Ok k"
    using assms(4,6) by (auto simp: proposes_def manager_attempt_proposal_def manager_attempt_def)
  have "exchange_ok (x\<lparr>nx_state := NxAwaitingValidated\<rparr>) m"
    using assms by (auto simp: releasable_def exchange_ok_def state_ok_def unowned_def manager_knows_def attempt_is_def)
  then have "op_good x m (Some (Ok f, x\<lparr>nx_state := NxAwaitingValidated\<rparr>, m))" for f :: control_frame
    by (intro op_goodI) auto
  then show ?thesis
    by (simp add: encode_attempt_def c encode_proposal_eq[OF assms(2)] fail_local_good[OF assms(1)])
qed

text \<open>A first validation always leads to the status that the code expects.\<close>

lemma validate_as_first:
  assumes "manager_ok m" "attempt_is m (nx_connection x) True False False" "proposes m (nx_connection x) p"
    "\<And>m'. manager_ok m' \<Longrightarrow> same_elsewhere (nx_connection x) m m' \<Longrightarrow> fmlookup (nm_established m') (nx_connection x) = None \<Longrightarrow>
       attempt_is m' (nx_connection x) True w (\<not> w) \<Longrightarrow> proposes m' (nx_connection x) p \<Longrightarrow> op_good x m' (k x m')"
  shows "op_good x m (validate_as w (AwaitingValidation w (\<not> w)) k x m)"
proof -
  let ?c = "nx_connection x"
  obtain a where a: "fmlookup (nm_attempts m) ?c = Some a" "at_proposal a = Some p"
    "\<not> at_authority_validated a" "\<not> at_peer_validated a"
    using assms(2,3) by (auto simp: attempt_is_def proposes_def)
  let ?b = "if w then a\<lparr>at_authority_validated := True\<rparr> else a\<lparr>at_peer_validated := True\<rparr>"
  let ?m = "m\<lparr>nm_attempts := fmupd ?c ?b (nm_attempts m)\<rparr>"
  have v: "manager_validate m ?c w = Some (Ok (AwaitingValidation w (\<not> w)), ?m)"
    by (rule validate_first[OF assms(1) a])
  have "manager_ok ?m" using manager_validate_ok[OF assms(1), of ?c w] v by simp
  moreover have "attempt_is ?m ?c True w (\<not> w)" using a by (simp add: attempt_is_def)
  moreover have "proposes ?m ?c p" using a by (simp add: proposes_def)
  moreover have "fmlookup (nm_established ?m) ?c = None" using manager_okD(2)[OF assms(1) a(1)] by simp
  ultimately have "op_good x ?m (k x ?m)" by (intro assms(4)) simp_all
  then have "op_good x m (k x ?m)" by (rule op_good_from) simp_all
  then show ?thesis using v
    by (simp add: validate_as_def manager_validate_authority_def manager_validate_peer_def split: if_splits)
qed

lemma validate_as_second:
  assumes "manager_ok m" "attempt_is m (nx_connection x) True (\<not> w) w" "nx_manager_owned x"
  shows "op_good x m (validate_as w Established (\<lambda>x m. Some (Ok r, x\<lparr>nx_state := NxEstablished\<rparr>, m)) x m)"
proof -
  let ?c = "nx_connection x"
  obtain a p where a: "fmlookup (nm_attempts m) ?c = Some a" "at_proposal a = Some p"
    "at_authority_validated a = (\<not> w)" "at_peer_validated a = w"
    using assms(2) by (auto simp: attempt_is_def)
  obtain m' where m': "manager_validate m ?c w = Some (Ok Established, m')" "manager_ok m'" "same_elsewhere ?c m m'"
    "fmlookup (nm_established m') ?c = Some \<lparr>es_contract = p, es_accounted_bytes = contract_size p\<rparr>"
    using validate_second[OF assms(1) a] by blast
  have "exchange_ok (x\<lparr>nx_state := NxEstablished\<rparr>) m'"
    using m' assms(3) by (simp add: exchange_ok_def state_ok_def unowned_def manager_knows_def)
  then have "op_good x m (Some (Ok r, x\<lparr>nx_state := NxEstablished\<rparr>, m'))"
    using m'(3) by (intro op_goodI) auto
  then show ?thesis using m'(1)
    by (cases w) (simp_all add: validate_as_def manager_validate_authority_def manager_validate_peer_def)
qed

text \<open>A proposal to an attempt without one: it is recorded, or refused with an outcome for the peer.\<close>

lemma propose_then:
  assumes "releasable x m" "attempt_is m (nx_connection x) False False False"
    "\<And>m'. releasable x m' \<Longrightarrow> same_elsewhere (nx_connection x) m m' \<Longrightarrow>
       attempt_is m' (nx_connection x) True False False \<Longrightarrow> proposes m' (nx_connection x) c \<Longrightarrow> op_good x m' (k m')"
  shows "op_good x m (case manager_propose m (nx_connection x) c req of
      None \<Rightarrow> None | Some (Err e, m) \<Rightarrow> fail_from_manager al x m e | Some (Ok _, m) \<Rightarrow> k m)"
proof -
  obtain a where a: "fmlookup (nm_attempts m) (nx_connection x) = Some a" "at_proposal a = None"
    "\<not> at_authority_validated a" "\<not> at_peer_validated a"
    using assms(2) by (auto simp: attempt_is_def)
  have ok: "manager_ok m" using assms(1) by (simp add: releasable_def)
  have owned: "nx_manager_owned x" using assms(1) a by (simp add: releasable_def manager_knows_def)
  from ok a(1,2) show ?thesis
  proof (cases rule: propose_open[where k = c and r = req])
    case (proposed m')
    moreover have "attempt_is m' (nx_connection x) True False False" "manager_knows m' (nx_connection x)"
      "proposes m' (nx_connection x) c"
      using proposed(4) a by (simp_all add: attempt_is_def manager_knows_def proposes_def)
    ultimately have "op_good x m' (k m')" using owned by (intro assms(3)) (simp_all add: releasable_def)
    then have "op_good x m (k m')" by (rule op_good_from) (simp_all add: proposed)
    then show ?thesis using proposed(1) by simp
  next
    case (refused e m')
    then have "releasable x m'" using owned by (simp add: releasable_def)
    then have "op_good x m' (fail_from_manager al x m' e)" using refused(5) by (rule fail_from_manager_good)
    then have "op_good x m (fail_from_manager al x m' e)" by (rule op_good_from) (simp_all add: refused)
    then show ?thesis using refused(1) by simp
  qed
qed

lemma propose_authority_good:
  assumes "exchange_ok x m" "contract_listed order c"
  shows "op_good x m (propose_authority al order x m c req)"
proof (cases "nx_role x = Authority \<and> nx_state x = NxAwaitingAuthoritySelection")
  case True
  then have att: "attempt_is m (nx_connection x) False False False"
    using assms(1) by (simp add: exchange_ok_def state_ok_def)
  have step: "op_good x m' (validate_as True (AwaitingValidation True False) (encode_attempt al order) x m')"
    if rel: "releasable x m'" and att: "attempt_is m' (nx_connection x) True False False"
      and prp: "proposes m' (nx_connection x) c" for m'
  proof -
    have owned: "nx_manager_owned x" using rel att by (auto simp: releasable_def manager_knows_def attempt_is_def)
    have "op_good x m' (validate_as True (AwaitingValidation True (\<not> True)) (encode_attempt al order) x m')"
    proof (rule validate_as_first)
      fix m2 assume "manager_ok m2" "fmlookup (nm_established m2) (nx_connection x) = None"
        "attempt_is m2 (nx_connection x) True True (\<not> True)" "proposes m2 (nx_connection x) c"
      then show "op_good x m2 (encode_attempt al order x m2)"
        using True owned by (intro encode_attempt_good[where k = c] assms(2))
          (auto simp: releasable_def manager_knows_def attempt_is_def)
    qed (use rel att prp in \<open>simp_all add: releasable_def\<close>)
    then show ?thesis by simp
  qed
  then show ?thesis
    using True propose_then[OF exchange_ok_releasable[OF assms(1)] att,
        where k = "validate_as True (AwaitingValidation True False) (encode_attempt al order) x"] step
    by (simp add: propose_authority_def)
next
  case False
  then show ?thesis
    by (auto simp: propose_authority_def fail_protocol_good[OF exchange_ok_releasable[OF assms(1)]])
qed

lemma receive_offer_good:
  assumes "exchange_ok x m" "nx_state x = NxAwaitingPeerOffer"
  shows "op_good x m (receive_offer al x m body)"
proof (cases "decode_offer (xa_items al) body (nm_offer_limits m)")
  case (Ok peer)
  obtain mine where mine: "nx_local_offer x = Some mine"
    using assms by (auto simp: exchange_ok_def state_ok_def)
  let ?x = "x\<lparr>nx_local_offer := None\<rparr>" and ?c = "nx_connection x"
  have ok: "manager_ok m" "\<not> manager_knows m ?c" "\<not> nx_manager_owned x"
    using assms by (simp_all add: exchange_ok_def unowned_def)
  have start: "op_good x m (case manager_start m ?c a p of
        None \<Rightarrow> None | Some (Err e, m) \<Rightarrow> fail_from_manager al ?x m e
      | Some (Ok _, m) \<Rightarrow> Some (Ok progress, ?x\<lparr>nx_manager_owned := True, nx_state := st\<rparr>, m))"
    if "st = (if nx_role x = Authority then NxAwaitingAuthoritySelection else NxAwaitingProposal)"
    for a p st and progress :: negotiation_progress
    using ok(1,2)
  proof (cases rule: start_unknown[where x = a and y = p])
    case (started m' att)
    have "attempt_is m' ?c False False False"
      using attempt_new_ok[OF started(5)] started(4) by (auto simp: attempt_is_def attempt_ok_def)
    moreover have "manager_knows m' ?c" using started(4) by (simp add: manager_knows_def)
    ultimately have "exchange_ok (?x\<lparr>nx_manager_owned := True, nx_state := st\<rparr>) m'"
      using started(2) by (simp add: exchange_ok_def state_ok_def unowned_def that)
    then have "op_good x m (Some (Ok progress, ?x\<lparr>nx_manager_owned := True, nx_state := st\<rparr>, m'))"
      using started(3) by (intro op_goodI) auto
    then show ?thesis using started(1) by simp
  next
    case (refused e)
    have "releasable ?x m" using ok by (simp add: releasable_def)
    then have "op_good ?x m (fail_from_manager al ?x m e :: negotiation_progress exchange_op)"
      using refused(2) by (rule fail_from_manager_good)
    then have "op_good x m (fail_from_manager al ?x m e :: negotiation_progress exchange_op)"
      by (rule op_good_from) simp_all
    then show ?thesis using refused(1) by simp
  qed
  show ?thesis
    using start[where st = NxAwaitingAuthoritySelection and a = mine and p = peer and progress = AuthoritySelectionRequired]
      start[where st = NxAwaitingProposal and a = peer and p = mine and progress = NxWaiting]
    by (cases "nx_role x = Authority")
      (simp_all add: receive_offer_def Ok mine Let_def cong: option.case_cong prod.case_cong result.case_cong)
qed (simp add: receive_offer_def fail_decode_good[OF exchange_ok_releasable[OF assms(1)]])

text \<open>What a reservation refuses only turns a result into an error.\<close>

lemma read_proposal_granted: "read_proposal al l s = Ok z \<Longrightarrow> read_proposal granted l s = Ok z"
  by (cases z) (auto simp: read_proposal_def read_count_def reserve_vec_def result_bind_Ok split: if_splits prod.splits)

lemma decode_proposal_no_panic: "length bs \<le> usize_max \<Longrightarrow> decode_proposal al bs l \<noteq> None"
  using decode_proposal_total[of bs l] read_proposal_granted[of al l]
  by (cases "read_proposal al l (decode_start bs l OutResourceLimitExceeded)") (auto simp: decode_proposal_def)

lemma receive_proposal_good:
  assumes "exchange_ok x m" "nx_state x = NxAwaitingProposal" "length body \<le> usize_max"
  shows "op_good x m (receive_proposal al x m req body)"
proof (cases "decode_proposal (xa_items al) body (nm_offer_limits m)")
  case (Some d)
  show ?thesis
  proof (cases d)
    case (Ok c)
    let ?k = "\<lambda>x m. Some (Ok (NxSend \<lparr>cf_type = NegotiationValidatedType, cf_body = []\<rparr>),
      x\<lparr>nx_state := NxAwaitingEstablished\<rparr>, m)"
    have att: "attempt_is m (nx_connection x) False False False" and role: "nx_role x \<noteq> Authority"
      using assms(1,2) by (simp_all add: exchange_ok_def state_ok_def)
    have step: "op_good x m' (validate_as False (AwaitingValidation False True) ?k x m')"
      if rel: "releasable x m'" and att: "attempt_is m' (nx_connection x) True False False"
      and prp: "proposes m' (nx_connection x) c" for m'
    proof -
      have owned: "nx_manager_owned x" using rel att by (auto simp: releasable_def manager_knows_def attempt_is_def)
      have "op_good x m' (validate_as False (AwaitingValidation False (\<not> False)) ?k x m')"
      proof (rule validate_as_first)
        fix m2 assume "manager_ok m2" "attempt_is m2 (nx_connection x) True False (\<not> False)"
        then show "op_good x m2 (?k x m2)"
          using role owned by (intro op_goodI)
            (auto simp: exchange_ok_def state_ok_def unowned_def manager_knows_def attempt_is_def)
      qed (use rel att prp in \<open>simp_all add: releasable_def\<close>)
      then show ?thesis by simp
    qed
    show ?thesis
      using propose_then[OF exchange_ok_releasable[OF assms(1)] att,
          where k = "validate_as False (AwaitingValidation False True) ?k x" and c = c and req = req and al = al] step
      by (simp add: receive_proposal_def Some Ok)
  qed (simp add: receive_proposal_def Some fail_decode_good[OF exchange_ok_releasable[OF assms(1)]])
qed (use decode_proposal_no_panic[OF assms(3)] in simp)

lemma receive_acknowledgement_good:
  assumes "exchange_ok x m"
  shows "nx_state x = NxAwaitingValidated \<Longrightarrow> op_good x m (receive_validated x m body)"
    "nx_state x = NxAwaitingEstablished \<Longrightarrow> op_good x m (receive_established x m body)"
proof -
  have ok: "manager_ok m" "nx_state x \<noteq> NxReady \<Longrightarrow> nx_state x \<noteq> NxAwaitingPeerOffer \<Longrightarrow> nx_state x \<noteq> NxFailed
      \<Longrightarrow> nx_manager_owned x"
    using assms by (simp_all add: exchange_ok_def unowned_def)
  show "op_good x m (receive_validated x m body)" if "nx_state x = NxAwaitingValidated"
    using validate_as_second[of m x False] assms that ok
    by (auto simp: receive_validated_def exchange_ok_def state_ok_def fail_protocol_good[OF exchange_ok_releasable[OF assms]])
  show "op_good x m (receive_established x m body)" if "nx_state x = NxAwaitingEstablished"
    using validate_as_second[of m x True] assms that ok
    by (auto simp: receive_established_def exchange_ok_def state_ok_def fail_protocol_good[OF exchange_ok_releasable[OF assms]])
qed

lemma receive_failure_good:
  assumes "exchange_ok x m"
  shows "op_good x m (receive_failure x m body)"
proof (cases "decode_failure body")
  case (Ok out)
  show ?thesis
    by (rule release_good[OF exchange_ok_releasable[OF assms]]) (auto simp: receive_failure_def Ok intro: op_goodI)
qed (simp add: receive_failure_def fail_protocol_good[OF exchange_ok_releasable[OF assms]])

lemma exchange_receive_good:
  assumes "exchange_ok x m" "length (cf_body f) \<le> usize_max"
  shows "op_good x m (exchange_receive al x m req f)"
  using receive_failure_good[OF assms(1)] receive_offer_good[OF assms(1)] receive_proposal_good[OF assms(1) _ assms(2)]
    receive_acknowledgement_good[OF assms(1)]
    fail_protocol_good[OF exchange_ok_releasable[OF assms(1)], where 'a = negotiation_progress]
  by (auto simp: exchange_receive_def split: negotiation_state.splits control_frame_type.splits)

end
