(* ===== verification/Admission_Contract.thy ===== *)
theory Admission_Contract
  imports Negotiation_Safety Session_Safety
begin

text \<open>
  The properties of admission: what offer validation and selection accept, when a negotiation becomes
  established, and what the session guarantees about identities, bindings and retained memberships.
\<close>

section \<open>A concrete configuration\<close>

definition demo_offer_limits :: offer_limits where
  "demo_offer_limits = \<lparr>lim_protocols = 2, lim_capabilities = 2, lim_schemas = 2,
     lim_contracts_per_schema = 2, lim_codecs_per_contract = 2, lim_diagnostic_label_bytes = 8,
     lim_offer_accounted_bytes = 100\<rparr>"

definition demo_manager_limits :: negotiation_manager_limits where
  "demo_manager_limits = \<lparr>ml_concurrent_attempts = 2, ml_aggregate_accounted_bytes = 700\<rparr>"

definition demo_manager :: negotiation_manager where
  "demo_manager = \<lparr>nm_offer_limits = demo_offer_limits, nm_limits = demo_manager_limits,
     nm_per_attempt_reservation = 300, nm_reserved_bytes = 0, nm_attempts = fmempty,
     nm_established = fmempty\<rparr>"

definition demo_offer :: compatibility_offer where
  "demo_offer = builder_protocol (ProtocolId 7) (ProtocolRevision 2) offer_builder_new"

definition demo_contract :: negotiated_contract where
  "demo_contract = contract_new \<lparr>pc_id = ProtocolId 7, pc_revision = ProtocolRevision 2\<rparr>"

definition demo_negotiation :: "manager_call list" where
  "demo_negotiation = [CallStart (ConnectionHandle 3) demo_offer demo_offer,
     CallPropose (ConnectionHandle 3) demo_contract \<lparr>nr_capabilities = [], nr_schemas = []\<rparr>,
     CallValidateAuthority (ConnectionHandle 3)]"

definition demo_established :: "connection_handle \<Rightarrow> established_negotiation" where
  "demo_established c = \<lparr>en_connection = c, en_contract = demo_contract\<rparr>"

definition demo_session_limits :: session_limits where
  "demo_session_limits = \<lparr>sl_participant_incarnations = 4, sl_memberships = 4\<rparr>"

text \<open>Participant 2 joined over connection 3 and lost it at time 0, to be kept for 5 units.\<close>

definition demo_retained :: "session_call list" where
  "demo_retained = [CallAdmit (ParticipantId 2) (demo_established (ConnectionHandle 3)),
     CallLost (ParticipantId 2) (ConnectionHandle 3) (RetainForRecovery 5)]"

lemma fcard_demo [simp]: "fcard {||} = 0" "fcard {|x|} = 1"
  by (simp_all add: fcard.rep_eq)

lemmas manager_eval =
  demo_offer_limits_def demo_manager_limits_def demo_manager_def demo_offer_def demo_contract_def
  demo_negotiation_def manager_new_def max_attempt_reservation_def offer_limits_validate_def
  checked_mul_def checked_add_def checked_sub_def usize_max_def ok_or_def manager_start_def
  attempt_new_def offer_validate_def accounted_offer_bytes_def checked_add_mul_def
  builder_protocol_def offer_builder_new_def PROTOCOL_BYTES_def ID_BYTES_def REQUIREMENT_BYTES_def
  supports_protocol_def verify_offer_requirements_def required_capabilities_def required_schemas_def
  manager_propose_def manager_attempt_def attempt_propose_def attempt_status_def validate_selection_def
  contract_new_def contract_accounted_bytes_def manager_validate_authority_def manager_validate_def
  validate_party_def map_err_def Let_def

lemmas session_eval =
  demo_retained_def demo_session_limits_def demo_established_def session_step_def session_new_def
  admit_new_def connection_lost_def is_authorized_def membership_state_def registry_new_def
  registry_claim_def registry_contains_def recovery_checked_add_def u64_checked_add_def
  recovery_order_defs Let_def

section \<open>Offers and selections\<close>

text \<open>
  C37: Validating an offer succeeds exactly on the well-formed offers: positive limits, one to the
  maximum number of distinct protocols, distinct capabilities and schemas within their limits,
  schemas with distinct contracts and contracts with distinct codecs, a label and a total accounted
  size within bounds; the size attached to the validated offer is exact.
\<close>

theorem offer_validation_exact:
  "offer_validate off l = Ok v \<longleftrightarrow>
     offer_wf l off \<and> v = \<lparr>vo_offer = off, vo_accounted_bytes = offer_size off\<rparr>"
  by (rule offer_validate_iff)

text \<open>
  C38: A proposed contract is accepted exactly when both offers support its protocol, capabilities and
  schema bindings, it carries everything either offer or the host requires, and its size fits.
\<close>

theorem selection_exact:
  "validate_selection a c r = Ok () \<longleftrightarrow>
     contract_agreed (at_authority_offer a) (at_peer_offer a) c
     \<and> requirements_met (at_authority_offer a) (at_peer_offer a) c r
     \<and> contract_fits (at_offer_limits a) c"
  by (rule validate_selection_iff)

section \<open>The negotiation manager\<close>

text \<open>
  From a fresh manager no sequence of calls panics, the reserved bytes are always exactly one
  reservation per attempt plus the size of each established contract and never exceed the aggregate
  limit, no connection is both attempted and established, and every attempt's proposal was agreed.
\<close>

theorem manager_run_safe:
  assumes "manager_new ol ml = Ok m" "ml_aggregate_accounted_bytes ml \<le> usize_max"
  shows "\<exists>m'. run_ops manager_step m xs = Some m' \<and> manager_ok m'"
  using manager.run_good[OF manager_new_ok(1)[OF assms], of xs] by (simp add: list_all_def)

lemma demo_manager_new: "manager_new demo_offer_limits demo_manager_limits = Ok demo_manager"
  by (simp add: manager_eval)

lemma demo_manager_fits: "ml_aggregate_accounted_bytes demo_manager_limits \<le> usize_max"
  by (simp add: manager_eval)

theorem manager_run_safe_witness:
  "\<exists>m'. run_ops manager_step demo_manager demo_negotiation = Some m' \<and> manager_ok m'"
  by (rule manager_run_safe[OF demo_manager_new demo_manager_fits])

lemma promote_established_frame:
  assumes "promote_established m c = Some (r, m')" "fmlookup (nm_attempts m) c = Some a"
  shows "nm_established m' = nm_established m
     \<or> (\<exists>k b. at_proposal a = Some k
        \<and> nm_established m' = fmupd c \<lparr>es_contract = k, es_accounted_bytes = b\<rparr> (nm_established m))"
  using assms
  by (auto simp: promote_established_def bind_eq_Some_conv split: option.splits result.splits)

lemma manager_validate_establishes:
  assumes run: "manager_validate m c w = Some (r, m')"
    and d: "fmlookup (nm_established m) d = None" "fmlookup (nm_established m') d = Some st"
  shows "d = c \<and> (\<exists>a. fmlookup (nm_attempts m) c = Some a \<and> at_proposal a = Some (es_contract st)
     \<and> (if w then at_peer_validated a else at_authority_validated a))"
proof (cases "manager_attempt m c")
  case (Err e)
  then show ?thesis using run d by (simp add: manager_validate_def)
next
  case (Ok a)
  let ?b = "if w then a\<lparr>at_authority_validated := True\<rparr> else a\<lparr>at_peer_validated := True\<rparr>"
  let ?m = "m\<lparr>nm_attempts := fmupd c ?b (nm_attempts m)\<rparr>"
  have a: "fmlookup (nm_attempts m) c = Some a" using Ok by (simp add: manager_attempt_Ok)
  have party: "validate_party a w =
      (if at_proposal a = None then (Err NoProposal, a) else (Ok (attempt_status ?b), ?b))"
    by (simp only: validate_party_def Let_def)
  show ?thesis
  proof (cases "at_proposal a = None \<or> attempt_status ?b \<noteq> Established")
    case True
    then have "nm_established m' = nm_established m"
      using run Ok by (elim disjE) (auto simp: manager_validate_def party Let_def split: if_splits)
    then show ?thesis using d by simp
  next
    case False
    then obtain p where p: "promote_established ?m c = Some (p, m')"
      using run Ok by (auto simp: manager_validate_def party Let_def bind_eq_Some_conv)
    have "fmlookup (nm_attempts ?m) c = Some ?b" by simp
    from promote_established_frame[OF p this] d obtain k bytes where
      k: "at_proposal ?b = Some k"
      "nm_established m' = fmupd c \<lparr>es_contract = k, es_accounted_bytes = bytes\<rparr> (nm_established m)"
      by auto
    then have "d = c" "es_contract st = k" using d by (auto split: if_splits)
    moreover have "if w then at_peer_validated a else at_authority_validated a"
      using False by (auto simp: attempt_status_def split: if_splits)
    moreover have "at_proposal a = Some k" using k(1) by (simp split: if_splits)
    ultimately show ?thesis using a by simp
  qed
qed

lemma manager_other_calls:
  assumes "manager_step m x = Some m'" "fmlookup (nm_established m) d = None"
    and "fmlookup (nm_established m') d = Some st"
  obtains c where "x = CallValidateAuthority c" | c where "x = CallValidatePeer c"
proof (cases x)
  case (CallStart c p q)
  then show ?thesis using assms
    by (auto simp: manager_start_def bind_eq_Some_conv split: if_splits result.splits)
next
  case (CallPropose c k r)
  then show ?thesis using assms
    by (auto simp: manager_propose_def Let_def split: result.splits prod.splits)
next
  case (CallTerminate c)
  then show ?thesis using assms
    by (auto simp: manager_terminate_def bind_eq_Some_conv split: option.splits if_splits)
qed

text \<open>
  C21: A connection becomes established only by a validation, on the contract proposed for it, once
  the other side has validated that same proposal, and that contract is one both offers support and
  that carries everything either side requires.
\<close>

theorem established_needs_agreement:
  assumes "manager_new ol ml = Ok m0" "ml_aggregate_accounted_bytes ml \<le> usize_max"
    and "run_ops manager_step m0 xs = Some m" "manager_step m x = Some m'"
    and "fmlookup (nm_established m) c = None" "fmlookup (nm_established m') c = Some st"
  shows "\<exists>a. fmlookup (nm_attempts m) c = Some a \<and> at_proposal a = Some (es_contract st)
     \<and> contract_agreed (at_authority_offer a) (at_peer_offer a) (es_contract st)
     \<and> (x = CallValidateAuthority c \<and> at_peer_validated a
        \<or> x = CallValidatePeer c \<and> at_authority_validated a)"
proof -
  have ok: "manager_ok m"
    using manager.run_preserves[OF manager_new_ok(1)[OF assms(1,2)] _ assms(3)] by (simp add: list_all_def)
  have agreed: "contract_agreed (at_authority_offer a) (at_peer_offer a) k"
    if "fmlookup (nm_attempts m) c = Some a" "at_proposal a = Some k" for a k
    using manager_okD(1)[OF ok that(1)] that(2) by (simp add: attempt_ok_def)
  from assms(4-6) show ?thesis
  proof (cases rule: manager_other_calls)
    case (1 d)
    then obtain r where "manager_validate m d True = Some (r, m')"
      using assms(4) by (auto simp: manager_validate_authority_def)
    from manager_validate_establishes[OF this assms(5,6)] agreed show ?thesis using 1 by auto
  next
    case (2 d)
    then obtain r where "manager_validate m d False = Some (r, m')"
      using assms(4) by (auto simp: manager_validate_peer_def)
    from manager_validate_establishes[OF this assms(5,6)] agreed show ?thesis using 2 by auto
  qed
qed

lemma demo_negotiation_ends:
  "\<exists>m m' st. run_ops manager_step demo_manager demo_negotiation = Some m
     \<and> manager_step m (CallValidatePeer (ConnectionHandle 3)) = Some m'
     \<and> fmlookup (nm_established m) (ConnectionHandle 3) = None
     \<and> fmlookup (nm_established m') (ConnectionHandle 3) = Some st \<and> es_contract st = demo_contract"
  by (simp add: manager_eval manager_validate_peer_def promote_established_def)

theorem established_needs_agreement_witness:
  "\<exists>m m' a. run_ops manager_step demo_manager demo_negotiation = Some m
     \<and> manager_step m (CallValidatePeer (ConnectionHandle 3)) = Some m'
     \<and> fmlookup (nm_attempts m) (ConnectionHandle 3) = Some a
     \<and> at_proposal a = Some demo_contract \<and> at_authority_validated a"
proof -
  obtain m m' st where m: "run_ops manager_step demo_manager demo_negotiation = Some m"
    "manager_step m (CallValidatePeer (ConnectionHandle 3)) = Some m'"
    "fmlookup (nm_established m) (ConnectionHandle 3) = None"
    "fmlookup (nm_established m') (ConnectionHandle 3) = Some st" and st: "es_contract st = demo_contract"
    using demo_negotiation_ends by blast
  from established_needs_agreement[OF demo_manager_new demo_manager_fits m] m st show ?thesis by auto
qed

section \<open>The session\<close>

definition session_run :: "session_id \<Rightarrow> session_limits \<Rightarrow> session_call list \<Rightarrow> session" where
  "session_run i l xs = fold (\<lambda>x s. session_apply s x) xs (session_new i l)"

lemma run_session_fold: "run_ops session_step s xs = Some (fold (\<lambda>x s. session_apply s x) xs s)"
  by (induction xs arbitrary: s) (simp_all add: session_step_def)

lemma session_run_ok: "list_all session_call_ok xs \<Longrightarrow> session_ok (session_run i l xs)"
  using session_machine.run_preserves[OF session_new_ok _ run_session_fold] by (simp add: session_run_def)

lemma session_run_below:
  assumes "list_all session_call_ok xs" "list_all session_call_ok ys"
  shows "session_below (session_run i l xs) (session_run i l (xs @ ys))"
proof -
  have "run_ops session_step (session_run i l xs) ys = Some (session_run i l (xs @ ys))"
    by (simp add: session_run_def run_session_fold)
  from session_machine.run_below[OF session_run_ok[OF assms(1)] assms(2) this] show ?thesis .
qed

text \<open>
  C39: In every session a connection is authorized for a participant exactly when that participant's
  membership is bound to it: one connection speaks for at most one participant, a participant has at
  most one connection, no membership exists without a used identity, and their number stays within
  the limits.
\<close>

theorem session_bindings_exact:
  assumes "list_all session_call_ok xs" "s = session_run i l xs"
  shows "(is_authorized s p c \<longleftrightarrow> membership_state s p = Some (Bound c))
     \<and> (participant_for_connection s c = Some p \<longleftrightarrow> is_authorized s p c)
     \<and> (is_authorized s p c \<and> is_authorized s q d \<longrightarrow> (p = q \<longleftrightarrow> c = d))
     \<and> (membership_state s p \<noteq> None \<longrightarrow> registry_contains (s_used_participants s) p)
     \<and> live_memberships s \<le> sl_memberships (s_limits s)
     \<and> fcard (used (s_used_participants s)) \<le> sl_participant_incarnations (s_limits s)"
proof -
  have ok: "session_ok s" using session_run_ok[OF assms(1)] assms(2) by simp
  have one: "p = q \<longleftrightarrow> c = d" if "is_authorized s p c" "is_authorized s q d"
    using that session_auth.authorized_participant[of s p c q] session_auth.authorized_connection[of s p c d]
    by auto
  have "registry_contains (s_used_participants s) p" if "membership_state s p \<noteq> None"
    using that session_okD(1)[OF ok, of p] by (auto simp: membership_state_def)
  moreover have "fcard (used (s_used_participants s)) \<le> sl_participant_incarnations (s_limits s)"
    using session_ok_registry(1,2)[OF ok] by (simp add: registry_ok_def)
  ultimately show ?thesis
    using one is_authorized_iff[OF ok, of p c] session_okD(2)[OF ok, of c p] session_ok_registry(3)[OF ok]
    by (simp add: participant_for_connection_def live_memberships_def)
qed

lemma demo_retained_ok: "list_all session_call_ok demo_retained"
  by (simp add: demo_retained_def)

theorem session_bindings_exact_witness:
  "\<not> is_authorized (session_run (SessionId 1) demo_session_limits demo_retained) (ParticipantId 2) (ConnectionHandle 3)
     \<and> membership_state (session_run (SessionId 1) demo_session_limits demo_retained) (ParticipantId 2)
         = Some (Unbound (RecoveryTime 5))"
proof -
  let ?s = "session_run (SessionId 1) demo_session_limits demo_retained"
  have "membership_state ?s (ParticipantId 2) = Some (Unbound (RecoveryTime 5))"
    by (simp add: session_run_def session_eval)
  with session_bindings_exact[OF demo_retained_ok refl, of "SessionId 1" demo_session_limits "ParticipantId 2" "ConnectionHandle 3"]
  show ?thesis by simp
qed

text \<open>
  C22: A participant identity is admitted at most once in the life of a session: after a successful
  admission no later admission of it succeeds, whatever happened in between, and while the session
  stays open with room and a free connection the refusal names the reused identity.
\<close>

theorem identity_never_readmitted:
  assumes "list_all session_call_ok xs" "fst (admit_new (session_run i l xs) p est) = Ok ()"
    and "list_all session_call_ok ys" "s = session_run i l (xs @ CallAdmit p est # ys)"
  shows "(\<exists>e. admit_new s p est' = (Err e, s))
     \<and> (s_phase s = Open \<and> fm_len (s_memberships s) < sl_memberships (s_limits s)
         \<and> fmlookup (s_bindings s) (en_connection est') = None \<longrightarrow>
        admit_new s p est' = (Err ParticipantIdAlreadyUsed, s))"
proof -
  let ?s0 = "session_run i l xs" and ?s1 = "session_run i l (xs @ [CallAdmit p est])"
  have s1: "?s1 = snd (admit_new ?s0 p est)" by (simp add: session_run_def)
  have "registry_contains (s_used_participants ?s1) p"
    using assms(2)
  proof (cases rule: admit_new_Ok)
    case (1 reg)
    then show ?thesis using incarnation.claim_Ok_contains[OF 1(5)] by (simp add: s1 bind_to_def)
  qed
  moreover have "session_below ?s1 s"
    using session_run_below[of "xs @ [CallAdmit p est]" ys i l] assms by simp
  ultimately have "registry_contains (s_used_participants s) p" by (simp add: session_below_def)
  then show ?thesis by (simp add: admit_new_def Let_def)
qed

theorem identity_never_readmitted_witness:
  "\<exists>s. s = session_run (SessionId 1) demo_session_limits
         (CallAdmit (ParticipantId 2) (demo_established (ConnectionHandle 3)) # [CallRemove (ParticipantId 2)])
     \<and> membership_state s (ParticipantId 2) = None
     \<and> admit_new s (ParticipantId 2) (demo_established (ConnectionHandle 4)) = (Err ParticipantIdAlreadyUsed, s)"
proof -
  let ?s = "session_run (SessionId 1) demo_session_limits
         ([] @ CallAdmit (ParticipantId 2) (demo_established (ConnectionHandle 3)) # [CallRemove (ParticipantId 2)])"
  have first: "fst (admit_new (session_run (SessionId 1) demo_session_limits []) (ParticipantId 2)
      (demo_established (ConnectionHandle 3))) = Ok ()"
    by (simp add: session_run_def session_eval)
  have "membership_state ?s (ParticipantId 2) = None" "s_phase ?s = Open"
    "fm_len (s_memberships ?s) < sl_memberships (s_limits ?s)"
    "fmlookup (s_bindings ?s) (en_connection (demo_established (ConnectionHandle 4))) = None"
    by (simp_all add: session_run_def session_eval remove_participant_def)
  with identity_never_readmitted[OF _ first _ refl, of "[CallRemove (ParticipantId 2)]"
      "demo_established (ConnectionHandle 4)"]
  show ?thesis by simp
qed

text \<open>
  Advancing the recovery clock ends exactly the unbound memberships whose expiry has come, and
  reports them in ascending order; every other membership and every binding stays. Until then a
  retained participant can be bound to another free connection, and the error for replacing an
  expired membership never arises.
\<close>

theorem retention_ends_at_expiry:
  assumes "list_all session_call_ok xs" "s = session_run i l xs" "s_phase s = Open"
  shows "(s_recovery_clock s \<le> t \<longrightarrow>
       (\<exists>ps s'. advance_recovery_clock s t = (Ok ps, s')
          \<and> set ps = {p. \<exists>e. membership_state s p = Some (Unbound e) \<and> e \<le> t}
          \<and> sorted_wrt (\<lambda>p q. participant_get p < participant_get q) ps
          \<and> (\<forall>p. membership_state s' p = (if p \<in> set ps then None else membership_state s p))
          \<and> s_bindings s' = s_bindings s \<and> s_recovery_clock s' = t))
     \<and> fst (bind_replacement s p est) \<noteq> Err MembershipExpired
     \<and> (\<forall>e r. fmlookup (s_memberships s) p = Some r \<and> mr_state r = Unbound e
          \<and> fmlookup (s_bindings s) (en_connection est) = None
          \<and> mr_previous_connection r \<noteq> Some (en_connection est) \<longrightarrow>
          fst (bind_replacement s p est) = Ok ()
          \<and> is_authorized (snd (bind_replacement s p est)) p (en_connection est))"
proof -
  have ok: "session_ok s" using session_run_ok[OF assms(1)] assms(2) by simp
  let ?ps = "sort_participants (expired_set s t)"
  have set: "set ?ps = {p. \<exists>e. membership_state s p = Some (Unbound e) \<and> e \<le> t}"
    by (auto simp: expired_set_iff)
  have left: "membership_state (s\<lparr>s_recovery_clock := t, s_memberships := fold fmdrop ?ps (s_memberships s)\<rparr>) q
      = (if q \<in> set ?ps then None else membership_state s q)" for q
    by (simp add: membership_state_def fmlookup_fold_fmdrop)
  have never: "fst (bind_replacement s p est) \<noteq> Err MembershipExpired"
    by (auto simp: bind_replacement_eq[OF ok] Let_def split: option.split membership_state_t.split)
  have clock: "s_recovery_clock s \<le> t \<longrightarrow>
       (\<exists>ps s'. advance_recovery_clock s t = (Ok ps, s')
          \<and> set ps = {p. \<exists>e. membership_state s p = Some (Unbound e) \<and> e \<le> t}
          \<and> sorted_wrt (\<lambda>p q. participant_get p < participant_get q) ps
          \<and> (\<forall>p. membership_state s' p = (if p \<in> set ps then None else membership_state s p))
          \<and> s_bindings s' = s_bindings s \<and> s_recovery_clock s' = t)"
  proof
    assume "s_recovery_clock s \<le> t"
    then have "advance_recovery_clock s t =
        (Ok ?ps, s\<lparr>s_recovery_clock := t, s_memberships := fold fmdrop ?ps (s_memberships s)\<rparr>)"
      using assms(3) by (simp add: advance_recovery_clock_def Let_def linorder_not_less)
    then show "\<exists>ps s'. advance_recovery_clock s t = (Ok ps, s')
          \<and> set ps = {p. \<exists>e. membership_state s p = Some (Unbound e) \<and> e \<le> t}
          \<and> sorted_wrt (\<lambda>p q. participant_get p < participant_get q) ps
          \<and> (\<forall>p. membership_state s' p = (if p \<in> set ps then None else membership_state s p))
          \<and> s_bindings s' = s_bindings s \<and> s_recovery_clock s' = t"
      using set left sort_participants_sorted[of "expired_set s t"] by (intro exI conjI) (assumption | simp)+
  qed
  have "fst (bind_replacement s p est) = Ok ()
      \<and> is_authorized (snd (bind_replacement s p est)) p (en_connection est)"
    if "fmlookup (s_memberships s) p = Some r" "mr_state r = Unbound e"
      "fmlookup (s_bindings s) (en_connection est) = None"
      "mr_previous_connection r \<noteq> Some (en_connection est)" for e r
    using that assms(3)
    by (simp add: bind_replacement_eq[OF ok] Let_def bind_to_def is_authorized_def membership_state_def)
  with clock never show ?thesis by blast
qed

theorem retention_ends_at_expiry_witness:
  "\<exists>s s'. s = session_run (SessionId 1) demo_session_limits demo_retained
     \<and> advance_recovery_clock s (RecoveryTime 4) = (Ok [], s')
     \<and> membership_state s' (ParticipantId 2) = Some (Unbound (RecoveryTime 5))"
proof -
  let ?s = "session_run (SessionId 1) demo_session_limits demo_retained"
  have s: "s_phase ?s = Open" "s_recovery_clock ?s \<le> RecoveryTime 4"
    "membership_state ?s (ParticipantId 2) = Some (Unbound (RecoveryTime 5))"
    by (simp_all add: session_run_def session_eval)
  have only: "membership_state ?s p = (if p = ParticipantId 2 then Some (Unbound (RecoveryTime 5)) else None)" for p
    by (simp add: session_run_def session_eval)
  from retention_ends_at_expiry[OF demo_retained_ok refl s(1)] s(2) obtain ps s' where
    s': "advance_recovery_clock ?s (RecoveryTime 4) = (Ok ps, s')"
    "set ps = {p. \<exists>e. membership_state ?s p = Some (Unbound e) \<and> e \<le> RecoveryTime 4}"
    "\<forall>p. membership_state s' p = (if p \<in> set ps then None else membership_state ?s p)" by blast
  have "set ps = {}" unfolding s'(2) only by (auto simp: recovery_order_defs)
  then show ?thesis using s'(1,3) s(3) by (intro exI[of _ ?s] exI[of _ s']) simp
qed

end
