(* ===== verification/Exchange_Contract.thy ===== *)
theory Exchange_Contract
  imports Exchange_Safety Admission_Contract
begin

text \<open>
  What the negotiation exchanges of a program guarantee: all of them share one manager, and no
  sequence of calls on them can panic, fault or leak; and two of them that talk to each other end
  with the same contract.
\<close>

section \<open>All exchanges of a program\<close>

record exchange_table =
  xt_exchanges :: "(connection_handle, negotiation_exchange) fmap"
  xt_manager :: negotiation_manager
  xt_errors :: "negotiation_control_error list"

text \<open>A host opens an exchange for a connection it has none for, and then calls its operations.\<close>

datatype exchange_call =
    OpenExchange settings settings
  | PrepareOffer exchange_allocs compatibility_offer
  | ProposeAuthority exchange_allocs contract_order negotiated_contract negotiation_requirements
  | ReceiveFrame exchange_allocs negotiation_requirements control_frame
  | AbortExchange

definition exchange_log :: "connection_handle \<Rightarrow> 'a exchange_op \<Rightarrow> exchange_table \<Rightarrow> exchange_table exec" where
  "exchange_log c q t =
     (case q of
        None \<Rightarrow> None
      | Some (r, x, m) \<Rightarrow> Some \<lparr>xt_exchanges = fmupd c x (xt_exchanges t), xt_manager = m,
          xt_errors = (case r of Err e \<Rightarrow> e # xt_errors t | Ok _ \<Rightarrow> xt_errors t)\<rparr>)"

fun exchange_step :: "exchange_table \<Rightarrow> connection_handle \<times> exchange_call \<Rightarrow> exchange_table exec" where
  "exchange_step t (c, call) =
     (case (fmlookup (xt_exchanges t) c, call) of
        (None, OpenExchange l p) \<Rightarrow>
          Some (t\<lparr>xt_exchanges := fmupd c (exchange_from_profile c l p) (xt_exchanges t)\<rparr>)
      | (Some x, PrepareOffer al off) \<Rightarrow> exchange_log c (prepare_offer al x (xt_manager t) off) t
      | (Some x, ProposeAuthority al order k req) \<Rightarrow>
          exchange_log c (propose_authority al order x (xt_manager t) k req) t
      | (Some x, ReceiveFrame al req f) \<Rightarrow> exchange_log c (exchange_receive al x (xt_manager t) req f) t
      | (Some x, AbortExchange) \<Rightarrow> exchange_log c (exchange_abort x (xt_manager t)) t
      | _ \<Rightarrow> Some t)"

fun exchange_call_ok :: "connection_handle \<times> exchange_call \<Rightarrow> bool" where
  "exchange_call_ok (_, ProposeAuthority _ order k _) = contract_listed order k"
| "exchange_call_ok (_, ReceiveFrame _ _ f) = (length (cf_body f) \<le> usize_max)"
| "exchange_call_ok _ = True"

definition exchange_table_ok :: "exchange_table \<Rightarrow> bool" where
  "exchange_table_ok t \<longleftrightarrow> manager_ok (xt_manager t)
     \<and> (\<forall>c x. fmlookup (xt_exchanges t) c = Some x \<longrightarrow> nx_connection x = c \<and> exchange_ok x (xt_manager t))
     \<and> (\<forall>c. manager_knows (xt_manager t) c \<longrightarrow> fmlookup (xt_exchanges t) c \<noteq> None)
     \<and> (\<forall>e\<in>set (xt_errors t). \<not> internal_error e)"

lemma exchange_ok_elsewhere:
  assumes "exchange_ok x m" "same_elsewhere c m m'" "nx_connection x \<noteq> c" "manager_ok m'"
  shows "exchange_ok x m'"
proof -
  have "fmlookup (nm_attempts m') (nx_connection x) = fmlookup (nm_attempts m) (nx_connection x)"
    "fmlookup (nm_established m') (nx_connection x) = fmlookup (nm_established m) (nx_connection x)"
    using assms(2,3) by (simp_all add: same_elsewhere_def)
  then show ?thesis using assms(1,4)
    by (cases "nx_state x") (simp_all add: exchange_ok_def state_ok_def manager_knows_def attempt_is_def Let_def unowned_def)
qed

lemma exchange_log_good:
  assumes "exchange_table_ok t" "fmlookup (xt_exchanges t) c = Some x" "op_good x (xt_manager t) q"
  shows "\<exists>t'. exchange_log c q t = Some t' \<and> exchange_table_ok t'"
proof -
  let ?m = "xt_manager t"
  obtain r x' m' where q: "q = Some (r, x', m')" "exchange_ok x' m'" "same_elsewhere (nx_connection x) ?m m'"
    "nx_connection x' = nx_connection x" "\<forall>e. r = Err e \<longrightarrow> \<not> internal_error e"
    using assms(3) by (auto simp: op_good_def)
  have c: "nx_connection x = c" using assms(1,2) by (simp add: exchange_table_ok_def)
  have m': "manager_ok m'" using q(2) by (simp add: exchange_ok_def)
  have "exchange_ok y m'" if "fmlookup (xt_exchanges t) d = Some y" "d \<noteq> c" for d y
    using assms(1) that exchange_ok_elsewhere[OF _ q(3) _ m', of y] by (auto simp: exchange_table_ok_def c)
  moreover have "fmlookup (xt_exchanges t) d \<noteq> None" if "manager_knows m' d" "d \<noteq> c" for d
    using that q(3) assms(1) unfolding exchange_table_ok_def same_elsewhere_def manager_knows_def c by metis
  moreover have "\<not> internal_error e" if "e \<in> set (case r of Err e \<Rightarrow> e # xt_errors t | Ok _ \<Rightarrow> xt_errors t)" for e
    using that assms(1) q(5) by (auto simp: exchange_table_ok_def split: result.splits)
  ultimately have "exchange_table_ok \<lparr>xt_exchanges = fmupd c x' (xt_exchanges t), xt_manager = m',
      xt_errors = (case r of Err e \<Rightarrow> e # xt_errors t | Ok _ \<Rightarrow> xt_errors t)\<rparr>"
    using assms(1) q(2,4) m' c by (auto simp: exchange_table_ok_def)
  then show ?thesis using q(1) by (simp add: exchange_log_def)
qed

lemma exchange_step_good:
  assumes "exchange_table_ok t" "exchange_call_ok call"
  shows "\<exists>t'. exchange_step t call = Some t' \<and> exchange_table_ok t'"
proof -
  obtain c call' where call: "call = (c, call')" by fastforce
  show ?thesis
  proof (cases "fmlookup (xt_exchanges t) c")
    case None
    then have "\<not> manager_knows (xt_manager t) c" using assms(1) by (auto simp: exchange_table_ok_def)
    then have "exchange_ok (exchange_from_profile c l p) (xt_manager t)" for l p
      using assms(1) by (simp add: exchange_ok_def exchange_from_profile_def state_ok_def unowned_def exchange_table_ok_def)
    then show ?thesis
      using None assms(1) by (cases call') (auto simp: call exchange_table_ok_def exchange_from_profile_def)
  next
    case (Some x)
    then have x: "exchange_ok x (xt_manager t)" using assms(1) by (simp add: exchange_table_ok_def)
    note log = exchange_log_good[OF assms(1) Some]
    show ?thesis
      using assms
      by (cases call') (simp_all add: call Some log[OF prepare_offer_good[OF x]] log[OF propose_authority_good[OF x]]
          log[OF exchange_receive_good[OF x]] log[OF abort_good[OF x]])
  qed
qed

interpretation exchanges: guarded_machine exchange_step exchange_table_ok exchange_call_ok
  by unfold_locales (rule exchange_step_good)

definition exchange_table_new :: "negotiation_manager \<Rightarrow> exchange_table" where
  "exchange_table_new m = \<lparr>xt_exchanges = fmempty, xt_manager = m, xt_errors = []\<rparr>"

lemma exchange_table_new_ok:
  assumes "manager_new ol ml = Ok m" "ml_aggregate_accounted_bytes ml \<le> usize_max"
  shows "exchange_table_ok (exchange_table_new m)"
proof -
  have "nm_attempts m = fmempty" "nm_established m = fmempty"
    using assms(1) by (auto simp: manager_new_def result_bind_Ok split: if_splits)
  then show ?thesis
    using manager_new_ok(1)[OF assms] by (simp add: exchange_table_ok_def exchange_table_new_def manager_knows_def)
qed

text \<open>
  C15: A host that negotiates on any number of connections, with any frames from the peers, any
  reservations that fail and any order of the hash containers, never panics and never sees an error
  that reports a fault of the library. The manager holds something for a connection exactly when its
  exchange is under way or established, and an established contract exactly when its exchange is; when
  every exchange has failed or not begun, no byte is reserved.
\<close>

theorem exchanges_run_safe:
  assumes "manager_new ol ml = Ok m" "ml_aggregate_accounted_bytes ml \<le> usize_max"
    "list_all exchange_call_ok calls"
  shows "\<exists>t. run_ops exchange_step (exchange_table_new m) calls = Some t
    \<and> manager_ok (xt_manager t) \<and> (\<forall>e\<in>set (xt_errors t). \<not> internal_error e)
    \<and> (\<forall>c. manager_knows (xt_manager t) c
          = (\<exists>x. fmlookup (xt_exchanges t) c = Some x \<and> \<not> unowned (nx_state x)))
    \<and> (\<forall>c x. fmlookup (xt_exchanges t) c = Some x \<longrightarrow>
          (nx_state x = NxEstablished) = is_ok (manager_established (xt_manager t) c))
    \<and> ((\<forall>c x. fmlookup (xt_exchanges t) c = Some x \<longrightarrow> unowned (nx_state x)) \<longrightarrow> nm_reserved_bytes (xt_manager t) = 0)"
proof -
  obtain t where t: "run_ops exchange_step (exchange_table_new m) calls = Some t" "exchange_table_ok t"
    using exchanges.run_good[OF exchange_table_new_ok[OF assms(1,2)] assms(3)] by blast
  let ?m = "xt_manager t"
  have x: "exchange_ok x ?m" "nx_connection x = c" if "fmlookup (xt_exchanges t) c = Some x" for c x
    using t(2) that by (simp_all add: exchange_table_ok_def)
  have ok: "manager_ok ?m" using t(2) by (simp add: exchange_table_ok_def)
  have knows: "manager_knows ?m c = (\<exists>x. fmlookup (xt_exchanges t) c = Some x \<and> \<not> unowned (nx_state x))" for c
    using t(2) x by (fastforce simp: exchange_table_ok_def exchange_ok_def)
  have established: "(nx_state x = NxEstablished) = is_ok (manager_established ?m c)"
    if look: "fmlookup (xt_exchanges t) c = Some x" for c x
    using x[OF look] manager_okD(2)[OF ok]
    by (cases "nx_state x") (auto simp: exchange_ok_def state_ok_def unowned_def manager_knows_def attempt_is_def
        manager_established_def)
  have "nm_reserved_bytes ?m = 0" if "\<forall>c x. fmlookup (xt_exchanges t) c = Some x \<longrightarrow> unowned (nx_state x)"
  proof -
    have "\<not> manager_knows ?m c" for c using knows[of c] that by blast
    then have "nm_attempts ?m = fmempty" "nm_established ?m = fmempty"
      by (auto simp: manager_knows_def intro!: fmap_ext)
    then show ?thesis using ok by (simp add: manager_ok_def)
  qed
  then show ?thesis using t knows established ok by (auto simp: exchange_table_ok_def)
qed

section \<open>Two exchanges agree\<close>

lemma decoded_is_encoded:
  assumes "contract_listed order c" "encode_proposal al order c limit = Some (Ok bs)"
    "decode_proposal al' bs l = Some (Ok d)"
  shows "d = c"
proof -
  have enc: "contract_counts_ok c" "bs = proposal_bytes (nc_protocol c) order" "length bs \<le> unat limit"
    using assms(2) by (auto simp: encode_proposal_eq[OF assms(1)] split: if_splits)
  have len: "length bs \<le> usize_max"
    using enc(3) unsigned_less[of limit, where ?'a = nat] by (simp add: usize_max_def)
  let ?l = "unlimited\<lparr>lim_offer_accounted_bytes := usize_max\<rparr>"
  have "decode_proposal granted bs l = Some (Ok d)"
    using assms(3) read_proposal_granted[of al' l]
    by (cases "read_proposal al' l (decode_start bs l OutResourceLimitExceeded)") (auto simp: decode_proposal_def)
  then have "decode_proposal granted bs ?l = Some (Ok d)"
    unfolding decode_proposal_Ok[OF len] by (auto simp: count_in_def unlimited_def simp del: split_paired_Ex)
  moreover have "contract_size c \<le> length bs"
    using length_proposal_bytes[OF assms(1), of "nc_protocol c"] by (simp add: enc(2) contract_size_def)
  then have "decode_proposal granted bs ?l = Some (Ok c)"
    unfolding decode_proposal_Ok[OF len] using assms(1) enc len
    by (intro conjI exI[of _ order]) (simp_all add: count_in_def unlimited_def contract_counts_ok_def)
  ultimately show "d = c" by simp
qed

text \<open>A failure is an error, so an operation that returns normally has not failed.\<close>

lemma fail_with_no_Ok: "fail_with e x m \<noteq> Some (Ok r, q)"
  by (auto simp: fail_with_def split: option.splits result.splits)

lemmas fail_defs = fail_local_def fail_protocol_def fail_unexpected_status_def fail_manager_state_def

lemma fails_no_Ok [simp]:
  "fail_local al x m out \<noteq> Some (Ok r, q)" "fail_protocol x m e \<noteq> Some (Ok r, q)"
  "fail_decode al x m w \<noteq> Some (Ok r, q)" "fail_from_manager al x m g \<noteq> Some (Ok r, q)"
  by (simp_all add: fail_defs fail_decode_def fail_from_manager_def fail_with_no_Ok
      split: body_decode_error.splits result.splits)

text \<open>What the successful operations do to the attempt.\<close>

definition attempt_at :: "negotiation_exchange \<Rightarrow> negotiation_manager \<Rightarrow> negotiation_attempt \<Rightarrow> bool" where
  "attempt_at x m a \<longleftrightarrow> exchange_ok x m \<and> fmlookup (nm_attempts m) (nx_connection x) = Some a"

definition with_attempt :: "connection_handle \<Rightarrow> negotiation_attempt \<Rightarrow> negotiation_manager \<Rightarrow> negotiation_manager" where
  "with_attempt c a m = m\<lparr>nm_attempts := fmupd c a (nm_attempts m)\<rparr>"

lemma attempt_open:
  assumes "attempt_at x m a" "nx_state x \<in> {NxAwaitingAuthoritySelection, NxAwaitingProposal}"
  shows "manager_attempt m (nx_connection x) = Ok a" "at_proposal a = None" "attempt_status a \<noteq> Established"
    "fmlookup (nm_established m) (nx_connection x) = None" "manager_ok m"
    "\<not> at_authority_validated a" "\<not> at_peer_validated a"
proof -
  have ok: "manager_ok m" "fmlookup (nm_attempts m) (nx_connection x) = Some a"
    using assms(1) by (simp_all add: attempt_at_def exchange_ok_def)
  then show m: "manager_ok m" "fmlookup (nm_established m) (nx_connection x) = None"
    using manager_okD(2) by blast+
  then show "manager_attempt m (nx_connection x) = Ok a" using ok by (simp add: manager_attempt_Ok)
  show p: "at_proposal a = None" "\<not> at_authority_validated a" "\<not> at_peer_validated a"
    using assms by (auto simp: attempt_at_def exchange_ok_def state_ok_def attempt_is_def)
  then show "attempt_status a \<noteq> Established" by (simp add: attempt_status_def)
qed

text \<open>Proposing and validating one's own side, as both ends do it.\<close>

lemma propose_validate:
  assumes "attempt_at x m a" "nx_state x \<in> {NxAwaitingAuthoritySelection, NxAwaitingProposal}"
  shows "manager_propose m (nx_connection x) c req = Some (map_err NegotiationFailed (validate_selection a c req),
      with_attempt (nx_connection x) (case validate_selection a c req of Ok _ \<Rightarrow> a\<lparr>at_proposal := Some c\<rparr> | Err _ \<Rightarrow> a) m)"
    "manager_validate (with_attempt (nx_connection x) (a\<lparr>at_proposal := Some c\<rparr>) m) (nx_connection x) w =
       Some (Ok (AwaitingValidation w (\<not> w)), with_attempt (nx_connection x)
         (if w then a\<lparr>at_proposal := Some c, at_authority_validated := True\<rparr>
          else a\<lparr>at_proposal := Some c, at_peer_validated := True\<rparr>) m)"
proof -
  note a = attempt_open[OF assms]
  show "manager_propose m (nx_connection x) c req = Some (map_err NegotiationFailed (validate_selection a c req),
      with_attempt (nx_connection x) (case validate_selection a c req of Ok _ \<Rightarrow> a\<lparr>at_proposal := Some c\<rparr> | Err _ \<Rightarrow> a) m)"
    using a by (cases "validate_selection a c req")
      (simp_all add: manager_propose_def attempt_propose_def with_attempt_def)
  show "manager_validate (with_attempt (nx_connection x) (a\<lparr>at_proposal := Some c\<rparr>) m) (nx_connection x) w =
       Some (Ok (AwaitingValidation w (\<not> w)), with_attempt (nx_connection x)
         (if w then a\<lparr>at_proposal := Some c, at_authority_validated := True\<rparr>
          else a\<lparr>at_proposal := Some c, at_peer_validated := True\<rparr>) m)"
    using a by (simp add: manager_validate_def manager_attempt_def validate_party_def attempt_status_def Let_def
        with_attempt_def)
qed

lemma propose_authority_Ok:
  assumes "attempt_at x m a" "nx_state x = NxAwaitingAuthoritySelection" "contract_listed order c"
  shows "propose_authority al order x m c req = Some (Ok f, x', m') \<longleftrightarrow>
    validate_selection a c req = Ok ()
    \<and> encode_proposal (xa_body al) order c (nx_max_negotiation_frame_bytes x) = Some (Ok (cf_body f))
    \<and> cf_type f = NegotiationProposalType \<and> x' = x\<lparr>nx_state := NxAwaitingValidated\<rparr>
    \<and> m' = with_attempt (nx_connection x) (a\<lparr>at_proposal := Some c, at_authority_validated := True\<rparr>) m"
proof -
  note a = attempt_open[OF assms(1), simplified, OF disjI1[OF assms(2)]]
  note pv = propose_validate[OF assms(1), simplified, OF disjI1[OF assms(2)]]
  have role: "nx_role x = Authority" using assms(1,2) by (simp add: attempt_at_def exchange_ok_def state_ok_def)
  let ?m = "with_attempt (nx_connection x) (a\<lparr>at_proposal := Some c, at_authority_validated := True\<rparr>) m"
  show ?thesis
  proof (cases "validate_selection a c req")
    case (Err e)
    then show ?thesis by (simp add: propose_authority_def role assms(2) pv(1))
  next
    case (Ok u)
    have kept: "manager_attempt_proposal ?m (nx_connection x) = Ok c"
      using a by (simp add: manager_attempt_proposal_def manager_attempt_def with_attempt_def)
    have "propose_authority al order x m c req = encode_attempt al order x ?m"
      using Ok pv(2)[where w = True and c = c]
      by (simp add: propose_authority_def role assms(2) pv(1) validate_as_def manager_validate_authority_def)
    then show ?thesis
      using Ok by (cases f) (auto simp: encode_attempt_def kept encode_proposal_eq[OF assms(3)])
  qed
qed

abbreviation validated_frame :: control_frame where
  "validated_frame \<equiv> \<lparr>cf_type = NegotiationValidatedType, cf_body = []\<rparr>"

abbreviation established_frame :: control_frame where
  "established_frame \<equiv> \<lparr>cf_type = NegotiationEstablishedType, cf_body = []\<rparr>"

lemma receive_proposal_Ok:
  assumes "attempt_at x m a" "nx_state x = NxAwaitingProposal" "cf_type f = NegotiationProposalType"
    "decode_proposal (xa_items al) (cf_body f) (nm_offer_limits m) = Some (Ok c)"
  shows "exchange_receive al x m req f = Some (Ok g, x', m') \<longleftrightarrow>
    validate_selection a c req = Ok () \<and> g = NxSend validated_frame \<and> x' = x\<lparr>nx_state := NxAwaitingEstablished\<rparr>
    \<and> m' = with_attempt (nx_connection x) (a\<lparr>at_proposal := Some c, at_peer_validated := True\<rparr>) m"
proof -
  note pv = propose_validate[OF assms(1), simplified, OF disjI2[OF assms(2)]]
  have "exchange_receive al x m req f = receive_proposal al x m req (cf_body f)"
    using assms(2,3) by (simp add: exchange_receive_def)
  then show ?thesis
    using pv(2)[where w = False and c = c]
    by (cases "validate_selection a c req")
      (auto simp: receive_proposal_def assms(4) pv(1) validate_as_def manager_validate_peer_def)
qed

lemma receive_proposal_decodes:
  assumes "nx_state x = NxAwaitingProposal" "cf_type f = NegotiationProposalType"
    "exchange_receive al x m req f = Some (Ok g, x', m')"
  obtains c where "decode_proposal (xa_items al) (cf_body f) (nm_offer_limits m) = Some (Ok c)"
  using assms by (auto simp: exchange_receive_def receive_proposal_def split: option.splits result.splits)

lemma acknowledge:
  assumes "attempt_at x m a" "at_proposal a = Some c"
  shows "nx_state x = NxAwaitingValidated \<Longrightarrow> \<exists>m'. exchange_receive al x m req validated_frame =
      Some (Ok (NxSend established_frame), x\<lparr>nx_state := NxEstablished\<rparr>, m')
      \<and> manager_established m' (nx_connection x) = Ok \<lparr>en_connection = nx_connection x, en_contract = c\<rparr>"
    "nx_state x = NxAwaitingEstablished \<Longrightarrow> \<exists>m'. exchange_receive al x m req established_frame =
      Some (Ok NxDone, x\<lparr>nx_state := NxEstablished\<rparr>, m')
      \<and> manager_established m' (nx_connection x) = Ok \<lparr>en_connection = nx_connection x, en_contract = c\<rparr>"
proof -
  have ok: "manager_ok m" "fmlookup (nm_attempts m) (nx_connection x) = Some a"
    using assms(1) by (simp_all add: attempt_at_def exchange_ok_def)
  show "\<exists>m'. exchange_receive al x m req validated_frame =
      Some (Ok (NxSend established_frame), x\<lparr>nx_state := NxEstablished\<rparr>, m')
      \<and> manager_established m' (nx_connection x) = Ok \<lparr>en_connection = nx_connection x, en_contract = c\<rparr>"
    if st: "nx_state x = NxAwaitingValidated"
  proof -
    have "at_authority_validated a = (\<not> False)" "at_peer_validated a = False"
      using assms(1) st by (auto simp: attempt_at_def exchange_ok_def state_ok_def attempt_is_def)
    then obtain m' where "manager_validate m (nx_connection x) False = Some (Ok Established, m')"
      "fmlookup (nm_established m') (nx_connection x) = Some \<lparr>es_contract = c, es_accounted_bytes = contract_size c\<rparr>"
      using validate_second[OF ok assms(2)] by blast
    then show ?thesis
      by (intro exI[of _ m']) (simp add: exchange_receive_def st receive_validated_def validate_as_def
          manager_validate_peer_def manager_established_def)
  qed
  show "\<exists>m'. exchange_receive al x m req established_frame =
      Some (Ok NxDone, x\<lparr>nx_state := NxEstablished\<rparr>, m')
      \<and> manager_established m' (nx_connection x) = Ok \<lparr>en_connection = nx_connection x, en_contract = c\<rparr>"
    if st: "nx_state x = NxAwaitingEstablished"
  proof -
    have "at_authority_validated a = (\<not> True)" "at_peer_validated a = True"
      using assms(1) st by (auto simp: attempt_at_def exchange_ok_def state_ok_def attempt_is_def)
    then obtain m' where "manager_validate m (nx_connection x) True = Some (Ok Established, m')"
      "fmlookup (nm_established m') (nx_connection x) = Some \<lparr>es_contract = c, es_accounted_bytes = contract_size c\<rparr>"
      using validate_second[OF ok assms(2)] by blast
    then show ?thesis
      by (intro exI[of _ m']) (simp add: exchange_receive_def st receive_established_def validate_as_def
          manager_validate_authority_def manager_established_def)
  qed
qed

text \<open>When a proposal is accepted, both ends hold an attempt that proposes the same contract.\<close>

lemma proposal_accepted:
  assumes "exchange_ok xa ma" "contract_listed order c"
    and "propose_authority al1 order xa ma c req = Some (Ok f, xa1, ma1)"
    and "exchange_ok xp mp" "nx_state xp = NxAwaitingProposal" "length (cf_body f) \<le> usize_max"
    and "exchange_receive al2 xp mp req' f = Some (Ok g, xp1, mp1)"
  obtains a b where "g = NxSend validated_frame"
    "attempt_at xa1 ma1 a" "at_proposal a = Some c" "nx_state xa1 = NxAwaitingValidated" "nx_connection xa1 = nx_connection xa"
    "attempt_at xp1 mp1 b" "at_proposal b = Some c" "nx_state xp1 = NxAwaitingEstablished" "nx_connection xp1 = nx_connection xp"
proof -
  have sa: "nx_state xa = NxAwaitingAuthoritySelection"
    using assms(3) by (auto simp: propose_authority_def split: if_splits)
  obtain a where a: "attempt_at xa ma a"
    using assms(1) sa by (auto simp: attempt_at_def exchange_ok_def state_ok_def attempt_is_def)
  obtain b where b: "attempt_at xp mp b"
    using assms(4,5) by (auto simp: attempt_at_def exchange_ok_def state_ok_def attempt_is_def)
  have proposed: "encode_proposal (xa_body al1) order c (nx_max_negotiation_frame_bytes xa) = Some (Ok (cf_body f))"
    "cf_type f = NegotiationProposalType" "xa1 = xa\<lparr>nx_state := NxAwaitingValidated\<rparr>"
    "ma1 = with_attempt (nx_connection xa) (a\<lparr>at_proposal := Some c, at_authority_validated := True\<rparr>) ma"
    using assms(3) unfolding propose_authority_Ok[OF a sa assms(2)] by blast+
  obtain d where d: "decode_proposal (xa_items al2) (cf_body f) (nm_offer_limits mp) = Some (Ok d)"
    using receive_proposal_decodes[OF assms(5) proposed(2) assms(7)] .
  then have "d = c"
    using decoded_is_encoded[OF assms(2) proposed(1)] by simp
  then have accepted: "g = NxSend validated_frame" "xp1 = xp\<lparr>nx_state := NxAwaitingEstablished\<rparr>"
    "mp1 = with_attempt (nx_connection xp) (b\<lparr>at_proposal := Some c, at_peer_validated := True\<rparr>) mp"
    using assms(7) unfolding receive_proposal_Ok[OF b assms(5) proposed(2) d] by blast+
  have "exchange_ok xa1 ma1" "exchange_ok xp1 mp1"
    using propose_authority_good[OF assms(1,2), of al1 req] exchange_receive_good[OF assms(4,6), of al2 req'] assms(3,7)
    by (simp_all add: op_good_def)
  then have at: "attempt_at xa1 ma1 (a\<lparr>at_proposal := Some c, at_authority_validated := True\<rparr>)"
    "attempt_at xp1 mp1 (b\<lparr>at_proposal := Some c, at_peer_validated := True\<rparr>)"
    by (simp_all add: attempt_at_def proposed accepted with_attempt_def)
  show ?thesis
    by (rule that[OF accepted(1) at(1) _ _ _ at(2)]) (simp_all add: proposed accepted)
qed

text \<open>
  C16: Two ends that agree. When the frame with which the authority proposes a contract is accepted by
  the other end, whatever that end's limits and requirements, then its answer leads the authority, and
  the authority's answer leads the other end, to the established state with that same contract: the
  bytes carried the contract, whatever order its hash containers were iterated in.
\<close>

theorem exchange_agreement:
  assumes "exchange_ok xa ma" "contract_listed order c"
    and "propose_authority al1 order xa ma c req = Some (Ok f, xa1, ma1)"
    and "exchange_ok xp mp" "nx_state xp = NxAwaitingProposal" "length (cf_body f) \<le> usize_max"
    and "exchange_receive al2 xp mp req' f = Some (Ok g, xp1, mp1)"
  shows "\<exists>xa2 ma2 xp2 mp2. g = NxSend \<lparr>cf_type = NegotiationValidatedType, cf_body = []\<rparr>
    \<and> exchange_receive al3 xa1 ma1 req3 \<lparr>cf_type = NegotiationValidatedType, cf_body = []\<rparr> =
        Some (Ok (NxSend \<lparr>cf_type = NegotiationEstablishedType, cf_body = []\<rparr>), xa2, ma2)
    \<and> exchange_receive al4 xp1 mp1 req4 \<lparr>cf_type = NegotiationEstablishedType, cf_body = []\<rparr> =
        Some (Ok NxDone, xp2, mp2)
    \<and> nx_state xa2 = NxEstablished \<and> nx_state xp2 = NxEstablished
    \<and> manager_established ma2 (nx_connection xa) = Ok \<lparr>en_connection = nx_connection xa, en_contract = c\<rparr>
    \<and> manager_established mp2 (nx_connection xp) = Ok \<lparr>en_connection = nx_connection xp, en_contract = c\<rparr>"
proof -
  obtain a b where ends: "g = NxSend validated_frame"
    "attempt_at xa1 ma1 a" "at_proposal a = Some c" "nx_state xa1 = NxAwaitingValidated" "nx_connection xa1 = nx_connection xa"
    "attempt_at xp1 mp1 b" "at_proposal b = Some c" "nx_state xp1 = NxAwaitingEstablished" "nx_connection xp1 = nx_connection xp"
    using proposal_accepted[OF assms] .
  show ?thesis
    using acknowledge(1)[OF ends(2,3,4), of al3 req3] acknowledge(2)[OF ends(6,7,8), of al4 req4] ends(1,5,9) by auto
qed

section \<open>Failures reach the other end\<close>

lemma decode_failure_frame:
  "failure_frame b out = Some f \<Longrightarrow> cf_type f = NegotiationFailedType \<and> decode_failure (cf_body f) = Ok out"
  by (cases out) (auto simp: failure_frame_def outcome_wire_def decode_failure_def negotiation_reader_new_def
      read_varint_def decode_varint_def encoded_len_from_first_def varint_len_def outcome_from_wire_def
      negotiation_reader_finish_def Let_def split: if_splits)

text \<open>The report of every failure is the frame of its outcome.\<close>

definition reports_outcome :: "'a exchange_op \<Rightarrow> bool" where
  "reports_outcome q \<longleftrightarrow> (\<forall>out f s. q = Some (Err (LocalFailure out (Some f)), s) \<longrightarrow>
     cf_type f = NegotiationFailedType \<and> decode_failure (cf_body f) = Ok out)"

lemma reports_fail [simp]:
  "reports_outcome None" "reports_outcome (Some (Ok r, s))"
  "reports_outcome (fail_local al x m out)" "reports_outcome (fail_protocol x m e)"
  "reports_outcome (fail_unexpected_status x m st)" "reports_outcome (fail_manager_state x m c)"
  "reports_outcome (Some (Err (ProfileProtocol e), s))"
  by (auto simp: reports_outcome_def fail_defs fail_with_def dest: decode_failure_frame split: option.splits result.splits)

lemma reports_fails [simp]:
  "reports_outcome (fail_decode al x m w)" "reports_outcome (fail_from_manager al x m c)"
  by (simp_all add: fail_decode_def fail_from_manager_def split: body_decode_error.splits result.splits)

lemma reports_operations:
  "reports_outcome (prepare_offer al x m off)" "reports_outcome (propose_authority al order x m c req)"
  "reports_outcome (exchange_receive al x m req f)"
proof -
  have validates: "(\<And>m. reports_outcome (k x m)) \<Longrightarrow> reports_outcome (validate_as w st k x m)" for k w st m
    by (auto simp: validate_as_def split: option.splits result.splits)
  have attempt: "reports_outcome (encode_attempt al order x m)" for m
    by (auto simp: encode_attempt_def split: option.splits result.splits)
  show "reports_outcome (prepare_offer al x m off)"
    by (auto simp: prepare_offer_def split: option.splits result.splits)
  show "reports_outcome (propose_authority al order x m c req)"
    by (auto simp: propose_authority_def validates attempt split: option.splits result.splits)
  have "reports_outcome (receive_offer al x m b)" "reports_outcome (receive_proposal al x m req b)"
    "reports_outcome (receive_validated x m b)" "reports_outcome (receive_established x m b)" for b
    by (auto simp: receive_offer_def receive_proposal_def receive_validated_def receive_established_def Let_def
        intro!: validates split: option.splits result.splits)
  moreover have "reports_outcome (receive_failure x m b)" for b
  proof (cases "decode_failure b")
    case (Ok out)
    then show ?thesis by (auto simp: receive_failure_def reports_outcome_def split: option.splits result.splits)
  qed (simp add: receive_failure_def)
  ultimately show "reports_outcome (exchange_receive al x m req f)"
    by (auto simp: exchange_receive_def split: negotiation_state.splits control_frame_type.splits)
qed

text \<open>
  C18: A failure is reported. When any operation of one end fails with an outcome, its exchange is in
  the failed state and its manager has forgotten the connection; and the frame it then gives to the other end,
  received in any state but the two final ones, tells that end the same outcome, fails its exchange
  and releases what its manager held for the connection.
\<close>

theorem failure_reported:
  assumes "exchange_ok xa ma"
    and "exchange_step \<lparr>xt_exchanges = fmupd (nx_connection xa) xa fmempty, xt_manager = ma, xt_errors = []\<rparr>
           (nx_connection xa, call) = Some t"
    and "exchange_call_ok (nx_connection xa, call)" "xt_errors t = [LocalFailure out (Some f)]"
    and "exchange_ok xp mp" "nx_state xp \<noteq> NxEstablished" "nx_state xp \<noteq> NxFailed"
  shows "(\<exists>xa'. fmlookup (xt_exchanges t) (nx_connection xa) = Some xa' \<and> nx_state xa' = NxFailed)
    \<and> \<not> manager_knows (xt_manager t) (nx_connection xa)
    \<and> (\<exists>xp' mp'. exchange_receive al xp mp req f = Some (Ok (RemoteFailed out), xp', mp')
         \<and> nx_state xp' = NxFailed \<and> \<not> manager_knows mp' (nx_connection xp))"
proof -
  let ?t = "\<lparr>xt_exchanges = fmupd (nx_connection xa) xa fmempty, xt_manager = ma, xt_errors = []\<rparr>"
  have log: "(\<exists>xa'. fmlookup (xt_exchanges t) (nx_connection xa) = Some xa' \<and> nx_state xa' = NxFailed)
      \<and> \<not> manager_knows (xt_manager t) (nx_connection xa) \<and> cf_type f = NegotiationFailedType \<and> decode_failure (cf_body f) = Ok out"
    if "op_good xa ma q" "reports_outcome q" "exchange_log (nx_connection xa) q ?t = Some t" for q :: "'x exchange_op"
    using that assms(4) by (auto simp: op_good_def reports_outcome_def exchange_log_def exchange_ok_def unowned_def
        split: result.splits)
  have "reports_outcome (exchange_abort xa ma)"
    by (auto simp: exchange_abort_def reports_outcome_def map_err_def split: option.splits result.splits)
  then have f: "\<not> manager_knows (xt_manager t) (nx_connection xa)" "cf_type f = NegotiationFailedType" "decode_failure (cf_body f) = Ok out"
    "\<exists>xa'. fmlookup (xt_exchanges t) (nx_connection xa) = Some xa' \<and> nx_state xa' = NxFailed"
    using assms(1-4) log[OF prepare_offer_good[OF assms(1)] reports_operations(1)]
      log[OF propose_authority_good[OF assms(1)] reports_operations(2)]
      log[OF exchange_receive_good[OF assms(1)] reports_operations(3)] log[OF abort_good[OF assms(1)]]
    by (cases call; auto)+
  obtain xp' mp' where rel: "release_manager (xp\<lparr>nx_local_offer := None, nx_state := NxFailed\<rparr>) mp = Some (Ok (), xp', mp')"
    "exchange_ok xp' mp'" "nx_connection xp' = nx_connection xp" "nx_state xp' = NxFailed"
    by (rule release_good[OF exchange_ok_releasable[OF assms(5)]]) auto
  have "exchange_receive al xp mp req f = Some (Ok (RemoteFailed out), xp', mp')"
    using assms(6,7) f(2,3) rel(1) by (simp add: exchange_receive_def receive_failure_def)
  then show ?thesis using f(1,4) rel by (auto simp: exchange_ok_def unowned_def)
qed

section \<open>Compatible ends complete\<close>

text \<open>Every reservation of memory succeeds; the report of a failure is never needed.\<close>

definition all_granted :: "exchange_allocs \<Rightarrow> bool" where
  "all_granted al \<longleftrightarrow> (\<forall>n. xa_body al n) \<and> (\<forall>n size. xa_items al n size)"

definition manager_has_room :: "negotiation_manager \<Rightarrow> bool" where
  "manager_has_room m \<longleftrightarrow> fm_len (nm_attempts m) < ml_concurrent_attempts (nm_limits m)
     \<and> nm_reserved_bytes m + nm_per_attempt_reservation m \<le> ml_aggregate_accounted_bytes (nm_limits m)"

lemma prepare_offer_eq:
  assumes "nx_state x = NxReady" "offer_validate off (nm_offer_limits m) = Ok v"
    "encode_offer (xa_body al) off (nx_max_negotiation_frame_bytes x) = Some (Ok bs)"
  shows "prepare_offer al x m off = Some (Ok \<lparr>cf_type = NegotiationOfferType, cf_body = bs\<rparr>,
    x\<lparr>nx_local_offer := Some off, nx_state := NxAwaitingPeerOffer\<rparr>, m)"
proof -
  have "vo_offer v = off" using assms(2) by (auto simp: offer_validate_iff)
  moreover have "off_diagnostic_label off = None" using assms(3) by (auto simp: encode_offer_def split: if_splits)
  ultimately show ?thesis using assms by (simp add: prepare_offer_def)
qed

lemma start_with_room:
  assumes "manager_ok m" "\<not> manager_knows m c" "manager_has_room m" "attempt_new x y (nm_offer_limits m) = Ok a"
  obtains m' where "manager_start m c x y = Some (Ok (), m')" "fmlookup (nm_attempts m') c = Some a"
    "nm_offer_limits m' = nm_offer_limits m"
proof -
  let ?r = "nm_reserved_bytes m + nm_per_attempt_reservation m"
  have "?r \<le> usize_max" using assms(1,3) by (auto simp: manager_ok_def manager_has_room_def)
  then have "manager_start m c x y = Some (Ok (), m\<lparr>nm_attempts := fmupd c a (nm_attempts m), nm_reserved_bytes := ?r\<rparr>)"
    using assms by (simp add: manager_start_def manager_knows_def manager_has_room_def)
  then show ?thesis using that by simp
qed

text \<open>The offer of the other end starts the attempt, with the authority's offer first at both ends.\<close>

lemma receive_offer_eq:
  assumes "exchange_ok x m" "nx_state x = NxAwaitingPeerOffer" "nx_local_offer x = Some mine"
    "decode_offer (xa_items al) bs (nm_offer_limits m) = Ok peer" "manager_has_room m"
    "attempt_new (if nx_role x = Authority then mine else peer) (if nx_role x = Authority then peer else mine)
       (nm_offer_limits m) = Ok a" "length bs \<le> usize_max"
  obtains r x' m' where "exchange_receive al x m req \<lparr>cf_type = NegotiationOfferType, cf_body = bs\<rparr> = Some (Ok r, x', m')"
    "attempt_at x' m' a" "nm_offer_limits m' = nm_offer_limits m" "nx_connection x' = nx_connection x"
    "nx_max_negotiation_frame_bytes x' = nx_max_negotiation_frame_bytes x"
    "nx_state x' = (if nx_role x = Authority then NxAwaitingAuthoritySelection else NxAwaitingProposal)"
proof -
  let ?f = "\<lparr>cf_type = NegotiationOfferType, cf_body = bs\<rparr>"
  have "manager_ok m" "\<not> manager_knows m (nx_connection x)"
    using assms(1,2) by (simp_all add: exchange_ok_def unowned_def)
  from start_with_room[OF this assms(5,6)] obtain m' where
    m': "manager_start m (nx_connection x) (if nx_role x = Authority then mine else peer)
       (if nx_role x = Authority then peer else mine) = Some (Ok (), m')"
      "fmlookup (nm_attempts m') (nx_connection x) = Some a" "nm_offer_limits m' = nm_offer_limits m" .
  define x' where "x' = x\<lparr>nx_local_offer := None, nx_manager_owned := True,
    nx_state := if nx_role x = Authority then NxAwaitingAuthoritySelection else NxAwaitingProposal\<rparr>"
  have run: "\<exists>r. exchange_receive al x m req ?f = Some (Ok r, x', m')"
    using m'(1) by (cases "nx_role x = Authority")
      (simp_all add: exchange_receive_def assms(2-4) receive_offer_def Let_def x'_def)
  then have "exchange_ok x' m'"
    using exchange_receive_good[OF assms(1), of ?f al req] assms(7) by (auto simp: op_good_def)
  then have "attempt_at x' m' a" using m'(2) by (simp add: attempt_at_def x'_def)
  then show ?thesis using run that m'(3) by (auto simp: x'_def)
qed

text \<open>A whole negotiation: every frame that one end gives is received by the other.\<close>

definition expecting ::
  "'a exchange_op \<Rightarrow> ('a \<Rightarrow> negotiation_exchange \<times> negotiation_manager \<Rightarrow> 'b option) \<Rightarrow> 'b option" where
  "expecting q k = (case q of Some (Ok r, s) \<Rightarrow> k r s | _ \<Rightarrow> None)"

lemma expecting_Ok [simp]: "expecting (Some (Ok r, s)) k = k r s"
  by (simp add: expecting_def)

definition acknowledgements ::
  "exchange_allocs \<Rightarrow> exchange_allocs \<Rightarrow> negotiation_requirements \<Rightarrow> negotiation_requirements \<Rightarrow> negotiation_progress \<Rightarrow>
     negotiation_exchange \<times> negotiation_manager \<Rightarrow> negotiation_exchange \<times> negotiation_manager \<Rightarrow>
     (negotiation_progress \<times> (negotiation_exchange \<times> negotiation_manager) \<times> negotiation_exchange \<times> negotiation_manager) option" where
  "acknowledgements ala alp reqa reqp v a p =
     (case v of NxSend fv \<Rightarrow>
        expecting (exchange_receive ala (fst a) (snd a) reqa fv) (\<lambda>e a.
          case e of NxSend fe \<Rightarrow>
            expecting (exchange_receive alp (fst p) (snd p) reqp fe) (\<lambda>d p. Some (d, a, p))
          | _ \<Rightarrow> None)
      | _ \<Rightarrow> None)"

definition negotiate ::
  "exchange_allocs \<Rightarrow> exchange_allocs \<Rightarrow> contract_order \<Rightarrow> negotiated_contract \<Rightarrow> compatibility_offer \<Rightarrow> compatibility_offer \<Rightarrow>
     negotiation_requirements \<Rightarrow> negotiation_requirements \<Rightarrow>
     negotiation_exchange \<times> negotiation_manager \<Rightarrow> negotiation_exchange \<times> negotiation_manager \<Rightarrow>
     (negotiation_progress \<times> (negotiation_exchange \<times> negotiation_manager) \<times> negotiation_exchange \<times> negotiation_manager) option" where
  "negotiate ala alp order c oa op reqa reqp a p =
     expecting (prepare_offer ala (fst a) (snd a) oa) (\<lambda>fa a.
     expecting (prepare_offer alp (fst p) (snd p) op) (\<lambda>fp p.
     expecting (exchange_receive ala (fst a) (snd a) reqa fp) (\<lambda>_ a.
     expecting (exchange_receive alp (fst p) (snd p) reqp fa) (\<lambda>_ p.
     expecting (propose_authority ala order (fst a) (snd a) c reqa) (\<lambda>f a.
     expecting (exchange_receive alp (fst p) (snd p) reqp f) (\<lambda>v p.
     acknowledgements ala alp reqa reqp v a p))))))"

text \<open>
  C17: Compatible ends complete. Two fresh exchanges of opposite roles, whose managers have the same
  offer limits and room for an attempt, whose offers are compatible and fit a frame, and a contract
  that both offers and both hosts' requirements allow and that fits a frame: the negotiation then runs
  through all of its frames, and both ends are established with that contract, provided that every
  reservation of memory at either end succeeds.
\<close>

theorem exchange_completes:
  assumes "exchange_ok xa ma" "nx_state xa = NxReady" "nx_role xa = Authority" "manager_has_room ma"
    and "exchange_ok xp mp" "nx_state xp = NxReady" "nx_role xp = NonAuthority" "manager_has_room mp"
    and "nm_offer_limits mp = nm_offer_limits ma" "attempt_new oa op (nm_offer_limits ma) = Ok att"
    and "encode_offer (\<lambda>_. True) oa (nx_max_negotiation_frame_bytes xa) = Some (Ok ba)"
    and "encode_offer (\<lambda>_. True) op (nx_max_negotiation_frame_bytes xp) = Some (Ok bp)"
    and "validate_selection att c reqa = Ok ()" "validate_selection att c reqp = Ok ()"
    and "contract_listed order c" "all_granted ala" "all_granted alp"
    and "encode_proposal (\<lambda>_. True) order c (nx_max_negotiation_frame_bytes xa) = Some (Ok bc)"
  shows "\<exists>xa' ma' xp' mp'. negotiate ala alp order c oa op reqa reqp (xa, ma) (xp, mp) = Some (NxDone, (xa', ma'), (xp', mp'))
    \<and> nx_state xa' = NxEstablished \<and> nx_state xp' = NxEstablished
    \<and> manager_established ma' (nx_connection xa) = Ok \<lparr>en_connection = nx_connection xa, en_contract = c\<rparr>
    \<and> manager_established mp' (nx_connection xp) = Ok \<lparr>en_connection = nx_connection xp, en_contract = c\<rparr>"
proof -
  let ?l = "nm_offer_limits ma" 
  have al: "xa_body ala = (\<lambda>_. True)" "xa_items ala = granted" "xa_body alp = (\<lambda>_. True)" "xa_items alp = granted"
    using assms(16,17) by (simp_all add: all_granted_def fun_eq_iff)
  obtain va vp where valid: "offer_validate oa ?l = Ok va" "offer_validate op ?l = Ok vp"
    using assms(10) by (auto simp: attempt_new_def result_bind_Ok map_err_Ok)
  note rta = offer_roundtrip[OF valid(1) assms(11)] and rtp = offer_roundtrip[OF valid(2) assms(12)]
  let ?xa = "xa\<lparr>nx_local_offer := Some oa, nx_state := NxAwaitingPeerOffer\<rparr>"
  let ?xp = "xp\<lparr>nx_local_offer := Some op, nx_state := NxAwaitingPeerOffer\<rparr>"
  let ?fa = "\<lparr>cf_type = NegotiationOfferType, cf_body = ba\<rparr>" and ?fp = "\<lparr>cf_type = NegotiationOfferType, cf_body = bp\<rparr>"
  have prep: "prepare_offer ala xa ma oa = Some (Ok ?fa, ?xa, ma)" "prepare_offer alp xp mp op = Some (Ok ?fp, ?xp, mp)"
    using assms valid by (auto intro!: prepare_offer_eq simp: al)
  have "exchange_ok ?xa ma" "exchange_ok ?xp mp"
    using prepare_offer_good[OF assms(1), of ala oa] prepare_offer_good[OF assms(5), of alp op] prep
    by (simp_all add: op_good_def)
  note ok = this
  obtain ra xa1 ma1 where a1: "exchange_receive ala ?xa ma reqa ?fp = Some (Ok ra, xa1, ma1)" "attempt_at xa1 ma1 att"
    "nm_offer_limits ma1 = ?l" "nx_connection xa1 = nx_connection xa"
    "nx_max_negotiation_frame_bytes xa1 = nx_max_negotiation_frame_bytes xa" "nx_state xa1 = NxAwaitingAuthoritySelection"
    by (rule receive_offer_eq[OF ok(1), where mine = oa and al = ala and bs = bp and peer = op and a = att and req = reqa])
      (use assms rtp in \<open>auto simp: al\<close>)
  obtain rp xp1 mp1 where p1: "exchange_receive alp ?xp mp reqp ?fa = Some (Ok rp, xp1, mp1)" "attempt_at xp1 mp1 att"
    "nm_offer_limits mp1 = ?l" "nx_connection xp1 = nx_connection xp" "nx_state xp1 = NxAwaitingProposal"
    by (rule receive_offer_eq[OF ok(2), where mine = op and al = alp and bs = ba and peer = oa and a = att and req = reqp])
      (use assms rta in \<open>auto simp: al\<close>)
  let ?f = "\<lparr>cf_type = NegotiationProposalType, cf_body = bc\<rparr>"
  obtain xa2 ma2 where a2: "propose_authority ala order xa1 ma1 c reqa = Some (Ok ?f, xa2, ma2)"
    using assms(13,18) unfolding propose_authority_Ok[OF a1(2,6) assms(15)] by (simp add: al a1)
  have fits: "contract_fits ?l c"
    using assms(13) attempt_new_ok[OF assms(10)] by (simp add: validate_selection_iff attempt_ok_def)
  note rtc = proposal_roundtrip[OF fits assms(15,18)]
  have dec: "decode_proposal (xa_items alp) (cf_body ?f) (nm_offer_limits mp1) = Some (Ok c)"
    using rtc(1) by (simp add: al p1)
  obtain xp2 mp2 where p2: "exchange_receive alp xp1 mp1 reqp ?f = Some (Ok (NxSend validated_frame), xp2, mp2)"
    using assms(14) receive_proposal_Ok[OF p1(2,5) _ dec, of reqp] by simp
  have "exchange_ok xa1 ma1" "exchange_ok xp1 mp1" "length (cf_body ?f) \<le> usize_max"
    using a1(2) p1(2) rtc(2) by (simp_all add: attempt_at_def)
  from proposal_accepted[OF this(1) assms(15) a2 this(2) p1(5) this(3) p2] obtain a b where ends:
    "attempt_at xa2 ma2 a" "at_proposal a = Some c" "nx_state xa2 = NxAwaitingValidated" "nx_connection xa2 = nx_connection xa1"
    "attempt_at xp2 mp2 b" "at_proposal b = Some c" "nx_state xp2 = NxAwaitingEstablished" "nx_connection xp2 = nx_connection xp1" .
  from acknowledge(1)[OF ends(1-3), of ala reqa] acknowledge(2)[OF ends(5-7), of alp reqp] show ?thesis
    by (auto simp: negotiate_def acknowledgements_def prep a1 p1 a2 p2 ends(4,8))
qed

section \<open>A concrete negotiation\<close>

text \<open>Two managers with the same limits, two connections, one offer on both sides.\<close>

definition demo_memory :: exchange_allocs where
  "demo_memory = \<lparr>xa_body = \<lambda>_. True, xa_items = \<lambda>_ _. True, xa_report = True\<rparr>"

lemma demo_memory_granted: "all_granted demo_memory"
  by (simp add: all_granted_def demo_memory_def)

definition demo_end_settings :: "semantic_role \<Rightarrow> settings" where
  "demo_end_settings role = \<lparr>se_semantic_role = role, se_max_control_frame_bytes = 1000,
     se_max_negotiation_frame_bytes = 500, se_max_active_incoming_flows = 2, se_max_incoming_message_bytes = 64\<rparr>"

definition demo_end :: "semantic_role \<Rightarrow> negotiation_exchange" where
  "demo_end role = exchange_from_profile (ConnectionHandle 3) (demo_end_settings role) (demo_end_settings role)"

definition demo_no_requirements :: negotiation_requirements where
  "demo_no_requirements = \<lparr>nr_capabilities = [], nr_schemas = []\<rparr>"

definition demo_valid :: validated_offer where
  "demo_valid = \<lparr>vo_offer = demo_wire_offer, vo_accounted_bytes = 49\<rparr>"

definition demo_attempt :: negotiation_attempt where
  "demo_attempt = \<lparr>at_authority_offer = demo_valid, at_peer_offer = demo_valid, at_offer_limits = demo_offer_limits,
     at_proposal = None, at_authority_validated = False, at_peer_validated = False\<rparr>"

abbreviation demo_order :: contract_order where
  "demo_order \<equiv> ([CapabilityId 9], [])"

lemma demo_attempt_new: "attempt_new demo_wire_offer demo_wire_offer demo_offer_limits = Ok demo_attempt"
proof -
  have "offer_validate demo_wire_offer demo_offer_limits = Ok demo_valid"
    by (simp add: offer_validate_iff demo_valid_def offer_wf_def limits_positive_def demo_offer_limits_def
        demo_wire_offer_def offer_size_def usize_max_def)
  then show ?thesis
    by (simp add: attempt_new_def demo_attempt_def supports_protocol_def demo_valid_def demo_wire_offer_def
        verify_offer_requirements_def required_capabilities_def required_schemas_def offer_capability_def)
qed

lemma demo_selection: "validate_selection demo_attempt demo_wire_contract demo_no_requirements = Ok ()"
  by (simp add: validate_selection_def demo_attempt_def demo_wire_contract_def demo_no_requirements_def Let_def
      supports_protocol_def demo_valid_def demo_wire_offer_def offer_capability_def required_capabilities_def
      required_schemas_def has_capability_def contract_accounted_bytes_eq contract_size_def demo_offer_limits_def
      usize_max_def)

lemma demo_listed: "contract_listed demo_order demo_wire_contract"
  by (simp add: contract_listed_def demo_wire_contract_def)

lemma demo_encoded:
  "encode_offer (\<lambda>_. True) demo_wire_offer 500 = Some (Ok (offer_bytes demo_wire_offer))"
  "encode_proposal (\<lambda>_. True) demo_order demo_wire_contract 500 =
     Some (Ok (proposal_bytes (nc_protocol demo_wire_contract) demo_order))"
  unfolding encode_proposal_eq[OF demo_listed] encode_offer_eq
  by (simp_all add: offer_bytes_def demo_wire_offer_def proposal_bytes_def protocol_bytes_def capability_bytes_def
      capability_id_bytes_def contract_counts_ok_def demo_wire_contract_def MAX_COUNT_def)

lemma demo_end_ok:
  "exchange_ok (demo_end role) demo_manager" "nx_state (demo_end role) = NxReady" "nx_role (demo_end role) = role"
  "nx_max_negotiation_frame_bytes (demo_end role) = 500" "nx_connection (demo_end role) = ConnectionHandle 3"
  using manager_new_ok(1)[OF demo_manager_new demo_manager_fits]
  by (simp_all add: demo_end_def exchange_from_profile_def demo_end_settings_def exchange_ok_def state_ok_def
      unowned_def manager_knows_def demo_manager_def)

lemma demo_room: "manager_has_room demo_manager"
  by (simp add: manager_has_room_def demo_manager_def demo_manager_limits_def)

theorem exchange_completes_witness:
  "\<exists>xa ma xp mp. negotiate demo_memory demo_memory demo_order demo_wire_contract demo_wire_offer demo_wire_offer demo_no_requirements
       demo_no_requirements (demo_end Authority, demo_manager) (demo_end NonAuthority, demo_manager)
     = Some (NxDone, (xa, ma), (xp, mp))
    \<and> nx_state xa = NxEstablished \<and> nx_state xp = NxEstablished
    \<and> manager_established ma (ConnectionHandle 3) = Ok \<lparr>en_connection = ConnectionHandle 3, en_contract = demo_wire_contract\<rparr>
    \<and> manager_established mp (ConnectionHandle 3) = Ok \<lparr>en_connection = ConnectionHandle 3, en_contract = demo_wire_contract\<rparr>"
  using exchange_completes[OF demo_end_ok(1-3)[of Authority] demo_room demo_end_ok(1-3)[of NonAuthority] demo_room refl _ _ _
      demo_selection demo_selection demo_listed demo_memory_granted demo_memory_granted, of demo_wire_offer demo_wire_offer "offer_bytes demo_wire_offer"
      "offer_bytes demo_wire_offer" "proposal_bytes (nc_protocol demo_wire_contract) demo_order"]
  by (simp add: demo_end_ok demo_encoded demo_attempt_new) (simp add: demo_manager_def demo_attempt_new)

text \<open>The two ends between the offers and the proposal, for the agreement.\<close>

definition demo_started :: negotiation_manager where
  "demo_started = demo_manager\<lparr>nm_attempts := fmupd (ConnectionHandle 3) demo_attempt fmempty, nm_reserved_bytes := 300\<rparr>"

definition demo_selecting :: "semantic_role \<Rightarrow> negotiation_exchange" where
  "demo_selecting role = (demo_end role)\<lparr>nx_manager_owned := True,
     nx_state := if role = Authority then NxAwaitingAuthoritySelection else NxAwaitingProposal\<rparr>"

lemma demo_selecting_at: "attempt_at (demo_selecting role) demo_started demo_attempt"
proof -
  have start: "manager_start demo_manager (ConnectionHandle 3) demo_wire_offer demo_wire_offer = Some (Ok (), demo_started)"
    using demo_attempt_new by (simp add: manager_start_def demo_started_def demo_manager_def demo_manager_limits_def usize_max_def checked_add_def)
  then have "manager_ok demo_started"
    using manager_start_ok[OF manager_new_ok(1)[OF demo_manager_new demo_manager_fits], of "ConnectionHandle 3" demo_wire_offer
        demo_wire_offer] by simp
  then show ?thesis
    by (cases role) (simp_all add: attempt_at_def exchange_ok_def state_ok_def unowned_def demo_selecting_def demo_end_ok
        demo_started_def manager_knows_def attempt_is_def demo_attempt_def)
qed

definition demo_proposal_frame :: control_frame where
  "demo_proposal_frame = \<lparr>cf_type = NegotiationProposalType,
     cf_body = proposal_bytes (nc_protocol demo_wire_contract) demo_order\<rparr>"

lemma demo_proposes:
  "propose_authority demo_memory demo_order (demo_selecting Authority) demo_started demo_wire_contract demo_no_requirements =
     Some (Ok demo_proposal_frame, (demo_selecting Authority)\<lparr>nx_state := NxAwaitingValidated\<rparr>,
       with_attempt (ConnectionHandle 3)
         (demo_attempt\<lparr>at_proposal := Some demo_wire_contract, at_authority_validated := True\<rparr>) demo_started)"
proof -
  have "nx_state (demo_selecting Authority) = NxAwaitingAuthoritySelection" by (simp add: demo_selecting_def)
  from propose_authority_Ok[OF demo_selecting_at this demo_listed] show ?thesis
    by (simp add: demo_selection demo_selecting_def demo_end_ok demo_encoded demo_proposal_frame_def demo_memory_def)
qed

lemma demo_accepts:
  "exchange_receive demo_memory (demo_selecting NonAuthority) demo_started demo_no_requirements demo_proposal_frame =
     Some (Ok (NxSend validated_frame), (demo_selecting NonAuthority)\<lparr>nx_state := NxAwaitingEstablished\<rparr>,
       with_attempt (ConnectionHandle 3)
         (demo_attempt\<lparr>at_proposal := Some demo_wire_contract, at_peer_validated := True\<rparr>) demo_started)"
proof -
  have st: "nx_state (demo_selecting NonAuthority) = NxAwaitingProposal" by (simp add: demo_selecting_def)
  have "contract_fits demo_offer_limits demo_wire_contract"
    using demo_selection by (simp add: validate_selection_iff demo_attempt_def)
  from proposal_roundtrip(1)[OF this demo_listed demo_encoded(2)]
  have "decode_proposal (xa_items demo_memory) (cf_body demo_proposal_frame) (nm_offer_limits demo_started) = Some (Ok demo_wire_contract)"
    by (simp add: demo_memory_def demo_proposal_frame_def demo_started_def demo_manager_def)
  from receive_proposal_Ok[OF demo_selecting_at st _ this] show ?thesis
    by (simp add: demo_selection demo_proposal_frame_def demo_selecting_def demo_end_ok)
qed

theorem exchange_agreement_witness:
  "\<exists>xa ma xp mp.
      exchange_receive demo_memory ((demo_selecting Authority)\<lparr>nx_state := NxAwaitingValidated\<rparr>)
        (with_attempt (ConnectionHandle 3)
           (demo_attempt\<lparr>at_proposal := Some demo_wire_contract, at_authority_validated := True\<rparr>) demo_started)
        demo_no_requirements \<lparr>cf_type = NegotiationValidatedType, cf_body = []\<rparr> =
        Some (Ok (NxSend \<lparr>cf_type = NegotiationEstablishedType, cf_body = []\<rparr>), xa, ma)
    \<and> exchange_receive demo_memory ((demo_selecting NonAuthority)\<lparr>nx_state := NxAwaitingEstablished\<rparr>)
        (with_attempt (ConnectionHandle 3)
           (demo_attempt\<lparr>at_proposal := Some demo_wire_contract, at_peer_validated := True\<rparr>) demo_started)
        demo_no_requirements \<lparr>cf_type = NegotiationEstablishedType, cf_body = []\<rparr> = Some (Ok NxDone, xp, mp)
    \<and> manager_established ma (ConnectionHandle 3) = Ok \<lparr>en_connection = ConnectionHandle 3, en_contract = demo_wire_contract\<rparr>
    \<and> manager_established mp (ConnectionHandle 3) = Ok \<lparr>en_connection = ConnectionHandle 3, en_contract = demo_wire_contract\<rparr>"
proof -
  have ok: "exchange_ok (demo_selecting role) demo_started" for role
    using demo_selecting_at by (simp add: attempt_at_def)
  have conn: "nx_connection (demo_selecting role) = ConnectionHandle 3" for role
    by (simp add: demo_selecting_def demo_end_ok)
  have st: "nx_state (demo_selecting NonAuthority) = NxAwaitingProposal" by (simp add: demo_selecting_def)
  have len: "length (cf_body demo_proposal_frame) \<le> usize_max"
    by (simp add: demo_proposal_frame_def length_proposal_bytes[OF demo_listed] demo_wire_contract_def usize_max_def)
  from exchange_agreement[OF ok demo_listed demo_proposes ok st len demo_accepts, of demo_memory demo_no_requirements
      demo_memory demo_no_requirements, unfolded conn]
  show ?thesis by blast
qed

text \<open>The peer's offer has a label, so preparing it fails with an outcome and a report.\<close>

definition demo_labelled :: compatibility_offer where
  "demo_labelled = demo_wire_offer\<lparr>off_diagnostic_label := Some ''x''\<rparr>"

theorem failure_reported_witness:
  "\<exists>xp mp. exchange_receive demo_memory (demo_end NonAuthority) demo_manager demo_no_requirements
       \<lparr>cf_type = NegotiationFailedType, cf_body = [0]\<rparr> = Some (Ok (RemoteFailed OutMalformedOffer), xp, mp)
     \<and> nx_state xp = NxFailed"
proof -
  have "offer_validate demo_labelled demo_offer_limits = Ok \<lparr>vo_offer = demo_labelled, vo_accounted_bytes = 50\<rparr>"
    by (simp add: offer_validate_iff demo_labelled_def offer_wf_def limits_positive_def demo_offer_limits_def
        demo_wire_offer_def offer_size_def usize_max_def)
  then have step: "exchange_step \<lparr>xt_exchanges = fmupd (nx_connection (demo_end Authority)) (demo_end Authority) fmempty,
      xt_manager = demo_manager, xt_errors = []\<rparr> (nx_connection (demo_end Authority), PrepareOffer demo_memory demo_labelled)
    = Some \<lparr>xt_exchanges = fmupd (ConnectionHandle 3) ((demo_end Authority)\<lparr>nx_state := NxFailed, nx_local_offer := None\<rparr>) fmempty,
        xt_manager = demo_manager, xt_errors =
          [LocalFailure OutMalformedOffer (Some \<lparr>cf_type = NegotiationFailedType, cf_body = [0]\<rparr>)]\<rparr>"
    by (simp add: demo_manager_def exchange_log_def prepare_offer_def demo_end_ok demo_labelled_def fail_local_def
        fail_with_def release_manager_def demo_end_def exchange_from_profile_def demo_end_settings_def
        demo_memory_def failure_frame_def outcome_wire_def)
  show ?thesis
    using failure_reported[OF demo_end_ok(1) step _ _ demo_end_ok(1)[of NonAuthority], of OutMalformedOffer
        "\<lparr>cf_type = NegotiationFailedType, cf_body = [0]\<rparr>" demo_memory demo_no_requirements]
    by (auto simp: demo_end_ok)
qed

text \<open>A peer that answers the offer with bytes that are none, and a host that then gives up.\<close>

definition demo_exchange_calls :: "(connection_handle \<times> exchange_call) list" where
  "demo_exchange_calls = map (Pair (ConnectionHandle 3))
     [OpenExchange (demo_end_settings Authority) (demo_end_settings NonAuthority),
      PrepareOffer demo_memory demo_wire_offer,
      ReceiveFrame demo_memory demo_no_requirements \<lparr>cf_type = NegotiationOfferType, cf_body = [255]\<rparr>,
      ProposeAuthority demo_memory demo_order demo_wire_contract demo_no_requirements, AbortExchange]"

theorem exchanges_run_safe_witness:
  "\<exists>t. run_ops exchange_step (exchange_table_new demo_manager) demo_exchange_calls = Some t
     \<and> manager_ok (xt_manager t) \<and> (\<forall>e\<in>set (xt_errors t). \<not> internal_error e)"
  using exchanges_run_safe[OF demo_manager_new demo_manager_fits, of demo_exchange_calls]
  by (auto simp: demo_exchange_calls_def demo_listed usize_max_def)

end
