(* ===== verification/Flow_Contract.thy ===== *)
theory Flow_Contract
  imports Flow_Machine Control_Contract
begin

text \<open>
  The properties of flow control: the limits and the books of any run, the decisions that change core
  and registry together or not at all, and the agreement of the two ends on every flow they open,
  accept and terminate.
\<close>

section \<open>Any run\<close>

text \<open>C6: From settings that both ends validated, flow control can be built, and no sequence of opens,
  control frames (of any type and content), host decisions, stream bindings, terminations and core
  calls, with any outcome of every allocation, makes it panic. At every point the inbound flows are
  within the local limit, the outbound flows and the opens that wait for an answer are within the
  peer's limit, no identifier is both waiting and registered, and every registered identifier is of
  the side that opens its direction.\<close>

theorem flow_run_within_limits:
  assumes "settings_ok l" "settings_ok p" "endpoint_ok lim ep"
  shows "\<exists>c0. flow_control_new conn side l p = Ok c0 \<and> (\<exists>c ep'. run_ops flow_step (c0, ep) calls = Some (c, ep')
    \<and> endpoint_ok lim ep'
    \<and> active_direction_len (fn_registry c) Inbound \<le> unat (se_max_active_incoming_flows l)
    \<and> active_direction_len (fn_registry c) Outbound + fm_len (fn_pending_outbound c)
        \<le> unat (se_max_active_incoming_flows p)
    \<and> fm_len (fg_flows (fn_registry c)) \<le> fg_max_active (fn_registry c)
    \<and> (\<forall>v w. fmlookup (fn_pending_outbound c) v = Some w \<longrightarrow> fmlookup (fg_flows (fn_registry c)) v = None)
    \<and> (\<forall>v f. fmlookup (fg_flows (fn_registry c)) v = Some f \<longrightarrow> fk_connection (rf_key f) = conn
         \<and> flow_id_side (FlowId v) = (case fk_direction (rf_key f) of Outbound \<Rightarrow> side | Inbound \<Rightarrow> opposite_side side)))"
proof -
  obtain c0 where c0: "flow_control_new conn side l p = Ok c0" "flow_control_ok c0"
    using flow_control_new_ok[OF assms(1,2)] by blast
  have facts: "fn_connection c0 = conn" "fn_local_side c0 = side" "fn_local_settings c0 = l" "fn_peer_settings c0 = p"
    using c0(1) by (auto simp: flow_control_new_def result_bind_def split: result.split_asm if_split_asm)
  have "flow_pair_ok lim c0 (c0, ep)" using c0(2) assms(3) by (simp add: flow_pair_ok_def)
  then obtain s where s: "run_ops flow_step (c0, ep) calls = Some s" "flow_pair_ok lim c0 s"
    using flow_machine.run_good[of lim c0 "(c0, ep)" calls] by (auto simp: list_all_iff)
  obtain c ep' where c: "s = (c, ep')" by (cases s)
  have ok: "flow_config_ok c" "registered_ok c" "pending_outbound_ok c" "flow_limits c" "endpoint_ok lim ep'"
    using s(2) flow_control_ok_parts[of c] by (auto simp: c flow_pair_ok_def)
  have conf: "fn_connection c = conn" "fn_local_side c = side" "fn_local_settings c = l" "fn_peer_settings c = p"
    using s(2) facts by (auto simp: c flow_pair_ok_def same_config_def)
  have sides: "flow_id_side (FlowId v) = (case fk_direction (rf_key f) of Outbound \<Rightarrow> side | Inbound \<Rightarrow> opposite_side side)
      \<and> fk_connection (rf_key f) = conn" if f: "fmlookup (fg_flows (fn_registry c)) v = Some f" for v f
  proof -
    have "issued (cursor_for c (fk_direction (rf_key f))) v" "fk_connection (rf_key f) = fn_connection c"
      using ok(2) f unfolding registered_ok_def by blast+
    then show ?thesis
      using ok(1) conf by (cases "fk_direction (rf_key f)") (auto simp: issued_def cursor_for_def flow_config_ok_def)
  qed
  have "fm_len (fg_flows (fn_registry c)) \<le> fg_max_active (fn_registry c)"
    using active_both[of "fn_registry c"] ok(1,4) by (auto simp: flow_config_ok_def flow_limits_def)
  moreover have "\<forall>v w. fmlookup (fn_pending_outbound c) v = Some w \<longrightarrow> fmlookup (fg_flows (fn_registry c)) v = None"
    using ok(3) unfolding pending_outbound_ok_def by blast
  moreover have "active_direction_len (fn_registry c) Inbound \<le> unat (se_max_active_incoming_flows l)
    \<and> active_direction_len (fn_registry c) Outbound + fm_len (fn_pending_outbound c)
        \<le> unat (se_max_active_incoming_flows p)"
    using ok(4) conf by (simp add: flow_limits_def)
  ultimately show ?thesis
    using c0(1) s(1) ok(5) sides unfolding c by (intro exI[of _ c0] conjI exI[of _ c] exI[of _ ep']) blast+
qed

section \<open>Decisions\<close>

text \<open>A control frame of any type and content is handled without a panic. It establishes a flow in
  the core and registers it under the identifier the open was sent with, with the key, the mode and
  the limit that were asked for; or it releases a registered flow in both; or, whatever error or
  refusal it ends with, the core's flows and the registry are as they were. The registry never
  refuses a flow that the core has established for any reason but a failed allocation.\<close>

theorem receive_frame_atomic:
  assumes "flow_control_ok c" "endpoint_ok lim ep"
  shows "\<exists>x c' ep'. flow_control_receive al c ep frame = Some (x, c', ep') \<and> flow_control_ok c' \<and> endpoint_ok lim ep'
    \<and> receive_effect c ep x c' ep'"
  by (rule receive_frame_total[OF assms])

text \<open>The host's answer to the peer's open is carried out without a panic. Either the answer is an
  accept frame, and then the flow is in the core and in the registry under the peer's identifier, with
  the mode and the limit of the open; or nothing was established. A flow that the core took and the
  registry could not is taken back. The request is answered once: after any answer to it no request
  waits, and an answer to another request changes nothing.\<close>

theorem accept_inbound_atomic:
  assumes "flow_control_ok c" "endpoint_ok lim ep"
  shows "\<exists>x c' ep'. accept_inbound al c ep q a = Some (x, c', ep') \<and> flow_control_ok c' \<and> endpoint_ok lim ep'
    \<and> admission_effect c ep q a x c' ep'"
  by (rule accept_inbound_total[OF assms])

section \<open>Agreement\<close>

lemma open_consumed:
  assumes "cursor_ok k" "fc_next_sequence k = Some (flow_id_sequence i)" "flow_id_side i = fc_side k" "flow_id_ok i"
  shows "validate_and_consume k i = (Ok (), cursor_advance (flow_id_sequence i) k)"
  using consume_Ok[of k i] assms by auto

lemma inbound_full_iff:
  assumes "flow_control_ok b"
  shows "se_max_active_incoming_flows (fn_local_settings b) \<le> active_count b Inbound
    \<longleftrightarrow> unat (se_max_active_incoming_flows (fn_local_settings b)) \<le> active_direction_len (fn_registry b) Inbound"
proof -
  let ?n = "active_direction_len (fn_registry b) Inbound"
  have "?n \<le> unat (se_max_active_incoming_flows (fn_local_settings b))"
    using flow_control_ok_parts[OF assms] by (simp add: flow_limits_def)
  then have "?n < 2 ^ 64"
    using unsigned_less[of "se_max_active_incoming_flows (fn_local_settings b)", where ?'a = nat] by simp
  then have "active_count b Inbound = word_of_nat ?n" "unat (word_of_nat ?n :: u64) = ?n"
    by (simp_all add: active_count_def usize_to_u64_def word_of_small)
  then show ?thesis by (simp add: word_le_nat_alt)
qed

text \<open>C27: An open that one end prepared is understood by the other when the identifiers are in step.
  If the other end has no earlier open waiting for its host's decision, the frame never fails to parse
  and its identifier is never refused, so the identifiers stay in step; the host there is told the
  identifier, mode and limit of the opener, unless its flows are at the limit, when it answers with
  exactly the rejection for lack of resources or fails to allocate that answer; it is never refused for
  its message limit. If an earlier open still waits, the frame is refused as premature and nothing
  changes, so that its identifier is not consumed.\<close>

theorem open_reaches_peer:
  assumes "flow_control_ok a" "flow_control_ok b"
    and step: "fn_local_flow_ids a = fn_peer_flow_ids b" "fn_peer_settings a = fn_local_settings b"
    and po: "prepare_outbound_open al a epa q d = Some (Ok po, a')"
  shows "\<exists>x b'. flow_control_receive al' b epb (po_frame po) = Some (x, b', epb) \<and> fn_registry b' = fn_registry b
    \<and> (case fn_pending_inbound b of
         Some w \<Rightarrow> x = Err (InboundDecisionPending (io_flow_id w)) \<and> b' = b
       | None \<Rightarrow> fn_peer_flow_ids b' = fn_local_flow_ids a'
         \<and> (let w = \<lparr>io_flow_id = ff_flow_id (po_flow po), io_mode = or_open_mode q,
                io_max_message_bytes = word_of_nat (or_open_stable_max q)\<rparr>
            in if unat (se_max_active_incoming_flows (fn_local_settings b)) \<le> active_direction_len (fn_registry b) Inbound
               then x = Ok (InboundRejected (io_flow_id w) RejectResourceLimit \<lparr>cf_type = FlowRejectType,
                      cf_body = body_of [flow_id_value (io_flow_id w), reject_code RejectResourceLimit]\<rparr>)
                    \<or> x = Err FlowAllocation
               else x = Ok (InboundOpen w) \<and> fn_pending_inbound b' = Some w))"
proof (cases "fn_pending_inbound b")
  case (Some w)
  have "cf_type (po_frame po) = OpenFlowType"
    using prepare_outbound_open_step[OF assms(1), of al epa q d] po by (auto simp: opened_def)
  then show ?thesis using Some by (simp add: flow_control_receive_def)
next
  case None
  note idle = None
  have op: "opened a q po a'" using prepare_outbound_open_step[OF assms(1), of al epa q d] po by simp
  obtain i where i: "flow_id_ok i" "flow_id_side i = fn_local_side a"
    "fc_next_sequence (fn_local_flow_ids a) = Some (flow_id_sequence i)"
    "ff_flow_id (po_flow po) = i"
    "po_frame po = \<lparr>cf_type = OpenFlowType, cf_body = open_flow_body \<lparr>of_flow_id = i,
       of_delivery_mode = or_open_mode q, of_max_message_bytes = word_of_nat (or_open_stable_max q)\<rparr>\<rparr>"
    "open_flow_ok \<lparr>of_flow_id = i, of_delivery_mode = or_open_mode q,
       of_max_message_bytes = word_of_nat (or_open_stable_max q)\<rparr>"
    "(word_of_nat (or_open_stable_max q) :: u64) \<le> se_max_incoming_message_bytes (fn_local_settings b)"
    "fn_local_flow_ids a' = cursor_advance (flow_id_sequence i) (fn_local_flow_ids a)"
    using op step(2) unfolding opened_def by auto
  have dec: "open_flow_decode (open_flow_body \<lparr>of_flow_id = i, of_delivery_mode = or_open_mode q,
       of_max_message_bytes = word_of_nat (or_open_stable_max q)\<rparr>) = Ok \<lparr>of_flow_id = i,
       of_delivery_mode = or_open_mode q, of_max_message_bytes = word_of_nat (or_open_stable_max q)\<rparr>"
    using i(6) by (simp add: open_flow_decode_iff)
  have k: "cursor_ok (fn_local_flow_ids a)" "flow_id_side i = fc_side (fn_local_flow_ids a)"
    using flow_control_ok_parts[OF assms(1)] i(2) by (auto simp: flow_config_ok_def)
  have eat: "validate_and_consume (fn_peer_flow_ids b) i = (Ok (), cursor_advance (flow_id_sequence i) (fn_peer_flow_ids b))"
    using open_consumed[OF k(1) i(3) k(2) i(1)] step(1) by simp
  obtain y where y: "flow_reject_encode \<lparr>fr_flow_id = i, fr_reason = RejectResourceLimit\<rparr> = Some y"
    "body_slice y = body_of [flow_id_value i, reject_code RejectResourceLimit]"
    using flow_reject_encode_body[of "\<lparr>fr_flow_id = i, fr_reason = RejectResourceLimit\<rparr>"] i(1) by auto
  have count_upd: "active_count (b\<lparr>fn_peer_flow_ids := ids\<rparr>) Inbound = active_count b Inbound" for ids
    by (simp add: active_count_def)
  show ?thesis
    unfolding i(4) using i(5,7,8) dec eat inbound_full_iff[OF assms(2)] y step(1) idle
    by (cases "unat (se_max_active_incoming_flows (fn_local_settings b)) \<le> active_direction_len (fn_registry b) Inbound")
      (auto simp: flow_control_receive_def receive_open_def inbound_rejection_def reject_frame_def owned_frame_def
        Let_def count_upd not_less split: option.split)
qed

text \<open>C7: An accept frame reaches the opener: it answers the open that waits under its identifier,
  which is then closed. If the opener's core takes the flow, both ends have the flow registered under
  one identifier with one mode and one message limit, outbound at the opener and inbound at the
  acceptor; otherwise the opener has neither core flow nor registration for it.\<close>

theorem accept_reaches_opener:
  assumes a: "flow_control_ok a" "endpoint_ok lim epa" and b: "flow_control_ok b" "endpoint_ok lim' epb"
    and waits: "fmlookup (fn_pending_outbound a) (flow_id_value (io_flow_id q)) = Some p"
      "flow_id_side (io_flow_id q) = fn_local_side a" "io_mode q = pn_mode p"
      "unat (io_max_message_bytes q) = pn_stable_max p"
    and acc: "accept_inbound al b epb q adm = Some (Ok (InboundAccepted f fr), b', epb')"
  shows "\<exists>x a' epa'. flow_control_receive al' a epa fr = Some (x, a', epa')
    \<and> fmlookup (fn_pending_outbound a') (flow_id_value (io_flow_id q)) = None
    \<and> (\<exists>r. lookup_flow (fn_registry b') (io_flow_id q) = Some r \<and> rf_key r = ia_key adm
         \<and> rf_mode r = pn_mode p \<and> rf_max_message_bytes r = pn_stable_max p)
    \<and> (if \<exists>g. x = Ok (OutboundEstablished g)
       then (\<exists>r. lookup_flow (fn_registry a') (io_flow_id q) = Some r \<and> rf_key r = pn_key p
         \<and> rf_mode r = pn_mode p \<and> rf_max_message_bytes r = pn_stable_max p)
         \<and> fmlookup (de_flows epa') (pn_key p) = Some (flow_new (pn_mode p) (pn_policy p))
       else unchanged_flows a epa a' epa')"
proof -
  let ?i = "io_flow_id q"
  let ?f = "\<lparr>ff_flow_id = ?i, ff_key = ia_key adm, ff_mode = io_mode q, ff_max_message_bytes = unat (io_max_message_bytes q)\<rparr>"
  have eff: "admission_effect b epb q adm (Ok (InboundAccepted f fr)) b' epb'"
    using accept_inbound_total[OF b, of al q adm] acc by auto
  have fr: "f = ?f" "fr = \<lparr>cf_type = FlowAcceptType, cf_body = body_of [flow_id_value ?i]\<rparr>"
    "established_in b epb ?f (ia_policy adm) b' epb'"
    using eff by (auto simp: admission_effect_def Let_def split: if_split_asm)
  have at_b: "\<exists>r. lookup_flow (fn_registry b') ?i = Some r \<and> rf_key r = ia_key adm
         \<and> rf_mode r = pn_mode p \<and> rf_max_message_bytes r = pn_stable_max p"
    using fr(3) waits(3,4) by (auto simp: established_in_def lookup_flow_def)
  have "issued (fn_local_flow_ids a) (flow_id_value ?i)"
    using flow_control_ok_parts[OF a(1)] waits(1) unfolding pending_outbound_ok_def by blast
  then have id: "flow_id_ok ?i" by (simp add: issued_def flow_id_eta)
  have dec: "flow_accept_decode (body_of [flow_id_value ?i]) = Ok (FlowAccept ?i)"
    using id by (simp add: flow_accept_decode_iff)
  obtain x a' epa' where x: "receive_accept al' a epa (body_of [flow_id_value ?i]) = Some (x, a', epa')"
    "fn_pending_outbound a' = fmdrop (flow_id_value ?i) (fn_pending_outbound a)"
    "accepted_outbound a epa ?i p x a' epa'"
    using receive_accept_step[OF a id waits(2,1) dec] by blast
  let ?g = "\<lparr>ff_flow_id = ?i, ff_key = pn_key p, ff_mode = pn_mode p, ff_max_message_bytes = pn_stable_max p\<rparr>"
  have run: "flow_control_receive al' a epa fr = Some (x, a', epa')"
    using x(1) by (simp add: fr(2) flow_control_receive_def)
  have gone: "fmlookup (fn_pending_outbound a') (flow_id_value ?i) = None" by (simp add: x(2))
  show ?thesis
  proof (cases "x = Ok (OutboundEstablished ?g)")
    case True
    then have "established_in a epa ?g (pn_policy p) a' epa'" using x(3) by (simp add: accepted_outbound_def)
    then show ?thesis using run gone at_b True by (auto simp: established_in_def lookup_flow_def)
  next
    case False
    then have "unchanged_flows a epa a' epa'" "\<forall>g. x \<noteq> Ok (OutboundEstablished g)"
      using x(3) by (auto simp: accepted_outbound_def Let_def)
    then show ?thesis using run gone at_b by auto
  qed
qed

text \<open>C28: A termination that one end carried out reaches the other: the frame it sends releases the flow
  registered there under the same identifier, whichever end opened it, with the reason that was
  given, unless the core there has lost the flow already.\<close>

theorem terminate_reaches_peer:
  assumes a: "flow_control_ok a" "endpoint_ok lim epa" and b: "flow_control_ok b" "endpoint_ok lim' epb"
    and same: "lookup_flow (fn_registry a) i = Some f" "lookup_flow (fn_registry b) i = Some g" "rf_mode f = rf_mode g"
    and done_a: "terminate_local al a epa i reason = Some (Ok t, a', epa')"
  shows "lookup_flow (fn_registry a') i = None \<and> fmlookup (de_flows epa') (rf_key f) = None
    \<and> (\<exists>x b' epb'. flow_control_receive al' b epb (lt_frame t) = Some (x, b', epb')
       \<and> fmlookup (de_flows epb') (rf_key g) = None
       \<and> (if fmlookup (de_flows epb) (rf_key g) = None then (\<exists>e. x = Err (CoreState e)) \<and> b' = b
          else (\<exists>u. x = Ok (RemoteTerminated (established_from_registered i g) reason u))
             \<and> lookup_flow (fn_registry b') i = None))"
proof -
  have "issued (cursor_for a (fk_direction (rf_key f))) (flow_id_value i)"
    using flow_control_ok_parts[OF a(1)] same(1) unfolding registered_ok_def lookup_flow_def by blast
  then have id: "flow_id_ok i" by (simp add: issued_def flow_id_eta)
  have t: "released_from a epa (lt_flow t) a' epa'" "ff_flow_id (lt_flow t) = i"
    "lt_frame t = \<lparr>cf_type = FlowTerminateType, cf_body = body_of [flow_id_value i, terminate_code reason]\<rparr>"
    "\<not> (ff_mode (lt_flow t) = ReliableOrdered \<and> reason = TerminateNormal)"
    using terminate_local_total[OF a, of al i reason] done_a by auto
  have facts: "ff_key (lt_flow t) = rf_key f" "ff_mode (lt_flow t) = rf_mode f"
    using t(1,2) same(1) by (auto simp: released_from_def established_from_registered_def)
  have dec: "flow_terminate_decode (body_of [flow_id_value i, terminate_code reason])
      = Ok \<lparr>fx_flow_id = i, fx_reason = reason\<rparr>"
    using id by (simp add: flow_terminate_decode_iff)
  obtain r epb' where r: "terminate_flow epb (rf_key g) Requested = Some (r, epb')"
    "de_flows epb' = fmdrop (rf_key g) (de_flows epb)"
    using terminate_flow_ok[OF b(2)] by blast
  have which: "(\<exists>e. r = Err e) \<longleftrightarrow> fmlookup (de_flows epb) (rf_key g) = None"
  proof (cases "fmlookup (de_flows epb) (rf_key g)")
    case None
    then show ?thesis using r(1) by (auto simp: terminate_flow_def)
  next
    case (Some y)
    then show ?thesis using terminate_present[OF b(2) Some, of Requested] r(1) by auto
  qed
  have allowed: "\<not> (rf_mode g = ReliableOrdered \<and> reason = TerminateNormal)" using t(4) facts(2) same(3) by simp
  have run: "flow_control_receive al' b epb (lt_frame t) = Some (case r of
      Err e \<Rightarrow> (Err (CoreState e), b, epb')
    | Ok u \<Rightarrow> (Ok (RemoteTerminated (established_from_registered i g) reason u),
        b\<lparr>fn_registry := registry_release (fn_registry b) i\<rparr>, epb'))"
    using dec same(2) r(1) allowed by (auto simp: t(3) flow_control_receive_def receive_terminate_def split: result.split)
  have "lookup_flow (fn_registry a') i = None \<and> fmlookup (de_flows epa') (rf_key f) = None"
    using t(1,2) facts(1) by (auto simp: released_from_def registry_release_def lookup_flow_def)
  then show ?thesis
    using run r(2) which by (cases r) (auto simp: registry_release_def lookup_flow_def)
qed

section \<open>Two ends that open a flow\<close>

definition demo_side :: "wire_side \<Rightarrow> flow_control" where
  "demo_side side = \<lparr>fn_connection = ConnectionHandle 1, fn_local_side = side,
     fn_local_settings = demo_settings (case side of Client \<Rightarrow> NonAuthority | Server \<Rightarrow> Authority),
     fn_peer_settings = demo_settings (case side of Client \<Rightarrow> Authority | Server \<Rightarrow> NonAuthority),
     fn_local_flow_ids = flow_id_cursor_new side, fn_peer_flow_ids = flow_id_cursor_new (opposite_side side),
     fn_pending_outbound = fmempty, fn_pending_inbound = None, fn_registry = flow_registry_new side 8\<rparr>"

definition demo_allocs :: flow_allocs where
  "demo_allocs = \<lparr>al_pending = True, al_registry = True, al_frame = (\<lambda>_. True), al_reply = (\<lambda>_. True)\<rparr>"

definition demo_open_request :: outbound_open_request where
  "demo_open_request = \<lparr>or_open_key = demo_key Outbound, or_open_mode = ReliableOrdered,
     or_open_policy = demo_reliable, or_open_stable_max = 8, or_open_limits = demo_limits\<rparr>"

definition demo_waiting_open :: pending_outbound where
  "demo_waiting_open = \<lparr>pn_key = demo_key Outbound, pn_mode = ReliableOrdered, pn_policy = demo_reliable,
     pn_limits = demo_limits, pn_stable_max = 8\<rparr>"

definition demo_waiting :: flow_control where
  "demo_waiting = (demo_side Client)\<lparr>fn_local_flow_ids := \<lparr>fc_side = Client, fc_next_sequence = Some 1\<rparr>,
     fn_pending_outbound := fmupd 0 demo_waiting_open fmempty\<rparr>"

definition demo_inbound :: inbound_open where
  "demo_inbound = \<lparr>io_flow_id = FlowId 0, io_mode = ReliableOrdered, io_max_message_bytes = 8\<rparr>"

definition demo_asking :: flow_control where
  "demo_asking = (demo_side Server)\<lparr>fn_peer_flow_ids := \<lparr>fc_side = Client, fc_next_sequence = Some 1\<rparr>,
     fn_pending_inbound := Some demo_inbound\<rparr>"

definition demo_admission :: inbound_admission where
  "demo_admission = \<lparr>ia_key = demo_key Inbound, ia_policy = demo_reliable, ia_limits = demo_limits\<rparr>"

definition demo_open_frame :: control_frame where
  "demo_open_frame = \<lparr>cf_type = OpenFlowType, cf_body = open_flow_body \<lparr>of_flow_id = FlowId 0,
     of_delivery_mode = ReliableOrdered, of_max_message_bytes = 8\<rparr>\<rparr>"

lemma demo_side_new:
  "flow_control_new (ConnectionHandle 1) side (demo_settings (case side of Client \<Rightarrow> NonAuthority | Server \<Rightarrow> Authority))
     (demo_settings (case side of Client \<Rightarrow> Authority | Server \<Rightarrow> NonAuthority)) = Ok (demo_side side)"
  by (simp add: flow_control_new_def demo_side_def demo_settings_def u64_checked_add_def u64_to_usize_def
      usize_max_def ok_or_def result_bind_def)

lemma demo_side_ok: "flow_control_ok (demo_side side)"
  using flow_control_new_ok[OF demo_settings_ok demo_settings_ok] demo_side_new
  by (metis result.inject(1))

lemma demo_id: "flow_id_new Client 0 = Ok (FlowId 0)" "flow_id_sequence (FlowId 0) = 0" "flow_id_side (FlowId 0) = Client"
  by (simp_all add: flow_id_new_def flow_id_sequence_def flow_id_side_def side_from_bit_def side_bit_def
      MAX_FLOW_SEQUENCE_def)

lemma demo_open_ok: "open_flow_ok \<lparr>of_flow_id = FlowId 0, of_delivery_mode = m, of_max_message_bytes = 8\<rparr>"
  by (simp add: open_flow_ok_def flow_id_ok_def MAX_VARINT_def)

lemma demo_opened:
  "\<exists>po. prepare_outbound_open demo_allocs (demo_side Client) (endpoint_new demo_limits) demo_open_request None
     = Some (Ok po, demo_waiting) \<and> po_frame po = demo_open_frame \<and> ff_flow_id (po_flow po) = FlowId 0"
proof -
  obtain b where b: "open_flow_encode \<lparr>of_flow_id = FlowId 0, of_delivery_mode = ReliableOrdered,
      of_max_message_bytes = 8\<rparr> = Some b" "body_slice b = open_flow_body \<lparr>of_flow_id = FlowId 0,
      of_delivery_mode = ReliableOrdered, of_max_message_bytes = 8\<rparr>"
    using open_flow_encode_body[OF demo_open_ok] by blast
  have valid: "validate_open (demo_side Client) (endpoint_new demo_limits) demo_open_request = Ok 8"
    by (simp add: validate_open_def validate_outbound_identity_def demo_side_def demo_open_request_def demo_key_def
        demo_reliable_def demo_policy_def validate_for_mode_def flow_contract_def endpoint_new_def
        usize_to_u64_def ok_or_def result_bind_def MAX_VARINT_def demo_settings_def checked_add_def usize_max_def
        active_sum flow_registry_new_def)
  have q: "or_open_key demo_open_request = demo_key Outbound" "or_open_mode demo_open_request = ReliableOrdered"
    "or_open_policy demo_open_request = demo_reliable" "or_open_stable_max demo_open_request = 8"
    "or_open_limits demo_open_request = demo_limits" "fn_pending_outbound (demo_side Client) = fmempty"
    by (simp_all add: demo_open_request_def demo_side_def)
  have alloc: "cursor_allocate (fn_local_flow_ids (demo_side Client))
      = Some (Ok (FlowId 0), \<lparr>fc_side = Client, fc_next_sequence = Some 1\<rparr>)"
    by (simp add: cursor_allocate_def demo_side_def flow_id_cursor_new_def demo_id cursor_advance_def
        MAX_FLOW_SEQUENCE_def MAX_VARINT_def)
  show ?thesis
    using b by (simp add: prepare_outbound_open_def valid alloc validate_envelope_def q demo_allocs_def
        open_flow_new_def MAX_VARINT_def owned_frame_def demo_waiting_def demo_waiting_open_def demo_open_frame_def)
qed

lemma demo_waiting_ok: "flow_control_ok demo_waiting"
proof -
  obtain po where "prepare_outbound_open demo_allocs (demo_side Client) (endpoint_new demo_limits) demo_open_request None
     = Some (Ok po, demo_waiting)" using demo_opened by blast
  then show ?thesis
    using prepare_outbound_open_step[OF demo_side_ok, of demo_allocs Client "endpoint_new demo_limits" demo_open_request None]
    by simp
qed

lemma demo_asking_by: "receive_open demo_allocs (demo_side Server) (cf_body demo_open_frame) = Some (Ok (InboundOpen demo_inbound), demo_asking)"
proof -
  have "open_flow_decode (cf_body demo_open_frame) = Ok \<lparr>of_flow_id = FlowId 0, of_delivery_mode = ReliableOrdered,
      of_max_message_bytes = 8\<rparr>"
    using demo_open_ok by (simp add: demo_open_frame_def open_flow_decode_iff)
  moreover have "validate_and_consume (fn_peer_flow_ids (demo_side Server)) (FlowId 0)
      = (Ok (), \<lparr>fc_side = Client, fc_next_sequence = Some 1\<rparr>)"
    by (simp add: validate_and_consume_def demo_side_def flow_id_cursor_new_def demo_id cursor_advance_def
        MAX_FLOW_SEQUENCE_def MAX_VARINT_def opposite_side_def)
  ultimately show ?thesis
    by (simp add: receive_open_def Let_def demo_asking_def demo_inbound_def demo_side_def demo_settings_def active_count_def
        active_sum flow_registry_new_def usize_to_u64_def)
qed

lemma demo_asking_ok: "flow_control_ok demo_asking"
  using receive_open_step[OF demo_side_ok, of Server demo_allocs "cf_body demo_open_frame"] demo_asking_by
  by (auto simp: demo_side_def)

lemma demo_admitted:
  "\<exists>f fr b' epb'. accept_inbound demo_allocs demo_asking (endpoint_new demo_limits) demo_inbound demo_admission
     = Some (Ok (InboundAccepted f fr), b', epb')"
proof -
  obtain y where y: "accept_frame (al_frame demo_allocs) (FlowId 0) = Some (Some y)"
    using flow_accept_encode_body[of "FlowAccept (FlowId 0)"]
    by (auto simp: accept_frame_def owned_frame_def demo_allocs_def flow_id_ok_def MAX_VARINT_def)
  show ?thesis
    using y by (simp add: accept_inbound_def require_pending_inbound_def demo_asking_def demo_admission_def demo_inbound_def
        demo_side_def delivery_eval usize_to_u64_def demo_settings_def active_count_def active_sum flow_registry_new_def
        admit_pending_def complete_admission_def u64_to_usize_def register_consumed_accepted_flow_def flow_contract_def
        expected_side_def opposite_side_def demo_id demo_allocs_def)
qed


text \<open>Both ends after the accept: the flow is in the core and registered.\<close>

lemma demo_server_flow:
  obtains b epb r where "flow_control_ok b" "endpoint_ok demo_limits epb"
    "lookup_flow (fn_registry b) (FlowId 0) = Some r" "rf_mode r = ReliableOrdered" "rf_key r = demo_key Inbound"
    "fmlookup (de_flows epb) (demo_key Inbound) \<noteq> None"
proof -
  obtain f fr b' epb' where acc: "accept_inbound demo_allocs demo_asking (endpoint_new demo_limits) demo_inbound demo_admission
     = Some (Ok (InboundAccepted f fr), b', epb')" using demo_admitted by blast
  then have ok: "flow_control_ok b'" "endpoint_ok demo_limits epb'"
    "admission_effect demo_asking (endpoint_new demo_limits) demo_inbound demo_admission (Ok (InboundAccepted f fr)) b' epb'"
    using accept_inbound_total[OF demo_asking_ok endpoint_new_ok[of demo_limits], of demo_allocs demo_inbound demo_admission]
    by auto
  have "(\<exists>r. lookup_flow (fn_registry b') (FlowId 0) = Some r \<and> rf_mode r = ReliableOrdered \<and> rf_key r = demo_key Inbound)
      \<and> fmlookup (de_flows epb') (demo_key Inbound) \<noteq> None"
    using ok(3) by (auto simp: admission_effect_def established_in_def lookup_flow_def demo_inbound_def demo_admission_def
        Let_def split: if_split_asm)
  then show ?thesis using that[OF ok(1,2)] by blast
qed

lemma demo_client_flow:
  obtains a epa r where "flow_control_ok a" "endpoint_ok demo_limits epa"
    "lookup_flow (fn_registry a) (FlowId 0) = Some r" "rf_mode r = ReliableOrdered" "rf_key r = demo_key Outbound"
    "fmlookup (de_flows epa) (demo_key Outbound) \<noteq> None"
proof -
  have dec: "flow_accept_decode (body_of [0]) = Ok (FlowAccept (FlowId 0))"
    by (simp add: flow_accept_decode_iff flow_id_ok_def MAX_VARINT_def)
  have run: "\<exists>a epa. receive_accept demo_allocs demo_waiting (endpoint_new demo_limits) (body_of [0])
      = Some (Ok (OutboundEstablished \<lparr>ff_flow_id = FlowId 0, ff_key = demo_key Outbound, ff_mode = ReliableOrdered,
           ff_max_message_bytes = 8\<rparr>), a, epa)"
    using dec by (simp add: receive_accept_def require_local_response_side_def demo_id Let_def demo_waiting_def
        demo_side_def demo_waiting_open_def delivery_eval complete_accept_def register_consumed_accepted_flow_def
        flow_contract_def flow_registry_new_def expected_side_def demo_allocs_def)
  then obtain a epa where a: "receive_accept demo_allocs demo_waiting (endpoint_new demo_limits) (body_of [0])
      = Some (Ok (OutboundEstablished \<lparr>ff_flow_id = FlowId 0, ff_key = demo_key Outbound, ff_mode = ReliableOrdered,
           ff_max_message_bytes = 8\<rparr>), a, epa)" by blast
  then have ok: "flow_control_ok a" "endpoint_ok demo_limits epa"
    "receive_effect demo_waiting (endpoint_new demo_limits) (Ok (OutboundEstablished \<lparr>ff_flow_id = FlowId 0,
       ff_key = demo_key Outbound, ff_mode = ReliableOrdered, ff_max_message_bytes = 8\<rparr>)) a epa"
    using receive_accept_total[OF demo_waiting_ok endpoint_new_ok[of demo_limits], of demo_allocs "body_of [0]"] by auto
  have "(\<exists>r. lookup_flow (fn_registry a) (FlowId 0) = Some r \<and> rf_mode r = ReliableOrdered \<and> rf_key r = demo_key Outbound)
      \<and> fmlookup (de_flows epa) (demo_key Outbound) \<noteq> None"
    using ok(3) by (auto simp: receive_effect_def established_outbound_def established_in_def lookup_flow_def)
  then show ?thesis using that[OF ok(1,2)] by blast
qed

lemma terminate_local_succeeds:
  assumes "flow_control_ok c" "endpoint_ok lim ep" "lookup_flow (fn_registry c) i = Some f"
    "\<not> (rf_mode f = ReliableOrdered \<and> reason = TerminateNormal)" "fmlookup (de_flows ep) (rf_key f) \<noteq> None"
  shows "\<exists>t c' ep'. terminate_local demo_allocs c ep i reason = Some (Ok t, c', ep')"
proof -
  have "issued (cursor_for c (fk_direction (rf_key f))) (flow_id_value i)"
    using flow_control_ok_parts[OF assms(1)] assms(3) unfolding registered_ok_def lookup_flow_def by blast
  then have id: "flow_id_ok i" by (simp add: issued_def flow_id_eta)
  obtain fr where fr: "terminate_frame (al_frame demo_allocs) i reason = Some (Some fr)"
    using flow_terminate_encode_body[of "\<lparr>fx_flow_id = i, fx_reason = reason\<rparr>"] id
    by (auto simp: terminate_frame_def owned_frame_def Let_def demo_allocs_def)
  obtain y where "fmlookup (de_flows ep) (rf_key f) = Some y" using assms(5) by blast
  from terminate_present[OF assms(2) this, of Requested] obtain u ep' where
    "terminate_flow ep (rf_key f) Requested = Some (Ok u, ep')" by blast
  then show ?thesis using fr assms(3,4) by (auto simp: terminate_local_def)
qed

section \<open>Witnesses\<close>

theorem flow_run_within_limits_witness:
  "\<exists>c0 c ep'. flow_control_new (ConnectionHandle 1) Client (demo_settings NonAuthority) (demo_settings Authority) = Ok c0
     \<and> run_ops flow_step (c0, endpoint_new demo_limits)
         [CallPrepareOpen demo_allocs demo_open_request None, CallReleaseFlow (FlowId 4)] = Some (c, ep')
     \<and> active_direction_len (fn_registry c) Inbound \<le> unat (se_max_active_incoming_flows (demo_settings NonAuthority))"
  using flow_run_within_limits[OF demo_settings_ok[of NonAuthority] demo_settings_ok[of Authority]
      endpoint_new_ok[of demo_limits], of "ConnectionHandle 1" Client
      "[CallPrepareOpen demo_allocs demo_open_request None, CallReleaseFlow (FlowId 4)]"]
  by blast

theorem receive_frame_atomic_witness:
  "\<exists>x c' ep'. flow_control_receive demo_allocs (demo_side Server) (endpoint_new demo_limits) demo_open_frame = Some (x, c', ep')
     \<and> x = Ok (InboundOpen demo_inbound) \<and> receive_effect (demo_side Server) (endpoint_new demo_limits) x c' ep'"
  using receive_frame_atomic[OF demo_side_ok[of Server] endpoint_new_ok[of demo_limits], of demo_allocs demo_open_frame]
    demo_asking_by by (auto simp: flow_control_receive_def demo_open_frame_def demo_side_def)

theorem accept_inbound_atomic_witness:
  "\<exists>f fr b' epb'. accept_inbound demo_allocs demo_asking (endpoint_new demo_limits) demo_inbound demo_admission
     = Some (Ok (InboundAccepted f fr), b', epb')
     \<and> admission_effect demo_asking (endpoint_new demo_limits) demo_inbound demo_admission (Ok (InboundAccepted f fr)) b' epb'"
proof -
  obtain f fr b' epb' where "accept_inbound demo_allocs demo_asking (endpoint_new demo_limits) demo_inbound demo_admission
     = Some (Ok (InboundAccepted f fr), b', epb')" using demo_admitted by blast
  then show ?thesis
    using accept_inbound_atomic[OF demo_asking_ok endpoint_new_ok[of demo_limits], of demo_allocs demo_inbound demo_admission]
    by auto
qed

theorem open_reaches_peer_witness:
  "\<exists>x b'. flow_control_receive demo_allocs (demo_side Server) (endpoint_new demo_limits) demo_open_frame
     = Some (x, b', endpoint_new demo_limits)
     \<and> x = Ok (InboundOpen demo_inbound)
     \<and> fn_peer_flow_ids b' = fn_local_flow_ids demo_waiting"
proof -
  obtain po where po: "prepare_outbound_open demo_allocs (demo_side Client) (endpoint_new demo_limits) demo_open_request None
     = Some (Ok po, demo_waiting)" "po_frame po = demo_open_frame" "ff_flow_id (po_flow po) = FlowId 0"
    using demo_opened by blast
  have step: "fn_local_flow_ids (demo_side Client) = fn_peer_flow_ids (demo_side Server)"
    "fn_peer_settings (demo_side Client) = fn_local_settings (demo_side Server)" "fn_pending_inbound (demo_side Server) = None"
    by (simp_all add: demo_side_def opposite_side_def)
  have room: "\<not> unat (se_max_active_incoming_flows (fn_local_settings (demo_side Server)))
      \<le> active_direction_len (fn_registry (demo_side Server)) Inbound"
    by (simp add: demo_side_def demo_settings_def active_sum flow_registry_new_def)
  show ?thesis
    using open_reaches_peer[OF demo_side_ok demo_side_ok step(1,2) po(1), of demo_allocs "endpoint_new demo_limits"] step(3) room
    by (auto simp: po(2,3) demo_inbound_def demo_open_request_def Let_def)
qed

theorem accept_reaches_opener_witness:
  "\<exists>f fr b' epb' x a' epa'. accept_inbound demo_allocs demo_asking (endpoint_new demo_limits) demo_inbound demo_admission
       = Some (Ok (InboundAccepted f fr), b', epb')
     \<and> flow_control_receive demo_allocs demo_waiting (endpoint_new demo_limits) fr = Some (x, a', epa')
     \<and> fmlookup (fn_pending_outbound a') 0 = None"
proof -
  obtain f fr b' epb' where acc: "accept_inbound demo_allocs demo_asking (endpoint_new demo_limits) demo_inbound demo_admission
     = Some (Ok (InboundAccepted f fr), b', epb')" using demo_admitted by blast
  have waits: "fmlookup (fn_pending_outbound demo_waiting) (flow_id_value (io_flow_id demo_inbound)) = Some demo_waiting_open"
      "flow_id_side (io_flow_id demo_inbound) = fn_local_side demo_waiting" "io_mode demo_inbound = pn_mode demo_waiting_open"
      "unat (io_max_message_bytes demo_inbound) = pn_stable_max demo_waiting_open"
    by (simp_all add: demo_waiting_def demo_inbound_def demo_side_def demo_waiting_open_def demo_id)
  show ?thesis
    using accept_reaches_opener[OF demo_waiting_ok endpoint_new_ok[of demo_limits] demo_asking_ok endpoint_new_ok[of demo_limits]
        waits acc, of demo_allocs] acc
    by (fastforce simp: demo_inbound_def)
qed

theorem terminate_reaches_peer_witness:
  "\<exists>b epb t b' epb' a epa x a' epa'.
       terminate_local demo_allocs b epb (FlowId 0) TerminateResourceFailure = Some (Ok t, b', epb')
     \<and> flow_control_receive demo_allocs a epa (lt_frame t) = Some (x, a', epa')
     \<and> fmlookup (de_flows epa) (demo_key Outbound) \<noteq> None \<and> fmlookup (de_flows epa') (demo_key Outbound) = None
     \<and> lookup_flow (fn_registry a') (FlowId 0) = None"
proof -
  obtain b epb r where b: "flow_control_ok b" "endpoint_ok demo_limits epb"
    "lookup_flow (fn_registry b) (FlowId 0) = Some r" "rf_mode r = ReliableOrdered" "rf_key r = demo_key Inbound"
    "fmlookup (de_flows epb) (demo_key Inbound) \<noteq> None" by (rule demo_server_flow)
  obtain a epa r' where a: "flow_control_ok a" "endpoint_ok demo_limits epa"
    "lookup_flow (fn_registry a) (FlowId 0) = Some r'" "rf_mode r' = ReliableOrdered" "rf_key r' = demo_key Outbound"
    "fmlookup (de_flows epa) (demo_key Outbound) \<noteq> None" by (rule demo_client_flow)
  obtain t b' epb' where t: "terminate_local demo_allocs b epb (FlowId 0) TerminateResourceFailure = Some (Ok t, b', epb')"
    using terminate_local_succeeds[OF b(1-3), of TerminateResourceFailure] b(5,6) by auto
  from terminate_reaches_peer[OF b(1,2) a(1,2) b(3) a(3) b(4)[folded a(4)] t, of demo_allocs]
  obtain x a' epa' where "flow_control_receive demo_allocs a epa (lt_frame t) = Some (x, a', epa')"
    "fmlookup (de_flows epa') (demo_key Outbound) = None" "lookup_flow (fn_registry a') (FlowId 0) = None"
    using a(5,6) by auto
  then show ?thesis using t a(6) by blast
qed

end
