(* ===== verification/Lifecycle_Contract.thy ===== *)
theory Lifecycle_Contract
  imports Driver_Calls Control_Contract Exchange_Contract Flow_Contract
begin

text \<open>
  Admission and the end of connections: the slots of an endpoint count the connections that are alive,
  a connection is admitted with both directions of its control stream in order, and its teardown
  leaves nothing behind.
\<close>

section \<open>Admission\<close>

text \<open>What the bootstrap relies on: the law of the control stream, and that a new stream is empty.\<close>

definition bootstrap_law :: "('q, 'w, 'r) bootstrap_ops \<Rightarrow> ('w \<Rightarrow> bytes) \<Rightarrow> ('r \<Rightarrow> bytes) \<Rightarrow> bool" where
  "bootstrap_law bo sent taken \<longleftrightarrow> control_writer (bo_send bo) sent \<and> control_reader (bo_recv bo) taken
     \<and> (\<forall>q wr rd. bo_open_bi bo q = Done (Ok (wr, rd)) \<or> bo_accept_bi bo q = Done (Ok (wr, rd)) \<longrightarrow>
          sent wr = [] \<and> taken rd = [])"

definition ready_ok :: "('w, 'r) profile_ready \<Rightarrow> bool" where
  "ready_ok p \<longleftrightarrow> ct_io_state (pr_sender p) = Clean \<and> cr_io_state (pr_receiver p) = Clean
     \<and> settings_ok (ct_local_settings (pr_sender p)) \<and> settings_ok (pr_peer_settings p)"

lemma establish_returns:
  assumes law: "bootstrap_law bo sent taken" and ok: "settings_ok (cp_local_settings profile)"
  shows "\<exists>x. map_option fst (establish_profile_ready alloc bo q expected profile) = Some x
    \<and> (\<forall>q' p. x = Done (Ok (q', p)) \<longrightarrow> ready_ok p)
    \<and> (\<forall>e. x = Done (Err e) \<longrightarrow> (\<exists>b. e = BootstrapFailed b))"
proof (cases "confirm_profile_transport (bo_handshake_data bo q) (bo_max_datagram_size bo q) (bo_side bo q)")
  case (Err e)
  then show ?thesis by (simp add: establish_profile_ready_def bootstrap_outcome_def)
next
  case (Ok side)
  let ?opened = "case expected of Client \<Rightarrow> bo_open_bi bo q | Server \<Rightarrow> bo_accept_bi bo q"
  have start: "sent wr = [] \<and> taken rd = []" if "?opened = Done (Ok (wr, rd))" for wr rd
    using law that unfolding bootstrap_law_def by (cases expected) auto
  obtain x where x: "bootstrap_control_with expected alloc (bo_send bo) (bo_recv bo) side ?opened (bo_is_0rtt bo)
      (cp_local_settings profile) = Some x" "\<forall>p. x = Done (Ok p) \<longrightarrow> ready_ok p"
    using bootstrap_effect[of "bo_send bo" sent "bo_recv bo" taken "cp_local_settings profile" ?opened expected alloc side
        "bo_is_0rtt bo"] law ok start
    unfolding bootstrap_law_def ready_ok_def by (metis (no_types, lifting))
  have "establish_profile_ready alloc bo q expected profile = Some (bootstrap_outcome bo q x)"
    using Ok x(1) by (cases expected)
      (simp_all add: establish_profile_ready_def bootstrap_client_control_def bootstrap_server_control_def)
  then show ?thesis using x(2) by (cases x rule: awaited.exhaust) (auto simp: bootstrap_outcome_def split: result.split)
qed

lemma admit_handshake_returns:
  fixes bo :: "('q, 'w, 'r) bootstrap_ops" and handshake :: "('q, 'e profile_connection_error) result awaited"
  assumes "bootstrap_law bo sent taken" "settings_ok (cp_local_settings profile)"
    and "\<forall>e. handshake = Done (Err e) \<longrightarrow> e \<noteq> ConnectionAtCapacity"
  shows "\<exists>x. admit_handshake alloc bo expected profile handshake ep
      = Some (x, ep\<lparr>ce_slots := keep_permit x (ce_slots ep)\<rparr>)
    \<and> (\<forall>q p. x = Done (Ok (q, p)) \<longrightarrow> ready_ok p) \<and> x \<noteq> Done (Err ConnectionAtCapacity)"
proof (cases "\<exists>q. handshake = Done (Ok q)")
  case True
  then obtain q where q: "handshake = Done (Ok q)" by blast
  obtain x :: "('q, 'w, 'r, 'e) admission" where x: "map_option fst (establish_profile_ready alloc bo q expected profile) = Some x"
    "\<forall>q' p. x = Done (Ok (q', p)) \<longrightarrow> ready_ok p" "\<forall>e. x = Done (Err e) \<longrightarrow> (\<exists>b. e = BootstrapFailed b)"
    using establish_returns[OF assms(1,2)] by blast
  then show ?thesis using q by (auto simp: admit_handshake_def)
next
  case False
  then show ?thesis
    using assms(3) by (cases handshake rule: awaited.exhaust) (auto simp: admit_handshake_def split: result.split)
qed

section \<open>Slots\<close>

text \<open>One admission, on either side.\<close>

definition admission_counts ::
  "('v, 't) configured_endpoint \<Rightarrow> ('v, 't) configured_endpoint \<Rightarrow> bool \<Rightarrow> bool" where
  "admission_counts ep ep' admitted \<longleftrightarrow> ce_side ep' = ce_side ep \<and> ce_resources ep' = ce_resources ep
     \<and> cs_max (ce_slots ep') = cs_max (ce_slots ep)
     \<and> cs_active (ce_slots ep') = cs_active (ce_slots ep) + (if admitted then 1 else 0)
     \<and> (admitted \<longrightarrow> cs_active (ce_slots ep) < cs_max (ce_slots ep))"

lemma permit_counts:
  "cs_active (ce_slots ep) < cs_max (ce_slots ep) \<Longrightarrow>
     admission_counts ep (ep\<lparr>ce_slots := keep_permit x ((ce_slots ep)\<lparr>cs_active := cs_active (ce_slots ep) + 1\<rparr>)\<rparr>)
       (\<exists>a. x = Done (Ok a))"
  by (auto simp: admission_counts_def keep_permit_def permit_drop_def split: awaited.split result.split)

lemma connect_counts:
  assumes "bootstrap_law bo sent taken" "settings_ok (cp_local_settings profile)"
  shows "\<exists>x ep'. connect_profile_ready alloc bo ep profile connecting = Some (x, ep')
    \<and> admission_counts ep ep' (\<exists>a. x = Done (Ok a)) \<and> (\<forall>q p. x = Done (Ok (q, p)) \<longrightarrow> ready_ok p)
    \<and> (x = Done (Err ConnectionAtCapacity) \<longleftrightarrow> validate_preflight (ce_side ep) (ce_resources ep) profile Client = Ok ()
         \<and> cs_max (ce_slots ep) \<le> cs_active (ce_slots ep))"
proof (cases "validate_preflight (ce_side ep) (ce_resources ep) profile Client = Ok ()
    \<and> cs_active (ce_slots ep) < cs_max (ce_slots ep)")
  case True
  let ?slots = "(ce_slots ep)\<lparr>cs_active := cs_active (ce_slots ep) + 1\<rparr>"
  let ?handshake = "case connecting of Err e \<Rightarrow> Done (Err (ConnectFailed e)) | Ok Cancelled \<Rightarrow> Cancelled
      | Ok (Done h) \<Rightarrow> Done (map_err HandshakeFailed h)"
  have "\<forall>e. ?handshake = Done (Err e) \<longrightarrow> e \<noteq> ConnectionAtCapacity"
    by (auto simp: map_err_def split: result.splits awaited.splits)
  then obtain x where x: "admit_handshake alloc bo Client profile ?handshake (ep\<lparr>ce_slots := ?slots\<rparr>)
      = Some (x, ep\<lparr>ce_slots := keep_permit x ?slots\<rparr>)"
    "\<forall>q p. x = Done (Ok (q, p)) \<longrightarrow> ready_ok p" "x \<noteq> Done (Err ConnectionAtCapacity)"
    using admit_handshake_returns[OF assms, of ?handshake alloc Client "ep\<lparr>ce_slots := ?slots\<rparr>"] by auto
  then show ?thesis
    using True permit_counts[of ep x] by (simp add: connect_profile_ready_def slots_try_acquire_def)
next
  case False
  then show ?thesis
    by (auto simp: connect_profile_ready_def slots_try_acquire_def admission_counts_def not_less
        split: result.split)
qed

lemma accept_counts:
  fixes bo :: "('q, 'w, 'r) bootstrap_ops"
  assumes "bootstrap_law bo sent taken" "settings_ok (cp_local_settings profile)"
  shows "\<exists>(x :: ('q \<times> ('w, 'r) profile_ready, 'e profile_connection_error) result option awaited) ep'.
    accept_profile_ready alloc bo ep profile incoming = Some (x, ep')
    \<and> admission_counts ep ep' (\<exists>a. x = Done (Some (Ok a))) \<and> (\<forall>q p. x = Done (Some (Ok (q, p))) \<longrightarrow> ready_ok p)
    \<and> (x = Done (Some (Err ConnectionAtCapacity)) \<longleftrightarrow>
         validate_preflight (ce_side ep) (ce_resources ep) profile Server = Ok ()
         \<and> cs_max (ce_slots ep) \<le> cs_active (ce_slots ep) \<and> (\<exists>y. incoming = Done (Some y)))"
proof (cases "validate_preflight (ce_side ep) (ce_resources ep) profile Server = Ok ()
    \<and> cs_active (ce_slots ep) < cs_max (ce_slots ep) \<and> (\<exists>y. incoming = Done (Some y))")
  case True
  then obtain y where y: "incoming = Done (Some y)" by blast
  let ?slots = "(ce_slots ep)\<lparr>cs_active := cs_active (ce_slots ep) + 1\<rparr>"
  let ?handshake = "case y of Err e \<Rightarrow> Done (Err (HandshakeFailed e :: 'e profile_connection_error)) | Ok Cancelled \<Rightarrow> Cancelled
      | Ok (Done h) \<Rightarrow> Done (map_err HandshakeFailed h)"
  have "\<forall>e. ?handshake = Done (Err e) \<longrightarrow> e \<noteq> ConnectionAtCapacity"
    by (auto simp: map_err_def split: result.splits awaited.splits)
  then obtain x where x: "admit_handshake alloc bo Server profile ?handshake (ep\<lparr>ce_slots := ?slots\<rparr>)
      = Some (x, ep\<lparr>ce_slots := keep_permit x ?slots\<rparr>)"
    "\<forall>q p. x = Done (Ok (q, p)) \<longrightarrow> ready_ok p" "x \<noteq> Done (Err ConnectionAtCapacity)"
    using admit_handshake_returns[OF assms, of ?handshake alloc Server "ep\<lparr>ce_slots := ?slots\<rparr>"] by auto
  then show ?thesis
    using True y permit_counts[of ep x]
    by (cases x rule: awaited.exhaust) (auto simp: accept_profile_ready_def slots_try_acquire_def)
next
  case False
  let ?full = "validate_preflight (ce_side ep) (ce_resources ep) profile Server = Ok ()
      \<and> cs_max (ce_slots ep) \<le> cs_active (ce_slots ep) \<and> (\<exists>y. incoming = Done (Some y))"
  have quiet: ?thesis if "accept_profile_ready alloc bo ep profile incoming = Some (y, ep)" "\<forall>a. y \<noteq> Done (Some (Ok a))"
    "y = Done (Some (Err ConnectionAtCapacity)) \<longleftrightarrow> ?full"
    for y :: "('q \<times> ('w, 'r) profile_ready, 'e profile_connection_error) result option awaited"
    by (rule exI[of _ y], rule exI[of _ ep]) (use that in \<open>simp add: admission_counts_def\<close>)
  show ?thesis
  proof (cases "validate_preflight (ce_side ep) (ce_resources ep) profile Server")
    case (Err e)
    then show ?thesis by (intro quiet[of "Done (Some (Err (ConnectionPreflight e)))"]) (simp_all add: accept_profile_ready_def)
  next
    case (Ok u)
    show ?thesis
    proof (cases "\<exists>y. incoming = Done (Some y)")
      case True
      then show ?thesis using False Ok
        by (intro quiet[of "Done (Some (Err ConnectionAtCapacity))"]) (auto simp: accept_profile_ready_def slots_try_acquire_def)
    next
      case idle: False
      have "incoming = Cancelled \<or> incoming = Done None"
      proof (cases incoming)
        case (Done y)
        then show ?thesis using idle by (cases y) simp_all
      qed simp
      then show ?thesis
        using Ok quiet[of Cancelled] quiet[of "Done None"] by (auto simp: accept_profile_ready_def)
    qed
  qed
qed

text \<open>
  An admission holds its permit across awaits, so other admissions can come between its start, which
  claims the slot, and its end, from the handshake on.
\<close>

definition claim_slot ::
  "wire_side \<Rightarrow> ('v, 't) configured_endpoint \<Rightarrow> ('v, 't) control_profile \<Rightarrow>
     (unit, 'e profile_connection_error) result \<times> ('v, 't) configured_endpoint" where
  "claim_slot side ep profile =
     (case validate_preflight (ce_side ep) (ce_resources ep) profile side of
        Err e \<Rightarrow> (Err (ConnectionPreflight e), ep)
      | Ok _ \<Rightarrow>
        (case slots_try_acquire (ce_slots ep) of
           (False, _) \<Rightarrow> (Err ConnectionAtCapacity, ep)
         | (True, slots) \<Rightarrow> (Ok (), ep\<lparr>ce_slots := slots\<rparr>)))"

lemma connect_claims:
  "connect_profile_ready alloc bo ep profile connecting =
     (case claim_slot Client ep profile of
        (Err e, ep') \<Rightarrow> Some (Done (Err e), ep')
      | (Ok _, ep') \<Rightarrow> admit_handshake alloc bo Client profile
          (case connecting of
             Err e \<Rightarrow> Done (Err (ConnectFailed e))
           | Ok Cancelled \<Rightarrow> Cancelled
           | Ok (Done h) \<Rightarrow> Done (map_err HandshakeFailed h)) ep')"
  by (simp add: connect_profile_ready_def claim_slot_def split: result.split prod.split bool.split)

lemma accept_claims:
  "accept_profile_ready alloc bo ep profile (Done (Some accepted)) =
     (case claim_slot Server ep profile of
        (Err e, ep') \<Rightarrow> Some (Done (Some (Err e)), ep')
      | (Ok _, ep') \<Rightarrow> do {
          (x, ep') \<leftarrow> admit_handshake alloc bo Server profile
            (case accepted of
               Err e \<Rightarrow> Done (Err (HandshakeFailed e))
             | Ok Cancelled \<Rightarrow> Cancelled
             | Ok (Done h) \<Rightarrow> Done (map_err HandshakeFailed h)) ep';
          Some (case x of Cancelled \<Rightarrow> Cancelled | Done y \<Rightarrow> Done (Some y), ep') })"
  by (simp add: accept_profile_ready_def claim_slot_def split: result.split prod.split bool.split)

text \<open>
  What happens to an endpoint: an admission starts, as a client or as a server, or one of those in
  progress ends with any outcome of its handshake, or a connection it has admitted ends and drops its
  permit.
\<close>

datatype ('q, 'w, 'r, 'e, 'v, 't) endpoint_event =
    StartEvent wire_side "('v, 't) control_profile"
  | FinishEvent nat "nat \<Rightarrow> bool" "('q, 'w, 'r) bootstrap_ops" "('q, 'e profile_connection_error) result awaited"
  | EndEvent

fun endpoint_event_ok :: "('w \<Rightarrow> bytes) \<Rightarrow> ('r \<Rightarrow> bytes) \<Rightarrow> ('q, 'w, 'r, 'e, 'v, 't) endpoint_event \<Rightarrow> bool" where
  "endpoint_event_ok sent taken (StartEvent side profile) \<longleftrightarrow> settings_ok (cp_local_settings profile)"
| "endpoint_event_ok sent taken (FinishEvent k alloc bo handshake) \<longleftrightarrow>
     bootstrap_law bo sent taken \<and> handshake \<noteq> Done (Err ConnectionAtCapacity)"
| "endpoint_event_ok sent taken EndEvent \<longleftrightarrow> True"

text \<open>The endpoint, its admissions in progress, and how many of the connections it has admitted are alive.\<close>

fun endpoint_step ::
  "('v, 't) configured_endpoint \<times> (wire_side \<times> ('v, 't) control_profile) list \<times> nat \<Rightarrow>
     ('q, 'w, 'r, 'e, 'v, 't) endpoint_event \<Rightarrow>
     (('v, 't) configured_endpoint \<times> (wire_side \<times> ('v, 't) control_profile) list \<times> nat) exec" where
  "endpoint_step (ep, busy, alive) (StartEvent side profile) =
     Some (case claim_slot side ep profile :: (unit, 'e profile_connection_error) result \<times> _ of
         (Ok _, ep) \<Rightarrow> (ep, busy @ [(side, profile)], alive)
       | (Err _, ep) \<Rightarrow> (ep, busy, alive))"
| "endpoint_step (ep, busy, alive) (FinishEvent k alloc bo handshake) =
     (if k < length busy
      then do {
        (x, ep) \<leftarrow> admit_handshake alloc bo (fst (busy ! k)) (snd (busy ! k)) handshake ep;
        Some (ep, take k busy @ drop (Suc k) busy, case x of Done (Ok _) \<Rightarrow> alive + 1 | _ \<Rightarrow> alive) }
      else Some (ep, busy, alive))"
| "endpoint_step (ep, busy, alive) EndEvent =
     Some (if alive = 0 then (ep, busy, 0) else (ep\<lparr>ce_slots := permit_drop (ce_slots ep)\<rparr>, busy, alive - 1))"

definition slots_ok ::
  "('v, 't) configured_endpoint \<Rightarrow> ('v, 't) configured_endpoint \<times> (wire_side \<times> ('v, 't) control_profile) list \<times> nat \<Rightarrow> bool"
  where
  "slots_ok ep0 = (\<lambda>(ep, busy, alive). cs_active (ce_slots ep) = length busy + alive
     \<and> length busy + alive \<le> cs_max (ce_slots ep0) \<and> cs_max (ce_slots ep) = cs_max (ce_slots ep0)
     \<and> ce_side ep = ce_side ep0 \<and> ce_resources ep = ce_resources ep0
     \<and> (\<forall>a\<in>set busy. settings_ok (cp_local_settings (snd a))))"

lemma endpoint_step_ok:
  fixes x :: "('q, 'w, 'r, 'e, 'v, 't) endpoint_event"
  assumes ok: "slots_ok ep0 s" and x: "endpoint_event_ok sent taken x"
  shows "\<exists>s'. endpoint_step s x = Some s' \<and> slots_ok ep0 s'"
proof -
  obtain ep busy alive where s: "s = (ep, busy, alive)" by (cases s)
  have ok': "cs_active (ce_slots ep) = length busy + alive" "length busy + alive \<le> cs_max (ce_slots ep0)"
    "cs_max (ce_slots ep) = cs_max (ce_slots ep0)"
    "ce_side ep = ce_side ep0" "ce_resources ep = ce_resources ep0" "\<forall>a\<in>set busy. settings_ok (cp_local_settings (snd a))"
    using ok by (simp_all add: s slots_ok_def)
  show ?thesis
  proof (cases x)
    case (StartEvent side profile)
    then show ?thesis
      using ok' x
      by (auto simp: s slots_ok_def claim_slot_def slots_try_acquire_def split: result.split if_splits)
  next
    case (FinishEvent k alloc bo handshake)
    show ?thesis
    proof (cases "k < length busy")
      case True
      have law: "bootstrap_law bo sent taken" "settings_ok (cp_local_settings (snd (busy ! k)))"
        "\<forall>e. handshake = Done (Err e) \<longrightarrow> e \<noteq> ConnectionAtCapacity"
        using x FinishEvent ok'(6) True by auto
      obtain y where y: "admit_handshake alloc bo (fst (busy ! k)) (snd (busy ! k)) handshake ep
          = Some (y, ep\<lparr>ce_slots := keep_permit y (ce_slots ep)\<rparr>)"
        using admit_handshake_returns[OF law, of alloc "fst (busy ! k)" ep] by blast
      have left: "set (take k busy @ drop (Suc k) busy) \<subseteq> set busy" by (simp add: set_take_subset set_drop_subset)
      have "length (take k busy @ drop (Suc k) busy) = length busy - 1" "0 < length busy" using True by (simp, linarith)
      then show ?thesis
        using ok' y True left
        by (auto simp: s FinishEvent slots_ok_def keep_permit_def permit_drop_def split: awaited.split result.split)
    qed (use ok FinishEvent s in simp)
  next
    case EndEvent
    then show ?thesis using ok' by (auto simp: s slots_ok_def permit_drop_def)
  qed
qed

interpretation endpoint_machine: guarded_machine "endpoint_step" "slots_ok ep0" "endpoint_event_ok sent taken" for ep0 sent taken
  by unfold_locales (rule endpoint_step_ok)

lemma connect_split:
  fixes bo :: "('q, 'w, 'r) bootstrap_ops" and connecting :: "(('q, connection_error) result awaited, 'e) result"
  assumes "bootstrap_law bo sent taken" "settings_ok (cp_local_settings profile)"
  shows "\<exists>x ep'. connect_profile_ready alloc bo ep profile connecting = Some (x, ep')
    \<and> (x = Done (Err ConnectionAtCapacity) \<longleftrightarrow>
         validate_preflight (ce_side ep) (ce_resources ep) profile Client = Ok () \<and> cs_max (ce_slots ep) \<le> cs_active (ce_slots ep))
    \<and> (case claim_slot Client ep profile of
         (Err e, ep1) \<Rightarrow> x = Done (Err e) \<and> ep' = ep1
       | (Ok _, ep1) \<Rightarrow> \<exists>h. admit_handshake alloc bo Client profile h ep1 = Some (x, ep'))"
proof -
  obtain x ep' where x: "connect_profile_ready alloc bo ep profile connecting = Some (x, ep')"
    "x = Done (Err ConnectionAtCapacity) \<longleftrightarrow> validate_preflight (ce_side ep) (ce_resources ep) profile Client = Ok ()
       \<and> cs_max (ce_slots ep) \<le> cs_active (ce_slots ep)"
    using connect_counts[OF assms, of alloc ep connecting] by blast
  have "case claim_slot Client ep profile of
         (Err e, ep1) \<Rightarrow> x = Done (Err e) \<and> ep' = ep1
       | (Ok _, ep1) \<Rightarrow> \<exists>h. admit_handshake alloc bo Client profile h ep1 = Some (x, ep')"
    using x(1) unfolding connect_claims by (auto split: prod.splits result.splits)
  then show ?thesis using x by simp
qed

lemma accept_split:
  fixes bo :: "('q, 'w, 'r) bootstrap_ops"
  assumes "bootstrap_law bo sent taken" "settings_ok (cp_local_settings profile)"
  shows "\<exists>(x :: (_, 'e profile_connection_error) result option awaited) ep'.
      accept_profile_ready alloc bo ep profile incoming = Some (x, ep')
    \<and> (x = Done (Some (Err ConnectionAtCapacity)) \<longleftrightarrow>
         validate_preflight (ce_side ep) (ce_resources ep) profile Server = Ok () \<and> cs_max (ce_slots ep) \<le> cs_active (ce_slots ep)
         \<and> (\<exists>y. incoming = Done (Some y)))
    \<and> (\<forall>y. incoming = Done (Some y) \<longrightarrow>
         (case claim_slot Server ep profile of
            (Err e, ep1) \<Rightarrow> x = Done (Some (Err e)) \<and> ep' = ep1
          | (Ok _, ep1) \<Rightarrow> \<exists>h z. admit_handshake alloc bo Server profile h ep1 = Some (z, ep')
              \<and> x = (case z of Cancelled \<Rightarrow> Cancelled | Done r \<Rightarrow> Done (Some r))))"
proof -
  obtain x :: "('q \<times> ('w, 'r) profile_ready, 'e profile_connection_error) result option awaited" and ep' where
    x: "accept_profile_ready alloc bo ep profile incoming = Some (x, ep')"
    "x = Done (Some (Err ConnectionAtCapacity)) \<longleftrightarrow> validate_preflight (ce_side ep) (ce_resources ep) profile Server = Ok ()
       \<and> cs_max (ce_slots ep) \<le> cs_active (ce_slots ep) \<and> (\<exists>y. incoming = Done (Some y))"
    using accept_counts[where 'e = 'e, OF assms, of alloc ep incoming] by blast
  have claim: "case claim_slot Server ep profile of
            (Err e, ep1) \<Rightarrow> x = Done (Some (Err e)) \<and> ep' = ep1
          | (Ok _, ep1) \<Rightarrow> \<exists>h z. admit_handshake alloc bo Server profile h ep1 = Some (z, ep')
              \<and> x = (case z of Cancelled \<Rightarrow> Cancelled | Done r \<Rightarrow> Done (Some r))"
    if "incoming = Done (Some y)" for y
    using x(1) unfolding that accept_claims by (auto simp: bind_eq_Some_conv split: prod.splits result.splits)
  show ?thesis
    by (rule exI[of _ x], rule exI[of _ ep']) (intro conjI allI impI x claim; assumption)
qed

text \<open>
  C24: Slots are counted exactly, with admissions overlapping in any way. Whatever admissions start on
  an endpoint and end, in whatever order and with whatever outcome, and whatever connections end, the
  slots in use are the admissions in progress and the connections that have been admitted and have not
  ended, never more than the maximum; a failed or abandoned admission gives its slot back. A connection
  that the host asks for or accepts is turned away for lack of a slot if and only if its preflight
  passes, there is one to accept, and these are as many as the maximum. Asking for a connection and
  accepting one are such a start and, when it has claimed a slot, such an end.
\<close>

theorem slots_exact:
  fixes xs :: "('q, 'w, 'r, 'e, 'v, 't) endpoint_event list"
  assumes fresh: "ce_slots ep0 = connection_slots_new n" and events: "list_all (endpoint_event_ok sent taken) xs"
  shows "\<exists>ep busy alive. run_ops endpoint_step (ep0, [], 0) xs = Some (ep, busy, alive)
    \<and> cs_active (ce_slots ep) = length busy + alive \<and> length busy + alive \<le> n
    \<and> (\<forall>alloc (bo :: ('q, 'w, 'r) bootstrap_ops) profile (connecting :: (_, 'e) result).
         bootstrap_law bo sent taken \<and> settings_ok (cp_local_settings profile) \<longrightarrow>
         (\<exists>x ep'. connect_profile_ready alloc bo ep profile connecting = Some (x, ep')
            \<and> (x = Done (Err ConnectionAtCapacity) \<longleftrightarrow>
                 validate_preflight (ce_side ep0) (ce_resources ep0) profile Client = Ok () \<and> length busy + alive = n)
            \<and> (case claim_slot Client ep profile of
                 (Err e, ep1) \<Rightarrow> x = Done (Err e) \<and> ep' = ep1
               | (Ok _, ep1) \<Rightarrow> \<exists>h. admit_handshake alloc bo Client profile h ep1 = Some (x, ep'))))
    \<and> (\<forall>alloc (bo :: ('q, 'w, 'r) bootstrap_ops) profile incoming.
         bootstrap_law bo sent taken \<and> settings_ok (cp_local_settings profile) \<longrightarrow>
         (\<exists>(x :: (_, 'e profile_connection_error) result option awaited) ep'.
            accept_profile_ready alloc bo ep profile incoming = Some (x, ep')
            \<and> (x = Done (Some (Err ConnectionAtCapacity)) \<longleftrightarrow>
                 validate_preflight (ce_side ep0) (ce_resources ep0) profile Server = Ok () \<and> length busy + alive = n
                 \<and> (\<exists>y. incoming = Done (Some y)))
            \<and> (\<forall>y. incoming = Done (Some y) \<longrightarrow>
                 (case claim_slot Server ep profile of
                    (Err e, ep1) \<Rightarrow> x = Done (Some (Err e)) \<and> ep' = ep1
                  | (Ok _, ep1) \<Rightarrow> \<exists>h z. admit_handshake alloc bo Server profile h ep1 = Some (z, ep')
                      \<and> x = (case z of Cancelled \<Rightarrow> Cancelled | Done r \<Rightarrow> Done (Some r))))))"
proof -
  have start: "slots_ok ep0 (ep0, [], 0)" using fresh by (simp add: slots_ok_def connection_slots_new_def)
  obtain ep busy alive where s: "run_ops endpoint_step (ep0, [], 0) xs = Some (ep, busy, alive)" "slots_ok ep0 (ep, busy, alive)"
    using endpoint_machine.run_good[OF start events] by auto
  have count: "cs_active (ce_slots ep) = length busy + alive" "length busy + alive \<le> n" "cs_max (ce_slots ep) = n"
    "ce_side ep = ce_side ep0" "ce_resources ep = ce_resources ep0"
    using s(2) fresh by (simp_all add: slots_ok_def connection_slots_new_def)
  have full: "cs_max (ce_slots ep) \<le> cs_active (ce_slots ep) \<longleftrightarrow> length busy + alive = n" using count(1-3) by auto
  show ?thesis
    by (rule exI[of _ ep], rule exI[of _ busy], rule exI[of _ alive], unfold count(4,5)[symmetric] full[symmetric])
      (intro conjI s(1) count(1,2) allI impI connect_split[where sent = sent and taken = taken]
        accept_split[where sent = sent and taken = taken]; simp)
qed

section \<open>Teardown\<close>

lemma exchange_abort_releases:
  assumes "exchange_ok x m"
  shows "\<exists>x' m'. exchange_abort x m = Some (Ok (), x', m') \<and> \<not> manager_knows m' (nx_connection x)
    \<and> same_elsewhere (nx_connection x) m m' \<and> manager_ok m'"
proof -
  obtain x' m' where r: "release_manager (x\<lparr>nx_local_offer := None, nx_state := NxFailed\<rparr>) m = Some (Ok (), x', m')"
    "exchange_ok x' m'" "same_elsewhere (nx_connection x) m m'" "nx_connection x' = nx_connection x" "nx_state x' = NxFailed"
    by (rule release_good[OF exchange_ok_releasable[OF assms]])
  then show ?thesis by (simp add: exchange_abort_def exchange_ok_def unowned_def)
qed

text \<open>
  C25: The end of a driver leaves nothing behind. Its teardown takes exactly the flows of its
  connection out of the core and its negotiation attempt out of the manager, with those of every other
  connection untouched, gives the slot back, and closes the connection without an error unless it is
  closed already; on a valid endpoint and a valid manager no part of it fails.
\<close>

theorem driver_teardown_releases:
  fixes d :: "('q, 'w, 'f, 'r) connection_driver"
  assumes "endpoint_run l calls = Some ep" and "exchange_ok x m"
    and "cd_teardown d = \<lparr>et_connection = c, et_exchange = x\<rparr>"
  shows "\<exists>q t m' ep'. driver_teardown io d m ep slots = Some (q, t, m', ep', permit_drop slots)
    \<and> (\<forall>k. fmlookup (de_flows ep') k = (if fk_connection k = c then None else fmlookup (de_flows ep) k))
    \<and> \<not> manager_knows m' (nx_connection x) \<and> same_elsewhere (nx_connection x) m m'
    \<and> td_connection t = c \<and> td_negotiation_cleanup_error t = None
    \<and> q = (case qn_close_reason (op_quinn io) (cd_quinn d) of
        (None, q) \<Rightarrow> qn_close (op_quinn io) q (code_wire NoError) ESTABLISHED_TEARDOWN_CLOSE_REASON
      | (Some _, q) \<Rightarrow> q)"
proof -
  obtain ts ep' where ts: "terminate_connection ep c = Some (ts, ep')"
    "de_flows ep' = fmfilter (\<lambda>k. fk_connection k \<noteq> c) (de_flows ep)"
    using terminate_connection_ok[OF endpoint_run_ok[OF assms(1)]] by blast
  obtain x' m' where m': "exchange_abort x m = Some (Ok (), x', m')" "\<not> manager_knows m' (nx_connection x)"
    "same_elsewhere (nx_connection x) m m'"
    using exchange_abort_releases[OF assms(2)] by blast
  show ?thesis
    using ts m'
    by (simp add: assms(3) driver_teardown_def established_teardown_run_def teardown_connection_def Let_def)
qed

section \<open>From an admitted connection to its driver\<close>

abbreviation driver_of ::
  "('q, 'w, 'r) flow_controlled_connection \<Rightarrow> nat \<Rightarrow> nat \<Rightarrow> ('q, 'w, 'f, 'r) connection_driver" where
  "driver_of fcc scratch staging \<equiv> into_connection_driver (reliable_into_established_io (into_reliable_io fcc scratch staging))"

lemma ready_starts:
  assumes "ready_ok ready" "endpoint_ok lim ep"
  shows "\<exists>fcc. into_flow_control \<lparr>cc_connection = c, cc_quinn = q, cc_profile = ready, cc_exchange = x\<rparr> = Ok fcc
    \<and> driver_ok io rlog lim (fcc_flow_control fcc) (driver_of fcc scratch staging, ep)
    \<and> cd_phase (driver_of fcc scratch staging) = DriverActive"
proof -
  have ok: "settings_ok (ct_local_settings (pr_sender ready))" "settings_ok (pr_peer_settings ready)"
    using assms(1) by (simp_all add: ready_ok_def)
  obtain fc where fc: "flow_control_new c (pr_side ready) (ct_local_settings (pr_sender ready)) (pr_peer_settings ready) = Ok fc"
    "flow_control_ok fc"
    using flow_control_new_ok[OF ok] by blast
  show ?thesis
    using fc assms
    by (simp add: into_flow_control_def flow_control_from_profile_def into_reliable_io_def reliable_into_established_io_def
        into_established_io_def core_into_established_io_def into_connection_driver_def driver_ok_def resources_ok_def
        flow_pair_ok_def reliable_ok_def datagram_ok_def phase_ok_def sender_live_def receiver_live_def ready_ok_def
        reliable_io_new_def datagram_io_new_def pending_ids_def active_ids_def Let_def)
qed

lemma admitted_ready:
  fixes bo :: "('q, 'w, 'r) bootstrap_ops" and connecting :: "(('q, connection_error) result awaited, 'e) result"
  assumes law: "bootstrap_law bo sent taken" and ok: "settings_ok (cp_local_settings profile)"
    and "connect_profile_ready alloc bo ep profile connecting = Some (Done (Ok (q, ready)), ep')
      \<or> accept_profile_ready alloc bo ep profile incoming
          = Some (Done (Some (Ok (q, ready) :: (_, 'e profile_connection_error) result)), ep')"
  shows "ready_ok ready"
  using assms(3)
proof
  assume run: "connect_profile_ready alloc bo ep profile connecting = Some (Done (Ok (q, ready)), ep')"
  show ?thesis
    using connect_counts[OF law ok, of alloc ep connecting] unfolding run by (elim exE conjE) simp
next
  assume run: "accept_profile_ready alloc bo ep profile incoming
      = Some (Done (Some (Ok (q, ready) :: (_, 'e profile_connection_error) result)), ep')"
  show ?thesis
    using accept_counts[where 'e = 'e, OF law ok, of alloc ep incoming] unfolding run by (elim exE conjE) simp
qed

section \<open>An endpoint and its connections\<close>

definition demo_quinn :: "(unit, bytes, bytes \<times> bytes) quinn_ops" where
  "demo_quinn = \<lparr>qn_close = (\<lambda>q _ _. q), qn_close_reason = (\<lambda>q. (None, q)), qn_max_datagram_size = (\<lambda>q. (Some 1200, q)),
     qn_poll_open_uni = (\<lambda>q. (Pending, q)), qn_poll_accept_uni = (\<lambda>q. (Pending, q)),
     qn_poll_read_datagram = (\<lambda>q. (Pending, q))\<rparr>"

definition demo_bootstrap :: "(unit, bytes, bytes \<times> bytes) bootstrap_ops" where
  "demo_bootstrap = \<lparr>bo_handshake_data = (\<lambda>_. Some (Some (Some RUNENNET_ALPN))), bo_max_datagram_size = (\<lambda>_. Some 1200),
     bo_side = (\<lambda>_. Client), bo_open_bi = (\<lambda>_. Done (Ok ([], (demo_settings_bytes 1, [])))),
     bo_accept_bi = (\<lambda>_. Cancelled), bo_is_0rtt = (\<lambda>_. False), bo_send = demo_send, bo_recv = demo_recv,
     bo_quinn = demo_quinn\<rparr>"

definition demo_resources :: "(nat, nat) endpoint_resources" where
  "demo_resources = \<lparr>er_max_connections = 1, er_max_active_incoming_flows = 4, er_udp_payload_ceiling = 1200,
     er_stream_receive_window = 4096, er_connection_receive_window = 8192, er_send_window = 8192,
     er_crypto_buffer_bytes = 4096, er_datagram_receive_buffer_bytes = 4096, er_datagram_send_buffer_bytes = 4096,
     er_max_idle_timeout = 30\<rparr>"

definition demo_control_profile :: "(nat, nat) control_profile" where
  "demo_control_profile = \<lparr>cp_resources = demo_resources, cp_local_settings = demo_settings NonAuthority\<rparr>"

definition demo_configured :: "(nat, nat) configured_endpoint" where
  "demo_configured = \<lparr>ce_side = Client, ce_resources = demo_resources, ce_slots = connection_slots_new 1\<rparr>"

definition demo_connecting :: "((unit, connection_error) result awaited, unit) result" where
  "demo_connecting = Ok (Done (Ok ()))"

lemma demo_bootstrap_law: "bootstrap_law demo_bootstrap id snd"
  using demo_send_law demo_recv_law by (simp add: bootstrap_law_def demo_bootstrap_def)

lemma demo_profile_ok: "settings_ok (cp_local_settings demo_control_profile)"
  by (simp add: demo_control_profile_def demo_settings_ok)

lemma demo_connection_admitted:
  "\<exists>ready ep'. connect_profile_ready (\<lambda>_. True) demo_bootstrap demo_configured demo_control_profile demo_connecting
     = Some (Done (Ok ((), ready)), ep')"
proof -
  obtain ready where "demo_client = Some ready" using demo_client_run by (cases demo_client) simp_all
  then have "bootstrap_client_control (\<lambda>_. True) demo_send demo_recv Client
      (Done (Ok ([], (demo_settings_bytes 1, [])))) (\<lambda>_. False) (demo_settings NonAuthority) = Some (Done (Ok ready))"
    by (auto simp: demo_client_def split: option.splits awaited.splits result.splits)
  then show ?thesis
    by (simp add: connect_profile_ready_def demo_configured_def validate_preflight_def demo_control_profile_def
        slots_try_acquire_def connection_slots_new_def demo_connecting_def admit_handshake_def establish_profile_ready_def
        demo_bootstrap_def confirm_profile_transport_def bootstrap_outcome_def)
qed

text \<open>A second admission is turned away while the first is still in progress, and admitted after its end.\<close>

definition demo_lifecycle :: "(unit, bytes, bytes \<times> bytes, unit, nat, nat) endpoint_event list" where
  "demo_lifecycle =
     [StartEvent Client demo_control_profile, StartEvent Client demo_control_profile,
      FinishEvent 0 (\<lambda>_. True) demo_bootstrap (Done (Err (HandshakeFailed OtherConnectionError))),
      StartEvent Client demo_control_profile]"

theorem slots_exact_witness:
  "\<exists>ep busy alive. run_ops endpoint_step (demo_configured, [], 0) demo_lifecycle = Some (ep, busy, alive)
     \<and> cs_active (ce_slots ep) = length busy + alive \<and> length busy + alive \<le> 1 \<and> length busy = 1"
proof -
  have "run_ops endpoint_step (demo_configured, [], 0) demo_lifecycle
      = Some (demo_configured\<lparr>ce_slots := \<lparr>cs_max = 1, cs_active = 1\<rparr>\<rparr>, [(Client, demo_control_profile)], 0)"
    by (simp add: demo_lifecycle_def claim_slot_def demo_configured_def validate_preflight_def demo_control_profile_def
        slots_try_acquire_def connection_slots_new_def admit_handshake_def keep_permit_def permit_drop_def)
  then show ?thesis
    using slots_exact[of demo_configured 1 id snd demo_lifecycle] demo_bootstrap_law demo_profile_ok
    by (auto simp: demo_lifecycle_def demo_configured_def)
qed

definition demo_ready :: "(bytes, bytes \<times> bytes) profile_ready" where
  "demo_ready = \<lparr>pr_side = Client, pr_peer_settings = demo_settings Authority,
     pr_sender = \<lparr>ct_send = [], ct_local_settings = demo_settings NonAuthority, ct_peer_settings = demo_settings Authority,
       ct_io_state = Clean\<rparr>,
     pr_receiver = \<lparr>cr_recv = ([], []), cr_local_settings = demo_settings NonAuthority, cr_io_state = Clean\<rparr>\<rparr>"

lemma demo_ready_ok: "ready_ok demo_ready"
  by (simp add: ready_ok_def demo_ready_def demo_settings_ok)

definition demo_driver_ops :: "(unit, bytes, unit, bytes \<times> bytes) driver_ops" where
  "demo_driver_ops = \<lparr>op_quinn = demo_quinn, op_writer = demo_writer, op_reader = demo_reader, op_send = demo_send,
     op_recv = demo_recv,
     op_datagram = \<lparr>dgt_max_size = (\<lambda>w. (Some 1200, w)), dgt_space = (\<lambda>w. (2400, w)), dgt_send = (\<lambda>w bs. (Ok (), w))\<rparr>,
     op_alloc = (\<lambda>_. True)\<rparr>"

lemma demo_driver_law: "driver_law demo_driver_ops snd"
  using demo_reader_law by (simp add: driver_law_def demo_driver_ops_def demo_quinn_def)

definition demo_turn :: driver_turn where
  "demo_turn = \<lparr>tu_send_done = False, tu_receive_done = False, tu_flow = demo_allocs, tu_reserve = True, tu_scratch = True\<rparr>"

definition demo_flow_controlled :: "(unit, bytes, bytes \<times> bytes) flow_controlled_connection" where
  "demo_flow_controlled = (case into_flow_control \<lparr>cc_connection = ConnectionHandle 3, cc_quinn = (), cc_profile = demo_ready,
     cc_exchange = demo_end NonAuthority\<rparr> of Ok fcc \<Rightarrow> fcc)"

definition demo_connection_driver :: "(unit, bytes, unit, bytes \<times> bytes) connection_driver" where
  "demo_connection_driver = driver_of demo_flow_controlled 16 16"

lemma demo_connection_driver_ok:
  assumes "endpoint_ok lim ep"
  shows "driver_ok demo_driver_ops snd lim (fcc_flow_control demo_flow_controlled) (demo_connection_driver, ep)"
    and "cd_phase demo_connection_driver = DriverActive" "cd_sender demo_connection_driver = ControlSendReady (pr_sender demo_ready)"
    and "cd_teardown demo_connection_driver = \<lparr>et_connection = ConnectionHandle 3, et_exchange = demo_end NonAuthority\<rparr>"
proof -
  obtain fcc where fcc: "into_flow_control \<lparr>cc_connection = ConnectionHandle 3, cc_quinn = (), cc_profile = demo_ready,
     cc_exchange = demo_end NonAuthority\<rparr> = Ok fcc"
    "driver_ok demo_driver_ops snd lim (fcc_flow_control fcc) (driver_of fcc 16 16, ep)"
    using ready_starts[OF demo_ready_ok assms, of "ConnectionHandle 3" "()" "demo_end NonAuthority" demo_driver_ops snd 16 16]
    by blast
  then have fcc': "demo_flow_controlled = fcc" by (simp add: demo_flow_controlled_def)
  show "driver_ok demo_driver_ops snd lim (fcc_flow_control demo_flow_controlled) (demo_connection_driver, ep)"
    using fcc(2) by (simp add: fcc' demo_connection_driver_def)
  have "fcc_core fcc = \<lparr>cc_connection = ConnectionHandle 3, cc_quinn = (), cc_profile = demo_ready,
     cc_exchange = demo_end NonAuthority\<rparr>"
    using fcc(1) by (auto simp: into_flow_control_def split: result.splits)
  then show "cd_phase demo_connection_driver = DriverActive" "cd_sender demo_connection_driver = ControlSendReady (pr_sender demo_ready)"
    "cd_teardown demo_connection_driver = \<lparr>et_connection = ConnectionHandle 3, et_exchange = demo_end NonAuthority\<rparr>"
    by (simp_all add: demo_connection_driver_def fcc' into_reliable_io_def reliable_into_established_io_def
        into_established_io_def core_into_established_io_def into_connection_driver_def Let_def)
qed

theorem driver_teardown_releases_witness:
  "\<exists>q t m' ep'. driver_teardown demo_driver_ops demo_connection_driver demo_manager (endpoint_new demo_limits)
       (connection_slots_new 1) = Some (q, t, m', ep', permit_drop (connection_slots_new 1))
     \<and> \<not> manager_knows m' (ConnectionHandle 3) \<and> td_negotiation_cleanup_error t = None"
proof -
  have run: "endpoint_run demo_limits [] = Some (endpoint_new demo_limits)" by (simp add: endpoint_run_def)
  have ok: "endpoint_ok demo_limits (endpoint_new demo_limits)" by (rule endpoint_run_ok[OF run])
  show ?thesis
    using driver_teardown_releases[OF run demo_end_ok(1) demo_connection_driver_ok(4)[OF ok], of demo_driver_ops "connection_slots_new 1"]
    by (auto simp: demo_end_ok(5))
qed

end
