(* ===== verification/Driver_Contract.thy ===== *)
theory Driver_Contract
  imports Lifecycle_Contract
begin

text \<open>
  The properties of the connection driver over whole runs: it never panics, what its errors mean, what
  it serves and in which order, how it reports failures and how it ends.
\<close>

interpretation driver_machine: guarded_machine "driver_apply io"
    "\<lambda>s. driver_law io rlog \<and> driver_ok io rlog lim c0 s" "\<lambda>_. True" for io rlog lim c0
  by unfold_locales (use driver_apply_ok in blast)

section \<open>Rounds visit the categories in turn\<close>

text \<open>The indexes that a loop over \<open>is\<close> polls.\<close>

fun visited :: "('s \<Rightarrow> nat \<Rightarrow> ('r option \<times> 's) exec) \<Rightarrow> nat list \<Rightarrow> 's \<Rightarrow> nat list" where
  "visited step [] s = []"
| "visited step (i # is) s = i # (case step s i of Some (None, s') \<Rightarrow> visited step is s' | _ \<Rightarrow> [])"

lemma poll_each_visited:
  assumes "poll_each step is s = Some (r, s')"
  shows "(case r of None \<Rightarrow> visited step is s = is
    | Some x \<Rightarrow> \<exists>k < length is. visited step is s = take (Suc k) is \<and> (\<exists>s1. step s1 (is ! k) = Some (Some x, s')))"
  using assms
proof (induction "is" arbitrary: s)
  case Nil
  then show ?case by auto
next
  case (Cons i "is")
  then obtain y s1 where y: "step s i = Some (y, s1)" by (auto simp: bind_eq_Some_conv)
  show ?case
  proof (cases y)
    case None
    then have "poll_each step is s1 = Some (r, s')" using Cons.prems y by simp
    from Cons.IH[OF this] show ?thesis
      using y None by (cases r) fastforce+
  next
    case (Some x)
    then show ?thesis using Cons.prems y by (auto intro!: exI[of _ 0] exI[of _ s])
  qed
qed

definition poll_visits ::
  "('q, 'w, 'f, 'r) driver_ops \<Rightarrow> driver_turn \<Rightarrow> ('q, 'w, 'f, 'r) connection_driver \<times> delivery_endpoint \<Rightarrow> nat list" where
  "poll_visits io tu s =
     (case peer_no_error_close_observed (op_quinn io) (fst s) of (closing, d) \<Rightarrow>
        visited (poll_round_at io tu closing) (ring (cd_poll_cursor d mod DRIVER_CATEGORY_COUNT) DRIVER_CATEGORY_COUNT)
          (d, snd s))"

text \<open>The indexes that polls in a row visit.\<close>

fun served :: "('q, 'w, 'f, 'r) driver_ops \<Rightarrow> driver_turn list \<Rightarrow>
    ('q, 'w, 'f, 'r) connection_driver \<times> delivery_endpoint \<Rightarrow> nat set" where
  "served io [] s = {}"
| "served io (tu # tus) s = set (poll_visits io tu s) \<union>
     (case driver_apply io s (CallPollStep tu) of None \<Rightarrow> {} | Some s' \<Rightarrow> served io tus s')"

text \<open>How many categories a round comes by before \<open>i\<close>.\<close>

definition ahead :: "nat \<Rightarrow> ('q, 'w, 'f, 'r) connection_driver \<Rightarrow> nat" where
  "ahead i d = (i + DRIVER_CATEGORY_COUNT - cd_poll_cursor d mod DRIVER_CATEGORY_COUNT) mod DRIVER_CATEGORY_COUNT"

definition never_closed_cleanly :: "('q, 'w, 'r) quinn_ops \<Rightarrow> bool" where
  "never_closed_cleanly qo \<longleftrightarrow> (\<forall>q. fst (qn_close_reason qo q) \<noteq> Some (ApplicationClosed (ucast (code_wire NoError))))"

lemma ring_step:
  fixes s m n :: nat
  assumes "s < n" "m < n"
  shows "((s + m) mod n + n - s) mod n = m"
proof (cases "s + m < n")
  case True
  then show ?thesis using assms by simp
next
  case False
  then have "(s + m) mod n = s + m - n" using assms by (simp add: mod_if)
  then show ?thesis using assms False by simp
qed

lemma ahead_shrinks:
  fixes start n :: nat
  assumes "start < n" "i < n" "k < n" "i \<notin> set (take (Suc k) (ring start n))"
  shows "(i + n - (start + k + 1) mod n) mod n < (i + n - start) mod n"
proof -
  define j where "j = (i + n - start) mod n"
  have j: "j < n" using assms(1) by (simp add: j_def)
  have i: "(start + j) mod n = i" using assms(1,2) by (simp add: j_def mod_add_right_eq)
  have "\<not> j \<le> k"
  proof
    assume le: "j \<le> k"
    then have "j < length (take (Suc k) (ring start n))" using assms(3) by (simp add: ring_def)
    moreover have "take (Suc k) (ring start n) ! j = i" using le j i by (simp add: ring_def)
    ultimately have "i \<in> set (take (Suc k) (ring start n))" by (metis nth_mem)
    then show False using assms(4) by contradiction
  qed
  then have k: "k + 1 \<le> j" by simp
  let ?s = "(start + k + 1) mod n"
  have "(?s + (j - (k + 1))) mod n = (start + k + 1 + (j - (k + 1))) mod n" by (rule mod_add_left_eq)
  also have "start + k + 1 + (j - (k + 1)) = start + j" using k by simp
  finally have "(?s + (j - (k + 1))) mod n = i" using i by simp
  then have "(i + n - ?s) mod n = j - (k + 1)"
    using ring_step[of ?s n "j - (k + 1)"] assms(1) j by simp
  then show ?thesis using k by (simp flip: j_def)
qed

lemma poll_serves:
  assumes act: "cd_phase d = DriverActive" and quiet: "never_closed_cleanly (op_quinn io)" and i: "i < DRIVER_CATEGORY_COUNT"
    and poll: "driver_apply io (d, ep) (CallPollStep tu) = Some (d', ep')"
  shows "i \<in> set (poll_visits io tu (d, ep)) \<or> ahead i d' < ahead i d"
proof -
  obtain reason q where q: "qn_close_reason (op_quinn io) (cd_quinn d) = (reason, q)" by fastforce
  let ?d = "d\<lparr>cd_quinn := q\<rparr>"
  define start where "start = cd_poll_cursor d mod 8"
  have seen: "peer_no_error_close_observed (op_quinn io) d = (False, ?d)"
    using quiet q by (auto simp: peer_no_error_close_observed_def never_closed_cleanly_def dest: spec[of _ "cd_quinn d"])
  have visits: "poll_visits io tu (d, ep) = visited (poll_round_at io tu False) (ring start 8) (?d, ep)"
    by (simp add: poll_visits_def seen DRIVER_CATEGORY_COUNT_def start_def)
  obtain r s1 where r: "poll_each (poll_round_at io tu False) (ring start 8) (?d, ep) = Some (r, s1)"
    "case r of Some _ \<Rightarrow> s1 = (d', ep') | None \<Rightarrow> True"
    using poll act
    by (auto simp: start_def driver_poll_step_def seen poll_round_def DRIVER_CATEGORY_COUNT_def bind_eq_Some_conv Let_def
        split: option.splits)
  show ?thesis
  proof (cases r)
    case None
    then have "poll_visits io tu (d, ep) = ring start 8" using poll_each_visited[OF r(1)] visits by simp
    then show ?thesis using i by (simp add: set_ring DRIVER_CATEGORY_COUNT_def)
  next
    case (Some x)
    then obtain k s2 where k: "k < 8" "poll_visits io tu (d, ep) = take (Suc k) (ring start 8)"
      "poll_round_at io tu False s2 (ring start 8 ! k) = Some (Some x, d', ep')"
      using poll_each_visited[OF r(1)] r(2) visits by (auto simp: ring_def)
    have "cd_poll_cursor d' = next_poll_cursor ((start + k) mod 8)"
      using k(1,3) by (auto simp: poll_round_at_def ring_def bind_eq_Some_conv split: option.splits)
    moreover have start8: "start < 8" by (simp add: start_def)
    ultimately have "cd_poll_cursor d' mod 8 = (start + k + 1) mod 8"
      by (simp add: next_poll_cursor_def DRIVER_CATEGORY_COUNT_def mod_simps)
    then show ?thesis
      using ahead_shrinks[of start 8 i k] k(1,2) i start8 by (auto simp: ahead_def start_def DRIVER_CATEGORY_COUNT_def)
  qed
qed

lemma stays_active:
  assumes "run_ops (driver_apply io) (d, ep) (map CallPollStep tus) = Some (d', ep')" "cd_phase d' = DriverActive"
  shows "cd_phase d = DriverActive"
proof (rule ccontr)
  assume "cd_phase d \<noteq> DriverActive"
  then have terminal: "cd_phase d = DriverTerminal" by (cases "cd_phase d") simp_all
  then have "run_ops (driver_apply io) (d, ep) (map CallPollStep us) = Some (d, ep)" for us
    by (induction us) (simp_all add: driver_poll_step_def)
  then show False using assms terminal by simp
qed

lemma polls_serve:
  assumes "never_closed_cleanly (op_quinn io)" "i < DRIVER_CATEGORY_COUNT" "ahead i d < length tus"
    and "run_ops (driver_apply io) (d, ep) (map CallPollStep tus) = Some (d', ep')" "cd_phase d' = DriverActive"
  shows "i \<in> served io tus (d, ep)"
  using assms
proof (induction tus arbitrary: d ep)
  case Nil
  then show ?case by simp
next
  case (Cons tu tus)
  obtain d1 ep1 where s1: "driver_apply io (d, ep) (CallPollStep tu) = Some (d1, ep1)"
    "run_ops (driver_apply io) (d1, ep1) (map CallPollStep tus) = Some (d', ep')"
    using Cons.prems(4) by (cases "driver_apply io (d, ep) (CallPollStep tu)") (auto simp del: driver_apply.simps)
  have act: "cd_phase d = DriverActive" by (rule stays_active[OF Cons.prems(4,5)])
  from poll_serves[OF act Cons.prems(1,2) s1(1)] show ?case
  proof
    assume "ahead i d1 < ahead i d"
    then have "i \<in> served io tus (d1, ep1)"
      using Cons.IH[OF Cons.prems(1,2) _ s1(2) Cons.prems(5)] Cons.prems(3) by simp
    then show ?thesis using s1(1) by (simp del: driver_apply.simps)
  qed simp
qed

text \<open>
  The eight works of a driver in their order, and a round of them told without indexes: from the work
  of the cursor on, each is done in turn, except that the works on data are held back while a send on
  the control stream is under way, until one has an outcome. The log says which works the round came
  to and which of them it held back.
\<close>

datatype driver_work =
    WorkControlSend
  | WorkControlReceive
  | WorkOpenStreams
  | WorkAcceptStreams
  | WorkSendStreams
  | WorkReceiveStreams
  | WorkSendDatagrams
  | WorkReceiveDatagrams

definition all_works :: "driver_work list" where
  "all_works = [WorkControlSend, WorkControlReceive, WorkOpenStreams, WorkAcceptStreams, WorkSendStreams,
     WorkReceiveStreams, WorkSendDatagrams, WorkReceiveDatagrams]"

definition work_index :: "driver_work \<Rightarrow> nat" where
  "work_index w = (case w of WorkControlSend \<Rightarrow> 0 | WorkControlReceive \<Rightarrow> 1 | WorkOpenStreams \<Rightarrow> 2
     | WorkAcceptStreams \<Rightarrow> 3 | WorkSendStreams \<Rightarrow> 4 | WorkReceiveStreams \<Rightarrow> 5 | WorkSendDatagrams \<Rightarrow> 6
     | WorkReceiveDatagrams \<Rightarrow> 7)"

definition do_work ::
  "('q, 'w, 'f, 'r) driver_ops \<Rightarrow> driver_turn \<Rightarrow> driver_work \<Rightarrow> ('q, 'w, 'f, 'r) connection_driver \<Rightarrow> delivery_endpoint \<Rightarrow>
     (driver_step, 'q, 'w, 'f, 'r) driver_op" where
  "do_work io tu w d ep =
     (case w of
        WorkControlSend \<Rightarrow> poll_control_send io tu d ep
      | WorkControlReceive \<Rightarrow> poll_control_receive io tu d ep
      | WorkOpenStreams \<Rightarrow> poll_reliable_outbound_acquisition io tu d ep
      | WorkAcceptStreams \<Rightarrow> poll_reliable_inbound_acquisition io tu d ep
      | WorkSendStreams \<Rightarrow> poll_reliable_outbound io tu d ep
      | WorkReceiveStreams \<Rightarrow> poll_reliable_inbound io tu d ep
      | WorkSendDatagrams \<Rightarrow> drive_datagram_outbound io tu d ep
      | WorkReceiveDatagrams \<Rightarrow> poll_datagram_inbound io tu d ep)"

definition held_back :: "driver_work \<Rightarrow> ('q, 'w, 'f, 'r) connection_driver \<Rightarrow> bool" where
  "held_back w d \<longleftrightarrow> w \<noteq> WorkControlSend \<and> w \<noteq> WorkControlReceive \<and> \<not> data_poll_allowed d"

fun try_works ::
  "('q, 'w, 'f, 'r) driver_ops \<Rightarrow> driver_turn \<Rightarrow> driver_work list \<Rightarrow> ('q, 'w, 'f, 'r) connection_driver \<Rightarrow> delivery_endpoint \<Rightarrow>
     ((driver_work \<times> bool) list \<times> (connection_progress, driver_error) result option
       \<times> ('q, 'w, 'f, 'r) connection_driver \<times> delivery_endpoint) exec" where
  "try_works io tu [] d ep = Some ([], None, d, ep)"
| "try_works io tu (w # ws) d ep = do {
     let entry = (w, held_back w d);
     (x, d, ep) \<leftarrow> (if held_back w d then Some (StepNone, d, ep) else do_work io tu w d ep);
     (case step_outcome x of
        Some r \<Rightarrow> Some ([entry], Some r, d, ep)
      | None \<Rightarrow> do {
          (entries, r, s) \<leftarrow> try_works io tu ws d ep;
          Some (entry # entries, r, s) }) }"

definition work_turn ::
  "('q, 'w, 'f, 'r) driver_ops \<Rightarrow> driver_turn \<Rightarrow> ('q, 'w, 'f, 'r) connection_driver \<times> delivery_endpoint \<Rightarrow>
     ((driver_work \<times> bool) list \<times> (connection_progress, driver_error) result poll
       \<times> ('q, 'w, 'f, 'r) connection_driver \<times> delivery_endpoint) exec" where
  "work_turn io tu s = do {
     let d = (fst s)\<lparr>cd_quinn := snd (qn_close_reason (op_quinn io) (cd_quinn (fst s)))\<rparr>;
     let start = cd_poll_cursor d mod 8;
     (entries, r, d, ep) \<leftarrow> try_works io tu (rotate start all_works) d (snd s);
     Some (entries, (case r of None \<Rightarrow> Pending | Some r \<Rightarrow> Ready r),
       d\<lparr>cd_poll_cursor := Suc (if r = None then start else work_index (fst (List.last entries))) mod 8\<rparr>, ep) }"

fun work_turns ::
  "('q, 'w, 'f, 'r) driver_ops \<Rightarrow> driver_turn list \<Rightarrow> ('q, 'w, 'f, 'r) connection_driver \<times> delivery_endpoint \<Rightarrow>
     ((driver_work \<times> bool) list \<times> (connection_progress, driver_error) result poll list
       \<times> ('q, 'w, 'f, 'r) connection_driver \<times> delivery_endpoint) exec" where
  "work_turns io [] s = Some ([], [], s)"
| "work_turns io (tu # tus) s = do {
     (entries, x, s) \<leftarrow> work_turn io tu s;
     (later, xs, s) \<leftarrow> work_turns io tus s;
     Some (entries @ later, x # xs, s) }"

fun driver_polls ::
  "('q, 'w, 'f, 'r) driver_ops \<Rightarrow> driver_turn list \<Rightarrow> ('q, 'w, 'f, 'r) connection_driver \<times> delivery_endpoint \<Rightarrow>
     ((connection_progress, driver_error) result poll list \<times> ('q, 'w, 'f, 'r) connection_driver \<times> delivery_endpoint) exec"
  where
  "driver_polls io [] s = Some ([], s)"
| "driver_polls io (tu # tus) s = do {
     (x, s) \<leftarrow> driver_poll_step io tu (fst s) (snd s);
     (xs, s) \<leftarrow> driver_polls io tus s;
     Some (x # xs, s) }"

lemma work_index_less: "work_index w < 8"
  by (simp add: work_index_def split: driver_work.split)

lemma all_works_indexes: "map work_index all_works = [0..<8]" "set all_works = UNIV" "inj work_index"
proof -
  show "map work_index all_works = [0..<8]" by (simp add: all_works_def work_index_def upt_rec)
  show "set all_works = UNIV"
  proof (intro equalityI subsetI UNIV_I)
    show "w \<in> set all_works" for w by (cases w) (simp_all add: all_works_def)
  qed
  show "inj work_index" by (rule injI) (auto simp: work_index_def split: driver_work.splits)
qed

lemma rotate_ring: "start < n \<Longrightarrow> rotate start [0..<n] = ring start n"
  by (rule nth_equalityI) (simp_all add: ring_def nth_rotate)

lemma category_work:
  "poll_category io tu False d ep (work_index w)
     = (if held_back w d then Some (StepNone, d, ep) else do_work io tu w d ep)"
  by (cases w) (simp_all add: poll_category_def poll_data_category_def work_index_def held_back_def do_work_def)

lemma poll_each_works:
  "poll_each (poll_round_at io tu False) (map work_index ws) (d, ep)
     = map_option (\<lambda>(entries, r, d, ep).
         (r, (if r = None then d else d\<lparr>cd_poll_cursor := Suc (work_index (fst (List.last entries))) mod 8\<rparr>), ep))
         (try_works io tu ws d ep)"
proof (induction ws arbitrary: d ep)
  case (Cons w ws)
  show ?case
  proof (cases "poll_category io tu False d ep (work_index w)")
    case (Some z)
    obtain x d1 ep1 where z: "z = (x, d1, ep1)" by (cases z)
    show ?thesis
    proof (cases "step_outcome x")
      case None
      have "entries \<noteq> []" if "try_works io tu ws d1 ep1 = Some (entries, Some r, s)" for entries r s
        using that by (cases ws) (auto simp: bind_eq_Some_conv Let_def split: option.splits if_splits)
      then show ?thesis
        using Some Cons[of d1 ep1] None
        by (cases "try_works io tu ws d1 ep1")
          (auto simp: poll_round_at_def category_work[symmetric] z Let_def split: option.splits)
    qed (simp add: poll_round_at_def Some category_work[symmetric] z Let_def next_poll_cursor_def DRIVER_CATEGORY_COUNT_def)
  qed (simp add: poll_round_at_def category_work[symmetric] Let_def)
qed simp

lemma visited_works:
  assumes "try_works io tu ws d ep = Some (entries, s)"
  shows "visited (poll_round_at io tu False) (map work_index ws) (d, ep) = map (work_index \<circ> fst) entries"
  using assms
proof (induction ws arbitrary: d ep entries)
  case (Cons w ws)
  obtain x d1 ep1 where z: "poll_category io tu False d ep (work_index w) = Some (x, d1, ep1)"
    using Cons.prems by (cases "poll_category io tu False d ep (work_index w)") (auto simp: category_work[symmetric])
  show ?case
    using Cons.prems Cons.IH[of d1 ep1] z
    by (cases "step_outcome x") (auto simp: poll_round_at_def category_work[symmetric] Let_def bind_eq_Some_conv)
qed simp

lemma poll_turn:
  assumes "cd_phase d = DriverActive" "never_closed_cleanly (op_quinn io)"
  shows "driver_poll_step io tu d ep = map_option snd (work_turn io tu (d, ep))"
    and "work_turn io tu (d, ep) = Some (entries, s) \<Longrightarrow> poll_visits io tu (d, ep) = map (work_index \<circ> fst) entries"
proof -
  obtain reason q where q: "qn_close_reason (op_quinn io) (cd_quinn d) = (reason, q)" by fastforce
  let ?d = "d\<lparr>cd_quinn := q\<rparr>" and ?start = "cd_poll_cursor d mod 8"
  have seen: "peer_no_error_close_observed (op_quinn io) d = (False, ?d)"
    using assms(2) q by (auto simp: peer_no_error_close_observed_def never_closed_cleanly_def dest: spec[of _ "cd_quinn d"])
  have order: "ring ?start 8 = map work_index (rotate ?start all_works)"
    by (simp add: rotate_map[symmetric] all_works_indexes(1) rotate_ring)
  show "driver_poll_step io tu d ep = map_option snd (work_turn io tu (d, ep))"
    using poll_each_works[of io tu "rotate ?start all_works" ?d ep] assms(1)
    by (cases "try_works io tu (rotate ?start all_works) ?d ep")
      (auto simp: driver_poll_step_def seen poll_round_def work_turn_def q Let_def DRIVER_CATEGORY_COUNT_def order
        next_poll_cursor_def split: option.splits)
  show "poll_visits io tu (d, ep) = map (work_index \<circ> fst) entries" if "work_turn io tu (d, ep) = Some (entries, s)"
    using that visited_works[of io tu "rotate ?start all_works" ?d ep]
    by (auto simp: poll_visits_def seen work_turn_def q Let_def DRIVER_CATEGORY_COUNT_def order bind_eq_Some_conv)
qed

lemma driver_polls_run:
  assumes "driver_polls io tus s = Some (xs, s')"
  shows "run_ops (driver_apply io) s (map CallPollStep tus) = Some s'"
  using assms
proof (induction tus arbitrary: s xs)
  case (Cons tu tus)
  then show ?case by (cases s) (auto simp: bind_eq_Some_conv)
qed simp

lemma polls_turns:
  assumes "driver_polls io tus (d, ep) = Some (xs, d', ep')" "cd_phase d' = DriverActive" "never_closed_cleanly (op_quinn io)"
  shows "\<exists>entries. work_turns io tus (d, ep) = Some (entries, xs, d', ep')
    \<and> served io tus (d, ep) = set (map (work_index \<circ> fst) entries)"
  using assms
proof (induction tus arbitrary: d ep xs)
  case (Cons tu tus)
  obtain x d1 ep1 xs1 where s: "driver_poll_step io tu d ep = Some (x, d1, ep1)"
    "driver_polls io tus (d1, ep1) = Some (xs1, d', ep')" "xs = x # xs1"
    using Cons.prems(1) by (auto simp: bind_eq_Some_conv)
  have act: "cd_phase d = DriverActive" by (rule stays_active[OF driver_polls_run[OF Cons.prems(1)] Cons.prems(2)])
  obtain entries where entries: "work_turn io tu (d, ep) = Some (entries, x, d1, ep1)"
    using s(1) poll_turn(1)[OF act Cons.prems(3), of tu ep] by auto
  obtain rest where "work_turns io tus (d1, ep1) = Some (rest, xs1, d', ep')"
    "served io tus (d1, ep1) = set (map (work_index \<circ> fst) rest)"
    using Cons.IH[OF s(2) Cons.prems(2,3)] by blast
  then show ?case
    using entries s(1,3) poll_turn(2)[OF act Cons.prems(3) entries] by (simp add: image_Un)
qed simp

text \<open>
  C11: Every kind of work is served. On a connection that the peer has not closed without an error, any
  eight polls in a row that end no connection act just like eight rounds that go through the works of a
  driver by name, sending and receiving on the control stream, opening and accepting streams, moving
  the streams of both directions, sending and receiving datagrams, each round starting behind the work
  that the one before stopped at, and together they come to every one of the eight, however much the
  others find to do. A work they come to is done, except that the six works on data are held back while
  a send on the control stream is under way.
\<close>

theorem every_category_served:
  assumes "cd_phase d = DriverActive" "never_closed_cleanly (op_quinn io)" "length tus = 8"
    and "driver_polls io tus (d, ep) = Some (xs, d', ep')" "cd_phase d' = DriverActive"
  shows "\<exists>entries. work_turns io tus (d, ep) = Some (entries, xs, d', ep') \<and> fst ` set entries = UNIV"
proof -
  obtain entries where entries: "work_turns io tus (d, ep) = Some (entries, xs, d', ep')"
    "served io tus (d, ep) = set (map (work_index \<circ> fst) entries)"
    using polls_turns[OF assms(4,5,2)] by blast
  have "w \<in> fst ` set entries" for w
  proof -
    have "work_index w \<in> served io tus (d, ep)"
      by (rule polls_serve[OF assms(2) _ _ driver_polls_run[OF assms(4)] assms(5)])
        (simp_all add: assms(3) ahead_def DRIVER_CATEGORY_COUNT_def work_index_less)
    then have "work_index w \<in> work_index ` fst ` set entries" by (simp add: entries(2) image_comp)
    then show ?thesis using all_works_indexes(3) by (simp add: inj_image_mem_iff)
  qed
  then show ?thesis using entries(1) by blast
qed

section \<open>Runs\<close>

text \<open>
  The streams a driver opens and the flows it sends datagrams for: the ids of its own streams, those
  waiting for quinn and those under way, and the ids of its outbound datagram channels.
\<close>

definition own_stream_ids :: "('q, 'w, 'f, 'r) connection_driver \<Rightarrow> flow_id list" where
  "own_stream_ids d = map pd_flow_id (ri_pending (cd_reliable d)) @ map ao_flow_id (ri_outbound (cd_reliable d))"

lemma driver_ok_own_flows:
  assumes "driver_ok io rlog lim c0 (d, ep)"
  shows "flow_control_ok (cd_flow_control d)" "endpoint_ok lim ep" "distinct (own_stream_ids d)"
    "distinct (di_outbound (cd_datagram d))"
    "\<forall>i. i \<in> set (own_stream_ids d) \<or> i \<in> set (di_outbound (cd_datagram d)) \<longrightarrow> answered (cd_flow_control d) i"
    "phase_ok d"
  using assms
  by (auto simp: driver_ok_def resources_ok_def flow_pair_ok_def reliable_ok_def datagram_ok_def own_stream_ids_def
      pending_ids_def active_ids_def)

text \<open>
  C9: A driver runs safely from the admission of its connection on. A connection that an endpoint has
  admitted, as a client or as a server, always has a driver, and no sequence of polls, host calls and
  changes of the core endpoint, with any behaviour of the connection, its streams and the allocator,
  makes it panic. After every such sequence the flow control and the core are valid; of the streams
  that this side opens, waiting for quinn or under way, no two carry the same flow, and neither do two
  of its outbound datagram channels; each of these flows is one whose OPEN the peer has answered; and
  an active driver still holds both directions of its control stream, unbroken, and is still waiting
  for the streams and datagrams of the peer.
\<close>

theorem driver_run_safe:
  fixes io :: "('q, 'w, 'f, 'r) driver_ops" and connecting :: "(('q, connection_error) result awaited, 'e) result"
  assumes "driver_law io rlog" "bootstrap_law bo sent taken" "settings_ok (cp_local_settings profile)"
    and "connect_profile_ready alloc bo cep profile connecting = Some (Done (Ok (q, ready)), cep')
      \<or> accept_profile_ready alloc bo cep profile incoming
          = Some (Done (Some (Ok (q, ready) :: (_, 'e profile_connection_error) result)), cep')"
    and "endpoint_run lim calls = Some ep"
  shows "\<exists>fcc d ep'. into_flow_control \<lparr>cc_connection = c, cc_quinn = q, cc_profile = ready, cc_exchange = x\<rparr> = Ok fcc
    \<and> run_ops (driver_apply io) (driver_of fcc scratch staging, ep) xs = Some (d, ep')
    \<and> driver_ok io rlog lim (fcc_flow_control fcc) (d, ep')
    \<and> flow_control_ok (cd_flow_control d) \<and> endpoint_ok lim ep'
    \<and> distinct (own_stream_ids d) \<and> distinct (di_outbound (cd_datagram d))
    \<and> (\<forall>i. i \<in> set (own_stream_ids d) \<or> i \<in> set (di_outbound (cd_datagram d)) \<longrightarrow> answered (cd_flow_control d) i)
    \<and> (cd_phase d = DriverActive \<longrightarrow> sender_live (cd_sender d) \<and> receiver_live (cd_receiver d)
        \<and> ri_accept (cd_reliable d) \<noteq> None \<and> di_receive (cd_datagram d) \<noteq> None)"
proof -
  obtain fcc where fcc: "into_flow_control \<lparr>cc_connection = c, cc_quinn = q, cc_profile = ready, cc_exchange = x\<rparr> = Ok fcc"
    "driver_ok io rlog lim (fcc_flow_control fcc) (driver_of fcc scratch staging, ep)"
    using ready_starts[OF admitted_ready[OF assms(2-4)] endpoint_run_ok[OF assms(5)], of c q x io rlog scratch staging]
    by blast
  have start: "driver_law io rlog \<and> driver_ok io rlog lim (fcc_flow_control fcc) (driver_of fcc scratch staging, ep)"
    using assms(1) fcc(2) by simp
  obtain d ep' where run: "run_ops (driver_apply io) (driver_of fcc scratch staging, ep) xs = Some (d, ep')"
    and ok: "driver_ok io rlog lim (fcc_flow_control fcc) (d, ep')"
    using driver_machine.run_good[OF start, of xs] by (auto simp: list_all_iff)
  have live: "cd_phase d = DriverActive \<longrightarrow> sender_live (cd_sender d) \<and> receiver_live (cd_receiver d)
      \<and> ri_accept (cd_reliable d) \<noteq> None \<and> di_receive (cd_datagram d) \<noteq> None"
    using driver_ok_own_flows(6)[OF ok] by (cases "cd_phase d") (simp_all add: phase_ok_def)
  show ?thesis
    using fcc(1) run ok driver_ok_own_flows(1-5)[OF ok] live by blast
qed

text \<open>
  C10: An error of a poll is final, and nothing else is. A poll of an active driver returns an error if
  and only if it leaves the driver terminal, and that error is never of the driver's own making: it
  never sends while a send is under way or on a poisoned control stream, never takes an open in while
  one waits for its decision, never binds a flow to two streams, never acts on a flow of the wrong mode
  or direction, and never reports the end of a flow that is gone.
\<close>

theorem driver_errors_final:
  assumes "driver_law io rlog" "driver_ok io rlog lim c0 (d, ep)" "cd_phase d = DriverActive"
  shows "\<exists>x d' ep'. driver_poll_step io tu d ep = Some (x, d', ep')
    \<and> (cd_phase d' = DriverTerminal \<longleftrightarrow> (\<exists>e. x = Ready (Err e)))
    \<and> (\<forall>e. x = Ready (Err e) \<longrightarrow> \<not> self_inflicted e)"
proof -
  obtain x d' ep' where x: "driver_poll_step io tu d ep = Some (x, d', ep')" "poll_good x d'"
    using driver_poll_step_ok[OF assms(2,3,1)] by blast
  then show ?thesis by (auto simp: poll_good_def result_good_def split: poll.splits result.splits)
qed

lemma terminal_refuses:
  assumes "cd_phase d = DriverTerminal" "\<forall>y. x \<noteq> CallEndpoint y"
  shows "driver_apply io (d, ep) x = Some (d, ep)"
proof -
  have no: "require_control_send_ready d = Err DriverIsTerminal"
    using assms(1) by (simp add: require_control_send_ready_def control_operation_error_def)
  show ?thesis
    using assms no
    by (cases x) (auto simp: driver_poll_step_def driver_open_outbound_def decide_accept_def decide_reject_def
        driver_request_finish_def driver_request_finish_by_key_def driver_submit_def driver_submit_by_key_def
        split: option.split)
qed

text \<open>
  A terminal driver is inert. Whatever it is polled for and asked for, it says that it is terminal
  and changes nothing: not its streams, not the connection, not the flow control and not the core.
\<close>

theorem terminal_driver_inert:
  assumes "cd_phase d = DriverTerminal" "list_all (\<lambda>x. \<forall>y. x \<noteq> CallEndpoint y) xs"
  shows "run_ops (driver_apply io) (d, ep) xs = Some (d, ep)
    \<and> driver_poll_step io tu d ep = Some (Ready (Err (DriverState DriverIsTerminal)), d, ep)"
proof -
  have "run_ops (driver_apply io) (d, ep) xs = Some (d, ep)"
    using assms(2)
  proof (induction xs)
    case (Cons x xs)
    then have "driver_apply io (d, ep) x = Some (d, ep)" using terminal_refuses[OF assms(1)] by simp
    then show ?case using Cons by simp
  qed simp
  then show ?thesis using assms(1) by (simp add: driver_poll_step_def)
qed

section \<open>Control before data\<close>

definition holds_still ::
  "('q, 'w, 'f, 'r) connection_driver \<times> delivery_endpoint \<Rightarrow> ('q, 'w, 'f, 'r) connection_driver \<times> delivery_endpoint \<Rightarrow> bool"
  where
  "holds_still s s' \<longleftrightarrow> snd s' = snd s \<and> cd_flow_control (fst s') = cd_flow_control (fst s)
     \<and> cd_reliable (fst s') = cd_reliable (fst s) \<and> cd_datagram (fst s') = cd_datagram (fst s)"

lemma enter_terminal_still: "holds_still s (d, ep) \<Longrightarrow> holds_still s (enter_terminal qo d code, ep)"
  by (simp add: holds_still_def enter_terminal_def Let_def)

definition waits :: "'w control_sender \<Rightarrow> pending_send \<Rightarrow> ('q, 'w, 'f, 'r) connection_driver \<Rightarrow> bool" where
  "waits s p d \<longleftrightarrow> cd_phase d = DriverActive \<and> cd_sender d = ControlSendPending s p"

definition waiting_error :: "(connection_progress, driver_error) result \<Rightarrow> bool" where
  "waiting_error x \<longleftrightarrow> (\<exists>e. x = Err (DriverControlReceive e))"

lemma receive_waits:
  assumes "waits s p d" "holds_still t (d, ep)"
  shows "\<exists>x d'. poll_control_receive io tu d ep = Some (x, d', ep) \<and> holds_still t (d', ep)
    \<and> (case step_outcome x of None \<Rightarrow> waits s p d' | Some r \<Rightarrow> waiting_error r)"
proof -
  have "must_defer d f" for f
    using assms(1) by (simp add: must_defer_def should_defer_received_frame_def send_phase_def waits_def)
  moreover have "holds_still t (d\<lparr>cd_receiver := r\<rparr>, ep)" "holds_still t (d\<lparr>cd_quinn := q, cd_receiver := r\<rparr>, ep)" for q r
    using assms(2) by (simp_all add: holds_still_def)
  ultimately show ?thesis
    using assms
    by (auto simp: poll_control_receive_def step_outcome_def waits_def waiting_error_def enter_terminal_still
        split: control_receive_state.split poll.split result.split)
qed

lemma category_waits:
  assumes "waits s p d" "holds_still t (d, ep)" "\<not> tu_send_done tu" "i < DRIVER_CATEGORY_COUNT"
  shows "\<exists>x d'. poll_category io tu closing d ep i = Some (x, d', ep) \<and> holds_still t (d', ep)
    \<and> (case step_outcome x of None \<Rightarrow> waits s p d' | Some r \<Rightarrow> waiting_error r)"
proof (cases "i = 1 \<and> \<not> closing")
  case True
  then show ?thesis using receive_waits[OF assms(1,2)] by (simp add: poll_category_def)
next
  case False
  have "\<not> data_poll_allowed d" using assms(1) by (simp add: data_poll_allowed_def send_phase_def waits_def)
  then show ?thesis
    using False assms
    by (auto simp: poll_category_def poll_control_send_def poll_send_future_def step_outcome_def waits_def
        DRIVER_CATEGORY_COUNT_def)
qed

lemma round_waits:
  fixes d :: "('q, 'w, 'f, 'r) connection_driver"
  assumes "waits s p d" "holds_still t (d, ep)" "\<not> tu_send_done tu"
  shows "\<exists>x d'. poll_round io tu closing d ep = Some (x, d', ep) \<and> holds_still t (d', ep)
    \<and> (case x of Pending \<Rightarrow> waits s p d' | Ready r \<Rightarrow> waiting_error r)"
proof -
  define P where "P = (\<lambda>w :: ('q, 'w, 'f, 'r) connection_driver \<times> delivery_endpoint. waits s p (fst w) \<and> holds_still t w
      \<and> snd w = ep)"
  define Q where "Q = (\<lambda>(x :: (connection_progress, driver_error) result)
      (w :: ('q, 'w, 'f, 'r) connection_driver \<times> delivery_endpoint). waiting_error x \<and> holds_still t w \<and> snd w = ep)"
  have step: "\<exists>r w'. poll_round_at io tu closing w i = Some (r, w') \<and> (case r of None \<Rightarrow> P w' | Some x \<Rightarrow> Q x w')"
    if i: "i < DRIVER_CATEGORY_COUNT" and w: "P w" for w i
  proof -
    obtain d1 where d1: "w = (d1, ep)" using w by (cases w) (simp add: P_def)
    have d1': "waits s p d1" "holds_still t (d1, ep)" using w by (simp_all add: P_def d1)
    obtain x d' where x: "poll_category io tu closing d1 ep i = Some (x, d', ep)" "holds_still t (d', ep)"
      "case step_outcome x of None \<Rightarrow> waits s p d' | Some r \<Rightarrow> waiting_error r"
      using category_waits[OF d1' assms(3) i] by blast
    have "holds_still t (d'\<lparr>cd_poll_cursor := n\<rparr>, ep)" for n using x(2) by (simp add: holds_still_def)
    then show ?thesis
      using x by (cases "step_outcome x") (auto simp: poll_round_at_def P_def Q_def d1)
  qed
  have start: "P (d, ep)" using assms by (simp add: P_def)
  obtain r w where r: "poll_each (poll_round_at io tu closing) (ring (cd_poll_cursor d mod DRIVER_CATEGORY_COUNT)
      DRIVER_CATEGORY_COUNT) (d, ep) = Some (r, w)"
    "case r of None \<Rightarrow> P w | Some x \<Rightarrow> Q x w"
    by (rule poll_ring_good[of P, OF start step])
  obtain d1 where w: "w = (d1, ep)" using r(2) by (cases w; cases r) (simp_all add: P_def Q_def)
  have "holds_still t (d1\<lparr>cd_poll_cursor := n\<rparr>, ep)" if "holds_still t (d1, ep)" for n
    using that by (simp add: holds_still_def)
  then show ?thesis
    using r w by (cases r) (auto simp: poll_round_def P_def Q_def Let_def waits_def)
qed

text \<open>
  C26: Control comes before data. While a send on the control stream is under way, be it the report that
  a flow has ended or the answer to an open, a poll moves nothing else: no stream and no datagram is
  polled, no received frame is acted on, the flow control and the core stay as they are, and the poll
  either stays pending with the same send or fails because the control stream itself has failed.
\<close>

theorem pending_send_goes_first:
  assumes "cd_phase d = DriverActive" "cd_sender d = ControlSendPending s p" "\<not> tu_send_done tu"
  shows "\<exists>x d'. driver_poll_step io tu d ep = Some (x, d', ep)
    \<and> cd_flow_control d' = cd_flow_control d \<and> cd_reliable d' = cd_reliable d \<and> cd_datagram d' = cd_datagram d
    \<and> (x = Pending \<and> cd_sender d' = cd_sender d \<or> (\<exists>e. x = Ready (Err (DriverControlReceive e))))"
proof -
  obtain reason q' where "qn_close_reason (op_quinn io) (cd_quinn d) = (reason, q')" by fastforce
  then obtain closing q where q: "peer_no_error_close_observed (op_quinn io) d = (closing, d\<lparr>cd_quinn := q\<rparr>)"
    by (simp add: peer_no_error_close_observed_def)
  let ?d = "d\<lparr>cd_quinn := q\<rparr>"
  have start: "waits s p ?d" "holds_still (d, ep) (?d, ep)" using assms(1,2) by (simp_all add: waits_def holds_still_def)
  have "\<exists>x d'. driver_poll_step io tu d ep = Some (x, d', ep) \<and> holds_still (d, ep) (d', ep)
      \<and> (case x of Pending \<Rightarrow> waits s p d' | Ready r \<Rightarrow> waiting_error r)"
  proof (cases closing)
    case False
    then show ?thesis using round_waits[OF start assms(3)] assms(1) q by (simp add: driver_poll_step_def)
  next
    case True
    obtain x d1 where x: "poll_control_receive io tu ?d ep = Some (x, d1, ep)" "holds_still (d, ep) (d1, ep)"
      "case step_outcome x of None \<Rightarrow> waits s p d1 | Some r \<Rightarrow> waiting_error r"
      using receive_waits[OF start] by blast
    show ?thesis
    proof (cases "step_outcome x")
      case None
      then have "waits s p d1" using x(3) by simp
      from round_waits[OF this x(2) assms(3)] show ?thesis using assms(1) q True x(1) None by (simp add: driver_poll_step_def)
    next
      case (Some r)
      then show ?thesis using assms(1) q True x by (simp add: driver_poll_step_def holds_still_def)
    qed
  qed
  then show ?thesis
    using assms(2) by (fastforce simp: holds_still_def waits_def waiting_error_def split: poll.splits)
qed

section \<open>Failures of the data path\<close>

text \<open>The TERMINATE frame of a flow.\<close>

definition terminate_report :: "flow_id \<Rightarrow> flow_terminate_reason \<Rightarrow> control_frame" where
  "terminate_report i reason = \<lparr>cf_type = FlowTerminateType, cf_body = body_of [flow_id_value i, terminate_code reason]\<rparr>"

lemma terminate_local_exact:
  assumes "flow_control_ok c" "endpoint_ok lim ep" "lookup_flow (fn_registry c) i = Some f"
    "\<not> (rf_mode f = ReliableOrdered \<and> reason = TerminateNormal)"
  shows "\<exists>y c' ep'. terminate_local al c ep i reason = Some (y, c', ep')
    \<and> (if \<not> al_frame al (length (cf_body (terminate_report i reason))) then y = Err FlowAllocation \<and> c' = c \<and> ep' = ep
       else if fmlookup (de_flows ep) (rf_key f) = None then y = Err (CoreState UnknownFlow) \<and> c' = c \<and> ep' = ep
       else \<exists>t. y = Ok t \<and> lt_frame t = terminate_report i reason
         \<and> released_from c ep (established_from_registered i f) c' ep')"
proof -
  have "issued (cursor_for c (fk_direction (rf_key f))) (flow_id_value i)"
    using flow_control_ok_parts[OF assms(1)] assms(3) unfolding registered_ok_def lookup_flow_def by blast
  then have "flow_id_ok i" by (simp add: issued_def flow_id_eta)
  then have frame: "terminate_frame (al_frame al) i reason
      = Some (if al_frame al (length (cf_body (terminate_report i reason))) then Some (terminate_report i reason) else None)"
    using flow_terminate_encode_body[of "\<lparr>fx_flow_id = i, fx_reason = reason\<rparr>"]
    by (auto simp: terminate_frame_def owned_frame_def terminate_report_def Let_def)
  show ?thesis
  proof (cases "fmlookup (de_flows ep) (rf_key f)")
    case None
    then show ?thesis using frame assms(3,4) by (auto simp: terminate_local_def terminate_flow_def)
  next
    case (Some y)
    obtain u ep' where "terminate_flow ep (rf_key f) Requested = Some (Ok u, ep')"
      "de_flows ep' = fmdrop (rf_key f) (de_flows ep)"
      using terminate_present[OF assms(2) Some, of Requested] by blast
    then show ?thesis
      using frame assms(3,4) Some by (auto simp: terminate_local_def released_from_def established_from_registered_def)
  qed
qed

text \<open>
  C12: A failure of the data path of a live flow ends that flow and no other, and the peer hears of it.
  Exactly when the memory for the TERMINATE frame is granted and the core still has the flow, handling
  the failure succeeds: it takes the flow, and only it, out of the core and of the registry, and starts
  to send the TERMINATE frame with the flow's identifier and the reason, while the connection stays
  alive. Otherwise no flow is touched and the connection ends, with the allocation failure or the
  unknown flow as its error.
\<close>

theorem data_failure_reported:
  assumes ok: "driver_ok io rlog lim c0 (d, ep)" and ready: "cd_phase d = DriverActive" "cd_sender d = ControlSendReady s"
    and live: "lookup_flow (fn_registry (cd_flow_control d)) i = Some f"
    and reason: "\<not> (rf_mode f = ReliableOrdered \<and> reason = TerminateNormal)"
  shows "\<exists>x d' ep'. apply_data_failure (op_quinn io) al d ep (TerminateAndReport i reason) e = Some (x, d', ep')
    \<and> (if al_frame al (length (cf_body (terminate_report i reason))) \<and> fmlookup (de_flows ep) (rf_key f) \<noteq> None
       then x = Ok i \<and> cd_phase d' = DriverActive
         \<and> fn_registry (cd_flow_control d') = registry_release (fn_registry (cd_flow_control d)) i
         \<and> de_flows ep' = fmdrop (rf_key f) (de_flows ep)
         \<and> (\<exists>p. cd_sender d' = ControlSendPending s p \<and> ps_frame p = terminate_report i reason)
       else x = Err (FailurePreparation (if al_frame al (length (cf_body (terminate_report i reason)))
             then CoreState UnknownFlow else FlowAllocation))
         \<and> cd_phase d' = DriverTerminal \<and> fn_registry (cd_flow_control d') = fn_registry (cd_flow_control d) \<and> ep' = ep)"
proof -
  have c: "flow_control_ok (cd_flow_control d)" "endpoint_ok lim ep"
    using ok by (simp_all add: driver_ok_def resources_ok_def flow_pair_ok_def)
  let ?room = "al_frame al (length (cf_body (terminate_report i reason)))"
  obtain y c' ep' where y: "terminate_local al (cd_flow_control d) ep i reason = Some (y, c', ep')"
    "if \<not> ?room then y = Err FlowAllocation \<and> c' = cd_flow_control d \<and> ep' = ep
       else if fmlookup (de_flows ep) (rf_key f) = None then y = Err (CoreState UnknownFlow) \<and> c' = cd_flow_control d \<and> ep' = ep
       else \<exists>t. y = Ok t \<and> lt_frame t = terminate_report i reason
         \<and> released_from (cd_flow_control d) ep (established_from_registered i f) c' ep'"
    using terminate_local_exact[OF c live reason, of al] by blast
  note run = apply_data_failure_def prepare_data_failure_def driver_terminate_local_def send_progress_of_def Let_def
  show ?thesis
  proof (cases "?room \<and> fmlookup (de_flows ep) (rf_key f) \<noteq> None")
    case False
    then obtain z where z: "y = Err z" "z = (if ?room then CoreState UnknownFlow else FlowAllocation)"
      "c' = cd_flow_control d" "ep' = ep"
      using y(2) by (auto split: if_splits)
    have "apply_data_failure (op_quinn io) al d ep (TerminateAndReport i reason) e
        = Some (Err (FailurePreparation z), enter_terminal (op_quinn io) d None, ep)"
      using y(1) z(1,3,4) by (simp add: run)
    then show ?thesis using False z(2) by (auto simp: enter_terminal_def Let_def)
  next
    case True
    then obtain t where t: "y = Ok t" "lt_frame t = terminate_report i reason"
      "released_from (cd_flow_control d) ep (established_from_registered i f) c' ep'"
      using y(2) by auto
    then show ?thesis
      using y(1) ready True
      by (auto simp: run start_prepared_send_def start_control_send_def released_from_def established_from_registered_def)
  qed
qed

section \<open>Witnesses\<close>

lemma demo_endpoint_ok: "endpoint_ok demo_limits (endpoint_new demo_limits)"
  by (rule endpoint_run_ok[of _ "[]"]) (simp add: endpoint_run_def)

lemmas demo_start = demo_connection_driver_ok[OF demo_endpoint_ok]

text \<open>A driver without work stays as it is.\<close>

definition idle :: "(unit, bytes, unit, bytes \<times> bytes) connection_driver \<times> delivery_endpoint \<Rightarrow> bool" where
  "idle s \<longleftrightarrow> cd_phase (fst s) = DriverActive \<and> (\<exists>c. cd_sender (fst s) = ControlSendReady c)
     \<and> (\<exists>r. cd_receiver (fst s) = ControlReceivePending r) \<and> ri_pending (cd_reliable (fst s)) = []
     \<and> ri_outbound (cd_reliable (fst s)) = [] \<and> ri_inbound (cd_reliable (fst s)) = []
     \<and> ri_accept (cd_reliable (fst s)) = Some () \<and> di_outbound (cd_datagram (fst s)) = []
     \<and> di_receive (cd_datagram (fst s)) = Some ()"

lemma idle_category:
  assumes "idle (d, ep)" "i < DRIVER_CATEGORY_COUNT"
  shows "\<exists>d'. poll_category demo_driver_ops demo_turn False d ep i = Some (StepNone, d', ep) \<and> idle (d', ep)"
proof -
  have i: "i = 0 \<or> i = 1 \<or> i = 2 \<or> i = 3 \<or> i = 4 \<or> i = 5 \<or> i = 6 \<or> i = 7"
    using assms(2) by (auto simp: DRIVER_CATEGORY_COUNT_def)
  show ?thesis
    using i assms(1)
    by (elim disjE) (auto simp: idle_def poll_category_def poll_data_category_def poll_control_send_def
        poll_control_receive_def poll_receive_future_def demo_turn_def data_poll_allowed_def send_phase_def
        poll_reliable_outbound_acquisition_def poll_outbound_acquisition_def poll_reliable_inbound_acquisition_def
        poll_inbound_acquisition_def poll_reliable_outbound_def poll_outbound_binding_def reliable_polled_def
        poll_reliable_inbound_def poll_inbound_binding_def drive_datagram_outbound_def drive_outbound_def
        poll_datagram_inbound_def poll_inbound_datagram_def demo_driver_ops_def demo_quinn_def)
qed

lemma idle_poll:
  assumes "idle s"
  shows "\<exists>s'. driver_apply demo_driver_ops s (CallPollStep demo_turn) = Some s' \<and> idle s'"
proof -
  obtain d ep where s: "s = (d, ep)" by (cases s)
  let ?d = "d\<lparr>cd_quinn := ()\<rparr>"
  have d: "idle (?d, ep)" "cd_phase d = DriverActive" using assms by (simp_all add: s idle_def)
  have seen: "peer_no_error_close_observed (op_quinn demo_driver_ops) d = (False, ?d)"
    by (simp add: peer_no_error_close_observed_def demo_driver_ops_def demo_quinn_def)
  have step: "\<exists>r s'. poll_round_at demo_driver_ops demo_turn False s i = Some (r, s')
      \<and> (case r of None \<Rightarrow> idle s' | Some x \<Rightarrow> False)"
    if i: "i < DRIVER_CATEGORY_COUNT" and w: "idle s" for s i
  proof -
    obtain d' where "poll_category demo_driver_ops demo_turn False (fst s) (snd s) i = Some (StepNone, d', snd s)" "idle (d', snd s)"
      using idle_category[of "fst s" "snd s" i] i w by auto
    then show ?thesis by (simp add: poll_round_at_def step_outcome_def)
  qed
  obtain r w where r: "poll_each (poll_round_at demo_driver_ops demo_turn False)
      (ring (cd_poll_cursor ?d mod DRIVER_CATEGORY_COUNT) DRIVER_CATEGORY_COUNT) (?d, ep) = Some (r, w)"
    "case r of None \<Rightarrow> idle w | Some x \<Rightarrow> False"
    by (rule poll_ring_good[of idle, OF d(1) step])
  have "idle (d'\<lparr>cd_poll_cursor := n\<rparr>, ep')" if "idle (d', ep')" for d' ep' n using that by (simp add: idle_def)
  then show ?thesis
    using r d(2) by (cases w; cases r) (simp_all add: s driver_poll_step_def seen poll_round_def Let_def)
qed

lemma demo_idle: "idle (demo_connection_driver, ep)"
  using demo_start by (simp add: idle_def demo_connection_driver_def into_connection_driver_def
      reliable_into_established_io_def into_reliable_io_def into_established_io_def core_into_established_io_def
      reliable_io_new_def datagram_io_new_def Let_def)

lemma idle_driver_polls:
  "idle s \<Longrightarrow> \<exists>xs s'. driver_polls demo_driver_ops (replicate n demo_turn) s = Some (xs, s') \<and> idle s'"
proof (induction n arbitrary: s)
  case (Suc n)
  obtain s1 where s1: "driver_apply demo_driver_ops s (CallPollStep demo_turn) = Some s1" "idle s1"
    using idle_poll[OF Suc.prems] by blast
  then obtain x where "driver_poll_step demo_driver_ops demo_turn (fst s) (snd s) = Some (x, s1)" by (cases s) auto
  then show ?case using Suc.IH[OF s1(2)] by auto
qed simp

theorem every_category_served_witness:
  "\<exists>xs s' entries. driver_polls demo_driver_ops (replicate 8 demo_turn) (demo_connection_driver, endpoint_new demo_limits)
       = Some (xs, s')
     \<and> work_turns demo_driver_ops (replicate 8 demo_turn) (demo_connection_driver, endpoint_new demo_limits)
         = Some (entries, xs, s')
     \<and> fst ` set entries = UNIV"
proof -
  obtain xs d' ep' where run: "driver_polls demo_driver_ops (replicate 8 demo_turn)
      (demo_connection_driver, endpoint_new demo_limits) = Some (xs, d', ep')" "idle (d', ep')"
    using idle_driver_polls[OF demo_idle[of "endpoint_new demo_limits"], of 8] by auto
  have quiet: "never_closed_cleanly (op_quinn demo_driver_ops)"
    by (simp add: never_closed_cleanly_def demo_driver_ops_def demo_quinn_def)
  have "cd_phase d' = DriverActive" using run(2) by (simp add: idle_def)
  from every_category_served[OF demo_start(2) quiet _ run(1) this] show ?thesis using run(1) by auto
qed

theorem driver_run_safe_witness:
  "\<exists>ready ep' fcc d ep. connect_profile_ready (\<lambda>_. True) demo_bootstrap demo_configured demo_control_profile demo_connecting
       = Some (Done (Ok ((), ready)), ep')
     \<and> run_ops (driver_apply demo_driver_ops) (driver_of fcc 16 16, endpoint_new demo_limits)
         [CallPollStep demo_turn, CallOpenOutbound demo_turn demo_open_request, CallPollStep demo_turn] = Some (d, ep)
     \<and> driver_ok demo_driver_ops snd demo_limits (fcc_flow_control fcc) (d, ep) \<and> distinct (own_stream_ids d)"
proof -
  obtain ready ep' where run: "connect_profile_ready (\<lambda>_. True) demo_bootstrap demo_configured demo_control_profile
      demo_connecting = Some (Done (Ok ((), ready)), ep')" using demo_connection_admitted by blast
  have "endpoint_run demo_limits [] = Some (endpoint_new demo_limits)" by (simp add: endpoint_run_def)
  from driver_run_safe[OF demo_driver_law demo_bootstrap_law demo_profile_ok disjI1[OF run] this,
      of "ConnectionHandle 3" "demo_end NonAuthority" 16 16
        "[CallPollStep demo_turn, CallOpenOutbound demo_turn demo_open_request, CallPollStep demo_turn]"]
  show ?thesis using run by blast
qed

theorem driver_errors_final_witness:
  "\<exists>x d' ep'. driver_poll_step demo_driver_ops demo_turn demo_connection_driver (endpoint_new demo_limits) = Some (x, d', ep')
     \<and> (cd_phase d' = DriverTerminal \<longleftrightarrow> (\<exists>e. x = Ready (Err e)))"
  using driver_errors_final[OF demo_driver_law demo_start(1,2), of demo_turn] by blast

theorem terminal_driver_inert_witness:
  "\<exists>d. cd_phase d = DriverTerminal
     \<and> run_ops (driver_apply demo_driver_ops) (d, endpoint_new demo_limits)
         [CallPollStep demo_turn, CallOpenOutbound demo_turn demo_open_request] = Some (d, endpoint_new demo_limits)"
  using terminal_driver_inert[of "demo_connection_driver\<lparr>cd_phase := DriverTerminal\<rparr>"
      "[CallPollStep demo_turn, CallOpenOutbound demo_turn demo_open_request]" demo_driver_ops "endpoint_new demo_limits" demo_turn]
  by (intro exI[of _ "demo_connection_driver\<lparr>cd_phase := DriverTerminal\<rparr>"]) (simp del: run_ops.simps driver_apply.simps)

theorem pending_send_goes_first_witness:
  "\<exists>d x d'. driver_poll_step demo_driver_ops demo_turn d (endpoint_new demo_limits) = Some (x, d', endpoint_new demo_limits)
     \<and> cd_sender d = ControlSendPending (pr_sender demo_ready) \<lparr>ps_frame = demo_open_frame, ps_effect = EffectInboundRejected (FlowId 0) RejectMessageLimit\<rparr>
     \<and> cd_reliable d' = cd_reliable d"
  using pending_send_goes_first[of "demo_connection_driver\<lparr>cd_sender := ControlSendPending (pr_sender demo_ready)
       \<lparr>ps_frame = demo_open_frame, ps_effect = EffectInboundRejected (FlowId 0) RejectMessageLimit\<rparr>\<rparr>"
      "pr_sender demo_ready" "\<lparr>ps_frame = demo_open_frame, ps_effect = EffectInboundRejected (FlowId 0) RejectMessageLimit\<rparr>"
      demo_turn demo_driver_ops "endpoint_new demo_limits"] demo_start(2)
  by (intro exI[of _ "demo_connection_driver\<lparr>cd_sender := ControlSendPending (pr_sender demo_ready)
       \<lparr>ps_frame = demo_open_frame, ps_effect = EffectInboundRejected (FlowId 0) RejectMessageLimit\<rparr>\<rparr>"])
    (auto simp: demo_turn_def)

theorem data_failure_reported_witness:
  "\<exists>(d :: (unit, bytes, unit, bytes \<times> bytes) connection_driver) ep f d' ep' p.
     lookup_flow (fn_registry (cd_flow_control d)) (FlowId 0) = Some f \<and> fmlookup (de_flows ep) (rf_key f) \<noteq> None
     \<and> apply_data_failure demo_quinn demo_allocs d ep (TerminateAndReport (FlowId 0) TerminateResourceFailure)
         (DriverReliable ReliableAllocation) = Some (Ok (FlowId 0), d', ep')
     \<and> lookup_flow (fn_registry (cd_flow_control d')) (FlowId 0) = None \<and> fmlookup (de_flows ep') (rf_key f) = None
     \<and> cd_sender d' = ControlSendPending (pr_sender demo_ready) p
     \<and> ps_frame p = terminate_report (FlowId 0) TerminateResourceFailure"
proof -
  obtain b epb f where b: "flow_control_ok b" "endpoint_ok demo_limits epb" "lookup_flow (fn_registry b) (FlowId 0) = Some f"
    "rf_mode f = ReliableOrdered" "rf_key f = demo_key Inbound" "fmlookup (de_flows epb) (demo_key Inbound) \<noteq> None"
    by (rule demo_server_flow)
  let ?d = "demo_connection_driver\<lparr>cd_flow_control := b\<rparr>"
  have empty: "ri_pending (cd_reliable ?d) = []" "ri_outbound (cd_reliable ?d) = []" "ri_inbound (cd_reliable ?d) = []"
    "di_outbound (cd_datagram ?d) = []"
    using demo_idle[of epb] by (simp_all add: idle_def)
  have ok: "driver_ok demo_driver_ops snd demo_limits b (?d, epb)"
    using demo_start(1) b(1,2) empty
    by (simp add: driver_ok_def resources_ok_def flow_pair_ok_def reliable_ok_def datagram_ok_def pending_ids_def active_ids_def)
  have live: "lookup_flow (fn_registry (cd_flow_control ?d)) (FlowId 0) = Some f" using b(3) by simp
  have ready: "cd_phase ?d = DriverActive" "cd_sender ?d = ControlSendReady (pr_sender demo_ready)"
    using demo_start(2,3) by simp_all
  have reason: "\<not> (rf_mode f = ReliableOrdered \<and> TerminateResourceFailure = TerminateNormal)" by simp
  have cond: "al_frame demo_allocs n \<and> fmlookup (de_flows epb) (rf_key f) \<noteq> None" for n
    using b(5,6) by (simp add: demo_allocs_def)
  obtain d' ep' p where r: "apply_data_failure (op_quinn demo_driver_ops) demo_allocs ?d epb
      (TerminateAndReport (FlowId 0) TerminateResourceFailure) (DriverReliable ReliableAllocation) = Some (Ok (FlowId 0), d', ep')"
    "fn_registry (cd_flow_control d') = registry_release (fn_registry b) (FlowId 0)" "de_flows ep' = fmdrop (rf_key f) (de_flows epb)"
    "cd_sender d' = ControlSendPending (pr_sender demo_ready) p"
    "ps_frame p = terminate_report (FlowId 0) TerminateResourceFailure"
    using data_failure_reported[OF ok ready live reason, of demo_allocs "DriverReliable ReliableAllocation"]
    unfolding if_P[OF cond] by auto
  have "lookup_flow (fn_registry (cd_flow_control d')) (FlowId 0) = None" "fmlookup (de_flows ep') (rf_key f) = None"
    using r(2,3) by (simp_all add: lookup_flow_def registry_release_def)
  moreover have "op_quinn demo_driver_ops = demo_quinn" by (simp add: demo_driver_ops_def)
  ultimately show ?thesis
    using r(1,4,5) live b(5,6)
    by - (rule exI[of _ ?d], rule exI[of _ epb], rule exI[of _ f], rule exI[of _ d'], rule exI[of _ ep'], rule exI[of _ p], simp)
qed

end
