(* ===== verification/Facade.thy ===== *)
theory Facade
  imports Lifecycle
begin

text \<open>
  The configuration and the endpoints that a host sees, \<open>crates/runen-net-quic/src/facade.rs\<close>: checked
  limits, the baselines, admitted connections with their receive limits, and the errors up to that
  point. Binding an endpoint and its TLS material belong to quinn and rustls.
\<close>

section \<open>Endpoint configuration\<close>

definition BASELINE_UDP_PAYLOAD_CEILING :: nat where
  "BASELINE_UDP_PAYLOAD_CEILING = 1452"

definition BASELINE_STREAM_RECEIVE_WINDOW :: u64 where
  "BASELINE_STREAM_RECEIVE_WINDOW = 64 * 1024"

definition BASELINE_CONNECTION_RECEIVE_WINDOW :: u64 where
  "BASELINE_CONNECTION_RECEIVE_WINDOW = 256 * 1024"

definition BASELINE_SEND_WINDOW :: u64 where
  "BASELINE_SEND_WINDOW = 256 * 1024"

definition BASELINE_CRYPTO_BUFFER_BYTES :: nat where
  "BASELINE_CRYPTO_BUFFER_BYTES = 32 * 1024"

definition BASELINE_DATAGRAM_RECEIVE_BUFFER_BYTES :: nat where
  "BASELINE_DATAGRAM_RECEIVE_BUFFER_BYTES = 64 * 1024"

definition BASELINE_DATAGRAM_SEND_BUFFER_BYTES :: nat where
  "BASELINE_DATAGRAM_SEND_BUFFER_BYTES = 64 * 1024"

text \<open>30 seconds in nanoseconds.\<close>

definition BASELINE_MAX_IDLE_TIMEOUT :: nat where
  "BASELINE_MAX_IDLE_TIMEOUT = 30 * 1000000000"

definition BASELINE_MAX_CONTROL_FRAME_BYTES :: nat where
  "BASELINE_MAX_CONTROL_FRAME_BYTES = 64 * 1024"

definition BASELINE_MAX_NEGOTIATION_FRAME_BYTES :: nat where
  "BASELINE_MAX_NEGOTIATION_FRAME_BYTES = 32 * 1024"

definition BASELINE_RELIABLE_SCRATCH_BYTES :: nat where
  "BASELINE_RELIABLE_SCRATCH_BYTES = 4 * 1024"

text \<open>
  The public limits, roles and resource errors have the fields and cases of the internal ones, which
  stand for both.
\<close>

record ('v, 't) endpoint_config =
  ec_limits :: endpoint_resource_limits
  ec_inner :: "('v, 't) endpoint_resources"

definition endpoint_config_validate ::
  "('v, 't) quinn_conversions \<Rightarrow> endpoint_resource_limits \<Rightarrow>
     (('v, 't) endpoint_config, endpoint_resource_error) result" where
  "endpoint_config_validate q l =
     result_bind (resource_limits_validate q l) (\<lambda>inner. Ok \<lparr>ec_limits = l, ec_inner = inner\<rparr>)"

definition endpoint_config_baseline ::
  "('v, 't) quinn_conversions \<Rightarrow> nat \<Rightarrow> u64 \<Rightarrow> (('v, 't) endpoint_config, endpoint_resource_error) result" where
  "endpoint_config_baseline q max_connections max_active_incoming_flows =
     endpoint_config_validate q
       \<lparr>rl_max_connections = max_connections, rl_max_active_incoming_flows = max_active_incoming_flows,
        rl_udp_payload_ceiling = BASELINE_UDP_PAYLOAD_CEILING,
        rl_stream_receive_window = BASELINE_STREAM_RECEIVE_WINDOW,
        rl_connection_receive_window = BASELINE_CONNECTION_RECEIVE_WINDOW,
        rl_send_window = BASELINE_SEND_WINDOW, rl_crypto_buffer_bytes = BASELINE_CRYPTO_BUFFER_BYTES,
        rl_datagram_receive_buffer_bytes = BASELINE_DATAGRAM_RECEIVE_BUFFER_BYTES,
        rl_datagram_send_buffer_bytes = BASELINE_DATAGRAM_SEND_BUFFER_BYTES,
        rl_max_idle_timeout = BASELINE_MAX_IDLE_TIMEOUT\<rparr>"

section \<open>Profile configuration\<close>

record reliable_receive_limits =
  rr_scratch_bytes :: nat
  rr_max_staging_bytes :: nat

record profile_limits =
  pl_semantic_role :: semantic_role
  pl_max_control_frame_bytes :: nat
  pl_max_negotiation_frame_bytes :: nat
  pl_max_incoming_message_bytes :: u64
  pl_reliable_receive :: reliable_receive_limits

text \<open>The first seven public errors are the internal ones.\<close>

datatype profile_config_error =
    ConfigControlLimit local_control_limit_error
  | IncomingMessageBytesDoNotFitPlatform
  | ReliableStagingBelowIncomingMessageCeiling

record ('v, 't) profile_config =
  pf_limits :: profile_limits
  pf_inner :: "('v, 't) control_profile"

definition profile_config_validate ::
  "('v, 't) quinn_conversions \<Rightarrow> profile_limits \<Rightarrow> ('v, 't) endpoint_config \<Rightarrow>
     (('v, 't) profile_config, profile_config_error) result" where
  "profile_config_validate q l e =
     result_bind (map_err ConfigControlLimit (local_limits_validate q
       \<lparr>ll_semantic_role = pl_semantic_role l, ll_max_control_frame_bytes = pl_max_control_frame_bytes l,
        ll_max_negotiation_frame_bytes = pl_max_negotiation_frame_bytes l,
        ll_max_incoming_message_bytes = pl_max_incoming_message_bytes l\<rparr> (ec_inner e))) (\<lambda>inner.
     result_bind (ok_or IncomingMessageBytesDoNotFitPlatform (u64_to_usize (pl_max_incoming_message_bytes l))) (\<lambda>n.
     if rr_max_staging_bytes (pl_reliable_receive l) < n then Err ReliableStagingBelowIncomingMessageCeiling
     else Ok \<lparr>pf_limits = l, pf_inner = inner\<rparr>))"

text \<open>
  The staging is a \<open>NonZeroUsize\<close>, whose constructor refuses 0; the scratch is a constant, and its
  \<open>expect\<close> is the outer option.
\<close>

definition profile_config_baseline ::
  "('v, 't) quinn_conversions \<Rightarrow> ('v, 't) endpoint_config \<Rightarrow> semantic_role \<Rightarrow> u64 \<Rightarrow>
     (('v, 't) profile_config, profile_config_error) result exec" where
  "profile_config_baseline q e role max_incoming =
     (if max_incoming = 0 then Some (Err (ConfigControlLimit ZeroIncomingMessageBytes))
      else case u64_to_usize max_incoming of
        None \<Rightarrow> Some (Err IncomingMessageBytesDoNotFitPlatform)
      | Some staging \<Rightarrow>
          if staging = 0 then Some (Err (ConfigControlLimit ZeroIncomingMessageBytes))
          else if BASELINE_RELIABLE_SCRATCH_BYTES = 0 then None
          else Some (profile_config_validate q
            \<lparr>pl_semantic_role = role, pl_max_control_frame_bytes = BASELINE_MAX_CONTROL_FRAME_BYTES,
             pl_max_negotiation_frame_bytes = BASELINE_MAX_NEGOTIATION_FRAME_BYTES,
             pl_max_incoming_message_bytes = max_incoming,
             pl_reliable_receive =
               \<lparr>rr_scratch_bytes = BASELINE_RELIABLE_SCRATCH_BYTES, rr_max_staging_bytes = staging\<rparr>\<rparr> e))"

definition profile_reliable_receive_limits :: "('v, 't) profile_config \<Rightarrow> reliable_receive_limits" where
  "profile_reliable_receive_limits p = pl_reliable_receive (pf_limits p)"

section \<open>Errors up to an admitted connection\<close>

datatype profile_bootstrap_failure =
    FailureTransport
  | FailureHandshakeMetadata
  | FailureAlpn
  | FailureDatagramUnsupported
  | FailureControl
  | FailureSettings
  | FailureRoleMismatch
  | FailureProtocolState

definition profile_bootstrap_failure_of :: "profile_bootstrap_error \<Rightarrow> profile_bootstrap_failure" where
  "profile_bootstrap_failure_of e =
     (case e of
        BootstrapConnection _ \<Rightarrow> FailureTransport
      | MissingHandshakeData \<Rightarrow> FailureHandshakeMetadata
      | UnexpectedHandshakeDataType \<Rightarrow> FailureHandshakeMetadata
      | WrongAlpn \<Rightarrow> FailureAlpn
      | DatagramUnsupported \<Rightarrow> FailureDatagramUnsupported
      | BootstrapFrame _ \<Rightarrow> FailureControl
      | BootstrapSettings _ \<Rightarrow> FailureSettings
      | PeerRoleMismatch _ _ \<Rightarrow> FailureRoleMismatch
      | WrongQuicSide _ _ \<Rightarrow> FailureProtocolState
      | ZeroRttControlStream \<Rightarrow> FailureProtocolState
      | UnexpectedFrameBeforeReady _ \<Rightarrow> FailureProtocolState
      | DuplicateSettings \<Rightarrow> FailureProtocolState
      | SettingsAfterReady \<Rightarrow> FailureProtocolState
      | SettingsOwnedByBootstrap \<Rightarrow> FailureProtocolState
      | ControlChannelPoisoned \<Rightarrow> FailureProtocolState)"

datatype profile_connection_error_kind =
    ConfigurationMismatch
  | AdmissionAtCapacity
  | ConnectSetup
  | KindHandshake
  | KindBootstrap profile_bootstrap_failure

record 'e public_profile_error =
  pp_kind :: profile_connection_error_kind
  pp_diagnostic :: "'e profile_connection_error option"

definition public_profile_error_of :: "'e profile_connection_error \<Rightarrow> 'e public_profile_error" where
  "public_profile_error_of e =
     (case e of
        ConnectionAtCapacity \<Rightarrow> \<lparr>pp_kind = AdmissionAtCapacity, pp_diagnostic = None\<rparr>
      | ConnectionPreflight _ \<Rightarrow> \<lparr>pp_kind = ConfigurationMismatch, pp_diagnostic = Some e\<rparr>
      | ConnectFailed _ \<Rightarrow> \<lparr>pp_kind = ConnectSetup, pp_diagnostic = Some e\<rparr>
      | HandshakeFailed _ \<Rightarrow> \<lparr>pp_kind = KindHandshake, pp_diagnostic = Some e\<rparr>
      | BootstrapFailed b \<Rightarrow>
          \<lparr>pp_kind = KindBootstrap (profile_bootstrap_failure_of b), pp_diagnostic = Some e\<rparr>)"

section \<open>Connecting and accepting\<close>

text \<open>An admitted connection, with the permit it holds, and the limits of its reliable streams.\<close>

record ('q, 'w, 'r) profile_ready_connection =
  pq_quinn :: 'q
  pq_ready :: "('w, 'r) profile_ready"
  pq_reliable_receive :: reliable_receive_limits

definition from_profile ::
  "('q \<times> ('w, 'r) profile_ready, 'e profile_connection_error) result \<Rightarrow> reliable_receive_limits \<Rightarrow>
     (('q, 'w, 'r) profile_ready_connection, 'e public_profile_error) result" where
  "from_profile x limits =
     (case x of
        Ok (q, ready) \<Rightarrow> Ok \<lparr>pq_quinn = q, pq_ready = ready, pq_reliable_receive = limits\<rparr>
      | Err e \<Rightarrow> Err (public_profile_error_of e))"

definition client_connect ::
  "(nat \<Rightarrow> bool) \<Rightarrow> ('q, 'w, 'r) bootstrap_ops \<Rightarrow> ('v, 't) configured_endpoint \<Rightarrow> ('v, 't) profile_config \<Rightarrow>
     (('q, connection_error) result awaited, 'e) result \<Rightarrow>
     ((('q, 'w, 'r) profile_ready_connection, 'e public_profile_error) result awaited
       \<times> ('v, 't) configured_endpoint) exec" where
  "client_connect alloc bo ep profile connecting = do {
     (x, ep) \<leftarrow> connect_profile_ready alloc bo ep (pf_inner profile) connecting;
     Some (case x of
         Cancelled \<Rightarrow> Cancelled
       | Done y \<Rightarrow> Done (from_profile y (profile_reliable_receive_limits profile)), ep) }"

definition server_accept ::
  "(nat \<Rightarrow> bool) \<Rightarrow> ('q, 'w, 'r) bootstrap_ops \<Rightarrow> ('v, 't) configured_endpoint \<Rightarrow> ('v, 't) profile_config \<Rightarrow>
     (('q, connection_error) result awaited, connection_error) result option awaited \<Rightarrow>
     ((('q, 'w, 'r) profile_ready_connection, 'e public_profile_error) result option awaited
       \<times> ('v, 't) configured_endpoint) exec" where
  "server_accept alloc bo ep profile incoming = do {
     (x, ep) \<leftarrow> accept_profile_ready alloc bo ep (pf_inner profile) incoming;
     Some (case x of
         Cancelled \<Rightarrow> Cancelled
       | Done None \<Rightarrow> Done None
       | Done (Some y) \<Rightarrow> Done (Some (from_profile y (profile_reliable_receive_limits profile))), ep) }"

end
