(* ===== verification/Public_Flow.thy ===== *)
theory Public_Flow
  imports Flow_Control
begin

text \<open>
  What the host says and hears of flows, \<open>crates/runen-net-quic/src/public_flow.rs\<close>. An error that may
  be retried gives back the request or the payload it was called with.
\<close>

record outbound_flow_config =
  oc_key :: delivery_flow_key
  oc_mode :: delivery_mode
  oc_policy :: flow_resource_policy
  oc_connection_limits :: delivery_scope_limits

record inbound_flow_config =
  ic_key :: delivery_flow_key
  ic_policy :: flow_resource_policy
  ic_connection_limits :: delivery_scope_limits

record incoming_flow_request =
  iq_connection :: connection_handle
  iq_inner :: inbound_open

definition request_mode :: "incoming_flow_request \<Rightarrow> delivery_mode" where
  "request_mode q = io_mode (iq_inner q)"

definition request_max_message_bytes :: "incoming_flow_request \<Rightarrow> u64" where
  "request_max_message_bytes q = io_max_message_bytes (iq_inner q)"

datatype flow_command_error =
    CmdNotEstablished
  | CmdBusy
  | CmdTerminal
  | CmdWrongConnection
  | CmdWrongDirection
  | CmdInvalidConfiguration
  | CmdAlreadyExists
  | CmdPending
  | CmdUnknownFlow
  | CmdStaleRequest
  | CmdMessageLimit
  | CmdResourceLimit
  | CmdDatagramTooSmall
  | CmdFlowTerminated
  | CmdProtocolFailure
  | CmdConnectionFailure

datatype incoming_flow_decision_error =
    DecisionRetryable incoming_flow_request flow_command_error
  | DecisionFailed flow_command_error

definition decision_reason :: "incoming_flow_decision_error \<Rightarrow> flow_command_error" where
  "decision_reason e = (case e of DecisionRetryable _ r \<Rightarrow> r | DecisionFailed r \<Rightarrow> r)"

definition decision_into_request :: "incoming_flow_decision_error \<Rightarrow> incoming_flow_request option" where
  "decision_into_request e = (case e of DecisionRetryable q _ \<Rightarrow> Some q | DecisionFailed _ \<Rightarrow> None)"

datatype submission_error =
    SubmissionRetryable delivery_flow_key bytes flow_command_error
  | SubmissionFailed flow_command_error

definition submission_reason :: "submission_error \<Rightarrow> flow_command_error" where
  "submission_reason e = (case e of SubmissionRetryable _ _ r \<Rightarrow> r | SubmissionFailed r \<Rightarrow> r)"

definition submission_key :: "submission_error \<Rightarrow> delivery_flow_key option" where
  "submission_key e = (case e of SubmissionRetryable k _ _ \<Rightarrow> Some k | SubmissionFailed _ \<Rightarrow> None)"

text \<open>Borrowed or taken, the payload is the same.\<close>

definition submission_payload :: "submission_error \<Rightarrow> bytes option" where
  "submission_payload e = (case e of SubmissionRetryable _ p _ \<Rightarrow> Some p | SubmissionFailed _ \<Rightarrow> None)"

datatype flow_rejection_reason = RejectionResourceLimit | RejectionMessageLimit

definition flow_rejection_reason_of :: "flow_reject_reason \<Rightarrow> flow_rejection_reason" where
  "flow_rejection_reason_of r =
     (case r of RejectResourceLimit \<Rightarrow> RejectionResourceLimit | RejectMessageLimit \<Rightarrow> RejectionMessageLimit)"

definition flow_reject_reason_of :: "flow_rejection_reason \<Rightarrow> flow_reject_reason" where
  "flow_reject_reason_of r =
     (case r of RejectionResourceLimit \<Rightarrow> RejectResourceLimit | RejectionMessageLimit \<Rightarrow> RejectMessageLimit)"

datatype flow_termination_origin = OriginLocal | OriginRemote

datatype flow_termination_cause =
  CauseNormal | CauseResourceFailure | CauseProtocolFailure | CauseReliableDeliveryFailure

definition flow_termination_cause_of :: "flow_terminate_reason \<Rightarrow> flow_termination_cause" where
  "flow_termination_cause_of r =
     (case r of TerminateNormal \<Rightarrow> CauseNormal | TerminateResourceFailure \<Rightarrow> CauseResourceFailure
              | TerminateProtocolFailure \<Rightarrow> CauseProtocolFailure
              | TerminateReliableDeliveryFailure \<Rightarrow> CauseReliableDeliveryFailure)"

datatype submit_outcome =
    OutcomeAccepted u64 nat
  | OutcomeTooLarge
  | OutcomePressure
  | OutcomeCounterExhausted
  | OutcomeCurrentDatagramSize

definition submit_acceptance :: "submit_outcome \<Rightarrow> delivery_acceptance" where
  "submit_acceptance x = (case x of OutcomeAccepted _ _ \<Rightarrow> DeliveryAccepted | _ \<Rightarrow> DeliveryNotAccepted)"

definition submit_outcome_of :: "submission_outcome \<Rightarrow> submit_outcome" where
  "submit_outcome_of x =
     (case x of
        Accepted i drops \<Rightarrow> OutcomeAccepted i drops
      | RejectedTooLarge \<Rightarrow> OutcomeTooLarge
      | RejectedPressure \<Rightarrow> OutcomePressure
      | RejectedCounterExhausted \<Rightarrow> OutcomeCounterExhausted)"

end
