(* ===== verification/Public_Connection.thy ===== *)
theory Public_Connection
  imports Connection_Driver Facade Public_Flow
begin

text \<open>
  The connection a host holds, \<open>Connection\<close> of \<open>crates/runen-net-quic/src/public_connection.rs\<close>: it
  negotiates over the control stream, hands over to the driver once both ends agree, and turns every
  outcome into at most one event or error for each poll.
\<close>

section \<open>Errors\<close>

datatype negotiation_failure =
    FailureMalformedOffer
  | FailureProtocolIncompatible
  | FailureRequiredCapabilityUnavailable
  | FailureRequiredSchemaUnavailable
  | FailureResourceLimitExceeded
  | FailureInvalidSelection

definition negotiation_failure_of :: "negotiation_outcome \<Rightarrow> negotiation_failure" where
  "negotiation_failure_of x =
     (case x of
        OutMalformedOffer \<Rightarrow> FailureMalformedOffer
      | OutProtocolIncompatible \<Rightarrow> FailureProtocolIncompatible
      | OutRequiredCapabilityUnavailable \<Rightarrow> FailureRequiredCapabilityUnavailable
      | OutRequiredSchemaUnavailable \<Rightarrow> FailureRequiredSchemaUnavailable
      | OutResourceLimitExceeded \<Rightarrow> FailureResourceLimitExceeded
      | OutInvalidSelection \<Rightarrow> FailureInvalidSelection)"

datatype negotiation_report_status = ReportUnavailable | ReportSent | ReportFailed profile_bootstrap_failure

datatype connection_state_error = AuthoritySelectionNotRequired | ConnectionIsTerminal

datatype connection_error_kind =
    KindLocalNegotiation negotiation_failure negotiation_report_status
  | KindRemoteNegotiation negotiation_failure
  | KindNegotiationProtocol
  | KindControl profile_bootstrap_failure bool
  | KindManagerState
  | KindUnexpectedCoreState
  | KindEstablishedActivation
  | KindEstablishedResource
  | KindEstablishedProtocol
  | KindEstablishedTransport
  | KindEstablishedControl profile_bootstrap_failure
  | KindState connection_state_error

datatype established_resource_diagnostic = DiagnosticAllocation | DiagnosticCapacityOverflow

datatype connection_resource_diagnostic =
    ProfileControlAllocation bool
  | DiagnosticEstablished established_resource_diagnostic

datatype opaque_connection_diagnostic =
    OpaqueProfileControl profile_bootstrap_error
  | OpaqueControl profile_bootstrap_error "negotiation_control_error option"
  | OpaqueNegotiation negotiation_control_error
  | OpaqueEstablishedActivation flow_control_config_error
  | OpaqueEstablishedDriver driver_error
  | OpaqueUnexpectedCoreReceive receive_outcome

datatype connection_diagnostic =
    DiagnosticResource connection_resource_diagnostic
  | DiagnosticOpaque opaque_connection_diagnostic

record public_error =
  pe_kind :: connection_error_kind
  pe_diagnostic :: "connection_diagnostic option"

definition classified :: "connection_error_kind \<Rightarrow> public_error" where
  "classified k = \<lparr>pe_kind = k, pe_diagnostic = None\<rparr>"

definition diagnosed :: "connection_error_kind \<Rightarrow> connection_diagnostic \<Rightarrow> public_error" where
  "diagnosed k x = \<lparr>pe_kind = k, pe_diagnostic = Some x\<rparr>"

definition state_error :: "connection_state_error \<Rightarrow> public_error" where
  "state_error e = classified (KindState e)"

definition profile_control_is_allocation :: "profile_bootstrap_error \<Rightarrow> bool" where
  "profile_control_is_allocation e \<longleftrightarrow> e = BootstrapFrame ControlAllocation"

definition diagnostic_profile_control :: "profile_bootstrap_error \<Rightarrow> connection_diagnostic" where
  "diagnostic_profile_control e =
     (if profile_control_is_allocation e then DiagnosticResource (ProfileControlAllocation False)
      else DiagnosticOpaque (OpaqueProfileControl e))"

definition diagnostic_control ::
  "profile_bootstrap_error \<Rightarrow> negotiation_control_error option \<Rightarrow> connection_diagnostic" where
  "diagnostic_control e cleanup =
     (if profile_control_is_allocation e then DiagnosticResource (ProfileControlAllocation (cleanup \<noteq> None))
      else DiagnosticOpaque (OpaqueControl e cleanup))"

section \<open>Events\<close>

datatype unreliable_receive_drop_reason = DropPressure nat | DropTooLarge | DropStaleSequenced

datatype connection_event =
    EventAuthoritySelectionRequired connection_handle
  | EventEstablished connection_handle
  | EventPeerClosed connection_handle
  | EventIncomingFlowRequested incoming_flow_request
  | EventOutboundFlowEstablished delivery_flow_key
  | EventOutboundFlowRejected delivery_flow_key flow_rejection_reason
  | EventDataReady delivery_flow_key nat nat
  | EventUnreliableReceiveDropped delivery_flow_key unreliable_receive_drop_reason
  | EventUnreliableTransportDropped delivery_flow_key u64
  | EventFlowTerminated delivery_flow_key flow_termination_origin flow_termination_cause "flow_termination option"

definition map_control_send_effect :: "flow_control_send_effect \<Rightarrow> connection_event option" where
  "map_control_send_effect x =
     (case x of
        EffectFailedAfterAccept _ key r t \<Rightarrow>
          Some (EventFlowTerminated key OriginLocal (flow_termination_cause_of r) t)
      | EffectReportOnly _ key r t \<Rightarrow>
          Some (EventFlowTerminated key OriginLocal (flow_termination_cause_of r) t)
      | EffectLocalTerminated flow r t \<Rightarrow>
          Some (EventFlowTerminated (ff_key flow) OriginLocal (flow_termination_cause_of r) (Some t))
      | EffectOpenPrepared _ \<Rightarrow> None
      | EffectInboundRejected _ _ \<Rightarrow> None
      | EffectInboundAccepted _ \<Rightarrow> None)"

definition map_core_received ::
  "delivery_flow_key \<Rightarrow> receive_outcome \<Rightarrow> (connection_event option, public_error) result" where
  "map_core_received key x =
     (case x of
        Buffered drops \<Rightarrow> Ok (Some (EventDataReady key 1 drops))
      | DroppedByPressure drops \<Rightarrow> Ok (Some (EventUnreliableReceiveDropped key (DropPressure drops)))
      | DroppedTooLarge \<Rightarrow> Ok (Some (EventUnreliableReceiveDropped key DropTooLarge))
      | StaleSequenced \<Rightarrow> Ok (Some (EventUnreliableReceiveDropped key DropStaleSequenced))
      | _ \<Rightarrow> Err (diagnosed KindUnexpectedCoreState (DiagnosticOpaque (OpaqueUnexpectedCoreReceive x))))"

definition map_reliable_progress :: "active_reliable_progress \<Rightarrow> connection_event option" where
  "map_reliable_progress x =
     (case x of
        OutboundProgress _ (SendClosed t) \<Rightarrow> Some (EventFlowTerminated (ft_key t) OriginLocal CauseNormal (Some t))
      | InboundProgress (MessagesBuffered key n) \<Rightarrow> Some (EventDataReady key n 0)
      | InboundProgress (ReceiveClosed key (Some t)) \<Rightarrow>
          Some (EventFlowTerminated key OriginRemote CauseNormal (Some t))
      | _ \<Rightarrow> None)"

definition map_established_progress ::
  "connection_handle \<Rightarrow> connection_progress \<Rightarrow> (connection_event option, public_error) result" where
  "map_established_progress connection p =
     (case p of
        ControlSendStarted \<Rightarrow> Ok None
      | ControlSendCompleted x \<Rightarrow> Ok (map_control_send_effect x)
      | ProgressInboundOpen q \<Rightarrow>
          Ok (Some (EventIncomingFlowRequested \<lparr>iq_connection = connection, iq_inner = q\<rparr>))
      | ProgressOutboundEstablished flow \<Rightarrow> Ok (Some (EventOutboundFlowEstablished (ff_key flow)))
      | ProgressOutboundRejected _ key r \<Rightarrow> Ok (Some (EventOutboundFlowRejected key (flow_rejection_reason_of r)))
      | ProgressRemoteTerminated flow r t \<Rightarrow>
          Ok (Some (EventFlowTerminated (ff_key flow) OriginRemote (flow_termination_cause_of r) (Some t)))
      | ReliableOutboundAcquisition _ \<Rightarrow> Ok None
      | ReliableInboundAcquired \<Rightarrow> Ok None
      | ReliableProgress x \<Rightarrow> Ok (map_reliable_progress x)
      | DatagramOutbound (DatagramDriven _ key (DroppedTransport i)) \<Rightarrow>
          Ok (Some (EventUnreliableTransportDropped key i))
      | DatagramOutbound _ \<Rightarrow> Ok None
      | DatagramInbound DiscardedUnknownFlow \<Rightarrow> Ok None
      | DatagramInbound (CoreReceived key x) \<Rightarrow> map_core_received key x
      | FlowFailureHandled _ \<Rightarrow> Ok None)"

section \<open>How driver errors are reported\<close>

definition profile_control_is_connection_close_observation :: "profile_bootstrap_error \<Rightarrow> bool" where
  "profile_control_is_connection_close_observation e =
     (case e of
        BootstrapConnection _ \<Rightarrow> True
      | BootstrapFrame (ControlRead (StreamReadError (ReadConnectionLost _))) \<Rightarrow> True
      | BootstrapFrame (ControlWrite (WriteConnectionLost _)) \<Rightarrow> True
      | _ \<Rightarrow> False)"

definition driver_error_is_connection_close_observation :: "driver_error \<Rightarrow> bool" where
  "driver_error_is_connection_close_observation e =
     (case e of
        DriverControlReceive e \<Rightarrow> profile_control_is_connection_close_observation e
      | DriverControlSend e \<Rightarrow> profile_control_is_connection_close_observation (sf_error e)
      | DriverReliable (ReliableConnection _) \<Rightarrow> True
      | DriverReliable (OutboundActiveBinding _ (SendIo ConnectionLost)) \<Rightarrow> True
      | DriverReliable (InboundActiveBinding _ (ReceiveIo ConnectionLost)) \<Rightarrow> True
      | DriverDatagram (DatagramConnection _) \<Rightarrow> True
      | DriverDatagram (DatagramSend _ DriveConnectionLost) \<Rightarrow> True
      | _ \<Rightarrow> False)"

definition peer_close_preceding_event :: "driver_error \<Rightarrow> connection_event option" where
  "peer_close_preceding_event e =
     (case e of DriverControlSend e \<Rightarrow> map_control_send_effect (sf_effect e) | _ \<Rightarrow> None)"

definition inbound_admission_is_allocation :: "inbound_admission_error \<Rightarrow> bool" where
  "inbound_admission_is_allocation e \<longleftrightarrow> e = AdmitAllocation \<or> e = AdmitRegistry RegistryAllocationFailed"

definition flow_control_is_allocation :: "flow_control_error \<Rightarrow> bool" where
  "flow_control_is_allocation e \<longleftrightarrow> e = FlowAllocation \<or> e = ControlRegistry RegistryAllocationFailed"

definition send_error_is_allocation :: "send_error \<Rightarrow> bool" where
  "send_error_is_allocation e \<longleftrightarrow> e = SendRegistry RegistryAllocationFailed"

definition receive_error_is_allocation :: "receive_error \<Rightarrow> bool" where
  "receive_error_is_allocation e \<longleftrightarrow> e = ReceiveAllocationFailed \<or> e = ReceiveRegistry RegistryAllocationFailed"

definition reliable_io_is_allocation :: "reliable_io_error \<Rightarrow> bool" where
  "reliable_io_is_allocation e =
     (case e of
        ReliableAllocation \<Rightarrow> True
      | OutboundFinish _ s \<Rightarrow> send_error_is_allocation s
      | OutboundAcquisitionBinding _ s \<Rightarrow> send_error_is_allocation s
      | OutboundActiveBinding _ s \<Rightarrow> send_error_is_allocation s
      | InboundConstruction r \<Rightarrow> receive_error_is_allocation r
      | InboundActiveBinding _ r \<Rightarrow> receive_error_is_allocation r
      | ReliableState _ \<Rightarrow> False
      | ReliableConnection _ \<Rightarrow> False)"

definition datagram_io_is_allocation :: "datagram_io_error \<Rightarrow> bool" where
  "datagram_io_is_allocation e =
     (case e of
        DatagramAllocation \<Rightarrow> True
      | DatagramReceive f \<Rightarrow> drf_error f = DatagramAllocationFailed
      | DatagramSend _ s \<Rightarrow> s = DriveAllocationFailed
      | DatagramState _ \<Rightarrow> False
      | DatagramConnection _ \<Rightarrow> False)"

definition connection_driver_is_allocation :: "driver_error \<Rightarrow> bool" where
  "connection_driver_is_allocation e =
     (case e of
        DriverOutboundOpen x \<Rightarrow> x = OpenAllocation
      | DriverInboundAdmission x \<Rightarrow> inbound_admission_is_allocation x
      | DriverControlReceive x \<Rightarrow> profile_control_is_allocation x
      | DriverControlSend x \<Rightarrow> profile_control_is_allocation (sf_error x)
      | ReceivedFlowControl x \<Rightarrow> flow_control_is_allocation x
      | FailurePreparation x \<Rightarrow> flow_control_is_allocation x
      | DriverReliable x \<Rightarrow> reliable_io_is_allocation x
      | DriverDatagram x \<Rightarrow> datagram_io_is_allocation x
      | DriverState _ \<Rightarrow> False
      | DriverDatagramSubmission _ \<Rightarrow> False
      | DatagramProfileUnavailable \<Rightarrow> False)"

definition connection_driver_resource_diagnostic :: "driver_error \<Rightarrow> established_resource_diagnostic option" where
  "connection_driver_resource_diagnostic e =
     (if connection_driver_is_allocation e then Some DiagnosticAllocation
      else if e = DriverReliable (ReliableState CapacityOverflow) then Some DiagnosticCapacityOverflow
      else None)"

definition established_driver_error_kind :: "driver_error \<Rightarrow> connection_error_kind" where
  "established_driver_error_kind e =
     (case e of
        DriverControlSend x \<Rightarrow> KindEstablishedControl (profile_bootstrap_failure_of (sf_error x))
      | DriverControlReceive x \<Rightarrow> KindEstablishedControl (profile_bootstrap_failure_of x)
      | DriverState DriverIsTerminal \<Rightarrow> KindState ConnectionIsTerminal
      | DriverReliable ReliableAllocation \<Rightarrow> KindEstablishedResource
      | DriverReliable (ReliableState CapacityOverflow) \<Rightarrow> KindEstablishedResource
      | DriverReliable (InboundConstruction ReceiveAllocationFailed) \<Rightarrow> KindEstablishedResource
      | DriverDatagram DatagramAllocation \<Rightarrow> KindEstablishedResource
      | ReceivedFlowControl FlowAllocation \<Rightarrow> KindEstablishedResource
      | FailurePreparation FlowAllocation \<Rightarrow> KindEstablishedResource
      | DriverReliable (ReliableConnection _) \<Rightarrow> KindEstablishedTransport
      | DriverReliable (OutboundActiveBinding _ (SendIo ConnectionLost)) \<Rightarrow> KindEstablishedTransport
      | DriverReliable (InboundActiveBinding _ (ReceiveIo ConnectionLost)) \<Rightarrow> KindEstablishedTransport
      | DriverDatagram (DatagramConnection _) \<Rightarrow> KindEstablishedTransport
      | DriverDatagram (DatagramSend _ ProfileUnavailable) \<Rightarrow> KindEstablishedTransport
      | DriverDatagram (DatagramSend _ DriveConnectionLost) \<Rightarrow> KindEstablishedTransport
      | DatagramProfileUnavailable \<Rightarrow> KindEstablishedTransport
      | DriverState ControlSendBusy \<Rightarrow> KindUnexpectedCoreState
      | DriverOutboundOpen _ \<Rightarrow> KindUnexpectedCoreState
      | DriverInboundAdmission _ \<Rightarrow> KindUnexpectedCoreState
      | DriverDatagramSubmission _ \<Rightarrow> KindUnexpectedCoreState
      | ReceivedFlowControl _ \<Rightarrow> KindEstablishedProtocol
      | DriverReliable _ \<Rightarrow> KindEstablishedProtocol
      | DriverDatagram _ \<Rightarrow> KindEstablishedProtocol
      | FailurePreparation _ \<Rightarrow> KindEstablishedProtocol)"

definition map_established_driver_error :: "driver_error \<Rightarrow> connection_event option \<times> public_error" where
  "map_established_driver_error e =
     (case e of
        DriverControlSend x \<Rightarrow>
          (map_control_send_effect (sf_effect x),
           diagnosed (KindEstablishedControl (profile_bootstrap_failure_of (sf_error x)))
             (diagnostic_profile_control (sf_error x)))
      | DriverState DriverIsTerminal \<Rightarrow> (None, state_error ConnectionIsTerminal)
      | _ \<Rightarrow>
        (case connection_driver_resource_diagnostic e of
           Some x \<Rightarrow> (None, diagnosed (established_driver_error_kind e) (DiagnosticResource (DiagnosticEstablished x)))
         | None \<Rightarrow>
             (None, diagnosed (established_driver_error_kind e) (DiagnosticOpaque (OpaqueEstablishedDriver e)))))"

section \<open>How commands are refused\<close>

definition map_driver_state_error :: "driver_state_error \<Rightarrow> flow_command_error" where
  "map_driver_state_error e = (case e of ControlSendBusy \<Rightarrow> CmdBusy | DriverIsTerminal \<Rightarrow> CmdTerminal)"

definition map_outbound_open_error :: "outbound_open_error \<Rightarrow> flow_command_error" where
  "map_outbound_open_error e =
     (case e of
        OpenWrongConnection _ _ \<Rightarrow> CmdWrongConnection
      | OpenWrongDirection _ \<Rightarrow> CmdWrongDirection
      | OpenInvalidPolicy _ \<Rightarrow> CmdInvalidConfiguration
      | StableMessageLimitMismatch _ _ \<Rightarrow> CmdInvalidConfiguration
      | StableMessageLimitOutOfRange \<Rightarrow> CmdInvalidConfiguration
      | CoreFlowAlreadyExists _ \<Rightarrow> CmdAlreadyExists
      | PendingCoreFlow _ \<Rightarrow> CmdPending
      | PeerMessageLimit _ _ \<Rightarrow> CmdMessageLimit
      | PeerActiveFlowLimit _ _ \<Rightarrow> CmdResourceLimit
      | OpenFlowId _ \<Rightarrow> CmdResourceLimit
      | OpenAllocation \<Rightarrow> CmdResourceLimit
      | DatagramTooSmall _ _ \<Rightarrow> CmdDatagramTooSmall
      | DatagramUnavailable \<Rightarrow> CmdConnectionFailure
      | DatagramEnvelope _ \<Rightarrow> CmdProtocolFailure
      | OpenBody _ \<Rightarrow> CmdProtocolFailure)"

definition map_flow_command_driver_error :: "driver_error \<Rightarrow> flow_command_error" where
  "map_flow_command_driver_error e =
     (case e of
        DriverState x \<Rightarrow> map_driver_state_error x
      | DriverOutboundOpen x \<Rightarrow> map_outbound_open_error x
      | _ \<Rightarrow> CmdConnectionFailure)"

definition map_inbound_decision_driver_error :: "driver_error \<Rightarrow> flow_command_error" where
  "map_inbound_decision_driver_error e =
     (case e of
        DriverState x \<Rightarrow> map_driver_state_error x
      | DriverInboundAdmission (RequestNotPending _) \<Rightarrow> CmdStaleRequest
      | _ \<Rightarrow> CmdConnectionFailure)"

definition map_core_submission_error :: "delivery_operation_error \<Rightarrow> flow_command_error" where
  "map_core_submission_error e =
     (case e of UnknownFlow \<Rightarrow> CmdUnknownFlow | WrongDirection \<Rightarrow> CmdWrongDirection | NotReliable \<Rightarrow> CmdProtocolFailure)"

definition map_finish_driver_error :: "driver_error \<Rightarrow> flow_command_error" where
  "map_finish_driver_error e =
     (case e of
        DriverState x \<Rightarrow> map_driver_state_error x
      | DriverReliable (ReliableState OutboundAcquisitionPending) \<Rightarrow> CmdPending
      | DriverReliable (ReliableState UnknownOutboundFlow) \<Rightarrow> CmdUnknownFlow
      | DriverReliable (OutboundFinish _ PendingData) \<Rightarrow> CmdPending
      | DriverReliable (OutboundFinish _ AlreadyFinishing) \<Rightarrow> CmdPending
      | DriverReliable (OutboundFinish _ SendTerminal) \<Rightarrow> CmdFlowTerminated
      | DriverReliable (OutboundFinish _ (SendCore UnknownFlow)) \<Rightarrow> CmdFlowTerminated
      | FailurePreparation FlowAllocation \<Rightarrow> CmdResourceLimit
      | FailurePreparation (UnknownActiveFlow _) \<Rightarrow> CmdFlowTerminated
      | FailurePreparation (CoreState UnknownFlow) \<Rightarrow> CmdFlowTerminated
      | FailurePreparation _ \<Rightarrow> CmdProtocolFailure
      | _ \<Rightarrow> CmdConnectionFailure)"

definition map_datagram_submit_outcome ::
  "datagram_submit_outcome \<Rightarrow> (submit_outcome, flow_command_error) result" where
  "map_datagram_submit_outcome x =
     (case x of
        Submitted (DatagramAccepted i drops) \<Rightarrow> Ok (OutcomeAccepted i drops)
      | Submitted DatagramTooLarge \<Rightarrow> Ok OutcomeTooLarge
      | Submitted DatagramPressure \<Rightarrow> Ok OutcomePressure
      | Submitted DatagramCounterExhausted \<Rightarrow> Ok OutcomeCounterExhausted
      | Submitted DatagramCurrentSize \<Rightarrow> Ok OutcomeCurrentDatagramSize
      | Submitted DatagramTransportUnavailable \<Rightarrow> Err CmdConnectionFailure
      | SubmitFailureHandled _ \<Rightarrow> Err CmdFlowTerminated)"

section \<open>State\<close>

text \<open>
  A connection that negotiates. Its local settings are those its sender carries; the permit has no
  data, and whoever consumes the core gives it back.
\<close>

record 'q negotiation_core =
  nk_connection :: connection_handle
  nk_quinn :: 'q
  nk_side :: wire_side
  nk_peer_settings :: settings
  nk_exchange :: negotiation_exchange
  nk_requirements :: negotiation_requirements

datatype pending_send_disposition =
    DispositionContinue
  | DispositionEstablish
  | DispositionTerminal negotiation_outcome

text \<open>A future under way is what it owns: a direction of the control stream, and the frame to send.\<close>

datatype ('q, 'w, 'f, 'r) connection_state =
    StateSending "'q negotiation_core" "'r control_receiver" "'w control_sender" control_frame pending_send_disposition
  | StateReceiving "'q negotiation_core" "'w control_sender" "'r control_receiver"
  | StateAuthoritySelection "'q negotiation_core" "'w control_sender" "'r control_receiver"
  | StateNegotiated "('q, 'w, 'r) connection_core"
  | StateEstablished "('q, 'w, 'f, 'r) connection_driver"
  | StatePeerClosed "('q, 'w, 'f, 'r) connection_driver" bool
  | StateEstablishedFailed "('q, 'w, 'f, 'r) connection_driver" connection_error_kind "public_error option"
  | StateActivationFailed "('q, 'w, 'r) connection_core"
  | StateFailed "'q negotiation_core"
  | StateTransitioning

record ('q, 'w, 'f, 'r) connection =
  pb_connection :: connection_handle
  pb_reliable_receive :: reliable_receive_limits
  pb_state :: "('q, 'w, 'f, 'r) connection_state"

text \<open>What may differ from one transition to the next.\<close>

record connection_turn =
  tn_driver :: driver_turn
  tn_exchange :: exchange_allocs

definition MAX_INTERNAL_TRANSITIONS_PER_POLL :: nat where
  "MAX_INTERNAL_TRANSITIONS_PER_POLL = 16"

definition into_established ::
  "'q negotiation_core \<Rightarrow> 'w control_sender \<Rightarrow> 'r control_receiver \<Rightarrow> ('q, 'w, 'r) connection_core" where
  "into_established core sender receiver =
     \<lparr>cc_connection = nk_connection core, cc_quinn = nk_quinn core,
      cc_profile = \<lparr>pr_side = nk_side core, pr_peer_settings = nk_peer_settings core, pr_sender = sender,
        pr_receiver = receiver\<rparr>,
      cc_exchange = nk_exchange core\<rparr>"

section \<open>Transitions of the negotiation\<close>

definition close_core ::
  "('q, 'w, 'r) quinn_ops \<Rightarrow> 'q negotiation_core \<Rightarrow> 'q negotiation_core" where
  "close_core qo core = core\<lparr>nk_quinn := close_negotiation_failed qo (nk_quinn core)\<rparr>"

text \<open>The control error of an exchange that ends the connection, with the core after its close.\<close>

definition terminal_controller_error ::
  "('q, 'w, 'r) quinn_ops \<Rightarrow> 'q negotiation_core \<Rightarrow> negotiation_control_error \<Rightarrow>
     'q negotiation_core \<times> public_error" where
  "terminal_controller_error qo core e =
     (case e of
        LocalFailure out _ \<Rightarrow>
          (close_core qo core, classified (KindLocalNegotiation (negotiation_failure_of out) ReportUnavailable))
      | ProfileProtocol x \<Rightarrow>
          (core\<lparr>nk_quinn := close_negotiation_protocol_error qo (nk_quinn core)\<rparr>,
           diagnosed KindNegotiationProtocol (DiagnosticOpaque (OpaqueNegotiation (ProfileProtocol x))))
      | ManagerState x \<Rightarrow>
          (close_core qo core, diagnosed KindManagerState (DiagnosticOpaque (OpaqueNegotiation (ManagerState x))))
      | UnexpectedCoreStatus x \<Rightarrow>
          (close_core qo core,
           diagnosed KindUnexpectedCoreState (DiagnosticOpaque (OpaqueNegotiation (UnexpectedCoreStatus x)))))"

definition control_connection_error ::
  "profile_bootstrap_error \<Rightarrow> negotiation_control_error option \<Rightarrow> public_error" where
  "control_connection_error e cleanup =
     diagnosed (KindControl (profile_bootstrap_failure_of e) (cleanup \<noteq> None)) (diagnostic_control e cleanup)"

text \<open>
  Where a step of the negotiation leads: to another state, with nothing, an event or an error for
  the host. The core in the state is the one after the step.
\<close>

datatype ('q, 'w, 'f, 'r) connection_transition =
    ToState "('q, 'w, 'f, 'r) connection_state"
  | ToEvent "('q, 'w, 'f, 'r) connection_state" connection_event
  | ToError "('q, 'w, 'f, 'r) connection_state" public_error

text \<open>What both kinds of operation do with an error of the exchange.\<close>

definition transition_from_error ::
  "('q, 'w, 'r) quinn_ops \<Rightarrow> 'q negotiation_core \<Rightarrow> 'w control_sender \<Rightarrow> 'r control_receiver \<Rightarrow>
     negotiation_control_error \<Rightarrow> ('q, 'w, 'f, 'r) connection_transition" where
  "transition_from_error qo core sender receiver e =
     (case e of
        LocalFailure out (Some frame) \<Rightarrow> ToState (StateSending core receiver sender frame (DispositionTerminal out))
      | LocalFailure out None \<Rightarrow>
          ToError (StateFailed (close_core qo core))
            (classified (KindLocalNegotiation (negotiation_failure_of out) ReportUnavailable))
      | _ \<Rightarrow> (case terminal_controller_error qo core e of (core, x) \<Rightarrow> ToError (StateFailed core) x))"

definition transition_from_local_operation ::
  "('q, 'w, 'r) quinn_ops \<Rightarrow> 'q negotiation_core \<Rightarrow> 'w control_sender \<Rightarrow> 'r control_receiver \<Rightarrow>
     (control_frame, negotiation_control_error) result \<Rightarrow> ('q, 'w, 'f, 'r) connection_transition" where
  "transition_from_local_operation qo core sender receiver x =
     (case x of
        Ok frame \<Rightarrow> ToState (StateSending core receiver sender frame DispositionContinue)
      | Err e \<Rightarrow> transition_from_error qo core sender receiver e)"

definition controller_send_disposition :: "control_frame_type \<Rightarrow> pending_send_disposition" where
  "controller_send_disposition t =
     (case t of NegotiationEstablishedType \<Rightarrow> DispositionEstablish | _ \<Rightarrow> DispositionContinue)"

definition transition_from_controller ::
  "('q, 'w, 'r) quinn_ops \<Rightarrow> 'q negotiation_core \<Rightarrow> 'w control_sender \<Rightarrow> 'r control_receiver \<Rightarrow>
     (negotiation_progress, negotiation_control_error) result \<Rightarrow> ('q, 'w, 'f, 'r) connection_transition" where
  "transition_from_controller qo core sender receiver x =
     (case x of
        Ok NxWaiting \<Rightarrow> ToState (StateReceiving core sender receiver)
      | Ok AuthoritySelectionRequired \<Rightarrow>
          ToEvent (StateAuthoritySelection core sender receiver)
            (EventAuthoritySelectionRequired (nk_connection core))
      | Ok (NxSend frame) \<Rightarrow>
          ToState (StateSending core receiver sender frame (controller_send_disposition (cf_type frame)))
      | Ok NxDone \<Rightarrow> ToState (StateNegotiated (into_established core sender receiver))
      | Ok (RemoteFailed out) \<Rightarrow>
          ToError (StateFailed (close_core qo core)) (classified (KindRemoteNegotiation (negotiation_failure_of out)))
      | Err e \<Rightarrow> transition_from_error qo core sender receiver e)"

section \<open>Activation\<close>

text \<open>An activation that fails drops the connection with its permit; its quinn connection is closed.\<close>

definition profile_activate ::
  "('q, 'w, 'r) quinn_ops \<Rightarrow> exchange_allocs \<Rightarrow> ('q, 'w, 'r) profile_ready_connection \<Rightarrow> connection_handle \<Rightarrow>
     compatibility_offer \<Rightarrow> negotiation_requirements \<Rightarrow> negotiation_manager \<Rightarrow> connection_slots \<Rightarrow>
     ((('q, 'w, 'f, 'r) connection, public_error) result \<times> negotiation_manager \<times> connection_slots) exec" where
  "profile_activate qo al p c offer req m slots = do {
     let ready = pq_ready p;
     (x, exchange, m) \<leftarrow> prepare_offer al
       (exchange_from_profile c (ct_local_settings (pr_sender ready)) (pr_peer_settings ready)) m offer;
     let core = \<lparr>nk_connection = c, nk_quinn = pq_quinn p, nk_side = pr_side ready,
       nk_peer_settings = pr_peer_settings ready, nk_exchange = exchange, nk_requirements = req\<rparr>;
     Some (case transition_from_local_operation qo core (pr_sender ready) (pr_receiver ready) x of
         ToState st \<Rightarrow>
           (Ok \<lparr>pb_connection = c, pb_reliable_receive = pq_reliable_receive p, pb_state = st\<rparr>, m, slots)
       | ToEvent st _ \<Rightarrow>
           (Ok \<lparr>pb_connection = c, pb_reliable_receive = pq_reliable_receive p, pb_state = st\<rparr>, m, slots)
       | ToError _ e \<Rightarrow> (Err e, m, permit_drop slots)) }"

definition activate_established_driver ::
  "('q, 'w, 'r) connection_core \<Rightarrow> reliable_receive_limits \<Rightarrow>
     (('q, 'w, 'f, 'r) connection_driver, flow_control_config_error \<times> ('q, 'w, 'r) connection_core) result" where
  "activate_established_driver core limits =
     (case into_flow_control core of
        Err e \<Rightarrow> Err e
      | Ok fcc \<Rightarrow>
          Ok (into_connection_driver (reliable_into_established_io
            (into_reliable_io fcc (rr_scratch_bytes limits) (rr_max_staging_bytes limits)))))"

section \<open>A poll\<close>

type_synonym ('a, 'q, 'w, 'f, 'r) state_op =
  "('a \<times> ('q, 'w, 'f, 'r) connection_state \<times> negotiation_manager \<times> delivery_endpoint) exec"

text \<open>What one transition gives the caller; without anything, the poll goes on.\<close>

type_synonym poll_outcome = "(connection_event, public_error) result poll option"

definition transition_outcome ::
  "('q, 'w, 'f, 'r) connection_transition \<Rightarrow> poll_outcome \<times> ('q, 'w, 'f, 'r) connection_state" where
  "transition_outcome t =
     (case t of ToState st \<Rightarrow> (None, st) | ToEvent st e \<Rightarrow> (Some (Ready (Ok e)), st)
              | ToError st e \<Rightarrow> (Some (Ready (Err e)), st))"

definition poll_negotiation_send ::
  "'w send_ops \<Rightarrow> bool \<Rightarrow> 'w control_sender \<Rightarrow> control_frame \<Rightarrow> pending_send_disposition \<Rightarrow>
     ((unit, profile_bootstrap_error) result \<times> 'w control_sender) poll exec" where
  "poll_negotiation_send ops completes sender frame disposition =
     (if \<not> completes then Some Pending
      else do {
        (x, sender) \<leftarrow> (case disposition of
            DispositionTerminal _ \<Rightarrow> send_terminal_negotiation_failure ops sender (cf_body frame)
          | _ \<Rightarrow> send_frame ops sender (cf_type frame) (cf_body frame));
        Some (case x of Cancelled \<Rightarrow> Pending | Done y \<Rightarrow> Ready (y, sender)) })"

text \<open>The end of a negotiation whose control stream has failed.\<close>

definition control_failed ::
  "('q, 'w, 'r) quinn_ops \<Rightarrow> 'q negotiation_core \<Rightarrow> negotiation_manager \<Rightarrow> delivery_endpoint \<Rightarrow>
     profile_bootstrap_error \<Rightarrow> (poll_outcome, 'q, 'w, 'f, 'r) state_op" where
  "control_failed qo core m ep e = do {
     let core = core\<lparr>nk_quinn := close_for_post_profile_control_error qo (nk_quinn core) e\<rparr>;
     (x, exchange, m) \<leftarrow> exchange_abort (nk_exchange core) m;
     Some (Some (Ready (Err (control_connection_error e (case x of Ok _ \<Rightarrow> None | Err c \<Rightarrow> Some c)))),
       StateFailed (core\<lparr>nk_exchange := exchange\<rparr>), m, ep) }"

definition poll_sending ::
  "('q, 'w, 'f, 'r) driver_ops \<Rightarrow> connection_turn \<Rightarrow> 'q negotiation_core \<Rightarrow> 'r control_receiver \<Rightarrow>
     'w control_sender \<Rightarrow> control_frame \<Rightarrow> pending_send_disposition \<Rightarrow> negotiation_manager \<Rightarrow>
     delivery_endpoint \<Rightarrow> (poll_outcome, 'q, 'w, 'f, 'r) state_op" where
  "poll_sending io tn core receiver sender frame disposition m ep = do {
     polled \<leftarrow> poll_negotiation_send (op_send io) (tu_send_done (tn_driver tn)) sender frame disposition;
     (case polled of
        Pending \<Rightarrow> Some (Some Pending, StateSending core receiver sender frame disposition, m, ep)
      | Ready (Ok _, sender) \<Rightarrow>
          Some (case disposition of
              DispositionContinue \<Rightarrow> (None, StateReceiving core sender receiver, m, ep)
            | DispositionEstablish \<Rightarrow> (None, StateNegotiated (into_established core sender receiver), m, ep)
            | DispositionTerminal out \<Rightarrow>
                (Some (Ready (Err (classified (KindLocalNegotiation (negotiation_failure_of out) ReportSent)))),
                 StateFailed (close_core (op_quinn io) core), m, ep))
      | Ready (Err e, _) \<Rightarrow>
          (case disposition of
             DispositionTerminal out \<Rightarrow>
               Some (Some (Ready (Err (diagnosed (KindLocalNegotiation (negotiation_failure_of out)
                   (ReportFailed (profile_bootstrap_failure_of e))) (diagnostic_profile_control e)))),
                 StateFailed (close_core (op_quinn io) core), m, ep)
           | _ \<Rightarrow> control_failed (op_quinn io) core m ep e)) }"

definition poll_receiving ::
  "('q, 'w, 'f, 'r) driver_ops \<Rightarrow> connection_turn \<Rightarrow> 'q negotiation_core \<Rightarrow> 'w control_sender \<Rightarrow>
     'r control_receiver \<Rightarrow> negotiation_manager \<Rightarrow> delivery_endpoint \<Rightarrow> (poll_outcome, 'q, 'w, 'f, 'r) state_op" where
  "poll_receiving io tn core sender receiver m ep =
     (case poll_receive_future (op_alloc io) (op_recv io) (tu_receive_done (tn_driver tn)) receiver of
        Pending \<Rightarrow> Some (Some Pending, StateReceiving core sender receiver, m, ep)
      | Ready (Ok frame, receiver) \<Rightarrow> do {
          (x, exchange, m) \<leftarrow> exchange_receive (tn_exchange tn) (nk_exchange core) m (nk_requirements core) frame;
          let (out, st) = transition_outcome
            (transition_from_controller (op_quinn io) (core\<lparr>nk_exchange := exchange\<rparr>) sender receiver x);
          Some (out, st, m, ep) }
      | Ready (Err e, _) \<Rightarrow> control_failed (op_quinn io) core m ep e)"

definition poll_negotiated ::
  "connection_handle \<Rightarrow> reliable_receive_limits \<Rightarrow> ('q, 'w, 'r) connection_core \<Rightarrow>
     poll_outcome \<times> ('q, 'w, 'f, 'r) connection_state" where
  "poll_negotiated c limits core =
     (case activate_established_driver core limits of
        Ok d \<Rightarrow> (Some (Ready (Ok (EventEstablished c))), StateEstablished d)
      | Err (e, core) \<Rightarrow>
          (Some (Ready (Err (diagnosed KindEstablishedActivation (DiagnosticOpaque (OpaqueEstablishedActivation e))))),
           StateActivationFailed core))"

text \<open>The driver has failed: the peer has closed, or the connection has.\<close>

definition driver_failed ::
  "('q, 'w, 'r) quinn_ops \<Rightarrow> connection_handle \<Rightarrow> ('q, 'w, 'f, 'r) connection_driver \<Rightarrow> driver_error \<Rightarrow>
     poll_outcome \<times> ('q, 'w, 'f, 'r) connection_state" where
  "driver_failed qo c d e =
     (case peer_no_error_close_observed qo d of (closed, d) \<Rightarrow>
        if closed \<and> driver_error_is_connection_close_observation e then
          (case peer_close_preceding_event e of
             Some event \<Rightarrow> (Some (Ready (Ok event)), StatePeerClosed d True)
           | None \<Rightarrow> (Some (Ready (Ok (EventPeerClosed c))), StatePeerClosed d False))
        else
          (case map_established_driver_error e of
             (Some event, x) \<Rightarrow> (Some (Ready (Ok event)), StateEstablishedFailed d (pe_kind x) (Some x))
           | (None, x) \<Rightarrow> (Some (Ready (Err x)), StateEstablishedFailed d (pe_kind x) None)))"

definition poll_established ::
  "('q, 'w, 'f, 'r) driver_ops \<Rightarrow> connection_turn \<Rightarrow> connection_handle \<Rightarrow> ('q, 'w, 'f, 'r) connection_driver \<Rightarrow>
     negotiation_manager \<Rightarrow> delivery_endpoint \<Rightarrow> (poll_outcome, 'q, 'w, 'f, 'r) state_op" where
  "poll_established io tn c d m ep = do {
     (x, d, ep) \<leftarrow> driver_poll_step io (tn_driver tn) d ep;
     Some (case x of
         Pending \<Rightarrow> (Some Pending, StateEstablished d, m, ep)
       | Ready (Ok p) \<Rightarrow>
           (case map_established_progress c p of
              Ok (Some event) \<Rightarrow> (Some (Ready (Ok event)), StateEstablished d, m, ep)
            | Ok None \<Rightarrow> (None, StateEstablished d, m, ep)
            | Err e \<Rightarrow> (Some (Ready (Err e)), StateEstablishedFailed d (pe_kind e) None, m, ep))
       | Ready (Err e) \<Rightarrow> (case driver_failed (op_quinn io) c d e of (out, st) \<Rightarrow> (out, st, m, ep))) }"

text \<open>One transition of the loop.\<close>

definition poll_transition ::
  "('q, 'w, 'f, 'r) driver_ops \<Rightarrow> connection_turn \<Rightarrow> connection_handle \<Rightarrow> reliable_receive_limits \<Rightarrow>
     ('q, 'w, 'f, 'r) connection_state \<times> negotiation_manager \<times> delivery_endpoint \<Rightarrow>
     (poll_outcome, 'q, 'w, 'f, 'r) state_op" where
  "poll_transition io tn c limits s = (case s of (st, m, ep) \<Rightarrow>
     (case st of
        StateSending core receiver sender frame disposition \<Rightarrow>
          poll_sending io tn core receiver sender frame disposition m ep
      | StateReceiving core sender receiver \<Rightarrow> poll_receiving io tn core sender receiver m ep
      | StateAuthoritySelection _ _ _ \<Rightarrow> Some (Some Pending, st, m, ep)
      | StateNegotiated core \<Rightarrow> (case poll_negotiated c limits core of (out, st) \<Rightarrow> Some (out, st, m, ep))
      | StateEstablished d \<Rightarrow> poll_established io tn c d m ep
      | StatePeerClosed d True \<Rightarrow> Some (Some (Ready (Ok (EventPeerClosed c))), StatePeerClosed d False, m, ep)
      | StatePeerClosed d False \<Rightarrow> Some (Some (Ready (Err (state_error ConnectionIsTerminal))), st, m, ep)
      | StateEstablishedFailed d k (Some e) \<Rightarrow> Some (Some (Ready (Err e)), StateEstablishedFailed d k None, m, ep)
      | StateEstablishedFailed d k None \<Rightarrow> Some (Some (Ready (Err (classified k))), st, m, ep)
      | StateActivationFailed _ \<Rightarrow> Some (Some (Ready (Err (state_error ConnectionIsTerminal))), st, m, ep)
      | StateFailed _ \<Rightarrow> Some (Some (Ready (Err (state_error ConnectionIsTerminal))), st, m, ep)
      | StateTransitioning \<Rightarrow> Some (Some (Ready (Err (state_error ConnectionIsTerminal))), st, m, ep)))"

fun poll_transitions ::
  "('q, 'w, 'f, 'r) driver_ops \<Rightarrow> (nat \<Rightarrow> connection_turn) \<Rightarrow> connection_handle \<Rightarrow> reliable_receive_limits \<Rightarrow>
     nat \<Rightarrow> ('q, 'w, 'f, 'r) connection_state \<times> negotiation_manager \<times> delivery_endpoint \<Rightarrow>
     ((connection_event, public_error) result poll, 'q, 'w, 'f, 'r) state_op" where
  "poll_transitions io tn c limits 0 (st, m, ep) = Some (Pending, st, m, ep)"
| "poll_transitions io tn c limits (Suc n) s = do {
     (out, s) \<leftarrow> poll_transition io (tn n) c limits s;
     (case out of Some x \<Rightarrow> Some (x, s) | None \<Rightarrow> poll_transitions io tn c limits n s) }"

type_synonym ('a, 'q, 'w, 'f, 'r) connection_op =
  "('a \<times> ('q, 'w, 'f, 'r) connection \<times> negotiation_manager \<times> delivery_endpoint) exec"

definition connection_poll ::
  "('q, 'w, 'f, 'r) driver_ops \<Rightarrow> (nat \<Rightarrow> connection_turn) \<Rightarrow> ('q, 'w, 'f, 'r) connection \<Rightarrow>
     negotiation_manager \<Rightarrow> delivery_endpoint \<Rightarrow>
     ((connection_event, public_error) result poll, 'q, 'w, 'f, 'r) connection_op" where
  "connection_poll io tn k m ep = do {
     (x, st, m, ep) \<leftarrow> poll_transitions io tn (pb_connection k) (pb_reliable_receive k)
       MAX_INTERNAL_TRANSITIONS_PER_POLL (pb_state k, m, ep);
     Some (x, k\<lparr>pb_state := st\<rparr>, m, ep) }"

end
