(* ===== verification/Public_Calls.thy ===== *)
theory Public_Calls
  imports Public_Connection
begin

text \<open>
  What a host asks of a connection, the rest of \<open>crates/runen-net-quic/src/public_connection.rs\<close>: the
  selection of the authority, the commands on flows, and the teardown.
\<close>

definition select_authority ::
  "('q, 'w, 'f, 'r) driver_ops \<Rightarrow> exchange_allocs \<Rightarrow> contract_order \<Rightarrow> ('q, 'w, 'f, 'r) connection \<Rightarrow>
     negotiation_manager \<Rightarrow> negotiated_contract \<Rightarrow>
     ((unit, public_error) result \<times> ('q, 'w, 'f, 'r) connection \<times> negotiation_manager) exec" where
  "select_authority io al order k m contract =
     (case pb_state k of
        StateAuthoritySelection core sender receiver \<Rightarrow> do {
          (x, exchange, m) \<leftarrow> propose_authority al order (nk_exchange core) m contract (nk_requirements core);
          Some (case transition_from_local_operation (op_quinn io) (core\<lparr>nk_exchange := exchange\<rparr>) sender receiver x of
              ToState st \<Rightarrow> (Ok (), k\<lparr>pb_state := st\<rparr>, m)
            | ToEvent st _ \<Rightarrow> (Ok (), k\<lparr>pb_state := st\<rparr>, m)
            | ToError st e \<Rightarrow> (Err e, k\<lparr>pb_state := st\<rparr>, m)) }
      | StateFailed _ \<Rightarrow> Some (Err (state_error ConnectionIsTerminal), k, m)
      | _ \<Rightarrow> Some (Err (state_error AuthoritySelectionNotRequired), k, m))"

section \<open>Commands on flows\<close>

text \<open>The driver that a command is for; without one the command comes too early or too late.\<close>

definition command_driver ::
  "('q, 'w, 'f, 'r) connection \<Rightarrow> (('q, 'w, 'f, 'r) connection_driver, flow_command_error) result" where
  "command_driver k =
     (case pb_state k of
        StateEstablished d \<Rightarrow> Ok d
      | StatePeerClosed _ _ \<Rightarrow> Err CmdTerminal
      | StateEstablishedFailed _ _ _ \<Rightarrow> Err CmdTerminal
      | StateActivationFailed _ \<Rightarrow> Err CmdTerminal
      | StateFailed _ \<Rightarrow> Err CmdTerminal
      | StateTransitioning \<Rightarrow> Err CmdTerminal
      | StateSending _ _ _ _ _ \<Rightarrow> Err CmdNotEstablished
      | StateReceiving _ _ _ \<Rightarrow> Err CmdNotEstablished
      | StateAuthoritySelection _ _ _ \<Rightarrow> Err CmdNotEstablished
      | StateNegotiated _ \<Rightarrow> Err CmdNotEstablished)"

type_synonym ('a, 'q, 'w, 'f, 'r) command_op = "('a \<times> ('q, 'w, 'f, 'r) connection \<times> delivery_endpoint) exec"

text \<open>What the driver was asked for, with the driver back in its place.\<close>

definition command_result ::
  "('q, 'w, 'f, 'r) connection \<Rightarrow> ('a \<Rightarrow> 'b) \<Rightarrow> ('a, 'q, 'w, 'f, 'r) driver_op \<Rightarrow>
     ('b, 'q, 'w, 'f, 'r) command_op" where
  "command_result k g x = do {
     (y, d, ep) \<leftarrow> x;
     Some (g y, k\<lparr>pb_state := StateEstablished d\<rparr>, ep) }"

definition open_outbound_flow ::
  "('q, 'w, 'f, 'r) driver_ops \<Rightarrow> driver_turn \<Rightarrow> ('q, 'w, 'f, 'r) connection \<Rightarrow> delivery_endpoint \<Rightarrow>
     outbound_flow_config \<Rightarrow> ((unit, flow_command_error) result, 'q, 'w, 'f, 'r) command_op" where
  "open_outbound_flow io tu k ep config =
     (case command_driver k of
        Err e \<Rightarrow> Some (Err e, k, ep)
      | Ok d \<Rightarrow>
          if fp_max_message_bytes (oc_policy config) = 0 then None
          else command_result k (map_err map_flow_command_driver_error)
            (driver_open_outbound io tu d ep
              \<lparr>or_open_key = oc_key config, or_open_mode = oc_mode config, or_open_policy = oc_policy config,
               or_open_stable_max = fp_max_message_bytes (oc_policy config),
               or_open_limits = oc_connection_limits config\<rparr>))"

text \<open>How both decisions on the peer's open report an error of the driver.\<close>

definition decision_result ::
  "connection_handle \<Rightarrow> (unit, inbound_decision_error) result \<Rightarrow> (unit, incoming_flow_decision_error) result" where
  "decision_result c x =
     (case x of
        Ok _ \<Rightarrow> Ok ()
      | Err (DecisionUnavailable q e) \<Rightarrow>
          (let reason = map_driver_state_error e
           in if reason = CmdBusy then Err (DecisionRetryable \<lparr>iq_connection = c, iq_inner = q\<rparr> reason)
              else Err (DecisionFailed reason))
      | Err (DecisionDriver e) \<Rightarrow> Err (DecisionFailed (map_inbound_decision_driver_error e)))"

text \<open>A request that comes too early stays with the host.\<close>

definition refused_decision :: "incoming_flow_request \<Rightarrow> flow_command_error \<Rightarrow> incoming_flow_decision_error" where
  "refused_decision q e = (if e = CmdNotEstablished then DecisionRetryable q e else DecisionFailed e)"

definition accept_incoming_flow ::
  "('q, 'w, 'f, 'r) driver_ops \<Rightarrow> driver_turn \<Rightarrow> ('q, 'w, 'f, 'r) connection \<Rightarrow> delivery_endpoint \<Rightarrow>
     incoming_flow_request \<Rightarrow> inbound_flow_config \<Rightarrow>
     ((unit, incoming_flow_decision_error) result, 'q, 'w, 'f, 'r) command_op" where
  "accept_incoming_flow io tu k ep q config =
     (if iq_connection q \<noteq> pb_connection k \<or> fk_connection (ic_key config) \<noteq> pb_connection k
      then Some (Err (DecisionRetryable q CmdWrongConnection), k, ep)
      else if fk_direction (ic_key config) \<noteq> Inbound
      then Some (Err (DecisionRetryable q CmdWrongDirection), k, ep)
      else if \<not> is_ok (validate_for_mode (ic_policy config) (request_mode q))
      then Some (Err (DecisionRetryable q CmdInvalidConfiguration), k, ep)
      else case command_driver k of
        Err e \<Rightarrow> Some (Err (refused_decision q e), k, ep)
      | Ok d \<Rightarrow>
          command_result k (decision_result (pb_connection k))
            (decide_accept io tu d ep (iq_inner q)
              \<lparr>ia_key = ic_key config, ia_policy = ic_policy config, ia_limits = ic_connection_limits config\<rparr>))"

definition reject_incoming_flow ::
  "('q, 'w, 'f, 'r) driver_ops \<Rightarrow> driver_turn \<Rightarrow> ('q, 'w, 'f, 'r) connection \<Rightarrow> delivery_endpoint \<Rightarrow>
     incoming_flow_request \<Rightarrow> flow_rejection_reason \<Rightarrow>
     ((unit, incoming_flow_decision_error) result, 'q, 'w, 'f, 'r) command_op" where
  "reject_incoming_flow io tu k ep q reason =
     (if iq_connection q \<noteq> pb_connection k then Some (Err (DecisionRetryable q CmdWrongConnection), k, ep)
      else case command_driver k of
        Err e \<Rightarrow> Some (Err (refused_decision q e), k, ep)
      | Ok d \<Rightarrow>
          command_result k (decision_result (pb_connection k))
            (decide_reject io tu d ep (iq_inner q) (flow_reject_reason_of reason)))"

definition submission_result ::
  "delivery_flow_key \<Rightarrow> (datagram_submit_outcome, keyed_submit_error) result \<Rightarrow>
     (submit_outcome, submission_error) result" where
  "submission_result key x =
     (case x of
        Ok out \<Rightarrow> map_err SubmissionFailed (map_datagram_submit_outcome out)
      | Err (KeyedSubmitUnavailable payload e) \<Rightarrow>
          (let reason = map_driver_state_error e
           in if reason = CmdBusy then Err (SubmissionRetryable key payload reason) else Err (SubmissionFailed reason))
      | Err (KeyedSubmitUnknownFlow _) \<Rightarrow> Err (SubmissionFailed CmdUnknownFlow)
      | Err (KeyedSubmitDriver e) \<Rightarrow> Err (SubmissionFailed (map_flow_command_driver_error e)))"

definition connection_submit ::
  "('q, 'w, 'f, 'r) driver_ops \<Rightarrow> driver_turn \<Rightarrow> ('q, 'w, 'f, 'r) connection \<Rightarrow> delivery_endpoint \<Rightarrow>
     delivery_flow_key \<Rightarrow> bytes \<Rightarrow> ((submit_outcome, submission_error) result, 'q, 'w, 'f, 'r) command_op" where
  "connection_submit io tu k ep key payload =
     (if fk_connection key \<noteq> pb_connection k then Some (Err (SubmissionRetryable key payload CmdWrongConnection), k, ep)
      else if fk_direction key \<noteq> Outbound then Some (Err (SubmissionRetryable key payload CmdWrongDirection), k, ep)
      else case command_driver k of
        Err e \<Rightarrow>
          Some (Err (if e = CmdNotEstablished then SubmissionRetryable key payload e else SubmissionFailed e), k, ep)
      | Ok d \<Rightarrow>
        (case flow_contract ep key of
           None \<Rightarrow> Some (Err (SubmissionFailed CmdUnknownFlow), k, ep)
         | Some (mode, _) \<Rightarrow>
             if mode = ReliableOrdered then
               (if \<not> has_reliable_outbound_flow d key then Some (Err (SubmissionFailed CmdUnknownFlow), k, ep)
                else do {
                  (x, ep) \<leftarrow> submit ep key payload;
                  Some (case x of Ok out \<Rightarrow> Ok (submit_outcome_of out)
                      | Err e \<Rightarrow> Err (SubmissionFailed (map_core_submission_error e)), k, ep) })
             else command_result k (submission_result key) (driver_submit_by_key io tu d ep key payload)))"

definition finish_result :: "(outbound_finish_outcome, keyed_finish_error) result \<Rightarrow> (unit, flow_command_error) result" where
  "finish_result x =
     (case x of
        Ok FinishStarted \<Rightarrow> Ok ()
      | Ok (FinishFailureHandled _) \<Rightarrow> Err CmdFlowTerminated
      | Err (KeyedFinishState e) \<Rightarrow> Err (map_driver_state_error e)
      | Err KeyedFinishUnknownFlow \<Rightarrow> Err CmdUnknownFlow
      | Err (KeyedFinishDriver e) \<Rightarrow> Err (map_finish_driver_error e))"

definition finish_outbound_flow_normal ::
  "('q, 'w, 'f, 'r) driver_ops \<Rightarrow> driver_turn \<Rightarrow> ('q, 'w, 'f, 'r) connection \<Rightarrow> delivery_endpoint \<Rightarrow>
     delivery_flow_key \<Rightarrow> ((unit, flow_command_error) result, 'q, 'w, 'f, 'r) command_op" where
  "finish_outbound_flow_normal io tu k ep key =
     (if fk_connection key \<noteq> pb_connection k then Some (Err CmdWrongConnection, k, ep)
      else if fk_direction key \<noteq> Outbound then Some (Err CmdWrongDirection, k, ep)
      else case command_driver k of
        Err e \<Rightarrow> Some (Err e, k, ep)
      | Ok d \<Rightarrow>
        (case flow_contract ep key of
           None \<Rightarrow> Some (Err CmdUnknownFlow, k, ep)
         | Some (mode, _) \<Rightarrow>
             command_result k finish_result (driver_request_finish_by_key io tu d ep key mode)))"

section \<open>Teardown\<close>

record public_teardown =
  pt_connection :: connection_handle
  pt_flow_terminations :: "flow_termination list"
  pt_cleanup_error :: "manager_error option"

text \<open>Only the manager can make the abort of an exchange fail; anything else is \<open>unreachable!\<close>.\<close>

definition public_teardown_of :: "connection_teardown \<Rightarrow> public_teardown exec" where
  "public_teardown_of t =
     (let out = (\<lambda>e. Some \<lparr>pt_connection = td_connection t, pt_flow_terminations = td_flow_terminations t,
        pt_cleanup_error = e\<rparr>)
      in case td_negotiation_cleanup_error t of
           None \<Rightarrow> out None
         | Some (ManagerState e) \<Rightarrow> out (Some e)
         | Some _ \<Rightarrow> None)"

text \<open>What is left of a teardown: the quinn connection, the report, and what the connection was part of.\<close>

type_synonym 'q teardown_op =
  "('q \<times> public_teardown \<times> negotiation_manager \<times> delivery_endpoint \<times> connection_slots) exec"

definition negotiation_teardown ::
  "('q, 'w, 'r) quinn_ops \<Rightarrow> 'q negotiation_core \<Rightarrow> negotiation_manager \<Rightarrow> delivery_endpoint \<Rightarrow>
     connection_slots \<Rightarrow> bool \<Rightarrow> 'q teardown_op" where
  "negotiation_teardown qo core m ep slots close_unfinished = do {
     let q = (if close_unfinished then close_negotiation_failed qo (nk_quinn core) else nk_quinn core);
     (t, m, ep) \<leftarrow> teardown_connection (nk_connection core) (nk_exchange core) m ep;
     t \<leftarrow> public_teardown_of t;
     Some (q, t, m, ep, permit_drop slots) }"

definition connection_teardown_run ::
  "('q, 'w, 'f, 'r) driver_ops \<Rightarrow> ('q, 'w, 'f, 'r) connection \<Rightarrow> negotiation_manager \<Rightarrow> delivery_endpoint \<Rightarrow>
     connection_slots \<Rightarrow> 'q teardown_op" where
  "connection_teardown_run io k m ep slots =
     (let established = (\<lambda>core. do {
            (t, m, ep, slots) \<leftarrow> core_teardown core m ep slots;
            t \<leftarrow> public_teardown_of t;
            Some (cc_quinn core, t, m, ep, slots) });
          driven = (\<lambda>d. do {
            (q, t, m, ep, slots) \<leftarrow> driver_teardown io d m ep slots;
            t \<leftarrow> public_teardown_of t;
            Some (q, t, m, ep, slots) })
      in case pb_state k of
           StateSending core _ _ _ _ \<Rightarrow> negotiation_teardown (op_quinn io) core m ep slots True
         | StateReceiving core _ _ \<Rightarrow> negotiation_teardown (op_quinn io) core m ep slots True
         | StateAuthoritySelection core _ _ \<Rightarrow> negotiation_teardown (op_quinn io) core m ep slots True
         | StateNegotiated core \<Rightarrow> established core
         | StateActivationFailed core \<Rightarrow> established core
         | StateEstablished d \<Rightarrow> driven d
         | StatePeerClosed d _ \<Rightarrow> driven d
         | StateEstablishedFailed d _ _ \<Rightarrow> driven d
         | StateFailed core \<Rightarrow> negotiation_teardown (op_quinn io) core m ep slots False
         | StateTransitioning \<Rightarrow> None)"

end
