(* ===== verification/Public_Safety.thy ===== *)
theory Public_Safety
  imports Public_Calls Lifecycle_Contract
begin

text \<open>
  The invariant of a connection in each of its states, and that every poll and every call of the host
  keeps it, whatever the peer, the streams and the other connections of the host do.
\<close>

section \<open>What a driver never gives up\<close>

definition keeps_owner :: "established_teardown \<Rightarrow> ('a, 'q, 'w, 'f, 'r) driver_op \<Rightarrow> bool" where
  "keeps_owner t m \<longleftrightarrow> (\<forall>x d ep. m = Some (x, d, ep) \<longrightarrow> cd_teardown d = t)"

lemma keeps_owner_Some [simp]: "keeps_owner t (Some (x, d, ep)) \<longleftrightarrow> cd_teardown d = t"
  by (simp add: keeps_owner_def)

lemma keeps_owner_None [simp]: "keeps_owner t None"
  by (simp add: keeps_owner_def)

lemma keeps_owner_bind: "(\<And>z. keeps_owner t (f z)) \<Longrightarrow> keeps_owner t (m \<bind> f)"
  by (cases m) simp_all

lemma keeps_owner_then:
  "keeps_owner t m \<Longrightarrow> (\<And>x d ep. cd_teardown d = t \<Longrightarrow> keeps_owner t (f (x, d, ep))) \<Longrightarrow> keeps_owner t (m \<bind> f)"
  by (cases m) (force simp: keeps_owner_def)+

lemma enter_terminal_owner [simp]: "cd_teardown (enter_terminal qo d code) = cd_teardown d"
  by (simp add: enter_terminal_def Let_def)

lemma start_send_owner:
  "start_control_send d p = (x, d') \<Longrightarrow> cd_teardown d' = cd_teardown d"
  "start_prepared_send qo d p = (y, d') \<Longrightarrow> cd_teardown d' = cd_teardown d"
  by (auto simp: start_prepared_send_def start_control_send_def split: if_splits control_send_state.splits prod.splits result.splits)

lemma apply_failure_owner: "keeps_owner (cd_teardown d) (apply_data_failure qo al d ep x e)"
  by (auto simp: apply_data_failure_def Let_def intro!: keeps_owner_bind dest!: start_send_owner
      split: data_failure_disposition.split result.split data_failure_progress.split prod.split)

lemma finish_failure_owner [simp]: "keeps_owner (cd_teardown d) (finish_data_failure qo al d ep x e)"
  unfolding finish_data_failure_def by (rule keeps_owner_then[OF apply_failure_owner]) (auto split: result.split)

lemma terminal_step_owner [simp]: "keeps_owner (cd_teardown d) (terminal_step qo d ep e)"
  by (simp add: terminal_step_def)

lemma finish_failure_owner' [simp]: "cd_teardown d = t \<Longrightarrow> keeps_owner t (finish_data_failure qo al d ep x e)"
  by auto

lemma terminal_step_owner' [simp]: "cd_teardown d = t \<Longrightarrow> keeps_owner t (terminal_step qo d ep e)"
  by auto

lemma dispose_owner [simp]: "cd_teardown d = t \<Longrightarrow> keeps_owner t (dispose qo al d ep x e)"
  by (simp add: dispose_def split: option.split)

lemma reliable_polled_owner [simp]: "cd_teardown d = t \<Longrightarrow> keeps_owner t (reliable_polled qo al f d ep x)"
  by (simp add: reliable_polled_def split: poll.split result.split)

lemma route_established_owner [simp]: "cd_teardown d = t \<Longrightarrow> keeps_owner t (route_outbound_established io tu d ep flow)"
  by (auto simp: route_outbound_established_def split: transport_owner.split prod.split result.split
      reliable_io_error.split datagram_io_error.split)

lemma route_progress_owner [simp]: "cd_teardown d = t \<Longrightarrow> keeps_owner t (route_flow_control_progress io tu d ep p)"
  by (auto simp: route_flow_control_progress_def dest!: start_send_owner split: flow_driver_progress.split prod.split result.split)

lemma process_frame_owner [simp]: "cd_teardown d = t \<Longrightarrow> keeps_owner t (process_received_frame io tu d ep r frame)"
  unfolding process_received_frame_def by (rule keeps_owner_bind) (auto simp: Let_def split: result.split)

lemma control_receive_owner: "keeps_owner (cd_teardown d) (poll_control_receive io tu d ep)"
  by (auto simp: poll_control_receive_def split: control_receive_state.split poll.split prod.split result.split)

lemma control_send_owner: "keeps_owner (cd_teardown d) (poll_control_send io tu d ep)"
  by (auto simp: poll_control_send_def intro!: keeps_owner_bind split: control_send_state.split poll.split prod.split result.split)

lemma data_category_owner: "keeps_owner (cd_teardown d) (poll_data_category io tu d ep i)"
  unfolding poll_data_category_def poll_reliable_outbound_acquisition_def poll_reliable_inbound_acquisition_def
    poll_reliable_outbound_def poll_reliable_inbound_def drive_datagram_outbound_def poll_datagram_inbound_def
  by (auto simp: Let_def intro!: keeps_owner_bind split: poll.split result.split prod.split option.split
      reliable_io_error.split datagram_io_error.split)

lemma category_owner: "keeps_owner (cd_teardown d) (poll_category io tu closing d ep i)"
  by (simp add: poll_category_def control_send_owner control_receive_owner data_category_owner)

lemma round_at_owner:
  "poll_round_at io tu closing (d, ep) i = Some (r, d', ep') \<Longrightarrow> cd_teardown d' = cd_teardown d"
  using category_owner[of d io tu closing ep i]
  by (auto simp: poll_round_at_def bind_eq_Some_conv keeps_owner_def split: option.splits)

lemma poll_each_owner:
  "poll_each (poll_round_at io tu closing) is (d, ep) = Some (r, d', ep') \<Longrightarrow> cd_teardown d' = cd_teardown d"
proof (induction "is" arbitrary: d ep)
  case (Cons i "is")
  then obtain q d1 ep1 where "poll_round_at io tu closing (d, ep) i = Some (q, d1, ep1)"
    "case q of Some x \<Rightarrow> (r, d', ep') = (Some x, d1, ep1)
      | None \<Rightarrow> poll_each (poll_round_at io tu closing) is (d1, ep1) = Some (r, d', ep')"
    by (auto simp: bind_eq_Some_conv split: option.splits)
  then show ?case using Cons.IH round_at_owner by (cases q) fastforce+
qed simp

lemma poll_round_owner: "keeps_owner (cd_teardown d) (poll_round io tu closing d ep)"
  by (auto simp: poll_round_def Let_def keeps_owner_def bind_eq_Some_conv dest: poll_each_owner split: option.splits)

lemma poll_step_owner:
  fixes d :: "('q, 'w, 'f, 'r) connection_driver"
  shows "keeps_owner (cd_teardown d) (driver_poll_step io tu d ep)"
proof -
  obtain closed q where q: "peer_no_error_close_observed (op_quinn io) d = (closed, d\<lparr>cd_quinn := q\<rparr>)"
    by (cases "qn_close_reason (op_quinn io) (cd_quinn d)") (simp add: peer_no_error_close_observed_def)
  let ?d = "d\<lparr>cd_quinn := q\<rparr>"
  have "keeps_owner (cd_teardown d) (poll_round io tu False ?d ep)" using poll_round_owner[of ?d] by simp
  moreover have "keeps_owner (cd_teardown d) (do { (x, d, ep) \<leftarrow> poll_control_receive io tu ?d ep;
      (case step_outcome x of Some r \<Rightarrow> Some (Ready r, d\<lparr>cd_poll_cursor := next_poll_cursor 1\<rparr>, ep)
       | None \<Rightarrow> poll_round io tu True d ep) })"
  proof (rule keeps_owner_then)
    show "keeps_owner (cd_teardown d) (poll_control_receive io tu ?d ep)" using control_receive_owner[of ?d] by simp
    fix x ep1 and d1 :: "('q, 'w, 'f, 'r) connection_driver"
    assume d1: "cd_teardown d1 = cd_teardown d"
    have "keeps_owner (cd_teardown d) (poll_round io tu True d1 ep1)" using poll_round_owner[of d1] d1 by simp
    then show "keeps_owner (cd_teardown d) (case (x, d1, ep1) of (x, d, ep) \<Rightarrow>
        (case step_outcome x of Some r \<Rightarrow> Some (Ready r, d\<lparr>cd_poll_cursor := next_poll_cursor 1\<rparr>, ep)
         | None \<Rightarrow> poll_round io tu True d ep))"
      using d1 by (simp split: option.split)
  qed
  ultimately show ?thesis by (simp add: driver_poll_step_def q split: bool.split)
qed

lemma decision_send_owner [simp]: "cd_teardown d = t \<Longrightarrow> keeps_owner t (Some (decision_send qo d ep x))"
  by (auto simp: decision_send_def dest!: start_send_owner split: result.split prod.split)

lemma host_call_owner:
  "keeps_owner (cd_teardown d) (driver_open_outbound io tu d ep q)"
  "keeps_owner (cd_teardown d) (decide_accept io tu d ep o1 a)"
  "keeps_owner (cd_teardown d) (decide_reject io tu d ep o1 reason)"
proof -
  show "keeps_owner (cd_teardown d) (driver_open_outbound io tu d ep q)"
    by (auto simp: driver_open_outbound_def Let_def intro!: keeps_owner_bind dest!: start_send_owner split: result.split prod.split)
  show "keeps_owner (cd_teardown d) (decide_accept io tu d ep o1 a)"
    by (auto simp: decide_accept_def intro!: keeps_owner_bind split: result.split)
  show "keeps_owner (cd_teardown d) (decide_reject io tu d ep o1 reason)"
    by (auto simp: decide_reject_def intro!: keeps_owner_bind split: result.split)
qed

lemma keeps_owner_map: "keeps_owner t m \<Longrightarrow> keeps_owner t (do { (x, d, ep) \<leftarrow> m; Some (g x, d, ep) })"
  by (erule keeps_owner_then) simp

lemma apply_failure_owner' [simp]: "cd_teardown d = t \<Longrightarrow> keeps_owner t (apply_data_failure qo al d ep x e)"
  using apply_failure_owner by auto

lemma finish_owner: "keeps_owner (cd_teardown d) (driver_request_finish io tu d ep i)"
  by (auto simp: driver_request_finish_def Let_def intro!: keeps_owner_bind keeps_owner_map
      split: result.split reliable_io_error.split option.split)

lemma finish_by_key_owner: "keeps_owner (cd_teardown d) (driver_request_finish_by_key io tu d ep key mode)"
  by (auto simp: driver_request_finish_by_key_def Let_def intro!: keeps_owner_bind keeps_owner_map[OF finish_owner]
      dest!: start_send_owner split: result.split option.split prod.split)

lemma submit_owner: "keeps_owner (cd_teardown d) (driver_submit io tu d ep i payload)"
  by (auto simp: driver_submit_def Let_def intro!: keeps_owner_bind keeps_owner_map split: result.split option.split)

lemma submit_by_key_owner: "keeps_owner (cd_teardown d) (driver_submit_by_key io tu d ep key payload)"
  by (auto simp: driver_submit_by_key_def intro!: keeps_owner_map[OF submit_owner] split: option.split)

section \<open>Where a step of the exchange leads\<close>

lemma prepare_offer_leads:
  "prepare_offer al x m off = Some (Ok f, x', m') \<Longrightarrow> cf_type f = NegotiationOfferType \<and> nx_state x' = NxAwaitingPeerOffer"
  by (auto simp: prepare_offer_def split: if_splits result.splits option.splits)

lemma validate_as_leads:
  "validate_as w st k x m = Some (Ok r, x', m') \<Longrightarrow> \<exists>m1. k x m1 = Some (Ok r, x', m')"
  by (auto simp: validate_as_def fail_defs fail_with_no_Ok split: option.splits result.splits if_splits prod.splits)

lemma propose_authority_leads:
  "propose_authority al order x m c req = Some (Ok f, x', m') \<Longrightarrow>
     cf_type f = NegotiationProposalType \<and> nx_state x' = NxAwaitingValidated"
  by (auto simp: propose_authority_def encode_attempt_def fail_defs fail_with_no_Ok dest!: validate_as_leads
      split: if_splits result.splits option.splits prod.splits)

fun leads_to :: "negotiation_progress \<Rightarrow> negotiation_state \<Rightarrow> bool" where
  "leads_to NxWaiting st \<longleftrightarrow> st = NxAwaitingProposal"
| "leads_to AuthoritySelectionRequired st \<longleftrightarrow> st = NxAwaitingAuthoritySelection"
| "leads_to (NxSend f) st \<longleftrightarrow> cf_type f = NegotiationValidatedType \<and> st = NxAwaitingEstablished
     \<or> cf_type f = NegotiationEstablishedType \<and> st = NxEstablished"
| "leads_to NxDone st \<longleftrightarrow> st = NxEstablished"
| "leads_to (RemoteFailed _) st \<longleftrightarrow> st = NxFailed"

lemma release_state: "release_manager x m = Some (r, x', m') \<Longrightarrow> nx_state x' = nx_state x"
  by (auto simp: release_manager_def split: if_splits option.splits)

lemma receive_leads:
  "receive_offer al x m body = Some (Ok p, x', m') \<Longrightarrow> leads_to p (nx_state x')"
  "receive_proposal al x m req body = Some (Ok p, x', m') \<Longrightarrow> leads_to p (nx_state x')"
  "receive_validated x m body = Some (Ok p, x', m') \<Longrightarrow> leads_to p (nx_state x')"
  "receive_established x m body = Some (Ok p, x', m') \<Longrightarrow> leads_to p (nx_state x')"
  "receive_failure x m body = Some (Ok p, x', m') \<Longrightarrow> leads_to p (nx_state x')"
proof -
  show "receive_offer al x m body = Some (Ok p, x', m') \<Longrightarrow> leads_to p (nx_state x')"
    by (auto simp: receive_offer_def Let_def split: result.splits option.splits if_splits)
  show "receive_proposal al x m req body = Some (Ok p, x', m') \<Longrightarrow> leads_to p (nx_state x')"
    by (auto simp: receive_proposal_def dest!: validate_as_leads split: result.splits option.splits)
  show "receive_validated x m body = Some (Ok p, x', m') \<Longrightarrow> leads_to p (nx_state x')"
    by (auto simp: receive_validated_def dest!: validate_as_leads split: if_splits)
  show "receive_established x m body = Some (Ok p, x', m') \<Longrightarrow> leads_to p (nx_state x')"
    by (auto simp: receive_established_def dest!: validate_as_leads split: if_splits)
  show "receive_failure x m body = Some (Ok p, x', m') \<Longrightarrow> leads_to p (nx_state x')"
    by (auto simp: receive_failure_def dest!: release_state split: result.splits option.splits)
qed

lemma exchange_receive_leads:
  "exchange_receive al x m req f = Some (Ok p, x', m') \<Longrightarrow> leads_to p (nx_state x')"
  by (auto simp: exchange_receive_def dest: receive_leads
      split: if_splits negotiation_state.splits control_frame_type.splits)

section \<open>The invariant\<close>

text \<open>What a connection relies on: the laws of its control stream and of the streams of its flows.\<close>

definition connection_law ::
  "('q, 'w, 'f, 'r) driver_ops \<Rightarrow> ('r \<Rightarrow> bytes) \<Rightarrow> ('w \<Rightarrow> bytes) \<Rightarrow> ('r \<Rightarrow> bytes) \<Rightarrow> bool" where
  "connection_law io rlog sent taken \<longleftrightarrow> driver_law io rlog \<and> control_writer (op_send io) sent
     \<and> control_reader (op_recv io) taken"

definition control_ok :: "'q negotiation_core \<Rightarrow> 'w control_sender \<Rightarrow> 'r control_receiver \<Rightarrow> bool" where
  "control_ok core s r \<longleftrightarrow> ct_io_state s = Clean \<and> cr_io_state r = Clean \<and> settings_ok (ct_local_settings s)
     \<and> settings_ok (nk_peer_settings core)"

definition core_ok :: "connection_handle \<Rightarrow> negotiation_manager \<Rightarrow> 'q negotiation_core \<Rightarrow> bool" where
  "core_ok c m core \<longleftrightarrow> nk_connection core = c \<and> nx_connection (nk_exchange core) = c \<and> exchange_ok (nk_exchange core) m"

definition owner_ok :: "connection_handle \<Rightarrow> negotiation_manager \<Rightarrow> connection_handle \<Rightarrow> negotiation_exchange \<Rightarrow> bool" where
  "owner_ok c m c' x \<longleftrightarrow> c' = c \<and> nx_connection x = c \<and> exchange_ok x m \<and> nx_state x = NxEstablished"

definition awaits_frame :: "negotiation_state \<Rightarrow> bool" where
  "awaits_frame st \<longleftrightarrow> st \<in> {NxAwaitingPeerOffer, NxAwaitingProposal, NxAwaitingValidated, NxAwaitingEstablished}"

fun sends :: "pending_send_disposition \<Rightarrow> control_frame \<Rightarrow> negotiation_state \<Rightarrow> bool" where
  "sends DispositionContinue f st \<longleftrightarrow> cf_type f \<noteq> SettingsType \<and> awaits_frame st"
| "sends DispositionEstablish f st \<longleftrightarrow> cf_type f = NegotiationEstablishedType \<and> st = NxEstablished"
| "sends (DispositionTerminal _) f st \<longleftrightarrow> st = NxFailed"

text \<open>The errors by which a connection would report a fault of this library.\<close>

definition fault_kind :: "connection_error_kind \<Rightarrow> bool" where
  "fault_kind k \<longleftrightarrow> k = KindManagerState \<or> (\<exists>f. k = KindControl f True) \<or> k = KindEstablishedActivation"

definition driven_ok ::
  "('q, 'w, 'f, 'r) driver_ops \<Rightarrow> ('r \<Rightarrow> bytes) \<Rightarrow> delivery_scope_limits \<Rightarrow> connection_handle \<Rightarrow>
     negotiation_manager \<Rightarrow> delivery_endpoint \<Rightarrow> ('q, 'w, 'f, 'r) connection_driver \<Rightarrow> bool" where
  "driven_ok io rlog lim c m ep d \<longleftrightarrow> owner_ok c m (et_connection (cd_teardown d)) (et_exchange (cd_teardown d))
     \<and> (\<exists>c0. driver_ok io rlog lim c0 (d, ep))"

fun state_good ::
  "('q, 'w, 'f, 'r) driver_ops \<Rightarrow> ('r \<Rightarrow> bytes) \<Rightarrow> delivery_scope_limits \<Rightarrow> connection_handle \<Rightarrow>
     negotiation_manager \<Rightarrow> delivery_endpoint \<Rightarrow> ('q, 'w, 'f, 'r) connection_state \<Rightarrow> bool" where
  "state_good io rlog lim c m ep (StateSending core r s f disposition) \<longleftrightarrow>
     core_ok c m core \<and> control_ok core s r \<and> sends disposition f (nx_state (nk_exchange core))"
| "state_good io rlog lim c m ep (StateReceiving core s r) \<longleftrightarrow>
     core_ok c m core \<and> control_ok core s r \<and> awaits_frame (nx_state (nk_exchange core))"
| "state_good io rlog lim c m ep (StateAuthoritySelection core s r) \<longleftrightarrow>
     core_ok c m core \<and> control_ok core s r \<and> nx_state (nk_exchange core) = NxAwaitingAuthoritySelection"
| "state_good io rlog lim c m ep (StateNegotiated core) \<longleftrightarrow>
     owner_ok c m (cc_connection core) (cc_exchange core) \<and> ready_ok (cc_profile core)"
| "state_good io rlog lim c m ep (StateEstablished d) \<longleftrightarrow> driven_ok io rlog lim c m ep d"
| "state_good io rlog lim c m ep (StatePeerClosed d _) \<longleftrightarrow> driven_ok io rlog lim c m ep d"
| "state_good io rlog lim c m ep (StateEstablishedFailed d k e) \<longleftrightarrow>
     driven_ok io rlog lim c m ep d \<and> \<not> fault_kind k \<and> (\<forall>x. e = Some x \<longrightarrow> pe_kind x = k)"
| "state_good io rlog lim c m ep (StateActivationFailed core) \<longleftrightarrow> False"
| "state_good io rlog lim c m ep (StateFailed core) \<longleftrightarrow> core_ok c m core \<and> nx_state (nk_exchange core) = NxFailed"
| "state_good io rlog lim c m ep StateTransitioning \<longleftrightarrow> False"

text \<open>A connection that has told its host how it ended.\<close>

fun connection_over :: "('q, 'w, 'f, 'r) connection_state \<Rightarrow> bool" where
  "connection_over (StatePeerClosed _ pending) \<longleftrightarrow> \<not> pending"
| "connection_over (StateEstablishedFailed _ _ e) \<longleftrightarrow> e = None"
| "connection_over (StateActivationFailed _) \<longleftrightarrow> True"
| "connection_over (StateFailed _) \<longleftrightarrow> True"
| "connection_over StateTransitioning \<longleftrightarrow> True"
| "connection_over _ \<longleftrightarrow> False"

text \<open>
  What the outcome of a transition says of the state it leads to: an error ends the connection, and so
  does the close of the peer; nothing else does. A connection is established with an active driver.
\<close>

fun outcome_good :: "connection_handle \<Rightarrow> poll_outcome \<Rightarrow> ('q, 'w, 'f, 'r) connection_state \<Rightarrow> bool" where
  "outcome_good c None st \<longleftrightarrow> \<not> connection_over st"
| "outcome_good c (Some Pending) st \<longleftrightarrow> \<not> connection_over st"
| "outcome_good c (Some (Ready (Err e))) st \<longleftrightarrow> connection_over st \<and> \<not> fault_kind (pe_kind e)"
| "outcome_good c (Some (Ready (Ok e))) st \<longleftrightarrow> (connection_over st \<longleftrightarrow> e = EventPeerClosed c)
     \<and> (\<forall>c'. e = EventPeerClosed c' \<longrightarrow> c' = c)
     \<and> (\<forall>c'. e = EventEstablished c' \<longrightarrow> c' = c \<and> (\<exists>d. st = StateEstablished d \<and> cd_phase d = DriverActive))
     \<and> (\<forall>c'. e = EventAuthoritySelectionRequired c' \<longrightarrow> c' = c \<and> (\<exists>x s r. st = StateAuthoritySelection x s r))"

definition transition_good ::
  "('q, 'w, 'f, 'r) driver_ops \<Rightarrow> ('r \<Rightarrow> bytes) \<Rightarrow> delivery_scope_limits \<Rightarrow> connection_handle \<Rightarrow>
     negotiation_manager \<Rightarrow> (poll_outcome, 'q, 'w, 'f, 'r) state_op \<Rightarrow> bool" where
  "transition_good io rlog lim c m q \<longleftrightarrow> (\<exists>out st m' ep'. q = Some (out, st, m', ep')
     \<and> state_good io rlog lim c m' ep' st \<and> outcome_good c out st
     \<and> manager_ok m' \<and> same_elsewhere c m m' \<and> endpoint_ok lim ep')"

lemma transition_goodI:
  "state_good io rlog lim c m' ep' st \<Longrightarrow> outcome_good c out st \<Longrightarrow> manager_ok m' \<Longrightarrow> same_elsewhere c m m' \<Longrightarrow>
     endpoint_ok lim ep' \<Longrightarrow> transition_good io rlog lim c m (Some (out, st, m', ep'))"
  by (simp add: transition_good_def)

section \<open>Negotiating\<close>

lemma core_ok_manager: "core_ok c m core \<Longrightarrow> manager_ok m"
  by (simp add: core_ok_def exchange_ok_def)

lemma core_ok_close [simp]:
  "core_ok c m (core\<lparr>nk_quinn := q\<rparr>) = core_ok c m core" "core_ok c m (close_core qo core) = core_ok c m core"
  "nk_exchange (close_core qo core) = nk_exchange core" "nk_connection (close_core qo core) = nk_connection core"
  by (simp_all add: core_ok_def close_core_def)

lemma send_terminal_total:
  assumes "control_writer ops sent"
  shows "\<exists>x s'. send_terminal_negotiation_failure ops s body = Some (x, s')"
proof -
  obtain x s' where "send_frame ops s NegotiationFailedType body = Some (x, s')"
    using send_frame_effect[OF assms] by blast
  then show ?thesis
    by (simp add: send_terminal_negotiation_failure_def split: awaited.split result.split prod.split option.split)
qed

lemma control_failed_good:
  assumes "core_ok c m core" "endpoint_ok lim ep"
  shows "transition_good io rlog lim c m (control_failed qo core m ep e)"
proof -
  have x: "exchange_ok (nk_exchange core) m" "nx_connection (nk_exchange core) = c" "nk_connection core = c"
    using assms(1) by (simp_all add: core_ok_def)
  obtain x' m' where r: "release_manager ((nk_exchange core)\<lparr>nx_local_offer := None, nx_state := NxFailed\<rparr>) m = Some (Ok (), x', m')"
    "exchange_ok x' m'" "same_elsewhere c m m'" "nx_connection x' = c" "nx_state x' = NxFailed"
    using release_good[OF exchange_ok_releasable[OF x(1)]] x(2) by metis
  have "manager_ok m'" using r(2) by (simp add: exchange_ok_def)
  then show ?thesis
    using r x assms(2)
    by (simp add: control_failed_def exchange_abort_def transition_good_def core_ok_def control_connection_error_def
        diagnosed_def fault_kind_def Let_def)
qed

lemma transition_error_good:
  assumes "core_ok c m core" "control_ok core s r" "nx_state (nk_exchange core) = NxFailed" "\<not> internal_error e"
  shows "case transition_outcome (transition_from_error qo core s r e) of (out, st) \<Rightarrow>
     state_good io rlog lim c m ep st \<and> outcome_good c out st"
  using assms
  by (cases e) (auto simp: transition_from_error_def transition_outcome_def terminal_controller_error_def classified_def
      diagnosed_def fault_kind_def core_ok_def split: option.split)

lemma exchange_moves:
  assumes "core_ok c m core" "op_good (nk_exchange core) m q"
  obtains x x' m' where "q = Some (x, x', m')" "core_ok c m' (core\<lparr>nk_exchange := x'\<rparr>)" "manager_ok m'" "same_elsewhere c m m'"
    "\<And>e. x = Err e \<Longrightarrow> \<not> internal_error e \<and> nx_state x' = NxFailed"
  using assms by (auto simp: op_good_def core_ok_def exchange_ok_def)

lemma core_ok_state: "core_ok c m core \<Longrightarrow> nx_state (nk_exchange core) = NxEstablished \<Longrightarrow>
    owner_ok c m (cc_connection (into_established core s r)) (cc_exchange (into_established core s r))"
  by (simp add: core_ok_def owner_ok_def into_established_def)

lemma control_ok_ready: "control_ok core s r \<Longrightarrow> ready_ok (cc_profile (into_established core s r))"
  by (simp add: control_ok_def ready_ok_def into_established_def)

lemma controller_good:
  assumes core: "core_ok c m core" and ctl: "control_ok core s r"
    and p: "case x of Ok p \<Rightarrow> leads_to p (nx_state (nk_exchange core))
      | Err e \<Rightarrow> \<not> internal_error e \<and> nx_state (nk_exchange core) = NxFailed"
  shows "case transition_outcome (transition_from_controller qo core s r x) of (out, st) \<Rightarrow>
     state_good io rlog lim c m ep st \<and> outcome_good c out st"
proof (cases x)
  case (Err e)
  then show ?thesis using p transition_error_good[OF core ctl, of e io rlog lim ep qo] by (simp add: transition_from_controller_def)
next
  case (Ok q)
  show ?thesis
  proof (cases q)
    case (NxSend f)
    then show ?thesis using p core ctl
      by (auto simp: Ok transition_from_controller_def transition_outcome_def controller_send_disposition_def awaits_frame_def
          split: control_frame_type.split)
  next
    case NxDone
    then show ?thesis using p core ctl
      by (simp add: Ok transition_from_controller_def transition_outcome_def core_ok_state control_ok_ready)
  next
    case (RemoteFailed out)
    then show ?thesis using p core
      by (simp add: Ok transition_from_controller_def transition_outcome_def classified_def fault_kind_def)
  qed (use p core ctl in \<open>auto simp: Ok transition_from_controller_def transition_outcome_def awaits_frame_def core_ok_def\<close>)
qed

lemma local_operation_good:
  assumes core: "core_ok c m core" and ctl: "control_ok core s r"
    and p: "case x of Ok f \<Rightarrow> cf_type f \<noteq> SettingsType \<and> awaits_frame (nx_state (nk_exchange core))
      | Err e \<Rightarrow> \<not> internal_error e \<and> nx_state (nk_exchange core) = NxFailed"
  shows "case transition_outcome (transition_from_local_operation qo core s r x) of (out, st) \<Rightarrow>
     state_good io rlog lim c m ep st \<and> outcome_good c out st"
proof (cases x)
  case (Err e)
  then show ?thesis using p transition_error_good[OF core ctl, of e io rlog lim ep qo] by (simp add: transition_from_local_operation_def)
next
  case (Ok f)
  then show ?thesis using p core ctl by (simp add: transition_from_local_operation_def transition_outcome_def)
qed

lemma poll_receiving_good:
  assumes law: "connection_law io rlog sent taken" and core: "core_ok c m core" and ctl: "control_ok core s r"
    and wait: "awaits_frame (nx_state (nk_exchange core))" and ep: "endpoint_ok lim ep"
  shows "transition_good io rlog lim c m (poll_receiving io tn core s r m ep)"
proof -
  have reader: "control_reader (op_recv io) taken" using law by (simp add: connection_law_def)
  obtain x r' where x: "receive_frame (op_alloc io) (op_recv io) r = (x, r')" by fastforce
  note eff = receive_frame_effect[OF reader x]
  show ?thesis
  proof (cases "poll_receive_future (op_alloc io) (op_recv io) (tu_receive_done (tn_driver tn)) r")
    case Pending
    then show ?thesis using core ctl wait ep core_ok_manager[OF core]
      by (simp add: poll_receiving_def transition_good_def)
  next
    case (Ready y)
    then have y: "x = Done (fst y)" "r' = snd y"
      using x by (auto simp: poll_receive_future_def split: if_splits awaited.splits)
    show ?thesis
    proof (cases "fst y")
      case (Err e)
      then show ?thesis using Ready control_failed_good[OF core ep]
        by (cases y) (simp add: poll_receiving_def)
    next
      case (Ok f)
      have clean: "cr_io_state r = Clean" using ctl by (simp add: control_ok_def)
      have r': "cr_io_state r' = Clean" "length (cf_body f) \<le> unat MAX_VARINT"
        using eff clean y Ok by (auto simp: sizable_def frame_of_def)
      then have small: "length (cf_body f) \<le> usize_max" by (simp add: usize_max_def unat_MAX_VARINT)
      let ?q = "exchange_receive (tn_exchange tn) (nk_exchange core) m (nk_requirements core) f"
      have good: "op_good (nk_exchange core) m ?q"
        using exchange_receive_good[OF _ small] core by (simp add: core_ok_def)
      obtain z x' m' where q: "?q = Some (z, x', m')" "core_ok c m' (core\<lparr>nk_exchange := x'\<rparr>)" "manager_ok m'"
        "same_elsewhere c m m'" "\<And>e. z = Err e \<Longrightarrow> \<not> internal_error e \<and> nx_state x' = NxFailed"
        by (rule exchange_moves[OF core good]) blast
      have "case z of Ok p \<Rightarrow> leads_to p (nx_state x') | Err e \<Rightarrow> \<not> internal_error e \<and> nx_state x' = NxFailed"
        using q(1,5) exchange_receive_leads by (cases z) auto
      then have "case transition_outcome (transition_from_controller (op_quinn io) (core\<lparr>nk_exchange := x'\<rparr>) s r' z) of
          (out, st) \<Rightarrow> state_good io rlog lim c m' ep st \<and> outcome_good c out st"
        using ctl r'(1) by (intro controller_good[OF q(2)]) (simp_all add: control_ok_def split: result.splits)
      then show ?thesis
        using Ready Ok y(2) q(1,3,4) ep by (cases y) (auto simp: poll_receiving_def transition_good_def)
    qed
  qed
qed

lemma poll_sending_good:
  assumes law: "connection_law io rlog sent taken" and core: "core_ok c m core" and ctl: "control_ok core s r"
    and disp: "sends disposition f (nx_state (nk_exchange core))" and ep: "endpoint_ok lim ep"
  shows "transition_good io rlog lim c m (poll_sending io tn core r s f disposition m ep)"
proof -
  have writer: "control_writer (op_send io) sent" using law by (simp add: connection_law_def)
  obtain x s' where x: "send_frame (op_send io) s (cf_type f) (cf_body f) = Some (x, s')"
    "ct_local_settings s' = ct_local_settings s" "x = Done (Ok ()) \<Longrightarrow> ct_io_state s' = Clean"
    using send_frame_effect[OF writer, of s "cf_type f" "cf_body f"] by blast
  obtain y t where y: "send_terminal_negotiation_failure (op_send io) s (cf_body f) = Some (y, t)"
    using send_terminal_total[OF writer] by blast
  note m = core_ok_manager[OF core]
  have stay: "transition_good io rlog lim c m (Some (Some Pending, StateSending core r s f disposition, m, ep))"
    using core ctl disp ep m by (simp add: transition_good_def)
  have ctl': "control_ok core s' r" if "x = Done (Ok ())" using ctl x(2) x(3)[OF that] by (simp add: control_ok_def)
  have failed: "transition_good io rlog lim c m (Some (Some (Ready (Err e)), StateFailed (close_core (op_quinn io) core), m, ep))"
    if "nx_state (nk_exchange core) = NxFailed" "\<not> fault_kind (pe_kind e)" for e
    using core that ep m by (simp add: transition_good_def)
  show ?thesis
  proof (cases "tu_send_done (tn_driver tn)")
    case False
    then show ?thesis using stay by (simp add: poll_sending_def poll_negotiation_send_def)
  next
    case True
    show ?thesis
    proof (cases disposition)
      case (DispositionTerminal out)
      then show ?thesis using True y stay disp failed
        by (cases y) (auto simp: poll_sending_def poll_negotiation_send_def classified_def diagnosed_def fault_kind_def
            split: result.split)
    next
      case DispositionContinue
      then show ?thesis
        using True x(1) stay disp ctl' core ep m control_failed_good[OF core ep]
        by (cases x) (auto simp: poll_sending_def poll_negotiation_send_def split: result.split intro!: transition_goodI)
    next
      case DispositionEstablish
      then show ?thesis
        using True x(1) stay disp ctl' core ep m control_failed_good[OF core ep]
        by (cases x) (auto simp: poll_sending_def poll_negotiation_send_def core_ok_state control_ok_ready
            split: result.split intro!: transition_goodI)
    qed
  qed
qed

section \<open>Established\<close>

definition flow_event :: "connection_event \<Rightarrow> bool" where
  "flow_event e \<longleftrightarrow> (\<forall>c. e \<noteq> EventPeerClosed c \<and> e \<noteq> EventEstablished c \<and> e \<noteq> EventAuthoritySelectionRequired c)"

lemma send_effect_event: "map_control_send_effect x = Some e \<Longrightarrow> flow_event e"
  by (auto simp: map_control_send_effect_def flow_event_def split: flow_control_send_effect.splits)

lemma reliable_event: "map_reliable_progress x = Some e \<Longrightarrow> flow_event e"
  by (auto simp: map_reliable_progress_def flow_event_def split: active_reliable_progress.splits send_progress.splits
      receive_progress.splits option.splits)

lemma core_received_event:
  "map_core_received key x = Ok (Some e) \<Longrightarrow> flow_event e"
  "map_core_received key x = Err y \<Longrightarrow> pe_kind y = KindUnexpectedCoreState"
  by (auto simp: map_core_received_def flow_event_def diagnosed_def split: receive_outcome.splits)

lemma progress_event:
  "map_established_progress c p = Ok (Some e) \<Longrightarrow> flow_event e"
  "map_established_progress c p = Err y \<Longrightarrow> pe_kind y = KindUnexpectedCoreState"
  by (auto simp: map_established_progress_def flow_event_def[of "EventIncomingFlowRequested _"]
      flow_event_def[of "EventOutboundFlowEstablished _"] flow_event_def[of "EventOutboundFlowRejected _ _"]
      flow_event_def[of "EventFlowTerminated _ _ _ _"] flow_event_def[of "EventUnreliableTransportDropped _ _"]
      dest: send_effect_event reliable_event core_received_event
      split: connection_progress.splits datagram_outbound_progress.splits datagram_send_progress.splits
        datagram_receive_outcome.splits)

lemma driver_error_kind: "\<not> fault_kind (established_driver_error_kind e)"
  by (auto simp: established_driver_error_kind_def fault_kind_def split: driver_error.split driver_state_error.split
      reliable_io_error.split reliable_state_error.split receive_error.split send_error.split io_failure.split
      datagram_io_error.split datagram_send_error.split flow_control_error.split)

lemma driver_error_event: "fst (map_established_driver_error e) = Some x \<Longrightarrow> flow_event x"
  by (auto simp: map_established_driver_error_def dest: send_effect_event split: driver_error.splits driver_state_error.splits
      option.splits)

lemma driver_error_reported: "\<not> fault_kind (pe_kind (snd (map_established_driver_error e)))"
proof -
  have "pe_kind (snd (map_established_driver_error e)) = established_driver_error_kind e"
    by (auto simp: map_established_driver_error_def established_driver_error_kind_def diagnosed_def classified_def
        state_error_def split: driver_error.split driver_state_error.split option.split)
  then show ?thesis by (simp add: driver_error_kind)
qed

lemma preceding_event: "peer_close_preceding_event e = Some x \<Longrightarrow> flow_event x"
  by (auto simp: peer_close_preceding_event_def dest: send_effect_event split: driver_error.splits)

lemma driven_quinn [simp]: "driven_ok io rlog lim c m ep (d\<lparr>cd_quinn := q\<rparr>) = driven_ok io rlog lim c m ep d"
  by (simp add: driven_ok_def)

lemma flow_event_outcome: "flow_event e \<Longrightarrow> outcome_good c (Some (Ready (Ok e))) st \<longleftrightarrow> \<not> connection_over st"
  by (simp add: flow_event_def)

lemma driver_failed_good:
  assumes "driven_ok io rlog lim c m ep d"
  shows "case driver_failed qo c d e of (out, st) \<Rightarrow> state_good io rlog lim c m ep st \<and> outcome_good c out st"
proof -
  obtain closed q where q: "peer_no_error_close_observed qo d = (closed, d\<lparr>cd_quinn := q\<rparr>)"
    by (cases "qn_close_reason qo (cd_quinn d)") (simp add: peer_no_error_close_observed_def)
  obtain ev x where x: "map_established_driver_error e = (ev, x)" by fastforce
  show ?thesis
    using assms preceding_event[of e] driver_error_event[of e] driver_error_reported[of e]
    by (auto simp: driver_failed_def q x flow_event_outcome simp del: outcome_good.simps(4) split: option.split)
      (simp_all add: flow_event_def)
qed

lemma poll_established_good:
  fixes d :: "('q, 'w, 'f, 'r) connection_driver"
  assumes law: "connection_law io rlog sent taken" and d: "driven_ok io rlog lim c m ep d" and m: "manager_ok m"
  shows "transition_good io rlog lim c m (poll_established io tn c d m ep)"
proof -
  obtain c0 where ok: "driver_ok io rlog lim c0 (d, ep)" and own: "owner_ok c m (et_connection (cd_teardown d)) (et_exchange (cd_teardown d))"
    using d by (auto simp: driven_ok_def)
  have ep: "endpoint_ok lim ep" using ok by (simp add: driver_ok_def resources_ok_def flow_pair_ok_def)
  show ?thesis
  proof (cases "cd_phase d")
    case DriverTerminal
    then show ?thesis
      using driver_failed_good[OF d, of "op_quinn io" "DriverState DriverIsTerminal"] m ep
      by (auto simp: poll_established_def driver_poll_step_def transition_good_def)
  next
    case DriverActive
    obtain x d' ep' where x: "driver_poll_step io (tn_driver tn) d ep = Some (x, d', ep')" "driver_ok io rlog lim c0 (d', ep')"
      "poll_good x d'"
      using driver_poll_step_ok[OF ok DriverActive, of "tn_driver tn"] law by (auto simp: connection_law_def)
    have own': "driven_ok io rlog lim c m ep' d'"
      using x(1,2) own poll_step_owner[of d io "tn_driver tn" ep] by (auto simp: driven_ok_def keeps_owner_def)
    have ep': "endpoint_ok lim ep'" using x(2) by (simp add: driver_ok_def resources_ok_def flow_pair_ok_def)
    show ?thesis
    proof (cases x)
      case Pending
      then show ?thesis using x(1) own' m ep' by (simp add: poll_established_def transition_good_def)
    next
      case (Ready r)
      show ?thesis
      proof (cases r)
        case (Err e)
        then show ?thesis
          using Ready x(1) driver_failed_good[OF own', of "op_quinn io" e] m ep'
          by (auto simp: poll_established_def transition_good_def)
      next
        case (Ok p)
        then show ?thesis
          using Ready x(1) own' m ep' progress_event[of c p]
          by (auto simp: poll_established_def fault_kind_def flow_event_outcome simp del: outcome_good.simps(4)
              split: result.split option.split intro!: transition_goodI)
      qed
    qed
  qed
qed

lemma poll_negotiated_good:
  fixes core :: "('q, 'w, 'r) connection_core"
  assumes own: "owner_ok c m (cc_connection core) (cc_exchange core)" and ready: "ready_ok (cc_profile core)"
    and ep: "endpoint_ok lim ep"
  shows "case (poll_negotiated c limits core :: poll_outcome \<times> ('q, 'w, 'f, 'r) connection_state) of
     (out, st) \<Rightarrow> state_good io rlog lim c m ep st \<and> outcome_good c out st"
proof -
  let ?core = "\<lparr>cc_connection = cc_connection core, cc_quinn = cc_quinn core, cc_profile = cc_profile core, cc_exchange = cc_exchange core\<rparr>"
  have core: "?core = core" by simp
  obtain fcc where fcc: "into_flow_control ?core = Ok fcc"
    "driver_ok io rlog lim (fcc_flow_control fcc) (driver_of fcc (rr_scratch_bytes limits) (rr_max_staging_bytes limits), ep)"
    "cd_phase (driver_of fcc (rr_scratch_bytes limits) (rr_max_staging_bytes limits) :: ('q, 'w, 'f, 'r) connection_driver) = DriverActive"
    using ready_starts[OF ready ep, of "cc_connection core" "cc_quinn core" "cc_exchange core" io rlog] by blast
  have "fcc_core fcc = core" using fcc(1) unfolding core by (auto simp: into_flow_control_def split: result.splits)
  then have "cd_teardown (driver_of fcc (rr_scratch_bytes limits) (rr_max_staging_bytes limits) :: ('q, 'w, 'f, 'r) connection_driver)
      = \<lparr>et_connection = cc_connection core, et_exchange = cc_exchange core\<rparr>"
    by (simp add: into_reliable_io_def reliable_into_established_io_def into_established_io_def core_into_established_io_def
        into_connection_driver_def Let_def)
  then show ?thesis
    using fcc own unfolding core
    by (auto simp: poll_negotiated_def activate_established_driver_def driven_ok_def)
qed

section \<open>A poll\<close>

lemma state_good_manager: "state_good io rlog lim c m ep st \<Longrightarrow> manager_ok m"
  by (cases st) (auto simp: core_ok_def exchange_ok_def driven_ok_def owner_ok_def)

lemma poll_transition_good:
  assumes law: "connection_law io rlog sent taken" and st: "state_good io rlog lim c m ep st" and ep: "endpoint_ok lim ep"
  shows "transition_good io rlog lim c m (poll_transition io tn c limits (st, m, ep))"
proof -
  note m = state_good_manager[OF st]
  have quiet: "transition_good io rlog lim c m (Some (out, st', m, ep))"
    if "state_good io rlog lim c m ep st'" "outcome_good c out st'" for out st'
    using that m ep by (simp add: transition_good_def)
  show ?thesis
  proof (cases st)
    case (StateSending core r s f disposition)
    then show ?thesis using st poll_sending_good[OF law _ _ _ ep] by (simp add: poll_transition_def)
  next
    case (StateReceiving core s r)
    then show ?thesis using st poll_receiving_good[OF law _ _ _ ep] by (simp add: poll_transition_def)
  next
    case (StateNegotiated core)
    then have "case poll_negotiated c limits core of (out, st) \<Rightarrow> state_good io rlog lim c m ep st \<and> outcome_good c out st"
      using st by (intro poll_negotiated_good ep) simp_all
    then show ?thesis using quiet by (auto simp: StateNegotiated poll_transition_def)
  next
    case (StateEstablished d)
    then show ?thesis using st poll_established_good[OF law _ m] by (simp add: poll_transition_def)
  next
    case (StatePeerClosed d pending)
    then show ?thesis using st
      by (cases pending) (auto simp: poll_transition_def state_error_def classified_def fault_kind_def intro!: quiet)
  next
    case (StateEstablishedFailed d k e)
    then show ?thesis using st
      by (cases e) (auto simp: poll_transition_def classified_def intro!: quiet)
  qed (use st in \<open>auto simp: poll_transition_def state_error_def classified_def fault_kind_def intro!: quiet\<close>)
qed

text \<open>A poll: like a transition, but it always has an outcome.\<close>

definition poll_kept ::
  "('q, 'w, 'f, 'r) driver_ops \<Rightarrow> ('r \<Rightarrow> bytes) \<Rightarrow> delivery_scope_limits \<Rightarrow> connection_handle \<Rightarrow>
     negotiation_manager \<Rightarrow> ((connection_event, public_error) result poll, 'q, 'w, 'f, 'r) state_op \<Rightarrow> bool" where
  "poll_kept io rlog lim c m q \<longleftrightarrow> (\<exists>x st m' ep'. q = Some (x, st, m', ep')
     \<and> state_good io rlog lim c m' ep' st \<and> outcome_good c (Some x) st
     \<and> manager_ok m' \<and> same_elsewhere c m m' \<and> endpoint_ok lim ep')"

lemma poll_transitions_good:
  assumes law: "connection_law io rlog sent taken"
  shows "state_good io rlog lim c m ep st \<Longrightarrow> endpoint_ok lim ep \<Longrightarrow> \<not> connection_over st \<or> 0 < n \<Longrightarrow>
    poll_kept io rlog lim c m (poll_transitions io tn c limits n (st, m, ep))"
proof (induction n arbitrary: st m ep)
  case 0
  then show ?case using state_good_manager[OF 0(1)] by (simp add: poll_kept_def)
next
  case (Suc n)
  obtain out st1 m1 ep1 where t: "poll_transition io (tn n) c limits (st, m, ep) = Some (out, st1, m1, ep1)"
    "state_good io rlog lim c m1 ep1 st1" "outcome_good c out st1" "manager_ok m1" "same_elsewhere c m m1" "endpoint_ok lim ep1"
    using poll_transition_good[OF law Suc.prems(1,2), of "tn n" limits] by (auto simp: transition_good_def)
  show ?case
  proof (cases out)
    case (Some x)
    then show ?thesis using t by (simp add: poll_kept_def)
  next
    case None
    then have "poll_kept io rlog lim c m1 (poll_transitions io tn c limits n (st1, m1, ep1))"
      using Suc.IH[OF t(2,6)] t(3) by simp
    then show ?thesis using None t(1,5) by (auto simp: poll_kept_def intro: same_elsewhere_trans)
  qed
qed

end
