(* ===== verification/Public_Calls_Safety.thy ===== *)
theory Public_Calls_Safety
  imports Public_Safety
begin

text \<open>
  The calls of the host keep the invariant of a connection: its activation, the selection of the
  authority, the commands on flows and the teardown; and no call on one connection touches another.
\<close>

definition connection_good ::
  "('q, 'w, 'f, 'r) driver_ops \<Rightarrow> ('r \<Rightarrow> bytes) \<Rightarrow> delivery_scope_limits \<Rightarrow> connection_handle \<Rightarrow>
     negotiation_manager \<Rightarrow> delivery_endpoint \<Rightarrow> ('q, 'w, 'f, 'r) connection \<Rightarrow> bool" where
  "connection_good io rlog lim c m ep k \<longleftrightarrow> pb_connection k = c \<and> state_good io rlog lim c m ep (pb_state k)"

lemma connection_good_state [simp]:
  "connection_good io rlog lim c m ep (k\<lparr>pb_state := st\<rparr>) \<longleftrightarrow> pb_connection k = c \<and> state_good io rlog lim c m ep st"
  by (simp add: connection_good_def)

section \<open>Other connections\<close>

lemma driven_ok_elsewhere:
  assumes "driven_ok io rlog lim c m ep d" "same_elsewhere c' m m'" "c \<noteq> c'" "manager_ok m'" "endpoint_ok lim ep'"
  shows "driven_ok io rlog lim c m' ep' d"
  using assms exchange_ok_elsewhere[OF _ assms(2) _ assms(4)]
  by (auto simp: driven_ok_def owner_ok_def driver_ok_def resources_ok_def flow_pair_ok_def)

lemma state_good_elsewhere:
  assumes "state_good io rlog lim c m ep st" "same_elsewhere c' m m'" "c \<noteq> c'" "manager_ok m'" "endpoint_ok lim ep'"
  shows "state_good io rlog lim c m' ep' st"
  using assms exchange_ok_elsewhere[OF _ assms(2) _ assms(4)] driven_ok_elsewhere[OF _ assms(2-5)]
  by (cases st) (auto simp: core_ok_def owner_ok_def)

text \<open>A change of the core endpoint by the host itself.\<close>

lemma state_good_endpoint:
  "state_good io rlog lim c m ep st \<Longrightarrow> endpoint_ok lim ep' \<Longrightarrow> state_good io rlog lim c m ep' st"
  by (cases st) (auto simp: driven_ok_def driver_ok_def resources_ok_def flow_pair_ok_def)

section \<open>Activation and the authority\<close>

lemma connection_poll_good:
  assumes law: "connection_law io rlog sent taken" and k: "connection_good io rlog lim c m ep k" and ep: "endpoint_ok lim ep"
  shows "\<exists>x k' m' ep'. connection_poll io tn k m ep = Some (x, k', m', ep')
    \<and> connection_good io rlog lim c m' ep' k' \<and> outcome_good c (Some x) (pb_state k')
    \<and> manager_ok m' \<and> same_elsewhere c m m' \<and> endpoint_ok lim ep'"
proof -
  have "poll_kept io rlog lim c m (poll_transitions io tn c (pb_reliable_receive k)
      MAX_INTERNAL_TRANSITIONS_PER_POLL (pb_state k, m, ep))"
    using k by (intro poll_transitions_good[OF law _ ep]) (simp_all add: connection_good_def MAX_INTERNAL_TRANSITIONS_PER_POLL_def)
  then show ?thesis using k by (auto simp: poll_kept_def connection_poll_def connection_good_def)
qed

lemma fresh_exchange_ok:
  assumes "manager_ok m" "\<not> manager_knows m c"
  shows "exchange_ok (exchange_from_profile c l p) m" "nx_connection (exchange_from_profile c l p) = c"
  using assms by (simp_all add: exchange_ok_def exchange_from_profile_def state_ok_def unowned_def)

lemma profile_activate_good:
  fixes p :: "('q, 'w, 'r) profile_ready_connection" and io :: "('q, 'w, 'f, 'r) driver_ops"
  assumes ready: "ready_ok (pq_ready p)" and m: "manager_ok m" "\<not> manager_knows m c"
  shows "\<exists>(x :: (('q, 'w, 'f, 'r) connection, public_error) result) m'.
    profile_activate qo al p c offer req m slots = Some (x, m', if is_ok x then slots else permit_drop slots)
    \<and> manager_ok m' \<and> same_elsewhere c m m'
    \<and> (case x of Ok k \<Rightarrow> connection_good io rlog lim c m' ep k \<and> \<not> connection_over (pb_state k)
       | Err e \<Rightarrow> \<not> fault_kind (pe_kind e) \<and> \<not> manager_knows m' c)"
proof -
  define core where "core = \<lparr>nk_connection = c, nk_quinn = pq_quinn p, nk_side = pr_side (pq_ready p),
    nk_peer_settings = pr_peer_settings (pq_ready p),
    nk_exchange = exchange_from_profile c (ct_local_settings (pr_sender (pq_ready p))) (pr_peer_settings (pq_ready p)),
    nk_requirements = req\<rparr>"
  let ?x = "nk_exchange core"
  have fresh: "exchange_ok ?x m" "nx_connection ?x = c" using fresh_exchange_ok[OF m] by (simp_all add: core_def)
  have core: "core_ok c m core" using fresh by (simp add: core_ok_def core_def)
  have ctl: "control_ok (core\<lparr>nk_exchange := y\<rparr>) (pr_sender (pq_ready p)) (pr_receiver (pq_ready p))" for y
    using ready by (simp add: control_ok_def ready_ok_def core_def)
  obtain x x' m' where q: "prepare_offer al ?x m offer = Some (x, x', m')" "core_ok c m' (core\<lparr>nk_exchange := x'\<rparr>)"
    "manager_ok m'" "same_elsewhere c m m'" "\<And>e. x = Err e \<Longrightarrow> \<not> internal_error e \<and> nx_state x' = NxFailed"
    by (rule exchange_moves[OF core prepare_offer_good[OF fresh(1)]]) blast
  let ?t = "transition_from_local_operation qo (core\<lparr>nk_exchange := x'\<rparr>) (pr_sender (pq_ready p)) (pr_receiver (pq_ready p)) x
    :: ('q, 'w, 'f, 'r) connection_transition"
  have "case x of Ok f \<Rightarrow> cf_type f \<noteq> SettingsType \<and> awaits_frame (nx_state x')
      | Err e \<Rightarrow> \<not> internal_error e \<and> nx_state x' = NxFailed"
    using q(1,5) prepare_offer_leads by (fastforce simp: awaits_frame_def split: result.split)
  then have good: "case transition_outcome ?t of (out, st) \<Rightarrow> state_good io rlog lim c m' ep st \<and> outcome_good c out st"
    by (intro local_operation_good[OF q(2) ctl]) (simp split: result.splits)
  have err: "\<not> manager_knows m' c" if "x = Err e" for e
    using q(2) q(5)[OF that] by (auto simp: core_ok_def exchange_ok_def unowned_def)
  have no_event: "?t \<noteq> ToEvent st e" for st e
    by (simp add: transition_from_local_operation_def transition_from_error_def split: result.split
        negotiation_control_error.split option.split prod.split)
  have is_err: "\<exists>e'. x = Err e'" if "?t = ToError st e" for st e
    using that by (cases x) (simp_all add: transition_from_local_operation_def)
  have run: "profile_activate qo al p c offer req m slots = Some (case ?t of
         ToState st \<Rightarrow> (Ok \<lparr>pb_connection = c, pb_reliable_receive = pq_reliable_receive p, pb_state = st\<rparr>, m', slots)
       | ToEvent st _ \<Rightarrow> (Ok \<lparr>pb_connection = c, pb_reliable_receive = pq_reliable_receive p, pb_state = st\<rparr>, m', slots)
       | ToError _ e \<Rightarrow> (Err e, m', permit_drop slots))"
    using q(1) by (simp add: profile_activate_def core_def Let_def)
  show ?thesis
  proof (cases ?t)
    case (ToState st)
    then show ?thesis using run good q(3,4) by (simp add: transition_outcome_def connection_good_def)
  next
    case (ToEvent st e)
    then show ?thesis using no_event by blast
  next
    case (ToError st e)
    then show ?thesis using run good q(3,4) is_err err by (auto simp: transition_outcome_def)
  qed
qed

lemma select_authority_refused:
  assumes "\<And>core s r. pb_state k \<noteq> StateAuthoritySelection core s r"
  shows "\<exists>e. select_authority io al order k m contract = Some (Err (state_error e), k, m)"
  using assms by (auto simp: select_authority_def split: connection_state.split)

lemma state_error_fine [simp]: "\<not> fault_kind (pe_kind (state_error e))"
  by (simp add: state_error_def classified_def fault_kind_def)

lemma select_authority_good:
  fixes k :: "('q, 'w, 'f, 'r) connection"
  assumes k: "connection_good io rlog lim c m ep k" and order: "contract_listed order contract"
  shows "\<exists>x k' m'. select_authority io al order k m contract = Some (x, k', m')
    \<and> connection_good io rlog lim c m' ep k' \<and> manager_ok m' \<and> same_elsewhere c m m'
    \<and> (\<forall>e. x = Err e \<longrightarrow> \<not> fault_kind (pe_kind e)) \<and> (x = Ok () \<longrightarrow> \<not> connection_over (pb_state k'))"
proof -
  have m: "manager_ok m" using k state_good_manager by (auto simp: connection_good_def)
  show ?thesis
  proof (cases "\<exists>core s r. pb_state k = StateAuthoritySelection core s r")
    case False
    then obtain e where "select_authority io al order k m contract = Some (Err (state_error e), k, m)"
      using select_authority_refused by metis
    then show ?thesis using k m by simp
  next
    case True
    then obtain core s r where st: "pb_state k = StateAuthoritySelection core s r" by blast
    have core: "core_ok c m core" and ctl: "control_ok core s r" and c: "pb_connection k = c"
      using k by (simp_all add: connection_good_def st)
    have x: "exchange_ok (nk_exchange core) m" using core by (simp add: core_ok_def)
    obtain x x' m' where q: "propose_authority al order (nk_exchange core) m contract (nk_requirements core) = Some (x, x', m')"
      "core_ok c m' (core\<lparr>nk_exchange := x'\<rparr>)" "manager_ok m'" "same_elsewhere c m m'"
      "\<And>e. x = Err e \<Longrightarrow> \<not> internal_error e \<and> nx_state x' = NxFailed"
      by (rule exchange_moves[OF core propose_authority_good[OF x order]]) blast
    let ?t = "transition_from_local_operation (op_quinn io) (core\<lparr>nk_exchange := x'\<rparr>) s r x
      :: ('q, 'w, 'f, 'r) connection_transition"
    have "case x of Ok f \<Rightarrow> cf_type f \<noteq> SettingsType \<and> awaits_frame (nx_state x')
        | Err e \<Rightarrow> \<not> internal_error e \<and> nx_state x' = NxFailed"
    proof (cases x)
      case (Err e)
      then show ?thesis using q(5) by simp
    next
      case (Ok f)
      then show ?thesis using propose_authority_leads q(1) by (simp add: awaits_frame_def)
    qed
    then have "case transition_outcome ?t of (out, st) \<Rightarrow> state_good io rlog lim c m' ep st \<and> outcome_good c out st"
      using ctl by (intro local_operation_good[OF q(2)]) (simp_all add: control_ok_def split: result.splits)
    moreover have "?t \<noteq> ToEvent st e" for st e
      by (simp add: transition_from_local_operation_def transition_from_error_def split: result.split
          negotiation_control_error.split option.split prod.split)
    ultimately show ?thesis using q(1,3,4) c
      by (cases ?t) (auto simp: select_authority_def st transition_outcome_def)
  qed
qed

section \<open>Commands on flows\<close>

definition command_kept ::
  "('q, 'w, 'f, 'r) driver_ops \<Rightarrow> ('r \<Rightarrow> bytes) \<Rightarrow> delivery_scope_limits \<Rightarrow> connection_handle \<Rightarrow>
     negotiation_manager \<Rightarrow> ('a, 'q, 'w, 'f, 'r) command_op \<Rightarrow> bool" where
  "command_kept io rlog lim c m q \<longleftrightarrow> (\<exists>x k ep. q = Some (x, k, ep) \<and> connection_good io rlog lim c m ep k \<and> endpoint_ok lim ep)"

lemma command_kept_Some [simp]:
  "command_kept io rlog lim c m (Some (x, k, ep)) \<longleftrightarrow> connection_good io rlog lim c m ep k \<and> endpoint_ok lim ep"
  by (simp add: command_kept_def)

lemma command_driver_Ok: "command_driver k = Ok d \<longleftrightarrow> pb_state k = StateEstablished d"
  by (simp add: command_driver_def split: connection_state.split)

lemma command_result_kept:
  assumes k: "connection_good io rlog lim c m ep k" and d: "command_driver k = Ok d"
    and call: "\<And>c0. driver_ok io rlog lim c0 (d, ep) \<Longrightarrow> call_ok io rlog lim c0 q" and owner: "keeps_owner (cd_teardown d) q"
  shows "command_kept io rlog lim c m (command_result k g q)"
proof -
  have "driven_ok io rlog lim c m ep d" using k d by (simp add: connection_good_def command_driver_Ok)
  then obtain c0 where own: "owner_ok c m (et_connection (cd_teardown d)) (et_exchange (cd_teardown d))"
    and ok: "driver_ok io rlog lim c0 (d, ep)"
    by (auto simp: driven_ok_def)
  obtain x d' ep' where q: "q = Some (x, d', ep')" "driver_ok io rlog lim c0 (d', ep')"
    using call[OF ok] by (auto simp: call_ok_def)
  have "cd_teardown d' = cd_teardown d" using owner q(1) by simp
  moreover have "endpoint_ok lim ep'" using q(2) by (simp add: driver_ok_def resources_ok_def flow_pair_ok_def)
  ultimately show ?thesis using q k own by (auto simp: command_result_def driven_ok_def connection_good_def)
qed

lemma commands_kept:
  assumes k: "connection_good io rlog lim c m ep k" and ep: "endpoint_ok lim ep"
  shows "0 < fp_max_message_bytes (oc_policy config) \<Longrightarrow> command_kept io rlog lim c m (open_outbound_flow io tu k ep config)"
    "command_kept io rlog lim c m (accept_incoming_flow io tu k ep q iconfig)"
    "command_kept io rlog lim c m (reject_incoming_flow io tu k ep q reason)"
    "command_kept io rlog lim c m (finish_outbound_flow_normal io tu k ep key)"
    "command_kept io rlog lim c m (connection_submit io tu k ep key payload)"
proof -
  note kept = command_result_kept[OF k]
  show "command_kept io rlog lim c m (open_outbound_flow io tu k ep config)" if "0 < fp_max_message_bytes (oc_policy config)"
    using that k ep
    by (auto simp: open_outbound_flow_def split: result.split intro!: kept driver_open_outbound_ok host_call_owner(1))
  show "command_kept io rlog lim c m (accept_incoming_flow io tu k ep q iconfig)"
    using k ep by (auto simp: accept_incoming_flow_def split: result.split intro!: kept decide_ok(1) host_call_owner(2))
  show "command_kept io rlog lim c m (reject_incoming_flow io tu k ep q reason)"
    using k ep by (auto simp: reject_incoming_flow_def split: result.split intro!: kept decide_ok(2) host_call_owner(3))
  show "command_kept io rlog lim c m (finish_outbound_flow_normal io tu k ep key)"
    using k ep
    by (auto simp: finish_outbound_flow_normal_def split: result.split option.split
        intro!: kept driver_request_finish_by_key_ok finish_by_key_owner)
  obtain x ep' where sub: "submit ep key payload = Some (x, ep')" "endpoint_ok lim ep'" using submit_total[OF ep] by blast
  have "connection_good io rlog lim c m ep' k" using k sub(2) state_good_endpoint by (auto simp: connection_good_def)
  then show "command_kept io rlog lim c m (connection_submit io tu k ep key payload)"
    using k ep sub
    by (auto simp: connection_submit_def split: result.split option.split intro!: kept driver_submit_by_key_ok submit_by_key_owner)
qed

section \<open>Teardown\<close>

text \<open>
  The quinn connection after a teardown: a negotiation under way is closed as failed, a connection with a
  driver is closed without an error unless it is closed already, and any other is left as it is.
\<close>

definition closed_without_error :: "('q, 'w, 'r) quinn_ops \<Rightarrow> 'q \<Rightarrow> 'q" where
  "closed_without_error qo q =
     (case qn_close_reason qo q of
        (None, q) \<Rightarrow> qn_close qo q (code_wire NoError) ESTABLISHED_TEARDOWN_CLOSE_REASON
      | (Some _, q) \<Rightarrow> q)"

fun quinn_left :: "('q, 'w, 'r) quinn_ops \<Rightarrow> ('q, 'w, 'f, 'r) connection_state \<Rightarrow> 'q \<Rightarrow> bool" where
  "quinn_left qo (StateSending core _ _ _ _) q \<longleftrightarrow> q = close_negotiation_failed qo (nk_quinn core)"
| "quinn_left qo (StateReceiving core _ _) q \<longleftrightarrow> q = close_negotiation_failed qo (nk_quinn core)"
| "quinn_left qo (StateAuthoritySelection core _ _) q \<longleftrightarrow> q = close_negotiation_failed qo (nk_quinn core)"
| "quinn_left qo (StateNegotiated core) q \<longleftrightarrow> q = cc_quinn core"
| "quinn_left qo (StateEstablished d) q \<longleftrightarrow> q = closed_without_error qo (cd_quinn d)"
| "quinn_left qo (StatePeerClosed d _) q \<longleftrightarrow> q = closed_without_error qo (cd_quinn d)"
| "quinn_left qo (StateEstablishedFailed d _ _) q \<longleftrightarrow> q = closed_without_error qo (cd_quinn d)"
| "quinn_left qo (StateActivationFailed core) q \<longleftrightarrow> q = cc_quinn core"
| "quinn_left qo (StateFailed core) q \<longleftrightarrow> q = nk_quinn core"
| "quinn_left qo StateTransitioning q \<longleftrightarrow> False"

text \<open>What a teardown leaves of the flows, of the manager and of the slots.\<close>

definition torn_down ::
  "delivery_scope_limits \<Rightarrow> connection_handle \<Rightarrow> negotiation_manager \<Rightarrow> delivery_endpoint \<Rightarrow> connection_slots \<Rightarrow>
     'q \<Rightarrow> 'q teardown_op \<Rightarrow> bool" where
  "torn_down lim c m ep slots q x \<longleftrightarrow> (\<exists>t m' ep'. x = Some (q, t, m', ep', permit_drop slots)
     \<and> (\<forall>k. fmlookup (de_flows ep') k = (if fk_connection k = c then None else fmlookup (de_flows ep) k))
     \<and> endpoint_ok lim ep' \<and> \<not> manager_knows m' c \<and> same_elsewhere c m m' \<and> manager_ok m'
     \<and> pt_connection t = c \<and> pt_cleanup_error t = None)"

lemma teardown_connection_clean:
  assumes "exchange_ok x m" "nx_connection x = c" "endpoint_ok lim ep"
  obtains t m' ep' where "teardown_connection c x m ep = Some (t, m', ep')" "td_connection t = c"
    "td_negotiation_cleanup_error t = None"
    "\<forall>k. fmlookup (de_flows ep') k = (if fk_connection k = c then None else fmlookup (de_flows ep) k)"
    "endpoint_ok lim ep'" "\<not> manager_knows m' c" "same_elsewhere c m m'" "manager_ok m'"
proof -
  obtain ts ep' where ts: "terminate_connection ep c = Some (ts, ep')" "endpoint_ok lim ep'"
    "de_flows ep' = fmfilter (\<lambda>k. fk_connection k \<noteq> c) (de_flows ep)"
    using terminate_connection_ok[OF assms(3)] by blast
  obtain x' m' where m': "exchange_abort x m = Some (Ok (), x', m')" "\<not> manager_knows m' c" "same_elsewhere c m m'" "manager_ok m'"
    using exchange_abort_releases[OF assms(1)] assms(2) by auto
  have run: "teardown_connection c x m ep = Some (\<lparr>td_connection = c, td_flow_terminations = ts,
      td_negotiation_cleanup_error = None\<rparr>, m', ep')"
    using ts(1) m'(1) by (simp add: teardown_connection_def Let_def)
  show ?thesis by (rule that[OF run]) (use ts m' in simp_all)
qed

lemma connection_teardown_good:
  fixes k :: "('q, 'w, 'f, 'r) connection"
  assumes k: "connection_good io rlog lim c m ep k" and ep: "endpoint_ok lim ep"
  shows "\<exists>q. quinn_left (op_quinn io) (pb_state k) q \<and> torn_down lim c m ep slots q (connection_teardown_run io k m ep slots)"
proof -
  have negotiating: "torn_down lim c m ep slots (if b then close_negotiation_failed qo (nk_quinn core) else nk_quinn core)
      (negotiation_teardown qo core m ep slots b)" if core: "core_ok c m core"
    for qo :: "('q, 'w, 'r) quinn_ops" and core b
  proof -
    have x: "exchange_ok (nk_exchange core) m" "nx_connection (nk_exchange core) = c" "nk_connection core = c"
      using core by (simp_all add: core_ok_def)
    show ?thesis
      by (rule teardown_connection_clean[OF x(1,2) ep])
        (use x(3) in \<open>simp add: torn_down_def negotiation_teardown_def public_teardown_of_def Let_def\<close>)
  qed
  have established: "torn_down lim c m ep slots (cc_quinn core) (do { (t, m, ep, slots) \<leftarrow> core_teardown core m ep slots;
      t \<leftarrow> public_teardown_of t; Some (cc_quinn core, t, m, ep, slots) })"
    if own: "owner_ok c m (cc_connection core) (cc_exchange core)" for core :: "('q, 'w, 'r) connection_core"
  proof -
    have x: "exchange_ok (cc_exchange core) m" "nx_connection (cc_exchange core) = c" "cc_connection core = c"
      using own by (simp_all add: owner_ok_def)
    show ?thesis
      by (rule teardown_connection_clean[OF x(1,2) ep])
        (use x(3) in \<open>simp add: torn_down_def core_teardown_def public_teardown_of_def Let_def\<close>)
  qed
  have driven: "torn_down lim c m ep slots (closed_without_error (op_quinn io) (cd_quinn d)) (do { (q, t, m, ep, slots) \<leftarrow> driver_teardown io d m ep slots;
      t \<leftarrow> public_teardown_of t; Some (q, t, m, ep, slots) })"
    if d: "driven_ok io rlog lim c m ep d" for d :: "('q, 'w, 'f, 'r) connection_driver"
  proof -
    have x: "exchange_ok (et_exchange (cd_teardown d)) m" "nx_connection (et_exchange (cd_teardown d)) = c"
      "et_connection (cd_teardown d) = c"
      using d by (simp_all add: owner_ok_def driven_ok_def)
    show ?thesis
      by (rule teardown_connection_clean[OF x(1,2) ep])
        (use x(3) in \<open>simp add: torn_down_def closed_without_error_def driver_teardown_def established_teardown_run_def public_teardown_of_def Let_def\<close>)
  qed
  show ?thesis
    using k negotiating[of _ True "op_quinn io"] negotiating[of _ False "op_quinn io"] established driven
    by (cases "pb_state k") (simp_all add: connection_good_def connection_teardown_run_def Let_def)
qed

end
