(* ===== verification/Public_Host.thy ===== *)
theory Public_Host
  imports Public_Calls_Safety
begin

text \<open>
  A host with its endpoint and its public connections as one machine, and its invariant: whatever the
  host asks for, and whatever its peers, its streams and the allocator do.
\<close>

section \<open>A host\<close>

text \<open>The admitted connections are not negotiating yet; the errors are those that the host was given.\<close>

record ('q, 'w, 'f, 'r, 'v, 't) host =
  ho_quic :: "('v, 't) configured_endpoint"
  ho_admitted :: "('q, 'w, 'r) profile_ready_connection list"
  ho_connections :: "(connection_handle, ('q, 'w, 'f, 'r) connection) fmap"
  ho_manager :: negotiation_manager
  ho_delivery :: delivery_endpoint
  ho_errors :: "public_error list"

definition host_new ::
  "('v, 't) configured_endpoint \<Rightarrow> negotiation_manager \<Rightarrow> delivery_scope_limits \<Rightarrow> ('q, 'w, 'f, 'r, 'v, 't) host" where
  "host_new quic m lim = \<lparr>ho_quic = quic, ho_admitted = [], ho_connections = fmempty, ho_manager = m,
     ho_delivery = endpoint_new lim, ho_errors = []\<rparr>"

text \<open>The calls on a connection, with everything that may differ from one to the next.\<close>

datatype connection_call =
    PollConnection "nat \<Rightarrow> connection_turn"
  | SelectAuthority exchange_allocs contract_order negotiated_contract
  | OpenFlow driver_turn outbound_flow_config
  | AcceptFlow driver_turn incoming_flow_request inbound_flow_config
  | RejectFlow driver_turn incoming_flow_request flow_rejection_reason
  | FinishFlow driver_turn delivery_flow_key
  | SubmitPayload driver_turn delivery_flow_key bytes

datatype ('q, 'w, 'r, 'e, 'v, 't) host_call =
    HostConnect "nat \<Rightarrow> bool" "('q, 'w, 'r) bootstrap_ops" "('v, 't) profile_config"
      "(('q, connection_error) result awaited, 'e) result"
  | HostAccept "nat \<Rightarrow> bool" "('q, 'w, 'r) bootstrap_ops" "('v, 't) profile_config"
      "(('q, connection_error) result awaited, connection_error) result option awaited"
  | HostForget nat
  | HostActivate nat connection_handle exchange_allocs compatibility_offer negotiation_requirements
  | HostCall connection_handle connection_call
  | HostTeardown connection_handle
  | HostDelivery delivery_call

text \<open>The host keeps a connection under its handle, and hears of errors only.\<close>

definition host_keep ::
  "connection_handle \<Rightarrow> ('q, 'w, 'f, 'r, 'v, 't) host \<Rightarrow>
     ('q, 'w, 'f, 'r) connection \<Rightarrow> negotiation_manager \<Rightarrow> delivery_endpoint \<Rightarrow> public_error list \<Rightarrow>
     ('q, 'w, 'f, 'r, 'v, 't) host" where
  "host_keep c h k m ep es = h\<lparr>ho_connections := fmupd c k (ho_connections h), ho_manager := m, ho_delivery := ep,
     ho_errors := es @ ho_errors h\<rparr>"

definition errors_of :: "('a, public_error) result \<Rightarrow> public_error list" where
  "errors_of x = (case x of Ok _ \<Rightarrow> [] | Err e \<Rightarrow> [e])"

fun connection_step ::
  "('q, 'w, 'f, 'r) driver_ops \<Rightarrow> connection_handle \<Rightarrow> ('q, 'w, 'f, 'r) connection \<Rightarrow>
     ('q, 'w, 'f, 'r, 'v, 't) host \<Rightarrow> connection_call \<Rightarrow> ('q, 'w, 'f, 'r, 'v, 't) host exec" where
  "connection_step io c k h (PollConnection tn) = do {
     (x, k, m, ep) \<leftarrow> connection_poll io tn k (ho_manager h) (ho_delivery h);
     Some (host_keep c h k m ep (case x of Pending \<Rightarrow> [] | Ready y \<Rightarrow> errors_of y)) }"
| "connection_step io c k h (SelectAuthority al order contract) = do {
     (x, k, m) \<leftarrow> select_authority io al order k (ho_manager h) contract;
     Some (host_keep c h k m (ho_delivery h) (errors_of x)) }"
| "connection_step io c k h (OpenFlow tu config) = do {
     (_, k, ep) \<leftarrow> open_outbound_flow io tu k (ho_delivery h) config;
     Some (host_keep c h k (ho_manager h) ep []) }"
| "connection_step io c k h (AcceptFlow tu q config) = do {
     (_, k, ep) \<leftarrow> accept_incoming_flow io tu k (ho_delivery h) q config;
     Some (host_keep c h k (ho_manager h) ep []) }"
| "connection_step io c k h (RejectFlow tu q reason) = do {
     (_, k, ep) \<leftarrow> reject_incoming_flow io tu k (ho_delivery h) q reason;
     Some (host_keep c h k (ho_manager h) ep []) }"
| "connection_step io c k h (FinishFlow tu key) = do {
     (_, k, ep) \<leftarrow> finish_outbound_flow_normal io tu k (ho_delivery h) key;
     Some (host_keep c h k (ho_manager h) ep []) }"
| "connection_step io c k h (SubmitPayload tu key payload) = do {
     (_, k, ep) \<leftarrow> connection_submit io tu k (ho_delivery h) key payload;
     Some (host_keep c h k (ho_manager h) ep []) }"

definition drop_nth :: "nat \<Rightarrow> 'a list \<Rightarrow> 'a list" where
  "drop_nth i xs = take i xs @ drop (Suc i) xs"

text \<open>A connection that is not there cannot be called, and a handle that is taken is not used again.\<close>

fun host_step ::
  "('q, 'w, 'f, 'r) driver_ops \<Rightarrow> ('q, 'w, 'f, 'r, 'v, 't) host \<Rightarrow> ('q, 'w, 'r, 'e, 'v, 't) host_call \<Rightarrow>
     ('q, 'w, 'f, 'r, 'v, 't) host exec" where
  "host_step io h (HostConnect alloc bo profile connecting) = do {
     (x, quic) \<leftarrow> client_connect alloc bo (ho_quic h) profile connecting;
     Some (h\<lparr>ho_quic := quic, ho_admitted := (case x of Done (Ok p) \<Rightarrow> [p] | _ \<Rightarrow> []) @ ho_admitted h\<rparr>) }"
| "host_step io h (HostAccept alloc bo profile incoming) = do {
     (x :: (_, 'e public_profile_error) result option awaited, quic) \<leftarrow> server_accept alloc bo (ho_quic h) profile incoming;
     Some (h\<lparr>ho_quic := quic, ho_admitted := (case x of Done (Some (Ok p)) \<Rightarrow> [p] | _ \<Rightarrow> []) @ ho_admitted h\<rparr>) }"
| "host_step io h (HostForget i) =
     Some (if length (ho_admitted h) \<le> i then h
       else h\<lparr>ho_admitted := drop_nth i (ho_admitted h),
         ho_quic := (ho_quic h)\<lparr>ce_slots := permit_drop (ce_slots (ho_quic h))\<rparr>\<rparr>)"
| "host_step io h (HostActivate i c al offer req) =
     (if length (ho_admitted h) \<le> i \<or> fmlookup (ho_connections h) c \<noteq> None then Some h
      else do {
        (x, m, slots) \<leftarrow> profile_activate (op_quinn io) al (ho_admitted h ! i) c offer req (ho_manager h)
          (ce_slots (ho_quic h));
        let h = h\<lparr>ho_admitted := drop_nth i (ho_admitted h), ho_quic := (ho_quic h)\<lparr>ce_slots := slots\<rparr>, ho_manager := m,
          ho_errors := errors_of x @ ho_errors h\<rparr>;
        Some (case x of Ok k \<Rightarrow> h\<lparr>ho_connections := fmupd c k (ho_connections h)\<rparr> | Err _ \<Rightarrow> h) })"
| "host_step io h (HostCall c x) =
     (case fmlookup (ho_connections h) c of None \<Rightarrow> Some h | Some k \<Rightarrow> connection_step io c k h x)"
| "host_step io h (HostTeardown c) =
     (case fmlookup (ho_connections h) c of
        None \<Rightarrow> Some h
      | Some k \<Rightarrow> do {
          (q, t, m, ep, slots) \<leftarrow> connection_teardown_run io k (ho_manager h) (ho_delivery h) (ce_slots (ho_quic h));
          Some (h\<lparr>ho_connections := fmdrop c (ho_connections h), ho_manager := m, ho_delivery := ep,
            ho_quic := (ho_quic h)\<lparr>ce_slots := slots\<rparr>\<rparr>) })"
| "host_step io h (HostDelivery x) = do {
     ep \<leftarrow> delivery_step (ho_delivery h) x;
     Some (h\<lparr>ho_delivery := ep\<rparr>) }"

section \<open>Configuration\<close>

text \<open>
  What quinn documents of its integers and timeouts: an integer is any number below two to the 62nd, and
  a timeout is one of milliseconds.
\<close>

definition conversions_law :: "('v, 't) quinn_conversions \<Rightarrow> bool" where
  "conversions_law q \<longleftrightarrow> (\<forall>v. (qc_varint q v \<noteq> None) = (v \<le> MAX_VARINT))
     \<and> (\<forall>v x. qc_varint q v = Some x \<longrightarrow> qc_into_inner q x = v)
     \<and> (\<forall>n. (qc_idle_timeout q n \<noteq> None) = (n div 1000000 \<le> unat MAX_VARINT))"

lemma validated_flows:
  assumes "conversions_law q" "endpoint_config_validate q l = Ok e"
  shows "qc_into_inner q (er_max_active_incoming_flows (ec_inner e)) \<noteq> 0"
    "qc_into_inner q (er_max_active_incoming_flows (ec_inner e)) \<le> QUIC_MAX_STREAM_COUNT"
  using assms
  by (auto simp: endpoint_config_validate_def resource_limits_validate_def conversions_law_def result_bind_def ok_or_def
      not_less split: if_splits result.splits option.splits)

text \<open>A profile that the public constructors let through.\<close>

definition profile_built :: "('v, 't) profile_config \<Rightarrow> bool" where
  "profile_built p \<longleftrightarrow> (\<exists>q l e pl. conversions_law q \<and> endpoint_config_validate q l = Ok e
     \<and> profile_config_validate q pl e = Ok p)"

lemma validated_profile:
  assumes "conversions_law q" "endpoint_config_validate q l = Ok e" "profile_config_validate q pl e = Ok p"
  shows "settings_ok (cp_local_settings (pf_inner p))" "pf_limits p = pl"
    "unat (pl_max_incoming_message_bytes pl) \<le> rr_max_staging_bytes (pl_reliable_receive pl)"
proof -
  have p: "local_limits_validate q \<lparr>ll_semantic_role = pl_semantic_role pl, ll_max_control_frame_bytes = pl_max_control_frame_bytes pl,
        ll_max_negotiation_frame_bytes = pl_max_negotiation_frame_bytes pl,
        ll_max_incoming_message_bytes = pl_max_incoming_message_bytes pl\<rparr> (ec_inner e) = Ok (pf_inner p)"
    "pf_limits p = pl" "unat (pl_max_incoming_message_bytes pl) \<le> rr_max_staging_bytes (pl_reliable_receive pl)"
    using assms(3)
    by (auto simp: profile_config_validate_def result_bind_def map_err_def ok_or_def u64_to_usize_def not_less
        split: if_splits result.splits option.splits)
  show "settings_ok (cp_local_settings (pf_inner p))" by (rule local_limits_ok[OF p(1) validated_flows[OF assms(1,2)]])
  show "pf_limits p = pl" "unat (pl_max_incoming_message_bytes pl) \<le> rr_max_staging_bytes (pl_reliable_receive pl)" by (rule p)+
qed

lemma profile_built_ok: "profile_built p \<Longrightarrow> settings_ok (cp_local_settings (pf_inner p))"
  using validated_profile(1) by (auto simp: profile_built_def)

section \<open>The invariant of a host\<close>

text \<open>
  What is asked of the host: streams that obey their laws, profiles that the constructors let through,
  the order in which a contract is listed, and message limits of a validated policy.
\<close>

fun connection_call_ok :: "connection_call \<Rightarrow> bool" where
  "connection_call_ok (SelectAuthority _ order contract) \<longleftrightarrow> contract_listed order contract"
| "connection_call_ok (OpenFlow _ config) \<longleftrightarrow> 0 < fp_max_message_bytes (oc_policy config)"
| "connection_call_ok _ \<longleftrightarrow> True"

fun host_call_ok :: "('w \<Rightarrow> bytes) \<Rightarrow> ('r \<Rightarrow> bytes) \<Rightarrow> ('q, 'w, 'r, 'e, 'v, 't) host_call \<Rightarrow> bool" where
  "host_call_ok sent taken (HostConnect alloc bo profile connecting) \<longleftrightarrow>
     bootstrap_law bo sent taken \<and> profile_built profile"
| "host_call_ok sent taken (HostAccept alloc bo profile incoming) \<longleftrightarrow>
     bootstrap_law bo sent taken \<and> profile_built profile"
| "host_call_ok sent taken (HostCall c x) \<longleftrightarrow> connection_call_ok x"
| "host_call_ok sent taken _ \<longleftrightarrow> True"

definition host_ok ::
  "('q, 'w, 'f, 'r) driver_ops \<Rightarrow> ('r \<Rightarrow> bytes) \<Rightarrow> delivery_scope_limits \<Rightarrow> nat \<Rightarrow>
     ('q, 'w, 'f, 'r, 'v, 't) host \<Rightarrow> bool" where
  "host_ok io rlog lim n h \<longleftrightarrow>
     cs_max (ce_slots (ho_quic h)) = n
     \<and> cs_active (ce_slots (ho_quic h)) = length (ho_admitted h) + fm_len (ho_connections h)
     \<and> cs_active (ce_slots (ho_quic h)) \<le> n
     \<and> (\<forall>p\<in>set (ho_admitted h). ready_ok (pq_ready p))
     \<and> manager_ok (ho_manager h) \<and> endpoint_ok lim (ho_delivery h)
     \<and> (\<forall>c k. fmlookup (ho_connections h) c = Some k \<longrightarrow> connection_good io rlog lim c (ho_manager h) (ho_delivery h) k)
     \<and> (\<forall>c. manager_knows (ho_manager h) c \<longrightarrow> fmlookup (ho_connections h) c \<noteq> None)
     \<and> (\<forall>e\<in>set (ho_errors h). \<not> fault_kind (pe_kind e))"

lemma knows_elsewhere: "same_elsewhere c m m' \<Longrightarrow> d \<noteq> c \<Longrightarrow> manager_knows m' d = manager_knows m d"
  by (simp add: same_elsewhere_def manager_knows_def)

lemma connection_good_elsewhere:
  assumes "connection_good io rlog lim d m ep k" "same_elsewhere c m m'" "d \<noteq> c" "manager_ok m'" "endpoint_ok lim ep'"
  shows "connection_good io rlog lim d m' ep' k"
  using assms state_good_elsewhere unfolding connection_good_def by blast

lemma host_keep_ok:
  assumes h: "host_ok io rlog lim n h" "fmlookup (ho_connections h) c = Some k0"
    and k: "connection_good io rlog lim c m ep k" "manager_ok m" "same_elsewhere c (ho_manager h) m" "endpoint_ok lim ep"
    and es: "\<forall>e\<in>set es. \<not> fault_kind (pe_kind e)"
  shows "host_ok io rlog lim n (host_keep c h k m ep es)"
proof -
  have "connection_good io rlog lim d m ep k'" if "fmlookup (ho_connections h) d = Some k'" "d \<noteq> c" for d k'
    using h(1) that(1) by (intro connection_good_elsewhere[where ep = "ho_delivery h", OF _ k(3) that(2) k(2,4)]) (simp add: host_ok_def)
  moreover have "fmlookup (ho_connections h) d \<noteq> None" if "manager_knows m d" "d \<noteq> c" for d
    using h(1) that knows_elsewhere[OF k(3)] by (simp add: host_ok_def)
  ultimately show ?thesis
    using h k es by (auto simp: host_ok_def host_keep_def fm_len_replace)
qed

lemma connection_step_ok:
  fixes h :: "('q, 'w, 'f, 'r, 'v, 't) host"
  assumes law: "connection_law io rlog sent taken" and h: "host_ok io rlog lim n h"
    and look: "fmlookup (ho_connections h) c = Some k" and x: "connection_call_ok x"
  shows "\<exists>h'. connection_step io c k h x = Some h' \<and> host_ok io rlog lim n h'"
proof -
  have k: "connection_good io rlog lim c (ho_manager h) (ho_delivery h) k" and m: "manager_ok (ho_manager h)"
    and ep: "endpoint_ok lim (ho_delivery h)"
    using h look by (simp_all add: host_ok_def)
  note keep = host_keep_ok[OF h look]
  have command: "\<exists>h'. do { (_, k, ep) \<leftarrow> q; Some (host_keep c h k (ho_manager h) ep []) } = Some h' \<and> host_ok io rlog lim n h'"
    if q: "command_kept io rlog lim c (ho_manager h) q" for q :: "('a, 'q, 'w, 'f, 'r) command_op"
    using q m keep by (auto simp: command_kept_def)
  show ?thesis
  proof (cases x)
    case (PollConnection tn)
    obtain y k' m' ep' where "connection_poll io tn k (ho_manager h) (ho_delivery h) = Some (y, k', m', ep')"
      "connection_good io rlog lim c m' ep' k'" "outcome_good c (Some y) (pb_state k')" "manager_ok m'"
      "same_elsewhere c (ho_manager h) m'" "endpoint_ok lim ep'"
      using connection_poll_good[OF law k ep, of tn] by blast
    then show ?thesis
      by (auto simp: PollConnection errors_of_def intro!: keep split: poll.split result.split)
  next
    case (SelectAuthority al order contract)
    obtain y k' m' where "select_authority io al order k (ho_manager h) contract = Some (y, k', m')"
      "connection_good io rlog lim c m' (ho_delivery h) k'" "manager_ok m'" "same_elsewhere c (ho_manager h) m'"
      "\<forall>e. y = Err e \<longrightarrow> \<not> fault_kind (pe_kind e)"
      using select_authority_good[OF k, of order contract al] x by (auto simp: SelectAuthority)
    then show ?thesis using ep
      by (auto simp: SelectAuthority errors_of_def intro!: keep split: result.split)
  next
    case (OpenFlow tu config)
    then show ?thesis using command[OF commands_kept(1)[OF k ep]] x by simp
  next
    case (AcceptFlow tu q config)
    then show ?thesis using command[OF commands_kept(2)[OF k ep]] by simp
  next
    case (RejectFlow tu q reason)
    then show ?thesis using command[OF commands_kept(3)[OF k ep]] by simp
  next
    case (FinishFlow tu key)
    then show ?thesis using command[OF commands_kept(4)[OF k ep]] by simp
  next
    case (SubmitPayload tu key payload)
    then show ?thesis using command[OF commands_kept(5)[OF k ep]] by simp
  qed
qed

text \<open>The connection that an admission adds, if it adds one.\<close>

definition admitted_of ::
  "reliable_receive_limits \<Rightarrow> ('q \<times> ('w, 'r) profile_ready, 'e) result \<Rightarrow> ('q, 'w, 'r) profile_ready_connection list" where
  "admitted_of limits z =
     (case z of Ok (q, ready) \<Rightarrow> [\<lparr>pq_quinn = q, pq_ready = ready, pq_reliable_receive = limits\<rparr>] | Err _ \<Rightarrow> [])"

lemma from_profile_admits [simp]:
  "(case from_profile z limits of Ok p \<Rightarrow> [p] | Err e \<Rightarrow> []) = admitted_of limits z"
  by (simp add: from_profile_def admitted_of_def split: result.split prod.split)

lemma host_admits:
  fixes h :: "('q, 'w, 'f, 'r, 'v, 't) host"
  assumes h: "host_ok io rlog lim n h"
    and quic: "admission_counts (ho_quic h) quic (ps \<noteq> [])" "length ps \<le> 1" "\<forall>p\<in>set ps. ready_ok (pq_ready p)"
  shows "host_ok io rlog lim n (h\<lparr>ho_quic := quic, ho_admitted := ps @ ho_admitted h\<rparr>)"
proof -
  have "length ps = (if ps \<noteq> [] then 1 else 0)" using quic(2) by (cases ps) simp_all
  then show ?thesis using h quic(1,3) by (auto simp: host_ok_def admission_counts_def)
qed

lemma host_step_ok:
  fixes h :: "('q, 'w, 'f, 'r, 'v, 't) host" and x :: "('q, 'w, 'r, 'e, 'v, 't) host_call"
  assumes law: "connection_law io rlog sent taken" and h: "host_ok io rlog lim n h" and x: "host_call_ok sent taken x"
  shows "\<exists>h'. host_step io h x = Some h' \<and> host_ok io rlog lim n h'"
proof (cases x)
  case (HostConnect alloc bo profile connecting)
  then have l: "bootstrap_law bo sent taken" "settings_ok (cp_local_settings (pf_inner profile))"
    using x profile_built_ok[of profile] by simp_all
  obtain y quic where y: "connect_profile_ready alloc bo (ho_quic h) (pf_inner profile) connecting = Some (y, quic)"
    "admission_counts (ho_quic h) quic (\<exists>a. y = Done (Ok a))" "\<forall>q p. y = Done (Ok (q, p)) \<longrightarrow> ready_ok p"
    using connect_counts[OF l, of alloc "ho_quic h" connecting] by blast
  let ?ps = "case y of Done z \<Rightarrow> admitted_of (profile_reliable_receive_limits profile) z | Cancelled \<Rightarrow> []"
  have "(?ps \<noteq> []) = (\<exists>a. y = Done (Ok a))" "length ?ps \<le> 1" "\<forall>p\<in>set ?ps. ready_ok (pq_ready p)"
    using y(3) by (cases y; auto simp: admitted_of_def split: result.split)+
  then have "host_ok io rlog lim n (h\<lparr>ho_quic := quic, ho_admitted := ?ps @ ho_admitted h\<rparr>)"
    using y(2) by (intro host_admits[OF h]) simp_all
  then show ?thesis using y(1) by (cases y) (auto simp: HostConnect client_connect_def)
next
  case (HostAccept alloc bo profile incoming)
  then have l: "bootstrap_law bo sent taken" "settings_ok (cp_local_settings (pf_inner profile))"
    using x profile_built_ok[of profile] by simp_all
  obtain y :: "('q \<times> ('w, 'r) profile_ready, 'e profile_connection_error) result option awaited" and quic
    where y: "accept_profile_ready alloc bo (ho_quic h) (pf_inner profile) incoming = Some (y, quic)"
    "admission_counts (ho_quic h) quic (\<exists>a. y = Done (Some (Ok a)))" "\<forall>q p. y = Done (Some (Ok (q, p))) \<longrightarrow> ready_ok p"
    using accept_counts[OF l, of alloc "ho_quic h" incoming] by blast
  let ?ps = "case y of Done (Some z) \<Rightarrow> admitted_of (profile_reliable_receive_limits profile) z | _ \<Rightarrow> []"
  have "(?ps \<noteq> []) = (\<exists>a. y = Done (Some (Ok a)))" "length ?ps \<le> 1" "\<forall>p\<in>set ?ps. ready_ok (pq_ready p)"
    using y(3) by (cases y; auto simp: admitted_of_def split: result.split option.split)+
  then have "host_ok io rlog lim n (h\<lparr>ho_quic := quic, ho_admitted := ?ps @ ho_admitted h\<rparr>)"
    using y(2) by (intro host_admits[OF h]) simp_all
  then show ?thesis using y(1) by (cases y) (auto simp: HostAccept server_accept_def split: option.splits)
next
  case (HostForget i)
  have "length (drop_nth i (ho_admitted h)) = length (ho_admitted h) - 1" "set (drop_nth i (ho_admitted h)) \<subseteq> set (ho_admitted h)"
    if "i < length (ho_admitted h)"
    using that by (auto simp: drop_nth_def dest: in_set_takeD in_set_dropD)
  then show ?thesis
    using h by (auto simp: HostForget host_ok_def permit_drop_def not_le)
next
  case (HostActivate i c al offer req)
  show ?thesis
  proof (cases "length (ho_admitted h) \<le> i \<or> fmlookup (ho_connections h) c \<noteq> None")
    case True
    then show ?thesis using h by (simp add: HostActivate)
  next
    case False
    then have i: "i < length (ho_admitted h)" and free: "fmlookup (ho_connections h) c = None" by auto
    have rest: "Suc (length (drop_nth i (ho_admitted h))) = length (ho_admitted h)"
      "set (drop_nth i (ho_admitted h)) \<subseteq> set (ho_admitted h)"
      using i by (auto simp: drop_nth_def dest: in_set_takeD in_set_dropD)
    have m: "manager_ok (ho_manager h)" "\<not> manager_knows (ho_manager h) c" and ready: "ready_ok (pq_ready (ho_admitted h ! i))"
      using h free i by (auto simp: host_ok_def)
    obtain y :: "(('q, 'w, 'f, 'r) connection, public_error) result" and m' where
      y: "profile_activate (op_quinn io) al (ho_admitted h ! i) c offer req (ho_manager h) (ce_slots (ho_quic h))
        = Some (y, m', if is_ok y then ce_slots (ho_quic h) else permit_drop (ce_slots (ho_quic h)))"
      "manager_ok m'" "same_elsewhere c (ho_manager h) m'"
      "case y of Ok k \<Rightarrow> connection_good io rlog lim c m' (ho_delivery h) k \<and> \<not> connection_over (pb_state k)
       | Err e \<Rightarrow> \<not> fault_kind (pe_kind e) \<and> \<not> manager_knows m' c"
      using profile_activate_good[OF ready m, of "op_quinn io" al offer req "ce_slots (ho_quic h)" io rlog lim "ho_delivery h"]
      by blast
    have others: "connection_good io rlog lim d m' (ho_delivery h) k'" if "fmlookup (ho_connections h) d = Some k'" "d \<noteq> c" for d k'
      using h that(1) by (intro connection_good_elsewhere[where ep = "ho_delivery h", OF _ y(3) that(2) y(2)]) (simp_all add: host_ok_def)
    have same: "manager_knows m' d \<Longrightarrow> d \<noteq> c \<Longrightarrow> fmlookup (ho_connections h) d \<noteq> None" for d
      using h knows_elsewhere[OF y(3)] by (simp add: host_ok_def)
    show ?thesis
    proof (cases y)
      case (Ok k)
      then show ?thesis
        using HostActivate False y h rest others same free
        by (auto simp: host_ok_def errors_of_def fm_len_fresh)
    next
      case (Err e)
      have "d \<noteq> c" if "fmlookup (ho_connections h) d = Some k'" for d k' using that free by auto
      then show ?thesis
        using Err HostActivate False y h rest others same
        by (auto simp: host_ok_def errors_of_def permit_drop_def) metis+
    qed
  qed
next
  case (HostCall c y)
  then show ?thesis
    using h x connection_step_ok[OF law h] by (cases "fmlookup (ho_connections h) c") auto
next
  case (HostTeardown c)
  show ?thesis
  proof (cases "fmlookup (ho_connections h) c")
    case None
    then show ?thesis using h by (simp add: HostTeardown)
  next
    case (Some k)
    have k: "connection_good io rlog lim c (ho_manager h) (ho_delivery h) k" and ep: "endpoint_ok lim (ho_delivery h)"
      using h Some by (simp_all add: host_ok_def)
    obtain q t m' ep' where t: "connection_teardown_run io k (ho_manager h) (ho_delivery h) (ce_slots (ho_quic h))
        = Some (q, t, m', ep', permit_drop (ce_slots (ho_quic h)))"
      "endpoint_ok lim ep'" "\<not> manager_knows m' c" "same_elsewhere c (ho_manager h) m'" "manager_ok m'"
      using connection_teardown_good[OF k ep, of "ce_slots (ho_quic h)"] by (auto simp: torn_down_def)
    have "connection_good io rlog lim d m' ep' k'" if "fmlookup (ho_connections h) d = Some k'" "d \<noteq> c" for d k'
      using h that(1) by (intro connection_good_elsewhere[where ep = "ho_delivery h", OF _ t(4) that(2) t(5,2)]) (simp add: host_ok_def)
    moreover have "fmlookup (ho_connections h) d \<noteq> None \<and> d \<noteq> c" if "manager_knows m' d" for d
      using h that t(3) knows_elsewhere[OF t(4)] by (cases "d = c") (simp_all add: host_ok_def)
    ultimately show ?thesis
      using h t fm_len_split[OF Some] by (auto simp: HostTeardown Some host_ok_def permit_drop_def)
  qed
next
  case (HostDelivery y)
  have "endpoint_ok lim (ho_delivery h)" using h by (simp add: host_ok_def)
  then obtain ep where ep: "delivery_step (ho_delivery h) y = Some ep" "endpoint_ok lim ep"
    using delivery_machine.step_good by blast
  moreover have "connection_good io rlog lim c m ep k" if "connection_good io rlog lim c m (ho_delivery h) k" for c m k
    using that state_good_endpoint ep(2) unfolding connection_good_def by blast
  ultimately show ?thesis using h by (auto simp: HostDelivery host_ok_def)
qed

interpretation host_machine: guarded_machine "host_step io"
    "\<lambda>h. connection_law io rlog sent taken \<and> host_ok io rlog lim n h" "host_call_ok sent taken" for io rlog sent taken lim n
  by unfold_locales (use host_step_ok in blast)

end
