(* ===== verification/Public_Contract.thy ===== *)
theory Public_Contract
  imports Public_Host
begin

text \<open>
  The properties of a host and its public connections over whole runs: that they run safely, that flows
  need an agreed contract, how connections end, what a refused command gives back, and which
  configurations can be used.
\<close>

section \<open>Runs\<close>

definition host_run ::
  "('q, 'w, 'f, 'r) driver_ops \<Rightarrow> ('v, 't) configured_endpoint \<Rightarrow> negotiation_manager \<Rightarrow> delivery_scope_limits \<Rightarrow>
     ('q, 'w, 'r, 'e, 'v, 't) host_call list \<Rightarrow> ('q, 'w, 'f, 'r, 'v, 't) host exec" where
  "host_run io quic m lim calls = run_ops (host_step io) (host_new quic m lim) calls"

lemma host_new_ok:
  assumes "manager_new ol ml = Ok m" "ml_aggregate_accounted_bytes ml \<le> usize_max" "ce_slots quic = connection_slots_new n"
  shows "host_ok io rlog lim n (host_new quic m lim)"
proof -
  have "endpoint_run lim [] = Some (endpoint_new lim)" by (simp add: endpoint_run_def)
  then have "endpoint_ok lim (endpoint_new lim)" by (rule endpoint_run_ok)
  moreover have "nm_attempts m = fmempty" "nm_established m = fmempty"
    using assms(1) by (auto simp: manager_new_def result_bind_Ok split: if_splits)
  ultimately show ?thesis
    using manager_new_ok(1)[OF assms(1,2)] assms(3)
    by (simp add: host_ok_def host_new_def manager_knows_def connection_slots_new_def)
qed

lemma host_run_ok:
  fixes calls :: "('q, 'w, 'r, 'e, 'v, 't) host_call list"
  assumes "connection_law io rlog sent taken" "manager_new ol ml = Ok m" "ml_aggregate_accounted_bytes ml \<le> usize_max"
    and "ce_slots quic = connection_slots_new n" "list_all (host_call_ok sent taken) calls"
  obtains h where "host_run io quic m lim calls = Some h" "host_ok io rlog lim n h"
proof -
  have start: "connection_law io rlog sent taken \<and> host_ok io rlog lim n (host_new quic m lim)"
    using assms(1) host_new_ok[OF assms(2-4)] by blast
  show ?thesis
    using host_machine.run_good[OF start assms(5)] that by (auto simp: host_run_def)
qed

lemma contract_of_established:
  assumes "exchange_ok x m" "nx_state x = NxEstablished"
  shows "\<exists>k. manager_established m (nx_connection x) = Ok \<lparr>en_connection = nx_connection x, en_contract = k\<rparr>"
proof -
  have ok: "manager_ok m" using assms(1) by (simp add: exchange_ok_def)
  show ?thesis
    using assms manager_okD(2)[OF ok]
    by (auto simp: exchange_ok_def state_ok_def unowned_def manager_knows_def attempt_is_def manager_established_def)
qed

lemma driven_contract:
  "driven_ok io rlog lim c m ep d \<Longrightarrow> \<exists>k. manager_established m c = Ok \<lparr>en_connection = c, en_contract = k\<rparr>"
  using contract_of_established by (fastforce simp: driven_ok_def owner_ok_def)

text \<open>
  C23: A host and its public connections run safely. From an endpoint with no connections on, no sequence
  of connects, accepts, activations, polls, selections, commands on flows, submissions, teardowns and
  changes of the core endpoint panics, whatever the peers, the streams and the allocator do; the calls
  are made one after another with arguments that the public constructors can build, and each connection
  is activated under a handle of its own. No error that a poll, a selection or an activation gives the
  host reports a fault of the manager, of a cleanup or of an activation, no connection is left in the
  middle of a transition or of a failed activation, every connection keeps its invariant, the slots in
  use are exactly the connections that the host has admitted or holds, never more than the maximum, the
  manager knows no connection that the host does not hold, so that without any no byte is reserved,
  and the core endpoint stays valid.
\<close>

theorem host_run_safe:
  assumes "connection_law io rlog sent taken" "manager_new ol ml = Ok m" "ml_aggregate_accounted_bytes ml \<le> usize_max"
    and "ce_slots quic = connection_slots_new n" "list_all (host_call_ok sent taken) calls"
  shows "\<exists>h. host_run io quic m lim calls = Some h
    \<and> (\<forall>e\<in>set (ho_errors h). \<not> fault_kind (pe_kind e))
    \<and> (\<forall>c k. fmlookup (ho_connections h) c = Some k \<longrightarrow> pb_connection k = c
          \<and> pb_state k \<noteq> StateTransitioning \<and> (\<forall>core. pb_state k \<noteq> StateActivationFailed core)
          \<and> connection_good io rlog lim c (ho_manager h) (ho_delivery h) k)
    \<and> cs_active (ce_slots (ho_quic h)) = length (ho_admitted h) + fm_len (ho_connections h)
    \<and> cs_active (ce_slots (ho_quic h)) \<le> n
    \<and> (\<forall>c. manager_knows (ho_manager h) c \<longrightarrow> fmlookup (ho_connections h) c \<noteq> None)
    \<and> (ho_connections h = fmempty \<longrightarrow> nm_reserved_bytes (ho_manager h) = 0)
    \<and> endpoint_ok lim (ho_delivery h)"
proof (rule host_run_ok[OF assms, where lim = lim])
  fix h
  assume run: "host_run io quic m lim calls = Some h" and h: "host_ok io rlog lim n h"
  have states: "pb_connection k = c \<and> pb_state k \<noteq> StateTransitioning \<and> (\<forall>core. pb_state k \<noteq> StateActivationFailed core)
      \<and> connection_good io rlog lim c (ho_manager h) (ho_delivery h) k"
    if "fmlookup (ho_connections h) c = Some k" for c k
  proof -
    have good: "connection_good io rlog lim c (ho_manager h) (ho_delivery h) k" using h that by (simp add: host_ok_def)
    then have "pb_connection k = c" "pb_state k \<noteq> StateTransitioning" "\<forall>core. pb_state k \<noteq> StateActivationFailed core"
      by (cases "pb_state k"; simp add: connection_good_def)+
    then show ?thesis using good by simp
  qed
  have empty: "nm_reserved_bytes (ho_manager h) = 0" if "ho_connections h = fmempty"
  proof -
    have "\<not> manager_knows (ho_manager h) c" for c using h that by (auto simp: host_ok_def)
    then have "nm_attempts (ho_manager h) = fmempty" "nm_established (ho_manager h) = fmempty"
      by (auto simp: manager_knows_def intro!: fmap_ext)
    then show ?thesis using h by (simp add: host_ok_def manager_ok_def)
  qed
  show ?thesis by (rule exI[of _ h]) (use run h states empty in \<open>simp add: host_ok_def\<close>)
qed

text \<open>
  No flow without agreement. In whatever way a host has come to it, by calls made one after another, a
  connection that takes commands on flows has an established contract in the manager; and when a poll
  says that a connection is established, it is the connection that was polled, its driver is active and
  its contract is established in the manager.
\<close>

theorem flows_need_agreement:
  assumes "connection_law io rlog sent taken" "manager_new ol ml = Ok m" "ml_aggregate_accounted_bytes ml \<le> usize_max"
    and "ce_slots quic = connection_slots_new n" "list_all (host_call_ok sent taken) calls"
  shows "\<exists>h. host_run io quic m lim calls = Some h
    \<and> (\<forall>c k d. fmlookup (ho_connections h) c = Some k \<and> command_driver k = Ok d \<longrightarrow>
          (\<exists>a. manager_established (ho_manager h) c = Ok \<lparr>en_connection = c, en_contract = a\<rparr>))
    \<and> (\<forall>c k tn c' k' m' ep'. fmlookup (ho_connections h) c = Some k
          \<and> connection_poll io tn k (ho_manager h) (ho_delivery h) = Some (Ready (Ok (EventEstablished c')), k', m', ep') \<longrightarrow>
          c' = c \<and> (\<exists>d a. command_driver k' = Ok d \<and> cd_phase d = DriverActive
            \<and> manager_established m' c = Ok \<lparr>en_connection = c, en_contract = a\<rparr>))"
proof (rule host_run_ok[OF assms, where lim = lim])
  fix h
  assume run: "host_run io quic m lim calls = Some h" and h: "host_ok io rlog lim n h"
  have good: "connection_good io rlog lim c (ho_manager h) (ho_delivery h) k" if "fmlookup (ho_connections h) c = Some k" for c k
    using h that by (simp add: host_ok_def)
  have commands: "\<exists>a. manager_established (ho_manager h) c = Ok \<lparr>en_connection = c, en_contract = a\<rparr>"
    if "fmlookup (ho_connections h) c = Some k" "command_driver k = Ok d" for c k d
    using good[OF that(1)] that(2) by (auto simp: connection_good_def command_driver_Ok intro: driven_contract)
  have polled: "c' = c \<and> (\<exists>d a. command_driver k' = Ok d \<and> cd_phase d = DriverActive
      \<and> manager_established m' c = Ok \<lparr>en_connection = c, en_contract = a\<rparr>)"
    if look: "fmlookup (ho_connections h) c = Some k"
      and poll: "connection_poll io tn k (ho_manager h) (ho_delivery h) = Some (Ready (Ok (EventEstablished c')), k', m', ep')"
    for c k tn c' k' m' ep'
  proof -
    have ep: "endpoint_ok lim (ho_delivery h)" using h by (simp add: host_ok_def)
    have out: "connection_good io rlog lim c m' ep' k'" "outcome_good c (Some (Ready (Ok (EventEstablished c')))) (pb_state k')"
      using connection_poll_good[OF assms(1) good[OF look] ep, of tn] poll by auto
    then obtain d where d: "c' = c" "pb_state k' = StateEstablished d" "cd_phase d = DriverActive" by auto
    have "driven_ok io rlog lim c m' ep' d" using out(1) d(2) by (simp add: connection_good_def)
    then show ?thesis using d by (auto simp: command_driver_Ok dest: driven_contract)
  qed
  show ?thesis
    by (rule exI[of _ h]) (use run commands polled in blast)
qed

section \<open>How a connection ends\<close>






section \<open>What a refused command gives back\<close>

lemma refused_driver_submit:
  assumes run: "driver_submit io tu d ep i payload = Some (Err (SubmitUnavailable i' p e), d', ep')"
  shows "p = payload \<and> d' = d \<and> ep' = ep"
proof (cases "require_control_send_ready d")
  case (Err f)
  then show ?thesis using run by (simp add: driver_submit_def)
next
  case (Ok u)
  obtain x dg ep1 where x: "datagram_io_submit (op_datagram io) (cd_datagram d) ep (cd_flow_control d) i payload = Some (x, dg, ep1)"
    using run Ok by (auto simp: driver_submit_def bind_eq_Some_conv)
  show ?thesis
  proof (cases x)
    case (Ok out)
    then show ?thesis using run x \<open>require_control_send_ready d = Ok u\<close> by (simp add: driver_submit_def Let_def split: if_splits)
  next
    case (Err f)
    show ?thesis
    proof (cases "classify_datagram_submission (cd_flow_control d) i f")
      case None
      then show ?thesis using run x Ok Err by (simp add: driver_submit_def Let_def)
    next
      case (Some disposition)
      then obtain y d1 ep2 where "(case y of Ok i \<Rightarrow> Ok (SubmitFailureHandled i) | Err e \<Rightarrow> Err (SubmitDriver e), d1, ep2)
          = (Err (SubmitUnavailable i' p e), d', ep')"
        using run x Ok Err by (auto simp: driver_submit_def Let_def bind_eq_Some_conv)
      then show ?thesis by (cases y) simp_all
    qed
  qed
qed

lemma refused_submit:
  assumes "driver_submit_by_key io tu d ep key payload = Some (Err (KeyedSubmitUnavailable p e), d', ep')"
  shows "p = payload \<and> d' = d \<and> ep' = ep"
proof -
  obtain i x where x: "driver_submit io tu d ep i payload = Some (x, d', ep')" "(case x of Ok out \<Rightarrow> Ok out
      | Err (SubmitUnavailable _ payload e) \<Rightarrow> Err (KeyedSubmitUnavailable payload e)
      | Err (SubmitDriver e) \<Rightarrow> Err (KeyedSubmitDriver e)) = Err (KeyedSubmitUnavailable p e)"
    using assms by (auto simp: driver_submit_by_key_def bind_eq_Some_conv split: option.splits)
  then obtain j where "x = Err (SubmitUnavailable j p e)" by (auto split: result.splits datagram_submit_error.splits)
  then show ?thesis using x(1) refused_driver_submit by blast
qed

lemma decision_send_failed: "decision_send qo d ep x \<noteq> (Err (DecisionUnavailable q e), d', ep')"
  by (auto simp: decision_send_def map_err_def split: result.split prod.split)

lemma refused_decide:
  "decide_accept io tu d ep q a = Some (Err (DecisionUnavailable q' e), d', ep') \<Longrightarrow> q' = q \<and> d' = d \<and> ep' = ep"
  "decide_reject io tu d ep q reason = Some (Err (DecisionUnavailable q' e), d', ep') \<Longrightarrow> q' = q \<and> d' = d \<and> ep' = ep"
  by (auto simp: decide_accept_def decide_reject_def decision_send_failed bind_eq_Some_conv split: result.splits)

lemma decision_result_retryable:
  "decision_result c x = Err (DecisionRetryable q r) \<Longrightarrow>
     \<exists>i e. x = Err (DecisionUnavailable i e) \<and> q = \<lparr>iq_connection = c, iq_inner = i\<rparr> \<and> r = CmdBusy"
  by (auto simp: decision_result_def Let_def split: result.splits inbound_decision_error.splits if_splits)

lemma submission_result_retryable:
  "submission_result key x = Err (SubmissionRetryable key' p r) \<Longrightarrow>
     \<exists>e. x = Err (KeyedSubmitUnavailable p e) \<and> key' = key \<and> r = CmdBusy"
  by (auto simp: submission_result_def Let_def map_err_def split: result.splits keyed_submit_error.splits if_splits)

lemma core_submission_failed [simp]:
  "(case x of Ok out \<Rightarrow> Ok (submit_outcome_of out) | Err e \<Rightarrow> Err (SubmissionFailed (map_core_submission_error e)))
     \<noteq> Err (SubmissionRetryable key p r)"
  by (simp split: result.split)

lemma command_result_Some:
  "command_result k g q = Some (y, k', ep') \<longleftrightarrow>
     (\<exists>x d. q = Some (x, d, ep') \<and> y = g x \<and> k' = k\<lparr>pb_state := StateEstablished d\<rparr>)"
  by (auto simp: command_result_def bind_eq_Some_conv)

lemma same_driver: "command_driver k = Ok d \<Longrightarrow> k\<lparr>pb_state := StateEstablished d\<rparr> = k"
  by (simp add: command_driver_Ok)

definition may_retry :: "flow_command_error \<Rightarrow> bool" where
  "may_retry r \<longleftrightarrow> r \<in> {CmdNotEstablished, CmdBusy, CmdWrongConnection, CmdWrongDirection, CmdInvalidConfiguration}"

text \<open>
  What may be retried is given back whole. When a submission, or a decision on a flow that the peer
  asks for, fails with an error that may be retried, the error holds exactly the key and the payload or
  exactly the request that it was called with, and nothing has changed: not the connection, not its
  flows, not the core endpoint. It is never an error of a connection that has ended.
\<close>

theorem retryable_gives_back:
  fixes k :: "('q, 'w, 'f, 'r) connection"
  shows "(connection_submit io tu k ep key payload = Some (Err (SubmissionRetryable key' payload' r), k', ep') \<longrightarrow>
      key' = key \<and> payload' = payload \<and> k' = k \<and> ep' = ep \<and> may_retry r)
    \<and> (accept_incoming_flow io tu k ep q config = Some (Err (DecisionRetryable q' r), k', ep') \<longrightarrow>
      q' = q \<and> k' = k \<and> ep' = ep \<and> may_retry r)
    \<and> (reject_incoming_flow io tu k ep q reason = Some (Err (DecisionRetryable q' r), k', ep') \<longrightarrow>
      q' = q \<and> k' = k \<and> ep' = ep \<and> may_retry r)"
proof -
  have submitted: "key' = key \<and> payload' = payload \<and> k' = k \<and> ep' = ep \<and> may_retry r"
    if "connection_submit io tu k ep key payload = Some (Err (SubmissionRetryable key' payload' r), k', ep')"
    using that
    by (auto simp: connection_submit_def command_result_Some bind_eq_Some_conv may_retry_def same_driver
        dest!: submission_result_retryable[OF sym] refused_submit split: if_splits result.splits option.splits)
  have accepted: "q' = q \<and> k' = k \<and> ep' = ep \<and> may_retry r"
    if "accept_incoming_flow io tu k ep q config = Some (Err (DecisionRetryable q' r), k', ep')"
    using that
    by (auto simp: accept_incoming_flow_def command_result_Some refused_decision_def may_retry_def same_driver
        dest!: decision_result_retryable[OF sym] refused_decide split: if_splits result.splits)
  have rejected: "q' = q \<and> k' = k \<and> ep' = ep \<and> may_retry r"
    if "reject_incoming_flow io tu k ep q reason = Some (Err (DecisionRetryable q' r), k', ep')"
    using that
    by (auto simp: reject_incoming_flow_def command_result_Some refused_decision_def may_retry_def same_driver
        dest!: decision_result_retryable[OF sym] refused_decide split: if_splits result.splits)
  show ?thesis using submitted accepted rejected by blast
qed

section \<open>Teardown\<close>

text \<open>
  The end of a connection leaves nothing behind. In whatever state it is, its teardown takes exactly
  the flows of the connection out of the core and its attempt or contract out of the manager, with those
  of every other connection untouched, gives its slot back and reports no failed cleanup; a negotiation
  under way is closed as failed, and an established connection without an error unless it is closed
  already.
\<close>

theorem connection_teardown_complete:
  assumes "connection_good io rlog lim c m ep k" "endpoint_ok lim ep"
  shows "\<exists>q t m' ep'. connection_teardown_run io k m ep slots = Some (q, t, m', ep', permit_drop slots)
    \<and> (\<forall>key. fmlookup (de_flows ep') key = (if fk_connection key = c then None else fmlookup (de_flows ep) key))
    \<and> \<not> manager_knows m' c \<and> same_elsewhere c m m'
    \<and> pt_connection t = c \<and> pt_cleanup_error t = None \<and> quinn_left (op_quinn io) (pb_state k) q"
  using connection_teardown_good[OF assms, of slots] by (auto simp: torn_down_def)

section \<open>Configuration\<close>

lemma baseline_endpoint:
  assumes "conversions_law q"
  shows "is_ok (endpoint_config_baseline q n k) \<longleftrightarrow> 0 < n \<and> 0 < k \<and> k \<le> QUIC_MAX_STREAM_COUNT"
proof -
  have small: "k \<le> QUIC_MAX_STREAM_COUNT \<Longrightarrow> k \<le> MAX_VARINT"
    by (simp add: QUIC_MAX_STREAM_COUNT_def MAX_VARINT_def word_le_nat_alt push_bit_eq_mult)
  have fits: "v \<le> MAX_VARINT \<Longrightarrow> \<exists>x. qc_varint q v = Some x" for v
    using assms unfolding conversions_law_def by (metis not_None_eq)
  have idle: "n div 1000000 \<le> unat MAX_VARINT \<Longrightarrow> \<exists>t. qc_idle_timeout q n = Some t" for n
    using assms unfolding conversions_law_def by (metis not_None_eq)
  obtain a b t where "qc_varint q (64 * 1024) = Some a" "qc_varint q (256 * 1024) = Some b"
    "qc_idle_timeout q (30 * 1000000000) = Some t"
    using fits[of "64 * 1024"] fits[of "256 * 1024"] idle[of "30 * 1000000000"]
    by (auto simp: MAX_VARINT_def word_le_nat_alt)
  then show ?thesis
    using fits[of k] small
    by (auto simp: endpoint_config_baseline_def endpoint_config_validate_def resource_limits_validate_def
        result_bind_def ok_or_def BASELINE_UDP_PAYLOAD_CEILING_def BASELINE_STREAM_RECEIVE_WINDOW_def
        BASELINE_CONNECTION_RECEIVE_WINDOW_def BASELINE_SEND_WINDOW_def BASELINE_CRYPTO_BUFFER_BYTES_def
        BASELINE_DATAGRAM_RECEIVE_BUFFER_BYTES_def BASELINE_DATAGRAM_SEND_BUFFER_BYTES_def BASELINE_MAX_IDLE_TIMEOUT_def
        QUIC_MIN_UDP_PAYLOAD_def QUIC_MAX_UDP_PAYLOAD_def not_less word_gt_0)
qed

lemma small_frames: "usize_to_wire 65536 a = Ok 65536" "usize_to_wire 32768 b = Ok 32768"
  by (simp_all add: usize_to_wire_def MAX_VARINT_def word_less_nat_alt)

lemma baseline_profile:
  "\<exists>r. profile_config_baseline q e role m = Some r \<and> (is_ok r \<longleftrightarrow> 0 < m \<and> m \<le> MAX_VARINT)"
proof (cases "m = 0")
  case False
  then have "unat m \<noteq> 0" by (simp add: unat_eq_0)
  moreover have "unat m \<le> usize_max" using unsigned_less[of m, where ?'a = nat] by (simp add: usize_max_def)
  ultimately show ?thesis
    using False
    by (auto simp: small_frames profile_config_baseline_def u64_to_usize_def BASELINE_RELIABLE_SCRATCH_BYTES_def profile_config_validate_def
        local_limits_validate_def BASELINE_MAX_CONTROL_FRAME_BYTES_def BASELINE_MAX_NEGOTIATION_FRAME_BYTES_def
        MAX_SETTINGS_BODY_BYTES_def MIN_NEGOTIATION_OFFER_BODY_BYTES_def result_bind_def map_err_def ok_or_def not_less
        word_gt_0)
qed (simp add: profile_config_baseline_def)

text \<open>
  Every configuration that is let through can be used. The baseline of an endpoint is valid for every
  number of connections and of flows up to the limit of QUIC, and the baseline of a profile never panics
  and is valid for every message size up to the largest variable-length integer; and a profile that is
  valid on a valid endpoint has settings that can be sent, with a staging that holds its largest message.
\<close>

theorem configuration_exact:
  assumes "conversions_law q"
  shows "(is_ok (endpoint_config_baseline q n k) \<longleftrightarrow> 0 < n \<and> 0 < k \<and> k \<le> QUIC_MAX_STREAM_COUNT)
    \<and> (\<exists>r. profile_config_baseline q e role incoming = Some r \<and> (is_ok r \<longleftrightarrow> 0 < incoming \<and> incoming \<le> MAX_VARINT))
    \<and> (endpoint_config_validate q l = Ok e \<and> profile_config_validate q pl e = Ok p \<longrightarrow>
        settings_ok (cp_local_settings (pf_inner p)) \<and> pf_limits p = pl
        \<and> unat (pl_max_incoming_message_bytes pl) \<le> rr_max_staging_bytes (pl_reliable_receive pl))"
  by (intro conjI baseline_endpoint[OF assms] baseline_profile impI)
    (use validated_profile[OF assms] in \<open>blast+\<close>)

section \<open>A host with a connection\<close>

definition demo_conversions :: "(u64, nat) quinn_conversions" where
  "demo_conversions = \<lparr>qc_varint = (\<lambda>v. if v \<le> MAX_VARINT then Some v else None), qc_into_inner = id,
     qc_idle_timeout = (\<lambda>n. if n div 1000000 \<le> unat MAX_VARINT then Some n else None)\<rparr>"

lemma demo_conversions_law: "conversions_law demo_conversions"
  by (simp add: conversions_law_def demo_conversions_def)

text \<open>The endpoint and the profile of the baselines.\<close>

definition demo_endpoint_config :: "(u64, nat) endpoint_config" where
  "demo_endpoint_config = (case endpoint_config_baseline demo_conversions 1 4 of Ok e \<Rightarrow> e)"

definition demo_profile_limits :: profile_limits where
  "demo_profile_limits = \<lparr>pl_semantic_role = NonAuthority, pl_max_control_frame_bytes = 100,
     pl_max_negotiation_frame_bytes = 50, pl_max_incoming_message_bytes = 20,
     pl_reliable_receive = \<lparr>rr_scratch_bytes = 16, rr_max_staging_bytes = 20\<rparr>\<rparr>"

definition demo_profile_config :: "(u64, nat) profile_config" where
  "demo_profile_config = \<lparr>pf_limits = demo_profile_limits,
     pf_inner = \<lparr>cp_resources = ec_inner demo_endpoint_config, cp_local_settings = demo_settings NonAuthority\<rparr>\<rparr>"

lemma config_flows:
  assumes "endpoint_config_validate q l = Ok e"
  shows "qc_varint q (rl_max_active_incoming_flows l) = Some (er_max_active_incoming_flows (ec_inner e))"
  using assms
  by (auto simp: endpoint_config_validate_def resource_limits_validate_def result_bind_def ok_or_def
      split: if_splits result.splits option.splits)

lemma demo_endpoint_validated:
  "endpoint_config_baseline demo_conversions 1 4 = Ok demo_endpoint_config"
  "er_max_active_incoming_flows (ec_inner demo_endpoint_config) = 4"
proof -
  have "is_ok (endpoint_config_baseline demo_conversions 1 4)"
    by (subst baseline_endpoint[OF demo_conversions_law]) (simp add: QUIC_MAX_STREAM_COUNT_def push_bit_eq_mult word_le_nat_alt)
  then show e: "endpoint_config_baseline demo_conversions 1 4 = Ok demo_endpoint_config"
    by (cases "endpoint_config_baseline demo_conversions 1 4") (simp_all add: demo_endpoint_config_def)
  then show "er_max_active_incoming_flows (ec_inner demo_endpoint_config) = 4"
    using config_flows[of demo_conversions _ demo_endpoint_config]
    by (fastforce simp: endpoint_config_baseline_def demo_conversions_def split: if_splits)
qed

lemma demo_profile_validated:
  "profile_config_validate demo_conversions demo_profile_limits demo_endpoint_config = Ok demo_profile_config"
  by (simp add: profile_config_validate_def demo_profile_limits_def local_limits_validate_def demo_endpoint_validated(2)
      demo_conversions_def usize_to_wire_def MAX_VARINT_def word_le_nat_alt u64_to_usize_def usize_max_def
      demo_profile_config_def demo_settings_def result_bind_def map_err_def ok_or_def MAX_SETTINGS_BODY_BYTES_def
      MIN_NEGOTIATION_OFFER_BODY_BYTES_def)

lemma demo_profile_built: "profile_built demo_profile_config"
  using demo_conversions_law demo_endpoint_validated(1) demo_profile_validated
  unfolding profile_built_def endpoint_config_baseline_def by blast

definition demo_public_endpoint :: "(u64, nat) configured_endpoint" where
  "demo_public_endpoint = \<lparr>ce_side = Client, ce_resources = ec_inner demo_endpoint_config, ce_slots = connection_slots_new 1\<rparr>"

definition demo_connection_turn :: connection_turn where
  "demo_connection_turn = \<lparr>tn_driver = demo_turn\<lparr>tu_receive_done := True\<rparr>, tn_exchange = \<lparr>xa_body = (\<lambda>_. True), xa_items = (\<lambda>_ _. True), xa_report = True\<rparr>\<rparr>"

definition demo_host_calls :: "(unit, bytes, bytes \<times> bytes, unit, u64, nat) host_call list" where
  "demo_host_calls = [HostConnect (\<lambda>_. True) demo_bootstrap demo_profile_config demo_connecting,
     HostActivate 0 (ConnectionHandle 3) \<lparr>xa_body = (\<lambda>_. True), xa_items = (\<lambda>_ _. True), xa_report = True\<rparr> demo_wire_offer demo_no_requirements,
     HostCall (ConnectionHandle 3) (PollConnection (\<lambda>_. demo_connection_turn)), HostTeardown (ConnectionHandle 3)]"

lemma demo_host:
  shows "connection_law demo_driver_ops snd id snd" "ce_slots demo_public_endpoint = connection_slots_new 1"
    "list_all (host_call_ok id snd) demo_host_calls"
  using demo_driver_law demo_send_law demo_recv_law demo_bootstrap_law demo_profile_built
  by (simp_all add: connection_law_def demo_driver_ops_def demo_public_endpoint_def demo_host_calls_def)

lemma demo_host_admits:
  assumes "host_run demo_driver_ops demo_public_endpoint demo_manager demo_limits
      [HostConnect (\<lambda>_. True) demo_bootstrap demo_profile_config demo_connecting
         :: (unit, bytes, bytes \<times> bytes, unit, u64, nat) host_call] = Some h"
  shows "length (ho_admitted h) = 1"
proof -
  obtain ready where "demo_client = Some ready" using demo_client_run by (cases demo_client) simp_all
  then have "bootstrap_client_control (\<lambda>_. True) demo_send demo_recv Client
      (Done (Ok ([], (demo_settings_bytes 1, [])))) (\<lambda>_. False) (demo_settings NonAuthority) = Some (Done (Ok ready))"
    by (auto simp: demo_client_def split: option.splits awaited.splits result.splits)
  then show ?thesis
    using assms
    by (auto simp: host_run_def host_new_def client_connect_def connect_profile_ready_def demo_public_endpoint_def
        validate_preflight_def demo_profile_config_def slots_try_acquire_def connection_slots_new_def demo_connecting_def
        admit_handshake_def establish_profile_ready_def demo_bootstrap_def confirm_profile_transport_def
        bootstrap_outcome_def keep_permit_def from_profile_def)
qed

theorem host_run_safe_witness:
  "\<exists>h. host_run demo_driver_ops demo_public_endpoint demo_manager demo_limits
       [HostConnect (\<lambda>_. True) demo_bootstrap demo_profile_config demo_connecting
         :: (unit, bytes, bytes \<times> bytes, unit, u64, nat) host_call] = Some h
     \<and> length (ho_admitted h) = 1 \<and> cs_active (ce_slots (ho_quic h)) = 1 + fm_len (ho_connections h)
     \<and> cs_active (ce_slots (ho_quic h)) \<le> 1 \<and> endpoint_ok demo_limits (ho_delivery h)"
proof -
  let ?calls = "[HostConnect (\<lambda>_. True) demo_bootstrap demo_profile_config demo_connecting
      :: (unit, bytes, bytes \<times> bytes, unit, u64, nat) host_call]"
  have "list_all (host_call_ok id snd) ?calls" using demo_bootstrap_law demo_profile_built by simp
  from host_run_safe[OF demo_host(1) demo_manager_new demo_manager_fits demo_host(2) this, of demo_limits]
  obtain h where h: "host_run demo_driver_ops demo_public_endpoint demo_manager demo_limits ?calls = Some h"
    "cs_active (ce_slots (ho_quic h)) = length (ho_admitted h) + fm_len (ho_connections h)"
    "cs_active (ce_slots (ho_quic h)) \<le> 1" "endpoint_ok demo_limits (ho_delivery h)"
    by blast
  then show ?thesis using demo_host_admits[OF h(1)] by auto
qed





end
