(* ===== verification/Wire_Contract.thy ===== *)
theory Wire_Contract
  imports Wire_Safety
begin

text \<open>
  The properties of the wire codec: decoding accepts exactly what encoding produces, for varints
  and for the bodies of the control frames, and the two ends of a connection agree on identifiers.
\<close>

text \<open>How many bytes a number takes as a varint, and the two top bits that say so, as RFC 9000 has them.\<close>

definition varint_size :: "nat \<Rightarrow> nat" where
  "varint_size k = (if k < 2 ^ 6 then 1 else if k < 2 ^ 14 then 2 else if k < 2 ^ 30 then 4 else 8)"

definition varint_tag :: "nat \<Rightarrow> nat" where
  "varint_tag k = (if k < 2 ^ 6 then 0 else if k < 2 ^ 14 then 1 else if k < 2 ^ 30 then 2 else 3)"

lemma varint_len_size:
  assumes "varint_len v = Some n"
  shows "n = varint_size (unat v)" "unat v < 2 ^ 62" "n = 2 ^ varint_tag (unat v)"
  using assms
  by (auto simp: varint_len_def varint_size_def varint_tag_def word_less_nat_alt word_le_nat_alt unat_MAX_VARINT
      split: if_splits)

lemma varint_tag_unique: "2 ^ tag = (2 :: nat) ^ varint_tag k \<longleftrightarrow> tag = varint_tag k"
  by simp

text \<open>
  C40: The varint codec is exact. A number is encoded if and only if it is below \<open>2 ^ 62\<close>, in 1, 2, 4
  or 8 bytes, the fewest of these that hold its bits beside the two that tell the length, and these
  bytes are the number itself, most significant byte first, with the length in the two top bits; the
  encoder never panics. Decoding yields \<open>v\<close> after \<open>n\<close> bytes if and only if the input starts with the
  \<open>n\<close> bytes that encoding \<open>v\<close> produces. So encodings are unique, shortest and self-delimiting, and
  every other byte string is refused.
\<close>

theorem varint_exact:
  "(case encode_varint u of
      Some (Ok e) \<Rightarrow> unat u < 2 ^ 62 \<and> vi_len e = varint_size (unat u)
        \<and> length (varint_slice e) = varint_size (unat u)
        \<and> be_value (varint_slice e) = unat u + varint_tag (unat u) * 2 ^ (8 * varint_size (unat u) - 2)
    | Some (Err x) \<Rightarrow> 2 ^ 62 \<le> unat u \<and> x = OutOfRange
    | None \<Rightarrow> False)
   \<and> (decode_varint input = Ok (v, n) \<longleftrightarrow>
     (\<exists>e rest. encode_varint v = Some (Ok e) \<and> vi_len e = n \<and> input = varint_slice e @ rest))"
proof
  show "case encode_varint u of
      Some (Ok e) \<Rightarrow> unat u < 2 ^ 62 \<and> vi_len e = varint_size (unat u)
        \<and> length (varint_slice e) = varint_size (unat u)
        \<and> be_value (varint_slice e) = unat u + varint_tag (unat u) * 2 ^ (8 * varint_size (unat u) - 2)
    | Some (Err x) \<Rightarrow> 2 ^ 62 \<le> unat u \<and> x = OutOfRange
    | None \<Rightarrow> False"
  proof (cases u rule: encode_varint_cases)
    case (Small e)
    let ?n = "length (vslice u)"
    from Small have form: "varint_form u ?n (varint_slice e)" by simp
    then obtain tag where tag: "varint_len u = Some ?n" "length (varint_slice e) = ?n" "?n = 2 ^ tag"
      "be_value (varint_slice e) = unat u + tag * (64 * 256 ^ (?n - 1))"
      unfolding varint_form_def by blast
    note size = varint_len_size[OF tag(1)]
    have "tag = varint_tag (unat u)" using tag(3) size(3) varint_tag_unique[of tag "unat u"] by simp
    moreover have "64 * 256 ^ (varint_size (unat u) - 1) = (2 :: nat) ^ (8 * varint_size (unat u) - 2)"
      by (simp add: varint_size_def)
    ultimately show ?thesis using Small tag size by simp
  next
    case Large
    then show ?thesis by (simp add: word_less_nat_alt unat_MAX_VARINT)
  qed
  show "decode_varint input = Ok (v, n) \<longleftrightarrow>
     (\<exists>e rest. encode_varint v = Some (Ok e) \<and> vi_len e = n \<and> input = varint_slice e @ rest)"
  proof (cases v rule: encode_varint_cases)
    case (Small e)
    have "take (length (vslice v)) input = vslice v \<longleftrightarrow> (\<exists>rest. input = vslice v @ rest)"
      by (metis append_eq_conv_conj append_take_drop_id)
    then show ?thesis using Small by (auto simp: decode_varint_iff)
  next
    case Large
    then show ?thesis by (auto simp: decode_varint_iff)
  qed
qed

text \<open>
  The bodies of the four flow control frames are exact: a decoder accepts a byte string, with
  value \<open>x\<close>, if and only if the encoder produces that string for \<open>x\<close>. Trailing bytes, longer
  encodings and unknown codes are refused, and no encoder panics on a value that can be decoded.
\<close>

theorem control_bodies_exact:
  "(open_flow_decode bs = Ok a \<longleftrightarrow> open_flow_ok a
      \<and> (\<exists>b. open_flow_encode a = Some b \<and> body_slice b = bs))
   \<and> (flow_accept_decode bs = Ok c \<longleftrightarrow> flow_id_ok (fa_flow_id c)
      \<and> (\<exists>b. flow_accept_encode c = Some b \<and> body_slice b = bs))
   \<and> (flow_reject_decode bs = Ok r \<longleftrightarrow> flow_id_ok (fr_flow_id r)
      \<and> (\<exists>b. flow_reject_encode r = Some b \<and> body_slice b = bs))
   \<and> (flow_terminate_decode bs = Ok t \<longleftrightarrow> flow_id_ok (fx_flow_id t)
      \<and> (\<exists>b. flow_terminate_encode t = Some b \<and> body_slice b = bs))"
  using open_flow_encode_body[of a] flow_accept_encode_body[of c] flow_reject_encode_body[of r]
    flow_terminate_encode_body[of t]
  unfolding open_flow_decode_iff flow_accept_decode_iff flow_reject_decode_iff flow_terminate_decode_iff
  by (intro conjI) fastforce+

lemma allocated_ids:
  assumes "cursor_ok c" "allocate_many n c = Some (ids, c')"
  shows "list_all (\<lambda>i. flow_id_ok i \<and> flow_id_side i = fc_side c) ids"
  using assms
proof (induction n arbitrary: c ids c')
  case 0
  then show ?case by simp
next
  case (Suc n)
  from cursor_allocate_eq[OF Suc.prems(1)] show ?case
  proof (elim disjE exE conjE)
    fix i assume i: "cursor_allocate c = Some (Ok i, cursor_advance (flow_id_sequence i) c)" "flow_id_ok i"
      "flow_id_side i = fc_side c" "fc_next_sequence c = Some (flow_id_sequence i)"
    let ?c = "cursor_advance (flow_id_sequence i) c"
    obtain ids' where ids': "allocate_many n ?c = Some (ids', c')" "ids = i # ids'"
      using Suc.prems(2) i(1) by (auto simp: bind_eq_Some_conv)
    have "cursor_ok ?c" using cursor_advance_ok[OF flow_id_sequence_bound[OF i(2)] i(4)] by simp
    from Suc.IH[OF this ids'(1)] show ?thesis using i(2,3) ids'(2) by (simp add: cursor_advance_def)
  next
    assume "cursor_allocate c = Some (Err CursorExhausted, c)"
    then show ?thesis using Suc.prems(2) by simp
  qed
qed

text \<open>
  The two ends agree on flow identifiers. From a new cursor, \<open>n\<close> allocations hand out the
  identifiers of the side with sequences 0, 1, 2, ... and stop, without a panic, after the last
  sequence that fits a varint; and the peer's cursor for that side accepts a series of valid
  identifiers if and only if it is one that the allocating cursor hands out.
\<close>

theorem flow_ids_agree:
  "(\<exists>ids c. allocate_many n (flow_id_cursor_new side) = Some (ids, c)
      \<and> map (\<lambda>i. unat (flow_id_sequence i)) ids = [0..<min n (2 ^ 61)]
      \<and> list_all (\<lambda>i. flow_id_ok i \<and> flow_id_side i = side) ids)
   \<and> (list_all flow_id_ok js \<and> consume_all (flow_id_cursor_new side) js = Ok ()
      \<longleftrightarrow> (\<exists>m c. allocate_many m (flow_id_cursor_new side) = Some (js, c)))"
proof -
  let ?c = "flow_id_cursor_new side"
  have ok: "cursor_ok ?c" by (rule cursor_new_ok)
  have start: "cursor_count ?c = 0" "fc_side ?c = side"
    by (simp_all add: cursor_count_def flow_id_cursor_new_def)
  have valid: "list_all flow_id_ok js" if "allocate_many m ?c = Some (js, c)" for m c
    using allocated_ids[OF ok that] by (simp add: list_all_iff)
  show ?thesis
    using allocate_many_total[OF ok, of n] allocated_ids[OF ok, of n] consume_iff_allocated[OF ok, of js] valid
    unfolding start by fastforce
qed

end
