(* ===== verification/Ordered_Map.thy ===== *)
theory Ordered_Map
  imports Prelude
begin

text \<open>
  \<open>BTreeMap\<close> as the list of its entries in key order, for the components that iterate over one:
  \<open>om_insert\<close> replaces or inserts in order, \<open>om_remove\<close> deletes, lookup is \<open>map_of\<close>.
\<close>

fun om_insert :: "'k::linorder \<Rightarrow> 'v \<Rightarrow> ('k \<times> 'v) list \<Rightarrow> ('k \<times> 'v) list" where
  "om_insert k v [] = [(k, v)]"
| "om_insert k v ((k', v') # m) =
     (if k < k' then (k, v) # (k', v') # m
      else if k = k' then (k, v) # m
      else (k', v') # om_insert k v m)"

definition om_remove :: "'k \<Rightarrow> ('k \<times> 'v) list \<Rightarrow> ('k \<times> 'v) list" where
  "om_remove k m = filter (\<lambda>e. fst e \<noteq> k) m"

definition om_wf :: "('k::linorder \<times> 'v) list \<Rightarrow> bool" where
  "om_wf m \<longleftrightarrow> sorted_wrt (<) (map fst m)"

definition om_sum :: "('v \<Rightarrow> nat) \<Rightarrow> ('k \<times> 'v) list \<Rightarrow> nat" where
  "om_sum f m = sum_list (map (\<lambda>e. f (snd e)) m)"

lemma om_wf_Nil [simp]: "om_wf []"
  by (simp add: om_wf_def)

lemma om_wf_Cons [simp]: "om_wf ((k, v) # m) \<longleftrightarrow> (\<forall>e \<in> set m. k < fst e) \<and> om_wf m"
  by (simp add: om_wf_def)

lemma om_sum_Nil [simp]: "om_sum f [] = 0"
  by (simp add: om_sum_def)

lemma om_sum_Cons [simp]: "om_sum f ((k, v) # m) = f v + om_sum f m"
  by (simp add: om_sum_def)

lemma om_sum_append [simp]: "om_sum f (m @ m') = om_sum f m + om_sum f m'"
  by (simp add: om_sum_def)

lemma om_wf_append: "om_wf (m @ m') \<longleftrightarrow> om_wf m \<and> om_wf m' \<and> (\<forall>a\<in>set m. \<forall>b\<in>set m'. fst a < fst b)"
  by (auto simp: om_wf_def sorted_wrt_append)

lemma set_om_insert: "set (om_insert k v m) \<subseteq> insert (k, v) (set m)"
  by (induction k v m rule: om_insert.induct) auto

lemma om_wf_insert: "om_wf m \<Longrightarrow> om_wf (om_insert k v m)"
proof (induction k v m rule: om_insert.induct)
  case (2 k v k' v' m)
  then show ?case using set_om_insert[of k v m] by (fastforce dest: order.strict_trans)
qed simp

lemma map_of_om_insert: "om_wf m \<Longrightarrow> map_of (om_insert k v m) = (map_of m)(k \<mapsto> v)"
  by (induction k v m rule: om_insert.induct) (auto simp: fun_upd_twist)

lemma om_wf_remove: "om_wf m \<Longrightarrow> om_wf (om_remove k m)"
  by (simp add: om_wf_def om_remove_def sorted_wrt_map sorted_wrt_filter)

lemma map_of_om_remove: "map_of (om_remove k m) = (map_of m)(k := None)"
  by (induction m) (auto simp: om_remove_def)

lemma set_om_remove [simp]: "set (om_remove k m) = {e \<in> set m. fst e \<noteq> k}"
  by (auto simp: om_remove_def)

lemma map_of_None_fst: "map_of m k = None \<longleftrightarrow> (\<forall>e \<in> set m. fst e \<noteq> k)"
  by (auto simp: map_of_eq_None_iff)

lemma om_remove_absent: "map_of m k = None \<Longrightarrow> om_remove k m = m"
  by (auto simp: om_remove_def map_of_None_fst filter_id_conv)

text \<open>A key above all others is appended; a key below is removed from the front.\<close>

lemma om_insert_last: "\<forall>e \<in> set m. fst e < k \<Longrightarrow> om_insert k v m = m @ [(k, v)]"
  by (induction m) auto

lemma om_remove_first: "om_wf ((k, v) # m) \<Longrightarrow> om_remove k ((k, v) # m) = m"
  by (auto simp: om_remove_def filter_id_conv)

lemma om_sum_remove:
  assumes "om_wf m" "map_of m k = Some v"
  shows "om_sum f m = f v + om_sum f (om_remove k m)"
  using assms
proof (induction m)
  case (Cons e m)
  obtain k' v' where e: "e = (k', v')" by (cases e)
  show ?case
  proof (cases "k' = k")
    case True
    then have "om_remove k (e # m) = m" using Cons.prems(1) e om_remove_first[of k' v' m] by simp
    then show ?thesis using Cons.prems(2) e True by simp
  next
    case False
    then show ?thesis using Cons e by (simp add: om_remove_def)
  qed
qed simp

lemma om_length_remove:
  assumes "om_wf m" "map_of m k = Some v"
  shows "length m = Suc (length (om_remove k m))"
  using om_sum_remove[OF assms, of "\<lambda>_. 1"] by (simp add: om_sum_def sum_list_triv)

lemma om_sum_insert_fresh: "map_of m k = None \<Longrightarrow> om_sum f (om_insert k v m) = f v + om_sum f m"
  by (induction k v m rule: om_insert.induct) auto

lemma om_length_insert_fresh: "map_of m k = None \<Longrightarrow> length (om_insert k v m) = Suc (length m)"
  by (induction k v m rule: om_insert.induct) auto

lemma om_wf_drop: "om_wf m \<Longrightarrow> om_wf (drop n m)"
  by (simp add: om_wf_def sorted_wrt_drop flip: drop_map)

lemma om_sum_member: "map_of m k = Some v \<Longrightarrow> f v \<le> om_sum f m"
  by (induction m) (auto split: if_splits)

lemma om_wf_lookup: "om_wf m \<Longrightarrow> map_of m k = Some v \<longleftrightarrow> (k, v) \<in> set m"
proof
  assume wf: "om_wf m" and "(k, v) \<in> set m"
  moreover have "distinct (map fst m)" using wf by (auto simp: om_wf_def strict_sorted_iff)
  ultimately show "map_of m k = Some v" by simp
qed (rule map_of_SomeD)

text \<open>Splitting a map at a key.\<close>

lemma om_sum_partition: "om_sum f m = om_sum f (filter P m) + om_sum f (filter (\<lambda>e. \<not> P e) m)"
  by (induction m) (auto simp: om_sum_def)

lemma filter_not_below: "filter (\<lambda>e. \<not> fst e < t) m = filter (\<lambda>e. t \<le> fst e) m"
  for t :: "'k::linorder"
  by (simp add: linorder_not_less)

lemma om_wf_filter: "om_wf m \<Longrightarrow> om_wf (filter P m)"
  by (simp add: om_wf_def sorted_wrt_map sorted_wrt_filter)

lemma map_of_filter_keys: "map_of (filter (\<lambda>e. P (fst e)) m) k = (if P k then map_of m k else None)"
  by (induction m) auto

end
