(* ===== verification/Authority_Input.thy ===== *)
theory Authority_Input
  imports Ordered_Map Session_Safety
begin

text \<open>
  \<open>crates/runen-net/src/input/authority.rs\<close> and the authority types of \<open>input/model.rs\<close>: the inputs
  an authority retains per participant and tick, inside a window that only moves forward, under
  per-participant and aggregate limits. The input type \<open>'i\<close> is the host's. A computation is \<open>None\<close>
  exactly where the code panics.
\<close>

section \<open>Types\<close>

record input_window =
  iw_minimum :: simulation_tick
  iw_maximum :: simulation_tick

datatype input_window_error = MaximumBeforeMinimum

definition input_window_new ::
  "simulation_tick \<Rightarrow> simulation_tick \<Rightarrow> (input_window, input_window_error) result" where
  "input_window_new lo hi =
     (if hi < lo then Err MaximumBeforeMinimum else Ok \<lparr>iw_minimum = lo, iw_maximum = hi\<rparr>)"

definition window_span :: "input_window \<Rightarrow> u64 exec" where
  "window_span w = (if tick_get (iw_maximum w) < tick_get (iw_minimum w) then None
                    else Some (tick_get (iw_maximum w) - tick_get (iw_minimum w)))"

record authority_input_limits =
  il_max_batch_bytes :: nat
  il_max_retained_keys :: nat
  il_max_retained_bytes :: nat
  il_max_future_tick_distance :: u64

datatype authority_input_limit_error = BatchExceedsParticipantBudget

definition authority_input_limits_new ::
  "nat \<Rightarrow> nat \<Rightarrow> nat \<Rightarrow> u64 \<Rightarrow> (authority_input_limits, authority_input_limit_error) result" where
  "authority_input_limits_new batch keys bytes distance =
     (if bytes < batch then Err BatchExceedsParticipantBudget
      else Ok \<lparr>il_max_batch_bytes = batch, il_max_retained_keys = keys,
               il_max_retained_bytes = bytes, il_max_future_tick_distance = distance\<rparr>)"

record authority_input_aggregate_limits =
  ia_max_retained_keys :: nat
  ia_max_retained_bytes :: nat

datatype authority_input_outcome =
    InputAccepted | DuplicateInput | ConflictingInput | StaleInput | FutureInputOutsideWindow
  | InputResourceRejected | UnauthorizedInput

datatype authority_input_error =
    SessionMismatch
  | ParticipantAlreadyConfigured
  | ParticipantNotConfigured
  | ParticipantNotLive
  | WindowMinimumRegression
  | WindowMaximumRegression
  | WindowExceedsFutureHorizon
  | AccountingOverflow
  | AccountingInvariantViolation

record 'i retained_input =
  ri_value :: 'i
  ri_bytes :: nat

type_synonym 'i input_map = "(simulation_tick \<times> 'i retained_input) list"

abbreviation input_bytes :: "'i input_map \<Rightarrow> nat" where
  "input_bytes m \<equiv> om_sum ri_bytes m"

record 'i participant_input =
  pi_limits :: authority_input_limits
  pi_window :: input_window
  pi_retained :: "'i input_map"
  pi_retained_bytes :: nat

definition participant_input_new ::
  "authority_input_limits \<Rightarrow> input_window \<Rightarrow> 'i participant_input" where
  "participant_input_new l w =
     \<lparr>pi_limits = l, pi_window = w, pi_retained = [], pi_retained_bytes = 0\<rparr>"

record 'i authority_input =
  ai_session :: session_id
  ai_limits :: authority_input_aggregate_limits
  ai_participants :: "(participant_id, 'i participant_input) fmap"
  ai_retained_keys :: nat
  ai_retained_bytes :: nat

definition authority_input_new ::
  "session_id \<Rightarrow> authority_input_aggregate_limits \<Rightarrow> 'i authority_input" where
  "authority_input_new sid l =
     \<lparr>ai_session = sid, ai_limits = l, ai_participants = fmempty, ai_retained_keys = 0,
      ai_retained_bytes = 0\<rparr>"

definition participant_window :: "'i authority_input \<Rightarrow> participant_id \<Rightarrow> input_window option" where
  "participant_window a p = map_option pi_window (fmlookup (ai_participants a) p)"

section \<open>Operations\<close>

type_synonym ('i, 'r) input_op = "(('r, authority_input_error) result \<times> 'i authority_input) exec"

definition add_participant ::
  "'i authority_input \<Rightarrow> session \<Rightarrow> participant_id \<Rightarrow> input_window \<Rightarrow> authority_input_limits \<Rightarrow>
     ('i, unit) input_op" where
  "add_participant a s p w l =
     (if s_id s \<noteq> ai_session a then Some (Err SessionMismatch, a)
      else if membership_state s p = None then Some (Err ParticipantNotLive, a)
      else if fmlookup (ai_participants a) p \<noteq> None then Some (Err ParticipantAlreadyConfigured, a)
      else do {
        span \<leftarrow> window_span w;
        Some (if il_max_future_tick_distance l < span then (Err WindowExceedsFutureHorizon, a)
              else (Ok (), a\<lparr>ai_participants := fmupd p (participant_input_new l w) (ai_participants a)\<rparr>)) })"

text \<open>
  The sums of \<open>advance_window\<close> and \<open>reconcile_memberships\<close> over what is removed; \<open>None\<close> is an
  overflow, which those operations report as an error.
\<close>

fun count_removed :: "(nat \<times> nat) list \<Rightarrow> nat \<Rightarrow> nat \<Rightarrow> (nat \<times> nat) option" where
  "count_removed [] keys bytes = Some (keys, bytes)"
| "count_removed ((k, b) # xs) keys bytes = do {
     keys' \<leftarrow> checked_add keys k;
     bytes' \<leftarrow> checked_add bytes b;
     count_removed xs keys' bytes' }"

definition advance_window ::
  "'i authority_input \<Rightarrow> participant_id \<Rightarrow> input_window \<Rightarrow> ('i, unit) input_op" where
  "advance_window a p w =
     (case fmlookup (ai_participants a) p of
        None \<Rightarrow> Some (Err ParticipantNotConfigured, a)
      | Some st \<Rightarrow>
        if iw_minimum w < iw_minimum (pi_window st) then Some (Err WindowMinimumRegression, a)
        else if iw_maximum w < iw_maximum (pi_window st) then Some (Err WindowMaximumRegression, a)
        else do {
          span \<leftarrow> window_span w;
          Some (if il_max_future_tick_distance (pi_limits st) < span
                then (Err WindowExceedsFutureHorizon, a)
                else case count_removed (map (\<lambda>e. (1, ri_bytes (snd e)))
                            (filter (\<lambda>e. fst e < iw_minimum w) (pi_retained st))) 0 0 of
                  None \<Rightarrow> (Err AccountingOverflow, a)
                | Some (keys, bytes) \<Rightarrow>
                  (case (checked_sub (pi_retained_bytes st) bytes, checked_sub (ai_retained_keys a) keys,
                         checked_sub (ai_retained_bytes a) bytes) of
                     (Some participant_bytes, Some next_keys, Some next_bytes) \<Rightarrow>
                       (Ok (), a\<lparr>ai_participants := fmupd p
                            (st\<lparr>pi_retained := filter (\<lambda>e. iw_minimum w \<le> fst e) (pi_retained st),
                               pi_retained_bytes := participant_bytes, pi_window := w\<rparr>)
                            (ai_participants a),
                          ai_retained_keys := next_keys, ai_retained_bytes := next_bytes\<rparr>)
                   | _ \<Rightarrow> (Err AccountingInvariantViolation, a))) })"

definition removed_participants :: "'i authority_input \<Rightarrow> session \<Rightarrow> participant_id list" where
  "removed_participants a s =
     sort_participants (ffilter (\<lambda>p. membership_state s p = None) (fmdom (ai_participants a)))"

definition participant_load :: "'i authority_input \<Rightarrow> participant_id \<Rightarrow> (nat \<times> nat) exec" where
  "participant_load a p =
     map_option (\<lambda>st. (length (pi_retained st), pi_retained_bytes st)) (fmlookup (ai_participants a) p)"

fun exec_map :: "('a \<Rightarrow> 'b exec) \<Rightarrow> 'a list \<Rightarrow> 'b list exec" where
  "exec_map f [] = Some []"
| "exec_map f (x # xs) = do { y \<leftarrow> f x; ys \<leftarrow> exec_map f xs; Some (y # ys) }"

definition reconcile_memberships ::
  "'i authority_input \<Rightarrow> session \<Rightarrow> ('i, participant_id list) input_op" where
  "reconcile_memberships a s =
     (if s_id s \<noteq> ai_session a then Some (Err SessionMismatch, a)
      else do {
        let removed = removed_participants a s;
        loads \<leftarrow> exec_map (participant_load a) removed;
        Some (case count_removed loads 0 0 of
            None \<Rightarrow> (Err AccountingOverflow, a)
          | Some (keys, bytes) \<Rightarrow>
            (case (checked_sub (ai_retained_keys a) keys, checked_sub (ai_retained_bytes a) bytes) of
               (Some next_keys, Some next_bytes) \<Rightarrow>
                 (Ok removed, a\<lparr>ai_participants := fold fmdrop removed (ai_participants a),
                    ai_retained_keys := next_keys, ai_retained_bytes := next_bytes\<rparr>)
             | _ \<Rightarrow> (Err AccountingInvariantViolation, a))) })"

definition input_fits :: "'i authority_input \<Rightarrow> 'i participant_input \<Rightarrow> nat \<Rightarrow> (nat \<times> nat \<times> nat) option" where
  "input_fits a st bytes =
     (if il_max_batch_bytes (pi_limits st) < bytes
         \<or> il_max_retained_keys (pi_limits st) \<le> length (pi_retained st)
         \<or> ia_max_retained_keys (ai_limits a) \<le> ai_retained_keys a then None
      else do {
        participant_bytes \<leftarrow> checked_add (pi_retained_bytes st) bytes;
        if il_max_retained_bytes (pi_limits st) < participant_bytes then None
        else do {
          next_keys \<leftarrow> checked_add (ai_retained_keys a) 1;
          if ia_max_retained_keys (ai_limits a) < next_keys then None
          else do {
            next_bytes \<leftarrow> checked_add (ai_retained_bytes a) bytes;
            if ia_max_retained_bytes (ai_limits a) < next_bytes then None
            else Some (participant_bytes, next_keys, next_bytes) } } })"

definition submit_input ::
  "'i authority_input \<Rightarrow> session \<Rightarrow> participant_id \<Rightarrow> connection_handle \<Rightarrow> simulation_tick \<Rightarrow> 'i \<Rightarrow> nat \<Rightarrow>
     ('i, authority_input_outcome) input_op" where
  "submit_input a s p c tick input bytes =
     (if s_id s \<noteq> ai_session a then Some (Err SessionMismatch, a)
      else if \<not> is_authorized s p c then Some (Ok UnauthorizedInput, a)
      else case fmlookup (ai_participants a) p of
        None \<Rightarrow> Some (Err ParticipantNotConfigured, a)
      | Some st \<Rightarrow>
        if tick < iw_minimum (pi_window st) then Some (Ok StaleInput, a)
        else case map_of (pi_retained st) tick of
          Some r \<Rightarrow> Some (Ok (if ri_value r = input then DuplicateInput else ConflictingInput), a)
        | None \<Rightarrow>
          if iw_maximum (pi_window st) < tick then Some (Ok FutureInputOutsideWindow, a)
          else case input_fits a st bytes of
            None \<Rightarrow> Some (Ok InputResourceRejected, a)
          | Some (participant_bytes, next_keys, next_bytes) \<Rightarrow>
              Some (Ok InputAccepted, a\<lparr>ai_participants := fmupd p
                  (st\<lparr>pi_retained := om_insert tick \<lparr>ri_value = input, ri_bytes = bytes\<rparr> (pi_retained st),
                     pi_retained_bytes := participant_bytes\<rparr>) (ai_participants a),
                ai_retained_keys := next_keys, ai_retained_bytes := next_bytes\<rparr>))"

section \<open>The invariant\<close>

definition window_ok :: "authority_input_limits \<Rightarrow> input_window \<Rightarrow> bool" where
  "window_ok l w \<longleftrightarrow> iw_minimum w \<le> iw_maximum w
     \<and> tick_get (iw_maximum w) - tick_get (iw_minimum w) \<le> il_max_future_tick_distance l"

definition participant_input_ok :: "'i participant_input \<Rightarrow> bool" where
  "participant_input_ok st \<longleftrightarrow> om_wf (pi_retained st)
     \<and> pi_retained_bytes st = input_bytes (pi_retained st)
     \<and> length (pi_retained st) \<le> il_max_retained_keys (pi_limits st)
     \<and> pi_retained_bytes st \<le> il_max_retained_bytes (pi_limits st)
     \<and> (\<forall>e \<in> set (pi_retained st). ri_bytes (snd e) \<le> il_max_batch_bytes (pi_limits st)
          \<and> iw_minimum (pi_window st) \<le> fst e \<and> fst e \<le> iw_maximum (pi_window st))
     \<and> window_ok (pi_limits st) (pi_window st)"

definition input_ok :: "'i authority_input \<Rightarrow> bool" where
  "input_ok a \<longleftrightarrow> (\<forall>p st. fmlookup (ai_participants a) p = Some st \<longrightarrow> participant_input_ok st)
     \<and> ai_retained_keys a = fm_sum (\<lambda>_ st. length (pi_retained st)) (ai_participants a)
     \<and> ai_retained_bytes a = fm_sum (\<lambda>_ st. pi_retained_bytes st) (ai_participants a)
     \<and> ai_retained_keys a \<le> ia_max_retained_keys (ai_limits a)
     \<and> ai_retained_bytes a \<le> ia_max_retained_bytes (ai_limits a)
     \<and> ai_retained_keys a \<le> usize_max \<and> ai_retained_bytes a \<le> usize_max"

lemma authority_input_new_ok: "input_ok (authority_input_new sid l)"
  by (simp add: input_ok_def authority_input_new_def)

lemma input_okD: "input_ok a \<Longrightarrow> fmlookup (ai_participants a) p = Some st \<Longrightarrow> participant_input_ok st"
  by (simp add: input_ok_def)

lemma count_removed_eq:
  "keys + sum_list (map fst xs) \<le> usize_max \<Longrightarrow> bytes + sum_list (map snd xs) \<le> usize_max \<Longrightarrow>
     count_removed xs keys bytes = Some (keys + sum_list (map fst xs), bytes + sum_list (map snd xs))"
  by (induction xs keys bytes rule: count_removed.induct) (auto simp: add.assoc)

lemma window_span_Some:
  "window_span w = Some d \<longleftrightarrow> iw_minimum w \<le> iw_maximum w \<and> d = tick_get (iw_maximum w) - tick_get (iw_minimum w)"
  by (auto simp: window_span_def tick_order_defs)

text \<open>Splitting the retained inputs at the new minimum.\<close>

lemma input_split:
  fixes t :: simulation_tick
  shows "input_bytes m = input_bytes (filter (\<lambda>e. fst e < t) m) + input_bytes (filter (\<lambda>e. t \<le> fst e) m)"
    and "length m = length (filter (\<lambda>e. fst e < t) m) + length (filter (\<lambda>e. t \<le> fst e) m)"
  using om_sum_partition[of ri_bytes m "\<lambda>e. fst e < t"] sum_length_filter_compl[of "\<lambda>e. fst e < t" m]
  by (simp_all only: filter_not_below)

end
