(* ===== verification/Input_Safety.thy ===== *)
theory Input_Safety
  imports Authority_Input
begin

text \<open>
  Safety of the authority's input buffer: in a good state no operation panics, none reports
  \<open>AccountingOverflow\<close> or \<open>AccountingInvariantViolation\<close>, and every one leads to a good state.
  Windows only move forward, and a retained input is neither replaced nor lost while the window
  still covers its tick.
\<close>

section \<open>Updating one participant and dropping several\<close>

abbreviation keys_of :: "('p, 'i participant_input) fmap \<Rightarrow> nat" where
  "keys_of m \<equiv> fm_sum (\<lambda>_ st. length (pi_retained st)) m"

abbreviation load_of :: "('p, 'i participant_input) fmap \<Rightarrow> nat" where
  "load_of m \<equiv> fm_sum (\<lambda>_ st. pi_retained_bytes st) m"

lemma input_ok_update:
  assumes "input_ok a" "participant_input_ok st"
    and "keys = length (pi_retained st) + keys_of (fmdrop p (ai_participants a))"
    and "bytes = pi_retained_bytes st + load_of (fmdrop p (ai_participants a))"
    and "keys \<le> ia_max_retained_keys (ai_limits a)" "bytes \<le> ia_max_retained_bytes (ai_limits a)"
    and "keys \<le> usize_max" "bytes \<le> usize_max"
  shows "input_ok (a\<lparr>ai_participants := fmupd p st (ai_participants a), ai_retained_keys := keys,
                     ai_retained_bytes := bytes\<rparr>)"
  using assms by (simp add: input_ok_def fm_sum_fmupd)

lemma input_ok_split:
  assumes "input_ok a" "fmlookup (ai_participants a) p = Some st"
  shows "ai_retained_keys a = length (pi_retained st) + keys_of (fmdrop p (ai_participants a))"
    and "ai_retained_bytes a = pi_retained_bytes st + load_of (fmdrop p (ai_participants a))"
  using assms by (simp_all add: input_ok_def fm_sum_split)

lemma input_okD':
  assumes "input_ok a"
  shows "ai_retained_keys a \<le> ia_max_retained_keys (ai_limits a)" "ai_retained_keys a \<le> usize_max"
    and "ai_retained_bytes a \<le> ia_max_retained_bytes (ai_limits a)" "ai_retained_bytes a \<le> usize_max"
  using assms by (simp_all add: input_ok_def)

lemma exec_map_total:
  "\<forall>x \<in> set xs. f x \<noteq> None \<Longrightarrow> exec_map f xs = Some (map (\<lambda>x. the (f x)) xs)"
  by (induction xs) auto

lemma fm_sum_fold_fmdrop:
  "distinct ks \<Longrightarrow> \<forall>k \<in> set ks. fmlookup m k \<noteq> None \<Longrightarrow>
     fm_sum f m = sum_list (map (\<lambda>k. f k (the (fmlookup m k))) ks) + fm_sum f (fold fmdrop ks m)"
proof (induction ks arbitrary: m)
  case (Cons k ks)
  then obtain v where v: "fmlookup m k = Some v" by auto
  have same: "map (\<lambda>k'. f k' (the (fmlookup (fmdrop k m) k'))) ks = map (\<lambda>k'. f k' (the (fmlookup m k'))) ks"
    using Cons.prems(1) by auto
  have "fm_sum f (fmdrop k m)
     = sum_list (map (\<lambda>k'. f k' (the (fmlookup (fmdrop k m) k'))) ks) + fm_sum f (fold fmdrop ks (fmdrop k m))"
    by (rule Cons.IH) (use Cons.prems in auto)
  then show ?case using fm_sum_split[OF v, of f] v by (simp only: same) simp
qed simp

section \<open>The operations\<close>

lemma add_participant_eq:
  assumes "iw_minimum w \<le> iw_maximum w"
  shows "add_participant a s p w l = Some
     (if s_id s \<noteq> ai_session a then (Err SessionMismatch, a)
      else if membership_state s p = None then (Err ParticipantNotLive, a)
      else if fmlookup (ai_participants a) p \<noteq> None then (Err ParticipantAlreadyConfigured, a)
      else if \<not> window_ok l w then (Err WindowExceedsFutureHorizon, a)
      else (Ok (), a\<lparr>ai_participants := fmupd p (participant_input_new l w) (ai_participants a)\<rparr>))"
  using assms by (auto simp: add_participant_def window_span_def window_ok_def tick_order_defs)

lemma participant_input_new_ok: "window_ok l w \<Longrightarrow> participant_input_ok (participant_input_new l w)"
  by (simp add: participant_input_ok_def participant_input_new_def)

lemma add_participant_ok:
  assumes "input_ok a" "window_ok l w" "fmlookup (ai_participants a) p = None"
  shows "input_ok (a\<lparr>ai_participants := fmupd p (participant_input_new l w) (ai_participants a)\<rparr>)"
  using assms participant_input_new_ok[OF assms(2)]
  by (simp add: input_ok_def fm_sum_fresh) (simp add: participant_input_new_def)

text \<open>What \<open>advance_window\<close> leaves behind when it succeeds.\<close>

definition advanced :: "'i participant_input \<Rightarrow> input_window \<Rightarrow> 'i participant_input" where
  "advanced st w = st\<lparr>pi_retained := filter (\<lambda>e. iw_minimum w \<le> fst e) (pi_retained st),
     pi_retained_bytes := input_bytes (filter (\<lambda>e. iw_minimum w \<le> fst e) (pi_retained st)),
     pi_window := w\<rparr>"

definition put_participant :: "participant_id \<Rightarrow> 'i participant_input \<Rightarrow> 'i authority_input \<Rightarrow> 'i authority_input" where
  "put_participant p st a =
     (let m = fmupd p st (ai_participants a)
      in a\<lparr>ai_participants := m, ai_retained_keys := keys_of m, ai_retained_bytes := load_of m\<rparr>)"

lemma advanced_ok:
  assumes st: "participant_input_ok st" and w: "window_ok (pi_limits st) w"
    and mono: "iw_maximum (pi_window st) \<le> iw_maximum w"
  shows "participant_input_ok (advanced st w)"
proof -
  let ?m = "filter (\<lambda>e. iw_minimum w \<le> fst e) (pi_retained st)"
  have "input_bytes ?m \<le> input_bytes (pi_retained st)" "length ?m \<le> length (pi_retained st)"
    using input_split[of "pi_retained st" "iw_minimum w"] by linarith+
  moreover have "\<forall>e \<in> set ?m. fst e \<le> iw_maximum w"
    using st mono by (auto simp: participant_input_ok_def intro: order_trans)
  ultimately show ?thesis using st w
    by (auto simp: participant_input_ok_def advanced_def om_wf_filter intro: order_trans[OF length_filter_le])
qed

lemma advance_window_eq:
  assumes ok: "input_ok a" and w: "iw_minimum w \<le> iw_maximum w"
  shows "advance_window a p w = Some
     (case fmlookup (ai_participants a) p of
        None \<Rightarrow> (Err ParticipantNotConfigured, a)
      | Some st \<Rightarrow>
        if iw_minimum w < iw_minimum (pi_window st) then (Err WindowMinimumRegression, a)
        else if iw_maximum w < iw_maximum (pi_window st) then (Err WindowMaximumRegression, a)
        else if \<not> window_ok (pi_limits st) w then (Err WindowExceedsFutureHorizon, a)
        else (Ok (), put_participant p (advanced st w) a))"
proof (cases "fmlookup (ai_participants a) p")
  case (Some st)
  let ?lo = "filter (\<lambda>e. fst e < iw_minimum w) (pi_retained st)"
  let ?hi = "filter (\<lambda>e. iw_minimum w \<le> fst e) (pi_retained st)"
  note split = input_split[of "pi_retained st" "iw_minimum w"]
  have st: "participant_input_ok st" by (rule input_okD[OF ok Some])
  then have bytes: "pi_retained_bytes st = input_bytes (pi_retained st)" by (simp add: participant_input_ok_def)
  note whole = input_ok_split[OF ok Some] input_okD'[OF ok]
  have sums: "sum_list (map (fst \<circ> (\<lambda>e. (1, ri_bytes (snd e)))) ?lo) = length ?lo"
    "sum_list (map (snd \<circ> (\<lambda>e. (1::nat, ri_bytes (snd e)))) ?lo) = input_bytes ?lo"
    by (simp_all add: o_def sum_list_triv om_sum_def)
  have "count_removed (map (\<lambda>e. (1, ri_bytes (snd e))) ?lo) 0 0 = Some (length ?lo, input_bytes ?lo)"
    by (subst count_removed_eq) (use whole split bytes sums in simp_all)
  moreover have "pi_retained_bytes st - input_bytes ?lo = input_bytes ?hi"
    "ai_retained_keys a - length ?lo = length ?hi + keys_of (fmdrop p (ai_participants a))"
    "ai_retained_bytes a - input_bytes ?lo = input_bytes ?hi + load_of (fmdrop p (ai_participants a))"
    "input_bytes ?lo \<le> pi_retained_bytes st" "length ?lo \<le> ai_retained_keys a"
    "input_bytes ?lo \<le> ai_retained_bytes a"
    using whole split bytes by linarith+
  moreover have "window_span w = Some (tick_get (iw_maximum w) - tick_get (iw_minimum w))"
    using w by (simp add: window_span_Some)
  ultimately show ?thesis using Some w
    by (simp add: advance_window_def window_ok_def put_participant_def advanced_def fm_sum_fmupd Let_def linorder_not_le)
qed (simp add: advance_window_def)

lemma put_participant_ok:
  assumes "input_ok a" "fmlookup (ai_participants a) p = Some st" "participant_input_ok st'"
    and "length (pi_retained st') \<le> length (pi_retained st)" "pi_retained_bytes st' \<le> pi_retained_bytes st"
  shows "input_ok (put_participant p st' a)"
  unfolding put_participant_def Let_def
  by (rule input_ok_update[OF assms(1,3)])
     (use input_ok_split[OF assms(1,2)] input_okD'[OF assms(1)] assms(4,5) in \<open>simp_all add: fm_sum_fmupd\<close>)

text \<open>\<open>reconcile_memberships\<close> drops exactly the participants without a membership.\<close>

definition dropped_participants :: "participant_id list \<Rightarrow> 'i authority_input \<Rightarrow> 'i authority_input" where
  "dropped_participants ps a =
     (let m = fold fmdrop ps (ai_participants a)
      in a\<lparr>ai_participants := m, ai_retained_keys := keys_of m, ai_retained_bytes := load_of m\<rparr>)"

lemma removed_participants_iff:
  "p \<in> set (removed_participants a s) \<longleftrightarrow> fmlookup (ai_participants a) p \<noteq> None \<and> membership_state s p = None"
  by (auto simp: removed_participants_def fmlookup_dom_iff)

lemma removed_participants_sorted:
  "sorted_wrt (\<lambda>p q. participant_get p < participant_get q) (removed_participants a s)"
  unfolding removed_participants_def by (rule sort_participants_sorted)

lemma removed_participants_distinct: "distinct (removed_participants a s)"
proof -
  have "sorted_wrt (<) (map participant_get (removed_participants a s))"
    unfolding sorted_wrt_map by (rule removed_participants_sorted)
  then show ?thesis unfolding strict_sorted_iff by (simp add: distinct_map)
qed

lemma reconcile_memberships_eq:
  assumes ok: "input_ok a"
  shows "reconcile_memberships a s = Some
     (if s_id s \<noteq> ai_session a then (Err SessionMismatch, a)
      else (Ok (removed_participants a s), dropped_participants (removed_participants a s) a))"
proof -
  let ?r = "removed_participants a s" and ?m = "ai_participants a"
  have dom: "\<forall>p \<in> set ?r. fmlookup ?m p \<noteq> None" by (simp add: removed_participants_iff)
  note sums = fm_sum_fold_fmdrop[OF removed_participants_distinct dom]
  let ?loads = "map (\<lambda>p. the (participant_load a p)) ?r"
  have loads: "exec_map (participant_load a) ?r = Some ?loads"
    by (rule exec_map_total) (use dom in \<open>simp add: participant_load_def\<close>)
  have the: "the (participant_load a p) = (length (pi_retained (the (fmlookup ?m p))), pi_retained_bytes (the (fmlookup ?m p)))"
    if "p \<in> set ?r" for p using dom that by (auto simp: participant_load_def)
  have fsts: "map fst ?loads = map (\<lambda>p. length (pi_retained (the (fmlookup ?m p)))) ?r"
    and snds: "map snd ?loads = map (\<lambda>p. pi_retained_bytes (the (fmlookup ?m p))) ?r"
    using the by simp_all
  have keys: "ai_retained_keys a = sum_list (map fst ?loads) + keys_of (fold fmdrop ?r ?m)"
    and bytes: "ai_retained_bytes a = sum_list (map snd ?loads) + load_of (fold fmdrop ?r ?m)"
    using ok sums[of "\<lambda>_ st. length (pi_retained st)"] sums[of "\<lambda>_ st. pi_retained_bytes st"]
    unfolding fsts snds by (simp_all add: input_ok_def)
  have "count_removed ?loads 0 0 = Some (sum_list (map fst ?loads), sum_list (map snd ?loads))"
    using count_removed_eq[of 0 ?loads 0] keys bytes input_okD'[OF ok] by simp
  then show ?thesis using keys bytes loads
    by (simp add: reconcile_memberships_def dropped_participants_def Let_def del: map_map)
qed

lemma fm_sum_fold_le: "fm_sum f (fold fmdrop ks m) \<le> fm_sum f m"
proof (induction ks arbitrary: m)
  case (Cons k ks)
  show ?case using Cons[of "fmdrop k m"] fm_sum_drop_le[of f k m] by simp
qed simp

lemma dropped_participants_ok:
  assumes "input_ok a"
  shows "input_ok (dropped_participants ps a)"
proof -
  have "keys_of (fold fmdrop ps (ai_participants a)) \<le> ai_retained_keys a"
    "load_of (fold fmdrop ps (ai_participants a)) \<le> ai_retained_bytes a"
    using assms fm_sum_fold_le by (auto simp: input_ok_def)
  then show ?thesis using assms input_okD'[OF assms]
    by (auto simp: input_ok_def dropped_participants_def Let_def fmlookup_fold_fmdrop split: if_splits)
qed

text \<open>An accepted input is one more retained entry.\<close>

definition with_input ::
  "simulation_tick \<Rightarrow> 'i \<Rightarrow> nat \<Rightarrow> 'i participant_input \<Rightarrow> 'i participant_input" where
  "with_input t i b st =
     st\<lparr>pi_retained := om_insert t \<lparr>ri_value = i, ri_bytes = b\<rparr> (pi_retained st),
        pi_retained_bytes := pi_retained_bytes st + b\<rparr>"

definition input_room :: "'i authority_input \<Rightarrow> 'i participant_input \<Rightarrow> nat \<Rightarrow> bool" where
  "input_room a st b \<longleftrightarrow> b \<le> il_max_batch_bytes (pi_limits st)
     \<and> length (pi_retained st) < il_max_retained_keys (pi_limits st)
     \<and> ai_retained_keys a < ia_max_retained_keys (ai_limits a)
     \<and> pi_retained_bytes st + b \<le> il_max_retained_bytes (pi_limits st)
     \<and> ai_retained_bytes a + b \<le> ia_max_retained_bytes (ai_limits a)
     \<and> pi_retained_bytes st + b \<le> usize_max \<and> ai_retained_keys a + 1 \<le> usize_max
     \<and> ai_retained_bytes a + b \<le> usize_max"

lemma input_fits_eq:
  "input_fits a st b =
     (if input_room a st b then Some (pi_retained_bytes st + b, ai_retained_keys a + 1, ai_retained_bytes a + b)
      else None)"
  by (auto simp: input_fits_def input_room_def checked_add_def)

lemma with_input_ok:
  fixes st :: "'i participant_input"
  assumes st: "participant_input_ok st" and fresh: "map_of (pi_retained st) t = None"
    and room: "input_room a st b"
    and window: "iw_minimum (pi_window st) \<le> t" "t \<le> iw_maximum (pi_window st)"
  shows "participant_input_ok (with_input t i b st)"
proof -
  have len: "length (om_insert t r (pi_retained st)) = Suc (length (pi_retained st))" for r :: "'i retained_input"
    using fresh by (rule om_length_insert_fresh)
  have bytes: "input_bytes (om_insert t r (pi_retained st)) = ri_bytes r + input_bytes (pi_retained st)"
    for r :: "'i retained_input" using fresh by (rule om_sum_insert_fresh)
  have entries: "e = (t, \<lparr>ri_value = i, ri_bytes = b\<rparr>) \<or> e \<in> set (pi_retained st)"
    if "e \<in> set (om_insert t \<lparr>ri_value = i, ri_bytes = b\<rparr> (pi_retained st))" for e
    using set_om_insert that by fastforce
  show ?thesis using st room window entries
    by (fastforce simp: participant_input_ok_def with_input_def input_room_def len bytes om_wf_insert)
qed

text \<open>\<open>submit\<close> with its answer first: the classification, in the order the code checks.\<close>

definition classify_input ::
  "'i authority_input \<Rightarrow> session \<Rightarrow> participant_id \<Rightarrow> connection_handle \<Rightarrow> simulation_tick \<Rightarrow> 'i \<Rightarrow> nat \<Rightarrow>
     (authority_input_outcome, authority_input_error) result" where
  "classify_input a s p c t i b =
     (if s_id s \<noteq> ai_session a then Err SessionMismatch
      else if \<not> is_authorized s p c then Ok UnauthorizedInput
      else case fmlookup (ai_participants a) p of
        None \<Rightarrow> Err ParticipantNotConfigured
      | Some st \<Rightarrow>
        if t < iw_minimum (pi_window st) then Ok StaleInput
        else case map_of (pi_retained st) t of
          Some r \<Rightarrow> Ok (if ri_value r = i then DuplicateInput else ConflictingInput)
        | None \<Rightarrow>
          if iw_maximum (pi_window st) < t then Ok FutureInputOutsideWindow
          else if input_room a st b then Ok InputAccepted
          else Ok InputResourceRejected)"

definition accept_input ::
  "participant_id \<Rightarrow> simulation_tick \<Rightarrow> 'i \<Rightarrow> nat \<Rightarrow> 'i authority_input \<Rightarrow> 'i authority_input" where
  "accept_input p t i b a =
     a\<lparr>ai_participants := fmupd p (with_input t i b (the (fmlookup (ai_participants a) p))) (ai_participants a),
       ai_retained_keys := ai_retained_keys a + 1, ai_retained_bytes := ai_retained_bytes a + b\<rparr>"

lemma submit_input_eq:
  "submit_input a s p c t i b = Some
     (classify_input a s p c t i b,
      if classify_input a s p c t i b = Ok InputAccepted then accept_input p t i b a else a)"
  by (simp add: submit_input_def classify_input_def input_fits_eq accept_input_def with_input_def
      split: option.splits)

lemma classify_acceptedE:
  assumes "classify_input a s p c t i b = Ok InputAccepted"
  obtains st where "s_id s = ai_session a" "is_authorized s p c" "fmlookup (ai_participants a) p = Some st"
    "iw_minimum (pi_window st) \<le> t" "t \<le> iw_maximum (pi_window st)" "map_of (pi_retained st) t = None"
    "input_room a st b"
  using assms by (auto simp: classify_input_def linorder_not_less split: if_splits option.splits)

lemma accept_input_ok:
  assumes ok: "input_ok a" and acc: "classify_input a s p c t i b = Ok InputAccepted"
  shows "input_ok (accept_input p t i b a)"
proof -
  obtain st where st: "fmlookup (ai_participants a) p = Some st" "iw_minimum (pi_window st) \<le> t"
    "t \<le> iw_maximum (pi_window st)" "map_of (pi_retained st) t = None" and room: "input_room a st b"
    using acc by (rule classify_acceptedE)
  have st': "participant_input_ok (with_input t i b st)"
    by (rule with_input_ok[OF input_okD[OF ok st(1)] st(4) room st(2,3)])
  have len: "length (pi_retained (with_input t i b st)) = Suc (length (pi_retained st))"
    using st(4) by (simp add: with_input_def om_length_insert_fresh)
  show ?thesis unfolding accept_input_def st(1) option.sel
    by (rule input_ok_update[OF ok st'])
       (use room input_ok_split[OF ok st(1)] len in \<open>simp_all add: input_room_def with_input_def\<close>)
qed

section \<open>The buffer as a machine\<close>

datatype 'i input_call =
    InputAdd session participant_id input_window authority_input_limits
  | InputAdvance participant_id input_window
  | InputReconcile session
  | InputSubmit session participant_id connection_handle simulation_tick 'i nat

fun input_step :: "'i authority_input \<Rightarrow> 'i input_call \<Rightarrow> 'i authority_input exec" where
  "input_step a (InputAdd s p w l) = map_option snd (add_participant a s p w l)"
| "input_step a (InputAdvance p w) = map_option snd (advance_window a p w)"
| "input_step a (InputReconcile s) = map_option snd (reconcile_memberships a s)"
| "input_step a (InputSubmit s p c t i b) = map_option snd (submit_input a s p c t i b)"

text \<open>A window is a value of \<open>InputWindow\<close>: its constructor put the maximum after the minimum.\<close>

fun input_call_ok :: "'i input_call \<Rightarrow> bool" where
  "input_call_ok (InputAdd _ _ w _) = (iw_minimum w \<le> iw_maximum w)"
| "input_call_ok (InputAdvance _ w) = (iw_minimum w \<le> iw_maximum w)"
| "input_call_ok _ = True"

text \<open>A call after which the buffer of participant \<open>p\<close> still exists.\<close>

fun keeps_participant :: "participant_id \<Rightarrow> 'i input_call \<Rightarrow> bool" where
  "keeps_participant p (InputReconcile s) = (membership_state s p \<noteq> None)"
| "keeps_participant p x = input_call_ok x"

lemma advanced_put_ok:
  assumes ok: "input_ok a" and st: "fmlookup (ai_participants a) p = Some st"
    and w: "window_ok (pi_limits st) w" "iw_maximum (pi_window st) \<le> iw_maximum w"
  shows "input_ok (put_participant p (advanced st w) a)"
  by (rule put_participant_ok[OF ok st advanced_ok[OF input_okD[OF ok st] w]])
     (use input_split[of "pi_retained st" "iw_minimum w"] input_okD[OF ok st]
      in \<open>simp_all add: advanced_def participant_input_ok_def\<close>)

lemma input_step_ok:
  assumes "input_ok a" "input_call_ok x"
  shows "\<exists>a'. input_step a x = Some a' \<and> input_ok a'"
proof (cases x)
  case (InputAdd s p w l)
  then show ?thesis using assms by (simp add: add_participant_eq add_participant_ok)
next
  case (InputAdvance p w)
  then show ?thesis using assms
    by (simp add: advance_window_eq advanced_put_ok linorder_not_less split: option.split)
next
  case (InputReconcile s)
  then show ?thesis using assms by (simp add: reconcile_memberships_eq dropped_participants_ok)
next
  case (InputSubmit s p c t i b)
  then show ?thesis using assms accept_input_ok[OF assms(1)] by (simp add: submit_input_eq)
qed

interpretation input_machine: guarded_machine input_step input_ok input_call_ok
  by unfold_locales (rule input_step_ok)

text \<open>What no call can undo that keeps the participant.\<close>

definition retained_input_at ::
  "'i authority_input \<Rightarrow> participant_id \<Rightarrow> simulation_tick \<Rightarrow> 'i retained_input option" where
  "retained_input_at a p t = Option.bind (fmlookup (ai_participants a) p) (\<lambda>st. map_of (pi_retained st) t)"

definition participant_below :: "'i participant_input \<Rightarrow> 'i participant_input \<Rightarrow> bool" where
  "participant_below x y \<longleftrightarrow> pi_limits y = pi_limits x
     \<and> iw_minimum (pi_window x) \<le> iw_minimum (pi_window y)
     \<and> iw_maximum (pi_window x) \<le> iw_maximum (pi_window y)
     \<and> (\<forall>t r. map_of (pi_retained x) t = Some r \<longrightarrow> iw_minimum (pi_window y) \<le> t \<longrightarrow>
          map_of (pi_retained y) t = Some r)"

definition input_below :: "participant_id \<Rightarrow> 'i authority_input \<Rightarrow> 'i authority_input \<Rightarrow> bool" where
  "input_below p a b \<longleftrightarrow> ai_session b = ai_session a \<and> ai_limits b = ai_limits a
     \<and> (\<forall>x. fmlookup (ai_participants a) p = Some x \<longrightarrow>
          (\<exists>y. fmlookup (ai_participants b) p = Some y \<and> participant_below x y))"

lemma participant_below_refl [simp]: "participant_below x x"
  by (simp add: participant_below_def)

lemma participant_below_trans: "participant_below x y \<Longrightarrow> participant_below y z \<Longrightarrow> participant_below x z"
  unfolding participant_below_def by (metis order_trans)

lemma input_below_refl [simp]: "input_below p a a"
  by (simp add: input_below_def)

lemma input_below_trans: "input_below p a b \<Longrightarrow> input_below p b c \<Longrightarrow> input_below p a c"
  unfolding input_below_def by (metis participant_below_trans)

lemma input_below_put:
  assumes "fmlookup (ai_participants a) p = Some st" "participant_below st st'"
  shows "input_below q a (a\<lparr>ai_participants := fmupd p st' (ai_participants a), ai_retained_keys := k, ai_retained_bytes := b\<rparr>)"
  using assms by (cases "p = q") (simp_all add: input_below_def)

lemma advanced_below:
  assumes "iw_minimum (pi_window st) \<le> iw_minimum w" "iw_maximum (pi_window st) \<le> iw_maximum w"
  shows "participant_below st (advanced st w)"
  using assms by (simp add: participant_below_def advanced_def map_of_filter_keys)

lemma with_input_below:
  assumes "om_wf (pi_retained st)" "map_of (pi_retained st) t = None"
  shows "participant_below st (with_input t i b st)"
  using assms by (auto simp: participant_below_def with_input_def map_of_om_insert)

lemma input_step_below:
  assumes ok: "input_ok a" and x: "keeps_participant q x" and step: "input_step a x = Some a'"
  shows "input_below q a a'"
proof (cases x)
  case (InputAdd s p w l)
  then have w: "iw_minimum w \<le> iw_maximum w" using x by simp
  show ?thesis using step InputAdd
    by (auto simp: add_participant_eq[OF w] input_below_def split: if_splits)
next
  case (InputAdvance p w)
  then have w: "iw_minimum w \<le> iw_maximum w" using x by simp
  show ?thesis using step InputAdvance
    by (auto simp: advance_window_eq[OF ok w] put_participant_def Let_def linorder_not_less
        split: option.splits if_splits intro!: input_below_put advanced_below)
next
  case (InputReconcile s)
  then have "membership_state s q \<noteq> None" using x by simp
  then have "fmlookup (ai_participants (dropped_participants (removed_participants a s) a)) q
      = fmlookup (ai_participants a) q"
    by (auto simp: dropped_participants_def Let_def fmlookup_fold_fmdrop removed_participants_iff)
  then show ?thesis using step InputReconcile
    by (auto simp: reconcile_memberships_eq[OF ok] input_below_def dropped_participants_def Let_def split: if_splits)
next
  case (InputSubmit s p c t i b)
  show ?thesis
  proof (cases "classify_input a s p c t i b = Ok InputAccepted")
    case True
    then obtain st where st: "fmlookup (ai_participants a) p = Some st" "map_of (pi_retained st) t = None"
      by (rule classify_acceptedE)
    have "om_wf (pi_retained st)" using input_okD[OF ok st(1)] by (simp add: participant_input_ok_def)
    then have "participant_below st (with_input t i b st)" using st(2) by (rule with_input_below)
    then show ?thesis using step InputSubmit True st
      by (auto simp: submit_input_eq accept_input_def intro!: input_below_put)
  next
    case False
    then show ?thesis using step InputSubmit by (simp add: submit_input_eq)
  qed
qed

interpretation input_growth: monotone_machine input_step input_ok "keeps_participant p" "input_below p" for p
proof
  fix a :: "'a authority_input" and x :: "'a input_call"
  assume "input_ok a" "keeps_participant p x"
  moreover from this have "input_call_ok x" by (cases x) auto
  ultimately show "\<exists>a'. input_step a x = Some a' \<and> input_ok a'" using input_step_ok by blast
qed (use input_below_trans input_step_below in auto)

end
