(* ===== verification/Replication_Types.thy ===== *)
theory Replication_Types
  imports Ordered_Map Identity
begin

text \<open>
  \<open>crates/runen-net/src/replication/model.rs\<close>: lineage keys, cursors, recovery generations,
  accounted images, limits and snapshots. The host's state \<open>'s\<close> and delta \<open>'d\<close> are type parameters,
  as in the source.
\<close>

record lineage_key =
  lk_session :: session_id
  lk_participant :: participant_id

datatype replication_cursor = ReplicationCursor (cursor_get: u64)

instantiation replication_cursor :: linorder
begin

definition less_eq_replication_cursor :: "replication_cursor \<Rightarrow> replication_cursor \<Rightarrow> bool" where
  "less_eq_replication_cursor a b \<longleftrightarrow> cursor_get a \<le> cursor_get b"

definition less_replication_cursor :: "replication_cursor \<Rightarrow> replication_cursor \<Rightarrow> bool" where
  "less_replication_cursor a b \<longleftrightarrow> cursor_get a < cursor_get b"

instance
  by standard (auto simp: less_eq_replication_cursor_def less_replication_cursor_def
      intro: replication_cursor.expand)

end

lemmas cursor_order_defs = less_eq_replication_cursor_def less_replication_cursor_def

datatype recovery_generation = RecoveryGeneration (generation_get: u64)

definition generation_checked_next :: "recovery_generation \<Rightarrow> recovery_generation option" where
  "generation_checked_next g = map_option RecoveryGeneration (u64_checked_add (generation_get g) 1)"

record 's accounted_state =
  ac_state :: 's
  ac_bytes :: nat

record retention_limits =
  rl_max_state_image_bytes :: nat
  rl_max_retained_images :: nat
  rl_max_retained_state_bytes :: nat
  rl_max_candidate_bytes :: nat
  rl_max_emission_evidence :: nat

datatype replication_limit_error = StateImageExceedsRetainedBudget | StateImageExceedsCandidateBudget

definition retention_limits_new ::
  "nat \<Rightarrow> nat \<Rightarrow> nat \<Rightarrow> nat \<Rightarrow> nat \<Rightarrow> (retention_limits, replication_limit_error) result" where
  "retention_limits_new img images bytes candidate evidence =
     (if bytes < img then Err StateImageExceedsRetainedBudget
      else if candidate < img then Err StateImageExceedsCandidateBudget
      else Ok \<lparr>rl_max_state_image_bytes = img, rl_max_retained_images = images,
               rl_max_retained_state_bytes = bytes, rl_max_candidate_bytes = candidate,
               rl_max_emission_evidence = evidence\<rparr>)"

text \<open>What a value of the type satisfies: it came from the constructor, its parts are \<open>NonZeroUsize\<close>.\<close>

definition retention_ok :: "retention_limits \<Rightarrow> bool" where
  "retention_ok l \<longleftrightarrow> 0 < rl_max_state_image_bytes l \<and> 0 < rl_max_retained_images l
     \<and> 0 < rl_max_emission_evidence l
     \<and> rl_max_state_image_bytes l \<le> rl_max_retained_state_bytes l
     \<and> rl_max_state_image_bytes l \<le> rl_max_candidate_bytes l
     \<and> rl_max_retained_images l \<le> usize_max \<and> rl_max_retained_state_bytes l \<le> usize_max
     \<and> rl_max_candidate_bytes l \<le> usize_max \<and> rl_max_emission_evidence l \<le> usize_max"

record client_limits =
  cl_max_lineages :: nat
  cl_max_retained_images :: nat
  cl_max_retained_state_bytes :: nat

record authority_limits =
  al_max_lineages :: nat
  al_max_state_bytes :: nat
  al_max_retained_images :: nat
  al_max_retained_state_bytes :: nat
  al_max_emission_evidence :: nat

record 's full_snapshot =
  fs_target_cursor :: replication_cursor
  fs_target_tick :: simulation_tick
  fs_image :: "'s accounted_state"

record 'd delta_snapshot =
  ds_base_cursor :: replication_cursor
  ds_target_cursor :: replication_cursor
  ds_target_tick :: simulation_tick
  ds_delta :: 'd

record 's retained_state =
  rt_tick :: simulation_tick
  rt_image :: "'s accounted_state"

type_synonym 's retained_map = "(replication_cursor \<times> 's retained_state) list"

abbreviation retained_bytes_of :: "'s retained_map \<Rightarrow> nat" where
  "retained_bytes_of m \<equiv> om_sum (\<lambda>r. ac_bytes (rt_image r)) m"

text \<open>\<open>values().try_fold(0, checked_add)\<close>: the order of the values does not matter.\<close>

definition checked_total :: "nat \<Rightarrow> nat option" where
  "checked_total n = (if n \<le> usize_max then Some n else None)"

lemma retention_limits_new_ok:
  "retention_limits_new a b c d e = Ok l \<Longrightarrow> 0 < a \<Longrightarrow> 0 < b \<Longrightarrow> 0 < e \<Longrightarrow>
     b \<le> usize_max \<Longrightarrow> c \<le> usize_max \<Longrightarrow> d \<le> usize_max \<Longrightarrow> e \<le> usize_max \<Longrightarrow> retention_ok l"
  by (auto simp: retention_limits_new_def retention_ok_def split: if_splits)

lemma checked_total_Some: "checked_total n = Some m \<longleftrightarrow> m = n \<and> n \<le> usize_max"
  by (auto simp: checked_total_def)

lemma generation_next_less:
  "generation_checked_next g = Some g' \<Longrightarrow> generation_get g < generation_get g'"
  using u64_checked_add_less[of "generation_get g" 1] by (auto simp: generation_checked_next_def)

end
