(* ===== verification/Client_Replication.thy ===== *)
theory Client_Replication
  imports Replication_Types
begin

text \<open>
  \<open>crates/runen-net/src/replication/client.rs\<close>: the client's retained images per lineage, the plan
  of a commit, and the set of lineages under aggregate limits. The host's \<open>host_commit\<close> and
  \<open>reconstruct\<close> closures are function arguments. A computation is \<open>None\<close> exactly where the code
  panics (\<open>expect\<close>, \<open>debug_assert\<close>, an underflowing subtraction, an overflowing addition).
\<close>

section \<open>State\<close>

datatype client_recovery_reason =
    InitialBaseline | MissingBaseReason | MalformedDeltaReason | ReconstructionFailureReason
  | DeltaTickRegression | DeltaCommitFailure | ConnectionReplacementReason

datatype client_state = Synchronized | FullSnapshotRequired client_recovery_reason

datatype client_outcome =
    Committed replication_cursor
  | Stale
  | DuplicateCurrent
  | TickRegression
  | MissingBase
  | DeltaBlockedByRecovery
  | MalformedDelta
  | ReconstructionFailure
  | StateResourceFailure

datatype reconstruction_error = Malformed | ReconstructionFailed

datatype client_set_error = LineageAlreadyExists | UnknownLineage | AggregateLineageLimitExceeded

datatype 'e client_apply_error = SetError client_set_error | HostCommitFailure 'e

record commit_plan =
  cp_evict :: "replication_cursor list"
  cp_count :: nat
  cp_bytes :: nat

record 's client_lineage =
  cn_key :: lineage_key
  cn_limits :: retention_limits
  cn_state :: client_state
  cn_current :: "replication_cursor option"
  cn_boundary :: "(replication_cursor \<times> client_recovery_reason) option"
  cn_retained :: "'s retained_map"
  cn_retained_bytes :: nat

definition client_lineage_new :: "lineage_key \<Rightarrow> retention_limits \<Rightarrow> 's client_lineage" where
  "client_lineage_new key limits =
     \<lparr>cn_key = key, cn_limits = limits, cn_state = FullSnapshotRequired InitialBaseline,
      cn_current = None, cn_boundary = None, cn_retained = [], cn_retained_bytes = 0\<rparr>"

section \<open>Reading a lineage\<close>

definition current_tick :: "'s client_lineage \<Rightarrow> simulation_tick option" where
  "current_tick n = Option.bind (cn_current n) (\<lambda>c. map_option rt_tick (map_of (cn_retained n) c))"

definition current_state :: "'s client_lineage \<Rightarrow> 's option" where
  "current_state n =
     Option.bind (cn_current n) (\<lambda>c. map_option (\<lambda>r. ac_state (rt_image r)) (map_of (cn_retained n) c))"

definition retained_state_at :: "'s client_lineage \<Rightarrow> replication_cursor \<Rightarrow> 's option" where
  "retained_state_at n c = map_option (\<lambda>r. ac_state (rt_image r)) (map_of (cn_retained n) c)"

definition classify_cursor :: "'s client_lineage \<Rightarrow> replication_cursor \<Rightarrow> client_outcome option" where
  "classify_cursor n target =
     (case cn_current n of None \<Rightarrow> None
      | Some c \<Rightarrow> if target < c then Some Stale
                  else if target = c then Some DuplicateCurrent else None)"

definition tick_regresses_current :: "'s client_lineage \<Rightarrow> simulation_tick \<Rightarrow> bool" where
  "tick_regresses_current n tick = (case current_tick n of None \<Rightarrow> False | Some c \<Rightarrow> tick < c)"

definition state_image_fits :: "'s client_lineage \<Rightarrow> nat \<Rightarrow> bool" where
  "state_image_fits n bytes \<longleftrightarrow> bytes \<le> rl_max_state_image_bytes (cn_limits n)
     \<and> bytes \<le> rl_max_candidate_bytes (cn_limits n)
     \<and> bytes \<le> rl_max_retained_state_bytes (cn_limits n)"

section \<open>Planning and committing\<close>

text \<open>
  The eviction loop of \<open>plan_commit\<close>, oldest cursor first: \<open>room\<close> is \<open>max_bytes - target_bytes\<close>.
\<close>

fun plan_evictions ::
  "nat \<Rightarrow> nat \<Rightarrow> 's retained_map \<Rightarrow> nat \<Rightarrow> nat \<Rightarrow> (replication_cursor list \<times> nat \<times> nat) exec" where
  "plan_evictions max_count room [] count bytes = Some ([], count, bytes)"
| "plan_evictions max_count room ((c, r) # m) count bytes =
     (if count < max_count \<and> bytes \<le> room then Some ([], count, bytes)
      else do {
        count' \<leftarrow> checked_sub count 1;
        bytes' \<leftarrow> checked_sub bytes (ac_bytes (rt_image r));
        (evict, n, b) \<leftarrow> plan_evictions max_count room m count' bytes';
        Some (c # evict, n, b) })"

definition plan_commit :: "'s client_lineage \<Rightarrow> nat \<Rightarrow> commit_plan option exec" where
  "plan_commit n target_bytes =
     (if \<not> state_image_fits n target_bytes then Some None
      else do {
        let max_count = rl_max_retained_images (cn_limits n);
        room \<leftarrow> checked_sub (rl_max_retained_state_bytes (cn_limits n)) target_bytes;
        (evict, count, bytes) \<leftarrow>
          plan_evictions max_count room (cn_retained n) (length (cn_retained n)) (cn_retained_bytes n);
        if max_count \<le> count \<or> room < bytes then Some None
        else do {
          c \<leftarrow> checked_add count 1;
          b \<leftarrow> checked_add bytes target_bytes;
          Some (Some \<lparr>cp_evict = evict, cp_count = c, cp_bytes = b\<rparr>) } })"

fun evict_planned ::
  "replication_cursor list \<Rightarrow> 's retained_map \<Rightarrow> nat \<Rightarrow> ('s retained_map \<times> nat) exec" where
  "evict_planned [] m bytes = Some (m, bytes)"
| "evict_planned (c # cs) m bytes = do {
     r \<leftarrow> map_of m c;
     bytes' \<leftarrow> checked_sub bytes (ac_bytes (rt_image r));
     evict_planned cs (om_remove c m) bytes' }"

definition commit_with_plan ::
  "'s client_lineage \<Rightarrow> replication_cursor \<Rightarrow> simulation_tick \<Rightarrow> 's accounted_state \<Rightarrow> commit_plan \<Rightarrow>
     's client_lineage exec" where
  "commit_with_plan n cursor tick img plan = do {
     (m, bytes) \<leftarrow> evict_planned (cp_evict plan) (cn_retained n) (cn_retained_bytes n);
     bytes' \<leftarrow> checked_add bytes (ac_bytes img);
     if map_of m cursor \<noteq> None then None
     else do {
       let m' = om_insert cursor \<lparr>rt_tick = tick, rt_image = img\<rparr> m;
       if length m' \<noteq> cp_count plan \<or> bytes' \<noteq> cp_bytes plan then None
       else Some (n\<lparr>cn_retained := m', cn_retained_bytes := bytes', cn_current := Some cursor,
                    cn_state := Synchronized\<rparr>) } }"

definition lineage_enter_recovery ::
  "client_recovery_reason \<Rightarrow> 's client_lineage \<Rightarrow> 's client_lineage" where
  "lineage_enter_recovery reason n =
     n\<lparr>cn_boundary :=
         (case cn_current n of None \<Rightarrow> cn_boundary n
          | Some c \<Rightarrow> (case cn_boundary n of
              None \<Rightarrow> Some (c, reason)
            | Some (recorded, _) \<Rightarrow> if recorded \<noteq> c then Some (c, reason) else cn_boundary n)),
       cn_state := FullSnapshotRequired reason\<rparr>"

definition lineage_evict_historical ::
  "'s client_lineage \<Rightarrow> replication_cursor \<Rightarrow> (bool \<times> 's client_lineage) exec" where
  "lineage_evict_historical n cursor =
     (if cn_current n = Some cursor then Some (False, n)
      else case map_of (cn_retained n) cursor of
        None \<Rightarrow> Some (False, n)
      | Some r \<Rightarrow> do {
          bytes \<leftarrow> checked_sub (cn_retained_bytes n) (ac_bytes (rt_image r));
          Some (True, n\<lparr>cn_retained := om_remove cursor (cn_retained n), cn_retained_bytes := bytes\<rparr>) })"

section \<open>The set of lineages\<close>

record 's client_set =
  cs_limits :: client_limits
  cs_lineages :: "(lineage_key, 's client_lineage) fmap"

definition client_set_new :: "client_limits \<Rightarrow> 's client_set" where
  "client_set_new l = \<lparr>cs_limits = l, cs_lineages = fmempty\<rparr>"

definition client_add_lineage ::
  "'s client_set \<Rightarrow> lineage_key \<Rightarrow> retention_limits \<Rightarrow>
     (unit, client_set_error) result \<times> 's client_set" where
  "client_add_lineage s key retention =
     (if fmlookup (cs_lineages s) key \<noteq> None then (Err LineageAlreadyExists, s)
      else if cl_max_lineages (cs_limits s) \<le> fm_len (cs_lineages s)
      then (Err AggregateLineageLimitExceeded, s)
      else (Ok (), s\<lparr>cs_lineages := fmupd key (client_lineage_new key retention) (cs_lineages s)\<rparr>))"

definition client_remove_lineage :: "'s client_set \<Rightarrow> lineage_key \<Rightarrow> bool \<times> 's client_set" where
  "client_remove_lineage s key =
     (fmlookup (cs_lineages s) key \<noteq> None, s\<lparr>cs_lineages := fmdrop key (cs_lineages s)\<rparr>)"

definition checked_retained_image_count :: "'s client_set \<Rightarrow> nat option" where
  "checked_retained_image_count s =
     checked_total (fm_sum (\<lambda>_ n. length (cn_retained n)) (cs_lineages s))"

definition checked_retained_state_bytes :: "'s client_set \<Rightarrow> nat option" where
  "checked_retained_state_bytes s = checked_total (fm_sum (\<lambda>_ n. cn_retained_bytes n) (cs_lineages s))"

definition client_retained_image_count :: "'s client_set \<Rightarrow> nat" where
  "client_retained_image_count s =
     (case checked_retained_image_count s of None \<Rightarrow> usize_max | Some n \<Rightarrow> n)"

definition client_retained_state_bytes :: "'s client_set \<Rightarrow> nat" where
  "client_retained_state_bytes s =
     (case checked_retained_state_bytes s of None \<Rightarrow> usize_max | Some n \<Rightarrow> n)"

definition aggregate_commit_fits ::
  "'s client_set \<Rightarrow> lineage_key \<Rightarrow> commit_plan \<Rightarrow> nat \<Rightarrow> bool exec" where
  "aggregate_commit_fits s key plan candidate_bytes = do {
     n \<leftarrow> fmlookup (cs_lineages s) key;
     Some (case checked_retained_image_count s of None \<Rightarrow> False
       | Some current_count \<Rightarrow> (case checked_retained_state_bytes s of None \<Rightarrow> False
       | Some current_bytes \<Rightarrow>
         (case Option.bind (checked_sub current_count (length (cn_retained n)))
                 (\<lambda>c. checked_add c (cp_count plan)) of None \<Rightarrow> False
          | Some projected_count \<Rightarrow>
            (case Option.bind (checked_sub current_bytes (cn_retained_bytes n))
                    (\<lambda>b. checked_add b (cp_bytes plan)) of None \<Rightarrow> False
             | Some projected_bytes \<Rightarrow>
               projected_count \<le> cl_max_retained_images (cs_limits s)
               \<and> projected_bytes \<le> cl_max_retained_state_bytes (cs_limits s)
               \<and> (case checked_add current_bytes candidate_bytes of None \<Rightarrow> False
                  | Some b \<Rightarrow> b \<le> cl_max_retained_state_bytes (cs_limits s)))))) }"

definition set_lineage :: "lineage_key \<Rightarrow> 's client_lineage \<Rightarrow> 's client_set \<Rightarrow> 's client_set" where
  "set_lineage key n s = s\<lparr>cs_lineages := fmupd key n (cs_lineages s)\<rparr>"

definition client_enter_recovery ::
  "'s client_set \<Rightarrow> lineage_key \<Rightarrow> client_recovery_reason \<Rightarrow>
     (unit, client_set_error) result \<times> 's client_set" where
  "client_enter_recovery s key reason =
     (case fmlookup (cs_lineages s) key of
        None \<Rightarrow> (Err UnknownLineage, s)
      | Some n \<Rightarrow> (Ok (), set_lineage key (lineage_enter_recovery reason n) s))"

definition require_connection_replacement_full ::
  "'s client_set \<Rightarrow> lineage_key \<Rightarrow> (unit, client_set_error) result \<times> 's client_set" where
  "require_connection_replacement_full s key = client_enter_recovery s key ConnectionReplacementReason"

definition client_evict_historical ::
  "'s client_set \<Rightarrow> lineage_key \<Rightarrow> replication_cursor \<Rightarrow>
     ((bool, client_set_error) result \<times> 's client_set) exec" where
  "client_evict_historical s key cursor =
     (case fmlookup (cs_lineages s) key of
        None \<Rightarrow> Some (Err UnknownLineage, s)
      | Some n \<Rightarrow> do {
          (b, n') \<leftarrow> lineage_evict_historical n cursor;
          Some (Ok b, set_lineage key n' s) })"

type_synonym ('s, 'e) client_op = "((client_outcome, 'e client_apply_error) result \<times> 's client_set) exec"

text \<open>The shared tail of \<open>apply_full\<close> and \<open>apply_delta\<close>: plan, aggregate check, host commit, commit.\<close>

definition commit_candidate ::
  "'s client_set \<Rightarrow> lineage_key \<Rightarrow> 's client_lineage \<Rightarrow> replication_cursor \<Rightarrow> simulation_tick \<Rightarrow>
     's accounted_state \<Rightarrow> ('s \<Rightarrow> (unit, 'e) result) \<Rightarrow> ('s client_lineage \<Rightarrow> 's client_lineage) \<Rightarrow>
     ('s, 'e) client_op" where
  "commit_candidate s key n target tick img host_commit on_host_failure = do {
     plan \<leftarrow> plan_commit n (ac_bytes img);
     (case plan of
        None \<Rightarrow> Some (Ok StateResourceFailure, s)
      | Some plan \<Rightarrow> do {
          fits \<leftarrow> aggregate_commit_fits s key plan (ac_bytes img);
          (if \<not> fits then Some (Ok StateResourceFailure, s)
           else case host_commit (ac_state img) of
             Err e \<Rightarrow> Some (Err (HostCommitFailure e), set_lineage key (on_host_failure n) s)
           | Ok _ \<Rightarrow> do {
               n' \<leftarrow> commit_with_plan n target tick img plan;
               Some (Ok (Committed target), set_lineage key n' s) }) }) }"

definition apply_full ::
  "'s client_set \<Rightarrow> lineage_key \<Rightarrow> 's full_snapshot \<Rightarrow> ('s \<Rightarrow> (unit, 'e) result) \<Rightarrow>
     ('s, 'e) client_op" where
  "apply_full s key snap host_commit =
     (case fmlookup (cs_lineages s) key of
        None \<Rightarrow> Some (Err (SetError UnknownLineage), s)
      | Some n \<Rightarrow> (case classify_cursor n (fs_target_cursor snap) of
          Some outcome \<Rightarrow> Some (Ok outcome, s)
        | None \<Rightarrow>
            if tick_regresses_current n (fs_target_tick snap) then Some (Ok TickRegression, s)
            else commit_candidate s key n (fs_target_cursor snap) (fs_target_tick snap)
                   (fs_image snap) host_commit id))"

definition recover_with ::
  "'s client_set \<Rightarrow> lineage_key \<Rightarrow> client_recovery_reason \<Rightarrow> client_outcome \<Rightarrow> ('s, 'e) client_op" where
  "recover_with s key reason outcome =
     (case client_enter_recovery s key reason of
        (Err e, s') \<Rightarrow> Some (Err (SetError e), s')
      | (Ok _, s') \<Rightarrow> Some (Ok outcome, s'))"

definition apply_delta ::
  "'s client_set \<Rightarrow> lineage_key \<Rightarrow> 'd delta_snapshot \<Rightarrow>
     ('s \<Rightarrow> 'd \<Rightarrow> nat \<Rightarrow> ('s accounted_state, reconstruction_error) result) \<Rightarrow>
     ('s \<Rightarrow> (unit, 'e) result) \<Rightarrow> ('s, 'e) client_op" where
  "apply_delta s key snap reconstruct host_commit =
     (case fmlookup (cs_lineages s) key of
        None \<Rightarrow> Some (Err (SetError UnknownLineage), s)
      | Some n \<Rightarrow> (case classify_cursor n (ds_target_cursor snap) of
          Some outcome \<Rightarrow> Some (Ok outcome, s)
        | None \<Rightarrow>
            if cn_state n \<noteq> Synchronized
            then Some (Ok DeltaBlockedByRecovery, s)
            else if ds_target_cursor snap \<le> ds_base_cursor snap
            then recover_with s key MalformedDeltaReason MalformedDelta
            else if tick_regresses_current n (ds_target_tick snap)
            then recover_with s key DeltaTickRegression TickRegression
            else (case map_of (cn_retained n) (ds_base_cursor snap) of
              None \<Rightarrow> recover_with s key MissingBaseReason MissingBase
            | Some base \<Rightarrow>
                if ds_target_tick snap < rt_tick base
                then recover_with s key DeltaTickRegression TickRegression
                else (case reconstruct (ac_state (rt_image base)) (ds_delta snap)
                              (rl_max_candidate_bytes (cn_limits n)) of
                  Err Malformed \<Rightarrow> recover_with s key MalformedDeltaReason MalformedDelta
                | Err ReconstructionFailed \<Rightarrow>
                    recover_with s key ReconstructionFailureReason ReconstructionFailure
                | Ok candidate \<Rightarrow>
                    commit_candidate s key n (ds_target_cursor snap) (ds_target_tick snap) candidate
                      host_commit (lineage_enter_recovery DeltaCommitFailure)))))"

end
