(* ===== verification/Client_Safety.thy ===== *)
theory Client_Safety
  imports Client_Replication
begin

text \<open>
  The client lineage: what a commit plan evicts, that committing it cannot fail, and the invariant of
  a lineage and of the set under every operation. The newest retained image is always the current
  one, cursors and ticks grow together, and the byte accounts are the sums of the images.
\<close>

section \<open>The plan\<close>

text \<open>\<open>k\<close> is the fewest oldest images whose eviction makes room.\<close>

definition makes_room :: "nat \<Rightarrow> nat \<Rightarrow> 's retained_map \<Rightarrow> nat \<Rightarrow> bool" where
  "makes_room max_count room m k \<longleftrightarrow>
     length m - k < max_count \<and> retained_bytes_of (drop k m) \<le> room"

lemma plan_evictions_eq:
  "\<exists>k \<le> length m. plan_evictions max_count room m (length m) (retained_bytes_of m)
       = Some (map fst (take k m), length m - k, retained_bytes_of (drop k m))
     \<and> (k < length m \<longrightarrow> makes_room max_count room m k)
     \<and> (\<forall>j < k. \<not> makes_room max_count room m j)"
proof (induction m)
  case Nil
  then show ?case by simp
next
  case (Cons e m)
  obtain c r where e: "e = (c, r)" by (cases e)
  show ?case
  proof (cases "makes_room max_count room (e # m) 0")
    case True
    then show ?thesis by (intro exI[of _ 0]) (simp add: makes_room_def e)
  next
    case False
    obtain k where k: "k \<le> length m"
      "plan_evictions max_count room m (length m) (retained_bytes_of m)
         = Some (map fst (take k m), length m - k, retained_bytes_of (drop k m))"
      "k < length m \<longrightarrow> makes_room max_count room m k" "\<forall>j < k. \<not> makes_room max_count room m j"
      using Cons.IH by blast
    have "plan_evictions max_count room (e # m) (length (e # m)) (retained_bytes_of (e # m))
        = Some (map fst (take (Suc k) (e # m)), length (e # m) - Suc k,
            retained_bytes_of (drop (Suc k) (e # m)))"
      using False k(2) by (simp add: e makes_room_def)
    moreover have "makes_room max_count room (e # m) (Suc j) = makes_room max_count room m j" for j
      by (simp add: makes_room_def)
    ultimately show ?thesis
      using k False by (intro exI[of _ "Suc k"]) (auto simp: less_Suc_eq_0_disj)
  qed
qed

lemma evict_planned_eq:
  "om_wf m \<Longrightarrow> evict_planned (map fst (take k m)) m (retained_bytes_of m)
     = Some (drop k m, retained_bytes_of (drop k m))"
proof (induction m arbitrary: k)
  case (Cons e m)
  obtain c r where e: "e = (c, r)" by (cases e)
  show ?case
  proof (cases k)
    case (Suc j)
    then show ?thesis using Cons e om_remove_first[of c r m] by simp
  qed simp
qed simp

section \<open>The invariant of a lineage\<close>

definition newest_current :: "'s retained_map \<Rightarrow> replication_cursor option \<Rightarrow> bool" where
  "newest_current m current =
     (case current of None \<Rightarrow> m = []
      | Some c \<Rightarrow> (\<exists>m' r. m = m' @ [(c, r)] \<and> (\<forall>e \<in> set m'. rt_tick (snd e) \<le> rt_tick r)))"

definition lineage_ok :: "lineage_key \<Rightarrow> 's client_lineage \<Rightarrow> bool" where
  "lineage_ok key n \<longleftrightarrow> cn_key n = key \<and> retention_ok (cn_limits n) \<and> om_wf (cn_retained n)
     \<and> cn_retained_bytes n = retained_bytes_of (cn_retained n)
     \<and> length (cn_retained n) \<le> rl_max_retained_images (cn_limits n)
     \<and> cn_retained_bytes n \<le> rl_max_retained_state_bytes (cn_limits n)
     \<and> (\<forall>e \<in> set (cn_retained n). ac_bytes (rt_image (snd e)) \<le> rl_max_state_image_bytes (cn_limits n))
     \<and> newest_current (cn_retained n) (cn_current n)
     \<and> (cn_state n = Synchronized \<longrightarrow> cn_current n \<noteq> None)
     \<and> (\<forall>b reason. cn_boundary n = Some (b, reason) \<longrightarrow> (\<exists>c. cn_current n = Some c \<and> b \<le> c))"

lemma client_lineage_new_ok: "retention_ok l \<Longrightarrow> lineage_ok key (client_lineage_new key l)"
  by (simp add: lineage_ok_def client_lineage_new_def newest_current_def retention_ok_def)

lemma newest_current_lookup:
  assumes "om_wf m" "newest_current m (Some c)"
  obtains m' r where "m = m' @ [(c, r)]" "map_of m c = Some r"
    "\<forall>e \<in> set m'. fst e < c \<and> rt_tick (snd e) \<le> rt_tick r"
proof -
  obtain m' r where m: "m = m' @ [(c, r)]" "\<forall>e \<in> set m'. rt_tick (snd e) \<le> rt_tick r"
    using assms(2) by (auto simp: newest_current_def)
  have lt: "\<forall>e \<in> set m'. fst e < c" using assms(1) by (simp add: m(1) om_wf_append)
  have "map_of m c = Some r" using om_wf_lookup[OF assms(1)] m(1) by simp
  then show ?thesis using that m lt by blast
qed

lemma classify_cursor_None:
  assumes "lineage_ok key n" "classify_cursor n target = None"
  shows "\<forall>e \<in> set (cn_retained n). fst e < target"
proof (cases "cn_current n")
  case None
  then show ?thesis using assms(1) by (simp add: lineage_ok_def newest_current_def)
next
  case (Some c)
  then have "c < target" using assms(2) by (auto simp: classify_cursor_def split: if_splits)
  have "om_wf (cn_retained n)" "newest_current (cn_retained n) (Some c)"
    using assms(1) Some by (simp_all add: lineage_ok_def)
  then obtain m' r where m: "cn_retained n = m' @ [(c, r)]" "map_of (cn_retained n) c = Some r"
    "\<forall>e \<in> set m'. fst e < c \<and> rt_tick (snd e) \<le> rt_tick r"
    by (rule newest_current_lookup)
  show ?thesis
  proof
    fix e
    assume "e \<in> set (cn_retained n)"
    then have "fst e \<le> c" using m(1,3) by auto
    then show "fst e < target" using \<open>c < target\<close> by simp
  qed
qed

lemma tick_not_regressing:
  assumes "lineage_ok key n" "\<not> tick_regresses_current n tick"
  shows "\<forall>e \<in> set (cn_retained n). rt_tick (snd e) \<le> tick"
proof (cases "cn_current n")
  case None
  then show ?thesis using assms(1) by (simp add: lineage_ok_def newest_current_def)
next
  case (Some c)
  have "om_wf (cn_retained n)" "newest_current (cn_retained n) (Some c)"
    using assms(1) Some by (simp_all add: lineage_ok_def)
  then obtain m' r where "cn_retained n = m' @ [(c, r)]" "map_of (cn_retained n) c = Some r"
    "\<forall>e \<in> set m'. fst e < c \<and> rt_tick (snd e) \<le> rt_tick r"
    by (rule newest_current_lookup)
  then show ?thesis using assms(2) Some
    by (auto simp: tick_regresses_current_def current_tick_def not_less intro: order.trans)
qed

section \<open>Planning and committing\<close>

lemma plan_commit_ok:
  assumes "lineage_ok key n" "state_image_fits n b"
  shows "\<exists>k \<le> length (cn_retained n). plan_commit n b = Some (Some
       \<lparr>cp_evict = map fst (take k (cn_retained n)), cp_count = Suc (length (cn_retained n) - k),
        cp_bytes = retained_bytes_of (drop k (cn_retained n)) + b\<rparr>)
     \<and> makes_room (rl_max_retained_images (cn_limits n)) (rl_max_retained_state_bytes (cn_limits n) - b)
         (cn_retained n) k
     \<and> (\<forall>j < k. \<not> makes_room (rl_max_retained_images (cn_limits n))
         (rl_max_retained_state_bytes (cn_limits n) - b) (cn_retained n) j)"
proof -
  let ?m = "cn_retained n" and ?max = "rl_max_retained_images (cn_limits n)"
    and ?room = "rl_max_retained_state_bytes (cn_limits n) - b"
  have lim: "0 < ?max" "?max \<le> usize_max" "rl_max_retained_state_bytes (cn_limits n) \<le> usize_max"
    and bytes: "cn_retained_bytes n = retained_bytes_of ?m"
    and b: "b \<le> rl_max_retained_state_bytes (cn_limits n)"
    using assms by (auto simp: lineage_ok_def retention_ok_def state_image_fits_def)
  obtain k where k: "k \<le> length ?m"
    "plan_evictions ?max ?room ?m (length ?m) (retained_bytes_of ?m)
       = Some (map fst (take k ?m), length ?m - k, retained_bytes_of (drop k ?m))"
    "k < length ?m \<longrightarrow> makes_room ?max ?room ?m k" "\<forall>j < k. \<not> makes_room ?max ?room ?m j"
    using plan_evictions_eq[of ?m ?max ?room] by blast
  have room: "makes_room ?max ?room ?m k"
  proof (cases "k < length ?m")
    case False
    then show ?thesis using k(1) lim(1) by (simp add: makes_room_def)
  qed (use k(3) in simp)
  then have "length ?m - k < ?max" "retained_bytes_of (drop k ?m) + b \<le> usize_max"
    "retained_bytes_of (drop k ?m) \<le> ?room"
    using b lim(3) by (auto simp: makes_room_def)
  then have "plan_commit n b = Some (Some \<lparr>cp_evict = map fst (take k ?m),
      cp_count = Suc (length ?m - k), cp_bytes = retained_bytes_of (drop k ?m) + b\<rparr>)"
    using assms(2) b k(2) lim(2) by (simp add: plan_commit_def bytes Let_def)
  then show ?thesis using k(1,4) room by blast
qed

text \<open>What a committed lineage looks like.\<close>

definition committed_lineage ::
  "'s client_lineage \<Rightarrow> nat \<Rightarrow> replication_cursor \<Rightarrow> simulation_tick \<Rightarrow> 's accounted_state \<Rightarrow>
     's client_lineage" where
  "committed_lineage n k target tick img = n\<lparr>cn_retained := drop k (cn_retained n)
       @ [(target, \<lparr>rt_tick = tick, rt_image = img\<rparr>)],
     cn_retained_bytes := retained_bytes_of (drop k (cn_retained n)) + ac_bytes img,
     cn_current := Some target, cn_state := Synchronized\<rparr>"

lemma commit_with_plan_eq:
  assumes "lineage_ok key n" "\<forall>e \<in> set (cn_retained n). fst e < target"
    and "k \<le> length (cn_retained n)"
    and "retained_bytes_of (drop k (cn_retained n)) + ac_bytes img \<le> usize_max"
  shows "commit_with_plan n target tick img
       \<lparr>cp_evict = map fst (take k (cn_retained n)), cp_count = Suc (length (cn_retained n) - k),
        cp_bytes = retained_bytes_of (drop k (cn_retained n)) + ac_bytes img\<rparr>
     = Some (committed_lineage n k target tick img)"
proof -
  have wf: "om_wf (cn_retained n)" and bytes: "cn_retained_bytes n = retained_bytes_of (cn_retained n)"
    using assms(1) by (simp_all add: lineage_ok_def)
  have lt: "\<forall>e \<in> set (drop k (cn_retained n)). fst e < target"
    using assms(2) by (auto dest: in_set_dropD)
  then have "map_of (drop k (cn_retained n)) target = None"
    by (auto simp: map_of_None_fst)
  then show ?thesis
    using evict_planned_eq[OF wf, of k] om_insert_last[OF lt] assms(3,4)
    by (simp add: commit_with_plan_def bytes committed_lineage_def)
qed

lemma committed_lineage_ok:
  assumes "lineage_ok key n" "\<forall>e \<in> set (cn_retained n). fst e < target"
    and "\<forall>e \<in> set (cn_retained n). rt_tick (snd e) \<le> tick" "state_image_fits n (ac_bytes img)"
    and "makes_room (rl_max_retained_images (cn_limits n))
      (rl_max_retained_state_bytes (cn_limits n) - ac_bytes img) (cn_retained n) k"
  shows "lineage_ok key (committed_lineage n k target tick img)"
proof -
  let ?m = "drop k (cn_retained n)"
  have sub: "set ?m \<subseteq> set (cn_retained n)" by (rule set_drop_subset)
  have wf: "om_wf (?m @ [(target, \<lparr>rt_tick = tick, rt_image = img\<rparr>)])"
    using assms(1,2) sub by (auto simp: lineage_ok_def om_wf_append om_wf_drop)
  have new: "newest_current (?m @ [(target, \<lparr>rt_tick = tick, rt_image = img\<rparr>)]) (Some target)"
    using assms(3) sub by (auto simp: newest_current_def)
  have bound: "\<exists>c. Some target = Some c \<and> b \<le> c" if bnd: "cn_boundary n = Some (b, reason)" for b reason
  proof -
    obtain c where c: "cn_current n = Some c" "b \<le> c"
      using assms(1) bnd unfolding lineage_ok_def by blast
    then have "c < target"
      using assms(1,2) by (auto simp: lineage_ok_def newest_current_def)
    then show ?thesis using c(2) by auto
  qed
  have sizes: "Suc (length ?m) \<le> rl_max_retained_images (cn_limits n)"
    "retained_bytes_of ?m + ac_bytes img \<le> rl_max_retained_state_bytes (cn_limits n)"
    "ac_bytes img \<le> rl_max_state_image_bytes (cn_limits n)"
    using assms(4,5) by (auto simp: makes_room_def state_image_fits_def)
  show ?thesis
    using assms(1) wf new bound sizes sub
    unfolding lineage_ok_def committed_lineage_def by auto
qed

lemma lineage_enter_recovery_ok: "lineage_ok key n \<Longrightarrow> lineage_ok key (lineage_enter_recovery reason n)"
  by (auto simp: lineage_ok_def lineage_enter_recovery_def split: option.splits if_splits)

lemma lineage_evict_historical_ok:
  assumes "lineage_ok key n"
  shows "\<exists>b n'. lineage_evict_historical n c = Some (b, n') \<and> lineage_ok key n'
     \<and> cn_current n' = cn_current n \<and> length (cn_retained n') \<le> length (cn_retained n)
     \<and> cn_retained_bytes n' \<le> cn_retained_bytes n"
proof (cases "cn_current n = Some c \<or> map_of (cn_retained n) c = None")
  case True
  then show ?thesis using assms by (auto simp: lineage_evict_historical_def)
next
  case False
  then obtain r where r: "map_of (cn_retained n) c = Some r" and nc: "cn_current n \<noteq> Some c" by blast
  have wf: "om_wf (cn_retained n)" and bytes: "cn_retained_bytes n = retained_bytes_of (cn_retained n)"
    using assms by (simp_all add: lineage_ok_def)
  note sum = om_sum_remove[OF wf r, of "\<lambda>r. ac_bytes (rt_image r)"] and len = om_length_remove[OF wf r]
  let ?n' = "n\<lparr>cn_retained := om_remove c (cn_retained n),
      cn_retained_bytes := retained_bytes_of (om_remove c (cn_retained n))\<rparr>"
  have run: "lineage_evict_historical n c = Some (True, ?n')"
    using r nc sum bytes by (simp add: lineage_evict_historical_def)
  have new: "newest_current (om_remove c (cn_retained n)) (cn_current n)"
  proof (cases "cn_current n")
    case None
    then show ?thesis using assms r by (simp add: lineage_ok_def newest_current_def)
  next
    case (Some d)
    then obtain m' r' where "cn_retained n = m' @ [(d, r')]" "\<forall>e \<in> set m'. rt_tick (snd e) \<le> rt_tick r'"
      using assms by (auto simp: lineage_ok_def newest_current_def)
    then show ?thesis using nc Some
      by (auto simp: newest_current_def om_remove_def intro!: exI[of _ "filter (\<lambda>e. fst e \<noteq> c) m'"])
  qed
  have "lineage_ok key ?n'"
    using assms new len sum bytes om_wf_remove[OF wf, of c] by (auto simp: lineage_ok_def)
  then show ?thesis using run len sum bytes by auto
qed

section \<open>The invariant of the set\<close>

definition images_of :: "lineage_key \<Rightarrow> 's client_lineage \<Rightarrow> nat" where
  "images_of _ n = length (cn_retained n)"

definition bytes_of :: "lineage_key \<Rightarrow> 's client_lineage \<Rightarrow> nat" where
  "bytes_of _ n = cn_retained_bytes n"

definition client_ok :: "'s client_set \<Rightarrow> bool" where
  "client_ok s \<longleftrightarrow> (\<forall>k n. fmlookup (cs_lineages s) k = Some n \<longrightarrow> lineage_ok k n)
     \<and> fm_len (cs_lineages s) \<le> cl_max_lineages (cs_limits s)
     \<and> fm_sum images_of (cs_lineages s) \<le> cl_max_retained_images (cs_limits s)
     \<and> fm_sum bytes_of (cs_lineages s) \<le> cl_max_retained_state_bytes (cs_limits s)"

lemma client_set_new_ok: "client_ok (client_set_new l)"
  by (simp add: client_ok_def client_set_new_def)

lemma client_okD:
  assumes "client_ok s"
  shows "fmlookup (cs_lineages s) k = Some n \<Longrightarrow> lineage_ok k n"
    and "fm_len (cs_lineages s) \<le> cl_max_lineages (cs_limits s)"
    and "fm_sum images_of (cs_lineages s) \<le> cl_max_retained_images (cs_limits s)"
    and "fm_sum bytes_of (cs_lineages s) \<le> cl_max_retained_state_bytes (cs_limits s)"
  using assms by (auto simp: client_ok_def)

lemma set_lineage_ok:
  assumes "client_ok s" "fmlookup (cs_lineages s) k = Some n" "lineage_ok k n'"
    and "fm_sum images_of (fmupd k n' (cs_lineages s)) \<le> cl_max_retained_images (cs_limits s)"
    and "fm_sum bytes_of (fmupd k n' (cs_lineages s)) \<le> cl_max_retained_state_bytes (cs_limits s)"
  shows "client_ok (set_lineage k n' s)"
  using assms fm_len_replace[OF assms(2), of n'] by (auto simp: client_ok_def set_lineage_def)

text \<open>A lineage that does not grow keeps the aggregate within its limits.\<close>

lemma set_lineage_shrink:
  assumes "client_ok s" "fmlookup (cs_lineages s) k = Some n" "lineage_ok k n'"
    and "length (cn_retained n') \<le> length (cn_retained n)"
      "cn_retained_bytes n' \<le> cn_retained_bytes n"
  shows "client_ok (set_lineage k n' s)"
proof (rule set_lineage_ok[OF assms(1-3)])
  show "fm_sum images_of (fmupd k n' (cs_lineages s)) \<le> cl_max_retained_images (cs_limits s)"
    using client_okD(3)[OF assms(1)] fm_sum_split[OF assms(2), of images_of] assms(4)
    by (simp add: fm_sum_fmupd images_of_def)
  show "fm_sum bytes_of (fmupd k n' (cs_lineages s)) \<le> cl_max_retained_state_bytes (cs_limits s)"
    using client_okD(4)[OF assms(1)] fm_sum_split[OF assms(2), of bytes_of] assms(5)
    by (simp add: fm_sum_fmupd bytes_of_def)
qed

lemma aggregate_commit_fits_True:
  assumes "fmlookup (cs_lineages s) k = Some n" "aggregate_commit_fits s k plan b = Some True"
    and "length (cn_retained n') = cp_count plan" "cn_retained_bytes n' = cp_bytes plan"
  shows "fm_sum images_of (fmupd k n' (cs_lineages s)) \<le> cl_max_retained_images (cs_limits s)"
    and "fm_sum bytes_of (fmupd k n' (cs_lineages s)) \<le> cl_max_retained_state_bytes (cs_limits s)"
proof -
  have sums: "fm_sum (\<lambda>_ n. length (cn_retained n)) = fm_sum images_of"
    "fm_sum (\<lambda>_ n. cn_retained_bytes n) = fm_sum bytes_of"
    by (simp_all add: images_of_def[abs_def] bytes_of_def[abs_def])
  have "fm_sum images_of (cs_lineages s) - length (cn_retained n) + cp_count plan
      \<le> cl_max_retained_images (cs_limits s)
    \<and> fm_sum bytes_of (cs_lineages s) - cn_retained_bytes n + cp_bytes plan
      \<le> cl_max_retained_state_bytes (cs_limits s)"
    using assms(2) unfolding aggregate_commit_fits_def checked_retained_image_count_def
      checked_retained_state_bytes_def sums assms(1)
    by (auto simp: checked_simps checked_total_Some bind_eq_Some_conv split: option.splits)
  then show "fm_sum images_of (fmupd k n' (cs_lineages s)) \<le> cl_max_retained_images (cs_limits s)"
    and "fm_sum bytes_of (fmupd k n' (cs_lineages s)) \<le> cl_max_retained_state_bytes (cs_limits s)"
    using fm_sum_split[OF assms(1), of images_of] fm_sum_split[OF assms(1), of bytes_of] assms(3,4)
    by (simp_all add: fm_sum_fmupd images_of_def bytes_of_def)
qed

lemma aggregate_commit_fits_total:
  "fmlookup (cs_lineages s) k = Some n \<Longrightarrow> \<exists>b. aggregate_commit_fits s k plan bytes = Some b"
  by (simp add: aggregate_commit_fits_def)

text \<open>
  The tail of both applications: a resource failure changes nothing; a host failure changes only the
  recovery state; a commit installs the image, evicting the fewest oldest ones that make room.
\<close>

definition commit_effect ::
  "'s client_set \<Rightarrow> lineage_key \<Rightarrow> 's client_lineage \<Rightarrow> replication_cursor \<Rightarrow> simulation_tick \<Rightarrow>
     's accounted_state \<Rightarrow> ('s \<Rightarrow> (unit, 'e) result) \<Rightarrow> ('s client_lineage \<Rightarrow> 's client_lineage) \<Rightarrow>
     (client_outcome, 'e client_apply_error) result \<Rightarrow> 's client_set \<Rightarrow> bool" where
  "commit_effect s key n target tick img host on_failure r s' \<longleftrightarrow>
     (r = Ok StateResourceFailure \<and> s' = s)
     \<or> (\<exists>e. host (ac_state img) = Err e \<and> r = Err (HostCommitFailure e)
            \<and> s' = set_lineage key (on_failure n) s)
     \<or> (host (ac_state img) = Ok () \<and> r = Ok (Committed target) \<and> state_image_fits n (ac_bytes img)
        \<and> (\<exists>k \<le> length (cn_retained n). s' = set_lineage key (committed_lineage n k target tick img) s
            \<and> (\<forall>j < k. \<not> makes_room (rl_max_retained_images (cn_limits n))
                (rl_max_retained_state_bytes (cn_limits n) - ac_bytes img) (cn_retained n) j)))"

lemma commit_candidate_ok:
  assumes "client_ok s" "fmlookup (cs_lineages s) key = Some n"
    and "classify_cursor n target = None" "\<not> tick_regresses_current n tick"
    and "\<And>n. lineage_ok key n \<Longrightarrow> lineage_ok key (on_failure n)
      \<and> cn_retained (on_failure n) = cn_retained n \<and> cn_retained_bytes (on_failure n) = cn_retained_bytes n"
  shows "\<exists>r s'. commit_candidate s key n target tick img host on_failure = Some (r, s') \<and> client_ok s'
     \<and> commit_effect s key n target tick img host on_failure r s'"
proof -
  have ok: "lineage_ok key n" by (rule client_okD(1)[OF assms(1,2)])
  note above = classify_cursor_None[OF ok assms(3)] and later = tick_not_regressing[OF ok assms(4)]
  show ?thesis
  proof (cases "state_image_fits n (ac_bytes img)")
    case False
    then show ?thesis using assms(1)
      by (simp add: commit_candidate_def plan_commit_def commit_effect_def)
  next
    case fit: True
    obtain k where k: "k \<le> length (cn_retained n)"
      and plan: "plan_commit n (ac_bytes img) = Some (Some
        \<lparr>cp_evict = map fst (take k (cn_retained n)), cp_count = Suc (length (cn_retained n) - k),
         cp_bytes = retained_bytes_of (drop k (cn_retained n)) + ac_bytes img\<rparr>)"
      and room: "makes_room (rl_max_retained_images (cn_limits n))
         (rl_max_retained_state_bytes (cn_limits n) - ac_bytes img) (cn_retained n) k"
      and least: "\<forall>j < k. \<not> makes_room (rl_max_retained_images (cn_limits n))
         (rl_max_retained_state_bytes (cn_limits n) - ac_bytes img) (cn_retained n) j"
      using plan_commit_ok[OF ok fit] by blast
    let ?plan = "\<lparr>cp_evict = map fst (take k (cn_retained n)), cp_count = Suc (length (cn_retained n) - k),
         cp_bytes = retained_bytes_of (drop k (cn_retained n)) + ac_bytes img\<rparr>"
    let ?n' = "committed_lineage n k target tick img"
    obtain fits where fits: "aggregate_commit_fits s key ?plan (ac_bytes img) = Some fits"
      using aggregate_commit_fits_total[OF assms(2)] by blast
    have "retained_bytes_of (drop k (cn_retained n)) + ac_bytes img \<le> usize_max"
      using room fit ok by (auto simp: makes_room_def state_image_fits_def lineage_ok_def retention_ok_def)
    then have commit: "commit_with_plan n target tick img ?plan = Some ?n'"
      by (rule commit_with_plan_eq[OF ok above k])
    have good: "lineage_ok key ?n'" by (rule committed_lineage_ok[OF ok above later fit room])
    consider (refused) "\<not> fits" | (host) e where "fits" "host (ac_state img) = Err e"
      | (commit) "fits" "host (ac_state img) = Ok ()"
      by (cases fits; cases "host (ac_state img)") auto
    then show ?thesis
    proof cases
      case refused
      then show ?thesis using assms(1) plan fits by (simp add: commit_candidate_def commit_effect_def)
    next
      case host
      have "client_ok (set_lineage key (on_failure n) s)"
        using assms(5)[OF ok] by (intro set_lineage_shrink[OF assms(1,2)]) auto
      then show ?thesis using host plan fits by (simp add: commit_candidate_def commit_effect_def)
    next
      case commit
      have "client_ok (set_lineage key ?n' s)"
        by (rule set_lineage_ok[OF assms(1,2) good])
          (rule aggregate_commit_fits_True[OF assms(2)], use fits commit(1) in simp,
            simp_all add: committed_lineage_def Suc_diff_le)+
      then show ?thesis
        using commit plan fits \<open>commit_with_plan n target tick img ?plan = Some ?n'\<close> fit k least
        by (auto simp: commit_candidate_def commit_effect_def)
    qed
  qed
qed

section \<open>The operations\<close>

lemma set_lineage_same: "fmlookup (cs_lineages s) k = Some n \<Longrightarrow> set_lineage k n s = s"
proof -
  assume "fmlookup (cs_lineages s) k = Some n"
  then have "fmupd k n (cs_lineages s) = cs_lineages s" by (auto intro!: fmap_ext)
  then show ?thesis by (simp add: set_lineage_def)
qed

text \<open>How a lineage may move while it exists: its cursor and its tick never go back.\<close>

definition at_least :: "'a::linorder option \<Rightarrow> 'a option \<Rightarrow> bool" where
  "at_least a b \<longleftrightarrow> (case a of None \<Rightarrow> True | Some x \<Rightarrow> (case b of None \<Rightarrow> False | Some y \<Rightarrow> x \<le> y))"

lemma at_least_refl [simp]: "at_least a a"
  by (simp add: at_least_def split: option.splits)

lemma at_least_trans: "at_least a b \<Longrightarrow> at_least b c \<Longrightarrow> at_least a c"
  by (auto simp: at_least_def split: option.splits)

definition lineage_below :: "'s client_lineage \<Rightarrow> 's client_lineage \<Rightarrow> bool" where
  "lineage_below n n' \<longleftrightarrow> at_least (cn_current n) (cn_current n') \<and> at_least (current_tick n) (current_tick n')"

definition client_below :: "'s client_set \<Rightarrow> 's client_set \<Rightarrow> bool" where
  "client_below s s' \<longleftrightarrow> (\<forall>k n. fmlookup (cs_lineages s) k = Some n \<longrightarrow>
     (\<exists>n'. fmlookup (cs_lineages s') k = Some n' \<and> lineage_below n n'))"

lemma client_below_refl [simp]: "client_below s s"
  by (simp add: client_below_def lineage_below_def)

lemma client_below_set:
  assumes "fmlookup (cs_lineages s) k = Some n" "lineage_below n n'"
  shows "client_below s (set_lineage k n' s)"
  using assms by (auto simp: client_below_def set_lineage_def lineage_below_def)

lemma lineage_below_recovery: "lineage_below n (lineage_enter_recovery reason n)"
  by (simp add: lineage_below_def lineage_enter_recovery_def current_tick_def)

lemma lineage_below_committed:
  assumes "lineage_ok key n" "classify_cursor n target = None" "\<not> tick_regresses_current n tick"
  shows "lineage_below n (committed_lineage n k target tick img)"
proof -
  have "at_least (cn_current n) (Some target)"
    using assms(2) by (auto simp: at_least_def classify_cursor_def split: option.splits if_splits)
  moreover have "\<forall>e \<in> set (drop k (cn_retained n)). fst e < target"
    using classify_cursor_None[OF assms(1,2)] by (auto dest: in_set_dropD)
  then have "map_of (drop k (cn_retained n)) target = None" by (auto simp: map_of_None_fst)
  then have "current_tick (committed_lineage n k target tick img) = Some tick"
    by (simp add: current_tick_def committed_lineage_def map_add_def)
  moreover have "at_least (current_tick n) (Some tick)"
    using assms(3) by (auto simp: at_least_def tick_regresses_current_def split: option.splits)
  ultimately show ?thesis by (simp add: lineage_below_def committed_lineage_def)
qed

lemma commit_candidate_below:
  assumes "client_ok s" "fmlookup (cs_lineages s) key = Some n"
    and "classify_cursor n target = None" "\<not> tick_regresses_current n tick"
    and "commit_effect s key n target tick img host on_failure r s'" "lineage_below n (on_failure n)"
  shows "client_below s s'"
  using assms(5) client_below_set[OF assms(2,6)]
    client_below_set[OF assms(2) lineage_below_committed[OF client_okD(1)[OF assms(1,2)] assms(3,4)]]
  by (auto simp: commit_effect_def)

lemma apply_full_ok:
  assumes "client_ok s"
  shows "\<exists>r s'. apply_full s key snap host = Some (r, s') \<and> client_ok s' \<and> client_below s s'
     \<and> (s' = s \<or> (\<exists>n. fmlookup (cs_lineages s) key = Some n
          \<and> classify_cursor n (fs_target_cursor snap) = None
          \<and> \<not> tick_regresses_current n (fs_target_tick snap)
          \<and> commit_effect s key n (fs_target_cursor snap) (fs_target_tick snap) (fs_image snap) host id r s'))"
proof (cases "\<exists>n. fmlookup (cs_lineages s) key = Some n \<and> classify_cursor n (fs_target_cursor snap) = None
    \<and> \<not> tick_regresses_current n (fs_target_tick snap)")
  case False
  then show ?thesis using assms by (auto simp: apply_full_def split: option.splits)
next
  case True
  then obtain n where n: "fmlookup (cs_lineages s) key = Some n"
    "classify_cursor n (fs_target_cursor snap) = None"
    "\<not> tick_regresses_current n (fs_target_tick snap)" by blast
  obtain r s' where c: "commit_candidate s key n (fs_target_cursor snap) (fs_target_tick snap)
      (fs_image snap) host id = Some (r, s')" "client_ok s'"
    "commit_effect s key n (fs_target_cursor snap) (fs_target_tick snap) (fs_image snap) host id r s'"
    using commit_candidate_ok[OF assms n, of id "fs_image snap" host] by auto
  have "client_below s s'"
    using commit_candidate_below[OF assms n c(3)] by (simp add: lineage_below_def)
  then show ?thesis using n c by (auto simp: apply_full_def)
qed

lemma recover_with_ok:
  assumes "client_ok s" "fmlookup (cs_lineages s) key = Some n"
  shows "recover_with s key reason outcome
       = Some (Ok outcome, set_lineage key (lineage_enter_recovery reason n) s)"
    and "client_ok (set_lineage key (lineage_enter_recovery reason n) s)"
    and "client_below s (set_lineage key (lineage_enter_recovery reason n) s)"
proof -
  show "client_ok (set_lineage key (lineage_enter_recovery reason n) s)"
    by (rule set_lineage_shrink[OF assms lineage_enter_recovery_ok[OF client_okD(1)[OF assms]]])
      (simp_all add: lineage_enter_recovery_def)
qed (use assms client_below_set[OF assms(2) lineage_below_recovery] in
    \<open>simp_all add: recover_with_def client_enter_recovery_def\<close>)

text \<open>
  A delta is refused without effect, sends a synchronized lineage into recovery, or is committed on
  a retained base by what the host reconstructs from it.
\<close>

definition delta_effect ::
  "'s client_set \<Rightarrow> lineage_key \<Rightarrow> 'd delta_snapshot \<Rightarrow>
     ('s \<Rightarrow> 'd \<Rightarrow> nat \<Rightarrow> ('s accounted_state, reconstruction_error) result) \<Rightarrow>
     ('s \<Rightarrow> (unit, 'e) result) \<Rightarrow> (client_outcome, 'e client_apply_error) result \<Rightarrow>
     's client_set \<Rightarrow> bool" where
  "delta_effect s key snap reconstruct host r s' \<longleftrightarrow>
     s' = s
     \<or> (\<exists>n reason outcome. fmlookup (cs_lineages s) key = Some n \<and> cn_state n = Synchronized
          \<and> r = Ok outcome \<and> (\<forall>c. outcome \<noteq> Committed c)
          \<and> s' = set_lineage key (lineage_enter_recovery reason n) s)
     \<or> (\<exists>n base img. fmlookup (cs_lineages s) key = Some n \<and> cn_state n = Synchronized
          \<and> classify_cursor n (ds_target_cursor snap) = None
          \<and> ds_base_cursor snap < ds_target_cursor snap
          \<and> map_of (cn_retained n) (ds_base_cursor snap) = Some base
          \<and> rt_tick base \<le> ds_target_tick snap
          \<and> reconstruct (ac_state (rt_image base)) (ds_delta snap)
              (rl_max_candidate_bytes (cn_limits n)) = Ok img
          \<and> commit_effect s key n (ds_target_cursor snap) (ds_target_tick snap) img host
              (lineage_enter_recovery DeltaCommitFailure) r s')"

lemma apply_delta_ok:
  assumes "client_ok s"
  shows "\<exists>r s'. apply_delta s key snap reconstruct host = Some (r, s') \<and> client_ok s' \<and> client_below s s'
     \<and> delta_effect s key snap reconstruct host r s'"
proof (cases "\<exists>n. fmlookup (cs_lineages s) key = Some n \<and> classify_cursor n (ds_target_cursor snap) = None
    \<and> cn_state n = Synchronized")
  case False
  then have "\<exists>r. apply_delta s key snap reconstruct host = Some (r, s)"
    by (auto simp: apply_delta_def split: option.splits)
  then show ?thesis using assms by (auto simp: delta_effect_def)
next
  case True
  then obtain n where n: "fmlookup (cs_lineages s) key = Some n"
    "classify_cursor n (ds_target_cursor snap) = None" and sync: "cn_state n = Synchronized" by blast
  note rec = recover_with_ok[OF assms n(1)]
  show ?thesis
  proof (cases "\<exists>base img. ds_base_cursor snap < ds_target_cursor snap
      \<and> \<not> tick_regresses_current n (ds_target_tick snap)
      \<and> map_of (cn_retained n) (ds_base_cursor snap) = Some base \<and> rt_tick base \<le> ds_target_tick snap
      \<and> reconstruct (ac_state (rt_image base)) (ds_delta snap) (rl_max_candidate_bytes (cn_limits n)) = Ok img")
    case False
    then obtain reason outcome where "apply_delta s key snap reconstruct host = recover_with s key reason outcome"
      "\<forall>c. outcome \<noteq> Committed c"
      using n sync
      by (fastforce simp: apply_delta_def not_less not_le split: option.splits result.splits
          reconstruction_error.splits if_splits)
    then show ?thesis using rec n(1) sync
      unfolding delta_effect_def by (metis (no_types, lifting))
  next
    case True
    then obtain base img where b: "ds_base_cursor snap < ds_target_cursor snap"
      "\<not> tick_regresses_current n (ds_target_tick snap)"
      "map_of (cn_retained n) (ds_base_cursor snap) = Some base" "rt_tick base \<le> ds_target_tick snap"
      "reconstruct (ac_state (rt_image base)) (ds_delta snap) (rl_max_candidate_bytes (cn_limits n)) = Ok img"
      by blast
    let ?f = "lineage_enter_recovery DeltaCommitFailure"
    have fail: "lineage_ok key (?f n) \<and> cn_retained (?f n) = cn_retained n
        \<and> cn_retained_bytes (?f n) = cn_retained_bytes n" if "lineage_ok key n"
      for n :: "'s client_lineage"
      using lineage_enter_recovery_ok[OF that, of DeltaCommitFailure]
      by (simp add: lineage_enter_recovery_def)
    have run: "apply_delta s key snap reconstruct host
        = commit_candidate s key n (ds_target_cursor snap) (ds_target_tick snap) img host ?f"
      using n sync b leD[OF b(4)] leD[of "ds_base_cursor snap"] by (auto simp: apply_delta_def)
    obtain r s' where c: "commit_candidate s key n (ds_target_cursor snap) (ds_target_tick snap) img host ?f
        = Some (r, s')" "client_ok s'"
      "commit_effect s key n (ds_target_cursor snap) (ds_target_tick snap) img host ?f r s'"
      using commit_candidate_ok[OF assms n b(2) fail, of img host] by blast
    have "client_below s s'"
      by (rule commit_candidate_below[OF assms n b(2) c(3) lineage_below_recovery])
    moreover have "delta_effect s key snap reconstruct host r s'"
      unfolding delta_effect_def using c(3) n sync b by blast
    ultimately show ?thesis using run c(1,2) by auto
  qed
qed

section \<open>The client as a machine\<close>

datatype ('s, 'd, 'e) client_call =
    CallAddLineage lineage_key retention_limits
  | CallRemoveLineage lineage_key
  | CallApplyFull lineage_key "'s full_snapshot" "'s \<Rightarrow> (unit, 'e) result"
  | CallApplyDelta lineage_key "'d delta_snapshot"
      "'s \<Rightarrow> 'd \<Rightarrow> nat \<Rightarrow> ('s accounted_state, reconstruction_error) result" "'s \<Rightarrow> (unit, 'e) result"
  | CallRequireFull lineage_key
  | CallEvictHistorical lineage_key replication_cursor

fun client_step :: "'s client_set \<Rightarrow> ('s, 'd, 'e) client_call \<Rightarrow> 's client_set exec" where
  "client_step s (CallAddLineage k l) = Some (snd (client_add_lineage s k l))"
| "client_step s (CallRemoveLineage k) = Some (snd (client_remove_lineage s k))"
| "client_step s (CallApplyFull k snap host) = map_option snd (apply_full s k snap host)"
| "client_step s (CallApplyDelta k snap rec host) = map_option snd (apply_delta s k snap rec host)"
| "client_step s (CallRequireFull k) = Some (snd (require_connection_replacement_full s k))"
| "client_step s (CallEvictHistorical k c) = map_option snd (client_evict_historical s k c)"

fun client_call_ok :: "('s, 'd, 'e) client_call \<Rightarrow> bool" where
  "client_call_ok (CallAddLineage _ l) \<longleftrightarrow> retention_ok l"
| "client_call_ok _ \<longleftrightarrow> True"

fun keeps_lineages :: "('s, 'd, 'e) client_call \<Rightarrow> bool" where
  "keeps_lineages (CallRemoveLineage _) \<longleftrightarrow> False"
| "keeps_lineages x \<longleftrightarrow> client_call_ok x"

lemma client_add_lineage_ok:
  assumes "client_ok s" "retention_ok l"
  shows "client_ok (snd (client_add_lineage s k l)) \<and> client_below s (snd (client_add_lineage s k l))"
proof (cases "fmlookup (cs_lineages s) k = None \<and> fm_len (cs_lineages s) < cl_max_lineages (cs_limits s)")
  case True
  then show ?thesis
    using assms client_lineage_new_ok[OF assms(2), of k]
    by (auto simp: client_add_lineage_def client_ok_def fm_len_fresh fm_sum_fresh images_of_def
        bytes_of_def client_lineage_new_def client_below_def lineage_below_def)
next
  case False
  then show ?thesis using assms(1) by (auto simp: client_add_lineage_def not_less)
qed

lemma client_remove_lineage_ok:
  assumes "client_ok s"
  shows "client_ok (snd (client_remove_lineage s k))"
  using assms fm_len_drop_le[of k "cs_lineages s"] fm_sum_drop_le[of images_of k "cs_lineages s"]
    fm_sum_drop_le[of bytes_of k "cs_lineages s"]
  by (auto simp: client_remove_lineage_def client_ok_def)

lemma require_full_ok:
  assumes "client_ok s"
  shows "client_ok (snd (require_connection_replacement_full s k))
     \<and> client_below s (snd (require_connection_replacement_full s k))"
proof (cases "fmlookup (cs_lineages s) k")
  case (Some n)
  then show ?thesis using recover_with_ok(2,3)[OF assms Some]
    by (simp add: require_connection_replacement_full_def client_enter_recovery_def)
qed (use assms in \<open>simp add: require_connection_replacement_full_def client_enter_recovery_def\<close>)

lemma client_evict_historical_ok:
  assumes "client_ok s"
  shows "\<exists>r s'. client_evict_historical s k c = Some (r, s') \<and> client_ok s' \<and> client_below s s'"
proof (cases "fmlookup (cs_lineages s) k")
  case (Some n)
  note ok = client_okD(1)[OF assms Some]
  obtain b n' where e: "lineage_evict_historical n c = Some (b, n')" "lineage_ok k n'"
    "cn_current n' = cn_current n" "length (cn_retained n') \<le> length (cn_retained n)"
    "cn_retained_bytes n' \<le> cn_retained_bytes n"
    using lineage_evict_historical_ok[OF ok, of c] by blast
  have "current_tick n' = current_tick n"
    using e(1) by (auto simp: lineage_evict_historical_def current_tick_def map_of_om_remove
        bind_eq_Some_conv split: if_splits option.splits intro!: Option.bind_cong)
  then have "lineage_below n n'" using e(3) by (simp add: lineage_below_def)
  then show ?thesis
    using e(1) set_lineage_shrink[OF assms Some e(2,4,5)] client_below_set[OF Some]
    by (simp add: client_evict_historical_def Some)
qed (use assms in \<open>simp add: client_evict_historical_def\<close>)

lemma client_step_ok:
  assumes "client_ok s" "client_call_ok x"
  shows "\<exists>s'. client_step s x = Some s' \<and> client_ok s' \<and> (keeps_lineages x \<longrightarrow> client_below s s')"
proof (cases x)
  case (CallAddLineage k l)
  then show ?thesis using client_add_lineage_ok[OF assms(1), of l k] assms(2) by simp
next
  case (CallRemoveLineage k)
  then show ?thesis using client_remove_lineage_ok[OF assms(1), of k] by simp
next
  case (CallApplyFull k snap host)
  then show ?thesis using apply_full_ok[OF assms(1), of k snap host] by auto
next
  case (CallApplyDelta k snap rec host)
  then show ?thesis using apply_delta_ok[OF assms(1), of k snap rec host] by auto
next
  case (CallRequireFull k)
  then show ?thesis using require_full_ok[OF assms(1), of k] by simp
next
  case (CallEvictHistorical k c)
  then show ?thesis using client_evict_historical_ok[OF assms(1), of k c] by auto
qed

interpretation client_machine: guarded_machine client_step client_ok client_call_ok
  by unfold_locales (use client_step_ok in blast)

lemma client_below_trans: "client_below a b \<Longrightarrow> client_below b c \<Longrightarrow> client_below a c"
  unfolding client_below_def lineage_below_def by (meson at_least_trans)

interpretation client_growth: monotone_machine client_step client_ok keeps_lineages client_below
proof
  fix s :: "'a client_set" and x :: "('a, 'b, 'c) client_call"
  assume a: "client_ok s" "keeps_lineages x"
  then have ok: "client_call_ok x" by (cases x) auto
  show "\<exists>s'. client_step s x = Some s' \<and> client_ok s'" using client_step_ok[OF a(1) ok] by blast
  fix s'
  assume "client_step s x = Some s'"
  then show "client_below s s'" using client_step_ok[OF a(1) ok] a(2) by auto
qed (use client_below_trans in \<open>auto\<close>)

end
