(* ===== verification/Prediction.thy ===== *)
theory Prediction
  imports Client_Safety
begin

text \<open>
  \<open>crates/runen-net/src/input/prediction.rs\<close> and \<open>PredictionLimits\<close> of \<open>input/model.rs\<close>: the local
  inputs a client keeps pending past its authoritative frontier, and how they are retired and
  replayed when the replication lineage it follows commits. The replay closure of the host is a
  function that threads the host's own state \<open>'h\<close>, so that the calls made of it and their order are
  visible. Only \<open>confirm_host_restored_after_prediction_failure\<close> can panic; it returns an \<open>exec\<close>.
\<close>

section \<open>State\<close>

record prediction_limits =
  pm_max_pending_inputs :: nat
  pm_max_pending_bytes :: nat
  pm_max_future_tick_distance :: u64

record 'i pending_input_t =
  pd_value :: 'i
  pd_bytes :: nat

datatype prediction_reason =
    AwaitingInitialBaseline
  | ReplicationRecovery client_recovery_reason
  | ConnectionLoss
  | LocalApplicationFailure
  | ReplayFailure
  | ParticipantMembershipEnded
  | PredictionSessionClosed

fun is_terminal :: "prediction_reason \<Rightarrow> bool" where
  "is_terminal ParticipantMembershipEnded = True"
| "is_terminal PredictionSessionClosed = True"
| "is_terminal _ = False"

datatype prediction_state =
    PredictionActive simulation_tick
  | PredictionInvalidated prediction_reason "simulation_tick option"

datatype prediction_input_outcome =
    LocalInputAccepted | LocalDuplicateInput | LocalConflictingInput
  | PredictionInputNotNewerThanFrontier | PendingPredictionResourceRejected
  | PredictionWasInvalidated prediction_reason

datatype reconciliation_outcome =
    NoAuthoritativeCommit
  | ActivatedFromAuthoritative simulation_tick
  | ReconciledNoReplay simulation_tick
  | ReconciledReplay simulation_tick nat
  | InvalidatedByRecovery client_recovery_reason
  | RemainsInvalidated prediction_reason

datatype activation_error =
    ActivationLineageMissing | NotHostStateFailure | ReplicationNotSynchronized
  | ActivationMissingCommittedTick | ActivationFrontierRegression

datatype 'e reconciliation_error =
    ReplicationLineageMissing
  | CommittedCursorRegression replication_cursor replication_cursor
  | MissingCommittedTick
  | FrontierRegression
  | PredictionAccountingViolation
  | ReplayFailed simulation_tick 'e

type_synonym 'i pending_map = "(simulation_tick \<times> 'i pending_input_t) list"

abbreviation pending_bytes_of :: "'i pending_map \<Rightarrow> nat" where
  "pending_bytes_of m \<equiv> om_sum pd_bytes m"

record 'i prediction =
  pl_key :: lineage_key
  pl_limits :: prediction_limits
  pl_state :: prediction_state
  pl_pending :: "'i pending_map"
  pl_pending_bytes :: nat
  pl_last_commit :: "replication_cursor option"
  pl_last_boundary :: "replication_cursor option"

definition prediction_new :: "lineage_key \<Rightarrow> prediction_limits \<Rightarrow> 'i prediction" where
  "prediction_new key limits =
     \<lparr>pl_key = key, pl_limits = limits, pl_state = PredictionInvalidated AwaitingInitialBaseline None,
      pl_pending = [], pl_pending_bytes = 0, pl_last_commit = None, pl_last_boundary = None\<rparr>"

definition prediction_frontier :: "'i prediction \<Rightarrow> simulation_tick option" where
  "prediction_frontier p =
     (case pl_state p of PredictionActive f \<Rightarrow> Some f | PredictionInvalidated _ f \<Rightarrow> f)"

definition pending_input :: "'i prediction \<Rightarrow> simulation_tick \<Rightarrow> 'i option" where
  "pending_input p t = map_option pd_value (map_of (pl_pending p) t)"

definition terminal_reason :: "'i prediction \<Rightarrow> prediction_reason option" where
  "terminal_reason p =
     (case pl_state p of
        PredictionInvalidated reason _ \<Rightarrow> if is_terminal reason then Some reason else None
      | PredictionActive _ \<Rightarrow> None)"

section \<open>Invalidation\<close>

definition prediction_invalidate :: "prediction_reason \<Rightarrow> 'i prediction \<Rightarrow> 'i prediction" where
  "prediction_invalidate reason p =
     p\<lparr>pl_pending := [], pl_pending_bytes := 0,
       pl_state := PredictionInvalidated reason (prediction_frontier p)\<rparr>"

definition prediction_terminate :: "prediction_reason \<Rightarrow> 'i prediction \<Rightarrow> 'i prediction" where
  "prediction_terminate reason p =
     p\<lparr>pl_pending := [], pl_pending_bytes := 0, pl_state := PredictionInvalidated reason None\<rparr>"

definition prediction_connection_lost :: "'i prediction \<Rightarrow> 'i prediction" where
  "prediction_connection_lost p =
     (if terminal_reason p = None then prediction_invalidate ConnectionLoss p else p)"

definition local_application_failed :: "'i prediction \<Rightarrow> 'i prediction" where
  "local_application_failed p =
     (if terminal_reason p = None then prediction_invalidate LocalApplicationFailure p else p)"

definition participant_membership_ended :: "'i prediction \<Rightarrow> 'i prediction" where
  "participant_membership_ended p = prediction_terminate ParticipantMembershipEnded p"

definition prediction_session_closed :: "'i prediction \<Rightarrow> 'i prediction" where
  "prediction_session_closed p = prediction_terminate PredictionSessionClosed p"

definition invalidate_for_recovery :: "client_recovery_reason \<Rightarrow> 'i prediction \<Rightarrow> 'i prediction" where
  "invalidate_for_recovery reason p =
     (if terminal_reason p = None then prediction_invalidate (ReplicationRecovery reason) p else p)"

section \<open>Local inputs\<close>

definition admit_local ::
  "'i prediction \<Rightarrow> simulation_tick \<Rightarrow> 'i \<Rightarrow> nat \<Rightarrow> prediction_input_outcome \<times> 'i prediction" where
  "admit_local p t input bytes =
     (case pl_state p of
        PredictionInvalidated reason _ \<Rightarrow> (PredictionWasInvalidated reason, p)
      | PredictionActive f \<Rightarrow>
        if t \<le> f then (PredictionInputNotNewerThanFrontier, p)
        else case map_of (pl_pending p) t of
          Some q \<Rightarrow> (if pd_value q = input then LocalDuplicateInput else LocalConflictingInput, p)
        | None \<Rightarrow>
          if pm_max_future_tick_distance (pl_limits p) < tick_get t - tick_get f
             \<or> pm_max_pending_bytes (pl_limits p) < bytes
             \<or> pm_max_pending_inputs (pl_limits p) \<le> length (pl_pending p)
          then (PendingPredictionResourceRejected, p)
          else case checked_add (pl_pending_bytes p) bytes of
            None \<Rightarrow> (PendingPredictionResourceRejected, p)
          | Some next_bytes \<Rightarrow>
            if pm_max_pending_bytes (pl_limits p) < next_bytes
            then (PendingPredictionResourceRejected, p)
            else (LocalInputAccepted,
                  p\<lparr>pl_pending := om_insert t \<lparr>pd_value = input, pd_bytes = bytes\<rparr> (pl_pending p),
                    pl_pending_bytes := next_bytes\<rparr>))"

section \<open>Following the replication lineage\<close>

definition prediction_require_full ::
  "'i prediction \<Rightarrow> 's client_set \<Rightarrow> (unit, client_set_error) result \<times> 'i prediction \<times> 's client_set" where
  "prediction_require_full p s =
     (case require_connection_replacement_full s (pl_key p) of
        (Err e, s') \<Rightarrow> (Err e, p, s')
      | (Ok _, s') \<Rightarrow>
        (let p' = (case Option.bind (fmlookup (cs_lineages s') (pl_key p)) cn_boundary of
                     Some (cursor, _) \<Rightarrow> p\<lparr>pl_last_boundary := Some cursor\<rparr>
                   | None \<Rightarrow> p)
         in (Ok (), invalidate_for_recovery ConnectionReplacementReason p', s')))"

definition host_failure :: "prediction_state \<Rightarrow> bool" where
  "host_failure st =
     (case st of PredictionInvalidated LocalApplicationFailure _ \<Rightarrow> True
      | PredictionInvalidated ReplayFailure _ \<Rightarrow> True
      | _ \<Rightarrow> False)"

definition frontier_ahead :: "'i prediction \<Rightarrow> simulation_tick \<Rightarrow> bool" where
  "frontier_ahead p tick = (case prediction_frontier p of None \<Rightarrow> False | Some f \<Rightarrow> tick < f)"

definition activate_at :: "simulation_tick \<Rightarrow> 'i prediction \<Rightarrow> 'i prediction" where
  "activate_at tick p = p\<lparr>pl_pending := [], pl_pending_bytes := 0, pl_state := PredictionActive tick\<rparr>"

definition confirm_host_restored ::
  "'i prediction \<Rightarrow> 's client_set \<Rightarrow> ((simulation_tick, activation_error) result \<times> 'i prediction) exec" where
  "confirm_host_restored p s =
     (case fmlookup (cs_lineages s) (pl_key p) of
        None \<Rightarrow> Some (Err ActivationLineageMissing, p)
      | Some n \<Rightarrow>
        if \<not> host_failure (pl_state p) then Some (Err NotHostStateFailure, p)
        else if cn_state n \<noteq> Synchronized then Some (Err ReplicationNotSynchronized, p)
        else case current_tick n of
          None \<Rightarrow> Some (Err ActivationMissingCommittedTick, p)
        | Some tick \<Rightarrow> do {
            cursor \<leftarrow> cn_current n;
            Some (if frontier_ahead p tick then (Err ActivationFrontierRegression, p)
                  else (Ok tick, (activate_at tick p)\<lparr>pl_last_commit := Some cursor,
                          pl_last_boundary := (case cn_boundary n of Some (b, _) \<Rightarrow> Some b
                                               | None \<Rightarrow> pl_last_boundary p)\<rparr>)) })"

type_synonym ('i, 'e, 'h) replay = "simulation_tick \<Rightarrow> 'i \<Rightarrow> 'h \<Rightarrow> (unit, 'e) result \<times> 'h"

datatype 'e replay_end = ReplayedAll nat | ReplayCountOverflow | ReplayStopped simulation_tick 'e

fun replay_pending ::
  "('i, 'e, 'h) replay \<Rightarrow> 'i pending_map \<Rightarrow> nat \<Rightarrow> 'h \<Rightarrow> 'e replay_end \<times> 'h" where
  "replay_pending replay [] replayed h = (ReplayedAll replayed, h)"
| "replay_pending replay ((t, q) # m) replayed h =
     (case replay t (pd_value q) h of
        (Ok _, h') \<Rightarrow>
          (case checked_add replayed 1 of
             None \<Rightarrow> (ReplayCountOverflow, h')
           | Some n \<Rightarrow> replay_pending replay m n h')
      | (Err e, h') \<Rightarrow> (ReplayStopped t e, h'))"

fun retired_bytes :: "'i pending_map \<Rightarrow> nat \<Rightarrow> nat option" where
  "retired_bytes [] bytes = Some bytes"
| "retired_bytes ((_, q) # m) bytes = do { bytes' \<leftarrow> checked_add bytes (pd_bytes q); retired_bytes m bytes' }"

type_synonym ('i, 'e, 'h) reconciliation =
  "(reconciliation_outcome, 'e reconciliation_error) result \<times> 'i prediction \<times> 'h"

definition reactivates :: "prediction_reason \<Rightarrow> bool" where
  "reactivates reason =
     (case reason of AwaitingInitialBaseline \<Rightarrow> True | ReplicationRecovery _ \<Rightarrow> True | _ \<Rightarrow> False)"

definition reconcile_committed ::
  "'i prediction \<Rightarrow> replication_cursor \<Rightarrow> simulation_tick \<Rightarrow> ('i, 'e, 'h) replay \<Rightarrow> 'h \<Rightarrow>
     ('i, 'e, 'h) reconciliation" where
  "reconcile_committed p cursor tick replay h =
     (if frontier_ahead p tick then (Err FrontierRegression, p, h)
      else case pl_state p of
        PredictionInvalidated reason _ \<Rightarrow>
          (let p1 = p\<lparr>pl_last_commit := Some cursor\<rparr>
           in if reactivates reason then (Ok (ActivatedFromAuthoritative tick), activate_at tick p1, h)
              else (Ok (RemainsInvalidated reason), p1, h))
      | PredictionActive _ \<Rightarrow>
          (let retired = filter (\<lambda>e. fst e \<le> tick) (pl_pending p)
           in case Option.bind (retired_bytes retired 0) (checked_sub (pl_pending_bytes p)) of
             None \<Rightarrow> (Err PredictionAccountingViolation, p, h)
           | Some next_bytes \<Rightarrow>
             (let p1 = p\<lparr>pl_last_commit := Some cursor, pl_state := PredictionActive tick,
                         pl_pending := fold om_remove (map fst retired) (pl_pending p),
                         pl_pending_bytes := next_bytes\<rparr>
              in if pl_pending p1 = [] then (Ok (ReconciledNoReplay tick), p1, h)
                 else case replay_pending replay (pl_pending p1) 0 h of
                   (ReplayedAll n, h') \<Rightarrow> (Ok (ReconciledReplay tick n), p1, h')
                 | (ReplayCountOverflow, h') \<Rightarrow> (Err PredictionAccountingViolation, p1, h')
                 | (ReplayStopped t e, h') \<Rightarrow>
                     (Err (ReplayFailed t e), prediction_invalidate ReplayFailure p1, h'))))"

definition new_boundary ::
  "'i prediction \<Rightarrow> 's client_lineage \<Rightarrow> (replication_cursor \<times> client_recovery_reason) option" where
  "new_boundary p n =
     (case cn_boundary n of
        None \<Rightarrow> None
      | Some (b, reason) \<Rightarrow>
        (case pl_last_boundary p of
           None \<Rightarrow> Some (b, reason)
         | Some observed \<Rightarrow> if observed < b then Some (b, reason) else None))"

definition observe_boundary :: "'i prediction \<Rightarrow> 's client_lineage \<Rightarrow> 'i prediction" where
  "observe_boundary p n =
     (case new_boundary p n of
        None \<Rightarrow> p
      | Some (b, reason) \<Rightarrow> invalidate_for_recovery reason (p\<lparr>pl_last_boundary := Some b\<rparr>))"

definition observe_commit ::
  "'i prediction \<Rightarrow> 's client_lineage \<Rightarrow> replication_cursor \<Rightarrow> ('i, 'e, 'h) replay \<Rightarrow> 'h \<Rightarrow>
     ('i, 'e, 'h) reconciliation" where
  "observe_commit p n cursor replay h =
     (let settle = (case current_tick n of
                      None \<Rightarrow> (Err MissingCommittedTick, p, h)
                    | Some tick \<Rightarrow> reconcile_committed p cursor tick replay h)
      in case pl_last_commit p of
        None \<Rightarrow> settle
      | Some observed \<Rightarrow>
        if cursor < observed then (Err (CommittedCursorRegression observed cursor), p, h)
        else if cursor = observed then (Ok NoAuthoritativeCommit, p, h)
        else settle)"

definition observe_replication ::
  "'i prediction \<Rightarrow> 's client_set \<Rightarrow> ('i, 'e, 'h) replay \<Rightarrow> 'h \<Rightarrow> ('i, 'e, 'h) reconciliation" where
  "observe_replication p s replay h =
     (case fmlookup (cs_lineages s) (pl_key p) of
        None \<Rightarrow> (Err ReplicationLineageMissing, p, h)
      | Some n \<Rightarrow>
        (let p1 = observe_boundary p n
         in case cn_state n of
           FullSnapshotRequired reason \<Rightarrow>
             (case terminal_reason p1 of
                Some terminal \<Rightarrow> (Ok (RemainsInvalidated terminal), p1, h)
              | None \<Rightarrow> (Ok (InvalidatedByRecovery reason),
                         if new_boundary p n = None then invalidate_for_recovery reason p1 else p1, h))
         | Synchronized \<Rightarrow>
             (case cn_current n of
                None \<Rightarrow> (Ok NoAuthoritativeCommit, p1, h)
              | Some cursor \<Rightarrow>
                (case terminal_reason p1 of
                   Some terminal \<Rightarrow> (Ok (RemainsInvalidated terminal), p1, h)
                 | None \<Rightarrow> observe_commit p1 n cursor replay h))))"

end
