(* ===== verification/Prediction_Safety.thy ===== *)
theory Prediction_Safety
  imports Prediction
begin

text \<open>
  Safety of prediction: the pending inputs stay sorted, accounted, bounded and ahead of the frontier;
  they are retired up to the committed tick and the rest is replayed in order. Together with the
  client replication set it follows, the cursor and the tick it has observed never exceed what is
  committed, so that the regression errors of \<open>observe_replication\<close> do not arise.
\<close>

section \<open>The invariant\<close>

definition prediction_limits_ok :: "prediction_limits \<Rightarrow> bool" where
  "prediction_limits_ok l \<longleftrightarrow> pm_max_pending_inputs l \<le> usize_max \<and> pm_max_pending_bytes l \<le> usize_max"

definition pending_ahead :: "u64 \<Rightarrow> simulation_tick \<Rightarrow> 'i pending_map \<Rightarrow> bool" where
  "pending_ahead d f m \<longleftrightarrow> (\<forall>e \<in> set m. f < fst e \<and> tick_get (fst e) - tick_get f \<le> d)"

definition pending_state_ok :: "'i prediction \<Rightarrow> bool" where
  "pending_state_ok p \<longleftrightarrow>
     (case pl_state p of
        PredictionActive f \<Rightarrow> pending_ahead (pm_max_future_tick_distance (pl_limits p)) f (pl_pending p)
      | PredictionInvalidated reason f \<Rightarrow> pl_pending p = [] \<and> (is_terminal reason \<longrightarrow> f = None))"

definition prediction_ok :: "'i prediction \<Rightarrow> bool" where
  "prediction_ok p \<longleftrightarrow> prediction_limits_ok (pl_limits p) \<and> om_wf (pl_pending p)
     \<and> pl_pending_bytes p = pending_bytes_of (pl_pending p)
     \<and> length (pl_pending p) \<le> pm_max_pending_inputs (pl_limits p)
     \<and> pl_pending_bytes p \<le> pm_max_pending_bytes (pl_limits p)
     \<and> pending_state_ok p"

lemma prediction_ok_observed [simp]:
  "prediction_ok (p\<lparr>pl_last_commit := c\<rparr>) \<longleftrightarrow> prediction_ok p"
  "prediction_ok (p\<lparr>pl_last_boundary := c\<rparr>) \<longleftrightarrow> prediction_ok p"
  by (cases "pl_state p", simp_all add: prediction_ok_def pending_state_ok_def)+

lemma prediction_new_ok: "prediction_limits_ok l \<Longrightarrow> prediction_ok (prediction_new key l)"
  by (simp add: prediction_ok_def prediction_new_def pending_state_ok_def)

lemma prediction_invalidate_ok:
  "prediction_ok p \<Longrightarrow> \<not> is_terminal reason \<Longrightarrow> prediction_ok (prediction_invalidate reason p)"
  by (simp add: prediction_ok_def prediction_invalidate_def pending_state_ok_def)

lemma prediction_terminate_ok: "prediction_ok p \<Longrightarrow> prediction_ok (prediction_terminate reason p)"
  by (simp add: prediction_ok_def prediction_terminate_def pending_state_ok_def)

lemma invalidation_ok:
  assumes "prediction_ok p"
  shows "prediction_ok (prediction_connection_lost p)" "prediction_ok (local_application_failed p)"
    "prediction_ok (participant_membership_ended p)" "prediction_ok (prediction_session_closed p)"
    "prediction_ok (invalidate_for_recovery reason p)"
  using assms by (simp_all add: prediction_connection_lost_def local_application_failed_def
      participant_membership_ended_def prediction_session_closed_def invalidate_for_recovery_def
      prediction_invalidate_ok prediction_terminate_ok)

lemma activate_at_ok: "prediction_ok p \<Longrightarrow> prediction_ok (activate_at tick p)"
  by (simp add: prediction_ok_def activate_at_def pending_state_ok_def pending_ahead_def)

lemma admit_local_ok:
  assumes ok: "prediction_ok p"
  shows "prediction_ok (snd (admit_local p t i b))"
proof (cases "fst (admit_local p t i b) = LocalInputAccepted")
  case True
  then obtain f where f: "pl_state p = PredictionActive f" "f < t" "map_of (pl_pending p) t = None"
    "tick_get t - tick_get f \<le> pm_max_future_tick_distance (pl_limits p)"
    "length (pl_pending p) < pm_max_pending_inputs (pl_limits p)"
    "pl_pending_bytes p + b \<le> pm_max_pending_bytes (pl_limits p)"
    and snd: "snd (admit_local p t i b) =
       p\<lparr>pl_pending := om_insert t \<lparr>pd_value = i, pd_bytes = b\<rparr> (pl_pending p), pl_pending_bytes := pl_pending_bytes p + b\<rparr>"
    by (auto simp: admit_local_def linorder_not_le linorder_not_less checked_simps
        split: prediction_state.splits if_splits option.splits)
  let ?q = "\<lparr>pd_value = i, pd_bytes = b\<rparr>"
  have "\<forall>e \<in> set (om_insert t ?q (pl_pending p)). e = (t, ?q) \<or> e \<in> set (pl_pending p)"
    using set_om_insert[of t ?q "pl_pending p"] by blast
  then have "pending_ahead (pm_max_future_tick_distance (pl_limits p)) f (om_insert t ?q (pl_pending p))"
    using ok f(1,2,4) by (auto simp: prediction_ok_def pending_state_ok_def pending_ahead_def)
  then show ?thesis using ok f
    by (simp add: snd prediction_ok_def pending_state_ok_def om_wf_insert om_length_insert_fresh om_sum_insert_fresh)
next
  case False
  then have "snd (admit_local p t i b) = p"
    by (auto simp: admit_local_def split: prediction_state.splits if_splits option.splits)
  then show ?thesis using ok by simp
qed

section \<open>Reconciliation\<close>

lemma fold_om_remove: "fold om_remove ks m = filter (\<lambda>e. fst e \<notin> set ks) m"
proof (induction ks arbitrary: m)
  case (Cons k ks)
  then show ?case by (auto simp: om_remove_def intro: filter_cong)
qed simp

lemma retire_upto:
  "fold om_remove (map fst (filter (\<lambda>e. fst e \<le> tick) m)) m = filter (\<lambda>e. tick < fst e) m"
  for tick :: simulation_tick
  unfolding fold_om_remove by (rule filter_cong) (auto simp: linorder_not_less[symmetric])

lemma retired_bytes_eq:
  "bytes + pending_bytes_of m \<le> usize_max \<Longrightarrow> retired_bytes m bytes = Some (bytes + pending_bytes_of m)"
  by (induction m bytes rule: retired_bytes.induct) (auto simp: add.assoc)

definition reconciled :: "replication_cursor \<Rightarrow> simulation_tick \<Rightarrow> 'i prediction \<Rightarrow> 'i prediction" where
  "reconciled cursor tick p =
     (let m = filter (\<lambda>e. tick < fst e) (pl_pending p)
      in p\<lparr>pl_last_commit := Some cursor, pl_state := PredictionActive tick, pl_pending := m,
           pl_pending_bytes := pending_bytes_of m\<rparr>)"

lemma pending_split:
  "pending_bytes_of m = pending_bytes_of (filter (\<lambda>e. fst e \<le> tick) m) + pending_bytes_of (filter (\<lambda>e. tick < fst e) m)"
  for tick :: simulation_tick
  using om_sum_partition[of pd_bytes m "\<lambda>e. fst e \<le> tick"] by (simp only: linorder_not_le)

lemma reconcile_committed_eq:
  assumes ok: "prediction_ok p"
  shows "reconcile_committed p cursor tick replay h =
     (if frontier_ahead p tick then (Err FrontierRegression, p, h)
      else case pl_state p of
        PredictionInvalidated reason _ \<Rightarrow>
          if reactivates reason
          then (Ok (ActivatedFromAuthoritative tick), activate_at tick (p\<lparr>pl_last_commit := Some cursor\<rparr>), h)
          else (Ok (RemainsInvalidated reason), p\<lparr>pl_last_commit := Some cursor\<rparr>, h)
      | PredictionActive _ \<Rightarrow>
          (let p1 = reconciled cursor tick p
           in if pl_pending p1 = [] then (Ok (ReconciledNoReplay tick), p1, h)
              else case replay_pending replay (pl_pending p1) 0 h of
                (ReplayedAll n, h') \<Rightarrow> (Ok (ReconciledReplay tick n), p1, h')
              | (ReplayCountOverflow, h') \<Rightarrow> (Err PredictionAccountingViolation, p1, h')
              | (ReplayStopped t e, h') \<Rightarrow>
                  (Err (ReplayFailed t e), prediction_invalidate ReplayFailure p1, h')))"
proof -
  let ?retired = "filter (\<lambda>e. fst e \<le> tick) (pl_pending p)"
  have bytes: "pl_pending_bytes p = pending_bytes_of (pl_pending p)" "pl_pending_bytes p \<le> usize_max"
    using ok by (auto simp: prediction_ok_def prediction_limits_ok_def)
  have "retired_bytes ?retired 0 = Some (pending_bytes_of ?retired)"
    using retired_bytes_eq[of 0 ?retired] bytes pending_split[of "pl_pending p" tick] by simp
  moreover have "checked_sub (pl_pending_bytes p) (pending_bytes_of ?retired)
      = Some (pending_bytes_of (filter (\<lambda>e. tick < fst e) (pl_pending p)))"
    using bytes pending_split[of "pl_pending p" tick] by simp
  ultimately show ?thesis
    by (cases "pl_state p") (simp_all add: reconcile_committed_def reconciled_def retire_upto Let_def)
qed

lemma tick_distance_shrinks:
  fixes f f' t :: simulation_tick
  assumes "f \<le> f'" "f' < t" "tick_get t - tick_get f \<le> d"
  shows "tick_get t - tick_get f' \<le> d"
proof -
  have "tick_get t - tick_get f' \<le> tick_get t - tick_get f"
    using assms(1,2) by (simp add: tick_order_defs word_le_nat_alt word_less_nat_alt unat_sub)
  then show ?thesis using assms(3) by (rule order_trans)
qed

lemma reconciled_ok:
  assumes ok: "prediction_ok p" and active: "pl_state p = PredictionActive f" and le: "f \<le> tick"
  shows "prediction_ok (reconciled cursor tick p)"
proof -
  let ?m = "filter (\<lambda>e. tick < fst e) (pl_pending p)"
  have "pending_ahead d tick ?m" if "pending_ahead d f (pl_pending p)" for d
    using that tick_distance_shrinks[OF le] by (auto simp: pending_ahead_def)
  moreover have "pending_bytes_of ?m \<le> pending_bytes_of (pl_pending p)"
    using pending_split[of "pl_pending p" tick] by linarith
  ultimately show ?thesis using ok active
    unfolding prediction_ok_def reconciled_def pending_state_ok_def Let_def 
    by (auto simp: om_wf_filter intro: order_trans[OF length_filter_le])
qed

text \<open>
  Replay: \<open>host_after\<close> is the host's state once the entries were presented to it in order, and
  \<open>replays_ok\<close> says that each of those calls succeeded.
\<close>

fun host_after :: "('i, 'e, 'h) replay \<Rightarrow> 'i pending_map \<Rightarrow> 'h \<Rightarrow> 'h" where
  "host_after replay [] h = h"
| "host_after replay ((t, q) # m) h = host_after replay m (snd (replay t (pd_value q) h))"

fun replays_ok :: "('i, 'e, 'h) replay \<Rightarrow> 'i pending_map \<Rightarrow> 'h \<Rightarrow> bool" where
  "replays_ok replay [] h \<longleftrightarrow> True"
| "replays_ok replay ((t, q) # m) h \<longleftrightarrow>
     is_ok (fst (replay t (pd_value q) h)) \<and> replays_ok replay m (snd (replay t (pd_value q) h))"

lemma is_ok_iff: "is_ok r \<longleftrightarrow> (\<exists>v. r = Ok v)"
  by (cases r) auto

lemma replay_pending_all:
  "replays_ok replay m h \<Longrightarrow> k + length m \<le> usize_max \<Longrightarrow>
     replay_pending replay m k h = (ReplayedAll (k + length m), host_after replay m h)"
  by (induction replay m k h rule: replay_pending.induct)
     (auto simp: is_ok_iff split: prod.splits)

lemma replay_pending_stop:
  "replays_ok replay pre h \<Longrightarrow> replay t (pd_value q) (host_after replay pre h) = (Err e, h') \<Longrightarrow>
     k + length pre \<le> usize_max \<Longrightarrow> replay_pending replay (pre @ (t, q) # post) k h = (ReplayStopped t e, h')"
  by (induction replay pre k h rule: replay_pending.induct)
     (auto simp: is_ok_iff split: prod.splits)

lemma replay_first_failure:
  "\<not> replays_ok replay m h \<Longrightarrow>
     \<exists>pre t q post e h'. m = pre @ (t, q) # post \<and> replays_ok replay pre h
       \<and> replay t (pd_value q) (host_after replay pre h) = (Err e, h')"
proof (induction replay m h rule: replays_ok.induct)
  case (2 replay t q m h)
  obtain r h1 where r: "replay t (pd_value q) h = (r, h1)" by fastforce
  show ?case
  proof (cases r)
    case (Err e)
    then show ?thesis using r by (intro exI[of _ "[]"]) auto
  next
    case (Ok v)
    then obtain pre t' q' post e h' where "m = pre @ (t', q') # post" "replays_ok replay pre h1"
      "replay t' (pd_value q') (host_after replay pre h1) = (Err e, h')"
      using 2 r by auto
    then show ?thesis using r Ok
      by (intro exI[of _ "(t, q) # pre"] exI[of _ t'] exI[of _ q'] exI[of _ post] exI[of _ e] exI[of _ h']) simp
  qed
qed simp

text \<open>The result of a reconciliation in a good state: the count cannot overflow.\<close>

definition replay_result ::
  "'i prediction \<Rightarrow> simulation_tick \<Rightarrow> ('i, 'e, 'h) replay \<Rightarrow> 'h \<Rightarrow> ('i, 'e, 'h) reconciliation \<Rightarrow> bool" where
  "replay_result p1 tick replay h out \<longleftrightarrow>
     (if pl_pending p1 = [] then out = (Ok (ReconciledNoReplay tick), p1, h)
      else if replays_ok replay (pl_pending p1) h
      then out = (Ok (ReconciledReplay tick (length (pl_pending p1))), p1, host_after replay (pl_pending p1) h)
      else \<exists>pre t q post e h'. pl_pending p1 = pre @ (t, q) # post \<and> replays_ok replay pre h
        \<and> replay t (pd_value q) (host_after replay pre h) = (Err e, h')
        \<and> out = (Err (ReplayFailed t e), prediction_invalidate ReplayFailure p1, h'))"

lemma reconcile_active:
  assumes ok: "prediction_ok p" and active: "pl_state p = PredictionActive f" and le: "f \<le> tick"
  shows "replay_result (reconciled cursor tick p) tick replay h (reconcile_committed p cursor tick replay h)"
proof -
  let ?p = "reconciled cursor tick p"
  have fr: "\<not> frontier_ahead p tick"
    using active le by (simp add: frontier_ahead_def prediction_frontier_def)
  have "prediction_ok ?p" by (rule reconciled_ok[OF ok active le])
  then have len: "0 + length (pl_pending ?p) \<le> usize_max"
    by (auto simp: prediction_ok_def prediction_limits_ok_def)
  note eq = reconcile_committed_eq[OF ok, of cursor tick replay h]
  show ?thesis
  proof (cases "replays_ok replay (pl_pending ?p) h")
    case True
    show ?thesis using replay_pending_all[OF True len] True eq fr active
      by (simp add: replay_result_def Let_def)
  next
    case False
    then obtain pre t q post e h' where f: "pl_pending ?p = pre @ (t, q) # post" "replays_ok replay pre h"
      "replay t (pd_value q) (host_after replay pre h) = (Err e, h')"
      using replay_first_failure[OF False] by auto
    have "replay_pending replay (pl_pending ?p) 0 h = (ReplayStopped t e, h')"
      unfolding f(1) by (rule replay_pending_stop[OF f(2,3)]) (use len f(1) in simp)
    moreover have "pl_pending ?p \<noteq> []" using f(1) by simp
    ultimately have "reconcile_committed p cursor tick replay h
        = (Err (ReplayFailed t e), prediction_invalidate ReplayFailure ?p, h')"
      using eq fr active by (simp add: Let_def)
    then show ?thesis unfolding replay_result_def using False f \<open>pl_pending ?p \<noteq> []\<close> by auto
  qed
qed

lemma reconcile_committed_ok:
  assumes ok: "prediction_ok p"
  shows "prediction_ok (fst (snd (reconcile_committed p cursor tick replay h)))"
proof (cases "frontier_ahead p tick")
  case True
  then show ?thesis using ok by (simp add: reconcile_committed_def)
next
  case False
  show ?thesis
  proof (cases "pl_state p")
    case (PredictionActive f)
    then have le: "f \<le> tick" using False by (simp add: frontier_ahead_def prediction_frontier_def)
    have "prediction_ok (reconciled cursor tick p)" by (rule reconciled_ok[OF ok PredictionActive le])
    moreover note reconcile_active[OF ok PredictionActive le, of cursor replay h]
    ultimately show ?thesis
      by (auto simp: replay_result_def prediction_invalidate_ok split: if_splits)
  next
    case (PredictionInvalidated reason f)
    then show ?thesis using False ok
      by (simp add: reconcile_committed_eq[OF ok] activate_at_ok)
  qed
qed

section \<open>Prediction and the lineage it follows\<close>

definition committed_cursor :: "'s client_set \<Rightarrow> lineage_key \<Rightarrow> replication_cursor option" where
  "committed_cursor s key = Option.bind (fmlookup (cs_lineages s) key) cn_current"

definition committed_tick :: "'s client_set \<Rightarrow> lineage_key \<Rightarrow> simulation_tick option" where
  "committed_tick s key = Option.bind (fmlookup (cs_lineages s) key) current_tick"

text \<open>What prediction has observed was committed, and commits do not go back.\<close>

definition follows :: "'s client_set \<Rightarrow> 'i prediction \<Rightarrow> bool" where
  "follows s p \<longleftrightarrow> at_least (pl_last_commit p) (committed_cursor s (pl_key p))
     \<and> at_least (prediction_frontier p) (committed_tick s (pl_key p))"

lemma at_least_simps [simp]: "at_least None b" "at_least (Some x) (Some y) \<longleftrightarrow> x \<le> y"
  by (simp_all add: at_least_def)

lemma client_below_committed:
  assumes "client_below s s'"
  shows "at_least (committed_cursor s k) (committed_cursor s' k)"
    and "at_least (committed_tick s k) (committed_tick s' k)"
proof (atomize (full), cases "fmlookup (cs_lineages s) k")
  case (Some n)
  then obtain n' where "fmlookup (cs_lineages s') k = Some n'" "lineage_below n n'"
    using assms unfolding client_below_def by blast
  with Some show "at_least (committed_cursor s k) (committed_cursor s' k)
      \<and> at_least (committed_tick s k) (committed_tick s' k)"
    by (simp add: committed_cursor_def committed_tick_def lineage_below_def)
qed (simp add: committed_cursor_def committed_tick_def)

lemma follows_below:
  assumes f: "follows s p" and below: "client_below s s'"
  shows "follows s' p"
proof -
  have "at_least (pl_last_commit p) (committed_cursor s (pl_key p))"
    and "at_least (prediction_frontier p) (committed_tick s (pl_key p))"
    using f by (simp_all add: follows_def)
  from at_least_trans[OF this(1) client_below_committed(1)[OF below]]
    at_least_trans[OF this(2) client_below_committed(2)[OF below]]
  show ?thesis by (simp add: follows_def)
qed

lemma frontier_simps [simp]:
  "prediction_frontier (p\<lparr>pl_last_commit := c\<rparr>) = prediction_frontier p"
  "prediction_frontier (p\<lparr>pl_last_boundary := c\<rparr>) = prediction_frontier p"
  "prediction_frontier (prediction_invalidate reason p) = prediction_frontier p"
  "prediction_frontier (prediction_terminate reason p) = None"
  "prediction_frontier (activate_at tick p) = Some tick"
  "prediction_frontier (reconciled cursor tick p) = Some tick"
  by (simp_all add: prediction_frontier_def prediction_invalidate_def prediction_terminate_def activate_at_def
      reconciled_def Let_def)

lemma observed_simps [simp]:
  "pl_last_commit (prediction_invalidate reason p) = pl_last_commit p"
  "pl_last_commit (prediction_terminate reason p) = pl_last_commit p"
  "pl_last_commit (invalidate_for_recovery rr p) = pl_last_commit p"
  "pl_last_commit (activate_at tick p) = pl_last_commit p"
  "pl_last_commit (reconciled cursor tick p) = Some cursor"
  "pl_key (prediction_invalidate reason p) = pl_key p"
  "pl_key (prediction_terminate reason p) = pl_key p"
  "pl_key (invalidate_for_recovery rr p) = pl_key p"
  "pl_key (activate_at tick p) = pl_key p"
  "pl_key (reconciled cursor tick p) = pl_key p"
  "prediction_frontier (invalidate_for_recovery rr p) = prediction_frontier p"
  by (simp_all add: prediction_invalidate_def prediction_terminate_def activate_at_def reconciled_def
      invalidate_for_recovery_def Let_def) (simp_all add: prediction_frontier_def prediction_invalidate_def)

lemma observe_boundary_simps [simp]:
  "pl_last_commit (observe_boundary p n) = pl_last_commit p" "pl_key (observe_boundary p n) = pl_key p"
  "prediction_frontier (observe_boundary p n) = prediction_frontier p"
  by (simp_all add: observe_boundary_def split: option.split prod.split)

lemma observe_boundary_ok: "prediction_ok p \<Longrightarrow> prediction_ok (observe_boundary p n)"
  by (simp add: observe_boundary_def invalidation_ok split: option.split prod.split)

lemma synchronized_current:
  assumes "lineage_ok key n" "cn_state n = Synchronized"
  obtains c t where "cn_current n = Some c" "current_tick n = Some t"
proof -
  obtain c where c: "cn_current n = Some c" using assms by (auto simp: lineage_ok_def)
  then have "newest_current (cn_retained n) (Some c)" "om_wf (cn_retained n)"
    using assms(1) by (auto simp: lineage_ok_def)
  then obtain r where "map_of (cn_retained n) c = Some r" by (metis newest_current_lookup)
  then show ?thesis using that c by (simp add: current_tick_def)
qed

text \<open>The frame of a reconciliation: what it may do to the observation and the frontier.\<close>

lemma reconcile_committed_frame:
  assumes ok: "prediction_ok p" and out: "reconcile_committed p cursor tick replay h = (r, p', h')"
    and fr: "\<not> frontier_ahead p tick"
  shows "pl_key p' = pl_key p" "pl_last_commit p' = Some cursor"
    "prediction_frontier p' = Some tick \<or> prediction_frontier p' = prediction_frontier p"
    "(\<exists>o'. r = Ok o') \<or> (\<exists>t e. r = Err (ReplayFailed t e))"
proof -
  have "pl_key p' = pl_key p \<and> pl_last_commit p' = Some cursor
     \<and> (prediction_frontier p' = Some tick \<or> prediction_frontier p' = prediction_frontier p)
     \<and> ((\<exists>o'. r = Ok o') \<or> (\<exists>t e. r = Err (ReplayFailed t e)))"
  proof (cases "pl_state p")
    case (PredictionActive f)
    then have "f \<le> tick" using fr by (simp add: frontier_ahead_def prediction_frontier_def)
    from reconcile_active[OF ok PredictionActive this, of cursor replay h]
    show ?thesis unfolding out by (auto simp: replay_result_def split: if_splits)
  next
    case (PredictionInvalidated reason f)
    then show ?thesis using fr out
      by (auto simp: reconcile_committed_eq[OF ok] split: if_splits)
  qed
  then show "pl_key p' = pl_key p" "pl_last_commit p' = Some cursor"
    "prediction_frontier p' = Some tick \<or> prediction_frontier p' = prediction_frontier p"
    "(\<exists>o'. r = Ok o') \<or> (\<exists>t e. r = Err (ReplayFailed t e))" by blast+
qed

definition terminated :: "'i prediction \<Rightarrow> bool" where
  "terminated p \<longleftrightarrow> terminal_reason p \<noteq> None"

lemma terminal_reason_same [simp]:
  "terminal_reason (p\<lparr>pl_last_commit := c\<rparr>) = terminal_reason p"
  "terminal_reason (p\<lparr>pl_last_boundary := c\<rparr>) = terminal_reason p"
  by (simp_all add: terminal_reason_def)

lemma invalidate_for_recovery_terminated:
  "terminated p \<Longrightarrow> invalidate_for_recovery rr p = p" "terminated p \<Longrightarrow> prediction_connection_lost p = p"
  "terminated p \<Longrightarrow> local_application_failed p = p"
  by (auto simp: terminated_def invalidate_for_recovery_def prediction_connection_lost_def local_application_failed_def)

lemma terminated_terminate: "terminated (prediction_terminate reason p) \<longleftrightarrow> is_terminal reason"
  by (simp add: terminated_def terminal_reason_def prediction_terminate_def)

lemma observe_boundary_terminated: "terminated p \<Longrightarrow> terminal_reason (observe_boundary p n) = terminal_reason p"
  by (auto simp: observe_boundary_def terminated_def invalidate_for_recovery_def split: option.splits)

lemma host_failure_not_terminated: "host_failure (pl_state p) \<Longrightarrow> \<not> terminated p"
  by (auto simp: host_failure_def terminated_def terminal_reason_def split: prediction_state.splits prediction_reason.splits)

text \<open>One operation's effect on a prediction that follows \<open>s\<close>.\<close>

definition moves :: "'s client_set \<Rightarrow> 'i prediction \<Rightarrow> 'i prediction \<Rightarrow> bool" where
  "moves s p p' \<longleftrightarrow> prediction_ok p' \<and> follows s p' \<and> pl_key p' = pl_key p
     \<and> at_least (pl_last_commit p) (pl_last_commit p')
     \<and> (terminated p \<longrightarrow> terminated p')
     \<and> (\<not> terminated p' \<longrightarrow> at_least (prediction_frontier p) (prediction_frontier p'))"

lemma moves_refl: "prediction_ok p \<Longrightarrow> follows s p \<Longrightarrow> moves s p p"
  by (simp add: moves_def)

lemma movesI:
  assumes "prediction_ok p'" "pl_key p' = pl_key p" "terminated p \<Longrightarrow> terminated p'"
    and "at_least (pl_last_commit p) (pl_last_commit p')" "at_least (prediction_frontier p) (prediction_frontier p')"
    and "at_least (pl_last_commit p') (committed_cursor s (pl_key p))"
    and "at_least (prediction_frontier p') (committed_tick s (pl_key p))"
  shows "moves s p p'"
  using assms by (simp add: moves_def follows_def)

lemma followsD:
  assumes "follows s p"
  shows "at_least (pl_last_commit p) (committed_cursor s (pl_key p))"
    "at_least (prediction_frontier p) (committed_tick s (pl_key p))"
  using assms by (simp_all add: follows_def)

lemma invalidation_moves:
  assumes ok: "prediction_ok p" and f: "follows s p"
  shows "moves s p (prediction_connection_lost p)" "moves s p (local_application_failed p)"
    "moves s p (participant_membership_ended p)" "moves s p (prediction_session_closed p)"
    "moves s p (invalidate_for_recovery rr p)"
proof -
  show "moves s p (prediction_connection_lost p)"
    using moves_refl[OF ok f] invalidation_ok(1)[OF ok] followsD[OF f]
    by (auto simp: prediction_connection_lost_def terminated_def intro!: movesI)
  show "moves s p (local_application_failed p)"
    using moves_refl[OF ok f] invalidation_ok(2)[OF ok] followsD[OF f]
    by (auto simp: local_application_failed_def terminated_def intro!: movesI)
  show "moves s p (invalidate_for_recovery rr p)"
    using moves_refl[OF ok f] invalidation_ok(5)[OF ok, of rr] followsD[OF f]
    by (auto simp: invalidate_for_recovery_def terminated_def intro!: movesI)
  show "moves s p (participant_membership_ended p)" "moves s p (prediction_session_closed p)"
    using f prediction_terminate_ok[OF ok]
    by (simp_all add: participant_membership_ended_def prediction_session_closed_def moves_def follows_def
        terminated_terminate)
qed

lemma admit_local_frame:
  "pl_state (snd (admit_local p t i b)) = pl_state p" "pl_key (snd (admit_local p t i b)) = pl_key p"
  "pl_last_commit (snd (admit_local p t i b)) = pl_last_commit p"
  by (auto simp: admit_local_def split: prediction_state.splits if_splits option.splits)

lemma admit_local_moves:
  assumes "prediction_ok p" "follows s p"
  shows "moves s p (snd (admit_local p t i b))"
  using assms admit_local_ok[OF assms(1), of t i b] admit_local_frame[of p t i b]
  by (simp add: moves_def follows_def prediction_frontier_def terminated_def terminal_reason_def)

lemma observe_boundary_moves:
  assumes "prediction_ok p" "follows s p"
  shows "moves s p (observe_boundary p n)"
  using assms observe_boundary_ok[OF assms(1), of n] observe_boundary_terminated[of p n]
  by (auto simp: moves_def follows_def terminated_def)

lemma moves_trans: "moves s p q \<Longrightarrow> moves s q r \<Longrightarrow> moves s p r"
  unfolding moves_def using at_least_trans by (metis (no_types, lifting))

text \<open>The outcomes a host has to expect from \<open>observe_replication\<close>.\<close>

definition expected_observation ::
  "'s client_set \<Rightarrow> 'i prediction \<Rightarrow> (reconciliation_outcome, 'e reconciliation_error) result \<Rightarrow> bool" where
  "expected_observation s p r \<longleftrightarrow> (case r of Ok _ \<Rightarrow> True
     | Err (ReplayFailed _ _) \<Rightarrow> True
     | Err ReplicationLineageMissing \<Rightarrow> fmlookup (cs_lineages s) (pl_key p) = None
     | Err _ \<Rightarrow> False)"

lemma expected_observation_simps:
  "expected_observation s p (Ok v)"
  "expected_observation s (observe_boundary p n) r = expected_observation s p r"
  by (simp_all only: expected_observation_def observe_boundary_simps result.case)

lemma observe_commit_moves:
  assumes ok: "prediction_ok p" and f: "follows s p" and n: "fmlookup (cs_lineages s) (pl_key p) = Some n"
    and c: "cn_current n = Some c" "current_tick n = Some t" and alive: "\<not> terminated p"
  shows "moves s p (fst (snd (observe_commit p n c replay h)))
     \<and> expected_observation s p (fst (observe_commit p n c replay h))"
proof -
  note known = followsD[OF f]
  have com: "committed_cursor s (pl_key p) = Some c" "committed_tick s (pl_key p) = Some t"
    using n c by (simp_all add: committed_cursor_def committed_tick_def)
  have fr: "\<not> frontier_ahead p t"
    using known(2) com by (auto simp: frontier_ahead_def linorder_not_less split: option.splits)
  obtain r p' h' where out: "reconcile_committed p c t replay h = (r, p', h')" by (metis prod.exhaust)
  note frame = reconcile_committed_frame[OF ok out fr]
  have ok': "prediction_ok p'" using reconcile_committed_ok[OF ok, of c t replay h] out by simp
  have settled: "moves s p p' \<and> expected_observation s p r"
  proof
    show "moves s p p'"
      using frame known com alive ok' by (intro movesI) auto
    show "expected_observation s p r" using frame(4) by (auto simp: expected_observation_def)
  qed
  show ?thesis
  proof (cases "pl_last_commit p")
    case None
    then show ?thesis using settled c out by (simp add: observe_commit_def)
  next
    case (Some observed)
    then have le: "observed \<le> c" using known(1) com by simp
    show ?thesis
    proof (cases "c = observed")
      case True
      then show ?thesis using Some moves_refl[OF ok f] by (simp add: observe_commit_def expected_observation_def Let_def)
    next
      case False
      then have "\<not> c < observed" using le by simp
      then show ?thesis using False Some settled c out by (simp add: observe_commit_def)
    qed
  qed
qed

lemma observe_replication_moves:
  assumes s: "client_ok s" and ok: "prediction_ok p" and f: "follows s p"
  shows "moves s p (fst (snd (observe_replication p s replay h)))
     \<and> expected_observation s p (fst (observe_replication p s replay h))"
proof (cases "fmlookup (cs_lineages s) (pl_key p)")
  case None
  then show ?thesis using moves_refl[OF ok f] by (simp add: observe_replication_def expected_observation_def)
next
  case (Some n)
  let ?p = "observe_boundary p n"
  have mv: "moves s p ?p" by (rule observe_boundary_moves[OF ok f])
  then have ok1: "prediction_ok ?p" and f1: "follows s ?p" by (simp_all add: moves_def)
  have mv2: "moves s p (invalidate_for_recovery rr ?p)" for rr
    by (rule moves_trans[OF mv invalidation_moves(5)[OF ok1 f1]])
  show ?thesis
  proof (cases "cn_state n")
    case (FullSnapshotRequired reason)
    then show ?thesis using Some mv mv2
      by (simp add: observe_replication_def expected_observation_def Let_def split: option.split)
  next
    case Synchronized
    have "lineage_ok (pl_key p) n" by (rule client_okD(1)[OF s Some])
    then obtain c t where c: "cn_current n = Some c" "current_tick n = Some t"
      using Synchronized by (rule synchronized_current)
    show ?thesis
    proof (cases "terminal_reason ?p")
      case None
      have "moves s ?p (fst (snd (observe_commit ?p n c replay h)))
          \<and> expected_observation s ?p (fst (observe_commit ?p n c replay h))"
        by (rule observe_commit_moves[OF ok1 f1 _ c]) (use Some None in \<open>simp_all add: terminated_def\<close>)
      then show ?thesis using Some Synchronized c None moves_trans[OF mv]
        by (simp add: observe_replication_def expected_observation_simps Let_def)
    next
      case T: (Some r)
      then show ?thesis using Some Synchronized c mv
        by (simp add: observe_replication_def expected_observation_def Let_def)
    qed
  qed
qed

lemma confirm_host_restored_eq:
  "confirm_host_restored p s = Some
     (case fmlookup (cs_lineages s) (pl_key p) of
        None \<Rightarrow> (Err ActivationLineageMissing, p)
      | Some n \<Rightarrow>
        if \<not> host_failure (pl_state p) then (Err NotHostStateFailure, p)
        else if cn_state n \<noteq> Synchronized then (Err ReplicationNotSynchronized, p)
        else case current_tick n of
          None \<Rightarrow> (Err ActivationMissingCommittedTick, p)
        | Some tick \<Rightarrow>
            if frontier_ahead p tick then (Err ActivationFrontierRegression, p)
            else (Ok tick, (activate_at tick p)\<lparr>pl_last_commit := cn_current n,
                     pl_last_boundary := (case cn_boundary n of Some (b, _) \<Rightarrow> Some b | None \<Rightarrow> pl_last_boundary p)\<rparr>))"
  by (auto simp: confirm_host_restored_def current_tick_def split: option.split bind_split)

lemma confirm_host_restored_total:
  "confirm_host_restored p s =
     Some (fst (the (confirm_host_restored p s)), snd (the (confirm_host_restored p s)))"
  by (simp only: confirm_host_restored_eq option.sel prod.collapse)

lemma confirm_host_restored_moves:
  assumes ok: "prediction_ok p" and f: "follows s p" and run: "confirm_host_restored p s = Some (r, p')"
  shows "moves s p p'"
proof (cases "\<exists>tick. r = Ok tick")
  case False
  then have "p' = p"
    using run by (auto simp: confirm_host_restored_eq split: option.splits if_splits)
  then show ?thesis using moves_refl[OF ok f] by simp
next
  case True
  then obtain n tick where n: "fmlookup (cs_lineages s) (pl_key p) = Some n" "current_tick n = Some tick"
    "\<not> frontier_ahead p tick" "host_failure (pl_state p)"
    and p': "p' = (activate_at tick p)\<lparr>pl_last_commit := cn_current n,
                     pl_last_boundary := (case cn_boundary n of Some (b, _) \<Rightarrow> Some b | None \<Rightarrow> pl_last_boundary p)\<rparr>"
    using run by (auto simp: confirm_host_restored_eq split: option.splits if_splits)
  have com: "committed_cursor s (pl_key p) = cn_current n" "committed_tick s (pl_key p) = Some tick"
    using n by (simp_all add: committed_cursor_def committed_tick_def)
  show ?thesis unfolding p'
    by (rule movesI)
       (use followsD[OF f] com activate_at_ok[OF ok] host_failure_not_terminated[OF n(4)] in simp_all)
qed

lemma prediction_require_full_moves:
  assumes s: "client_ok s" and ok: "prediction_ok p" and f: "follows s p"
    and run: "prediction_require_full p s = (r, p', s')"
  shows "client_ok s' \<and> client_below s s' \<and> moves s' p p'"
proof -
  obtain r1 s1 where r1: "require_connection_replacement_full s (pl_key p) = (r1, s1)" by fastforce
  have s1: "client_ok s1" "client_below s s1" using require_full_ok[OF s, of "pl_key p"] r1 by simp_all
  have f1: "follows s1 p" by (rule follows_below[OF f s1(2)])
  have "moves s1 p (invalidate_for_recovery rr (p\<lparr>pl_last_boundary := b\<rparr>))" for rr b
  proof -
    have "prediction_ok (p\<lparr>pl_last_boundary := b\<rparr>)" "follows s1 (p\<lparr>pl_last_boundary := b\<rparr>)"
      using ok f1 by (simp_all add: follows_def)
    from invalidation_moves(5)[OF this, of rr] show ?thesis by (simp add: moves_def terminated_def)
  qed
  moreover have "moves s1 p (invalidate_for_recovery rr p)" for rr by (rule invalidation_moves(5)[OF ok f1])
  ultimately show ?thesis using run r1 s1 moves_refl[OF ok f1]
    by (auto simp: prediction_require_full_def Let_def split: result.splits option.splits)
qed

section \<open>The predicting client as a machine\<close>

type_synonym ('s, 'i, 'h) predictor = "'s client_set \<times> 'i prediction \<times> 'h"

datatype ('s, 'd, 'e, 'i, 'f, 'h) predictor_call =
    PredictorReplication "('s, 'd, 'e) client_call"
  | PredictorAdmit simulation_tick 'i nat
  | PredictorConnectionLost
  | PredictorLocalFailure
  | PredictorMembershipEnded
  | PredictorSessionClosed
  | PredictorInvalidate client_recovery_reason
  | PredictorRequireFull
  | PredictorConfirmRestored
  | PredictorObserve "('i, 'f, 'h) replay"

fun predictor_step ::
  "('s, 'i, 'h) predictor \<Rightarrow> ('s, 'd, 'e, 'i, 'f, 'h) predictor_call \<Rightarrow> ('s, 'i, 'h) predictor exec" where
  "predictor_step (s, p, h) (PredictorReplication x) = map_option (\<lambda>s'. (s', p, h)) (client_step s x)"
| "predictor_step (s, p, h) (PredictorAdmit t i b) = Some (s, snd (admit_local p t i b), h)"
| "predictor_step (s, p, h) PredictorConnectionLost = Some (s, prediction_connection_lost p, h)"
| "predictor_step (s, p, h) PredictorLocalFailure = Some (s, local_application_failed p, h)"
| "predictor_step (s, p, h) PredictorMembershipEnded = Some (s, participant_membership_ended p, h)"
| "predictor_step (s, p, h) PredictorSessionClosed = Some (s, prediction_session_closed p, h)"
| "predictor_step (s, p, h) (PredictorInvalidate rr) = Some (s, invalidate_for_recovery rr p, h)"
| "predictor_step (s, p, h) PredictorRequireFull =
     (case prediction_require_full p s of (_, p', s') \<Rightarrow> Some (s', p', h))"
| "predictor_step (s, p, h) PredictorConfirmRestored =
     map_option (\<lambda>(_, p'). (s, p', h)) (confirm_host_restored p s)"
| "predictor_step (s, p, h) (PredictorObserve replay) =
     (case observe_replication p s replay h of (_, p', h') \<Rightarrow> Some (s, p', h'))"

fun predictor_call_ok :: "('s, 'd, 'e, 'i, 'f, 'h) predictor_call \<Rightarrow> bool" where
  "predictor_call_ok (PredictorReplication x) = keeps_lineages x"
| "predictor_call_ok _ = True"

fun predictor_ok :: "('s, 'i, 'h) predictor \<Rightarrow> bool" where
  "predictor_ok (s, p, h) \<longleftrightarrow> client_ok s \<and> prediction_ok p \<and> follows s p"

fun predictor_below :: "('s, 'i, 'h) predictor \<Rightarrow> ('s, 'i, 'h) predictor \<Rightarrow> bool" where
  "predictor_below (s, p, h) (s', p', h') \<longleftrightarrow> client_below s s' \<and> pl_key p' = pl_key p
     \<and> at_least (pl_last_commit p) (pl_last_commit p')
     \<and> (terminated p \<longrightarrow> terminated p')
     \<and> (\<not> terminated p' \<longrightarrow> at_least (prediction_frontier p) (prediction_frontier p'))"

lemma moves_predictor:
  "client_ok s' \<Longrightarrow> client_below s s' \<Longrightarrow> moves s' p p' \<Longrightarrow>
     predictor_ok (s', p', h') \<and> predictor_below (s, p, h) (s', p', h')"
  by (simp add: moves_def)

lemma predictor_step_ok:
  assumes "predictor_ok (s, p, h)" "predictor_call_ok x"
  shows "\<exists>q'. predictor_step (s, p, h) x = Some q' \<and> predictor_ok q' \<and> predictor_below (s, p, h) q'"
proof -
  have s: "client_ok s" and ok: "prediction_ok p" and f: "follows s p" using assms(1) by auto
  note stay = moves_predictor[OF s client_below_refl]
  show ?thesis
  proof (cases x)
    case (PredictorReplication y)
    then have keeps: "keeps_lineages y" using assms(2) by simp
    then have "client_call_ok y" by (cases y) auto
    then obtain s' where s': "client_step s y = Some s'" "client_ok s'" "client_below s s'"
      using client_step_ok[OF s] keeps by blast
    have "moves s' p p" by (rule moves_refl[OF ok follows_below[OF f s'(3)]])
    from moves_predictor[OF s'(2,3) this] show ?thesis using s'(1) PredictorReplication by simp
  next
    case PredictorRequireFull
    obtain r p' s' where run: "prediction_require_full p s = (r, p', s')" by (metis prod.exhaust)
    from prediction_require_full_moves[OF s ok f run] show ?thesis
      using moves_predictor[of s' s p p'] run PredictorRequireFull by simp
  next
    case PredictorConfirmRestored
    obtain r p' where run: "confirm_host_restored p s = Some (r, p')"
      using that[OF confirm_host_restored_total] .
    from stay[OF confirm_host_restored_moves[OF ok f run]] show ?thesis using run PredictorConfirmRestored by simp
  next
    case (PredictorObserve replay)
    obtain r p' h' where run: "observe_replication p s replay h = (r, p', h')" by (metis prod.exhaust)
    have "moves s p p'" using observe_replication_moves[OF s ok f, of replay h] run by simp
    from stay[OF this] show ?thesis using run PredictorObserve by simp
  qed (use stay[OF admit_local_moves[OF ok f]] stay[OF invalidation_moves(1)[OF ok f]]
         stay[OF invalidation_moves(2)[OF ok f]] stay[OF invalidation_moves(3)[OF ok f]]
         stay[OF invalidation_moves(4)[OF ok f]] stay[OF invalidation_moves(5)[OF ok f]] in simp_all)
qed

lemma predictor_below_refl: "predictor_below q q"
  by (cases q) simp

lemma predictor_below_trans: "predictor_below a b \<Longrightarrow> predictor_below b c \<Longrightarrow> predictor_below a c"
proof (cases a, cases b, cases c)
  fix s1 p1 h1 s2 p2 h2 s3 p3 h3
  assume q: "a = (s1, p1, h1)" "b = (s2, p2, h2)" "c = (s3, p3, h3)"
    and "predictor_below a b" "predictor_below b c"
  then have ab: "predictor_below (s1, p1, h1) (s2, p2, h2)" and bc: "predictor_below (s2, p2, h2) (s3, p3, h3)"
    by simp_all
  have "client_below s1 s3" using ab bc client_below_trans[of s1 s2 s3] by simp
  moreover have "at_least (pl_last_commit p1) (pl_last_commit p3)"
    using ab bc at_least_trans[of "pl_last_commit p1" "pl_last_commit p2"] by simp
  moreover have "at_least (prediction_frontier p1) (prediction_frontier p3)" if "\<not> terminated p3"
    using ab bc that at_least_trans[of "prediction_frontier p1" "prediction_frontier p2"] by auto
  ultimately show "predictor_below a c" using ab bc q by simp
qed

interpretation predictor_machine: monotone_machine predictor_step predictor_ok predictor_call_ok predictor_below
proof
  fix q :: "('a, 'b, 'c) predictor" and x :: "('a, 'd, 'e, 'b, 'f, 'c) predictor_call"
  assume a: "predictor_ok q" "predictor_call_ok x"
  obtain s p h where q: "q = (s, p, h)" by (cases q)
  from predictor_step_ok[OF a(1)[unfolded q] a(2)]
  show "\<exists>q'. predictor_step q x = Some q' \<and> predictor_ok q'" unfolding q by blast
  fix q'
  assume "predictor_step q x = Some q'"
  then show "predictor_below q q'" using predictor_step_ok[OF a(1)[unfolded q] a(2)] by (auto simp: q)
qed (rule predictor_below_refl, erule (1) predictor_below_trans)

end
