(* ===== verification/Authority_Replication.thy ===== *)
theory Authority_Replication
  imports Replication_Types Delivery_Types
begin

text \<open>
  \<open>crates/runen-net/src/replication/authority.rs\<close>: one lineage per participant on the authority,
  with its pending candidate, retained baselines and emission evidence, and the session that bounds
  all lineages together. A computation is \<open>None\<close> exactly where the code panics; the retention loop
  is a \<open>partial_function\<close>, so not ending would be \<open>None\<close> too.
\<close>

section \<open>State\<close>

datatype snapshot_kind = FullKind | DeltaKind

datatype authority_recovery_reason =
    AuthorityInitialBaseline | RecoveryDemand | BaselineEvicted | ConfirmedBaselineUnavailable
  | AuthorityConnectionReplacement

datatype authority_state =
    DeltaEligible replication_cursor
  | AuthorityFullRequired authority_recovery_reason recovery_generation "replication_cursor option"

datatype authority_prepare_error =
    PendingCandidateExists | CursorNotNewer | PrepareTickRegression | DeltaNotEligible
  | BaselineUnavailable | CandidateTooLarge | RecoveryDesignationRequiresRecovery
  | RecoveryFullNotNewerThanWatermark

datatype authority_operation_error = Unauthorized | NoPendingCandidate | RecoveryGenerationExhausted

datatype authority_ack_outcome =
    DuplicateConfirmation | StaleConfirmation | Confirmed | FutureConfirmation
  | UnverifiableConfirmation

datatype authority_session_error =
    AuthorityLineageExists
  | AuthorityUnknownLineage
  | AggregateResourceLimitExceeded
  | PrepareError authority_prepare_error
  | OperationError authority_operation_error

text \<open>\<open>PendingSnapshotSummary\<close> and \<open>EmittedSnapshot\<close> have the same fields.\<close>

record snapshot_summary =
  ss_kind :: snapshot_kind
  ss_base_cursor :: "replication_cursor option"
  ss_target_cursor :: replication_cursor
  ss_target_tick :: simulation_tick
  ss_recovery_generation :: "recovery_generation option"

record emission_evidence =
  ev_kind :: snapshot_kind
  ev_recovery_generation :: "recovery_generation option"

datatype ('s, 'd) snapshot_candidate =
    FullCandidate "'s full_snapshot" "recovery_generation option"
  | DeltaCandidate replication_cursor replication_cursor simulation_tick "'s accounted_state" 'd nat

fun candidate_state_bytes :: "('s, 'd) snapshot_candidate \<Rightarrow> nat" where
  "candidate_state_bytes (FullCandidate snap _) = ac_bytes (fs_image snap)"
| "candidate_state_bytes (DeltaCandidate _ _ _ img _ _) = ac_bytes img"

fun total_candidate_bytes :: "('s, 'd) snapshot_candidate \<Rightarrow> nat" where
  "total_candidate_bytes (FullCandidate snap _) = ac_bytes (fs_image snap)"
| "total_candidate_bytes (DeltaCandidate _ _ _ img _ extra) = saturating_add (ac_bytes img) extra"

record ('s, 'd) authority_lineage =
  an_key :: lineage_key
  an_limits :: retention_limits
  an_state :: authority_state
  an_generation :: recovery_generation
  an_latest_confirmed :: "replication_cursor option"
  an_greatest_emitted :: "replication_cursor option"
  an_greatest_emitted_tick :: "simulation_tick option"
  an_retained :: "'s retained_map"
  an_retained_bytes :: nat
  an_evidence :: "(replication_cursor \<times> emission_evidence) list"
  an_pending :: "('s, 'd) snapshot_candidate option"

definition authority_lineage_new :: "lineage_key \<Rightarrow> retention_limits \<Rightarrow> ('s, 'd) authority_lineage" where
  "authority_lineage_new key limits =
     \<lparr>an_key = key, an_limits = limits,
      an_state = AuthorityFullRequired AuthorityInitialBaseline (RecoveryGeneration 0) None,
      an_generation = RecoveryGeneration 0, an_latest_confirmed = None, an_greatest_emitted = None,
      an_greatest_emitted_tick = None, an_retained = [], an_retained_bytes = 0, an_evidence = [],
      an_pending = None\<rparr>"

definition baseline_available :: "('s, 'd) authority_lineage \<Rightarrow> replication_cursor \<Rightarrow> bool" where
  "baseline_available n c \<longleftrightarrow> map_of (an_retained n) c \<noteq> None"

fun candidate_summary :: "('s, 'd) snapshot_candidate \<Rightarrow> snapshot_summary" where
  "candidate_summary (FullCandidate snap g) =
     \<lparr>ss_kind = FullKind, ss_base_cursor = None, ss_target_cursor = fs_target_cursor snap,
      ss_target_tick = fs_target_tick snap, ss_recovery_generation = g\<rparr>"
| "candidate_summary (DeltaCandidate base target tick _ _ _) =
     \<lparr>ss_kind = DeltaKind, ss_base_cursor = Some base, ss_target_cursor = target,
      ss_target_tick = tick, ss_recovery_generation = None\<rparr>"

definition pending_summary :: "('s, 'd) authority_lineage \<Rightarrow> snapshot_summary option" where
  "pending_summary n = map_option candidate_summary (an_pending n)"

definition pending_state_bytes :: "('s, 'd) authority_lineage \<Rightarrow> nat" where
  "pending_state_bytes n = (case an_pending n of None \<Rightarrow> 0 | Some c \<Rightarrow> candidate_state_bytes c)"

definition pending_candidate_bytes :: "('s, 'd) authority_lineage \<Rightarrow> nat" where
  "pending_candidate_bytes n = (case an_pending n of None \<Rightarrow> 0 | Some c \<Rightarrow> total_candidate_bytes c)"

section \<open>Preparing\<close>

definition validate_new_emission_target ::
  "('s, 'd) authority_lineage \<Rightarrow> replication_cursor \<Rightarrow> simulation_tick \<Rightarrow>
     (unit, authority_prepare_error) result" where
  "validate_new_emission_target n cursor tick =
     (if (case an_greatest_emitted n of None \<Rightarrow> False | Some g \<Rightarrow> cursor \<le> g) then Err CursorNotNewer
      else if (case an_greatest_emitted_tick n of None \<Rightarrow> False | Some g \<Rightarrow> tick < g)
      then Err PrepareTickRegression else Ok ())"

definition candidate_fits :: "('s, 'd) authority_lineage \<Rightarrow> nat \<Rightarrow> nat \<Rightarrow> bool" where
  "candidate_fits n state_bytes additional =
     (if rl_max_state_image_bytes (an_limits n) < state_bytes then False
      else let m = rl_max_candidate_bytes (an_limits n)
           in state_bytes \<le> m \<and> additional \<le> m - state_bytes)"

type_synonym ('s, 'd, 'r) lineage_op = "'r \<times> ('s, 'd) authority_lineage"

definition lineage_prepare_full ::
  "('s, 'd) authority_lineage \<Rightarrow> 's full_snapshot \<Rightarrow> bool \<Rightarrow>
     ('s, 'd, (snapshot_summary, authority_prepare_error) result) lineage_op" where
  "lineage_prepare_full n snap designate =
     (if an_pending n \<noteq> None then (Err PendingCandidateExists, n)
      else case validate_new_emission_target n (fs_target_cursor snap) (fs_target_tick snap) of
        Err e \<Rightarrow> (Err e, n)
      | Ok _ \<Rightarrow>
        if \<not> candidate_fits n (ac_bytes (fs_image snap)) 0 then (Err CandidateTooLarge, n)
        else
          let designation =
            (if \<not> designate then Ok None
             else case an_state n of
               DeltaEligible _ \<Rightarrow> Err RecoveryDesignationRequiresRecovery
             | AuthorityFullRequired _ g watermark \<Rightarrow>
                 if (case watermark of None \<Rightarrow> False | Some w \<Rightarrow> fs_target_cursor snap \<le> w)
                 then Err RecoveryFullNotNewerThanWatermark else Ok (Some g))
          in case designation of
               Err e \<Rightarrow> (Err e, n)
             | Ok g \<Rightarrow> (Ok (candidate_summary (FullCandidate snap g :: ('s, 'd) snapshot_candidate)),
                         n\<lparr>an_pending := Some (FullCandidate snap g)\<rparr>))"

definition lineage_prepare_delta ::
  "('s, 'd) authority_lineage \<Rightarrow> replication_cursor \<Rightarrow> simulation_tick \<Rightarrow> 's accounted_state \<Rightarrow> 'd \<Rightarrow> nat \<Rightarrow>
     ('s, 'd, (snapshot_summary, authority_prepare_error) result) lineage_op" where
  "lineage_prepare_delta n target tick img delta additional =
     (if an_pending n \<noteq> None then (Err PendingCandidateExists, n)
      else case an_state n of
        AuthorityFullRequired _ _ _ \<Rightarrow> (Err DeltaNotEligible, n)
      | DeltaEligible base_cursor \<Rightarrow> (case map_of (an_retained n) base_cursor of
          None \<Rightarrow> (Err BaselineUnavailable, n)
        | Some base \<Rightarrow>
          if target \<le> base_cursor then (Err CursorNotNewer, n)
          else case validate_new_emission_target n target tick of
            Err e \<Rightarrow> (Err e, n)
          | Ok _ \<Rightarrow>
            if tick < rt_tick base then (Err PrepareTickRegression, n)
            else if \<not> candidate_fits n (ac_bytes img) additional then (Err CandidateTooLarge, n)
            else let cand = DeltaCandidate base_cursor target tick img delta additional
                 in (Ok (candidate_summary cand), n\<lparr>an_pending := Some cand\<rparr>)))"

definition lineage_cancel_pending :: "('s, 'd) authority_lineage \<Rightarrow> ('s, 'd, bool) lineage_op" where
  "lineage_cancel_pending n = (an_pending n \<noteq> None, n\<lparr>an_pending := None\<rparr>)"

section \<open>Emission\<close>

text \<open>
  The loop of \<open>retain_authority_state\<close>: evict the oldest image that is not the protected base until
  the new one fits; \<open>False\<close> when only the base is left in the way.
\<close>

partial_function (option) retain_room ::
  "nat \<Rightarrow> nat \<Rightarrow> nat \<Rightarrow> replication_cursor option \<Rightarrow> 's retained_map \<Rightarrow> nat \<Rightarrow>
     (bool \<times> 's retained_map \<times> nat) exec" where
  "retain_room max_count max_bytes target_bytes protected m bytes = do {
     full \<leftarrow> (if max_count \<le> length m then Some True
             else map_option (\<lambda>room. room < bytes) (checked_sub max_bytes target_bytes));
     (if \<not> full then Some (True, m, bytes)
      else case find (\<lambda>e. Some (fst e) \<noteq> protected) m of
        None \<Rightarrow> Some (False, m, bytes)
      | Some e \<Rightarrow> do {
          r \<leftarrow> map_of m (fst e);
          bytes' \<leftarrow> checked_sub bytes (ac_bytes (rt_image r));
          retain_room max_count max_bytes target_bytes protected (om_remove (fst e) m) bytes' }) }"

definition retain_authority_state ::
  "('s, 'd) authority_lineage \<Rightarrow> replication_cursor \<Rightarrow> simulation_tick \<Rightarrow> 's accounted_state \<Rightarrow>
     ('s, 'd) authority_lineage exec" where
  "retain_authority_state n cursor tick img = do {
     let protected = (case an_state n of DeltaEligible base \<Rightarrow> Some base
                      | AuthorityFullRequired _ _ _ \<Rightarrow> None);
     (fits, m, bytes) \<leftarrow> retain_room (rl_max_retained_images (an_limits n))
        (rl_max_retained_state_bytes (an_limits n)) (ac_bytes img) protected
        (an_retained n) (an_retained_bytes n);
     if \<not> fits then Some (n\<lparr>an_retained := m, an_retained_bytes := bytes\<rparr>)
     else do {
       bytes' \<leftarrow> checked_add bytes (ac_bytes img);
       if map_of m cursor \<noteq> None then None
       else Some (n\<lparr>an_retained := om_insert cursor \<lparr>rt_tick = tick, rt_image = img\<rparr> m,
                    an_retained_bytes := bytes'\<rparr>) } }"

text \<open>\<open>retain_emission_evidence\<close> removes the oldest key, the head of the list, while at the limit.\<close>

fun evidence_room ::
  "nat \<Rightarrow> (replication_cursor \<times> emission_evidence) list \<Rightarrow>
     (replication_cursor \<times> emission_evidence) list exec" where
  "evidence_room limit [] = (if limit \<le> 0 then None else Some [])"
| "evidence_room limit (e # m) =
     (if limit \<le> length (e # m) then evidence_room limit m else Some (e # m))"

definition retain_emission_evidence ::
  "('s, 'd) authority_lineage \<Rightarrow> replication_cursor \<Rightarrow> emission_evidence \<Rightarrow>
     ('s, 'd) authority_lineage exec" where
  "retain_emission_evidence n cursor ev = do {
     m \<leftarrow> evidence_room (rl_max_emission_evidence (an_limits n)) (an_evidence n);
     Some (n\<lparr>an_evidence := om_insert cursor ev m\<rparr>) }"

definition record_emitted_state ::
  "('s, 'd) authority_lineage \<Rightarrow> replication_cursor \<Rightarrow> simulation_tick \<Rightarrow> 's accounted_state \<Rightarrow>
     emission_evidence \<Rightarrow> ('s, 'd) authority_lineage exec" where
  "record_emitted_state n cursor tick img ev = do {
     n1 \<leftarrow> retain_authority_state
       (n\<lparr>an_greatest_emitted := Some cursor, an_greatest_emitted_tick := Some tick\<rparr>) cursor tick img;
     retain_emission_evidence n1 cursor ev }"

definition lineage_record_acceptance ::
  "('s, 'd) authority_lineage \<Rightarrow> delivery_acceptance \<Rightarrow>
     ('s, 'd, (snapshot_summary option, authority_operation_error) result) lineage_op exec" where
  "lineage_record_acceptance n acc =
     (if acc = DeliveryNotAccepted then Some (Ok None, n)
      else case an_pending n of
        None \<Rightarrow> Some (Err NoPendingCandidate, n)
      | Some cand \<Rightarrow> do {
          n' \<leftarrow> (case cand of
              FullCandidate snap g \<Rightarrow>
                record_emitted_state (n\<lparr>an_pending := None\<rparr>) (fs_target_cursor snap)
                  (fs_target_tick snap) (fs_image snap)
                  \<lparr>ev_kind = FullKind, ev_recovery_generation = g\<rparr>
            | DeltaCandidate base target tick img delta extra \<Rightarrow>
                record_emitted_state (n\<lparr>an_pending := None\<rparr>) target tick img
                  \<lparr>ev_kind = DeltaKind, ev_recovery_generation = None\<rparr>);
          Some (Ok (Some (candidate_summary cand)), n') })"

section \<open>Confirmation and recovery\<close>

definition install_new_recovery ::
  "authority_recovery_reason \<Rightarrow> recovery_generation \<Rightarrow> ('s, 'd) authority_lineage \<Rightarrow>
     ('s, 'd) authority_lineage" where
  "install_new_recovery reason g n =
     n\<lparr>an_pending := None, an_generation := g,
       an_state := AuthorityFullRequired reason g (an_greatest_emitted n)\<rparr>"

definition lineage_authorized :: "('s, 'd) authority_lineage \<Rightarrow> session \<Rightarrow> connection_handle \<Rightarrow> bool" where
  "lineage_authorized n s c \<longleftrightarrow> s_id s = lk_session (an_key n)
     \<and> is_authorized s (lk_participant (an_key n)) c"

definition lineage_acknowledge ::
  "('s, 'd) authority_lineage \<Rightarrow> session \<Rightarrow> connection_handle \<Rightarrow> replication_cursor \<Rightarrow>
     ('s, 'd, (authority_ack_outcome, authority_operation_error) result) lineage_op" where
  "lineage_acknowledge n s connection cursor =
     (if \<not> lineage_authorized n s connection then (Err Unauthorized, n)
      else if an_latest_confirmed n = Some cursor then (Ok DuplicateConfirmation, n)
      else if (case an_latest_confirmed n of None \<Rightarrow> False | Some latest \<Rightarrow> cursor < latest)
      then (Ok StaleConfirmation, n)
      else if (case an_greatest_emitted n of None \<Rightarrow> True | Some greatest \<Rightarrow> greatest < cursor)
      then (Ok FutureConfirmation, n)
      else case map_of (an_evidence n) cursor of
        None \<Rightarrow> (Ok UnverifiableConfirmation, n)
      | Some ev \<Rightarrow>
        let n1 = n\<lparr>an_latest_confirmed := Some cursor\<rparr>
        in (case an_state n of
              DeltaEligible _ \<Rightarrow>
                if baseline_available n cursor
                then (Ok Confirmed, n1\<lparr>an_state := DeltaEligible cursor\<rparr>)
                else (case generation_checked_next (an_generation n) of
                  None \<Rightarrow> (Err RecoveryGenerationExhausted, n)
                | Some g \<Rightarrow> (Ok Confirmed, install_new_recovery ConfirmedBaselineUnavailable g n1))
            | AuthorityFullRequired _ g _ \<Rightarrow>
                if ev_kind ev = FullKind \<and> ev_recovery_generation ev = Some g
                   \<and> baseline_available n cursor
                then (Ok Confirmed, n1\<lparr>an_state := DeltaEligible cursor\<rparr>)
                else (Ok Confirmed, n1)))"

definition lineage_require_recovery ::
  "('s, 'd) authority_lineage \<Rightarrow> authority_recovery_reason \<Rightarrow>
     ('s, 'd, (unit, authority_operation_error) result) lineage_op" where
  "lineage_require_recovery n reason =
     (case an_state n of
        AuthorityFullRequired _ _ _ \<Rightarrow> (Ok (), n)
      | DeltaEligible _ \<Rightarrow> (case generation_checked_next (an_generation n) of
          None \<Rightarrow> (Err RecoveryGenerationExhausted, n)
        | Some g \<Rightarrow> (Ok (), install_new_recovery reason g n)))"

definition lineage_connection_replaced ::
  "('s, 'd) authority_lineage \<Rightarrow> session \<Rightarrow> connection_handle \<Rightarrow>
     ('s, 'd, (unit, authority_operation_error) result) lineage_op" where
  "lineage_connection_replaced n s connection =
     (if \<not> lineage_authorized n s connection then (Err Unauthorized, n)
      else case generation_checked_next (an_generation n) of
        None \<Rightarrow> (Err RecoveryGenerationExhausted, n)
      | Some g \<Rightarrow> (Ok (), install_new_recovery AuthorityConnectionReplacement g n))"

definition lineage_evict_retained ::
  "('s, 'd) authority_lineage \<Rightarrow> replication_cursor \<Rightarrow>
     ('s, 'd, (bool, authority_operation_error) result) lineage_op exec" where
  "lineage_evict_retained n cursor =
     (let is_base = (an_state n = DeltaEligible cursor)
      in if is_base \<and> generation_checked_next (an_generation n) = None
         then Some (Err RecoveryGenerationExhausted, n)
         else case map_of (an_retained n) cursor of
           None \<Rightarrow> Some (Ok False, n)
         | Some r \<Rightarrow> do {
             bytes \<leftarrow> checked_sub (an_retained_bytes n) (ac_bytes (rt_image r));
             let n1 = n\<lparr>an_retained := om_remove cursor (an_retained n), an_retained_bytes := bytes\<rparr>;
             if is_base
             then do {
               g \<leftarrow> generation_checked_next (an_generation n);
               Some (Ok True, install_new_recovery BaselineEvicted g n1) }
             else Some (Ok True, n1) })"

section \<open>The session of lineages\<close>

record ('s, 'd) authority_session =
  au_session_id :: session_id
  au_limits :: authority_limits
  au_lineages :: "(participant_id, ('s, 'd) authority_lineage) fmap"

definition authority_session_new :: "session_id \<Rightarrow> authority_limits \<Rightarrow> ('s, 'd) authority_session" where
  "authority_session_new sid l = \<lparr>au_session_id = sid, au_limits = l, au_lineages = fmempty\<rparr>"

definition authority_add_lineage ::
  "('s, 'd) authority_session \<Rightarrow> participant_id \<Rightarrow> retention_limits \<Rightarrow>
     (lineage_key, authority_session_error) result \<times> ('s, 'd) authority_session" where
  "authority_add_lineage a p retention =
     (if fmlookup (au_lineages a) p \<noteq> None then (Err AuthorityLineageExists, a)
      else if al_max_lineages (au_limits a) \<le> fm_len (au_lineages a)
      then (Err AggregateResourceLimitExceeded, a)
      else let key = \<lparr>lk_session = au_session_id a, lk_participant = p\<rparr>
           in (Ok key, a\<lparr>au_lineages := fmupd p (authority_lineage_new key retention) (au_lineages a)\<rparr>))"

definition authority_remove_lineage ::
  "('s, 'd) authority_session \<Rightarrow> participant_id \<Rightarrow> bool \<times> ('s, 'd) authority_session" where
  "authority_remove_lineage a p =
     (fmlookup (au_lineages a) p \<noteq> None, a\<lparr>au_lineages := fmdrop p (au_lineages a)\<rparr>)"

text \<open>Totals over the lineages; a total beyond \<open>usize\<close> is \<open>None\<close>.\<close>

definition authority_total ::
  "(('s, 'd) authority_lineage \<Rightarrow> nat) \<Rightarrow> ('s, 'd) authority_session \<Rightarrow> nat" where
  "authority_total f a = fm_sum (\<lambda>_. f) (au_lineages a)"

definition has_pending :: "('s, 'd) authority_lineage \<Rightarrow> nat" where
  "has_pending n = (if an_pending n \<noteq> None then 1 else 0)"

definition checked_accounted_state_bytes :: "('s, 'd) authority_session \<Rightarrow> nat option" where
  "checked_accounted_state_bytes a = do {
     r \<leftarrow> checked_total (authority_total an_retained_bytes a);
     c \<leftarrow> checked_total (authority_total pending_candidate_bytes a);
     checked_add r c }"

definition aggregate_reservations_fit :: "('s, 'd) authority_session \<Rightarrow> bool" where
  "aggregate_reservations_fit a =
     (case (do {
         accounted \<leftarrow> checked_accounted_state_bytes a;
         images \<leftarrow> checked_total (authority_total (\<lambda>n. length (an_retained n)) a);
         bytes \<leftarrow> checked_total (authority_total an_retained_bytes a);
         target_bytes \<leftarrow> checked_total (authority_total pending_state_bytes a);
         evidence \<leftarrow> checked_total (authority_total (\<lambda>n. length (an_evidence n)) a);
         images' \<leftarrow> checked_add images (authority_total has_pending a);
         bytes' \<leftarrow> checked_add bytes target_bytes;
         evidence' \<leftarrow> checked_add evidence (authority_total has_pending a);
         Some (accounted \<le> al_max_state_bytes (au_limits a)
           \<and> images' \<le> al_max_retained_images (au_limits a)
           \<and> bytes' \<le> al_max_retained_state_bytes (au_limits a)
           \<and> evidence' \<le> al_max_emission_evidence (au_limits a)) }) of
        None \<Rightarrow> False | Some b \<Rightarrow> b)"

definition put_lineage ::
  "participant_id \<Rightarrow> ('s, 'd) authority_lineage \<Rightarrow> ('s, 'd) authority_session \<Rightarrow> ('s, 'd) authority_session"
  where "put_lineage p n a = a\<lparr>au_lineages := fmupd p n (au_lineages a)\<rparr>"

type_synonym ('s, 'd, 'r) session_op =
  "(('r, authority_session_error) result \<times> ('s, 'd) authority_session) exec"

text \<open>\<open>lineages.get_mut(&participant).ok_or(UnknownLineage)?.op(..)?\<close>\<close>

definition on_lineage ::
  "('s, 'd) authority_session \<Rightarrow> participant_id \<Rightarrow> ('e \<Rightarrow> authority_session_error) \<Rightarrow>
     (('s, 'd) authority_lineage \<Rightarrow> ('s, 'd, ('r, 'e) result) lineage_op exec) \<Rightarrow>
     ('s, 'd, 'r) session_op" where
  "on_lineage a p wrap oper =
     (case fmlookup (au_lineages a) p of
        None \<Rightarrow> Some (Err AuthorityUnknownLineage, a)
      | Some n \<Rightarrow> do {
          (r, n') \<leftarrow> oper n;
          Some (map_err wrap r, put_lineage p n' a) })"

text \<open>A prepared candidate stays only if every aggregate reservation still fits.\<close>

definition reserve_prepared ::
  "('s, 'd) authority_session \<Rightarrow> participant_id \<Rightarrow>
     (('s, 'd) authority_lineage \<Rightarrow> ('s, 'd, (snapshot_summary, authority_prepare_error) result) lineage_op) \<Rightarrow>
     ('s, 'd, snapshot_summary) session_op" where
  "reserve_prepared a p prepare = do {
     (r, a1) \<leftarrow> on_lineage a p PrepareError (\<lambda>n. Some (prepare n));
     (case r of
        Err e \<Rightarrow> Some (Err e, a1)
      | Ok summary \<Rightarrow>
        if aggregate_reservations_fit a1 then Some (Ok summary, a1)
        else do {
          n1 \<leftarrow> fmlookup (au_lineages a1) p;
          Some (Err AggregateResourceLimitExceeded,
                put_lineage p (snd (lineage_cancel_pending n1)) a1) }) }"

definition authority_prepare_full ::
  "('s, 'd) authority_session \<Rightarrow> participant_id \<Rightarrow> 's full_snapshot \<Rightarrow> bool \<Rightarrow>
     ('s, 'd, snapshot_summary) session_op" where
  "authority_prepare_full a p snap designate =
     reserve_prepared a p (\<lambda>n. lineage_prepare_full n snap designate)"

definition authority_prepare_delta ::
  "('s, 'd) authority_session \<Rightarrow> participant_id \<Rightarrow> replication_cursor \<Rightarrow> simulation_tick \<Rightarrow>
     's accounted_state \<Rightarrow> 'd \<Rightarrow> nat \<Rightarrow> ('s, 'd, snapshot_summary) session_op" where
  "authority_prepare_delta a p target tick img delta additional =
     reserve_prepared a p (\<lambda>n. lineage_prepare_delta n target tick img delta additional)"

definition authority_record_acceptance ::
  "('s, 'd) authority_session \<Rightarrow> participant_id \<Rightarrow> delivery_acceptance \<Rightarrow>
     ('s, 'd, snapshot_summary option) session_op" where
  "authority_record_acceptance a p acc =
     on_lineage a p OperationError (\<lambda>n. lineage_record_acceptance n acc)"

definition authority_cancel_pending ::
  "('s, 'd) authority_session \<Rightarrow> participant_id \<Rightarrow> ('s, 'd, bool) session_op" where
  "authority_cancel_pending a p =
     on_lineage a p OperationError
       (\<lambda>n. Some (Ok (an_pending n \<noteq> None), snd (lineage_cancel_pending n)))"

definition authority_acknowledge ::
  "('s, 'd) authority_session \<Rightarrow> session \<Rightarrow> connection_handle \<Rightarrow> participant_id \<Rightarrow> replication_cursor \<Rightarrow>
     ('s, 'd, authority_ack_outcome) session_op" where
  "authority_acknowledge a s connection p cursor =
     on_lineage a p OperationError (\<lambda>n. Some (lineage_acknowledge n s connection cursor))"

definition authority_require_recovery ::
  "('s, 'd) authority_session \<Rightarrow> participant_id \<Rightarrow> authority_recovery_reason \<Rightarrow>
     ('s, 'd, unit) session_op" where
  "authority_require_recovery a p reason =
     on_lineage a p OperationError (\<lambda>n. Some (lineage_require_recovery n reason))"

definition authority_connection_replaced ::
  "('s, 'd) authority_session \<Rightarrow> session \<Rightarrow> connection_handle \<Rightarrow> participant_id \<Rightarrow>
     ('s, 'd, unit) session_op" where
  "authority_connection_replaced a s connection p =
     on_lineage a p OperationError (\<lambda>n. Some (lineage_connection_replaced n s connection))"

definition authority_evict_retained ::
  "('s, 'd) authority_session \<Rightarrow> participant_id \<Rightarrow> replication_cursor \<Rightarrow> ('s, 'd, bool) session_op" where
  "authority_evict_retained a p cursor =
     on_lineage a p OperationError (\<lambda>n. lineage_evict_retained n cursor)"

end
