(* ===== verification/Authority_Safety.thy ===== *)
theory Authority_Safety
  imports Authority_Replication Client_Safety
begin

text \<open>
  The authority lineage keeps a delta base only while the base is retained and is the latest
  confirmed cursor, its pending candidate is newer than everything emitted, and what preparation
  reserves in the aggregate is enough for acceptance: recording an acceptance cannot exceed a limit.
\<close>

section \<open>The invariant of a lineage\<close>

definition emitted_by :: "'a::linorder option \<Rightarrow> 'a \<Rightarrow> bool" where
  "emitted_by g c \<longleftrightarrow> (\<exists>x. g = Some x \<and> c \<le> x)"

fun candidate_target :: "('s, 'd) snapshot_candidate \<Rightarrow> replication_cursor" where
  "candidate_target (FullCandidate snap _) = fs_target_cursor snap"
| "candidate_target (DeltaCandidate _ target _ _ _ _) = target"

fun candidate_tick :: "('s, 'd) snapshot_candidate \<Rightarrow> simulation_tick" where
  "candidate_tick (FullCandidate snap _) = fs_target_tick snap"
| "candidate_tick (DeltaCandidate _ _ tick _ _ _) = tick"

fun candidate_generation :: "('s, 'd) snapshot_candidate \<Rightarrow> recovery_generation option" where
  "candidate_generation (FullCandidate _ g) = g"
| "candidate_generation (DeltaCandidate _ _ _ _ _ _) = None"

definition pending_ok :: "('s, 'd) authority_lineage \<Rightarrow> ('s, 'd) snapshot_candidate \<Rightarrow> bool" where
  "pending_ok n cand \<longleftrightarrow>
     (\<forall>g. an_greatest_emitted n = Some g \<longrightarrow> g < candidate_target cand)
     \<and> (\<forall>t. an_greatest_emitted_tick n = Some t \<longrightarrow> t \<le> candidate_tick cand)
     \<and> candidate_state_bytes cand \<le> rl_max_state_image_bytes (an_limits n)
     \<and> total_candidate_bytes cand \<le> rl_max_candidate_bytes (an_limits n)
     \<and> candidate_state_bytes cand \<le> total_candidate_bytes cand
     \<and> (\<forall>g. candidate_generation cand = Some g \<longrightarrow> g = an_generation n)"

definition delta_state_ok :: "('s, 'd) authority_lineage \<Rightarrow> bool" where
  "delta_state_ok n =
     (case an_state n of
        DeltaEligible c \<Rightarrow> an_latest_confirmed n = Some c \<and> baseline_available n c
      | AuthorityFullRequired _ g w \<Rightarrow> g = an_generation n
          \<and> (\<forall>c. w = Some c \<longrightarrow> emitted_by (an_greatest_emitted n) c))"

definition images_ok :: "('s, 'd) authority_lineage \<Rightarrow> bool" where
  "images_ok n \<longleftrightarrow> retention_ok (an_limits n) \<and> om_wf (an_retained n)
     \<and> an_retained_bytes n = retained_bytes_of (an_retained n)
     \<and> length (an_retained n) \<le> rl_max_retained_images (an_limits n)
     \<and> an_retained_bytes n \<le> rl_max_retained_state_bytes (an_limits n)
     \<and> om_wf (an_evidence n) \<and> length (an_evidence n) \<le> rl_max_emission_evidence (an_limits n)"

definition emitted_ok :: "('s, 'd) authority_lineage \<Rightarrow> bool" where
  "emitted_ok n \<longleftrightarrow> (\<forall>e \<in> set (an_retained n). emitted_by (an_greatest_emitted n) (fst e)
        \<and> emitted_by (an_greatest_emitted_tick n) (rt_tick (snd e)))
     \<and> (\<forall>e \<in> set (an_evidence n). emitted_by (an_greatest_emitted n) (fst e))
     \<and> (\<forall>c. an_latest_confirmed n = Some c \<longrightarrow> emitted_by (an_greatest_emitted n) c)"

definition authority_lineage_ok ::
  "session_id \<Rightarrow> participant_id \<Rightarrow> ('s, 'd) authority_lineage \<Rightarrow> bool" where
  "authority_lineage_ok sid p n \<longleftrightarrow> an_key n = \<lparr>lk_session = sid, lk_participant = p\<rparr>
     \<and> images_ok n \<and> emitted_ok n \<and> delta_state_ok n
     \<and> (\<forall>cand. an_pending n = Some cand \<longrightarrow> pending_ok n cand)"

lemma authority_lineage_new_ok:
  "retention_ok l \<Longrightarrow>
     authority_lineage_ok sid p (authority_lineage_new \<lparr>lk_session = sid, lk_participant = p\<rparr> l)"
  by (auto simp: authority_lineage_ok_def authority_lineage_new_def images_ok_def emitted_ok_def
      delta_state_ok_def retention_ok_def)

lemma emitted_by_trans: "emitted_by g c \<Longrightarrow> (\<And>x. g = Some x \<Longrightarrow> x \<le> y) \<Longrightarrow> emitted_by (Some y) c"
  by (auto simp: emitted_by_def intro: order.trans)

lemma lineage_okD:
  assumes "authority_lineage_ok sid p n"
  shows "an_key n = \<lparr>lk_session = sid, lk_participant = p\<rparr>" "images_ok n" "emitted_ok n"
    "delta_state_ok n" "an_pending n = Some cand \<Longrightarrow> pending_ok n cand"
  using assms by (auto simp: authority_lineage_ok_def)

section \<open>Retention\<close>

lemma find_oldest:
  assumes "find (\<lambda>e. Some (fst e) \<noteq> protected) m = Some e" "om_wf m"
  shows "e \<in> set m" "Some (fst e) \<noteq> protected" "map_of m (fst e) = Some (snd e)"
proof -
  show mem: "e \<in> set m" and "Some (fst e) \<noteq> protected" using assms(1) by (auto simp: find_Some_iff)
  show "map_of m (fst e) = Some (snd e)" using om_wf_lookup[OF assms(2), of "fst e"] mem by simp
qed

lemma retain_room_ok:
  assumes "om_wf m" "target \<le> max_bytes"
  shows "\<exists>fit m'. retain_room max_count max_bytes target protected m (retained_bytes_of m)
       = Some (fit, m', retained_bytes_of m')
     \<and> om_wf m' \<and> set m' \<subseteq> set m \<and> length m' \<le> length m
     \<and> retained_bytes_of m' \<le> retained_bytes_of m
     \<and> (\<forall>c. protected = Some c \<longrightarrow> map_of m' c = map_of m c)
     \<and> (fit \<longrightarrow> length m' < max_count \<and> retained_bytes_of m' + target \<le> max_bytes)
     \<and> (\<not> fit \<longrightarrow> (\<forall>e \<in> set m'. Some (fst e) = protected))"
  using assms(1)
proof (induction "length m" arbitrary: m rule: less_induct)
  case less
  let ?bytes = "retained_bytes_of m"
  let ?full = "max_count \<le> length m \<or> max_bytes - target < ?bytes"
  have full: "(if max_count \<le> length m then Some True
      else map_option (\<lambda>room. room < ?bytes) (checked_sub max_bytes target)) = Some ?full"
    using assms(2) by simp
  note unfolded = retain_room.simps[of max_count max_bytes target protected m ?bytes, unfolded full]
  show ?case
  proof (cases "?full")
    case False
    then have "retain_room max_count max_bytes target protected m ?bytes = Some (True, m, ?bytes)"
      using unfolded by simp
    then show ?thesis using less.prems False assms(2) by (intro exI[of _ True] exI[of _ m]) auto
  next
    case True
    show ?thesis
    proof (cases "find (\<lambda>e. Some (fst e) \<noteq> protected) m")
      case None
      then have "retain_room max_count max_bytes target protected m ?bytes = Some (False, m, ?bytes)"
        using unfolded True by simp
      moreover have "\<forall>e \<in> set m. Some (fst e) = protected" using None by (auto simp: find_None_iff)
      ultimately show ?thesis using less.prems by (intro exI[of _ False] exI[of _ m]) auto
    next
      case (Some e)
      note e = find_oldest[OF Some less.prems]
      let ?m = "om_remove (fst e) m"
      note sum = om_sum_remove[OF less.prems e(3), of "\<lambda>r. ac_bytes (rt_image r)"]
        and len = om_length_remove[OF less.prems e(3)]
      have run: "retain_room max_count max_bytes target protected m ?bytes
          = retain_room max_count max_bytes target protected ?m (retained_bytes_of ?m)"
      proof -
        have "checked_sub ?bytes (ac_bytes (rt_image (snd e))) = Some (retained_bytes_of ?m)"
          using sum by simp
        then show ?thesis using unfolded True Some e(3) by simp
      qed
      obtain fit m' where r: "retain_room max_count max_bytes target protected ?m (retained_bytes_of ?m)
          = Some (fit, m', retained_bytes_of m')"
        "om_wf m'" "set m' \<subseteq> set ?m" "length m' \<le> length ?m"
        "retained_bytes_of m' \<le> retained_bytes_of ?m"
        "\<forall>c. protected = Some c \<longrightarrow> map_of m' c = map_of ?m c"
        "fit \<longrightarrow> length m' < max_count \<and> retained_bytes_of m' + target \<le> max_bytes"
        "\<not> fit \<longrightarrow> (\<forall>e \<in> set m'. Some (fst e) = protected)"
        using less.hyps[of ?m] len om_wf_remove[OF less.prems] by auto
      have "\<forall>c. protected = Some c \<longrightarrow> map_of m' c = map_of m c"
        using r(6) e(2) by (auto simp: map_of_om_remove)
      then show ?thesis using run r sum len
        by (intro exI[of _ fit] exI[of _ m']) auto
    qed
  qed
qed

lemma evidence_room_ok:
  assumes "om_wf m" "0 < limit"
  shows "\<exists>m'. evidence_room limit m = Some m' \<and> om_wf m' \<and> set m' \<subseteq> set m
     \<and> length m' < limit \<and> length m' \<le> length m"
  using assms
proof (induction m)
  case (Cons e m)
  then have "om_wf m" by (cases e) simp
  then show ?case using Cons by (cases "limit \<le> length (e # m)") auto
qed simp

section \<open>Emission\<close>

text \<open>\<open>emission_effect\<close>: what recording an emitted image may change and by how much.\<close>

definition emission_effect ::
  "('s, 'd) authority_lineage \<Rightarrow> replication_cursor \<Rightarrow> simulation_tick \<Rightarrow> nat \<Rightarrow> emission_evidence \<Rightarrow>
     ('s, 'd) authority_lineage \<Rightarrow> bool" where
  "emission_effect n c t bytes ev n' \<longleftrightarrow>
     (an_key n', an_limits n', an_state n', an_generation n', an_latest_confirmed n', an_pending n')
       = (an_key n, an_limits n, an_state n, an_generation n, an_latest_confirmed n, an_pending n)
     \<and> an_greatest_emitted n' = Some c \<and> an_greatest_emitted_tick n' = Some t
     \<and> length (an_retained n') \<le> Suc (length (an_retained n))
     \<and> an_retained_bytes n' \<le> an_retained_bytes n + bytes
     \<and> length (an_evidence n') \<le> Suc (length (an_evidence n))
     \<and> map_of (an_evidence n') c = Some ev"

lemma retain_authority_state_ok:
  assumes "images_ok n" "\<forall>e \<in> set (an_retained n). fst e < c"
    and "ac_bytes img \<le> rl_max_state_image_bytes (an_limits n)"
  shows "\<exists>m b. retain_authority_state n c t img = Some (n\<lparr>an_retained := m, an_retained_bytes := b\<rparr>)
     \<and> images_ok (n\<lparr>an_retained := m, an_retained_bytes := b\<rparr>)
     \<and> set m \<subseteq> insert (c, \<lparr>rt_tick = t, rt_image = img\<rparr>) (set (an_retained n))
     \<and> length m \<le> Suc (length (an_retained n)) \<and> b \<le> an_retained_bytes n + ac_bytes img
     \<and> (\<forall>base. an_state n = DeltaEligible base \<longrightarrow> base \<noteq> c \<longrightarrow> map_of m base = map_of (an_retained n) base)"
proof -
  let ?prot = "case an_state n of DeltaEligible base \<Rightarrow> Some base | AuthorityFullRequired _ _ _ \<Rightarrow> None"
  have wf: "om_wf (an_retained n)" and bytes: "an_retained_bytes n = retained_bytes_of (an_retained n)"
    and lim: "ac_bytes img \<le> rl_max_retained_state_bytes (an_limits n)"
      "rl_max_retained_state_bytes (an_limits n) \<le> usize_max"
    using assms(1,3) by (auto simp: images_ok_def retention_ok_def)
  obtain fit m where r: "retain_room (rl_max_retained_images (an_limits n))
      (rl_max_retained_state_bytes (an_limits n)) (ac_bytes img) ?prot (an_retained n)
      (retained_bytes_of (an_retained n)) = Some (fit, m, retained_bytes_of m)"
    "om_wf m" "set m \<subseteq> set (an_retained n)" "length m \<le> length (an_retained n)"
    "retained_bytes_of m \<le> retained_bytes_of (an_retained n)"
    "\<forall>c. ?prot = Some c \<longrightarrow> map_of m c = map_of (an_retained n) c"
    "fit \<longrightarrow> length m < rl_max_retained_images (an_limits n)
        \<and> retained_bytes_of m + ac_bytes img \<le> rl_max_retained_state_bytes (an_limits n)"
    using retain_room_ok[OF wf lim(1), of "rl_max_retained_images (an_limits n)" ?prot] by blast
  show ?thesis
  proof (cases fit)
    case False
    then have "retain_authority_state n c t img
        = Some (n\<lparr>an_retained := m, an_retained_bytes := retained_bytes_of m\<rparr>)"
      using r(1) by (simp add: retain_authority_state_def bytes Let_def)
    then show ?thesis
      using r(2-6) assms(1) bytes
      by (intro exI[of _ m] exI[of _ "retained_bytes_of m"]) (auto simp: images_ok_def)
  next
    case True
    have lt: "\<forall>e \<in> set m. fst e < c" using assms(2) r(3) by auto
    then have new: "map_of m c = None" by (auto simp: map_of_None_fst)
    let ?e = "(c, \<lparr>rt_tick = t, rt_image = img\<rparr>)"
    have "retain_authority_state n c t img
        = Some (n\<lparr>an_retained := m @ [?e], an_retained_bytes := retained_bytes_of m + ac_bytes img\<rparr>)"
      using r(1,7) True lim(2) new
      by (simp add: retain_authority_state_def bytes Let_def om_insert_last[OF lt])
    moreover have "map_of (m @ [?e]) base = map_of (an_retained n) base"
      if "an_state n = DeltaEligible base" "base \<noteq> c" for base
      using r(6) that by (simp add: map_add_def split: option.splits)
    ultimately show ?thesis
      using r(2-5,7) True assms(1) bytes lt
      by (intro exI[of _ "m @ [?e]"] exI[of _ "retained_bytes_of m + ac_bytes img"])
        (auto simp: images_ok_def om_wf_append)
  qed
qed

lemma record_emitted_state_ok:
  assumes ok: "images_ok n" "emitted_ok n" "delta_state_ok n" "an_pending n = None"
    and new: "\<forall>g. an_greatest_emitted n = Some g \<longrightarrow> g < c"
      "\<forall>g. an_greatest_emitted_tick n = Some g \<longrightarrow> g \<le> t"
    and fits: "ac_bytes img \<le> rl_max_state_image_bytes (an_limits n)"
  shows "\<exists>n'. record_emitted_state n c t img ev = Some n' \<and> images_ok n' \<and> emitted_ok n'
     \<and> delta_state_ok n' \<and> emission_effect n c t (ac_bytes img) ev n'"
proof -
  let ?n = "n\<lparr>an_greatest_emitted := Some c, an_greatest_emitted_tick := Some t\<rparr>"
  have below: "\<forall>e \<in> set (an_retained n). fst e < c" "\<forall>e \<in> set (an_evidence n). fst e < c"
    using ok(2) new(1) by (fastforce simp: emitted_ok_def emitted_by_def dest: order.strict_trans1)+
  have raise: "emitted_by (Some c) x" if "emitted_by (an_greatest_emitted n) x" for x
    by (rule emitted_by_trans[OF that]) (use new(1) in auto)
  have raise_t: "emitted_by (Some t) x" if "emitted_by (an_greatest_emitted_tick n) x" for x
    by (rule emitted_by_trans[OF that]) (use new(2) in auto)
  have im: "images_ok ?n" using ok(1) by (simp add: images_ok_def)
  have bel: "\<forall>e \<in> set (an_retained ?n). fst e < c" using below(1) by simp
  have ft: "ac_bytes img \<le> rl_max_state_image_bytes (an_limits ?n)" using fits by simp
  obtain m b where r: "retain_authority_state ?n c t img
        = Some (?n\<lparr>an_retained := m, an_retained_bytes := b\<rparr>)"
    "images_ok (?n\<lparr>an_retained := m, an_retained_bytes := b\<rparr>)"
    "set m \<subseteq> insert (c, \<lparr>rt_tick = t, rt_image = img\<rparr>) (set (an_retained n))"
    "length m \<le> Suc (length (an_retained n))" "b \<le> an_retained_bytes n + ac_bytes img"
    "\<forall>base. an_state n = DeltaEligible base \<longrightarrow> base \<noteq> c \<longrightarrow> map_of m base = map_of (an_retained n) base"
    using retain_authority_state_ok[OF im bel ft, of t] by auto
  have ev: "om_wf (an_evidence n)" "0 < rl_max_emission_evidence (an_limits n)"
    using ok(1) by (auto simp: images_ok_def retention_ok_def)
  obtain w where w: "evidence_room (rl_max_emission_evidence (an_limits n)) (an_evidence n) = Some w"
    "om_wf w" "set w \<subseteq> set (an_evidence n)" "length w < rl_max_emission_evidence (an_limits n)"
    "length w \<le> length (an_evidence n)"
    using evidence_room_ok[OF ev] by blast
  have wlt: "\<forall>e \<in> set w. fst e < c" using below(2) w(3) by auto
  let ?n' = "?n\<lparr>an_retained := m, an_retained_bytes := b, an_evidence := w @ [(c, ev)]\<rparr>"
  have run: "record_emitted_state n c t img ev = Some ?n'"
  proof -
    have ins: "om_insert c ev w = w @ [(c, ev)]" by (rule om_insert_last[OF wlt])
    show ?thesis
      unfolding record_emitted_state_def retain_emission_evidence_def r(1) by (simp add: w(1) ins)
  qed
  have "images_ok ?n'"
    using r(2) w(2,4) wlt by (auto simp: images_ok_def om_wf_append)
  moreover have "emitted_ok ?n'"
  proof -
    have self: "emitted_by (Some c) c" "emitted_by (Some t) t" by (simp_all add: emitted_by_def)
    have "emitted_by (Some c) (fst e) \<and> emitted_by (Some t) (rt_tick (snd e))" if "e \<in> set m" for e
      using that r(3) ok(2) raise raise_t self by (auto simp: emitted_ok_def)
    moreover have "emitted_by (Some c) (fst e)" if "e \<in> set (w @ [(c, ev)])" for e
      using that w(3) ok(2) raise self by (auto simp: emitted_ok_def)
    moreover have "emitted_by (Some c) x" if "an_latest_confirmed n = Some x" for x
      using that ok(2) raise by (auto simp: emitted_ok_def)
    ultimately show ?thesis by (simp add: emitted_ok_def)
  qed
  moreover have "delta_state_ok ?n'"
  proof (cases "an_state n")
    case (DeltaEligible base)
    then have base: "an_latest_confirmed n = Some base" "map_of (an_retained n) base \<noteq> None"
      using ok(3) by (auto simp: delta_state_ok_def baseline_available_def)
    then obtain y where "(base, y) \<in> set (an_retained n)" by (auto dest: map_of_SomeD)
    then have "base \<noteq> c" using below(1) by fastforce
    then show ?thesis using r(6) base DeltaEligible
      by (simp add: delta_state_ok_def baseline_available_def)
  next
    case (AuthorityFullRequired reason g w')
    then show ?thesis using ok(3) raise by (auto simp: delta_state_ok_def)
  qed
  moreover have "map_of (w @ [(c, ev)]) c = Some ev"
  proof -
    have "map_of w c = None" using wlt by (auto simp: map_of_None_fst)
    then show ?thesis by (simp add: map_add_def)
  qed
  then have "emission_effect n c t (ac_bytes img) ev ?n'"
    using r(4,5) w(5) by (simp add: emission_effect_def)
  ultimately show ?thesis using run by blast
qed

section \<open>The operations on a lineage\<close>

text \<open>The four quantities the session reserves, and the order an operation may move a lineage in.\<close>

definition images_load :: "('s, 'd) authority_lineage \<Rightarrow> nat" where
  "images_load n = length (an_retained n) + has_pending n"

definition target_load :: "('s, 'd) authority_lineage \<Rightarrow> nat" where
  "target_load n = an_retained_bytes n + pending_state_bytes n"

definition state_load :: "('s, 'd) authority_lineage \<Rightarrow> nat" where
  "state_load n = an_retained_bytes n + pending_candidate_bytes n"

definition evidence_load :: "('s, 'd) authority_lineage \<Rightarrow> nat" where
  "evidence_load n = length (an_evidence n) + has_pending n"

definition lighter :: "('s, 'd) authority_lineage \<Rightarrow> ('s, 'd) authority_lineage \<Rightarrow> bool" where
  "lighter n' n \<longleftrightarrow> images_load n' \<le> images_load n \<and> target_load n' \<le> target_load n
     \<and> state_load n' \<le> state_load n \<and> evidence_load n' \<le> evidence_load n"

definition authority_lineage_below :: "('s, 'd) authority_lineage \<Rightarrow> ('s, 'd) authority_lineage \<Rightarrow> bool" where
  "authority_lineage_below n n' \<longleftrightarrow>
     generation_get (an_generation n) \<le> generation_get (an_generation n')
     \<and> at_least (an_greatest_emitted n) (an_greatest_emitted n')
     \<and> at_least (an_latest_confirmed n) (an_latest_confirmed n')"

lemma lighter_refl [simp]: "lighter n n"
  by (simp add: lighter_def)

lemma authority_lineage_below_refl [simp]: "authority_lineage_below n n"
  by (simp add: authority_lineage_below_def)

lemma prepare_full_ok:
  assumes "authority_lineage_ok sid p n" "lineage_prepare_full n snap designate = (r, n')"
  shows "(\<exists>e. r = Err e \<and> n' = n) \<or> (\<exists>g. r = Ok (candidate_summary (FullCandidate snap g
       :: ('s, 'd) snapshot_candidate)) \<and> an_pending n = None
     \<and> n' = (n :: ('s, 'd) authority_lineage)\<lparr>an_pending := Some (FullCandidate snap g)\<rparr>
     \<and> authority_lineage_ok sid p n')"
proof (cases "\<exists>e. r = Err e \<and> n' = n")
  case False
  then obtain g where g: "an_pending n = None"
    "validate_new_emission_target n (fs_target_cursor snap) (fs_target_tick snap) = Ok ()"
    "candidate_fits n (ac_bytes (fs_image snap)) 0" "r = Ok (candidate_summary (FullCandidate snap g
       :: ('s, 'd) snapshot_candidate))" "n' = n\<lparr>an_pending := Some (FullCandidate snap g)\<rparr>"
    "\<forall>x. g = Some x \<longrightarrow> (\<exists>reason w. an_state n = AuthorityFullRequired reason x w)"
    using assms(2)
    by (fastforce simp: lineage_prepare_full_def Let_def split: if_splits result.splits
        authority_state.splits option.splits)
  have "pending_ok n (FullCandidate snap g)"
    using g(2,3,6) lineage_okD(4)[OF assms(1)]
    by (auto simp: pending_ok_def validate_new_emission_target_def candidate_fits_def Let_def
        delta_state_ok_def split: if_splits option.splits)
  then have "authority_lineage_ok sid p n'"
    using assms(1) g(5) by (auto simp: authority_lineage_ok_def images_ok_def emitted_ok_def
        delta_state_ok_def baseline_available_def pending_ok_def split: authority_state.splits)
  then show ?thesis using g by blast
qed blast

lemma prepare_delta_ok:
  assumes "authority_lineage_ok sid p n" "lineage_prepare_delta n target tick img delta extra = (r, n')"
  shows "(\<exists>e. r = Err e \<and> n' = n \<and> e \<noteq> BaselineUnavailable)
     \<or> (\<exists>base. an_state n = DeltaEligible base \<and> an_pending n = None \<and> base < target
        \<and> r = Ok (candidate_summary (DeltaCandidate base target tick img delta extra))
        \<and> n' = n\<lparr>an_pending := Some (DeltaCandidate base target tick img delta extra)\<rparr>
        \<and> authority_lineage_ok sid p n')"
proof (cases "\<exists>e. r = Err e \<and> n' = n \<and> e \<noteq> BaselineUnavailable")
  case False
  have avail: "map_of (an_retained n) base \<noteq> None" if "an_state n = DeltaEligible base" for base
    using lineage_okD(4)[OF assms(1)] that by (simp add: delta_state_ok_def baseline_available_def)
  obtain base where g: "an_pending n = None" "an_state n = DeltaEligible base" "\<not> target \<le> base"
    "validate_new_emission_target n target tick = Ok ()" "candidate_fits n (ac_bytes img) extra"
    "r = Ok (candidate_summary (DeltaCandidate base target tick img delta extra))"
    "n' = n\<lparr>an_pending := Some (DeltaCandidate base target tick img delta extra)\<rparr>"
    using False assms(2) avail
    by (fastforce simp: lineage_prepare_delta_def Let_def validate_new_emission_target_def
        split: if_splits result.splits authority_state.splits option.splits)
  have "retention_ok (an_limits n)" using lineage_okD(2)[OF assms(1)] by (simp add: images_ok_def)
  then have "pending_ok n (DeltaCandidate base target tick img delta extra)"
    using g(4,5)
    by (auto simp: pending_ok_def validate_new_emission_target_def candidate_fits_def Let_def
        retention_ok_def saturating_add_def split: if_splits option.splits)
  then have "authority_lineage_ok sid p n'"
    using assms(1) g(7) by (auto simp: authority_lineage_ok_def images_ok_def emitted_ok_def
        delta_state_ok_def baseline_available_def pending_ok_def split: authority_state.splits)
  then show ?thesis using g by auto
qed blast

lemma cancel_pending_ok:
  assumes "authority_lineage_ok sid p n"
  shows "authority_lineage_ok sid p (snd (lineage_cancel_pending n))"
    and "lighter (snd (lineage_cancel_pending n)) n"
    and "authority_lineage_below n (snd (lineage_cancel_pending n))"
  using assms
  by (auto simp: lineage_cancel_pending_def authority_lineage_ok_def images_ok_def emitted_ok_def
      delta_state_ok_def baseline_available_def lighter_def images_load_def target_load_def
      state_load_def evidence_load_def has_pending_def pending_state_bytes_def
      pending_candidate_bytes_def authority_lineage_below_def split: authority_state.splits)

lemma install_new_recovery_ok:
  assumes "authority_lineage_ok sid p n" "generation_get (an_generation n) \<le> generation_get g"
  shows "authority_lineage_ok sid p (install_new_recovery reason g n)"
    and "lighter (install_new_recovery reason g n) n"
    and "authority_lineage_below n (install_new_recovery reason g n)"
  using assms
  by (auto simp: install_new_recovery_def authority_lineage_ok_def images_ok_def emitted_ok_def
      delta_state_ok_def emitted_by_def lighter_def images_load_def target_load_def
      state_load_def evidence_load_def has_pending_def pending_state_bytes_def
      pending_candidate_bytes_def authority_lineage_below_def)

lemma record_acceptance_ok:
  assumes "authority_lineage_ok sid p n"
  shows "\<exists>r n'. lineage_record_acceptance n acc = Some (r, n') \<and> authority_lineage_ok sid p n'
     \<and> lighter n' n \<and> authority_lineage_below n n'
     \<and> (n' = n \<or> (\<exists>cand. acc = DeliveryAccepted \<and> an_pending n = Some cand \<and> an_pending n' = None
          \<and> r = Ok (Some (candidate_summary cand))
          \<and> an_greatest_emitted n' = Some (candidate_target cand)))"
proof (cases "acc = DeliveryNotAccepted \<or> an_pending n = None")
  case True
  then show ?thesis using assms by (auto simp: lineage_record_acceptance_def)
next
  case False
  then obtain cand where cand: "an_pending n = Some cand" and acc: "acc = DeliveryAccepted"
    by (cases acc) auto
  note po = lineage_okD(5)[OF assms cand]
  define n0 where "n0 = n\<lparr>an_pending := None\<rparr>"
  define img where "img = (case cand of FullCandidate snap _ \<Rightarrow> fs_image snap
    | DeltaCandidate _ _ _ i _ _ \<Rightarrow> i)"
  define ev where "ev = (case cand of
      FullCandidate _ g \<Rightarrow> \<lparr>ev_kind = FullKind, ev_recovery_generation = g\<rparr>
    | DeltaCandidate _ _ _ _ _ _ \<Rightarrow> \<lparr>ev_kind = DeltaKind, ev_recovery_generation = None\<rparr>)"
  have img: "ac_bytes img = candidate_state_bytes cand" by (cases cand) (simp_all add: img_def)
  have n0: "images_ok n0" "emitted_ok n0" "delta_state_ok n0" "an_pending n0 = None"
    using lineage_okD[OF assms]
    by (auto simp: n0_def images_ok_def emitted_ok_def delta_state_ok_def baseline_available_def
        split: authority_state.splits)
  obtain n' where r: "record_emitted_state n0 (candidate_target cand) (candidate_tick cand) img ev = Some n'"
    "images_ok n'" "emitted_ok n'" "delta_state_ok n'"
    "emission_effect n0 (candidate_target cand) (candidate_tick cand) (ac_bytes img) ev n'"
    using record_emitted_state_ok[OF n0, of "candidate_target cand" "candidate_tick cand" img ev] po img
    by (auto simp: n0_def pending_ok_def)
  have run: "lineage_record_acceptance n acc = Some (Ok (Some (candidate_summary cand)), n')"
    using r(1) cand acc
    by (cases cand) (simp_all add: lineage_record_acceptance_def n0_def img_def ev_def)
  have eff: "an_key n' = an_key n" "an_pending n' = None"
    "length (an_retained n') \<le> Suc (length (an_retained n))"
    "an_retained_bytes n' \<le> an_retained_bytes n + candidate_state_bytes cand"
    "length (an_evidence n') \<le> Suc (length (an_evidence n))"
    "an_greatest_emitted n' = Some (candidate_target cand)" "an_generation n' = an_generation n"
    "an_latest_confirmed n' = an_latest_confirmed n"
    using r(5) img by (simp_all add: emission_effect_def n0_def)
  have "authority_lineage_ok sid p n'"
    using r(2-4) eff(1,2) lineage_okD(1)[OF assms] by (simp add: authority_lineage_ok_def)
  moreover have "lighter n' n"
    using eff cand po by (auto simp: lighter_def images_load_def target_load_def state_load_def
        evidence_load_def has_pending_def pending_state_bytes_def pending_candidate_bytes_def pending_ok_def)
  moreover have "authority_lineage_below n n'"
    using eff po by (auto simp: authority_lineage_below_def at_least_def pending_ok_def split: option.splits)
  ultimately show ?thesis using run eff(2,6) cand acc by auto
qed

lemma confirm_ok:
  assumes "authority_lineage_ok sid p n" "map_of (an_evidence n) c = Some ev"
    and "case an_latest_confirmed n of None \<Rightarrow> True | Some l \<Rightarrow> l \<le> c"
    and "st = an_state n \<and> (\<forall>base. st \<noteq> DeltaEligible base) \<or> st = DeltaEligible c \<and> baseline_available n c"
  shows "authority_lineage_ok sid p (n\<lparr>an_latest_confirmed := Some c, an_state := st\<rparr>)"
    and "lighter (n\<lparr>an_latest_confirmed := Some c, an_state := st\<rparr>) n"
    and "authority_lineage_below n (n\<lparr>an_latest_confirmed := Some c, an_state := st\<rparr>)"
proof -
  have em: "emitted_by (an_greatest_emitted n) c"
    using lineage_okD(3)[OF assms(1)] map_of_SomeD[OF assms(2)] by (fastforce simp: emitted_ok_def)
  have "delta_state_ok (n\<lparr>an_latest_confirmed := Some c, an_state := st\<rparr>)"
    using assms(4) lineage_okD(4)[OF assms(1)]
    by (auto simp: delta_state_ok_def baseline_available_def split: authority_state.splits)
  then show "authority_lineage_ok sid p (n\<lparr>an_latest_confirmed := Some c, an_state := st\<rparr>)"
    using assms(1) em
    by (auto simp: authority_lineage_ok_def images_ok_def emitted_ok_def pending_ok_def)
qed (use assms(3) in \<open>auto simp: lighter_def images_load_def target_load_def state_load_def
      evidence_load_def has_pending_def pending_state_bytes_def pending_candidate_bytes_def
      authority_lineage_below_def at_least_def split: option.splits\<close>)

text \<open>The recovery an acknowledgement may trigger, over a lineage whose confirmation already moved.\<close>

lemma confirm_then_recover_ok:
  assumes "authority_lineage_ok sid p n" "map_of (an_evidence n) c = Some ev"
    and "case an_latest_confirmed n of None \<Rightarrow> True | Some l \<Rightarrow> l \<le> c"
    and "generation_checked_next (an_generation n) = Some g"
  shows "authority_lineage_ok sid p (install_new_recovery reason g (n\<lparr>an_latest_confirmed := Some c\<rparr>))"
    and "lighter (install_new_recovery reason g (n\<lparr>an_latest_confirmed := Some c\<rparr>)) n"
    and "authority_lineage_below n (install_new_recovery reason g (n\<lparr>an_latest_confirmed := Some c\<rparr>))"
proof -
  have em: "emitted_by (an_greatest_emitted n) c"
    using lineage_okD(3)[OF assms(1)] map_of_SomeD[OF assms(2)] by (fastforce simp: emitted_ok_def)
  note less = generation_next_less[OF assms(4)]
  show "authority_lineage_ok sid p (install_new_recovery reason g (n\<lparr>an_latest_confirmed := Some c\<rparr>))"
    using assms(1) em
    by (auto simp: authority_lineage_ok_def images_ok_def emitted_ok_def install_new_recovery_def
        delta_state_ok_def emitted_by_def)
  show "lighter (install_new_recovery reason g (n\<lparr>an_latest_confirmed := Some c\<rparr>)) n"
    "authority_lineage_below n (install_new_recovery reason g (n\<lparr>an_latest_confirmed := Some c\<rparr>))"
    using assms(3) less
    by (auto simp: install_new_recovery_def lighter_def images_load_def target_load_def state_load_def
        evidence_load_def has_pending_def pending_state_bytes_def pending_candidate_bytes_def
        authority_lineage_below_def at_least_def split: option.splits)
qed

lemma acknowledge_ok:
  assumes "authority_lineage_ok sid p n" "lineage_acknowledge n s con c = (r, n')"
  shows "authority_lineage_ok sid p n'" and "lighter n' n" and "authority_lineage_below n n'"
    and "n' \<noteq> n \<Longrightarrow> lineage_authorized n s con \<and> r = Ok Confirmed \<and> an_latest_confirmed n' = Some c
        \<and> map_of (an_evidence n) c \<noteq> None"
proof -
  have "n' = n \<or> (lineage_authorized n s con \<and> r = Ok Confirmed \<and> (\<exists>ev. map_of (an_evidence n) c = Some ev)
      \<and> (case an_latest_confirmed n of None \<Rightarrow> True | Some l \<Rightarrow> l \<le> c)
      \<and> ((\<exists>st. n' = n\<lparr>an_latest_confirmed := Some c, an_state := st\<rparr>
            \<and> (st = an_state n \<and> (\<forall>base. st \<noteq> DeltaEligible base)
               \<or> st = DeltaEligible c \<and> baseline_available n c))
         \<or> (\<exists>g reason. generation_checked_next (an_generation n) = Some g
            \<and> n' = install_new_recovery reason g (n\<lparr>an_latest_confirmed := Some c\<rparr>))))"
    (is "_ \<or> ?moved")
  proof (cases "n' = n")
    case False
    then have auth: "lineage_authorized n s con" and nl: "an_latest_confirmed n \<noteq> Some c"
      and le: "case an_latest_confirmed n of None \<Rightarrow> True | Some l \<Rightarrow> l \<le> c"
      using assms(2) by (auto simp: lineage_acknowledge_def not_less split: if_splits option.splits)
    obtain ev where ev: "map_of (an_evidence n) c = Some ev"
      using False assms(2) by (auto simp: lineage_acknowledge_def split: if_splits option.splits)
    have eta: "n\<lparr>an_latest_confirmed := Some c\<rparr> = n\<lparr>an_latest_confirmed := Some c, an_state := an_state n\<rparr>"
      by simp
    show ?thesis
    proof (cases "an_state n")
      case (DeltaEligible base)
      then show ?thesis
        using False assms(2) auth nl le ev
        by (auto simp: lineage_acknowledge_def Let_def split: if_splits option.splits)
    next
      case (AuthorityFullRequired reason g w)
      then show ?thesis
        using False assms(2) auth nl le ev eta
        by (auto simp: lineage_acknowledge_def Let_def split: if_splits option.splits)
    qed
  qed simp
  then consider (same) "n' = n" | (moved) ?moved by blast
  then have "authority_lineage_ok sid p n' \<and> lighter n' n \<and> authority_lineage_below n n'
      \<and> (n' \<noteq> n \<longrightarrow> lineage_authorized n s con \<and> r = Ok Confirmed \<and> an_latest_confirmed n' = Some c
        \<and> map_of (an_evidence n) c \<noteq> None)"
  proof cases
    case moved
    then obtain ev where ev: "map_of (an_evidence n) c = Some ev"
      and le: "case an_latest_confirmed n of None \<Rightarrow> True | Some l \<Rightarrow> l \<le> c"
      and rest: "lineage_authorized n s con" "r = Ok Confirmed" by blast
    note confirm = confirm_ok[OF assms(1) ev le]
    have "authority_lineage_ok sid p n' \<and> lighter n' n \<and> authority_lineage_below n n'
        \<and> an_latest_confirmed n' = Some c"
    proof -
      consider (st) st where "n' = n\<lparr>an_latest_confirmed := Some c, an_state := st\<rparr>"
          "st = an_state n \<and> (\<forall>base. st \<noteq> DeltaEligible base) \<or> st = DeltaEligible c \<and> baseline_available n c"
        | (recover) g reason where "generation_checked_next (an_generation n) = Some g"
          "n' = install_new_recovery reason g (n\<lparr>an_latest_confirmed := Some c\<rparr>)"
        using moved by blast
      then show ?thesis
      proof cases
        case st
        then show ?thesis using confirm[OF st(2)] by simp
      next
        case recover
        then show ?thesis
          using confirm_then_recover_ok[OF assms(1) ev le recover(1), of reason]
          by (simp add: install_new_recovery_def)
      qed
    qed
    then show ?thesis using rest ev by simp
  qed (use assms(1) in simp)
  then show "authority_lineage_ok sid p n'" "lighter n' n" "authority_lineage_below n n'"
    "n' \<noteq> n \<Longrightarrow> lineage_authorized n s con \<and> r = Ok Confirmed \<and> an_latest_confirmed n' = Some c
        \<and> map_of (an_evidence n) c \<noteq> None"
    by blast+
qed

lemma require_recovery_ok:
  assumes "authority_lineage_ok sid p n"
  shows "authority_lineage_ok sid p (snd (lineage_require_recovery n reason))"
    and "lighter (snd (lineage_require_recovery n reason)) n"
    and "authority_lineage_below n (snd (lineage_require_recovery n reason))"
  using assms install_new_recovery_ok[OF assms] generation_next_less[of "an_generation n"]
  by (auto simp: lineage_require_recovery_def less_imp_le split: authority_state.splits option.splits)

lemma connection_replaced_ok:
  assumes "authority_lineage_ok sid p n"
  shows "authority_lineage_ok sid p (snd (lineage_connection_replaced n s con))"
    and "lighter (snd (lineage_connection_replaced n s con)) n"
    and "authority_lineage_below n (snd (lineage_connection_replaced n s con))"
  using assms install_new_recovery_ok[OF assms] generation_next_less[of "an_generation n"]
  by (auto simp: lineage_connection_replaced_def less_imp_le split: option.splits)

lemma evict_retained_ok:
  assumes "authority_lineage_ok sid p n"
  shows "\<exists>r n'. lineage_evict_retained n c = Some (r, n') \<and> authority_lineage_ok sid p n'
     \<and> lighter n' n \<and> authority_lineage_below n n'"
proof (cases "map_of (an_retained n) c = None
    \<or> an_state n = DeltaEligible c \<and> generation_checked_next (an_generation n) = None")
  case True
  then show ?thesis using assms by (auto simp: lineage_evict_retained_def Let_def)
next
  case False
  then obtain r where r: "map_of (an_retained n) c = Some r" by auto
  have im: "images_ok n" by (rule lineage_okD(2)[OF assms])
  then have wf: "om_wf (an_retained n)" and bytes: "an_retained_bytes n = retained_bytes_of (an_retained n)"
    by (simp_all add: images_ok_def)
  note sum = om_sum_remove[OF wf r, of "\<lambda>r. ac_bytes (rt_image r)"] and len = om_length_remove[OF wf r]
  let ?n1 = "n\<lparr>an_retained := om_remove c (an_retained n),
      an_retained_bytes := retained_bytes_of (om_remove c (an_retained n))\<rparr>"
  have sub: "checked_sub (an_retained_bytes n) (ac_bytes (rt_image r))
      = Some (retained_bytes_of (om_remove c (an_retained n)))"
    using sum bytes by simp
  have im1: "images_ok ?n1"
    using im om_wf_remove[OF wf, of c] sum len bytes by (auto simp: images_ok_def)
  have em1: "emitted_ok ?n1" using lineage_okD(3)[OF assms] by (auto simp: emitted_ok_def)
  have light1: "lighter ?n1 n" "authority_lineage_below n ?n1"
    using sum len bytes by (auto simp: lighter_def images_load_def target_load_def state_load_def
        evidence_load_def has_pending_def pending_state_bytes_def pending_candidate_bytes_def
        authority_lineage_below_def)
  show ?thesis
  proof (cases "an_state n = DeltaEligible c")
    case True
    then obtain g where g: "generation_checked_next (an_generation n) = Some g"
      using False by auto
    have run: "lineage_evict_retained n c = Some (Ok True, install_new_recovery BaselineEvicted g ?n1)"
      using True g r sub by (simp add: lineage_evict_retained_def)
    have "delta_state_ok (install_new_recovery BaselineEvicted g ?n1)"
      by (auto simp: install_new_recovery_def delta_state_ok_def emitted_by_def)
    then have "authority_lineage_ok sid p (install_new_recovery BaselineEvicted g ?n1)"
      using im1 em1 lineage_okD(1)[OF assms]
      by (auto simp: authority_lineage_ok_def install_new_recovery_def images_ok_def emitted_ok_def)
    moreover have "lighter (install_new_recovery BaselineEvicted g ?n1) n"
      "authority_lineage_below n (install_new_recovery BaselineEvicted g ?n1)"
      using light1 generation_next_less[OF g]
      by (auto simp: install_new_recovery_def lighter_def images_load_def target_load_def state_load_def
          evidence_load_def has_pending_def pending_state_bytes_def pending_candidate_bytes_def
          authority_lineage_below_def)
    ultimately show ?thesis using run by blast
  next
    case no: False
    have run: "lineage_evict_retained n c = Some (Ok True, ?n1)"
      using no r sub by (simp add: lineage_evict_retained_def)
    have "delta_state_ok ?n1"
      using lineage_okD(4)[OF assms] no
      by (auto simp: delta_state_ok_def baseline_available_def map_of_om_remove split: authority_state.splits)
    then have "authority_lineage_ok sid p ?n1"
      using im1 em1 lineage_okD(1,5)[OF assms]
      by (auto simp: authority_lineage_ok_def pending_ok_def)
    then show ?thesis using run light1 by blast
  qed
qed

section \<open>The session\<close>

definition authority_ok :: "('s, 'd) authority_session \<Rightarrow> bool" where
  "authority_ok a \<longleftrightarrow>
     (\<forall>p n. fmlookup (au_lineages a) p = Some n \<longrightarrow> authority_lineage_ok (au_session_id a) p n)
     \<and> fm_len (au_lineages a) \<le> al_max_lineages (au_limits a)
     \<and> authority_total images_load a \<le> al_max_retained_images (au_limits a)
     \<and> authority_total target_load a \<le> al_max_retained_state_bytes (au_limits a)
     \<and> authority_total state_load a \<le> al_max_state_bytes (au_limits a)
     \<and> authority_total evidence_load a \<le> al_max_emission_evidence (au_limits a)"

definition authority_below :: "('s, 'd) authority_session \<Rightarrow> ('s, 'd) authority_session \<Rightarrow> bool" where
  "authority_below a a' \<longleftrightarrow> (\<forall>p n. fmlookup (au_lineages a) p = Some n \<longrightarrow>
     (\<exists>n'. fmlookup (au_lineages a') p = Some n' \<and> authority_lineage_below n n'))"

lemma authority_below_refl [simp]: "authority_below a a"
  by (simp add: authority_below_def)

lemma authority_below_put:
  "fmlookup (au_lineages a) p = Some n \<Longrightarrow> authority_lineage_below n n' \<Longrightarrow>
     authority_below a (put_lineage p n' a)"
  by (auto simp: authority_below_def put_lineage_def)

lemma authority_total_put:
  assumes "fmlookup (au_lineages a) p = Some n" "f n' \<le> f n"
  shows "authority_total f (put_lineage p n' a) \<le> authority_total f a"
  using fm_sum_split[OF assms(1), of "\<lambda>_. f"] assms(2)
  by (simp add: authority_total_def put_lineage_def fm_sum_fmupd)

lemma put_lineage_ok:
  assumes "authority_ok a" "fmlookup (au_lineages a) p = Some n"
    and "authority_lineage_ok (au_session_id a) p n'" "lighter n' n"
  shows "authority_ok (put_lineage p n' a)"
proof -
  have "fm_len (fmupd p n' (au_lineages a)) = fm_len (au_lineages a)" by (rule fm_len_replace[OF assms(2)])
  moreover have "authority_total f (put_lineage p n' a) \<le> authority_total f a" if "f n' \<le> f n" for f
    using authority_total_put[OF assms(2)] that by blast
  ultimately show ?thesis
    using assms by (auto simp: authority_ok_def put_lineage_def lighter_def intro: order.trans)
qed

lemma put_lineage_same: "fmlookup (au_lineages a) p = Some n \<Longrightarrow> put_lineage p n a = a"
proof -
  assume "fmlookup (au_lineages a) p = Some n"
  then have "fmupd p n (au_lineages a) = au_lineages a" by (auto intro!: fmap_ext)
  then show ?thesis by (simp add: put_lineage_def)
qed

text \<open>An operation that keeps the lineage good and makes it no heavier keeps the session good.\<close>

lemma on_lineage_ok:
  assumes "authority_ok a"
    and "\<And>n. fmlookup (au_lineages a) p = Some n \<Longrightarrow> \<exists>r n'. oper n = Some (r, n')
      \<and> authority_lineage_ok (au_session_id a) p n' \<and> lighter n' n \<and> authority_lineage_below n n'"
  shows "\<exists>r a'. on_lineage a p wrap oper = Some (r, a') \<and> authority_ok a' \<and> authority_below a a'"
proof (cases "fmlookup (au_lineages a) p")
  case None
  then show ?thesis using assms(1) by (simp add: on_lineage_def)
next
  case (Some n)
  obtain r n' where "oper n = Some (r, n')" "authority_lineage_ok (au_session_id a) p n'"
    "lighter n' n" "authority_lineage_below n n'"
    using assms(2)[OF Some] by blast
  then show ?thesis
    using put_lineage_ok[OF assms(1) Some] authority_below_put[OF Some] Some
    by (auto simp: on_lineage_def)
qed

lemma authority_lineageD:
  "authority_ok a \<Longrightarrow> fmlookup (au_lineages a) p = Some n \<Longrightarrow> authority_lineage_ok (au_session_id a) p n"
  by (simp add: authority_ok_def)

lemma authority_total_add:
  "authority_total (\<lambda>n. f n + g n) a = authority_total f a + authority_total g a"
  by (simp add: authority_total_def fm_sum_def sum.distrib)

lemma aggregate_reservations_fit_iff:
  "aggregate_reservations_fit a \<Longrightarrow>
     authority_total images_load a \<le> al_max_retained_images (au_limits a)
     \<and> authority_total target_load a \<le> al_max_retained_state_bytes (au_limits a)
     \<and> authority_total state_load a \<le> al_max_state_bytes (au_limits a)
     \<and> authority_total evidence_load a \<le> al_max_emission_evidence (au_limits a)"
  unfolding images_load_def target_load_def state_load_def evidence_load_def authority_total_add
  by (auto simp: aggregate_reservations_fit_def checked_accounted_state_bytes_def bind_eq_Some_conv
      checked_total_Some checked_simps split: option.splits)

text \<open>Preparation: refused without effect, or reserved within every aggregate limit.\<close>

lemma reserve_prepared_ok:
  assumes "authority_ok a"
    and "\<And>n r n'. fmlookup (au_lineages a) p = Some n \<Longrightarrow> prepare n = (r, n') \<Longrightarrow>
      (\<exists>e. r = Err e \<and> n' = n) \<or> (\<exists>s cand. r = Ok s \<and> an_pending n = None
        \<and> n' = n\<lparr>an_pending := Some cand\<rparr> \<and> authority_lineage_ok (au_session_id a) p n')"
  shows "\<exists>r a'. reserve_prepared a p prepare = Some (r, a') \<and> authority_ok a' \<and> authority_below a a'
     \<and> (a' = a \<and> (\<exists>e. r = Err e) \<or> (\<exists>s n. r = Ok s \<and> fmlookup (au_lineages a) p = Some n
          \<and> a' = put_lineage p (snd (prepare n)) a \<and> prepare n = (Ok s, snd (prepare n))))"
proof (cases "fmlookup (au_lineages a) p")
  case None
  then show ?thesis using assms(1) by (simp add: reserve_prepared_def on_lineage_def)
next
  case (Some n)
  obtain r n' where p: "prepare n = (r, n')" by fastforce
  show ?thesis
  proof (cases r)
    case (Err e)
    then have "n' = n" using assms(2)[OF Some p] by auto
    then show ?thesis using Err p Some assms(1) put_lineage_same[OF Some]
      by (simp add: reserve_prepared_def on_lineage_def)
  next
    case (Ok s)
    then obtain cand where n': "an_pending n = None" "n' = n\<lparr>an_pending := Some cand\<rparr>"
      "authority_lineage_ok (au_session_id a) p n'"
      using assms(2)[OF Some p] by auto
    let ?a1 = "put_lineage p n' a"
    have look: "fmlookup (au_lineages ?a1) p = Some n'" by (simp add: put_lineage_def)
    show ?thesis
    proof (cases "aggregate_reservations_fit ?a1")
      case True
      have "authority_ok ?a1"
        using aggregate_reservations_fit_iff[OF True] assms(1) n'(3) fm_len_replace[OF Some, of n']
        by (auto simp: authority_ok_def put_lineage_def)
      moreover have "authority_below a ?a1"
        using n'(2) by (intro authority_below_put[OF Some]) (simp add: authority_lineage_below_def)
      ultimately show ?thesis using True Ok p Some
        by (simp add: reserve_prepared_def on_lineage_def)
    next
      case False
      have "snd (lineage_cancel_pending n') = n" using n'(1,2) by (simp add: lineage_cancel_pending_def)
      moreover have "put_lineage p n ?a1 = a"
        using put_lineage_same[OF Some] by (simp add: put_lineage_def)
      ultimately show ?thesis using False Ok p Some look assms(1)
        by (simp add: reserve_prepared_def on_lineage_def)
    qed
  qed
qed

lemma authority_prepare_full_ok:
  assumes "authority_ok a"
  shows "\<exists>r a'. authority_prepare_full a p snap designate = Some (r, a') \<and> authority_ok a' \<and> authority_below a a'"
proof -
  have "\<exists>r a'. reserve_prepared a p (\<lambda>n. lineage_prepare_full n snap designate) = Some (r, a')
      \<and> authority_ok a' \<and> authority_below a a'
      \<and> (a' = a \<and> (\<exists>e. r = Err e) \<or> (\<exists>s n. r = Ok s \<and> fmlookup (au_lineages a) p = Some n
          \<and> a' = put_lineage p (snd (lineage_prepare_full n snap designate)) a
          \<and> lineage_prepare_full n snap designate = (Ok s, snd (lineage_prepare_full n snap designate))))"
    by (rule reserve_prepared_ok[OF assms])
      (use prepare_full_ok[OF authority_lineageD[OF assms]] in blast)
  then show ?thesis unfolding authority_prepare_full_def by blast
qed

lemma authority_prepare_delta_ok:
  assumes "authority_ok a"
  shows "\<exists>r a'. authority_prepare_delta a p target tick img delta extra = Some (r, a') \<and> authority_ok a'
     \<and> authority_below a a'
     \<and> r \<noteq> Err (PrepareError BaselineUnavailable)"
proof -
  have prep: "(\<exists>e. r = Err e \<and> n' = n) \<or> (\<exists>s cand. r = Ok s \<and> an_pending n = None
        \<and> n' = n\<lparr>an_pending := Some cand\<rparr> \<and> authority_lineage_ok (au_session_id a) p n')"
    if "fmlookup (au_lineages a) p = Some n" "lineage_prepare_delta n target tick img delta extra = (r, n')"
    for n r n'
    using prepare_delta_ok[OF authority_lineageD[OF assms that(1)] that(2)] by blast
  obtain r a' where r: "reserve_prepared a p (\<lambda>n. lineage_prepare_delta n target tick img delta extra)
      = Some (r, a')" "authority_ok a'" "authority_below a a'"
    using reserve_prepared_ok[OF assms prep, of "\<lambda>n. lineage_prepare_delta n target tick img delta extra"]
    by blast
  have "r \<noteq> Err (PrepareError BaselineUnavailable)"
  proof (cases "fmlookup (au_lineages a) p")
    case None
    then show ?thesis using r(1) by (auto simp: reserve_prepared_def on_lineage_def)
  next
    case (Some n)
    obtain q n' where q: "lineage_prepare_delta n target tick img delta extra = (q, n')" by fastforce
    have "q \<noteq> Err BaselineUnavailable"
      using prepare_delta_ok[OF authority_lineageD[OF assms Some] q] by auto
    then show ?thesis using r(1) Some q
      by (cases q) (auto simp: reserve_prepared_def on_lineage_def bind_eq_Some_conv split: if_splits)
  qed
  then show ?thesis using r unfolding authority_prepare_delta_def by blast
qed

lemma authority_add_lineage_ok:
  assumes "authority_ok a" "retention_ok l"
  shows "authority_ok (snd (authority_add_lineage a p l)) \<and> authority_below a (snd (authority_add_lineage a p l))"
proof (cases "fmlookup (au_lineages a) p = None \<and> fm_len (au_lineages a) < al_max_lineages (au_limits a)")
  case True
  then show ?thesis
    using assms authority_lineage_new_ok[OF assms(2), of "au_session_id a" p]
    by (auto simp: authority_add_lineage_def Let_def authority_ok_def fm_len_fresh fm_sum_fresh
        authority_total_def images_load_def target_load_def state_load_def evidence_load_def
        has_pending_def pending_state_bytes_def pending_candidate_bytes_def
        authority_lineage_new_def authority_below_def)
next
  case False
  then show ?thesis using assms(1) by (auto simp: authority_add_lineage_def not_less)
qed

lemma authority_remove_lineage_ok:
  assumes "authority_ok a"
  shows "authority_ok (snd (authority_remove_lineage a p))"
proof -
  have "authority_total f (snd (authority_remove_lineage a p)) \<le> authority_total f a" for f
    using fm_sum_drop_le[of "\<lambda>_. f" p "au_lineages a"]
    by (simp add: authority_remove_lineage_def authority_total_def)
  then show ?thesis
    using assms fm_len_drop_le[of p "au_lineages a"]
    by (auto simp: authority_ok_def authority_remove_lineage_def intro: order.trans)
qed

datatype ('s, 'd) authority_call =
    CallAuthorityAdd participant_id retention_limits
  | CallAuthorityRemove participant_id
  | CallPrepareFull participant_id "'s full_snapshot" bool
  | CallPrepareDelta participant_id replication_cursor simulation_tick "'s accounted_state" 'd nat
  | CallRecordAcceptance participant_id delivery_acceptance
  | CallCancelPending participant_id
  | CallAcknowledge session connection_handle participant_id replication_cursor
  | CallRequireRecovery participant_id authority_recovery_reason
  | CallConnectionReplaced session connection_handle participant_id
  | CallEvictRetained participant_id replication_cursor

fun authority_step :: "('s, 'd) authority_session \<Rightarrow> ('s, 'd) authority_call \<Rightarrow> ('s, 'd) authority_session exec"
  where
  "authority_step a (CallAuthorityAdd p l) = Some (snd (authority_add_lineage a p l))"
| "authority_step a (CallAuthorityRemove p) = Some (snd (authority_remove_lineage a p))"
| "authority_step a (CallPrepareFull p snap d) = map_option snd (authority_prepare_full a p snap d)"
| "authority_step a (CallPrepareDelta p c t img d x) = map_option snd (authority_prepare_delta a p c t img d x)"
| "authority_step a (CallRecordAcceptance p acc) = map_option snd (authority_record_acceptance a p acc)"
| "authority_step a (CallCancelPending p) = map_option snd (authority_cancel_pending a p)"
| "authority_step a (CallAcknowledge s c p cur) = map_option snd (authority_acknowledge a s c p cur)"
| "authority_step a (CallRequireRecovery p r) = map_option snd (authority_require_recovery a p r)"
| "authority_step a (CallConnectionReplaced s c p) = map_option snd (authority_connection_replaced a s c p)"
| "authority_step a (CallEvictRetained p c) = map_option snd (authority_evict_retained a p c)"

fun authority_call_ok :: "('s, 'd) authority_call \<Rightarrow> bool" where
  "authority_call_ok (CallAuthorityAdd _ l) \<longleftrightarrow> retention_ok l"
| "authority_call_ok _ \<longleftrightarrow> True"

fun keeps_authority_lineages :: "('s, 'd) authority_call \<Rightarrow> bool" where
  "keeps_authority_lineages (CallAuthorityRemove _) \<longleftrightarrow> False"
| "keeps_authority_lineages x \<longleftrightarrow> authority_call_ok x"

lemma authority_step_ok:
  assumes "authority_ok a" "authority_call_ok x"
  shows "\<exists>a'. authority_step a x = Some a' \<and> authority_ok a'
     \<and> (keeps_authority_lineages x \<longrightarrow> authority_below a a')"
proof -
  note lin = authority_lineageD[OF assms(1)] and on = on_lineage_ok[OF assms(1)]
  show ?thesis
  proof (cases x)
    case (CallAuthorityAdd p l)
    then show ?thesis using authority_add_lineage_ok[OF assms(1), of l p] assms(2) by simp
  next
    case (CallAuthorityRemove p)
    then show ?thesis using authority_remove_lineage_ok[OF assms(1), of p] by simp
  next
    case (CallPrepareFull p snap d)
    then show ?thesis using authority_prepare_full_ok[OF assms(1), of p snap d] by auto
  next
    case (CallPrepareDelta p c t img d e)
    then show ?thesis using authority_prepare_delta_ok[OF assms(1), of p c t img d e] by auto
  next
    case (CallRecordAcceptance p acc)
    have "\<exists>r a'. authority_record_acceptance a p acc = Some (r, a') \<and> authority_ok a' \<and> authority_below a a'"
      unfolding authority_record_acceptance_def by (rule on) (use record_acceptance_ok[OF lin] in blast)
    then show ?thesis using CallRecordAcceptance by auto
  next
    case (CallCancelPending p)
    have "\<exists>r a'. authority_cancel_pending a p = Some (r, a') \<and> authority_ok a' \<and> authority_below a a'"
      unfolding authority_cancel_pending_def by (rule on) (use cancel_pending_ok[OF lin] in auto)
    then show ?thesis using CallCancelPending by auto
  next
    case (CallAcknowledge s c p cur)
    have "\<exists>r a'. authority_acknowledge a s c p cur = Some (r, a') \<and> authority_ok a' \<and> authority_below a a'"
      unfolding authority_acknowledge_def
    proof (rule on)
      fix n
      assume n: "fmlookup (au_lineages a) p = Some n"
      obtain r n' where "lineage_acknowledge n s c cur = (r, n')" by fastforce
      then show "\<exists>r n'. Some (lineage_acknowledge n s c cur) = Some (r, n')
          \<and> authority_lineage_ok (au_session_id a) p n' \<and> lighter n' n \<and> authority_lineage_below n n'"
        using acknowledge_ok(1-3)[OF lin[OF n]] by auto
    qed
    then show ?thesis using CallAcknowledge by auto
  next
    case (CallRequireRecovery p reason)
    have "\<exists>r a'. authority_require_recovery a p reason = Some (r, a') \<and> authority_ok a' \<and> authority_below a a'"
      unfolding authority_require_recovery_def
      by (rule on) (use require_recovery_ok[OF lin] in \<open>metis prod.collapse\<close>)
    then show ?thesis using CallRequireRecovery by auto
  next
    case (CallConnectionReplaced s c p)
    have "\<exists>r a'. authority_connection_replaced a s c p = Some (r, a') \<and> authority_ok a' \<and> authority_below a a'"
      unfolding authority_connection_replaced_def
      by (rule on) (use connection_replaced_ok[OF lin] in \<open>metis prod.collapse\<close>)
    then show ?thesis using CallConnectionReplaced by auto
  next
    case (CallEvictRetained p c)
    have "\<exists>r a'. authority_evict_retained a p c = Some (r, a') \<and> authority_ok a' \<and> authority_below a a'"
      unfolding authority_evict_retained_def by (rule on) (use evict_retained_ok[OF lin] in blast)
    then show ?thesis using CallEvictRetained by auto
  qed
qed

lemma authority_session_new_ok: "authority_ok (authority_session_new sid l)"
  by (simp add: authority_ok_def authority_session_new_def authority_total_def)

lemma authority_below_trans: "authority_below a b \<Longrightarrow> authority_below b c \<Longrightarrow> authority_below a c"
  unfolding authority_below_def authority_lineage_below_def
  by (meson at_least_trans order.trans)

interpretation authority_machine: guarded_machine authority_step authority_ok authority_call_ok
  by unfold_locales (use authority_step_ok in blast)

interpretation authority_growth:
  monotone_machine authority_step authority_ok keeps_authority_lineages authority_below
proof
  fix a :: "('a, 'b) authority_session" and x :: "('a, 'b) authority_call"
  assume a: "authority_ok a" "keeps_authority_lineages x"
  then have ok: "authority_call_ok x" by (cases x) auto
  show "\<exists>a'. authority_step a x = Some a' \<and> authority_ok a'" using authority_step_ok[OF a(1) ok] by blast
  fix a'
  assume "authority_step a x = Some a'"
  then show "authority_below a a'" using authority_step_ok[OF a(1) ok] a(2) by auto
qed (use authority_below_trans in \<open>auto\<close>)

end
