(* ===== verification/Replication_Contract.thy ===== *)
theory Replication_Contract
  imports Client_Safety Authority_Safety
begin

text \<open>
  The properties of replication over whole runs of the client set and of the authority session, with
  witnesses on a small configuration whose host state is a number.
\<close>

section \<open>A concrete configuration\<close>

definition demo_retention :: retention_limits where
  "demo_retention = \<lparr>rl_max_state_image_bytes = 8, rl_max_retained_images = 2,
     rl_max_retained_state_bytes = 16, rl_max_candidate_bytes = 12, rl_max_emission_evidence = 4\<rparr>"

definition demo_client_limits :: client_limits where
  "demo_client_limits = \<lparr>cl_max_lineages = 2, cl_max_retained_images = 4,
     cl_max_retained_state_bytes = 64\<rparr>"

definition demo_authority_limits :: authority_limits where
  "demo_authority_limits = \<lparr>al_max_lineages = 2, al_max_state_bytes = 64, al_max_retained_images = 4,
     al_max_retained_state_bytes = 64, al_max_emission_evidence = 8\<rparr>"

definition demo_lineage :: lineage_key where
  "demo_lineage = \<lparr>lk_session = SessionId 1, lk_participant = ParticipantId 2\<rparr>"

definition demo_full :: "u64 \<Rightarrow> u64 \<Rightarrow> nat full_snapshot" where
  "demo_full c t = \<lparr>fs_target_cursor = ReplicationCursor c, fs_target_tick = SimulationTick t,
     fs_image = \<lparr>ac_state = unat c, ac_bytes = 4\<rparr>\<rparr>"

definition demo_delta :: "u64 \<Rightarrow> u64 \<Rightarrow> u64 \<Rightarrow> nat delta_snapshot" where
  "demo_delta base c t = \<lparr>ds_base_cursor = ReplicationCursor base, ds_target_cursor = ReplicationCursor c,
     ds_target_tick = SimulationTick t, ds_delta = 1\<rparr>"

definition demo_commit :: "nat \<Rightarrow> (unit, unit) result" where
  "demo_commit _ = Ok ()"

definition demo_reconstruct ::
  "nat \<Rightarrow> nat \<Rightarrow> nat \<Rightarrow> (nat accounted_state, reconstruction_error) result" where
  "demo_reconstruct s d _ = Ok \<lparr>ac_state = s + d, ac_bytes = 4\<rparr>"

text \<open>A session whose participant 2 is bound to connection 3.\<close>

definition demo_session :: session where
  "demo_session = (session_new (SessionId 1)
       \<lparr>sl_participant_incarnations = 4, sl_memberships = 4\<rparr>)
     \<lparr>s_memberships := fmupd (ParticipantId 2)
        \<lparr>mr_state = Bound (ConnectionHandle 3), mr_previous_connection = None\<rparr> fmempty,
      s_bindings := fmupd (ConnectionHandle 3) (ParticipantId 2) fmempty\<rparr>"

definition demo_emission :: "(nat, nat) authority_call list" where
  "demo_emission = [CallAuthorityAdd (ParticipantId 2) demo_retention,
     CallPrepareFull (ParticipantId 2) (demo_full 1 1) True,
     CallRecordAcceptance (ParticipantId 2) DeliveryAccepted]"

definition demo_confirmation :: "(nat, nat) authority_call list" where
  "demo_confirmation = demo_emission
     @ [CallAcknowledge demo_session (ConnectionHandle 3) (ParticipantId 2) (ReplicationCursor 1)]"

lemmas replication_eval =
  demo_emission_def demo_confirmation_def demo_session_def session_new_def is_authorized_def
  membership_state_def Let_def
  demo_retention_def demo_client_limits_def demo_authority_limits_def demo_lineage_def demo_full_def
  demo_delta_def demo_commit_def demo_reconstruct_def retention_ok_def usize_max_def
  client_set_new_def client_add_lineage_def client_lineage_new_def apply_full_def apply_delta_def
  classify_cursor_def tick_regresses_current_def current_tick_def commit_candidate_def
  plan_commit_def state_image_fits_def aggregate_commit_fits_def checked_retained_image_count_def
  checked_retained_state_bytes_def checked_total_def checked_add_def checked_sub_def
  commit_with_plan_def set_lineage_def fm_sum_fmupd cursor_order_defs tick_order_defs
  authority_session_new_def authority_add_lineage_def authority_lineage_new_def
  authority_prepare_full_def reserve_prepared_def on_lineage_def lineage_prepare_full_def
  validate_new_emission_target_def candidate_fits_def put_lineage_def aggregate_reservations_fit_def
  checked_accounted_state_bytes_def authority_total_def has_pending_def pending_candidate_bytes_def
  pending_state_bytes_def authority_record_acceptance_def lineage_record_acceptance_def
  record_emitted_state_def retain_authority_state_def retain_room.simps retain_emission_evidence_def
  authority_acknowledge_def lineage_acknowledge_def lineage_authorized_def baseline_available_def

section \<open>The client\<close>

definition client_run ::
  "client_limits \<Rightarrow> ('s, 'd, 'e) client_call list \<Rightarrow> 's client_set exec" where
  "client_run l xs = run_ops client_step (client_set_new l) xs"

lemma client_run_ok:
  "list_all client_call_ok xs \<Longrightarrow> client_run l xs = Some s \<Longrightarrow> client_ok s"
  using client_machine.run_preserves[OF client_set_new_ok, of xs l] by (simp add: client_run_def)

text \<open>
  C34: Whatever snapshots, reconstructions and host commits a client is driven with, no call panics,
  the retained byte and image totals of every lineage and of the set stay exact and within their
  limits, and the newest retained image is always the current one.
\<close>

theorem client_run_safe:
  assumes "list_all client_call_ok xs"
  shows "\<exists>s. client_run l xs = Some s \<and> client_ok s"
  using client_machine.run_good[OF client_set_new_ok assms, of l] by (simp add: client_run_def)

theorem client_run_safe_witness:
  "\<exists>s. client_run demo_client_limits [CallAddLineage demo_lineage demo_retention,
       CallApplyFull demo_lineage (demo_full 1 1) demo_commit,
       CallApplyDelta demo_lineage (demo_delta 1 2 1) demo_reconstruct demo_commit] = Some s
     \<and> client_ok s"
  by (rule client_run_safe) (simp add: demo_retention_def retention_ok_def usize_max_def)

text \<open>
  C3: While a lineage exists its current cursor and its current tick never go back, whatever order
  full snapshots and deltas arrive in.
\<close>

theorem client_never_goes_back:
  assumes "list_all client_call_ok xs" "client_run l xs = Some s"
    and "list_all keeps_lineages ys" "run_ops client_step s ys = Some s'"
    and "fmlookup (cs_lineages s) k = Some n"
  shows "\<exists>n'. fmlookup (cs_lineages s') k = Some n' \<and> at_least (cn_current n) (cn_current n')
     \<and> at_least (current_tick n) (current_tick n')"
  using client_growth.run_below[OF client_run_ok[OF assms(1,2)] assms(3,4)] assms(5)
  by (auto simp: client_below_def lineage_below_def)

theorem client_never_goes_back_witness:
  "\<exists>s s' n n'. fmlookup (cs_lineages s) demo_lineage = Some n \<and> cn_current n = Some (ReplicationCursor 5)
     \<and> run_ops client_step s [CallApplyFull demo_lineage (demo_full 3 9) demo_commit
          :: (nat, nat, unit) client_call] = Some s'
     \<and> fmlookup (cs_lineages s') demo_lineage = Some n'
     \<and> at_least (Some (ReplicationCursor 5)) (cn_current n')"
proof -
  let ?xs = "[CallAddLineage demo_lineage demo_retention,
       CallApplyFull demo_lineage (demo_full 5 1) demo_commit] :: (nat, nat, unit) client_call list"
  let ?ys = "[CallApplyFull demo_lineage (demo_full 3 9) demo_commit] :: (nat, nat, unit) client_call list"
  obtain s where s: "client_run demo_client_limits ?xs = Some s"
    by (simp add: client_run_def replication_eval)
  then obtain n where n: "fmlookup (cs_lineages s) demo_lineage = Some n" "cn_current n = Some (ReplicationCursor 5)"
    by (auto simp: client_run_def replication_eval)
  obtain s' where s': "run_ops client_step s ?ys = Some s'"
    using s by (auto simp: client_run_def replication_eval)
  have "list_all client_call_ok ?xs" "list_all keeps_lineages ?ys" by (simp_all add: replication_eval)
  from client_never_goes_back[OF this(1) s this(2) s' n(1)] n s' show ?thesis by auto
qed

text \<open>
  A full snapshot is ignored when it is not newer or its tick regresses, leaves everything as it
  was when it does not fit or the host refuses it, and otherwise becomes the current image, evicting
  the fewest oldest images that make room.
\<close>

theorem client_full_contract:
  assumes "list_all client_call_ok xs" "client_run l xs = Some s"
  shows "\<exists>r s'. apply_full s key snap host = Some (r, s') \<and> client_ok s'
     \<and> (s' = s \<or> (\<exists>n. fmlookup (cs_lineages s) key = Some n
          \<and> classify_cursor n (fs_target_cursor snap) = None
          \<and> \<not> tick_regresses_current n (fs_target_tick snap)
          \<and> commit_effect s key n (fs_target_cursor snap) (fs_target_tick snap) (fs_image snap) host id r s'))"
  using apply_full_ok[OF client_run_ok[OF assms], of key snap host] by blast

theorem client_full_contract_witness:
  "\<exists>s s'. client_ok s' \<and> apply_full s demo_lineage (demo_full 7 7) demo_commit
       = Some (Ok (Committed (ReplicationCursor 7)), s')"
proof -
  let ?xs = "[CallAddLineage demo_lineage demo_retention,
       CallApplyFull demo_lineage (demo_full 5 1) demo_commit] :: (nat, nat, unit) client_call list"
  obtain s where s: "client_run demo_client_limits ?xs = Some s"
    by (simp add: client_run_def replication_eval)
  then have "\<exists>s'. apply_full s demo_lineage (demo_full 7 7) demo_commit
      = Some (Ok (Committed (ReplicationCursor 7)), s')"
    by (auto simp: client_run_def replication_eval)
  moreover have "list_all client_call_ok ?xs" by (simp add: replication_eval)
  ultimately show ?thesis
    using client_full_contract[OF _ s, of demo_lineage "demo_full 7 7" demo_commit] by force
qed

text \<open>
  A delta is committed only by a synchronized lineage, on a base it still retains, with a newer
  cursor and no tick regression against base or current image, and the committed image is exactly
  what the host reconstructs from that base; any other delta changes nothing or starts recovery.
\<close>

theorem client_delta_contract:
  assumes "list_all client_call_ok xs" "client_run l xs = Some s"
  shows "\<exists>r s'. apply_delta s key snap reconstruct host = Some (r, s') \<and> client_ok s'
     \<and> delta_effect s key snap reconstruct host r s'"
  using apply_delta_ok[OF client_run_ok[OF assms], of key snap reconstruct host] by blast

theorem client_delta_contract_witness:
  "\<exists>s s'. client_ok s' \<and> apply_delta s demo_lineage (demo_delta 4 7 7) demo_reconstruct demo_commit
       = Some (Ok MissingBase, s')
     \<and> delta_effect s demo_lineage (demo_delta 4 7 7) demo_reconstruct demo_commit (Ok MissingBase) s'"
proof -
  let ?xs = "[CallAddLineage demo_lineage demo_retention,
       CallApplyFull demo_lineage (demo_full 5 1) demo_commit] :: (nat, nat, unit) client_call list"
  obtain s where s: "client_run demo_client_limits ?xs = Some s"
    by (simp add: client_run_def replication_eval)
  then have "\<exists>s'. apply_delta s demo_lineage (demo_delta 4 7 7) demo_reconstruct demo_commit
      = Some (Ok MissingBase, s')"
    by (auto simp: client_run_def replication_eval recover_with_def client_enter_recovery_def)
  moreover have "list_all client_call_ok ?xs" by (simp add: replication_eval)
  ultimately show ?thesis
    using client_delta_contract[OF _ s, of demo_lineage "demo_delta 4 7 7" demo_reconstruct demo_commit]
    by force
qed

section \<open>The authority\<close>

definition authority_run ::
  "session_id \<Rightarrow> authority_limits \<Rightarrow> ('s, 'd) authority_call list \<Rightarrow> ('s, 'd) authority_session exec" where
  "authority_run sid l xs = run_ops authority_step (authority_session_new sid l) xs"

lemma authority_run_ok:
  "list_all authority_call_ok xs \<Longrightarrow> authority_run sid l xs = Some a \<Longrightarrow> authority_ok a"
  using authority_machine.run_preserves[OF authority_session_new_ok, of xs sid l]
  by (simp add: authority_run_def)

text \<open>
  C35: No sequence of authority calls panics, and after every one of them the retained images and
  bytes, the reserved candidates and the emission evidence of all lineages together are within the
  aggregate limits: what preparation reserves, a later acceptance never exceeds.
\<close>

theorem authority_run_safe:
  assumes "list_all authority_call_ok xs"
  shows "\<exists>a. authority_run sid l xs = Some a \<and> authority_ok a"
  using authority_machine.run_good[OF authority_session_new_ok assms, of sid l]
  by (simp add: authority_run_def)

theorem authority_run_safe_witness:
  "\<exists>a. authority_run (SessionId 1) demo_authority_limits [CallAuthorityAdd (ParticipantId 2) demo_retention,
       CallPrepareFull (ParticipantId 2) (demo_full 1 1) True,
       CallRecordAcceptance (ParticipantId 2) DeliveryAccepted :: (nat, nat) authority_call] = Some a
     \<and> authority_ok a"
  by (rule authority_run_safe) (simp add: demo_retention_def retention_ok_def usize_max_def)

text \<open>
  C4: In every reachable state, a lineage that may send deltas sends them against its latest
  confirmed cursor, and that base image is still retained: \<open>prepare_delta\<close> never reports
  \<open>BaselineUnavailable\<close>.
\<close>

theorem delta_base_is_confirmed_and_retained:
  assumes "list_all authority_call_ok xs" "authority_run sid l xs = Some a"
    and "fmlookup (au_lineages a) p = Some n" "an_state n = DeltaEligible base"
  shows "an_latest_confirmed n = Some base \<and> baseline_available n base
     \<and> fst (lineage_prepare_delta n target tick img delta extra) \<noteq> Err BaselineUnavailable"
proof -
  have ok: "authority_lineage_ok (au_session_id a) p n"
    by (rule authority_lineageD[OF authority_run_ok[OF assms(1,2)] assms(3)])
  obtain r n' where r: "lineage_prepare_delta n target tick img delta extra = (r, n')" by fastforce
  show ?thesis
    using lineage_okD(4)[OF ok] prepare_delta_ok[OF ok r] assms(4) r by (auto simp: delta_state_ok_def)
qed

theorem delta_base_is_confirmed_and_retained_witness:
  "\<exists>a n. authority_run (SessionId 1) demo_authority_limits demo_confirmation = Some a
     \<and> fmlookup (au_lineages a) (ParticipantId 2) = Some n
     \<and> an_latest_confirmed n = Some (ReplicationCursor 1) \<and> baseline_available n (ReplicationCursor 1)"
proof -
  obtain a where a: "authority_run (SessionId 1) demo_authority_limits demo_confirmation = Some a"
    by (simp add: authority_run_def replication_eval)
  then obtain n where n: "fmlookup (au_lineages a) (ParticipantId 2) = Some n"
    "an_state n = DeltaEligible (ReplicationCursor 1)"
    by (auto simp: authority_run_def replication_eval)
  have "list_all authority_call_ok demo_confirmation" by (simp add: replication_eval)
  from delta_base_is_confirmed_and_retained[OF this a n] a n show ?thesis by blast
qed

text \<open>
  While a lineage exists its recovery generation, its greatest emitted cursor and its latest
  confirmed cursor never go back.
\<close>

theorem authority_never_goes_back:
  assumes "list_all authority_call_ok xs" "authority_run sid l xs = Some a"
    and "list_all keeps_authority_lineages ys" "run_ops authority_step a ys = Some a'"
    and "fmlookup (au_lineages a) p = Some n"
  shows "\<exists>n'. fmlookup (au_lineages a') p = Some n'
     \<and> generation_get (an_generation n) \<le> generation_get (an_generation n')
     \<and> at_least (an_greatest_emitted n) (an_greatest_emitted n')
     \<and> at_least (an_latest_confirmed n) (an_latest_confirmed n')"
  using authority_growth.run_below[OF authority_run_ok[OF assms(1,2)] assms(3,4)] assms(5)
  by (auto simp: authority_below_def authority_lineage_below_def)

theorem authority_never_goes_back_witness:
  "\<exists>a a' n n'. fmlookup (au_lineages a) (ParticipantId 2) = Some n
     \<and> an_greatest_emitted n = Some (ReplicationCursor 1)
     \<and> run_ops authority_step a [CallAcknowledge demo_session (ConnectionHandle 3) (ParticipantId 2)
          (ReplicationCursor 1) :: (nat, nat) authority_call] = Some a'
     \<and> fmlookup (au_lineages a') (ParticipantId 2) = Some n'
     \<and> at_least (Some (ReplicationCursor 1)) (an_greatest_emitted n')"
proof -
  let ?ys = "[CallAcknowledge demo_session (ConnectionHandle 3) (ParticipantId 2)
      (ReplicationCursor 1)] :: (nat, nat) authority_call list"
  obtain a where a: "authority_run (SessionId 1) demo_authority_limits demo_emission = Some a"
    by (simp add: authority_run_def replication_eval)
  then obtain n where n: "fmlookup (au_lineages a) (ParticipantId 2) = Some n"
    "an_greatest_emitted n = Some (ReplicationCursor 1)"
    by (auto simp: authority_run_def replication_eval)
  obtain a' where a': "run_ops authority_step a ?ys = Some a'"
    using a by (auto simp: authority_run_def replication_eval)
  have "list_all authority_call_ok demo_emission" "list_all keeps_authority_lineages ?ys"
    by (simp_all add: replication_eval)
  from authority_never_goes_back[OF this(1) a this(2) a' n(1)] n a' show ?thesis by auto
qed

text \<open>
  An acknowledgement moves a lineage only for the connection the session authorizes for that
  participant, and only to a cursor that was emitted and is newer than the latest confirmed one.
\<close>

theorem acknowledgement_is_authorized:
  assumes "list_all authority_call_ok xs" "authority_run sid l xs = Some a"
    and "fmlookup (au_lineages a) p = Some n" "lineage_acknowledge n s con c = (r, n')" "n' \<noteq> n"
  shows "s_id s = au_session_id a \<and> is_authorized s p con \<and> r = Ok Confirmed
     \<and> an_latest_confirmed n' = Some c \<and> emitted_by (an_greatest_emitted n) c
     \<and> at_least (an_latest_confirmed n) (Some c)"
proof -
  have ok: "authority_lineage_ok (au_session_id a) p n"
    by (rule authority_lineageD[OF authority_run_ok[OF assms(1,2)] assms(3)])
  note ack = acknowledge_ok(3,4)[OF ok assms(4)]
  obtain ev where "(c, ev) \<in> set (an_evidence n)"
    using ack(2)[OF assms(5)] by (auto dest: map_of_SomeD)
  then have "emitted_by (an_greatest_emitted n) c"
    using lineage_okD(3)[OF ok] by (fastforce simp: emitted_ok_def)
  then show ?thesis
    using ack(1) ack(2)[OF assms(5)] lineage_okD(1)[OF ok]
    by (simp add: lineage_authorized_def authority_lineage_below_def)
qed

theorem acknowledgement_is_authorized_witness:
  "\<exists>(a :: (nat, nat) authority_session) n n'. fmlookup (au_lineages a) (ParticipantId 2) = Some n
     \<and> lineage_acknowledge n demo_session (ConnectionHandle 3) (ReplicationCursor 1) = (Ok Confirmed, n')
     \<and> is_authorized demo_session (ParticipantId 2) (ConnectionHandle 3)
     \<and> emitted_by (an_greatest_emitted n) (ReplicationCursor 1)"
proof -
  obtain a where a: "authority_run (SessionId 1) demo_authority_limits demo_emission = Some a"
    by (simp add: authority_run_def replication_eval)
  then obtain n where n: "fmlookup (au_lineages a) (ParticipantId 2) = Some n"
    "an_latest_confirmed n = None"
    by (auto simp: authority_run_def replication_eval)
  obtain n' where n': "lineage_acknowledge n demo_session (ConnectionHandle 3) (ReplicationCursor 1)
      = (Ok Confirmed, n')" "an_latest_confirmed n' = Some (ReplicationCursor 1)"
    using a n by (auto simp: authority_run_def replication_eval)
  have "n' \<noteq> n" using n(2) n'(2) by auto
  moreover have "list_all authority_call_ok demo_emission" by (simp add: replication_eval)
  ultimately show ?thesis using acknowledgement_is_authorized[OF _ a n(1) n'(1)] n(1) n'(1) by blast
qed

end
