(* ===== verification/Input_Contract.thy ===== *)
theory Input_Contract
  imports Input_Safety Prediction_Safety Replication_Contract
begin

text \<open>
  The properties of participant input and of prediction over whole runs, with witnesses on the
  session and the lineage of the replication configuration and inputs that are numbers.
\<close>

section \<open>A concrete configuration\<close>

definition demo_input_limits :: authority_input_limits where
  "demo_input_limits = \<lparr>il_max_batch_bytes = 8, il_max_retained_keys = 4,
     il_max_retained_bytes = 16, il_max_future_tick_distance = 10\<rparr>"

definition demo_aggregate :: authority_input_aggregate_limits where
  "demo_aggregate = \<lparr>ia_max_retained_keys = 8, ia_max_retained_bytes = 32\<rparr>"

definition demo_window :: "u64 \<Rightarrow> u64 \<Rightarrow> input_window" where
  "demo_window lo hi = \<lparr>iw_minimum = SimulationTick lo, iw_maximum = SimulationTick hi\<rparr>"

definition demo_submit :: "u64 \<Rightarrow> nat \<Rightarrow> nat input_call" where
  "demo_submit t i = InputSubmit demo_session (ParticipantId 2) (ConnectionHandle 3) (SimulationTick t) i 4"

definition demo_input_run :: "nat input_call list" where
  "demo_input_run = [InputAdd demo_session (ParticipantId 2) (demo_window 1 9) demo_input_limits,
     demo_submit 5 50]"

definition demo_prediction_limits :: prediction_limits where
  "demo_prediction_limits = \<lparr>pm_max_pending_inputs = 4, pm_max_pending_bytes = 32,
     pm_max_future_tick_distance = 10\<rparr>"

text \<open>A host that logs what is replayed to it and refuses the input \<open>13\<close>.\<close>

definition demo_replay :: "(nat, unit, (u64 \<times> nat) list) replay" where
  "demo_replay t i h = (if i = 13 then (Err (), h) else (Ok (), h @ [(tick_get t, i)]))"

definition demo_baseline :: "(nat, nat, unit, nat, unit, (u64 \<times> nat) list) predictor_call list" where
  "demo_baseline = [PredictorReplication (CallAddLineage demo_lineage demo_retention),
     PredictorReplication (CallApplyFull demo_lineage (demo_full 2 2) demo_commit),
     PredictorObserve demo_replay]"

definition demo_pending ::
  "nat \<Rightarrow> (nat, nat, unit, nat, unit, (u64 \<times> nat) list) predictor_call list" where
  "demo_pending i = demo_baseline
     @ [PredictorAdmit (SimulationTick 6) i 4, PredictorAdmit (SimulationTick 3) 20 4,
        PredictorAdmit (SimulationTick 4) 30 4,
        PredictorReplication (CallApplyFull demo_lineage (demo_full 3 3) demo_commit)]"

lemmas input_eval =
  demo_input_limits_def demo_aggregate_def demo_window_def demo_submit_def demo_input_run_def
  authority_input_new_def add_participant_def participant_input_new_def window_span_def
  submit_input_def input_fits_def retained_input_at_def participant_window_def advance_window_def
  reconcile_memberships_def

lemmas prediction_eval =
  demo_prediction_limits_def demo_replay_def demo_baseline_def demo_pending_def prediction_new_def
  admit_local_def observe_replication_def observe_boundary_def new_boundary_def observe_commit_def
  reconcile_committed_def reactivates_def activate_at_def frontier_ahead_def prediction_frontier_def
  terminal_reason_def om_remove_def prediction_invalidate_def

section \<open>The authority's input buffer\<close>

definition input_run ::
  "session_id \<Rightarrow> authority_input_aggregate_limits \<Rightarrow> 'i input_call list \<Rightarrow> 'i authority_input exec" where
  "input_run sid l xs = run_ops input_step (authority_input_new sid l) xs"

lemma input_run_ok: "list_all input_call_ok xs \<Longrightarrow> input_run sid l xs = Some a \<Longrightarrow> input_ok a"
  using input_machine.run_preserves[OF authority_input_new_ok] by (simp add: input_run_def)

text \<open>
  C36: Whatever participants, windows, sessions and inputs the authority's input buffer is driven
  with, no call panics; every participant's and the session's key and byte totals stay exact and
  within their limits, and every retained input lies inside its participant's window.
\<close>

theorem input_run_safe:
  assumes "list_all input_call_ok xs"
  shows "\<exists>a. input_run sid l xs = Some a \<and> input_ok a"
  using input_machine.run_good[OF authority_input_new_ok assms, of sid l] by (simp add: input_run_def)

theorem input_run_safe_witness:
  "\<exists>a. input_run (SessionId 1) demo_aggregate (demo_input_run @ [demo_submit 6 60]) = Some a \<and> input_ok a"
  by (rule input_run_safe) (simp add: input_eval tick_order_defs)

text \<open>
  A submission is accepted exactly when its session matches, its connection is the
  participant's current binding, its tick lies in the window, nothing is retained for that tick and
  the limits leave room; then exactly that entry is added. Every other submission is answered by
  the first check it fails and changes nothing: a retained tick answers duplicate for the same
  value and conflicting for another one.
\<close>

theorem input_submit_contract:
  assumes "list_all input_call_ok xs" "input_run sid l xs = Some a"
  shows "\<exists>a'. submit_input a s p c t i b = Some (classify_input a s p c t i b, a') \<and> input_ok a'
     \<and> (if classify_input a s p c t i b = Ok InputAccepted
        then is_authorized s p c \<and> retained_input_at a p t = None
          \<and> retained_input_at a' p t = Some \<lparr>ri_value = i, ri_bytes = b\<rparr>
          \<and> (\<forall>q u. (q, u) \<noteq> (p, t) \<longrightarrow> retained_input_at a' q u = retained_input_at a q u)
          \<and> ai_retained_bytes a' = ai_retained_bytes a + b
        else a' = a)"
proof -
  have ok: "input_ok a" by (rule input_run_ok[OF assms])
  show ?thesis
  proof (cases "classify_input a s p c t i b = Ok InputAccepted")
    case True
    then obtain st where st: "is_authorized s p c" "fmlookup (ai_participants a) p = Some st"
      "map_of (pi_retained st) t = None" by (rule classify_acceptedE)
    have "om_wf (pi_retained st)" using input_okD[OF ok st(2)] by (simp add: participant_input_ok_def)
    then have at: "retained_input_at (accept_input p t i b a) q u =
        (if (q, u) = (p, t) then Some \<lparr>ri_value = i, ri_bytes = b\<rparr> else retained_input_at a q u)" for q u
      using st(2) by (auto simp: retained_input_at_def accept_input_def with_input_def map_of_om_insert)
    show ?thesis using True st accept_input_ok[OF ok True]
      by (simp add: submit_input_eq at) (simp add: retained_input_at_def accept_input_def)
  qed (use ok in \<open>simp add: submit_input_eq\<close>)
qed

theorem input_submit_contract_witness:
  "\<exists>a a'. submit_input a demo_session (ParticipantId 2) (ConnectionHandle 3) (SimulationTick 7) (70::nat) 4
       = Some (Ok InputAccepted, a')
     \<and> retained_input_at a' (ParticipantId 2) (SimulationTick 7) = Some \<lparr>ri_value = 70, ri_bytes = 4\<rparr>
     \<and> retained_input_at a' (ParticipantId 2) (SimulationTick 5) = Some \<lparr>ri_value = 50, ri_bytes = 4\<rparr>"
proof -
  have ok: "list_all input_call_ok demo_input_run" by (simp add: input_eval tick_order_defs)
  obtain a where a: "input_run (SessionId 1) demo_aggregate demo_input_run = Some a"
    and five: "retained_input_at a (ParticipantId 2) (SimulationTick 5) = Some \<lparr>ri_value = 50, ri_bytes = 4\<rparr>"
    and acc: "\<exists>a'. submit_input a demo_session (ParticipantId 2) (ConnectionHandle 3) (SimulationTick 7) (70::nat) 4
       = Some (Ok InputAccepted, a')"
    by (simp add: input_run_def input_eval replication_eval)
  note contract = input_submit_contract[OF ok a, of demo_session "ParticipantId 2" "ConnectionHandle 3" "SimulationTick 7" 70 4]
  from acc contract have "classify_input a demo_session (ParticipantId 2) (ConnectionHandle 3) (SimulationTick 7) 70 4
     = Ok InputAccepted" by auto
  with contract obtain a' where a':
    "submit_input a demo_session (ParticipantId 2) (ConnectionHandle 3) (SimulationTick 7) 70 4 = Some (Ok InputAccepted, a')"
    "retained_input_at a' (ParticipantId 2) (SimulationTick 7) = Some \<lparr>ri_value = 70, ri_bytes = 4\<rparr>"
    "\<forall>q u. (q, u) \<noteq> (ParticipantId 2, SimulationTick 7) \<longrightarrow> retained_input_at a' q u = retained_input_at a q u"
    by auto
  from a'(3) five have "retained_input_at a' (ParticipantId 2) (SimulationTick 5) = Some \<lparr>ri_value = 50, ri_bytes = 4\<rparr>"
    by simp
  with a' show ?thesis by (intro exI[of _ a] exI[of _ a']) simp
qed

text \<open>
  C19: Windows only move forward, and an accepted input is immutable. Over any later calls that keep the
  participant, that is, among which no reconciliation with a session has lost its membership, its window
  never moves back, and until the window's minimum passes the input's tick no call replaces the input
  or makes the buffer forget it, so that tick never becomes applicable a second time.
\<close>

theorem accepted_input_is_immutable:
  assumes "list_all input_call_ok xs" "input_run sid l xs = Some a"
    and "list_all (keeps_participant p) ys" "run_ops input_step a ys = Some a'"
    and "retained_input_at a p t = Some r"
  shows "\<exists>w w'. participant_window a p = Some w \<and> participant_window a' p = Some w'
     \<and> iw_minimum w \<le> iw_minimum w' \<and> iw_maximum w \<le> iw_maximum w'
     \<and> (t < iw_minimum w' \<or> retained_input_at a' p t = Some r)"
proof -
  have below: "input_below p a a'"
    by (rule input_growth.run_below[OF input_run_ok[OF assms(1,2)] assms(3,4)])
  obtain x where x: "fmlookup (ai_participants a) p = Some x" "map_of (pi_retained x) t = Some r"
    using assms(5) by (auto simp: retained_input_at_def bind_eq_Some_conv)
  then obtain y where "fmlookup (ai_participants a') p = Some y" "participant_below x y"
    using below by (auto simp: input_below_def)
  then show ?thesis using x
    by (cases "t < iw_minimum (pi_window y)")
       (auto simp: participant_below_def participant_window_def retained_input_at_def linorder_not_less)
qed

theorem accepted_input_is_immutable_witness:
  "\<exists>a a'. run_ops input_step a [demo_submit 5 51, InputAdvance (ParticipantId 2) (demo_window 4 12)] = Some a'
     \<and> retained_input_at a' (ParticipantId 2) (SimulationTick 5) = Some \<lparr>ri_value = 50, ri_bytes = 4\<rparr>"
proof -
  let ?ys = "[demo_submit 5 51, InputAdvance (ParticipantId 2) (demo_window 4 12)]"
  have ok: "list_all input_call_ok demo_input_run" "list_all (keeps_participant (ParticipantId 2)) ?ys"
    by (simp_all add: input_eval tick_order_defs)
  obtain a where a: "input_run (SessionId 1) demo_aggregate demo_input_run = Some a"
    and five: "retained_input_at a (ParticipantId 2) (SimulationTick 5) = Some \<lparr>ri_value = 50, ri_bytes = 4\<rparr>"
    and a': "\<exists>a'. run_ops input_step a ?ys = Some a'
       \<and> map_option iw_minimum (participant_window a' (ParticipantId 2)) = Some (SimulationTick 4)"
    by (simp add: input_run_def input_eval replication_eval)
  obtain a' where a': "run_ops input_step a ?ys = Some a'"
    "map_option iw_minimum (participant_window a' (ParticipantId 2)) = Some (SimulationTick 4)" using a' by blast
  from accepted_input_is_immutable[OF ok(1) a ok(2) a'(1) five] a' show ?thesis
    by (auto simp: tick_order_defs)
qed

text \<open>
  Advancing a window drops exactly the inputs below the new minimum, and reconciling with the
  session drops exactly the participants it no longer has a membership for, in ascending order;
  neither can fail with an accounting error.
\<close>

theorem input_release_exact:
  assumes "list_all input_call_ok xs" "input_run sid l xs = Some a" "iw_minimum w \<le> iw_maximum w"
  shows "(\<exists>r a1. advance_window a p w = Some (r, a1) \<and> r \<noteq> Err AccountingOverflow
       \<and> r \<noteq> Err AccountingInvariantViolation
       \<and> (r = Ok () \<longrightarrow> (\<forall>t. retained_input_at a1 p t =
            (if iw_minimum w \<le> t then retained_input_at a p t else None)))
       \<and> (r \<noteq> Ok () \<longrightarrow> a1 = a))
     \<and> (s_id s = ai_session a \<longrightarrow>
       (\<exists>ps a2. reconcile_memberships a s = Some (Ok ps, a2)
       \<and> sorted_wrt (\<lambda>p q. participant_get p < participant_get q) ps
       \<and> set ps = {q. participant_window a q \<noteq> None \<and> membership_state s q = None}
       \<and> (\<forall>q. fmlookup (ai_participants a2) q =
            (if membership_state s q = None then None else fmlookup (ai_participants a) q))))"
proof -
  have ok: "input_ok a" by (rule input_run_ok[OF assms(1,2)])
  let ?ps = "removed_participants a s"
  have "set ?ps = {q. participant_window a q \<noteq> None \<and> membership_state s q = None}"
    by (auto simp: removed_participants_iff participant_window_def)
  moreover have "fmlookup (ai_participants (dropped_participants ?ps a)) q =
      (if membership_state s q = None then None else fmlookup (ai_participants a) q)" for q
    by (auto simp: dropped_participants_def Let_def fmlookup_fold_fmdrop removed_participants_iff)
  ultimately show ?thesis using removed_participants_sorted[of a s]
    by (auto simp: advance_window_eq[OF ok assms(3)] reconcile_memberships_eq[OF ok] retained_input_at_def
        put_participant_def Let_def advanced_def map_of_filter_keys split: option.split)
qed

theorem input_release_exact_witness:
  "\<exists>a a1. advance_window (a :: nat authority_input) (ParticipantId 2) (demo_window 6 12) = Some (Ok (), a1)
     \<and> retained_input_at a (ParticipantId 2) (SimulationTick 5) \<noteq> None
     \<and> retained_input_at a1 (ParticipantId 2) (SimulationTick 5) = None"
proof -
  have ok: "list_all input_call_ok demo_input_run" by (simp add: input_eval tick_order_defs)
  obtain a where a: "input_run (SessionId 1) demo_aggregate demo_input_run = Some a"
    "retained_input_at a (ParticipantId 2) (SimulationTick 5) \<noteq> None"
    "\<exists>a1. advance_window a (ParticipantId 2) (demo_window 6 12) = Some (Ok (), a1)"
    by (simp add: input_run_def input_eval replication_eval)
  have "iw_minimum (demo_window 6 12) \<le> iw_maximum (demo_window 6 12)"
    by (simp add: demo_window_def tick_order_defs)
  note contract = input_release_exact[OF ok a(1) this, of "ParticipantId 2"]
  obtain a1 where a1: "advance_window a (ParticipantId 2) (demo_window 6 12) = Some (Ok (), a1)"
    using a(3) by blast
  with contract have "retained_input_at a1 (ParticipantId 2) (SimulationTick 5) =
     (if iw_minimum (demo_window 6 12) \<le> SimulationTick 5
      then retained_input_at a (ParticipantId 2) (SimulationTick 5) else None)" by simp
  then have "retained_input_at a1 (ParticipantId 2) (SimulationTick 5) = None"
    by (simp add: demo_window_def tick_order_defs)
  with a(2) a1 show ?thesis by (intro exI[of _ a] exI[of _ a1]) simp
qed

section \<open>Prediction\<close>

definition predictor_run ::
  "client_limits \<Rightarrow> lineage_key \<Rightarrow> prediction_limits \<Rightarrow> 'h \<Rightarrow>
     ('s, 'd, 'e, 'i, 'f, 'h) predictor_call list \<Rightarrow> ('s, 'i, 'h) predictor exec" where
  "predictor_run l key pm h xs = run_ops predictor_step (client_set_new l, prediction_new key pm, h) xs"

lemma predictor_start_ok: "prediction_limits_ok pm \<Longrightarrow> predictor_ok (client_set_new l, prediction_new key pm, h)"
  by (simp add: client_set_new_ok prediction_new_ok follows_def) (simp add: prediction_new_def prediction_frontier_def)

lemma predictor_run_ok:
  assumes "prediction_limits_ok pm" "list_all predictor_call_ok xs" "predictor_run l key pm h xs = Some (s, p, h')"
  shows "client_ok s" "prediction_ok p" "follows s p"
  using predictor_machine.run_preserves[OF predictor_start_ok[OF assms(1)] assms(2), of l key h "(s, p, h')"]
    assms(3) by (simp_all add: predictor_run_def)

lemma demo_prediction_ok: "prediction_limits_ok demo_prediction_limits"
  by (simp add: prediction_limits_ok_def demo_prediction_limits_def usize_max_def)

lemma demo_pending_calls: "list_all predictor_call_ok (demo_pending i)"
  by (simp add: demo_pending_def demo_baseline_def demo_retention_def retention_ok_def usize_max_def)

text \<open>
  Prediction and the replication lineage it follows can be driven in any order without a panic:
  pending inputs stay sorted, accounted, bounded and strictly ahead of the frontier, none survives an
  invalidation, and what prediction has observed never exceeds what is committed. Observing can then
  only fail because the lineage does not exist or because the host failed a replay.
\<close>

theorem predictor_run_safe:
  assumes "prediction_limits_ok pm" "list_all predictor_call_ok xs"
  shows "\<exists>s p h'. predictor_run l key pm h xs = Some (s, p, h') \<and> client_ok s \<and> prediction_ok p \<and> follows s p
     \<and> (\<forall>replay h1. expected_observation s p (fst (observe_replication p s replay h1)))"
proof -
  obtain s p h' where run: "predictor_run l key pm h xs = Some (s, p, h')"
    using predictor_machine.run_good[OF predictor_start_ok[OF assms(1)] assms(2), of l key h]
    by (auto simp: predictor_run_def)
  note ok = predictor_run_ok[OF assms run]
  show ?thesis
    by (intro exI[of _ s] exI[of _ p] exI[of _ h'] conjI allI conjunct2[OF observe_replication_moves[OF ok]])
       (use ok run in auto)
qed

theorem predictor_run_safe_witness:
  "\<exists>s p h'. predictor_run demo_client_limits demo_lineage demo_prediction_limits [] (demo_pending 50) = Some (s, p, h')
     \<and> prediction_ok p \<and> follows s p"
  using predictor_run_safe[OF demo_prediction_ok demo_pending_calls, of demo_client_limits demo_lineage "[]" 50]
  by blast

text \<open>
  C20: Reconciliation. An active prediction observes a newer commit at tick \<open>t\<close> of a synchronized lineage.
  If the lineage has crossed no recovery boundary that the prediction has not seen yet, the frontier
  becomes \<open>t\<close>, exactly the pending inputs at or before \<open>t\<close> are retired without replay, and the rest is
  presented to the host once each in ascending tick order: if every call succeeds they all stay pending
  and their number is reported, and at the first failure the prediction is invalidated with nothing
  pending, keeping the frontier, and the failing tick is reported. If it has crossed one, every pending
  input is discarded, the host is not called, and the prediction starts afresh at \<open>t\<close>.
\<close>

theorem reconciliation_replays_pending:
  assumes "prediction_limits_ok pm" "list_all predictor_call_ok xs" "predictor_run l key pm h xs = Some (s, p, h1)"
    and "pl_state p = PredictionActive f" "fmlookup (cs_lineages s) (pl_key p) = Some n"
    and "cn_state n = Synchronized"
    and "cn_current n = Some c" "pl_last_commit p \<noteq> Some c" "current_tick n = Some t"
  shows "f \<le> t
     \<and> (case new_boundary p n of
          None \<Rightarrow> replay_result (reconciled c t p) t replay h1 (observe_replication p s replay h1)
            \<and> pl_state (reconciled c t p) = PredictionActive t
            \<and> pl_pending (reconciled c t p) = filter (\<lambda>e. t < fst e) (pl_pending p)
            \<and> sorted_wrt (<) (map fst (pl_pending p))
        | Some (b, reason) \<Rightarrow> \<exists>p'. observe_replication p s replay h1 = (Ok (ActivatedFromAuthoritative t), p', h1)
            \<and> pl_state p' = PredictionActive t \<and> pl_pending p' = [] \<and> pl_pending_bytes p' = 0
            \<and> pl_last_commit p' = Some c \<and> pl_last_boundary p' = Some b)"
proof -
  note ok = predictor_run_ok[OF assms(1-3)]
  have "committed_tick s (pl_key p) = Some t" "committed_cursor s (pl_key p) = Some c"
    using assms(5,7,9) by (simp_all add: committed_tick_def committed_cursor_def)
  then have le: "f \<le> t" and obs: "at_least (pl_last_commit p) (Some c)"
    using followsD[OF ok(3)] assms(4) by (simp_all add: prediction_frontier_def)
  have live: "terminal_reason p = None" using assms(4) by (simp add: terminal_reason_def)
  have settle: "observe_commit p1 n c replay h1 = reconcile_committed p1 c t replay h1"
    if "pl_last_commit p1 = pl_last_commit p" for p1
  proof (cases "pl_last_commit p")
    case (Some o')
    then have "\<not> c < o'" "c \<noteq> o'" using obs assms(8) by auto
    then show ?thesis using Some that assms(9) by (simp add: observe_commit_def)
  qed (use that assms(9) in \<open>simp add: observe_commit_def\<close>)
  show ?thesis
  proof (cases "new_boundary p n")
    case None
    then have "observe_boundary p n = p" by (simp add: observe_boundary_def)
    then have "observe_replication p s replay h1 = reconcile_committed p c t replay h1"
      using assms(5,6,7) live settle[of p] by (simp add: observe_replication_def Let_def)
    then show ?thesis
      using reconcile_active[OF ok(2) assms(4) le, of c replay h1] le ok(2) None
      by (simp add: reconciled_def Let_def prediction_ok_def om_wf_def)
  next
    case (Some z)
    obtain b reason where z: "z = (b, reason)" by (cases z)
    let ?p = "prediction_invalidate (ReplicationRecovery reason) (p\<lparr>pl_last_boundary := Some b\<rparr>)"
    have p1: "observe_boundary p n = ?p"
      using Some live z by (simp add: observe_boundary_def invalidate_for_recovery_def terminal_reason_def)
    have facts: "terminal_reason ?p = None" "pl_last_commit ?p = pl_last_commit p" "\<not> frontier_ahead ?p t"
      "pl_state ?p = PredictionInvalidated (ReplicationRecovery reason) (Some f)" "pl_last_boundary ?p = Some b"
      using le assms(4)
      by (simp_all add: prediction_invalidate_def terminal_reason_def frontier_ahead_def
          prediction_frontier_def linorder_not_less)
    have "observe_replication p s replay h1 = reconcile_committed ?p c t replay h1"
      using assms(5,6,7) p1 facts(1) settle[OF facts(2)] by (simp add: observe_replication_def Let_def)
    also have "\<dots> = (Ok (ActivatedFromAuthoritative t), activate_at t (?p\<lparr>pl_last_commit := Some c\<rparr>), h1)"
      using facts(3,4) by (simp add: reconcile_committed_def reactivates_def Let_def)
    finally show ?thesis using le facts(5) Some z by (simp add: activate_at_def)
  qed
qed

theorem reconciliation_replays_pending_witness:
  "\<exists>s p. predictor_run demo_client_limits demo_lineage demo_prediction_limits [] (demo_pending 50) = Some (s, p, [])
     \<and> snd (snd (observe_replication p s demo_replay [])) = [(4, 30), (6, 50)]"
proof -
  let ?R = "predictor_run demo_client_limits demo_lineage demo_prediction_limits [] (demo_pending 50)"
  obtain s p n where r: "?R = Some (s, p, [])" "pl_state p = PredictionActive (SimulationTick 2)"
    "fmlookup (cs_lineages s) (pl_key p) = Some n" "cn_state n = Synchronized" "new_boundary p n = None"
    "cn_current n = Some (ReplicationCursor 3)" "pl_last_commit p \<noteq> Some (ReplicationCursor 3)"
    "current_tick n = Some (SimulationTick 3)"
    and pending: "pl_pending p = [(SimulationTick 3, \<lparr>pd_value = 20, pd_bytes = 4\<rparr>),
       (SimulationTick 4, \<lparr>pd_value = 30, pd_bytes = 4\<rparr>), (SimulationTick 6, \<lparr>pd_value = 50, pd_bytes = 4\<rparr>)]"
    by (simp add: predictor_run_def prediction_eval replication_eval)
  from reconciliation_replays_pending[OF demo_prediction_ok demo_pending_calls r(1-4,6-8), of demo_replay] r(5)
  have "replay_result (reconciled (ReplicationCursor 3) (SimulationTick 3) p) (SimulationTick 3) demo_replay []
      (observe_replication p s demo_replay [])"
    and "pl_pending (reconciled (ReplicationCursor 3) (SimulationTick 3) p)
      = filter (\<lambda>e. SimulationTick 3 < fst e) (pl_pending p)" by simp_all
  then have "snd (snd (observe_replication p s demo_replay [])) = [(4, 30), (6, 50)]"
    by (simp add: replay_result_def pending tick_order_defs demo_replay_def)
  with r(1) show ?thesis by blast
qed

text \<open>
  While a lineage exists, the cursor and the frontier a prediction has observed never go back,
  except that ending the membership or the session gives the frontier up for good: a terminated
  prediction stays terminated.
\<close>

theorem prediction_never_goes_back:
  assumes "prediction_limits_ok pm" "list_all predictor_call_ok xs" "predictor_run l key pm h xs = Some (s, p, h1)"
    and "list_all predictor_call_ok ys" "run_ops predictor_step (s, p, h1) ys = Some (s', p', h2)"
  shows "at_least (pl_last_commit p) (pl_last_commit p') \<and> (terminated p \<longrightarrow> terminated p')
     \<and> (terminated p' \<or> at_least (prediction_frontier p) (prediction_frontier p'))"
proof -
  have "predictor_ok (s, p, h1)" using predictor_run_ok[OF assms(1-3)] by simp
  from predictor_machine.run_below[OF this assms(4,5)] show ?thesis by auto
qed

theorem prediction_never_goes_back_witness:
  "\<exists>s p s' p' h'. predictor_run demo_client_limits demo_lineage demo_prediction_limits [] (demo_pending 13) = Some (s, p, [])
     \<and> run_ops predictor_step (s, p, []) [PredictorObserve demo_replay
          :: (nat, nat, unit, nat, unit, (u64 \<times> nat) list) predictor_call] = Some (s', p', h')
     \<and> prediction_frontier p = Some (SimulationTick 2) \<and> at_least (Some (SimulationTick 2)) (prediction_frontier p')
     \<and> pl_state p' = PredictionInvalidated ReplayFailure (Some (SimulationTick 3))"
proof -
  let ?ys = "[PredictorObserve demo_replay] :: (nat, nat, unit, nat, unit, (u64 \<times> nat) list) predictor_call list"
  obtain s p where r: "predictor_run demo_client_limits demo_lineage demo_prediction_limits [] (demo_pending 13) = Some (s, p, [])"
    and f: "prediction_frontier p = Some (SimulationTick 2)"
    and step: "\<exists>s' p' h'. run_ops predictor_step (s, p, []) ?ys = Some (s', p', h')
      \<and> pl_state p' = PredictionInvalidated ReplayFailure (Some (SimulationTick 3))"
    by (simp add: predictor_run_def prediction_eval replication_eval)
  then obtain s' p' h' where step': "run_ops predictor_step (s, p, []) ?ys = Some (s', p', h')"
    "pl_state p' = PredictionInvalidated ReplayFailure (Some (SimulationTick 3))" by blast
  have "\<not> terminated p'" using step'(2) by (simp add: terminated_def terminal_reason_def)
  moreover have "list_all predictor_call_ok ?ys" by simp
  note prediction_never_goes_back[OF demo_prediction_ok demo_pending_calls r this step'(1)]
  ultimately have "at_least (Some (SimulationTick 2)) (prediction_frontier p')" using f by simp
  with r f step' show ?thesis
    by (intro exI[of _ s] exI[of _ p] exI[of _ s'] exI[of _ p'] exI[of _ h']) simp
qed

text \<open>
  A local input is admitted exactly when prediction is active, its tick is past the frontier and
  within the future distance, nothing is pending for it, and count and bytes leave room; then exactly
  that entry becomes pending. Any other answer changes nothing.
\<close>

theorem local_admission_contract:
  assumes "prediction_limits_ok pm" "list_all predictor_call_ok xs" "predictor_run l key pm h xs = Some (s, p, h1)"
  shows "(fst (admit_local p t i b) = LocalInputAccepted \<longleftrightarrow>
       (\<exists>f. pl_state p = PredictionActive f \<and> f < t \<and> pending_input p t = None
          \<and> tick_get t - tick_get f \<le> pm_max_future_tick_distance (pl_limits p)
          \<and> length (pl_pending p) < pm_max_pending_inputs (pl_limits p)
          \<and> pl_pending_bytes p + b \<le> pm_max_pending_bytes (pl_limits p)))
     \<and> (if fst (admit_local p t i b) = LocalInputAccepted
        then \<forall>u. pending_input (snd (admit_local p t i b)) u = (if u = t then Some i else pending_input p u)
        else snd (admit_local p t i b) = p)"
proof -
  have ok: "prediction_ok p" by (rule predictor_run_ok(2)[OF assms])
  then have room: "pl_pending_bytes p + b \<le> usize_max"
    if "pl_pending_bytes p + b \<le> pm_max_pending_bytes (pl_limits p)"
    using that by (simp add: prediction_ok_def prediction_limits_ok_def)
  have wf: "om_wf (pl_pending p)" using ok by (simp add: prediction_ok_def)
  show ?thesis
    using room wf
    by (auto simp: admit_local_def pending_input_def map_of_om_insert checked_add_def linorder_not_le
        linorder_not_less split: prediction_state.split option.split)
qed

theorem local_admission_contract_witness:
  "\<exists>s p. predictor_run demo_client_limits demo_lineage demo_prediction_limits [] (demo_pending 50) = Some (s, p, [])
     \<and> fst (admit_local p (SimulationTick 5) 40 4) = LocalInputAccepted
     \<and> pending_input (snd (admit_local p (SimulationTick 5) 40 4)) (SimulationTick 5) = Some 40"
proof -
  obtain s p where r: "predictor_run demo_client_limits demo_lineage demo_prediction_limits [] (demo_pending 50) = Some (s, p, [])"
    and a: "fst (admit_local p (SimulationTick 5) 40 4) = LocalInputAccepted"
    by (simp add: predictor_run_def prediction_eval replication_eval)
  from local_admission_contract[OF demo_prediction_ok demo_pending_calls r, of "SimulationTick 5" 40 4] a r
  show ?thesis by (intro exI[of _ s] exI[of _ p]) simp
qed

end
