(* ===== verification/Spec2Isabelle.thy ===== *)
theory Spec2Isabelle
  imports Driver_Contract Public_Contract Wire_Contract Input_Contract
begin

text \<open>
  A verification library of runen-net, a networking core for authoritative multiplayer programs.

  The program. The crate \<open>crates/runen-net\<close> is a set of state machines without I/O: a host drives
  them by method calls, and a transport crate (\<open>crates/runen-net-quic\<close>) moves bytes. Two parties
  compare compatibility offers and agree on a contract (\<open>protocol.rs\<close>); a negotiated connection is
  admitted to a session as a participant (\<open>session.rs\<close>); messages travel over delivery flows with
  bounded queues (\<open>delivery.rs\<close>); the authority sends state snapshots that clients commit and
  acknowledge (\<open>replication/\<close>); clients send inputs per simulation tick, which the authority buffers
  and the client predicts (\<open>input/\<close>). Each part is safe only if its own accounting and ordering hold
  under every sequence of calls, since the peer and the host choose that sequence.

  How code is translated. A struct is a record and an enum a datatype. \<open>u64\<close> and \<open>u128\<close> are words,
  \<open>usize\<close> is a natural number with \<open>checked_add\<close>, \<open>checked_sub\<close> and \<open>saturating_add\<close> at
  \<open>usize_max\<close> (Prelude). A \<open>Result\<close> is \<open>Ok\<close> or \<open>Err\<close>; an operation returns it with the new state, so
  what an error leaves behind is part of the model. A call that may panic (\<open>expect\<close>, \<open>unreachable!\<close>,
  an unchecked subtraction) has the type \<open>exec\<close> and its panic is \<open>None\<close>; that \<open>None\<close> never comes
  back is proved, never assumed. \<open>HashMap\<close> and \<open>HashSet\<close> are finite maps and sets; \<open>BTreeMap\<close> is a
  sorted association list (Ordered_Map), since the code depends on its order. Loops over queues whose
  number of rounds the data decides (\<open>evict_until_fits\<close>, \<open>poll_sequenced_exposure\<close>, \<open>retain_room\<close>) are
  partial functions in the option monad: not returning is \<open>None\<close> too, and the same theorems show that
  they return. No fuel is used anywhere. An await that may be cancelled ends in \<open>Cancelled\<close>, and
  whether an allocation succeeds is an argument. Callbacks of the host (delta reconstruction, state commit,
  input replay) are function arguments.

  The theories, in the order of the calls.
  \<^item> Prelude, Ordered_Map: results, checked arithmetic, sums over finite maps, sorted association
    lists, and the locales \<open>guarded_machine\<close> and \<open>monotone_machine\<close>, which lift facts about one call to
    runs of calls. Every component below interprets one of them.
  \<^item> Identity: \<open>identity.rs\<close>, identifiers and the registry of used identities.
  \<^item> Offers, Negotiation: \<open>protocol.rs\<close> and \<open>protocol_declaration.rs\<close>. Negotiation_Safety: the
    declarative agreement, the manager's invariant and its preservation.
  \<^item> Session_Membership: \<open>session.rs\<close>. Session_Safety: each operation as a change of the bindings,
    the invariant, monotone facts of runs.
  \<^item> Admission_Contract: the properties of the three parts above.
  \<^item> Delivery_Types, Delivery_Endpoint: \<open>delivery.rs\<close> and \<open>delivery_acceptance.rs\<close>.
    Delivery_Accounting: counters against the true totals. Delivery_Flows: well-formed flows.
    Delivery_Safety: no call panics, what submit, receive and poll promise, and the trace of a run.
    Delivery_Channels: the abstract channel of one flow, the simulation, and the locales on streams of
    indices. Delivery_Contract: the properties, the end-to-end one over two endpoints included.
  \<^item> Replication_Types: \<open>replication/model.rs\<close>. Client_Replication, Client_Safety:
    \<open>replication/client.rs\<close>. Authority_Replication, Authority_Safety: \<open>replication/authority.rs\<close>.
    Replication_Contract: the properties.
  \<^item> Authority_Input, Input_Safety: \<open>input/authority.rs\<close>. Prediction, Prediction_Safety:
    \<open>input/prediction.rs\<close>, driven together with a client set. Input_Contract: the properties.
  \<^item> Bytes, Wire: \<open>wire.rs\<close> of \<open>crates/runen-net-quic\<close>, the codec. Wire_Safety: what is written
    and read as lists of values. Wire_Contract: the properties.
  \<^item> Reliable_Framing: \<open>reliable.rs\<close>, the incremental frame decoder, and its refinement of the
    framing of the whole stream. Flow_Registry, Reliable_Streams: \<open>quinn_binding.rs\<close>, the registry of
    accepted flows and the bindings of reliable flows to streams. Stream_Sender, Stream_Receiver: the
    bytes a sender leaves on its stream and the messages a receiver takes from its own, among any
    other calls of the hosts. Stream_Contract: the properties, from core to core.

  \<^item> Profile_Settings: \<open>endpoint.rs\<close>, the checked resource limits and the connection slots, and of
    \<open>control.rs\<close> the settings, their codec and the local limits. Control_Stream: the rest of
    \<open>control.rs\<close>, bootstrap and the framed control stream. Control_Safety: the bytes of a frame and the
    laws of streams that may be cancelled. Control_Contract: the properties.
  \<^item> Datagrams: \<open>datagram.rs\<close>, unreliable flows over datagrams. Datagram_Contract: the properties.
  \<^item> Flow_Control: \<open>flow_control.rs\<close>, flows opened, accepted, rejected and terminated by control frames.
    Flow_Control_Safety: the invariant, opens and answers. Flow_Decisions: every frame and every
    decision as one change of core and registry, or none. Flow_Machine: all calls as one machine.
    Flow_Contract: the properties, those of two ends included.
  \<^item> Exchange_Codec, Exchange: \<open>negotiation.rs\<close>, the bodies of the negotiation frames with the budget
    that bounds what a decoder holds, and the exchange that drives the negotiation manager. Exchange_Wire:
    the decoders as exact readers. Exchange_Bodies: the encoders, and that the decoders invert them.
    Exchange_Safety: what the manager holds in every state of an exchange. Exchange_Contract: the
    properties, those of two ends included.
  \<^item> Lifecycle: \<open>lifecycle.rs\<close>, the admission of a connection under a slot on both sides, the close codes,
    the hand-over of the parts of a connection, and its teardown.
  \<^item> Flow_Driver, Reliable_Driver, Datagram_Driver, Connection_Driver: \<open>flow_driver.rs\<close>,
    \<open>reliable_driver.rs\<close>, \<open>datagram_driver.rs\<close> and \<open>connection_driver.rs\<close>. The driver of one connection
    owns its flow control, streams, datagram channels and control stream; a poll visits eight categories
    of work from a cursor and ends with the first result. Driver_Streams: why bindings that share one
    core and one registry do not disturb each other. Driver_Flows: the flow control as the driver calls
    it. Driver_Safety: the invariant, and what the data categories keep of it. Driver_Failures,
    Driver_Receives, Driver_Turns, Driver_Polls, Driver_Calls: failures, received frames, the
    categories, the whole poll and the calls of the host; the last shows that the driver is a machine.
    Lifecycle_Contract, Driver_Contract: the properties.
  \<^item> Facade, Public_Flow: \<open>facade.rs\<close>, configurations, their baselines and the admission of connections
    as a host sees it, and \<open>public_flow.rs\<close>, the vocabulary of the commands on flows. Public_Connection,
    Public_Calls: \<open>public_connection.rs\<close>, the connection that a host polls from its negotiation to its
    end, and what the host asks of it. Public_Safety, Public_Calls_Safety: the invariant of a connection
    in each of its states, under its own polls and calls and those of the other connections.
    Public_Host: a host with its endpoint and its connections as one machine. Public_Contract: the
    properties.

  What the properties show. For every stateful component: from a new state no sequence of calls
  panics or diverges and the invariant holds (\<open>*_run_safe\<close>); the totals the code keeps are the true
  totals and within the limits; cursors, ticks, generations and indices never go back; each operation's
  result on every branch (\<open>*_contract\<close>). Across components: reliable delivery end to end over two
  endpoints, in messages and over a byte stream that is written and read in pieces of any size, deltas only against confirmed and retained bases, acknowledgements only over the
  connection a session authorizes, establishment only on a selection both offers allow. Over the
  transport: settings that both ends agree on, control frames that arrive whole and in order even if
  awaits are cancelled, datagrams that carry exactly one message, flows that exist at both ends
  under one identifier, with one mode and one limit, or at neither registry, and a negotiation that
  ends with one contract at both ends or releases what it took. Of whole
  connections: a driver that runs safely from the admission of its connection on, errors of a poll that
  are final and never of its own making, every kind of work served within eight polls, control before data,
  the failure of a flow ending that flow alone and reported to the peer, connection slots counted
  exactly while admissions overlap in any way, and a teardown that leaves nothing of the connection in
  the core or the manager. Of a host: that it runs safely with any number of public connections, never
  sees an error that reports a fault of the library, hands out commands on flows only with an agreed
  contract, and that a connection that has ended stays so.

  Conditions on arguments. The predicates \<open>*_call_ok\<close> state what the types of the source guarantee and
  the model's types do not: \<open>NonZeroUsize\<close> and \<open>NonZeroU64\<close> arguments are positive, limits come from
  their constructors, sizes are at most \<open>usize_max\<close>.

  What is assumed of quinn. A stream is an argument, the record of the operations the bindings use.
  \<open>stream_writer\<close> says a write takes a prefix of the bytes offered, \<open>stream_reader\<close> that a read
  hands over the next bytes; the end-to-end property adds that what was read is a prefix of what
  was written. These are the documented guarantees of a QUIC stream; both laws are shown to hold of
  a concrete stream. For the control stream \<open>control_writer\<close>, \<open>control_reader\<close> and
  \<open>control_supply\<close> say the same of its two directions; the datagram transport is any function, of
  which only the answer to a send is used.
  For a driver \<open>driver_law\<close> collects these laws for the control stream and the streams of flows,
  and \<open>bootstrap_law\<close> states them for the streams of a connection that is being admitted. A future is
  modelled at the poll that completes it: the argument \<open>driver_turn\<close> of a poll says which of the pending
  operations complete in it and how, so a theorem for every \<open>driver_turn\<close> covers every schedule of
  the executor. For the public connections \<open>connection_law\<close> adds the laws of the two directions of the
  control stream during the negotiation, and \<open>conversions_law\<close> says which integers quinn accepts as
  variable-length integers and idle timeouts. \<open>debug_assert!\<close> is not modelled, as in a release build.

  Not modelled. Error texts (\<open>error_behavior.rs\<close> and the \<open>Display\<close> implementations) and the transport
  adapter trait (\<open>delivery/adapter.rs\<close>), which only delegates. Of \<open>crates/runen-net-quic\<close>: the building
  of quinn and TLS configurations, the binding of sockets, and the closing of an endpoint and waiting
  for it (the rest of \<open>endpoint.rs\<close> and \<open>facade.rs\<close>), calls into quinn, rustls and tokio, libraries outside
  the repository.
\<close>

end
